(* ===== verification/Prelude.thy ===== *)
theory Prelude
  imports
    Main
    "HOL-Library.AList"
    "HOL-Library.Char_ord"
    "HOL-Library.List_Lexorder"
begin

text \<open>
  Shared vocabulary of the development: the results of fallible operations (a sum with the
  thrown error on the left), the JavaScript containers the services use (\<open>Set\<close> spread
  back into an array, insertion-ordered \<open>Map\<close>), and the generic lemmas about them.
  Error values keep the class of the thrown exception and its message.
\<close>

named_theorems result_simps "rewriting of results of fallible operations"
named_theorems js_simps "rewriting of the JavaScript container operations"

subsection \<open>Thrown errors and results\<close>

datatype http_error =
    UnauthorizedException string
  | ForbiddenException string
  | NotFoundException string
  | BadRequestException string
  | ConflictException string
  | TooManyRequestsException string
  | ServiceUnavailableException string
  | OtherError string

fun error_message :: "http_error \<Rightarrow> string" where
  "error_message (UnauthorizedException m) = m"
| "error_message (ForbiddenException m) = m"
| "error_message (NotFoundException m) = m"
| "error_message (BadRequestException m) = m"
| "error_message (ConflictException m) = m"
| "error_message (TooManyRequestsException m) = m"
| "error_message (ServiceUnavailableException m) = m"
| "error_message (OtherError m) = m"

type_synonym 'a result = "http_error + 'a"

definition rbind :: "'e + 'a \<Rightarrow> ('a \<Rightarrow> 'e + 'b) \<Rightarrow> 'e + 'b" where
  "rbind m f = (case m of Inl e \<Rightarrow> Inl e | Inr x \<Rightarrow> f x)"

definition ensure :: "bool \<Rightarrow> 'e \<Rightarrow> 'e + unit" where
  "ensure c e = (if c then Inr () else Inl e)"

lemma rbind_simps [simp]:
  "rbind (Inl e) f = Inl e"
  "rbind (Inr x) f = f x"
  by (simp_all add: rbind_def)

lemma rbind_Inr_iff [result_simps]:
  "rbind m f = Inr y \<longleftrightarrow> (\<exists>x. m = Inr x \<and> f x = Inr y)"
  by (cases m) auto

lemma rbind_Inl_iff [result_simps]:
  "rbind m f = Inl e \<longleftrightarrow> m = Inl e \<or> (\<exists>x. m = Inr x \<and> f x = Inl e)"
  by (cases m) auto

lemma rbind_assoc: "rbind (rbind m f) g = rbind m (\<lambda>x. rbind (f x) g)"
  by (cases m) auto

lemma rbind_cong [fundef_cong]:
  "m = m' \<Longrightarrow> (\<And>x. m' = Inr x \<Longrightarrow> f x = f' x) \<Longrightarrow> rbind m f = rbind m' f'"
  by (cases m') auto

lemma ensure_Inr_iff [result_simps]: "ensure c e = Inr u \<longleftrightarrow> c"
  by (simp add: ensure_def)

lemma ensure_Inl_iff [result_simps]: "ensure c e = Inl e' \<longleftrightarrow> \<not> c \<and> e' = e"
  by (auto simp add: ensure_def)

lemma ensure_simps [simp]:
  "ensure True e = Inr ()"
  "ensure False e = Inl e"
  by (simp_all add: ensure_def)

text \<open>Runs a fallible check over a list, stopping at the first error (a \<open>for\<close> loop).\<close>

fun each :: "('a \<Rightarrow> 'e + unit) \<Rightarrow> 'a list \<Rightarrow> 'e + unit" where
  "each f [] = Inr ()"
| "each f (x # xs) = rbind (f x) (\<lambda>_. each f xs)"

lemma each_Inr_iff [result_simps]: "each f xs = Inr u \<longleftrightarrow> (\<forall>x \<in> set xs. f x = Inr ())"
  by (induction xs) (auto simp: rbind_Inr_iff)

lemma each_cong [fundef_cong]:
  "xs = ys \<Longrightarrow> (\<And>x. x \<in> set ys \<Longrightarrow> f x = g x) \<Longrightarrow> each f xs = each g ys"
  by (induction xs arbitrary: ys) auto

text \<open>
  A transaction: its body yields the answer and the new state, or throws; then the state it
  started from is what remains.
\<close>

definition transaction :: "'d \<Rightarrow> 'e + ('a \<times> 'd) \<Rightarrow> ('e + 'a) \<times> 'd" where
  "transaction d body = (case body of Inl e \<Rightarrow> (Inl e, d) | Inr (x, d') \<Rightarrow> (Inr x, d'))"

lemma transaction_Inr [result_simps]: "transaction d body = (Inr x, d') \<longleftrightarrow> body = Inr (x, d')"
  by (auto simp: transaction_def split: sum.splits)

lemma transaction_Inl [result_simps]: "transaction d body = (Inl e, d') \<longleftrightarrow> body = Inl e \<and> d' = d"
  by (auto simp: transaction_def split: sum.splits)

lemma transaction_simps [simp]:
  "transaction d (Inl e) = (Inl e, d)"
  "transaction d (Inr (x, d')) = (Inr x, d')"
  by (simp_all add: transaction_def)

subsection \<open>Sets and maps of the source language\<close>

text \<open>\<open>[...new Set(xs)]\<close>: the first occurrence of every element, in order.\<close>

definition js_unique :: "'a list \<Rightarrow> 'a list" where
  "js_unique xs = rev (remdups (rev xs))"

lemma set_js_unique [simp]: "set (js_unique xs) = set xs"
  by (simp add: js_unique_def)

lemma distinct_js_unique [simp]: "distinct (js_unique xs)"
  by (simp add: js_unique_def)

lemma js_unique_Nil [simp]: "js_unique [] = []"
  by (simp add: js_unique_def)

lemma js_unique_eq_Nil [simp]: "js_unique xs = [] \<longleftrightarrow> xs = []"
  by (simp add: js_unique_def)

lemma js_unique_distinct: "distinct xs \<Longrightarrow> js_unique xs = xs"
  by (simp add: js_unique_def distinct_remdups_id)

lemma length_js_unique: "length (js_unique xs) = card (set xs)"
  by (simp add: js_unique_def length_remdups_card_conv)

lemma js_unique_idem [simp]: "js_unique (js_unique xs) = js_unique xs"
  by (simp add: js_unique_distinct)

text \<open>
  An insertion-ordered \<open>Map\<close> is an association list: \<open>map_of\<close> reads it and
  \<open>AList.update\<close> stores (an existing key keeps its place, a new one goes to the end).
  \<open>js_get m k d\<close> is \<open>m.get(k) || d\<close> and \<open>js_push m k x\<close> appends to the array
  stored under \<open>k\<close>.
\<close>

definition js_get :: "('k \<times> 'v) list \<Rightarrow> 'k \<Rightarrow> 'v \<Rightarrow> 'v" where
  "js_get m k d = (case map_of m k of None \<Rightarrow> d | Some v \<Rightarrow> v)"

lemma js_get_Nil [simp]: "js_get [] k d = d"
  by (simp add: js_get_def)

definition js_push :: "'k \<Rightarrow> 'v \<Rightarrow> ('k \<times> 'v list) list \<Rightarrow> ('k \<times> 'v list) list" where
  "js_push k x m = AList.update k (js_get m k [] @ [x]) m"

text \<open>Grouping rows under a key, in row order.\<close>

definition group_rows :: "('r \<Rightarrow> 'k) \<Rightarrow> ('r \<Rightarrow> 'v) \<Rightarrow> 'r list \<Rightarrow> ('k \<times> 'v list) list" where
  "group_rows key val rows = fold (\<lambda>r. js_push (key r) (val r)) rows []"

lemma map_of_js_push [js_simps]:
  "map_of (js_push k x m) = (map_of m)(k \<mapsto> js_get m k [] @ [x])"
  by (simp add: js_push_def update_conv')

lemma js_get_js_push [js_simps]:
  "js_get (js_push k x m) k' d = (if k' = k then js_get m k [] @ [x] else js_get m k' d)"
  by (auto simp: js_get_def js_simps)

lemma distinct_js_push: "distinct (map fst m) \<Longrightarrow> distinct (map fst (js_push k x m))"
  by (simp add: js_push_def distinct_update)

lemma map_of_fold_js_push:
  "map_of (fold (\<lambda>r. js_push (key r) (val r)) rows m) k =
     (if \<exists>r \<in> set rows. key r = k
      then Some (js_get m k [] @ map val (filter (\<lambda>r. key r = k) rows))
      else map_of m k)"
proof (induction rows arbitrary: m)
  case Nil
  then show ?case by simp
next
  case (Cons r rows)
  show ?case
    by (auto simp: Cons.IH js_simps js_get_def filter_empty_conv)
qed

lemma map_of_group_rows [js_simps]:
  "map_of (group_rows key val rows) k =
     (if \<exists>r \<in> set rows. key r = k
      then Some (map val (filter (\<lambda>r. key r = k) rows)) else None)"
  by (simp add: group_rows_def map_of_fold_js_push js_get_def)

lemma js_get_group_rows [js_simps]:
  "js_get (group_rows key val rows) k [] = map val (filter (\<lambda>r. key r = k) rows)"
  by (auto simp: js_get_def map_of_group_rows filter_empty_conv split: option.splits)

lemma distinct_group_rows: "distinct (map fst (group_rows key val rows))"
proof -
  have "distinct (map fst m) \<Longrightarrow>
      distinct (map fst (fold (\<lambda>r. js_push (key r) (val r)) rows m))" for m
    by (induction rows arbitrary: m) (auto simp: distinct_js_push)
  then show ?thesis by (simp add: group_rows_def)
qed

subsection \<open>Searching lists\<close>

lemma find_None_iff_all: "find P xs = None \<longleftrightarrow> (\<forall>x \<in> set xs. \<not> P x)"
  by (auto simp: find_None_iff)

lemma find_SomeD: "find P xs = Some x \<Longrightarrow> x \<in> set xs \<and> P x"
  by (induction xs) (auto split: if_splits)

lemma find_Some_ex: "x \<in> set xs \<Longrightarrow> P x \<Longrightarrow> \<exists>y. find P xs = Some y"
  by (induction xs) auto

lemma find_unique:
  assumes "x \<in> set xs" "P x" and "\<And>y. y \<in> set xs \<Longrightarrow> P y \<Longrightarrow> y = x"
  shows "find P xs = Some x"
  using assms by (metis find_SomeD find_Some_ex)

lemma map_of_map_filter_key:
  "map_of (map (\<lambda>(k, v). (k, f v)) m) k = map_option f (map_of m k)"
  by (induction m) auto

lemma map_of_distinct_filter:
  "distinct (map fst m) \<Longrightarrow>
   map_of (filter (\<lambda>(k, v). P k v) m) k =
     (case map_of m k of None \<Rightarrow> None | Some v \<Rightarrow> if P k v then Some v else None)"
proof (induction m)
  case Nil
  then show ?case by simp
next
  case (Cons a m)
  obtain k0 v0 where a: "a = (k0, v0)" by (cases a)
  from Cons.prems a have nk: "map_of m k0 = None" by (simp add: map_of_eq_None_iff)
  from Cons a nk show ?case by (auto split: option.splits)
qed

text \<open>Insertion sort evaluates better by rewriting than the library's quicksort.\<close>

lemma sort_key_insertion [code]: "sort_key f xs = foldr (insort_key f) xs []"
  by (simp add: sort_key_def)

lemma sort_eq_Nil_iff [simp]: "sort xs = [] \<longleftrightarrow> xs = []"
  by (metis set_empty set_sort)

subsection \<open>Rows\<close>

text \<open>\<open>save\<close> of an entity: the row with its key is replaced, a new row is appended.\<close>

definition save_row :: "('r \<Rightarrow> 'k) \<Rightarrow> 'r \<Rightarrow> 'r list \<Rightarrow> 'r list" where
  "save_row key r rows =
     (if list_ex (\<lambda>x. key x = key r) rows
      then map (\<lambda>x. if key x = key r then r else x) rows else rows @ [r])"

lemma set_save_row: "set (save_row key r rows) = {x \<in> set rows. key x \<noteq> key r} \<union> {r}"
  by (auto simp: save_row_def list_ex_iff)

lemma image_save_row [simp]: "key ` set (save_row key r rows) = insert (key r) (key ` set rows)"
  by (auto simp: set_save_row)

lemma save_row_new: "key r \<notin> key ` set rows \<Longrightarrow> save_row key r rows = rows @ [r]"
  by (auto simp: save_row_def list_ex_iff dest: image_eqI [OF sym])

lemma find_save_row:
  "find (\<lambda>x. key x = k) (save_row key r rows) = (if key r = k then Some r else find (\<lambda>x. key x = k) rows)"
proof -
  have "find (\<lambda>x. key x = k) (map (\<lambda>x. if key x = key r then r else x) rows) =
      (if key r = k \<and> key r \<in> key ` set rows then Some r else find (\<lambda>x. key x = k) rows)"
    by (induction rows) auto
  moreover have "find (\<lambda>x. key x = k) (rows @ [r]) = (if key r = k then Some r else find (\<lambda>x. key x = k) rows)"
    if "key r \<notin> key ` set rows" using that by (induction rows) auto
  moreover have "save_row key r rows = (if key r \<in> key ` set rows
      then map (\<lambda>x. if key x = key r then r else x) rows else rows @ [r])"
    using save_row_new [of key r rows] by (auto simp: save_row_def list_ex_iff)
  ultimately show ?thesis by (cases "key r \<in> key ` set rows") simp_all
qed

lemma filter_save_row:
  "\<not> P r \<Longrightarrow> (\<And>x. x \<in> set rows \<Longrightarrow> key x = key r \<Longrightarrow> \<not> P x) \<Longrightarrow>
     filter P (save_row key r rows) = filter P rows"
proof -
  assume "\<not> P r" and "\<And>x. x \<in> set rows \<Longrightarrow> key x = key r \<Longrightarrow> \<not> P x"
  then have "filter P (map (\<lambda>x. if key x = key r then r else x) rows) = filter P rows"
    by (induction rows) auto
  then show "filter P (save_row key r rows) = filter P rows" using \<open>\<not> P r\<close> by (simp add: save_row_def)
qed

lemma map_key_save_row:
  "map key (save_row key r rows) =
     (if key r \<in> key ` set rows then map key rows else map key rows @ [key r])"
  by (auto simp: save_row_def list_ex_iff intro: image_eqI [OF sym])

lemma distinct_save_row: "distinct (map key rows) \<Longrightarrow> distinct (map key (save_row key r rows))"
  by (auto simp: map_key_save_row)

subsection \<open>Effects\<close>

text \<open>An operation on the tables \<open>'s\<close>: its result, and the tables after it.\<close>

type_synonym ('s, 'a) state_op = "'s \<Rightarrow> 'a result \<times> 's"

definition sbind :: "('s, 'a) state_op \<Rightarrow> ('a \<Rightarrow> ('s, 'b) state_op) \<Rightarrow> ('s, 'b) state_op" where
  "sbind m f = (\<lambda>d. case m d of (Inl e, d') \<Rightarrow> (Inl e, d') | (Inr x, d') \<Rightarrow> f x d')"

definition reading :: "('s \<Rightarrow> 'a result) \<Rightarrow> ('s, 'a) state_op" where
  "reading f = (\<lambda>d. (f d, d))"

definition writing_db :: "('s \<Rightarrow> 's) \<Rightarrow> ('s, unit) state_op" where
  "writing_db g = (\<lambda>d. (Inr (), g d))"

definition in_transaction :: "('s, 'a) state_op \<Rightarrow> ('s, 'a) state_op" where
  "in_transaction m = (\<lambda>d. case m d of (Inl e, _) \<Rightarrow> (Inl e, d) | (Inr x, d') \<Rightarrow> (Inr x, d'))"

text \<open>A \<open>for\<close> loop that awaits an operation per element.\<close>

fun for_each :: "('x \<Rightarrow> ('s, unit) state_op) \<Rightarrow> 'x list \<Rightarrow> ('s, unit) state_op" where
  "for_each f [] = (\<lambda>d. (Inr (), d))"
| "for_each f (x # xs) = sbind (f x) (\<lambda>_. for_each f xs)"

lemma sbind_simps [simp]:
  "sbind (reading f) k d = (case f d of Inl e \<Rightarrow> (Inl e, d) | Inr x \<Rightarrow> k x d)"
  "sbind (writing_db g) k' d = k' () (g d)"
  by (auto simp: sbind_def reading_def writing_db_def split: sum.splits)

lemma sbind_Inr_iff: "sbind m f d = (Inr y, d2) \<longleftrightarrow> (\<exists>x d1. m d = (Inr x, d1) \<and> f x d1 = (Inr y, d2))"
  by (auto simp: sbind_def split: prod.splits sum.splits)

lemma reading_Inr_iff: "reading f d = (Inr x, d1) \<longleftrightarrow> f d = Inr x \<and> d1 = d"
  and writing_Inr_iff: "writing_db g d = (Inr u, d1) \<longleftrightarrow> d1 = g d"
  by (auto simp: reading_def writing_db_def)

lemmas op_success = sbind_Inr_iff reading_Inr_iff writing_Inr_iff

text \<open>
  A preorder on tables that every step of an operation respects holds between the tables before
  and after the operation, on every branch.
\<close>

definition abides :: "('s \<Rightarrow> 's \<Rightarrow> bool) \<Rightarrow> ('s, 'a) state_op \<Rightarrow> bool" where
  "abides R m \<longleftrightarrow> (\<forall>d. R d (snd (m d)))"

lemma abidesD: "abides R m \<Longrightarrow> m d = (r, d') \<Longrightarrow> R d d'"
  unfolding abides_def by (metis snd_conv)

lemma abides_reading: "reflp R \<Longrightarrow> abides R (reading f)"
  by (simp add: abides_def reading_def reflp_def)

lemma abides_writing: "(\<And>d. R d (g d)) \<Longrightarrow> abides R (writing_db g)"
  by (simp add: abides_def writing_db_def)

lemma abides_sbind:
  assumes R: "transp R" and m: "abides R m" and f: "\<And>x. abides R (f x)"
  shows "abides R (sbind m f)"
  unfolding abides_def
proof
  fix d
  obtain r d' where md: "m d = (r, d')" by fastforce
  have 1: "R d d'" by (rule abidesD [OF m md])
  show "R d (snd (sbind m f d))"
  proof (cases r)
    case (Inl e)
    then show ?thesis using 1 md by (simp add: sbind_def)
  next
    case (Inr x)
    have "R d' (snd (f x d'))" using f [of x] by (simp add: abides_def)
    then show ?thesis using 1 md Inr transpD [OF R 1] by (simp add: sbind_def)
  qed
qed

lemma abides_transaction: "reflp R \<Longrightarrow> abides R m \<Longrightarrow> abides R (in_transaction m)"
  by (auto simp: abides_def in_transaction_def reflp_def split: prod.splits sum.splits)
    (metis snd_conv)

lemma abides_for_each:
  assumes "reflp R" "transp R" "\<And>x. x \<in> set xs \<Longrightarrow> abides R (f x)"
  shows "abides R (for_each f xs)"
  using assms(3)
proof (induction xs)
  case Nil
  then show ?case using assms(1) by (simp add: abides_def reflpD)
next
  case (Cons x xs)
  have "abides R (sbind (f x) (\<lambda>_. for_each f xs))"
    by (rule abides_sbind [OF assms(2)]) (simp_all add: Cons)
  then show ?case by (simp add: abides_def)
qed

subsection \<open>Strings\<close>

text \<open>\<open>trim()\<close> drops the white space characters at both ends (those below 256).\<close>

definition js_space :: "char \<Rightarrow> bool" where
  "js_space ch \<longleftrightarrow> (of_char ch :: nat) \<in> {9, 10, 11, 12, 13, 32, 160}"

definition js_trim :: "string \<Rightarrow> string" where
  "js_trim s = rev (dropWhile js_space (rev (dropWhile js_space s)))"

lemma js_trim_idem_Nil [simp]: "js_trim [] = []"
  by (simp add: js_trim_def)

definition ascii_lower :: "char \<Rightarrow> char" where
  "ascii_lower ch = (let n = (of_char ch :: nat) in if 65 \<le> n \<and> n \<le> 90 then char_of (n + 32) else ch)"

text \<open>\<open>xs.join(s)\<close>\<close>

fun join_with :: "string \<Rightarrow> string list \<Rightarrow> string" where
  "join_with s [] = []"
| "join_with s [x] = x"
| "join_with s (x # y # xs) = x @ s @ join_with s (y # xs)"

text \<open>\<open>value?.trim() || null\<close> and \<open>value || null\<close>\<close>

definition nonempty :: "string option \<Rightarrow> string option" where
  "nonempty v = (case v of None \<Rightarrow> None | Some s \<Rightarrow> if s = [] then None else Some s)"

text \<open>The decimal form of a number in a template string.\<close>

fun nat_str :: "nat \<Rightarrow> string" where
  "nat_str n = (if n < 10 then [char_of (48 + n)] else nat_str (n div 10) @ [char_of (48 + n mod 10)])"

declare nat_str.simps [simp del]

end
