(* ===== verification/Permission_Catalog.thy ===== *)
theory Permission_Catalog
  imports Prelude
begin

text \<open>
  The backend-owned permission catalog
  (\<open>src/modules/rbac/constants/permission-catalog.ts\<close>): the fixed list of permission
  definitions, the classification of codes (assignable, restricted to device groups), the
  requirements between codes, and the filter that turns the codes stored for a role into the
  ones that take effect. Codes are strings, as the rows of the database hold arbitrary ones.
\<close>

subsection \<open>Definitions of permissions\<close>

datatype definition_scope = GlobalScope | DeviceGroupScope

record permission_def =
  perm_code :: string
  perm_resource :: string
  perm_action :: string
  perm_name :: string
  perm_description :: string
  perm_scope :: definition_scope
  perm_assignable :: bool
  perm_system_only :: bool
  perm_requires :: "string list option"

definition permission_definition ::
  "string \<Rightarrow> string \<Rightarrow> string \<Rightarrow> string \<Rightarrow> definition_scope \<Rightarrow> string list \<Rightarrow> permission_def" where
  "permission_definition c r a n s reqs =
     \<lparr>perm_code = c, perm_resource = r, perm_action = a, perm_name = n,
      perm_description = n @ '' ('' @ c @ '')'', perm_scope = s,
      perm_assignable = True, perm_system_only = False,
      perm_requires = (if reqs \<noteq> [] then Some reqs else None)\<rparr>"

definition system_definition :: "string \<Rightarrow> string \<Rightarrow> string \<Rightarrow> permission_def" where
  "system_definition c a n =
     \<lparr>perm_code = c, perm_resource = ''roles'', perm_action = a, perm_name = n,
      perm_description = n @ '' ('' @ c @ '')'', perm_scope = GlobalScope,
      perm_assignable = False, perm_system_only = True, perm_requires = None\<rparr>"

text \<open>The members of the declared type \<open>PermissionCode\<close>, in the order of the declaration.\<close>

definition PermissionCode :: "string list" where
  "PermissionCode = [
    ''web_client.connect'',
    ''web_client.file_transfer'',
    ''users.view'',
    ''users.create'',
    ''users.edit'',
    ''users.status'',
    ''users.delete'',
    ''users.security'',
    ''users.force_logout'',
    ''user_groups.view'',
    ''user_groups.create'',
    ''user_groups.edit'',
    ''user_groups.delete'',
    ''user_groups.membership'',
    ''devices.view'',
    ''devices.edit'',
    ''devices.status'',
    ''devices.delete'',
    ''devices.disconnect'',
    ''address_books.view'',
    ''address_books.edit'',
    ''address_books.share'',
    ''strategies.view'',
    ''strategies.create'',
    ''strategies.edit'',
    ''strategies.delete'',
    ''strategies.assign'',
    ''audit.view'',
    ''roles.view'',
    ''roles.assign'',
    ''servers.view'',
    ''servers.control'',
    ''servers.config'',
    ''servers.disconnect'',
    ''servers.ban'',
    ''dashboard.view'']"

definition SystemPermissionCode :: "string list" where
  "SystemPermissionCode = [''roles.create'', ''roles.edit'', ''roles.delete'']"

text \<open>The catalog, in two parts: the entries up to the user groups, and the rest.\<close>

definition catalog_platform :: "permission_def list" where
  "catalog_platform = [
    permission_definition ''web_client.connect'' ''web_client'' ''connect'' ''Use web remote control'' DeviceGroupScope [],
    permission_definition ''web_client.file_transfer'' ''web_client'' ''file_transfer'' ''Use web file channel'' DeviceGroupScope [''web_client.connect''],
    permission_definition ''servers.view'' ''servers'' ''view'' ''View servers'' GlobalScope [],
    permission_definition ''servers.control'' ''servers'' ''control'' ''Control server services'' GlobalScope [''servers.view''],
    permission_definition ''servers.config'' ''servers'' ''config'' ''Configure servers'' GlobalScope [''servers.view''],
    permission_definition ''servers.disconnect'' ''servers'' ''disconnect'' ''Disconnect relay sessions'' GlobalScope [''servers.view''],
    permission_definition ''servers.ban'' ''servers'' ''ban'' ''Manage server bans'' GlobalScope [''servers.view''],
    permission_definition ''users.view'' ''users'' ''view'' ''View users'' GlobalScope [],
    permission_definition ''users.create'' ''users'' ''create'' ''Create users'' GlobalScope [''users.view''],
    permission_definition ''users.edit'' ''users'' ''edit'' ''Edit users'' GlobalScope [''users.view''],
    permission_definition ''users.status'' ''users'' ''status'' ''Change user status'' GlobalScope [''users.view''],
    permission_definition ''users.delete'' ''users'' ''delete'' ''Delete users'' GlobalScope [''users.view''],
    permission_definition ''users.security'' ''users'' ''security'' ''Manage user security'' GlobalScope [''users.view''],
    permission_definition ''users.force_logout'' ''users'' ''force_logout'' ''Force user logout'' GlobalScope [''users.view''],
    permission_definition ''user_groups.view'' ''user_groups'' ''view'' ''View user groups'' GlobalScope [],
    permission_definition ''user_groups.create'' ''user_groups'' ''create'' ''Create user groups'' GlobalScope [''user_groups.view''],
    permission_definition ''user_groups.edit'' ''user_groups'' ''edit'' ''Edit user groups'' GlobalScope [''user_groups.view''],
    permission_definition ''user_groups.delete'' ''user_groups'' ''delete'' ''Delete user groups'' GlobalScope [''user_groups.view''],
    permission_definition ''user_groups.membership'' ''user_groups'' ''membership'' ''Manage user group membership'' GlobalScope [''user_groups.view'']]"

definition catalog_resources :: "permission_def list" where
  "catalog_resources = [
    permission_definition ''devices.view'' ''devices'' ''view'' ''View devices'' DeviceGroupScope [],
    permission_definition ''devices.edit'' ''devices'' ''edit'' ''Edit device metadata'' DeviceGroupScope [''devices.view''],
    permission_definition ''devices.status'' ''devices'' ''status'' ''Change device status'' DeviceGroupScope [''devices.view''],
    permission_definition ''devices.delete'' ''devices'' ''delete'' ''Delete devices'' DeviceGroupScope [''devices.view''],
    permission_definition ''devices.disconnect'' ''devices'' ''disconnect'' ''Disconnect devices'' DeviceGroupScope [''devices.view''],
    permission_definition ''address_books.view'' ''address_books'' ''view'' ''View address books'' GlobalScope [],
    permission_definition ''address_books.edit'' ''address_books'' ''edit'' ''Edit address books'' GlobalScope [''address_books.view''],
    permission_definition ''address_books.share'' ''address_books'' ''share'' ''Share address books'' GlobalScope [''address_books.view''],
    permission_definition ''strategies.view'' ''strategies'' ''view'' ''View strategies'' GlobalScope [],
    permission_definition ''strategies.create'' ''strategies'' ''create'' ''Create strategies'' GlobalScope [''strategies.view''],
    permission_definition ''strategies.edit'' ''strategies'' ''edit'' ''Edit strategies'' GlobalScope [''strategies.view''],
    permission_definition ''strategies.delete'' ''strategies'' ''delete'' ''Delete strategies'' GlobalScope [''strategies.view''],
    permission_definition ''strategies.assign'' ''strategies'' ''assign'' ''Assign strategies'' DeviceGroupScope [],
    permission_definition ''audit.view'' ''audit'' ''view'' ''View audit data'' GlobalScope [],
    system_definition ''roles.create'' ''create'' ''Create roles'',
    system_definition ''roles.edit'' ''edit'' ''Edit roles'',
    system_definition ''roles.delete'' ''delete'' ''Delete roles'',
    permission_definition ''roles.view'' ''roles'' ''view'' ''View roles'' GlobalScope [],
    permission_definition ''roles.assign'' ''roles'' ''assign'' ''Assign roles'' GlobalScope [''roles.view'', ''users.view''],
    permission_definition ''dashboard.view'' ''dashboard'' ''view'' ''View dashboard'' GlobalScope []]"

definition PERMISSION_CATALOG :: "permission_def list" where
  "PERMISSION_CATALOG = catalog_platform @ catalog_resources"

subsection \<open>Queries on the catalog\<close>

definition PERMISSION_CODES :: "string list" where
  "PERMISSION_CODES = map perm_code (filter perm_assignable PERMISSION_CATALOG)"

definition isDeviceGroupScopedPermission :: "string \<Rightarrow> bool" where
  "isDeviceGroupScopedPermission c \<longleftrightarrow>
     (\<exists>p \<in> set PERMISSION_CATALOG. perm_code p = c \<and> perm_scope p = DeviceGroupScope)"

definition isAssignablePermissionCode :: "string \<Rightarrow> bool" where
  "isAssignablePermissionCode c \<longleftrightarrow> c \<in> set PERMISSION_CODES"

definition PERMISSION_REQUIREMENTS :: "(string \<times> string list) list" where
  "PERMISSION_REQUIREMENTS =
     map (\<lambda>p. (perm_code p, case perm_requires p of Some r \<Rightarrow> r | None \<Rightarrow> []))
       (filter perm_assignable PERMISSION_CATALOG)"

definition getPermissionRequirements :: "string \<Rightarrow> string list" where
  "getPermissionRequirements c =
     (case map_of PERMISSION_REQUIREMENTS c of Some r \<Rightarrow> r | None \<Rightarrow> [])"

definition filterEffectivePermissionCodes :: "string list \<Rightarrow> string list" where
  "filterEffectivePermissionCodes codes =
     (let known = js_unique (filter isAssignablePermissionCode codes)
      in sort (filter (\<lambda>c. \<forall>required \<in> set (getPermissionRequirements c). required \<in> set known)
           known))"

subsection \<open>Facts the catalog satisfies, by evaluation\<close>

text \<open>The derived lists, evaluated once; they speed up the evaluation of closed goals.\<close>

lemma PERMISSION_CODES_eq [code]: "PERMISSION_CODES = [
    ''web_client.connect'',
    ''web_client.file_transfer'',
    ''servers.view'',
    ''servers.control'',
    ''servers.config'',
    ''servers.disconnect'',
    ''servers.ban'',
    ''users.view'',
    ''users.create'',
    ''users.edit'',
    ''users.status'',
    ''users.delete'',
    ''users.security'',
    ''users.force_logout'',
    ''user_groups.view'',
    ''user_groups.create'',
    ''user_groups.edit'',
    ''user_groups.delete'',
    ''user_groups.membership'',
    ''devices.view'',
    ''devices.edit'',
    ''devices.status'',
    ''devices.delete'',
    ''devices.disconnect'',
    ''address_books.view'',
    ''address_books.edit'',
    ''address_books.share'',
    ''strategies.view'',
    ''strategies.create'',
    ''strategies.edit'',
    ''strategies.delete'',
    ''strategies.assign'',
    ''audit.view'',
    ''roles.view'',
    ''roles.assign'',
    ''dashboard.view'']"
  by code_simp

lemma PERMISSION_REQUIREMENTS_eq [code]: "PERMISSION_REQUIREMENTS = [
    (''web_client.connect'', []),
    (''web_client.file_transfer'', [''web_client.connect'']),
    (''servers.view'', []),
    (''servers.control'', [''servers.view'']),
    (''servers.config'', [''servers.view'']),
    (''servers.disconnect'', [''servers.view'']),
    (''servers.ban'', [''servers.view'']),
    (''users.view'', []),
    (''users.create'', [''users.view'']),
    (''users.edit'', [''users.view'']),
    (''users.status'', [''users.view'']),
    (''users.delete'', [''users.view'']),
    (''users.security'', [''users.view'']),
    (''users.force_logout'', [''users.view'']),
    (''user_groups.view'', []),
    (''user_groups.create'', [''user_groups.view'']),
    (''user_groups.edit'', [''user_groups.view'']),
    (''user_groups.delete'', [''user_groups.view'']),
    (''user_groups.membership'', [''user_groups.view'']),
    (''devices.view'', []),
    (''devices.edit'', [''devices.view'']),
    (''devices.status'', [''devices.view'']),
    (''devices.delete'', [''devices.view'']),
    (''devices.disconnect'', [''devices.view'']),
    (''address_books.view'', []),
    (''address_books.edit'', [''address_books.view'']),
    (''address_books.share'', [''address_books.view'']),
    (''strategies.view'', []),
    (''strategies.create'', [''strategies.view'']),
    (''strategies.edit'', [''strategies.view'']),
    (''strategies.delete'', [''strategies.view'']),
    (''strategies.assign'', []),
    (''audit.view'', []),
    (''roles.view'', []),
    (''roles.assign'', [''roles.view'', ''users.view'']),
    (''dashboard.view'', [])]"
  by code_simp

definition scoped_codes :: "string list" where
  "scoped_codes = map perm_code (filter (\<lambda>p. perm_scope p = DeviceGroupScope) PERMISSION_CATALOG)"

lemma scoped_codes_eq [code]: "scoped_codes = [
    ''web_client.connect'',
    ''web_client.file_transfer'',
    ''devices.view'',
    ''devices.edit'',
    ''devices.status'',
    ''devices.delete'',
    ''devices.disconnect'',
    ''strategies.assign'']"
  by code_simp

lemma isDeviceGroupScopedPermission_iff [code]:
  "isDeviceGroupScopedPermission c \<longleftrightarrow> c \<in> set scoped_codes"
  by (auto simp: isDeviceGroupScopedPermission_def scoped_codes_def)

lemma catalog_codes_distinct: "distinct (map perm_code PERMISSION_CATALOG)"
  by code_simp

lemma catalog_codes_declared: "set PERMISSION_CODES = set PermissionCode"
  by code_simp

lemma catalog_system_codes:
  "map perm_code (filter perm_system_only PERMISSION_CATALOG) = SystemPermissionCode"
  by code_simp

lemma catalog_requirements_assignable:
  "\<forall>(c, rs) \<in> set PERMISSION_REQUIREMENTS. \<forall>r \<in> set rs. isAssignablePermissionCode r"
  by code_simp

lemma catalog_requirements_flat:
  "\<forall>(c, rs) \<in> set PERMISSION_REQUIREMENTS. \<forall>r \<in> set rs. getPermissionRequirements r = []"
  by code_simp

lemma catalog_requirements_scoped:
  "\<forall>(c, rs) \<in> set PERMISSION_REQUIREMENTS.
     isDeviceGroupScopedPermission c \<longrightarrow> (\<forall>r \<in> set rs. isDeviceGroupScopedPermission r)"
  by code_simp

lemma catalog_scoped_assignable:
  "\<forall>p \<in> set PERMISSION_CATALOG. perm_scope p = DeviceGroupScope \<longrightarrow> perm_assignable p"
  by code_simp

lemma roles_assign_assignable: "isAssignablePermissionCode ''roles.assign''"
  by code_simp

lemma roles_assign_unscoped: "\<not> isDeviceGroupScopedPermission ''roles.assign''"
  by code_simp

lemma strategies_assign_assignable: "isAssignablePermissionCode ''strategies.assign''"
  by code_simp

subsection \<open>Requirements and the effective codes\<close>

lemma getPermissionRequirements_cases:
  "getPermissionRequirements c = [] \<or> (c, getPermissionRequirements c) \<in> set PERMISSION_REQUIREMENTS"
  by (auto simp: getPermissionRequirements_def dest: map_of_SomeD split: option.splits)

lemma requirement_assignable:
  "r \<in> set (getPermissionRequirements c) \<Longrightarrow> isAssignablePermissionCode r"
  using getPermissionRequirements_cases [of c] catalog_requirements_assignable by fastforce

lemma requirement_flat:
  "r \<in> set (getPermissionRequirements c) \<Longrightarrow> getPermissionRequirements r = []"
  using getPermissionRequirements_cases [of c] catalog_requirements_flat by fastforce

lemma requirement_scoped:
  "r \<in> set (getPermissionRequirements c) \<Longrightarrow> isDeviceGroupScopedPermission c
     \<Longrightarrow> isDeviceGroupScopedPermission r"
  using getPermissionRequirements_cases [of c] catalog_requirements_scoped by fastforce

lemma scoped_assignable: "isDeviceGroupScopedPermission c \<Longrightarrow> isAssignablePermissionCode c"
  using catalog_scoped_assignable
  by (force simp: isDeviceGroupScopedPermission_def isAssignablePermissionCode_def PERMISSION_CODES_def)

text \<open>
  The specification of the effective codes: a set of codes is closed when it holds assignable
  codes only and, with every code, all the codes that one requires.
\<close>

definition permission_closed :: "string set \<Rightarrow> bool" where
  "permission_closed S \<longleftrightarrow>
     (\<forall>c \<in> S. isAssignablePermissionCode c \<and> set (getPermissionRequirements c) \<subseteq> S)"

lemma set_filterEffectivePermissionCodes:
  "set (filterEffectivePermissionCodes codes) =
     {c \<in> set codes. isAssignablePermissionCode c \<and> set (getPermissionRequirements c) \<subseteq> set codes}"
  by (auto simp: filterEffectivePermissionCodes_def Let_def requirement_assignable)

lemma distinct_filterEffectivePermissionCodes [simp]:
  "distinct (filterEffectivePermissionCodes codes)"
  by (simp add: filterEffectivePermissionCodes_def Let_def)

lemma sorted_filterEffectivePermissionCodes [simp]:
  "sorted (filterEffectivePermissionCodes codes)"
  by (simp add: filterEffectivePermissionCodes_def Let_def)

lemma effective_assignable:
  "c \<in> set (filterEffectivePermissionCodes codes) \<Longrightarrow> isAssignablePermissionCode c"
  by (simp add: set_filterEffectivePermissionCodes)

lemma permission_closed_effective:
  "permission_closed (set (filterEffectivePermissionCodes codes))"
  by (auto simp: permission_closed_def set_filterEffectivePermissionCodes
      requirement_assignable requirement_flat)

lemma filterEffective_fixpoint:
  assumes "permission_closed (set codes)"
  shows "set (filterEffectivePermissionCodes codes) = set codes"
  using assms by (auto simp: permission_closed_def set_filterEffectivePermissionCodes)

lemma filterEffective_sorted_fixpoint:
  assumes "permission_closed (set codes)" "sorted codes" "distinct codes"
  shows "filterEffectivePermissionCodes codes = codes"
  using assms by (intro sorted_distinct_set_unique) (simp_all add: filterEffective_fixpoint)

text \<open>
  The codes that take effect are the greatest closed part of the stored codes, listed
  sorted and without duplicates: nothing that is not in the catalog, nothing whose
  requirement is missing, and every code for which neither is the case.
\<close>

theorem effective_codes_greatest_closed:
  "set (filterEffectivePermissionCodes codes) = \<Union> {S. S \<subseteq> set codes \<and> permission_closed S} \<and>
   permission_closed (set (filterEffectivePermissionCodes codes)) \<and>
   sorted (filterEffectivePermissionCodes codes) \<and>
   distinct (filterEffectivePermissionCodes codes)"
proof -
  have "set (filterEffectivePermissionCodes codes) \<subseteq> set codes"
    by (auto simp: set_filterEffectivePermissionCodes)
  moreover have "S \<subseteq> set (filterEffectivePermissionCodes codes)"
    if "S \<subseteq> set codes" "permission_closed S" for S
    using that by (auto simp: set_filterEffectivePermissionCodes permission_closed_def)
  ultimately show ?thesis
    using permission_closed_effective by auto
qed

end
