(* ===== verification/Rbac_Store.thy ===== *)
theory Rbac_Store
  imports Complex_Main Permission_Catalog
begin

text \<open>
  The rows the access control reads and writes, one record per entity class, and the database
  as a record of tables. A table is the list of its rows in creation order; reading with a
  condition (\<open>find\<close>, \<open>findOne\<close>) keeps that order, \<open>In(...)\<close> is membership,
  \<open>delete\<close> drops the matching rows, \<open>insert\<close>/\<open>save\<close> append. A transaction works on a
  copy of the record, which becomes the database when its body returns and is dropped when it
  throws. Columns that only carry timestamps or relations of the mapper are left out.

  The audit service (\<open>src/modules/rbac/services/rbac-audit.service.ts\<close>) is here as well:
  every other component writes through it. Its states are JSON values; the redaction of
  sensitive keys is modelled down to the key pattern.
\<close>

subsection \<open>Entities\<close>

datatype UserStatus = UNVERIFIED | DISABLED | ACTIVE

record user =
  u_guid :: string
  u_status :: UserStatus
  u_isAdmin :: bool

record role =
  role_guid :: string
  role_name :: string
  role_note :: "string option"
  role_protected :: bool

record role_permission =
  rp_role :: string
  rp_code :: string

text \<open>The scope type column is a plain \<open>varchar\<close>, so a row can hold any string.\<close>

record role_assignment =
  as_guid :: string
  as_user :: string
  as_role :: string
  as_scope :: string

record assignment_group =
  ag_assignment :: string
  ag_group :: string

record device_group =
  dg_guid :: string
  dg_name :: string

datatype PeerStatus = PeerDisabled | PeerActive

record peer =
  peer_uuid :: string
  peer_id :: string
  peer_group :: "string option"
  peer_status :: PeerStatus

record user_token =
  ut_user :: string
  ut_jti :: string
  ut_revoked :: bool
  ut_expires :: int

subsection \<open>JSON values and the audit log\<close>

datatype json =
    JNull
  | JBool bool
  | JNum int
  | JStr string
  | JDate string
  | JArr "json list"
  | JObj "(string \<times> json) list"

datatype audit_result = Allowed | Denied

record audit_event =
  ev_actor :: "string option"
  ev_target_type :: string
  ev_target :: "string option"
  ev_action :: string
  ev_result :: audit_result
  ev_reason :: "string option"
  ev_before :: "json option"
  ev_after :: "json option"

record db =
  users :: "user list"
  roles :: "role list"
  role_permissions :: "role_permission list"
  assignments :: "role_assignment list"
  assignment_groups :: "assignment_group list"
  device_groups :: "device_group list"
  peers :: "peer list"
  user_tokens :: "user_token list"
  console_audits :: "audit_event list"

subsection \<open>Redaction of audited states\<close>

fun is_prefix :: "string \<Rightarrow> string \<Rightarrow> bool" where
  "is_prefix [] s = True"
| "is_prefix (p # ps) [] = False"
| "is_prefix (p # ps) (c # cs) = (p = c \<and> is_prefix ps cs)"

fun is_substring :: "string \<Rightarrow> string \<Rightarrow> bool" where
  "is_substring p [] = (p = [])"
| "is_substring p (c # cs) = (is_prefix p (c # cs) \<or> is_substring p cs)"

text \<open>
  The alternatives of \<open>SENSITIVE_STATE_KEY\<close> with their optional parts written out; the
  pattern ignores case and, but for \<open>^code$\<close>, is unanchored.
\<close>

definition joined :: "string \<Rightarrow> string \<Rightarrow> string list" where
  "joined a b = [a @ b, a @ ''_'' @ b, a @ ''-'' @ b]"

definition sensitive_fragments :: "string list" where
  "sensitive_fragments =
     [''password'', ''pass'', ''token'', ''secret'', ''verifier'', ''credential'', ''authorization'']
     @ joined ''api'' ''key'' @ joined ''private'' ''key'' @ joined ''current'' ''code''
     @ joined ''tfa'' ''code'' @ joined ''verification'' ''code'' @ joined ''otp'' ''code''
     @ joined ''recovery'' ''code''"

definition SENSITIVE_STATE_KEY :: "string \<Rightarrow> bool" where
  "SENSITIVE_STATE_KEY key =
     (let k = map ascii_lower key
      in k = ''code'' \<or> list_ex (\<lambda>f. is_substring f k) sensitive_fragments)"

fun redact :: "json \<Rightarrow> json" where
  "redact (JArr xs) = JArr (map redact xs)"
| "redact JNull = JNull"
| "redact (JBool b) = JBool b"
| "redact (JNum n) = JNum n"
| "redact (JStr s) = JStr s"
| "redact (JDate s) = JStr s"
| "redact (JObj kvs) =
     JObj (map (\<lambda>(k, v). (k, if SENSITIVE_STATE_KEY k then JStr ''[REDACTED]'' else redact v)) kvs)"

definition serializeState :: "json option \<Rightarrow> json option" where
  "serializeState v = (case v of None \<Rightarrow> None | Some JNull \<Rightarrow> None | Some j \<Rightarrow> Some (redact j))"

definition audit_record :: "audit_event \<Rightarrow> db \<Rightarrow> db" where
  "audit_record e d =
     d\<lparr>console_audits := console_audits d @
       [e\<lparr>ev_before := serializeState (ev_before e), ev_after := serializeState (ev_after e)\<rparr>]\<rparr>"

definition recordDenied ::
  "string option \<Rightarrow> string \<Rightarrow> string option \<Rightarrow> string \<Rightarrow> string option \<Rightarrow> db \<Rightarrow> db" where
  "recordDenied actor ttype target act reason d =
     audit_record \<lparr>ev_actor = actor, ev_target_type = ttype, ev_target = target, ev_action = act,
       ev_result = Denied, ev_reason = reason, ev_before = None, ev_after = None\<rparr> d"

subsection \<open>Pagination of the audit query\<close>

text \<open>
  A query parameter is \<open>None\<close> when absent and \<open>Some None\<close> when it is not a finite
  number; finite values are rationals here, since the code floors them.
\<close>

definition boundPageSize :: "rat option option \<Rightarrow> int" where
  "boundPageSize v =
     (case v of None \<Rightarrow> 20
      | Some None \<Rightarrow> 20
      | Some (Some x) \<Rightarrow> if x \<le> 0 then 20 else min (floor x) 100)"

definition boundCurrent :: "rat option option \<Rightarrow> int" where
  "boundCurrent v =
     (case v of None \<Rightarrow> 1
      | Some None \<Rightarrow> 1
      | Some (Some x) \<Rightarrow> if x \<le> 0 then 1 else min (floor x) 100000)"

end
