(* ===== verification/Rbac_Authorization.thy ===== *)
theory Rbac_Authorization
  imports Rbac_Store
begin

text \<open>
  The authorization service (\<open>src/modules/rbac/services/rbac-authorization.service.ts\<close>),
  the route guard built on it and its per-request cache. A check reads the database and either
  returns what it grants or throws; checks that log their refusal return the database with the
  audit row as well. \<open>manager\<close> tells whether the caller passed a transaction manager, where
  the code behaves differently.
\<close>

subsection \<open>The current user\<close>

definition loadUserStatus :: "db \<Rightarrow> string \<Rightarrow> user option" where
  "loadUserStatus d g = find (\<lambda>u. u_guid u = g) (users d)"

definition getCurrentUser :: "db \<Rightarrow> string \<Rightarrow> user result" where
  "getCurrentUser d g =
     (case loadUserStatus d g of
        None \<Rightarrow> Inl (UnauthorizedException ''Account does not exist or has been disabled'')
      | Some u \<Rightarrow>
          if u_status u \<noteq> ACTIVE
          then Inl (UnauthorizedException ''Account does not exist or has been disabled'')
          else Inr u)"

definition requireSuperAdmin :: "db \<Rightarrow> string \<Rightarrow> user result" where
  "requireSuperAdmin d g =
     rbind (getCurrentUser d g) (\<lambda>u.
       if \<not> u_isAdmin u then Inl (ForbiddenException ''Super administrator permission required'')
       else Inr u)"

subsection \<open>Role grants and permission scopes\<close>

record permission_scope =
  ps_global :: bool
  ps_groups :: "string set"

record role_grants =
  rg_assignments :: "role_assignment list"
  rg_effective :: "(string \<times> string list) list"

definition loadEffectiveRoleGrants :: "db \<Rightarrow> string \<Rightarrow> role_grants" where
  "loadEffectiveRoleGrants d g =
     (let as = filter (\<lambda>a. as_scope a = ''global'' \<or> as_scope a = ''device_group'')
                 (filter (\<lambda>a. as_user a = g) (assignments d));
          rows = (if as \<noteq> [] then filter (\<lambda>r. rp_role r \<in> set (map as_role as)) (role_permissions d)
                  else []);
          codes = group_rows rp_role rp_code rows
      in \<lparr>rg_assignments = as,
          rg_effective = map (\<lambda>(r, cs). (r, filterEffectivePermissionCodes cs)) codes\<rparr>)"

text \<open>
  The part of the computation after the grants are loaded; it queries the device groups of the
  matching assignments itself.
\<close>

definition scope_from_grants :: "db \<Rightarrow> string \<Rightarrow> role_grants \<Rightarrow> permission_scope" where
  "scope_from_grants d c grants =
     (let matching = filter (\<lambda>a. c \<in> set (js_get (rg_effective grants) (as_role a) []) \<and>
                        (as_scope a = ''global'' \<or> isDeviceGroupScopedPermission c))
                      (rg_assignments grants)
      in if list_ex (\<lambda>a. as_scope a = ''global'') matching
         then \<lparr>ps_global = True, ps_groups = {}\<rparr>
         else
           let scoped = filter (\<lambda>a. as_scope a = ''device_group'') matching
           in if scoped = [] then \<lparr>ps_global = False, ps_groups = {}\<rparr>
              else
                let groups = filter (\<lambda>r. ag_assignment r \<in> set (map as_guid scoped))
                               (assignment_groups d)
                in \<lparr>ps_global = False, ps_groups = set (map ag_group groups)\<rparr>)"

definition computePermissionScope :: "db \<Rightarrow> string \<Rightarrow> string \<Rightarrow> permission_scope result" where
  "computePermissionScope d g c =
     rbind (getCurrentUser d g) (\<lambda>u.
       if u_isAdmin u \<or> \<not> isAssignablePermissionCode c
       then Inr \<lparr>ps_global = u_isAdmin u, ps_groups = {}\<rparr>
       else Inr (scope_from_grants d c (loadEffectiveRoleGrants d g)))"

text \<open>Without a request cache \<open>getPermissionScope\<close> is the computation itself.\<close>

definition requirePermission :: "db \<Rightarrow> string \<Rightarrow> string \<Rightarrow> permission_scope result" where
  "requirePermission d g c =
     (if \<not> isAssignablePermissionCode c then Inl (ForbiddenException ''Unknown permission'')
      else rbind (computePermissionScope d g c) (\<lambda>s.
        if \<not> ps_global s \<and> ps_groups s = {} then Inl (ForbiddenException ''Access denied'')
        else Inr s))"

subsection \<open>All effective permissions of a user\<close>

record effective_scope =
  es_type :: string
  es_groups :: "string list"

type_synonym scope_map = "(string \<times> effective_scope) list"

record scope_rows =
  sr_rows :: "(string \<times> permission_scope) list"
  sr_by_assignment :: "(string \<times> string list) list"

text \<open>The body of the inner loop: one permission of one assignment.\<close>

definition add_scope_row :: "role_assignment \<Rightarrow> string \<Rightarrow> scope_rows \<Rightarrow> scope_rows" where
  "add_scope_row a c st =
     (if as_scope a = ''device_group'' \<and> \<not> isDeviceGroupScopedPermission c then st
      else
        let current = js_get (sr_rows st) c \<lparr>ps_global = False, ps_groups = {}\<rparr>
        in if as_scope a = ''global''
           then st\<lparr>sr_rows := AList.update c (current\<lparr>ps_global := True\<rparr>) (sr_rows st)\<rparr>
           else st\<lparr>sr_by_assignment := js_push (as_guid a) c (sr_by_assignment st),
                   sr_rows := AList.update c current (sr_rows st)\<rparr>)"

text \<open>The body of the second pair of loops: one device group of one scoped assignment.\<close>

definition add_scope_group ::
  "(string \<times> string list) list \<Rightarrow> assignment_group \<Rightarrow>
   (string \<times> permission_scope) list \<Rightarrow> (string \<times> permission_scope) list" where
  "add_scope_group by row rows =
     fold (\<lambda>c rows. AList.map_entry c (\<lambda>s. s\<lparr>ps_groups := insert (ag_group row) (ps_groups s)\<rparr>) rows)
       (js_get by (ag_assignment row) []) rows"

definition getEffectivePermissions :: "db \<Rightarrow> string \<Rightarrow> (string list \<times> scope_map) result" where
  "getEffectivePermissions d g =
     rbind (getCurrentUser d g) (\<lambda>u.
       if u_isAdmin u
       then Inr (map perm_code PERMISSION_CATALOG,
                 map (\<lambda>p. (perm_code p, \<lparr>es_type = ''global'', es_groups = []\<rparr>)) PERMISSION_CATALOG)
       else
         let grants = loadEffectiveRoleGrants d g;
             st = fold (\<lambda>a st. fold (add_scope_row a) (js_get (rg_effective grants) (as_role a) []) st)
                    (rg_assignments grants) \<lparr>sr_rows = [], sr_by_assignment = []\<rparr>;
             by = sr_by_assignment st;
             groups = filter (\<lambda>r. ag_assignment r \<in> set (map fst by)) (assignment_groups d);
             rows = (if by \<noteq> [] then fold (add_scope_group by) groups (sr_rows st) else sr_rows st);
             scopes = map (\<lambda>(c, s). (c, if ps_global s then \<lparr>es_type = ''global'', es_groups = []\<rparr>
                               else \<lparr>es_type = ''device_group'',
                                     es_groups = sorted_list_of_set (ps_groups s)\<rparr>))
                        (filter (\<lambda>(c, s). ps_global s \<or> ps_groups s \<noteq> {}) rows)
         in Inr (sort (map fst scopes), scopes))"

subsection \<open>What an assignment grants\<close>

text \<open>
  The specification, read off the tables: the effective codes of a role, the codes a user
  holds everywhere, and the device groups in which a user holds a code.
\<close>

definition role_codes :: "db \<Rightarrow> string \<Rightarrow> string list" where
  "role_codes d r = map rp_code (filter (\<lambda>row. rp_role row = r) (role_permissions d))"

definition effective_codes :: "db \<Rightarrow> string \<Rightarrow> string list" where
  "effective_codes d r = filterEffectivePermissionCodes (role_codes d r)"

definition held_globally :: "db \<Rightarrow> string \<Rightarrow> string \<Rightarrow> bool" where
  "held_globally d g c \<longleftrightarrow>
     (\<exists>a \<in> set (assignments d). as_user a = g \<and> as_scope a = ''global'' \<and>
        c \<in> set (effective_codes d (as_role a)))"

definition held_in_groups :: "db \<Rightarrow> string \<Rightarrow> string \<Rightarrow> string set" where
  "held_in_groups d g c =
     {ag_group r | r a. r \<in> set (assignment_groups d) \<and> a \<in> set (assignments d) \<and>
        ag_assignment r = as_guid a \<and> as_user a = g \<and> as_scope a = ''device_group'' \<and>
        c \<in> set (effective_codes d (as_role a)) \<and> isDeviceGroupScopedPermission c}"

definition held_scope :: "db \<Rightarrow> string \<Rightarrow> string \<Rightarrow> permission_scope" where
  "held_scope d g c =
     (if held_globally d g c then \<lparr>ps_global = True, ps_groups = {}\<rparr>
      else \<lparr>ps_global = False, ps_groups = held_in_groups d g c\<rparr>)"

definition scope_nonempty :: "permission_scope \<Rightarrow> bool" where
  "scope_nonempty s \<longleftrightarrow> ps_global s \<or> ps_groups s \<noteq> {}"

lemma filterEffective_Nil [simp]: "filterEffectivePermissionCodes [] = []"
  by (simp add: filterEffectivePermissionCodes_def)

lemma finite_held_in_groups [simp]: "finite (held_in_groups d g c)"
proof (rule finite_subset)
  show "held_in_groups d g c \<subseteq> ag_group ` set (assignment_groups d)"
    by (auto simp: held_in_groups_def)
qed simp

lemma js_get_map_value:
  "f [] = [] \<Longrightarrow> js_get (map (\<lambda>(k, v). (k, f v)) m) k [] = f (js_get m k [])"
  by (simp add: js_get_def map_of_map_filter_key split: option.splits)

lemma grants_assignments:
  "rg_assignments (loadEffectiveRoleGrants d g) =
     filter (\<lambda>a. as_user a = g \<and> (as_scope a = ''global'' \<or> as_scope a = ''device_group'')) (assignments d)"
  by (simp add: loadEffectiveRoleGrants_def Let_def conj_commute)

lemma grants_effective:
  assumes "a \<in> set (rg_assignments (loadEffectiveRoleGrants d g))"
  shows "js_get (rg_effective (loadEffectiveRoleGrants d g)) (as_role a) [] = effective_codes d (as_role a)"
proof -
  let ?as = "rg_assignments (loadEffectiveRoleGrants d g)"
  have ne: "?as \<noteq> []" using assms by auto
  have "filter (\<lambda>r. rp_role r = as_role a)
          (filter (\<lambda>r. rp_role r \<in> set (map as_role ?as)) (role_permissions d)) =
        filter (\<lambda>r. rp_role r = as_role a) (role_permissions d)"
    using assms by (auto simp: filter_filter intro!: filter_cong)
  with ne show ?thesis
    by (simp add: loadEffectiveRoleGrants_def Let_def js_get_map_value js_get_group_rows
        effective_codes_def role_codes_def)
qed

lemma getCurrentUser_Inr [result_simps]:
  "getCurrentUser d g = Inr u \<longleftrightarrow> loadUserStatus d g = Some u \<and> u_status u = ACTIVE"
  by (auto simp: getCurrentUser_def split: option.splits if_splits)

lemma loadUserStatus_SomeD: "loadUserStatus d g = Some u \<Longrightarrow> u \<in> set (users d) \<and> u_guid u = g"
  by (auto simp: loadUserStatus_def dest: find_SomeD)

lemma computePermissionScope_user:
  assumes u: "getCurrentUser d g = Inr u" and na: "\<not> u_isAdmin u"
    and c: "isAssignablePermissionCode c"
  shows "computePermissionScope d g c = Inr (held_scope d g c)"
proof -
  let ?G = "loadEffectiveRoleGrants d g"
  let ?m = "filter (\<lambda>a. c \<in> set (js_get (rg_effective ?G) (as_role a) []) \<and>
      (as_scope a = ''global'' \<or> isDeviceGroupScopedPermission c)) (rg_assignments ?G)"
  have m: "set ?m = {a \<in> set (assignments d). as_user a = g \<and> c \<in> set (effective_codes d (as_role a)) \<and>
      (as_scope a = ''global'' \<or> as_scope a = ''device_group'' \<and> isDeviceGroupScopedPermission c)}"
    by (auto simp: grants_effective) (auto simp: grants_assignments grants_effective)
  have g: "list_ex (\<lambda>a. as_scope a = ''global'') ?m \<longleftrightarrow> held_globally d g c"
    unfolding list_ex_iff m by (auto simp: held_globally_def)
  have s: "set (filter (\<lambda>a. as_scope a = ''device_group'') ?m) =
      {a \<in> set (assignments d). as_user a = g \<and> as_scope a = ''device_group'' \<and>
         c \<in> set (effective_codes d (as_role a)) \<and> isDeviceGroupScopedPermission c}"
    unfolding set_filter [of _ ?m] m by auto
  have gr: "set (map ag_group (filter (\<lambda>r. ag_assignment r \<in>
        set (map as_guid (filter (\<lambda>a. as_scope a = ''device_group'') ?m))) (assignment_groups d))) =
      held_in_groups d g c"
    unfolding set_map set_filter s [simplified set_filter] by (auto simp: held_in_groups_def)
  have em: "filter (\<lambda>a. as_scope a = ''device_group'') ?m = [] \<Longrightarrow> held_in_groups d g c = {}"
    using gr by simp
  show ?thesis
    using u na c g gr em by (auto simp: computePermissionScope_def scope_from_grants_def held_scope_def Let_def)
qed

lemma computePermissionScope_admin:
  "getCurrentUser d g = Inr u \<Longrightarrow> u_isAdmin u \<Longrightarrow>
   computePermissionScope d g c = Inr \<lparr>ps_global = True, ps_groups = {}\<rparr>"
  by (simp add: computePermissionScope_def)

lemma computePermissionScope_error:
  "getCurrentUser d g = Inl e \<Longrightarrow> computePermissionScope d g c = Inl e"
  by (simp add: computePermissionScope_def)

lemma computePermissionScope_unassignable:
  "getCurrentUser d g = Inr u \<Longrightarrow> \<not> isAssignablePermissionCode c \<Longrightarrow>
   computePermissionScope d g c = Inr \<lparr>ps_global = u_isAdmin u, ps_groups = {}\<rparr>"
  by (simp add: computePermissionScope_def)

subsection \<open>The loops of \<open>getEffectivePermissions\<close>\<close>

definition row_counts :: "role_assignment \<times> string \<Rightarrow> bool" where
  "row_counts p \<longleftrightarrow> as_scope (fst p) \<noteq> ''device_group'' \<or> isDeviceGroupScopedPermission (snd p)"

definition no_scope :: permission_scope where
  "no_scope = \<lparr>ps_global = False, ps_groups = {}\<rparr>"

lemma fold_nested:
  "fold (\<lambda>a st. fold (f a) (g a) st) xs st =
   fold (\<lambda>p. f (fst p) (snd p)) (concat (map (\<lambda>a. map (Pair a) (g a)) xs)) st"
proof (induction xs arbitrary: st)
  case Nil
  then show ?case by simp
next
  case (Cons a xs)
  have "fold (f a) ys st = fold (\<lambda>p. f (fst p) (snd p)) (map (Pair a) ys) st" for ys st
    by (induction ys arbitrary: st) auto
  with Cons show ?case by simp
qed

lemma scope_update_same:
  "s = s\<lparr>ps_global := ps_global s \<or> P\<rparr> \<longleftrightarrow> (P \<longrightarrow> ps_global s)"
  by (cases s) auto

lemma sr_rows_fold:
  "map_of (sr_rows (fold (\<lambda>p. add_scope_row (fst p) (snd p)) ps st)) c =
     (if \<exists>p \<in> set ps. snd p = c \<and> row_counts p
      then Some ((js_get (sr_rows st) c no_scope)\<lparr>ps_global :=
             ps_global (js_get (sr_rows st) c no_scope) \<or>
             (\<exists>p \<in> set ps. snd p = c \<and> as_scope (fst p) = ''global'')\<rparr>)
      else map_of (sr_rows st) c)"
proof (induction ps arbitrary: st)
  case Nil
  then show ?case by simp
next
  case (Cons p ps)
  obtain a c0 where p: "p = (a, c0)" by (cases p)
  show ?case
    unfolding fold_Cons o_def Cons.IH
    by (auto simp: p add_scope_row_def row_counts_def js_get_def update_conv' no_scope_def Let_def
        scope_update_same split: option.splits)
qed

lemma sr_by_fold:
  "js_get (sr_by_assignment (fold (\<lambda>p. add_scope_row (fst p) (snd p)) ps st)) x [] =
     js_get (sr_by_assignment st) x [] @
     map snd (filter (\<lambda>p. as_guid (fst p) = x \<and> row_counts p \<and> as_scope (fst p) \<noteq> ''global'') ps)"
proof (induction ps arbitrary: st)
  case Nil
  then show ?case by simp
next
  case (Cons p ps)
  obtain a c0 where p: "p = (a, c0)" by (cases p)
  show ?case
    unfolding fold_Cons o_def Cons.IH
    by (auto simp: p add_scope_row_def row_counts_def js_simps Let_def)
qed

lemma sr_rows_distinct:
  "distinct (map fst (sr_rows st)) \<Longrightarrow>
   distinct (map fst (sr_rows (fold (\<lambda>p. add_scope_row (fst p) (snd p)) ps st)))"
  by (induction ps arbitrary: st) (simp_all add: add_scope_row_def Let_def distinct_update)

lemma add_scope_group_lookup:
  "map_of (add_scope_group by row rows) c =
     map_option (\<lambda>s. if c \<in> set (js_get by (ag_assignment row) [])
                  then s\<lparr>ps_groups := insert (ag_group row) (ps_groups s)\<rparr> else s) (map_of rows c)"
proof -
  have "map_of (fold (\<lambda>c rows. AList.map_entry c (\<lambda>s. s\<lparr>ps_groups := insert x (ps_groups s)\<rparr>) rows) cs rows) c =
      map_option (\<lambda>s. if c \<in> set cs then s\<lparr>ps_groups := insert x (ps_groups s)\<rparr> else s) (map_of rows c)"
    for x cs
    by (induction cs arbitrary: rows)
      (auto simp: map_of_map_entry option.map_comp option.map_ident o_def split: option.splits)
  then show ?thesis by (simp add: add_scope_group_def)
qed

lemma add_scope_groups_lookup:
  "map_of (fold (add_scope_group by) gs rows) c =
     map_option (\<lambda>s. s\<lparr>ps_groups := ps_groups s \<union>
         {ag_group r | r. r \<in> set gs \<and> c \<in> set (js_get by (ag_assignment r) [])}\<rparr>) (map_of rows c)"
proof (induction gs arbitrary: rows)
  case Nil
  then show ?case by (simp add: option.map_ident)
next
  case (Cons r gs)
  show ?case
    unfolding fold_Cons o_def Cons.IH add_scope_group_lookup
    by (cases "map_of rows c") (auto intro!: arg_cong [where f = "\<lambda>X. _\<lparr>ps_groups := X\<rparr>"])
qed

lemma add_scope_group_distinct:
  "distinct (map fst rows) \<Longrightarrow> distinct (map fst (add_scope_group by row rows))"
proof -
  have "distinct (map fst rows) \<Longrightarrow>
      distinct (map fst (fold (\<lambda>c rows. AList.map_entry c (\<lambda>s. s\<lparr>ps_groups := insert x (ps_groups s)\<rparr>) rows) cs rows))"
    for x cs
    by (induction cs arbitrary: rows) (auto simp: distinct_map_entry)
  then show "distinct (map fst rows) \<Longrightarrow> distinct (map fst (add_scope_group by row rows))"
    by (simp add: add_scope_group_def)
qed

lemma add_scope_groups_distinct:
  "distinct (map fst rows) \<Longrightarrow> distinct (map fst (fold (add_scope_group by) gs rows))"
  by (induction gs arbitrary: rows) (auto simp: add_scope_group_distinct)

text \<open>The filter on the keys of the second loop changes nothing.\<close>

lemma add_scope_groups_filter:
  "fold (add_scope_group by) (filter (\<lambda>r. ag_assignment r \<in> fst ` set by) gs) rows =
   fold (add_scope_group by) gs rows"
proof -
  have "ag_assignment r \<notin> fst ` set by \<Longrightarrow> add_scope_group by r rows = rows" for r rows
    by (simp add: add_scope_group_def js_get_def map_of_eq_None_iff [THEN iffD2])
  then show ?thesis by (induction gs arbitrary: rows) auto
qed

lemma add_scope_groups_empty: "fold (add_scope_group []) gs rows = rows"
proof -
  have "add_scope_group [] r rows = rows" for r rows
    by (simp add: add_scope_group_def js_get_def)
  then show ?thesis by (induction gs arbitrary: rows) auto
qed

subsection \<open>Listing and checking agree\<close>

definition listed_scope :: "permission_scope \<Rightarrow> effective_scope option" where
  "listed_scope s =
     (if ps_global s then Some \<lparr>es_type = ''global'', es_groups = []\<rparr>
      else if ps_groups s = {} then None
      else Some \<lparr>es_type = ''device_group'', es_groups = sorted_list_of_set (ps_groups s)\<rparr>)"

definition grant_pairs :: "db \<Rightarrow> string \<Rightarrow> (role_assignment \<times> string) list" where
  "grant_pairs d g =
     concat (map (\<lambda>a. map (Pair a) (js_get (rg_effective (loadEffectiveRoleGrants d g)) (as_role a) []))
       (rg_assignments (loadEffectiveRoleGrants d g)))"

definition final_rows :: "db \<Rightarrow> string \<Rightarrow> (string \<times> permission_scope) list" where
  "final_rows d g =
     (let st = fold (\<lambda>p. add_scope_row (fst p) (snd p)) (grant_pairs d g)
                 \<lparr>sr_rows = [], sr_by_assignment = []\<rparr>
      in fold (add_scope_group (sr_by_assignment st)) (assignment_groups d) (sr_rows st))"

lemma ex_pair_snd: "(\<exists>p \<in> S. snd p = c \<and> Q (fst p)) \<longleftrightarrow> (\<exists>a. (a, c) \<in> S \<and> Q a)"
  by force

lemma in_snd_image: "c \<in> snd ` {p \<in> S. Q p} \<longleftrightarrow> (\<exists>a. (a, c) \<in> S \<and> Q (a, c))"
  by force

lemma set_grant_pairs:
  "(a, c) \<in> set (grant_pairs d g) \<longleftrightarrow>
     a \<in> set (assignments d) \<and> as_user a = g \<and>
     (as_scope a = ''global'' \<or> as_scope a = ''device_group'') \<and>
     c \<in> set (effective_codes d (as_role a))"
proof -
  have "(a, c) \<in> set (grant_pairs d g) \<longleftrightarrow> a \<in> set (rg_assignments (loadEffectiveRoleGrants d g)) \<and>
      c \<in> set (js_get (rg_effective (loadEffectiveRoleGrants d g)) (as_role a) [])"
    by (auto simp: grant_pairs_def)
  also have "\<dots> \<longleftrightarrow> a \<in> set (rg_assignments (loadEffectiveRoleGrants d g)) \<and>
      c \<in> set (effective_codes d (as_role a))"
    by (rule conj_cong [OF refl]) (simp add: grants_effective)
  finally show ?thesis by (auto simp: grants_assignments)
qed

lemma counted_pairs:
  "(\<exists>p \<in> set (grant_pairs d g). snd p = c \<and> row_counts p) \<longleftrightarrow>
     (\<exists>a \<in> set (assignments d). as_user a = g \<and> c \<in> set (effective_codes d (as_role a)) \<and>
        (as_scope a = ''global'' \<or> as_scope a = ''device_group'' \<and> isDeviceGroupScopedPermission c))"
proof -
  have "(\<exists>p \<in> set (grant_pairs d g). snd p = c \<and> row_counts p) \<longleftrightarrow>
      (\<exists>a. (a, c) \<in> set (grant_pairs d g) \<and> row_counts (a, c))"
    by force
  then show ?thesis by (auto simp: set_grant_pairs row_counts_def)
qed

lemma distinct_final_rows: "distinct (map fst (final_rows d g))"
  by (simp add: final_rows_def Let_def add_scope_groups_distinct sr_rows_distinct)

lemma final_rows_lookup:
  "map_of (final_rows d g) c =
     (if \<exists>p \<in> set (grant_pairs d g). snd p = c \<and> row_counts p
      then Some \<lparr>ps_global = held_globally d g c, ps_groups = held_in_groups d g c\<rparr> else None)"
proof -
  have gl: "(\<exists>p \<in> set (grant_pairs d g). snd p = c \<and> as_scope (fst p) = ''global'') = held_globally d g c"
    by (simp add: ex_pair_snd [where Q = "\<lambda>a. as_scope a = ''global''"] set_grant_pairs)
      (auto simp: held_globally_def)
  have pw: "(a, c) \<in> set (grant_pairs d g) \<and> as_guid (fst (a, c)) = x \<and> row_counts (a, c) \<and>
      as_scope (fst (a, c)) \<noteq> ''global'' \<longleftrightarrow>
      a \<in> set (assignments d) \<and> x = as_guid a \<and> as_user a = g \<and> as_scope a = ''device_group'' \<and>
      c \<in> set (effective_codes d (as_role a)) \<and> isDeviceGroupScopedPermission c" for a x
    by (auto simp: set_grant_pairs row_counts_def)
  have gr: "{ag_group r | r. r \<in> set (assignment_groups d) \<and>
        c \<in> snd ` {p \<in> set (grant_pairs d g). as_guid (fst p) = ag_assignment r \<and> row_counts p \<and>
              as_scope (fst p) \<noteq> ''global''}} = held_in_groups d g c"
    unfolding in_snd_image pw held_in_groups_def by fast
  show ?thesis
    using gl gr
    by (simp add: final_rows_def Let_def add_scope_groups_lookup sr_rows_fold sr_by_fold no_scope_def)
qed

lemma getEffectivePermissions_user:
  assumes u: "getCurrentUser d g = Inr u" and na: "\<not> u_isAdmin u"
  shows "getEffectivePermissions d g =
    (let scopes = map (\<lambda>(c, s). (c, if ps_global s then \<lparr>es_type = ''global'', es_groups = []\<rparr>
                               else \<lparr>es_type = ''device_group'',
                                     es_groups = sorted_list_of_set (ps_groups s)\<rparr>))
                    (filter (\<lambda>(c, s). ps_global s \<or> ps_groups s \<noteq> {}) (final_rows d g))
     in Inr (sort (map fst scopes), scopes))"
proof -
  have "fold (\<lambda>a st. fold (add_scope_row a) (js_get (rg_effective (loadEffectiveRoleGrants d g)) (as_role a) []) st)
      (rg_assignments (loadEffectiveRoleGrants d g)) st =
    fold (\<lambda>p. add_scope_row (fst p) (snd p)) (grant_pairs d g) st" for st
    unfolding grant_pairs_def by (rule fold_nested)
  then show ?thesis
    using u na
    by (simp add: getEffectivePermissions_def final_rows_def Let_def add_scope_groups_filter
        add_scope_groups_empty)
qed

lemma listed_rows_lookup:
  assumes "\<And>c. map_of rows c = None \<Longrightarrow> listed_scope (f c) = None"
    and "\<And>c s. map_of rows c = Some s \<Longrightarrow> listed_scope s = listed_scope (f c)"
    and "distinct (map fst rows)"
  shows "map_of (map (\<lambda>(c, s). (c, if ps_global s then \<lparr>es_type = ''global'', es_groups = []\<rparr>
                               else \<lparr>es_type = ''device_group'',
                                     es_groups = sorted_list_of_set (ps_groups s)\<rparr>))
                    (filter (\<lambda>(c, s). ps_global s \<or> ps_groups s \<noteq> {}) rows)) c = listed_scope (f c)"
  using assms(1) [of c] assms(2) [of c]
  by (cases "map_of rows c")
    (auto simp: map_of_map_filter_key map_of_distinct_filter [OF assms(3)] listed_scope_def split: if_splits)

lemma getEffectivePermissions_scopes:
  assumes u: "getCurrentUser d g = Inr u" and na: "\<not> u_isAdmin u"
    and e: "getEffectivePermissions d g = Inr (ps, scopes)"
  shows "map_of scopes c = listed_scope (held_scope d g c)"
    and "distinct (map fst scopes)" and "ps = sort (map fst scopes)"
proof -
  let ?f = "\<lambda>(c, s). (c, if ps_global s then \<lparr>es_type = ''global'', es_groups = []\<rparr>
      else \<lparr>es_type = ''device_group'', es_groups = sorted_list_of_set (ps_groups s)\<rparr>)"
  let ?rows = "filter (\<lambda>(c, s). ps_global s \<or> ps_groups s \<noteq> {}) (final_rows d g)"
  have sc: "scopes = map ?f ?rows" and "ps = sort (map fst scopes)"
    using e getEffectivePermissions_user [OF u na] by (auto simp: Let_def)
  show "ps = sort (map fst scopes)" by fact
  have "map fst scopes = map fst ?rows"
    by (auto simp: sc split: prod.splits)
  then show "distinct (map fst scopes)"
    using distinct_final_rows [of d g] by (simp add: distinct_map_filter)
  have none: "map_of (final_rows d g) c = None \<Longrightarrow> listed_scope (held_scope d g c) = None" for c
    by (simp add: final_rows_lookup counted_pairs split: if_splits)
      (auto simp: listed_scope_def held_scope_def held_globally_def held_in_groups_def)
  have some: "map_of (final_rows d g) c = Some s \<Longrightarrow> listed_scope s = listed_scope (held_scope d g c)" for c s
    by (auto simp: final_rows_lookup listed_scope_def held_scope_def split: if_splits)
  show "map_of scopes c = listed_scope (held_scope d g c)"
    unfolding sc by (rule listed_rows_lookup [OF none some distinct_final_rows])
qed

lemma getEffectivePermissions_error:
  "getCurrentUser d g = Inl e \<Longrightarrow> getEffectivePermissions d g = Inl e"
  by (simp add: getEffectivePermissions_def)

lemma getEffectivePermissions_admin:
  "getCurrentUser d g = Inr u \<Longrightarrow> u_isAdmin u \<Longrightarrow> getEffectivePermissions d g =
     Inr (map perm_code PERMISSION_CATALOG,
       map (\<lambda>p. (perm_code p, \<lparr>es_type = ''global'', es_groups = []\<rparr>)) PERMISSION_CATALOG)"
  by (simp add: getEffectivePermissions_def)

lemma held_scope_cong:
  "assignments d' = assignments d \<Longrightarrow> assignment_groups d' = assignment_groups d \<Longrightarrow>
   role_permissions d' = role_permissions d \<Longrightarrow> held_scope d' g c = held_scope d g c"
  by (simp only: held_scope_def held_globally_def held_in_groups_def effective_codes_def role_codes_def)

lemma requirePermission_cong:
  assumes "users d' = users d" "held_scope d' g c = held_scope d g c"
  shows "requirePermission d' g c = requirePermission d g c"
proof (cases "isAssignablePermissionCode c")
  case True
  have u: "getCurrentUser d' g = getCurrentUser d g"
    using assms(1) by (simp add: getCurrentUser_def loadUserStatus_def)
  have "computePermissionScope d' g c = computePermissionScope d g c"
  proof (cases "getCurrentUser d g")
    case (Inr x)
    then show ?thesis
      using u True assms(2) computePermissionScope_user [of d g x c] computePermissionScope_user [of d' g x c]
        computePermissionScope_admin [of d g x c] computePermissionScope_admin [of d' g x c]
      by (cases "u_isAdmin x") simp_all
  qed (simp add: u computePermissionScope_error)
  then show ?thesis by (simp add: requirePermission_def)
qed (simp add: requirePermission_def)

lemma assignable_in_catalog:
  "isAssignablePermissionCode c \<Longrightarrow> c \<in> perm_code ` set PERMISSION_CATALOG"
  by (auto simp: isAssignablePermissionCode_def PERMISSION_CODES_def)

lemma map_of_constant: "map_of (map (\<lambda>p. (f p, v)) xs) c = (if c \<in> f ` set xs then Some v else None)"
  by (induction xs) auto

lemma requirePermission_Inr:
  "requirePermission d g c = Inr s \<longleftrightarrow>
     isAssignablePermissionCode c \<and>
     (\<exists>u. loadUserStatus d g = Some u \<and> u_status u = ACTIVE \<and>
        (if u_isAdmin u then s = \<lparr>ps_global = True, ps_groups = {}\<rparr>
         else s = held_scope d g c \<and> scope_nonempty s))"
proof (cases "isAssignablePermissionCode c")
  case False
  then show ?thesis by (simp add: requirePermission_def)
next
  case True
  show ?thesis
  proof (cases "getCurrentUser d g")
    case (Inl e)
    then have "\<not> (\<exists>u. loadUserStatus d g = Some u \<and> u_status u = ACTIVE)"
      by (metis getCurrentUser_Inr old.sum.distinct(1))
    with Inl True show ?thesis
      by (auto simp: requirePermission_def computePermissionScope_error)
  next
    case (Inr u)
    then have u: "loadUserStatus d g = Some u" "u_status u = ACTIVE"
      by (auto simp: getCurrentUser_Inr)
    show ?thesis
      using True u computePermissionScope_admin [OF Inr] computePermissionScope_user [OF Inr]
      by (cases "u_isAdmin u") (auto simp: requirePermission_def scope_nonempty_def held_scope_def split: if_splits)
  qed
qed

text \<open>
  C1. A permission check succeeds exactly when the tables grant the permission: the code is
  assignable, the account exists and is active, and it is either the super administrator
  (unrestricted) or holds the code through a role assigned globally (unrestricted) or through
  roles assigned for device groups (exactly those groups, and only for codes that can be
  restricted to groups). It returns exactly that scope and never an empty one.
\<close>

theorem requirePermission_iff:
  "requirePermission d g c = Inr s \<longleftrightarrow>
     isAssignablePermissionCode c \<and>
     (\<exists>u. loadUserStatus d g = Some u \<and> u_status u = ACTIVE \<and>
        (if u_isAdmin u then s = \<lparr>ps_global = True, ps_groups = {}\<rparr>
         else s = held_scope d g c \<and> scope_nonempty s))"
  by (rule requirePermission_Inr)

text \<open>
  C2. The two routines that interpret the grants agree: what \<open>getEffectivePermissions\<close> lists
  for a user (two nested loops, one query for all groups) is, code by code, what
  \<open>requirePermission\<close> decides for that code (its own filters and its own query): the same
  error, the same refusal of codes that are not listed, and the same scope.
\<close>

theorem effective_permissions_agree:
  "requirePermission d g c =
     (if \<not> isAssignablePermissionCode c then Inl (ForbiddenException ''Unknown permission'')
      else case getEffectivePermissions d g of
          Inl e \<Rightarrow> Inl e
        | Inr (ps, scopes) \<Rightarrow>
            (case map_of scopes c of
               None \<Rightarrow> Inl (ForbiddenException ''Access denied'')
             | Some es \<Rightarrow> Inr \<lparr>ps_global = (es_type es = ''global''), ps_groups = set (es_groups es)\<rparr>))"
proof (cases "isAssignablePermissionCode c")
  case False
  then show ?thesis by (simp add: requirePermission_def)
next
  case c: True
  show ?thesis
  proof (cases "getCurrentUser d g")
    case (Inl e)
    with c show ?thesis
      by (simp add: requirePermission_def computePermissionScope_error getEffectivePermissions_error)
  next
    case (Inr u)
    show ?thesis
    proof (cases "u_isAdmin u")
      case True
      with Inr c show ?thesis
        using assignable_in_catalog [OF c]
        by (simp add: requirePermission_def computePermissionScope_admin getEffectivePermissions_admin
            map_of_constant)
    next
      case False
      obtain ps scopes where e: "getEffectivePermissions d g = Inr (ps, scopes)"
        using getEffectivePermissions_user [OF Inr False] by (simp add: Let_def)
      show ?thesis
        using c e getEffectivePermissions_scopes(1) [OF Inr False e, of c]
        by (auto simp: requirePermission_def computePermissionScope_user [OF Inr False c]
            listed_scope_def held_scope_def split: if_splits)
    qed
  qed
qed

end
