(* ===== verification/Rbac_Access.thy ===== *)
theory Rbac_Access
  imports Rbac_Authorization
begin

text \<open>
  The assertions other services call before they act
  (\<open>src/modules/rbac/services/rbac-authorization.service.ts\<close>, second half): access to one
  or many devices, targets of strategies, changes of user accounts and the protection of
  accounts. A refusal that the code logs leaves one denied row in the audit log; the result is
  paired with the database for that reason. The route guard
  (\<open>src/modules/rbac/guards/rbac.guard.ts\<close>) closes the theory.
\<close>

type_synonym 'a audited = "'a result \<times> db"

definition rejectWithAudit ::
  "string \<Rightarrow> string \<Rightarrow> string option \<Rightarrow> string \<Rightarrow> http_error \<Rightarrow> db \<Rightarrow> 'a audited" where
  "rejectWithAudit actor ttype target act e d =
     (Inl e, recordDenied (Some actor) ttype target act (Some (error_message e)) d)"

subsection \<open>Devices\<close>

text \<open>\<open>!peer.deviceGroupGuid\<close> also holds for the empty string.\<close>

definition in_scope_groups :: "permission_scope \<Rightarrow> peer \<Rightarrow> bool" where
  "in_scope_groups s p =
     (case peer_group p of None \<Rightarrow> False | Some g \<Rightarrow> g \<noteq> [] \<and> g \<in> ps_groups s)"

definition assertDeviceAccess ::
  "db \<Rightarrow> string \<Rightarrow> string \<Rightarrow> string \<Rightarrow> (peer \<times> permission_scope) audited" where
  "assertDeviceAccess d g c uuid =
     (case requirePermission d g c of
        Inl e \<Rightarrow> (Inl e, d)
      | Inr s \<Rightarrow>
          (case find (\<lambda>p. peer_uuid p = uuid) (peers d) of
             None \<Rightarrow> (Inl (NotFoundException ''Device not found''), d)
           | Some p \<Rightarrow>
               if \<not> ps_global s \<and> \<not> in_scope_groups s p
               then rejectWithAudit g ''device'' (Some uuid) c
                      (ForbiddenException ''Device is not in an authorized device group'') d
               else (Inr (p, s), d)))"

definition assertDevicesAccess ::
  "db \<Rightarrow> string \<Rightarrow> string \<Rightarrow> string list \<Rightarrow> (peer list \<times> permission_scope) audited" where
  "assertDevicesAccess d g c uuids =
     (case requirePermission d g c of
        Inl e \<Rightarrow> (Inl e, d)
      | Inr s \<Rightarrow>
          let unique = js_unique uuids
          in if unique = [] then (Inr ([], s), d)
             else
               let found = filter (\<lambda>p. peer_uuid p \<in> set unique) (peers d)
               in case (if \<not> ps_global s then find (\<lambda>p. \<not> in_scope_groups s p) found else None) of
                    Some denied \<Rightarrow> rejectWithAudit g ''device'' (Some (peer_uuid denied)) c
                      (ForbiddenException ''Batch request contains unauthorized devices'') d
                  | None \<Rightarrow> (Inr (found, s), d))"

subsection \<open>Protected accounts\<close>

text \<open>With a manager the account is read again; without one the caller's flag is believed.\<close>

definition computeIsProtectedUser :: "db \<Rightarrow> string \<Rightarrow> bool option \<Rightarrow> bool \<Rightarrow> bool" where
  "computeIsProtectedUser d g isAdmin manager =
     (let user = (if manager then find (\<lambda>u. u_guid u = g) (users d) else None)
      in if (case user of Some u \<Rightarrow> u_isAdmin u | None \<Rightarrow> False) \<or> (\<not> manager \<and> isAdmin = Some True)
         then True
         else
           let as = filter (\<lambda>a. as_user a = g) (assignments d)
           in if as = [] then False
              else list_ex role_protected
                     (filter (\<lambda>r. role_guid r \<in> set (js_unique (map as_role as))) (roles d)))"

definition isProtectedUser :: "db \<Rightarrow> string \<Rightarrow> bool option \<Rightarrow> bool \<Rightarrow> bool" where
  "isProtectedUser d g isAdmin manager = computeIsProtectedUser d g isAdmin manager"

definition getEffectiveProtectionMap :: "db \<Rightarrow> string list \<Rightarrow> (string \<times> bool) list" where
  "getEffectiveProtectionMap d guids =
     (let unique = js_unique guids;
          result = map (\<lambda>g. (g, False)) unique
      in if unique = [] then result
         else
           let found = filter (\<lambda>u. u_guid u \<in> set unique) (users d);
               result = fold (\<lambda>u m. if u_isAdmin u then AList.update (u_guid u) True m else m) found result;
               as = filter (\<lambda>a. as_user a \<in> set unique) (assignments d)
           in if as = [] then result
              else
                let protectedRoles = map role_guid
                      (filter (\<lambda>r. role_guid r \<in> set (js_unique (map as_role as)) \<and> role_protected r)
                        (roles d))
                in fold (\<lambda>a m. if as_role a \<in> set protectedRoles then AList.update (as_user a) True m else m)
                     as result)"

definition getProtectedUserGuids :: "db \<Rightarrow> string list \<Rightarrow> string list \<Rightarrow> string set" where
  "getProtectedUserGuids d guids knownOwners =
     (let result = fold (\<lambda>g m. AList.update g True m) knownOwners (getEffectiveProtectionMap d guids)
      in set (map fst (filter (\<lambda>(_, b). b) result)))"

definition assertSystemOwnerIsNotRemoved :: "user \<Rightarrow> string \<Rightarrow> unit result" where
  "assertSystemOwnerIsNotRemoved target c =
     (if u_isAdmin target \<and> (c = ''users.status'' \<or> c = ''users.delete'')
      then Inl (ForbiddenException ''The system owner account cannot be disabled or deleted'')
      else Inr ())"

definition assertUserMutation :: "db \<Rightarrow> string \<Rightarrow> string \<Rightarrow> string \<Rightarrow> bool \<Rightarrow> unit audited" where
  "assertUserMutation d actor target c manager =
     (case requirePermission d actor c of
        Inl e \<Rightarrow> (Inl e, d)
      | Inr _ \<Rightarrow>
          (case find (\<lambda>u. u_guid u = target) (users d) of
             None \<Rightarrow> (Inl (NotFoundException ''User does not exist''), d)
           | Some u \<Rightarrow>
               (case assertSystemOwnerIsNotRemoved u c of
                  Inl e \<Rightarrow> (Inl e, d)
                | Inr _ \<Rightarrow>
                    if isProtectedUser d target (Some (u_isAdmin u)) manager
                    then (case requireSuperAdmin d actor of
                            Inl e \<Rightarrow> rejectWithAudit actor ''user'' (Some target) ''super_admin'' e d
                          | Inr _ \<Rightarrow> (Inr (), d))
                    else (Inr (), d))))"

definition assertUsersMutation :: "db \<Rightarrow> string \<Rightarrow> string list \<Rightarrow> string \<Rightarrow> unit audited" where
  "assertUsersMutation d actor targets c =
     (case requirePermission d actor c of
        Inl e \<Rightarrow> (Inl e, d)
      | Inr _ \<Rightarrow>
          let unique = js_unique targets
          in if unique = [] then (Inr (), d)
             else
               let found = filter (\<lambda>u. u_guid u \<in> set unique) (users d)
               in case each (\<lambda>u. assertSystemOwnerIsNotRemoved u c) found of
                    Inl e \<Rightarrow> (Inl e, d)
                  | Inr _ \<Rightarrow>
                      let protectedGuids = getProtectedUserGuids d (map u_guid found)
                                             (map u_guid (filter u_isAdmin found))
                      in case find (\<lambda>u. u_guid u \<in> protectedGuids) found of
                           None \<Rightarrow> (Inr (), d)
                         | Some u \<Rightarrow>
                             (case requireSuperAdmin d actor of
                                Inl e \<Rightarrow> rejectWithAudit actor ''user'' (Some (u_guid u)) ''super_admin'' e d
                              | Inr _ \<Rightarrow> (Inr (), d)))"

subsection \<open>Targets of strategies\<close>

datatype strategy_target = TargetDevice | TargetUser | TargetDeviceGroup

definition assertStrategyTargets ::
  "db \<Rightarrow> string \<Rightarrow> strategy_target \<Rightarrow> string list \<Rightarrow> permission_scope audited" where
  "assertStrategyTargets d g ttype targets =
     (case requirePermission d g ''strategies.assign'' of
        Inl e \<Rightarrow> (Inl e, d)
      | Inr s \<Rightarrow>
          (case ttype of
             TargetUser \<Rightarrow>
               if \<not> ps_global s
               then rejectWithAudit g ''user''
                      (case targets of [] \<Rightarrow> None | t # _ \<Rightarrow> if t = [] then None else Some t)
                      ''strategies.assign''
                      (ForbiddenException ''Assigning strategies by user requires global permission'') d
               else
                 let found = filter (\<lambda>u. u_guid u \<in> set (js_unique targets)) (users d)
                 in if length found \<noteq> card (set targets)
                    then (Inl (NotFoundException ''User does not exist''), d)
                    else
                      let protectedUsers = getProtectedUserGuids d (map u_guid found)
                                             (map u_guid (filter u_isAdmin found))
                      in (case find (\<lambda>u. u_guid u \<in> protectedUsers) found of
                            None \<Rightarrow> (Inr s, d)
                          | Some u \<Rightarrow>
                              (case requireSuperAdmin d g of
                                 Inl e \<Rightarrow> rejectWithAudit g ''user'' (Some (u_guid u)) ''super_admin'' e d
                               | Inr _ \<Rightarrow> (Inr s, d)))
           | TargetDeviceGroup \<Rightarrow>
               let groups = filter (\<lambda>x. dg_guid x \<in> set (js_unique targets)) (device_groups d)
               in if ps_global s then (Inr s, d)
                  else (case find (\<lambda>x. dg_guid x \<notin> ps_groups s) groups of
                          Some x \<Rightarrow>
                            if dg_guid x \<noteq> []
                            then rejectWithAudit g ''device_group'' (Some (dg_guid x)) ''strategies.assign''
                                   (ForbiddenException ''Target device group is outside the authorized scope'') d
                            else (Inr s, d)
                        | None \<Rightarrow> (Inr s, d))
           | TargetDevice \<Rightarrow>
               let found = filter (\<lambda>p. peer_uuid p \<in> set (js_unique targets)) (peers d)
               in if ps_global s then (Inr s, d)
                  else (case find (\<lambda>p. \<not> in_scope_groups s p) found of
                          Some p \<Rightarrow> rejectWithAudit g ''device'' (Some (peer_uuid p)) ''strategies.assign''
                            (ForbiddenException ''Target device is not in an authorized device group'') d
                        | None \<Rightarrow> (Inr s, d))))"

subsection \<open>The route guard\<close>

text \<open>
  \<open>permissions\<close> and \<open>requiresSuperAdmin\<close> are the route's decorators; the acting user is
  \<open>None\<close> when the request carries no (or an empty) identity. The action logged is the
  joined list of the route's permissions, or \<open>super_admin\<close> when that is empty.
\<close>

definition guard_checks :: "db \<Rightarrow> string \<Rightarrow> string list \<Rightarrow> bool \<Rightarrow> unit result" where
  "guard_checks d g perms requiresSuperAdmin =
     rbind (if requiresSuperAdmin then rbind (requireSuperAdmin d g) (\<lambda>_. Inr ()) else Inr ())
       (\<lambda>_. each (\<lambda>p. rbind (requirePermission d g p) (\<lambda>_. Inr ())) perms)"

definition canActivate ::
  "db \<Rightarrow> string list option \<Rightarrow> bool \<Rightarrow> string option \<Rightarrow> bool audited" where
  "canActivate d permissions requiresSuperAdmin userGuid =
     (let perms = (case permissions of None \<Rightarrow> [] | Some ps \<Rightarrow> ps)
      in if perms = [] \<and> \<not> requiresSuperAdmin then (Inr True, d)
         else
           (case userGuid of
              None \<Rightarrow> (Inl (ForbiddenException ''Please log in first''), d)
            | Some g \<Rightarrow>
                if g = [] then (Inl (ForbiddenException ''Please log in first''), d)
                else
                  (case guard_checks d g perms requiresSuperAdmin of
                     Inr _ \<Rightarrow> (Inr True, d)
                   | Inl e \<Rightarrow>
                       (Inl e, recordDenied (Some g) ''route'' None
                          (if join_with '','' perms \<noteq> [] then join_with '','' perms else ''super_admin'')
                          (Some (error_message e)) d))))"

subsection \<open>Device access\<close>

text \<open>The specification: who may act on a device with a permission.\<close>

definition may_act_on_peer :: "db \<Rightarrow> string \<Rightarrow> string \<Rightarrow> peer \<Rightarrow> bool" where
  "may_act_on_peer d g c p \<longleftrightarrow>
     (\<exists>u. loadUserStatus d g = Some u \<and> u_status u = ACTIVE \<and>
        (u_isAdmin u \<or> held_globally d g c \<or>
         (\<exists>x. peer_group p = Some x \<and> x \<noteq> [] \<and> x \<in> held_in_groups d g c)))"

lemma scope_covers_peer:
  assumes "requirePermission d g c = Inr s"
  shows "ps_global s \<or> in_scope_groups s p \<longleftrightarrow> may_act_on_peer d g c p"
proof -
  obtain u where u: "loadUserStatus d g = Some u" "u_status u = ACTIVE"
    and s: "if u_isAdmin u then s = \<lparr>ps_global = True, ps_groups = {}\<rparr>
      else s = held_scope d g c \<and> scope_nonempty s"
    using assms unfolding requirePermission_Inr by blast
  then show ?thesis
    by (auto simp: may_act_on_peer_def held_scope_def in_scope_groups_def split: if_splits option.splits)
qed

lemma may_act_permission:
  assumes "may_act_on_peer d g c p" "isAssignablePermissionCode c"
  shows "\<exists>s. requirePermission d g c = Inr s"
proof -
  obtain u where u: "loadUserStatus d g = Some u" "u_status u = ACTIVE"
    and h: "u_isAdmin u \<or> held_globally d g c \<or> held_in_groups d g c \<noteq> {}"
    using assms(1) by (auto simp: may_act_on_peer_def)
  then have "u_isAdmin u \<or> scope_nonempty (held_scope d g c)"
    by (auto simp: held_scope_def scope_nonempty_def)
  then show ?thesis
    using u assms(2) unfolding requirePermission_Inr by auto
qed

text \<open>
  What a service needs of the permission check when it guards one device: the returned scope
  covers the device exactly when the caller may act on it, and a caller who may act on a device
  is not refused outright.
\<close>

locale device_permission =
  fixes require :: "db \<Rightarrow> string \<Rightarrow> string \<Rightarrow> permission_scope result"
    and may :: "db \<Rightarrow> string \<Rightarrow> string \<Rightarrow> peer \<Rightarrow> bool"
    and usable :: "string \<Rightarrow> bool"
  assumes covers: "require d g c = Inr s \<Longrightarrow> (ps_global s \<or> in_scope_groups s p) = may d g c p"
    and grants: "may d g c p \<Longrightarrow> usable c \<Longrightarrow> \<exists>s. require d g c = Inr s"
begin

lemma scope_check_iff:
  assumes "usable c"
  shows "rbind (require d g c) (\<lambda>s. if ps_global s \<or> in_scope_groups s p then Inr x else Inl e) = Inr y \<longleftrightarrow>
     y = x \<and> may d g c p"
proof (cases "require d g c")
  case (Inl e')
  then have "\<not> may d g c p" using grants [of d g c p] assms by auto
  with Inl show ?thesis by simp
next
  case (Inr s)
  then show ?thesis using covers [OF Inr, of p] by auto
qed

lemma scope_check_all_iff:
  assumes "usable c" "ps \<noteq> []"
  shows "(\<exists>s. require d g c = Inr s \<and> list_all (\<lambda>p. ps_global s \<or> in_scope_groups s p) ps) \<longleftrightarrow>
     list_all (may d g c) ps"
proof -
  have "\<exists>s. require d g c = Inr s" if "list_all (may d g c) ps"
    using that assms grants [of d g c "hd ps"] by (cases ps) auto
  then show ?thesis using covers by (fastforce simp: list_all_iff)
qed

end

interpretation devices: device_permission requirePermission may_act_on_peer isAssignablePermissionCode
  by unfold_locales (auto simp: scope_covers_peer intro: may_act_permission)

lemma reject_not_ok [simp]:
  "rejectWithAudit g ty tg act e d \<noteq> (Inr x, d')"
  by (simp add: rejectWithAudit_def)

lemma assertDeviceAccess_iff:
  "assertDeviceAccess d g c uuid = (Inr (p, s), d') \<longleftrightarrow>
     d' = d \<and> requirePermission d g c = Inr s \<and>
     find (\<lambda>p. peer_uuid p = uuid) (peers d) = Some p \<and> may_act_on_peer d g c p"
proof (cases "requirePermission d g c")
  case (Inl e)
  then show ?thesis by (simp add: assertDeviceAccess_def)
next
  case (Inr s')
  show ?thesis
    using scope_covers_peer [OF Inr, of p]
    by (auto simp: assertDeviceAccess_def Inr split: option.splits if_splits)
qed

text \<open>
  C19. A batch check lets a request through exactly when the caller holds the permission and
  may act on every registered device of the batch; it then returns those devices in table
  order (each once, unknown identifiers dropped) and leaves the database unchanged.
\<close>

theorem assertDevicesAccess_iff:
  "assertDevicesAccess d g c uuids = (Inr (ps, s), d') \<longleftrightarrow>
     d' = d \<and> requirePermission d g c = Inr s \<and>
     ps = filter (\<lambda>p. peer_uuid p \<in> set uuids) (peers d) \<and>
     list_all (may_act_on_peer d g c) ps"
proof (cases "requirePermission d g c")
  case (Inl e)
  then show ?thesis by (simp add: assertDevicesAccess_def)
next
  case (Inr s')
  have "ps_global s' \<or> in_scope_groups s' p \<longleftrightarrow> may_act_on_peer d g c p" for p
    by (rule scope_covers_peer [OF Inr])
  then have cov: "may_act_on_peer d g c p \<longleftrightarrow> ps_global s' \<or> in_scope_groups s' p" for p by blast
  show ?thesis
    by (cases "ps_global s'")
      (auto simp: assertDevicesAccess_def Inr Let_def cov list_all_iff find_None_iff_all
        split: option.splits if_splits dest!: find_SomeD)
qed

subsection \<open>Protected accounts\<close>

definition protected_account :: "db \<Rightarrow> string \<Rightarrow> bool" where
  "protected_account d g \<longleftrightarrow>
     (\<exists>u \<in> set (users d). u_guid u = g \<and> u_isAdmin u) \<or>
     (\<exists>a \<in> set (assignments d). as_user a = g \<and>
        (\<exists>r \<in> set (roles d). role_guid r = as_role a \<and> role_protected r))"

lemma map_of_fold_mark:
  "map_of (fold (\<lambda>x m. if P x then AList.update (k x) True m else m) xs m) g =
     (if \<exists>x \<in> set xs. P x \<and> k x = g then Some True else map_of m g)"
  by (induction xs arbitrary: m) (auto simp: update_conv')

lemma distinct_fold_mark:
  "distinct (map fst m) \<Longrightarrow>
   distinct (map fst (fold (\<lambda>x m. if P x then AList.update (k x) True m else m) xs m))"
  by (induction xs arbitrary: m) (auto simp: distinct_update)

lemma protection_map_lookup:
  "map_of (getEffectiveProtectionMap d guids) g =
     (if g \<in> set guids then Some (protected_account d g) else None)"
proof -
  have m0: "map_of (map (\<lambda>g. (g, False)) (js_unique guids)) g = (if g \<in> set guids then Some False else None)"
    using map_of_constant [of "\<lambda>g. g" False "js_unique guids" g] by simp
  let ?as = "filter (\<lambda>a. as_user a \<in> set (js_unique guids)) (assignments d)"
  let ?pr = "set (map role_guid (filter (\<lambda>r. role_guid r \<in> set (js_unique (map as_role ?as)) \<and>
      role_protected r) (roles d)))"
  have pr: "as_role a \<in> ?pr \<longleftrightarrow> (\<exists>r \<in> set (roles d). role_guid r = as_role a \<and> role_protected r)"
    if "a \<in> set ?as" for a
    using that by force
  have by_role: "(\<exists>a \<in> set ?as. as_role a \<in> ?pr \<and> as_user a = g) \<longleftrightarrow> g \<in> set guids \<and>
      (\<exists>a \<in> set (assignments d). as_user a = g \<and>
        (\<exists>r \<in> set (roles d). role_guid r = as_role a \<and> role_protected r))"
    using pr by auto
  have by_flag: "(\<exists>u \<in> set (filter (\<lambda>u. u_guid u \<in> set (js_unique guids)) (users d)). u_isAdmin u \<and> u_guid u = g) \<longleftrightarrow>
      g \<in> set guids \<and> (\<exists>u \<in> set (users d). u_guid u = g \<and> u_isAdmin u)"
    by auto
  have none: "?as = [] \<Longrightarrow> g \<in> set guids \<Longrightarrow> \<not> (\<exists>a \<in> set (assignments d). as_user a = g)"
    by (auto simp: filter_empty_conv)
  show ?thesis
    unfolding getEffectiveProtectionMap_def Let_def
    using none by (simp only: if_distrib [of map_of] if_distribR map_of_fold_mark by_role by_flag m0)
      (auto simp: protected_account_def)
qed

lemma distinct_protection_map: "distinct (map fst (getEffectiveProtectionMap d guids))"
  unfolding getEffectiveProtectionMap_def Let_def
  by (auto intro!: distinct_fold_mark simp: o_def)

lemma getProtectedUserGuids_eq:
  "getProtectedUserGuids d guids owners = {g \<in> set guids. protected_account d g} \<union> set owners"
proof -
  let ?m = "fold (\<lambda>g m. AList.update g True m) owners (getEffectiveProtectionMap d guids)"
  have f: "?m = fold (\<lambda>x m. if True then AList.update x True m else m) owners (getEffectiveProtectionMap d guids)"
    by simp
  have l: "map_of ?m g = (if g \<in> set owners then Some True else
      if g \<in> set guids then Some (protected_account d g) else None)" for g
    unfolding f map_of_fold_mark by (auto simp: protection_map_lookup)
  have d: "distinct (map fst ?m)"
    unfolding f by (rule distinct_fold_mark [OF distinct_protection_map])
  have "set (map fst (filter (\<lambda>(_, b). b) ?m)) = {g. map_of ?m g = Some True}"
    using d by (auto simp: image_iff map_of_eq_Some_iff)
  then show ?thesis
    by (auto simp: getProtectedUserGuids_def l split: if_splits)
qed

lemma computeIsProtectedUser_eq:
  assumes "distinct (map u_guid (users d))"
  shows "computeIsProtectedUser d g flag True = protected_account d g"
proof -
  have "(case find (\<lambda>u. u_guid u = g) (users d) of Some u \<Rightarrow> u_isAdmin u | None \<Rightarrow> False) \<longleftrightarrow>
      (\<exists>u \<in> set (users d). u_guid u = g \<and> u_isAdmin u)"
    using assms
    by (auto split: option.splits dest!: find_SomeD simp: find_None_iff_all distinct_map inj_on_def)
  then show ?thesis
    by (auto simp: computeIsProtectedUser_def Let_def protected_account_def list_ex_iff filter_empty_conv)
qed

text \<open>
  The bulk projection of the list endpoints and the single check inside a transaction
  agree on every account: both say that an account is protected exactly when it is a super
  administrator or holds a role whose protection flag is set. The primary key of the users
  table is the hypothesis.
\<close>

theorem protection_map_agrees:
  assumes "distinct (map u_guid (users d))"
  shows "map_of (getEffectiveProtectionMap d guids) g =
      (if g \<in> set guids then Some (isProtectedUser d g flag True) else None) \<and>
    isProtectedUser d g flag True = protected_account d g"
  using assms by (simp add: protection_map_lookup isProtectedUser_def computeIsProtectedUser_eq)

theorem protection_map_agrees_witness:
  "let d = \<lparr>users = [\<lparr>u_guid = ''ann'', u_status = ACTIVE, u_isAdmin = False\<rparr>,
                     \<lparr>u_guid = ''bob'', u_status = ACTIVE, u_isAdmin = False\<rparr>],
            roles = [\<lparr>role_guid = ''r1'', role_name = ''Owners'', role_note = None, role_protected = True\<rparr>],
            role_permissions = [],
            assignments = [\<lparr>as_guid = ''a1'', as_user = ''ann'', as_role = ''r1'', as_scope = ''global''\<rparr>],
            assignment_groups = [], device_groups = [], peers = [], user_tokens = [],
            console_audits = []\<rparr>
   in map_of (getEffectiveProtectionMap d [''bob'', ''ann'']) ''ann'' = Some True \<and>
      \<not> isProtectedUser d ''bob'' None True"
  unfolding Let_def
  by (subst protection_map_agrees [THEN conjunct1], simp,
      subst (1 2) protection_map_agrees [THEN conjunct2], simp_all add: protected_account_def)

lemma isProtectedUser_loaded:
  assumes "distinct (map u_guid (users d))" and "find (\<lambda>u. u_guid u = g) (users d) = Some u"
  shows "isProtectedUser d g (Some (u_isAdmin u)) m = protected_account d g"
proof (cases m)
  case True
  then show ?thesis by (simp add: isProtectedUser_def computeIsProtectedUser_eq assms(1))
next
  case False
  have "computeIsProtectedUser d g (Some (u_isAdmin u)) False =
      computeIsProtectedUser d g (Some (u_isAdmin u)) True"
    by (simp add: computeIsProtectedUser_def assms(2))
  with False show ?thesis by (simp add: isProtectedUser_def computeIsProtectedUser_eq assms(1))
qed

subsection \<open>Changes of user accounts\<close>

text \<open>The specification: when a caller may use a permission on an account.\<close>

definition may_mutate_user :: "db \<Rightarrow> string \<Rightarrow> string \<Rightarrow> user \<Rightarrow> bool" where
  "may_mutate_user d actor c u \<longleftrightarrow>
     (\<exists>s. requirePermission d actor c = Inr s) \<and>
     \<not> (u_isAdmin u \<and> c \<in> {''users.status'', ''users.delete''}) \<and>
     (protected_account d (u_guid u) \<longrightarrow> (\<exists>v. requireSuperAdmin d actor = Inr v))"

lemma assertSystemOwnerIsNotRemoved_iff [result_simps]:
  "assertSystemOwnerIsNotRemoved u c = Inr x \<longleftrightarrow>
     \<not> (u_isAdmin u \<and> c \<in> {''users.status'', ''users.delete''})"
  by (simp add: assertSystemOwnerIsNotRemoved_def)

lemma assertUserMutation_iff:
  assumes "distinct (map u_guid (users d))"
  shows "assertUserMutation d actor target c m = (Inr (), d') \<longleftrightarrow>
    d' = d \<and> (\<exists>u. find (\<lambda>u. u_guid u = target) (users d) = Some u \<and> may_mutate_user d actor c u)"
proof (cases "find (\<lambda>u. u_guid u = target) (users d)")
  case None
  then show ?thesis by (auto simp: assertUserMutation_def split: sum.splits)
next
  case (Some u)
  then have g: "u_guid u = target" by (auto dest: find_SomeD)
  show ?thesis
    using g by (auto simp: assertUserMutation_def Some isProtectedUser_loaded [OF assms Some]
        may_mutate_user_def result_simps split: sum.splits)
      (auto simp: assertSystemOwnerIsNotRemoved_def split: if_splits)
qed

lemma filter_admin_protected:
  assumes "u \<in> set (users d)" "u_isAdmin u" shows "protected_account d (u_guid u)"
  using assms by (auto simp: protected_account_def)

text \<open>
  C20. Authorizing a batch of account changes is authorizing each of its accounts: the batch
  passes exactly when the caller holds the permission and every existing account of the batch
  may be changed by that caller. In particular no one without the super administrator flag
  touches a protected account, and nobody at all disables or deletes the system owner.
\<close>

theorem assertUsersMutation_iff:
  "assertUsersMutation d actor targets c = (Inr (), d') \<longleftrightarrow>
     d' = d \<and> (\<exists>s. requirePermission d actor c = Inr s) \<and>
     list_all (may_mutate_user d actor c) (filter (\<lambda>u. u_guid u \<in> set targets) (users d))"
proof (cases "requirePermission d actor c")
  case (Inl e)
  then show ?thesis by (simp add: assertUsersMutation_def)
next
  case (Inr s)
  let ?found = "filter (\<lambda>u. u_guid u \<in> set targets) (users d)"
  have prot: "u_guid u \<in> getProtectedUserGuids d (map u_guid ?found) (map u_guid (filter u_isAdmin ?found)) \<longleftrightarrow>
      protected_account d (u_guid u)" if "u \<in> set ?found" for u
    using that by (auto simp: getProtectedUserGuids_eq intro: filter_admin_protected)
  let ?P = "\<lambda>u. u_guid u \<in> getProtectedUserGuids d (map u_guid ?found) (map u_guid (filter u_isAdmin ?found))"
  have find: "find ?P ?found = None \<longleftrightarrow> (\<forall>u \<in> set ?found. \<not> protected_account d (u_guid u))"
    "find ?P ?found = Some u \<Longrightarrow> u \<in> set ?found \<and> protected_account d (u_guid u)" for u
    using prot by (auto simp: find_None_iff_all dest!: find_SomeD)
  have owner: "each (\<lambda>u. assertSystemOwnerIsNotRemoved u c) ?found = Inr () \<longleftrightarrow>
      (\<forall>u \<in> set ?found. \<not> (u_isAdmin u \<and> c \<in> {''users.status'', ''users.delete''}))"
    by (simp add: each_Inr_iff assertSystemOwnerIsNotRemoved_iff)
  have all: "list_all (may_mutate_user d actor c) ?found \<longleftrightarrow>
      each (\<lambda>u. assertSystemOwnerIsNotRemoved u c) ?found = Inr () \<and>
      (find ?P ?found = None \<or> (\<exists>v. requireSuperAdmin d actor = Inr v))"
    unfolding owner find(1) using Inr by (auto simp: list_all_iff may_mutate_user_def)
  show ?thesis
    unfolding all assertUsersMutation_def Inr
    by (auto simp: Let_def split: sum.splits option.splits)
qed

subsection \<open>The route guard\<close>

definition route_admits :: "db \<Rightarrow> string list option \<Rightarrow> bool \<Rightarrow> string option \<Rightarrow> bool" where
  "route_admits d permissions requiresSuperAdmin who \<longleftrightarrow>
     (case permissions of None \<Rightarrow> [] | Some ps \<Rightarrow> ps) = [] \<and> \<not> requiresSuperAdmin \<or>
     (\<exists>g. who = Some g \<and> g \<noteq> [] \<and>
        (requiresSuperAdmin \<longrightarrow> (\<exists>v. requireSuperAdmin d g = Inr v)) \<and>
        (\<forall>p \<in> set (case permissions of None \<Rightarrow> [] | Some ps \<Rightarrow> ps). \<exists>s. requirePermission d g p = Inr s))"

lemma guard_checks_iff:
  "guard_checks d g perms sa = Inr () \<longleftrightarrow>
     (sa \<longrightarrow> (\<exists>v. requireSuperAdmin d g = Inr v)) \<and>
     (\<forall>p \<in> set perms. \<exists>s. requirePermission d g p = Inr s)"
proof -
  have s: "rbind m (\<lambda>_. Inr ()) = Inr () \<longleftrightarrow> (\<exists>v. m = Inr v)" for m :: "'b result"
    by (cases m) auto
  show ?thesis by (auto simp: guard_checks_def rbind_Inr_iff each_Inr_iff s)
qed

lemma canActivate_iff:
  "canActivate d permissions sa who = (Inr True, d') \<longleftrightarrow>
     d' = d \<and> route_admits d permissions sa who"
proof -
  obtain ps where ps: "(case permissions of None \<Rightarrow> [] | Some ps \<Rightarrow> ps) = ps" by simp
  have c: "(case guard_checks d g ps sa of Inr _ \<Rightarrow> (Inr True, d)
      | Inl e \<Rightarrow> (Inl e, f e)) = (Inr True, d') \<longleftrightarrow> guard_checks d g ps sa = Inr () \<and> d' = d" for g f
    by (cases "guard_checks d g ps sa") auto
  show ?thesis
    unfolding canActivate_def route_admits_def Let_def ps
    by (cases "ps = [] \<and> \<not> sa"; cases who) (auto simp: c guard_checks_iff)
qed

end
