(* ===== verification/Rbac_Cache.thy ===== *)
theory Rbac_Cache
  imports Rbac_Access
begin

text \<open>
  The request-scoped cache of the authorization service
  (\<open>src/modules/rbac/rbac-request-scope.ts\<close> and \<open>withRequestCache\<close> of the service): four
  maps that live as long as one request. Composite entries are stored under keys built by
  joining strings with a colon. A lookup that throws leaves no entry behind. The checks of a request
  run one after the other, and the lookups of one check find one state of the database; between
  two checks it may change.
\<close>

record request_cache =
  rc_users :: "(string \<times> user option) list"
  rc_grants :: "(string \<times> role_grants) list"
  rc_scopes :: "(string \<times> permission_scope) list"
  rc_protected :: "(string \<times> bool) list"

definition createRbacRequestCache :: request_cache where
  "createRbacRequestCache = \<lparr>rc_users = [], rc_grants = [], rc_scopes = [], rc_protected = []\<rparr>"

definition cacheUserStatusSnapshot :: "user \<Rightarrow> request_cache \<Rightarrow> request_cache" where
  "cacheUserStatusSnapshot u rc = rc\<lparr>rc_users := AList.update (u_guid u) (Some u) (rc_users rc)\<rparr>"

definition withRequestCache ::
  "('c \<Rightarrow> ('k \<times> 'v) list) \<Rightarrow> ((('k \<times> 'v) list \<Rightarrow> ('k \<times> 'v) list) \<Rightarrow> 'c \<Rightarrow> 'c) \<Rightarrow>
   'k \<Rightarrow> ('c \<Rightarrow> 'v result \<times> 'c) \<Rightarrow> 'c \<Rightarrow> 'v result \<times> 'c" where
  "withRequestCache store update_store key loader rc =
     (case map_of (store rc) key of
        Some v \<Rightarrow> (Inr v, rc)
      | None \<Rightarrow>
          (case loader rc of
             (Inl e, rc') \<Rightarrow> (Inl e, rc')
           | (Inr v, rc') \<Rightarrow> (Inr v, update_store (AList.update key v) rc')))"

definition loadUserStatusC :: "db \<Rightarrow> string \<Rightarrow> request_cache \<Rightarrow> user option result \<times> request_cache" where
  "loadUserStatusC d g =
     withRequestCache rc_users rc_users_update g (\<lambda>rc. (Inr (loadUserStatus d g), rc))"

definition getCurrentUserC :: "db \<Rightarrow> string \<Rightarrow> request_cache \<Rightarrow> user result \<times> request_cache" where
  "getCurrentUserC d g rc =
     (case loadUserStatusC d g rc of
        (Inl e, rc') \<Rightarrow> (Inl e, rc')
      | (Inr None, rc') \<Rightarrow>
          (Inl (UnauthorizedException ''Account does not exist or has been disabled''), rc')
      | (Inr (Some u), rc') \<Rightarrow>
          (if u_status u \<noteq> ACTIVE
           then Inl (UnauthorizedException ''Account does not exist or has been disabled'')
           else Inr u, rc'))"

definition requireSuperAdminC :: "db \<Rightarrow> string \<Rightarrow> request_cache \<Rightarrow> user result \<times> request_cache" where
  "requireSuperAdminC d g rc =
     (case getCurrentUserC d g rc of
        (Inl e, rc') \<Rightarrow> (Inl e, rc')
      | (Inr u, rc') \<Rightarrow>
          (if \<not> u_isAdmin u then Inl (ForbiddenException ''Super administrator permission required'')
           else Inr u, rc'))"

definition loadEffectiveRoleGrantsC ::
  "db \<Rightarrow> string \<Rightarrow> request_cache \<Rightarrow> role_grants result \<times> request_cache" where
  "loadEffectiveRoleGrantsC d g =
     withRequestCache rc_grants rc_grants_update g (\<lambda>rc. (Inr (loadEffectiveRoleGrants d g), rc))"

definition computePermissionScopeC ::
  "db \<Rightarrow> string \<Rightarrow> string \<Rightarrow> request_cache \<Rightarrow> permission_scope result \<times> request_cache" where
  "computePermissionScopeC d g c rc =
     (case getCurrentUserC d g rc of
        (Inl e, rc1) \<Rightarrow> (Inl e, rc1)
      | (Inr u, rc1) \<Rightarrow>
          if u_isAdmin u \<or> \<not> isAssignablePermissionCode c
          then (Inr \<lparr>ps_global = u_isAdmin u, ps_groups = {}\<rparr>, rc1)
          else (case loadEffectiveRoleGrantsC d g rc1 of
                  (Inl e, rc2) \<Rightarrow> (Inl e, rc2)
                | (Inr grants, rc2) \<Rightarrow> (Inr (scope_from_grants d c grants), rc2)))"

definition getPermissionScopeC ::
  "db \<Rightarrow> string \<Rightarrow> string \<Rightarrow> request_cache \<Rightarrow> permission_scope result \<times> request_cache" where
  "getPermissionScopeC d g c =
     withRequestCache rc_scopes rc_scopes_update (g @ '':'' @ c) (computePermissionScopeC d g c)"

definition requirePermissionC ::
  "db \<Rightarrow> string \<Rightarrow> string \<Rightarrow> request_cache \<Rightarrow> permission_scope result \<times> request_cache" where
  "requirePermissionC d g c rc =
     (if \<not> isAssignablePermissionCode c then (Inl (ForbiddenException ''Unknown permission''), rc)
      else (case getPermissionScopeC d g c rc of
              (Inl e, rc') \<Rightarrow> (Inl e, rc')
            | (Inr s, rc') \<Rightarrow>
                (if \<not> ps_global s \<and> ps_groups s = {} then Inl (ForbiddenException ''Access denied'')
                 else Inr s, rc')))"

definition flag_suffix :: "bool \<Rightarrow> string" where
  "flag_suffix b = (if b then ''true'' else ''false'')"

definition isProtectedUserC ::
  "db \<Rightarrow> string \<Rightarrow> bool option \<Rightarrow> request_cache \<Rightarrow> bool result \<times> request_cache" where
  "isProtectedUserC d g isAdmin =
     withRequestCache rc_protected rc_protected_update (g @ '':'' @ flag_suffix (isAdmin = Some True))
       (\<lambda>rc. (Inr (computeIsProtectedUser d g isAdmin False), rc))"

subsection \<open>Keys\<close>

lemma colon_key_inj:
  assumes "g @ CHR '':'' # c = g' @ CHR '':'' # c'" and "CHR '':'' \<notin> set c" and "CHR '':'' \<notin> set c'"
  shows "g = g' \<and> c = c'"
proof -
  have tw: "takeWhile (\<lambda>x. x \<noteq> CHR '':'') (rev (h @ CHR '':'' # e)) = rev e"
    if "CHR '':'' \<notin> set e" for h e
  proof -
    have "takeWhile (\<lambda>x. x \<noteq> CHR '':'') (rev e @ CHR '':'' # rev h) = rev e @ []"
      using that by (subst takeWhile_append2) auto
    then show ?thesis by simp
  qed
  from tw [OF assms(2), of g] tw [OF assms(3), of g']
    have "rev c = rev c'" using assms(1) by simp
  with assms(1) show ?thesis by simp
qed

lemma flag_suffix_no_colon: "CHR '':'' \<notin> set (flag_suffix b)"
  by (simp add: flag_suffix_def)

lemma flag_suffix_inj: "flag_suffix a = flag_suffix b \<longleftrightarrow> a = b"
  by (simp add: flag_suffix_def)

lemma catalog_codes_no_colon: "list_all (\<lambda>c. CHR '':'' \<notin> set c) PERMISSION_CODES"
  by code_simp

lemma assignable_no_colon: "isAssignablePermissionCode c \<Longrightarrow> CHR '':'' \<notin> set c"
  using catalog_codes_no_colon by (auto simp: isAssignablePermissionCode_def list_all_iff)

subsection \<open>A request\<close>

text \<open>
  The checks of one request in the order they are made. The database changes while the request
  runs: each check comes with the state its lookups find.
\<close>

datatype rbac_query =
    QueryUser string
  | QuerySuperAdmin string
  | QueryPermission string string
  | QueryProtected string "bool option"

datatype rbac_answer =
    AnswerUser "user result"
  | AnswerScope "permission_scope result"
  | AnswerFlag "bool result"

fun answer :: "db \<Rightarrow> rbac_query \<Rightarrow> rbac_answer" where
  "answer d (QueryUser g) = AnswerUser (getCurrentUser d g)"
| "answer d (QuerySuperAdmin g) = AnswerUser (requireSuperAdmin d g)"
| "answer d (QueryPermission g c) = AnswerScope (requirePermission d g c)"
| "answer d (QueryProtected g flag) = AnswerFlag (Inr (isProtectedUser d g flag False))"

fun answerC :: "db \<Rightarrow> rbac_query \<Rightarrow> request_cache \<Rightarrow> rbac_answer \<times> request_cache" where
  "answerC d (QueryUser g) rc = map_prod AnswerUser id (getCurrentUserC d g rc)"
| "answerC d (QuerySuperAdmin g) rc = map_prod AnswerUser id (requireSuperAdminC d g rc)"
| "answerC d (QueryPermission g c) rc = map_prod AnswerScope id (requirePermissionC d g c rc)"
| "answerC d (QueryProtected g flag) rc = map_prod AnswerFlag id (isProtectedUserC d g flag rc)"

fun run_request :: "(db \<times> rbac_query) list \<Rightarrow> request_cache \<Rightarrow> rbac_answer list" where
  "run_request [] rc = []"
| "run_request ((d, q) # h) rc = (case answerC d q rc of (a, rc') \<Rightarrow> a # run_request h rc')"

text \<open>
  A request starts with an empty cache; the token check of a route that is not public, made for the
  account \<open>g\<close> in the state \<open>d\<close>, leaves the account row it loaded.
\<close>

definition begin_request :: "(db \<times> string) option \<Rightarrow> request_cache" where
  "begin_request s = (case s of
       None \<Rightarrow> createRbacRequestCache
     | Some (d, g) \<Rightarrow> (case getCurrentUser d g of
         Inl e \<Rightarrow> createRbacRequestCache
       | Inr u \<Rightarrow> cacheUserStatusSnapshot u createRbacRequestCache))"

subsection \<open>What a request reads, once\<close>

text \<open>
  The specification: a request reads the row of a user, the role grants of a user, the scope of a
  permission and the protection of a user each once, in the state the first check finds that needs
  them, and all its later checks use what was read. \<open>pins\<close> holds the states of these reads.
\<close>

record pins =
  pin_users :: "string \<Rightarrow> db option"
  pin_grants :: "string \<Rightarrow> db option"
  pin_scopes :: "string \<times> string \<Rightarrow> db option"
  pin_protected :: "string \<times> bool \<Rightarrow> db option"

definition read_in :: "('k \<Rightarrow> db option) \<Rightarrow> 'k \<Rightarrow> db \<Rightarrow> db" where
  "read_in m k d = (case m k of None \<Rightarrow> d | Some d0 \<Rightarrow> d0)"

definition pin :: "'k \<Rightarrow> db \<Rightarrow> ('k \<Rightarrow> db option) \<Rightarrow> 'k \<Rightarrow> db option" where
  "pin k d m = m(k \<mapsto> read_in m k d)"

definition no_pins :: pins where
  "no_pins = \<lparr>pin_users = \<lambda>_. None, pin_grants = \<lambda>_. None, pin_scopes = \<lambda>_. None, pin_protected = \<lambda>_. None\<rparr>"

definition begin_pins :: "(db \<times> string) option \<Rightarrow> pins" where
  "begin_pins s = (case s of
       None \<Rightarrow> no_pins
     | Some (d, g) \<Rightarrow> (case getCurrentUser d g of
         Inl e \<Rightarrow> no_pins | Inr u \<Rightarrow> no_pins\<lparr>pin_users := [g \<mapsto> d]\<rparr>))"

fun reads :: "db \<Rightarrow> rbac_query \<Rightarrow> pins \<Rightarrow> pins" where
  "reads d (QueryUser g) p = pin_users_update (pin g d) p"
| "reads d (QuerySuperAdmin g) p = pin_users_update (pin g d) p"
| "reads d (QueryPermission g c) p =
     (if \<not> isAssignablePermissionCode c then p
      else pin_users_update (pin g d) (pin_grants_update (pin g d) (pin_scopes_update (pin (g, c) d) p)))"
| "reads d (QueryProtected g flag) p = pin_protected_update (pin (g, flag = Some True) d) p"

text \<open>The check of a permission with the account, the grants and the groups read in three states.\<close>

definition scope_read :: "db \<Rightarrow> db \<Rightarrow> db \<Rightarrow> string \<Rightarrow> string \<Rightarrow> permission_scope result" where
  "scope_read du dr ds g c = rbind (getCurrentUser du g) (\<lambda>u.
     if u_isAdmin u then Inr \<lparr>ps_global = True, ps_groups = {}\<rparr>
     else Inr (scope_from_grants ds c (loadEffectiveRoleGrants dr g)))"

definition permission_read :: "db \<Rightarrow> db \<Rightarrow> db \<Rightarrow> string \<Rightarrow> string \<Rightarrow> permission_scope result" where
  "permission_read du dr ds g c =
     (if \<not> isAssignablePermissionCode c then Inl (ForbiddenException ''Unknown permission'')
      else rbind (scope_read du dr ds g c) (\<lambda>s.
        if \<not> ps_global s \<and> ps_groups s = {} then Inl (ForbiddenException ''Access denied'') else Inr s))"

fun answer_read :: "db \<Rightarrow> pins \<Rightarrow> rbac_query \<Rightarrow> rbac_answer" where
  "answer_read d p (QueryUser g) = AnswerUser (getCurrentUser (read_in (pin_users p) g d) g)"
| "answer_read d p (QuerySuperAdmin g) = AnswerUser (requireSuperAdmin (read_in (pin_users p) g d) g)"
| "answer_read d p (QueryPermission g c) = AnswerScope (permission_read (read_in (pin_users p) g d)
     (read_in (pin_grants p) g d) (read_in (pin_scopes p) (g, c) d) g c)"
| "answer_read d p (QueryProtected g flag) =
     AnswerFlag (Inr (isProtectedUser (read_in (pin_protected p) (g, flag = Some True) d) g flag False))"

fun answers_read :: "(db \<times> rbac_query) list \<Rightarrow> pins \<Rightarrow> rbac_answer list" where
  "answers_read [] p = []"
| "answers_read ((d, q) # h) p = answer_read d p q # answers_read h (reads d q p)"

lemma scope_read_same: "isAssignablePermissionCode c \<Longrightarrow> scope_read d d d g c = computePermissionScope d g c"
  by (auto simp: scope_read_def computePermissionScope_def rbind_def split: sum.splits)

lemma permission_read_same: "permission_read d d d g c = requirePermission d g c"
  by (simp add: permission_read_def requirePermission_def scope_read_same)

text \<open>With one state for all checks the answers are fresh ones.\<close>

definition pins_from :: "db \<Rightarrow> pins \<Rightarrow> bool" where
  "pins_from d p \<longleftrightarrow> (\<forall>k. read_in (pin_users p) k d = d) \<and> (\<forall>k. read_in (pin_grants p) k d = d) \<and>
     (\<forall>k. read_in (pin_scopes p) k d = d) \<and> (\<forall>k. read_in (pin_protected p) k d = d)"

lemma read_in_pin: "read_in (pin k d m) k' d' = (if k' = k then read_in m k d else read_in m k' d')"
  by (simp add: read_in_def pin_def)

lemma pins_from_reads: "pins_from d p \<Longrightarrow> pins_from d (reads d q p)"
  by (cases q) (auto simp: pins_from_def read_in_pin)

lemma answer_read_same: "pins_from d p \<Longrightarrow> answer_read d p q = answer d q"
  by (cases q) (simp_all add: pins_from_def permission_read_same)

lemma answers_read_same: "pins_from d p \<Longrightarrow> \<forall>x\<in>set h. fst x = d \<Longrightarrow> answers_read h p = map (\<lambda>x. answer d (snd x)) h"
  by (induction h p rule: answers_read.induct) (auto simp: pins_from_reads answer_read_same)

text \<open>What was read stays, so a check that is made again is answered again in the same way.\<close>

fun knows :: "pins \<Rightarrow> rbac_query \<Rightarrow> bool" where
  "knows p (QueryUser g) = (pin_users p g \<noteq> None)"
| "knows p (QuerySuperAdmin g) = (pin_users p g \<noteq> None)"
| "knows p (QueryPermission g c) = (isAssignablePermissionCode c \<longrightarrow>
     pin_users p g \<noteq> None \<and> pin_grants p g \<noteq> None \<and> pin_scopes p (g, c) \<noteq> None)"
| "knows p (QueryProtected g flag) = (pin_protected p (g, flag = Some True) \<noteq> None)"

lemma pin_Some: "m k \<noteq> None \<Longrightarrow> pin k' d m k = m k"
  by (auto simp: pin_def read_in_def)

lemma pin_known: "pin k d m k \<noteq> None"
  by (simp add: pin_def)

lemma knows_reads: "knows (reads d q p) q"
  by (cases q) (simp_all add: pin_known)

lemma answer_after_read: "answer_read d' (reads d q p) q = answer_read d p q"
  by (cases q) (auto simp: read_in_pin permission_read_def)

lemma answer_known: "knows p q \<Longrightarrow> answer_read d p q = answer_read d' p q"
  by (cases q) (auto simp: read_in_def permission_read_def)

lemma knows_kept: "knows p q \<Longrightarrow> knows (reads d q' p) q \<and> answer_read d' (reads d q' p) q = answer_read d' p q"
  by (cases q; cases q') (auto simp: pin_Some read_in_def pin_def permission_read_def)

lemma known_answers:
  "knows p q \<Longrightarrow> j < length h \<Longrightarrow> snd (h ! j) = q \<Longrightarrow> answers_read h p ! j = answer_read d p q"
proof (induction h p arbitrary: j rule: answers_read.induct)
  case (2 d' q' h p)
  show ?case
  proof (cases j)
    case 0
    then show ?thesis using 2(4) answer_known [OF 2(2)] by simp
  next
    case (Suc i)
    then show ?thesis using 2(1) [of i] 2(3,4) knows_kept [OF 2(2)] by simp
  qed
qed simp

lemma repeated_answers:
  "i < j \<Longrightarrow> j < length h \<Longrightarrow> snd (h ! i) = snd (h ! j) \<Longrightarrow> answers_read h p ! i = answers_read h p ! j"
proof (induction h p arbitrary: i j rule: answers_read.induct)
  case (2 d q h p)
  obtain l where j: "j = Suc l" using 2(2) by (cases j) auto
  show ?case
  proof (cases i)
    case 0
    then have "answers_read h (reads d q p) ! l = answer_read d (reads d q p) q"
      using known_answers [OF knows_reads] 2(3,4) j by simp
    then show ?thesis using 0 j answer_after_read by simp
  next
    case (Suc k)
    then show ?thesis using 2(1) [of k l] 2(2-4) j by simp
  qed
qed simp

subsection \<open>The cache holds what was read\<close>

lemma computeIsProtectedUser_flag:
  "computeIsProtectedUser d g (Some (flag = Some True)) False = computeIsProtectedUser d g flag False"
  by (simp add: computeIsProtectedUser_def)

text \<open>The account may use role grants: it is active and no super administrator.\<close>

definition plain_user :: "db option \<Rightarrow> string \<Rightarrow> bool" where
  "plain_user du g = (case du of None \<Rightarrow> False | Some d \<Rightarrow>
     (case getCurrentUser d g of Inl e \<Rightarrow> False | Inr u \<Rightarrow> \<not> u_isAdmin u))"

definition scope_pinned :: "pins \<Rightarrow> string \<Rightarrow> string \<Rightarrow> permission_scope option" where
  "scope_pinned p g c = (case (pin_users p g, pin_grants p g, pin_scopes p (g, c)) of
       (Some du, Some dr, Some ds) \<Rightarrow> (case scope_read du dr ds g c of Inl e \<Rightarrow> None | Inr s \<Rightarrow> Some s)
     | _ \<Rightarrow> None)"

definition follows :: "pins \<Rightarrow> request_cache \<Rightarrow> bool" where
  "follows p rc \<longleftrightarrow>
     (\<forall>g. map_of (rc_users rc) g = map_option (\<lambda>d. loadUserStatus d g) (pin_users p g)) \<and>
     (\<forall>g. map_of (rc_grants rc) g =
        (if plain_user (pin_users p g) g then map_option (\<lambda>d. loadEffectiveRoleGrants d g) (pin_grants p g) else None)) \<and>
     (\<forall>g c. isAssignablePermissionCode c \<longrightarrow> map_of (rc_scopes rc) (g @ '':'' @ c) = scope_pinned p g c) \<and>
     (\<forall>g b. map_of (rc_protected rc) (g @ '':'' @ flag_suffix b) =
        map_option (\<lambda>d. computeIsProtectedUser d g (Some b) False) (pin_protected p (g, b))) \<and>
     (\<forall>g c. pin_scopes p (g, c) \<noteq> None \<longrightarrow> pin_grants p g \<noteq> None) \<and>
     (\<forall>g. pin_grants p g \<noteq> None \<longrightarrow> pin_users p g \<noteq> None)"

lemma follows_users: "follows p rc \<Longrightarrow> map_of (rc_users rc) g = map_option (\<lambda>d. loadUserStatus d g) (pin_users p g)"
  and follows_grants: "follows p rc \<Longrightarrow> map_of (rc_grants rc) g =
    (if plain_user (pin_users p g) g then map_option (\<lambda>d. loadEffectiveRoleGrants d g) (pin_grants p g) else None)"
  and follows_scopes: "follows p rc \<Longrightarrow> isAssignablePermissionCode c \<Longrightarrow> map_of (rc_scopes rc) (g @ '':'' @ c) = scope_pinned p g c"
  and follows_protected: "follows p rc \<Longrightarrow> map_of (rc_protected rc) (g @ '':'' @ flag_suffix b) =
    map_option (\<lambda>d. computeIsProtectedUser d g (Some b) False) (pin_protected p (g, b))"
  and follows_closed: "follows p rc \<Longrightarrow> pin_scopes p (g, c) = Some ds \<Longrightarrow> pin_grants p g \<noteq> None"
    "follows p rc \<Longrightarrow> pin_grants p g = Some dr \<Longrightarrow> pin_users p g \<noteq> None"
  unfolding follows_def by blast+

lemma pin_eq: "m k = Some d' \<Longrightarrow> pin k d m = m"
  by (auto simp: pin_def read_in_def)

lemma pins_update_same [simp]:
  "pin_users_update (\<lambda>_. pin_users p) p = p" "pin_grants_update (\<lambda>_. pin_grants p) p = p"
  "pin_scopes_update (\<lambda>_. pin_scopes p) p = p" "pin_protected_update (\<lambda>_. pin_protected p) p = p"
  by simp_all

lemma follow_user:
  assumes "follows p rc"
  shows "\<exists>rc'. loadUserStatusC d g rc = (Inr (loadUserStatus (read_in (pin_users p) g d) g), rc') \<and>
    follows (pin_users_update (pin g d) p) rc' \<and> rc_scopes rc' = rc_scopes rc \<and> rc_grants rc' = rc_grants rc"
proof (cases "pin_users p g")
  case (Some d0)
  then have "pin_users_update (pin g d) p = p" by (cases p) (simp add: pin_eq)
  then show ?thesis using assms Some follows_users [OF assms, of g]
    by (simp add: loadUserStatusC_def withRequestCache_def read_in_def)
next
  case None
  let ?p = "pin_users_update (pin g d) p" and ?rc = "rc_users_update (AList.update g (loadUserStatus d g)) rc"
  have none: "pin_grants p g = None" using follows_closed(2) [OF assms, of g] None by (cases "pin_grants p g") auto
  then have "pin_scopes p (g, c) = None" for c
    using follows_closed(1) [OF assms, of g c] by (cases "pin_scopes p (g, c)") auto
  note none = none this
  have "scope_pinned ?p h c = scope_pinned p h c" for h c
    using none None by (auto simp: scope_pinned_def pin_def split: option.splits)
  then have "follows ?p ?rc"
    using assms none None unfolding follows_def
    by (auto simp: update_conv' pin_def read_in_def plain_user_def)
  then show ?thesis using None follows_users [OF assms, of g]
    by (simp add: loadUserStatusC_def withRequestCache_def read_in_def)
qed

lemma follow_current:
  assumes "follows p rc"
  shows "\<exists>rc'. getCurrentUserC d g rc = (getCurrentUser (read_in (pin_users p) g d) g, rc') \<and>
    follows (pin_users_update (pin g d) p) rc' \<and> rc_scopes rc' = rc_scopes rc \<and> rc_grants rc' = rc_grants rc"
  using follow_user [OF assms, of d g] by (auto simp: getCurrentUserC_def getCurrentUser_def split: option.split)

lemma follow_superAdmin:
  assumes "follows p rc"
  shows "\<exists>rc'. requireSuperAdminC d g rc = (requireSuperAdmin (read_in (pin_users p) g d) g, rc') \<and>
    follows (pin_users_update (pin g d) p) rc'"
  using follow_current [OF assms, of d g] by (auto simp: requireSuperAdminC_def requireSuperAdmin_def rbind_def split: sum.split)

lemma follow_protected:
  assumes "follows p rc"
  shows "\<exists>rc'. isProtectedUserC d g flag rc =
      (Inr (isProtectedUser (read_in (pin_protected p) (g, flag = Some True) d) g flag False), rc') \<and>
    follows (pin_protected_update (pin (g, flag = Some True) d) p) rc'"
proof (cases "pin_protected p (g, flag = Some True)")
  case (Some d0)
  then have "pin_protected_update (pin (g, flag = Some True) d) p = p" by (cases p) (simp add: pin_eq)
  then show ?thesis using assms Some follows_protected [OF assms, of g "flag = Some True"] computeIsProtectedUser_flag [of d0 g flag]
    by (simp add: isProtectedUserC_def withRequestCache_def read_in_def isProtectedUser_def)
next
  case None
  let ?rc = "rc_protected_update (AList.update (g @ '':'' @ flag_suffix (flag = Some True)) (computeIsProtectedUser d g flag False)) rc"
  have "follows (pin_protected_update (pin (g, flag = Some True) d) p) ?rc"
    using assms None unfolding follows_def scope_pinned_def
    by (auto simp: update_conv' pin_def read_in_def flag_suffix_inj computeIsProtectedUser_flag
        dest!: colon_key_inj [OF _ flag_suffix_no_colon flag_suffix_no_colon])
  then show ?thesis using None follows_protected [OF assms, of g "flag = Some True"]
    by (simp add: isProtectedUserC_def withRequestCache_def read_in_def isProtectedUser_def)
qed

text \<open>The states read once the scope of \<open>c\<close> was needed for an account whose row was read.\<close>

definition pin_scope :: "string \<Rightarrow> string \<Rightarrow> db \<Rightarrow> pins \<Rightarrow> pins" where
  "pin_scope g c d p = pin_grants_update (pin g d) (pin_scopes_update (pin (g, c) d) p)"

lemma pin_scope_fields [simp]:
  "pin_users (pin_scope g c d p) = pin_users p" "pin_grants (pin_scope g c d p) = pin g d (pin_grants p)"
  "pin_scopes (pin_scope g c d p) = pin (g, c) d (pin_scopes p)" "pin_protected (pin_scope g c d p) = pin_protected p"
  by (simp_all add: pin_scope_def)

definition scope_now :: "db \<Rightarrow> pins \<Rightarrow> string \<Rightarrow> string \<Rightarrow> db \<Rightarrow> permission_scope result" where
  "scope_now du p g c d = scope_read du (read_in (pin_grants p) g d) (read_in (pin_scopes p) (g, c) d) g c"

lemma scope_pinned_now:
  "pin_users p g = Some du \<Longrightarrow> scope_pinned (pin_scope g c d p) g c = (case scope_now du p g c d of Inl e \<Rightarrow> None | Inr s \<Rightarrow> Some s)"
  by (simp add: scope_pinned_def pin_def scope_now_def)

lemma scope_pinned_other:
  assumes "follows p rc" "(g', c') \<noteq> (g, c)"
  shows "scope_pinned (pin_scope g c d p) g' c' = scope_pinned p g' c'"
proof (cases "pin_scopes p (g', c')")
  case None
  then show ?thesis using assms(2) by (auto simp: scope_pinned_def pin_def split: option.splits)
next
  case (Some ds)
  then obtain dr where "pin_grants p g' = Some dr" using follows_closed(1) [OF assms(1) Some] by auto
  then show ?thesis using Some assms(2) by (auto simp: scope_pinned_def pin_def read_in_def split: option.split)
qed

text \<open>The cache may take over what was read: the grants of the account if it uses them, and the scope.\<close>

lemma follows_pin_scope:
  assumes f: "follows p rc" and u: "pin_users p g = Some du" and c: "isAssignablePermissionCode c"
    and same: "rc_users rc' = rc_users rc" "rc_protected rc' = rc_protected rc"
    and grants: "\<And>h. map_of (rc_grants rc') h = (if h = g \<and> plain_user (Some du) g
        then Some (loadEffectiveRoleGrants (read_in (pin_grants p) g d) g) else map_of (rc_grants rc) h)"
    and scopes: "\<And>k. map_of (rc_scopes rc') k = (if k = g @ '':'' @ c
        then (case scope_now du p g c d of Inl e \<Rightarrow> None | Inr s \<Rightarrow> Some s) else map_of (rc_scopes rc) k)"
  shows "follows (pin_scope g c d p) rc'"
proof -
  have "map_of (rc_scopes rc') (h @ '':'' @ e) = scope_pinned (pin_scope g c d p) h e" if e: "isAssignablePermissionCode e" for h e
  proof (cases "(h, e) = (g, c)")
    case True
    then show ?thesis using scopes [of "g @ '':'' @ c"] scope_pinned_now [OF u] by simp
  next
    case False
    then have "h @ '':'' @ e \<noteq> g @ '':'' @ c"
      using colon_key_inj [OF _ assignable_no_colon [OF e] assignable_no_colon [OF c], of h g] by auto
    then show ?thesis using scopes scope_pinned_other [OF f False] follows_scopes [OF f e] by simp
  qed
  moreover have "map_of (rc_grants rc') h =
      (if plain_user (pin_users p h) h then map_option (\<lambda>d. loadEffectiveRoleGrants d h) (pin g d (pin_grants p) h) else None)" for h
    using grants [of h] follows_grants [OF f, of h] u by (auto simp: pin_def)
  ultimately show ?thesis
    using f u unfolding follows_def pin_scope_fields same by (auto simp: pin_def split: if_splits)
qed

lemma follow_compute:
  assumes f: "follows p rc" and u: "pin_users p g = Some du" and c: "isAssignablePermissionCode c"
    and fresh: "scope_pinned p g c = None"
  shows "\<exists>rc'. computePermissionScopeC d g c rc = (scope_now du p g c d, rc') \<and>
    (case scope_now du p g c d of Inl e \<Rightarrow> follows (pin_scope g c d p) rc'
     | Inr s \<Rightarrow> follows (pin_scope g c d p) (rc_scopes_update (AList.update (g @ '':'' @ c) s) rc'))"
proof -
  have "pin_users_update (pin g d) p = p" using u by (cases p) (simp add: pin_eq)
  then obtain rc1 where g: "getCurrentUserC d g rc = (getCurrentUser du g, rc1)" and f1: "follows p rc1"
    using follow_current [OF f, of d g] u by (auto simp: read_in_def)
  have none: "map_of (rc_scopes rc1) (g @ '':'' @ c) = None" using follows_scopes [OF f1 c] fresh by simp
  show ?thesis
  proof (cases "getCurrentUser du g")
    case (Inl e)
    then have "scope_now du p g c d = Inl e" by (simp add: scope_now_def scope_read_def)
    moreover have "follows (pin_scope g c d p) rc1"
      using Inl none by (intro follows_pin_scope [OF f1 u c]) (simp_all add: plain_user_def scope_now_def scope_read_def)
    ultimately show ?thesis using g Inl by (simp add: computePermissionScopeC_def)
  next
    case (Inr x)
    show ?thesis
    proof (cases "u_isAdmin x")
      case True
      let ?s = "\<lparr>ps_global = True, ps_groups = {}\<rparr>"
      have "scope_now du p g c d = Inr ?s" using Inr True by (simp add: scope_now_def scope_read_def)
      moreover have "follows (pin_scope g c d p) (rc_scopes_update (AList.update (g @ '':'' @ c) ?s) rc1)"
        using Inr True
        by (intro follows_pin_scope [OF f1 u c]) (simp_all add: plain_user_def scope_now_def scope_read_def update_conv')
      ultimately show ?thesis using g Inr True by (simp add: computePermissionScopeC_def)
    next
      case False
      let ?G = "loadEffectiveRoleGrants (read_in (pin_grants p) g d) g"
      let ?s = "scope_from_grants (read_in (pin_scopes p) (g, c) d) c ?G"
      have p: "plain_user (Some du) g" using Inr False by (simp add: plain_user_def)
      have s: "scope_now du p g c d = Inr ?s" using Inr False by (simp add: scope_now_def scope_read_def)
      have "pin_scopes p (g, c) = None"
        using fresh s u follows_closed(1) [OF f, of g c]
        by (auto simp: scope_pinned_def scope_now_def read_in_def split: option.splits sum.splits)
      then have here: "read_in (pin_scopes p) (g, c) d = d" by (simp add: read_in_def)
      obtain rc2 where rc2: "loadEffectiveRoleGrantsC d g rc1 = (Inr ?G, rc2)" "rc_users rc2 = rc_users rc1"
        "rc_protected rc2 = rc_protected rc1" "rc_scopes rc2 = rc_scopes rc1"
        "\<And>h. map_of (rc_grants rc2) h = (if h = g then Some ?G else map_of (rc_grants rc1) h)"
        using follows_grants [OF f1, of g] u p
        by (cases "pin_grants p g") (auto simp: loadEffectiveRoleGrantsC_def withRequestCache_def read_in_def update_conv')
      have "follows (pin_scope g c d p) (rc_scopes_update (AList.update (g @ '':'' @ c) ?s) rc2)"
        using rc2 p s by (intro follows_pin_scope [OF f1 u c]) (simp_all add: update_conv')
      then show ?thesis using g Inr False rc2(1) s here c by (simp add: computePermissionScopeC_def)
    qed
  qed
qed

lemma compute_pins_user: "computePermissionScopeC d g c rc = computePermissionScopeC d g c (snd (loadUserStatusC d g rc))"
proof -
  have "loadUserStatusC d g (snd (loadUserStatusC d g rc)) = loadUserStatusC d g rc"
    by (auto simp: loadUserStatusC_def withRequestCache_def update_conv' split: option.splits)
  then have "getCurrentUserC d g (snd (loadUserStatusC d g rc)) = getCurrentUserC d g rc" by (simp add: getCurrentUserC_def)
  then show ?thesis by (simp add: computePermissionScopeC_def)
qed

lemma follow_scope:
  assumes f: "follows p rc" and c: "isAssignablePermissionCode c"
  shows "\<exists>rc'. getPermissionScopeC d g c rc =
      (scope_read (read_in (pin_users p) g d) (read_in (pin_grants p) g d) (read_in (pin_scopes p) (g, c) d) g c, rc') \<and>
    follows (reads d (QueryPermission g c) p) rc'"
proof (cases "scope_pinned p g c")
  case (Some s)
  then obtain du dr ds where pins: "pin_users p g = Some du" "pin_grants p g = Some dr" "pin_scopes p (g, c) = Some ds"
    and s: "scope_read du dr ds g c = Inr s"
    by (auto simp: scope_pinned_def split: option.splits sum.splits)
  have "reads d (QueryPermission g c) p = p" using pins c by (cases p) (simp add: pin_eq)
  then show ?thesis using f follows_scopes [OF f c, of g] Some pins s
    by (auto simp: getPermissionScopeC_def withRequestCache_def read_in_def)
next
  case None
  let ?du = "read_in (pin_users p) g d" and ?p = "pin_users_update (pin g d) p"
  obtain rc1 where l: "loadUserStatusC d g rc = (Inr (loadUserStatus ?du g), rc1)" and f1: "follows ?p rc1"
    using follow_user [OF f, of d g] by blast
  have u: "pin_users ?p g = Some ?du" by (simp add: pin_def)
  have "scope_pinned ?p g c = None"
  proof (cases "pin_users p g")
    case None
    then have "pin_grants p g = None" using follows_closed(2) [OF f, of g] by (cases "pin_grants p g") auto
    then show ?thesis by (auto simp: scope_pinned_def split: option.splits)
  next
    case (Some d0)
    then have "?p = p" by (cases p) (simp add: pin_eq)
    then show ?thesis using None by simp
  qed
  from follow_compute [OF f1 u c this, of d] obtain rc2 where
    k: "computePermissionScopeC d g c rc1 = (scope_now ?du ?p g c d, rc2)"
    and f2: "case scope_now ?du ?p g c d of Inl e \<Rightarrow> follows (pin_scope g c d ?p) rc2
      | Inr s \<Rightarrow> follows (pin_scope g c d ?p) (rc_scopes_update (AList.update (g @ '':'' @ c) s) rc2)" by blast
  have r: "reads d (QueryPermission g c) p = pin_scope g c d ?p" using c by (simp add: pin_scope_def)
  have n: "scope_now ?du ?p g c d = scope_read ?du (read_in (pin_grants p) g d) (read_in (pin_scopes p) (g, c) d) g c"
    by (simp add: scope_now_def)
  have "computePermissionScopeC d g c rc = (scope_now ?du ?p g c d, rc2)" using k l compute_pins_user [of d g c rc] by simp
  then show ?thesis using f2 follows_scopes [OF f c, of g] None unfolding r n [symmetric]
    by (cases "scope_now ?du ?p g c d") (simp_all add: getPermissionScopeC_def withRequestCache_def)
qed

lemma follow_permission:
  assumes "follows p rc"
  shows "\<exists>rc'. requirePermissionC d g c rc = (permission_read (read_in (pin_users p) g d) (read_in (pin_grants p) g d)
      (read_in (pin_scopes p) (g, c) d) g c, rc') \<and> follows (reads d (QueryPermission g c) p) rc'"
proof (cases "isAssignablePermissionCode c")
  case True
  obtain rc' where "getPermissionScopeC d g c rc = (scope_read (read_in (pin_users p) g d) (read_in (pin_grants p) g d)
      (read_in (pin_scopes p) (g, c) d) g c, rc')" "follows (reads d (QueryPermission g c) p) rc'"
    using follow_scope [OF assms True] by blast
  then show ?thesis using True
    by (simp only: requirePermissionC_def permission_read_def rbind_def) (simp split: sum.split)
qed (use assms in \<open>simp add: requirePermissionC_def permission_read_def\<close>)

lemma follow_answer: "follows p rc \<Longrightarrow> \<exists>rc'. answerC d q rc = (answer_read d p q, rc') \<and> follows (reads d q p) rc'"
proof -
  assume f: "follows p rc"
  show ?thesis
  proof (cases q)
    case (QueryUser g)
    then show ?thesis using follow_current [OF f, of d g] by auto
  next
    case (QuerySuperAdmin g)
    then show ?thesis using follow_superAdmin [OF f, of d g] by auto
  next
    case (QueryPermission g c)
    then show ?thesis using follow_permission [OF f, of d g c] by auto
  next
    case (QueryProtected g flag)
    then show ?thesis using follow_protected [OF f, of d g flag] by auto
  qed
qed

lemma follow_request: "follows p rc \<Longrightarrow> run_request h rc = answers_read h p"
proof (induction h p arbitrary: rc rule: answers_read.induct)
  case (2 d q h p)
  obtain rc' where "answerC d q rc = (answer_read d p q, rc')" "follows (reads d q p) rc'"
    using follow_answer [OF 2(2)] by blast
  with 2(1) show ?case by simp
qed simp

lemma follows_begin: "follows (begin_pins s) (begin_request s)"
proof -
  have e: "follows no_pins createRbacRequestCache"
    by (simp add: follows_def no_pins_def createRbacRequestCache_def scope_pinned_def plain_user_def split: option.split)
  have "follows (no_pins\<lparr>pin_users := [g \<mapsto> d]\<rparr>) (cacheUserStatusSnapshot u createRbacRequestCache)"
    if "getCurrentUser d g = Inr u" for d g u
  proof -
    have "loadUserStatus d g = Some u" "u_guid u = g"
      using that loadUserStatus_SomeD [of d g u] by (auto simp: getCurrentUser_def split: option.splits if_splits)
    then show ?thesis
      by (simp add: follows_def no_pins_def createRbacRequestCache_def cacheUserStatusSnapshot_def scope_pinned_def split: option.split)
  qed
  with e show ?thesis by (auto simp: begin_pins_def begin_request_def split: option.split sum.split)
qed

text \<open>
  C18. What the request cache may change of the answers, while the database changes under the request:
  the answers to any sequence of checks are those of a request that reads the row, the grants and the
  protection of each user and the groups of each permission once, in the state in which a check first
  needs them (the row of the signed-in account when its token is checked); no entry is served for
  another user, code or flag. So a check that is made again is answered as before, and as long as
  the database does not change every answer is the one of a fresh check.
\<close>

theorem request_cache_transparent:
  "run_request h (begin_request s) = answers_read h (begin_pins s) \<and>
   (\<forall>i j. i < j \<and> j < length h \<and> snd (h ! i) = snd (h ! j) \<longrightarrow>
      run_request h (begin_request s) ! i = run_request h (begin_request s) ! j) \<and>
   (\<forall>d. list_all (\<lambda>x. fst x = d) h \<and> (s = None \<or> (\<exists>g. s = Some (d, g))) \<longrightarrow>
      run_request h (begin_request s) = map (\<lambda>x. answer d (snd x)) h)"
proof -
  have r: "run_request h (begin_request s) = answers_read h (begin_pins s)" by (rule follow_request [OF follows_begin])
  have "pins_from d (begin_pins s)" if "s = None \<or> (\<exists>g. s = Some (d, g))" for d
    using that by (auto simp: pins_from_def begin_pins_def no_pins_def read_in_def split: sum.splits)
  then show ?thesis unfolding r using repeated_answers [of _ _ h] answers_read_same by (auto simp: list_all_iff)
qed

text \<open>An account that is disabled while a request of it runs.\<close>

definition one_account :: "UserStatus \<Rightarrow> db" where
  "one_account st = \<lparr>users = [\<lparr>u_guid = ''a'', u_status = st, u_isAdmin = True\<rparr>], roles = [], role_permissions = [],
     assignments = [], assignment_groups = [], device_groups = [], peers = [], user_tokens = [], console_audits = []\<rparr>"

definition interrupted :: "(db \<times> rbac_query) list" where
  "interrupted = [(one_account ACTIVE, QueryUser ''a''), (one_account DISABLED, QueryUser ''a'')]"

definition undisturbed :: "(db \<times> rbac_query) list" where
  "undisturbed = [(one_account ACTIVE, QueryUser ''a''), (one_account ACTIVE, QueryPermission ''a'' ''devices.edit'')]"

theorem request_cache_transparent_witness:
  "run_request interrupted (begin_request None) ! 0 = run_request interrupted (begin_request None) ! 1 \<and>
   run_request interrupted (begin_request None) ! 1 \<noteq> answer (one_account DISABLED) (QueryUser ''a'') \<and>
   run_request undisturbed (begin_request (Some (one_account ACTIVE, ''a''))) =
     map (\<lambda>x. answer (one_account ACTIVE) (snd x)) undisturbed"
proof -
  have "run_request interrupted (begin_request None) ! 0 = run_request interrupted (begin_request None) ! 1"
    by (rule conjunct1 [OF conjunct2 [OF request_cache_transparent [of interrupted None]], rule_format])
      (simp add: interrupted_def)
  moreover have "run_request interrupted (begin_request None) ! 1 \<noteq> answer (one_account DISABLED) (QueryUser ''a'')"
    by (simp add: interrupted_def begin_request_def createRbacRequestCache_def getCurrentUserC_def getCurrentUser_def
        loadUserStatusC_def loadUserStatus_def withRequestCache_def one_account_def)
  moreover have "list_all (\<lambda>x. fst x = one_account ACTIVE) undisturbed" by (simp add: undisturbed_def)
  then have "run_request undisturbed (begin_request (Some (one_account ACTIVE, ''a''))) =
      map (\<lambda>x. answer (one_account ACTIVE) (snd x)) undisturbed"
    using request_cache_transparent [of undisturbed "Some (one_account ACTIVE, ''a'')"] by blast
  ultimately show ?thesis by blast
qed

end
