(* ===== verification/Role_Service.thy ===== *)
theory Role_Service
  imports Rbac_Access
begin

text \<open>
  The role service (\<open>src/modules/rbac/services/role.service.ts\<close>): creating, changing and
  deleting roles. An operation reads one database state before it opens its transaction
  (\<open>d0\<close>) and another inside it (\<open>d\<close>): whatever other requests did in between is the
  difference of the two. It returns its response and the database after the transaction, which
  is \<open>d\<close> again when the body threw.
\<close>

subsection \<open>Requests and responses\<close>

record create_role_dto =
  cr_name :: string
  cr_note :: "string option"
  cr_permissions :: "string list"
  cr_protected :: "bool option"

record update_role_dto =
  ur_name :: "string option"
  ur_note :: "string option"
  ur_permissions :: "string list option"
  ur_protected :: "bool option"
  ur_confirm :: "bool option"

record role_response =
  rr_guid :: string
  rr_name :: string
  rr_note :: string
  rr_permissions :: "string list"
  rr_protected :: bool

definition toRoleResponse :: "role \<Rightarrow> string list \<Rightarrow> role_response" where
  "toRoleResponse r perms =
     \<lparr>rr_guid = role_guid r, rr_name = role_name r,
      rr_note = (case role_note r of None \<Rightarrow> [] | Some n \<Rightarrow> n),
      rr_permissions = perms, rr_protected = role_protected r\<rparr>"

subsection \<open>Validation\<close>

definition normalizeName :: "string \<Rightarrow> string result" where
  "normalizeName v =
     (let name = js_trim v
      in if name = [] then Inl (BadRequestException ''Role name cannot be empty'') else Inr name)"

definition same_name :: "string \<Rightarrow> role \<Rightarrow> bool" where
  "same_name name r \<longleftrightarrow> map ascii_lower (role_name r) = map ascii_lower name"

definition ensureNameAvailable :: "db \<Rightarrow> string \<Rightarrow> string option \<Rightarrow> unit result" where
  "ensureNameAvailable d name ignored =
     (case find (same_name name) (roles d) of
        None \<Rightarrow> Inr ()
      | Some r \<Rightarrow> if Some (role_guid r) \<noteq> ignored
                  then Inl (ConflictException ''Role name already exists'') else Inr ())"

definition missing_requirements :: "string list \<Rightarrow> string list" where
  "missing_requirements validated =
     concat (map (\<lambda>p. map (\<lambda>r. p @ '' requires '' @ r)
                       (filter (\<lambda>r. r \<notin> set validated) (getPermissionRequirements p))) validated)"

definition validatePermissions :: "string list \<Rightarrow> string list result" where
  "validatePermissions permissions =
     (let unique = js_unique permissions;
          systemOnly = filter (\<lambda>p. \<not> isAssignablePermissionCode p) unique
      in if systemOnly \<noteq> []
         then Inl (BadRequestException (''Permission code cannot be assigned: '' @ join_with '', '' systemOnly))
         else
           let validated = sort (filter isAssignablePermissionCode unique);
               missing = missing_requirements validated
           in if missing \<noteq> []
              then Inl (BadRequestException (''Missing permission dependencies: '' @ join_with '', '' missing))
              else Inr validated)"

definition ensureScopedAssignmentsRemainValid :: "db \<Rightarrow> string \<Rightarrow> string list \<Rightarrow> unit result" where
  "ensureScopedAssignmentsRemainValid d guid permissions =
     (if permissions \<noteq> [] \<and> list_all isDeviceGroupScopedPermission permissions then Inr ()
      else if list_ex (\<lambda>a. as_role a = guid \<and> as_scope a = ''device_group'') (assignments d)
      then Inl (BadRequestException
        ''Roles with advanced scope grants can only contain device operations and strategies.assign'')
      else Inr ())"

definition replacePermissionsWithManager :: "string \<Rightarrow> string list \<Rightarrow> db \<Rightarrow> db" where
  "replacePermissionsWithManager guid permissions d =
     d\<lparr>role_permissions := filter (\<lambda>r. rp_role r \<noteq> guid) (role_permissions d)
         @ map (\<lambda>c. \<lparr>rp_role = guid, rp_code = c\<rparr>) permissions\<rparr>"

definition loadPermissionCodes :: "db \<Rightarrow> string \<Rightarrow> string list" where
  "loadPermissionCodes d guid =
     sort (filter isAssignablePermissionCode (map rp_code (filter (\<lambda>x. rp_role x = guid) (role_permissions d))))"

subsection \<open>Audited states\<close>

definition jopt :: "string option \<Rightarrow> json" where
  "jopt v = (case v of None \<Rightarrow> JNull | Some s \<Rightarrow> JStr s)"

definition role_state :: "string \<Rightarrow> string option \<Rightarrow> string list \<Rightarrow> bool \<Rightarrow> (string \<times> json) list" where
  "role_state name note perms prot =
     [(''name'', JStr name), (''note'', jopt note),
      (''permissions'', JArr (map JStr perms)), (''protected_account'', JBool prot)]"

definition role_event ::
  "string \<Rightarrow> string \<Rightarrow> string \<Rightarrow> json option \<Rightarrow> json option \<Rightarrow> audit_event" where
  "role_event actor guid act before after =
     \<lparr>ev_actor = Some actor, ev_target_type = ''role'', ev_target = Some guid, ev_action = act,
      ev_result = Allowed, ev_reason = None, ev_before = before, ev_after = after\<rparr>"

lemma role_event_simps [simp]:
  "ev_actor (role_event actor guid act before after) = Some actor"
  "ev_target (role_event actor guid act before after) = Some guid"
  by (simp_all add: role_event_def)

lemma audit_record_ex: "ev_actor e = a \<Longrightarrow> ev_target e = g \<Longrightarrow> d' = audit_record e d \<Longrightarrow>
    \<exists>e. ev_actor e = a \<and> ev_target e = g \<and> d' = audit_record e d"
  by blast

subsection \<open>The operations\<close>

text \<open>\<open>guid\<close> is the identifier drawn for the new role.\<close>

definition createRole_tx ::
  "db \<Rightarrow> string \<Rightarrow> string list \<Rightarrow> create_role_dto \<Rightarrow> string \<Rightarrow> string \<Rightarrow> (role_response \<times> db) result" where
  "createRole_tx d name permissions dto actor guid =
     rbind (requireSuperAdmin d actor) (\<lambda>_.
       let r = \<lparr>role_guid = guid, role_name = name,
                role_note = nonempty (map_option js_trim (cr_note dto)),
                role_protected = (cr_protected dto = Some True)\<rparr>
       in if list_ex (\<lambda>x. role_name x = name) (roles d)
          then Inl (ConflictException ''Role name already exists'')
          else
            let d1 = d\<lparr>roles := roles d @ [r]\<rparr>;
                d2 = replacePermissionsWithManager guid permissions d1;
                d3 = audit_record (role_event actor guid ''role.create'' None
                       (Some (JObj (role_state name (role_note r) permissions (role_protected r))))) d2
            in Inr (toRoleResponse r permissions, d3))"

definition createRole ::
  "db \<Rightarrow> db \<Rightarrow> create_role_dto \<Rightarrow> string \<Rightarrow> string \<Rightarrow> role_response result \<times> db" where
  "createRole d0 d dto actor guid =
     transaction d
       (rbind (normalizeName (cr_name dto)) (\<lambda>name.
        rbind (validatePermissions (cr_permissions dto)) (\<lambda>permissions.
        rbind (ensureNameAvailable d0 name None) (\<lambda>_.
          createRole_tx d name permissions dto actor guid))))"

text \<open>The row of the role as the update leaves it, before it is saved.\<close>

definition next_protection :: "db \<Rightarrow> role \<Rightarrow> update_role_dto \<Rightarrow> bool result" where
  "next_protection d r dto =
     (case ur_protected dto of
        None \<Rightarrow> Inr (role_protected r)
      | Some next \<Rightarrow>
          if next \<noteq> role_protected r
          then (let affected = length (filter (\<lambda>a. as_role a = role_guid r) (assignments d))
                in if \<not> next \<and> affected > 0 \<and> ur_confirm dto \<noteq> Some True
                   then Inl (BadRequestException (''Removing role protection will affect ''
                     @ nat_str affected @ '' accounts, please confirm and retry''))
                   else Inr next)
          else Inr (role_protected r))"

definition updated_role :: "role \<Rightarrow> update_role_dto \<Rightarrow> string \<Rightarrow> bool \<Rightarrow> role" where
  "updated_role r dto name protected =
     r\<lparr>role_protected := protected, role_name := name,
       role_note := (case ur_note dto of None \<Rightarrow> role_note r
                     | Some n \<Rightarrow> nonempty (Some (js_trim n)))\<rparr>"

definition updateRole_save ::
  "db \<Rightarrow> role \<Rightarrow> update_role_dto \<Rightarrow> string \<Rightarrow> string list \<Rightarrow> string list \<Rightarrow> bool \<Rightarrow> string \<Rightarrow>
   (role_response \<times> db) result" where
  "updateRole_save d r dto name beforePermissions permissions protected actor =
     (let guid = role_guid r;
          r' = updated_role r dto name protected;
          d1 = d\<lparr>roles := map (\<lambda>x. if role_guid x = guid then r' else x) (roles d)\<rparr>;
          d2 = (if ur_permissions dto \<noteq> None
                then replacePermissionsWithManager guid permissions d1 else d1);
          count = length (filter (\<lambda>a. as_role a = guid) (assignments d2));
          after = role_state name (role_note r') permissions protected
            @ (if ur_protected dto \<noteq> None \<and> \<not> protected
               then [(''affected_member_count'', JNum (int count))] else []);
          d3 = audit_record (role_event actor guid ''role.update''
                 (Some (JObj (role_state (role_name r) (role_note r) beforePermissions
                   (role_protected r)))) (Some (JObj after))) d2
      in if list_ex (\<lambda>x. role_name x = name \<and> role_guid x \<noteq> guid) (roles d)
         then Inl (OtherError ''UNIQUE constraint failed: roles.name'')
         else Inr (toRoleResponse r' permissions, d3))"

definition updateRole_tx ::
  "db \<Rightarrow> string \<Rightarrow> update_role_dto \<Rightarrow> string \<Rightarrow> (role_response \<times> db) result" where
  "updateRole_tx d guid dto actor =
     rbind (requireSuperAdmin d actor) (\<lambda>_.
       case find (\<lambda>r. role_guid r = guid) (roles d) of
         None \<Rightarrow> Inl (NotFoundException ''Role not found'')
       | Some r \<Rightarrow>
           let beforePermissions = loadPermissionCodes d guid
           in rbind (case ur_name dto of None \<Rightarrow> Inr (role_name r) | Some n \<Rightarrow> normalizeName n) (\<lambda>name.
              rbind (if name \<noteq> role_name r then ensureNameAvailable d name (Some guid) else Inr ()) (\<lambda>_.
              rbind (case ur_permissions dto of None \<Rightarrow> Inr beforePermissions
                     | Some ps \<Rightarrow> validatePermissions ps) (\<lambda>permissions.
              rbind (if ur_permissions dto \<noteq> None
                     then ensureScopedAssignmentsRemainValid d guid permissions else Inr ()) (\<lambda>_.
              rbind (next_protection d r dto) (\<lambda>protected.
                updateRole_save d r dto name beforePermissions permissions protected actor))))))"

definition updateRole ::
  "db \<Rightarrow> db \<Rightarrow> string \<Rightarrow> update_role_dto \<Rightarrow> string \<Rightarrow> role_response result \<times> db" where
  "updateRole d0 d guid dto actor =
     transaction d
       (rbind (case ur_permissions dto of
                 None \<Rightarrow> Inr ()
               | Some ps \<Rightarrow> rbind (validatePermissions ps) (ensureScopedAssignmentsRemainValid d0 guid))
          (\<lambda>_. updateRole_tx d guid dto actor))"

definition assignment_state :: "db \<Rightarrow> role_assignment \<Rightarrow> json" where
  "assignment_state d a =
     JObj [(''guid'', JStr (as_guid a)), (''user_guid'', JStr (as_user a)),
           (''scope_type'', JStr (as_scope a)),
           (''device_group_guids'', JArr (map JStr (sort (js_get
              (group_rows ag_assignment ag_group (assignment_groups d)) (as_guid a) []))))]"

definition revoke_role :: "db \<Rightarrow> string \<Rightarrow> db" where
  "revoke_role d guid =
     (let as = filter (\<lambda>a. as_role a = guid) (assignments d);
          d1 = (if as \<noteq> []
                then d\<lparr>assignment_groups := filter (\<lambda>x. ag_assignment x \<notin> set (map as_guid as))
                         (assignment_groups d),
                       assignments := filter (\<lambda>a. as_role a \<noteq> guid) (assignments d)\<rparr>
                else d);
          d2 = d1\<lparr>role_permissions := filter (\<lambda>x. rp_role x \<noteq> guid) (role_permissions d1)\<rparr>
      in d2\<lparr>roles := filter (\<lambda>x. role_guid x \<noteq> guid) (roles d2)\<rparr>)"

definition deleteRole :: "db \<Rightarrow> string \<Rightarrow> string \<Rightarrow> unit result \<times> db" where
  "deleteRole d guid actor =
     transaction d
       (rbind (requireSuperAdmin d actor) (\<lambda>_.
          case find (\<lambda>r. role_guid r = guid) (roles d) of
            None \<Rightarrow> Inl (NotFoundException ''Role not found'')
          | Some r \<Rightarrow>
              let codes = map rp_code (filter (\<lambda>x. rp_role x = guid) (role_permissions d));
                  as = filter (\<lambda>a. as_role a = guid) (assignments d);
                  before = role_state (role_name r) (role_note r)
                      (sort (filter isAssignablePermissionCode codes)) (role_protected r)
                    @ [(''assignments'', JArr (map (assignment_state d) (sort_key as_guid as)))]
              in Inr ((), audit_record (role_event actor guid ''role.delete'' (Some (JObj before)) None)
                   (revoke_role d guid))))"

subsection \<open>Reading roles\<close>

definition requireRole :: "db \<Rightarrow> string \<Rightarrow> role result" where
  "requireRole d guid =
     (case find (\<lambda>r. role_guid r = guid) (roles d) of
        None \<Rightarrow> Inl (NotFoundException ''Role not found'')
      | Some r \<Rightarrow> Inr r)"

definition getRole :: "db \<Rightarrow> string \<Rightarrow> role_response result" where
  "getRole d guid = rbind (requireRole d guid) (\<lambda>r. Inr (toRoleResponse r (loadPermissionCodes d guid)))"

record protection_impact =
  pi_guid :: string
  pi_protected :: bool
  pi_members :: nat

definition getProtectionImpact :: "db \<Rightarrow> string \<Rightarrow> string \<Rightarrow> protection_impact result" where
  "getProtectionImpact d guid actor =
     rbind (requireSuperAdmin d actor) (\<lambda>_.
     rbind (requireRole d guid) (\<lambda>r.
       Inr \<lparr>pi_guid = guid, pi_protected = role_protected r,
            pi_members = length (filter (\<lambda>a. as_role a = guid) (assignments d))\<rparr>))"

text \<open>Grouping the rows of a page of roles; a role without an assignable row keeps an empty entry.\<close>

definition groupRolePermissions :: "role_permission list \<Rightarrow> (string \<times> string list) list" where
  "groupRolePermissions rows =
     map (\<lambda>(r, cs). (r, filterEffectivePermissionCodes cs))
       (fold (\<lambda>row m. AList.update (rp_role row)
                (let list = js_get m (rp_role row) []
                 in if isAssignablePermissionCode (rp_code row) then list @ [rp_code row] else list) m)
          rows [])"

text \<open>The mapping of one page (the page itself is an SQL query).\<close>

definition listRoles_page :: "db \<Rightarrow> role list \<Rightarrow> role_response list" where
  "listRoles_page d page =
     (let perms = (if page \<noteq> []
                   then filter (\<lambda>x. rp_role x \<in> set (map role_guid page)) (role_permissions d) else []);
          m = groupRolePermissions perms
      in map (\<lambda>r. toRoleResponse r (js_get m (role_guid r) [])) page)"

subsection \<open>Validated permissions\<close>

lemma missing_requirements_Nil:
  "missing_requirements vs = [] \<longleftrightarrow> (\<forall>c \<in> set vs. set (getPermissionRequirements c) \<subseteq> set vs)"
  by (auto simp: missing_requirements_def filter_empty_conv)

lemma validatePermissions_Inr [result_simps]:
  "validatePermissions ps = Inr vs \<longleftrightarrow> permission_closed (set ps) \<and> vs = sort (js_unique ps)"
proof (cases "\<forall>c \<in> set ps. isAssignablePermissionCode c")
  case True
  then have "filter (\<lambda>p. \<not> isAssignablePermissionCode p) (js_unique ps) = []"
    and "filter isAssignablePermissionCode (js_unique ps) = js_unique ps"
    by (simp_all add: filter_empty_conv filter_id_conv)
  with True show ?thesis
    by (auto simp: validatePermissions_def Let_def missing_requirements_Nil permission_closed_def)
next
  case False
  then have "filter (\<lambda>p. \<not> isAssignablePermissionCode p) (js_unique ps) \<noteq> []"
    by (auto simp: filter_empty_conv)
  with False show ?thesis
    by (auto simp: validatePermissions_def Let_def permission_closed_def)
qed

lemma normalizeName_Inr [result_simps]:
  "normalizeName v = Inr n \<longleftrightarrow> n = js_trim v \<and> n \<noteq> []"
  by (auto simp: normalizeName_def Let_def)

lemma requireSuperAdmin_Inr [result_simps]:
  "requireSuperAdmin d g = Inr u \<longleftrightarrow> loadUserStatus d g = Some u \<and> u_status u = ACTIVE \<and> u_isAdmin u"
  by (auto simp: requireSuperAdmin_def result_simps)

lemma ensureScoped_Inr [result_simps]:
  "ensureScopedAssignmentsRemainValid d guid ps = Inr x \<longleftrightarrow>
     (ps \<noteq> [] \<and> list_all isDeviceGroupScopedPermission ps) \<or>
     (\<forall>a \<in> set (assignments d). as_role a = guid \<longrightarrow> as_scope a \<noteq> ''device_group'')"
  by (auto simp: ensureScopedAssignmentsRemainValid_def list_ex_iff)

lemma role_codes_replace:
  "role_codes (replacePermissionsWithManager guid ps d) g = (if g = guid then ps else role_codes d g)"
proof (cases "g = guid")
  case True
  then show ?thesis
    by (simp add: role_codes_def replacePermissionsWithManager_def filter_empty_conv o_def)
next
  case False
  have "filter (\<lambda>x. rp_role x = g \<and> rp_role x \<noteq> guid) rows = filter (\<lambda>x. rp_role x = g) rows"
    for rows :: "role_permission list"
    using False by (intro filter_cong) auto
  with False show ?thesis
    by (simp add: role_codes_def replacePermissionsWithManager_def filter_empty_conv conj_commute)
qed

lemma replace_rows:
  "x \<in> set (role_permissions (replacePermissionsWithManager guid ps d)) \<longleftrightarrow>
     x \<in> set (role_permissions d) \<and> rp_role x \<noteq> guid \<or> rp_role x = guid \<and> rp_code x \<in> set ps"
  by (cases x) (auto simp: replacePermissionsWithManager_def)

lemma replace_frame [simp]:
  "users (replacePermissionsWithManager guid ps d) = users d"
  "roles (replacePermissionsWithManager guid ps d) = roles d"
  "assignments (replacePermissionsWithManager guid ps d) = assignments d"
  "assignment_groups (replacePermissionsWithManager guid ps d) = assignment_groups d"
  by (simp_all add: replacePermissionsWithManager_def)

lemma audit_frame [simp]:
  "users (audit_record e d) = users d"
  "roles (audit_record e d) = roles d"
  "role_permissions (audit_record e d) = role_permissions d"
  "assignments (audit_record e d) = assignments d"
  "assignment_groups (audit_record e d) = assignment_groups d"
  "device_groups (audit_record e d) = device_groups d"
  "peers (audit_record e d) = peers d"
  "user_tokens (audit_record e d) = user_tokens d"
  by (simp_all add: audit_record_def)

lemma role_codes_audit [simp]: "role_codes (audit_record e d) g = role_codes d g"
  by (simp add: role_codes_def)

subsection \<open>One step of the role service\<close>

datatype role_op =
    CreateOp create_role_dto string
  | UpdateOp string update_role_dto
  | DeleteOp string

definition run_role_op :: "db \<Rightarrow> db \<Rightarrow> role_op \<Rightarrow> string \<Rightarrow> role_response option result \<times> db" where
  "run_role_op d0 d op actor =
     (case op of
        CreateOp dto guid \<Rightarrow> map_prod (map_sum id Some) id (createRole d0 d dto actor guid)
      | UpdateOp guid dto \<Rightarrow> map_prod (map_sum id Some) id (updateRole d0 d guid dto actor)
      | DeleteOp guid \<Rightarrow> map_prod (map_sum id (\<lambda>_. None)) id (deleteRole d guid actor))"

text \<open>
  What every operation keeps of the role tables: keys are unique, every grant names an existing
  role, the stored codes of a role are distinct and closed under requirements (so that all of
  them take effect), and a role that is assigned for device groups holds nothing but codes that
  can be restricted to device groups.
\<close>

definition role_tables_ok :: "db \<Rightarrow> bool" where
  "role_tables_ok d \<longleftrightarrow>
     distinct (map role_guid (roles d)) \<and> distinct (map role_name (roles d)) \<and>
     list_all (\<lambda>x. rp_role x \<in> role_guid ` set (roles d)) (role_permissions d) \<and>
     list_all (\<lambda>a. as_role a \<in> role_guid ` set (roles d)) (assignments d) \<and>
     list_all (\<lambda>r. distinct (role_codes d (role_guid r)) \<and>
                   permission_closed (set (role_codes d (role_guid r)))) (roles d) \<and>
     list_all (\<lambda>a. as_scope a = ''device_group'' \<longrightarrow> role_codes d (as_role a) \<noteq> [] \<and>
                   list_all isDeviceGroupScopedPermission (role_codes d (as_role a))) (assignments d)"

definition fresh_for :: "role_op \<Rightarrow> db \<Rightarrow> bool" where
  "fresh_for op d \<longleftrightarrow>
     (case op of CreateOp dto guid \<Rightarrow>
          guid \<notin> role_guid ` set (roles d) \<and> guid \<notin> rp_role ` set (role_permissions d)
                       | _ \<Rightarrow> True)"

definition super_admin :: "db \<Rightarrow> string \<Rightarrow> bool" where
  "super_admin d g \<longleftrightarrow> (\<exists>u. loadUserStatus d g = Some u \<and> u_status u = ACTIVE \<and> u_isAdmin u)"

definition new_role :: "create_role_dto \<Rightarrow> string \<Rightarrow> role" where
  "new_role dto guid =
     \<lparr>role_guid = guid, role_name = js_trim (cr_name dto),
      role_note = nonempty (map_option js_trim (cr_note dto)),
      role_protected = (cr_protected dto = Some True)\<rparr>"

lemma new_role_simps [simp]:
  "role_guid (new_role dto guid) = guid"
  "role_name (new_role dto guid) = js_trim (cr_name dto)"
  by (simp_all add: new_role_def)

lemma createRole_Inr:
  assumes "createRole d0 d dto actor guid = (Inr resp, d')"
  shows "super_admin d actor" "permission_closed (set (cr_permissions dto))"
    "js_trim (cr_name dto) \<notin> role_name ` set (roles d)"
    "\<exists>e. ev_actor e = Some actor \<and> ev_target e = Some guid \<and> d' = audit_record e (replacePermissionsWithManager guid (sort (js_unique (cr_permissions dto)))
            (d\<lparr>roles := roles d @ [new_role dto guid]\<rparr>))"
    "resp = toRoleResponse (new_role dto guid) (sort (js_unique (cr_permissions dto)))"
proof -
  have b: "createRole_tx d (js_trim (cr_name dto)) (sort (js_unique (cr_permissions dto))) dto actor guid
      = Inr (resp, d')" and "permission_closed (set (cr_permissions dto))"
    using assms by (auto simp: createRole_def result_simps)
  then show "permission_closed (set (cr_permissions dto))" by simp
  show "super_admin d actor"
    using b by (auto simp: createRole_tx_def super_admin_def result_simps)
  show "js_trim (cr_name dto) \<notin> role_name ` set (roles d)"
    using b by (auto simp: createRole_tx_def Let_def list_ex_iff rbind_Inr_iff split: if_splits)
  have d': "d' = audit_record (role_event actor guid ''role.create'' None
        (Some (JObj (role_state (js_trim (cr_name dto)) (role_note (new_role dto guid))
           (sort (js_unique (cr_permissions dto))) (role_protected (new_role dto guid))))))
      (replacePermissionsWithManager guid (sort (js_unique (cr_permissions dto)))
         (d\<lparr>roles := roles d @ [new_role dto guid]\<rparr>))"
    and "resp = toRoleResponse (new_role dto guid) (sort (js_unique (cr_permissions dto)))"
    using b by (auto simp: createRole_tx_def Let_def new_role_def rbind_Inr_iff split: if_splits)
  then show "resp = toRoleResponse (new_role dto guid) (sort (js_unique (cr_permissions dto)))" by simp
  show "\<exists>e. ev_actor e = Some actor \<and> ev_target e = Some guid \<and>
      d' = audit_record e (replacePermissionsWithManager guid (sort (js_unique (cr_permissions dto)))
            (d\<lparr>roles := roles d @ [new_role dto guid]\<rparr>))"
    by (rule audit_record_ex [OF _ _ d']) simp_all
qed

lemma updated_role_simps [simp]:
  "role_guid (updated_role r dto name protected) = role_guid r"
  "role_name (updated_role r dto name protected) = name"
  "role_protected (updated_role r dto name protected) = protected"
  by (simp_all add: updated_role_def)

text \<open>The database after an update, up to the audit row.\<close>

definition update_effect :: "db \<Rightarrow> role \<Rightarrow> role \<Rightarrow> update_role_dto \<Rightarrow> db" where
  "update_effect d r r' dto =
     (let d1 = d\<lparr>roles := map (\<lambda>x. if role_guid x = role_guid r then r' else x) (roles d)\<rparr>
      in case ur_permissions dto of None \<Rightarrow> d1
         | Some ps \<Rightarrow> replacePermissionsWithManager (role_guid r) (sort (js_unique ps)) d1)"

definition update_allowed :: "db \<Rightarrow> string \<Rightarrow> update_role_dto \<Rightarrow> bool" where
  "update_allowed d guid dto \<longleftrightarrow>
     (case ur_permissions dto of None \<Rightarrow> True
      | Some ps \<Rightarrow> permission_closed (set ps) \<and>
          ((ps \<noteq> [] \<and> list_all isDeviceGroupScopedPermission ps) \<or>
           (\<forall>a \<in> set (assignments d). as_role a = guid \<longrightarrow> as_scope a \<noteq> ''device_group'')))"

lemma updateRole_Inr:
  assumes "updateRole d0 d guid dto actor = (Inr resp, d')"
  obtains r name protected e where
    "super_admin d actor" "find (\<lambda>r. role_guid r = guid) (roles d) = Some r"
    "update_allowed d guid dto"
    "\<forall>x \<in> set (roles d). role_guid x \<noteq> guid \<longrightarrow> role_name x \<noteq> name"
    "next_protection d r dto = Inr protected" "ev_actor e = Some actor" "ev_target e = Some guid"
    "d' = audit_record e (update_effect d r (updated_role r dto name protected) dto)"
    "resp = toRoleResponse (updated_role r dto name protected)
       (case ur_permissions dto of None \<Rightarrow> loadPermissionCodes d guid | Some ps \<Rightarrow> sort (js_unique ps))"
proof -
  have b: "updateRole_tx d guid dto actor = Inr (resp, d')"
    using assms by (auto simp: updateRole_def result_simps)
  then obtain u where u: "requireSuperAdmin d actor = Inr u"
    by (auto simp: updateRole_tx_def rbind_Inr_iff)
  from b u obtain r where r: "find (\<lambda>r. role_guid r = guid) (roles d) = Some r"
    by (auto simp: updateRole_tx_def split: option.splits)
  let ?before = "loadPermissionCodes d guid"
  from b u r obtain name protected ps where
    ps: "(case ur_permissions dto of None \<Rightarrow> Inr ?before | Some ps \<Rightarrow> validatePermissions ps) = Inr ps"
    and sc: "(if ur_permissions dto \<noteq> None then ensureScopedAssignmentsRemainValid d guid ps else Inr ()) = Inr ()"
    and pr: "next_protection d r dto = Inr protected"
    and sv: "updateRole_save d r dto name ?before ps protected actor = Inr (resp, d')"
    by (simp add: updateRole_tx_def Let_def rbind_Inr_iff) blast
  have ps': "ps = (case ur_permissions dto of None \<Rightarrow> ?before | Some ps \<Rightarrow> sort (js_unique ps))"
    using ps by (auto simp: validatePermissions_Inr split: option.splits)
  have g: "role_guid r = guid" using r by (auto dest: find_SomeD)
  have n: "\<forall>x \<in> set (roles d). role_guid x \<noteq> guid \<longrightarrow> role_name x \<noteq> name"
    using sv g by (auto simp: updateRole_save_def Let_def list_ex_iff split: if_splits)
  have "\<exists>before after. d' = audit_record (role_event actor guid ''role.update'' before after)
      (update_effect d r (updated_role r dto name protected) dto)"
    using sv ps' unfolding updateRole_save_def Let_def update_effect_def g
    by (cases "ur_permissions dto") (simp_all split: if_splits, blast+)
  then obtain before after where e: "d' = audit_record (role_event actor guid ''role.update'' before after)
      (update_effect d r (updated_role r dto name protected) dto)"
    by blast
  have rs: "resp = toRoleResponse (updated_role r dto name protected)
      (case ur_permissions dto of None \<Rightarrow> loadPermissionCodes d guid | Some ps \<Rightarrow> sort (js_unique ps))"
    using sv ps' by (simp add: updateRole_save_def Let_def split: if_splits)
  show thesis
  proof (rule that [OF _ r _ n pr _ _ e rs])
    show "super_admin d actor" using u by (auto simp: super_admin_def requireSuperAdmin_Inr)
    show "update_allowed d guid dto"
      using ps sc by (auto simp: update_allowed_def validatePermissions_Inr ensureScoped_Inr list_all_iff
          split: option.splits if_splits)
  qed simp_all
qed

lemma deleteRole_Inr:
  assumes "deleteRole d guid actor = (Inr u, d')"
  obtains e where "super_admin d actor" "ev_actor e = Some actor" "ev_target e = Some guid"
    "guid \<in> role_guid ` set (roles d)" "d' = audit_record e (revoke_role d guid)"
proof -
  from assms obtain v where v: "requireSuperAdmin d actor = Inr v"
    by (auto simp: deleteRole_def transaction_Inr rbind_Inr_iff)
  with assms obtain r where r: "find (\<lambda>r. role_guid r = guid) (roles d) = Some r"
    by (auto simp: deleteRole_def transaction_Inr split: option.splits)
  from assms v r obtain before where
    d': "d' = audit_record (role_event actor guid ''role.delete'' before None) (revoke_role d guid)"
    by (simp add: deleteRole_def transaction_Inr Let_def) blast
  show thesis
  proof (rule that [OF _ _ _ _ d'])
    show "super_admin d actor" using v by (auto simp: super_admin_def requireSuperAdmin_Inr)
    show "guid \<in> role_guid ` set (roles d)" using r by (auto dest: find_SomeD)
  qed simp_all
qed

lemma revoke_role_simps [simp]:
  "users (revoke_role d guid) = users d"
  "roles (revoke_role d guid) = filter (\<lambda>x. role_guid x \<noteq> guid) (roles d)"
  "role_permissions (revoke_role d guid) = filter (\<lambda>x. rp_role x \<noteq> guid) (role_permissions d)"
  "assignments (revoke_role d guid) = filter (\<lambda>a. as_role a \<noteq> guid) (assignments d)"
  "assignment_groups (revoke_role d guid) =
     filter (\<lambda>x. \<forall>a \<in> set (assignments d). as_role a = guid \<longrightarrow> as_guid a \<noteq> ag_assignment x)
       (assignment_groups d)"
proof -
  have *: "filter (\<lambda>a. as_role a \<noteq> guid) xs = xs" if "filter (\<lambda>a. as_role a = guid) xs = []"
    for xs :: "role_assignment list"
    using that by (auto simp: filter_empty_conv filter_id_conv)
  have **: "filter (\<lambda>x. \<forall>a \<in> set (assignments d). as_role a = guid \<longrightarrow> as_guid a \<noteq> ag_assignment x) xs = xs"
    if "filter (\<lambda>a. as_role a = guid) (assignments d) = []" for xs :: "assignment_group list"
    using that by (auto simp: filter_empty_conv filter_id_conv)
  show "users (revoke_role d guid) = users d"
    "roles (revoke_role d guid) = filter (\<lambda>x. role_guid x \<noteq> guid) (roles d)"
    "role_permissions (revoke_role d guid) = filter (\<lambda>x. rp_role x \<noteq> guid) (role_permissions d)"
    "assignments (revoke_role d guid) = filter (\<lambda>a. as_role a \<noteq> guid) (assignments d)"
    using * by (simp_all add: revoke_role_def Let_def)
  show "assignment_groups (revoke_role d guid) =
     filter (\<lambda>x. \<forall>a \<in> set (assignments d). as_role a = guid \<longrightarrow> as_guid a \<noteq> ag_assignment x)
       (assignment_groups d)"
    using ** by (cases "filter (\<lambda>a. as_role a = guid) (assignments d) = []")
      (auto simp: revoke_role_def Let_def image_iff intro!: filter_cong)
qed

lemma role_codes_revoke: "role_codes (revoke_role d guid) g = (if g = guid then [] else role_codes d g)"
proof (cases "g = guid")
  case False
  then have "filter (\<lambda>x. rp_role x = g \<and> rp_role x \<noteq> guid) rows = filter (\<lambda>x. rp_role x = g) rows"
    for rows :: "role_permission list"
    by (intro filter_cong) auto
  with False show ?thesis by (simp add: role_codes_def conj_commute)
qed (simp add: role_codes_def filter_empty_conv)

lemma role_service_Inl:
  "createRole d0 d dto actor guid = (Inl e, d') \<Longrightarrow> d' = d"
  "updateRole d0 d guid udto actor = (Inl e, d') \<Longrightarrow> d' = d"
  "deleteRole d guid actor = (Inl e, d') \<Longrightarrow> d' = d"
  by (simp_all add: createRole_def updateRole_def deleteRole_def transaction_Inl)

subsection \<open>The invariant is kept\<close>

lemma role_codes_roles_update [simp]: "role_codes (d\<lparr>roles := rs\<rparr>) g = role_codes d g"
  by (simp add: role_codes_def)

lemma role_tables_ok_audit [simp]: "role_tables_ok (audit_record e d) = role_tables_ok d"
  by (simp add: role_tables_ok_def)

lemma distinct_replaced_names:
  assumes "distinct (map role_guid rs)" "distinct (map role_name rs)"
    and "\<forall>x \<in> set rs. role_guid x \<noteq> guid \<longrightarrow> role_name x \<noteq> role_name r'"
  shows "distinct (map role_name (map (\<lambda>x. if role_guid x = guid then r' else x) rs))"
  using assms
proof (induction rs)
  case (Cons x rs)
  let ?f = "\<lambda>y. if role_guid y = guid then r' else y"
  have IH: "distinct (map role_name (map ?f rs))"
    using Cons.prems by (intro Cons.IH) simp_all
  show ?case
  proof (cases "role_guid x = guid")
    case True
    have ne: "role_guid y \<noteq> guid" if "y \<in> set rs" for y
    proof
      assume "role_guid y = guid"
      with that True have "role_guid x \<in> role_guid ` set rs"
        by (intro image_eqI [of _ _ y]) simp_all
      with Cons.prems(1) show False by simp
    qed
    then have "map ?f rs = rs" by (intro map_idI) simp
    moreover have "role_name r' \<notin> role_name ` set rs"
    proof
      assume "role_name r' \<in> role_name ` set rs"
      then obtain y where "y \<in> set rs" "role_name y = role_name r'" by (metis imageE)
      with ne Cons.prems(3) show False by simp
    qed
    ultimately show ?thesis
      using Cons.prems(2) True by (simp del: map_map)
  next
    case False
    have "role_name x \<notin> role_name ` ?f ` set rs"
    proof
      assume "role_name x \<in> role_name ` ?f ` set rs"
      then obtain y where y: "y \<in> set rs" "role_name x = role_name (?f y)" by (elim imageE) (simp only:)
      show False
      proof (cases "role_guid y = guid")
        case True
        with y False Cons.prems(3) show False by simp
      next
        case c: False
        with y have "role_name x \<in> role_name ` set rs" by (intro image_eqI [of _ _ y]) simp_all
        with Cons.prems(2) show False by simp
      qed
    qed
    with IH False show ?thesis by (simp del: map_map image_iff)
  qed
qed simp

lemma map_role_guid_replaced:
  "role_guid r' = guid \<Longrightarrow> map role_guid (map (\<lambda>x. if role_guid x = guid then r' else x) rs) = map role_guid rs"
  by simp

lemma createRole_ok:
  assumes ok: "role_tables_ok d" and fresh: "guid \<notin> role_guid ` set (roles d)"
    and c: "createRole d0 d dto actor guid = (Inr resp, d')"
  shows "role_tables_ok d'"
proof -
  note I = createRole_Inr [OF c]
  obtain e where d': "d' = audit_record e (replacePermissionsWithManager guid
      (sort (js_unique (cr_permissions dto))) (d\<lparr>roles := roles d @ [new_role dto guid]\<rparr>))"
    using I(4) by blast
  have na: "as_role a \<noteq> guid" if "a \<in> set (assignments d)" for a
    using ok that fresh by (auto simp: role_tables_ok_def list_all_iff)
  have nr: "role_guid r \<noteq> guid" if "r \<in> set (roles d)" for r
    using fresh that by auto
  show ?thesis
    using ok fresh I(2,3) na nr
    by (auto simp: d' role_tables_ok_def list_all_iff role_codes_replace replace_rows)
qed

lemma updateRole_ok:
  assumes ok: "role_tables_ok d" and c: "updateRole d0 d guid dto actor = (Inr resp, d')"
  shows "role_tables_ok d'"
proof -
  obtain r name protected e where r: "find (\<lambda>r. role_guid r = guid) (roles d) = Some r"
    and al: "update_allowed d guid dto"
    and n: "\<forall>x \<in> set (roles d). role_guid x \<noteq> guid \<longrightarrow> role_name x \<noteq> name"
    and d': "d' = audit_record e (update_effect d r (updated_role r dto name protected) dto)"
    using c by (rule updateRole_Inr)
  let ?r = "updated_role r dto name protected"
  let ?rs = "map (\<lambda>x. if role_guid x = guid then ?r else x) (roles d)"
  have g: "role_guid r = guid" and rin: "r \<in> set (roles d)" using r by (auto dest: find_SomeD)
  have d1: "distinct (map role_guid ?rs)" "distinct (map role_name ?rs)"
    using ok distinct_replaced_names [of "roles d" guid ?r] n g
    by (simp_all add: role_tables_ok_def del: map_map) (simp add: map_role_guid_replaced del: map_map)
  have gs: "role_guid ` set ?rs = role_guid ` set (roles d)"
  proof -
    have "role_guid ?r = guid" using g by simp
    from map_role_guid_replaced [OF this] show ?thesis by (simp only: set_map [symmetric])
  qed
  show ?thesis
  proof (cases "ur_permissions dto")
    case None
    have "role_tables_ok (d\<lparr>roles := ?rs\<rparr>)"
      using ok d1 g rin unfolding role_tables_ok_def
      by (simp add: gs [simplified] list_all_iff del: map_map) (auto simp: list_all_iff)
    then show ?thesis by (simp add: d' update_effect_def None g)
  next
    case (Some ps)
    let ?d = "replacePermissionsWithManager guid (sort (js_unique ps)) (d\<lparr>roles := ?rs\<rparr>)"
    have rp: "list_all (\<lambda>x. rp_role x \<in> role_guid ` set ?rs) (role_permissions ?d)"
      using ok rin g unfolding gs
      by (auto simp: role_tables_ok_def replace_rows list_all_iff)
    have "role_tables_ok ?d"
      using ok d1 g al Some rp unfolding role_tables_ok_def update_allowed_def
      by (simp add: gs [simplified] role_codes_replace list_all_iff del: map_map)
        (auto simp: list_all_iff role_codes_replace)
    then show ?thesis by (simp add: d' update_effect_def Some g)
  qed
qed

lemma deleteRole_ok:
  assumes ok: "role_tables_ok d" and c: "deleteRole d guid actor = (Inr u, d')"
  shows "role_tables_ok d'"
proof -
  obtain e where "d' = audit_record e (revoke_role d guid)"
    using c by (rule deleteRole_Inr)
  then show ?thesis
    using ok by (auto simp: role_tables_ok_def list_all_iff role_codes_revoke distinct_map_filter)
qed

text \<open>
  C29. Every operation of the role service keeps the role tables in order, whatever other
  requests changed between its first reads and its transaction: role names and identifiers stay
  unique, every grant names an existing role, the stored permissions of a role are distinct,
  assignable and contain what they require, and a role assigned for device groups never gets a
  permission that cannot be restricted to device groups. (The identifier drawn for a new role
  has to be unused.)
\<close>

theorem role_op_preserves_tables:
  assumes "role_tables_ok d" "fresh_for op d"
  shows "role_tables_ok (snd (run_role_op d0 d op actor))"
proof (cases op)
  case (CreateOp dto guid)
  obtain r d' where e: "createRole d0 d dto actor guid = (r, d')" by (cases "createRole d0 d dto actor guid")
  have "role_tables_ok d'"
    using assms e CreateOp createRole_ok [of d guid d0 dto actor] role_service_Inl(1) [of d0 d dto actor guid]
    by (cases r) (auto simp: fresh_for_def)
  with e CreateOp show ?thesis by (simp add: run_role_op_def)
next
  case (UpdateOp guid dto)
  obtain r d' where e: "updateRole d0 d guid dto actor = (r, d')" by (cases "updateRole d0 d guid dto actor")
  have "role_tables_ok d'"
    using assms e updateRole_ok [of d d0 guid dto actor] role_service_Inl(2) [of d0 d guid dto actor] by (cases r) auto
  with e UpdateOp show ?thesis by (simp add: run_role_op_def)
next
  case (DeleteOp guid)
  obtain r d' where e: "deleteRole d guid actor = (r, d')" by (cases "deleteRole d guid actor")
  have "role_tables_ok d'"
    using assms e deleteRole_ok [of d guid actor] role_service_Inl(3) [of d guid actor] by (cases r) auto
  with e DeleteOp show ?thesis by (simp add: run_role_op_def)
qed

definition sample_db :: db where
  "sample_db =
     \<lparr>users = [\<lparr>u_guid = ''owner'', u_status = ACTIVE, u_isAdmin = True\<rparr>,
               \<lparr>u_guid = ''op'', u_status = ACTIVE, u_isAdmin = False\<rparr>],
      roles = [\<lparr>role_guid = ''r1'', role_name = ''Operators'', role_note = None, role_protected = False\<rparr>],
      role_permissions = [\<lparr>rp_role = ''r1'', rp_code = ''devices.edit''\<rparr>,
                          \<lparr>rp_role = ''r1'', rp_code = ''devices.view''\<rparr>],
      assignments = [\<lparr>as_guid = ''a1'', as_user = ''op'', as_role = ''r1'', as_scope = ''device_group''\<rparr>],
      assignment_groups = [\<lparr>ag_assignment = ''a1'', ag_group = ''g1''\<rparr>],
      device_groups = [\<lparr>dg_guid = ''g1'', dg_name = ''Lab''\<rparr>],
      peers = [], user_tokens = [], console_audits = []\<rparr>"

lemma role_op_preserves_tables_witness:
  "role_tables_ok (snd (run_role_op sample_db sample_db
     (CreateOp \<lparr>cr_name = ''Auditors'', cr_note = None, cr_permissions = [''audit.view''],
        cr_protected = None\<rparr> ''r2'') ''owner''))"
proof (rule role_op_preserves_tables)
  show "role_tables_ok sample_db"
    unfolding role_tables_ok_def permission_closed_def by code_simp
  show "fresh_for (CreateOp \<lparr>cr_name = ''Auditors'', cr_note = None, cr_permissions = [''audit.view''],
        cr_protected = None\<rparr> ''r2'') sample_db"
    by code_simp
qed

text \<open>
  C30. Roles are changed by active super administrators only; a change is logged with one audit row
  naming the actor and the role; and an operation that fails, for whatever reason and at whatever
  point, leaves the database as it found it.
\<close>

theorem role_op_authorized_and_logged:
  "case run_role_op d0 d op actor of
     (Inl e, d') \<Rightarrow> d' = d
   | (Inr r, d') \<Rightarrow> super_admin d actor \<and> users d' = users d \<and>
       (\<exists>e. console_audits d' = console_audits d @ [e] \<and> ev_actor e = Some actor \<and>
            ev_target e = Some (case op of CreateOp dto guid \<Rightarrow> guid | UpdateOp guid dto \<Rightarrow> guid
                                 | DeleteOp guid \<Rightarrow> guid))"
proof (cases op)
  case (CreateOp dto guid)
  obtain r d' where e: "createRole d0 d dto actor guid = (r, d')" by (cases "createRole d0 d dto actor guid")
  show ?thesis
  proof (cases r)
    case (Inl x)
    with e CreateOp show ?thesis using role_service_Inl(1) by (auto simp: run_role_op_def)
  next
    case (Inr x)
    have "super_admin d actor" "\<exists>e. ev_actor e = Some actor \<and> ev_target e = Some guid \<and>
        d' = audit_record e (replacePermissionsWithManager guid (sort (js_unique (cr_permissions dto)))
          (d\<lparr>roles := roles d @ [new_role dto guid]\<rparr>))"
      using createRole_Inr(1,4) [OF e [unfolded Inr]] by simp_all
    then show ?thesis
      by (elim exE conjE) (use e Inr CreateOp in
        \<open>simp add: run_role_op_def audit_record_def replacePermissionsWithManager_def\<close>)
  qed
next
  case (UpdateOp guid dto)
  obtain r d' where e: "updateRole d0 d guid dto actor = (r, d')" by (cases "updateRole d0 d guid dto actor")
  show ?thesis
  proof (cases r)
    case (Inl x)
    with e UpdateOp show ?thesis using role_service_Inl(2) by (auto simp: run_role_op_def)
  next
    case (Inr x)
    from e [unfolded this] show ?thesis
      by (rule updateRole_Inr) (use e Inr UpdateOp in
        \<open>auto simp: run_role_op_def audit_record_def update_effect_def replacePermissionsWithManager_def Let_def
           split: option.splits\<close>)
  qed
next
  case (DeleteOp guid)
  obtain r d' where e: "deleteRole d guid actor = (r, d')" by (cases "deleteRole d guid actor")
  show ?thesis
  proof (cases r)
    case (Inl x)
    with e DeleteOp show ?thesis using role_service_Inl(3) by (auto simp: run_role_op_def)
  next
    case (Inr x)
    have "console_audits (revoke_role d guid) = console_audits d"
      by (simp add: revoke_role_def Let_def)
    with e [unfolded Inr] show ?thesis
      by (elim deleteRole_Inr) (use e Inr DeleteOp in \<open>auto simp: run_role_op_def audit_record_def\<close>)
  qed
qed

lemma loadPermissionCodes_alt:
  "loadPermissionCodes d g = sort (filter isAssignablePermissionCode (role_codes d g))"
  by (simp add: loadPermissionCodes_def role_codes_def)

lemma validated_codes_read_back:
  "permission_closed (set ps) \<Longrightarrow>
   sort (filter isAssignablePermissionCode (sort (js_unique ps))) = sort (js_unique ps)"
  by (simp add: filter_id_conv [THEN iffD2] permission_closed_def sorted_sort_id)

lemma find_replaced:
  "find (\<lambda>r. role_guid r = guid) rs = Some r \<Longrightarrow> role_guid r' = guid \<Longrightarrow>
   find (\<lambda>r. role_guid r = guid) (map (\<lambda>x. if role_guid x = guid then r' else x) rs) = Some r'"
  by (induction rs) (auto split: if_splits)

text \<open>
  What an update answers is what is read afterwards: after a successful update, reading the
  role yields the response the update gave, and no other role's permissions have changed.
\<close>

theorem updateRole_read_back:
  "case updateRole d0 d guid dto actor of
     (Inl e, d') \<Rightarrow> d' = d
   | (Inr resp, d') \<Rightarrow>
       getRole d' guid = Inr resp \<and>
       (\<forall>g. role_codes d' g = (if g = guid \<and> ur_permissions dto \<noteq> None
                               then rr_permissions resp else role_codes d g))"
proof (cases "updateRole d0 d guid dto actor")
  case (Pair x d')
  show ?thesis
  proof (cases x)
    case (Inl e)
    with Pair show ?thesis using role_service_Inl(2) [of d0 d guid dto actor] by simp
  next
    case (Inr resp)
    obtain r name protected e where r: "find (\<lambda>r. role_guid r = guid) (roles d) = Some r"
      and al: "update_allowed d guid dto"
      and d': "d' = audit_record e (update_effect d r (updated_role r dto name protected) dto)"
      and resp: "resp = toRoleResponse (updated_role r dto name protected)
       (case ur_permissions dto of None \<Rightarrow> loadPermissionCodes d guid | Some ps \<Rightarrow> sort (js_unique ps))"
      using Pair [unfolded Inr] by (rule updateRole_Inr)
    have g: "role_guid r = guid" using r by (auto dest: find_SomeD)
    have rd: "requireRole d' guid = Inr (updated_role r dto name protected)"
      using find_replaced [OF r, of "updated_role r dto name protected"] g
      by (simp add: requireRole_def d' update_effect_def Let_def split: option.splits)
    have rc: "role_codes d' h = (if h = guid \<and> ur_permissions dto \<noteq> None
        then rr_permissions resp else role_codes d h)" for h
      by (cases "ur_permissions dto") (simp_all add: d' update_effect_def Let_def g resp
          toRoleResponse_def role_codes_replace)
    have "loadPermissionCodes d' guid = rr_permissions resp"
      using al by (cases "ur_permissions dto")
        (simp_all add: loadPermissionCodes_alt rc, simp_all add: resp toRoleResponse_def
          loadPermissionCodes_alt update_allowed_def validated_codes_read_back)
    then have "getRole d' guid = Inr resp"
      by (simp add: getRole_def rd resp toRoleResponse_def)
    with rc Pair Inr show ?thesis by simp
  qed
qed

lemma held_scope_revoke:
  assumes "distinct (map as_guid (assignments d))"
  shows "held_scope (revoke_role d guid) g c =
    held_scope (d\<lparr>assignments := filter (\<lambda>a. as_role a \<noteq> guid) (assignments d)\<rparr>) g c"
proof -
  let ?e = "d\<lparr>assignments := filter (\<lambda>a. as_role a \<noteq> guid) (assignments d)\<rparr>"
  have ec: "effective_codes (revoke_role d guid) r = effective_codes ?e r" if "r \<noteq> guid" for r
    using that by (simp add: effective_codes_def role_codes_revoke) (simp add: role_codes_def)
  have "held_globally (revoke_role d guid) g c = held_globally ?e g c"
    using ec by (auto simp: held_globally_def)
  moreover have "held_in_groups (revoke_role d guid) g c = held_in_groups ?e g c"
  proof -
    have same: "as_role a = as_role b"
      if "a \<in> set (assignments d)" "b \<in> set (assignments d)" "as_guid a = as_guid b" for a b
      using that assms by (auto simp: distinct_map dest: inj_onD)
    have key: "r \<in> set (assignment_groups (revoke_role d guid)) \<longleftrightarrow> r \<in> set (assignment_groups d)"
      if "a \<in> set (assignments d)" "as_role a \<noteq> guid" "ag_assignment r = as_guid a" for r a
    proof -
      have "as_guid b \<noteq> ag_assignment r" if "b \<in> set (assignments d)" "as_role b = guid" for b
        using same [OF that(1) \<open>a \<in> set (assignments d)\<close>] that \<open>as_role a \<noteq> guid\<close>
          \<open>ag_assignment r = as_guid a\<close> by fastforce
      then show ?thesis by auto
    qed
    have "(r \<in> set (assignment_groups (revoke_role d guid)) \<and> a \<in> set (assignments (revoke_role d guid)) \<and>
          ag_assignment r = as_guid a \<and> as_user a = g \<and> as_scope a = ''device_group'' \<and>
          c \<in> set (effective_codes (revoke_role d guid) (as_role a)) \<and> isDeviceGroupScopedPermission c) =
        (r \<in> set (assignment_groups ?e) \<and> a \<in> set (assignments ?e) \<and>
          ag_assignment r = as_guid a \<and> as_user a = g \<and> as_scope a = ''device_group'' \<and>
          c \<in> set (effective_codes ?e (as_role a)) \<and> isDeviceGroupScopedPermission c)" for r a
    proof (cases "a \<in> set (assignments d) \<and> as_role a \<noteq> guid \<and> ag_assignment r = as_guid a")
      case True
      then have "r \<in> set (assignment_groups (revoke_role d guid)) \<longleftrightarrow> r \<in> set (assignment_groups d)"
        by (intro key) simp_all
      with True show ?thesis using ec [of "as_role a"] by (simp del: revoke_role_simps(5))
    next
      case False
      then show ?thesis by (auto simp del: revoke_role_simps(5))
    qed
    then show ?thesis by (simp only: held_in_groups_def)
  qed
  ultimately show ?thesis by (simp add: held_scope_def)
qed

text \<open>
  Deleting a role revokes exactly what it granted: afterwards the role and every row that
  refers to it are gone, and every permission check of every account answers as it would if just
  the assignments of that role were missing. (Assignment identifiers are the table's key.)
\<close>

theorem deleteRole_revokes:
  assumes "distinct (map as_guid (assignments d))"
    and "deleteRole d guid actor = (Inr u, d')"
  shows "requirePermission d' g c =
      requirePermission (d\<lparr>assignments := filter (\<lambda>a. as_role a \<noteq> guid) (assignments d)\<rparr>) g c \<and>
    guid \<notin> role_guid ` set (roles d') \<and> guid \<notin> rp_role ` set (role_permissions d') \<and>
    guid \<notin> as_role ` set (assignments d') \<and>
    ag_assignment ` set (assignment_groups d') =
      ag_assignment ` set (assignment_groups d) -
      as_guid ` {a \<in> set (assignments d). as_role a = guid}"
proof -
  obtain e where d': "d' = audit_record e (revoke_role d guid)"
    using assms(2) by (rule deleteRole_Inr)
  have "held_scope d' g c = held_scope (revoke_role d guid) g c"
    by (intro held_scope_cong) (simp_all add: d')
  then have "requirePermission d' g c =
      requirePermission (d\<lparr>assignments := filter (\<lambda>a. as_role a \<noteq> guid) (assignments d)\<rparr>) g c"
    by (intro requirePermission_cong) (simp_all add: d' held_scope_revoke [OF assms(1)])
  moreover have "ag_assignment ` set (assignment_groups d') =
      ag_assignment ` set (assignment_groups d) - as_guid ` {a \<in> set (assignments d). as_role a = guid}"
    by (auto simp: d' image_iff) metis+
  ultimately show ?thesis by (auto simp: d')
qed

lemma deleteRole_revokes_witness:
  "requirePermission (snd (deleteRole sample_db ''r1'' ''owner'')) ''op'' ''devices.view'' =
     Inl (ForbiddenException ''Access denied'')"
proof -
  have "distinct (map as_guid (assignments sample_db))" by code_simp
  moreover have "deleteRole sample_db ''r1'' ''owner'' = (Inr (), snd (deleteRole sample_db ''r1'' ''owner''))"
    by code_simp
  ultimately have "requirePermission (snd (deleteRole sample_db ''r1'' ''owner'')) ''op'' ''devices.view'' =
      requirePermission (sample_db\<lparr>assignments := filter (\<lambda>a. as_role a \<noteq> ''r1'') (assignments sample_db)\<rparr>)
        ''op'' ''devices.view''"
    by (rule deleteRole_revokes [THEN conjunct1])
  also have "\<dots> = Inl (ForbiddenException ''Access denied'')"
    by code_simp
  finally show ?thesis .
qed

end
