(* ===== verification/User_Role_Service.thy ===== *)
theory User_Role_Service
  imports Role_Service
begin

text \<open>
  The assignment of roles to users (\<open>src/modules/rbac/services/user-role.service.ts\<close>):
  reading the assignments of a user, listing which roles a caller may delegate, and replacing
  the assignments. \<open>replaceUserRoles\<close> checks the request against the database it finds
  (\<open>d0\<close>) and again inside its transaction (\<open>d\<close>). New identifiers come from a
  supply \<open>uuid\<close>. Timestamps of rows are left out.
\<close>

subsection \<open>Requests\<close>

record assignment_dto =
  ad_role :: string
  ad_scope :: string
  ad_groups :: "string list option"

record normalized_assignment =
  na_role :: string
  na_scope :: string
  na_groups :: "string list"

definition normalize_assignment :: "assignment_dto \<Rightarrow> normalized_assignment result" where
  "normalize_assignment a =
     (let groups = js_unique (case ad_groups a of None \<Rightarrow> [] | Some gs \<Rightarrow> gs)
      in if ad_scope a = ''device_group'' \<and> groups = []
         then Inl (BadRequestException ''device_group scope requires at least one device group'')
         else if ad_scope a = ''global'' \<and> groups \<noteq> []
         then Inl (BadRequestException ''global scope cannot include device groups'')
         else Inr \<lparr>na_role = ad_role a, na_scope = ad_scope a,
                   na_groups = (if ad_scope a = ''device_group'' then groups else [])\<rparr>)"

fun validate_from :: "string list \<Rightarrow> assignment_dto list \<Rightarrow> normalized_assignment list result" where
  "validate_from seen [] = Inr []"
| "validate_from seen (a # as) =
     (if ad_role a \<in> set seen
      then Inl (BadRequestException ''The same user cannot be assigned duplicate roles'')
      else rbind (normalize_assignment a) (\<lambda>n.
           rbind (validate_from (ad_role a # seen) as) (\<lambda>ns. Inr (n # ns))))"

definition validateAssignments :: "assignment_dto list \<Rightarrow> normalized_assignment list result" where
  "validateAssignments as = validate_from [] as"

subsection \<open>Reading assignments\<close>

definition groupPermissions :: "role_permission list \<Rightarrow> (string \<times> string list) list" where
  "groupPermissions rows =
     map (\<lambda>(r, cs). (r, filterEffectivePermissionCodes cs))
       (group_rows rp_role rp_code (filter (\<lambda>x. isAssignablePermissionCode (rp_code x)) rows))"

definition ensureUserExists :: "db \<Rightarrow> string \<Rightarrow> unit result" where
  "ensureUserExists d g =
     (if list_ex (\<lambda>u. u_guid u = g) (users d) then Inr ()
      else Inl (NotFoundException ''User does not exist''))"

record loaded_assignment =
  la_row :: role_assignment
  la_role :: "role option"
  la_permissions :: "string list"
  la_groups :: "string list"

definition loadAssignments :: "db \<Rightarrow> string \<Rightarrow> loaded_assignment list" where
  "loadAssignments d g =
     (let as = filter (\<lambda>a. as_user a = g) (assignments d)
      in if as = [] then []
         else
           let roleGuids = js_unique (map as_role as);
               rs = filter (\<lambda>r. role_guid r \<in> set roleGuids) (roles d);
               permissions = filter (\<lambda>x. rp_role x \<in> set roleGuids) (role_permissions d);
               groups = filter (\<lambda>x. ag_assignment x \<in> set (map as_guid as)) (assignment_groups d);
               roleMap = fold (\<lambda>r m. AList.update (role_guid r) r m) rs [];
               permissionMap = groupPermissions permissions;
               groupMap = group_rows ag_assignment ag_group groups
           in map (\<lambda>a.
                let rolePermissions = js_get permissionMap (as_role a) []
                in \<lparr>la_row = a, la_role = map_of roleMap (as_role a),
                    la_permissions =
                      (if as_scope a = ''device_group''
                       then filter isDeviceGroupScopedPermission rolePermissions else rolePermissions),
                    la_groups =
                      (if as_scope a = ''device_group'' then sort (js_get groupMap (as_guid a) []) else [])\<rparr>) as)"

text \<open>One permission of one assignment in the loops of \<open>effectiveScopes\<close>.\<close>

definition merge_scope :: "loaded_assignment \<Rightarrow> string \<Rightarrow> scope_map \<Rightarrow> scope_map" where
  "merge_scope a permission scopes =
     (if \<not> isAssignablePermissionCode permission then scopes
      else
        let existing = map_of scopes permission; globally = (as_scope (la_row a) = ''global'')
        in case existing of
             None \<Rightarrow> AList.update permission
               (if globally then \<lparr>es_type = ''global'', es_groups = []\<rparr>
                else \<lparr>es_type = ''device_group'', es_groups = la_groups a\<rparr>) scopes
           | Some e \<Rightarrow>
               if es_type e = ''global'' then scopes
               else if globally
               then AList.update permission \<lparr>es_type = ''global'', es_groups = []\<rparr> scopes
               else AList.update permission
                 \<lparr>es_type = ''device_group'', es_groups = sort (js_unique (es_groups e @ la_groups a))\<rparr> scopes)"

definition effectiveScopes :: "loaded_assignment list \<Rightarrow> scope_map" where
  "effectiveScopes as = fold (\<lambda>a scopes. fold (merge_scope a) (la_permissions a) scopes) as []"

record assignment_response =
  ra_guid :: string
  ra_role :: string
  ra_role_name :: string
  ra_scope :: string
  ra_groups :: "string list"
  ra_permissions :: "string list"

definition toAssignmentResponse :: "loaded_assignment \<Rightarrow> assignment_response" where
  "toAssignmentResponse a =
     \<lparr>ra_guid = as_guid (la_row a), ra_role = as_role (la_row a),
      ra_role_name = (case la_role a of None \<Rightarrow> [] | Some r \<Rightarrow> role_name r),
      ra_scope = as_scope (la_row a), ra_groups = la_groups a, ra_permissions = la_permissions a\<rparr>"

type_synonym user_roles = "assignment_response list \<times> scope_map"

definition getUserRoles :: "db \<Rightarrow> string \<Rightarrow> user_roles result" where
  "getUserRoles d g =
     rbind (ensureUserExists d g) (\<lambda>_.
       let as = loadAssignments d g in Inr (map toAssignmentResponse as, effectiveScopes as))"

subsection \<open>Which roles a caller may delegate\<close>

record eligibility =
  el_guid :: string
  el_name :: string
  el_protected :: bool
  el_assigned :: bool
  el_can_assign :: bool
  el_can_remove :: bool
  el_reason :: "string option"
  el_scopes :: "string list"
  el_groups :: "device_group list"

type_synonym actor_scopes = "(string \<times> permission_scope) list"

definition actor_scopes_of :: "scope_map \<Rightarrow> actor_scopes" where
  "actor_scopes_of scopes =
     fold (\<lambda>p m. if \<not> isAssignablePermissionCode (perm_code p) then m
                 else case map_of scopes (perm_code p) of
                        None \<Rightarrow> m
                      | Some s \<Rightarrow> AList.update (perm_code p)
                          \<lparr>ps_global = (es_type s = ''global''), ps_groups = set (es_groups s)\<rparr> m)
       PERMISSION_CATALOG []"

lemma assignable_flag:
  "\<forall>p \<in> set PERMISSION_CATALOG. isAssignablePermissionCode (perm_code p) = perm_assignable p"
  by code_simp

text \<open>For evaluation: the same fold over the derived list of codes.\<close>

lemma actor_scopes_of_code [code]:
  "actor_scopes_of scopes =
     fold (\<lambda>c m. case map_of scopes c of
                    None \<Rightarrow> m
                  | Some s \<Rightarrow> AList.update c
                      \<lparr>ps_global = (es_type s = ''global''), ps_groups = set (es_groups s)\<rparr> m)
       PERMISSION_CODES []"
proof -
  have "(\<forall>p \<in> set ps. isAssignablePermissionCode (perm_code p) = perm_assignable p) \<Longrightarrow>
      fold (\<lambda>p m. if \<not> isAssignablePermissionCode (perm_code p) then m else f (perm_code p) m) ps m =
      fold f (map perm_code (filter perm_assignable ps)) m" for ps f m
    by (induction ps arbitrary: m) auto
  from this [OF assignable_flag] show ?thesis
    by (simp add: actor_scopes_of_def PERMISSION_CODES_def)
qed

definition catalog_scoped :: "string \<Rightarrow> bool" where
  "catalog_scoped c =
     (case find (\<lambda>p. perm_code p = c) PERMISSION_CATALOG of
        None \<Rightarrow> False | Some p \<Rightarrow> perm_scope p = DeviceGroupScope)"

text \<open>The loop over the permissions of a role, left at the first reason found.\<close>

fun permission_reason :: "actor_scopes \<Rightarrow> string list \<Rightarrow> string option" where
  "permission_reason scopes [] = None"
| "permission_reason scopes (p # ps) =
     (case map_of scopes p of
        None \<Rightarrow> Some ''missing_permission''
      | Some s \<Rightarrow>
          if ps_global s then permission_reason scopes ps
          else if \<not> catalog_scoped p then Some ''scope_exceeds_caller''
          else permission_reason scopes ps)"

definition allowed_groups :: "bool \<Rightarrow> actor_scopes \<Rightarrow> string list \<Rightarrow> device_group list \<Rightarrow> string list" where
  "allowed_groups owner scopes permissions allGroups =
     (let groups = js_unique (map dg_guid allGroups);
          scoped = permissions \<noteq> [] \<and> list_all catalog_scoped permissions
      in if scoped \<and> \<not> owner
         then fold (\<lambda>p gs. case map_of scopes p of
                             None \<Rightarrow> gs
                           | Some s \<Rightarrow> if ps_global s then gs else filter (\<lambda>g. g \<in> ps_groups s) gs)
                permissions groups
         else if \<not> scoped then [] else groups)"

record eligibility_context =
  ec_target_admin :: bool
  ec_owner :: bool
  ec_self :: bool
  ec_protected :: bool
  ec_scopes :: actor_scopes
  ec_assigned :: "string list"
  ec_all_groups :: "device_group list"

definition role_reason :: "eligibility_context \<Rightarrow> role \<Rightarrow> string list \<Rightarrow> string option" where
  "role_reason ctx r permissions =
     (let locked = role_protected r \<or> ''roles.assign'' \<in> set permissions; owner = ec_owner ctx
      in if ec_target_admin ctx then Some ''super_admin_target''
         else if \<not> owner \<and> ec_self ctx then Some ''self_target''
         else if \<not> owner \<and> ec_protected ctx then Some ''protected_target''
         else if \<not> owner \<and> locked
         then Some (if role_protected r then ''protected_role'' else ''role_grants_roles_assign'')
         else if \<not> owner then permission_reason (ec_scopes ctx) permissions
         else None)"

definition role_eligibility :: "eligibility_context \<Rightarrow> (string \<times> string list) list \<Rightarrow> role \<Rightarrow> eligibility" where
  "role_eligibility ctx permissionMap r =
     (let permissions = js_get permissionMap (role_guid r) [];
          owner = ec_owner ctx;
          reason = role_reason ctx r permissions;
          globalAllowed = (owner \<or> permissions \<noteq> [] \<and>
            list_all (\<lambda>p. case map_of (ec_scopes ctx) p of None \<Rightarrow> False | Some s \<Rightarrow> ps_global s) permissions);
          scoped = (permissions \<noteq> [] \<and> list_all catalog_scoped permissions);
          groups = allowed_groups owner (ec_scopes ctx) permissions (ec_all_groups ctx);
          scopeExceeds = (\<not> globalAllowed \<and> \<not> (scoped \<and> groups \<noteq> []));
          reason' = (if reason = None \<and> scopeExceeds then Some ''scope_exceeds_caller'' else reason);
          canAssign = (reason' = None);
          assigned = (role_guid r \<in> set (ec_assigned ctx))
      in \<lparr>el_guid = role_guid r, el_name = role_name r, el_protected = role_protected r,
          el_assigned = assigned, el_can_assign = canAssign, el_can_remove = (assigned \<and> canAssign),
          el_reason = reason',
          el_scopes = (if canAssign
                       then (if globalAllowed then [''global''] else []) @
                            (if scoped \<and> groups \<noteq> [] then [''device_group''] else [])
                       else []),
          el_groups = (if canAssign \<and> scoped
                       then filter (\<lambda>g. dg_guid g \<in> set groups) (ec_all_groups ctx) else [])\<rparr>)"

definition getRoleEligibility :: "db \<Rightarrow> string \<Rightarrow> string \<Rightarrow> eligibility list result" where
  "getRoleEligibility d userGuid actorGuid =
     (case find (\<lambda>u. u_guid u = userGuid) (users d) of
        None \<Rightarrow> Inl (NotFoundException ''User does not exist'')
      | Some target \<Rightarrow>
          rbind (getCurrentUser d actorGuid) (\<lambda>actor.
          let rs = sort_key role_name (roles d);
              assigned = js_unique (map (\<lambda>a. as_role (la_row a)) (loadAssignments d userGuid));
              owner = u_isAdmin actor
          in rbind (if owner then Inr [] else
                      rbind (getEffectivePermissions d actorGuid) (\<lambda>grants. Inr (actor_scopes_of (snd grants))))
               (\<lambda>scopes.
             let rows = filter (\<lambda>x. rp_role x \<in> set (map role_guid rs)) (role_permissions d);
                 permissionMap = groupPermissions rows;
                 ctx = \<lparr>ec_target_admin = u_isAdmin target, ec_owner = owner,
                        ec_self = (userGuid = actorGuid),
                        ec_protected = isProtectedUser d userGuid (Some (u_isAdmin target)) False,
                        ec_scopes = scopes, ec_assigned = assigned,
                        ec_all_groups = sort_key dg_name (device_groups d)\<rparr>
             in Inr (map (role_eligibility ctx permissionMap) rs))))"

subsection \<open>Replacing the roles of a user: shared checks\<close>

text \<open>Both halves of \<open>replaceUserRoles\<close> run these checks, on their own database.\<close>

definition rolesExist :: "db \<Rightarrow> string list \<Rightarrow> unit result" where
  "rolesExist d guids =
     (let found = (if guids \<noteq> [] then filter (\<lambda>r. role_guid r \<in> set guids) (roles d) else [])
      in if length found \<noteq> length guids
         then Inl (NotFoundException (''Role not found: '' @
                join_with '', '' (filter (\<lambda>g. g \<notin> set (map role_guid found)) guids)))
         else Inr ())"

definition permissionsFor :: "db \<Rightarrow> string list \<Rightarrow> (string \<times> string list) list" where
  "permissionsFor d guids =
     groupPermissions (if guids \<noteq> [] then filter (\<lambda>x. rp_role x \<in> set guids) (role_permissions d) else [])"

definition scopeSupported :: "(string \<times> string list) list \<Rightarrow> normalized_assignment \<Rightarrow> unit result" where
  "scopeSupported permissions n =
     (let ps = js_get permissions (na_role n) []
      in if na_scope n = ''device_group'' \<and>
            (ps = [] \<or> list_ex (\<lambda>p. \<not> isDeviceGroupScopedPermission p) ps)
         then Inl (BadRequestException ''device_group scope only supports device actions and strategies.assign'')
         else Inr ())"

definition groupsExist :: "db \<Rightarrow> string list \<Rightarrow> unit result" where
  "groupsExist d guids =
     (if guids = [] then Inr ()
      else
        let found = filter (\<lambda>g. dg_guid g \<in> set guids) (device_groups d)
        in if length found \<noteq> length guids
           then Inl (BadRequestException (''Device group not found: '' @
                  join_with '', '' (filter (\<lambda>g. g \<notin> set (map dg_guid found)) guids)))
           else Inr ())"

definition propose :: "normalized_assignment \<Rightarrow> string \<Rightarrow> actor_scopes \<Rightarrow> actor_scopes" where
  "propose n permission m =
     (let entry = js_get m permission \<lparr>ps_global = False, ps_groups = {}\<rparr>
      in AList.update permission
           (if na_scope n = ''global'' then entry\<lparr>ps_global := True\<rparr>
            else entry\<lparr>ps_groups := ps_groups entry \<union> set (na_groups n)\<rparr>) m)"

definition proposed_grants ::
  "(string \<times> string list) list \<Rightarrow> normalized_assignment list \<Rightarrow> actor_scopes" where
  "proposed_grants permissions ns =
     fold (\<lambda>n m. fold (propose n) (js_get permissions (na_role n) []) m) ns []"

definition withinCaller :: "scope_map \<Rightarrow> string \<times> permission_scope \<Rightarrow> unit result" where
  "withinCaller scopes = (\<lambda>(permission, grant).
     (case map_of scopes permission of
        None \<Rightarrow> Inl (ForbiddenException (''Role permissions exceed the operator scope: '' @ permission))
      | Some allowed \<Rightarrow>
          if (ps_global grant \<and> es_type allowed \<noteq> ''global'') \<or>
             (\<not> ps_global grant \<and> es_type allowed = ''device_group'' \<and>
              \<not> ps_groups grant \<subseteq> set (es_groups allowed))
          then Inl (ForbiddenException (''Role permissions exceed the operator scope: '' @ permission))
          else Inr ()))"

definition checkProposed ::
  "db \<Rightarrow> string \<Rightarrow> (string \<times> string list) list \<Rightarrow> normalized_assignment list \<Rightarrow> unit result" where
  "checkProposed d actorGuid permissions ns =
     rbind (getEffectivePermissions d actorGuid) (\<lambda>caller.
       each (withinCaller (snd caller)) (proposed_grants permissions ns))"

subsection \<open>Replacing the roles of a user: before the transaction\<close>

definition requireRolesAssign :: "db \<Rightarrow> string \<Rightarrow> bool \<Rightarrow> unit result" where
  "requireRolesAssign d actorGuid owner =
     (if owner then Inr () else rbind (requirePermission d actorGuid ''roles.assign'') (\<lambda>_. Inr ()))"

definition precheckDelegation ::
  "db \<Rightarrow> string \<Rightarrow> string \<Rightarrow> normalized_assignment list \<Rightarrow> (string \<times> string list) list \<Rightarrow> unit result" where
  "precheckDelegation d userGuid actorGuid ns permissions =
     (let current = loadAssignments d userGuid
      in rbind (getRoleEligibility d userGuid actorGuid) (\<lambda>eligible.
         let lockedCurrent = filter (\<lambda>row. el_assigned row \<and> \<not> el_can_remove row) eligible
         in case find (\<lambda>row. el_guid row \<notin> set (map na_role ns)) lockedCurrent of
              Some omitted \<Rightarrow> Inl (ForbiddenException (''Cannot remove protected role: '' @ el_guid omitted))
            | None \<Rightarrow>
                (case find (\<lambda>n. \<not> (case find (\<lambda>row. el_guid row = na_role n) eligible of
                                    None \<Rightarrow> False | Some row \<Rightarrow> el_can_assign row) \<and>
                              \<not> list_ex (\<lambda>a. as_role (la_row a) = na_role n) current) ns of
                   Some denied \<Rightarrow> Inl (ForbiddenException (''Role cannot be assigned: '' @ na_role denied))
                 | None \<Rightarrow> checkProposed d actorGuid permissions ns)))"

definition replaceUserRoles_precheck ::
  "db \<Rightarrow> string \<Rightarrow> assignment_dto list \<Rightarrow> string \<Rightarrow> normalized_assignment list result" where
  "replaceUserRoles_precheck d userGuid dtos actorGuid =
     rbind (validateAssignments dtos) (\<lambda>ns.
     let roleGuids = map na_role ns; permissions = permissionsFor d roleGuids;
         groupGuids = js_unique (concat (map na_groups ns))
     in rbind (rolesExist d roleGuids) (\<lambda>_.
        rbind (each (scopeSupported permissions) ns) (\<lambda>_.
        rbind (getCurrentUser d actorGuid) (\<lambda>actor.
        rbind (requireRolesAssign d actorGuid (u_isAdmin actor)) (\<lambda>_.
        rbind (ensureUserExists d userGuid) (\<lambda>_.
        let owner = u_isAdmin actor; target = find (\<lambda>u. u_guid u = userGuid) (users d)
        in rbind (if target = None \<and> \<not> owner then Inl (NotFoundException ''User does not exist'')
                  else Inr ()) (\<lambda>_.
           rbind (if (case target of None \<Rightarrow> False | Some u \<Rightarrow> u_isAdmin u)
                  then Inl (ForbiddenException ''Super administrators cannot be assigned regular roles'')
                  else Inr ()) (\<lambda>_.
           rbind (if \<not> owner \<and> (userGuid = actorGuid \<or>
                       isProtectedUser d userGuid (map_option u_isAdmin target) False)
                  then Inl (ForbiddenException
                    (if userGuid = actorGuid then ''You cannot modify your own roles''
                     else ''Protected accounts can only be modified by a super administrator''))
                  else Inr ()) (\<lambda>_.
           rbind (if owner then Inr () else precheckDelegation d userGuid actorGuid ns permissions) (\<lambda>_.
           rbind (groupsExist d groupGuids) (\<lambda>_. Inr ns)))))))))))"

subsection \<open>Replacing the roles of a user: the transaction\<close>

fun save_assignments ::
  "(nat \<Rightarrow> string) \<Rightarrow> nat \<Rightarrow> string \<Rightarrow> normalized_assignment list \<Rightarrow> db \<Rightarrow> db" where
  "save_assignments uuid i userGuid [] d = d"
| "save_assignments uuid i userGuid (n # ns) d =
     (let d1 = d\<lparr>assignments := assignments d @
            [\<lparr>as_guid = uuid i, as_user = userGuid, as_role = na_role n, as_scope = na_scope n\<rparr>]\<rparr>;
          d2 = (if na_scope n = ''device_group''
                then d1\<lparr>assignment_groups := assignment_groups d1 @
                       map (\<lambda>g. \<lparr>ag_assignment = uuid i, ag_group = g\<rparr>) (na_groups n)\<rparr>
                else d1)
      in save_assignments uuid (Suc i) userGuid ns d2)"

definition clear_assignments :: "string \<Rightarrow> db \<Rightarrow> db" where
  "clear_assignments userGuid d =
     (let current = filter (\<lambda>a. as_user a = userGuid) (assignments d);
          d1 = (if current \<noteq> []
                then d\<lparr>assignment_groups := filter (\<lambda>x. ag_assignment x \<notin> set (map as_guid current))
                         (assignment_groups d)\<rparr>
                else d)
      in d1\<lparr>assignments := filter (\<lambda>a. as_user a \<noteq> userGuid) (assignments d1)\<rparr>)"

definition lockedRoles :: "db \<Rightarrow> role_assignment list \<Rightarrow> string list" where
  "lockedRoles d current =
     (let guids = js_unique (map as_role current);
          currentRoles = (if guids \<noteq> [] then filter (\<lambda>r. role_guid r \<in> set guids) (roles d) else []);
          currentPermissions = permissionsFor d guids
      in map role_guid (filter role_protected currentRoles) @
         map fst (filter (\<lambda>(r, ps). ''roles.assign'' \<in> set ps) currentPermissions))"

definition checkOmitted :: "db \<Rightarrow> string \<Rightarrow> normalized_assignment list \<Rightarrow> unit result" where
  "checkOmitted d userGuid ns =
     (let current = filter (\<lambda>a. as_user a = userGuid) (assignments d)
      in case find (\<lambda>a. as_role a \<notin> set (map na_role ns) \<and> as_role a \<in> set (lockedRoles d current)) current of
           Some omitted \<Rightarrow> Inl (ForbiddenException (''Cannot remove protected role: '' @ as_role omitted))
         | None \<Rightarrow> Inr ())"

definition checkLockedRequested :: "db \<Rightarrow> string list \<Rightarrow> unit result" where
  "checkLockedRequested d roleGuids =
     (let rs = (if roleGuids \<noteq> [] then filter (\<lambda>r. role_guid r \<in> set roleGuids) (roles d) else [])
      in case find role_protected rs of
           Some r \<Rightarrow> Inl (ForbiddenException
             (''Protected roles can only be assigned by a super administrator: '' @ role_guid r))
         | None \<Rightarrow>
             if list_ex (\<lambda>(r, ps). ''roles.assign'' \<in> set ps) (permissionsFor d roleGuids)
             then Inl (ForbiddenException
               ''Roles containing roles.assign can only be assigned by a super administrator'')
             else Inr ())"

definition jscope :: "effective_scope \<Rightarrow> json" where
  "jscope s = JObj [(''scope_type'', JStr (es_type s)), (''device_group_guids'', JArr (map JStr (es_groups s)))]"

definition user_roles_state :: "user_roles \<Rightarrow> json" where
  "user_roles_state = (\<lambda>(as, scopes).
     JObj [(''data'', JArr (map (\<lambda>a. JObj
              [(''guid'', JStr (ra_guid a)), (''role_guid'', JStr (ra_role a)),
               (''role_name'', JStr (ra_role_name a)), (''scope_type'', JStr (ra_scope a)),
               (''device_group_guids'', JArr (map JStr (ra_groups a))),
               (''permissions'', JArr (map JStr (ra_permissions a)))]) as)),
           (''effective_scope'', JObj (map (\<lambda>(c, s). (c, jscope s)) scopes))])"

definition normalized_state :: "normalized_assignment list \<Rightarrow> json" where
  "normalized_state ns = JArr (map (\<lambda>n. JObj
     [(''role_guid'', JStr (na_role n)), (''scope_type'', JStr (na_scope n)),
      (''device_group_guids'', JArr (map JStr (na_groups n)))]) ns)"

definition replace_event :: "string \<Rightarrow> string \<Rightarrow> json \<Rightarrow> json \<Rightarrow> audit_event" where
  "replace_event actorGuid userGuid before after =
     \<lparr>ev_actor = Some actorGuid, ev_target_type = ''user'', ev_target = Some userGuid,
      ev_action = ''user_role.replace'', ev_result = Allowed, ev_reason = None,
      ev_before = Some before, ev_after = Some after\<rparr>"

text \<open>Who may act on whom, checked on the account rows of the transaction.\<close>

definition checkParties :: "db \<Rightarrow> string \<Rightarrow> string \<Rightarrow> bool result" where
  "checkParties d userGuid actorGuid =
     rbind (getCurrentUser d actorGuid) (\<lambda>actor.
     rbind (requireRolesAssign d actorGuid (u_isAdmin actor)) (\<lambda>_.
       case find (\<lambda>u. u_guid u = userGuid) (users d) of
         None \<Rightarrow> Inl (NotFoundException ''User does not exist'')
       | Some target \<Rightarrow>
           if u_isAdmin target
           then Inl (ForbiddenException ''Super administrators cannot be assigned regular roles'')
           else if \<not> u_isAdmin actor \<and> isProtectedUser d userGuid (Some (u_isAdmin target)) True
           then Inl (ForbiddenException
             ''Protected accounts can only be modified by a super administrator'')
           else if \<not> u_isAdmin actor \<and> userGuid = actorGuid
           then Inl (ForbiddenException ''You cannot modify your own roles'')
           else Inr (u_isAdmin actor)))"

definition replaceUserRoles_tx ::
  "db \<Rightarrow> (nat \<Rightarrow> string) \<Rightarrow> string \<Rightarrow> normalized_assignment list \<Rightarrow> string \<Rightarrow> (unit \<times> db) result" where
  "replaceUserRoles_tx d uuid userGuid ns actorGuid =
     (let roleGuids = map na_role ns; permissions = permissionsFor d roleGuids;
          groupGuids = js_unique (concat (map na_groups ns))
      in rbind (checkParties d userGuid actorGuid) (\<lambda>owner.
         rbind (rolesExist d roleGuids) (\<lambda>_.
         rbind (if owner then Inr () else checkLockedRequested d roleGuids) (\<lambda>_.
         rbind (each (scopeSupported permissions) ns) (\<lambda>_.
         rbind (groupsExist d groupGuids) (\<lambda>_.
         rbind (getUserRoles d userGuid) (\<lambda>before.
         rbind (if owner then Inr ()
                else rbind (checkOmitted d userGuid ns) (\<lambda>_. checkProposed d actorGuid permissions ns)) (\<lambda>_.
           Inr ((), audit_record (replace_event actorGuid userGuid (user_roles_state before) (normalized_state ns))
             (save_assignments uuid 0 userGuid ns (clear_assignments userGuid d)))))))))))"

definition replaceUserRoles ::
  "db \<Rightarrow> db \<Rightarrow> (nat \<Rightarrow> string) \<Rightarrow> string \<Rightarrow> assignment_dto list \<Rightarrow> string \<Rightarrow> user_roles result \<times> db" where
  "replaceUserRoles d0 d uuid userGuid dtos actorGuid =
     (case transaction d (rbind (replaceUserRoles_precheck d0 userGuid dtos actorGuid) (\<lambda>ns.
             replaceUserRoles_tx d uuid userGuid ns actorGuid)) of
        (Inl e, d') \<Rightarrow> (Inl e, d')
      | (Inr _, d') \<Rightarrow> (getUserRoles d' userGuid, d'))"

subsection \<open>Lookups\<close>

lemma filterEffective_assignable:
  "filterEffectivePermissionCodes (filter isAssignablePermissionCode cs) = filterEffectivePermissionCodes cs"
  by (simp add: filterEffectivePermissionCodes_def)

lemma js_get_groupPermissions:
  "js_get (groupPermissions rows) r [] =
     filterEffectivePermissionCodes (map rp_code (filter (\<lambda>x. rp_role x = r) rows))"
proof -
  have "map rp_code (filter (\<lambda>x. rp_role x = r) (filter (\<lambda>x. isAssignablePermissionCode (rp_code x)) rows)) =
      filter isAssignablePermissionCode (map rp_code (filter (\<lambda>x. rp_role x = r) rows))"
    by (induction rows) auto
  then show ?thesis
    by (simp add: groupPermissions_def js_get_map_value js_get_group_rows filterEffective_assignable)
qed

lemma distinct_groupPermissions: "distinct (map fst (groupPermissions rows))"
proof -
  have "map fst (groupPermissions rows) =
      map fst (group_rows rp_role rp_code (filter (\<lambda>x. isAssignablePermissionCode (rp_code x)) rows))"
    by (auto simp: groupPermissions_def)
  then show ?thesis by (simp add: distinct_group_rows)
qed

lemma js_get_permissionsFor:
  "js_get (permissionsFor d guids) r [] = (if r \<in> set guids then effective_codes d r else [])"
proof (cases "r \<in> set guids")
  case True
  then have "filter (\<lambda>x. rp_role x = r) (filter (\<lambda>x. rp_role x \<in> set guids) rows) =
      filter (\<lambda>x. rp_role x = r) rows" for rows :: "role_permission list"
    by (auto simp: filter_filter intro!: filter_cong)
  with True show ?thesis
    by (auto simp: permissionsFor_def js_get_groupPermissions effective_codes_def role_codes_def)
next
  case False
  then have "filter (\<lambda>x. rp_role x = r) (filter (\<lambda>x. rp_role x \<in> set guids) rows) = []"
    for rows :: "role_permission list"
    by (auto simp: filter_empty_conv)
  with False show ?thesis
    by (simp add: permissionsFor_def js_get_groupPermissions)
qed

lemma permissionsFor_entry:
  "(\<exists>ps. (r, ps) \<in> set (permissionsFor d guids) \<and> c \<in> set ps) \<longleftrightarrow> r \<in> set guids \<and> c \<in> set (effective_codes d r)"
proof -
  have "distinct (map fst (permissionsFor d guids))"
    by (simp add: permissionsFor_def distinct_groupPermissions)
  then have "(\<exists>ps. (r, ps) \<in> set (permissionsFor d guids) \<and> c \<in> set ps) \<longleftrightarrow>
      c \<in> set (js_get (permissionsFor d guids) r [])"
    by (auto simp: js_get_def split: option.splits dest: map_of_SomeD)
  then show ?thesis by (simp add: js_get_permissionsFor)
qed

subsection \<open>Proposed grants\<close>

definition proposal_pairs ::
  "(string \<times> string list) list \<Rightarrow> normalized_assignment list \<Rightarrow> (normalized_assignment \<times> string) list" where
  "proposal_pairs permissions ns =
     concat (map (\<lambda>n. map (Pair n) (js_get permissions (na_role n) [])) ns)"

lemma set_proposal_pairs:
  "(n, c) \<in> set (proposal_pairs permissions ns) \<longleftrightarrow> n \<in> set ns \<and> c \<in> set (js_get permissions (na_role n) [])"
  by (auto simp: proposal_pairs_def)

lemma propose_fold:
  "map_of (fold (\<lambda>p. propose (fst p) (snd p)) ps m) c =
     (if \<exists>p \<in> set ps. snd p = c
      then Some \<lparr>ps_global = ps_global (js_get m c no_scope) \<or>
                   (\<exists>p \<in> set ps. snd p = c \<and> na_scope (fst p) = ''global''),
                 ps_groups = ps_groups (js_get m c no_scope) \<union>
                   \<Union> {set (na_groups (fst p)) | p. p \<in> set ps \<and> snd p = c \<and> na_scope (fst p) \<noteq> ''global''}\<rparr>
      else map_of m c)"
proof (induction ps arbitrary: m)
  case Nil
  then show ?case by simp
next
  case (Cons p ps)
  obtain n c0 where p: "p = (n, c0)" by (cases p)
  show ?case
    unfolding fold_Cons o_def Cons.IH
    by (auto simp: p propose_def js_get_def update_conv' no_scope_def Let_def split: option.splits)
      (force intro!: permission_scope.equality)+
qed

lemma proposed_grants_lookup:
  assumes "n \<in> set ns" "c \<in> set (js_get permissions (na_role n) [])"
  obtains g where "(c, g) \<in> set (proposed_grants permissions ns)"
    "na_scope n = ''global'' \<Longrightarrow> ps_global g"
    "\<And>m. m \<in> set ns \<Longrightarrow> c \<in> set (js_get permissions (na_role m) []) \<Longrightarrow> na_scope m \<noteq> ''global'' \<Longrightarrow>
       set (na_groups m) \<subseteq> ps_groups g"
proof -
  let ?ps = "proposal_pairs permissions ns"
  have f: "proposed_grants permissions ns = fold (\<lambda>p. propose (fst p) (snd p)) ?ps []"
    unfolding proposed_grants_def proposal_pairs_def by (rule fold_nested)
  have m: "(n, c) \<in> set ?ps" using assms by (simp add: set_proposal_pairs)
  then have ex: "\<exists>p \<in> set ?ps. snd p = c" by force
  define g where "g = \<lparr>ps_global = (\<exists>p \<in> set ?ps. snd p = c \<and> na_scope (fst p) = ''global''),
    ps_groups = \<Union> {set (na_groups (fst p)) | p. p \<in> set ?ps \<and> snd p = c \<and> na_scope (fst p) \<noteq> ''global''}\<rparr>"
  have g: "map_of (proposed_grants permissions ns) c = Some g"
    unfolding f propose_fold g_def using ex by (simp add: no_scope_def)
  have gl: "ps_global g = (\<exists>p \<in> set ?ps. snd p = c \<and> na_scope (fst p) = ''global'')"
    and gr: "ps_groups g =
      \<Union> {set (na_groups (fst p)) | p. p \<in> set ?ps \<and> snd p = c \<and> na_scope (fst p) \<noteq> ''global''}"
    by (simp_all add: g_def)
  show thesis
  proof (rule that)
    show "(c, g) \<in> set (proposed_grants permissions ns)" using g by (rule map_of_SomeD)
    show "ps_global g" if "na_scope n = ''global''"
      using that m gl by force
    show "set (na_groups k) \<subseteq> ps_groups g"
      if "k \<in> set ns" "c \<in> set (js_get permissions (na_role k) [])" "na_scope k \<noteq> ''global''" for k
    proof -
      have "(k, c) \<in> set ?ps" using that by (simp add: set_proposal_pairs)
      with that(3) show ?thesis unfolding gr by force
    qed
  qed
qed

subsection \<open>The tables after a replacement\<close>

definition new_rows :: "(nat \<Rightarrow> string) \<Rightarrow> nat \<Rightarrow> string \<Rightarrow> normalized_assignment list \<Rightarrow> role_assignment list" where
  "new_rows uuid i u ns =
     map (\<lambda>(j, n). \<lparr>as_guid = uuid j, as_user = u, as_role = na_role n, as_scope = na_scope n\<rparr>) (enumerate i ns)"

definition new_group_rows :: "(nat \<Rightarrow> string) \<Rightarrow> nat \<Rightarrow> normalized_assignment list \<Rightarrow> assignment_group list" where
  "new_group_rows uuid i ns =
     concat (map (\<lambda>(j, n). if na_scope n = ''device_group''
       then map (\<lambda>g. \<lparr>ag_assignment = uuid j, ag_group = g\<rparr>) (na_groups n) else []) (enumerate i ns))"

lemma save_assignments_tables [simp]:
  "assignments (save_assignments uuid i u ns d) = assignments d @ new_rows uuid i u ns"
  "assignment_groups (save_assignments uuid i u ns d) = assignment_groups d @ new_group_rows uuid i ns"
  "users (save_assignments uuid i u ns d) = users d"
  "roles (save_assignments uuid i u ns d) = roles d"
  "role_permissions (save_assignments uuid i u ns d) = role_permissions d"
  "console_audits (save_assignments uuid i u ns d) = console_audits d"
  by (induction ns arbitrary: i d) (auto simp: new_rows_def new_group_rows_def Let_def)

lemma clear_assignments_tables [simp]:
  "assignments (clear_assignments u d) = filter (\<lambda>a. as_user a \<noteq> u) (assignments d)"
  "assignment_groups (clear_assignments u d) =
     filter (\<lambda>x. \<forall>a \<in> set (assignments d). as_user a = u \<longrightarrow> as_guid a \<noteq> ag_assignment x) (assignment_groups d)"
  "users (clear_assignments u d) = users d"
  "roles (clear_assignments u d) = roles d"
  "role_permissions (clear_assignments u d) = role_permissions d"
  "console_audits (clear_assignments u d) = console_audits d"
proof -
  have "filter (\<lambda>x. \<forall>a \<in> set (assignments d). as_user a = u \<longrightarrow> as_guid a \<noteq> ag_assignment x) xs = xs"
    if "filter (\<lambda>a. as_user a = u) (assignments d) = []" for xs :: "assignment_group list"
    using that by (auto simp: filter_empty_conv filter_id_conv)
  then show "assignment_groups (clear_assignments u d) =
     filter (\<lambda>x. \<forall>a \<in> set (assignments d). as_user a = u \<longrightarrow> as_guid a \<noteq> ag_assignment x) (assignment_groups d)"
    by (cases "filter (\<lambda>a. as_user a = u) (assignments d) = []")
      (auto simp: clear_assignments_def Let_def image_iff intro!: filter_cong)
qed (simp_all add: clear_assignments_def Let_def)

text \<open>
  Identifiers are keys: those in the table are distinct, and the supply yields new ones.
\<close>

definition fresh_supply :: "(nat \<Rightarrow> string) \<Rightarrow> db \<Rightarrow> bool" where
  "fresh_supply uuid d \<longleftrightarrow> inj uuid \<and>
     range uuid \<inter> (as_guid ` set (assignments d) \<union> ag_assignment ` set (assignment_groups d)) = {}"

definition assignment_keys_ok :: "db \<Rightarrow> bool" where
  "assignment_keys_ok d \<longleftrightarrow> distinct (map as_guid (assignments d))"

text \<open>What a list of requested assignments grants.\<close>

definition granted_scope :: "db \<Rightarrow> normalized_assignment list \<Rightarrow> string \<Rightarrow> permission_scope" where
  "granted_scope d ns c =
     (if \<exists>n \<in> set ns. na_scope n = ''global'' \<and> c \<in> set (effective_codes d (na_role n))
      then \<lparr>ps_global = True, ps_groups = {}\<rparr>
      else \<lparr>ps_global = False, ps_groups = {g. isDeviceGroupScopedPermission c \<and>
             (\<exists>n \<in> set ns. na_scope n = ''device_group'' \<and> g \<in> set (na_groups n) \<and>
                c \<in> set (effective_codes d (na_role n)))}\<rparr>)"

definition replaced_db :: "(nat \<Rightarrow> string) \<Rightarrow> string \<Rightarrow> normalized_assignment list \<Rightarrow> db \<Rightarrow> db" where
  "replaced_db uuid u ns d = save_assignments uuid 0 u ns (clear_assignments u d)"

lemma effective_codes_cong: "role_permissions d' = role_permissions d \<Longrightarrow> effective_codes d' r = effective_codes d r"
  by (simp add: effective_codes_def role_codes_def)

lemma effective_codes_replaced [simp]: "effective_codes (replaced_db uuid u ns d) r = effective_codes d r"
  by (rule effective_codes_cong) (simp add: replaced_db_def)

lemma set_enumerate_0: "set (enumerate 0 ns) = (\<lambda>j. (j, ns ! j)) ` {..<length ns}"
  by (auto simp: in_set_enumerate_eq image_iff)

lemma bex_nth: "(\<exists>n \<in> set ns. P n) \<longleftrightarrow> (\<exists>j < length ns. P (ns ! j))"
  by (metis in_set_conv_nth)

lemma set_new_rows:
  "a \<in> set (new_rows uuid 0 u ns) \<longleftrightarrow> (\<exists>j < length ns. as_guid a = uuid j \<and> as_user a = u \<and>
      as_role a = na_role (ns ! j) \<and> as_scope a = na_scope (ns ! j))"
  by (cases a) (auto simp: new_rows_def set_enumerate_0 image_image)

lemma set_new_group_rows:
  "r \<in> set (new_group_rows uuid 0 ns) \<longleftrightarrow> (\<exists>j < length ns. ag_assignment r = uuid j \<and>
      na_scope (ns ! j) = ''device_group'' \<and> ag_group r \<in> set (na_groups (ns ! j)))"
  by (cases r) (auto simp: new_group_rows_def set_enumerate_0 split: if_splits)

lemma in_assignments_replaced:
  "a \<in> set (assignments (replaced_db uuid u ns d)) \<longleftrightarrow>
     a \<in> set (assignments d) \<and> as_user a \<noteq> u \<or> a \<in> set (new_rows uuid 0 u ns)"
  by (auto simp: replaced_db_def)

lemma held_globally_replaced:
  "held_globally (replaced_db uuid u ns d) g c =
     (if g = u then \<exists>n \<in> set ns. na_scope n = ''global'' \<and> c \<in> set (effective_codes d (na_role n))
      else held_globally d g c)"
proof (cases "g = u")
  case True
  have "held_globally (replaced_db uuid u ns d) u c \<longleftrightarrow>
      (\<exists>a \<in> set (new_rows uuid 0 u ns). as_scope a = ''global'' \<and> c \<in> set (effective_codes d (as_role a)))"
    by (auto simp: held_globally_def in_assignments_replaced set_new_rows)
  also have "\<dots> \<longleftrightarrow> (\<exists>n \<in> set ns. na_scope n = ''global'' \<and> c \<in> set (effective_codes d (na_role n)))"
    unfolding new_rows_def set_map set_enumerate_0 image_image bex_nth [of ns] by auto
  finally show ?thesis using True by simp
next
  case False
  then show ?thesis by (auto simp: held_globally_def in_assignments_replaced set_new_rows)
qed

lemma held_in_groups_replaced:
  assumes keys: "assignment_keys_ok d" and fresh: "fresh_supply uuid d"
  shows "x \<in> held_in_groups (replaced_db uuid u ns d) g c \<longleftrightarrow>
     (if g = u then isDeviceGroupScopedPermission c \<and> (\<exists>n \<in> set ns. na_scope n = ''device_group'' \<and>
        x \<in> set (na_groups n) \<and> c \<in> set (effective_codes d (na_role n)))
      else x \<in> held_in_groups d g c)"
proof -
  let ?d = "replaced_db uuid u ns d"
  have old: "ag_assignment r \<noteq> uuid j" if "r \<in> set (assignment_groups d)" for r j
    using that fresh by (auto simp: fresh_supply_def)
  have olda: "as_guid a \<noteq> uuid j" if "a \<in> set (assignments d)" for a j
    using that fresh by (auto simp: fresh_supply_def)
  have inj: "uuid i = uuid j \<longleftrightarrow> i = j" for i j
    using fresh by (auto simp: fresh_supply_def inj_def)
  have same: "as_user a = as_user b"
    if "a \<in> set (assignments d)" "b \<in> set (assignments d)" "as_guid a = as_guid b" for a b
    using that keys by (auto simp: assignment_keys_ok_def distinct_map dest: inj_onD)
  have mem: "r \<in> set (assignment_groups ?d) \<longleftrightarrow>
      (r \<in> set (assignment_groups d) \<and> (\<forall>a \<in> set (assignments d). as_user a = u \<longrightarrow> as_guid a \<noteq> ag_assignment r))
      \<or> r \<in> set (new_group_rows uuid 0 ns)" for r
    by (auto simp: replaced_db_def)
  have "x \<in> held_in_groups ?d g c \<longleftrightarrow> (\<exists>r a. r \<in> set (assignment_groups ?d) \<and> a \<in> set (assignments ?d) \<and>
      ag_group r = x \<and> ag_assignment r = as_guid a \<and> as_user a = g \<and> as_scope a = ''device_group'' \<and>
      c \<in> set (effective_codes d (as_role a)) \<and> isDeviceGroupScopedPermission c)"
    by (auto simp: held_in_groups_def)
  also have "\<dots> \<longleftrightarrow> (if g = u
      then isDeviceGroupScopedPermission c \<and> (\<exists>j < length ns. na_scope (ns ! j) = ''device_group'' \<and>
        x \<in> set (na_groups (ns ! j)) \<and> c \<in> set (effective_codes d (na_role (ns ! j))))
      else x \<in> held_in_groups d g c)" (is "?L = ?R")
  proof (cases "g = u")
    case True
    show ?thesis
    proof
      assume ?L
      then obtain r a where "r \<in> set (assignment_groups ?d)" "a \<in> set (new_rows uuid 0 u ns)"
        "ag_group r = x" "ag_assignment r = as_guid a" "as_scope a = ''device_group''"
        "c \<in> set (effective_codes d (as_role a))" "isDeviceGroupScopedPermission c"
        using True by (auto simp: in_assignments_replaced)
      then show ?R
        using True old by (auto simp: mem set_new_rows set_new_group_rows inj)
    next
      assume ?R
      then obtain j where j: "j < length ns" "na_scope (ns ! j) = ''device_group''"
        "x \<in> set (na_groups (ns ! j))" "c \<in> set (effective_codes d (na_role (ns ! j)))"
        "isDeviceGroupScopedPermission c" using True by auto
      let ?r = "\<lparr>ag_assignment = uuid j, ag_group = x\<rparr>"
      let ?a = "\<lparr>as_guid = uuid j, as_user = u, as_role = na_role (ns ! j), as_scope = na_scope (ns ! j)\<rparr>"
      have "?r \<in> set (assignment_groups ?d)" "?a \<in> set (assignments ?d)"
        using j by (auto simp: mem in_assignments_replaced set_new_rows set_new_group_rows)
      then show ?L using j True by (intro exI [of _ ?r] exI [of _ ?a]) simp
    qed
  next
    case False
    have "r \<in> set (assignment_groups ?d) \<and> a \<in> set (assignments ?d) \<and> ag_assignment r = as_guid a \<and> as_user a = g \<longleftrightarrow>
        r \<in> set (assignment_groups d) \<and> a \<in> set (assignments d) \<and> ag_assignment r = as_guid a \<and> as_user a = g" for r a
    proof
      assume l: "r \<in> set (assignment_groups ?d) \<and> a \<in> set (assignments ?d) \<and> ag_assignment r = as_guid a \<and> as_user a = g"
      then have a: "a \<in> set (assignments d)"
        using False by (auto simp: in_assignments_replaced set_new_rows)
      with l olda [OF a] olda [OF a, symmetric] show "r \<in> set (assignment_groups d) \<and> a \<in> set (assignments d) \<and> ag_assignment r = as_guid a \<and> as_user a = g"
        by (auto simp: mem set_new_group_rows)
    next
      assume r: "r \<in> set (assignment_groups d) \<and> a \<in> set (assignments d) \<and> ag_assignment r = as_guid a \<and> as_user a = g"
      then have "as_guid b \<noteq> ag_assignment r" if "b \<in> set (assignments d)" "as_user b = u" for b
        using same [of b a] that False by auto
      with r False show "r \<in> set (assignment_groups ?d) \<and> a \<in> set (assignments ?d) \<and> ag_assignment r = as_guid a \<and> as_user a = g"
        by (auto simp: mem in_assignments_replaced)
    qed
    then show ?thesis using False by (auto simp: held_in_groups_def)
  qed
  also have "\<dots> \<longleftrightarrow> (if g = u then isDeviceGroupScopedPermission c \<and> (\<exists>n \<in> set ns. na_scope n = ''device_group'' \<and>
        x \<in> set (na_groups n) \<and> c \<in> set (effective_codes d (na_role n)))
      else x \<in> held_in_groups d g c)"
    by (simp only: bex_nth)
  finally show ?thesis .
qed

lemma held_scope_replaced:
  assumes "assignment_keys_ok d" "fresh_supply uuid d"
  shows "held_scope (replaced_db uuid u ns d) g c = (if g = u then granted_scope d ns c else held_scope d g c)"
proof -
  have "held_in_groups (replaced_db uuid u ns d) g c =
      (if g = u then {x. isDeviceGroupScopedPermission c \<and> (\<exists>n \<in> set ns. na_scope n = ''device_group'' \<and>
        x \<in> set (na_groups n) \<and> c \<in> set (effective_codes d (na_role n)))} else held_in_groups d g c)"
    by (auto simp: held_in_groups_replaced [OF assms])
  then show ?thesis
    by (cases "g = u") (auto simp: held_scope_def held_globally_replaced granted_scope_def)
qed

subsection \<open>What a successful replacement has checked\<close>

lemma precheck_validated:
  "replaceUserRoles_precheck d u dtos actor = Inr ns \<Longrightarrow> validateAssignments dtos = Inr ns"
  by (auto simp: replaceUserRoles_precheck_def Let_def rbind_Inr_iff)

lemma if_unit_Inr: "(if b then Inr () else m) = Inr x \<longleftrightarrow> b \<or> m = Inr ()"
  by auto

lemma replaceUserRoles_tx_Inr:
  assumes "replaceUserRoles_tx d uuid u ns actor = Inr (v, d')"
  obtains owner e where "checkParties d u actor = Inr owner"
    "rolesExist d (map na_role ns) = Inr ()"
    "owner \<or> checkLockedRequested d (map na_role ns) = Inr ()"
    "each (scopeSupported (permissionsFor d (map na_role ns))) ns = Inr ()"
    "owner \<or> checkOmitted d u ns = Inr ()"
    "owner \<or> checkProposed d actor (permissionsFor d (map na_role ns)) ns = Inr ()"
    "d' = audit_record e (replaced_db uuid u ns d)"
    "ev_actor e = Some actor" "ev_target e = Some u" "ev_after e = Some (normalized_state ns)"
    "ensureUserExists d u = Inr ()"
proof -
  from assms obtain owner before where
    c: "checkParties d u actor = Inr owner" "rolesExist d (map na_role ns) = Inr ()"
      "\<not> owner \<longrightarrow> checkLockedRequested d (map na_role ns) = Inr ()"
      "each (scopeSupported (permissionsFor d (map na_role ns))) ns = Inr ()"
      "\<not> owner \<longrightarrow> checkOmitted d u ns = Inr () \<and>
         checkProposed d actor (permissionsFor d (map na_role ns)) ns = Inr ()"
      "getUserRoles d u = Inr before"
    and d': "d' = audit_record (replace_event actor u (user_roles_state before) (normalized_state ns))
         (replaced_db uuid u ns d)"
    by (simp add: replaceUserRoles_tx_def Let_def replaced_db_def rbind_Inr_iff if_unit_Inr) blast
  show thesis
    by (rule that [OF c(1,2) _ c(4) _ _ d'])
      (use c in \<open>auto simp: rbind_Inr_iff replace_event_def getUserRoles_def\<close>)
qed

lemma ensureUserExists_replaced [simp]:
  "ensureUserExists (replaced_db uuid u ns d) g = ensureUserExists d g"
  "ensureUserExists (audit_record e d) g = ensureUserExists d g"
  by (simp_all add: ensureUserExists_def replaced_db_def)

lemma getUserRoles_exists:
  "ensureUserExists d g = Inr () \<Longrightarrow>
   getUserRoles d g = Inr (map toAssignmentResponse (loadAssignments d g), effectiveScopes (loadAssignments d g))"
  by (simp add: getUserRoles_def Let_def)

lemma replaceUserRoles_cases:
  obtains (failed) e where "replaceUserRoles d0 d uuid u dtos actor = (Inl e, d)"
  | (committed) ns d' where "validateAssignments dtos = Inr ns"
      "replaceUserRoles_tx d uuid u ns actor = Inr ((), d')"
      "replaceUserRoles d0 d uuid u dtos actor = (getUserRoles d' u, d')"
proof (cases "rbind (replaceUserRoles_precheck d0 u dtos actor) (\<lambda>ns. replaceUserRoles_tx d uuid u ns actor)")
  case (Inl e)
  then show thesis by (intro failed [of e]) (simp add: replaceUserRoles_def)
next
  case (Inr r)
  obtain v d' where r: "r = (v, d')" by (cases r)
  with Inr obtain ns where ns: "replaceUserRoles_precheck d0 u dtos actor = Inr ns"
    "replaceUserRoles_tx d uuid u ns actor = Inr (v, d')" by (auto simp: rbind_Inr_iff)
  show thesis
  proof (rule committed)
    show "validateAssignments dtos = Inr ns" using ns(1) by (rule precheck_validated)
    show "replaceUserRoles_tx d uuid u ns actor = Inr ((), d')" using ns(2) by simp
    show "replaceUserRoles d0 d uuid u dtos actor = (getUserRoles d' u, d')"
      using Inr r by (simp add: replaceUserRoles_def)
  qed
qed

lemma requireRolesAssign_Inr [result_simps]:
  "getCurrentUser d actor = Inr x \<Longrightarrow> requireRolesAssign d actor (u_isAdmin x) = Inr v \<longleftrightarrow>
     u_isAdmin x \<or> held_globally d actor ''roles.assign''"
proof -
  assume x: "getCurrentUser d actor = Inr x"
  then have l: "loadUserStatus d actor = Some x" "u_status x = ACTIVE" by (auto simp: getCurrentUser_Inr)
  have "(\<exists>s. requirePermission d actor ''roles.assign'' = Inr s) \<longleftrightarrow> held_globally d actor ''roles.assign''"
    if "\<not> u_isAdmin x"
    using that l by (auto simp: requirePermission_Inr roles_assign_assignable held_scope_def
        scope_nonempty_def held_in_groups_def roles_assign_unscoped)
  then show ?thesis by (auto simp: requireRolesAssign_def rbind_Inr_iff)
qed

text \<open>Whom an account may give roles: the parties of a delegation.\<close>

definition may_delegate :: "db \<Rightarrow> string \<Rightarrow> string \<Rightarrow> bool" where
  "may_delegate d actor u \<longleftrightarrow>
     (\<exists>t. find (\<lambda>x. u_guid x = u) (users d) = Some t \<and> \<not> u_isAdmin t) \<and>
     (super_admin d actor \<or>
      (\<exists>x. loadUserStatus d actor = Some x \<and> u_status x = ACTIVE) \<and>
       held_globally d actor ''roles.assign'' \<and> actor \<noteq> u \<and> \<not> isProtectedUser d u (Some False) True)"

lemma checkParties_Inr:
  assumes "checkParties d u actor = Inr owner"
  shows "may_delegate d actor u" and "owner \<longleftrightarrow> super_admin d actor" and "owner \<or> actor \<noteq> u"
    and "\<exists>x. getCurrentUser d actor = Inr x \<and> u_isAdmin x = owner"
proof -
  from assms obtain x t where x: "getCurrentUser d actor = Inr x"
    and ra: "requireRolesAssign d actor (u_isAdmin x) = Inr ()"
    and t: "find (\<lambda>x. u_guid x = u) (users d) = Some t" "\<not> u_isAdmin t"
    and p: "\<not> (\<not> u_isAdmin x \<and> isProtectedUser d u (Some False) True)"
      "\<not> (\<not> u_isAdmin x \<and> u = actor)" and o: "owner = u_isAdmin x"
    by (auto simp: checkParties_def rbind_Inr_iff split: option.splits if_splits)
  have l: "loadUserStatus d actor = Some x" "u_status x = ACTIVE" using x by (auto simp: getCurrentUser_Inr)
  show "owner \<longleftrightarrow> super_admin d actor" using l o by (auto simp: super_admin_def)
  show "owner \<or> actor \<noteq> u" using o p by auto
  show "\<exists>x. getCurrentUser d actor = Inr x \<and> u_isAdmin x = owner" using x o by auto
  show "may_delegate d actor u"
    using l t p ra by (auto simp: may_delegate_def super_admin_def requireRolesAssign_Inr [OF x])
qed

text \<open>Roles that only a super administrator may give or take.\<close>

definition locked_role :: "db \<Rightarrow> string \<Rightarrow> bool" where
  "locked_role d r \<longleftrightarrow>
     list_ex (\<lambda>x. role_guid x = r \<and> role_protected x) (roles d) \<or> ''roles.assign'' \<in> set (effective_codes d r)"

definition leaves_locked_roles_alone :: "db \<Rightarrow> string \<Rightarrow> assignment_dto list \<Rightarrow> bool" where
  "leaves_locked_roles_alone d u dtos \<longleftrightarrow>
     list_all (\<lambda>n. \<not> locked_role d (ad_role n)) dtos \<and>
     list_all (\<lambda>a. as_user a \<noteq> u \<or> \<not> locked_role d (as_role a)) (assignments d)"

lemma lockedRoles_iff:
  "r \<in> set (lockedRoles d current) \<longleftrightarrow> r \<in> as_role ` set current \<and> locked_role d r"
proof -
  have "r \<in> set (lockedRoles d current) \<longleftrightarrow>
      (\<exists>x \<in> set (roles d). role_guid x = r \<and> r \<in> as_role ` set current \<and> role_protected x) \<or>
      (\<exists>ps. (r, ps) \<in> set (permissionsFor d (js_unique (map as_role current))) \<and> ''roles.assign'' \<in> set ps)"
    by (auto simp: lockedRoles_def Let_def image_iff)
  then show ?thesis
    by (auto simp: permissionsFor_entry locked_role_def list_ex_iff)
qed

lemma checkLockedRequested_Inr:
  "checkLockedRequested d guids = Inr v \<longleftrightarrow> (\<forall>r \<in> set guids. \<not> locked_role d r)"
proof -
  have "checkLockedRequested d guids = Inr v \<longleftrightarrow>
      (\<forall>x \<in> set (roles d). role_guid x \<in> set guids \<longrightarrow> \<not> role_protected x) \<and>
      (\<forall>r. \<not> (\<exists>ps. (r, ps) \<in> set (permissionsFor d guids) \<and> ''roles.assign'' \<in> set ps))"
    by (auto simp: checkLockedRequested_def Let_def list_ex_iff find_None_iff_all dest!: find_SomeD
        split: option.splits)
  then show ?thesis
    unfolding permissionsFor_entry locked_role_def list_ex_iff by blast
qed

lemma checkOmitted_Inr:
  "checkOmitted d u ns = Inr v \<longleftrightarrow>
     (\<forall>a \<in> set (assignments d). as_user a = u \<longrightarrow> locked_role d (as_role a) \<longrightarrow> as_role a \<in> na_role ` set ns)"
  by (auto simp: checkOmitted_def Let_def find_None_iff_all lockedRoles_iff dest!: find_SomeD split: option.splits)

lemma listed_scope_cases:
  assumes "listed_scope (held_scope d g c) = Some es"
  shows "es_type es = ''global'' \<and> ps_global (held_scope d g c) \<or>
    es_type es = ''device_group'' \<and> \<not> ps_global (held_scope d g c) \<and>
    set (es_groups es) = ps_groups (held_scope d g c)"
  using assms by (auto simp: listed_scope_def held_scope_def split: if_splits)

text \<open>Comparing scopes: the first grants nothing the second does not.\<close>

definition scope_le :: "permission_scope \<Rightarrow> permission_scope \<Rightarrow> bool" where
  "scope_le s t \<longleftrightarrow> ps_global t \<or> (\<not> ps_global s \<and> ps_groups s \<subseteq> ps_groups t)"

lemma checkProposed_bounds:
  assumes x: "getCurrentUser d actor = Inr x" "\<not> u_isAdmin x"
    and chk: "checkProposed d actor (permissionsFor d (map na_role ns)) ns = Inr ()"
  shows "scope_le (granted_scope d ns c) (held_scope d actor c)"
proof -
  obtain ps scopes where e: "getEffectivePermissions d actor = Inr (ps, scopes)"
    and w: "each (withinCaller scopes) (proposed_grants (permissionsFor d (map na_role ns)) ns) = Inr ()"
    using chk by (auto simp: checkProposed_def rbind_Inr_iff)
  have sc: "map_of scopes c = listed_scope (held_scope d actor c)"
    by (rule getEffectivePermissions_scopes(1) [OF x e])
  have perms: "js_get (permissionsFor d (map na_role ns)) (na_role n) [] = effective_codes d (na_role n)"
    if "n \<in> set ns" for n
    using that by (simp add: js_get_permissionsFor)
  have key: "ps_global (held_scope d actor c) \<or>
      (na_scope n \<noteq> ''global'' \<and> set (na_groups n) \<subseteq> ps_groups (held_scope d actor c))"
    if n: "n \<in> set ns" "c \<in> set (effective_codes d (na_role n))" for n
  proof -
    obtain g where g: "(c, g) \<in> set (proposed_grants (permissionsFor d (map na_role ns)) ns)"
      and gl: "na_scope n = ''global'' \<Longrightarrow> ps_global g"
      and gr: "na_scope n \<noteq> ''global'' \<Longrightarrow> set (na_groups n) \<subseteq> ps_groups g"
      using proposed_grants_lookup [of n ns c "permissionsFor d (map na_role ns)"] n perms by metis
    from w g have "withinCaller scopes (c, g) = Inr ()" by (auto simp: each_Inr_iff)
    then obtain es where es: "listed_scope (held_scope d actor c) = Some es"
      and al: "\<not> (ps_global g \<and> es_type es \<noteq> ''global'')"
        "\<not> (\<not> ps_global g \<and> es_type es = ''device_group'' \<and> \<not> ps_groups g \<subseteq> set (es_groups es))"
      using sc by (auto simp: withinCaller_def split: option.splits if_splits)
    from listed_scope_cases [OF es] show ?thesis
    proof
      assume c: "es_type es = ''device_group'' \<and> \<not> ps_global (held_scope d actor c) \<and>
        set (es_groups es) = ps_groups (held_scope d actor c)"
      then have "\<not> ps_global g" "ps_groups g \<subseteq> ps_groups (held_scope d actor c)" using al by auto
      then show ?thesis using gl gr by blast
    qed simp
  qed
  then show ?thesis
    by (auto simp: scope_le_def granted_scope_def)
qed

subsection \<open>The properties of role assignment\<close>

text \<open>
  C3. No privilege escalation through delegation: when an account that is not the super
  administrator replaces the roles of a user, that user afterwards holds no permission in a
  wider scope than the account that gave the roles, for every permission code. This holds
  whatever the database looked like when the request was first checked.
\<close>

theorem replaceUserRoles_no_escalation:
  assumes "assignment_keys_ok d" "fresh_supply uuid d"
    and "replaceUserRoles d0 d uuid u dtos actor = (Inr resp, d')"
    and "\<not> super_admin d actor"
  shows "scope_le (held_scope d' u c) (held_scope d' actor c)"
  using replaceUserRoles_cases [of d0 d uuid u dtos actor]
proof cases
  case (failed e)
  with assms show ?thesis by simp
next
  case (committed ns d1)
  with assms have "d1 = d'" by simp
  obtain owner e where p: "checkParties d u actor = Inr owner"
    and c: "owner \<or> checkProposed d actor (permissionsFor d (map na_role ns)) ns = Inr ()"
    and d': "d' = audit_record e (replaced_db uuid u ns d)"
    using committed(2) unfolding \<open>d1 = d'\<close> by (rule replaceUserRoles_tx_Inr)
  from checkParties_Inr [OF p] assms(4) obtain x where
    x: "getCurrentUser d actor = Inr x" "\<not> u_isAdmin x" and ne: "actor \<noteq> u" and o: "\<not> owner" by auto
  have "held_scope d' g c = (if g = u then granted_scope d ns c else held_scope d g c)" for g
    using held_scope_replaced [OF assms(1,2)] held_scope_cong [of d' "replaced_db uuid u ns d"]
    by (simp add: d')
  then show ?thesis
    using checkProposed_bounds [OF x] c o ne by simp
qed

definition sample_supply :: "nat \<Rightarrow> string" where
  "sample_supply i = ''n'' @ replicate i CHR ''x''"

definition delegation_db :: db where
  "delegation_db = sample_db
     \<lparr>users := users sample_db @ [\<lparr>u_guid = ''new'', u_status = ACTIVE, u_isAdmin = False\<rparr>],
      roles := roles sample_db @
        [\<lparr>role_guid = ''r2'', role_name = ''Delegates'', role_note = None, role_protected = False\<rparr>],
      role_permissions := role_permissions sample_db @
        [\<lparr>rp_role = ''r2'', rp_code = ''roles.assign''\<rparr>, \<lparr>rp_role = ''r2'', rp_code = ''roles.view''\<rparr>,
         \<lparr>rp_role = ''r2'', rp_code = ''users.view''\<rparr>],
      assignments := assignments sample_db @
        [\<lparr>as_guid = ''a2'', as_user = ''op'', as_role = ''r2'', as_scope = ''global''\<rparr>]\<rparr>"

lemma sample_supply_fresh: "fresh_supply sample_supply delegation_db"
proof -
  have "inj sample_supply"
    by (auto simp: inj_def sample_supply_def)
  moreover have "as_guid ` set (assignments delegation_db) = {''a1'', ''a2''}"
    "ag_assignment ` set (assignment_groups delegation_db) = {''a1''}"
    by code_simp+
  moreover have "range sample_supply \<inter> {''a1'', ''a2''} = {}"
    by (auto simp: sample_supply_def)
  ultimately show ?thesis by (simp only: fresh_supply_def) simp
qed

definition delegation_request :: "assignment_dto list" where
  "delegation_request = [\<lparr>ad_role = ''r1'', ad_scope = ''device_group'', ad_groups = Some [''g1'']\<rparr>]"

text \<open>
  A concrete delegation, evaluated check by check: an operator who holds device permissions in
  one group and may assign roles gives the device role, for that group, to a new account.
\<close>

definition sample_normalized :: "normalized_assignment list" where
  "sample_normalized = [\<lparr>na_role = ''r1'', na_scope = ''device_group'', na_groups = [''g1'']\<rparr>]"

definition sample_scopes :: scope_map where
  "sample_scopes =
     [(''devices.edit'', \<lparr>es_type = ''device_group'', es_groups = [''g1'']\<rparr>),
      (''devices.view'', \<lparr>es_type = ''device_group'', es_groups = [''g1'']\<rparr>),
      (''roles.assign'', \<lparr>es_type = ''global'', es_groups = []\<rparr>),
      (''roles.view'', \<lparr>es_type = ''global'', es_groups = []\<rparr>),
      (''users.view'', \<lparr>es_type = ''global'', es_groups = []\<rparr>)]"

lemma sample_parties:
  "getCurrentUser delegation_db ''op'' = Inr \<lparr>u_guid = ''op'', u_status = ACTIVE, u_isAdmin = False\<rparr>"
  "find (\<lambda>u. u_guid u = ''new'') (users delegation_db) =
     Some \<lparr>u_guid = ''new'', u_status = ACTIVE, u_isAdmin = False\<rparr>"
  by code_simp+

lemma sample_effective:
  "getEffectivePermissions delegation_db ''op'' = Inr (sort (map fst sample_scopes), sample_scopes)"
  unfolding getEffectivePermissions_def sample_parties rbind_simps user.simps if_False
  by code_simp

lemma sample_eligibility:
  "getRoleEligibility delegation_db ''new'' ''op'' = Inr
     [\<lparr>el_guid = ''r2'', el_name = ''Delegates'', el_protected = False, el_assigned = False,
       el_can_assign = False, el_can_remove = False, el_reason = Some ''role_grants_roles_assign'',
       el_scopes = [], el_groups = []\<rparr>,
      \<lparr>el_guid = ''r1'', el_name = ''Operators'', el_protected = False, el_assigned = False,
       el_can_assign = True, el_can_remove = False, el_reason = None, el_scopes = [''device_group''],
       el_groups = [\<lparr>dg_guid = ''g1'', dg_name = ''Lab''\<rparr>]\<rparr>]"
  unfolding getRoleEligibility_def sample_parties option.case rbind_simps user.simps if_False
    sample_effective snd_conv
  by code_simp

lemma sample_checks:
  "validateAssignments delegation_request = Inr sample_normalized"
  "rolesExist delegation_db [''r1''] = Inr ()"
  "each (scopeSupported (permissionsFor delegation_db [''r1''])) sample_normalized = Inr ()"
  "requireRolesAssign delegation_db ''op'' False = Inr ()"
  "ensureUserExists delegation_db ''new'' = Inr ()"
  "isProtectedUser delegation_db ''new'' (Some False) False = False"
  "isProtectedUser delegation_db ''new'' (Some False) True = False"
  "groupsExist delegation_db [''g1''] = Inr ()"
  "checkLockedRequested delegation_db [''r1''] = Inr ()"
  "checkOmitted delegation_db ''new'' sample_normalized = Inr ()"
  "each (withinCaller sample_scopes)
     (proposed_grants (permissionsFor delegation_db [''r1'']) sample_normalized) = Inr ()"
  "js_unique (concat (map na_groups sample_normalized)) = [''g1'']"
  "map na_role sample_normalized = [''r1'']"
  by code_simp+

lemma sample_proposed:
  "checkProposed delegation_db ''op'' (permissionsFor delegation_db [''r1'']) sample_normalized = Inr ()"
  by (simp add: checkProposed_def sample_effective sample_checks)

lemma sample_precheck:
  "replaceUserRoles_precheck delegation_db ''new'' delegation_request ''op'' = Inr sample_normalized"
proof -
  have "precheckDelegation delegation_db ''new'' ''op'' sample_normalized
      (permissionsFor delegation_db [''r1'']) = Inr ()"
    by (simp add: precheckDelegation_def sample_eligibility sample_proposed Let_def sample_normalized_def)
      (simp add: sample_proposed [unfolded sample_normalized_def])
  then show ?thesis
    by (simp add: replaceUserRoles_precheck_def Let_def sample_checks sample_parties)
qed

lemma sample_replacement:
  "\<exists>resp d'. replaceUserRoles delegation_db delegation_db sample_supply ''new'' delegation_request ''op'' = (Inr resp, d')"
proof -
  have "checkParties delegation_db ''new'' ''op'' = Inr False"
    by (simp add: checkParties_def sample_parties sample_checks)
  then obtain d' where tx: "replaceUserRoles_tx delegation_db sample_supply ''new'' sample_normalized ''op'' = Inr ((), d')"
    by (simp add: replaceUserRoles_tx_def Let_def sample_checks sample_proposed getUserRoles_exists)
  then have "ensureUserExists d' ''new'' = Inr ()"
    by (rule replaceUserRoles_tx_Inr) (simp add: sample_checks)
  then show ?thesis
    by (simp add: replaceUserRoles_def sample_precheck tx getUserRoles_exists)
qed

lemma replaceUserRoles_no_escalation_witness:
  "scope_le (held_scope (snd (replaceUserRoles delegation_db delegation_db sample_supply ''new''
       delegation_request ''op'')) ''new'' ''devices.edit'')
     (held_scope (snd (replaceUserRoles delegation_db delegation_db sample_supply ''new''
       delegation_request ''op'')) ''op'' ''devices.edit'')"
proof -
  obtain resp d' where
    r: "replaceUserRoles delegation_db delegation_db sample_supply ''new'' delegation_request ''op'' = (Inr resp, d')"
    using sample_replacement by blast
  have "scope_le (held_scope d' ''new'' ''devices.edit'') (held_scope d' ''op'' ''devices.edit'')"
  proof (rule replaceUserRoles_no_escalation [OF _ sample_supply_fresh r])
    show "assignment_keys_ok delegation_db" by code_simp
    show "\<not> super_admin delegation_db ''op''"
      using sample_parties(1) by (auto simp: super_admin_def getCurrentUser_Inr)
  qed
  then show ?thesis by (simp add: r)
qed

text \<open>The tables after a replacement, each of them.\<close>

lemma save_assignments_eq:
  "save_assignments uuid i u ns d = d\<lparr>assignments := assignments d @ new_rows uuid i u ns,
     assignment_groups := assignment_groups d @ new_group_rows uuid i ns\<rparr>"
  by (induction ns arbitrary: i d) (auto simp: new_rows_def new_group_rows_def Let_def)

lemma clear_assignments_eq:
  "clear_assignments u d = d\<lparr>assignments := filter (\<lambda>a. as_user a \<noteq> u) (assignments d),
     assignment_groups := filter (\<lambda>x. \<forall>a \<in> set (assignments d). as_user a = u \<longrightarrow> as_guid a \<noteq> ag_assignment x) (assignment_groups d)\<rparr>"
proof -
  have "clear_assignments u d = d\<lparr>assignments := assignments (clear_assignments u d),
      assignment_groups := assignment_groups (clear_assignments u d)\<rparr>"
    by (simp add: clear_assignments_def Let_def)
  then show ?thesis by simp
qed

text \<open>
  C17. A replacement that succeeds stored exactly the request: of the tables only the assignments,
  their device groups and the audit log change; the rows of other users stay as they are, the user
  has one row for each validated assignment, in the order of the request, with its groups, and none
  from before, and one audit record is added. So the user then holds what the validated assignments
  grant, every other user holds what they held, and the answer lists what is stored. A replacement
  that fails leaves the database as it was.
\<close>

theorem replaceUserRoles_exact:
  assumes "assignment_keys_ok d" "fresh_supply uuid d"
  shows "case replaceUserRoles d0 d uuid u dtos actor of
      (Inl e, d') \<Rightarrow> d' = d
    | (Inr resp, d') \<Rightarrow> \<exists>ns e. validateAssignments dtos = Inr ns \<and>
        d' = audit_record e (d\<lparr>assignments := filter (\<lambda>a. as_user a \<noteq> u) (assignments d) @ new_rows uuid 0 u ns,
               assignment_groups := filter (\<lambda>x. \<forall>a \<in> set (assignments d). as_user a = u \<longrightarrow> as_guid a \<noteq> ag_assignment x)
                 (assignment_groups d) @ new_group_rows uuid 0 ns\<rparr>) \<and>
        ev_actor e = Some actor \<and> ev_target e = Some u \<and> ev_after e = Some (normalized_state ns) \<and>
        getUserRoles d' u = Inr resp \<and>
        (\<forall>g c. held_scope d' g c = (if g = u then granted_scope d ns c else held_scope d g c))"
  using replaceUserRoles_cases [of d0 d uuid u dtos actor]
proof cases
  case (failed e)
  then show ?thesis by simp
next
  case (committed ns d')
  obtain e where d': "d' = audit_record e (replaced_db uuid u ns d)" and ex: "ensureUserExists d u = Inr ()"
    and e: "ev_actor e = Some actor" "ev_target e = Some u" "ev_after e = Some (normalized_state ns)"
    using committed(2) by (rule replaceUserRoles_tx_Inr)
  have "getUserRoles d' u = Inr (map toAssignmentResponse (loadAssignments d' u), effectiveScopes (loadAssignments d' u))"
    by (rule getUserRoles_exists) (simp add: d' ex)
  moreover have "held_scope d' g c = (if g = u then granted_scope d ns c else held_scope d g c)" for g c
    using held_scope_replaced [OF assms] held_scope_cong [of d' "replaced_db uuid u ns d"] by (simp add: d')
  moreover have "d' = audit_record e (d\<lparr>assignments := filter (\<lambda>a. as_user a \<noteq> u) (assignments d) @ new_rows uuid 0 u ns,
      assignment_groups := filter (\<lambda>x. \<forall>a \<in> set (assignments d). as_user a = u \<longrightarrow> as_guid a \<noteq> ag_assignment x)
        (assignment_groups d) @ new_group_rows uuid 0 ns\<rparr>)"
    unfolding d' replaced_db_def save_assignments_eq clear_assignments_eq by simp
  ultimately show ?thesis using committed e by auto
qed

lemma replaceUserRoles_exact_witness:
  "held_scope (snd (replaceUserRoles delegation_db delegation_db sample_supply ''new''
      delegation_request ''op'')) ''new'' ''devices.edit'' = \<lparr>ps_global = False, ps_groups = {''g1''}\<rparr>"
proof -
  obtain resp d' where
    r: "replaceUserRoles delegation_db delegation_db sample_supply ''new'' delegation_request ''op'' = (Inr resp, d')"
    using sample_replacement by blast
  have "assignment_keys_ok delegation_db" by code_simp
  from replaceUserRoles_exact [OF this sample_supply_fresh, where ?d0.0 = delegation_db and u = "''new''" and dtos = delegation_request
      and actor = "''op''"] r sample_checks(1)
  have "\<forall>g c. held_scope d' g c = (if g = ''new'' then granted_scope delegation_db sample_normalized c else held_scope delegation_db g c)"
    by auto
  then have "held_scope d' ''new'' ''devices.edit'' = granted_scope delegation_db sample_normalized ''devices.edit''"
    by simp
  moreover have "isDeviceGroupScopedPermission ''devices.edit''"
    "''devices.edit'' \<in> set (effective_codes delegation_db ''r1'')"
    by code_simp+
  ultimately show ?thesis
    by (auto simp: r granted_scope_def sample_normalized_def)
qed

text \<open>
  C16. Who may replace roles: a replacement succeeds only when the target exists and is not a
  super administrator, and the caller is either an active super administrator or an active
  account that holds \<open>roles.assign\<close>, does not act on itself and does not act on a protected
  account; the latter neither gives a role that only super administrators may give (a protected
  role, or one that itself grants \<open>roles.assign\<close>) nor touches a user who has one. The change
  is logged with one row naming both parties.
\<close>

theorem replaceUserRoles_authorized:
  "case replaceUserRoles d0 d uuid u dtos actor of
     (Inl e, d') \<Rightarrow> d' = d
   | (Inr resp, d') \<Rightarrow> may_delegate d actor u \<and>
       (super_admin d actor \<or>
        leaves_locked_roles_alone d u dtos) \<and>
       (\<exists>e. console_audits d' = console_audits d @ [e] \<and> ev_actor e = Some actor \<and> ev_target e = Some u)"
  using replaceUserRoles_cases [of d0 d uuid u dtos actor]
proof cases
  case (failed e)
  then show ?thesis by simp
next
  case (committed ns d')
  obtain owner e where p: "checkParties d u actor = Inr owner"
    and l: "owner \<or> checkLockedRequested d (map na_role ns) = Inr ()"
    and o: "owner \<or> checkOmitted d u ns = Inr ()"
    and d': "d' = audit_record e (replaced_db uuid u ns d)" "ev_actor e = Some actor" "ev_target e = Some u"
    and ex: "ensureUserExists d u = Inr ()"
    using committed(2) by (rule replaceUserRoles_tx_Inr)
  have "validate_from seen dtos = Inr ns \<Longrightarrow> map na_role ns = map ad_role dtos" for seen
    by (induction dtos arbitrary: seen ns)
      (auto simp: rbind_Inr_iff normalize_assignment_def Let_def split: if_splits)
  then have roles: "map na_role ns = map ad_role dtos"
    using committed(1) by (simp add: validateAssignments_def)
  have free: "owner \<or> list_all (\<lambda>n. \<not> locked_role d (ad_role n)) dtos"
    using l unfolding roles by (auto simp: checkLockedRequested_Inr list_all_iff)
  have "owner \<or> list_all (\<lambda>a. as_user a \<noteq> u \<or> \<not> locked_role d (as_role a)) (assignments d)"
    using l o by (auto simp: checkLockedRequested_Inr checkOmitted_Inr list_all_iff)
  moreover have "getUserRoles d' u = Inr (map toAssignmentResponse (loadAssignments d' u), effectiveScopes (loadAssignments d' u))"
    by (rule getUserRoles_exists) (simp add: d' ex)
  moreover have "console_audits (replaced_db uuid u ns d) = console_audits d"
    by (simp add: replaced_db_def)
  ultimately show ?thesis
    using committed checkParties_Inr(1,2) [OF p] free d'
    by (auto simp: audit_record_def leaves_locked_roles_alone_def)
qed

subsection \<open>The scopes shown for a user\<close>

text \<open>How an entry of the scope map is to be read.\<close>

definition entry_scope :: "effective_scope option \<Rightarrow> permission_scope" where
  "entry_scope e =
     (case e of None \<Rightarrow> \<lparr>ps_global = False, ps_groups = {}\<rparr>
      | Some es \<Rightarrow> if es_type es = ''global'' then \<lparr>ps_global = True, ps_groups = {}\<rparr>
                   else \<lparr>ps_global = False, ps_groups = set (es_groups es)\<rparr>)"

lemma merge_scope_entry:
  "entry_scope (map_of (merge_scope a p m) c) =
     (if p = c \<and> isAssignablePermissionCode c
      then (if ps_global (entry_scope (map_of m c)) \<or> as_scope (la_row a) = ''global''
            then \<lparr>ps_global = True, ps_groups = {}\<rparr>
            else \<lparr>ps_global = False, ps_groups = ps_groups (entry_scope (map_of m c)) \<union> set (la_groups a)\<rparr>)
      else entry_scope (map_of m c))"
  by (auto simp: merge_scope_def entry_scope_def Let_def update_conv' split: option.splits)

lemma entry_scope_global: "ps_global (entry_scope e) \<Longrightarrow> entry_scope e = \<lparr>ps_global = True, ps_groups = {}\<rparr>"
  by (auto simp: entry_scope_def split: option.splits if_splits)

lemma merge_scopes_entry:
  "entry_scope (map_of (fold (\<lambda>q. merge_scope (fst q) (snd q)) qs m) c) =
     (if ps_global (entry_scope (map_of m c)) \<or>
         (\<exists>a. (a, c) \<in> set qs \<and> isAssignablePermissionCode c \<and> as_scope (la_row a) = ''global'')
      then \<lparr>ps_global = True, ps_groups = {}\<rparr>
      else \<lparr>ps_global = False, ps_groups = ps_groups (entry_scope (map_of m c)) \<union>
              {x. \<exists>a. (a, c) \<in> set qs \<and> isAssignablePermissionCode c \<and> x \<in> set (la_groups a)}\<rparr>)"
proof (induction qs arbitrary: m)
  case Nil
  then show ?case
    using entry_scope_global [of "map_of m c"] by (cases "entry_scope (map_of m c)") auto
next
  case (Cons q qs)
  obtain a p where q: "q = (a, p)" by (cases q)
  show ?case
    unfolding fold_Cons o_def Cons.IH
    by (auto simp: q merge_scope_entry entry_scope_global)
qed

definition loaded_of :: "db \<Rightarrow> string \<Rightarrow> role_assignment \<Rightarrow> loaded_assignment" where
  "loaded_of d g a =
     \<lparr>la_row = a,
      la_role = map_of (fold (\<lambda>r m. AList.update (role_guid r) r m)
        (filter (\<lambda>r. role_guid r \<in> as_role ` {a \<in> set (assignments d). as_user a = g}) (roles d)) []) (as_role a),
      la_permissions = (if as_scope a = ''device_group''
        then filter isDeviceGroupScopedPermission (effective_codes d (as_role a))
        else effective_codes d (as_role a)),
      la_groups = (if as_scope a = ''device_group''
        then sort (map ag_group (filter (\<lambda>x. ag_assignment x = as_guid a) (assignment_groups d))) else [])\<rparr>"

lemma loaded_of_simps [simp]:
  "la_row (loaded_of d g a) = a"
  "set (la_permissions (loaded_of d g a)) =
     {c \<in> set (effective_codes d (as_role a)). as_scope a = ''device_group'' \<longrightarrow> isDeviceGroupScopedPermission c}"
  "set (la_groups (loaded_of d g a)) =
     {ag_group x | x. x \<in> set (assignment_groups d) \<and> ag_assignment x = as_guid a \<and> as_scope a = ''device_group''}"
  by (auto simp: loaded_of_def)

lemma loadAssignments_eq:
  "loadAssignments d g = map (loaded_of d g) (filter (\<lambda>a. as_user a = g) (assignments d))"
proof -
  let ?as = "filter (\<lambda>a. as_user a = g) (assignments d)"
  have perms: "js_get (groupPermissions (filter (\<lambda>x. rp_role x \<in> set (js_unique (map as_role ?as)))
      (role_permissions d))) (as_role a) [] = effective_codes d (as_role a)" if "a \<in> set ?as" for a
  proof -
    have "filter (\<lambda>x. rp_role x = as_role a) (filter (\<lambda>x. rp_role x \<in> set (js_unique (map as_role ?as)))
        (role_permissions d)) = filter (\<lambda>x. rp_role x = as_role a) (role_permissions d)"
      using that by (auto simp: filter_filter intro!: filter_cong)
    then show ?thesis by (simp add: js_get_groupPermissions effective_codes_def role_codes_def)
  qed
  have groups: "js_get (group_rows ag_assignment ag_group (filter (\<lambda>x. ag_assignment x \<in> set (map as_guid ?as))
      (assignment_groups d))) (as_guid a) [] =
      map ag_group (filter (\<lambda>x. ag_assignment x = as_guid a) (assignment_groups d))" if "a \<in> set ?as" for a
  proof -
    have "filter (\<lambda>x. ag_assignment x = as_guid a) (filter (\<lambda>x. ag_assignment x \<in> set (map as_guid ?as))
        (assignment_groups d)) = filter (\<lambda>x. ag_assignment x = as_guid a) (assignment_groups d)"
      using that by (auto simp: filter_filter intro!: filter_cong)
    then show ?thesis by (simp add: js_get_group_rows)
  qed
  have rs: "set (js_unique (map as_role ?as)) = as_role ` {a \<in> set (assignments d). as_user a = g}"
    by auto
  show ?thesis
  proof (cases "?as = []")
    case True
    then show ?thesis by (simp add: loadAssignments_def)
  next
    case False
    then show ?thesis
      unfolding loadAssignments_def Let_def loaded_of_def
      by (simp only: if_False, intro map_cong refl) (simp only: perms [unfolded rs] groups rs)
  qed
qed

text \<open>
  What the console shows as the effective scope of a user is what the authorization
  enforces: code by code, the scope computed for display (merging assignment by assignment) is
  the scope the permission checks grant.
\<close>

theorem effectiveScopes_agree:
  "entry_scope (map_of (effectiveScopes (loadAssignments d g)) c) = held_scope d g c"
proof -
  let ?L = "loadAssignments d g"
  let ?qs = "concat (map (\<lambda>a. map (Pair a) (la_permissions a)) ?L)"
  have f: "effectiveScopes ?L = fold (\<lambda>q. merge_scope (fst q) (snd q)) ?qs []"
    unfolding effectiveScopes_def by (rule fold_nested)
  have m: "(\<exists>l. (l, c) \<in> set ?qs \<and> isAssignablePermissionCode c \<and> Q l) \<longleftrightarrow>
      (\<exists>a \<in> set (assignments d). as_user a = g \<and> c \<in> set (la_permissions (loaded_of d g a)) \<and>
         isAssignablePermissionCode c \<and> Q (loaded_of d g a))" for Q
    by (auto simp: loadAssignments_eq simp del: loaded_of_simps)
  have as: "c \<in> set (effective_codes d r) \<Longrightarrow> isAssignablePermissionCode c" for r
    by (simp add: effective_codes_def effective_assignable)
  have gl: "(\<exists>l. (l, c) \<in> set ?qs \<and> isAssignablePermissionCode c \<and> as_scope (la_row l) = ''global'') \<longleftrightarrow>
      held_globally d g c"
    unfolding m held_globally_def using as by auto
  have "(\<exists>l. (l, c) \<in> set ?qs \<and> isAssignablePermissionCode c \<and> x \<in> set (la_groups l)) \<longleftrightarrow>
      x \<in> held_in_groups d g c" for x
    unfolding m held_in_groups_def using as by auto
  then have gr: "{x. \<exists>l. (l, c) \<in> set ?qs \<and> isAssignablePermissionCode c \<and> x \<in> set (la_groups l)} =
      held_in_groups d g c" by simp
  show ?thesis
    unfolding f merge_scopes_entry gl gr by (simp add: entry_scope_def held_scope_def)
qed

end
