(* ===== verification/Async.thy ===== *)
theory Async
  imports Prelude "HOL-Library.Multiset"
begin

text \<open>
  Asynchronous code. A process is what an \<open>async\<close> function does between its \<open>await\<close>s: it
  changes the state of its service, then waits for an answer to a query (a database call, a
  timer, a turn of the event loop), and everything between two waits happens without
  interruption. Between them other processes of the service run.

  The theory holds the processes, their execution, and a rely-guarantee rule for the processes of
  one service that share its state. A process is a well-founded tree, so it has finitely many steps
  by construction: where the code loops, that the loop ends is shown where the process is defined.
\<close>

subsection \<open>Processes\<close>

datatype ('s, 'q, 'a, 'r) proc =
    Finished 'r
  | Eff "'s \<Rightarrow> 's \<times> ('s, 'q, 'a, 'r) proc"
  | Await 'q "'a \<Rightarrow> ('s, 'q, 'a, 'r) proc"

primrec run :: "('s, 'q, 'a, 'r) proc \<Rightarrow> 's \<Rightarrow> 's \<times> ('s, 'q, 'a, 'r) proc" where
  "run (Finished r) = (\<lambda>s. (s, Finished r))"
| "run (Eff f) = (\<lambda>s. let (s', g) = map_prod id run (f s) in g s')"
| "run (Await q k) = (\<lambda>s. (s, Await q k))"

lemma run_simps [simp]:
  "run (Finished r) s = (s, Finished r)"
  "run (Await q k) s = (s, Await q k)"
  "run (Eff f) s = run (snd (f s)) (fst (f s))"
  by (simp_all add: case_prod_beta)

declare run.simps [simp del]

text \<open>Resuming a waiting process with an answer, or starting a process.\<close>

definition continue :: "'a \<Rightarrow> ('s, 'q, 'a, 'r) proc \<Rightarrow> ('s, 'q, 'a, 'r) proc" where
  "continue a p = (case p of Await q k \<Rightarrow> k a | _ \<Rightarrow> p)"

lemma continue_simps [simp]:
  "continue a (Finished r) = Finished r"
  "continue a (Eff f) = Eff f"
  "continue a (Await q k) = k a"
  by (simp_all add: continue_def)

fun is_finished :: "('s, 'q, 'a, 'r) proc \<Rightarrow> bool" where
  "is_finished (Finished r) = True"
| "is_finished p = False"

fun is_eff :: "('s, 'q, 'a, 'r) proc \<Rightarrow> bool" where
  "is_eff (Eff f) = True"
| "is_eff p = False"

lemma run_not_eff: "\<not> is_eff (snd (run p s))"
proof (induction p arbitrary: s)
  case (Eff f)
  have "snd (f s) \<in> Basic_BNFs.snds (f s)" by (cases "f s") simp
  then show ?case using Eff by fastforce
qed simp_all

subsection \<open>Undisturbed executions\<close>

text \<open>A whole execution without interference: every query is answered by \<open>f\<close>.\<close>

primrec serve :: "('q \<Rightarrow> 'a) \<Rightarrow> ('s, 'q, 'a, 'r) proc \<Rightarrow> 's \<Rightarrow> 's \<times> 'r" where
  "serve f (Finished r) = (\<lambda>s. (s, r))"
| "serve f (Eff g) = (\<lambda>s. let (s', p) = map_prod id (serve f) (g s) in p s')"
| "serve f (Await q k) = (\<lambda>s. serve f (k (f q)) s)"

lemma serve_simps [simp]:
  "serve f (Finished r) s = (s, r)"
  "serve f (Eff g) s = serve f (snd (g s)) (fst (g s))"
  "serve f (Await q k) s = serve f (k (f q)) s"
  by (simp_all add: case_prod_beta)

declare serve.simps [simp del]

subsection \<open>Processes with a role\<close>

text \<open>
  A process that keeps \<open>I\<close> at all its waits and its end, changes the state from wait to wait only
  by \<open>G\<close>, and relies on the others to change it only by \<open>E\<close> and on the answers to satisfy \<open>A\<close>.
  At its end \<open>Q\<close> holds. Since \<open>I\<close> holds at every wait it holds if the process is killed there.
\<close>

inductive obeys ::
  "('s \<Rightarrow> bool) \<Rightarrow> ('s \<Rightarrow> 's \<Rightarrow> bool) \<Rightarrow> ('s \<Rightarrow> 's \<Rightarrow> bool) \<Rightarrow> ('q \<Rightarrow> 'a \<Rightarrow> 's \<Rightarrow> bool) \<Rightarrow> ('s \<Rightarrow> bool) \<Rightarrow>
   's \<Rightarrow> ('s, 'q, 'a, 'r) proc \<Rightarrow> 's \<Rightarrow> bool"
  for I G E A Q where
  obeys_Finished: "I s \<Longrightarrow> G s0 s \<Longrightarrow> Q s \<Longrightarrow> obeys I G E A Q s0 (Finished r) s"
| obeys_Eff: "obeys I G E A Q s0 (snd (f s)) (fst (f s)) \<Longrightarrow> obeys I G E A Q s0 (Eff f) s"
| obeys_Await: "I s \<Longrightarrow> G s0 s \<Longrightarrow>
    (\<And>a s'. I s' \<Longrightarrow> E s s' \<Longrightarrow> A q a s' \<Longrightarrow> obeys I G E A Q s' (k a) s') \<Longrightarrow>
    obeys I G E A Q s0 (Await q k) s"

inductive_cases obeys_FinishedE: "obeys I G E A Q s0 (Finished r) s"
inductive_cases obeys_AwaitE: "obeys I G E A Q s0 (Await q k) s"

lemma obeys_run: "obeys I G E A Q s0 p s \<Longrightarrow> obeys I G E A Q s0 (snd (run p s)) (fst (run p s))"
  by (induction rule: obeys.induct) (auto intro: obeys.intros)

text \<open>The query a process waits for, and the processes that may go on from a state.\<close>

fun answer_ok :: "('q \<Rightarrow> 'a \<Rightarrow> 's \<Rightarrow> bool) \<Rightarrow> ('s, 'q, 'a, 'r) proc \<Rightarrow> 'a \<Rightarrow> 's \<Rightarrow> bool" where
  "answer_ok A (Await q k) a s = A q a s"
| "answer_ok A p a s = True"

definition in_role ::
  "('s \<Rightarrow> bool) \<Rightarrow> ('s \<Rightarrow> 's \<Rightarrow> bool) \<Rightarrow> ('s \<Rightarrow> 's \<Rightarrow> bool) \<Rightarrow> ('q \<Rightarrow> 'a \<Rightarrow> 's \<Rightarrow> bool) \<Rightarrow> ('s \<Rightarrow> bool) \<Rightarrow>
   's \<Rightarrow> ('s, 'q, 'a, 'r) proc \<Rightarrow> bool" where
  "in_role I G E A Q s p \<longleftrightarrow>
     \<not> is_eff p \<and> (is_finished p \<longrightarrow> Q s) \<and>
     (\<not> is_finished p \<longrightarrow>
        (\<forall>a s'. I s' \<longrightarrow> E s s' \<longrightarrow> answer_ok A p a s' \<longrightarrow> obeys I G E A Q s' (continue a p) s'))"

locale process_role =
  fixes I :: "'s \<Rightarrow> bool"
    and G E :: "'s \<Rightarrow> 's \<Rightarrow> bool"
    and A :: "'q \<Rightarrow> 'a \<Rightarrow> 's \<Rightarrow> bool"
    and Q :: "'s \<Rightarrow> bool"
  assumes env_refl: "E s s"
    and env_trans: "E s t \<Longrightarrow> E t u \<Longrightarrow> E s u"
    and post_stable: "Q s \<Longrightarrow> E s t \<Longrightarrow> Q t"
begin

lemma in_role_env: "in_role I G E A Q s p \<Longrightarrow> E s t \<Longrightarrow> in_role I G E A Q t p"
  using env_trans post_stable unfolding in_role_def by blast

lemma in_role_run:
  assumes "obeys I G E A Q s0 p s" "run p s = (t, p')"
  shows "I t \<and> G s0 t \<and> in_role I G E A Q t p'"
proof -
  have o: "obeys I G E A Q s0 p' t" using obeys_run [OF assms(1)] assms(2) by simp
  have e: "\<not> is_eff p'" using run_not_eff [of p s] assms(2) by simp
  show ?thesis
  proof (cases p')
    case (Finished r)
    with o show ?thesis by (auto simp: in_role_def elim: obeys_FinishedE)
  next
    case (Await q k)
    with o show ?thesis by (auto simp: in_role_def elim!: obeys_AwaitE)
  qed (use e in simp)
qed

lemma in_role_resume:
  assumes "in_role I G E A Q s p" "I s" "\<not> is_finished p" "answer_ok A p a s" "run (continue a p) s = (t, p')"
  shows "I t \<and> G s t \<and> in_role I G E A Q t p'"
proof -
  have "obeys I G E A Q s (continue a p) s"
    using assms(1-4) env_refl unfolding in_role_def by blast
  then show ?thesis using assms(5) by (rule in_role_run)
qed

end

subsection \<open>Keeping an invariant\<close>

text \<open>
  A process all of whose steps keep \<open>I\<close>, whatever happens to the state while it waits. What a
  process has read it knows of the values only, so this is a property of the program alone.
\<close>

inductive preserves :: "('s \<Rightarrow> bool) \<Rightarrow> ('s, 'q, 'a, 'r) proc \<Rightarrow> bool" for I where
  preserves_Finished: "preserves I (Finished r)"
| preserves_Eff: "(\<And>s. I s \<Longrightarrow> I (fst (f s)) \<and> preserves I (snd (f s))) \<Longrightarrow> preserves I (Eff f)"
| preserves_Await: "(\<And>a. preserves I (k a)) \<Longrightarrow> preserves I (Await q k)"

inductive_cases preserves_EffE: "preserves I (Eff f)"
inductive_cases preserves_AwaitE: "preserves I (Await q k)"

lemma preserves_run: "preserves I p \<Longrightarrow> I s \<Longrightarrow> I (fst (run p s)) \<and> preserves I (snd (run p s))"
  by (induction p arbitrary: s rule: preserves.induct) (auto intro: preserves.intros)

lemma preserves_continue: "preserves I p \<Longrightarrow> preserves I (continue a p)"
  by (cases p) (auto intro: preserves_Finished elim: preserves_AwaitE)

lemma preserves_serve: "preserves I p \<Longrightarrow> I s \<Longrightarrow> I (fst (serve f p s))"
  by (induction p arbitrary: s rule: preserves.induct) auto

subsection \<open>Rely and guarantee\<close>

text \<open>
  A process keeps an invariant \<open>I\<close> of the shared state at its waits and changes the state
  only as \<open>R\<close> allows, which is also all it relies on while it waits. It owns a part of the
  tokens \<open>T\<close> of the state that nobody else takes (a reservation, a drawn random value); what it
  still owns at its end has to satisfy \<open>L\<close>. In \<open>guards I R T L s0 b p s\<close>, \<open>s0\<close> is the state
  at the last wait, \<open>s\<close> the current one, and \<open>b\<close> the tokens of the others.
\<close>

inductive guards ::
  "('s \<Rightarrow> bool) \<Rightarrow> ('s \<Rightarrow> 's \<Rightarrow> bool) \<Rightarrow> ('s \<Rightarrow> 't multiset) \<Rightarrow> ('t multiset \<Rightarrow> bool) \<Rightarrow>
   's \<Rightarrow> 't multiset \<Rightarrow> ('s, 'q, 'a, 'r) proc \<Rightarrow> 's \<Rightarrow> bool"
  for I R T L where
  guards_Finished: "I s \<Longrightarrow> R s0 s \<Longrightarrow> T s = b + h \<Longrightarrow> L h \<Longrightarrow> guards I R T L s0 b (Finished r) s"
| guards_Eff: "guards I R T L s0 b (snd (f s)) (fst (f s)) \<Longrightarrow> guards I R T L s0 b (Eff f) s"
| guards_Await: "I s \<Longrightarrow> R s0 s \<Longrightarrow> T s = b + h \<Longrightarrow>
    (\<And>a s' b'. I s' \<Longrightarrow> R s s' \<Longrightarrow> T s' = b' + h \<Longrightarrow> guards I R T L s' b' (k a) s') \<Longrightarrow>
    guards I R T L s0 b (Await q k) s"

inductive_cases guards_FinishedE: "guards I R T L s0 b (Finished r) s"
inductive_cases guards_EffE: "guards I R T L s0 b (Eff f) s"
inductive_cases guards_AwaitE: "guards I R T L s0 b (Await q k) s"

lemma guards_run: "guards I R T L s0 b p s \<Longrightarrow> guards I R T L s0 b (snd (run p s)) (fst (run p s))"
  by (induction rule: guards.induct) (auto intro: guards.intros)

text \<open>A waiting or finished process that owns the tokens \<open>h\<close>, as seen from the state \<open>s\<close>.\<close>

definition sound ::
  "('s \<Rightarrow> bool) \<Rightarrow> ('s \<Rightarrow> 's \<Rightarrow> bool) \<Rightarrow> ('s \<Rightarrow> 't multiset) \<Rightarrow> ('t multiset \<Rightarrow> bool) \<Rightarrow>
   's \<Rightarrow> 't multiset \<Rightarrow> ('s, 'q, 'a, 'r) proc \<Rightarrow> bool" where
  "sound I R T L s h p \<longleftrightarrow>
     (is_finished p \<longrightarrow> L h) \<and>
     (\<forall>a s' b. I s' \<longrightarrow> R s s' \<longrightarrow> T s' = b + h \<longrightarrow> guards I R T L s' b (continue a p) s')"

text \<open>All processes of a service, each with the tokens it owns.\<close>

definition pool_ok ::
  "('s \<Rightarrow> bool) \<Rightarrow> ('s \<Rightarrow> 's \<Rightarrow> bool) \<Rightarrow> ('s \<Rightarrow> 't multiset) \<Rightarrow> ('t multiset \<Rightarrow> bool) \<Rightarrow>
   's \<Rightarrow> ('s, 'q, 'a, 'r) proc list \<Rightarrow> bool" where
  "pool_ok I R T L s ps \<longleftrightarrow>
     I s \<and> (\<exists>hs. T s = sum_list hs \<and> list_all2 (sound I R T L s) hs ps)"

text \<open>
  A continuation that may be entered at any later point of the process: from the state \<open>s\<close> on,
  still owning the tokens \<open>h\<close>.
\<close>

definition continues ::
  "('s \<Rightarrow> bool) \<Rightarrow> ('s \<Rightarrow> 's \<Rightarrow> bool) \<Rightarrow> ('s \<Rightarrow> 't multiset) \<Rightarrow> ('t multiset \<Rightarrow> bool) \<Rightarrow>
   's \<Rightarrow> 't multiset \<Rightarrow> ('x \<Rightarrow> ('s, 'q, 'a, 'r) proc) \<Rightarrow> bool" where
  "continues I R T L s h k \<longleftrightarrow>
     (\<forall>x s0 b s'. I s' \<longrightarrow> R s0 s' \<longrightarrow> R s s' \<longrightarrow> T s' = b + h \<longrightarrow> guards I R T L s0 b (k x) s')"

lemma continuesI [intro?]:
  "(\<And>x s0 b s'. I s' \<Longrightarrow> R s0 s' \<Longrightarrow> R s s' \<Longrightarrow> T s' = b + h \<Longrightarrow> guards I R T L s0 b (k x) s') \<Longrightarrow>
   continues I R T L s h k"
  by (simp add: continues_def)

lemma continuesD:
  "continues I R T L s h k \<Longrightarrow> I s' \<Longrightarrow> R s0 s' \<Longrightarrow> R s s' \<Longrightarrow> T s' = b + h \<Longrightarrow>
   guards I R T L s0 b (k x) s'"
  by (simp add: continues_def)

locale rely_guarantee =
  fixes I :: "'s \<Rightarrow> bool"
    and R :: "'s \<Rightarrow> 's \<Rightarrow> bool"
    and T :: "'s \<Rightarrow> 't multiset"
    and L :: "'t multiset \<Rightarrow> bool"
  assumes rely_refl: "R s s"
    and rely_trans: "R s t \<Longrightarrow> R t u \<Longrightarrow> R s u"
begin

lemma sound_stable: "sound I R T L s h p \<Longrightarrow> R s t \<Longrightarrow> sound I R T L t h p"
  using rely_trans unfolding sound_def by blast

lemma sound_list_stable:
  "list_all2 (sound I R T L s) hs ps \<Longrightarrow> R s t \<Longrightarrow> list_all2 (sound I R T L t) hs ps"
  by (erule list_all2_mono) (erule sound_stable)

lemma continues_later: "continues I R T L s h k \<Longrightarrow> R s t \<Longrightarrow> continues I R T L t h k"
  unfolding continues_def using rely_trans by blast

text \<open>A wait before the continuation, and a single wait.\<close>

lemma continues_wait:
  assumes "continues I R T L s h k"
  shows "continues I R T L s h (\<lambda>x. Await q (\<lambda>a. k x))"
proof
  fix x s0 b s'
  assume *: "I s'" "R s0 s'" "R s s'" "T s' = b + h"
  show "guards I R T L s0 b (Await q (\<lambda>a. k x)) s'"
    using *(1,2,4)
  proof (rule guards_Await)
    fix a t b'
    assume "I t" "R s' t" "T t = b' + h"
    then show "guards I R T L t b' (k x) t"
      by (intro continuesD [OF assms] rely_refl) (use *(3) rely_trans in blast)+
  qed
qed

lemma guards_wait:
  assumes "I s" "R s0 s" "T s = b + h" "continues I R T L s h k"
  shows "guards I R T L s0 b (Await q k) s"
  using assms(1-3)
proof (rule guards_Await)
  fix a t b'
  assume "I t" "R s t" "T t = b' + h"
  then show "guards I R T L t b' (k a) t" by (intro continuesD [OF assms(4)] rely_refl)
qed

lemma sound_new:
  assumes "\<not> is_finished p" "\<And>a. continues I R T L s h (\<lambda>u :: unit. continue a p)"
  shows "sound I R T L s h p"
  unfolding sound_def
proof (intro conjI allI impI)
  fix a s' b
  assume "I s'" "R s s'" "T s' = b + h"
  then show "guards I R T L s' b (continue a p) s'"
    using continuesD [OF assms(2)] rely_refl by blast
qed (use assms(1) in simp)

lemma sound_after_run:
  assumes "guards I R T L s0 b p s" "run p s = (s', p')"
  shows "I s' \<and> R s0 s' \<and> (\<exists>h. T s' = b + h \<and> sound I R T L s' h p')"
proof -
  have g: "guards I R T L s0 b p' s'" using guards_run [OF assms(1)] assms(2) by simp
  have "\<not> is_eff p'" using run_not_eff [of p s] assms(2) by simp
  show ?thesis
  proof (cases p')
    case (Finished r)
    with g obtain h where "I s'" "R s0 s'" "T s' = b + h" "L h" by (auto elim: guards_FinishedE)
    then show ?thesis using Finished rely_refl
      by (auto simp: sound_def intro: guards_Finished)
  next
    case (Await q k)
    with g show ?thesis by (auto simp: sound_def elim!: guards_AwaitE)
  qed (use \<open>\<not> is_eff p'\<close> in simp)
qed

lemma pool_step:
  assumes "pool_ok I R T L s (ps @ p # qs)" "run (continue a p) s = (s', p')"
  shows "pool_ok I R T L s' (ps @ p' # qs) \<and> R s s'"
proof -
  from assms(1) obtain hs where I: "I s" and T: "T s = sum_list hs"
    and hs: "list_all2 (sound I R T L s) hs (ps @ p # qs)"
    by (auto simp: pool_ok_def)
  from hs obtain us h vs where l: "hs = us @ h # vs"
    and us: "list_all2 (sound I R T L s) us ps" and h: "sound I R T L s h p"
    and vs: "list_all2 (sound I R T L s) vs qs"
    by (auto simp: list_all2_append2 list_all2_Cons2)
  let ?b = "sum_list us + sum_list vs"
  have "T s = ?b + h" using T l by (simp add: add.assoc add.left_commute add.commute)
  then have "guards I R T L s ?b (continue a p) s"
    using h I rely_refl unfolding sound_def by blast
  from sound_after_run [OF this assms(2)]
  obtain h' where s': "I s'" "R s s'" "T s' = ?b + h'" "sound I R T L s' h' p'" by blast
  have "list_all2 (sound I R T L s') (us @ h' # vs) (ps @ p' # qs)"
    using sound_list_stable [OF us s'(2)] sound_list_stable [OF vs s'(2)] s'(4)
    by (simp add: list_all2_append list_all2_lengthD)
  moreover have "T s' = sum_list (us @ h' # vs)"
    using s'(3) by (simp add: add.assoc add.commute add.left_commute)
  ultimately show ?thesis using s'(1,2) unfolding pool_ok_def by blast
qed

lemma pool_env:
  "pool_ok I R T L s ps \<Longrightarrow> I s' \<Longrightarrow> R s s' \<Longrightarrow> T s' = T s \<Longrightarrow> pool_ok I R T L s' ps"
  unfolding pool_ok_def using sound_list_stable by metis

lemma pool_add:
  assumes "pool_ok I R T L s ps" "I s'" "R s s'" "T s' = T s + h" "sound I R T L s' h p"
  shows "pool_ok I R T L s' (ps @ [p])"
proof -
  from assms(1) obtain hs where "T s = sum_list hs" "list_all2 (sound I R T L s) hs ps"
    by (auto simp: pool_ok_def)
  note hs = this
  have "T s' = sum_list (hs @ [h])" using hs(1) assms(4) by simp
  moreover have "list_all2 (sound I R T L s') (hs @ [h]) (ps @ [p])"
    using sound_list_stable [OF hs(2) assms(3)] assms(5) by (intro list_all2_appendI) simp_all
  ultimately show ?thesis using assms(2) unfolding pool_ok_def by blast
qed

text \<open>Once all processes are finished, only tokens they may leave behind are taken.\<close>

lemma pool_finished:
  assumes "pool_ok I R T L s ps" "list_all is_finished ps" "L {#}"
    and "\<And>h h'. L h \<Longrightarrow> L h' \<Longrightarrow> L (h + h')"
  shows "L (T s)"
proof -
  from assms(1) obtain hs where T: "T s = sum_list hs" and hs: "list_all2 (sound I R T L s) hs ps"
    by (auto simp: pool_ok_def)
  from hs assms(2) have "\<forall>h\<in>set hs. L h"
    by (induction rule: list_all2_induct) (auto simp: sound_def)
  then have "L (sum_list hs)" using assms(3,4) by (induction hs) auto
  with T show ?thesis by simp
qed

end

end
