(* ===== verification/Web_Protocol.thy ===== *)
theory Web_Protocol
  imports Prelude "HOL-Library.Word"
begin

text \<open>
  The handshake parser of the web client gateway
  (\<open>src/modules/web-client/web-client-protocol.ts\<close>): canonical variable-length
  integers, messages with known and non-repeated fields only, strict UTF-8, and the three
  messages the gateway lets pass. The read cursor is the list of the bytes not yet read; a
  thrown error is \<open>None\<close>. Strings are lists of code points.
\<close>

unbundle bit_operations_syntax

type_synonym bytes = "8 word list"
type_synonym code_points = "nat list"

subsection \<open>Canonical varints\<close>

definition MAX_HANDSHAKE_BYTES :: nat where
  "MAX_HANDSHAKE_BYTES = 16 * 1024"

text \<open>The loop of \<open>readVarint\<close> at index \<open>i\<close> with the value read so far.\<close>

function varint_from :: "nat \<Rightarrow> nat \<Rightarrow> bytes \<Rightarrow> (nat \<times> bytes) option" where
  "varint_from i value bs =
     (if i \<ge> 5 then None
      else case bs of
             [] \<Rightarrow> None
           | b # rest \<Rightarrow>
               if i = 4 \<and> b > 15 then None
               else
                 let value' = value + unat (b AND 127) * 2 ^ (7 * i)
                 in if b AND 128 = 0
                    then (if i \<noteq> 0 \<and> b = 0 then None else Some (value', rest))
                    else varint_from (Suc i) value' rest)"
  by pat_completeness auto
termination by (relation "measure (\<lambda>(i, _, _). 5 - i)") auto

declare varint_from.simps [simp del]

definition readVarint :: "bytes \<Rightarrow> (nat \<times> bytes) option" where
  "readVarint bs = varint_from 0 0 bs"

text \<open>The canonical encoding, for the specification.\<close>

fun encode_varint :: "nat \<Rightarrow> bytes" where
  "encode_varint n =
     (if n < 128 then [of_nat n] else of_nat (n mod 128 + 128) # encode_varint (n div 128))"

declare encode_varint.simps [simp del]

lemma low_bits: "unat ((b :: 8 word) AND 127) = unat b mod 128"
proof -
  have "(127 :: 8 word) = mask 7" by (simp add: mask_eq_exp_minus_1)
  then have "b AND 127 = take_bit 7 b" by (simp add: take_bit_eq_mask)
  then show ?thesis by (simp add: unsigned_take_bit_eq take_bit_eq_mod unat_mod)
qed

lemma high_bit: "(b :: 8 word) AND 128 = 0 \<longleftrightarrow> unat b < 128"
proof -
  have "(128 :: 8 word) = 2 ^ 7" by simp
  then have "b AND 128 = 0 \<longleftrightarrow> \<not> bit b 7" by (metis and_exp_eq_0_iff_not_bit)
  also have "bit b 7 \<longleftrightarrow> odd (unat b div 128)"
  proof -
    have "bit b 7 \<longleftrightarrow> bit (unat b) 7" by (simp add: bit_unsigned_iff)
    then show ?thesis by (simp add: bit_iff_odd)
  qed
  also have "odd (unat b div 128) \<longleftrightarrow> \<not> unat b < 128"
  proof -
    have "unat b < 256" using unsigned_less [of b] by simp
    then have "unat b div 128 = (if unat b < 128 then 0 else 1)" by (simp add: div_eq_dividend_iff) linarith
    then show ?thesis by simp
  qed
  finally show ?thesis by simp
qed

lemma byte_of_nat: "k < 256 \<Longrightarrow> b = (of_nat k :: 8 word) \<longleftrightarrow> unat b = k"
proof -
  assume "k < 256"
  then have "unat (of_nat k :: 8 word) = k" by (simp add: unat_of_nat)
  then show "b = (of_nat k :: 8 word) \<longleftrightarrow> unat b = k" by (simp add: word_unat_eq_iff)
qed

lemma encode_varint_Nil [simp]: "encode_varint n \<noteq> []"
  by (simp add: encode_varint.simps [of n])

lemma encode_varint_Cons:
  "b # bs = encode_varint m @ rest \<longleftrightarrow>
     (if m < 128 then unat b = m \<and> bs = rest
      else unat b = m mod 128 + 128 \<and> bs = encode_varint (m div 128) @ rest)"
proof -
  have "m mod 128 < 128" by simp
  then have "m mod 128 + 128 < 256" by linarith
  then show ?thesis
    using byte_of_nat [of "m mod 128 + 128" b] byte_of_nat [of m b]
    by (simp add: encode_varint.simps [of m] del: of_nat_add)
qed

lemma varint_from_iff:
  "i < 5 \<Longrightarrow> varint_from i v bs = Some (n, rest) \<longleftrightarrow>
     (\<exists>m. n = v + m * 2 ^ (7 * i) \<and> m < 2 ^ (32 - 7 * i) \<and> (i = 0 \<or> m \<noteq> 0) \<and> bs = encode_varint m @ rest)"
proof (induction i v bs rule: varint_from.induct)
  case (1 i v bs)
  show ?case
  proof (cases bs)
    case Nil
    then show ?thesis by (simp add: varint_from.simps [of i])
  next
    case (Cons b bs')
    have b0: "b = 0 \<longleftrightarrow> unat b = 0" by (simp add: unat_eq_0)
    have b15: "b > 15 \<longleftrightarrow> unat b > 15" by (simp add: word_less_nat_alt)
    show ?thesis
    proof (cases "unat b < 128")
      case True
      have "varint_from i v bs = Some (n, rest) \<longleftrightarrow>
          \<not> (i = 4 \<and> unat b > 15) \<and> \<not> (i \<noteq> 0 \<and> unat b = 0) \<and> n = v + unat b * 2 ^ (7 * i) \<and> bs' = rest"
        using True 1(2) by (auto simp: varint_from.simps [of i] Cons high_bit low_bits b0 b15)
      moreover have "unat b < 2 ^ (32 - 7 * i) \<longleftrightarrow> \<not> (i = 4 \<and> unat b > 15)"
      proof (cases "i = 4")
        case False
        then have "(2::nat) ^ 11 \<le> 2 ^ (32 - 7 * i)" using 1(2) by (intro power_increasing) auto
        with True False show ?thesis by auto
      qed auto
      ultimately show ?thesis
        using True by (auto simp: Cons encode_varint_Cons)
    next
      case False
      have ub: "unat b = unat b mod 128 + 128"
      proof -
        have "unat b < 256" using unsigned_less [of b] by simp
        with False show ?thesis by (simp add: le_mod_geq)
      qed
      show ?thesis
      proof (cases "i = 4")
        case True
        then show ?thesis
          using False by (auto simp: varint_from.simps [of 4] Cons b15 encode_varint_Cons)
      next
        case i: False
        let ?v = "v + unat b mod 128 * 2 ^ (7 * i)"
        have "varint_from i v bs = Some (n, rest) \<longleftrightarrow> varint_from (Suc i) ?v bs' = Some (n, rest)"
          using False i 1(2) by (simp add: varint_from.simps [of i] Cons high_bit low_bits)
        also have "\<dots> \<longleftrightarrow> (\<exists>m. n = ?v + m * 2 ^ (7 * Suc i) \<and> m < 2 ^ (32 - 7 * Suc i) \<and> m \<noteq> 0 \<and>
            bs' = encode_varint m @ rest)"
        proof -
          have "Suc i < 5" using i 1(2) by simp
          then show ?thesis
            using 1(1) [of b bs' ?v] i 1(2) False by (simp add: Cons high_bit low_bits)
        qed
        also have "\<dots> \<longleftrightarrow> (\<exists>k. n = v + k * 2 ^ (7 * i) \<and> k < 2 ^ (32 - 7 * i) \<and> (i = 0 \<or> k \<noteq> 0) \<and>
            b # bs' = encode_varint k @ rest)"
        proof
          assume "\<exists>m. n = ?v + m * 2 ^ (7 * Suc i) \<and> m < 2 ^ (32 - 7 * Suc i) \<and> m \<noteq> 0 \<and>
            bs' = encode_varint m @ rest"
          then obtain m where m: "n = ?v + m * 2 ^ (7 * Suc i)" "m < 2 ^ (32 - 7 * Suc i)" "m \<noteq> 0"
            "bs' = encode_varint m @ rest" by blast
          let ?k = "unat b mod 128 + 128 * m"
          have "?k < 128 * 2 ^ (32 - 7 * Suc i)"
          proof -
            have "unat b mod 128 < 128" by simp
            moreover have "128 * m + 128 \<le> 128 * 2 ^ (32 - 7 * Suc i)" using m(2) by simp
            ultimately show ?thesis by linarith
          qed
          also have "(128::nat) * 2 ^ (32 - 7 * Suc i) = 2 ^ (32 - 7 * i)"
          proof -
            have "32 - 7 * i = 7 + (32 - 7 * Suc i)" using i 1(2) by simp
            then show ?thesis by (simp only: power_add) simp
          qed
          finally have "?k < 2 ^ (32 - 7 * i)" .
          moreover have "n = v + ?k * 2 ^ (7 * i)"
            using m(1) by (simp add: algebra_simps power_add)
          moreover have "b # bs' = encode_varint ?k @ rest"
            using m(3,4) ub by (simp add: encode_varint_Cons)
          moreover have "?k \<noteq> 0" using m(3) by simp
          ultimately show "\<exists>k. n = v + k * 2 ^ (7 * i) \<and> k < 2 ^ (32 - 7 * i) \<and> (i = 0 \<or> k \<noteq> 0) \<and>
            b # bs' = encode_varint k @ rest" by blast
        next
          assume "\<exists>k. n = v + k * 2 ^ (7 * i) \<and> k < 2 ^ (32 - 7 * i) \<and> (i = 0 \<or> k \<noteq> 0) \<and>
            b # bs' = encode_varint k @ rest"
          then obtain k where k: "n = v + k * 2 ^ (7 * i)" "k < 2 ^ (32 - 7 * i)"
            "b # bs' = encode_varint k @ rest" by blast
          then have k': "k \<ge> 128" "unat b = k mod 128 + 128" "bs' = encode_varint (k div 128) @ rest"
            using False by (auto simp: encode_varint_Cons split: if_splits)
          have m: "unat b mod 128 = k mod 128" using k'(2) by simp
          have s: "k mod 128 + 128 * (k div 128) = k" by simp
          have "32 - 7 * i = 7 + (32 - 7 * Suc i)" using i 1(2) by simp
          then have "(2::nat) ^ (32 - 7 * i) = 128 * 2 ^ (32 - 7 * Suc i)" by (simp only: power_add) simp
          with k(2) have "k div 128 < 2 ^ (32 - 7 * Suc i)" by (simp add: div_less_iff_less_mult)
          moreover have "n = ?v + k div 128 * 2 ^ (7 * Suc i)"
          proof -
            have "?v + k div 128 * 2 ^ (7 * Suc i) = v + (k mod 128 + 128 * (k div 128)) * 2 ^ (7 * i)"
            proof -
              have "v + r * P + q * (128 * P) = v + (r + 128 * q) * P" for r q P :: nat
                by (simp add: algebra_simps)
              moreover have "(2::nat) ^ (7 * Suc i) = 128 * 2 ^ (7 * i)" by (simp add: power_add)
              ultimately show ?thesis by (simp only: m)
            qed
            then show ?thesis using k(1) by (simp only: s)
          qed
          moreover have "k div 128 \<noteq> 0" using k'(1) by (simp add: div_eq_0_iff)
          ultimately show "\<exists>m. n = ?v + m * 2 ^ (7 * Suc i) \<and> m < 2 ^ (32 - 7 * Suc i) \<and> m \<noteq> 0 \<and>
            bs' = encode_varint m @ rest" using k'(3) by blast
        qed
        finally show ?thesis by (simp only: Cons)
      qed
    qed
  qed
qed

lemma readVarint_canonical:
  "readVarint bs = Some (n, rest) \<longleftrightarrow> n < 2 ^ 32 \<and> bs = encode_varint n @ rest"
  using varint_from_iff [of 0 0 bs n rest] by (simp add: readVarint_def)

subsection \<open>Readers of self-delimiting codes\<close>

text \<open>
  What the parsers rely on: a reader that takes one code word off the front accepts exactly the
  code words, so a code word is never a prefix of another and sequences of them are read in one
  way only. The varint reader and the UTF-8 decoder are instances.
\<close>

locale code_reader =
  fixes read :: "'b list \<Rightarrow> ('a \<times> 'b list) option"
    and enc :: "'a \<Rightarrow> 'b list"
    and valid :: "'a \<Rightarrow> bool"
  assumes read_iff: "read bs = Some (x, rest) \<longleftrightarrow> valid x \<and> bs = enc x @ rest"
    and enc_nonempty: "enc x \<noteq> []"
begin

lemma read_enc: "valid x \<Longrightarrow> read (enc x @ rest) = Some (x, rest)"
  by (simp add: read_iff)

lemma prefix_free:
  assumes "enc x @ r = enc y @ s" "valid x" "valid y"
  shows "x = y \<and> r = s"
proof -
  have "read (enc x @ r) = Some (x, r)" using assms(2) by (rule read_enc)
  moreover have "read (enc x @ r) = Some (y, s)" unfolding assms(1) using assms(3) by (rule read_enc)
  ultimately show ?thesis by (metis Pair_inject option.inject)
qed

lemma unique_decoding: "inj_on (\<lambda>xs. concat (map enc xs)) {xs. list_all valid xs}"
proof (rule inj_onI)
  fix xs ys
  assume "xs \<in> {xs. list_all valid xs}" "ys \<in> {xs. list_all valid xs}"
    and "concat (map enc xs) = concat (map enc ys)"
  then show "xs = ys"
  proof (induction xs arbitrary: ys)
    case Nil
    then show ?case by (cases ys) (auto simp: enc_nonempty)
  next
    case (Cons x xs)
    obtain y ys' where y: "ys = y # ys'"
      using Cons.prems(3) enc_nonempty [of x] by (cases ys) simp_all
    have v: "valid x" "valid y" "list_all valid xs" "list_all valid ys'"
      using Cons.prems(1,2) y by simp_all
    have "enc x @ concat (map enc xs) = enc y @ concat (map enc ys')" using Cons.prems(3) y by simp
    from prefix_free [OF this v(1,2)] have e: "x = y" "concat (map enc xs) = concat (map enc ys')"
      by auto
    have "xs \<in> {xs. list_all valid xs}" "ys' \<in> {xs. list_all valid xs}" using v by simp_all
    from Cons.IH [OF this e(2)] have "xs = ys'" .
    with e y show ?case by simp
  qed
qed

lemma progress: "read bs = Some (x, rest) \<Longrightarrow> length rest < length bs"
  using enc_nonempty [of x] by (auto simp: read_iff)

end

interpretation varint: code_reader readVarint encode_varint "\<lambda>n. n < 2 ^ 32"
  by unfold_locales (simp_all add: readVarint_canonical)

text \<open>
  The varint reader accepts exactly the canonical encodings of the numbers below 2^32 and
  reads them back: reading is the inverse of encoding, overlong or oversized encodings are
  refused, what follows the number is left untouched, and a sequence of numbers can be read in
  one way only.
\<close>

theorem readVarint_iff:
  "(readVarint bs = Some (n, rest)) = (n < 2 ^ 32 \<and> bs = encode_varint n @ rest) \<and>
   inj_on (\<lambda>ns. concat (map encode_varint ns)) {ns. list_all (\<lambda>n. n < 2 ^ 32) ns}"
  by (intro conjI readVarint_canonical varint.unique_decoding)

subsection \<open>Fields\<close>

datatype wire_value = WNum nat | WBytes bytes

record field_type =
  fd_wire :: nat
  fd_max :: "nat option"

type_synonym schema = "(nat \<times> field_type) list"
type_synonym wire_fields = "(nat \<times> wire_value) list"

lemma readVarint_shorter: "readVarint bs = Some (n, rest) \<Longrightarrow> length rest < length bs"
  by (rule varint.progress)

text \<open>The body of the loop, for the bytes that are left and the fields read before.\<close>

definition read_field :: "schema \<Rightarrow> wire_fields \<Rightarrow> bytes \<Rightarrow> (nat \<times> wire_value \<times> bytes) option" where
  "read_field schema vals bs =
     (case readVarint bs of
        None \<Rightarrow> None
      | Some (tag, bs1) \<Rightarrow>
          let field = tag div 8
          in case map_of schema field of
               None \<Rightarrow> None
             | Some def \<Rightarrow>
                 if tag mod 8 \<noteq> fd_wire def \<or> map_of vals field \<noteq> None then None
                 else if fd_wire def = 0
                 then (case readVarint bs1 of
                         None \<Rightarrow> None
                       | Some (value, bs2) \<Rightarrow>
                           if (case fd_max def of None \<Rightarrow> False | Some m \<Rightarrow> value > m) then None
                           else Some (field, WNum value, bs2))
                 else (case readVarint bs1 of
                         None \<Rightarrow> None
                       | Some (len, bs2) \<Rightarrow>
                           if len > (case fd_max def of None \<Rightarrow> MAX_HANDSHAKE_BYTES | Some m \<Rightarrow> m) \<or>
                              len > length bs2
                           then None
                           else Some (field, WBytes (take len bs2), drop len bs2)))"

lemma read_field_shorter: "read_field schema vals bs = Some (f, v, rest) \<Longrightarrow> length rest < length bs"
  by (auto simp: read_field_def Let_def split: option.splits if_splits dest!: readVarint_shorter) (linarith+)

function fields_from :: "schema \<Rightarrow> wire_fields \<Rightarrow> bytes \<Rightarrow> wire_fields option" where
  "fields_from schema vals bs =
     (if bs = [] then Some vals
      else case read_field schema vals bs of
             None \<Rightarrow> None
           | Some (f, v, rest) \<Rightarrow> fields_from schema (vals @ [(f, v)]) rest)"
  by pat_completeness auto
termination
  by (relation "measure (\<lambda>(_, _, bs). length bs)") (auto dest: read_field_shorter)

declare fields_from.simps [simp del]

definition parse_fields :: "schema \<Rightarrow> bytes \<Rightarrow> wire_fields option" where
  "parse_fields schema bs =
     (if length bs > MAX_HANDSHAKE_BYTES then None else fields_from schema [] bs)"

subsection \<open>The language of the field parser\<close>

fun encode_field :: "nat \<times> wire_value \<Rightarrow> bytes" where
  "encode_field (f, WNum n) = encode_varint (8 * f) @ encode_varint n"
| "encode_field (f, WBytes b) = encode_varint (8 * f + 2) @ encode_varint (length b) @ b"

definition encode_fields :: "wire_fields \<Rightarrow> bytes" where
  "encode_fields vs = concat (map encode_field vs)"

fun value_ok :: "field_type \<Rightarrow> wire_value \<Rightarrow> bool" where
  "value_ok def (WNum n) =
     (fd_wire def = 0 \<and> n < 2 ^ 32 \<and> (case fd_max def of None \<Rightarrow> True | Some m \<Rightarrow> n \<le> m))"
| "value_ok def (WBytes b) =
     (fd_wire def = 2 \<and> length b < 2 ^ 32 \<and>
      length b \<le> (case fd_max def of None \<Rightarrow> MAX_HANDSHAKE_BYTES | Some m \<Rightarrow> m))"

definition conforms :: "schema \<Rightarrow> nat \<times> wire_value \<Rightarrow> bool" where
  "conforms schema fv =
     (8 * fst fv + 2 < 2 ^ 32 \<and>
      (case map_of schema (fst fv) of None \<Rightarrow> False | Some def \<Rightarrow> value_ok def (snd fv)))"

definition schema_ok :: "schema \<Rightarrow> bool" where
  "schema_ok schema = list_all (\<lambda>(f, def). 8 * f + 2 < 2 ^ 32 \<and> (fd_wire def = 0 \<or> fd_wire def = 2)) schema"

lemma schema_okD:
  "schema_ok schema \<Longrightarrow> map_of schema f = Some def \<Longrightarrow> 8 * f + 2 < 2 ^ 32 \<and> (fd_wire def = 0 \<or> fd_wire def = 2)"
  by (auto simp: schema_ok_def list_all_iff dest!: map_of_SomeD)

lemma tag_iff: "w < 8 \<Longrightarrow> (tag :: nat) div 8 = f \<and> tag mod 8 = w \<longleftrightarrow> tag = 8 * f + w"
  by auto

lemma read_field_iff:
  assumes ok: "schema_ok schema"
  shows "read_field schema vals bs = Some (f, v, rest) \<longleftrightarrow>
     map_of vals f = None \<and> conforms schema (f, v) \<and> bs = encode_field (f, v) @ rest"
proof
  assume r: "read_field schema vals bs = Some (f, v, rest)"
  then obtain tag bs1 def where t: "readVarint bs = Some (tag, bs1)" "map_of schema (tag div 8) = Some def"
    "tag mod 8 = fd_wire def" "map_of vals (tag div 8) = None"
    by (auto simp: read_field_def Let_def split: option.splits if_splits)
  have f: "f = tag div 8" using r t by (auto simp: read_field_def Let_def split: option.splits if_splits)
  have "tag = 8 * f + fd_wire def" using t(3) f by (metis mult_div_mod_eq)
  then have tag: "readVarint bs = Some (8 * f + fd_wire def, bs1)" using t(1) by simp
  have df: "map_of schema f = Some def" "map_of vals f = None" using t f by simp_all
  note ok' = schema_okD [OF ok df(1)]
  show "map_of vals f = None \<and> conforms schema (f, v) \<and> bs = encode_field (f, v) @ rest"
  proof (cases "fd_wire def = 0")
    case True
    then obtain n where "v = WNum n" "readVarint bs1 = Some (n, rest)"
      "(case fd_max def of None \<Rightarrow> True | Some m \<Rightarrow> n \<le> m)"
      using r t by (auto simp: read_field_def Let_def not_less split: option.splits if_splits)
    moreover have "bs = encode_varint (8 * f) @ bs1"
      using tag True by (simp add: readVarint_canonical)
    ultimately show ?thesis
      using df ok' True by (simp add: readVarint_canonical conforms_def)
  next
    case False
    then have w: "fd_wire def = 2" using ok' by simp
    from False obtain len bs2 where l: "v = WBytes (take len bs2)" "rest = drop len bs2"
      "readVarint bs1 = Some (len, bs2)" "len \<le> length bs2"
      "len \<le> (case fd_max def of None \<Rightarrow> MAX_HANDSHAKE_BYTES | Some m \<Rightarrow> m)"
      using r t by (auto simp: read_field_def Let_def not_less split: option.splits if_splits)
    moreover have "bs = encode_varint (8 * f + 2) @ bs1"
      using tag w by (simp add: readVarint_canonical)
    ultimately show ?thesis
      using df ok' w by (simp add: readVarint_canonical conforms_def min_def)
  qed
next
  assume a: "map_of vals f = None \<and> conforms schema (f, v) \<and> bs = encode_field (f, v) @ rest"
  then obtain def where d: "map_of schema f = Some def" "value_ok def v" "8 * f + 2 < 2 ^ 32"
    by (auto simp: conforms_def split: option.splits)
  show "read_field schema vals bs = Some (f, v, rest)"
  proof (cases v)
    case (WNum n)
    have "readVarint bs = Some (8 * f, encode_varint n @ rest)"
      "readVarint (encode_varint n @ rest) = Some (n, rest)"
      using a d WNum by (auto simp: readVarint_canonical)
    then show ?thesis
      using a d WNum by (auto simp: read_field_def not_less split: option.splits)
  next
    case (WBytes b)
    have "readVarint bs = Some (8 * f + 2, encode_varint (length b) @ b @ rest)"
      "readVarint (encode_varint (length b) @ b @ rest) = Some (length b, b @ rest)"
      using a d WBytes by (auto simp: readVarint_canonical)
    moreover have "(8 * f + 2) div 8 = f" "(8 * f + 2) mod 8 = 2" by presburger+
    ultimately show ?thesis
      using a d WBytes by (auto simp: read_field_def Let_def not_less split: option.splits)
  qed
qed

lemma encode_field_Nil [simp]: "encode_field fv \<noteq> []"
  by (cases fv rule: encode_field.cases) simp_all

lemma fields_from_iff:
  "schema_ok schema \<Longrightarrow> fields_from schema vals bs = Some vs \<longleftrightarrow>
     (\<exists>ws. vs = vals @ ws \<and> bs = encode_fields ws \<and> list_all (conforms schema) ws \<and>
        distinct (map fst ws) \<and> fst ` set ws \<inter> fst ` set vals = {})"
proof (induction schema vals bs arbitrary: vs rule: fields_from.induct)
  case (1 schema vals bs)
  show ?case
  proof (cases "bs = []")
    case True
    have "[] = encode_fields ws \<longleftrightarrow> ws = []" for ws
      by (cases ws) (auto simp: encode_fields_def)
    with True show ?thesis by (auto simp: fields_from.simps [of schema vals])
  next
    case False
    have step: "fields_from schema vals bs = Some vs \<longleftrightarrow>
        (\<exists>f v rest. read_field schema vals bs = Some (f, v, rest) \<and>
           fields_from schema (vals @ [(f, v)]) rest = Some vs)"
      using False by (auto simp: fields_from.simps [of schema vals bs] split: option.splits)
    show ?thesis
    proof
      assume "fields_from schema vals bs = Some vs"
      then obtain f v rest where r: "read_field schema vals bs = Some (f, v, rest)"
        "fields_from schema (vals @ [(f, v)]) rest = Some vs" using step by blast
      then obtain ws where "vs = (vals @ [(f, v)]) @ ws" "rest = encode_fields ws"
        "list_all (conforms schema) ws" "distinct (map fst ws)"
        "fst ` set ws \<inter> fst ` set (vals @ [(f, v)]) = {}"
        using 1(1) [OF False r(1) _ refl] 1(2) by auto
      then show "\<exists>ws. vs = vals @ ws \<and> bs = encode_fields ws \<and> list_all (conforms schema) ws \<and>
          distinct (map fst ws) \<and> fst ` set ws \<inter> fst ` set vals = {}"
        using r(1) 1(2) by (intro exI [of _ "(f, v) # ws"])
          (auto simp: read_field_iff encode_fields_def map_of_eq_None_iff)
    next
      assume "\<exists>ws. vs = vals @ ws \<and> bs = encode_fields ws \<and> list_all (conforms schema) ws \<and>
          distinct (map fst ws) \<and> fst ` set ws \<inter> fst ` set vals = {}"
      then obtain ws where ws: "vs = vals @ ws" "bs = encode_fields ws" "list_all (conforms schema) ws"
        "distinct (map fst ws)" "fst ` set ws \<inter> fst ` set vals = {}" by blast
      with False obtain f v ws' where w: "ws = (f, v) # ws'" by (cases ws) (auto simp: encode_fields_def)
      have r: "read_field schema vals bs = Some (f, v, encode_fields ws')"
        using ws w 1(2) by (auto simp: read_field_iff encode_fields_def map_of_eq_None_iff)
      have "fields_from schema (vals @ [(f, v)]) (encode_fields ws') = Some vs"
        using 1(1) [OF False r _ refl] 1(2) ws w by auto
      with r step show "fields_from schema vals bs = Some vs" by blast
    qed
  qed
qed

lemma parse_fields_language:
  assumes "schema_ok schema"
  shows "parse_fields schema bs = Some vs \<longleftrightarrow>
     length bs \<le> MAX_HANDSHAKE_BYTES \<and> bs = encode_fields vs \<and> distinct (map fst vs) \<and>
     list_all (conforms schema) vs"
  using assms by (auto simp: parse_fields_def fields_from_iff not_less)

text \<open>
  C28. A message is accepted exactly when it is, byte for byte, the canonical encoding of fields
  of the schema, none repeated and each within its bounds, and the parser returns those fields.
  So two readers that accept a message cannot read different vals from it.
\<close>

theorem parse_fields_iff:
  assumes "schema_ok schema"
  shows "parse_fields schema bs = Some vs \<longleftrightarrow>
     length bs \<le> MAX_HANDSHAKE_BYTES \<and> bs = encode_fields vs \<and> distinct (map fst vs) \<and>
     list_all (conforms schema) vs"
  using assms by (rule parse_fields_language)

lemma parse_fields_iff_witness:
  "schema_ok [(1, \<lparr>fd_wire = 0, fd_max = Some 2\<rparr>)] \<and>
   parse_fields [(1, \<lparr>fd_wire = 0, fd_max = Some 2\<rparr>)] [8, 1] = Some [(1, WNum 1)]"
proof -
  have ok: "schema_ok [(1, \<lparr>fd_wire = 0, fd_max = Some 2\<rparr>)]" by (simp add: schema_ok_def)
  have "length ([8, 1] :: bytes) \<le> MAX_HANDSHAKE_BYTES \<and> [8, 1] = encode_fields [(1, WNum 1)] \<and>
      distinct (map fst [(1 :: nat, WNum 1)]) \<and>
      list_all (conforms [(1, \<lparr>fd_wire = 0, fd_max = Some 2\<rparr>)]) [(1, WNum 1)]"
    by (simp add: MAX_HANDSHAKE_BYTES_def encode_fields_def encode_varint.simps conforms_def)
  with parse_fields_iff [OF ok] ok show ?thesis by blast
qed

subsection \<open>Strict UTF-8\<close>

text \<open>
  \<open>TextDecoder('utf-8', {fatal: true, ignoreBOM: true})\<close>: one well-formed sequence per step
  (no overlong forms, no surrogates, nothing above 10FFFF), an error otherwise.
\<close>

definition cont :: "nat \<Rightarrow> nat \<Rightarrow> 8 word \<Rightarrow> bool" where
  "cont lo hi b \<longleftrightarrow> lo \<le> unat b \<and> unat b \<le> hi"

definition decode_one :: "bytes \<Rightarrow> (nat \<times> bytes) option" where
  "decode_one bs =
     (case bs of
        [] \<Rightarrow> None
      | a # r \<Rightarrow>
          let n = unat a
          in if n < 128 then Some (n, r)
             else if 194 \<le> n \<and> n \<le> 223 then
               (case r of
                  b # r \<Rightarrow> if cont 128 191 b then Some ((n - 192) * 64 + (unat b - 128), r) else None
                | _ \<Rightarrow> None)
             else if 224 \<le> n \<and> n \<le> 239 then
               (case r of
                  b # c # r \<Rightarrow>
                    if cont (if n = 224 then 160 else 128) (if n = 237 then 159 else 191) b \<and> cont 128 191 c
                    then Some ((n - 224) * 4096 + (unat b - 128) * 64 + (unat c - 128), r) else None
                | _ \<Rightarrow> None)
             else if 240 \<le> n \<and> n \<le> 244 then
               (case r of
                  b # c # e # r \<Rightarrow>
                    if cont (if n = 240 then 144 else 128) (if n = 244 then 143 else 191) b \<and>
                       cont 128 191 c \<and> cont 128 191 e
                    then Some ((n - 240) * 262144 + (unat b - 128) * 4096 + (unat c - 128) * 64 +
                               (unat e - 128), r) else None
                | _ \<Rightarrow> None)
             else None)"

lemma decode_one_shorter: "decode_one bs = Some (n, r) \<Longrightarrow> length r < length bs"
  by (auto simp: decode_one_def Let_def split: list.splits if_splits)

function textDecode :: "bytes \<Rightarrow> code_points option" where
  "textDecode bs =
     (if bs = [] then Some []
      else case decode_one bs of
             None \<Rightarrow> None
           | Some (n, r) \<Rightarrow> map_option (\<lambda>cs. n # cs) (textDecode r))"
  by pat_completeness auto
termination by (relation "measure length") (auto dest: decode_one_shorter)

declare textDecode.simps [simp del]

text \<open>The encoding of scalar values, for the specification.\<close>

definition scalar_value :: "nat \<Rightarrow> bool" where
  "scalar_value n \<longleftrightarrow> n < 55296 \<or> (57344 \<le> n \<and> n < 1114112)"

definition utf8_one :: "nat \<Rightarrow> bytes" where
  "utf8_one n =
     (if n < 128 then [of_nat n]
      else if n < 2048 then [of_nat (192 + n div 64), of_nat (128 + n mod 64)]
      else if n < 65536
      then [of_nat (224 + n div 4096), of_nat (128 + n div 64 mod 64), of_nat (128 + n mod 64)]
      else [of_nat (240 + n div 262144), of_nat (128 + n div 4096 mod 64),
            of_nat (128 + n div 64 mod 64), of_nat (128 + n mod 64)])"

definition utf8 :: "code_points \<Rightarrow> bytes" where
  "utf8 cs = concat (map utf8_one cs)"

lemma digits2: "y < 64 \<Longrightarrow> (x * 64 + y) div 64 = (x :: nat)" "y < 64 \<Longrightarrow> (x * 64 + y) mod 64 = (y :: nat)"
  by simp_all

lemma digits3:
  assumes "y < 64" "z < 64"
  shows "(x * 4096 + y * 64 + z) div 4096 = (x :: nat)" "(x * 4096 + y * 64 + z) div 64 mod 64 = y"
    "(x * 4096 + y * 64 + z) mod 64 = z"
proof -
  have e: "x * 4096 + y * 64 + z = (x * 64 + y) * 64 + z" by simp
  have d: "(x * 4096 + y * 64 + z) div 64 = x * 64 + y" unfolding e by (rule digits2) fact
  show "(x * 4096 + y * 64 + z) div 64 mod 64 = y" unfolding d by (rule digits2) fact
  show "(x * 4096 + y * 64 + z) mod 64 = z" unfolding e by (rule digits2) fact
  have "(x * 4096 + y * 64 + z) div 4096 = (x * 4096 + y * 64 + z) div 64 div 64"
    by (simp only: div_mult2_eq [symmetric]) simp
  then show "(x * 4096 + y * 64 + z) div 4096 = x" unfolding d using digits2(1) [OF assms(1)] by simp
qed

lemma digits4:
  assumes "y < 64" "z < 64" "w < 64"
  shows "(x * 262144 + y * 4096 + z * 64 + w) div 262144 = (x :: nat)"
    "(x * 262144 + y * 4096 + z * 64 + w) div 4096 mod 64 = y"
    "(x * 262144 + y * 4096 + z * 64 + w) div 64 mod 64 = z"
    "(x * 262144 + y * 4096 + z * 64 + w) mod 64 = w"
proof -
  have e: "x * 262144 + y * 4096 + z * 64 + w = (x * 4096 + y * 64 + z) * 64 + w" by simp
  have d: "(x * 262144 + y * 4096 + z * 64 + w) div 64 = x * 4096 + y * 64 + z" unfolding e
    by (rule digits2) fact
  have d2: "a div 4096 = a div 64 div 64" "a div 262144 = a div 64 div 4096" for a :: nat
    by (simp_all only: div_mult2_eq [symmetric]) simp_all
  show "(x * 262144 + y * 4096 + z * 64 + w) mod 64 = w" unfolding e by (rule digits2) fact
  show "(x * 262144 + y * 4096 + z * 64 + w) div 64 mod 64 = z" unfolding d
    using digits3(3) [OF assms(1,2)] .
  show "(x * 262144 + y * 4096 + z * 64 + w) div 4096 mod 64 = y" unfolding d2(1) d
    using digits3(2) [OF assms(1,2)] .
  show "(x * 262144 + y * 4096 + z * 64 + w) div 262144 = x" unfolding d2(2) d
    using digits3(1) [OF assms(1,2)] .
qed

lemma utf8_one_digits:
  "n < 128 \<Longrightarrow> utf8_one n = [of_nat n]"
  "2 \<le> x \<Longrightarrow> x < 32 \<Longrightarrow> y < 64 \<Longrightarrow> utf8_one (x * 64 + y) = [of_nat (192 + x), of_nat (128 + y)]"
  "x < 16 \<Longrightarrow> y < 64 \<Longrightarrow> z < 64 \<Longrightarrow> x = 0 \<longrightarrow> 32 \<le> y \<Longrightarrow> utf8_one (x * 4096 + y * 64 + z) =
     [of_nat (224 + x), of_nat (128 + y), of_nat (128 + z)]"
  "x < 5 \<Longrightarrow> y < 64 \<Longrightarrow> z < 64 \<Longrightarrow> w < 64 \<Longrightarrow> x = 0 \<longrightarrow> 16 \<le> y \<Longrightarrow> utf8_one (x * 262144 + y * 4096 + z * 64 + w) =
     [of_nat (240 + x), of_nat (128 + y), of_nat (128 + z), of_nat (128 + w)]"
proof -
  show "2 \<le> x \<Longrightarrow> x < 32 \<Longrightarrow> y < 64 \<Longrightarrow> utf8_one (x * 64 + y) = [of_nat (192 + x), of_nat (128 + y)]"
    unfolding utf8_one_def by (simp add: digits2 del: of_nat_add)
  show "utf8_one (x * 4096 + y * 64 + z) =
     [of_nat (224 + x), of_nat (128 + y), of_nat (128 + z)]"
    if "x < 16" "y < 64" "z < 64" "x = 0 \<longrightarrow> 32 \<le> y"
  proof -
    have "\<not> x * 4096 + y * 64 + z < 2048" "x * 4096 + y * 64 + z < 65536" using that by (cases "x = 0"; linarith)+
    then show ?thesis unfolding utf8_one_def using digits3 [OF that(2,3)] by (simp del: of_nat_add)
  qed
  show "utf8_one (x * 262144 + y * 4096 + z * 64 + w) =
     [of_nat (240 + x), of_nat (128 + y), of_nat (128 + z), of_nat (128 + w)]"
    if "x < 5" "y < 64" "z < 64" "w < 64" "x = 0 \<longrightarrow> 16 \<le> y"
  proof -
    have "\<not> x * 262144 + y * 4096 + z * 64 + w < 65536" using that by (cases "x = 0"; linarith)+
    then show ?thesis unfolding utf8_one_def using digits4 [OF that(2,3,4)] by (simp del: of_nat_add)
  qed
qed (simp_all add: utf8_one_def)

lemma unat_byte: "k < 256 \<Longrightarrow> unat (of_nat k :: 8 word) = k"
  by (simp add: unat_of_nat)

lemma byte_unat: "unat (b :: 8 word) = k \<Longrightarrow> b = of_nat k"
  by auto

lemma decode_one_utf8:
  assumes "scalar_value n"
  shows "decode_one (utf8_one n @ r) = Some (n, r)"
proof -
  consider "n < 128" | "128 \<le> n" "n < 2048" | "2048 \<le> n" "n < 65536" | "65536 \<le> n" "n < 1114112"
    using assms unfolding scalar_value_def by linarith
  then show ?thesis
  proof cases
    case 1
    then show ?thesis by (simp add: utf8_one_digits decode_one_def unat_byte)
  next
    case 2
    define x y where "x = n div 64" "y = n mod 64"
    have n: "n = x * 64 + y" by (simp add: x_y_def)
    have b: "2 \<le> x" "x < 32" "y < 64" using 2 by (auto simp: x_y_def less_mult_imp_div_less)
    show ?thesis
      unfolding n utf8_one_digits(2) [OF b] using b
      by (simp add: decode_one_def unat_byte cont_def del: of_nat_add)
  next
    case 3
    define x y z where "x = n div 4096" "y = n div 64 mod 64" "z = n mod 64"
    have n: "n = x * 4096 + y * 64 + z"
    proof -
      have "n = n div 64 * 64 + z" by (simp add: x_y_z_def)
      moreover have "n div 64 = n div 64 div 64 * 64 + y" by (simp add: x_y_z_def)
      moreover have "n div 64 div 64 = x" by (simp add: x_y_z_def div_mult2_eq [symmetric])
      ultimately show ?thesis by simp
    qed
    have b: "y < 64" "z < 64" by (auto simp: x_y_z_def)
    have x: "x < 16" using 3 by (auto simp: x_y_z_def less_mult_imp_div_less)
    have y: "x = 0 \<longrightarrow> 32 \<le> y" using 3 b n by auto
    have s: "x = 13 \<longrightarrow> y \<le> 31" using assms b unfolding n scalar_value_def by auto
    show ?thesis
      unfolding n utf8_one_digits(3) [OF x b y] using x b y s
      by (simp add: decode_one_def unat_byte cont_def del: of_nat_add)
  next
    case 4
    define x y z w where "x = n div 262144" "y = n div 4096 mod 64" "z = n div 64 mod 64" "w = n mod 64"
    have n: "n = x * 262144 + y * 4096 + z * 64 + w"
    proof -
      have "n = n div 64 * 64 + w" by (simp add: x_y_z_w_def)
      moreover have "n div 64 = n div 64 div 64 * 64 + z" by (simp add: x_y_z_w_def)
      moreover have "n div 64 div 64 = n div 4096" by (simp add: div_mult2_eq [symmetric])
      moreover have "n div 4096 = n div 4096 div 64 * 64 + y" by (simp add: x_y_z_w_def)
      moreover have "n div 4096 div 64 = x" by (simp add: x_y_z_w_def div_mult2_eq [symmetric])
      ultimately show ?thesis by simp
    qed
    have b: "y < 64" "z < 64" "w < 64" by (auto simp: x_y_z_w_def)
    have x: "x < 5" using 4 by (auto simp: x_y_z_w_def less_mult_imp_div_less)
    have y: "x = 0 \<longrightarrow> 16 \<le> y" using 4 b n by auto
    have s: "x = 4 \<longrightarrow> y \<le> 15" using 4 b n by auto
    show ?thesis
      unfolding n utf8_one_digits(4) [OF x b y] using x b y s
      by (simp add: decode_one_def unat_byte cont_def del: of_nat_add)
  qed
qed

lemma decode_one_Some:
  assumes "decode_one bs = Some (n, r)"
  shows "scalar_value n \<and> bs = utf8_one n @ r"
proof -
  obtain a s where bs: "bs = a # s" using assms by (cases bs) (auto simp: decode_one_def)
  consider "unat a < 128" | "194 \<le> unat a" "unat a \<le> 223" | "224 \<le> unat a" "unat a \<le> 239"
    | "240 \<le> unat a" "unat a \<le> 244"
    using assms by (fastforce simp: decode_one_def bs Let_def split: if_splits)
  then show ?thesis
  proof cases
    case 1
    with assms show ?thesis
      by (auto simp: decode_one_def bs utf8_one_digits scalar_value_def Let_def)
  next
    case 2
    then obtain b where s: "s = b # r" "cont 128 191 b" "n = (unat a - 192) * 64 + (unat b - 128)"
      using assms by (auto simp: decode_one_def bs Let_def split: list.splits if_splits)
    define x y where "x = unat a - 192" "y = unat b - 128"
    have b: "2 \<le> x" "x < 32" "y < 64" "a = of_nat (192 + x)" "b = of_nat (128 + y)"
      using 2 s(2) by (auto simp: x_y_def cont_def simp del: of_nat_add intro!: byte_unat)
    have n: "n = x * 64 + y" using s(3) by (simp add: x_y_def)
    show ?thesis
      unfolding n utf8_one_digits(2) [OF b(1-3)] using b by (simp add: bs s scalar_value_def)
  next
    case 3
    then obtain b c where s: "s = b # c # r" "cont 128 191 c"
        "cont (if unat a = 224 then 160 else 128) (if unat a = 237 then 159 else 191) b"
        "n = (unat a - 224) * 4096 + (unat b - 128) * 64 + (unat c - 128)"
      using assms by (auto simp: decode_one_def bs Let_def split: list.splits if_splits)
    define x y z where "x = unat a - 224" "y = unat b - 128" "z = unat c - 128"
    have n: "n = x * 4096 + y * 64 + z" using s by (simp add: x_y_z_def)
    have b: "x < 16" "y < 64" "z < 64" "x = 0 \<longrightarrow> 32 \<le> y" "x = 13 \<longrightarrow> y < 32"
      "a = of_nat (224 + x)" "b = of_nat (128 + y)" "c = of_nat (128 + z)"
      using 3 s(2,3) by (auto simp: x_y_z_def cont_def simp del: of_nat_add intro!: byte_unat split: if_splits)
    have "scalar_value (x * 4096 + y * 64 + z)"
    proof (cases "x < 13")
      case False
      then show ?thesis using b by (cases "x = 13") (auto simp: scalar_value_def)
    qed (use b in \<open>auto simp: scalar_value_def\<close>)
    then show ?thesis
      unfolding n utf8_one_digits(3) [OF b(1-4)] using b by (simp add: bs s)
  next
    case 4
    then obtain b c e where s: "s = b # c # e # r" "cont 128 191 c" "cont 128 191 e"
        "cont (if unat a = 240 then 144 else 128) (if unat a = 244 then 143 else 191) b"
        "n = (unat a - 240) * 262144 + (unat b - 128) * 4096 + (unat c - 128) * 64 + (unat e - 128)"
      using assms by (auto simp: decode_one_def bs Let_def split: list.splits if_splits)
    define x y z w where "x = unat a - 240" "y = unat b - 128" "z = unat c - 128" "w = unat e - 128"
    have n: "n = x * 262144 + y * 4096 + z * 64 + w" using s by (simp add: x_y_z_w_def)
    have b: "x < 5" "y < 64" "z < 64" "w < 64" "x = 0 \<longrightarrow> 16 \<le> y" "x = 4 \<longrightarrow> y < 16"
      "a = of_nat (240 + x)" "b = of_nat (128 + y)" "c = of_nat (128 + z)" "e = of_nat (128 + w)"
      using 4 s(2-4) by (auto simp: x_y_z_w_def cont_def simp del: of_nat_add intro!: byte_unat split: if_splits)
    have "scalar_value (x * 262144 + y * 4096 + z * 64 + w)"
    proof (cases "x = 0")
      case False
      then show ?thesis using b by (cases "x = 4") (auto simp: scalar_value_def)
    qed (use b in \<open>auto simp: scalar_value_def\<close>)
    then show ?thesis
      unfolding n utf8_one_digits(4) [OF b(1-5)] using b by (simp add: bs s)
  qed
qed

lemma utf8_one_Nil [simp]: "utf8_one n \<noteq> []"
  by (simp add: utf8_one_def)

interpretation utf8: code_reader decode_one utf8_one scalar_value
  using decode_one_Some decode_one_utf8 by unfold_locales (auto simp: utf8_one_Nil)

lemma textDecode_utf8:
  "textDecode bs = Some cs \<longleftrightarrow> list_all scalar_value cs \<and> bs = utf8 cs"
proof (induction bs arbitrary: cs rule: textDecode.induct)
  case (1 bs)
  show ?case
  proof (cases "bs = []")
    case True
    have "[] = utf8 cs \<longleftrightarrow> cs = []" by (cases cs) (auto simp: utf8_def)
    with True show ?thesis by (auto simp: textDecode.simps [of "[]"])
  next
    case False
    show ?thesis
    proof
      assume "textDecode bs = Some cs"
      then obtain n r ds where d: "decode_one bs = Some (n, r)" "textDecode r = Some ds" "cs = n # ds"
        using False by (auto simp: textDecode.simps [of bs] split: option.splits)
      with 1 [OF False d(1) refl] decode_one_Some [OF d(1)]
      show "list_all scalar_value cs \<and> bs = utf8 cs" by (auto simp: utf8_def)
    next
      assume a: "list_all scalar_value cs \<and> bs = utf8 cs"
      with False obtain n ds where c: "cs = n # ds" by (cases cs) (auto simp: utf8_def)
      have d: "decode_one bs = Some (n, utf8 ds)"
        using a c decode_one_utf8 [of n "utf8 ds"] by (simp add: utf8_def)
      with 1 [OF False d refl] a c show "textDecode bs = Some cs"
        using False by (subst textDecode.simps) simp
    qed
  qed
qed

text \<open>
  The strict decoder accepts exactly the UTF-8 encodings of sequences of Unicode scalar
  values, and decoding inverts encoding: two different byte strings never decode to the same
  text, so the comparison of a decoded field with an expected string is a comparison of bytes.
\<close>

theorem textDecode_iff:
  "(textDecode bs = Some cs) = (list_all scalar_value cs \<and> bs = utf8 cs) \<and>
   inj_on utf8 {cs. list_all scalar_value cs}"
  using utf8.unique_decoding by (simp add: textDecode_utf8 utf8_def [abs_def])

subsection \<open>Messages\<close>

definition wire_string :: "wire_fields \<Rightarrow> nat \<Rightarrow> code_points option" where
  "wire_string vals f =
     (case map_of vals f of
        None \<Rightarrow> Some []
      | Some (WNum n) \<Rightarrow> None
      | Some (WBytes b) \<Rightarrow> textDecode b)"

definition wire_number :: "wire_fields \<Rightarrow> nat \<Rightarrow> nat option" where
  "wire_number vals f =
     (case map_of vals f of
        None \<Rightarrow> Some 0
      | Some (WNum n) \<Rightarrow> Some n
      | Some (WBytes b) \<Rightarrow> None)"

definition envelope_schema :: "nat list \<Rightarrow> schema" where
  "envelope_schema allowed = map (\<lambda>f. (f, \<lparr>fd_wire = 2, fd_max = None\<rparr>)) allowed"

definition envelope :: "bytes \<Rightarrow> nat list \<Rightarrow> (nat \<times> bytes) option" where
  "envelope bs allowed =
     (case parse_fields (envelope_schema allowed) bs of
        Some [(f, WBytes b)] \<Rightarrow> Some (f, b)
      | _ \<Rightarrow> None)"

datatype web_client_kind = Desktop | File

record protocol_binding =
  pb_target :: code_points
  pb_kind :: web_client_kind
  pb_key :: code_points
  pb_relay :: "code_points option"

definition varint_field :: "nat option \<Rightarrow> field_type" where
  "varint_field m = \<lparr>fd_wire = 0, fd_max = m\<rparr>"

definition bytes_field :: "nat \<Rightarrow> field_type" where
  "bytes_field m = \<lparr>fd_wire = 2, fd_max = Some m\<rparr>"

definition kind_number :: "web_client_kind \<Rightarrow> nat" where
  "kind_number k = (if k = File then 1 else 0)"

definition punch_schema :: schema where
  "punch_schema =
     [(1, bytes_field 256), (2, varint_field (Some 2)), (3, bytes_field 128), (4, varint_field (Some 1)),
      (6, bytes_field 64), (8, varint_field (Some 1))]"

definition validatePunchHoleRequest :: "bytes \<Rightarrow> protocol_binding \<Rightarrow> unit option" where
  "validatePunchHoleRequest bs b =
     Option.bind (envelope bs [8]) (\<lambda>(_, body).
     Option.bind (parse_fields punch_schema body) (\<lambda>vals.
       if wire_string vals 1 \<noteq> Some (pb_target b) \<or> wire_string vals 3 \<noteq> Some (pb_key b) \<or>
          wire_number vals 4 \<noteq> Some (kind_number (pb_kind b)) \<or> wire_number vals 8 \<noteq> Some 1
       then None
       else Option.bind (wire_string vals 6) (\<lambda>_. Some ())))"

definition relay_schema :: schema where
  "relay_schema =
     [(1, bytes_field 256), (2, bytes_field 36), (6, bytes_field 128), (7, varint_field (Some 1))]"

definition validateRequestRelay :: "bytes \<Rightarrow> protocol_binding \<Rightarrow> unit option" where
  "validateRequestRelay bs b =
     Option.bind (envelope bs [18]) (\<lambda>(_, body).
     Option.bind (parse_fields relay_schema body) (\<lambda>vals.
       case pb_relay b of
         None \<Rightarrow> None
       | Some uuid \<Rightarrow>
           if uuid = [] \<or> wire_string vals 1 \<noteq> Some (pb_target b) \<or> wire_string vals 2 \<noteq> Some uuid \<or>
              wire_string vals 6 \<noteq> Some (pb_key b) \<or> wire_number vals 7 \<noteq> Some (kind_number (pb_kind b))
           then None else Some ()))"

datatype rendezvous_reply = Refused | Relay code_points

definition hex_digit :: "nat \<Rightarrow> bool" where
  "hex_digit c \<longleftrightarrow> (48 \<le> c \<and> c \<le> 57) \<or> (97 \<le> c \<and> c \<le> 102) \<or> (65 \<le> c \<and> c \<le> 70)"

text \<open>\<open>/^[0-9a-f]{8}-[0-9a-f]{4}-[0-9a-f]{4}-[0-9a-f]{4}-[0-9a-f]{12}$/i\<close>; 45 is the hyphen.\<close>

definition uuid_format :: "code_points \<Rightarrow> bool" where
  "uuid_format cs \<longleftrightarrow> length cs = 36 \<and>
     list_all (\<lambda>(i, c). if i \<in> {8, 13, 18, 23} then c = 45 else hex_digit c) (enumerate 0 cs)"

definition punch_reply_schema :: schema where
  "punch_reply_schema =
     [(3, varint_field (Some 4)), (4, bytes_field 2048), (7, bytes_field 256), (8, varint_field None)]"

definition relay_reply_schema :: schema where
  "relay_reply_schema =
     [(1, bytes_field 128), (2, bytes_field 36), (3, bytes_field 2048), (4, bytes_field 256),
      (5, bytes_field 4096), (6, bytes_field 256), (7, bytes_field 64), (9, varint_field None),
      (10, bytes_field 128), (11, varint_field (Some 65535))]"

definition readRendezvousReply :: "bytes \<Rightarrow> rendezvous_reply option" where
  "readRendezvousReply bs =
     Option.bind (envelope bs [11, 19]) (\<lambda>(f, body).
       if f = 11
       then Option.bind (parse_fields punch_reply_schema body) (\<lambda>vals.
            Option.bind (wire_number vals 3) (\<lambda>n.
              if n \<notin> set [0, 2, 3, 4] then None
              else Option.bind (wire_string vals 4) (\<lambda>_.
                   Option.bind (wire_string vals 7) (\<lambda>_. Some Refused))))
       else Option.bind (parse_fields relay_reply_schema body) (\<lambda>vals.
              if map_of vals 4 \<noteq> None \<and> map_of vals 5 \<noteq> None then None
              else Option.bind (wire_string vals 3) (\<lambda>_.
                   Option.bind (wire_string vals 4) (\<lambda>_.
                   Option.bind (wire_string vals 6) (\<lambda>reason.
                   Option.bind (wire_string vals 7) (\<lambda>_.
                     if reason \<noteq> [] then Some Refused
                     else Option.bind (wire_string vals 2) (\<lambda>uuid.
                       if uuid_format uuid then Some (Relay uuid) else None)))))))"

subsection \<open>What the validators accept\<close>

text \<open>
  The value of a field that may be absent: the empty text and zero are the defaults.
\<close>

definition field_text :: "wire_fields \<Rightarrow> nat \<Rightarrow> code_points \<Rightarrow> bool" where
  "field_text vals f cs \<longleftrightarrow>
     (case map_of vals f of None \<Rightarrow> cs = [] | Some v \<Rightarrow> list_all scalar_value cs \<and> v = WBytes (utf8 cs))"

definition field_number :: "wire_fields \<Rightarrow> nat \<Rightarrow> nat \<Rightarrow> bool" where
  "field_number vals f n \<longleftrightarrow> (case map_of vals f of None \<Rightarrow> n = 0 | Some v \<Rightarrow> v = WNum n)"

lemma wire_string_iff: "wire_string vals f = Some cs \<longleftrightarrow> field_text vals f cs"
  by (auto simp: wire_string_def field_text_def textDecode_utf8 split: option.splits wire_value.splits)

lemma wire_number_iff: "wire_number vals f = Some n \<longleftrightarrow> field_number vals f n"
  by (auto simp: wire_number_def field_number_def split: option.splits wire_value.splits)

lemma schemas_ok:
  "schema_ok punch_schema" "schema_ok relay_schema" "schema_ok punch_reply_schema" "schema_ok relay_reply_schema"
  by (simp_all add: schema_ok_def punch_schema_def relay_schema_def punch_reply_schema_def
      relay_reply_schema_def varint_field_def bytes_field_def)

lemma encode_field_length: "length b < length (encode_field (f, WBytes b))"
proof -
  have "0 < length (encode_varint (8 * f + 2))" by simp
  then show ?thesis by simp
qed

lemma envelope_iff:
  assumes "list_all (\<lambda>f. 8 * f + 2 < 2 ^ 32) allowed"
  shows "envelope bs allowed = Some (f, b) \<longleftrightarrow>
     f \<in> set allowed \<and> length bs \<le> MAX_HANDSHAKE_BYTES \<and> bs = encode_field (f, WBytes b)"
proof -
  have ok: "schema_ok (envelope_schema allowed)"
    using assms by (auto simp: schema_ok_def envelope_schema_def list_all_iff)
  have m: "map_of (envelope_schema allowed) f = (if f \<in> set allowed then Some \<lparr>fd_wire = 2, fd_max = None\<rparr> else None)" for f
    by (induction allowed) (auto simp: envelope_schema_def)
  have "envelope bs allowed = Some (f, b) \<longleftrightarrow> parse_fields (envelope_schema allowed) bs = Some [(f, WBytes b)]"
    by (auto simp: envelope_def split: option.splits list.splits prod.splits wire_value.splits)
  also have "\<dots> \<longleftrightarrow> length bs \<le> MAX_HANDSHAKE_BYTES \<and> bs = encode_field (f, WBytes b) \<and>
      conforms (envelope_schema allowed) (f, WBytes b)"
    by (auto simp: parse_fields_language [OF ok] encode_fields_def)
  also have "\<dots> \<longleftrightarrow> f \<in> set allowed \<and> length bs \<le> MAX_HANDSHAKE_BYTES \<and> bs = encode_field (f, WBytes b)"
    using assms encode_field_length [of b f]
    by (auto simp: conforms_def m MAX_HANDSHAKE_BYTES_def list_all_iff simp del: encode_field.simps split: if_splits)
  finally show ?thesis .
qed

lemma body_bound:
  "length (encode_field (f, WBytes b)) \<le> MAX_HANDSHAKE_BYTES \<Longrightarrow> length b \<le> MAX_HANDSHAKE_BYTES"
  using encode_field_length [of b f] by simp

definition is_message :: "schema \<Rightarrow> nat \<Rightarrow> wire_fields \<Rightarrow> bytes \<Rightarrow> bool" where
  "is_message schema f vs bs \<longleftrightarrow>
     length bs \<le> MAX_HANDSHAKE_BYTES \<and> bs = encode_field (f, WBytes (encode_fields vs)) \<and>
     distinct (map fst vs) \<and> list_all (conforms schema) vs"

lemma is_message_iff:
  assumes "schema_ok schema" and "list_all (\<lambda>f. 8 * f + 2 < 2 ^ 32) allowed"
  shows "(\<exists>body. envelope bs allowed = Some (f, body) \<and> parse_fields schema body = Some vs) \<longleftrightarrow>
     f \<in> set allowed \<and> is_message schema f vs bs"
  unfolding envelope_iff [OF assms(2)] parse_fields_language [OF assms(1)] is_message_def
  using body_bound by blast

lemma bind_Some: "Option.bind m f = Some y \<longleftrightarrow> (\<exists>x. m = Some x \<and> f x = Some y)"
  by (cases m) auto

text \<open>
  The gateway lets a punch-hole request through exactly when it is the canonical encoding of
  one with the session's target, the server key, the connection type of the session's kind
  (never port forwarding) and the relay forced; every other byte string is refused.
\<close>

theorem validatePunchHoleRequest_iff:
  "validatePunchHoleRequest bs b = Some () \<longleftrightarrow>
     (\<exists>vs token. is_message punch_schema 8 vs bs \<and> field_text vs 1 (pb_target b) \<and>
        field_text vs 3 (pb_key b) \<and> field_number vs 4 (kind_number (pb_kind b)) \<and>
        field_number vs 8 1 \<and> field_text vs 6 token)"
proof -
  have "validatePunchHoleRequest bs b = Some () \<longleftrightarrow>
      (\<exists>vs. (\<exists>body. envelope bs [8] = Some (8, body) \<and> parse_fields punch_schema body = Some vs) \<and>
        wire_string vs 1 = Some (pb_target b) \<and> wire_string vs 3 = Some (pb_key b) \<and>
        wire_number vs 4 = Some (kind_number (pb_kind b)) \<and> wire_number vs 8 = Some 1 \<and>
        (\<exists>t. wire_string vs 6 = Some t))"
  proof -
    have "envelope bs [8] = Some (f, body) \<Longrightarrow> f = 8" for f body
      by (simp add: envelope_iff)
    then show ?thesis
      by (auto simp: validatePunchHoleRequest_def bind_Some split: if_splits)
  qed
  then show ?thesis
    unfolding wire_string_iff wire_number_iff
    using is_message_iff [OF schemas_ok(1), of "[8]" bs 8] by auto
qed

text \<open>
  The same for the relay request: it is let through exactly when it carries the session's
  target, the relay identifier bound to the session, the server key and the session's kind.
\<close>

theorem validateRequestRelay_iff:
  "validateRequestRelay bs b = Some () \<longleftrightarrow>
     (\<exists>vs uuid. is_message relay_schema 18 vs bs \<and> pb_relay b = Some uuid \<and> uuid \<noteq> [] \<and>
        field_text vs 1 (pb_target b) \<and> field_text vs 2 uuid \<and> field_text vs 6 (pb_key b) \<and>
        field_number vs 7 (kind_number (pb_kind b)))"
proof -
  have "validateRequestRelay bs b = Some () \<longleftrightarrow>
      (\<exists>vs uuid. (\<exists>body. envelope bs [18] = Some (18, body) \<and> parse_fields relay_schema body = Some vs) \<and>
        pb_relay b = Some uuid \<and> uuid \<noteq> [] \<and>
        wire_string vs 1 = Some (pb_target b) \<and> wire_string vs 2 = Some uuid \<and>
        wire_string vs 6 = Some (pb_key b) \<and> wire_number vs 7 = Some (kind_number (pb_kind b)))"
  proof -
    have "envelope bs [18] = Some (f, body) \<Longrightarrow> f = 18" for f body
      by (simp add: envelope_iff)
    then show ?thesis
      by (auto simp: validateRequestRelay_def bind_Some split: if_splits option.splits)
  qed
  then show ?thesis
    unfolding wire_string_iff wire_number_iff
    using is_message_iff [OF schemas_ok(2), of "[18]" bs 18] by auto
qed

text \<open>
  A reply of the rendezvous server yields a relay identifier only when it is a canonical
  relay response without a refusal reason whose identifier has the form of a UUID.
\<close>

theorem readRendezvousReply_relay_iff:
  "readRendezvousReply bs = Some (Relay uuid) \<longleftrightarrow>
     (\<exists>vs a b c. is_message relay_reply_schema 19 vs bs \<and> (map_of vs 4 = None \<or> map_of vs 5 = None) \<and>
        field_text vs 3 a \<and> field_text vs 4 b \<and> field_text vs 7 c \<and> field_text vs 6 [] \<and>
        field_text vs 2 uuid \<and> uuid_format uuid)"
proof -
  have "readRendezvousReply bs = Some (Relay uuid) \<longleftrightarrow>
      (\<exists>vs. (\<exists>body. envelope bs [11, 19] = Some (19, body) \<and> parse_fields relay_reply_schema body = Some vs) \<and>
        (map_of vs 4 = None \<or> map_of vs 5 = None) \<and> (\<exists>a. wire_string vs 3 = Some a) \<and>
        (\<exists>a. wire_string vs 4 = Some a) \<and> (\<exists>a. wire_string vs 7 = Some a) \<and> wire_string vs 6 = Some [] \<and>
        wire_string vs 2 = Some uuid \<and> uuid_format uuid)"
  proof -
    have f: "envelope bs [11, 19] = Some (f, body) \<Longrightarrow> f \<noteq> 11 \<Longrightarrow> f = 19" for f body
      by (simp add: envelope_iff)
    show ?thesis (is "?L = ?R")
    proof
      assume ?L
      then show ?R
        using f by (auto simp: readRendezvousReply_def bind_Some split: if_splits)
    next
      assume ?R
      then show ?L
        by (elim exE conjE) (auto simp: readRendezvousReply_def)
    qed
  qed
  then show ?thesis
    unfolding wire_string_iff wire_number_iff
    using is_message_iff [OF schemas_ok(4), of "[11, 19]" bs 19] by auto
qed

end
