(* ===== verification/Web_Authorization.thy ===== *)
theory Web_Authorization
  imports Rbac_Access Web_Protocol
begin

text \<open>
  Who may open a web client session on which device
  (\<open>src/modules/web-client/web-client-authorization.service.ts\<close>) and the configuration
  snapshot the gateway works from (\<open>src/modules/web-client/web-client.service.ts\<close>).
  Times are milliseconds; \<open>now\<close> is what \<open>Date.now()\<close> returns. Strings are lists of
  characters below 256, so the Unicode classes of the target pattern are written out for those.
\<close>

subsection \<open>Target identifiers\<close>

record web_actor =
  wa_id :: string
  wa_jti :: string

definition digit_or_space :: "char \<Rightarrow> bool" where
  "digit_or_space ch = (let n = (of_char ch :: nat) in n = 32 \<or> (48 \<le> n \<and> n \<le> 57))"

definition ascii_letter :: "char \<Rightarrow> bool" where
  "ascii_letter ch = (let n = (of_char ch :: nat) in (65 \<le> n \<and> n \<le> 90) \<or> (97 \<le> n \<and> n \<le> 122))"

text \<open>
  The class of alphabetic characters, marks, decimal digits, connector punctuation and the
  hyphen: 170, 181 and 186 are the ordinal indicators and the micro sign, from 192 on all but
  the multiplication and division signs are letters.
\<close>

definition target_char :: "char \<Rightarrow> bool" where
  "target_char ch =
     (let n = (of_char ch :: nat)
      in ascii_letter ch \<or> (48 \<le> n \<and> n \<le> 57) \<or> n = 95 \<or> n = 45 \<or>
         n = 170 \<or> n = 181 \<or> n = 186 \<or> (192 \<le> n \<and> n \<noteq> 215 \<and> n \<noteq> 247))"

definition normalizeWebClientTarget :: "string \<Rightarrow> string result" where
  "normalizeWebClientTarget raw =
     (if length raw > 256 then Inl (BadRequestException ''Invalid target ID'')
      else
        let value = js_trim raw
        in if value \<noteq> [] \<and> list_all digit_or_space value
           then Inr (filter (\<lambda>ch. ch \<noteq> CHR '' '') value)
           else
             (case value of
                [] \<Rightarrow> Inl (BadRequestException ''Invalid target ID'')
              | ch # rest \<Rightarrow>
                  if ascii_letter ch \<and> 5 \<le> length rest \<and> length rest \<le> 15 \<and> list_all target_char rest
                  then Inr value
                  else Inl (BadRequestException ''Invalid target ID'')))"

subsection \<open>Logins and targets\<close>

definition validateLogin :: "db \<Rightarrow> int \<Rightarrow> web_actor \<Rightarrow> int result" where
  "validateLogin d now actor =
     (if wa_id actor = [] \<or> wa_jti actor = []
      then Inl (UnauthorizedException ''Login session is unavailable'')
      else
        let token = find (\<lambda>t. ut_user t = wa_id actor \<and> ut_jti t = wa_jti actor \<and> \<not> ut_revoked t) (user_tokens d);
            expiresAt = (case token of None \<Rightarrow> 0 | Some t \<Rightarrow> ut_expires t)
        in if expiresAt \<le> now
           then Inl (UnauthorizedException ''Login session has expired or been revoked'')
           else Inr expiresAt)"

definition contains :: "permission_scope \<Rightarrow> peer \<Rightarrow> bool" where
  "contains scope p = (ps_global scope \<or> in_scope_groups scope p)"

definition requireScope :: "db \<Rightarrow> string \<Rightarrow> permission_scope result" where
  "requireScope d g = requirePermission d g ''web_client.connect''"

definition not_authorized :: http_error where
  "not_authorized = ForbiddenException ''Web client target is not authorized''"

definition validate ::
  "db \<Rightarrow> int \<Rightarrow> web_actor \<Rightarrow> string \<Rightarrow> web_client_kind \<Rightarrow> string option \<Rightarrow> (peer \<times> int) result" where
  "validate d now actor target kind peerUuid =
     rbind (validateLogin d now actor) (\<lambda>expiresAt.
     rbind (requireScope d (wa_id actor)) (\<lambda>scope.
       let candidates = take 2 (filter (\<lambda>p. peer_id p = target) (peers d));
           peer = (case candidates of [p] \<Rightarrow> Some p | _ \<Rightarrow> None)
       in case peer of
            None \<Rightarrow> Inl not_authorized
          | Some p \<Rightarrow>
              if peer_id p \<noteq> target \<or> peer_status p \<noteq> PeerActive \<or>
                 (case peerUuid of None \<Rightarrow> False | Some x \<Rightarrow> x \<noteq> [] \<and> peer_uuid p \<noteq> x) \<or>
                 \<not> contains scope p
              then Inl not_authorized
              else rbind (if kind = File
                          then rbind (requirePermission d (wa_id actor) ''web_client.file_transfer'') (\<lambda>files.
                                 if \<not> contains files p then Inl not_authorized else Inr ())
                          else Inr ())
                     (\<lambda>_. Inr (p, expiresAt))))"

definition requireDisconnect :: "db \<Rightarrow> int \<Rightarrow> web_actor \<Rightarrow> string \<Rightarrow> unit audited" where
  "requireDisconnect d now actor peerUuid =
     (case validateLogin d now actor of
        Inl e \<Rightarrow> (Inl e, d)
      | Inr _ \<Rightarrow> map_prod (map_sum id (\<lambda>_. ())) id
                  (assertDeviceAccess d (wa_id actor) ''devices.disconnect'' peerUuid))"

subsection \<open>The configuration snapshot\<close>

record web_config =
  wc_origin :: string
  wc_id_server :: string
  wc_relay_server :: string
  wc_public_key :: string
  wc_id_upstream :: "string option"
  wc_relay_upstream :: "string option"

datatype web_config_state = ConfigDisabled | ConfigInvalid | ConfigEnabled web_config

record web_configuration =
  wf_id_server :: string
  wf_relay_server :: string
  wf_public_key :: string

datatype web_phase = Rendezvous | RelayPhase

text \<open>
  \<open>refresh\<close>: the settings may fail to load (\<open>None\<close>), be switched off, or resolve to a
  configuration, to none, or to an error. The resolution is the settings service's.
\<close>

definition refreshConfig ::
  "web_config_state \<Rightarrow> (bool \<times> web_config option result) option \<Rightarrow> web_config_state" where
  "refreshConfig st loaded =
     (case loaded of
        None \<Rightarrow> st
      | Some (enabled, resolved) \<Rightarrow>
          if \<not> enabled then ConfigDisabled
          else (case resolved of
                  Inl e \<Rightarrow> ConfigInvalid
                | Inr None \<Rightarrow> ConfigDisabled
                | Inr (Some c) \<Rightarrow> ConfigEnabled c))"

definition config_unavailable :: http_error where
  "config_unavailable = ServiceUnavailableException ''Web client configuration is unavailable''"

definition getConfiguration :: "web_config_state \<Rightarrow> web_configuration option result" where
  "getConfiguration st =
     (case st of
        ConfigInvalid \<Rightarrow> Inl config_unavailable
      | ConfigDisabled \<Rightarrow> Inr None
      | ConfigEnabled c \<Rightarrow>
          Inr (Some \<lparr>wf_id_server = wc_id_server c, wf_relay_server = wc_relay_server c,
                     wf_public_key = wc_public_key c\<rparr>))"

definition requireConfiguration :: "web_config_state \<Rightarrow> web_configuration result" where
  "requireConfiguration st =
     rbind (getConfiguration st) (\<lambda>c. case c of None \<Rightarrow> Inl config_unavailable | Some c \<Rightarrow> Inr c)"

definition getAllowedOrigin :: "web_config_state \<Rightarrow> string result" where
  "getAllowedOrigin st =
     rbind (requireConfiguration st) (\<lambda>_.
       case st of ConfigEnabled c \<Rightarrow> Inr (wc_origin c) | _ \<Rightarrow> Inl config_unavailable)"

definition getUpstream :: "web_config_state \<Rightarrow> web_phase \<Rightarrow> string result" where
  "getUpstream st phase =
     rbind (requireConfiguration st) (\<lambda>cfg.
       case st of
         ConfigEnabled c \<Rightarrow>
           Inr (case phase of
                  Rendezvous \<Rightarrow> (case wc_id_upstream c of Some u \<Rightarrow> u | None \<Rightarrow> wf_id_server cfg)
                | RelayPhase \<Rightarrow> (case wc_relay_upstream c of Some u \<Rightarrow> u | None \<Rightarrow> wf_relay_server cfg))
       | _ \<Rightarrow> Inl config_unavailable)"

subsection \<open>Properties\<close>

lemma web_codes_usable:
  "isAssignablePermissionCode ''web_client.connect''" "isAssignablePermissionCode ''web_client.file_transfer''"
  by code_simp+

definition login_until :: "db \<Rightarrow> int \<Rightarrow> web_actor \<Rightarrow> int \<Rightarrow> bool" where
  "login_until d now actor expiresAt \<longleftrightarrow>
     wa_id actor \<noteq> [] \<and> wa_jti actor \<noteq> [] \<and> now < expiresAt \<and>
     (case find (\<lambda>t. ut_user t = wa_id actor \<and> ut_jti t = wa_jti actor \<and> \<not> ut_revoked t) (user_tokens d) of
        None \<Rightarrow> expiresAt = 0
      | Some t \<Rightarrow> expiresAt = ut_expires t)"

lemma validateLogin_Inr [result_simps]: "validateLogin d now actor = Inr x \<longleftrightarrow> login_until d now actor x"
  by (auto simp: validateLogin_def login_until_def Let_def split: option.splits)

definition may_open_session ::
  "db \<Rightarrow> string \<Rightarrow> string \<Rightarrow> web_client_kind \<Rightarrow> string option \<Rightarrow> peer \<Rightarrow> bool" where
  "may_open_session d g target kind peerUuid p \<longleftrightarrow>
     filter (\<lambda>q. peer_id q = target) (peers d) = [p] \<and> peer_status p = PeerActive \<and>
     (case peerUuid of None \<Rightarrow> True | Some x \<Rightarrow> x = [] \<or> peer_uuid p = x) \<and>
     may_act_on_peer d g ''web_client.connect'' p \<and>
     (kind = File \<longrightarrow> may_act_on_peer d g ''web_client.file_transfer'' p)"

lemma take_2_single: "take 2 xs = [x] \<longleftrightarrow> xs = [x]"
  by (cases xs; cases "tl xs") auto

lemma scope_check:
  assumes "isAssignablePermissionCode c"
  shows "rbind (requirePermission d g c) (\<lambda>s. if contains s p then Inr x else Inl e) = Inr y \<longleftrightarrow>
     y = x \<and> may_act_on_peer d g c p"
  unfolding contains_def by (rule devices.scope_check_iff [OF assms])

text \<open>
  C21. A web client session is authorized exactly when the login is present, not revoked and not
  expired, exactly one device carries the target identifier (an ambiguous identifier never
  authorizes), that device is enabled and the one the session was bound to, and the caller may
  connect to it, and for a file session also transfer files to it. The answer is that device
  and the end of the login.
\<close>

theorem web_validate_iff:
  "validate d now actor target kind peerUuid = Inr (p, expiresAt) \<longleftrightarrow>
     login_until d now actor expiresAt \<and> may_open_session d (wa_id actor) target kind peerUuid p"
proof (cases "validateLogin d now actor")
  case (Inl e)
  then have "\<not> login_until d now actor expiresAt" using validateLogin_Inr [of d now actor expiresAt] by simp
  with Inl show ?thesis by (simp add: validate_def)
next
  case (Inr ex)
  have l: "login_until d now actor expiresAt \<longleftrightarrow> expiresAt = ex"
    using Inr validateLogin_Inr [of d now actor expiresAt] by auto
  let ?chk = "\<lambda>p. rbind (requireScope d (wa_id actor)) (\<lambda>s. if contains s p then Inr () else Inl not_authorized)"
  let ?file = "\<lambda>p. if kind = File
      then rbind (requirePermission d (wa_id actor) ''web_client.file_transfer'') (\<lambda>s.
             if contains s p then Inr () else Inl not_authorized) else Inr ()"
  have c: "?chk p = Inr () \<longleftrightarrow> may_act_on_peer d (wa_id actor) ''web_client.connect'' p"
    unfolding requireScope_def using scope_check [OF web_codes_usable(1), of d "wa_id actor" p "()" not_authorized "()"] by simp
  have f: "?file p = Inr () \<longleftrightarrow> (kind = File \<longrightarrow> may_act_on_peer d (wa_id actor) ''web_client.file_transfer'' p)"
    using scope_check [OF web_codes_usable(2), of d "wa_id actor" p "()" not_authorized "()"] by simp
  have flip: "(if \<not> contains s p then Inl not_authorized else Inr ()) =
      (if contains s p then Inr () else Inl not_authorized)" for s p
    by simp
  have "validate d now actor target kind peerUuid = Inr (p, expiresAt) \<longleftrightarrow>
      expiresAt = ex \<and> filter (\<lambda>q. peer_id q = target) (peers d) = [p] \<and> peer_status p = PeerActive \<and>
      (case peerUuid of None \<Rightarrow> True | Some x \<Rightarrow> x = [] \<or> peer_uuid p = x) \<and> ?chk p = Inr () \<and> ?file p = Inr ()"
  proof (cases "requireScope d (wa_id actor)")
    case (Inl e)
    then show ?thesis by (simp add: validate_def Inr)
  next
    case s: (Inr scope)
    let ?cands = "filter (\<lambda>q. peer_id q = target) (peers d)"
    show ?thesis
    proof (cases "\<exists>q. ?cands = [q]")
      case True
      then obtain q where q: "?cands = [q]" by blast
      then have "q \<in> set ?cands" by simp
      then have "peer_id q = target" by simp
      with q s Inr show ?thesis
        by (cases "p = q") (auto simp: validate_def rbind_Inr_iff flip cong: if_cong split: option.splits if_splits)
    next
      case False
      then have "take 2 ?cands \<noteq> [q]" for q by (simp add: take_2_single)
      then have "(case take 2 ?cands of [q] \<Rightarrow> Some q | _ \<Rightarrow> None) = None"
        by (cases "take 2 ?cands"; cases "tl (take 2 ?cands)") auto
      with False s Inr show ?thesis by (auto simp: validate_def)
    qed
  qed
  then show ?thesis by (simp only: l c f may_open_session_def)
qed

lemma js_trim_solid: "list_all (\<lambda>ch. \<not> js_space ch) s \<Longrightarrow> js_trim s = s"
proof -
  have "list_all (\<lambda>ch. \<not> js_space ch) s \<Longrightarrow> dropWhile js_space s = s" for s
    by (cases s) auto
  moreover assume "list_all (\<lambda>ch. \<not> js_space ch) s"
  ultimately show ?thesis by (simp add: js_trim_def list_all_rev)
qed

lemma target_char_solid: "target_char ch \<Longrightarrow> \<not> js_space ch"
  by (auto simp: target_char_def js_space_def ascii_letter_def Let_def)

lemma space_code: "char_of (32 :: nat) = CHR '' ''"
  by code_simp

lemma digit_target_char: "digit_or_space ch \<Longrightarrow> ch \<noteq> CHR '' '' \<Longrightarrow> target_char ch"
proof -
  assume "digit_or_space ch" "ch \<noteq> CHR '' ''"
  moreover have "(of_char ch :: nat) = 32 \<Longrightarrow> ch = CHR '' ''"
    by (metis (full_types) char_of_char [of ch] space_code)
  ultimately show ?thesis by (auto simp: digit_or_space_def target_char_def Let_def)
qed

lemma digits_stay_trimmed: "list_all target_char v \<Longrightarrow> js_trim v = v"
  by (rule js_trim_solid) (auto simp: list_all_iff dest: target_char_solid)

lemma js_trim_length: "length (js_trim s) \<le> length s"
  unfolding js_trim_def by (metis length_dropWhile_le length_rev le_trans)

lemma js_trim_head: "js_trim s = ch # rest \<Longrightarrow> \<not> js_space ch"
proof -
  assume *: "js_trim s = ch # rest"
  let ?u = "dropWhile js_space s"
  obtain k where k: "?u = js_trim s @ k"
    unfolding js_trim_def
    by (metis rev_append rev_rev_ident takeWhile_dropWhile_id)
  with * have "?u \<noteq> []" "hd ?u = ch" by simp_all
  then show ?thesis using hd_dropWhile [of js_space s] by simp
qed

lemma ascii_letter_props:
  "ascii_letter ch \<Longrightarrow> target_char ch"
  "ascii_letter ch \<Longrightarrow> \<not> digit_or_space ch"
  by (auto simp: ascii_letter_def digit_or_space_def target_char_def Let_def)

definition canonical_target :: "string \<Rightarrow> bool" where
  "canonical_target v \<longleftrightarrow> v \<noteq> [] \<and> length v \<le> 256 \<and> list_all target_char v"

lemma normalize_digits:
  assumes "list_all digit_or_space v" "list_all target_char v" "v \<noteq> []" "length v \<le> 256"
  shows "normalizeWebClientTarget v = Inr v"
proof -
  have t: "\<not> target_char (CHR '' '')" by code_simp
  have "filter (\<lambda>ch. ch \<noteq> CHR '' '') v = v"
    using assms(2) t by (intro filter_True) (auto simp: list_all_iff)
  with assms show ?thesis
    by (simp add: normalizeWebClientTarget_def digits_stay_trimmed)
qed

text \<open>
  Target identifiers are canonical: what the normalization accepts is a non-empty string of
  at most 256 letters, digits and connectors, and normalizing it again gives the same identifier, so
  the identifier stored in a session, compared with the one of its parent and with the one in the
  handshake of the browser has one form only. Everything else is a bad request.
\<close>

theorem normalizeWebClientTarget_canonical:
  "case normalizeWebClientTarget raw of
     Inl e \<Rightarrow> e = BadRequestException ''Invalid target ID''
   | Inr v \<Rightarrow> canonical_target v \<and> normalizeWebClientTarget v = Inr v"
proof (cases "length raw > 256")
  case True
  then show ?thesis by (simp add: normalizeWebClientTarget_def Let_def)
next
  case short: False
  define tv where "tv = js_trim raw"
  have len: "length tv \<le> 256" using short js_trim_length [of raw] by (simp add: tv_def)
  show ?thesis
  proof (cases tv)
    case Nil
    then show ?thesis using short by (simp add: normalizeWebClientTarget_def Let_def tv_def)
  next
    case (Cons ch rest)
    show ?thesis
    proof (cases "list_all digit_or_space tv")
      case True
      define v where "v = filter (\<lambda>ch. ch \<noteq> CHR '' '') tv"
      have n: "normalizeWebClientTarget raw = Inr v"
        using short True Cons by (simp add: normalizeWebClientTarget_def Let_def v_def tv_def)
      have "\<not> js_space ch" using Cons js_trim_head by (simp add: tv_def)
      moreover have "js_space (CHR '' '')" by code_simp
      ultimately have "ch \<noteq> CHR '' ''" by auto
      with Cons have ne: "v \<noteq> []" by (simp add: v_def)
      have d: "list_all digit_or_space v" "list_all target_char v"
        using True digit_target_char by (auto simp: v_def list_all_iff)
      have l: "length v \<le> 256" using len le_trans [OF length_filter_le] by (auto simp: v_def)
      show ?thesis using n ne d l normalize_digits [of v] by (simp add: canonical_target_def)
    next
      case False
      show ?thesis
      proof (cases "ascii_letter ch \<and> 5 \<le> length rest \<and> length rest \<le> 15 \<and> list_all target_char rest")
        case True
        then have v: "list_all target_char tv" using Cons ascii_letter_props(1) by simp
        have nd: "\<not> digit_or_space ch" using True ascii_letter_props(2) by blast
        have "normalizeWebClientTarget raw = Inr tv"
          using short True False Cons nd by (simp add: normalizeWebClientTarget_def Let_def tv_def)
        moreover have "normalizeWebClientTarget tv = Inr tv"
          using True False Cons nd len digits_stay_trimmed [OF v] by (simp add: normalizeWebClientTarget_def Let_def)
        ultimately show ?thesis using v len Cons by (simp add: canonical_target_def)
      next
        case bad: False
        then show ?thesis using short False Cons by (auto simp: normalizeWebClientTarget_def Let_def tv_def)
      qed
    qed
  qed
qed

end
