(* ===== verification/Web_Session.thy ===== *)
theory Web_Session
  imports Async Web_Authorization
begin

text \<open>
  The sessions of the web client (\<open>src/modules/web-client/web-client-session.service.ts\<close>): the
  in-memory maps of sessions, tickets and reservations, and every operation as a process that
  waits where the code awaits. Dates are milliseconds; the clock does not move between two
  waits. A session object is identified by its identifier, since the map never holds two objects
  under one random identifier; of a session that has left the map, a waiting operation keeps
  the fields it has read last.

  Random values (\<open>randomUUID\<close>, \<open>randomBytes\<close>) come with the request and \<open>h\<close> is the
  ticket hash. The fields under ``history'' of the state are not in the code: they
  record which random values were drawn and which tickets were taken.
\<close>

subsection \<open>State\<close>

type_synonym profile = "web_configuration \<times> string \<times> string \<times> string"

record web_session =
  s_guid :: string
  s_actor :: web_actor
  s_targetId :: string
  s_peerUuid :: string
  s_kind :: web_client_kind
  s_parentGuid :: "string option"
  s_createdAt :: int
  s_expiresAt :: int
  s_profileIdentity :: profile
  s_serverPublicKey :: string
  s_relayUuid :: "string option"
  s_active :: bool
  s_ticketHashes :: "string list"
  s_sockets :: "nat list"
  s_reports :: nat
  s_reportWindow :: int
  s_windowReports :: nat

record ticket =
  t_session :: string
  t_phase :: web_phase
  t_expires :: int

datatype deadline = Single nat | Round nat

datatype session_token = Reserved string | FreshGuid string | FreshHash string

record session_state =
  ws_sessions :: "web_session list"
  ws_tickets :: "(string \<times> ticket) list"
  ws_reservations :: "(string \<times> nat) list"
  ws_checking :: "deadline option"
  ws_stopped :: bool
  ws_pending :: "deadline list"
  ws_epoch :: nat
  ws_next :: nat
  ws_now :: int
  ws_config :: web_config_state
  ws_emergency :: "(web_session \<times> string) list list"
  ws_notified :: "(nat \<times> string) list"
  \<comment> \<open>history\<close>
  ws_fresh :: "session_token multiset"
  ws_seen :: "string list"
  ws_issued :: "string list"
  ws_claimed :: "string list"

datatype operation =
    Authorize web_actor string web_client_kind "string option"
  | AuthorizeDisconnect web_actor string
  | AuditRecord audit_event

datatype query = Turn | Deadline deadline operation

text \<open>A settled authorization returns the UUID of the device and the end of the login.\<close>

datatype answer = Resumed | Settled "(string \<times> int) result" | TimedOut

record web_grant =
  g_session :: string
  g_rendezvous :: string
  g_relay :: string
  g_expires :: int

record gateway_claim =
  c_session :: string
  c_target :: string
  c_kind :: web_client_kind
  c_phase :: web_phase
  c_relay :: "string option"
  c_key :: string

datatype reply =
    Granted web_grant
  | Claimed gateway_claim
  | Succeeded
  | Failed http_error

type_synonym session_proc = "(session_state, query, answer, reply) proc"

type_synonym 'x cont = "'x \<Rightarrow> session_proc"

text \<open>Awaiting an asynchronous function: its result is seen one turn after it is there.\<close>

definition await :: "('x cont \<Rightarrow> session_proc) \<Rightarrow> 'x cont \<Rightarrow> session_proc" where
  "await f k = f (\<lambda>x. Await Turn (\<lambda>_. k x))"

subsection \<open>Looking sessions up\<close>

definition unavailable_session :: http_error where
  "unavailable_session = ForbiddenException ''Web client session is unavailable''"

definition find_session :: "session_state \<Rightarrow> string \<Rightarrow> web_session option" where
  "find_session st guid = find (\<lambda>x. s_guid x = guid) (ws_sessions st)"

definition put_session :: "web_session \<Rightarrow> session_state \<Rightarrow> session_state" where
  "put_session x st =
     (if find_session st (s_guid x) = None
      then st\<lparr>ws_sessions := ws_sessions st @ [x]\<rparr>
      else st\<lparr>ws_sessions := map (\<lambda>y. if s_guid y = s_guid x then x else y) (ws_sessions st)\<rparr>)"

definition update_session ::
  "string \<Rightarrow> (web_session \<Rightarrow> web_session) \<Rightarrow> session_state \<Rightarrow> session_state" where
  "update_session guid f st =
     st\<lparr>ws_sessions := map (\<lambda>y. if s_guid y = guid then f y else y) (ws_sessions st)\<rparr>"

text \<open>The present fields of an object read before.\<close>

definition session_object :: "session_state \<Rightarrow> web_session \<Rightarrow> web_session" where
  "session_object st x = (case find_session st (s_guid x) of None \<Rightarrow> x | Some y \<Rightarrow> y)"

definition current :: "session_state \<Rightarrow> string \<Rightarrow> web_session result" where
  "current st guid =
     (case find_session st guid of
        None \<Rightarrow> Inl unavailable_session
      | Some x \<Rightarrow>
          if ws_stopped st \<or> s_expiresAt x \<le> ws_now st \<or>
             (\<not> s_active x \<and> ws_now st - s_createdAt x \<ge> 120000)
          then Inl unavailable_session
          else Inr x)"

definition assertCurrent :: "session_state \<Rightarrow> web_session \<Rightarrow> unit result" where
  "assertCurrent st x = rbind (current st (s_guid x)) (\<lambda>_. Inr ())"

definition owned :: "session_state \<Rightarrow> string \<Rightarrow> web_actor \<Rightarrow> web_session result" where
  "owned st guid actor =
     rbind (current st guid) (\<lambda>x.
       if wa_id (s_actor x) \<noteq> wa_id actor \<or> wa_jti (s_actor x) \<noteq> wa_jti actor
       then Inl unavailable_session else Inr x)"

definition profileIdentity :: "web_config_state \<Rightarrow> profile result" where
  "profileIdentity c =
     rbind (requireConfiguration c) (\<lambda>cfg.
     rbind (getAllowedOrigin c) (\<lambda>origin.
     rbind (getUpstream c Rendezvous) (\<lambda>ids.
     rbind (getUpstream c RelayPhase) (\<lambda>relays.
       Inr (cfg, origin, ids, relays)))))"

subsection \<open>Reservations\<close>

definition reserve :: "string \<Rightarrow> session_state \<Rightarrow> session_state result" where
  "reserve user st =
     (let pending = sum_list (map snd (ws_reservations st));
          userSessions = length (filter (\<lambda>x. wa_id (s_actor x) = user) (ws_sessions st));
          userPending = js_get (ws_reservations st) user 0
      in if length (ws_sessions st) + pending \<ge> 256 \<or> userSessions + userPending \<ge> 8
         then Inl (TooManyRequestsException ''Web client session limit exceeded'')
         else Inr (st\<lparr>ws_reservations := AList.update user (userPending + 1) (ws_reservations st)\<rparr>))"

definition releaseReservation :: "string \<Rightarrow> session_state \<Rightarrow> session_state" where
  "releaseReservation user st =
     (let n = js_get (ws_reservations st) user 0
      in if n \<le> 1 then st\<lparr>ws_reservations := AList.delete user (ws_reservations st)\<rparr>
         else st\<lparr>ws_reservations := AList.update user (n - 1) (ws_reservations st)\<rparr>)"

subsection \<open>Ending sessions\<close>

definition invalidate ::
  "web_session list \<Rightarrow> (web_session \<Rightarrow> string) \<Rightarrow> session_state \<Rightarrow>
   (web_session \<times> string) list \<times> session_state" where
  "invalidate items reason st =
     (let closed = map (\<lambda>x. (x, reason x)) (filter (\<lambda>x. find_session st (s_guid x) \<noteq> None) items);
          guids = map (\<lambda>(x, _). s_guid x) closed;
          hashes = concat (map (\<lambda>(x, _). s_ticketHashes x) closed);
          calls = concat (map (\<lambda>(x, r). map (\<lambda>socket. (socket, r)) (s_sockets x)) closed)
      in (closed,
          st\<lparr>ws_sessions := filter (\<lambda>x. s_guid x \<notin> set guids) (ws_sessions st),
             ws_tickets := filter (\<lambda>(hash, _). hash \<notin> set hashes) (ws_tickets st),
             ws_notified := ws_notified st @ calls\<rparr>))"

text \<open>What the timer of \<open>withDeadline\<close> does when it fires.\<close>

definition expire_deadline :: "deadline \<Rightarrow> session_state \<Rightarrow> session_state" where
  "expire_deadline d st =
     (let st1 = st\<lparr>ws_pending := d # ws_pending st, ws_epoch := ws_epoch st + 1\<rparr>;
          (closed, st2) = invalidate (ws_sessions st1) (\<lambda>_. ''verification_timeout'') st1
      in if closed = [] then st2 else st2\<lparr>ws_emergency := ws_emergency st2 @ [closed]\<rparr>)"

definition timed_out :: http_error where
  "timed_out = ServiceUnavailableException ''Web client verification timed out''"

definition withDeadline :: "operation \<Rightarrow> (string \<times> int) result cont \<Rightarrow> session_proc" where
  "withDeadline op k =
     Eff (\<lambda>st.
       let d = Single (ws_next st)
       in (st\<lparr>ws_next := ws_next st + 1\<rparr>,
           Await (Deadline d op) (\<lambda>a.
             case a of
               Settled r \<Rightarrow> k r
             | _ \<Rightarrow> Eff (\<lambda>st. (expire_deadline d st, k (Inl timed_out))))))"

definition session_audit ::
  "web_session \<Rightarrow> string \<Rightarrow> string \<Rightarrow> (string \<times> json) list \<Rightarrow> string option \<Rightarrow> int \<Rightarrow> audit_event" where
  "session_audit x event source metadata actorGuid now =
     \<lparr>ev_actor = Some (case actorGuid of None \<Rightarrow> wa_id (s_actor x) | Some g \<Rightarrow> g),
      ev_target_type = ''web_client_session'', ev_target = Some (s_guid x),
      ev_action = ''web_client.'' @ event,
      ev_result = (if event = ''remote_auth_failed'' \<or> event = ''file_failed'' then Denied else Allowed),
      ev_reason = None, ev_before = None,
      ev_after = Some (JObj (
        [(''targetId'', JStr (s_targetId x)), (''peerUuid'', JStr (s_peerUuid x)),
         (''kind'', JStr (if s_kind x = File then ''file'' else ''desktop'')),
         (''parentGuid'', case s_parentGuid x of None \<Rightarrow> JNull | Some g \<Rightarrow> JStr g),
         (''event'', JStr event), (''source'', JStr source), (''occurredAt'', JNum now)] @ metadata))\<rparr>"

definition recordEvent ::
  "web_session \<Rightarrow> string \<Rightarrow> string \<Rightarrow> (string \<times> json) list \<Rightarrow> string option \<Rightarrow>
   (string \<times> int) result cont \<Rightarrow> session_proc" where
  "recordEvent x event source metadata actorGuid k =
     Eff (\<lambda>st. (st, withDeadline (AuditRecord (session_audit x event source metadata actorGuid (ws_now st))) k))"

primrec persistTerminations ::
  "(web_session \<times> string) list \<Rightarrow> string option \<Rightarrow> unit cont \<Rightarrow> session_proc" where
  "persistTerminations [] closedBy k = k ()"
| "persistTerminations (c # rest) closedBy k =
     await (recordEvent (fst c) ''session_ended'' ''server''
             ((''reason'', JStr (snd c)) # (case closedBy of None \<Rightarrow> [] | Some g \<Rightarrow> [(''closedBy'', JStr g)])) closedBy)
       (\<lambda>r. case r of Inl _ \<Rightarrow> k () | Inr _ \<Rightarrow> persistTerminations rest closedBy k)"

definition TERMINATION_REASONS :: "string list" where
  "TERMINATION_REASONS =
     [''cancelled'', ''admin_disconnect'', ''client_closed'', ''upstream_closed'', ''upstream_error'',
      ''protocol_error'', ''overloaded'', ''authorization_revoked'', ''authentication_revoked'',
      ''verification_timeout'', ''handshake_timeout'', ''expired'', ''pending_expired'',
      ''parent_closed'', ''application_shutdown'', ''audit_unavailable'', ''connection_closed'']"

definition family_of :: "session_state \<Rightarrow> web_session \<Rightarrow> web_session list" where
  "family_of st x = x # filter (\<lambda>child. s_parentGuid child = Some (s_guid x)) (ws_sessions st)"

definition closeGrant :: "string \<Rightarrow> string \<Rightarrow> string option \<Rightarrow> unit cont \<Rightarrow> session_proc" where
  "closeGrant guid rawReason closedBy k =
     Eff (\<lambda>st.
       case find_session st guid of
         None \<Rightarrow> (st, k ())
       | Some x \<Rightarrow>
           let reason = (if rawReason \<in> set TERMINATION_REASONS then rawReason else ''connection_closed'');
               (closed, st') = invalidate (family_of st x)
                 (\<lambda>item. if s_guid item = guid then reason else ''parent_closed'') st
           in (st', await (persistTerminations closed closedBy) k))"

subsection \<open>Revalidation\<close>

text \<open>What \<open>ensureValid\<close> does with the answer of the authorization, up to the first throw.\<close>

definition apply_validation ::
  "web_session \<Rightarrow> (string \<times> int) result \<Rightarrow> session_state \<Rightarrow> unit result \<times> session_state" where
  "apply_validation x r st =
     (case r of
        Inl e \<Rightarrow> (Inl e, st)
      | Inr (_, expiresAt) \<Rightarrow>
          (case assertCurrent st x of
             Inl e \<Rightarrow> (Inl e, st)
           | Inr _ \<Rightarrow>
               let st' = update_session (s_guid x) (\<lambda>y. y\<lparr>s_expiresAt := min (s_expiresAt y) expiresAt\<rparr>) st
               in (rbind (profileIdentity (ws_config st')) (\<lambda>p.
                     if s_profileIdentity x \<noteq> p
                     then Inl (ForbiddenException ''Web client configuration changed'')
                     else rbind
                       (case s_parentGuid x of
                          None \<Rightarrow> Inr ()
                        | Some g \<Rightarrow>
                            if g = [] then Inr ()
                            else rbind (current st' g) (\<lambda>parent.
                              if \<not> s_active parent \<or> wa_id (s_actor parent) \<noteq> wa_id (s_actor x) \<or>
                                 wa_jti (s_actor parent) \<noteq> wa_jti (s_actor x)
                              then Inl (ForbiddenException ''Parent session is unavailable'') else Inr ()))
                       (\<lambda>_. assertCurrent st' x)), st')))"

definition is_unauthorized :: "http_error \<Rightarrow> bool" where
  "is_unauthorized e = (case e of UnauthorizedException _ \<Rightarrow> True | _ \<Rightarrow> False)"

definition revalidated :: "web_session \<Rightarrow> (string \<times> int) result \<Rightarrow> unit result cont \<Rightarrow> session_proc" where
  "revalidated x r k =
     Eff (\<lambda>st.
       case apply_validation x r st of
         (Inr _, st') \<Rightarrow> (st', k (Inr ()))
       | (Inl e, st') \<Rightarrow>
           (st', await (closeGrant (s_guid x)
                         (if is_unauthorized e then ''authentication_revoked'' else ''authorization_revoked'') None)
                   (\<lambda>_. k (Inl e))))"

definition ensureValid :: "string \<Rightarrow> unit result cont \<Rightarrow> session_proc" where
  "ensureValid guid k =
     Eff (\<lambda>st.
       case current st guid of
         Inl e \<Rightarrow> (st, k (Inl e))
       | Inr x \<Rightarrow>
           (st, await (withDeadline (Authorize (s_actor x) (s_targetId x) (s_kind x) (Some (s_peerUuid x))))
                  (\<lambda>r. revalidated x r k)))"

subsection \<open>Creating sessions\<close>

record create_request =
  cr_actor :: web_actor
  cr_target :: string
  cr_kind :: web_client_kind
  cr_parent :: "string option"
  cr_guid :: string
  cr_rendezvous :: string
  cr_relay :: string

definition session_unavailable :: http_error where
  "session_unavailable = ServiceUnavailableException ''Web client is unavailable''"

definition thrown :: "http_error \<Rightarrow> http_error" where
  "thrown e = (case e of
     OtherError _ \<Rightarrow> ServiceUnavailableException ''Web client authorization is unavailable'' | _ \<Rightarrow> e)"

definition denial_audit :: "create_request \<Rightarrow> string option \<Rightarrow> audit_event" where
  "denial_audit rq targetId =
     \<lparr>ev_actor = Some (wa_id (cr_actor rq)), ev_target_type = ''web_client_session'',
      ev_target = Some (cr_guid rq), ev_action = ''web_client.request_denied'', ev_result = Denied,
      ev_reason = Some ''Web client authorization rejected'', ev_before = None,
      ev_after = Some (JObj (
        [(''event'', JStr ''request_denied''), (''source'', JStr ''server''),
         (''kind'', JStr (if cr_kind rq = File then ''file'' else ''desktop''))] @
        (case targetId of None \<Rightarrow> [] | Some t \<Rightarrow> if t = [] then [] else [(''targetId'', JStr t)])))\<rparr>"

text \<open>The \<open>catch\<close> and the \<open>finally\<close> of \<open>create\<close>.\<close>

definition finish_create :: "create_request \<Rightarrow> bool \<Rightarrow> session_state \<Rightarrow> session_state" where
  "finish_create rq reserved st = (if reserved then releaseReservation (wa_id (cr_actor rq)) st else st)"

definition create_denied ::
  "create_request \<Rightarrow> string option \<Rightarrow> bool \<Rightarrow> http_error \<Rightarrow> web_grant result cont \<Rightarrow> session_proc" where
  "create_denied rq targetId reserved e k =
     Eff (\<lambda>st.
       if ws_pending st \<noteq> [] then (finish_create rq reserved st, k (Inl (thrown e)))
       else (st, await (withDeadline (AuditRecord (denial_audit rq targetId))) (\<lambda>_.
                   Eff (\<lambda>st. (finish_create rq reserved st, k (Inl (thrown e)))))))"

definition parent_unavailable :: http_error where
  "parent_unavailable = ForbiddenException ''Web client parent session is unavailable''"

definition create_checks ::
  "create_request \<Rightarrow> string \<Rightarrow> session_state \<Rightarrow> (web_configuration \<times> profile \<times> web_session option) result" where
  "create_checks rq targetId st =
     rbind (requireConfiguration (ws_config st)) (\<lambda>cfg.
     rbind (profileIdentity (ws_config st)) (\<lambda>identity.
     rbind (if cr_kind rq = File
            then rbind (owned st (case cr_parent rq of None \<Rightarrow> [] | Some g \<Rightarrow> g) (cr_actor rq)) (\<lambda>p. Inr (Some p))
            else Inr None) (\<lambda>parent.
       if (cr_kind rq = Desktop \<and> cr_parent rq \<noteq> None \<and> cr_parent rq \<noteq> Some []) \<or>
          (case parent of None \<Rightarrow> False
           | Some p \<Rightarrow> s_kind p \<noteq> Desktop \<or> s_targetId p \<noteq> targetId \<or> \<not> s_active p)
       then Inl parent_unavailable
       else Inr (cfg, identity, parent))))"

definition new_session ::
  "create_request \<Rightarrow> string \<Rightarrow> web_configuration \<Rightarrow> profile \<Rightarrow> web_session option \<Rightarrow>
   string \<times> int \<Rightarrow> session_state \<Rightarrow> web_session" where
  "new_session rq targetId cfg identity parent answer st =
     (let now = ws_now st;
          limit = min (now + 8 * 60 * 60 * 1000) (snd answer)
      in \<lparr>s_guid = cr_guid rq, s_actor = cr_actor rq, s_targetId = targetId, s_peerUuid = fst answer,
          s_kind = cr_kind rq, s_parentGuid = cr_parent rq, s_createdAt = now,
          s_expiresAt = (case parent of None \<Rightarrow> limit | Some p \<Rightarrow> min limit (s_expiresAt (session_object st p))),
          s_profileIdentity = identity, s_serverPublicKey = wf_public_key cfg, s_relayUuid = None,
          s_active = False, s_ticketHashes = [], s_sockets = [], s_reports = 0, s_reportWindow = now,
          s_windowReports = 0\<rparr>)"

definition no_longer_available :: http_error where
  "no_longer_available = ForbiddenException ''Web client session is no longer available''"

text \<open>The checks after the request has been audited, before any ticket exists.\<close>

definition issue_checks :: "nat \<Rightarrow> web_session option \<Rightarrow> web_session \<Rightarrow> session_state \<Rightarrow> unit result" where
  "issue_checks epoch parent x st =
     (if ws_stopped st \<or> ws_pending st \<noteq> [] \<or> epoch \<noteq> ws_epoch st then Inl no_longer_available
      else rbind (profileIdentity (ws_config st)) (\<lambda>identity.
        if s_profileIdentity x \<noteq> identity \<or> s_expiresAt x \<le> ws_now st \<or>
           (case parent of None \<Rightarrow> False | Some p \<Rightarrow> find_session st (s_guid p) = None)
        then Inl no_longer_available else Inr ()))"

definition issue_session ::
  "(string \<Rightarrow> string) \<Rightarrow> create_request \<Rightarrow> web_session \<Rightarrow> session_state \<Rightarrow> session_state" where
  "issue_session h rq x st =
     (let rendezvous = h (cr_rendezvous rq);
          relay = h (cr_relay rq);
          ends = min (ws_now st + 60000) (s_expiresAt x);
          add = (\<lambda>hash phase m. AList.update hash \<lparr>t_session = s_guid x, t_phase = phase, t_expires = ends\<rparr> m)
      in put_session (x\<lparr>s_ticketHashes := [rendezvous, relay]\<rparr>)
           (st\<lparr>ws_tickets := add relay RelayPhase (add rendezvous Rendezvous (ws_tickets st)),
               ws_fresh := ws_fresh st - {#FreshGuid (s_guid x), FreshHash rendezvous, FreshHash relay#}\<rparr>))"

definition create_issue ::
  "(string \<Rightarrow> string) \<Rightarrow> create_request \<Rightarrow> nat \<Rightarrow> web_session option \<Rightarrow> web_session \<Rightarrow>
   web_grant result cont \<Rightarrow> session_proc" where
  "create_issue h rq epoch parent x k =
     Eff (\<lambda>st.
       case issue_checks epoch parent x st of
         Inl e \<Rightarrow> (st, create_denied rq (Some (s_targetId x)) True e k)
       | Inr _ \<Rightarrow>
           (finish_create rq True (issue_session h rq x st),
            k (Inr \<lparr>g_session = s_guid x, g_rendezvous = cr_rendezvous rq, g_relay = cr_relay rq,
                    g_expires = s_expiresAt x\<rparr>)))"

definition create_validate ::
  "(string \<Rightarrow> string) \<Rightarrow> create_request \<Rightarrow> string \<Rightarrow> nat \<Rightarrow>
   web_configuration \<Rightarrow> profile \<Rightarrow> web_session option \<Rightarrow> web_grant result cont \<Rightarrow> session_proc" where
  "create_validate h rq targetId epoch cfg identity parent k =
     await (withDeadline (Authorize (cr_actor rq) targetId (cr_kind rq) None)) (\<lambda>r.
       case r of
         Inl e \<Rightarrow> create_denied rq (Some targetId) True e k
       | Inr answer \<Rightarrow>
           Eff (\<lambda>st.
             let x = new_session rq targetId cfg identity parent answer st
             in (st, await (recordEvent x ''request_allowed'' ''server'' [] None) (\<lambda>r.
                       case r of
                         Inl e \<Rightarrow> create_denied rq (Some targetId) True e k
                       | Inr _ \<Rightarrow> create_issue h rq epoch parent x k))))"

definition create :: "(string \<Rightarrow> string) \<Rightarrow> create_request \<Rightarrow> web_grant result cont \<Rightarrow> session_proc" where
  "create h rq k =
     Eff (\<lambda>st.
       if ws_stopped st \<or> ws_pending st \<noteq> [] then (st, create_denied rq None False session_unavailable k)
       else
         case normalizeWebClientTarget (cr_target rq) of
           Inl e \<Rightarrow> (st, create_denied rq None False e k)
         | Inr targetId \<Rightarrow>
             (case reserve (wa_id (cr_actor rq)) st of
                Inl e \<Rightarrow> (st, create_denied rq (Some targetId) False e k)
              | Inr st1 \<Rightarrow>
                  (case create_checks rq targetId st1 of
                     Inl e \<Rightarrow> (st1, create_denied rq (Some targetId) True e k)
                   | Inr (cfg, identity, parent) \<Rightarrow>
                       (st1,
                        case parent of
                          None \<Rightarrow> create_validate h rq targetId (ws_epoch st) cfg identity parent k
                        | Some p \<Rightarrow>
                            await (ensureValid (s_guid p)) (\<lambda>r.
                              case r of
                                Inl e \<Rightarrow> create_denied rq (Some targetId) True e k
                              | Inr _ \<Rightarrow> create_validate h rq targetId (ws_epoch st) cfg identity parent k)))))"

definition file_denial_audit :: "web_actor \<Rightarrow> string \<Rightarrow> audit_event" where
  "file_denial_audit actor parentGuid =
     \<lparr>ev_actor = Some (wa_id actor), ev_target_type = ''web_client_session'', ev_target = Some parentGuid,
      ev_action = ''web_client.request_denied'', ev_result = Denied,
      ev_reason = Some ''Web client parent session rejected'', ev_before = None,
      ev_after = Some (JObj [(''kind'', JStr ''file''), (''parentGuid'', JStr parentGuid),
        (''event'', JStr ''request_denied''), (''source'', JStr ''server'')])\<rparr>"

definition createFile ::
  "(string \<Rightarrow> string) \<Rightarrow> create_request \<Rightarrow> string \<Rightarrow> web_grant result cont \<Rightarrow> session_proc" where
  "createFile h rq parentGuid k =
     Eff (\<lambda>st.
       case owned st parentGuid (cr_actor rq) of
         Inl e \<Rightarrow>
           (st, if ws_pending st \<noteq> [] then k (Inl e)
                else await (withDeadline (AuditRecord (file_denial_audit (cr_actor rq) parentGuid)))
                       (\<lambda>_. k (Inl e)))
       | Inr parent \<Rightarrow>
           (st, create h (rq\<lparr>cr_target := s_targetId parent, cr_kind := File, cr_parent := Some parentGuid\<rparr>) k))"

subsection \<open>The gateway and the browser\<close>

definition ticket_char :: "char \<Rightarrow> bool" where
  "ticket_char ch = (ascii_letter ch \<or> (let n = (of_char ch :: nat) in (48 \<le> n \<and> n \<le> 57) \<or> n = 95 \<or> n = 45))"

definition ticket_format :: "string \<Rightarrow> bool" where
  "ticket_format v \<longleftrightarrow> length v = 43 \<and> list_all ticket_char v"

text \<open>The ticket is taken out of the map before anything is awaited.\<close>

definition take_ticket :: "string \<Rightarrow> session_state \<Rightarrow> session_state" where
  "take_ticket hash st =
     st\<lparr>ws_tickets := AList.delete hash (ws_tickets st),
        ws_claimed := ws_claimed st @ (if map_of (ws_tickets st) hash = None then [] else [hash])\<rparr>"

definition ticket_session :: "string \<Rightarrow> session_state \<Rightarrow> (ticket \<times> web_session) result" where
  "ticket_session hash st =
     (case map_of (ws_tickets st) hash of
        None \<Rightarrow> Inl (ForbiddenException ''Invalid or expired web client ticket'')
      | Some t \<Rightarrow>
          if t_expires t \<le> ws_now st then Inl (ForbiddenException ''Invalid or expired web client ticket'')
          else rbind (current st (t_session t)) (\<lambda>x.
            if t_phase t = RelayPhase \<and> s_relayUuid x = None
            then Inl (ForbiddenException ''Relay has not been bound'') else Inr (t, x)))"

definition consumeTicket :: "(string \<Rightarrow> string) \<Rightarrow> string \<Rightarrow> gateway_claim result cont \<Rightarrow> session_proc" where
  "consumeTicket h v k =
     (if \<not> ticket_format v then k (Inl (ForbiddenException ''Invalid web client ticket''))
      else Eff (\<lambda>st.
        (take_ticket (h v) st,
         case ticket_session (h v) st of
           Inl e \<Rightarrow> k (Inl e)
         | Inr (t, x) \<Rightarrow>
             await (ensureValid (s_guid x)) (\<lambda>r.
               case r of
                 Inl e \<Rightarrow> k (Inl e)
               | Inr _ \<Rightarrow>
                   Eff (\<lambda>st. (st, k (rbind (current st (s_guid x)) (\<lambda>y.
                     Inr \<lparr>c_session = s_guid y, c_target = s_targetId y, c_kind = s_kind y,
                          c_phase = t_phase t, c_relay = s_relayUuid y, c_key = s_serverPublicKey y\<rparr>))))))))"

definition bindRelay :: "string \<Rightarrow> string \<Rightarrow> session_state \<Rightarrow> unit result \<times> session_state" where
  "bindRelay guid uuid st =
     (case current st guid of
        Inl e \<Rightarrow> (Inl e, st)
      | Inr x \<Rightarrow>
          if \<not> uuid_format (map of_char uuid) \<or> s_relayUuid x \<noteq> None \<or>
             list_ex (\<lambda>y. s_guid y \<noteq> guid \<and> s_relayUuid y = Some uuid) (ws_sessions st)
          then (Inl (ForbiddenException ''Invalid relay binding''), st)
          else (Inr (), update_session guid (\<lambda>y. y\<lparr>s_relayUuid := Some uuid\<rparr>) st))"

definition attach :: "string \<Rightarrow> nat \<Rightarrow> session_state \<Rightarrow> unit result \<times> session_state" where
  "attach guid socket st =
     (case current st guid of
        Inl e \<Rightarrow> (Inl e, st)
      | Inr x \<Rightarrow>
          if length (s_sockets x) \<ge> 2
          then (Inl (ForbiddenException ''Web client channel limit exceeded''), st)
          else (Inr (), update_session guid (\<lambda>y. y\<lparr>s_sockets := List.insert socket (s_sockets y)\<rparr>) st))"

text \<open>The function \<open>attach\<close> returns.\<close>

definition detach :: "string \<Rightarrow> nat \<Rightarrow> session_state \<Rightarrow> session_state" where
  "detach guid socket = update_session guid (\<lambda>y. y\<lparr>s_sockets := removeAll socket (s_sockets y)\<rparr>)"

definition invalid_lifecycle :: http_error where
  "invalid_lifecycle = ForbiddenException ''Invalid relay lifecycle''"

definition markRelayOpen :: "string \<Rightarrow> unit result cont \<Rightarrow> session_proc" where
  "markRelayOpen guid k =
     Eff (\<lambda>st.
       case current st guid of
         Inl e \<Rightarrow> (st, k (Inl e))
       | Inr x \<Rightarrow>
           (st, await (ensureValid guid) (\<lambda>r.
              case r of
                Inl e \<Rightarrow> k (Inl e)
              | Inr _ \<Rightarrow> Eff (\<lambda>st.
                  let y = session_object st x
                  in (st,
                      if s_active y \<or> s_relayUuid y = None then k (Inl invalid_lifecycle)
                      else await (recordEvent y ''gateway_open'' ''server'' [] None) (\<lambda>r.
                        case r of
                          Inl _ \<Rightarrow> await (closeGrant guid ''audit_unavailable'' None) (\<lambda>_.
                            k (Inl (ServiceUnavailableException ''Web client audit is unavailable'')))
                        | Inr _ \<Rightarrow> Eff (\<lambda>st.
                            case assertCurrent st x of
                              Inl e \<Rightarrow> (st, k (Inl e))
                            | Inr _ \<Rightarrow>
                                (update_session guid (\<lambda>z. z\<lparr>s_active := True\<rparr>) st, k (Inr ())))))))))"

record event_dto =
  e_event :: string
  e_fileName :: "string option"
  e_size :: "int option"
  e_direction :: "string option"

definition WEB_CLIENT_BROWSER_EVENTS :: "string list" where
  "WEB_CLIENT_BROWSER_EVENTS =
     [''remote_auth_succeeded'', ''remote_auth_failed'', ''file_started'', ''file_completed'', ''file_failed'']"

definition file_event :: "event_dto \<Rightarrow> bool" where
  "file_event dto = is_prefix ''file_'' (e_event dto)"

definition event_metadata_ok :: "web_session \<Rightarrow> event_dto \<Rightarrow> bool" where
  "event_metadata_ok x dto =
     (if file_event dto
      then s_kind x = File \<and> e_fileName dto \<noteq> None \<and> e_fileName dto \<noteq> Some [] \<and> e_size dto \<noteq> None \<and>
           e_direction dto \<noteq> None \<and> e_direction dto \<noteq> Some []
      else e_fileName dto = None \<and> e_size dto = None \<and> e_direction dto = None)"

definition report_window :: "int \<Rightarrow> web_session \<Rightarrow> web_session" where
  "report_window now x =
     (if now - s_reportWindow x \<ge> 1000 then x\<lparr>s_reportWindow := now, s_windowReports := 0\<rparr> else x)"

definition count_report :: "web_session \<Rightarrow> web_session" where
  "count_report x = x\<lparr>s_reports := s_reports x + 1, s_windowReports := s_windowReports x + 1\<rparr>"

text \<open>The checks and counters of a report.\<close>

definition admit_report :: "web_session \<Rightarrow> event_dto \<Rightarrow> session_state \<Rightarrow> unit result \<times> session_state" where
  "admit_report x dto st =
     (let y = session_object st x
      in if e_event dto \<notin> set WEB_CLIENT_BROWSER_EVENTS \<or> \<not> s_active y
         then (Inl (BadRequestException ''Invalid web client event''), st)
         else if \<not> event_metadata_ok y dto
         then (Inl (BadRequestException ''Invalid web client event metadata''), st)
         else
           let z = report_window (ws_now st) y;
               st1 = update_session (s_guid x) (report_window (ws_now st)) st
           in if s_reports z \<ge> 1024 \<or> s_windowReports z \<ge> 4
              then (Inl (TooManyRequestsException ''Web client event limit exceeded''), st1)
              else (Inr (), update_session (s_guid x) count_report st1))"

definition report :: "web_actor \<Rightarrow> string \<Rightarrow> event_dto \<Rightarrow> unit result cont \<Rightarrow> session_proc" where
  "report actor guid dto k =
     Eff (\<lambda>st.
       case owned st guid actor of
         Inl e \<Rightarrow> (st, k (Inl e))
       | Inr x \<Rightarrow>
           (st, await (ensureValid guid) (\<lambda>r.
              case r of
                Inl e \<Rightarrow> k (Inl e)
              | Inr _ \<Rightarrow> Eff (\<lambda>st.
                  case admit_report x dto st of
                    (Inl e, st') \<Rightarrow> (st', k (Inl e))
                  | (Inr _, st') \<Rightarrow>
                      (st', await (recordEvent x (e_event dto) ''browser''
                          (if file_event dto
                           then [(''fileName'', JStr (case e_fileName dto of None \<Rightarrow> [] | Some n \<Rightarrow> n)),
                                 (''size'', JNum (case e_size dto of None \<Rightarrow> 0 | Some n \<Rightarrow> n)),
                                 (''direction'', JStr (case e_direction dto of None \<Rightarrow> [] | Some n \<Rightarrow> n))]
                           else []) None)
                        (\<lambda>r. case r of
                           Inl e \<Rightarrow> k (Inl e)
                         | Inr _ \<Rightarrow> Eff (\<lambda>st. (st, k (assertCurrent st x)))))))))"

definition requireOwnedActive :: "web_actor \<Rightarrow> string \<Rightarrow> unit result cont \<Rightarrow> session_proc" where
  "requireOwnedActive actor guid k =
     Eff (\<lambda>st.
       case owned st guid actor of
         Inl e \<Rightarrow> (st, k (Inl e))
       | Inr x \<Rightarrow>
           (st, if \<not> s_active x \<or> s_kind x \<noteq> Desktop then k (Inl unavailable_session)
                else await (ensureValid guid) (\<lambda>r.
                  case r of
                    Inl e \<Rightarrow> k (Inl e)
                  | Inr _ \<Rightarrow> Eff (\<lambda>st. (st, k (rbind (current st guid) (\<lambda>y.
                      if s_active y then Inr () else Inl unavailable_session)))))))"

definition end_session :: "web_actor \<Rightarrow> string \<Rightarrow> unit result cont \<Rightarrow> session_proc" where
  "end_session actor guid k =
     Eff (\<lambda>st.
       case find_session st guid of
         None \<Rightarrow> (st, k (Inr ()))
       | Some x \<Rightarrow>
           let self = (wa_id (s_actor x) = wa_id actor \<and> wa_jti (s_actor x) = wa_jti actor)
           in (st,
               if self then await (closeGrant guid ''cancelled'' (Some (wa_id actor))) (\<lambda>_. k (Inr ()))
               else await (withDeadline (AuthorizeDisconnect actor (s_peerUuid x))) (\<lambda>r.
                 case r of
                   Inl e \<Rightarrow> k (Inl e)
                 | Inr _ \<Rightarrow> Eff (\<lambda>st.
                     (st, if find_session st guid = None then k (Inr ())
                          else await (closeGrant guid ''admin_disconnect'' (Some (wa_id actor)))
                                 (\<lambda>_. k (Inr ())))))))"

subsection \<open>The periodic revalidation and the shutdown\<close>

definition drop_expired_tickets :: "session_state \<Rightarrow> session_state" where
  "drop_expired_tickets st =
     st\<lparr>ws_tickets := filter (\<lambda>(_, t). \<not> t_expires t \<le> ws_now st) (ws_tickets st)\<rparr>"

primrec sweep :: "web_session list \<Rightarrow> unit cont \<Rightarrow> session_proc" where
  "sweep [] k = k ()"
| "sweep (x # xs) k =
     Eff (\<lambda>st.
       if find_session st (s_guid x) = None then (st, sweep xs k)
       else
         let y = session_object st x
         in (st,
             if ws_now st \<ge> s_expiresAt y
             then await (closeGrant (s_guid x) ''expired'' None) (\<lambda>_. sweep xs k)
             else if \<not> s_active y \<and> ws_now st - s_createdAt y \<ge> 120000
             then await (closeGrant (s_guid x) ''pending_expired'' None) (\<lambda>_. sweep xs k)
             else await (ensureValid (s_guid x)) (\<lambda>_. sweep xs k)))"

text \<open>
  The deadline of the whole round is the token \<open>ws_checking\<close> holds while it has neither passed
  nor been reached (\<open>checking\<close> in the code); when it passes, \<open>round_timeout\<close> happens and the
  round itself goes on.
\<close>

definition finish_round :: "deadline \<Rightarrow> session_state \<Rightarrow> session_state" where
  "finish_round d st =
     st\<lparr>ws_pending := removeAll d (ws_pending st),
        ws_checking := (if ws_checking st = Some d then None else ws_checking st)\<rparr>"

definition round_timeout :: "deadline \<Rightarrow> session_state \<Rightarrow> session_state" where
  "round_timeout d st = (expire_deadline d st)\<lparr>ws_checking := None\<rparr>"

definition revalidateSessions :: "unit cont \<Rightarrow> session_proc" where
  "revalidateSessions k =
     Eff (\<lambda>st.
       if ws_checking st \<noteq> None \<or> ws_stopped st then (st, k ())
       else
         let d = Round (ws_next st)
         in (st\<lparr>ws_checking := Some d, ws_next := ws_next st + 1\<rparr>,
             Await Turn (\<lambda>_. Eff (\<lambda>st.
               let st1 = drop_expired_tickets st
               in (st1, sweep (ws_sessions st1) (\<lambda>_. Eff (\<lambda>st. (finish_round d st, k ()))))))))"

definition onModuleDestroy :: "unit cont \<Rightarrow> session_proc" where
  "onModuleDestroy k =
     Eff (\<lambda>st.
       let (closed, st') = invalidate (ws_sessions st) (\<lambda>_. ''application_shutdown'') (st\<lparr>ws_stopped := True\<rparr>)
       in (st', await (persistTerminations closed None) (\<lambda>_. Await Turn (\<lambda>_. k ()))))"

subsection \<open>Requests and their interleaving\<close>

datatype request =
    CreateSession create_request
  | CreateFile create_request string
  | ConsumeTicket string
  | BindRelay string string
  | Attach string nat
  | Detach string nat
  | MarkRelayOpen string
  | EnsureValid string
  | CloseGrant string string "string option"
  | Report web_actor string event_dto
  | RequireOwnedActive web_actor string
  | EndSession web_actor string
  | Revalidate
  | Destroy

definition answer_unit :: "unit result cont" where
  "answer_unit r = Finished (case r of Inl e \<Rightarrow> Failed e | Inr _ \<Rightarrow> Succeeded)"

definition answer_done :: "unit cont" where
  "answer_done u = Finished Succeeded"

definition answer_grant :: "web_grant result cont" where
  "answer_grant r = Finished (case r of Inl e \<Rightarrow> Failed e | Inr g \<Rightarrow> Granted g)"

definition answer_claim :: "gateway_claim result cont" where
  "answer_claim r = Finished (case r of Inl e \<Rightarrow> Failed e | Inr c \<Rightarrow> Claimed c)"

fun handle :: "(string \<Rightarrow> string) \<Rightarrow> request \<Rightarrow> session_proc" where
  "handle h (CreateSession rq) = create h rq answer_grant"
| "handle h (CreateFile rq g) = createFile h rq g answer_grant"
| "handle h (ConsumeTicket v) = consumeTicket h v answer_claim"
| "handle h (BindRelay g uuid) = Eff (\<lambda>st. case bindRelay g uuid st of (r, st') \<Rightarrow> (st', answer_unit r))"
| "handle h (Attach g s) = Eff (\<lambda>st. case attach g s st of (r, st') \<Rightarrow> (st', answer_unit r))"
| "handle h (Detach g s) = Eff (\<lambda>st. (detach g s st, answer_done ()))"
| "handle h (MarkRelayOpen g) = markRelayOpen g answer_unit"
| "handle h (EnsureValid g) = ensureValid g answer_unit"
| "handle h (CloseGrant g reason by) = closeGrant g reason by answer_done"
| "handle h (Report actor g dto) = report actor g dto answer_unit"
| "handle h (RequireOwnedActive actor g) = requireOwnedActive actor g answer_unit"
| "handle h (EndSession actor g) = end_session actor g answer_unit"
| "handle h Revalidate = revalidateSessions answer_done"
| "handle h Destroy = onModuleDestroy answer_done"

definition random_values :: "request \<Rightarrow> create_request option" where
  "random_values rq = (case rq of CreateSession r \<Rightarrow> Some r | CreateFile r _ \<Rightarrow> Some r | _ \<Rightarrow> None)"

text \<open>The random values of a request are new: a fresh identifier and two tickets with fresh hashes.\<close>

definition fresh_values :: "(string \<Rightarrow> string) \<Rightarrow> create_request \<Rightarrow> session_state \<Rightarrow> bool" where
  "fresh_values h r st \<longleftrightarrow>
     cr_guid r \<noteq> [] \<and> cr_guid r \<notin> set (ws_seen st) \<and> h (cr_rendezvous r) \<noteq> h (cr_relay r) \<and>
     h (cr_rendezvous r) \<notin> set (ws_issued st) \<and> h (cr_relay r) \<notin> set (ws_issued st)"

definition draw :: "(string \<Rightarrow> string) \<Rightarrow> create_request \<Rightarrow> session_state \<Rightarrow> session_state" where
  "draw h r st =
     st\<lparr>ws_fresh := ws_fresh st +
          {#FreshGuid (cr_guid r), FreshHash (h (cr_rendezvous r)), FreshHash (h (cr_relay r))#},
        ws_seen := cr_guid r # ws_seen st,
        ws_issued := h (cr_rendezvous r) # h (cr_relay r) # ws_issued st\<rparr>"

text \<open>
  A step of the service: a request arrives, a process goes on until its next wait with any
  answer, the audit of a timeout starts, a query that had timed out settles, the deadline of a
  round passes, time goes by, the configuration is replaced.
\<close>

inductive session_step ::
  "(string \<Rightarrow> string) \<Rightarrow> session_state \<times> session_proc list \<Rightarrow> session_state \<times> session_proc list \<Rightarrow> bool"
  for h where
  step_random: "random_values rq = Some r \<Longrightarrow> fresh_values h r st \<Longrightarrow>
    session_step h (st, ps) (draw h r st, ps @ [handle h rq])"
| step_request: "random_values rq = None \<Longrightarrow> session_step h (st, ps) (st, ps @ [handle h rq])"
| step_process: "run (continue a p) st = (st', p') \<Longrightarrow>
    session_step h (st, ps @ p # qs) (st', ps @ p' # qs)"
| step_audit: "ws_emergency st = c # cs \<Longrightarrow>
    session_step h (st, ps) (st\<lparr>ws_emergency := cs\<rparr>, ps @ [persistTerminations c None answer_done])"
| step_settled: "session_step h (st, ps) (st\<lparr>ws_pending := removeAll (Single n) (ws_pending st)\<rparr>, ps)"
| step_round: "ws_checking st = Some d \<Longrightarrow> session_step h (st, ps) (round_timeout d st, ps)"
| step_clock: "ws_now st \<le> t \<Longrightarrow> session_step h (st, ps) (st\<lparr>ws_now := t\<rparr>, ps)"
| step_config: "session_step h (st, ps) (st\<lparr>ws_config := c\<rparr>, ps)"

definition initial_sessions :: "int \<Rightarrow> session_state" where
  "initial_sessions now =
     \<lparr>ws_sessions = [], ws_tickets = [], ws_reservations = [], ws_checking = None, ws_stopped = False,
      ws_pending = [], ws_epoch = 0, ws_next = 0, ws_now = now, ws_config = ConfigDisabled,
      ws_emergency = [], ws_notified = [], ws_fresh = {#}, ws_seen = [], ws_issued = [], ws_claimed = []\<rparr>"

inductive session_reachable ::
  "(string \<Rightarrow> string) \<Rightarrow> session_state \<Rightarrow> session_proc list \<Rightarrow> bool" for h where
  reachable_start: "session_reachable h (initial_sessions now) []"
| reachable_step: "session_reachable h st ps \<Longrightarrow> session_step h (st, ps) (st', ps') \<Longrightarrow>
    session_reachable h st' ps'"

end
