(* ===== verification/Web_Session_Safety.thy ===== *)
theory Web_Session_Safety
  imports Web_Session
begin

text \<open>
  What holds of the web client sessions in every interleaving of requests, timeouts and late
  answers. The invariant of the state, the part of it the operations rely on while they wait,
  and the rule for each operation; the properties of \<open>session_reachable\<close> follow from them.
\<close>

subsection \<open>The invariant\<close>

definition reserved_tokens :: "(string \<times> nat) list \<Rightarrow> session_token multiset" where
  "reserved_tokens rs = sum_list (map (\<lambda>(user, n). replicate_mset n (Reserved user)) rs)"

definition tokens :: "session_state \<Rightarrow> session_token multiset" where
  "tokens st = reserved_tokens (ws_reservations st) + ws_fresh st"

definition sessions_of :: "session_state \<Rightarrow> string \<Rightarrow> nat" where
  "sessions_of st user = length (filter (\<lambda>x. wa_id (s_actor x) = user) (ws_sessions st))"

text \<open>Sessions and creations under way never exceed the limits.\<close>

definition within_limits :: "session_state \<Rightarrow> bool" where
  "within_limits st \<longleftrightarrow>
     length (ws_sessions st) + sum_list (map snd (ws_reservations st)) \<le> 256 \<and>
     (\<forall>user. sessions_of st user + js_get (ws_reservations st) user 0 \<le> 8)"

text \<open>A file session has a live, relayed desktop session of the same login and target.\<close>

definition has_parent :: "web_session list \<Rightarrow> web_session \<Rightarrow> bool" where
  "has_parent xs x \<longleftrightarrow>
     (case s_kind x of
        Desktop \<Rightarrow> s_parentGuid x = None \<or> s_parentGuid x = Some []
      | File \<Rightarrow> list_ex (\<lambda>p. s_parentGuid x = Some (s_guid p) \<and> s_kind p = Desktop \<and> s_active p \<and>
                           wa_id (s_actor p) = wa_id (s_actor x) \<and> wa_jti (s_actor p) = wa_jti (s_actor x) \<and>
                           s_targetId p = s_targetId x) xs)"

definition session_ok :: "web_session \<Rightarrow> bool" where
  "session_ok x \<longleftrightarrow>
     s_guid x \<noteq> [] \<and> (s_active x \<longrightarrow> s_relayUuid x \<noteq> None) \<and> length (s_sockets x) \<le> 2 \<and>
     s_reports x \<le> 1024 \<and> s_windowReports x \<le> 4"

definition relays_unique :: "session_state \<Rightarrow> bool" where
  "relays_unique st \<longleftrightarrow>
     (\<forall>x\<in>set (ws_sessions st). \<forall>y\<in>set (ws_sessions st).
        s_relayUuid x \<noteq> None \<longrightarrow> s_relayUuid x = s_relayUuid y \<longrightarrow> s_guid x = s_guid y)"

text \<open>Every ticket belongs to a live session, which drops it when it ends.\<close>

definition tickets_live :: "session_state \<Rightarrow> bool" where
  "tickets_live st \<longleftrightarrow>
     distinct (map fst (ws_tickets st)) \<and>
     list_all (\<lambda>(hash, t). list_ex (\<lambda>x. s_guid x = t_session t \<and> hash \<in> set (s_ticketHashes x)) (ws_sessions st))
       (ws_tickets st)"

text \<open>No session outlives a verification that timed out, or the shutdown.\<close>

definition gate_closed :: "session_state \<Rightarrow> bool" where
  "gate_closed st \<longleftrightarrow> (if ws_stopped st \<or> ws_pending st \<noteq> [] then ws_sessions st = [] else True)"

definition history_ok :: "session_state \<Rightarrow> bool" where
  "history_ok st \<longleftrightarrow>
     distinct (map s_guid (ws_sessions st)) \<and> distinct (map fst (ws_reservations st)) \<and>
     (\<forall>t. count (ws_fresh st) t \<le> 1) \<and> (\<forall>u. Reserved u \<notin># ws_fresh st) \<and>
     (\<forall>x\<in>set (ws_sessions st). s_guid x \<in> set (ws_seen st) \<and> FreshGuid (s_guid x) \<notin># ws_fresh st) \<and>
     (\<forall>g. FreshGuid g \<in># ws_fresh st \<longrightarrow> g \<in> set (ws_seen st)) \<and>
     (\<forall>hash. FreshHash hash \<in># ws_fresh st \<longrightarrow> hash \<in> set (ws_issued st) \<and> hash \<notin> fst ` set (ws_tickets st) \<and>
        hash \<notin> set (ws_claimed st)) \<and>
     fst ` set (ws_tickets st) \<union> set (ws_claimed st) \<subseteq> set (ws_issued st) \<and>
     distinct (ws_claimed st) \<and> set (ws_claimed st) \<inter> fst ` set (ws_tickets st) = {}"

definition sessions_inv :: "session_state \<Rightarrow> bool" where
  "sessions_inv st \<longleftrightarrow>
     within_limits st \<and> list_all (has_parent (ws_sessions st)) (ws_sessions st) \<and> list_all session_ok (ws_sessions st) \<and>
     relays_unique st \<and> tickets_live st \<and> gate_closed st \<and> history_ok st"

subsection \<open>What others may change\<close>

definition evolves :: "web_session \<Rightarrow> web_session \<Rightarrow> bool" where
  "evolves x y \<longleftrightarrow>
     s_guid y = s_guid x \<and> s_actor y = s_actor x \<and> s_targetId y = s_targetId x \<and> s_kind y = s_kind x \<and>
     s_parentGuid y = s_parentGuid x \<and> (s_active x \<longrightarrow> s_active y) \<and>
     (s_relayUuid x \<noteq> None \<longrightarrow> s_relayUuid y = s_relayUuid x)"

text \<open>
  Sessions come into being only under identifiers their creation still owned; those that exist
  keep their identity, stay active and keep their relay until they end. A shutdown is final.
\<close>

definition sessions_rely :: "session_state \<Rightarrow> session_state \<Rightarrow> bool" where
  "sessions_rely st st' \<longleftrightarrow>
     set (ws_seen st) \<subseteq> set (ws_seen st') \<and>
     (\<forall>g\<in>set (ws_seen st). FreshGuid g \<notin># ws_fresh st \<longrightarrow> FreshGuid g \<notin># ws_fresh st') \<and>
     (\<forall>y\<in>set (ws_sessions st'). s_guid y \<in> set (ws_seen st) \<longrightarrow> FreshGuid (s_guid y) \<notin># ws_fresh st \<longrightarrow>
        (\<exists>x\<in>set (ws_sessions st). evolves x y)) \<and>
     (ws_stopped st \<longrightarrow> ws_stopped st')"

definition may_leave :: "session_token multiset \<Rightarrow> bool" where
  "may_leave m \<longleftrightarrow> (\<forall>u. Reserved u \<notin># m)"

lemma evolves_refl: "evolves x x"
  by (simp add: evolves_def)

lemma evolves_trans: "evolves x y \<Longrightarrow> evolves y z \<Longrightarrow> evolves x z"
  by (auto simp: evolves_def)

lemma sessions_rely_refl: "sessions_rely st st"
  by (auto simp: sessions_rely_def intro: evolves_refl)

lemma sessions_relyD:
  assumes "sessions_rely st st'"
  shows "g \<in> set (ws_seen st) \<Longrightarrow> g \<in> set (ws_seen st')"
    and "g \<in> set (ws_seen st) \<Longrightarrow> FreshGuid g \<notin># ws_fresh st \<Longrightarrow> FreshGuid g \<notin># ws_fresh st'"
    and "y \<in> set (ws_sessions st') \<Longrightarrow> s_guid y \<in> set (ws_seen st) \<Longrightarrow>
      FreshGuid (s_guid y) \<notin># ws_fresh st \<Longrightarrow> \<exists>x\<in>set (ws_sessions st). evolves x y"
    and "ws_stopped st \<Longrightarrow> ws_stopped st'"
  using assms by (auto simp: sessions_rely_def)

lemma sessions_relyI:
  assumes "\<And>g. g \<in> set (ws_seen st) \<Longrightarrow> g \<in> set (ws_seen st')"
    and "\<And>g. g \<in> set (ws_seen st) \<Longrightarrow> FreshGuid g \<notin># ws_fresh st \<Longrightarrow> FreshGuid g \<notin># ws_fresh st'"
    and "\<And>y. y \<in> set (ws_sessions st') \<Longrightarrow> s_guid y \<in> set (ws_seen st) \<Longrightarrow>
      FreshGuid (s_guid y) \<notin># ws_fresh st \<Longrightarrow> \<exists>x\<in>set (ws_sessions st). evolves x y"
    and "ws_stopped st \<Longrightarrow> ws_stopped st'"
  shows "sessions_rely st st'"
  using assms by (simp add: sessions_rely_def subset_iff)

lemma sessions_rely_trans:
  assumes r: "sessions_rely s t" "sessions_rely t u"
  shows "sessions_rely s u"
proof (rule sessions_relyI)
  show "g \<in> set (ws_seen u)" if "g \<in> set (ws_seen s)" for g
    using that r by (auto dest: sessions_relyD(1))
  show "FreshGuid g \<notin># ws_fresh u" if "g \<in> set (ws_seen s)" "FreshGuid g \<notin># ws_fresh s" for g
    using sessions_relyD(2) [OF r(2) sessions_relyD(1) [OF r(1) that(1)] sessions_relyD(2) [OF r(1) that]] .
  show "ws_stopped u" if "ws_stopped s"
    using that r by (auto dest: sessions_relyD(4))
  fix z
  assume z: "z \<in> set (ws_sessions u)" "s_guid z \<in> set (ws_seen s)" "FreshGuid (s_guid z) \<notin># ws_fresh s"
  obtain y where y: "y \<in> set (ws_sessions t)" "evolves y z"
    using sessions_relyD(3) [OF r(2) z(1) sessions_relyD(1) [OF r(1) z(2)] sessions_relyD(2) [OF r(1) z(2,3)]]
    by blast
  then have "s_guid y = s_guid z" by (simp add: evolves_def)
  then obtain x where "x \<in> set (ws_sessions s)" "evolves x y"
    using sessions_relyD(3) [OF r(1) y(1)] z(2,3) by auto
  then show "\<exists>x\<in>set (ws_sessions s). evolves x z" using y(2) evolves_trans by blast
qed

interpretation sessions: rely_guarantee sessions_inv sessions_rely tokens may_leave
  by unfold_locales (rule sessions_rely_refl, rule sessions_rely_trans)

abbreviation keeps :: "session_state \<Rightarrow> session_token multiset \<Rightarrow> session_proc \<Rightarrow> session_state \<Rightarrow> bool" where
  "keeps \<equiv> guards sessions_inv sessions_rely tokens may_leave"

abbreviation later :: "session_state \<Rightarrow> session_token multiset \<Rightarrow> 'x cont \<Rightarrow> bool" where
  "later \<equiv> continues sessions_inv sessions_rely tokens may_leave"

subsection \<open>Changes of the state\<close>

text \<open>
  A change that keeps the invariant, is allowed to others, and leaves the tokens alone: the form of
  all changes but those of \<open>create\<close>.
\<close>

definition harmless :: "session_state \<Rightarrow> session_state \<Rightarrow> bool" where
  "harmless st st' \<longleftrightarrow> sessions_inv st' \<and> sessions_rely st st' \<and> tokens st' = tokens st"

lemma harmless_refl: "sessions_inv st \<Longrightarrow> harmless st st"
  by (simp add: harmless_def sessions_rely_refl)

lemma harmless_trans: "harmless s t \<Longrightarrow> harmless t u \<Longrightarrow> harmless s u"
  unfolding harmless_def using sessions_rely_trans by metis

lemma find_session_Some: "find_session st g = Some x \<Longrightarrow> x \<in> set (ws_sessions st) \<and> s_guid x = g"
  by (auto simp: find_session_def find_Some_iff)

lemma find_session_None: "find_session st g = None \<longleftrightarrow> g \<notin> s_guid ` set (ws_sessions st)"
  by (auto simp: find_session_def find_None_iff)

lemma find_session_in:
  assumes "sessions_inv st" "x \<in> set (ws_sessions st)"
  shows "find_session st (s_guid x) = Some x"
proof -
  obtain y where y: "find_session st (s_guid x) = Some y"
    using assms(2) find_session_None [of st "s_guid x"] by fastforce
  then have "y \<in> set (ws_sessions st)" "s_guid y = s_guid x" by (auto dest: find_session_Some)
  moreover have "inj_on s_guid (set (ws_sessions st))"
    using assms(1) by (simp add: sessions_inv_def history_ok_def distinct_map)
  ultimately show ?thesis using y assms(2) by (auto dest: inj_onD)
qed

lemma current_Inr: "current st g = Inr x \<Longrightarrow> find_session st g = Some x \<and> \<not> ws_stopped st"
  by (auto simp: current_def split: option.splits if_splits)

text \<open>Fields that no property speaks of.\<close>

lemma harmless_fields:
  "sessions_inv st \<Longrightarrow> harmless st (st\<lparr>ws_next := n\<rparr>)"
  "sessions_inv st \<Longrightarrow> harmless st (st\<lparr>ws_now := t\<rparr>)"
  "sessions_inv st \<Longrightarrow> harmless st (st\<lparr>ws_config := c\<rparr>)"
  "sessions_inv st \<Longrightarrow> harmless st (st\<lparr>ws_emergency := e\<rparr>)"
  "sessions_inv st \<Longrightarrow> harmless st (st\<lparr>ws_checking := d\<rparr>)"
  "sessions_inv st \<Longrightarrow> harmless st (st\<lparr>ws_pending := removeAll d' (ws_pending st)\<rparr>)"
  by (auto simp: harmless_def sessions_inv_def within_limits_def sessions_of_def 
      relays_unique_def tickets_live_def gate_closed_def history_ok_def tokens_def sessions_rely_def
      intro: evolves_refl split: if_splits)

text \<open>Ending a set of sessions that contains the children of its members.\<close>

lemma historyD:
  assumes "history_ok st"
  shows "distinct (map s_guid (ws_sessions st))"
    and "distinct (map fst (ws_reservations st))"
    and "count (ws_fresh st) t \<le> 1"
    and "Reserved u \<notin># ws_fresh st"
    and "x \<in> set (ws_sessions st) \<Longrightarrow> s_guid x \<in> set (ws_seen st)"
    and "x \<in> set (ws_sessions st) \<Longrightarrow> FreshGuid (s_guid x) \<notin># ws_fresh st"
    and "FreshGuid g \<in># ws_fresh st \<Longrightarrow> g \<in> set (ws_seen st)"
    and "FreshHash hash \<in># ws_fresh st \<Longrightarrow>
      hash \<in> set (ws_issued st) \<and> hash \<notin> fst ` set (ws_tickets st) \<and> hash \<notin> set (ws_claimed st)"
    and "fst ` set (ws_tickets st) \<subseteq> set (ws_issued st)"
    and "set (ws_claimed st) \<subseteq> set (ws_issued st)"
    and "distinct (ws_claimed st)"
    and "set (ws_claimed st) \<inter> fst ` set (ws_tickets st) = {}"
  using assms by (simp_all add: history_ok_def)

lemma history_fewer:
  assumes h: "history_ok st"
    and sub: "set (ws_sessions st') \<subseteq> set (ws_sessions st)" "distinct (map s_guid (ws_sessions st'))"
    and tk: "fst ` set (ws_tickets st') \<subseteq> fst ` set (ws_tickets st)"
    and same: "ws_reservations st' = ws_reservations st" "ws_fresh st' = ws_fresh st"
      "ws_seen st' = ws_seen st" "ws_issued st' = ws_issued st" "ws_claimed st' = ws_claimed st"
  shows "history_ok st'"
  unfolding history_ok_def same
proof (intro conjI)
  show "\<forall>hash. FreshHash hash \<in># ws_fresh st \<longrightarrow>
      hash \<in> set (ws_issued st) \<and> hash \<notin> fst ` set (ws_tickets st') \<and> hash \<notin> set (ws_claimed st)"
    using historyD(8) [OF h] tk by blast
  show "\<forall>x\<in>set (ws_sessions st'). s_guid x \<in> set (ws_seen st) \<and> FreshGuid (s_guid x) \<notin># ws_fresh st"
    using historyD(5,6) [OF h] sub(1) by blast
  show "fst ` set (ws_tickets st') \<union> set (ws_claimed st) \<subseteq> set (ws_issued st)"
    using historyD(9,10) [OF h] tk by blast
  show "set (ws_claimed st) \<inter> fst ` set (ws_tickets st') = {}"
    using historyD(12) [OF h] tk by blast
  show "\<forall>t. count (ws_fresh st) t \<le> 1" using historyD(3) [OF h] by (rule allI)
  show "\<forall>u. Reserved u \<notin># ws_fresh st" using historyD(4) [OF h] by (rule allI)
  show "\<forall>g. FreshGuid g \<in># ws_fresh st \<longrightarrow> g \<in> set (ws_seen st)" using historyD(7) [OF h] by blast
qed (rule sub(2) historyD(2) [OF h] historyD(11) [OF h])+

lemma length_filter_filter_le: "length (filter Q (filter P xs)) \<le> length (filter Q xs)"
proof -
  have "filter Q (filter P xs) = filter P (filter Q xs)" by (simp add: conj_commute)
  then show ?thesis by (simp only: length_filter_le)
qed

lemma ended_harmless:
  assumes inv: "sessions_inv st"
    and items: "set items \<subseteq> set (ws_sessions st)"
    and family: "\<And>x p. x \<in> set (ws_sessions st) \<Longrightarrow> p \<in> set items \<Longrightarrow> s_parentGuid x = Some (s_guid p) \<Longrightarrow>
      x \<in> set items"
    and s': "ws_sessions st' = filter (\<lambda>x. x \<notin> set items) (ws_sessions st)"
    and t': "ws_tickets st' = filter (\<lambda>(hash, _). \<forall>x\<in>set items. hash \<notin> set (s_ticketHashes x)) (ws_tickets st)"
    and same: "ws_reservations st' = ws_reservations st" "ws_fresh st' = ws_fresh st"
      "ws_seen st' = ws_seen st" "ws_issued st' = ws_issued st" "ws_claimed st' = ws_claimed st"
    and stop: "ws_stopped st \<Longrightarrow> ws_stopped st'"
    and gate: "gate_closed st'"
  shows "harmless st st'"
proof -
  have sub: "set (ws_sessions st') \<subseteq> set (ws_sessions st)" by (auto simp: s')
  have "within_limits st'"
    unfolding within_limits_def sessions_of_def
  proof (intro conjI allI)
    have "length (ws_sessions st') \<le> length (ws_sessions st)" by (simp add: s')
    then show "length (ws_sessions st') + sum_list (map snd (ws_reservations st')) \<le> 256"
      using inv same(1) by (simp add: sessions_inv_def within_limits_def)
    fix user
    have "length (filter (\<lambda>x. wa_id (s_actor x) = user) (ws_sessions st')) \<le> sessions_of st user"
      unfolding sessions_of_def s' by (rule length_filter_filter_le)
    then show "length (filter (\<lambda>x. wa_id (s_actor x) = user) (ws_sessions st')) +
        js_get (ws_reservations st') user 0 \<le> 8"
      using inv same(1) unfolding sessions_inv_def within_limits_def by (metis add_le_mono1 le_trans)
  qed
  moreover have "list_all (has_parent (ws_sessions st')) (ws_sessions st')"
    unfolding list_all_iff
  proof
    fix x
    assume x: "x \<in> set (ws_sessions st')"
    then have x': "x \<in> set (ws_sessions st)" "x \<notin> set items" by (auto simp: s')
    then have "has_parent (ws_sessions st) x" using inv by (simp add: sessions_inv_def list_all_iff)
    moreover have "p \<in> set (ws_sessions st')"
      if "p \<in> set (ws_sessions st)" "s_parentGuid x = Some (s_guid p)" for p
      using that family [OF x'(1)] x'(2) by (auto simp: s')
    ultimately show "has_parent (ws_sessions st') x"
      by (auto simp: has_parent_def list_ex_iff split: web_client_kind.splits)
  qed
  moreover have "list_all session_ok (ws_sessions st')"
    using inv sub by (auto simp: sessions_inv_def list_all_iff)
  moreover have "relays_unique st'"
    using inv sub unfolding sessions_inv_def relays_unique_def by blast
  moreover have "tickets_live st'"
  proof -
    have "distinct (map fst (ws_tickets st))" using inv by (simp add: sessions_inv_def tickets_live_def)
    then have "distinct (map fst (ws_tickets st'))" by (simp add: t' distinct_map_filter)
    moreover have "\<exists>x\<in>set (ws_sessions st'). s_guid x = t_session tk \<and> hash \<in> set (s_ticketHashes x)"
      if "(hash, tk) \<in> set (ws_tickets st')" for hash tk
    proof -
      from that have "(hash, tk) \<in> set (ws_tickets st)"
        and no: "\<forall>x\<in>set items. hash \<notin> set (s_ticketHashes x)" by (auto simp: t')
      then obtain x where "x \<in> set (ws_sessions st)" "s_guid x = t_session tk" "hash \<in> set (s_ticketHashes x)"
        using inv by (fastforce simp: sessions_inv_def tickets_live_def list_all_iff list_ex_iff)
      with no show ?thesis by (auto simp: s')
    qed
    ultimately show ?thesis by (fastforce simp: tickets_live_def list_all_iff list_ex_iff)
  qed
  moreover have "history_ok st'"
  proof -
    have h: "history_ok st" using inv by (simp add: sessions_inv_def)
    have "distinct (map s_guid (ws_sessions st'))"
      using historyD(1) [OF h] by (simp add: s' distinct_map_filter)
    moreover have "fst ` set (ws_tickets st') \<subseteq> fst ` set (ws_tickets st)" by (auto simp: t')
    ultimately show ?thesis by (rule history_fewer [OF h sub _ _ same])
  qed
  ultimately have "sessions_inv st'" using gate by (simp add: sessions_inv_def)
  moreover have "sessions_rely st st'"
    by (rule sessions_relyI) (use sub evolves_refl stop in \<open>auto simp: same\<close>)
  ultimately show ?thesis by (simp add: harmless_def tokens_def same)
qed

lemma invalidate_parts:
  assumes inv: "sessions_inv st" and items: "set items \<subseteq> set (ws_sessions st)"
    and s: "ws_sessions st1 = ws_sessions st" "ws_tickets st1 = ws_tickets st"
    and r: "invalidate items reason st1 = (ended, st')"
  shows "ended = map (\<lambda>x. (x, reason x)) items"
    and "ws_sessions st' = filter (\<lambda>x. x \<notin> set items) (ws_sessions st)"
    and "ws_tickets st' = filter (\<lambda>(hash, _). \<forall>x\<in>set items. hash \<notin> set (s_ticketHashes x)) (ws_tickets st)"
    and "ws_reservations st' = ws_reservations st1" "ws_fresh st' = ws_fresh st1"
      "ws_seen st' = ws_seen st1" "ws_issued st' = ws_issued st1" "ws_claimed st' = ws_claimed st1"
      "ws_stopped st' = ws_stopped st1" "ws_pending st' = ws_pending st1" "ws_epoch st' = ws_epoch st1"
proof -
  have "find_session st1 (s_guid x) \<noteq> None" if "x \<in> set items" for x
    using find_session_in [OF inv] items that s by (auto simp: find_session_def)
  then have f: "filter (\<lambda>x. find_session st1 (s_guid x) \<noteq> None) items = items" by simp
  have e: "invalidate items reason st1 =
      (map (\<lambda>x. (x, reason x)) items,
       st1\<lparr>ws_sessions := filter (\<lambda>x. s_guid x \<notin> s_guid ` set items) (ws_sessions st1),
           ws_tickets := filter (\<lambda>(hash, _). hash \<notin> (\<Union>x\<in>set items. set (s_ticketHashes x))) (ws_tickets st1),
           ws_notified := ws_notified st1 @
             concat (map (\<lambda>x. map (\<lambda>socket. (socket, reason x)) (s_sockets x)) items)\<rparr>)"
    unfolding invalidate_def f Let_def by (simp add: image_image comp_def)
  have st': "st' = snd (invalidate items reason st1)" by (simp add: r)
  show "ended = map (\<lambda>x. (x, reason x)) items" using r e by simp
  have "inj_on s_guid (set (ws_sessions st))"
    using inv by (simp add: sessions_inv_def history_ok_def distinct_map)
  then have "s_guid x \<in> s_guid ` set items \<longleftrightarrow> x \<in> set items" if "x \<in> set (ws_sessions st)" for x
    using items that by (auto dest: inj_onD)
  then show "ws_sessions st' = filter (\<lambda>x. x \<notin> set items) (ws_sessions st)"
    unfolding st' e using s by (auto intro!: filter_cong)
  show "ws_tickets st' = filter (\<lambda>(hash, _). \<forall>x\<in>set items. hash \<notin> set (s_ticketHashes x)) (ws_tickets st)"
    unfolding st' e using s by (auto intro!: filter_cong)
qed (use r in \<open>auto simp: invalidate_def Let_def\<close>)

lemma expire_deadline_harmless:
  assumes "sessions_inv st"
  shows "harmless st (expire_deadline d st) \<and> ws_sessions (expire_deadline d st) = []"
proof -
  let ?st1 = "st\<lparr>ws_pending := d # ws_pending st, ws_epoch := ws_epoch st + 1\<rparr>"
  obtain ended st2 where r: "invalidate (ws_sessions st) (\<lambda>_. ''verification_timeout'') ?st1 = (ended, st2)"
    by (cases "invalidate (ws_sessions st) (\<lambda>_. ''verification_timeout'') ?st1")
  note p = invalidate_parts [OF assms subset_refl _ _ r, simplified]
  have h: "harmless st st2"
    using assms by (rule ended_harmless [where items = "ws_sessions st"])
      (simp_all add: p gate_closed_def)
  have "expire_deadline d st = (if ended = [] then st2 else st2\<lparr>ws_emergency := ws_emergency st2 @ [ended]\<rparr>)"
    using r by (simp add: expire_deadline_def Let_def)
  moreover have "ws_sessions st2 = []" by (simp add: p)
  ultimately show ?thesis
    using h harmless_fields(4) [of st2] harmless_trans [OF h] by (auto simp: harmless_def)
qed

text \<open>Changing the fields of one session.\<close>

lemma update_harmless:
  assumes inv: "sessions_inv st"
    and f: "\<And>x. x \<in> set (ws_sessions st) \<Longrightarrow> s_guid x = g \<Longrightarrow>
      evolves x (f x) \<and> session_ok (f x) \<and> s_ticketHashes (f x) = s_ticketHashes x"
    and relays: "relays_unique (update_session g f st)"
  shows "harmless st (update_session g f st)"
proof -
  define F where "F y = (if s_guid y = g then f y else y)" for y
  let ?st' = "update_session g f st"
  have s': "ws_sessions ?st' = map F (ws_sessions st)"
    by (simp add: update_session_def F_def)
  have same: "ws_tickets ?st' = ws_tickets st" "ws_reservations ?st' = ws_reservations st"
    "ws_stopped ?st' = ws_stopped st" "ws_pending ?st' = ws_pending st" "ws_fresh ?st' = ws_fresh st"
    "ws_seen ?st' = ws_seen st" "ws_issued ?st' = ws_issued st" "ws_claimed ?st' = ws_claimed st"
    by (simp_all add: update_session_def)
  have ok: "list_all session_ok (ws_sessions st)" and h: "history_ok st"
    using inv by (simp_all add: sessions_inv_def)
  have F: "evolves y (F y)" "session_ok (F y)" "s_ticketHashes (F y) = s_ticketHashes y"
    if "y \<in> set (ws_sessions st)" for y
    using f [OF that] that ok evolves_refl by (auto simp: F_def list_all_iff)
  have guid: "s_guid (F y) = s_guid y" "s_actor (F y) = s_actor y" if "y \<in> set (ws_sessions st)" for y
    using F(1) [OF that] by (simp_all add: evolves_def)
  have guids: "map s_guid (ws_sessions ?st') = map s_guid (ws_sessions st)"
    using guid by (simp add: s')
  have limits: "within_limits ?st'"
  proof -
    have "length (filter (\<lambda>x. wa_id (s_actor x) = user) (map F (ws_sessions st))) =
        length (filter (\<lambda>x. wa_id (s_actor x) = user) (ws_sessions st))" for user
      using guid(2) by (simp add: filter_map o_def cong: filter_cong)
    then show ?thesis
      using inv unfolding sessions_inv_def within_limits_def sessions_of_def s' same by simp
  qed
  have parents: "list_all (has_parent (ws_sessions ?st')) (ws_sessions ?st')"
    unfolding list_all_iff s' set_map
  proof (rule ballI, erule imageE)
    fix y x
    assume x: "x = F y" "y \<in> set (ws_sessions st)"
    then have "has_parent (ws_sessions st) y" using inv by (simp add: sessions_inv_def list_all_iff)
    then show "has_parent (map F (ws_sessions st)) x"
      using F(1) [OF x(2)] F(1) x(1)
      by (force simp: has_parent_def list_ex_iff evolves_def split: web_client_kind.splits)
  qed
  have oks: "list_all session_ok (ws_sessions ?st')"
    using F(2) by (auto simp: s' list_all_iff)
  have tickets: "tickets_live ?st'"
  proof -
    have "tickets_live st" using inv by (simp add: sessions_inv_def)
    then show ?thesis
      using guid(1) F(3) unfolding tickets_live_def same s'
      by (fastforce simp: list_all_iff list_ex_iff)
  qed
  have gate: "gate_closed ?st'"
    using inv by (auto simp: sessions_inv_def gate_closed_def same s')
  have hist: "history_ok ?st'"
    unfolding history_ok_def same
  proof (intro conjI)
    show "distinct (map s_guid (ws_sessions ?st'))" using historyD(1) [OF h] guids by simp
    show "\<forall>x\<in>set (ws_sessions ?st'). s_guid x \<in> set (ws_seen st) \<and> FreshGuid (s_guid x) \<notin># ws_fresh st"
      using historyD(5,6) [OF h] guid(1) by (auto simp: s')
  qed (use h in \<open>simp_all add: history_ok_def\<close>)
  have "sessions_rely st ?st'"
    by (rule sessions_relyI) (use F(1) in \<open>auto simp: same s'\<close>)
  then show ?thesis
    using limits parents oks relays tickets gate hist
    by (simp add: harmless_def sessions_inv_def tokens_def same)
qed

lemma update_keeps_relays:
  assumes "sessions_inv st" "\<And>x. s_relayUuid (f x) = s_relayUuid x \<and> s_guid (f x) = s_guid x"
  shows "relays_unique (update_session g f st)"
proof -
  define F where "F y = (if s_guid y = g then f y else y)" for y
  have F: "s_relayUuid (F y) = s_relayUuid y" "s_guid (F y) = s_guid y" for y
    using assms(2) by (simp_all add: F_def)
  have "ws_sessions (update_session g f st) = map F (ws_sessions st)"
    by (simp add: update_session_def F_def)
  then have "relays_unique (update_session g f st) \<longleftrightarrow> relays_unique st"
    by (simp add: relays_unique_def F)
  then show ?thesis using assms(1) by (simp add: sessions_inv_def)
qed

lemma update_plain:
  assumes "sessions_inv st"
    and "\<And>x. evolves x (f x) \<and> s_ticketHashes (f x) = s_ticketHashes x \<and> s_relayUuid (f x) = s_relayUuid x"
    and "\<And>x. x \<in> set (ws_sessions st) \<Longrightarrow> session_ok x \<Longrightarrow> s_guid x = g \<Longrightarrow> session_ok (f x)"
  shows "harmless st (update_session g f st)"
proof (rule update_harmless [OF assms(1)])
  show "evolves x (f x) \<and> session_ok (f x) \<and> s_ticketHashes (f x) = s_ticketHashes x"
    if "x \<in> set (ws_sessions st)" "s_guid x = g" for x
    using assms that by (auto simp: sessions_inv_def list_all_iff)
  show "relays_unique (update_session g f st)"
    using assms(2) by (intro update_keeps_relays [OF assms(1)]) (simp add: evolves_def)
qed

text \<open>Tickets only disappear.\<close>

lemma fewer_tickets_harmless:
  assumes inv: "sessions_inv st" and sub: "set ts \<subseteq> set (ws_tickets st)" "distinct (map fst ts)"
    and c: "set cs \<subseteq> fst ` set (ws_tickets st)" "distinct cs" "set cs \<inter> fst ` set ts = {}"
  shows "harmless st (st\<lparr>ws_tickets := ts, ws_claimed := ws_claimed st @ cs\<rparr>)"
proof -
  let ?st' = "st\<lparr>ws_tickets := ts, ws_claimed := ws_claimed st @ cs\<rparr>"
  have h: "history_ok st" using inv by (simp add: sessions_inv_def)
  have "history_ok ?st'"
    unfolding history_ok_def
  proof (intro conjI)
    show "\<forall>hash. FreshHash hash \<in># ws_fresh ?st' \<longrightarrow> hash \<in> set (ws_issued ?st') \<and>
        hash \<notin> fst ` set (ws_tickets ?st') \<and> hash \<notin> set (ws_claimed ?st')"
      using historyD(8) [OF h] sub(1) c(1) by (auto simp: image_iff) blast+
    show "fst ` set (ws_tickets ?st') \<union> set (ws_claimed ?st') \<subseteq> set (ws_issued ?st')"
      using historyD(9,10) [OF h] sub(1) c(1) by auto
    show "distinct (ws_claimed ?st')"
      using historyD(11,12) [OF h] c(1,2) by auto
    show "set (ws_claimed ?st') \<inter> fst ` set (ws_tickets ?st') = {}"
      using historyD(12) [OF h] sub(1) c(3) by auto
  qed (use h in \<open>simp_all add: history_ok_def\<close>)
  moreover have "tickets_live ?st'"
    using inv sub by (auto simp: sessions_inv_def tickets_live_def list_all_iff)
  ultimately have "sessions_inv ?st'"
    using inv by (auto simp: sessions_inv_def within_limits_def sessions_of_def relays_unique_def gate_closed_def)
  moreover have "sessions_rely st ?st'"
    by (rule sessions_relyI) (auto intro: evolves_refl)
  ultimately show ?thesis by (simp add: harmless_def tokens_def)
qed

lemma take_ticket_harmless:
  assumes inv: "sessions_inv st"
  shows "harmless st (take_ticket hash st)"
proof -
  have d: "distinct (map fst (ws_tickets st))" using inv by (simp add: sessions_inv_def tickets_live_def)
  let ?cs = "if map_of (ws_tickets st) hash = None then [] else [hash]"
  show ?thesis
    unfolding take_ticket_def
  proof (rule fewer_tickets_harmless [OF inv])
    show "set (AList.delete hash (ws_tickets st)) \<subseteq> set (ws_tickets st)" by (auto simp: AList.delete_eq)
    show "distinct (map fst (AList.delete hash (ws_tickets st)))" using d by (rule distinct_delete)
    show "set ?cs \<subseteq> fst ` set (ws_tickets st)" by (auto simp: map_of_eq_None_iff)
    show "set ?cs \<inter> fst ` set (AList.delete hash (ws_tickets st)) = {}" by (auto simp: AList.delete_eq)
  qed simp
qed

lemma drop_expired_harmless:
  assumes "sessions_inv st"
  shows "harmless st (drop_expired_tickets st)"
proof -
  have "distinct (map fst (ws_tickets st))" using assms by (simp add: sessions_inv_def tickets_live_def)
  then have "harmless st (st\<lparr>ws_tickets := filter (\<lambda>(_, t). \<not> t_expires t \<le> ws_now st) (ws_tickets st),
      ws_claimed := ws_claimed st @ []\<rparr>)"
    by (intro fewer_tickets_harmless [OF assms]) (auto simp: distinct_map_filter)
  then show ?thesis by (simp add: drop_expired_tickets_def)
qed

subsection \<open>Reservations and the creation of a session\<close>

lemma js_get_absent: "u \<notin> fst ` set rs \<Longrightarrow> js_get rs u d = d"
proof -
  assume "u \<notin> fst ` set rs"
  then have "map_of rs u = None" by (simp add: map_of_eq_None_iff)
  then show ?thesis by (simp add: js_get_def)
qed

lemma js_get_Cons: "js_get ((k, v) # rs) u d = (if k = u then v else js_get rs u d)"
  by (simp add: js_get_def)

lemma reserved_update:
  assumes "distinct (map fst rs)"
  shows "reserved_tokens (AList.update u m rs) + replicate_mset (js_get rs u 0) (Reserved u) =
      reserved_tokens rs + replicate_mset m (Reserved u)"
    and "sum_list (map snd (AList.update u m rs)) + js_get rs u 0 = sum_list (map snd rs) + m"
  using assms by (induction rs) (auto simp: reserved_tokens_def js_get_Cons js_get_absent)

lemma reserved_delete:
  assumes "distinct (map fst rs)"
  shows "reserved_tokens (AList.delete u rs) + replicate_mset (js_get rs u 0) (Reserved u) = reserved_tokens rs"
    and "sum_list (map snd (AList.delete u rs)) + js_get rs u 0 = sum_list (map snd rs)"
proof -
  have "u \<notin> fst ` set rs \<Longrightarrow> AList.delete u rs = rs" for rs :: "(string \<times> nat) list"
    by (induction rs) auto
  then show "reserved_tokens (AList.delete u rs) + replicate_mset (js_get rs u 0) (Reserved u) = reserved_tokens rs"
    and "sum_list (map snd (AList.delete u rs)) + js_get rs u 0 = sum_list (map snd rs)"
    using assms by (induction rs) (auto simp: reserved_tokens_def js_get_Cons js_get_absent)
qed

lemma count_reserved:
  "distinct (map fst rs) \<Longrightarrow> count (reserved_tokens rs) (Reserved u) = js_get rs u 0"
  by (induction rs) (auto simp: reserved_tokens_def js_get_Cons js_get_absent)

lemma reserved_only: "t \<in># reserved_tokens rs \<Longrightarrow> \<exists>u. t = Reserved u"
  by (induction rs) (auto simp: reserved_tokens_def split: if_splits)

lemma js_get_update: "js_get (AList.update u m rs) v d = (if v = u then m else js_get rs v d)"
  by (simp add: js_get_def update_conv')

lemma js_get_delete: "js_get (AList.delete u rs) v d = (if v = u then d else js_get rs v d)"
  by (simp add: js_get_def delete_conv')

lemma reserve_effect:
  assumes inv: "sessions_inv st" and r: "reserve u st = Inr st'"
  shows "sessions_inv st' \<and> sessions_rely st st' \<and> tokens st' = tokens st + {#Reserved u#}"
proof -
  let ?rs = "ws_reservations st"
  let ?n = "js_get ?rs u 0"
  have d: "distinct (map fst ?rs)" using inv by (simp add: sessions_inv_def history_ok_def)
  have st': "st' = st\<lparr>ws_reservations := AList.update u (?n + 1) ?rs\<rparr>"
    and lim: "length (ws_sessions st) + sum_list (map snd ?rs) < 256" "sessions_of st u + ?n < 8"
    using r by (auto simp: reserve_def sessions_of_def Let_def split: if_splits)
  have "sum_list (map snd (AList.update u (?n + 1) ?rs)) = sum_list (map snd ?rs) + 1"
    using reserved_update(2) [OF d, of u "?n + 1"] by simp
  with lim have "within_limits st'"
    using inv by (auto simp: st' sessions_inv_def within_limits_def sessions_of_def js_get_update)
  moreover have "history_ok st'"
    using inv distinct_update [OF d] by (simp add: st' sessions_inv_def history_ok_def)
  ultimately have "sessions_inv st'"
    using inv by (auto simp: st' sessions_inv_def relays_unique_def tickets_live_def gate_closed_def)
  moreover have "sessions_rely st st'"
    by (rule sessions_relyI) (auto simp: st' intro: evolves_refl)
  moreover have "reserved_tokens (AList.update u (?n + 1) ?rs) = reserved_tokens ?rs + {#Reserved u#}"
    using reserved_update(1) [OF d, of u "?n + 1"] by (simp add: union_commute)
  ultimately show ?thesis by (simp add: st' tokens_def)
qed

lemma release_effect:
  assumes d: "distinct (map fst (ws_reservations st))" and u: "Reserved u \<in># tokens st"
    and f: "Reserved u \<notin># ws_fresh st"
  shows "tokens (releaseReservation u st) + {#Reserved u#} = tokens st"
    and "sum_list (map snd (ws_reservations (releaseReservation u st))) + 1 = sum_list (map snd (ws_reservations st))"
    and "js_get (ws_reservations (releaseReservation u st)) v 0 + (if v = u then 1 else 0) =
      js_get (ws_reservations st) v 0"
    and "distinct (map fst (ws_reservations (releaseReservation u st)))"
proof -
  let ?rs = "ws_reservations st"
  let ?n = "js_get ?rs u 0"
  have "Reserved u \<in># reserved_tokens ?rs" using u f by (simp add: tokens_def)
  then have "0 < count (reserved_tokens ?rs) (Reserved u)" by (simp add: count_greater_zero_iff)
  then have n: "1 \<le> ?n" using count_reserved [OF d, of u] by simp
  have e: "releaseReservation u st =
      (if ?n = 1 then st\<lparr>ws_reservations := AList.delete u ?rs\<rparr>
       else st\<lparr>ws_reservations := AList.update u (?n - 1) ?rs\<rparr>)"
    using n by (simp add: releaseReservation_def Let_def)
  have s: "replicate_mset ?n (Reserved u) = replicate_mset (?n - 1) (Reserved u) + {#Reserved u#}"
    using n by (cases ?n) simp_all
  show "tokens (releaseReservation u st) + {#Reserved u#} = tokens st"
    using reserved_delete(1) [OF d, of u] reserved_update(1) [OF d, of u "?n - 1"] s
    by (cases "?n = 1") (simp_all add: e tokens_def ac_simps)
  show "sum_list (map snd (ws_reservations (releaseReservation u st))) + 1 = sum_list (map snd ?rs)"
  proof (cases "?n = 1")
    case True
    then show ?thesis using reserved_delete(2) [OF d, of u] by (simp add: e)
  next
    case False
    then show ?thesis using reserved_update(2) [OF d, of u "?n - 1"] n by (simp add: e)
  qed
  show "js_get (ws_reservations (releaseReservation u st)) v 0 + (if v = u then 1 else 0) = js_get ?rs v 0"
    using n by (simp add: e js_get_update js_get_delete)
  show "distinct (map fst (ws_reservations (releaseReservation u st)))"
    using distinct_delete [OF d] distinct_update [OF d] by (simp add: e)
qed

lemma releaseReservation_fields [simp]:
  "ws_sessions (releaseReservation u st) = ws_sessions st" "ws_tickets (releaseReservation u st) = ws_tickets st"
  "ws_fresh (releaseReservation u st) = ws_fresh st" "ws_seen (releaseReservation u st) = ws_seen st"
  "ws_issued (releaseReservation u st) = ws_issued st" "ws_claimed (releaseReservation u st) = ws_claimed st"
  "ws_stopped (releaseReservation u st) = ws_stopped st" "ws_pending (releaseReservation u st) = ws_pending st"
  by (simp_all add: releaseReservation_def Let_def)

lemma release_keeps:
  assumes inv: "sessions_inv st" and u: "Reserved u \<in># tokens st"
  shows "sessions_inv (releaseReservation u st) \<and> sessions_rely st (releaseReservation u st) \<and>
    tokens (releaseReservation u st) + {#Reserved u#} = tokens st"
proof -
  have h: "history_ok st" using inv by (simp add: sessions_inv_def)
  note e = release_effect [OF historyD(2) [OF h] u historyD(4) [OF h]]
  have "js_get (ws_reservations (releaseReservation u st)) v 0 \<le> js_get (ws_reservations st) v 0" for v
    using e(3) [of v] by linarith
  then have "sessions_of st v + js_get (ws_reservations (releaseReservation u st)) v 0 \<le> 8" for v
    using inv unfolding sessions_inv_def within_limits_def by (meson add_left_mono le_trans)
  then have "within_limits (releaseReservation u st)"
    using inv e(2) by (simp add: sessions_inv_def within_limits_def sessions_of_def)
  moreover have "history_ok (releaseReservation u st)"
    using h e(4) by (simp add: history_ok_def)
  ultimately have "sessions_inv (releaseReservation u st)"
    using inv by (auto simp: sessions_inv_def relays_unique_def tickets_live_def gate_closed_def)
  moreover have "sessions_rely st (releaseReservation u st)"
    by (rule sessions_relyI) (auto intro: evolves_refl)
  ultimately show ?thesis using e(1) by simp
qed

text \<open>What a creation owns: its reservation, its identifier and its ticket hashes.\<close>

definition creation :: "(string \<Rightarrow> string) \<Rightarrow> create_request \<Rightarrow> session_token multiset" where
  "creation h rq =
     {#FreshGuid (cr_guid rq), FreshHash (h (cr_rendezvous rq)), FreshHash (h (cr_relay rq))#}"

text \<open>A session that may be put into the map: its parent was live and relayed, and is live.\<close>

definition issuable :: "create_request \<Rightarrow> web_session \<Rightarrow> session_state \<Rightarrow> bool" where
  "issuable rq x st \<longleftrightarrow>
     s_guid x = cr_guid rq \<and> s_actor x = cr_actor rq \<and> session_ok x \<and> s_relayUuid x = None \<and>
     \<not> s_active x \<and> has_parent (ws_sessions st) x"

lemma put_session_new: "s_guid x \<notin> s_guid ` set (ws_sessions st) \<Longrightarrow>
    put_session x st = st\<lparr>ws_sessions := ws_sessions st @ [x]\<rparr>"
  using find_session_None [of st "s_guid x"] by (simp add: put_session_def)

lemma issue_effect:
  assumes inv: "sessions_inv st" and open_gate: "\<not> ws_stopped st" "ws_pending st = []"
    and x: "issuable rq x st"
    and tok: "tokens st = b + add_mset (Reserved (wa_id (cr_actor rq))) (creation h rq)"
    and st': "st' = finish_create rq True (issue_session h rq x st)"
  shows "sessions_inv st' \<and> sessions_rely st st' \<and> tokens st' = b"
proof -
  let ?u = "wa_id (cr_actor rq)"
  let ?g = "cr_guid rq"
  let ?h1 = "h (cr_rendezvous rq)"
  let ?h2 = "h (cr_relay rq)"
  let ?x = "x\<lparr>s_ticketHashes := [?h1, ?h2]\<rparr>"
  let ?st1 = "issue_session h rq x st"
  let ?tk = "\<lambda>ph. \<lparr>t_session = ?g, t_phase = ph, t_expires = min (ws_now st + 60000) (s_expiresAt x)\<rparr>"
  have H: "history_ok st" using inv by (simp add: sessions_inv_def)
  have xg: "s_guid x = ?g" "s_actor x = cr_actor rq" using x by (simp_all add: issuable_def)
  have res: "t \<notin># reserved_tokens (ws_reservations st)" if "\<forall>u. t \<noteq> Reserved u" for t
    using that reserved_only by blast
  have mem: "t \<in># creation h rq \<Longrightarrow> t \<in># ws_fresh st" for t
  proof -
    assume t: "t \<in># creation h rq"
    then have "t \<in># tokens st" by (simp add: tok)
    moreover have "t \<notin># reserved_tokens (ws_reservations st)"
      using t by (intro res) (auto simp: creation_def)
    ultimately show ?thesis by (simp add: tokens_def)
  qed
  have fg: "FreshGuid ?g \<in># ws_fresh st" and f1: "FreshHash ?h1 \<in># ws_fresh st"
    and f2: "FreshHash ?h2 \<in># ws_fresh st"
    by (rule mem, simp add: creation_def)+
  have part: "count (creation h rq) t \<le> count (ws_fresh st) t" for t
  proof (cases "\<forall>u. t \<noteq> Reserved u")
    case True
    then have "count (tokens st) t = count (ws_fresh st) t"
      using res [of t] by (simp add: tokens_def not_in_iff)
    then show ?thesis by (simp add: tok count_union split: if_splits)
  qed (auto simp: creation_def)
  then have sub: "creation h rq \<subseteq># ws_fresh st" by (simp add: subseteq_mset_def)
  have ne: "?h1 \<noteq> ?h2"
  proof
    assume "?h1 = ?h2"
    then have "2 \<le> count (creation h rq) (FreshHash ?h1)" by (simp add: creation_def)
    then show False using part [of "FreshHash ?h1"] historyD(3) [OF H, of "FreshHash ?h1"] by linarith
  qed
  have newg: "?g \<notin> s_guid ` set (ws_sessions st)" using historyD(6) [OF H] fg by auto
  have newh: "?h1 \<notin> fst ` set (ws_tickets st)" "?h2 \<notin> fst ` set (ws_tickets st)"
    "?h1 \<notin> set (ws_claimed st)" "?h2 \<notin> set (ws_claimed st)"
    "?h1 \<in> set (ws_issued st)" "?h2 \<in> set (ws_issued st)"
    using historyD(8) [OF H] f1 f2 by auto
  have upd: "AList.update k v m = m @ [(k, v)]" if "k \<notin> fst ` set m" for k v and m :: "(string \<times> ticket) list"
    using that by (induction m) auto
  have s1: "?st1 = st\<lparr>ws_tickets := ws_tickets st @ [(?h1, ?tk Rendezvous), (?h2, ?tk RelayPhase)],
      ws_fresh := ws_fresh st - creation h rq, ws_sessions := ws_sessions st @ [?x]\<rparr>"
    using newg newh(1,2) ne
    by (simp add: issue_session_def Let_def put_session_new xg upd creation_def)
  have tok1: "tokens ?st1 = add_mset (Reserved ?u) b"
  proof -
    have "ws_fresh st - creation h rq + creation h rq = ws_fresh st"
      using sub by (rule subset_mset.diff_add)
    then have "tokens ?st1 + creation h rq = tokens st" by (simp add: s1 tokens_def add.assoc)
    then show ?thesis by (simp add: tok)
  qed
  have st'_rel: "st' = releaseReservation ?u ?st1" by (simp add: st' finish_create_def)
  have d1: "distinct (map fst (ws_reservations ?st1))" using historyD(2) [OF H] by (simp add: s1)
  have nf: "Reserved ?u \<notin># ws_fresh ?st1" using historyD(4) [OF H] by (auto simp: s1 dest: in_diffD)
  have "Reserved ?u \<in># tokens ?st1" by (simp add: tok1)
  note e = release_effect [OF d1 this nf, folded st'_rel]
  have fields: "ws_sessions st' = ws_sessions st @ [?x]"
    "ws_tickets st' = ws_tickets st @ [(?h1, ?tk Rendezvous), (?h2, ?tk RelayPhase)]"
    "ws_fresh st' = ws_fresh st - creation h rq" "ws_seen st' = ws_seen st" "ws_issued st' = ws_issued st"
    "ws_claimed st' = ws_claimed st" "ws_stopped st' = ws_stopped st" "ws_pending st' = ws_pending st"
    by (simp_all add: st'_rel s1)
  have "tokens st' = b" using e(1) by (simp add: tok1)
  moreover have "within_limits st'"
    unfolding within_limits_def
  proof (intro conjI allI)
    have "length (ws_sessions st) + sum_list (map snd (ws_reservations st)) \<le> 256"
      using inv by (simp add: sessions_inv_def within_limits_def)
    then show "length (ws_sessions st') + sum_list (map snd (ws_reservations st')) \<le> 256"
      using e(2) by (simp add: fields s1)
    fix v
    have "sessions_of st v + js_get (ws_reservations st) v 0 \<le> 8"
      using inv by (simp add: sessions_inv_def within_limits_def)
    then show "sessions_of st' v + js_get (ws_reservations st') v 0 \<le> 8"
      using e(3) [of v] by (auto simp: sessions_of_def fields s1 xg split: if_splits)
  qed
  moreover have "list_all (has_parent (ws_sessions st')) (ws_sessions st')"
  proof -
    have more: "has_parent (ws_sessions st @ [?x]) y" if "has_parent (ws_sessions st) y" for y
      using that by (auto simp: has_parent_def split: web_client_kind.splits)
    moreover have "has_parent (ws_sessions st) ?x" using x
      by (auto simp: issuable_def has_parent_def split: web_client_kind.splits)
    ultimately show ?thesis
      using inv by (auto simp: fields sessions_inv_def list_all_iff)
  qed
  moreover have "list_all session_ok (ws_sessions st')"
    using inv x by (auto simp: fields sessions_inv_def issuable_def session_ok_def)
  moreover have "relays_unique st'"
    unfolding relays_unique_def
  proof (intro ballI impI)
    fix y z
    assume y: "y \<in> set (ws_sessions st')" "z \<in> set (ws_sessions st')" "s_relayUuid y \<noteq> None"
      "s_relayUuid y = s_relayUuid z"
    have none: "s_relayUuid ?x = None" using x by (simp add: issuable_def)
    then have "y \<noteq> ?x" "z \<noteq> ?x" using y(3,4) by metis+
    then have "y \<in> set (ws_sessions st)" "z \<in> set (ws_sessions st)" using y(1,2) by (auto simp: fields)
    then show "s_guid y = s_guid z"
      using inv y(3,4) unfolding sessions_inv_def relays_unique_def by blast
  qed
  moreover have "tickets_live st'"
  proof -
    have "distinct (map fst (ws_tickets st'))"
      using inv newh(1,2) ne by (auto simp: fields sessions_inv_def tickets_live_def)
    then show ?thesis
      using inv xg by (fastforce simp: fields sessions_inv_def tickets_live_def list_all_iff list_ex_iff)
  qed
  moreover have "gate_closed st'" using open_gate by (simp add: gate_closed_def fields)
  moreover have "history_ok st'"
  proof -
    have gone: "t \<notin># ws_fresh st'" if "t \<in># creation h rq" for t
    proof -
      have "0 < count (creation h rq) t" using that by (simp only: count_greater_zero_iff)
      moreover have "count (ws_fresh st') t = count (ws_fresh st) t - count (creation h rq) t"
        by (simp add: fields)
      ultimately have "count (ws_fresh st') t = 0" using historyD(3) [OF H, of t] by linarith
      then show ?thesis by (simp add: not_in_iff)
    qed
    have less: "t \<in># ws_fresh st' \<Longrightarrow> t \<in># ws_fresh st" for t by (auto simp: fields dest: in_diffD)
    have g': "FreshGuid ?g \<notin># ws_fresh st'" "FreshHash ?h1 \<notin># ws_fresh st'" "FreshHash ?h2 \<notin># ws_fresh st'"
      by (rule gone, simp add: creation_def)+
    show ?thesis
      unfolding history_ok_def
    proof (intro conjI)
      show "distinct (map s_guid (ws_sessions st'))"
        using historyD(1) [OF H] newg by (simp add: fields xg)
      show "distinct (map fst (ws_reservations st'))" by (rule e(4))
      show "\<forall>t. count (ws_fresh st') t \<le> 1" using historyD(3) [OF H] by (auto simp: fields intro: le_trans [OF diff_le_self])
      show "\<forall>u. Reserved u \<notin># ws_fresh st'" using historyD(4) [OF H] less by blast
      show "\<forall>x\<in>set (ws_sessions st'). s_guid x \<in> set (ws_seen st') \<and> FreshGuid (s_guid x) \<notin># ws_fresh st'"
      proof
        fix y
        assume "y \<in> set (ws_sessions st')"
        then have "y \<in> set (ws_sessions st) \<or> s_guid y = ?g" by (auto simp: fields xg)
        then show "s_guid y \<in> set (ws_seen st') \<and> FreshGuid (s_guid y) \<notin># ws_fresh st'"
          using historyD(5,6,7) [OF H] less fg g'(1) fields(4) by metis
      qed
      show "\<forall>g. FreshGuid g \<in># ws_fresh st' \<longrightarrow> g \<in> set (ws_seen st')"
        using historyD(7) [OF H] less fields(4) by metis
      show "\<forall>hash. FreshHash hash \<in># ws_fresh st' \<longrightarrow> hash \<in> set (ws_issued st') \<and>
          hash \<notin> fst ` set (ws_tickets st') \<and> hash \<notin> set (ws_claimed st')"
      proof (intro allI impI)
        fix hash
        assume *: "FreshHash hash \<in># ws_fresh st'"
        then have "hash \<noteq> ?h1" "hash \<noteq> ?h2" using g'(2,3) by auto
        then show "hash \<in> set (ws_issued st') \<and> hash \<notin> fst ` set (ws_tickets st') \<and> hash \<notin> set (ws_claimed st')"
          using historyD(8) [OF H less [OF *]] by (simp add: fields)
      qed
      show "fst ` set (ws_tickets st') \<union> set (ws_claimed st') \<subseteq> set (ws_issued st')"
        using historyD(9,10) [OF H] newh by (simp add: fields)
      show "distinct (ws_claimed st')" using historyD(11) [OF H] by (simp add: fields)
      show "set (ws_claimed st') \<inter> fst ` set (ws_tickets st') = {}"
        using historyD(12) [OF H] newh by (auto simp: fields)
    qed
  qed
  moreover have "sessions_rely st st'"
  proof (rule sessions_relyI)
    show "FreshGuid g \<notin># ws_fresh st'" if "FreshGuid g \<notin># ws_fresh st" for g
      using that by (auto simp: fields dest: in_diffD)
    show "\<exists>z\<in>set (ws_sessions st). evolves z y"
      if "y \<in> set (ws_sessions st')" "FreshGuid (s_guid y) \<notin># ws_fresh st" for y
      using that fg xg by (auto simp: fields intro: evolves_refl)
  qed (simp_all add: fields)
  ultimately show ?thesis by (simp add: sessions_inv_def)
qed

lemma draw_effect:
  assumes inv: "sessions_inv st" and f: "fresh_values h rq st"
  shows "sessions_inv (draw h rq st) \<and> sessions_rely st (draw h rq st) \<and>
    tokens (draw h rq st) = tokens st + creation h rq"
proof -
  have H: "history_ok st" using inv by (simp add: sessions_inv_def)
  let ?st' = "draw h rq st"
  have fields: "ws_fresh ?st' = ws_fresh st + creation h rq"
    "ws_seen ?st' = cr_guid rq # ws_seen st"
    "ws_issued ?st' = h (cr_rendezvous rq) # h (cr_relay rq) # ws_issued st"
    "ws_sessions ?st' = ws_sessions st" "ws_tickets ?st' = ws_tickets st" "ws_claimed ?st' = ws_claimed st"
    "ws_reservations ?st' = ws_reservations st" "ws_stopped ?st' = ws_stopped st" "ws_pending ?st' = ws_pending st"
    by (simp_all add: draw_def creation_def)
  have nf: "FreshGuid (cr_guid rq) \<notin># ws_fresh st" "FreshHash (h (cr_rendezvous rq)) \<notin># ws_fresh st"
    "FreshHash (h (cr_relay rq)) \<notin># ws_fresh st"
    using f historyD(7,8) [OF H] by (auto simp: fresh_values_def)
  have "history_ok ?st'"
    unfolding history_ok_def
  proof (intro conjI)
    show "\<forall>t. count (ws_fresh ?st') t \<le> 1"
      using historyD(3) [OF H] nf f
      by (auto simp: fields creation_def fresh_values_def not_in_iff)
    show "\<forall>u. Reserved u \<notin># ws_fresh ?st'" using historyD(4) [OF H] by (simp add: fields creation_def)
    show "\<forall>x\<in>set (ws_sessions ?st'). s_guid x \<in> set (ws_seen ?st') \<and> FreshGuid (s_guid x) \<notin># ws_fresh ?st'"
      using historyD(6) [OF H] f
      by (auto simp: fields creation_def fresh_values_def dest: historyD(5) [OF H])
    show "\<forall>g. FreshGuid g \<in># ws_fresh ?st' \<longrightarrow> g \<in> set (ws_seen ?st')"
      using historyD(7) [OF H] by (auto simp: fields creation_def)
    show "\<forall>hash. FreshHash hash \<in># ws_fresh ?st' \<longrightarrow> hash \<in> set (ws_issued ?st') \<and>
        hash \<notin> fst ` set (ws_tickets ?st') \<and> hash \<notin> set (ws_claimed ?st')"
      using historyD(8,9,10) [OF H] f by (auto simp: fields creation_def fresh_values_def)
    show "fst ` set (ws_tickets ?st') \<union> set (ws_claimed ?st') \<subseteq> set (ws_issued ?st')"
      using historyD(9,10) [OF H] by (auto simp: fields)
  qed (use historyD(1,2,11,12) [OF H] in \<open>simp_all add: fields\<close>)
  moreover have "relays_unique ?st' \<longleftrightarrow> relays_unique st" by (simp add: relays_unique_def fields)
  ultimately have "sessions_inv ?st'"
    using inv by (simp add: sessions_inv_def within_limits_def sessions_of_def tickets_live_def
        gate_closed_def fields)
  moreover have "sessions_rely st ?st'"
    by (rule sessions_relyI) (use f in \<open>auto simp: fields creation_def fresh_values_def intro: evolves_refl\<close>)
  ultimately show ?thesis by (simp add: tokens_def fields add.assoc)
qed

subsection \<open>The rules of the operations\<close>

text \<open>A process that owns \<open>m\<close>, was last seen waiting at \<open>s0\<close>, and is now at \<open>s\<close>.\<close>

definition present ::
  "session_state \<Rightarrow> session_token multiset \<Rightarrow> session_token multiset \<Rightarrow> session_state \<Rightarrow> bool" where
  "present s0 b m s \<longleftrightarrow> sessions_inv s \<and> sessions_rely s0 s \<and> tokens s = b + m"

lemma present_inv: "present s0 b m s \<Longrightarrow> sessions_inv s"
  by (simp add: present_def)

lemma present_harmless: "present s0 b m s \<Longrightarrow> harmless s t \<Longrightarrow> present s0 b m t"
  unfolding present_def harmless_def using sessions_rely_trans by metis

lemma laterI:
  assumes "\<And>x s0 b t. present s0 b m t \<Longrightarrow> sessions_rely s t \<Longrightarrow> keeps s0 b (k x) t"
  shows "later s m k"
  using assms by (auto intro!: continuesI simp: present_def)

lemma laterD: "later s m k \<Longrightarrow> present s0 b m t \<Longrightarrow> sessions_rely s t \<Longrightarrow> keeps s0 b (k x) t"
  unfolding present_def by (blast intro: continuesD)

lemma later_now: "later s m k \<Longrightarrow> present s0 b m s \<Longrightarrow> keeps s0 b (k x) s"
  by (erule laterD) (simp_all add: sessions_rely_refl)

lemma later_harmless: "later s m k \<Longrightarrow> harmless s t \<Longrightarrow> later t m k"
  unfolding harmless_def by (blast intro: sessions.continues_later)

lemma keeps_wait: "present s0 b m s \<Longrightarrow> later s m k \<Longrightarrow> keeps s0 b (Await q k) s"
  unfolding present_def by (blast intro: sessions.guards_wait)

lemma await_keeps:
  assumes "\<And>k'. later s m k' \<Longrightarrow> keeps s0 b (f k') s" "later s m k"
  shows "keeps s0 b (await f k) s"
  unfolding await_def using assms by (blast intro: sessions.continues_wait)

lemma withDeadline_keeps:
  assumes p: "present s0 b m s" and k: "later s m k"
  shows "keeps s0 b (withDeadline oper k) s"
  unfolding withDeadline_def
proof (rule guards_Eff, simp add: Let_def)
  let ?d = "Single (ws_next s)"
  let ?t = "s\<lparr>ws_next := Suc (ws_next s)\<rparr>"
  have t: "harmless s ?t" using harmless_fields(1) [OF present_inv [OF p]] by simp
  show "keeps s0 b (Await (Deadline ?d oper) (\<lambda>a. case a of Settled r \<Rightarrow> k r
      | _ \<Rightarrow> Eff (\<lambda>st. (expire_deadline ?d st, k (Inl timed_out))))) ?t"
  proof (rule keeps_wait [OF present_harmless [OF p t]], rule laterI)
    fix a s0' b' u
    assume u: "present s0' b' m u" "sessions_rely ?t u"
    have "harmless u (expire_deadline ?d u)" using expire_deadline_harmless [OF present_inv [OF u(1)]] by simp
    note e = present_harmless [OF u(1) this] and k' = later_harmless [OF k t]
    have "sessions_rely ?t (expire_deadline ?d u)"
      using u(2) \<open>harmless u (expire_deadline ?d u)\<close> sessions_rely_trans unfolding harmless_def by blast
    then have "keeps s0' b' (Eff (\<lambda>st. (expire_deadline ?d st, k (Inl timed_out)))) u"
      by (intro guards_Eff) (simp add: laterD [OF k' e])
    then show "keeps s0' b' (case a of Settled r \<Rightarrow> k r
        | _ \<Rightarrow> Eff (\<lambda>st. (expire_deadline ?d st, k (Inl timed_out)))) u"
      using laterD [OF k' u] by (cases a) simp_all
  qed
qed

lemma recordEvent_keeps:
  "present s0 b m s \<Longrightarrow> later s m k \<Longrightarrow> keeps s0 b (recordEvent x event source metadata g k) s"
  unfolding recordEvent_def by (rule guards_Eff) (simp add: withDeadline_keeps)

lemma await_deadline_keeps:
  "present s0 b m s \<Longrightarrow> later s m k \<Longrightarrow> keeps s0 b (await (withDeadline oper) k) s"
  by (rule await_keeps) (rule withDeadline_keeps)

lemma await_record_keeps:
  "present s0 b m s \<Longrightarrow> later s m k \<Longrightarrow> keeps s0 b (await (recordEvent x event source metadata g) k) s"
  by (rule await_keeps) (rule recordEvent_keeps)

lemma persistTerminations_keeps:
  "present s0 b m s \<Longrightarrow> later s m k \<Longrightarrow> keeps s0 b (persistTerminations cs g k) s"
proof (induction cs arbitrary: s0 b s)
  case Nil
  then show ?case by (simp add: later_now)
next
  case (Cons c cs)
  have "later s m (\<lambda>r. case r of Inl _ \<Rightarrow> k () | Inr _ \<Rightarrow> persistTerminations cs g k)"
  proof (rule laterI)
    fix r s0' b' t
    assume t: "present s0' b' m t" "sessions_rely s t"
    then show "keeps s0' b' (case r of Inl _ \<Rightarrow> k () | Inr _ \<Rightarrow> persistTerminations cs g k) t"
      using laterD [OF Cons.prems(2) t] Cons.IH [OF t(1) sessions.continues_later [OF Cons.prems(2) t(2)]]
      by (cases r) simp_all
  qed
  from await_record_keeps [OF Cons.prems(1) this] show ?case by simp
qed

lemma await_persist_keeps:
  "present s0 b m s \<Longrightarrow> later s m k \<Longrightarrow> keeps s0 b (await (persistTerminations cs g) k) s"
  by (rule await_keeps) (rule persistTerminations_keeps)

text \<open>Parents are desktop sessions and children file sessions, so families do not nest.\<close>

lemma same_guid:
  assumes "sessions_inv st" "x \<in> set (ws_sessions st)" "y \<in> set (ws_sessions st)" "s_guid x = s_guid y"
  shows "x = y"
  using find_session_in [OF assms(1,2)] find_session_in [OF assms(1,3)] assms(4)
  by (metis option.inject)

lemma family_harmless:
  assumes inv: "sessions_inv st" and x: "x \<in> set (ws_sessions st)"
    and r: "invalidate (family_of st x) reason st = (ended, st')"
  shows "harmless st st'"
proof -
  have sub: "set (family_of st x) \<subseteq> set (ws_sessions st)" using x by (auto simp: family_of_def)
  note p = invalidate_parts [OF inv sub _ _ r, simplified]
  have ok: "s_guid y \<noteq> []" "has_parent (ws_sessions st) y" if "y \<in> set (ws_sessions st)" for y
    using inv that by (auto simp: sessions_inv_def list_all_iff session_ok_def)
  show ?thesis
  proof (rule ended_harmless [OF inv sub])
    fix y c
    assume y: "y \<in> set (ws_sessions st)" "c \<in> set (family_of st x)" "s_parentGuid y = Some (s_guid c)"
    have c: "c \<in> set (ws_sessions st)" using y(2) sub by blast
    have "s_kind c = Desktop"
      using ok(1) [OF c] ok(2) [OF y(1)] y(3) same_guid [OF inv _ c]
      by (auto simp: has_parent_def list_ex_iff split: web_client_kind.splits)
    then have "s_parentGuid c \<noteq> Some (s_guid x)"
      using ok(2) [OF c] ok(1) [OF x] by (auto simp: has_parent_def split: web_client_kind.splits)
    then have "c = x" using y(2) by (auto simp: family_of_def)
    then show "y \<in> set (family_of st x)" using y by (simp add: family_of_def)
  next
    show "gate_closed st'" using inv by (auto simp: p sessions_inv_def gate_closed_def)
  qed (simp_all add: p)
qed

lemma closeGrant_keeps:
  assumes p: "present s0 b m s" and k: "later s m k"
  shows "keeps s0 b (closeGrant g reason by k) s"
proof (cases "find_session s g")
  case None
  then show ?thesis unfolding closeGrant_def by (intro guards_Eff) (simp add: later_now [OF k p])
next
  case (Some x)
  define why where "why (item :: web_session) = (if s_guid item = g then
      if reason \<in> set TERMINATION_REASONS then reason else ''connection_closed'' else ''parent_closed'')" for item
  obtain ended t where r: "invalidate (family_of s x) why s = (ended, t)"
    by (cases "invalidate (family_of s x) why s")
  have t: "harmless s t"
    using family_harmless [OF present_inv [OF p] _ r] find_session_Some [OF Some] by simp
  have "keeps s0 b (await (persistTerminations ended by) k) t"
    using present_harmless [OF p t] later_harmless [OF k t] by (rule await_persist_keeps)
  then show ?thesis
    unfolding closeGrant_def using r Some
    by (intro guards_Eff) (simp add: Let_def why_def [abs_def])
qed

lemma await_close_keeps:
  "present s0 b m s \<Longrightarrow> later s m k \<Longrightarrow> keeps s0 b (await (closeGrant g reason by) k) s"
  by (rule await_keeps) (rule closeGrant_keeps)

lemma apply_validation_harmless:
  assumes "sessions_inv s"
  shows "harmless s (snd (apply_validation x r s))"
proof -
  let ?f = "\<lambda>e y. y\<lparr>s_expiresAt := min (s_expiresAt y) e\<rparr>"
  have "harmless s (update_session (s_guid x) (?f e) s)" for e
    using assms by (rule update_plain) (auto simp: evolves_def session_ok_def)
  then show ?thesis
    using harmless_refl [OF assms]
    by (auto simp: apply_validation_def Let_def split: sum.splits prod.splits)
qed

lemma ensureValid_keeps:
  assumes p: "present s0 b m s" and k: "later s m k"
  shows "keeps s0 b (ensureValid g k) s"
proof (cases "current s g")
  case (Inl e)
  then show ?thesis unfolding ensureValid_def by (intro guards_Eff) (simp add: later_now [OF k p])
next
  case (Inr x)
  have "later s m (\<lambda>r. revalidated x r k)"
  proof (rule laterI)
    fix r s0' b' t
    assume t: "present s0' b' m t" "sessions_rely s t"
    obtain v u where v: "apply_validation x r t = (v, u)" by (cases "apply_validation x r t")
    have h: "harmless t u" using apply_validation_harmless [OF present_inv [OF t(1)]] v by (metis snd_conv)
    note u = present_harmless [OF t(1) h]
      and k' = later_harmless [OF sessions.continues_later [OF k t(2)] h]
    have "later u m (\<lambda>_ :: unit. k (Inl e))" for e
      by (rule laterI) (rule laterD [OF k'])
    then show "keeps s0' b' (revalidated x r k) t"
      unfolding revalidated_def using v later_now [OF k' u] await_close_keeps [OF u]
      by (intro guards_Eff) (cases v, simp_all)
  qed
  then show ?thesis unfolding ensureValid_def using Inr
    by (intro guards_Eff) (simp add: await_deadline_keeps [OF p])
qed

lemma await_valid_keeps:
  "present s0 b m s \<Longrightarrow> later s m k \<Longrightarrow> keeps s0 b (await (ensureValid g) k) s"
  by (rule await_keeps) (rule ensureValid_keeps)

text \<open>The end of a process.\<close>

definition ends :: "'x cont \<Rightarrow> bool" where
  "ends k \<longleftrightarrow> (\<forall>x. is_finished (k x))"

lemma ends_keeps: "ends k \<Longrightarrow> may_leave m \<Longrightarrow> present s0 b m s \<Longrightarrow> keeps s0 b (k x) s"
  unfolding ends_def present_def
  by (cases "k x") (auto dest: spec [of _ x] intro: guards_Finished)

lemma ends_later: "ends k \<Longrightarrow> may_leave m \<Longrightarrow> later s m k"
  by (rule laterI) (rule ends_keeps)

lemma answers_end [simp]: "ends answer_unit" "ends answer_done" "ends answer_grant" "ends answer_claim"
  by (simp_all add: ends_def answer_unit_def answer_done_def answer_grant_def answer_claim_def)

lemma creation_may_leave: "may_leave (creation h rq)" "may_leave {#}"
  by (simp_all add: may_leave_def creation_def)

lemma finish_create_present:
  assumes "present s0 b (if reserved then add_mset (Reserved (wa_id (cr_actor rq))) m else m) s"
  shows "present s0 b m (finish_create rq reserved s)"
proof (cases reserved)
  case True
  let ?u = "wa_id (cr_actor rq)"
  have "Reserved ?u \<in># tokens s" using assms True by (simp add: present_def)
  from release_keeps [OF present_inv [OF assms] this] assms True
  show ?thesis
    unfolding present_def finish_create_def using sessions_rely_trans by fastforce
qed (use assms in \<open>simp add: finish_create_def\<close>)

lemma create_denied_keeps:
  assumes p: "present s0 b (if reserved then add_mset (Reserved (wa_id (cr_actor rq))) m else m) s"
    and m: "may_leave m" and k: "ends k"
  shows "keeps s0 b (create_denied rq target reserved e k) s"
proof -
  have "keeps s0' b' (Eff (\<lambda>st. (finish_create rq reserved st, k (Inl (thrown e))))) t"
    if "present s0' b' (if reserved then add_mset (Reserved (wa_id (cr_actor rq))) m else m) t" for s0' b' t
    using ends_keeps [OF k m finish_create_present [OF that]] by (intro guards_Eff) simp
  then have "later s (if reserved then add_mset (Reserved (wa_id (cr_actor rq))) m else m)
      (\<lambda>_ :: (string \<times> int) result. Eff (\<lambda>st. (finish_create rq reserved st, k (Inl (thrown e)))))"
    by (intro laterI)
  from await_deadline_keeps [OF p this]
  show ?thesis
    unfolding create_denied_def using ends_keeps [OF k m finish_create_present [OF p]]
    by (intro guards_Eff) simp
qed

text \<open>What a creation has learnt about the parent, which stays true while it waits.\<close>

definition good_parent :: "create_request \<Rightarrow> string \<Rightarrow> web_session \<Rightarrow> bool" where
  "good_parent rq target y \<longleftrightarrow>
     s_kind y = Desktop \<and> s_active y \<and> wa_id (s_actor y) = wa_id (cr_actor rq) \<and>
     wa_jti (s_actor y) = wa_jti (cr_actor rq) \<and> s_targetId y = target"

definition parent_known :: "create_request \<Rightarrow> string \<Rightarrow> web_session option \<Rightarrow> session_state \<Rightarrow> bool" where
  "parent_known rq target parent s \<longleftrightarrow>
     (case cr_kind rq of
        Desktop \<Rightarrow> parent = None \<and> (cr_parent rq = None \<or> cr_parent rq = Some [])
      | File \<Rightarrow> (\<exists>p. parent = Some p \<and> cr_parent rq = Some (s_guid p) \<and> s_guid p \<in> set (ws_seen s) \<and>
          FreshGuid (s_guid p) \<notin># ws_fresh s \<and>
          (\<forall>y\<in>set (ws_sessions s). s_guid y = s_guid p \<longrightarrow> good_parent rq target y)))"

lemma parent_known_stable:
  assumes k: "parent_known rq target parent s" and r: "sessions_rely s t"
  shows "parent_known rq target parent t"
proof (cases "cr_kind rq")
  case Desktop
  with k show ?thesis by (simp add: parent_known_def)
next
  case File
  with k obtain q where q: "parent = Some q" "cr_parent rq = Some (s_guid q)" "s_guid q \<in> set (ws_seen s)"
    "FreshGuid (s_guid q) \<notin># ws_fresh s"
    "\<And>y. y \<in> set (ws_sessions s) \<Longrightarrow> s_guid y = s_guid q \<Longrightarrow> good_parent rq target y"
    by (auto simp: parent_known_def)
  have "good_parent rq target y" if y: "y \<in> set (ws_sessions t)" "s_guid y = s_guid q" for y
  proof -
    obtain x where x: "x \<in> set (ws_sessions s)" "evolves x y"
      using sessions_relyD(3) [OF r y(1)] q(3,4) y(2) by auto
    with q(5) y(2) have "good_parent rq target x" by (simp add: evolves_def)
    with x(2) show ?thesis by (auto simp: good_parent_def evolves_def)
  qed
  with File q sessions_relyD(1,2) [OF r] show ?thesis by (simp add: parent_known_def)
qed

lemma create_checks_known:
  assumes inv: "sessions_inv s" and c: "create_checks rq target s = Inr (cfg, identity, parent)"
  shows "parent_known rq target parent s"
proof (cases "cr_kind rq")
  case Desktop
  with c show ?thesis
    by (auto simp: create_checks_def parent_known_def rbind_Inr_iff split: if_splits)
next
  case File
  let ?g = "case cr_parent rq of None \<Rightarrow> [] | Some g \<Rightarrow> g"
  from c File obtain q where q: "owned s ?g (cr_actor rq) = Inr q" "parent = Some q"
      "s_kind q = Desktop" "s_targetId q = target" "s_active q"
    by (auto simp: create_checks_def rbind_Inr_iff split: if_splits)
  then have f: "find_session s ?g = Some q" "wa_id (s_actor q) = wa_id (cr_actor rq)"
      "wa_jti (s_actor q) = wa_jti (cr_actor rq)"
    by (auto simp: owned_def rbind_Inr_iff dest: current_Inr split: if_splits)
  have qs: "q \<in> set (ws_sessions s)" "s_guid q = ?g" using find_session_Some [OF f(1)] by auto
  have "s_guid q \<noteq> []" using inv qs(1) by (auto simp: sessions_inv_def list_all_iff session_ok_def)
  then have "cr_parent rq = Some (s_guid q)" using qs(2) by (cases "cr_parent rq") simp_all
  moreover have "good_parent rq target q" using q f by (simp add: good_parent_def)
  moreover have "history_ok s" using inv by (simp add: sessions_inv_def)
  moreover have "good_parent rq target y" if "y \<in> set (ws_sessions s)" "s_guid y = s_guid q" for y
    using same_guid [OF inv that(1) qs(1) that(2)] calculation(2) by simp
  ultimately show ?thesis
    using File q(2) historyD(5) [OF _ qs(1)] historyD(6) [OF _ qs(1)] by (simp add: parent_known_def)
qed

lemma create_issue_keeps:
  assumes p: "present s0 b (add_mset (Reserved (wa_id (cr_actor rq))) (creation h rq)) s"
    and known: "parent_known rq target parent s" and g: "cr_guid rq \<noteq> []"
    and x: "x = new_session rq target cfg identity parent answer s1" and k: "ends k"
  shows "keeps s0 b (create_issue h rq epoch parent x k) s"
proof (cases "issue_checks epoch parent x s")
  case (Inl e)
  have "keeps s0 b (create_denied rq (Some (s_targetId x)) True e k) s"
    using p by (intro create_denied_keeps [OF _ creation_may_leave(1) k]) simp
  then show ?thesis unfolding create_issue_def using Inl by (intro guards_Eff) simp
next
  case (Inr u)
  then have gate: "\<not> ws_stopped s" "ws_pending s = []"
    and live: "\<And>q. parent = Some q \<Longrightarrow> find_session s (s_guid q) \<noteq> None"
    by (auto simp: issue_checks_def rbind_Inr_iff split: if_splits)
  have x': "s_guid x = cr_guid rq" "s_actor x = cr_actor rq" "s_kind x = cr_kind rq"
    "s_parentGuid x = cr_parent rq" "s_targetId x = target" "s_relayUuid x = None" "\<not> s_active x" "session_ok x"
    using g by (simp_all add: x new_session_def Let_def session_ok_def)
  have "has_parent (ws_sessions s) x"
  proof (cases "cr_kind rq")
    case Desktop
    with known x' show ?thesis by (simp add: has_parent_def parent_known_def)
  next
    case File
    with known obtain q where q: "parent = Some q" "cr_parent rq = Some (s_guid q)"
      "\<And>y. y \<in> set (ws_sessions s) \<Longrightarrow> s_guid y = s_guid q \<Longrightarrow> good_parent rq target y"
      by (auto simp: parent_known_def)
    obtain y where "find_session s (s_guid q) = Some y" using live [OF q(1)] by blast
    then have y: "y \<in> set (ws_sessions s)" "s_guid y = s_guid q" by (auto dest: find_session_Some)
    with q(3) have "good_parent rq target y" by blast
    then show ?thesis using q(2) x' File y
      by (auto simp: has_parent_def list_ex_iff good_parent_def intro!: bexI [of _ y])
  qed
  with x' have i: "issuable rq x s" by (simp add: issuable_def)
  let ?t = "finish_create rq True (issue_session h rq x s)"
  have "present s0 b {#} ?t"
    using issue_effect [OF present_inv [OF p] gate i _ refl] p sessions_rely_trans
    unfolding present_def by fastforce
  from ends_keeps [OF k creation_may_leave(2) this]
  show ?thesis unfolding create_issue_def using Inr by (intro guards_Eff) simp
qed

lemma create_validate_keeps:
  assumes p: "present s0 b (add_mset (Reserved (wa_id (cr_actor rq))) (creation h rq)) s"
    and known: "parent_known rq target parent s" and g: "cr_guid rq \<noteq> []" and k: "ends k"
  shows "keeps s0 b (create_validate h rq target epoch cfg identity parent k) s"
  unfolding create_validate_def
proof (rule await_deadline_keeps [OF p], rule laterI)
  fix r s0' b' t
  let ?m = "add_mset (Reserved (wa_id (cr_actor rq))) (creation h rq)"
  assume t: "present s0' b' ?m t" "sessions_rely s t"
  have denied: "keeps s0' b' (create_denied rq (Some target) True e k) t"
    if "present s0' b' ?m t" for s0' b' t e
    using that by (intro create_denied_keeps [OF _ creation_may_leave(1) k]) simp
  show "keeps s0' b' (case r of Inl e \<Rightarrow> create_denied rq (Some target) True e k
      | Inr answer \<Rightarrow> Eff (\<lambda>st. let x = new_session rq target cfg identity parent answer st
          in (st, await (recordEvent x ''request_allowed'' ''server'' [] None) (\<lambda>r. case r of
               Inl e \<Rightarrow> create_denied rq (Some target) True e k
             | Inr _ \<Rightarrow> create_issue h rq epoch parent x k)))) t"
  proof (cases r)
    case (Inl e)
    then show ?thesis using denied [OF t(1)] by simp
  next
    case (Inr answer)
    define x where "x = new_session rq target cfg identity parent answer t"
    have "later t ?m (\<lambda>r :: (string \<times> int) result. case r of Inl e \<Rightarrow> create_denied rq (Some target) True e k
        | Inr _ \<Rightarrow> create_issue h rq epoch parent x k)"
    proof (rule laterI)
      fix r' :: "(string \<times> int) result" and s0'' b'' u
      assume u: "present s0'' b'' ?m u" "sessions_rely t u"
      have "parent_known rq target parent u"
        using parent_known_stable [OF known sessions_rely_trans [OF t(2) u(2)]] .
      from create_issue_keeps [OF u(1) this g x_def k] denied [OF u(1)]
      show "keeps s0'' b'' (case r' of Inl e \<Rightarrow> create_denied rq (Some target) True e k
          | Inr _ \<Rightarrow> create_issue h rq epoch parent x k) u"
        by (cases r') simp_all
    qed
    note rec = await_record_keeps [OF t(1) this]
    show ?thesis
      unfolding Inr sum.case Let_def
      by (rule guards_Eff, simp only: fst_conv snd_conv, fold x_def, rule rec)
  qed
qed

lemma create_checked_keeps:
  assumes p: "present s0 b (add_mset (Reserved (wa_id (cr_actor rq))) (creation h rq)) s"
    and c: "create_checks rq target s = Inr (cfg, identity, parent)"
    and g: "cr_guid rq \<noteq> []" and k: "ends k"
  shows "keeps s0 b (case parent of
      None \<Rightarrow> create_validate h rq target epoch cfg identity parent k
    | Some p \<Rightarrow> await (ensureValid (s_guid p)) (\<lambda>r. case r of
          Inl e \<Rightarrow> create_denied rq (Some target) True e k
        | Inr _ \<Rightarrow> create_validate h rq target epoch cfg identity parent k)) s"
proof -
  let ?m = "add_mset (Reserved (wa_id (cr_actor rq))) (creation h rq)"
  note known = create_checks_known [OF present_inv [OF p] c]
  have "later s ?m (\<lambda>r :: unit result. case r of Inl e \<Rightarrow> create_denied rq (Some target) True e k
      | Inr _ \<Rightarrow> create_validate h rq target epoch cfg identity parent k)"
  proof (rule laterI)
    fix r :: "unit result" and s0' b' t
    assume t: "present s0' b' ?m t" "sessions_rely s t"
    then show "keeps s0' b' (case r of Inl e \<Rightarrow> create_denied rq (Some target) True e k
        | Inr _ \<Rightarrow> create_validate h rq target epoch cfg identity parent k) t"
      using create_validate_keeps [OF t(1) parent_known_stable [OF known t(2)] g k]
        create_denied_keeps [OF _ creation_may_leave(1) k, where reserved = True]
      by (cases r) simp_all
  qed
  note valid = await_valid_keeps [OF p this]
  show ?thesis
  proof (cases parent)
    case None
    then show ?thesis using create_validate_keeps [OF p known g k] by simp
  next
    case (Some q)
    show ?thesis using valid unfolding Some option.case .
  qed
qed

lemma create_keeps:
  assumes p: "present s0 b (creation h rq) s" and g: "cr_guid rq \<noteq> []" and k: "ends k"
  shows "keeps s0 b (create h rq k) s"
proof (cases "ws_stopped s \<or> ws_pending s \<noteq> []")
  case shut: True
  have "keeps s0 b (create_denied rq None False session_unavailable k) s"
    using p by (intro create_denied_keeps [OF _ creation_may_leave(1) k]) simp
  then show ?thesis unfolding create_def using shut by (intro guards_Eff) simp
next
  case up: False
  have denied: "keeps s0 b (create_denied rq target False e k) s" for target e
    using p by (intro create_denied_keeps [OF _ creation_may_leave(1) k]) simp
  show ?thesis
  proof (cases "normalizeWebClientTarget (cr_target rq)")
    case (Inl e)
    then show ?thesis unfolding create_def using up denied by (intro guards_Eff) simp
  next
    case target: (Inr target)
    show ?thesis
    proof (cases "reserve (wa_id (cr_actor rq)) s")
      case (Inl e)
      then show ?thesis unfolding create_def using up target denied by (intro guards_Eff) simp
    next
      case res: (Inr s1)
      let ?m = "add_mset (Reserved (wa_id (cr_actor rq))) (creation h rq)"
      have s1: "present s0 b ?m s1"
        using reserve_effect [OF present_inv [OF p] res] p sessions_rely_trans
        unfolding present_def by fastforce
      show ?thesis
      proof (cases "create_checks rq target s1")
        case (Inl e)
        have "keeps s0 b (create_denied rq (Some target) True e k) s1"
          using s1 by (intro create_denied_keeps [OF _ creation_may_leave(1) k]) simp
        then show ?thesis unfolding create_def using up target res Inl by (intro guards_Eff) simp
      next
        case (Inr c)
        obtain cfg identity parent where c: "c = (cfg, identity, parent)" by (cases c)
        from create_checked_keeps [OF s1 Inr [unfolded c] g k]
        show ?thesis unfolding create_def using up target res Inr c by (intro guards_Eff) simp
      qed
    qed
  qed
qed

lemma createFile_keeps:
  assumes p: "present s0 b (creation h rq) s" and g: "cr_guid rq \<noteq> []" and k: "ends k"
  shows "keeps s0 b (createFile h rq pg k) s"
proof (cases "owned s pg (cr_actor rq)")
  case (Inl e)
  have "later s (creation h rq) (\<lambda>_ :: (string \<times> int) result. k (Inl e))"
    by (rule laterI) (rule ends_keeps [OF k creation_may_leave(1)])
  from await_deadline_keeps [OF p this] ends_keeps [OF k creation_may_leave(1) p]
  show ?thesis unfolding createFile_def using Inl by (intro guards_Eff) simp
next
  case (Inr parent)
  let ?rq = "rq\<lparr>cr_target := s_targetId parent, cr_kind := File, cr_parent := Some pg\<rparr>"
  have "keeps s0 b (create h ?rq k) s"
    using p g by (intro create_keeps [OF _ _ k]) (simp_all add: creation_def)
  then show ?thesis unfolding createFile_def using Inr by (intro guards_Eff) simp
qed

text \<open>Waiting for the validity of a session, and going on only if it is valid.\<close>

lemma valid_then_keeps:
  assumes p: "present s0 b m s" and k: "later s m k"
    and go: "\<And>s0' b' t. present s0' b' m t \<Longrightarrow> sessions_rely s t \<Longrightarrow> later t m k \<Longrightarrow> keeps s0' b' q t"
  shows "keeps s0 b (await (ensureValid g) (\<lambda>r. case r of Inl e \<Rightarrow> k (Inl e) | Inr _ \<Rightarrow> q)) s"
proof (rule await_valid_keeps [OF p], rule laterI)
  fix r :: "unit result" and s0' b' t
  assume t: "present s0' b' m t" "sessions_rely s t"
  from laterD [OF k t] go [OF t sessions.continues_later [OF k t(2)]]
  show "keeps s0' b' (case r of Inl e \<Rightarrow> k (Inl e) | Inr _ \<Rightarrow> q) t" by (cases r) simp_all
qed

lemma keeps_pure: "keeps s0 b (f s) s \<Longrightarrow> keeps s0 b (Eff (\<lambda>st. (st, f st))) s"
  by (rule guards_Eff) simp

lemma keeps_if: "keeps s0 b p s \<Longrightarrow> keeps s0 b q s \<Longrightarrow> keeps s0 b (if c then p else q) s"
  by simp

lemma consumeTicket_keeps:
  assumes p: "present s0 b m s" and k: "later s m k"
  shows "keeps s0 b (consumeTicket h v k) s"
proof (cases "ticket_format v")
  case False
  then show ?thesis using later_now [OF k p] by (simp add: consumeTicket_def)
next
  case True
  let ?t = "take_ticket (h v) s"
  note h = take_ticket_harmless [OF present_inv [OF p]]
  note t = present_harmless [OF p h] and k' = later_harmless [OF k h]
  have "keeps s0 b (case ticket_session (h v) s of
      Inl e \<Rightarrow> k (Inl e)
    | Inr (tk, x) \<Rightarrow> await (ensureValid (s_guid x)) (\<lambda>r. case r of
          Inl e \<Rightarrow> k (Inl e)
        | Inr _ \<Rightarrow> Eff (\<lambda>st. (st, k (rbind (current st (s_guid x)) (\<lambda>y.
            Inr \<lparr>c_session = s_guid y, c_target = s_targetId y, c_kind = s_kind y,
                 c_phase = t_phase tk, c_relay = s_relayUuid y, c_key = s_serverPublicKey y\<rparr>)))))) ?t"
  proof (cases "ticket_session (h v) s")
    case (Inl e)
    then show ?thesis using later_now [OF k' t] by simp
  next
    case (Inr y)
    obtain tk x where y: "y = (tk, x)" by (cases y)
    show ?thesis
      unfolding Inr y sum.case prod.case
    proof (rule valid_then_keeps [OF t k'], rule keeps_pure)
      fix s0' b' u
      assume "present s0' b' m u" "later u m k"
      then show "keeps s0' b' (k (rbind (current u (s_guid x)) (\<lambda>y.
            Inr \<lparr>c_session = s_guid y, c_target = s_targetId y, c_kind = s_kind y,
                 c_phase = t_phase tk, c_relay = s_relayUuid y, c_key = s_serverPublicKey y\<rparr>))) u"
        by (intro later_now)
    qed
  qed
  then show ?thesis unfolding consumeTicket_def using True
    by (simp only: not_True_eq_False if_False) (rule guards_Eff, simp only: fst_conv snd_conv)
qed

lemma bindRelay_harmless:
  assumes inv: "sessions_inv s"
  shows "harmless s (snd (bindRelay g uuid s))"
proof (cases "bindRelay g uuid s = (Inr (), update_session g (\<lambda>y. y\<lparr>s_relayUuid := Some uuid\<rparr>) s)")
  case True
  then obtain x where x: "current s g = Inr x" "s_relayUuid x = None"
    and new: "\<not> list_ex (\<lambda>y. s_guid y \<noteq> g \<and> s_relayUuid y = Some uuid) (ws_sessions s)"
    by (auto simp: bindRelay_def split: sum.splits if_splits)
  have xs: "x \<in> set (ws_sessions s)" "s_guid x = g"
    using find_session_Some current_Inr [OF x(1)] by auto
  let ?f = "\<lambda>y. y\<lparr>s_relayUuid := Some uuid\<rparr>"
  have "harmless s (update_session g ?f s)"
  proof (rule update_harmless [OF inv])
    fix y
    assume "y \<in> set (ws_sessions s)" "s_guid y = g"
    then have "y = x" using same_guid [OF inv _ xs(1)] xs(2) by metis
    moreover have "session_ok x" using inv xs(1) by (simp add: sessions_inv_def list_all_iff)
    ultimately show "evolves y (?f y) \<and> session_ok (?f y) \<and> s_ticketHashes (?f y) = s_ticketHashes y"
      using x(2) by (simp add: evolves_def session_ok_def)
  next
    show "relays_unique (update_session g ?f s)"
      unfolding relays_unique_def
    proof (intro ballI impI)
      fix y z
      assume yz: "y \<in> set (ws_sessions (update_session g ?f s))" "z \<in> set (ws_sessions (update_session g ?f s))"
        "s_relayUuid y \<noteq> None" "s_relayUuid y = s_relayUuid z"
      have old: "w \<in> set (ws_sessions s) \<and> s_relayUuid w \<noteq> Some uuid \<or> s_guid w = g \<and> s_relayUuid w = Some uuid"
        if "w \<in> set (ws_sessions (update_session g ?f s))" for w
        using that new by (auto simp: update_session_def list_ex_iff)
      have u: "relays_unique s" using inv by (simp add: sessions_inv_def)
      show "s_guid y = s_guid z"
      proof (cases "s_relayUuid y = Some uuid")
        case True
        then have "s_guid y = g" "s_guid z = g" using old [OF yz(1)] old [OF yz(2)] yz(4) by auto
        then show ?thesis by simp
      next
        case False
        then have "y \<in> set (ws_sessions s)" "z \<in> set (ws_sessions s)"
          using old [OF yz(1)] old [OF yz(2)] yz(4) by auto
        then show ?thesis using u yz(3,4) unfolding relays_unique_def by blast
      qed
    qed
  qed
  with True show ?thesis by simp
next
  case False
  then have "snd (bindRelay g uuid s) = s"
    by (auto simp: bindRelay_def split: sum.splits if_splits)
  then show ?thesis using harmless_refl [OF inv] by simp
qed

lemma attach_harmless:
  assumes inv: "sessions_inv s"
  shows "harmless s (snd (attach g c s))"
proof (cases "\<exists>x. current s g = Inr x \<and> length (s_sockets x) < 2")
  case True
  then obtain x where x: "current s g = Inr x" "length (s_sockets x) < 2" by blast
  have xs: "x \<in> set (ws_sessions s)" "s_guid x = g" using find_session_Some current_Inr [OF x(1)] by auto
  have "harmless s (update_session g (\<lambda>y. y\<lparr>s_sockets := List.insert c (s_sockets y)\<rparr>) s)"
  proof (rule update_plain [OF inv])
    fix y
    assume y: "y \<in> set (ws_sessions s)" "session_ok y" "s_guid y = g"
    have "y = x" using same_guid [OF inv y(1) xs(1)] y(3) xs(2) by simp
    then show "session_ok (y\<lparr>s_sockets := List.insert c (s_sockets y)\<rparr>)"
      using x(2) y(2) by (auto simp: session_ok_def List.insert_def)
  qed (simp add: evolves_def)
  then show ?thesis using x by (simp add: attach_def)
next
  case False
  then have "snd (attach g c s) = s" by (auto simp: attach_def split: sum.splits)
  then show ?thesis using harmless_refl [OF inv] by simp
qed

lemma detach_harmless:
  assumes "sessions_inv s"
  shows "harmless s (detach g c s)"
  unfolding detach_def
  using assms by (rule update_plain)
    (auto simp: evolves_def session_ok_def intro: le_trans [OF length_removeAll_less_eq])

text \<open>That a session had a relay is known for as long as it lives.\<close>

definition relay_known :: "string \<Rightarrow> session_state \<Rightarrow> bool" where
  "relay_known g s \<longleftrightarrow>
     g \<in> set (ws_seen s) \<and> FreshGuid g \<notin># ws_fresh s \<and>
     (\<forall>x\<in>set (ws_sessions s). s_guid x = g \<longrightarrow> s_relayUuid x \<noteq> None)"

lemma relay_known_stable:
  assumes k: "relay_known g s" and r: "sessions_rely s t"
  shows "relay_known g t"
  unfolding relay_known_def
proof (intro conjI ballI impI)
  fix y
  assume y: "y \<in> set (ws_sessions t)" "s_guid y = g"
  obtain x where x: "x \<in> set (ws_sessions s)" "evolves x y"
    using sessions_relyD(3) [OF r y(1)] k y(2) by (auto simp: relay_known_def)
  with k y(2) have "s_relayUuid x \<noteq> None" by (simp add: relay_known_def evolves_def)
  with x(2) show "s_relayUuid y \<noteq> None" by (simp add: evolves_def)
qed (use k sessions_relyD(1,2) [OF r] in \<open>simp_all add: relay_known_def\<close>)

lemma seen_later:
  assumes "sessions_inv s" "x \<in> set (ws_sessions s)" "sessions_rely s t"
  shows "s_guid x \<in> set (ws_seen t) \<and> FreshGuid (s_guid x) \<notin># ws_fresh t"
  using assms historyD(5,6) [of s x] sessions_relyD(1,2) [OF assms(3)]
  by (simp add: sessions_inv_def)

lemma activate_harmless:
  assumes inv: "sessions_inv s" and k: "relay_known g s"
  shows "harmless s (update_session g (\<lambda>z. z\<lparr>s_active := True\<rparr>) s)"
  using inv by (rule update_plain) (use k in \<open>auto simp: evolves_def session_ok_def relay_known_def\<close>)

lemma markRelayOpen_keeps:
  assumes p: "present s0 b m s" and k: "later s m k"
  shows "keeps s0 b (markRelayOpen g k) s"
proof (cases "current s g")
  case (Inl e)
  then show ?thesis unfolding markRelayOpen_def by (intro guards_Eff) (simp add: later_now [OF k p])
next
  case (Inr x)
  have xs: "x \<in> set (ws_sessions s)" "s_guid x = g" using find_session_Some current_Inr [OF Inr] by auto
  define opened where "opened = (\<lambda>r :: (string \<times> int) result. case r of
      Inl _ \<Rightarrow> await (closeGrant g ''audit_unavailable'' None) (\<lambda>_.
        k (Inl (ServiceUnavailableException ''Web client audit is unavailable'')))
    | Inr _ \<Rightarrow> Eff (\<lambda>st. case assertCurrent st x of
        Inl e \<Rightarrow> (st, k (Inl e))
      | Inr _ \<Rightarrow> (update_session g (\<lambda>z. z\<lparr>s_active := True\<rparr>) st, k (Inr ()))))"
  have opened: "later t m opened" if t: "present s0' b' m t" "later t m k" "relay_known g t" for s0' b' t
  proof (rule laterI)
    fix r s0'' b'' u
    assume u: "present s0'' b'' m u" "sessions_rely t u"
    note k' = sessions.continues_later [OF t(2) u(2)]
    note known = relay_known_stable [OF t(3) u(2)]
    have "later u m (\<lambda>_ :: unit. k (Inl e))" for e
      by (rule laterI) (rule laterD [OF k'])
    note closing = await_close_keeps [OF u(1) this]
    note act = activate_harmless [OF present_inv [OF u(1)] known]
    have "keeps s0'' b'' (k (Inr ())) (update_session g (\<lambda>z. z\<lparr>s_active := True\<rparr>) u)"
      using later_now [OF later_harmless [OF k' act] present_harmless [OF u(1) act]] .
    then show "keeps s0'' b'' (opened r) u"
      using later_now [OF k' u(1)] closing unfolding opened_def
      by (cases r) (auto intro!: guards_Eff split: sum.split)
  qed
  have "keeps s0 b (await (ensureValid g) (\<lambda>r. case r of
      Inl e \<Rightarrow> k (Inl e)
    | Inr _ \<Rightarrow> Eff (\<lambda>st. let y = session_object st x in (st,
          if s_active y \<or> s_relayUuid y = None then k (Inl invalid_lifecycle)
          else await (recordEvent y ''gateway_open'' ''server'' [] None) opened)))) s"
  proof (rule valid_then_keeps [OF p k], rule guards_Eff)
    fix s0' b' t
    assume t: "present s0' b' m t" "sessions_rely s t" "later t m k"
    let ?y = "session_object t x"
    have "?y = z" if "z \<in> set (ws_sessions t)" "s_guid z = g" for z
      using find_session_in [OF present_inv [OF t(1)] that(1)] that(2) xs(2)
      by (simp add: session_object_def)
    then have "relay_known g t" if "s_relayUuid ?y \<noteq> None"
      using seen_later [OF present_inv [OF p] xs(1) t(2)] that xs(2)
      by (auto simp: relay_known_def)
    from opened [OF t(1,3) this]
    show "keeps s0' b' (snd (let y = session_object t x in (t,
          if s_active y \<or> s_relayUuid y = None then k (Inl invalid_lifecycle)
          else await (recordEvent y ''gateway_open'' ''server'' [] None) opened)))
        (fst (let y = session_object t x in (t,
          if s_active y \<or> s_relayUuid y = None then k (Inl invalid_lifecycle)
          else await (recordEvent y ''gateway_open'' ''server'' [] None) opened)))"
      using later_now [OF t(3,1)] await_record_keeps [OF t(1)] by (simp add: Let_def)
  qed
  then show ?thesis unfolding markRelayOpen_def opened_def
    by (intro guards_Eff, simp only: Inr sum.case fst_conv snd_conv)
qed

lemma report_window_plain:
  "evolves x (report_window n x) \<and> s_ticketHashes (report_window n x) = s_ticketHashes x \<and>
   s_relayUuid (report_window n x) = s_relayUuid x"
  "evolves x (count_report x) \<and> s_ticketHashes (count_report x) = s_ticketHashes x \<and>
   s_relayUuid (count_report x) = s_relayUuid x"
  by (simp_all add: report_window_def count_report_def evolves_def)

lemma admit_report_harmless:
  assumes inv: "sessions_inv s"
  shows "harmless s (snd (admit_report x dto s))"
proof -
  let ?w = "report_window (ws_now s)"
  let ?y = "session_object s x"
  let ?s1 = "update_session (s_guid x) ?w s"
  have h1: "harmless s ?s1"
    using inv report_window_plain(1) by (rule update_plain) (auto simp: report_window_def session_ok_def)
  have h2: "harmless s (update_session (s_guid x) count_report ?s1)"
    if small: "s_reports (?w ?y) < 1024" "s_windowReports (?w ?y) < 4"
  proof (rule harmless_trans [OF h1], rule update_plain)
    show inv1: "sessions_inv ?s1" using h1 by (simp add: harmless_def)
    show "evolves z (count_report z) \<and> s_ticketHashes (count_report z) = s_ticketHashes z \<and>
        s_relayUuid (count_report z) = s_relayUuid z" for z
      by (rule report_window_plain(2))
    fix z
    assume z: "z \<in> set (ws_sessions ?s1)" "session_ok z" "s_guid z = s_guid x"
    then obtain y where y: "y \<in> set (ws_sessions s)" "z = (if s_guid y = s_guid x then ?w y else y)"
      by (auto simp: update_session_def)
    have "s_guid (?w y) = s_guid y" using report_window_plain(1) [of y] by (simp add: evolves_def)
    with y z(3) have yx: "s_guid y = s_guid x" by (auto split: if_splits)
    have "?y = y" using find_session_in [OF inv y(1)] yx by (simp add: session_object_def)
    then show "session_ok (count_report z)"
      using small z(2) y(2) yx by (simp add: session_ok_def count_report_def)
  qed
  show ?thesis
    using h1 h2 harmless_refl [OF inv] by (auto simp: admit_report_def Let_def)
qed

lemma report_keeps:
  assumes p: "present s0 b m s" and k: "later s m k"
  shows "keeps s0 b (report actor g dto k) s"
proof (cases "owned s g actor")
  case (Inl e)
  then show ?thesis unfolding report_def by (intro guards_Eff) (simp add: later_now [OF k p])
next
  case (Inr x)
  define recorded where "recorded = (\<lambda>r :: (string \<times> int) result. case r of
      Inl e \<Rightarrow> k (Inl e) | Inr _ \<Rightarrow> Eff (\<lambda>st. (st, k (assertCurrent st x))))"
  have rec: "later t m recorded" if "later t m k" for t
  proof (rule laterI)
    fix r s0' b' u
    assume u: "present s0' b' m u" "sessions_rely t u"
    from laterD [OF that u] show "keeps s0' b' (recorded r) u"
      by (cases r) (simp_all add: recorded_def keeps_pure)
  qed
  define meta where "meta = (if file_event dto
      then [(''fileName'', JStr (case e_fileName dto of None \<Rightarrow> [] | Some n \<Rightarrow> n)),
            (''size'', JNum (case e_size dto of None \<Rightarrow> 0 | Some n \<Rightarrow> n)),
            (''direction'', JStr (case e_direction dto of None \<Rightarrow> [] | Some n \<Rightarrow> n))] else [])"
  have "keeps s0 b (await (ensureValid g) (\<lambda>r. case r of Inl e \<Rightarrow> k (Inl e)
      | Inr _ \<Rightarrow> Eff (\<lambda>st. case admit_report x dto st of
          (Inl e, st') \<Rightarrow> (st', k (Inl e))
        | (Inr _, st') \<Rightarrow> (st', await (recordEvent x (e_event dto) ''browser'' meta None) recorded)))) s"
  proof (rule valid_then_keeps [OF p k])
    fix s0' b' t
    assume t: "present s0' b' m t" "sessions_rely s t" "later t m k"
    obtain v u where v: "admit_report x dto t = (v, u)" by (cases "admit_report x dto t")
    have h: "harmless t u" using admit_report_harmless [OF present_inv [OF t(1)]] v by (metis snd_conv)
    note u = present_harmless [OF t(1) h] and k' = later_harmless [OF t(3) h]
    from later_now [OF k' u] await_record_keeps [OF u rec [OF k']]
    show "keeps s0' b' (Eff (\<lambda>st. case admit_report x dto st of
          (Inl e, st') \<Rightarrow> (st', k (Inl e))
        | (Inr _, st') \<Rightarrow> (st', await (recordEvent x (e_event dto) ''browser'' meta None) recorded))) t"
      using v by (intro guards_Eff) (cases v, simp_all)
  qed
  then show ?thesis unfolding report_def recorded_def meta_def
    by (intro guards_Eff, simp only: Inr sum.case fst_conv snd_conv)
qed

lemma requireOwnedActive_keeps:
  assumes p: "present s0 b m s" and k: "later s m k"
  shows "keeps s0 b (requireOwnedActive actor g k) s"
proof (cases "owned s g actor")
  case (Inl e)
  then show ?thesis unfolding requireOwnedActive_def by (intro guards_Eff) (simp add: later_now [OF k p])
next
  case (Inr x)
  have "keeps s0 b (await (ensureValid g) (\<lambda>r. case r of Inl e \<Rightarrow> k (Inl e)
      | Inr _ \<Rightarrow> Eff (\<lambda>st. (st, k (rbind (current st g) (\<lambda>y.
          if s_active y then Inr () else Inl unavailable_session)))))) s"
    by (rule valid_then_keeps [OF p k], rule keeps_pure) (rule later_now)
  then show ?thesis unfolding requireOwnedActive_def using later_now [OF k p]
    by (intro guards_Eff, simp only: Inr sum.case fst_conv snd_conv split: if_split) blast
qed

lemma end_session_keeps:
  assumes p: "present s0 b m s" and k: "later s m k"
  shows "keeps s0 b (end_session actor g k) s"
proof (cases "find_session s g")
  case None
  then show ?thesis unfolding end_session_def by (intro guards_Eff) (simp add: later_now [OF k p])
next
  case (Some x)
  have over: "later t m (\<lambda>_ :: unit. k (Inr ()))" if "later t m k" for t
    by (rule laterI) (rule laterD [OF that])
  define ending where "ending = (\<lambda>r :: (string \<times> int) result. case r of
      Inl e \<Rightarrow> k (Inl e)
    | Inr _ \<Rightarrow> Eff (\<lambda>st. (st, if find_session st g = None then k (Inr ())
        else await (closeGrant g ''admin_disconnect'' (Some (wa_id actor))) (\<lambda>_. k (Inr ())))))"
  have "later s m ending"
  proof (rule laterI)
    fix r s0' b' t
    assume t: "present s0' b' m t" "sessions_rely s t"
    note k' = sessions.continues_later [OF k t(2)]
    from later_now [OF k' t(1)] await_close_keeps [OF t(1) over [OF k']]
    show "keeps s0' b' (ending r) t"
      by (cases r) (simp_all add: ending_def keeps_pure)
  qed
  note other = await_deadline_keeps [OF p this, unfolded ending_def]
  note self = await_close_keeps [OF p over [OF k]]
  show ?thesis unfolding end_session_def
    by (rule guards_Eff, simp only: Some option.case Let_def fst_conv snd_conv)
       (rule keeps_if, rule self, rule other)
qed

lemma sweep_keeps:
  assumes "present s0 b m s" "later s m k"
  shows "keeps s0 b (sweep xs k) s"
  using assms
proof (induction xs arbitrary: s0 b s)
  case Nil
  then show ?case by (simp add: later_now)
next
  case (Cons x xs)
  have rest: "later s m (\<lambda>_ :: 'x. sweep xs k)"
    by (rule laterI) (rule Cons.IH, assumption, rule sessions.continues_later [OF Cons.prems(2)])
  note steps = Cons.IH [OF Cons.prems] await_close_keeps [OF Cons.prems(1) rest]
    await_valid_keeps [OF Cons.prems(1) rest]
  show ?case
  proof (cases "find_session s (s_guid x) = None")
    case True
    then show ?thesis using steps(1) by (auto intro: guards_Eff)
  next
    case False
    show ?thesis
      by (simp only: sweep.simps, rule guards_Eff, simp only: False if_False Let_def fst_conv snd_conv)
         (intro keeps_if steps)
  qed
qed

lemma revalidateSessions_keeps:
  assumes p: "present s0 b m s" and k: "later s m k"
  shows "keeps s0 b (revalidateSessions k) s"
proof (cases "ws_checking s \<noteq> None \<or> ws_stopped s")
  case True
  then show ?thesis unfolding revalidateSessions_def by (intro guards_Eff) (simp add: later_now [OF k p])
next
  case False
  let ?d = "Round (ws_next s)"
  let ?t = "s\<lparr>ws_checking := Some ?d, ws_next := ws_next s + 1\<rparr>"
  have h: "harmless s ?t"
    using harmless_trans [OF harmless_fields(5) [OF present_inv [OF p]]
        harmless_fields(1) [of "s\<lparr>ws_checking := Some ?d\<rparr>"]]
      harmless_fields(5) [OF present_inv [OF p]] by (simp add: harmless_def)
  note t = present_harmless [OF p h] and k1 = later_harmless [OF k h]
  have fin: "later u m (\<lambda>_ :: unit. Eff (\<lambda>st. (finish_round ?d st, k ())))" if "later u m k" for u
  proof (rule laterI)
    fix y :: unit and s0' b' v
    assume v: "present s0' b' m v" "sessions_rely u v"
    have hv: "harmless v (finish_round ?d v)"
      using harmless_trans [OF harmless_fields(6) harmless_fields(5)]
        harmless_fields(6) [OF present_inv [OF v(1)]] present_inv [OF v(1)]
      unfolding finish_round_def harmless_def by blast
    show "keeps s0' b' (Eff (\<lambda>st. (finish_round ?d st, k ()))) v"
      using later_now [OF later_harmless [OF sessions.continues_later [OF that v(2)] hv]
          present_harmless [OF v(1) hv]]
      by (intro guards_Eff) simp
  qed
  have "later ?t m (\<lambda>_ :: answer. Eff (\<lambda>st. let st1 = drop_expired_tickets st
      in (st1, sweep (ws_sessions st1) (\<lambda>_. Eff (\<lambda>st. (finish_round ?d st, k ()))))))"
  proof (rule laterI)
    fix a :: answer and s0' b' u
    assume u: "present s0' b' m u" "sessions_rely ?t u"
    note hu = drop_expired_harmless [OF present_inv [OF u(1)]]
    note k2 = later_harmless [OF sessions.continues_later [OF k1 u(2)] hu]
    show "keeps s0' b' (Eff (\<lambda>st. let st1 = drop_expired_tickets st
        in (st1, sweep (ws_sessions st1) (\<lambda>_. Eff (\<lambda>st. (finish_round ?d st, k ())))))) u"
      using sweep_keeps [OF present_harmless [OF u(1) hu] fin [OF k2]]
      by (intro guards_Eff) (simp add: Let_def)
  qed
  from keeps_wait [OF t this] False
  show ?thesis unfolding revalidateSessions_def by (intro guards_Eff) (simp add: Let_def)
qed

lemma onModuleDestroy_keeps:
  assumes p: "present s0 b m s" and k: "later s m k"
  shows "keeps s0 b (onModuleDestroy k) s"
proof -
  obtain ended t where r: "invalidate (ws_sessions s) (\<lambda>_. ''application_shutdown'') (s\<lparr>ws_stopped := True\<rparr>) = (ended, t)"
    by (cases "invalidate (ws_sessions s) (\<lambda>_. ''application_shutdown'') (s\<lparr>ws_stopped := True\<rparr>)")
  note parts = invalidate_parts [OF present_inv [OF p] subset_refl _ _ r, simplified]
  have h: "harmless s t"
    using present_inv [OF p] by (rule ended_harmless [where items = "ws_sessions s"])
      (simp_all add: parts gate_closed_def)
  have "later t m (\<lambda>_ :: unit. Await Turn (\<lambda>_. k ()))"
    by (rule laterI, erule keeps_wait, rule laterI)
       (rule laterD [OF later_harmless [OF k h]], assumption, erule sessions_rely_trans, assumption)
  from await_persist_keeps [OF present_harmless [OF p h] this] r
  show ?thesis unfolding onModuleDestroy_def by (intro guards_Eff) simp
qed

subsection \<open>All interleavings\<close>

lemmas operation_keeps =
  consumeTicket_keeps markRelayOpen_keeps ensureValid_keeps closeGrant_keeps report_keeps
  requireOwnedActive_keeps end_session_keeps revalidateSessions_keeps onModuleDestroy_keeps

lemma handle_keeps:
  assumes p: "present s0 b {#} s" and r: "random_values rq = None"
  shows "keeps s0 b (handle h rq) s"
proof -
  have e: "later s {#} answer_unit" "later s {#} answer_done" "later s {#} answer_claim"
    by (rule ends_later, simp, rule creation_may_leave(2))+
  have sync: "keeps s0 b (Eff (\<lambda>st. case f st of (v, st') \<Rightarrow> (st', answer_unit v))) s"
    if "harmless s (snd (f s))" for f :: "session_state \<Rightarrow> unit result \<times> session_state"
    using later_now [OF later_harmless [OF e(1) that] present_harmless [OF p that]]
    by (intro guards_Eff) (simp add: case_prod_beta)
  note inv = present_inv [OF p]
  have sync': "keeps s0 b (Eff (\<lambda>st. case bindRelay g uuid st of (v, st') \<Rightarrow> (st', answer_unit v))) s"
    "keeps s0 b (Eff (\<lambda>st. case attach g c st of (v, st') \<Rightarrow> (st', answer_unit v))) s" for g uuid c
    using sync [of "bindRelay g uuid"] sync [of "attach g c"] bindRelay_harmless [OF inv] attach_harmless [OF inv]
    by simp_all
  have det: "keeps s0 b (Eff (\<lambda>st. (detach g c st, answer_done ()))) s" for g c
    using later_now [OF later_harmless [OF e(2) detach_harmless [OF inv]]
        present_harmless [OF p detach_harmless [OF inv]]]
    by (intro guards_Eff) simp
  show ?thesis
    using r sync' det
    by (cases rq) (simp_all add: random_values_def operation_keeps [OF p] e)
qed

lemma handle_creation_keeps:
  assumes "present s0 b (creation h r) s" "random_values rq = Some r" "cr_guid r \<noteq> []"
  shows "keeps s0 b (handle h rq) s"
  using assms by (cases rq) (auto simp: random_values_def intro: create_keeps createFile_keeps)

lemma handle_starts: "continue a (handle h rq) = handle h rq"
  by (cases rq) (simp_all add: create_def createFile_def consumeTicket_def markRelayOpen_def ensureValid_def
      closeGrant_def report_def requireOwnedActive_def end_session_def revalidateSessions_def
      onModuleDestroy_def answer_claim_def)

lemma sound_start:
  assumes "may_leave m" "\<And>a. continue a p = p" "\<And>b t. present t b m t \<Longrightarrow> keeps t b p t"
  shows "sound sessions_inv sessions_rely tokens may_leave s m p"
  using assms by (simp add: sound_def present_def sessions_rely_refl)

lemma persist_starts: "continue a (persistTerminations cs g answer_done) = persistTerminations cs g answer_done"
  by (cases cs) (simp_all add: answer_done_def await_def recordEvent_def)

abbreviation service_ok :: "session_state \<Rightarrow> session_proc list \<Rightarrow> bool" where
  "service_ok \<equiv> pool_ok sessions_inv sessions_rely tokens may_leave"

lemma service_harmless: "service_ok st ps \<Longrightarrow> harmless st st' \<Longrightarrow> service_ok st' ps"
  unfolding harmless_def by (blast intro: sessions.pool_env)

lemma step_service_ok:
  assumes ok: "service_ok st ps" and step: "session_step h (st, ps) (st', ps')"
  shows "service_ok st' ps'"
  using step
proof cases
  case (step_random rq r)
  have inv: "sessions_inv st" using ok by (simp add: pool_ok_def)
  have f: "fresh_values h r st" and rq: "random_values rq = Some r" using step_random by simp_all
  have g: "cr_guid r \<noteq> []" using f by (simp add: fresh_values_def)
  have "sound sessions_inv sessions_rely tokens may_leave (draw h r st) (creation h r) (handle h rq)"
    using creation_may_leave(1) handle_starts handle_creation_keeps [OF _ rq g] by (rule sound_start)
  then show ?thesis
    using sessions.pool_add [OF ok] draw_effect [OF inv f] step_random by blast
next
  case (step_request rq)
  have inv: "sessions_inv st" using ok by (simp add: pool_ok_def)
  have rq: "random_values rq = None" using step_request by simp
  have "sound sessions_inv sessions_rely tokens may_leave st {#} (handle h rq)"
    using creation_may_leave(2) handle_starts handle_keeps [OF _ rq] by (rule sound_start)
  from sessions.pool_add [OF ok inv sessions_rely_refl _ this] step_request show ?thesis by simp
next
  case (step_process a p p' us qs)
  have "service_ok st (us @ p # qs)" "run (continue a p) st = (st', p')" using ok step_process by simp_all
  from sessions.pool_step [OF this] step_process show ?thesis by simp
next
  case (step_audit c cs)
  let ?t = "st\<lparr>ws_emergency := cs\<rparr>"
  have "sessions_inv st" using ok by (simp add: pool_ok_def)
  then have h: "harmless st ?t" by (rule harmless_fields(4))
  have "keeps t b (persistTerminations c None answer_done) t" if "present t b {#} t" for t b
    using that by (rule persistTerminations_keeps) (rule ends_later, simp, rule creation_may_leave(2))
  then have "sound sessions_inv sessions_rely tokens may_leave ?t {#} (persistTerminations c None answer_done)"
    by (intro sound_start [OF creation_may_leave(2) persist_starts])
  from sessions.pool_add [OF ok _ _ _ this] h step_audit show ?thesis by (simp add: harmless_def)
next
  case (step_settled n)
  have "sessions_inv st" using ok by (simp add: pool_ok_def)
  from service_harmless [OF ok harmless_fields(6) [OF this]] step_settled show ?thesis by simp
next
  case (step_round d)
  have "sessions_inv st" using ok by (simp add: pool_ok_def)
  then have h: "harmless st (expire_deadline d st)" by (rule expire_deadline_harmless [THEN conjunct1])
  then have "sessions_inv (expire_deadline d st)" by (simp add: harmless_def)
  from service_harmless [OF ok harmless_trans [OF h harmless_fields(5) [OF this]]] step_round
  show ?thesis by (simp add: round_timeout_def)
next
  case (step_clock t)
  have "sessions_inv st" using ok by (simp add: pool_ok_def)
  from service_harmless [OF ok harmless_fields(2) [OF this]] step_clock show ?thesis by simp
next
  case (step_config c)
  have "sessions_inv st" using ok by (simp add: pool_ok_def)
  from service_harmless [OF ok harmless_fields(3) [OF this]] step_config show ?thesis by simp
qed

lemma initial_ok: "service_ok (initial_sessions now) []"
  by (simp add: pool_ok_def initial_sessions_def sessions_inv_def within_limits_def sessions_of_def
      relays_unique_def tickets_live_def gate_closed_def history_ok_def tokens_def reserved_tokens_def)

lemma reachable_service_ok: "session_reachable h st ps \<Longrightarrow> service_ok st ps"
proof (induction rule: session_reachable.induct)
  case (reachable_start now)
  show ?case by (rule initial_ok)
next
  case (reachable_step st ps st' ps')
  from step_service_ok [OF reachable_step.IH reachable_step.hyps(2)] show ?case .
qed

lemma reachable_inv: "session_reachable h st ps \<Longrightarrow> sessions_inv st"
  using reachable_service_ok by (auto simp: pool_ok_def)

subsection \<open>An execution\<close>

primrec feed :: "answer list \<Rightarrow> session_proc \<Rightarrow> session_state \<Rightarrow> session_state \<times> session_proc" where
  "feed [] p st = (st, p)"
| "feed (a # as) p st = (case run (continue a p) st of (st', p') \<Rightarrow> feed as p' st')"

lemma reachable_feed:
  "session_reachable h st (ps @ [p]) \<Longrightarrow>
   session_reachable h (fst (feed as p st)) (ps @ [snd (feed as p st)])"
proof (induction as arbitrary: p st)
  case (Cons a as)
  obtain st' p' where r: "run (continue a p) st = (st', p')" by (cases "run (continue a p) st")
  have "session_step h (st, ps @ p # []) (st', ps @ p' # [])" using r by (rule step_process)
  from Cons.IH [OF reachable_step [OF Cons.prems this]] r show ?case by simp
qed simp

definition example_config :: web_config_state where
  "example_config = ConfigEnabled \<lparr>wc_origin = ''https://w'', wc_id_server = ''wss://i'',
     wc_relay_server = ''wss://r'', wc_public_key = ''k'', wc_id_upstream = None, wc_relay_upstream = None\<rparr>"

definition example_request :: create_request where
  "example_request = \<lparr>cr_actor = \<lparr>wa_id = ''u'', wa_jti = ''j''\<rparr>, cr_target = ''123 456'', cr_kind = Desktop,
     cr_parent = None, cr_guid = ''g'', cr_rendezvous = ''a'', cr_relay = ''b''\<rparr>"

definition example_state :: session_state where
  "example_state = draw id example_request ((initial_sessions 0)\<lparr>ws_config := example_config\<rparr>)"

definition example_answers :: "answer list" where
  "example_answers = [Resumed, Settled (Inr (''uuid'', 5000)), Resumed, Settled (Inr ([], 0)), Resumed]"

definition example_run :: "answer list \<Rightarrow> session_state \<times> session_proc" where
  "example_run as = feed as (handle id (CreateSession example_request)) example_state"

abbreviation example_end :: "session_state \<times> session_proc" where
  "example_end \<equiv> example_run example_answers"

lemma example_target: "normalizeWebClientTarget ''123 456'' = Inr ''123456''"
  by code_simp

lemma example_profile:
  "profileIdentity example_config =
     Inr (\<lparr>wf_id_server = ''wss://i'', wf_relay_server = ''wss://r'', wf_public_key = ''k''\<rparr>,
          ''https://w'', ''wss://i'', ''wss://r'')"
  "requireConfiguration example_config =
     Inr \<lparr>wf_id_server = ''wss://i'', wf_relay_server = ''wss://r'', wf_public_key = ''k''\<rparr>"
  by code_simp+

lemma example_reachable: "session_reachable id (fst (example_run as)) [snd (example_run as)]"
proof -
  let ?s = "(initial_sessions 0)\<lparr>ws_config := example_config\<rparr>"
  have "session_step id (initial_sessions 0, []) (?s, [])" by (rule step_config)
  note r = reachable_step [OF reachable_start this]
  have "fresh_values id example_request ?s"
    by (simp add: fresh_values_def example_request_def initial_sessions_def)
  then have "session_step id (?s, []) (draw id example_request ?s,
      [] @ [handle id (CreateSession example_request)])"
    by (intro step_random) (simp_all add: random_values_def)
  from reachable_feed [OF reachable_step [OF r this]]
  show ?thesis by (simp add: example_run_def example_state_def)
qed

lemmas example_defs =
  example_run_def example_answers_def create_def example_state_def draw_def initial_sessions_def
  example_target reserve_def create_checks_def example_profile create_validate_def await_def
  withDeadline_def recordEvent_def create_issue_def issue_checks_def example_request_def js_get_def
  issue_session_def new_session_def session_object_def find_session_def put_session_def
  finish_create_def releaseReservation_def answer_grant_def Let_def

text \<open>The request of the example is granted.\<close>

lemma example_result:
  "snd example_end = Finished (Granted \<lparr>g_session = ''g'', g_rendezvous = ''a'', g_relay = ''b'', g_expires = 5000\<rparr>)"
  "map s_guid (ws_sessions (fst example_end)) = [''g'']"
  "map fst (ws_tickets (fst example_end)) = [''a'', ''b'']"
  "ws_reservations (fst example_end) = []"
  by (simp_all add: example_defs)

text \<open>If the authorization times out instead, the service waits for it to settle.\<close>

lemma example_timeout: "ws_pending (fst (example_run [Resumed, TimedOut])) = [Single 0]"
  by (simp add: example_defs expire_deadline_def invalidate_def)

subsection \<open>Properties\<close>

lemma tickets_live_none: "tickets_live st \<Longrightarrow> ws_sessions st = [] \<Longrightarrow> ws_tickets st = []"
  by (cases "ws_tickets st") (auto simp: tickets_live_def)

text \<open>
  C22. Whatever requests arrive and however their waits interleave, there are never more than 256
  sessions and creations under way, and never more than 8 of one user: the reservation taken
  before the first wait is counted until the session is in the map.
\<close>

theorem sessions_within_limits:
  assumes "session_reachable h st ps"
  shows "length (ws_sessions st) + sum_list (map snd (ws_reservations st)) \<le> 256 \<and>
    sessions_of st user + js_get (ws_reservations st) user 0 \<le> 8"
  using reachable_inv [OF assms] by (simp add: sessions_inv_def within_limits_def)

lemma sessions_within_limits_witness:
  "length (ws_sessions (fst example_end)) + sum_list (map snd (ws_reservations (fst example_end))) \<le> 256 \<and>
   sessions_of (fst example_end) ''u'' + js_get (ws_reservations (fst example_end)) ''u'' 0 \<le> 8"
  by (rule sessions_within_limits [OF example_reachable])

text \<open>
  C27. No creation leaks its reservation, whatever its outcome: once every request has been answered,
  nothing is reserved.
\<close>

theorem reservations_released:
  assumes "session_reachable h st ps" "list_all is_finished ps"
  shows "sum_list (map snd (ws_reservations st)) = 0"
proof -
  have inv: "sessions_inv st" by (rule reachable_inv [OF assms(1)])
  have d: "distinct (map fst (ws_reservations st))" using inv by (simp add: sessions_inv_def history_ok_def)
  have "may_leave (tokens st)"
    using reachable_service_ok [OF assms(1)] assms(2) creation_may_leave(2)
    by (rule sessions.pool_finished) (auto simp: may_leave_def)
  then have "count (reserved_tokens (ws_reservations st)) (Reserved u) = 0" for u
    by (simp add: may_leave_def tokens_def not_in_iff)
  then have z: "js_get (ws_reservations st) u 0 = 0" for u using count_reserved [OF d] by simp
  have "v = 0" if "(u, v) \<in> set (ws_reservations st)" for u v
    using z [of u] map_of_is_SomeI [OF d that] by (simp add: js_get_def)
  then show ?thesis by (simp add: sum_list_eq_0_iff) force
qed

lemma reservations_released_witness:
  "list_all is_finished [snd example_end] \<and> sum_list (map snd (ws_reservations (fst example_end))) = 0"
  using reservations_released [OF example_reachable [of example_answers]] by (simp add: example_result(1))

text \<open>
  C26. File sessions hang on a live desktop session of the same login and device that has been
  relayed; a session is marked open only with a relay; no relay serves two sessions; a session has at
  most two channels and 1024 reported events.
\<close>

theorem session_families:
  assumes "session_reachable h st ps"
  shows "list_all (has_parent (ws_sessions st)) (ws_sessions st) \<and> list_all session_ok (ws_sessions st) \<and>
    relays_unique st"
  using reachable_inv [OF assms] by (simp add: sessions_inv_def)

lemma session_families_witness:
  "list_all (has_parent (ws_sessions (fst example_end))) (ws_sessions (fst example_end)) \<and>
   list_all session_ok (ws_sessions (fst example_end)) \<and> relays_unique (fst example_end)"
  by (rule session_families [OF example_reachable])

text \<open>
  C23. Tickets: a ticket is taken at most once, and is never found in the map afterwards; a ticket
  that can still be taken belongs to a live session.
\<close>

theorem tickets_single_use:
  assumes "session_reachable h st ps"
  shows "distinct (ws_claimed st) \<and> set (ws_claimed st) \<inter> fst ` set (ws_tickets st) = {} \<and> tickets_live st"
  using reachable_inv [OF assms] by (simp add: sessions_inv_def history_ok_def)

lemma tickets_single_use_witness:
  "distinct (ws_claimed (fst example_end)) \<and>
   set (ws_claimed (fst example_end)) \<inter> fst ` set (ws_tickets (fst example_end)) = {} \<and> tickets_live (fst example_end)"
  by (rule tickets_single_use [OF example_reachable])

text \<open>
  C24. After a verification has timed out, and until its query settles, there is no session and no
  ticket, and none after the shutdown: requests that were under way when it happened do not
  bring one back.
\<close>

theorem no_session_after_timeout:
  assumes "session_reachable h st ps"
  shows "if ws_stopped st \<or> ws_pending st \<noteq> [] then ws_sessions st = [] \<and> ws_tickets st = [] else True"
  using reachable_inv [OF assms] tickets_live_none [of st]
  by (auto simp: sessions_inv_def gate_closed_def)

lemma no_session_after_timeout_witness:
  "ws_pending (fst (example_run [Resumed, TimedOut])) \<noteq> [] \<and>
   ws_sessions (fst (example_run [Resumed, TimedOut])) = [] \<and> ws_tickets (fst (example_run [Resumed, TimedOut])) = []"
  using no_session_after_timeout [OF example_reachable [of "[Resumed, TimedOut]"]] by (simp add: example_timeout)

lemma run_persist:
  "ws_sessions (fst (run (await (persistTerminations cs by) k) s)) = ws_sessions s"
  "ws_tickets (fst (run (await (persistTerminations cs by) k) s)) = ws_tickets s"
  by (cases cs; simp add: await_def recordEvent_def withDeadline_def Let_def)+

lemma run_closeGrant:
  assumes inv: "sessions_inv s" and x: "find_session s g = Some x"
  shows "list_all (\<lambda>y. s_guid y \<noteq> g \<and> s_parentGuid y \<noteq> Some g)
      (ws_sessions (fst (run (await (closeGrant g reason by) k) s)))"
    and "list_all (\<lambda>(hash, t). t_session t \<noteq> g)
      (ws_tickets (fst (run (await (closeGrant g reason by) k) s)))"
proof -
  define why where "why (item :: web_session) = (if s_guid item = g then
      if reason \<in> set TERMINATION_REASONS then reason else ''connection_closed'' else ''parent_closed'')" for item
  obtain ended t where r: "invalidate (family_of s x) why s = (ended, t)"
    by (cases "invalidate (family_of s x) why s")
  have xs: "x \<in> set (ws_sessions s)" "s_guid x = g" using find_session_Some [OF x] by auto
  have sub: "set (family_of s x) \<subseteq> set (ws_sessions s)" using xs(1) by (auto simp: family_of_def)
  note parts = invalidate_parts [OF inv sub _ _ r, simplified]
  have e: "run (await (closeGrant g reason by) k) s = run (await (persistTerminations ended by) (\<lambda>u. Await Turn (\<lambda>_. k u))) t"
    using r x by (simp add: await_def closeGrant_def why_def [abs_def])
  have sess: "s_guid y \<noteq> g \<and> s_parentGuid y \<noteq> Some g" if "y \<in> set (ws_sessions t)" for y
  proof -
    have y: "y \<in> set (ws_sessions s)" "y \<notin> set (family_of s x)" using that by (auto simp: parts(2))
    then show ?thesis using same_guid [OF inv y(1) xs(1)] xs(2) by (auto simp: family_of_def)
  qed
  then show "list_all (\<lambda>y. s_guid y \<noteq> g \<and> s_parentGuid y \<noteq> Some g)
      (ws_sessions (fst (run (await (closeGrant g reason by) k) s)))"
    by (simp add: e run_persist list_all_iff)
  have "tickets_live t" using family_harmless [OF inv xs(1) r] by (simp add: harmless_def sessions_inv_def)
  then have "t_session tk \<noteq> g" if "(hash, tk) \<in> set (ws_tickets t)" for hash tk
    using sess that by (fastforce simp: tickets_live_def list_all_iff list_ex_iff)
  then show "list_all (\<lambda>(hash, t). t_session t \<noteq> g) (ws_tickets (fst (run (await (closeGrant g reason by) k) s)))"
    by (auto simp: e run_persist list_all_iff)
qed

lemma failed_validation_ends:
  assumes "session_reachable h st ps" "find_session st (s_guid x) \<noteq> None"
    and v: "apply_validation x r st = (Inl e, st1)"
  shows "list_all (\<lambda>y. s_guid y \<noteq> s_guid x \<and> s_parentGuid y \<noteq> Some (s_guid x))
      (ws_sessions (fst (run (revalidated x r k) st)))"
    and "list_all (\<lambda>(hash, t). t_session t \<noteq> s_guid x) (ws_tickets (fst (run (revalidated x r k) st)))"
proof -
  have "harmless st st1"
    using apply_validation_harmless [OF reachable_inv [OF assms(1)]] v by (metis snd_conv)
  then have inv: "sessions_inv st1" by (simp add: harmless_def)
  have "map s_guid (ws_sessions st1) = map s_guid (ws_sessions st)"
    using v by (auto simp: apply_validation_def update_session_def Let_def split: sum.splits prod.splits)
  then have "s_guid ` set (ws_sessions st1) = s_guid ` set (ws_sessions st)" by (metis set_map)
  then have "find_session st1 (s_guid x) \<noteq> None" using assms(2) by (simp add: find_session_None)
  then obtain y where y: "find_session st1 (s_guid x) = Some y" by blast
  show "list_all (\<lambda>y. s_guid y \<noteq> s_guid x \<and> s_parentGuid y \<noteq> Some (s_guid x))
      (ws_sessions (fst (run (revalidated x r k) st)))"
    and "list_all (\<lambda>(hash, t). t_session t \<noteq> s_guid x) (ws_tickets (fst (run (revalidated x r k) st)))"
    using run_closeGrant [OF inv y] v by (simp_all add: revalidated_def)
qed

text \<open>
  C25. When the check of a live session fails (its login has ended, its authorization is gone, its
  configuration or its parent has changed), the session, all its file sessions and their tickets are
  gone before anything else can run, whatever happens to the audit.
\<close>

theorem failed_validation_ends_family:
  assumes "session_reachable h st ps" "find_session st (s_guid x) \<noteq> None"
    and "apply_validation x r st = (Inl e, st1)" and "st' = fst (run (revalidated x r k) st)"
  shows "list_all (\<lambda>y. s_guid y \<noteq> s_guid x \<and> s_parentGuid y \<noteq> Some (s_guid x)) (ws_sessions st') \<and>
    list_all (\<lambda>(hash, t). t_session t \<noteq> s_guid x) (ws_tickets st')"
  unfolding assms(4) by (intro conjI failed_validation_ends [OF assms(1-3)])

lemma example_session: "find_session (fst example_end) ''g'' \<noteq> None"
  using example_result(2) by (auto simp: find_session_None simp flip: set_map)

lemma failed_validation_ends_family_witness:
  "list_all (\<lambda>y. s_guid y \<noteq> ''g'') (ws_sessions (fst (run (revalidated (hd (ws_sessions (fst example_end)))
     (Inl (UnauthorizedException [])) answer_unit) (fst example_end))))"
proof -
  have g: "s_guid (hd (ws_sessions (fst example_end))) = ''g''"
    using example_result(2) by (cases "ws_sessions (fst example_end)") auto
  have f: "find_session (fst example_end) (s_guid (hd (ws_sessions (fst example_end)))) \<noteq> None"
    using g example_session by simp
  have a: "apply_validation (hd (ws_sessions (fst example_end))) (Inl (UnauthorizedException [])) (fst example_end) =
      (Inl (UnauthorizedException []), fst example_end)"
    by (simp add: apply_validation_def)
  from failed_validation_ends_family [OF example_reachable f a refl, of answer_unit] g
  show ?thesis by (auto simp: list_all_iff)
qed

end
