(* ===== verification/Update_Manifest.thy ===== *)
theory Update_Manifest
  imports Prelude "HOL-Library.Product_Lexorder"
begin

text \<open>
  Release manifests of the updater (\<open>src/updater/contracts.ts\<close>, \<open>errors.ts\<close>,
  \<open>manifest.ts\<close>): the data of the protocol, versions and their order, compatibility ranges,
  and the validation of a manifest against the release it came with. JSON numbers are integers.
\<close>

subsection \<open>Errors\<close>

datatype update_error = UpdateError string string nat | JournalError | OtherFailure

type_synonym 'a update_result = "update_error + 'a"

fun error_code :: "update_error \<Rightarrow> string" where
  "error_code (UpdateError c m n) = c"
| "error_code JournalError = ''JOURNAL_UNAVAILABLE''"
| "error_code OtherFailure = ''EXECUTION_FAILED''"

fun safe_message :: "update_error \<Rightarrow> string" where
  "safe_message (UpdateError c m n) = m"
| "safe_message JournalError =
     ''The durable task journal could not be written. Keep the maintenance fence and recover from the host.''"
| "safe_message OtherFailure = ''The update operation failed. Consult the protected host recovery log.''"

fun error_status :: "update_error \<Rightarrow> nat" where
  "error_status (UpdateError c m n) = n"
| "error_status JournalError = 503"
| "error_status OtherFailure = 503"

definition check :: "bool \<Rightarrow> string \<Rightarrow> string \<Rightarrow> unit update_result" where
  "check c code message = (if c then Inr () else Inl (UpdateError code message 409))"

lemma check_Inr_iff [result_simps]: "check c code m = Inr u \<longleftrightarrow> c"
  by (simp add: check_def)

lemma check_simps [simp]: "check True code m = Inr ()" "check False code m = Inl (UpdateError code m 409)"
  by (simp_all add: check_def)

subsection \<open>Data\<close>

datatype update_component = Backend | WebApp

fun OFFICIAL_REPOSITORIES :: "update_component \<Rightarrow> string" where
  "OFFICIAL_REPOSITORIES Backend = ''databk/rustdesk-console''"
| "OFFICIAL_REPOSITORIES WebApp = ''databk/rustdesk-console-web''"

record blocker =
  bk_code :: string
  bk_message :: string

definition blocker_of :: "update_error \<Rightarrow> blocker" where
  "blocker_of e = \<lparr>bk_code = error_code e, bk_message = safe_message e\<rparr>"

record platform =
  pf_os :: string
  pf_arch :: string
  pf_libc :: string

datatype artifact_kind = Oci | Archive

record artifact =
  af_kind :: artifact_kind
  af_platform :: platform
  af_name :: string
  af_url :: string
  af_sha256 :: string
  af_size :: int

record manifest =
  mf_schemaVersion :: int
  mf_repository :: string
  mf_component :: update_component
  mf_version :: string
  mf_releaseId :: int
  mf_tag :: string
  mf_sourceCommit :: string
  mf_publishedAt :: string
  mf_peerVersionRange :: string
  mf_updaterProtocol :: int
  mf_maintenanceProtocol :: int
  mf_bundleFormat :: int
  mf_artifacts :: "artifact list"

record installed_component =
  ic_version :: string
  ic_sourceCommit :: string
  ic_artifact :: artifact
  ic_manifest :: manifest

subsection \<open>Regular expressions of the file\<close>

definition digit_char :: "char \<Rightarrow> bool" where
  "digit_char c = (let n = (of_char c :: nat) in 48 \<le> n \<and> n \<le> 57)"

definition lower_hex :: "char \<Rightarrow> bool" where
  "lower_hex c = (digit_char c \<or> (let n = (of_char c :: nat) in 97 \<le> n \<and> n \<le> 102))"

definition alphanumeric :: "char \<Rightarrow> bool" where
  "alphanumeric c = (let n = (of_char c :: nat)
     in digit_char c \<or> (65 \<le> n \<and> n \<le> 90) \<or> (97 \<le> n \<and> n \<le> 122))"

definition hex_string :: "nat \<Rightarrow> string \<Rightarrow> bool" where
  "hex_string n s \<longleftrightarrow> length s = n \<and> list_all lower_hex s"

text \<open>\<open>0|[1-9]\d*\<close>\<close>

definition canonical_numeral :: "string \<Rightarrow> bool" where
  "canonical_numeral s \<longleftrightarrow>
     s = ''0'' \<or> (case s of [] \<Rightarrow> False | c # cs \<Rightarrow> c \<noteq> CHR ''0'' \<and> list_all digit_char (c # cs))"

text \<open>\<open>s.split(c)\<close> and \<open>s.trim().split(/\s+/)\<close>\<close>

fun split_on :: "char \<Rightarrow> string \<Rightarrow> string list" where
  "split_on c [] = [[]]"
| "split_on c (x # xs) =
     (if x = c then [] # split_on c xs
      else (case split_on c xs of [] \<Rightarrow> [[x]] | w # ws \<Rightarrow> (x # w) # ws))"

fun split_spaces :: "string \<Rightarrow> string list" where
  "split_spaces [] = [[]]"
| "split_spaces (x # xs) =
     (if js_space x then [] # split_spaces xs
      else (case split_spaces xs of [] \<Rightarrow> [[x]] | w # ws \<Rightarrow> (x # w) # ws))"

definition range_terms :: "string \<Rightarrow> string list" where
  "range_terms rng =
     (case filter (\<lambda>w. w \<noteq> []) (split_spaces (js_trim rng)) of [] \<Rightarrow> [[]] | ws \<Rightarrow> ws)"

definition STABLE_VERSION :: "string \<Rightarrow> bool" where
  "STABLE_VERSION s \<longleftrightarrow> length (split_on CHR ''.'' s) = 3 \<and> list_all canonical_numeral (split_on CHR ''.'' s)"

text \<open>\<open>tag.replace(/^v/, '')\<close>\<close>

definition tag_version :: "string \<Rightarrow> string" where
  "tag_version tag = (case tag of [] \<Rightarrow> [] | c # cs \<Rightarrow> if c = CHR ''v'' then cs else tag)"

subsection \<open>Versions\<close>

definition digit_value :: "char \<Rightarrow> nat" where
  "digit_value c = of_char c - 48"

definition decimal :: "string \<Rightarrow> nat" where
  "decimal s = foldl (\<lambda>n c. 10 * n + digit_value c) 0 s"

fun compare_parts :: "nat list \<Rightarrow> nat list \<Rightarrow> int" where
  "compare_parts (a # as) (b # bs) = (if a \<noteq> b then (if a < b then - 1 else 1) else compare_parts as bs)"
| "compare_parts _ _ = 0"

definition compareVersions :: "string \<Rightarrow> string \<Rightarrow> int update_result" where
  "compareVersions left right =
     rbind (check (STABLE_VERSION left \<and> STABLE_VERSION right)
              ''UNKNOWN_VERSION'' ''Only stable semantic versions are supported.'') (\<lambda>_.
       Inr (compare_parts (map decimal (split_on CHR ''.'' left)) (map decimal (split_on CHR ''.'' right))))"

datatype comparator = AtLeast | AtMost | Above | Below | Exactly

text \<open>\<open>/^(>=|<=|>|<|=)?(version)$/\<close>\<close>

definition read_term :: "string \<Rightarrow> (comparator \<times> string) option" where
  "read_term t =
     (let cut = (if take 2 t = ''>='' then (AtLeast, drop 2 t)
                 else if take 2 t = ''<='' then (AtMost, drop 2 t)
                 else if take 1 t = ''>'' then (Above, drop 1 t)
                 else if take 1 t = ''<'' then (Below, drop 1 t)
                 else if take 1 t = ''='' then (Exactly, drop 1 t)
                 else (Exactly, t))
      in if STABLE_VERSION (snd cut) then Some cut else None)"

fun compares :: "comparator \<Rightarrow> int \<Rightarrow> bool" where
  "compares AtLeast n = (n \<ge> 0)"
| "compares AtMost n = (n \<le> 0)"
| "compares Above n = (n > 0)"
| "compares Below n = (n < 0)"
| "compares Exactly n = (n = 0)"

fun satisfies_all :: "string \<Rightarrow> string list \<Rightarrow> bool update_result" where
  "satisfies_all version [] = Inr True"
| "satisfies_all version (t # ts) =
     (case read_term t of
        None \<Rightarrow> Inr False
      | Some (cmp, bound) \<Rightarrow>
          rbind (compareVersions version bound) (\<lambda>n.
            if compares cmp n then satisfies_all version ts else Inr False))"

definition satisfies :: "string \<Rightarrow> string \<Rightarrow> bool update_result" where
  "satisfies version rng = satisfies_all version (range_terms rng)"

subsection \<open>Releases and artifacts\<close>

record release_asset =
  ra_name :: string
  ra_url :: string
  ra_size :: int

record official_release =
  or_id :: int
  or_tag :: string
  or_draft :: bool
  or_prerelease :: bool
  or_published :: string
  or_assets :: "release_asset list"

definition safe_integer :: "int \<Rightarrow> bool" where
  "safe_integer n \<longleftrightarrow> \<bar>n\<bar> < 2 ^ 53"

definition isStableRelease :: "official_release \<Rightarrow> bool" where
  "isStableRelease r \<longleftrightarrow>
     \<not> or_draft r \<and> \<not> or_prerelease r \<and> STABLE_VERSION (tag_version (or_tag r)) \<and>
     safe_integer (or_id r) \<and> or_id r > 0 \<and> or_published r \<noteq> []"

text \<open>\<open>/^[A-Za-z0-9][A-Za-z0-9._-]*\.tar\.gz$/\<close>\<close>

definition archive_name :: "string \<Rightarrow> bool" where
  "archive_name s \<longleftrightarrow>
     7 < length s \<and> drop (length s - 7) s = ''.tar.gz'' \<and> alphanumeric (hd s) \<and>
     list_all (\<lambda>c. alphanumeric c \<or> c \<in> {CHR ''.'', CHR ''_'', CHR ''-''}) (take (length s - 7) s)"

definition untrusted :: "bool \<Rightarrow> string \<Rightarrow> unit update_result" where
  "untrusted c m = check c ''UNTRUSTED_SOURCE'' m"

definition assertArtifact :: "artifact \<Rightarrow> update_component \<Rightarrow> string \<Rightarrow> unit update_result" where
  "assertArtifact a component tag =
     rbind (check (pf_os (af_platform a) = ''linux'' \<and> pf_arch (af_platform a) \<in> {''x64'', ''arm64''} \<and>
                   pf_libc (af_platform a) \<in> {''glibc'', ''musl''})
              ''INVALID_ARTIFACT'' ''The release platform is unsupported.'') (\<lambda>_.
     rbind (check (hex_string 64 (af_sha256 a) \<and> safe_integer (af_size a) \<and> af_size a > 0)
              ''INVALID_ARTIFACT'' ''The release artifact has no valid integrity metadata.'') (\<lambda>_.
       case af_kind a of
         Oci \<Rightarrow>
           untrusted (af_url a = ''ghcr.io/'' @ OFFICIAL_REPOSITORIES component @ ''@sha256:'' @ af_sha256 a)
             ''Only digest-pinned official images are accepted.''
       | Archive \<Rightarrow>
           rbind (check (archive_name (af_name a)) ''INVALID_ARTIFACT'' ''The release archive format is unsupported.'') (\<lambda>_.
             untrusted (af_url a = ''https://github.com/'' @ OFFICIAL_REPOSITORIES component @
                 ''/releases/download/'' @ tag @ ''/'' @ af_name a)
               ''Only official release archives are accepted.'')))"

definition assertAsset :: "official_release \<Rightarrow> artifact \<Rightarrow> unit update_result" where
  "assertAsset r a =
     check (af_kind a = Archive \<longrightarrow>
              list_ex (\<lambda>asset. ra_name asset = af_name a \<and> ra_url asset = af_url a \<and> ra_size asset = af_size a)
                (or_assets r))
       ''ARTIFACTS_PENDING'' ''A declared release archive is missing.''"

definition validateManifest ::
  "manifest \<Rightarrow> update_component \<Rightarrow> official_release \<Rightarrow> string \<Rightarrow> manifest update_result" where
  "validateManifest m component r commit =
     rbind (check (isStableRelease r)
              ''NON_STABLE_RELEASE'' ''The selected release is not an official stable release.'') (\<lambda>_.
     rbind (check (mf_schemaVersion m = 1 \<and> mf_component m = component \<and>
                   mf_repository m = OFFICIAL_REPOSITORIES component)
              ''INVALID_MANIFEST'' ''The official update manifest is invalid.'') (\<lambda>_.
     rbind (check (mf_releaseId m = or_id r \<and> mf_tag m = or_tag r \<and>
                   mf_version m = tag_version (or_tag r) \<and> mf_publishedAt m = or_published r)
              ''RELEASE_CHANGED'' ''The release identity changed. Preview the update again.'') (\<lambda>_.
     rbind (check (hex_string 40 (mf_sourceCommit m) \<and> mf_sourceCommit m = commit)
              ''RELEASE_CHANGED'' ''The release source does not match its tag.'') (\<lambda>_.
     rbind (check (mf_updaterProtocol m = 1 \<and> mf_maintenanceProtocol m = 1 \<and> mf_bundleFormat m = 1)
              ''PROTOCOL_UNSUPPORTED'' ''The release requires an unsupported updater protocol.'') (\<lambda>_.
     rbind (check (length (mf_peerVersionRange m) < 200 \<and>
                   list_all (\<lambda>t. read_term t \<noteq> None) (range_terms (mf_peerVersionRange m)))
              ''COMPATIBILITY_MISSING'' ''The release has no supported explicit compatibility range.'') (\<lambda>_.
     rbind (check (mf_artifacts m \<noteq> [] \<and> length (mf_artifacts m) \<le> 32)
              ''ARTIFACTS_PENDING'' ''The release artifacts are not complete.'') (\<lambda>_.
     rbind (each (\<lambda>a. rbind (assertArtifact a component (or_tag r)) (\<lambda>_. assertAsset r a)) (mf_artifacts m)) (\<lambda>_.
       Inr m))))))))"

definition selectArtifact :: "manifest \<Rightarrow> platform \<Rightarrow> artifact_kind \<Rightarrow> artifact update_result" where
  "selectArtifact m p kind =
     (case filter (\<lambda>a. af_kind a = kind \<and> pf_os (af_platform a) = pf_os p \<and>
                       pf_arch (af_platform a) = pf_arch p \<and> pf_libc (af_platform a) = pf_libc p)
             (mf_artifacts m) of
        [a] \<Rightarrow> Inr a
      | _ \<Rightarrow> Inl (UpdateError ''ARTIFACTS_PENDING''
               ''Exactly one artifact for this installation platform is required.'' 409))"

subsection \<open>The order of versions\<close>

text \<open>A version is three numbers; its text is canonical.\<close>

type_synonym version = "nat \<times> nat \<times> nat"

definition version_text :: "version \<Rightarrow> string" where
  "version_text v = (case v of (a, b, c) \<Rightarrow> nat_str a @ ''.'' @ nat_str b @ ''.'' @ nat_str c)"

lemma digit_value_char: "digit_char c \<Longrightarrow> char_of (48 + digit_value c) = c"
  by (simp add: digit_char_def digit_value_def Let_def)

lemma digit_value_less: "digit_char c \<Longrightarrow> digit_value c < 10"
  unfolding digit_char_def digit_value_def Let_def by linarith

lemma of_char_digit: "(d :: nat) < 10 \<Longrightarrow> (of_char (char_of (48 + d) :: char) :: nat) = 48 + d"
  by (simp add: of_char_of)

lemma digit_char_of: "(d :: nat) < 10 \<Longrightarrow> digit_char (char_of (48 + d))"
  unfolding digit_char_def Let_def by (simp only: of_char_digit) simp

lemma digit_value_of: "(d :: nat) < 10 \<Longrightarrow> digit_value (char_of (48 + d)) = d"
  unfolding digit_value_def by (simp add: of_char_digit)

lemma decimal_snoc: "decimal (s @ [c]) = 10 * decimal s + digit_value c"
  by (simp add: decimal_def)

lemma zero_digit: "digit_value c = 0 \<Longrightarrow> digit_char c \<Longrightarrow> c = CHR ''0''"
proof -
  assume "digit_value c = 0" "digit_char c"
  then have "c = char_of (48 + 0 :: nat)" using digit_value_char [of c] by simp
  also have "\<dots> = CHR ''0''" by code_simp
  finally show ?thesis .
qed

lemma decimal_pos: "canonical_numeral s \<Longrightarrow> s \<noteq> ''0'' \<Longrightarrow> 0 < decimal s"
proof -
  assume *: "canonical_numeral s" "s \<noteq> ''0''"
  then obtain c cs where s: "s = c # cs" "c \<noteq> CHR ''0''" "list_all digit_char (c # cs)"
    by (auto simp: canonical_numeral_def split: list.splits)
  have "0 < foldl (\<lambda>n c. 10 * n + digit_value c) n cs" if "0 < n" for n
    using that by (induction cs arbitrary: n) auto
  moreover have "0 < digit_value c" using zero_digit [of c] s(2,3) by fastforce
  ultimately show ?thesis by (simp add: decimal_def s(1))
qed

lemma nat_str_decimal: "canonical_numeral s \<Longrightarrow> nat_str (decimal s) = s"
proof (induction s rule: rev_induct)
  case Nil
  then show ?case by (simp add: canonical_numeral_def)
next
  case (snoc c s)
  show ?case
  proof (cases "s = []")
    case True
    then have d: "digit_char c" using snoc.prems
      by (auto simp: canonical_numeral_def digit_char_def split: list.splits)
    then show ?thesis using True digit_value_less [OF d] digit_value_char [OF d]
      by (simp add: decimal_def nat_str.simps)
  next
    case False
    then obtain e es where s: "s = e # es" by (cases s) auto
    have d: "digit_char c" "list_all digit_char s" "e \<noteq> CHR ''0''"
      using snoc.prems s by (auto simp: canonical_numeral_def)
    then have can: "canonical_numeral s" by (simp add: canonical_numeral_def s)
    have "s \<noteq> ''0''" using d(3) s by auto
    then have pos: "0 < decimal s" by (rule decimal_pos [OF can])
    have l: "digit_value c < 10" by (rule digit_value_less [OF d(1)])
    have "nat_str (decimal (s @ [c])) = nat_str (decimal s) @ [char_of (48 + digit_value c)]"
      using pos l by (simp add: decimal_snoc nat_str.simps [of "10 * decimal s + digit_value c"])
    then show ?thesis using snoc.IH [OF can] digit_value_char [OF d(1)] by simp
  qed
qed

lemma nat_str_canonical: "canonical_numeral (nat_str n) \<and> decimal (nat_str n) = n"
proof (induction n rule: less_induct)
  case (less n)
  show ?case
  proof (cases "n < 10")
    case True
    have e: "nat_str n = [char_of (48 + n)]" using True by (simp add: nat_str.simps)
    have z: "char_of (48 + n) = CHR ''0'' \<longleftrightarrow> n = 0"
    proof
      assume "char_of (48 + n) = CHR ''0''"
      then have "digit_value (char_of (48 + n)) = digit_value CHR ''0''" by simp
      moreover have "digit_value CHR ''0'' = 0" by code_simp
      ultimately show "n = 0" using digit_value_of [OF True] by simp
    next
      assume "n = 0"
      then show "char_of (48 + n) = CHR ''0''" by simp code_simp
    qed
    show ?thesis
      unfolding e using digit_char_of [OF True] digit_value_of [OF True] z
      by (auto simp: canonical_numeral_def decimal_def)
  next
    case False
    let ?m = "n div 10" and ?d = "n mod 10"
    have e: "nat_str n = nat_str ?m @ [char_of (48 + ?d)]" using False by (simp add: nat_str.simps [of n])
    have IH: "canonical_numeral (nat_str ?m)" "decimal (nat_str ?m) = ?m" using less [of ?m] False by auto
    have "nat_str ?m \<noteq> ''0''"
    proof
      assume "nat_str ?m = ''0''"
      then have "?m = decimal ''0''" using IH(2) by simp
      also have "\<dots> = 0" by code_simp
      finally show False using False by simp
    qed
    then obtain c cs where m: "nat_str ?m = c # cs" "c \<noteq> CHR ''0''" "list_all digit_char (c # cs)"
      using IH(1) by (auto simp: canonical_numeral_def split: list.splits)
    have "digit_char (char_of (48 + ?d))" by (rule digit_char_of) simp
    then have "canonical_numeral (nat_str n)" unfolding e m using m(2,3) by (simp add: canonical_numeral_def)
    moreover have "decimal (nat_str n) = n"
      unfolding e decimal_snoc IH(2) using digit_value_of [of ?d] by simp
    ultimately show ?thesis by blast
  qed
qed

lemma digit_not_dot: "digit_char c \<Longrightarrow> c \<noteq> CHR ''.''"
proof
  assume "digit_char c" "c = CHR ''.''"
  moreover have "\<not> digit_char CHR ''.''" by code_simp
  ultimately show False by simp
qed

lemma canonical_no_dot: "canonical_numeral s \<Longrightarrow> CHR ''.'' \<notin> set s"
  using digit_not_dot by (auto simp: canonical_numeral_def list_all_iff split: list.splits)

lemma split_on_plain: "c \<notin> set s \<Longrightarrow> split_on c s = [s]"
  by (induction s) auto

lemma split_on_append: "c \<notin> set s \<Longrightarrow> split_on c (s @ c # t) = s # split_on c t"
  by (induction s) auto

lemma split_on_three:
  "split_on c s = [x, y, z] \<Longrightarrow> s = x @ c # y @ c # z"
proof -
  have ne: "split_on c s \<noteq> []" for s by (induction s) (auto split: list.splits)
  have one: "split_on c s = [z] \<Longrightarrow> s = z" for s z
    by (induction s arbitrary: z) (auto simp: ne split: if_splits list.splits)
  have cons: "split_on c s = x # y # ws \<Longrightarrow> \<exists>t. s = x @ c # t \<and> split_on c t = y # ws" for s x y ws
    by (induction s arbitrary: x) (auto simp: ne split: if_splits list.splits)
  assume "split_on c s = [x, y, z]"
  from cons [OF this] obtain t where t: "s = x @ c # t" "split_on c t = [y, z]" by blast
  from cons [OF t(2)] obtain u where "t = y @ c # u" "split_on c u = [z]" by blast
  with t one show ?thesis by simp
qed

lemma split_version_text:
  "split_on CHR ''.'' (version_text (a, b, c)) = [nat_str a, nat_str b, nat_str c]"
  using canonical_no_dot nat_str_canonical by (simp add: version_text_def split_on_append split_on_plain)

lemma stable_version_iff: "STABLE_VERSION s \<longleftrightarrow> (\<exists>v. s = version_text v)"
proof
  assume "STABLE_VERSION s"
  then obtain x y z where s: "split_on CHR ''.'' s = [x, y, z]"
    and n: "canonical_numeral x" "canonical_numeral y" "canonical_numeral z"
    by (auto simp: STABLE_VERSION_def numeral_3_eq_3 length_Suc_conv)
  have "s = version_text (decimal x, decimal y, decimal z)"
    using split_on_three [OF s] n by (simp add: version_text_def nat_str_decimal)
  then show "\<exists>v. s = version_text v" by blast
next
  assume "\<exists>v. s = version_text v"
  then obtain a b c where "s = version_text (a, b, c)" by auto
  then show "STABLE_VERSION s"
    using split_version_text [of a b c] nat_str_canonical by (simp add: STABLE_VERSION_def)
qed

lemma version_text_stable: "STABLE_VERSION (version_text v)"
  using stable_version_iff by blast

lemma version_text_inject: "version_text v = version_text w \<longleftrightarrow> v = w"
proof
  assume e: "version_text v = version_text w"
  obtain a b c d f g where v: "v = (a, b, c)" "w = (d, f, g)" by (cases v; cases w)
  with e have "[nat_str a, nat_str b, nat_str c] = [nat_str d, nat_str f, nat_str g]"
    using split_version_text by metis
  then show "v = w" using nat_str_canonical v by (metis list.inject)
qed simp

definition version_order :: "version \<Rightarrow> version \<Rightarrow> int" where
  "version_order v w = (if v = w then 0 else if v < w then - 1 else 1)"

lemma compare_version_text: "compareVersions (version_text v) (version_text w) = Inr (version_order v w)"
proof -
  obtain a b c d f g where v: "v = (a, b, c)" "w = (d, f, g)" by (cases v; cases w)
  have "STABLE_VERSION (version_text v)" "STABLE_VERSION (version_text w)"
    using stable_version_iff by blast+
  then show ?thesis
    using nat_str_canonical
    by (auto simp: compareVersions_def v split_version_text version_order_def less_prod_def)
qed

lemma compareVersions_order:
  "compareVersions left right = Inr n \<longleftrightarrow>
     (\<exists>v w. left = version_text v \<and> right = version_text w \<and> n = version_order v w)"
proof
  assume c: "compareVersions left right = Inr n"
  then have "STABLE_VERSION left" "STABLE_VERSION right"
    by (auto simp: compareVersions_def rbind_Inr_iff check_Inr_iff)
  with c show "\<exists>v w. left = version_text v \<and> right = version_text w \<and> n = version_order v w"
    unfolding stable_version_iff using compare_version_text by (metis sum.inject(2))
qed (auto simp: compare_version_text)

subsection \<open>Compatibility ranges\<close>

fun term_texts :: "comparator \<Rightarrow> string \<Rightarrow> string list" where
  "term_texts AtLeast b = [''>='' @ b]"
| "term_texts AtMost b = [''<='' @ b]"
| "term_texts Above b = [''>'' @ b]"
| "term_texts Below b = [''<'' @ b]"
| "term_texts Exactly b = [''='' @ b, b]"

lemma stable_head: "STABLE_VERSION b \<Longrightarrow> \<exists>c cs. b = c # cs \<and> c \<notin> {CHR ''>'', CHR ''<'', CHR ''=''}"
proof -
  assume "STABLE_VERSION b"
  then obtain x y z where b: "b = nat_str x @ ''.'' @ nat_str y @ ''.'' @ nat_str z"
    by (auto simp: stable_version_iff version_text_def)
  have can: "canonical_numeral (nat_str x)" using nat_str_canonical by blast
  have n: "\<not> digit_char CHR ''>''" "\<not> digit_char CHR ''<''" "\<not> digit_char CHR ''=''" by code_simp+
  have z: "digit_char CHR ''0''" by code_simp
  obtain c cs where s: "nat_str x = c # cs" "digit_char c"
    using can z by (auto simp: canonical_numeral_def split: list.splits)
  then have "c \<notin> {CHR ''>'', CHR ''<'', CHR ''=''}" using n by auto
  then show ?thesis using b s(1) by simp
qed

lemma read_term_iff:
  "read_term t = Some (cmp, b) \<longleftrightarrow> STABLE_VERSION b \<and> t \<in> set (term_texts cmp b)"
proof
  assume r: "read_term t = Some (cmp, b)"
  then show "STABLE_VERSION b \<and> t \<in> set (term_texts cmp b)"
    by (cases t; cases "tl t") (auto simp: read_term_def Let_def numeral_2_eq_2 split: if_splits)
next
  assume *: "STABLE_VERSION b \<and> t \<in> set (term_texts cmp b)"
  then obtain c cs where "b = c # cs" "c \<notin> {CHR ''>'', CHR ''<'', CHR ''=''}"
    using stable_head by blast
  with * show "read_term t = Some (cmp, b)"
    by (cases cmp) (auto simp: read_term_def Let_def)
qed

text \<open>
  A term holds of a version if it is a comparator followed by a version it compares to so;
  a version is in a range if all terms are terms and hold.
\<close>

definition term_holds :: "version \<Rightarrow> string \<Rightarrow> bool" where
  "term_holds v t \<longleftrightarrow>
     (\<exists>cmp w. t \<in> set (term_texts cmp (version_text w)) \<and> compares cmp (version_order v w))"

definition within_range :: "version \<Rightarrow> string \<Rightarrow> bool" where
  "within_range v rng \<longleftrightarrow> list_all (term_holds v) (range_terms rng)"

lemma term_holds_read:
  "term_holds v t \<longleftrightarrow> (case read_term t of None \<Rightarrow> False
     | Some (cmp, b) \<Rightarrow> compareVersions (version_text v) b = Inr 0 \<and> compares cmp 0 \<or>
         compareVersions (version_text v) b = Inr 1 \<and> compares cmp 1 \<or>
         compareVersions (version_text v) b = Inr (- 1) \<and> compares cmp (- 1))"
proof (cases "read_term t")
  case None
  then have "t \<notin> set (term_texts cmp (version_text w))" for cmp w
    using read_term_iff [of t cmp "version_text w"] version_text_stable [of w] by simp
  with None show ?thesis by (simp add: term_holds_def)
next
  case (Some y)
  obtain cmp b where y: "y = (cmp, b)" by (cases y)
  with Some obtain w where w: "b = version_text w" "t \<in> set (term_texts cmp (version_text w))"
    using read_term_iff stable_version_iff by metis
  have u: "cmp' = cmp \<and> w' = w" if "t \<in> set (term_texts cmp' (version_text w'))" for cmp' w'
    using read_term_iff [of t cmp' "version_text w'"] that Some y w(1) version_text_stable [of w'] version_text_inject
    by simp
  have "term_holds v t \<longleftrightarrow> compares cmp (version_order v w)"
    using u w(2) unfolding term_holds_def by blast
  then show ?thesis using Some y w(1)
    by (auto simp: compare_version_text version_order_def split: if_splits)
qed

text \<open>
  Versions are compared as triples of numbers: \<open>compareVersions\<close> answers exactly for the
  canonical texts of triples, and its answer is their lexicographic order, so equal versions have equal
  texts and the order is total.
\<close>

theorem compareVersions_iff:
  "compareVersions left right = Inr n \<longleftrightarrow>
     (\<exists>v w. left = version_text v \<and> right = version_text w \<and> n = version_order v w)"
  by (rule compareVersions_order)

lemma satisfies_all_iff:
  "satisfies_all (version_text v) ts = Inr (list_all (term_holds v) ts)"
proof (induction ts)
  case Nil
  then show ?case by simp
next
  case (Cons t ts)
  show ?case
  proof (cases "read_term t")
    case None
    then show ?thesis by (simp add: term_holds_read)
  next
    case (Some y)
    obtain cmp b where y: "y = (cmp, b)" by (cases y)
    obtain w where "b = version_text w" using Some y read_term_iff stable_version_iff by metis
    then show ?thesis using Some y Cons.IH
      by (auto simp: term_holds_read compare_version_text version_order_def)
  qed
qed

text \<open>
  A compatibility range admits exactly the versions for which every one of its terms holds; a
  term that is no comparator with a version (a caret, a wildcard, nothing at all) admits none.
\<close>

theorem satisfies_iff: "satisfies (version_text v) rng = Inr (within_range v rng)"
  by (simp add: satisfies_def within_range_def satisfies_all_iff)

lemma satisfies_version: "satisfies (version_text v) rng = Inr b \<longleftrightarrow> b = within_range v rng"
  by (auto simp: satisfies_def within_range_def satisfies_all_iff)

subsection \<open>Trusted releases\<close>

text \<open>Where an artifact of a component may come from.\<close>

definition official_artifact :: "update_component \<Rightarrow> official_release \<Rightarrow> artifact \<Rightarrow> bool" where
  "official_artifact component r a \<longleftrightarrow>
     hex_string 64 (af_sha256 a) \<and> 0 < af_size a \<and>
     (case af_kind a of
        Oci \<Rightarrow> af_url a = ''ghcr.io/'' @ OFFICIAL_REPOSITORIES component @ ''@sha256:'' @ af_sha256 a
      | Archive \<Rightarrow>
          af_url a = ''https://github.com/'' @ OFFICIAL_REPOSITORIES component @ ''/releases/download/'' @
            or_tag r @ ''/'' @ af_name a \<and>
          list_ex (\<lambda>asset. ra_name asset = af_name a \<and> ra_url asset = af_url a \<and> ra_size asset = af_size a)
            (or_assets r))"

lemma assertArtifact_official:
  "rbind (assertArtifact a component (or_tag r)) (\<lambda>_. assertAsset r a) = Inr u \<Longrightarrow> official_artifact component r a"
  by (cases "af_kind a")
    (auto simp: assertArtifact_def assertAsset_def official_artifact_def untrusted_def rbind_Inr_iff check_Inr_iff)

lemma validateManifest_Inr:
  assumes "validateManifest m component r commit = Inr m'"
  shows "m' = m" "isStableRelease r" "mf_component m = component" "mf_tag m = or_tag r"
    "mf_version m = tag_version (or_tag r)" "mf_releaseId m = or_id r" "mf_sourceCommit m = commit"
    "list_all (official_artifact component r) (mf_artifacts m)"
  using assms assertArtifact_official
  by (auto simp: validateManifest_def rbind_Inr_iff check_Inr_iff each_Inr_iff list_all_iff)

lemma selectArtifact_Inr:
  "selectArtifact m p kind = Inr a \<Longrightarrow> a \<in> set (mf_artifacts m) \<and> af_kind a = kind \<and>
     pf_os (af_platform a) = pf_os p \<and> pf_arch (af_platform a) = pf_arch p \<and> pf_libc (af_platform a) = pf_libc p"
proof -
  let ?P = "\<lambda>a. af_kind a = kind \<and> pf_os (af_platform a) = pf_os p \<and>
      pf_arch (af_platform a) = pf_arch p \<and> pf_libc (af_platform a) = pf_libc p"
  assume "selectArtifact m p kind = Inr a"
  then have "filter ?P (mf_artifacts m) = [a]"
    by (auto simp: selectArtifact_def split: list.splits)
  then have "a \<in> set (filter ?P (mf_artifacts m))" by simp
  then show ?thesis by simp
qed

end
