(* ===== verification/Update_Planner.thy ===== *)
theory Update_Planner
  imports Update_Manifest
begin

text \<open>
  Release catalog and update plans (\<open>src/updater/catalog.ts\<close>, \<open>planner.ts\<close> and the
  plan data of \<open>contracts.ts\<close>). What the network, the deployment adapter, the backup adapter
  and the hash function answer is a parameter; an answer may be an error. Times are milliseconds.
\<close>

subsection \<open>The catalog\<close>

text \<open>The official catalog as it is read: a page of releases, one release, a manifest, a commit.\<close>

record catalog_source =
  cs_page :: "update_component \<Rightarrow> nat \<Rightarrow> official_release list update_result"
  cs_release :: "update_component \<Rightarrow> int \<Rightarrow> official_release update_result"
  cs_manifest :: "string \<Rightarrow> manifest update_result"
  cs_commit :: "update_component \<Rightarrow> string \<Rightarrow> string update_result"

fun collect_releases ::
  "catalog_source \<Rightarrow> update_component \<Rightarrow> nat list \<Rightarrow> official_release list \<Rightarrow> official_release list update_result" where
  "collect_releases src c [] releases = Inr releases"
| "collect_releases src c (page # pages) releases =
     rbind (cs_page src c page) (\<lambda>batch.
       let releases' = releases @ filter isStableRelease batch
       in if length batch < 100 then Inr releases'
          else rbind (check (page < 10) ''CATALOG_LIMIT'' ''The release catalog requires a newer updater.'') (\<lambda>_.
                 collect_releases src c pages releases'))"

text \<open>\<open>Array.prototype.sort\<close> is stable; a comparator that cannot throw here counts as zero when it would.\<close>

fun insert_by :: "('a \<Rightarrow> 'a \<Rightarrow> int) \<Rightarrow> 'a \<Rightarrow> 'a list \<Rightarrow> 'a list" where
  "insert_by cmp x [] = [x]"
| "insert_by cmp x (y # ys) = (if cmp x y \<le> 0 then x # y # ys else y # insert_by cmp x ys)"

definition js_sort :: "('a \<Rightarrow> 'a \<Rightarrow> int) \<Rightarrow> 'a list \<Rightarrow> 'a list" where
  "js_sort cmp xs = foldr (insert_by cmp) xs []"

definition newer_first :: "official_release \<Rightarrow> official_release \<Rightarrow> int" where
  "newer_first a b =
     (case compareVersions (tag_version (or_tag b)) (tag_version (or_tag a)) of Inl _ \<Rightarrow> 0 | Inr n \<Rightarrow> n)"

definition read_release ::
  "catalog_source \<Rightarrow> update_component \<Rightarrow> official_release \<Rightarrow> manifest update_result" where
  "read_release src c r =
     rbind (check (isStableRelease r)
              ''NON_STABLE_RELEASE'' ''Only official stable releases may be installed.'') (\<lambda>_.
       let asset = find (\<lambda>a. ra_name a = ''update-manifest.json'') (or_assets r);
           expected = ''https://github.com/'' @ OFFICIAL_REPOSITORIES c @ ''/releases/download/'' @ or_tag r @
             ''/update-manifest.json''
       in rbind (check (map_option ra_url asset = Some expected)
                  ''MANIFEST_PENDING'' ''The latest official release is not yet ready for automatic updating.'') (\<lambda>_.
          rbind (cs_manifest src expected) (\<lambda>m.
          rbind (cs_commit src c (or_tag r)) (\<lambda>commit.
            validateManifest m c r commit))))"

definition latest :: "catalog_source \<Rightarrow> update_component \<Rightarrow> manifest update_result" where
  "latest src c =
     rbind (collect_releases src c [1, 2, 3, 4, 5, 6, 7, 8, 9, 10] []) (\<lambda>releases.
       case js_sort newer_first releases of
         [] \<Rightarrow> Inl (UpdateError ''RELEASE_UNAVAILABLE'' ''No official stable release is available.'' 409)
       | r # _ \<Rightarrow> read_release src c r)"

definition exact :: "catalog_source \<Rightarrow> update_component \<Rightarrow> int \<Rightarrow> manifest update_result" where
  "exact src c releaseId =
     rbind (check (safe_integer releaseId \<and> releaseId > 0)
              ''INVALID_MANIFEST'' ''The release identity is invalid.'') (\<lambda>_.
     rbind (cs_release src c releaseId) (\<lambda>r. read_release src c r))"

subsection \<open>Plans\<close>

datatype deployment_kind = ManagedCompose | ManagedLinux
datatype database_kind = Sqlite | Mysql

text \<open>The parts of the installation record the planner and the worker read.\<close>

record installation =
  in_id :: string
  in_deployment :: deployment_kind
  in_platform :: platform
  in_stateDir :: string
  in_maintenanceFile :: string
  in_dataDir :: string
  in_current :: "update_component \<Rightarrow> installed_component"
  in_database :: database_kind

record component_change =
  cc_component :: update_component
  cc_update :: bool
  cc_current :: string
  cc_target :: string
  cc_releaseUrl :: string

record update_plan =
  up_installationId :: string
  up_planId :: string
  up_createdAt :: int
  up_expiresAt :: int
  up_components :: "component_change list"
  up_changes :: bool
  up_downtime :: bool
  up_database :: database_kind
  up_method :: string
  up_blockers :: "blocker list"
  up_executable :: bool

record persisted_plan =
  pp_view :: update_plan
  pp_fingerprint :: string
  pp_targets :: "update_component \<Rightarrow> installed_component"
  pp_digests :: "update_component \<Rightarrow> string"

text \<open>What the adapters answer while one operation of the planner runs.\<close>

record planner_env =
  pe_deployment :: "blocker list update_result"
  pe_backup :: "blocker list update_result"
  pe_fingerprint :: "string update_result"
  pe_source :: catalog_source
  pe_digest :: "manifest \<Rightarrow> string"
  pe_now :: int
  pe_uuid :: string

definition blockers :: "planner_env \<Rightarrow> blocker list" where
  "blockers env =
     (case rbind (pe_deployment env) (\<lambda>a. rbind (pe_backup env) (\<lambda>b. Inr (a @ b))) of
        Inl e \<Rightarrow> [blocker_of e]
      | Inr bs \<Rightarrow> bs)"

definition wanted_kind :: "installation \<Rightarrow> artifact_kind" where
  "wanted_kind i = (case in_deployment i of ManagedCompose \<Rightarrow> Oci | ManagedLinux \<Rightarrow> Archive)"

text \<open>The body of the \<open>try\<close> for one component: its target, or the error that becomes a blocker.\<close>

definition choose_target ::
  "installation \<Rightarrow> planner_env \<Rightarrow> update_component \<Rightarrow> installed_component update_result" where
  "choose_target i env c =
     rbind (latest (pe_source env) c) (\<lambda>m.
     rbind (compareVersions (mf_version m) (ic_version (in_current i c))) (\<lambda>n.
       if n > 0
       then rbind (selectArtifact m (in_platform i) (wanted_kind i)) (\<lambda>a.
              Inr \<lparr>ic_version = mf_version m, ic_sourceCommit = mf_sourceCommit m, ic_artifact = a, ic_manifest = m\<rparr>)
       else Inr (in_current i c)))"

definition plan_target :: "installation \<Rightarrow> planner_env \<Rightarrow> update_component \<Rightarrow> installed_component" where
  "plan_target i env c = (case choose_target i env c of Inl _ \<Rightarrow> in_current i c | Inr t \<Rightarrow> t)"

definition target_blockers :: "installation \<Rightarrow> planner_env \<Rightarrow> update_component \<Rightarrow> blocker list" where
  "target_blockers i env c = (case choose_target i env c of Inl e \<Rightarrow> [blocker_of e] | Inr _ \<Rightarrow> [])"

definition incompatible :: blocker where
  "incompatible = \<lparr>bk_code = ''INCOMPATIBLE_RELEASES'',
     bk_message = ''The latest official frontend and backend releases are not mutually compatible.''\<rparr>"

text \<open>\<open>!satisfies(web, backend range) || !satisfies(backend, web range)\<close>\<close>

definition check_compatible :: "(update_component \<Rightarrow> installed_component) \<Rightarrow> bool update_result" where
  "check_compatible targets =
     rbind (satisfies (ic_version (targets WebApp)) (mf_peerVersionRange (ic_manifest (targets Backend)))) (\<lambda>a.
       if \<not> a then Inr False
       else satisfies (ic_version (targets Backend)) (mf_peerVersionRange (ic_manifest (targets WebApp))))"

definition plan_component ::
  "installation \<Rightarrow> (update_component \<Rightarrow> installed_component) \<Rightarrow> update_component \<Rightarrow> component_change" where
  "plan_component i targets c =
     \<lparr>cc_component = c, cc_update = (ic_version (targets c) \<noteq> ic_version (in_current i c)),
      cc_current = ic_version (in_current i c), cc_target = ic_version (targets c),
      cc_releaseUrl = ''https://github.com/'' @ mf_repository (ic_manifest (targets c)) @ ''/releases/tag/'' @
        mf_tag (ic_manifest (targets c))\<rparr>"

definition create_plan :: "installation \<Rightarrow> planner_env \<Rightarrow> persisted_plan update_result" where
  "create_plan i env =
     (let found = blockers env @ target_blockers i env Backend @ target_blockers i env WebApp;
          targets = plan_target i env
      in rbind (check_compatible targets) (\<lambda>ok.
           let bs = found @ (if ok then [] else [incompatible]);
               components = map (plan_component i targets) [Backend, WebApp];
               changes = list_ex cc_update components
           in rbind (pe_fingerprint env) (\<lambda>fingerprint.
                Inr \<lparr>pp_view = \<lparr>up_installationId = in_id i, up_planId = pe_uuid env, up_createdAt = pe_now env,
                       up_expiresAt = pe_now env + 15 * 60000, up_components = components, up_changes = changes,
                       up_downtime = changes, up_database = in_database i,
                       up_method = (case in_database i of
                           Sqlite \<Rightarrow> ''consistent-sqlite-and-business-files''
                         | Mysql \<Rightarrow> ''dedicated-schema-dump-and-business-files''),
                       up_blockers = bs, up_executable = (changes \<and> bs = [])\<rparr>,
                     pp_fingerprint = fingerprint, pp_targets = targets,
                     pp_digests = (\<lambda>c. pe_digest env (ic_manifest (targets c)))\<rparr>)))"

text \<open>One component of \<open>revalidate\<close>.\<close>

definition recheck_release :: "planner_env \<Rightarrow> persisted_plan \<Rightarrow> update_component \<Rightarrow> unit update_result" where
  "recheck_release env plan c =
     rbind (exact (pe_source env) c (mf_releaseId (ic_manifest (pp_targets plan c)))) (\<lambda>m.
       check (pe_digest env m = pp_digests plan c)
         ''RELEASE_CHANGED'' ''An official release changed. Preview the update again.'')"

definition revalidate :: "installation \<Rightarrow> planner_env \<Rightarrow> persisted_plan \<Rightarrow> bool \<Rightarrow> unit update_result" where
  "revalidate i env plan execution =
     rbind (check (up_installationId (pp_view plan) = in_id i \<and> up_executable (pp_view plan))
              ''PLAN_NOT_EXECUTABLE'' ''The update plan cannot be executed.'') (\<lambda>_.
     rbind (check (execution \<or> up_expiresAt (pp_view plan) > pe_now env)
              ''PLAN_EXPIRED'' ''The update plan expired. Preview the update again.'') (\<lambda>_.
     rbind (pe_fingerprint env) (\<lambda>fingerprint.
     rbind (check (pp_fingerprint plan = fingerprint)
              ''INSTALLATION_DRIFT'' ''The running installation changed. Preview the update again.'') (\<lambda>_.
     rbind (each (recheck_release env plan) [Backend, WebApp]) (\<lambda>_.
       case blockers env of
         [] \<Rightarrow> Inr ()
       | b # _ \<Rightarrow> Inl (UpdateError (bk_code b) (bk_message b) 409))))))"

subsection \<open>The newest release\<close>

lemma set_insert_by: "set (insert_by cmp x ys) = insert x (set ys)"
  by (induction ys) auto

lemma insert_by_not_Nil: "insert_by cmp x ys \<noteq> []"
  by (cases ys) auto

lemma set_js_sort: "set (js_sort cmp xs) = set xs"
  unfolding js_sort_def by (induction xs) (auto simp: set_insert_by)

lemma js_sort_hd:
  assumes "\<And>x y. x \<in> A \<Longrightarrow> y \<in> A \<Longrightarrow> cmp x y \<le> 0 \<or> cmp y x \<le> 0"
    and "\<And>x y z. x \<in> A \<Longrightarrow> y \<in> A \<Longrightarrow> z \<in> A \<Longrightarrow> cmp x y \<le> 0 \<Longrightarrow> cmp y z \<le> 0 \<Longrightarrow> cmp x z \<le> 0"
    and "set xs \<subseteq> A" "js_sort cmp xs = r # rs" "x \<in> set xs"
  shows "cmp r x \<le> 0"
proof -
  have "xs \<noteq> [] \<longrightarrow> (\<forall>y\<in>set xs. cmp (hd (js_sort cmp xs)) y \<le> 0) \<and> js_sort cmp xs \<noteq> []"
    using assms(3)
  proof (induction xs)
    case (Cons a xs)
    let ?s = "js_sort cmp xs"
    have s: "js_sort cmp (a # xs) = insert_by cmp a ?s" by (simp add: js_sort_def)
    show ?case
    proof (cases xs)
      case Nil
      then show ?thesis using Cons.prems assms(1) [of a a] by (simp add: js_sort_def)
    next
      case (Cons b bs)
      with Cons.IH Cons.prems have IH: "\<forall>y\<in>set xs. cmp (hd ?s) y \<le> 0" "?s \<noteq> []" by auto
      then obtain h t where ht: "?s = h # t" by (cases ?s) auto
      have h: "h \<in> A" using ht set_js_sort [of cmp xs] Cons.prems by auto
      have ha: "cmp a a \<le> 0" using assms(1) [of a a] Cons.prems by simp
      show ?thesis
      proof (cases "cmp a h \<le> 0")
        case True
        then have "cmp a y \<le> 0" if "y \<in> set xs" for y
          using assms(2) [of a h y] that IH(1) ht h Cons.prems by auto
        then show ?thesis using True ha by (simp add: s ht)
      next
        case False
        then have "cmp h a \<le> 0" using assms(1) [of a h] h Cons.prems by auto
        then show ?thesis using False IH by (simp add: s ht insert_by_not_Nil)
      qed
    qed
  qed simp
  then show ?thesis using assms(4,5) by (cases xs) auto
qed

lemma version_order_le: "version_order w v \<le> 0 \<longleftrightarrow> w \<le> v"
proof (cases "w = v")
  case False
  then have "w < v \<longleftrightarrow> w \<le> v" using order_less_le [of w v] by blast
  with False show ?thesis unfolding version_order_def by simp
qed (simp add: version_order_def)

lemma newer_first_versions:
  "tag_version (or_tag a) = version_text v \<Longrightarrow> tag_version (or_tag b) = version_text w \<Longrightarrow>
   newer_first a b \<le> 0 \<longleftrightarrow> w \<le> v"
  by (simp add: newer_first_def compare_version_text version_order_le)

lemma newest_is_first:
  assumes "list_all isStableRelease releases" "js_sort newer_first releases = r # rs" "x \<in> set releases"
  shows "\<exists>v w. tag_version (or_tag x) = version_text v \<and> tag_version (or_tag r) = version_text w \<and> v \<le> w"
proof -
  let ?A = "{x. isStableRelease x}"
  have v: "\<exists>v. tag_version (or_tag x) = version_text v" if "x \<in> ?A" for x
    using that stable_version_iff by (auto simp: isStableRelease_def)
  have "newer_first r x \<le> 0"
  proof (rule js_sort_hd [where A = ?A])
    fix x y
    assume x: "x \<in> ?A" and y: "y \<in> ?A"
    obtain a b where ab: "tag_version (or_tag x) = version_text a" "tag_version (or_tag y) = version_text b"
      using v [OF x] v [OF y] by blast
    show "newer_first x y \<le> 0 \<or> newer_first y x \<le> 0"
      unfolding newer_first_versions [OF ab] newer_first_versions [OF ab(2,1)] by (rule linear)
    fix z
    assume z: "z \<in> ?A" and le: "newer_first x y \<le> 0" "newer_first y z \<le> 0"
    obtain c where c: "tag_version (or_tag z) = version_text c" using v [OF z] by blast
    have "b \<le> a" "c \<le> b" using le unfolding newer_first_versions [OF ab] newer_first_versions [OF ab(2) c] .
    then have "c \<le> a" by (rule order_trans [rotated])
    then show "newer_first x z \<le> 0" unfolding newer_first_versions [OF ab(1) c] .
  qed (use assms in \<open>auto simp: list_all_iff\<close>)
  moreover have "r \<in> set releases" using set_js_sort [of newer_first releases] assms(2) by auto
  then have "r \<in> ?A" "x \<in> ?A" using assms(1,3) by (auto simp: list_all_iff)
  then obtain a b where ab: "tag_version (or_tag r) = version_text a" "tag_version (or_tag x) = version_text b"
    using v by blast
  ultimately have "b \<le> a" using newer_first_versions [OF ab] by simp
  with ab show ?thesis by blast
qed

lemma collected_stable:
  "collect_releases src c pages acc = Inr releases \<Longrightarrow> list_all isStableRelease acc \<Longrightarrow>
   list_all isStableRelease releases"
proof (induction pages arbitrary: acc)
  case (Cons p ps)
  from Cons.prems(1) obtain batch where
    b: "(if length batch < 100 then Inr (acc @ filter isStableRelease batch)
         else rbind (check (p < 10) ''CATALOG_LIMIT'' ''The release catalog requires a newer updater.'') (\<lambda>_.
                collect_releases src c ps (acc @ filter isStableRelease batch))) = Inr releases"
    unfolding collect_releases.simps rbind_Inr_iff Let_def by blast
  have s: "list_all isStableRelease (acc @ filter isStableRelease batch)"
    using Cons.prems(2) by (auto simp: list_all_iff)
  show ?case
  proof (cases "length batch < 100")
    case True
    with b s show ?thesis by (metis sum.inject(2))
  next
    case False
    with b have "collect_releases src c ps (acc @ filter isStableRelease batch) = Inr releases"
      unfolding if_not_P [OF False] rbind_Inr_iff by blast
    then show ?thesis using Cons.IH s by blast
  qed
qed simp

text \<open>A trusted manifest of a component, and the version it stands for.\<close>

definition trusted_manifest :: "update_component \<Rightarrow> manifest \<Rightarrow> bool" where
  "trusted_manifest c m \<longleftrightarrow>
     (\<exists>r. isStableRelease r \<and> mf_component m = c \<and> mf_tag m = or_tag r \<and>
          mf_version m = tag_version (or_tag r) \<and> list_all (official_artifact c r) (mf_artifacts m))"

definition not_newer :: "string \<Rightarrow> string \<Rightarrow> bool" where
  "not_newer a b \<longleftrightarrow> (\<exists>v w. a = version_text v \<and> b = version_text w \<and> v \<le> w)"

lemma read_release_trusted:
  "read_release src c r = Inr m \<Longrightarrow> trusted_manifest c m \<and> mf_version m = tag_version (or_tag r)"
  by (auto simp: read_release_def trusted_manifest_def rbind_Inr_iff check_Inr_iff Let_def
      dest: validateManifest_Inr intro!: exI [of _ r])

lemma latest_Inr:
  assumes "latest src c = Inr m"
  obtains releases where "collect_releases src c [1, 2, 3, 4, 5, 6, 7, 8, 9, 10] [] = Inr releases"
    "trusted_manifest c m" "list_all (\<lambda>r. not_newer (tag_version (or_tag r)) (mf_version m)) releases"
    "list_ex (\<lambda>r. tag_version (or_tag r) = mf_version m) releases"
proof -
  from assms obtain releases where rs: "collect_releases src c [1, 2, 3, 4, 5, 6, 7, 8, 9, 10] [] = Inr releases"
    and "(case js_sort newer_first releases of
         [] \<Rightarrow> Inl (UpdateError ''RELEASE_UNAVAILABLE'' ''No official stable release is available.'' 409)
       | r # _ \<Rightarrow> read_release src c r) = Inr m"
    unfolding latest_def rbind_Inr_iff by blast
  then obtain r ys where r: "js_sort newer_first releases = r # ys" "read_release src c r = Inr m"
    by (auto split: list.splits)
  have "list_all isStableRelease releases" using collected_stable [OF rs] by simp
  then have "list_all (\<lambda>x. not_newer (tag_version (or_tag x)) (mf_version m)) releases"
    using newest_is_first [OF _ r(1)] read_release_trusted [OF r(2)]
    by (fastforce simp: list_all_iff not_newer_def)
  moreover have "r \<in> set releases" using set_js_sort [of newer_first releases] r(1) by auto
  then have "list_ex (\<lambda>r. tag_version (or_tag r) = mf_version m) releases"
    using read_release_trusted [OF r(2)] by (auto simp: list_ex_iff)
  ultimately show thesis using that rs read_release_trusted [OF r(2)] by blast
qed

definition newest_official :: "update_component \<Rightarrow> official_release list \<Rightarrow> manifest \<Rightarrow> bool" where
  "newest_official c releases m \<longleftrightarrow>
     trusted_manifest c m \<and> list_ex (\<lambda>r. tag_version (or_tag r) = mf_version m) releases \<and>
     list_all (\<lambda>r. not_newer (tag_version (or_tag r)) (mf_version m)) releases"

text \<open>
  The catalog offers the newest stable release it has read, never an older one that happens to be
  ready: its manifest is the one of an official release, with digest-pinned images or archives of that
  release only, and no stable release on the pages read has a greater version.
\<close>

theorem latest_is_newest:
  "case latest src c of
     Inl _ \<Rightarrow> True
   | Inr m \<Rightarrow> (\<exists>releases. collect_releases src c [1, 2, 3, 4, 5, 6, 7, 8, 9, 10] [] = Inr releases \<and>
               newest_official c releases m)"
proof (cases "latest src c")
  case (Inr m)
  from latest_Inr [OF Inr] show ?thesis using Inr by (auto simp: newest_official_def)
qed simp

subsection \<open>Executable plans\<close>

text \<open>A target: what is installed, or an official newer release for this installation.\<close>

definition safe_target :: "installation \<Rightarrow> update_component \<Rightarrow> installed_component \<Rightarrow> bool" where
  "safe_target i c t \<longleftrightarrow>
     t = in_current i c \<or>
     compareVersions (ic_version t) (ic_version (in_current i c)) = Inr 1 \<and>
     trusted_manifest c (ic_manifest t) \<and> ic_version t = mf_version (ic_manifest t) \<and>
     ic_artifact t \<in> set (mf_artifacts (ic_manifest t)) \<and> af_kind (ic_artifact t) = wanted_kind i \<and>
     pf_arch (af_platform (ic_artifact t)) = pf_arch (in_platform i) \<and>
     pf_libc (af_platform (ic_artifact t)) = pf_libc (in_platform i)"

lemma plan_target_safe: "safe_target i c (plan_target i env c)"
proof (cases "choose_target i env c")
  case (Inl e)
  then show ?thesis by (simp add: plan_target_def safe_target_def)
next
  case (Inr t)
  then obtain m n where m: "latest (pe_source env) c = Inr m"
    and n: "compareVersions (mf_version m) (ic_version (in_current i c)) = Inr n"
    and t: "(if n > 0 then rbind (selectArtifact m (in_platform i) (wanted_kind i)) (\<lambda>a.
              Inr \<lparr>ic_version = mf_version m, ic_sourceCommit = mf_sourceCommit m, ic_artifact = a, ic_manifest = m\<rparr>)
       else Inr (in_current i c)) = Inr t"
    by (auto simp: choose_target_def rbind_Inr_iff)
  have trust: "trusted_manifest c m" using latest_Inr [OF m] by blast
  show ?thesis
  proof (cases "n > 0")
    case True
    then have "n = 1" using n by (auto simp: compareVersions_order version_order_def split: if_splits)
    moreover obtain a where a: "selectArtifact m (in_platform i) (wanted_kind i) = Inr a"
      "t = \<lparr>ic_version = mf_version m, ic_sourceCommit = mf_sourceCommit m, ic_artifact = a, ic_manifest = m\<rparr>"
      using t True by (auto simp: rbind_Inr_iff)
    ultimately show ?thesis using Inr n trust selectArtifact_Inr [OF a(1)]
      by (simp add: plan_target_def safe_target_def a(2))
  next
    case False
    then show ?thesis using Inr t by (simp add: plan_target_def safe_target_def)
  qed
qed

definition safe_plan :: "installation \<Rightarrow> planner_env \<Rightarrow> persisted_plan \<Rightarrow> bool" where
  "safe_plan i env plan \<longleftrightarrow>
     list_all (\<lambda>c. safe_target i c (pp_targets plan c)) [Backend, WebApp] \<and>
     list_ex (\<lambda>c. ic_version (pp_targets plan c) \<noteq> ic_version (in_current i c)) [Backend, WebApp] \<and>
     check_compatible (pp_targets plan) = Inr True \<and> up_blockers (pp_view plan) = [] \<and>
     pe_deployment env = Inr [] \<and> pe_backup env = Inr [] \<and> pe_fingerprint env = Inr (pp_fingerprint plan)"

text \<open>Why a plan cannot be executed: a blocker, or nothing to change.\<close>

definition explained :: "persisted_plan \<Rightarrow> bool" where
  "explained plan \<longleftrightarrow> up_blockers (pp_view plan) \<noteq> [] \<or> \<not> up_changes (pp_view plan)"

text \<open>
  C31. A plan that may be executed changes something, never downgrades, takes every new component from
  an official release, built for this platform, keeps the two components mutually compatible, and
  was made while neither the deployment nor the backup had an objection. A plan that is not
  executable says why or has nothing to change.
\<close>

theorem executable_plan_safe:
  "case create_plan i env of
     Inl _ \<Rightarrow> True
   | Inr plan \<Rightarrow>
       if up_executable (pp_view plan) then safe_plan i env plan
       else explained plan"
proof (cases "create_plan i env")
  case (Inr plan)
  then obtain ok f where ok: "check_compatible (plan_target i env) = Inr ok"
    and f: "pe_fingerprint env = Inr f"
    and p: "pp_targets plan = plan_target i env" "pp_fingerprint plan = f"
      "up_blockers (pp_view plan) = (blockers env @ target_blockers i env Backend @ target_blockers i env WebApp) @
         (if ok then [] else [incompatible])"
      "up_changes (pp_view plan) = list_ex cc_update (map (plan_component i (plan_target i env)) [Backend, WebApp])"
      "up_executable (pp_view plan) = (up_changes (pp_view plan) \<and> up_blockers (pp_view plan) = [])"
    unfolding create_plan_def Let_def by (auto simp: rbind_Inr_iff)
  have "blockers env = [] \<longleftrightarrow> pe_deployment env = Inr [] \<and> pe_backup env = Inr []"
    by (auto simp: blockers_def split: sum.splits simp: rbind_Inr_iff rbind_Inl_iff)
  then show ?thesis
    using Inr ok f p plan_target_safe
    by (auto simp: safe_plan_def explained_def plan_component_def split: if_splits)
qed simp

end
