(* ===== verification/Update_Store.thy ===== *)
theory Update_Store
  imports Async Update_Planner "HOL-Library.AList"
begin

text \<open>
  The durable state of the updater (\<open>src/updater/store.ts\<close>, \<open>maintenance.ts\<close> and the job
  data of \<open>contracts.ts\<close>): plans, the journal with one record per job, and the maintenance fence
  the business services obey. An atomic write may fail before the file is replaced or after it, so a
  failed write leaves either the old or the new contents.
\<close>

subsection \<open>Jobs\<close>

datatype job_status =
  StatusQueued | StatusRunning | StatusSucceeded | StatusFailed | StatusRolledBack | StatusRecovery

datatype job_phase =
  Preparing | InMaintenance | BackingUp | Switching | Verifying | UpdatingHelper | Committing | Restoring

record job_view =
  jv_installationId :: string
  jv_jobId :: string
  jv_planId :: string
  jv_status :: job_status
  jv_phase :: job_phase
  jv_components :: "component_change list"
  jv_createdAt :: int
  jv_updatedAt :: int
  jv_finishedAt :: "int option"
  jv_resultCode :: "string option"
  jv_safeMessage :: string
  jv_recoveryGuidance :: "string option"

record backup_snapshot =
  bs_jobId :: string
  bs_path :: string

datatype job_decision = CommitDecided | RestoreDecided

datatype op_mark = Intent | Performed

record job_record =
  jr_view :: job_view
  jr_idempotencyKey :: string
  jr_requestDigest :: string
  jr_actorId :: string
  jr_plan :: persisted_plan
  jr_installation :: installation
  jr_snapshot :: "backup_snapshot option"
  jr_decision :: "job_decision option"
  jr_operations :: "(string \<times> op_mark) list"

definition terminal :: "job_record \<Rightarrow> bool" where
  "terminal r \<longleftrightarrow> jv_status (jr_view r) \<in> {StatusSucceeded, StatusFailed, StatusRolledBack}"

text \<open>\<open>/^[a-f0-9]{8}-[a-f0-9]{4}-4[a-f0-9]{3}-[89ab][a-f0-9]{3}-[a-f0-9]{12}$/i\<close>\<close>

definition hex_any_case :: "char \<Rightarrow> bool" where
  "hex_any_case c = lower_hex (ascii_lower c)"

definition uuid_char :: "nat \<Rightarrow> char \<Rightarrow> bool" where
  "uuid_char i c =
     (if i \<in> {8, 13, 18, 23} then c = CHR ''-''
      else if i = 14 then c = CHR ''4''
      else if i = 19 then ascii_lower c \<in> {CHR ''8'', CHR ''9'', CHR ''a'', CHR ''b''}
      else hex_any_case c)"

definition UUID :: "string \<Rightarrow> bool" where
  "UUID s \<longleftrightarrow> length s = 36 \<and> list_all (\<lambda>(i, c). uuid_char i c) (enumerate 0 s)"

subsection \<open>The maintenance fence\<close>

record fence =
  fn_jobId :: string
  fn_active :: bool
  fn_allowStart :: bool

text \<open>What reading the fence yields: nothing there, the fence, or an unreadable file.\<close>

datatype fence_file = NoFence | Fence fence | UnreadableFence

definition readMaintenance :: "fence_file \<Rightarrow> fence option update_result" where
  "readMaintenance f =
     (case f of
        NoFence \<Rightarrow> Inr None
      | Fence x \<Rightarrow> Inr (Some x)
      | UnreadableFence \<Rightarrow>
          Inl (UpdateError ''MAINTENANCE_STATE_INVALID'' ''The persistent maintenance fence is unreadable.'' 409))"

definition businessWritesAllowed :: "fence_file \<Rightarrow> bool" where
  "businessWritesAllowed f =
     (case readMaintenance f of Inl _ \<Rightarrow> False | Inr None \<Rightarrow> True | Inr (Some x) \<Rightarrow> \<not> fn_active x)"

text \<open>
  \<open>waitForApplicationStart\<close> reads the fence once a second until it may start: \<open>obs n\<close> is what the
  \<open>n\<close>-th read finds. It may wait for ever.
\<close>

definition may_start :: "fence option \<Rightarrow> bool" where
  "may_start f = (case f of None \<Rightarrow> True | Some x \<Rightarrow> \<not> fn_active x \<or> fn_allowStart x)"

partial_function (option) wait_from :: "(nat \<Rightarrow> fence_file) \<Rightarrow> nat \<Rightarrow> nat update_result option" where
  "wait_from obs n =
     (case readMaintenance (obs n) of
        Inl e \<Rightarrow> Some (Inl e)
      | Inr f \<Rightarrow> if may_start f then Some (Inr n) else wait_from obs (n + 1))"

definition waitForApplicationStart :: "(nat \<Rightarrow> fence_file) \<Rightarrow> nat update_result option" where
  "waitForApplicationStart obs = wait_from obs 0"

subsection \<open>Directories\<close>

text \<open>
  \<open>atomicWrite\<close> writes a temporary file, renames it to its name and synchronises the directory. Its
  result is visible from the rename on, but survives a loss of power only from the next
  synchronisation of the directory, which may also happen in the background. A write may fail before
  or after the rename. Two processes write: the executor (a worker or the host recovery command,
  under the execution lock) and the control process.
\<close>

datatype writer = Executor | Control

record ('k, 'v) dir =
  dr_seen :: "('k \<times> 'v) list"
  dr_kept :: "('k \<times> 'v) list"
  dr_writing :: "writer \<Rightarrow> ('k \<times> 'v) option"

definition seen :: "('k, 'v) dir \<Rightarrow> 'k \<Rightarrow> 'v option" where
  "seen d k = map_of (dr_seen d) k"

definition kept :: "('k, 'v) dir \<Rightarrow> 'k \<Rightarrow> 'v option" where
  "kept d k = map_of (dr_kept d) k"

definition begin_write :: "writer \<Rightarrow> 'k \<Rightarrow> 'v \<Rightarrow> ('k, 'v) dir \<Rightarrow> ('k, 'v) dir" where
  "begin_write e k x d = d\<lparr>dr_writing := (dr_writing d)(e := Some (k, x))\<rparr>"

definition rename_file :: "writer \<Rightarrow> ('k, 'v) dir \<Rightarrow> ('k, 'v) dir" where
  "rename_file e d =
     (case dr_writing d e of None \<Rightarrow> d | Some (k, x) \<Rightarrow> d\<lparr>dr_seen := AList.update k x (dr_seen d)\<rparr>)"

definition syncDirectory :: "('k, 'v) dir \<Rightarrow> ('k, 'v) dir" where
  "syncDirectory d = d\<lparr>dr_kept := dr_seen d\<rparr>"

definition end_write :: "writer \<Rightarrow> ('k, 'v) dir \<Rightarrow> ('k, 'v) dir" where
  "end_write e d = d\<lparr>dr_writing := (dr_writing d)(e := None)\<rparr>"

definition complete_write :: "writer \<Rightarrow> ('k, 'v) dir \<Rightarrow> ('k, 'v) dir" where
  "complete_write e d = end_write e (syncDirectory (rename_file e d))"

definition lose_power :: "('k, 'v) dir \<Rightarrow> ('k, 'v) dir" where
  "lose_power d = \<lparr>dr_seen = dr_kept d, dr_kept = dr_kept d, dr_writing = (\<lambda>_. None)\<rparr>"

text \<open>What a file may be found to hold, now or after a restart.\<close>

definition may_hold :: "('k, 'v) dir \<Rightarrow> 'k \<Rightarrow> 'v \<Rightarrow> bool" where
  "may_hold d k x \<longleftrightarrow> seen d k = Some x \<or> kept d k = Some x \<or> (\<exists>e. dr_writing d e = Some (k, x))"

subsection \<open>The store\<close>

text \<open>Actions of the worker on the outside.\<close>

datatype update_action =
    Prepare | StopApplications | TakeBackup | ValidateBackup | SwitchApplications | StartApplications
  | VerifyInstalled | VerifyRestored | UpdateHelper | CommitInstallation | RestoreDeployment | RestoreData

text \<open>
  The history of the host, which the code does not keep: which job began an action or a write of the
  fence, and which of them ended well (\<open>Done\<close>, \<open>Fenced\<close>), the newest first. It is what the safety of the
  updater is stated about.
\<close>

datatype update_event = Began update_action | Done update_action | Fencing bool | Fenced bool

record update_world =
  uw_plans :: "(string \<times> persisted_plan) list"
  uw_jobs :: "(string, job_record) dir"
  uw_fence :: "(unit, fence) dir"
  uw_now :: int
  uw_events :: "(string \<times> update_event) list"

definition current_fence :: "update_world \<Rightarrow> fence_file" where
  "current_fence w = (case seen (uw_fence w) () of None \<Rightarrow> NoFence | Some f \<Rightarrow> Fence f)"

definition invalid_id :: update_error where
  "invalid_id = UpdateError ''INVALID_ID'' ''The update resource identifier is invalid.'' 409"

definition not_found :: update_error where
  "not_found = UpdateError ''RESOURCE_NOT_FOUND'' ''The update resource was not found.'' 404"

definition read_resource :: "(string \<Rightarrow> 'v option) \<Rightarrow> string \<Rightarrow> 'v update_result" where
  "read_resource d x =
     (if \<not> UUID x then Inl invalid_id
      else case d x of None \<Rightarrow> Inl not_found | Some v \<Rightarrow> Inr v)"

definition read_job :: "update_world \<Rightarrow> string \<Rightarrow> job_record update_result" where
  "read_job w j = read_resource (seen (uw_jobs w)) j"

definition read_plan :: "update_world \<Rightarrow> string \<Rightarrow> persisted_plan update_result" where
  "read_plan w p = read_resource (map_of (uw_plans w)) p"

text \<open>\<open>jobs()\<close>: the files whose name is a well-formed identifier, read, the youngest first.\<close>

definition job_files :: "update_world \<Rightarrow> string list" where
  "job_files w = filter UUID (remdups (map fst (dr_seen (uw_jobs w))))"

definition all_jobs :: "update_world \<Rightarrow> job_record list" where
  "all_jobs w =
     js_sort (\<lambda>a b. sgn (jv_createdAt (jr_view b) - jv_createdAt (jr_view a)))
       (map (\<lambda>j. the (seen (uw_jobs w) j)) (job_files w))"

definition current_job :: "update_world \<Rightarrow> job_record option update_result" where
  "current_job w =
     (let jobs = all_jobs w;
          active = filter (\<lambda>r. \<not> terminal r) jobs
      in rbind (check (length active \<le> 1)
                 ''OWNERSHIP_UNCERTAIN'' ''Multiple unfinished jobs require host recovery.'') (\<lambda>_.
           Inr (case active of
                  r # _ \<Rightarrow> Some r
                | [] \<Rightarrow> (case jobs of r # _ \<Rightarrow> Some r | [] \<Rightarrow> None))))"

subsection \<open>Facts about directories\<close>

lemma seen_simps [simp]:
  "seen (begin_write e k x d) = seen d"
  "seen (syncDirectory d) = seen d"
  "seen (end_write e d) = seen d"
  "seen (complete_write e d) = seen (rename_file e d)"
  "seen (lose_power d) = kept d"
  by (auto simp: seen_def kept_def begin_write_def syncDirectory_def end_write_def complete_write_def lose_power_def)

lemma kept_simps [simp]:
  "kept (begin_write e k x d) = kept d"
  "kept (rename_file e d) = kept d"
  "kept (syncDirectory d) = seen d"
  "kept (end_write e d) = kept d"
  "kept (complete_write e d) = seen (rename_file e d)"
  "kept (lose_power d) = kept d"
  by (auto simp: seen_def kept_def begin_write_def rename_file_def syncDirectory_def end_write_def
      complete_write_def lose_power_def split: option.splits)

lemma writing_simps [simp]:
  "dr_writing (begin_write e k x d) = (dr_writing d)(e := Some (k, x))"
  "dr_writing (rename_file e d) = dr_writing d"
  "dr_writing (syncDirectory d) = dr_writing d"
  "dr_writing (end_write e d) = (dr_writing d)(e := None)"
  "dr_writing (complete_write e d) = (dr_writing d)(e := None)"
  "dr_writing (lose_power d) = (\<lambda>_. None)"
  by (auto simp: begin_write_def rename_file_def syncDirectory_def end_write_def complete_write_def
      lose_power_def split: option.splits)

lemma seen_rename:
  "seen (rename_file e d) =
     (case dr_writing d e of None \<Rightarrow> seen d | Some (k, x) \<Rightarrow> (seen d)(k \<mapsto> x))"
  by (auto simp: seen_def rename_file_def update_conv' split: option.splits)

text \<open>Nothing but the beginning of a write lets a file hold something new.\<close>

lemma may_hold_later:
  "may_hold (rename_file e d) k x \<Longrightarrow> may_hold d k x"
  "may_hold (syncDirectory d) k x \<Longrightarrow> may_hold d k x"
  "may_hold (end_write e d) k x \<Longrightarrow> may_hold d k x"
  "may_hold (complete_write e d) k x \<Longrightarrow> may_hold d k x"
  "may_hold (lose_power d) k x \<Longrightarrow> may_hold d k x"
  by (auto simp: may_hold_def seen_rename split: option.splits if_splits prod.splits)

lemma may_hold_begin:
  "may_hold (begin_write e k x d) l y \<Longrightarrow> may_hold d l y \<or> l = k \<and> y = x"
  by (auto simp: may_hold_def split: if_splits)

lemma set_job_files: "set (job_files w) = {j. UUID j \<and> seen (uw_jobs w) j \<noteq> None}"
  by (auto simp: job_files_def seen_def map_of_eq_None_iff)

lemma set_all_jobs: "set (all_jobs w) = {r. \<exists>j. UUID j \<and> seen (uw_jobs w) j = Some r}"
  unfolding all_jobs_def set_js_sort set_map set_job_files by force

subsection \<open>Waiting for the fence\<close>

definition no_longer_waits :: "fence_file \<Rightarrow> bool" where
  "no_longer_waits f = (case readMaintenance f of Inl _ \<Rightarrow> True | Inr x \<Rightarrow> may_start x)"

lemma wait_from_now: "no_longer_waits (obs n) \<Longrightarrow>
    wait_from obs n = Some (case readMaintenance (obs n) of Inl e \<Rightarrow> Inl e | Inr _ \<Rightarrow> Inr n)"
  by (subst wait_from.simps) (auto simp: no_longer_waits_def split: sum.splits)

lemma wait_from_later: "\<not> no_longer_waits (obs n) \<Longrightarrow> wait_from obs n = wait_from obs (Suc n)"
  by (subst wait_from.simps) (auto simp: no_longer_waits_def split: sum.splits)

lemma wait_from_first:
  "no_longer_waits (obs (n + d)) \<Longrightarrow> (\<And>i. i < d \<Longrightarrow> \<not> no_longer_waits (obs (n + i))) \<Longrightarrow>
   wait_from obs n = Some (case readMaintenance (obs (n + d)) of Inl e \<Rightarrow> Inl e | Inr _ \<Rightarrow> Inr (n + d))"
proof (induction d arbitrary: n)
  case 0
  then show ?case using wait_from_now [of obs n] by (simp cong: sum.case_cong)
next
  case (Suc d)
  have "\<not> no_longer_waits (obs n)" using Suc.prems(2) [of 0] by simp
  moreover have "wait_from obs (Suc n) =
      Some (case readMaintenance (obs (Suc n + d)) of Inl e \<Rightarrow> Inl e | Inr _ \<Rightarrow> Inr (Suc n + d))"
  proof (rule Suc.IH)
    show "\<not> no_longer_waits (obs (Suc n + i))" if "i < d" for i
      using Suc.prems(2) [of "Suc i"] that by simp
  qed (use Suc.prems(1) in simp)
  ultimately show ?case by (simp add: wait_from_later cong: sum.case_cong)
qed

lemma wait_from_ends:
  assumes "wait_from obs n = Some r"
  shows "\<exists>m. no_longer_waits (obs m)"
proof (rule wait_from.raw_induct [OF _ assms])
  fix wait :: "(nat \<Rightarrow> fence_file) \<Rightarrow> nat \<Rightarrow> nat update_result option" and obs n r
  assume IH: "\<And>obs n r. wait obs n = Some r \<Longrightarrow> \<exists>m. no_longer_waits (obs m)"
    and step: "(case readMaintenance (obs n) of Inl e \<Rightarrow> Some (Inl e)
      | Inr f \<Rightarrow> if may_start f then Some (Inr n) else wait obs (n + 1)) = Some r"
  show "\<exists>m. no_longer_waits (obs m)"
  proof (cases "no_longer_waits (obs n)")
    case False
    then obtain f where "readMaintenance (obs n) = Inr f" "\<not> may_start f"
      by (auto simp: no_longer_waits_def split: sum.splits)
    with step have "wait obs (n + 1) = Some r" by simp
    then show ?thesis by (rule IH)
  qed blast
qed

text \<open>The first read at which the wait is over, if there is one.\<close>

definition first_release :: "(nat \<Rightarrow> fence_file) \<Rightarrow> nat option" where
  "first_release obs =
     (if \<exists>n. no_longer_waits (obs n) then Some (LEAST n. no_longer_waits (obs n)) else None)"

text \<open>
  An application start behind the fence returns if and only if the fence is some time found lifted,
  or set to allow a start, or unreadable, and then at the first read that finds it so; otherwise it
  waits for ever, without touching the data.
\<close>

theorem waitForApplicationStart_iff:
  "waitForApplicationStart obs =
     (case first_release obs of
        None \<Rightarrow> None
      | Some n \<Rightarrow> Some (case readMaintenance (obs n) of Inl e \<Rightarrow> Inl e | Inr _ \<Rightarrow> Inr n))"
proof (cases "\<exists>n. no_longer_waits (obs n)")
  case True
  define n where "n = (LEAST n. no_longer_waits (obs n))"
  have "no_longer_waits (obs n)" unfolding n_def using True by (rule LeastI_ex)
  moreover have "\<not> no_longer_waits (obs i)" if "i < n" for i
    using that unfolding n_def by (rule not_less_Least)
  ultimately have "wait_from obs 0 = Some (case readMaintenance (obs n) of Inl e \<Rightarrow> Inl e | Inr _ \<Rightarrow> Inr n)"
    using wait_from_first [of obs 0 n, unfolded add_0] by simp
  moreover have "first_release obs = Some n" using True by (simp add: first_release_def n_def)
  ultimately show ?thesis by (simp add: waitForApplicationStart_def)
next
  case False
  then have "wait_from obs 0 = None" using wait_from_ends [of obs 0] by (cases "wait_from obs 0") blast+
  with False show ?thesis by (simp add: waitForApplicationStart_def first_release_def)
qed

end
