(* ===== verification/Update_Worker.thy ===== *)
theory Update_Worker
  imports Update_Store
begin

text \<open>
  The update worker (\<open>src/updater/worker.ts\<close>) and the host recovery command
  (\<open>src/updater/entrypoint.ts\<close>) as processes over the durable state. The \<open>record\<close> the code
  mutates is the argument of the continuations, so a handler sees the record as it was when the
  error was thrown. The test hook \<open>observe\<close> does nothing in production and is left out.
\<close>

subsection \<open>Queries\<close>

record backup_context =
  bc_jobId :: string
  bc_database :: database_kind
  bc_dataDir :: string
  bc_backupDir :: string
  bc_servicesStopped :: bool

definition backupContext :: "installation \<Rightarrow> string \<Rightarrow> bool \<Rightarrow> backup_context" where
  "backupContext i j servicesStopped =
     \<lparr>bc_jobId = j, bc_database = in_database i, bc_dataDir = in_dataDir i,
      bc_backupDir = in_stateDir i @ ''/backups/'' @ j, bc_servicesStopped = servicesStopped\<rparr>"

text \<open>
  What the processes of the updater wait for: a file being written, the installation record, the
  answers of adapters and catalog a plan is checked against, an action of the deployment or backup adapter, a new identifier,
  the supervisor.
\<close>

datatype update_query =
    SaveJob | SavePlan | WriteFence
  | LoadInstallation | AskPlanner
  | Deploy update_action job_record
  | BackUp update_action backup_context "backup_snapshot option"
  | NewId
  | WorkerAlive string
  | StartWorker string

datatype update_answer =
    Worked
  | Broke update_error
  | Took backup_snapshot
  | Installed installation
  | Observed planner_env
  | Named string
  | Alive bool

type_synonym 'r update_proc = "(update_world, update_query, update_answer, 'r) proc"
type_synonym worker_proc = "unit update_result update_proc"
type_synonym worker_cont = "job_record \<Rightarrow> worker_proc"
type_synonym worker_fail = "update_error \<Rightarrow> job_record \<Rightarrow> worker_proc"

subsection \<open>Steps of the worker\<close>

definition log_event :: "job_record \<Rightarrow> update_event \<Rightarrow> update_world \<Rightarrow> update_world" where
  "log_event r e w = w\<lparr>uw_events := (jv_jobId (jr_view r), e) # uw_events w\<rparr>"

definition stamped :: "int \<Rightarrow> job_record \<Rightarrow> job_record" where
  "stamped t r = r\<lparr>jr_view := (jr_view r)\<lparr>jv_updatedAt := t\<rparr>\<rparr>"

text \<open>
  \<open>saveJob\<close>: every failure of the journal is a \<open>JournalError\<close>, which no handler of the worker
  keeps: it ends the process at once.
\<close>

definition saveJob :: "writer \<Rightarrow> job_record \<Rightarrow> 'r update_proc \<Rightarrow> (job_record \<Rightarrow> 'r update_proc) \<Rightarrow> 'r update_proc" where
  "saveJob e r journal_failed k =
     Eff (\<lambda>w.
       let r' = stamped (uw_now w) r; j = jv_jobId (jr_view r)
       in if \<not> UUID j then (w, journal_failed)
          else (w\<lparr>uw_jobs := begin_write e j r' (uw_jobs w)\<rparr>,
             Await SaveJob (\<lambda>a. case a of
               Broke _ \<Rightarrow> Eff (\<lambda>w. (w\<lparr>uw_jobs := end_write e (uw_jobs w)\<rparr>, journal_failed))
             | _ \<Rightarrow> Eff (\<lambda>w. (w\<lparr>uw_jobs := complete_write e (uw_jobs w)\<rparr>, k r')))))"

definition journal_failure :: worker_proc where
  "journal_failure = Finished (Inl JournalError)"

definition save :: "job_record \<Rightarrow> worker_cont \<Rightarrow> worker_proc" where
  "save r k = saveJob Executor r journal_failure k"

definition writeMaintenance ::
  "bool \<Rightarrow> bool \<Rightarrow> job_record \<Rightarrow> worker_cont \<Rightarrow> worker_fail \<Rightarrow> worker_proc" where
  "writeMaintenance active allowStart r k fail =
     Eff (\<lambda>w.
       (log_event r (Fencing active)
          (w\<lparr>uw_fence := begin_write Executor ()
               \<lparr>fn_jobId = jv_jobId (jr_view r), fn_active = active, fn_allowStart = allowStart\<rparr> (uw_fence w)\<rparr>),
        Await WriteFence (\<lambda>a. case a of
          Broke e \<Rightarrow> Eff (\<lambda>w. (w\<lparr>uw_fence := end_write Executor (uw_fence w)\<rparr>, fail e r))
        | _ \<Rightarrow> Eff (\<lambda>w. (log_event r (Fenced active) (w\<lparr>uw_fence := complete_write Executor (uw_fence w)\<rparr>), k r)))))"

text \<open>An action that answered without an error is entered in the history.\<close>

definition noted :: "update_action \<Rightarrow> job_record \<Rightarrow> worker_proc \<Rightarrow> worker_proc" where
  "noted act r p = Eff (\<lambda>w. (log_event r (Done act) w, p))"

definition deploy :: "update_action \<Rightarrow> job_record \<Rightarrow> worker_cont \<Rightarrow> worker_fail \<Rightarrow> worker_proc" where
  "deploy act r k fail =
     Eff (\<lambda>w. (log_event r (Began act) w,
       Await (Deploy act r) (\<lambda>a. case a of Broke e \<Rightarrow> fail e r | _ \<Rightarrow> noted act r (k r))))"

definition back_up ::
  "update_action \<Rightarrow> job_record \<Rightarrow> worker_cont \<Rightarrow> worker_fail \<Rightarrow> worker_proc" where
  "back_up act r k fail =
     Eff (\<lambda>w. (log_event r (Began act) w,
       Await (BackUp act (backupContext (jr_installation r) (jv_jobId (jr_view r)) True) (jr_snapshot r))
         (\<lambda>a. case a of Broke e \<Rightarrow> fail e r | _ \<Rightarrow> noted act r (k r))))"

text \<open>\<open>record.snapshot = await backup.backup(context)\<close>\<close>

definition take_backup :: "job_record \<Rightarrow> worker_cont \<Rightarrow> worker_fail \<Rightarrow> worker_proc" where
  "take_backup r k fail =
     Eff (\<lambda>w. (log_event r (Began TakeBackup) w,
       Await (BackUp TakeBackup (backupContext (jr_installation r) (jv_jobId (jr_view r)) True) None)
         (\<lambda>a. case a of
            Took s \<Rightarrow> noted TakeBackup r (k (r\<lparr>jr_snapshot := Some s\<rparr>))
          | Broke e \<Rightarrow> fail e r
          | _ \<Rightarrow> fail OtherFailure r)))"

definition set_operation :: "string \<Rightarrow> op_mark \<Rightarrow> job_record \<Rightarrow> job_record" where
  "set_operation key m r = r\<lparr>jr_operations := AList.update key m (jr_operations r)\<rparr>"

definition op_of :: "job_record \<Rightarrow> string \<Rightarrow> op_mark option" where
  "op_of r key = map_of (jr_operations r) key"

definition worker_operation ::
  "string \<Rightarrow> (job_record \<Rightarrow> worker_cont \<Rightarrow> worker_fail \<Rightarrow> worker_proc) \<Rightarrow>
   job_record \<Rightarrow> worker_cont \<Rightarrow> worker_fail \<Rightarrow> worker_proc" where
  "worker_operation key action r k fail =
     save (set_operation key Intent r) (\<lambda>r.
       action r (\<lambda>r. save (set_operation key Performed r) k) fail)"

definition set_phase :: "job_phase \<Rightarrow> job_record \<Rightarrow> job_record" where
  "set_phase p r = r\<lparr>jr_view := (jr_view r)\<lparr>jv_phase := p\<rparr>\<rparr>"

definition phase :: "job_phase \<Rightarrow> job_record \<Rightarrow> worker_cont \<Rightarrow> worker_proc" where
  "phase p r k = save (set_phase p r) k"

definition set_status :: "job_status \<Rightarrow> job_record \<Rightarrow> job_record" where
  "set_status s r = r\<lparr>jr_view := (jr_view r)\<lparr>jv_status := s\<rparr>\<rparr>"

definition finished_record :: "job_status \<Rightarrow> string \<Rightarrow> string \<Rightarrow> int \<Rightarrow> job_record \<Rightarrow> job_record" where
  "finished_record status code message now r =
     r\<lparr>jr_view := (jr_view r)\<lparr>
         jv_status := status, jv_resultCode := Some code, jv_safeMessage := message, jv_finishedAt := Some now,
         jv_recoveryGuidance :=
           (if status = StatusRecovery
            then Some (''Keep business services isolated. Use the installed host recovery command with job '' @
                   jv_jobId (jr_view r) @ ''; retain the protected updater state and backup.'')
            else None)\<rparr>\<rparr>"

definition finish :: "job_status \<Rightarrow> string \<Rightarrow> string \<Rightarrow> job_record \<Rightarrow> worker_proc" where
  "finish status code message r =
     Eff (\<lambda>w. (w, save (finished_record status code message (uw_now w) r) (\<lambda>r. Finished (Inr ()))))"

text \<open>The handlers: a journal error is thrown on.\<close>

definition unless_journal :: "worker_fail \<Rightarrow> worker_fail" where
  "unless_journal handler e r = (if e = JournalError then journal_failure else handler e r)"

subsection \<open>Decisions\<close>

definition set_decision :: "job_decision \<Rightarrow> job_record \<Rightarrow> job_record" where
  "set_decision d r = r\<lparr>jr_decision := Some d\<rparr>"

text \<open>The clone is saved; the record itself gets the decision once that is durable.\<close>

definition decide :: "job_decision \<Rightarrow> job_record \<Rightarrow> worker_cont \<Rightarrow> worker_proc" where
  "decide d r k = save (set_decision d r) (\<lambda>_. k (set_decision d r))"

definition completeDecision :: "job_record \<Rightarrow> worker_proc" where
  "completeDecision r =
     (let restored = (jr_decision r = Some RestoreDecided);
          fail = unless_journal (\<lambda>e. finish StatusRecovery ''POST_DECISION_REPAIR_REQUIRED''
            ''The durable decision is preserved. Repair service availability without restoring an older database snapshot.'')
      in save r (\<lambda>r.
         deploy (if restored then VerifyRestored else VerifyInstalled) r (\<lambda>r.
         writeMaintenance False True r (\<lambda>r.
           finish (if restored then StatusRolledBack else StatusSucceeded)
             (if restored then ''RESTORED'' else ''UPDATED'')
             (if restored
              then ''The previous applications, database and business files were restored and verified.''
              else ''The system update was verified and committed.'') r) fail) fail))"

subsection \<open>Recovery\<close>

definition switched :: "job_record \<Rightarrow> bool" where
  "switched r \<longleftrightarrow> op_of r ''switch'' \<noteq> None"

definition fenced :: "job_record \<Rightarrow> bool" where
  "fenced r \<longleftrightarrow> op_of r ''fence'' \<noteq> None"

text \<open>The two halves of the restoration of a switched job, and the whole.\<close>

definition restore_data :: "job_record \<Rightarrow> worker_cont \<Rightarrow> worker_fail \<Rightarrow> worker_proc" where
  "restore_data r k fail =
     (if op_of r ''restore_data'' \<noteq> Some Performed
      then worker_operation ''restore_data'' (\<lambda>r k fail.
             back_up ValidateBackup r (\<lambda>r. back_up RestoreData r k fail) fail) r k fail
      else k r)"

definition restore :: "job_record \<Rightarrow> worker_cont \<Rightarrow> worker_fail \<Rightarrow> worker_proc" where
  "restore r k fail =
     phase Restoring r (\<lambda>r.
       if jr_snapshot r = None \<or> op_of r ''restore_data'' = Some Intent
       then fail (UpdateError ''RESTORE_UNCERTAIN''
              ''Interrupted data restoration needs manual verification before retrying.'' 409) r
       else worker_operation ''restore_deployment'' (deploy RestoreDeployment) r (\<lambda>r. restore_data r k fail) fail)"

definition recovery_failed :: worker_fail where
  "recovery_failed =
     unless_journal (\<lambda>e. finish StatusRecovery ''RECOVERY_REQUIRED''
       ''Automatic recovery could not be proved. Business access remains fenced; preserve backups and use host recovery.'')"

text \<open>The steps of \<open>recover\<close> from its end: \<open>was_switched\<close> is the constant \<open>switched\<close> of the code.\<close>

definition end_recovery :: "bool \<Rightarrow> update_error \<Rightarrow> worker_cont" where
  "end_recovery was_switched cause r =
     (if was_switched then decide RestoreDecided r completeDecision
      else writeMaintenance False True r (\<lambda>r.
             finish StatusFailed (error_code cause) (safe_message cause) r) recovery_failed)"

definition start_previous :: "bool \<Rightarrow> update_error \<Rightarrow> worker_cont" where
  "start_previous was_switched cause r =
     (if fenced r
      then writeMaintenance True True r (\<lambda>r.
             deploy StartApplications r (\<lambda>r.
             deploy VerifyRestored r (end_recovery was_switched cause) recovery_failed) recovery_failed) recovery_failed
      else end_recovery was_switched cause r)"

definition restore_switched :: "bool \<Rightarrow> update_error \<Rightarrow> worker_cont" where
  "restore_switched was_switched cause r =
     (if was_switched then restore r (start_previous was_switched cause) recovery_failed
      else start_previous was_switched cause r)"

definition recover :: "job_record \<Rightarrow> update_error \<Rightarrow> worker_proc" where
  "recover r cause =
     (if jr_decision r \<noteq> None then completeDecision r
      else if fenced r
      then writeMaintenance True False r (\<lambda>r'.
             deploy StopApplications r' (restore_switched (switched r) cause) recovery_failed) recovery_failed
      else restore_switched (switched r) cause r)"

subsection \<open>The worker\<close>

definition interrupted :: update_error where
  "interrupted = UpdateError ''WORKER_INTERRUPTED'' ''The update was interrupted before its commit decision.'' 409"

definition recheck_plan :: "job_record \<Rightarrow> worker_cont \<Rightarrow> worker_fail \<Rightarrow> worker_proc" where
  "recheck_plan r k fail =
     Await AskPlanner (\<lambda>a. case a of
       Observed env \<Rightarrow>
         (case revalidate (jr_installation r) env (jr_plan r) True of Inl e \<Rightarrow> fail e r | Inr _ \<Rightarrow> k r)
     | Broke e \<Rightarrow> fail e r
     | _ \<Rightarrow> fail OtherFailure r)"

text \<open>The body of the \<open>try\<close>, in three parts: until the backup, the switch, the commit.\<close>

definition isolate :: "job_record \<Rightarrow> worker_cont \<Rightarrow> worker_fail \<Rightarrow> worker_proc" where
  "isolate r k fail =
     recheck_plan r (\<lambda>r.
     worker_operation ''prepare'' (deploy Prepare) r (\<lambda>r.
     phase InMaintenance r (\<lambda>r.
     worker_operation ''fence'' (writeMaintenance True False) r (\<lambda>r.
     worker_operation ''stop'' (deploy StopApplications) r (\<lambda>r.
     phase BackingUp r (\<lambda>r.
     worker_operation ''backup'' (\<lambda>r k fail. take_backup r (\<lambda>r. back_up ValidateBackup r k fail) fail) r k
       fail)) fail) fail)) fail) fail"

definition replace_applications :: "job_record \<Rightarrow> worker_cont \<Rightarrow> worker_fail \<Rightarrow> worker_proc" where
  "replace_applications r k fail =
     phase Switching r (\<lambda>r.
     worker_operation ''switch'' (deploy SwitchApplications) r (\<lambda>r.
     worker_operation ''validation_start'' (\<lambda>r k fail.
       writeMaintenance True True r (\<lambda>r. deploy StartApplications r k fail) fail) r k fail) fail)"

definition confirm :: "job_record \<Rightarrow> worker_cont \<Rightarrow> worker_fail \<Rightarrow> worker_proc" where
  "confirm r k fail =
     phase Verifying r (\<lambda>r.
     worker_operation ''verify'' (deploy VerifyInstalled) r (\<lambda>r.
     phase UpdatingHelper r (\<lambda>r.
     worker_operation ''helper'' (deploy UpdateHelper) r (\<lambda>r.
     phase Committing r (\<lambda>r.
     worker_operation ''persist_installation'' (deploy CommitInstallation) r k fail)) fail)) fail)"

definition update_body :: "job_record \<Rightarrow> worker_proc" where
  "update_body r =
     (let fail = unless_journal (\<lambda>e r. recover r e)
      in isolate r (\<lambda>r.
         replace_applications r (\<lambda>r.
         confirm r (\<lambda>r.
           decide CommitDecided r completeDecision) fail) fail) fail)"

definition run_record :: "job_record \<Rightarrow> worker_proc" where
  "run_record r =
     (if terminal r then Finished (Inr ())
      else if jv_status (jr_view r) = StatusRecovery then Finished (Inr ())
      else if jr_decision r \<noteq> None then completeDecision r
      else if jv_status (jr_view r) = StatusRunning then recover r interrupted
      else save (set_status StatusRunning r) update_body)"

definition run_job :: "string \<Rightarrow> worker_proc" where
  "run_job j = Eff (\<lambda>w. (w, case read_job w j of Inl e \<Rightarrow> Finished (Inl e) | Inr r \<Rightarrow> run_record r))"

text \<open>
  The host recovery command, while it holds the execution lock; a worker is started afterwards.
\<close>

definition host_record :: "job_record \<Rightarrow> worker_proc" where
  "host_record r =
     (if \<not> (jr_decision r \<noteq> None \<or> op_of r ''restore_data'' \<noteq> Some Intent)
      then Finished (Inl (UpdateError ''RESTORE_UNCERTAIN''
        ''An interrupted database restoration needs manual verification. Preserve the recovery set and consult the host recovery guide.'' 409))
      else if jv_status (jr_view r) = StatusRecovery
      then save (set_status StatusRunning r) (\<lambda>r. Finished (Inr ()))
      else Finished (Inr ()))"

definition host_recover :: "string \<Rightarrow> worker_proc" where
  "host_recover j = Eff (\<lambda>w. (w, case read_job w j of Inl e \<Rightarrow> Finished (Inl e) | Inr r \<Rightarrow> host_record r))"

end
