(* ===== verification/Update_Control.thy ===== *)
theory Update_Control
  imports Update_Worker
begin

text \<open>
  The control process of the updater (\<open>src/updater/control.ts\<close> and \<open>Planner.capabilities\<close>): it
  accepts jobs, has their workers started, and answers the application. The digest of a request is a
  parameter. What one call of \<open>jobs()\<close> reads is taken as one observation.
\<close>

subsection \<open>Requests\<close>

text \<open>
  A JSON value as far as the requests look into it. A single-element array, which the identifier
  pattern would take for its element, counts as \<open>JOther\<close>.
\<close>

datatype request_json = JString string | JBool bool | JObject "(string \<times> request_json) list" | JOther

definition json_string :: "request_json option \<Rightarrow> string option" where
  "json_string v = (case v of Some (JString s) \<Rightarrow> Some s | _ \<Rightarrow> None)"

definition is_uuid :: "request_json option \<Rightarrow> bool" where
  "is_uuid v = (case json_string v of None \<Rightarrow> False | Some s \<Rightarrow> UUID s)"

definition text_of :: "request_json option \<Rightarrow> string" where
  "text_of v = (case json_string v of None \<Rightarrow> [] | Some s \<Rightarrow> s)"

definition valid_request :: "(string \<times> request_json) list \<Rightarrow> request_json option \<Rightarrow> bool" where
  "valid_request body actor \<longleftrightarrow>
     distinct (map fst body) \<and>
     set (map fst body) = {''acknowledgeDowntime'', ''idempotencyKey'', ''planId''} \<and>
     is_uuid (map_of body ''planId'') \<and> is_uuid (map_of body ''idempotencyKey'') \<and>
     map_of body ''acknowledgeDowntime'' = Some (JBool True) \<and>
     json_string actor \<noteq> None \<and> 0 < length (text_of actor) \<and> length (text_of actor) \<le> 100"

definition quote_mark :: string where
  "quote_mark = [CHR 0x22]"

text \<open>\<open>JSON.stringify({ planId, acknowledgeDowntime })\<close>\<close>

definition request_text :: "string \<Rightarrow> string" where
  "request_text planId =
     ''{'' @ quote_mark @ ''planId'' @ quote_mark @ '':'' @ quote_mark @ planId @ quote_mark @ '','' @
     quote_mark @ ''acknowledgeDowntime'' @ quote_mark @ '':true}''"

record job_response =
  rs_jobId :: string
  rs_statusUrl :: string
  rs_job :: job_view

definition response :: "job_record \<Rightarrow> job_response" where
  "response r =
     \<lparr>rs_jobId = jv_jobId (jr_view r), rs_statusUrl = ''/api/system-update/jobs/'' @ jv_jobId (jr_view r),
      rs_job = jr_view r\<rparr>"

record capabilities =
  cp_installationId :: string
  cp_ready :: bool
  cp_deployment :: deployment_kind
  cp_database :: database_kind
  cp_current :: "string \<times> string"
  cp_blockers :: "blocker list"
  cp_activeJobId :: "string option"

datatype update_reply =
    HealthReply string "string option"
  | CapabilitiesReply capabilities
  | PlanReply update_plan
  | JobAccepted job_response
  | CurrentReply string "job_view option"
  | JobReply job_view
  | NoReply

type_synonym control_proc = "update_reply update_result update_proc"

definition failed :: "update_error \<Rightarrow> control_proc" where
  "failed e = Finished (Inl e)"

text \<open>Going on with a result, or failing.\<close>

definition or_fail :: "'a update_result \<Rightarrow> ('a \<Rightarrow> control_proc) \<Rightarrow> control_proc" where
  "or_fail x k = (case x of Inl e \<Rightarrow> failed e | Inr v \<Rightarrow> k v)"

definition load_installation :: "(installation \<Rightarrow> control_proc) \<Rightarrow> control_proc" where
  "load_installation k =
     Await LoadInstallation (\<lambda>a. case a of
       Installed i \<Rightarrow> k i | Broke e \<Rightarrow> failed e | _ \<Rightarrow> failed OtherFailure)"

definition ask_planner :: "(planner_env \<Rightarrow> control_proc) \<Rightarrow> control_proc" where
  "ask_planner k =
     Await AskPlanner (\<lambda>a. case a of
       Observed env \<Rightarrow> k env | Broke e \<Rightarrow> failed e | _ \<Rightarrow> failed OtherFailure)"

definition read_world :: "(update_world \<Rightarrow> control_proc) \<Rightarrow> control_proc" where
  "read_world f = Eff (\<lambda>w. (w, f w))"

subsection \<open>Accepting a job\<close>

definition new_job ::
  "installation \<Rightarrow> persisted_plan \<Rightarrow> string \<Rightarrow> string \<Rightarrow> string \<Rightarrow> string \<Rightarrow> string \<Rightarrow> int \<Rightarrow> job_record" where
  "new_job i plan planId key dg actor jobId now =
     \<lparr>jr_view = \<lparr>jv_installationId = in_id i, jv_jobId = jobId, jv_planId = planId,
        jv_status = StatusQueued, jv_phase = Preparing, jv_components = up_components (pp_view plan),
        jv_createdAt = now, jv_updatedAt = now, jv_finishedAt = None, jv_resultCode = None,
        jv_safeMessage = ''The update request is durably accepted.'', jv_recoveryGuidance = None\<rparr>,
      jr_idempotencyKey = key, jr_requestDigest = dg, jr_actorId = actor, jr_plan = plan,
      jr_installation = i, jr_snapshot = None, jr_decision = None, jr_operations = []\<rparr>"

text \<open>What a look at the journal decides: an answer at once, or to go on with the plan.\<close>

definition look_up ::
  "string \<Rightarrow> string \<Rightarrow> job_record list \<Rightarrow> job_response option update_result" where
  "look_up key dg jobs =
     (case find (\<lambda>r. jr_idempotencyKey r = key) jobs of
        Some r \<Rightarrow>
          rbind (check (jr_requestDigest r = dg)
                   ''IDEMPOTENCY_CONFLICT'' ''This idempotency key belongs to a different request.'') (\<lambda>_.
            Inr (Some (response r)))
      | None \<Rightarrow>
          rbind (check (list_all terminal jobs)
                   ''JOB_ACTIVE'' ''Another update or recovery is already active.'') (\<lambda>_. Inr None))"

definition start_worker :: "string \<Rightarrow> control_proc \<Rightarrow> control_proc" where
  "start_worker j k = Await (StartWorker j) (\<lambda>_. k)"

text \<open>The end of \<open>accept\<close>: the new job under its identifier.\<close>

definition create_job ::
  "(string \<Rightarrow> string) \<Rightarrow> installation \<Rightarrow> persisted_plan \<Rightarrow> string \<Rightarrow> string \<Rightarrow> string \<Rightarrow> string \<Rightarrow> control_proc" where
  "create_job h i plan planId key actor jobId =
     Eff (\<lambda>w. (w,
       saveJob Control (new_job i plan planId key (h (request_text planId)) actor jobId (uw_now w))
         (failed JournalError) (\<lambda>r.
         start_worker jobId (Finished (Inr (JobAccepted (response r)))))))"

definition accept :: "(string \<Rightarrow> string) \<Rightarrow> (string \<times> request_json) list \<Rightarrow> request_json option \<Rightarrow> control_proc" where
  "accept h body actor =
     load_installation (\<lambda>i.
       or_fail (check (valid_request body actor) ''INVALID_REQUEST'' ''The update request is invalid.'') (\<lambda>_.
         let planId = text_of (map_of body ''planId''); key = text_of (map_of body ''idempotencyKey'')
         in read_world (\<lambda>w.
              or_fail (look_up key (h (request_text planId)) (all_jobs w)) (\<lambda>found.
                case found of
                  Some answer \<Rightarrow> Finished (Inr (JobAccepted answer))
                | None \<Rightarrow>
                    or_fail (read_plan w planId) (\<lambda>plan.
                    ask_planner (\<lambda>env.
                    or_fail (revalidate i env plan False) (\<lambda>_.
                      Await NewId (\<lambda>a. case a of
                        Named jobId \<Rightarrow> create_job h i plan planId key (text_of actor) jobId
                      | Broke e \<Rightarrow> failed e
                      | _ \<Rightarrow> failed OtherFailure))))))))"

definition reconcile :: "control_proc" where
  "reconcile =
     load_installation (\<lambda>i. read_world (\<lambda>w. or_fail (current_job w) (\<lambda>found.
       case found of
         None \<Rightarrow> Finished (Inr NoReply)
       | Some r \<Rightarrow>
           if terminal r \<or> jv_status (jr_view r) = StatusRecovery then Finished (Inr NoReply)
           else Await (WorkerAlive (jv_jobId (jr_view r))) (\<lambda>a. case a of
                  Alive True \<Rightarrow> Finished (Inr NoReply)
                | Alive False \<Rightarrow> start_worker (jv_jobId (jr_view r)) (Finished (Inr NoReply))
                | Broke e \<Rightarrow> failed e
                | _ \<Rightarrow> failed OtherFailure))))"

subsection \<open>Other requests\<close>

definition capabilities_of :: "installation \<Rightarrow> planner_env \<Rightarrow> job_record option \<Rightarrow> capabilities" where
  "capabilities_of i env current =
     (let busy = (case current of Some r \<Rightarrow> \<not> terminal r | None \<Rightarrow> False);
          bs = blockers env @ (if busy
            then [\<lparr>bk_code = ''JOB_ACTIVE'', bk_message = ''An update or recovery is already active.''\<rparr>] else [])
      in \<lparr>cp_installationId = in_id i, cp_ready = (bs = []), cp_deployment = in_deployment i,
          cp_database = in_database i,
          cp_current = (ic_version (in_current i Backend), ic_version (in_current i WebApp)),
          cp_blockers = bs,
          cp_activeJobId = (if busy then map_option (\<lambda>r. jv_jobId (jr_view r)) current else None)\<rparr>)"

definition capabilities_op :: "installation \<Rightarrow> control_proc" where
  "capabilities_op i =
     ask_planner (\<lambda>env. read_world (\<lambda>w. or_fail (current_job w) (\<lambda>current.
       Finished (Inr (CapabilitiesReply (capabilities_of i env current))))))"

definition savePlan :: "persisted_plan \<Rightarrow> control_proc \<Rightarrow> control_proc" where
  "savePlan p k =
     (if \<not> UUID (up_planId (pp_view p)) then failed invalid_id
      else Await SavePlan (\<lambda>a. case a of
             Broke e \<Rightarrow> failed e
           | _ \<Rightarrow> Eff (\<lambda>w. (w\<lparr>uw_plans := AList.update (up_planId (pp_view p)) p (uw_plans w)\<rparr>, k))))"

definition create_op :: "installation \<Rightarrow> control_proc" where
  "create_op i =
     ask_planner (\<lambda>env. or_fail (create_plan i env) (\<lambda>p. savePlan p (Finished (Inr (PlanReply (pp_view p))))))"

definition invalid_request :: "string \<Rightarrow> update_error" where
  "invalid_request m = UpdateError ''INVALID_REQUEST'' m 409"

definition dispatch_to ::
  "(string \<Rightarrow> string) \<Rightarrow> string \<Rightarrow> (string \<times> request_json) list \<Rightarrow> request_json option \<Rightarrow> control_proc" where
  "dispatch_to h op body actor =
     load_installation (\<lambda>i.
       if op = ''health'' then
         read_world (\<lambda>w. or_fail (current_job w) (\<lambda>r.
           Finished (Inr (HealthReply (in_id i) (map_option (\<lambda>r. jv_jobId (jr_view r)) r)))))
       else if op = ''capabilities'' then capabilities_op i
       else if op = ''plans'' then
         (if body = [] then create_op i else failed (invalid_request ''Plans do not accept targets.''))
       else if op = ''jobs'' then
         accept h body (case actor of None \<Rightarrow> Some (JString []) | Some a \<Rightarrow> Some a)
       else if op = ''current'' then
         read_world (\<lambda>w. or_fail (current_job w) (\<lambda>r. Finished (Inr (CurrentReply (in_id i) (map_option jr_view r)))))
       else if op = ''job'' then
         (case json_string (map_of body ''id'') of
            None \<Rightarrow> failed (invalid_request ''The task identifier is required.'')
          | Some x \<Rightarrow> read_world (\<lambda>w. or_fail (read_job w x) (\<lambda>r. Finished (Inr (JobReply (jr_view r))))))
       else failed (invalid_request ''The updater operation is unsupported.''))"

definition dispatch :: "(string \<Rightarrow> string) \<Rightarrow> request_json \<Rightarrow> control_proc" where
  "dispatch h request =
     (case request of
        JObject entries \<Rightarrow>
          (case map_of entries ''body'' of
             Some (JObject body) \<Rightarrow>
               if set (map fst entries) \<subseteq> {''operation'', ''body'', ''actorId''}
               then dispatch_to h (text_of (map_of entries ''operation'')) body (map_of entries ''actorId'')
               else failed (invalid_request ''The updater request is invalid.'')
           | _ \<Rightarrow> failed (invalid_request ''The updater request is invalid.''))
      | _ \<Rightarrow> failed (invalid_request ''The updater request is invalid.''))"

text \<open>The status of a failed request on the socket.\<close>

definition reply_status :: "update_error \<Rightarrow> nat" where
  "reply_status e = (if error_code e = ''INVALID_REQUEST'' then 400 else error_status e)"

end
