(* ===== verification/Update_Host.thy ===== *)
theory Update_Host
  imports Update_Control
begin

text \<open>
  The host the updater runs on: an executor (worker or host recovery, under the execution lock), the
  serialized operations of the control process, the file system, and everything that may stop
  them. The invariant of the journal and the fence that they keep in every interleaving.
\<close>

subsection \<open>Steps of the host\<close>

type_synonym host = "update_world \<times> worker_proc option \<times> control_proc option"

text \<open>What happens to the files in the background; clock and plans change as they like.\<close>

inductive background :: "update_world \<Rightarrow> update_world \<Rightarrow> bool" where
  rename_job: "background w (w\<lparr>uw_jobs := rename_file e (uw_jobs w)\<rparr>)"
| sync_jobs: "background w (w\<lparr>uw_jobs := syncDirectory (uw_jobs w)\<rparr>)"
| rename_fence: "background w (w\<lparr>uw_fence := rename_file e (uw_fence w)\<rparr>)"
| sync_fence: "background w (w\<lparr>uw_fence := syncDirectory (uw_fence w)\<rparr>)"
| other_changes: "background w (w\<lparr>uw_plans := ps, uw_now := t\<rparr>)"

text \<open>A writer that stops leaves its writes as they are.\<close>

definition stop_writer :: "writer \<Rightarrow> update_world \<Rightarrow> update_world" where
  "stop_writer e w = w\<lparr>uw_jobs := end_write e (uw_jobs w), uw_fence := end_write e (uw_fence w)\<rparr>"

definition power_loss :: "update_world \<Rightarrow> update_world" where
  "power_loss w = w\<lparr>uw_jobs := lose_power (uw_jobs w), uw_fence := lose_power (uw_fence w)\<rparr>"

text \<open>\<open>randomUUID\<close> yields identifiers that nobody has used.\<close>

definition unused_id :: "string \<Rightarrow> update_world \<Rightarrow> bool" where
  "unused_id j w \<longleftrightarrow> UUID j \<and> (\<forall>r. \<not> may_hold (uw_jobs w) j r) \<and> j \<notin> fst ` set (uw_events w)"

definition fair_answer :: "update_query \<Rightarrow> update_answer \<Rightarrow> update_world \<Rightarrow> bool" where
  "fair_answer q a w \<longleftrightarrow> (\<forall>j. q = NewId \<longrightarrow> a = Named j \<longrightarrow> unused_id j w)"

text \<open>The identifier of a job is known once \<open>accept\<close> has written it, so nobody works on it before.\<close>

definition not_being_accepted :: "update_world \<Rightarrow> string \<Rightarrow> bool" where
  "not_being_accepted w j \<longleftrightarrow> (\<forall>r. dr_writing (uw_jobs w) Control \<noteq> Some (j, r))"

inductive host_step :: "(string \<Rightarrow> string) \<Rightarrow> host \<Rightarrow> host \<Rightarrow> bool" for h where
  start_worker_step: "not_being_accepted w j \<Longrightarrow> run (run_job j) w = (w', p) \<Longrightarrow>
    host_step h (w, None, c) (w', Some p, c)"
| start_recovery_step: "not_being_accepted w j \<Longrightarrow> run (host_recover j) w = (w', p) \<Longrightarrow>
    host_step h (w, None, c) (w', Some p, c)"
| executor_step: "\<not> is_finished p \<Longrightarrow> answer_ok fair_answer p a w \<Longrightarrow> run (continue a p) w = (w', p') \<Longrightarrow>
    host_step h (w, Some p, c) (w', Some p', c)"
| executor_end: "is_finished p \<Longrightarrow> host_step h (w, Some p, c) (w, None, c)"
| executor_killed: "host_step h (w, Some p, c) (stop_writer Executor w, None, c)"
| accept_step: "run (accept h body actor) w = (w', p) \<Longrightarrow> host_step h (w, x, None) (w', x, Some p)"
| reconcile_step: "run reconcile w = (w', p) \<Longrightarrow> host_step h (w, x, None) (w', x, Some p)"
| control_step: "\<not> is_finished p \<Longrightarrow> answer_ok fair_answer p a w \<Longrightarrow> run (continue a p) w = (w', p') \<Longrightarrow>
    host_step h (w, x, Some p) (w', x, Some p')"
| control_end: "is_finished p \<Longrightarrow> host_step h (w, x, Some p) (w, x, None)"
| control_killed: "host_step h (w, x, Some p) (stop_writer Control w, x, None)"
| power_loss_step: "host_step h (w, x, c) (power_loss w, None, None)"
| background_step: "background w w' \<Longrightarrow> host_step h (w, x, c) (w', x, c)"

definition empty_dir :: "('k, 'v) dir" where
  "empty_dir = \<lparr>dr_seen = [], dr_kept = [], dr_writing = (\<lambda>_. None)\<rparr>"

definition fresh_host :: "int \<Rightarrow> host" where
  "fresh_host now =
     (\<lparr>uw_plans = [], uw_jobs = empty_dir, uw_fence = empty_dir, uw_now = now, uw_events = []\<rparr>, None, None)"

inductive host_reachable :: "(string \<Rightarrow> string) \<Rightarrow> host \<Rightarrow> bool" for h where
  host_start: "host_reachable h (fresh_host now)"
| host_next: "host_reachable h s \<Longrightarrow> host_step h s s' \<Longrightarrow> host_reachable h s'"

subsection \<open>Stages of a job\<close>

text \<open>The abstract protocol of a job, which every write of its record follows.\<close>

datatype job_stage =
  Accepted | Underway | Exchanged | RestoringData | DataRestored | Decided job_decision | Ended job_status

inductive stage_step :: "job_stage \<Rightarrow> job_stage \<Rightarrow> bool" where
  "stage_step Accepted Underway"
| "stage_step Underway (Ended StatusFailed)"
| "stage_step Underway Exchanged"
| "stage_step Exchanged (Decided CommitDecided)"
| "stage_step Exchanged RestoringData"
| "stage_step RestoringData DataRestored"
| "stage_step DataRestored (Decided RestoreDecided)"
| "stage_step (Decided CommitDecided) (Ended StatusSucceeded)"
| "stage_step (Decided RestoreDecided) (Ended StatusRolledBack)"

inductive_cases stage_step_EndedE: "stage_step (Ended s) t"
inductive_cases stage_step_DecidedE: "stage_step (Decided d) t"

abbreviation stage_le :: "job_stage \<Rightarrow> job_stage \<Rightarrow> bool" where
  "stage_le \<equiv> stage_step\<^sup>*\<^sup>*"

definition stage :: "job_record \<Rightarrow> job_stage" where
  "stage r =
     (if terminal r then Ended (jv_status (jr_view r))
      else case jr_decision r of
        Some d \<Rightarrow> Decided d
      | None \<Rightarrow>
          (case op_of r ''restore_data'' of
             Some Performed \<Rightarrow> DataRestored
           | Some Intent \<Rightarrow> RestoringData
           | None \<Rightarrow>
               if switched r then Exchanged
               else if jv_status (jr_view r) = StatusQueued then Accepted else Underway))"

text \<open>The applications were exchanged and nothing is decided: old data may still be put back.\<close>

definition at_risk :: "job_record \<Rightarrow> bool" where
  "at_risk r \<longleftrightarrow> switched r \<and> jr_decision r = None"

definition risky_stage :: "job_stage \<Rightarrow> bool" where
  "risky_stage s \<longleftrightarrow> s \<in> {Exchanged, RestoringData, DataRestored}"

lemma stage_le_Ended: "stage_le (Ended s) t \<Longrightarrow> t = Ended s"
  by (induction rule: rtranclp_induct) (auto elim: stage_step_EndedE)

lemma stage_step_safe: "stage_step s t \<Longrightarrow> t \<in> {Accepted, Underway} \<Longrightarrow> s = Accepted"
  by (cases rule: stage_step.cases) auto

lemma stage_le_safe: "stage_le s t \<Longrightarrow> t \<in> {Accepted, Underway} \<Longrightarrow> s \<in> {Accepted, Underway}"
  by (induction rule: rtranclp_induct) (auto dest: stage_step_safe)

subsection \<open>What a record may say\<close>

definition marks_ok :: "job_record \<Rightarrow> bool" where
  "marks_ok r \<longleftrightarrow>
     (jv_status (jr_view r) = StatusQueued \<longrightarrow> jr_operations r = [] \<and> jr_decision r = None) \<and>
     (switched r \<longrightarrow> op_of r ''backup'' = Some Performed \<and> op_of r ''fence'' = Some Performed \<and> jr_snapshot r \<noteq> None) \<and>
     (op_of r ''restore_data'' \<noteq> None \<longrightarrow> switched r) \<and>
     (jr_decision r = Some CommitDecided \<longrightarrow> switched r \<and> op_of r ''restore_data'' = None \<and>
        op_of r ''verify'' = Some Performed \<and> op_of r ''persist_installation'' = Some Performed) \<and>
     (jr_decision r = Some RestoreDecided \<longrightarrow> op_of r ''restore_data'' = Some Performed) \<and>
     (jv_status (jr_view r) = StatusSucceeded \<longrightarrow> jr_decision r = Some CommitDecided) \<and>
     (jv_status (jr_view r) = StatusRolledBack \<longrightarrow> jr_decision r = Some RestoreDecided) \<and>
     (jv_status (jr_view r) = StatusFailed \<longrightarrow> jr_decision r = None \<and> \<not> switched r)"

text \<open>In a history of the job, \<open>b\<close> happened after \<open>a\<close>.\<close>

fun in_order :: "string \<Rightarrow> update_event \<Rightarrow> update_event \<Rightarrow> (string \<times> update_event) list \<Rightarrow> bool" where
  "in_order j a b [] = False"
| "in_order j a b (x # es) = (x = (j, b) \<and> (j, a) \<in> set es \<or> in_order j a b es)"

text \<open>
  What the worker began shows in every record of the job that may be read from now on; and what such a
  record says was performed was done.
\<close>

definition began_ok :: "string \<Rightarrow> (string \<times> update_event) list \<Rightarrow> job_record \<Rightarrow> bool" where
  "began_ok j es r \<longleftrightarrow>
     ((j, Began SwitchApplications) \<in> set es \<longrightarrow> switched r) \<and>
     ((j, Began RestoreData) \<in> set es \<longrightarrow> op_of r ''restore_data'' \<noteq> None)"

definition performed :: "string \<Rightarrow> string \<Rightarrow> (string \<times> update_event) list \<Rightarrow> bool" where
  "performed j key es \<longleftrightarrow>
     (key = ''backup'' \<longrightarrow> in_order j (Done TakeBackup) (Done ValidateBackup) es) \<and>
     (key = ''switch'' \<longrightarrow> (j, Done SwitchApplications) \<in> set es) \<and>
     (key = ''verify'' \<longrightarrow> in_order j (Done SwitchApplications) (Done VerifyInstalled) es) \<and>
     (key = ''persist_installation'' \<longrightarrow> (j, Done CommitInstallation) \<in> set es) \<and>
     (key = ''restore_deployment'' \<longrightarrow> (j, Done RestoreDeployment) \<in> set es) \<and>
     (key = ''restore_data'' \<longrightarrow> in_order j (Done RestoreDeployment) (Done RestoreData) es)"

definition done_ok :: "string \<Rightarrow> (string \<times> update_event) list \<Rightarrow> job_record \<Rightarrow> bool" where
  "done_ok j es r \<longleftrightarrow>
     (\<forall>key. op_of r key = Some Performed \<longrightarrow> performed j key es) \<and>
     (jr_decision r = Some RestoreDecided \<longrightarrow> in_order j (Done RestoreData) (Done VerifyRestored) es)"

lemma in_order_later: "in_order j a b es \<Longrightarrow> in_order j a b (x # es)"
  by simp

lemma in_order_set: "in_order j a b es \<Longrightarrow> (j, b) \<in> set es \<and> (j, a) \<in> set es"
  by (induction es) auto

lemma performed_later: "performed j key es \<Longrightarrow> performed j key (x # es)"
  unfolding performed_def by auto

lemma done_later: "done_ok j es r \<Longrightarrow> done_ok j (x # es) r"
  unfolding done_ok_def using performed_later by auto

lemma at_risk_not_terminal: "marks_ok r \<Longrightarrow> at_risk r \<Longrightarrow> \<not> terminal r"
  by (auto simp: marks_ok_def at_risk_def terminal_def)

lemma at_risk_stage: "marks_ok r \<Longrightarrow> at_risk r \<longleftrightarrow> risky_stage (stage r)"
  by (auto simp: at_risk_def risky_stage_def stage_def marks_ok_def terminal_def
      split: option.splits op_mark.splits)

lemma stage_Ended: "stage r = Ended s \<longleftrightarrow> terminal r \<and> jv_status (jr_view r) = s"
  by (auto simp: stage_def split: option.splits op_mark.splits)

lemma stage_terminal: "stage_le (stage a) (stage b) \<Longrightarrow> terminal a \<Longrightarrow> terminal b"
  using stage_le_Ended stage_Ended by metis

subsection \<open>Data written since the backup\<close>

text \<open>
  The fence is durably closed: the last write of it that was begun and changes it was one that closed it, and
  it ended well.
\<close>

fun sealed :: "(string \<times> update_event) list \<Rightarrow> bool" where
  "sealed [] = False"
| "sealed ((k, Fencing active) # es) = (active \<and> sealed es)"
| "sealed ((k, Fenced active) # es) = active"
| "sealed ((k, Began a) # es) = sealed es"
| "sealed ((k, Done a) # es) = sealed es"

text \<open>The applications are stopped: they were, and no start of them was begun since.\<close>

fun halted :: "(string \<times> update_event) list \<Rightarrow> bool" where
  "halted [] = False"
| "halted ((k, Done a) # es) = (a = StopApplications \<or> halted es)"
| "halted ((k, Began a) # es) = (a \<noteq> StartApplications \<and> halted es)"
| "halted ((k, Fencing active) # es) = halted es"
| "halted ((k, Fenced active) # es) = halted es"

text \<open>
  The last backup of a job may lack data that business wrote: there is none, the fence was not closed or the
  applications not stopped when it was begun, or the fence was lifted since, by whomever.
\<close>

fun exposed :: "string \<Rightarrow> (string \<times> update_event) list \<Rightarrow> bool" where
  "exposed j [] = True"
| "exposed j ((k, Fencing active) # es) = (if active then exposed j es else True)"
| "exposed j ((k, Began a) # es) =
     (if a = TakeBackup \<and> k = j then \<not> (sealed es \<and> halted es) else exposed j es)"
| "exposed j ((k, Fenced active) # es) = exposed j es"
| "exposed j ((k, Done a) # es) = exposed j es"

text \<open>
  No restoration was begun while there was data to lose, and none from a backup that was not taken
  completely and then validated.
\<close>

fun restores_safe :: "(string \<times> update_event) list \<Rightarrow> bool" where
  "restores_safe [] = True"
| "restores_safe ((j, e) # es) =
     ((e = Began RestoreData \<longrightarrow>
         \<not> exposed j es \<and> in_order j (Done TakeBackup) (Done ValidateBackup) es) \<and> restores_safe es)"

definition times_restored :: "string \<Rightarrow> (string \<times> update_event) list \<Rightarrow> nat" where
  "times_restored j es = length (filter (\<lambda>x. x = (j, Began RestoreData)) es)"

definition history_safe :: "(string \<times> update_event) list \<Rightarrow> bool" where
  "history_safe es \<longleftrightarrow> restores_safe es \<and> (\<forall>j. times_restored j es \<le> 1)"

lemma times_restored_Cons:
  "times_restored j (x # es) = (if x = (j, Began RestoreData) then 1 else 0) + times_restored j es"
  by (simp add: times_restored_def)

lemma never_restored: "(j, Began RestoreData) \<notin> set es \<Longrightarrow> times_restored j es = 0"
  by (auto simp: times_restored_def filter_empty_conv)

subsection \<open>The invariant\<close>

abbreviation job_copy :: "update_world \<Rightarrow> string \<Rightarrow> job_record \<Rightarrow> bool" where
  "job_copy w j r \<equiv> may_hold (uw_jobs w) j r"

definition fence_closed :: "update_world \<Rightarrow> bool" where
  "fence_closed w \<longleftrightarrow>
     seen (uw_fence w) () \<noteq> None \<and> kept (uw_fence w) () \<noteq> None \<and>
     (\<forall>f. may_hold (uw_fence w) () f \<longrightarrow> fn_active f)"

definition copies_ok :: "update_world \<Rightarrow> bool" where
  "copies_ok w \<longleftrightarrow>
     (\<forall>j r. job_copy w j r \<longrightarrow>
        UUID j \<and> jv_jobId (jr_view r) = j \<and> marks_ok r \<and> began_ok j (uw_events w) r \<and> done_ok j (uw_events w) r)"

definition one_unfinished :: "(string \<Rightarrow> job_record option) \<Rightarrow> bool" where
  "one_unfinished d \<longleftrightarrow>
     (\<forall>j k r q. d j = Some r \<longrightarrow> d k = Some q \<longrightarrow> \<not> terminal r \<longrightarrow> \<not> terminal q \<longrightarrow> j = k)"

definition single_job :: "update_world \<Rightarrow> bool" where
  "single_job w \<longleftrightarrow>
     one_unfinished (seen (uw_jobs w)) \<and> one_unfinished (kept (uw_jobs w)) \<and>
     (\<forall>e j r k q. dr_writing (uw_jobs w) e = Some (j, r) \<longrightarrow> \<not> terminal r \<longrightarrow>
        seen (uw_jobs w) k = Some q \<longrightarrow> \<not> terminal q \<longrightarrow> k = j)"

definition ordered_job :: "update_world \<Rightarrow> bool" where
  "ordered_job w \<longleftrightarrow>
     (\<forall>j a. kept (uw_jobs w) j = Some a \<longrightarrow>
        (\<exists>b. seen (uw_jobs w) j = Some b \<and> stage_le (stage a) (stage b))) \<and>
     (\<forall>e j b c. dr_writing (uw_jobs w) e = Some (j, c) \<longrightarrow> seen (uw_jobs w) j = Some b \<longrightarrow>
        stage_le (stage b) (stage c)) \<and>
     (\<forall>j c. dr_writing (uw_jobs w) Executor = Some (j, c) \<longrightarrow>
        seen (uw_jobs w) j \<noteq> None \<and> not_being_accepted w j)"

definition isolated :: "update_world \<Rightarrow> bool" where
  "isolated w \<longleftrightarrow>
     (\<forall>j r. job_copy w j r \<longrightarrow> at_risk r \<longrightarrow>
        fence_closed w \<and> \<not> exposed j (uw_events w) \<and>
        (\<forall>k q. job_copy w k q \<longrightarrow> (terminal q \<longleftrightarrow> k \<noteq> j)))"

definition journal_ok :: "update_world \<Rightarrow> bool" where
  "journal_ok w \<longleftrightarrow>
     dr_writing (uw_fence w) Control = None \<and> copies_ok w \<and> single_job w \<and> ordered_job w \<and> isolated w \<and> history_safe (uw_events w)"

end
