(* ===== verification/Update_Journal.thy ===== *)
theory Update_Journal
  imports Update_Host
begin

text \<open>
  The invariant of the host under everything the file system does (renames, synchronisation, failed
  and interrupted writes, loss of power), and what executor and control process rely on.
\<close>

subsection \<open>Files\<close>

lemma copies_okD:
  assumes "journal_ok w" "job_copy w j r"
  shows "UUID j" "jv_jobId (jr_view r) = j" "marks_ok r" "began_ok j (uw_events w) r" "done_ok j (uw_events w) r"
  using assms by (auto simp: journal_ok_def copies_ok_def)

lemma isolatedD:
  assumes "journal_ok w" "job_copy w j r" "at_risk r"
  shows "fence_closed w" "\<not> exposed j (uw_events w)" "\<And>k q. job_copy w k q \<Longrightarrow> terminal q \<longleftrightarrow> k \<noteq> j"
  using assms unfolding journal_ok_def isolated_def by blast+

lemma orderedD:
  assumes "journal_ok w"
  shows "kept (uw_jobs w) j = Some a \<Longrightarrow> \<exists>b. seen (uw_jobs w) j = Some b \<and> stage_le (stage a) (stage b)"
    and "dr_writing (uw_jobs w) e = Some (j, c) \<Longrightarrow> seen (uw_jobs w) j = Some b \<Longrightarrow> stage_le (stage b) (stage c)"
    and "dr_writing (uw_jobs w) Executor = Some (j, c) \<Longrightarrow> seen (uw_jobs w) j \<noteq> None \<and> not_being_accepted w j"
  using assms unfolding journal_ok_def ordered_job_def by blast+

lemma one_unfinishedD:
  "one_unfinished d \<Longrightarrow> d j = Some r \<Longrightarrow> d k = Some q \<Longrightarrow> \<not> terminal r \<Longrightarrow> \<not> terminal q \<Longrightarrow> j = k"
  unfolding one_unfinished_def by blast

lemma singleD:
  assumes "journal_ok w"
  shows "one_unfinished (seen (uw_jobs w))" "one_unfinished (kept (uw_jobs w))"
    and "dr_writing (uw_jobs w) e = Some (j, r) \<Longrightarrow> \<not> terminal r \<Longrightarrow> seen (uw_jobs w) k = Some q \<Longrightarrow>
      \<not> terminal q \<Longrightarrow> k = j"
  using assms unfolding journal_ok_def single_job_def by blast+

text \<open>Nothing is lost as long as the copies only become fewer.\<close>

lemma journal_shrinks:
  assumes "journal_ok w" "uw_events w' = uw_events w" "fence_closed w \<Longrightarrow> fence_closed w'"
    and "\<And>j r. job_copy w' j r \<Longrightarrow> job_copy w j r" "single_job w'" "ordered_job w'"
    and "dr_writing (uw_fence w') Control = None"
  shows "journal_ok w'"
proof -
  have "copies_ok w'" using assms(1,2,4) unfolding journal_ok_def copies_ok_def by metis
  moreover have "isolated w'"
    unfolding isolated_def
  proof (intro allI impI)
    fix j r
    assume "job_copy w' j r" "at_risk r"
    with assms(4) have "job_copy w j r" by blast
    from isolatedD [OF assms(1) this \<open>at_risk r\<close>] assms(2-4)
    show "fence_closed w' \<and> \<not> exposed j (uw_events w') \<and> (\<forall>k q. job_copy w' k q \<longrightarrow> (terminal q \<longleftrightarrow> k \<noteq> j))"
      by metis
  qed
  ultimately show ?thesis using assms(1,2,5-7) unfolding journal_ok_def by metis
qed

lemma fence_closed_files:
  "fence_closed w \<Longrightarrow> fence_closed (w\<lparr>uw_fence := rename_file e (uw_fence w)\<rparr>)"
  "fence_closed w \<Longrightarrow> fence_closed (w\<lparr>uw_fence := syncDirectory (uw_fence w)\<rparr>)"
  "fence_closed w \<Longrightarrow> fence_closed (w\<lparr>uw_fence := end_write e (uw_fence w)\<rparr>)"
  "fence_closed w \<Longrightarrow> fence_closed (w\<lparr>uw_fence := complete_write e (uw_fence w)\<rparr>)"
  "fence_closed w \<Longrightarrow> fence_closed (w\<lparr>uw_fence := lose_power (uw_fence w)\<rparr>)"
  by (auto simp: fence_closed_def seen_rename dest: may_hold_later split: option.splits prod.splits if_splits)

lemma fence_closed_other [simp]:
  "fence_closed (w\<lparr>uw_jobs := d\<rparr>) = fence_closed w"
  "fence_closed (w\<lparr>uw_events := es\<rparr>) = fence_closed w"
  "fence_closed (w\<lparr>uw_plans := ps\<rparr>) = fence_closed w"
  "fence_closed (w\<lparr>uw_now := t\<rparr>) = fence_closed w"
  by (simp_all add: fence_closed_def)

lemma journal_ok_cong:
  assumes "journal_ok w" "uw_jobs w' = uw_jobs w" "uw_events w' = uw_events w" "fence_closed w \<Longrightarrow> fence_closed w'"
    and "dr_writing (uw_fence w') Control = None"
  shows "journal_ok w'"
proof (rule journal_shrinks [OF assms(1,3,4)])
  show "single_job w'" "ordered_job w'"
    using assms(1,2) by (simp_all add: journal_ok_def single_job_def ordered_job_def not_being_accepted_def)
qed (use assms(2,5) in simp_all)

lemma fence_writer: "journal_ok w \<Longrightarrow> dr_writing (uw_fence w) Control = None"
  by (simp add: journal_ok_def)

lemma journal_fence:
  "journal_ok w \<Longrightarrow> journal_ok (w\<lparr>uw_fence := rename_file e (uw_fence w)\<rparr>)"
  "journal_ok w \<Longrightarrow> journal_ok (w\<lparr>uw_fence := syncDirectory (uw_fence w)\<rparr>)"
  "journal_ok w \<Longrightarrow> journal_ok (w\<lparr>uw_fence := end_write e (uw_fence w)\<rparr>)"
  "journal_ok w \<Longrightarrow> journal_ok (w\<lparr>uw_fence := complete_write e (uw_fence w)\<rparr>)"
  "journal_ok w \<Longrightarrow> journal_ok (w\<lparr>uw_fence := lose_power (uw_fence w)\<rparr>)"
  "journal_ok w \<Longrightarrow> journal_ok (w\<lparr>uw_plans := ps, uw_now := t\<rparr>)"
  by - (frule fence_writer, erule journal_ok_cong; simp add: fence_closed_files)+

lemma seen_after_rename:
  assumes "seen (rename_file e d) k = Some x"
  shows "seen d k = Some x \<or> dr_writing d e = Some (k, x)"
  using assms by (auto simp: seen_rename split: option.splits if_splits)

text \<open>Two unfinished records are never written at the same time.\<close>

lemma writing_single:
  assumes w: "journal_ok w" and e: "dr_writing (uw_jobs w) e = Some (j, r)" "\<not> terminal r"
    and f: "dr_writing (uw_jobs w) f = Some (k, q)" "\<not> terminal q"
  shows "j = k"
proof (rule ccontr)
  assume "j \<noteq> k"
  then have "e \<noteq> f" using e(1) f(1) by auto
  have *: False if x: "dr_writing (uw_jobs w) Executor = Some (i, a)" "\<not> terminal a"
    and y: "dr_writing (uw_jobs w) Control = Some (l, b)" "\<not> terminal b" "i \<noteq> l" for i l a b
  proof -
    obtain c where c: "seen (uw_jobs w) i = Some c" using orderedD(3) [OF w x(1)] by auto
    have "\<not> terminal c" using stage_terminal [OF orderedD(2) [OF w x(1) c]] x(2) by blast
    then show False using singleD(3) [OF w y(1,2) c] y(3) by blast
  qed
  show False
    using \<open>e \<noteq> f\<close> * [of j r k q] * [of k q j r] e f \<open>j \<noteq> k\<close> by (cases e; cases f) auto
qed

lemma journal_rename:
  assumes "journal_ok w"
  shows "journal_ok (w\<lparr>uw_jobs := rename_file e (uw_jobs w)\<rparr>)"
proof (cases "dr_writing (uw_jobs w) e")
  case None
  then show ?thesis using assms by (simp add: rename_file_def)
next
  case (Some p)
  obtain i x where p: "p = (i, x)" by (cases p)
  let ?d = "rename_file e (uw_jobs w)"
  have s: "seen ?d = (seen (uw_jobs w))(i \<mapsto> x)" by (simp add: seen_rename Some p)
  have W: "dr_writing (uw_jobs w) e = Some (i, x)" using Some p by simp
  have "one_unfinished (seen ?d)"
    using singleD(3) [OF assms W] singleD(1) [OF assms] unfolding s one_unfinished_def by auto
  moreover have "k = j" if "dr_writing (uw_jobs w) f = Some (j, r)" "\<not> terminal r"
    "seen ?d k = Some q" "\<not> terminal q" for f j r k q
    using that singleD(3) [OF assms that(1,2)] writing_single [OF assms that(1,2) W] unfolding s
    by (auto split: if_splits)
  ultimately have "single_job (w\<lparr>uw_jobs := ?d\<rparr>)"
    using singleD(2) [OF assms] unfolding single_job_def by simp
  moreover have "ordered_job (w\<lparr>uw_jobs := ?d\<rparr>)"
    unfolding ordered_job_def not_being_accepted_def
  proof (intro conjI allI impI)
    fix j a
    assume "kept (uw_jobs (w\<lparr>uw_jobs := ?d\<rparr>)) j = Some a"
    then obtain b where b: "seen (uw_jobs w) j = Some b" "stage_le (stage a) (stage b)"
      using orderedD(1) [OF assms] by auto
    show "\<exists>b. seen (uw_jobs (w\<lparr>uw_jobs := ?d\<rparr>)) j = Some b \<and> stage_le (stage a) (stage b)"
    proof (cases "j = i")
      case True
      then show ?thesis using b orderedD(2) [OF assms W] by (auto simp: s intro: rtranclp_trans)
    qed (use b in \<open>simp add: s\<close>)
  next
    fix f j b c
    assume "dr_writing (uw_jobs (w\<lparr>uw_jobs := ?d\<rparr>)) f = Some (j, c)" "seen (uw_jobs (w\<lparr>uw_jobs := ?d\<rparr>)) j = Some b"
    then have f: "dr_writing (uw_jobs w) f = Some (j, c)" and j: "seen ?d j = Some b" by simp_all
    show "stage_le (stage b) (stage c)"
    proof (cases "j = i")
      case True
      then have "f = e"
        using f W orderedD(3) [OF assms] unfolding not_being_accepted_def by (cases f; cases e) auto
      then show ?thesis using f W j True by (simp add: s)
    qed (use orderedD(2) [OF assms f] j in \<open>simp add: s\<close>)
  next
    fix j c
    assume "dr_writing (uw_jobs (w\<lparr>uw_jobs := ?d\<rparr>)) Executor = Some (j, c)"
    then have "seen (uw_jobs w) j \<noteq> None \<and> not_being_accepted w j" using orderedD(3) [OF assms] by simp
    then show "seen (uw_jobs (w\<lparr>uw_jobs := ?d\<rparr>)) j \<noteq> None"
      "\<And>r. dr_writing (uw_jobs (w\<lparr>uw_jobs := ?d\<rparr>)) Control \<noteq> Some (j, r)"
      by (auto simp: s not_being_accepted_def)
  qed
  ultimately show ?thesis
    using fence_writer [OF assms] by (intro journal_shrinks [OF assms]) (auto dest: may_hold_later)
qed

lemma journal_sync:
  assumes "journal_ok w"
  shows "journal_ok (w\<lparr>uw_jobs := syncDirectory (uw_jobs w)\<rparr>)"
  using assms
  by (intro journal_shrinks [OF assms])
    (auto simp: journal_ok_def single_job_def ordered_job_def not_being_accepted_def dest: may_hold_later)

lemma journal_end_write:
  assumes "journal_ok w"
  shows "journal_ok (w\<lparr>uw_jobs := end_write e (uw_jobs w)\<rparr>)"
  using assms
  by (intro journal_shrinks [OF assms])
    (auto simp: journal_ok_def single_job_def ordered_job_def not_being_accepted_def dest: may_hold_later split: if_splits)

lemma journal_complete:
  assumes "journal_ok w"
  shows "journal_ok (w\<lparr>uw_jobs := complete_write e (uw_jobs w)\<rparr>)"
  using journal_end_write [OF journal_sync [OF journal_rename [OF assms, of e]], of e]
  by (simp add: complete_write_def)

lemma journal_lose_power:
  assumes "journal_ok w"
  shows "journal_ok (w\<lparr>uw_jobs := lose_power (uw_jobs w)\<rparr>)"
  using assms
  by (intro journal_shrinks [OF assms])
    (auto simp: journal_ok_def single_job_def ordered_job_def not_being_accepted_def dest: may_hold_later)

lemmas journal_files = journal_fence journal_rename journal_sync journal_end_write journal_complete journal_lose_power

lemma journal_background: "background w w' \<Longrightarrow> journal_ok w \<Longrightarrow> journal_ok w'"
  by (cases rule: background.cases) (auto intro: journal_files)

lemma journal_stop: "journal_ok w \<Longrightarrow> journal_ok (stop_writer e w)"
  using journal_fence(3) [OF journal_end_write, of w e e] by (simp add: stop_writer_def)

lemma journal_power_loss: "journal_ok w \<Longrightarrow> journal_ok (power_loss w)"
  using journal_fence(5) [OF journal_lose_power, of w] by (simp add: power_loss_def)

subsection \<open>Roles\<close>

definition unfinished :: "update_world \<Rightarrow> string \<Rightarrow> bool" where
  "unfinished w j \<longleftrightarrow> (\<exists>r. seen (uw_jobs w) j = Some r \<and> \<not> terminal r)"

definition all_terminal :: "update_world \<Rightarrow> bool" where
  "all_terminal w \<longleftrightarrow> (\<forall>j. \<not> unfinished w j)"

definition guarded :: "update_world \<Rightarrow> string \<Rightarrow> bool" where
  "guarded w j \<longleftrightarrow> seen (uw_jobs w) j \<noteq> None \<and> not_being_accepted w j"

text \<open>What every step does to the visible records: none disappears, and each follows the protocol.\<close>

definition stages_advance :: "update_world \<Rightarrow> update_world \<Rightarrow> bool" where
  "stages_advance w w' \<longleftrightarrow>
     (\<forall>j r. seen (uw_jobs w) j = Some r \<longrightarrow>
        (\<exists>q. seen (uw_jobs w') j = Some q \<and> stage_le (stage r) (stage q)))"

lemma stages_advance_same: "seen (uw_jobs w') = seen (uw_jobs w) \<Longrightarrow> stages_advance w w'"
  by (simp add: stages_advance_def)

lemma stages_advance_trans: "stages_advance w v \<Longrightarrow> stages_advance v u \<Longrightarrow> stages_advance w u"
  unfolding stages_advance_def by (meson rtranclp_trans)

text \<open>What the executor needs of the others: its writes, the history, the fence and its job are left alone.\<close>

definition leaves_job :: "update_world \<Rightarrow> update_world \<Rightarrow> string \<Rightarrow> bool" where
  "leaves_job w w' j \<longleftrightarrow>
     guarded w' j \<and> (\<forall>r. job_copy w' j r \<longrightarrow> job_copy w j r) \<and>
     (seen (uw_jobs w') j = seen (uw_jobs w) j \<or>
      (\<exists>x. dr_writing (uw_jobs w) Executor = Some (j, x) \<and> seen (uw_jobs w') j = Some x)) \<and>
     (unfinished w' j \<longrightarrow> (\<forall>k r. job_copy w' k r \<longrightarrow> job_copy w k r))"

definition executor_relies :: "update_world \<Rightarrow> update_world \<Rightarrow> bool" where
  "executor_relies w w' \<longleftrightarrow>
     (journal_ok w \<longrightarrow>
        journal_ok w' \<and> dr_writing (uw_jobs w') Executor = dr_writing (uw_jobs w) Executor \<and>
        dr_writing (uw_fence w') Executor = dr_writing (uw_fence w) Executor \<and>
        uw_events w' = uw_events w \<and> (fence_closed w \<longrightarrow> fence_closed w') \<and> stages_advance w w' \<and>
        (\<forall>j. guarded w j \<longrightarrow> leaves_job w w' j))"

text \<open>What the control process needs: while it does not write, no job becomes unfinished.\<close>

definition control_relies :: "update_world \<Rightarrow> update_world \<Rightarrow> bool" where
  "control_relies w w' \<longleftrightarrow>
     (journal_ok w \<longrightarrow>
        journal_ok w' \<and> dr_writing (uw_jobs w') Control = dr_writing (uw_jobs w) Control \<and> stages_advance w w' \<and>
        (dr_writing (uw_jobs w) Control = None \<longrightarrow> all_terminal w \<longrightarrow> all_terminal w'))"

definition executor_idle :: "update_world \<Rightarrow> bool" where
  "executor_idle w \<longleftrightarrow>
     journal_ok w \<and> dr_writing (uw_jobs w) Executor = None \<and> dr_writing (uw_fence w) Executor = None"

definition control_idle :: "update_world \<Rightarrow> bool" where
  "control_idle w \<longleftrightarrow> journal_ok w \<and> dr_writing (uw_jobs w) Control = None"

lemma leaves_job_refl: "guarded w j \<Longrightarrow> leaves_job w w j"
  by (simp add: leaves_job_def)

lemma leaves_job_trans:
  assumes w: "journal_ok w" "journal_ok v" and 1: "leaves_job w v j" and 2: "leaves_job v u j"
    and e: "dr_writing (uw_jobs v) Executor = dr_writing (uw_jobs w) Executor"
  shows "leaves_job w u j"
proof -
  have "unfinished v j" if u: "unfinished u j"
  proof -
    obtain b where b: "seen (uw_jobs v) j = Some b" using 1 by (auto simp: leaves_job_def guarded_def)
    have "\<not> terminal b"
    proof
      assume t: "terminal b"
      from u obtain r where r: "seen (uw_jobs u) j = Some r" "\<not> terminal r" by (auto simp: unfinished_def)
      with 2 b t obtain x where "dr_writing (uw_jobs v) Executor = Some (j, x)" "x = r"
        by (auto simp: leaves_job_def)
      then have "stage_le (stage b) (stage r)" using orderedD(2) [OF w(2) _ b] by blast
      then show False using stage_terminal t r(2) by blast
    qed
    with b show ?thesis by (auto simp: unfinished_def)
  qed
  then show ?thesis using 1 2 e unfolding leaves_job_def by metis
qed

lemma executor_relies_refl: "executor_relies w w"
  by (simp add: executor_relies_def leaves_job_refl stages_advance_same)

lemma executor_relies_trans:
  assumes 1: "executor_relies w v" and 2: "executor_relies v u"
  shows "executor_relies w u"
proof (cases "journal_ok w")
  case True
  note a = 1 [unfolded executor_relies_def, rule_format, OF True]
  note b = 2 [unfolded executor_relies_def, rule_format, OF conjunct1 [OF a]]
  have "leaves_job w u j" if g: "guarded w j" for j
  proof -
    have l: "leaves_job w v j" using a g by blast
    then have "guarded v j" by (simp add: leaves_job_def)
    then have "leaves_job v u j" using b by blast
    then show ?thesis using leaves_job_trans [OF True _ l] a by blast
  qed
  with a b show ?thesis unfolding executor_relies_def using stages_advance_trans [of w v u] by simp
qed (simp add: executor_relies_def)

lemma control_relies_trans:
  "control_relies w v \<Longrightarrow> control_relies v u \<Longrightarrow> control_relies w u"
  unfolding control_relies_def using stages_advance_trans [of w v u] by auto

interpretation executor: process_role journal_ok control_relies executor_relies fair_answer executor_idle
  by unfold_locales
    (rule executor_relies_refl, erule (1) executor_relies_trans, auto simp: executor_idle_def executor_relies_def)

interpretation control: process_role journal_ok executor_relies control_relies fair_answer control_idle
  by unfold_locales
    (simp add: control_relies_def stages_advance_same, erule (1) control_relies_trans, auto simp: control_idle_def control_relies_def)

end
