(* ===== verification/Update_Safety.thy ===== *)
theory Update_Safety
  imports Update_Journal
begin

text \<open>
  The executor keeps the invariant of the host: every wait of the worker and of the host recovery
  command leaves a journal from which a restart can go on safely. Rules for the single steps, then
  for the handlers and the whole worker.
\<close>

subsection \<open>Records\<close>

lemma job_updates [simp]:
  "jr_operations (stamped t r) = jr_operations r" "jr_decision (stamped t r) = jr_decision r"
  "jr_snapshot (stamped t r) = jr_snapshot r" "jv_status (jr_view (stamped t r)) = jv_status (jr_view r)"
  "jv_jobId (jr_view (stamped t r)) = jv_jobId (jr_view r)"
  "jr_operations (set_phase p r) = jr_operations r" "jr_decision (set_phase p r) = jr_decision r"
  "jr_snapshot (set_phase p r) = jr_snapshot r" "jv_status (jr_view (set_phase p r)) = jv_status (jr_view r)"
  "jv_jobId (jr_view (set_phase p r)) = jv_jobId (jr_view r)"
  "jr_decision (set_operation k m r) = jr_decision r" "jr_snapshot (set_operation k m r) = jr_snapshot r"
  "jr_view (set_operation k m r) = jr_view r"
  "jr_operations (set_decision d r) = jr_operations r" "jr_decision (set_decision d r) = Some d"
  "jr_snapshot (set_decision d r) = jr_snapshot r" "jr_view (set_decision d r) = jr_view r"
  "jr_operations (set_status s r) = jr_operations r" "jr_decision (set_status s r) = jr_decision r"
  "jr_snapshot (set_status s r) = jr_snapshot r" "jv_status (jr_view (set_status s r)) = s"
  "jv_jobId (jr_view (set_status s r)) = jv_jobId (jr_view r)"
  "jr_operations (finished_record s c txt t r) = jr_operations r"
  "jr_decision (finished_record s c txt t r) = jr_decision r"
  "jr_snapshot (finished_record s c txt t r) = jr_snapshot r"
  "jv_status (jr_view (finished_record s c txt t r)) = s"
  "jv_jobId (jr_view (finished_record s c txt t r)) = jv_jobId (jr_view r)"
  by (simp_all add: stamped_def set_phase_def set_operation_def set_decision_def set_status_def finished_record_def)

lemma op_of_same: "jr_operations r = jr_operations q \<Longrightarrow> op_of r k = op_of q k"
  by (simp add: op_of_def)

lemma op_of_set [simp]: "op_of (set_operation k m r) l = (if l = k then Some m else op_of r l)"
  by (simp add: op_of_def set_operation_def update_conv')

lemma op_of_updates [simp]:
  "op_of (set_phase p r) k = op_of r k" "op_of (set_decision d r) k = op_of r k"
  "op_of (set_status s r) k = op_of r k" "op_of (finished_record s c txt t r) k = op_of r k"
  by (simp_all add: op_of_def)

lemma switched_updates [simp]:
  "switched (set_phase p r) = switched r" "switched (set_decision d r) = switched r"
  "switched (set_status s r) = switched r" "switched (finished_record s c txt t r) = switched r"
  "switched (set_operation k m r) \<longleftrightarrow> k = ''switch'' \<or> switched r"
  by (simp_all add: switched_def)

text \<open>Two records that differ only in what does not matter for recovery.\<close>

definition same_state :: "job_record \<Rightarrow> job_record \<Rightarrow> bool" where
  "same_state r q \<longleftrightarrow>
     jr_operations r = jr_operations q \<and> jr_decision r = jr_decision q \<and>
     jv_status (jr_view r) = jv_status (jr_view q)"

lemma same_stateD:
  assumes "same_state r q"
  shows "op_of r k = op_of q k" "switched r = switched q" "fenced r = fenced q" "terminal r = terminal q"
    "at_risk r = at_risk q" "stage r = stage q" "jr_decision r = jr_decision q"
    "jv_status (jr_view r) = jv_status (jr_view q)"
proof -
  have o: "op_of r = op_of q" using assms by (simp add: same_state_def op_of_def fun_eq_iff)
  have d: "jr_decision r = jr_decision q" "jv_status (jr_view r) = jv_status (jr_view q)"
    using assms by (simp_all add: same_state_def)
  show "op_of r k = op_of q k" "switched r = switched q" "fenced r = fenced q" "terminal r = terminal q"
    "at_risk r = at_risk q" "stage r = stage q" "jr_decision r = jr_decision q"
    "jv_status (jr_view r) = jv_status (jr_view q)"
    unfolding switched_def fenced_def terminal_def at_risk_def stage_def o d by (rule refl)+
qed

lemma same_state_refl [simp]: "same_state r r"
  by (simp add: same_state_def)

lemma same_state_updates [simp]:
  "same_state (stamped t r) q = same_state r q" "same_state r (stamped t q) = same_state r q"
  "same_state (set_phase p r) q = same_state r q" "same_state r (set_phase p q) = same_state r q"
  by (simp_all add: same_state_def)

lemma stamped_simps [simp]:
  "op_of (stamped t r) k = op_of r k" "switched (stamped t r) = switched r" "fenced (stamped t r) = fenced r"
  "terminal (stamped t r) = terminal r" "at_risk (stamped t r) = at_risk r" "stage (stamped t r) = stage r"
  "marks_ok (stamped t r) = marks_ok r"
proof -
  have o: "op_of (stamped t r) = op_of r" by (simp add: op_of_def fun_eq_iff)
  show "op_of (stamped t r) k = op_of r k" "switched (stamped t r) = switched r" "fenced (stamped t r) = fenced r"
    "terminal (stamped t r) = terminal r" "at_risk (stamped t r) = at_risk r" "stage (stamped t r) = stage r"
    "marks_ok (stamped t r) = marks_ok r"
    unfolding switched_def fenced_def terminal_def at_risk_def stage_def marks_ok_def o job_updates by (rule refl)+
qed

lemma done_stamped [simp]: "done_ok j es (stamped t r) = done_ok j es r"
  by (simp add: done_ok_def)

subsection \<open>Holding a job\<close>

text \<open>
  The executor works on job \<open>j\<close> with the record \<open>m\<close> in memory and writes nothing at the moment; if
  \<open>b\<close>, the journal has been synchronised since, so that a restart finds the same record.
\<close>

definition carries :: "bool \<Rightarrow> string \<Rightarrow> job_record \<Rightarrow> update_world \<Rightarrow> bool" where
  "carries b j m w \<longleftrightarrow>
     journal_ok w \<and> guarded w j \<and> dr_writing (uw_jobs w) Executor = None \<and>
     marks_ok m \<and> jv_jobId (jr_view m) = j \<and> (\<exists>r. seen (uw_jobs w) j = Some r \<and> same_state m r) \<and>
     (b \<longrightarrow> (\<forall>r. job_copy w j r \<longrightarrow> same_state m r) \<and>
        (\<not> terminal m \<longrightarrow> (\<forall>k r. k \<noteq> j \<longrightarrow> job_copy w k r \<longrightarrow> terminal r)))"

definition holds :: "bool \<Rightarrow> string \<Rightarrow> job_record \<Rightarrow> update_world \<Rightarrow> bool" where
  "holds b j m w \<longleftrightarrow> carries b j m w \<and> dr_writing (uw_fence w) Executor = None"

lemma holdsD:
  assumes "holds b j m w"
  shows "journal_ok w" "guarded w j" "dr_writing (uw_jobs w) Executor = None"
    "dr_writing (uw_fence w) Executor = None" "marks_ok m" "jv_jobId (jr_view m) = j"
    "\<exists>r. seen (uw_jobs w) j = Some r \<and> same_state m r"
  using assms unfolding holds_def carries_def by blast+

lemma holds_syncedD:
  assumes "holds True j m w"
  shows "\<And>r. job_copy w j r \<Longrightarrow> same_state m r"
    and "\<And>k r. \<not> terminal m \<Longrightarrow> k \<noteq> j \<Longrightarrow> job_copy w k r \<Longrightarrow> terminal r"
  using assms unfolding holds_def carries_def by blast+

lemma holds_weaken: "holds b j m w \<Longrightarrow> holds False j m w"
  by (simp add: holds_def carries_def)

lemma holds_copy:
  assumes "holds b j m w"
  obtains r where "seen (uw_jobs w) j = Some r" "same_state m r" "job_copy w j r"
  using holdsD(7) [OF assms] by (auto simp: may_hold_def)

lemma holds_began:
  assumes "holds b j m w"
  shows "UUID j" "began_ok j (uw_events w) m" "done_ok j (uw_events w) m"
proof -
  obtain r where r: "same_state m r" "job_copy w j r" using holds_copy [OF assms] by blast
  show "UUID j" using copies_okD(1) [OF holdsD(1) [OF assms] r(2)] .
  show "began_ok j (uw_events w) m"
    using copies_okD(4) [OF holdsD(1) [OF assms] r(2)] same_stateD(1,2) [OF r(1)] by (simp add: began_ok_def)
  show "done_ok j (uw_events w) m"
    using copies_okD(5) [OF holdsD(1) [OF assms] r(2)] same_stateD(1,7) [OF r(1)] by (simp add: done_ok_def)
qed

text \<open>In a risky stage the fence is closed, the backup is current and all other jobs are over.\<close>

lemma holds_risk:
  assumes "holds b j m w" "at_risk m"
  shows "fence_closed w" "\<not> exposed j (uw_events w)" "\<And>k q. job_copy w k q \<Longrightarrow> terminal q \<longleftrightarrow> k \<noteq> j"
proof -
  obtain r where r: "same_state m r" "job_copy w j r" using holds_copy [OF assms(1)] by blast
  have "at_risk r" using same_stateD(5) [OF r(1)] assms(2) by simp
  note i = isolatedD [OF holdsD(1) [OF assms(1)] r(2) this]
  show "fence_closed w" "\<not> exposed j (uw_events w)" by (fact i(1), fact i(2))
  show "terminal q \<longleftrightarrow> k \<noteq> j" if "job_copy w k q" for k q using i(3) [OF that] .
qed

text \<open>No copy of any job is at risk when an unfinished job that is not is held.\<close>

definition no_risk :: "update_world \<Rightarrow> bool" where
  "no_risk w \<longleftrightarrow> (\<forall>k q. job_copy w k q \<longrightarrow> \<not> at_risk q)"

lemma no_risk_undecided:
  assumes "holds b j m w" "\<not> terminal m" "\<not> switched m" "jr_decision m = None"
  shows "no_risk w"
  unfolding no_risk_def
proof (intro allI impI notI)
  fix k q
  assume q: "job_copy w k q" "at_risk q"
  note ok = holdsD(1) [OF assms(1)]
  obtain r where r: "seen (uw_jobs w) j = Some r" "same_state m r" "job_copy w j r" using holds_copy [OF assms(1)] .
  have "\<not> terminal r" using same_stateD(4) [OF r(2)] assms(2) by simp
  then have "k = j" using isolatedD(3) [OF ok q r(3)] by simp
  have "stage m \<in> {Accepted, Underway}"
    using assms(2-4) holdsD(5) [OF assms(1)] by (auto simp: stage_def marks_ok_def split: option.splits)
  then have s: "stage r \<in> {Accepted, Underway}" using same_stateD(6) [OF r(2)] by simp
  have "q = r \<or> kept (uw_jobs w) j = Some q"
    using q(1) \<open>k = j\<close> r(1) holdsD(2,3) [OF assms(1)]
    by (auto simp: may_hold_def guarded_def not_being_accepted_def) (metis writer.exhaust option.discI)
  then have "stage q \<in> {Accepted, Underway}"
    using s orderedD(1) [OF ok, of j q] r(1) stage_le_safe [of "stage q" "stage r"] by auto
  then show False using at_risk_stage [OF copies_okD(3) [OF ok q(1)]] q(2) by (auto simp: risky_stage_def)
qed

lemma no_risk_decided:
  assumes "holds True j m w" "jr_decision m \<noteq> None" "\<not> terminal m"
  shows "no_risk w"
  unfolding no_risk_def
proof (intro allI impI notI)
  fix k q
  assume q: "job_copy w k q" "at_risk q"
  have m: "marks_ok q" using copies_okD(3) [OF holdsD(1) [OF assms(1)] q(1)] .
  show False
  proof (cases "k = j")
    case True
    then show False using holds_syncedD(1) [OF assms(1)] q assms(2) same_stateD(7) by (metis at_risk_def)
  qed (use holds_syncedD(2) [OF assms(1,3)] q at_risk_not_terminal [OF m] in blast)
qed

lemma carries_env:
  assumes h: "carries b j m w" and e: "executor_relies w w'"
  shows "carries b j m w'"
proof -
  have ok: "journal_ok w" "guarded w j" "dr_writing (uw_jobs w) Executor = None" using h by (simp_all add: carries_def)
  note e' = e [unfolded executor_relies_def, rule_format, OF ok(1)]
  have l: "leaves_job w w' j" using e' ok(2) by blast
  have s: "seen (uw_jobs w') j = seen (uw_jobs w) j" using l ok(3) by (simp add: leaves_job_def)
  obtain r where r: "seen (uw_jobs w) j = Some r" "same_state m r" using h by (auto simp: carries_def)
  have "\<not> terminal m \<Longrightarrow> unfinished w' j" using s r same_stateD(4) [OF r(2)] by (auto simp: unfinished_def)
  then show "carries b j m w'" using h e' l s unfolding carries_def leaves_job_def by metis
qed

lemma executor_reliesD:
  assumes "executor_relies w w'" "journal_ok w"
  shows "journal_ok w'" "dr_writing (uw_fence w') Executor = dr_writing (uw_fence w) Executor"
    "uw_events w' = uw_events w" "fence_closed w \<Longrightarrow> fence_closed w'"
  using assms unfolding executor_relies_def by blast+

lemma holds_env:
  assumes h: "holds b j m w" and e: "executor_relies w w'"
  shows "holds b j m w'" "uw_events w' = uw_events w" "fence_closed w \<Longrightarrow> fence_closed w'"
proof -
  note e' = executor_reliesD [OF e holdsD(1) [OF h]]
  show "uw_events w' = uw_events w" "fence_closed w \<Longrightarrow> fence_closed w'" by (fact e'(3), fact e'(4))
  show "holds b j m w'" using h e'(2) carries_env [OF _ e] by (simp add: holds_def)
qed

lemma carries_later:
  "carries b j m w \<Longrightarrow> journal_ok w' \<Longrightarrow> uw_jobs w' = uw_jobs w \<Longrightarrow> carries b j m w'"
  by (simp add: carries_def guarded_def not_being_accepted_def)

subsection \<open>Writing the journal\<close>

abbreviation executes :: "update_world \<Rightarrow> worker_proc \<Rightarrow> update_world \<Rightarrow> bool" where
  "executes \<equiv> obeys journal_ok control_relies executor_relies fair_answer executor_idle"

text \<open>When the record \<open>r\<close> may be written over the held record \<open>m\<close>.\<close>

definition write_ok :: "bool \<Rightarrow> string \<Rightarrow> job_record \<Rightarrow> job_record \<Rightarrow> update_world \<Rightarrow> bool" where
  "write_ok b j m r w \<longleftrightarrow>
     marks_ok r \<and> jv_jobId (jr_view r) = j \<and> stage_le (stage m) (stage r) \<and> (switched m \<longrightarrow> switched r) \<and>
     (op_of m ''restore_data'' \<noteq> None \<longrightarrow> op_of r ''restore_data'' \<noteq> None) \<and> done_ok j (uw_events w) r \<and>
     (at_risk r \<longrightarrow> \<not> at_risk m \<longrightarrow> b \<and> fence_closed w \<and> \<not> exposed j (uw_events w)) \<and>
     (terminal r \<longrightarrow> no_risk w)"

lemma begin_save:
  assumes h: "holds b j m w" "\<not> terminal m" and r: "write_ok b j m r w"
    and w': "w' = w\<lparr>uw_jobs := begin_write Executor j r (uw_jobs w)\<rparr>"
  shows "journal_ok w'" "control_relies w w'"
proof -
  note ok = holdsD(1) [OF h(1)]
  obtain c where c: "seen (uw_jobs w) j = Some c" "same_state m c" "job_copy w j c" using holds_copy [OF h(1)] .
  have ct: "\<not> terminal c" using same_stateD(4) [OF c(2)] h(2) by simp
  have copy: "job_copy w k q \<or> k = j \<and> q = r" if "job_copy w' k q" for k q
    using may_hold_begin [of Executor j r "uw_jobs w" k q] that by (simp add: w')
  have began: "began_ok j (uw_events w) r"
    using holds_began(2) [OF h(1)] r by (auto simp: began_ok_def write_ok_def)
  have "copies_ok w'"
    unfolding copies_ok_def
  proof (intro allI impI)
    fix k q
    assume "job_copy w' k q"
    from copy [OF this] show "UUID k \<and> jv_jobId (jr_view q) = k \<and> marks_ok q \<and> began_ok k (uw_events w') q \<and>
        done_ok k (uw_events w') q"
      using copies_okD [OF ok, of k q] holds_began(1) [OF h(1)] r began by (auto simp: w' write_ok_def)
  qed
  moreover have "single_job w'"
    using singleD [OF ok] one_unfinishedD [OF singleD(1) [OF ok] c(1) _ ct]
    unfolding single_job_def by (auto simp: w')
  moreover have "ordered_job w'"
    using orderedD [OF ok] r c(1) same_stateD(6) [OF c(2)] holdsD(2) [OF h(1)]
    unfolding ordered_job_def by (auto simp: w' not_being_accepted_def guarded_def write_ok_def)
  moreover have "isolated w'"
    unfolding isolated_def
  proof (intro allI impI)
    fix k q
    assume q: "job_copy w' k q" "at_risk q"
    have old: "fence_closed w \<and> \<not> exposed k (uw_events w) \<and> (\<forall>l x. job_copy w l x \<longrightarrow> (terminal x \<longleftrightarrow> l \<noteq> k)) \<and>
        k = j \<and> \<not> terminal r"
    proof (cases "job_copy w k q")
      case True
      then have "k = j" using isolatedD(3) [OF ok True q(2) c(3)] ct by simp
      moreover have "\<not> no_risk w" using True q(2) by (auto simp: no_risk_def)
      ultimately show ?thesis using isolatedD [OF ok True q(2)] r by (auto simp: write_ok_def)
    next
      case False
      then have k: "k = j" "q = r" using copy [OF q(1)] by auto
      have t: "\<not> terminal r" using at_risk_not_terminal [of r] q(2) k r by (simp add: write_ok_def)
      show ?thesis
      proof (cases "at_risk m")
        case True
        then show ?thesis using holds_risk [OF h(1) True] k t by auto
      next
        case False
        then have b: "b" "fence_closed w" "\<not> exposed j (uw_events w)" using r q(2) k by (auto simp: write_ok_def)
        have hb: "holds True j m w" using h(1) b(1) by simp
        have "terminal x \<longleftrightarrow> l \<noteq> j" if "job_copy w l x" for l x
          using holds_syncedD [OF hb] that h(2) same_stateD(4) [of m x] by (cases "l = j") auto
        then show ?thesis using b k t by blast
      qed
    qed
    then show "fence_closed w' \<and> \<not> exposed k (uw_events w') \<and> (\<forall>l x. job_copy w' l x \<longrightarrow> (terminal x \<longleftrightarrow> l \<noteq> k))"
      using copy by (auto simp: w')
  qed
  ultimately show "journal_ok w'" using ok by (simp add: journal_ok_def w')
  then show "control_relies w w'"
    by (simp add: control_relies_def w' all_terminal_def unfinished_def stages_advance_same)
qed

lemma complete_save:
  assumes ok: "journal_ok w" and wr: "dr_writing (uw_jobs w) Executor = Some (j, r)"
    and f: "dr_writing (uw_fence w) Executor = None"
    and w': "w' = w\<lparr>uw_jobs := complete_write Executor (uw_jobs w)\<rparr>"
  shows "journal_ok w'" "control_relies w w'" "holds True j r w'"
proof -
  show ok': "journal_ok w'" using journal_complete [OF ok] by (simp add: w')
  have o: "seen (uw_jobs w) j \<noteq> None" "not_being_accepted w j" using orderedD(3) [OF ok wr] by auto
  have s: "seen (uw_jobs w') = (seen (uw_jobs w))(j \<mapsto> r)" "kept (uw_jobs w') = (seen (uw_jobs w))(j \<mapsto> r)"
    by (simp_all add: w' seen_rename wr)
  have "terminal r" if "all_terminal w"
  proof -
    obtain c where c: "seen (uw_jobs w) j = Some c" using o by auto
    then have "terminal c" using that by (auto simp: all_terminal_def unfinished_def)
    then show ?thesis using stage_terminal [OF orderedD(2) [OF ok wr c]] by blast
  qed
  moreover have "stages_advance w w'"
    using orderedD(2) [OF ok wr] by (simp add: stages_advance_def s(1))
  ultimately show "control_relies w w'"
    using ok' by (auto simp: control_relies_def all_terminal_def unfinished_def s(1)) (simp_all add: w')
  have copy: "job_copy w j r" using wr by (auto simp: may_hold_def)
  have one: "q = r" if "job_copy w' j q" for q
    using that o(2) unfolding may_hold_def s
    by (auto simp: w' not_being_accepted_def split: if_splits) (metis writer.exhaust)
  have others: "terminal q" if k: "k \<noteq> j" "job_copy w' k q" "\<not> terminal r" for k q
  proof (rule ccontr)
    assume q: "\<not> terminal q"
    from k(2) have "seen (uw_jobs w) k = Some q \<or> (\<exists>e. dr_writing (uw_jobs w) e = Some (k, q))"
      unfolding may_hold_def s using k(1) by (auto simp: w' split: if_splits)
    then show False
      using singleD(3) [OF ok wr k(3) _ q] writing_single [OF ok wr k(3) _ q] k(1) by blast
  qed
  show "holds True j r w'"
    using ok' f copies_okD(2,3) [OF ok copy] one others o(2)
    unfolding holds_def carries_def guarded_def not_being_accepted_def by (auto simp: s) (simp_all add: w')
qed

text \<open>The rule for a write: what follows it runs with the new record held, or not at all.\<close>

lemma executes_save:
  assumes h: "holds b j m s" "\<not> terminal m" and r: "write_ok b j m r s" and s0: "control_relies s0 s"
    and k: "\<And>t u0 u. holds True j (stamped t r) u \<Longrightarrow> control_relies u0 u \<Longrightarrow> uw_events u = uw_events s \<Longrightarrow>
      (fence_closed s \<Longrightarrow> fence_closed u) \<Longrightarrow> executes u0 (k (stamped t r)) u"
  shows "executes s0 (save r k) s"
proof -
  let ?r = "stamped (uw_now s) r"
  define v where "v = s\<lparr>uw_jobs := begin_write Executor j ?r (uw_jobs s)\<rparr>"
  have "write_ok b j m ?r s" using r by (simp add: write_ok_def)
  note b = begin_save [OF h this v_def]
  have g: "control_relies s0 v" using s0 b(2) by (rule control_relies_trans)
  have id: "UUID j" "jv_jobId (jr_view r) = j" using holds_began(1) [OF h(1)] r by (auto simp: write_ok_def)
  have after: "executes v' (case a of
        Broke _ \<Rightarrow> Eff (\<lambda>w. (w\<lparr>uw_jobs := end_write Executor (uw_jobs w)\<rparr>, journal_failure))
      | _ \<Rightarrow> Eff (\<lambda>w. (w\<lparr>uw_jobs := complete_write Executor (uw_jobs w)\<rparr>, k ?r))) v'"
    if ok': "journal_ok v'" and e: "executor_relies v v'" for a v'
  proof -
    note e' = e [unfolded executor_relies_def, rule_format, OF b(1)]
    have wr: "dr_writing (uw_jobs v') Executor = Some (j, ?r)" using e' by (simp add: v_def)
    have f: "dr_writing (uw_fence v') Executor = None" using e' holdsD(4) [OF h(1)] by (simp add: v_def)
    have fail: "executes v' (Eff (\<lambda>w. (w\<lparr>uw_jobs := end_write Executor (uw_jobs w)\<rparr>, journal_failure))) v'"
      unfolding journal_failure_def
      using ok' journal_end_write [OF ok', of Executor] f
      by (intro obeys_Eff, simp, intro obeys_Finished)
        (auto simp: control_relies_def executor_idle_def all_terminal_def unfinished_def stages_advance_same)
    have go: "executes v' (Eff (\<lambda>w. (w\<lparr>uw_jobs := complete_write Executor (uw_jobs w)\<rparr>, k ?r))) v'"
    proof (rule obeys_Eff, simp)
      note c = complete_save [OF ok' wr f refl]
      show "executes v' (k ?r) (v'\<lparr>uw_jobs := complete_write Executor (uw_jobs v')\<rparr>)"
        using e' by (intro k [OF c(3,2)]) (simp_all add: v_def)
    qed
    show ?thesis using fail go by (cases a) simp_all
  qed
  have "executes s0 (Await SaveJob (\<lambda>a. case a of
        Broke _ \<Rightarrow> Eff (\<lambda>w. (w\<lparr>uw_jobs := end_write Executor (uw_jobs w)\<rparr>, journal_failure))
      | _ \<Rightarrow> Eff (\<lambda>w. (w\<lparr>uw_jobs := complete_write Executor (uw_jobs w)\<rparr>, k ?r)))) v"
    using b(1) g after by (rule obeys_Await)
  then show ?thesis
    unfolding save_def saveJob_def using id by (intro obeys_Eff) (simp add: v_def Let_def)
qed

subsection \<open>Fence and actions\<close>

lemma holds_events:
  assumes h: "holds b j m w" and e: "\<And>k r. job_copy w k r \<Longrightarrow> began_ok k (e # uw_events w) r"
    and f: "\<And>k r. job_copy w k r \<Longrightarrow> at_risk r \<Longrightarrow>
      fence_closed w' \<and> \<not> exposed k (e # uw_events w)"
    and hist: "history_safe (e # uw_events w)"
    and w': "uw_jobs w' = uw_jobs w" "uw_events w' = e # uw_events w" "dr_writing (uw_fence w') Control = None"
  shows "journal_ok w'" "control_relies w w'"
proof -
  note ok = holdsD(1) [OF h]
  have "copies_ok w'" using copies_okD [OF ok] e done_later by (simp add: copies_ok_def w')
  moreover have "isolated w'" using isolatedD(3) [OF ok] f by (simp add: isolated_def w')
  ultimately show "journal_ok w'"
    using ok hist w' by (simp add: journal_ok_def single_job_def ordered_job_def not_being_accepted_def)
  then show "control_relies w w'" using w' by (simp add: control_relies_def all_terminal_def unfinished_def stages_advance_same)
qed

text \<open>What may be begun: nothing is begun that the journal does not show.\<close>

definition may_begin :: "update_action \<Rightarrow> bool \<Rightarrow> string \<Rightarrow> job_record \<Rightarrow> update_world \<Rightarrow> bool" where
  "may_begin act b j m w \<longleftrightarrow>
     (act = SwitchApplications \<longrightarrow> b \<and> switched m) \<and>
     (act = TakeBackup \<longrightarrow> sealed (uw_events w) \<and> halted (uw_events w)) \<and>
     (act = RestoreData \<longrightarrow> b \<and> at_risk m \<and> op_of m ''restore_data'' \<noteq> None \<and> (j, Began RestoreData) \<notin> set (uw_events w))"

definition begin_action :: "job_record \<Rightarrow> update_action \<Rightarrow> update_world \<Rightarrow> update_world" where
  "begin_action m act w = log_event m (Began act) w"

lemma began_action:
  assumes h: "holds b j m w" and a: "may_begin act b j m w"
  shows "journal_ok (begin_action m act w)" "control_relies w (begin_action m act w)"
    "holds b j m (begin_action m act w)"
proof -
  note ok = holdsD(1) [OF h]
  let ?e = "(j, Began act)"
  have began: "began_ok k (?e # uw_events w) r" if c: "job_copy w k r" for k r
  proof (cases "k = j \<and> act \<in> {SwitchApplications, RestoreData}")
    case True
    then have "same_state m r" using a holds_syncedD(1) [of j m w r] h c by (auto simp: may_begin_def)
    then show ?thesis
      using True copies_okD(4) [OF ok c] a same_stateD(1,2) [of m r] by (auto simp: began_ok_def may_begin_def)
  qed (use copies_okD(4) [OF ok c] in \<open>auto simp: began_ok_def\<close>)
  have risk: "fence_closed w \<and> \<not> exposed k (?e # uw_events w)" if "job_copy w k r" "at_risk r" for k r
    using isolatedD [OF ok that] a by (simp add: may_begin_def)
  have hist: "history_safe (?e # uw_events w)"
  proof (cases "act = RestoreData")
    case True
    then have r: "at_risk m" "(j, Began RestoreData) \<notin> set (uw_events w)" using a by (auto simp: may_begin_def)
    have "performed j ''backup'' (uw_events w)"
      using holdsD(5) [OF h] holds_began(3) [OF h] r(1) unfolding marks_ok_def at_risk_def done_ok_def by blast
    then have "in_order j (Done TakeBackup) (Done ValidateBackup) (uw_events w)" by (simp add: performed_def)
    with ok holds_risk(2) [OF h r(1)] never_restored [OF r(2)] True show ?thesis
      by (auto simp: history_safe_def journal_ok_def times_restored_Cons)
  qed (use ok in \<open>auto simp: history_safe_def journal_ok_def times_restored_Cons\<close>)
  have w': "uw_jobs (begin_action m act w) = uw_jobs w" "uw_fence (begin_action m act w) = uw_fence w"
    "uw_events (begin_action m act w) = ?e # uw_events w"
    using holdsD(6) [OF h] by (simp_all add: begin_action_def log_event_def)
  have closed: "fence_closed (begin_action m act w) = fence_closed w" by (simp add: fence_closed_def w')
  have "journal_ok (begin_action m act w) \<and> control_relies w (begin_action m act w)"
    using holds_events [OF h began _ hist w'(1,3)] risk closed fence_writer [OF ok] w'(2) by simp
  then show "journal_ok (begin_action m act w)" "control_relies w (begin_action m act w)"
    "holds b j m (begin_action m act w)"
    using h carries_later [of b j m w "begin_action m act w"] by (simp_all add: holds_def w')
qed

text \<open>What has been done, and a fence that has been written, may be noted at any time.\<close>

lemma holds_logged:
  assumes h: "holds b j m w" and e: "(\<exists>a. e = Done a) \<or> (\<exists>x. e = Fenced x)"
  shows "holds b j m (log_event m e w)" "control_relies w (log_event m e w)"
    "uw_events (log_event m e w) = (j, e) # uw_events w" "fence_closed (log_event m e w) = fence_closed w"
proof -
  note ok = holdsD(1) [OF h]
  have w': "uw_jobs (log_event m e w) = uw_jobs w" "uw_fence (log_event m e w) = uw_fence w"
    and ev: "uw_events (log_event m e w) = (j, e) # uw_events w"
    using holdsD(6) [OF h] by (simp_all add: log_event_def)
  show "uw_events (log_event m e w) = (j, e) # uw_events w" by (rule ev)
  show closed: "fence_closed (log_event m e w) = fence_closed w" by (simp add: fence_closed_def w')
  have "began_ok k ((j, e) # uw_events w) r" if "job_copy w k r" for k r
    using copies_okD(4) [OF ok that] e by (auto simp: began_ok_def)
  moreover have "fence_closed (log_event m e w) \<and> \<not> exposed k ((j, e) # uw_events w)" if "job_copy w k r" "at_risk r" for k r
    using isolatedD [OF ok that] e closed by auto
  moreover have "history_safe ((j, e) # uw_events w)"
    using ok e by (auto simp: history_safe_def journal_ok_def times_restored_Cons)
  moreover have "dr_writing (uw_fence (log_event m e w)) Control = None" using fence_writer [OF ok] w'(2) by simp
  ultimately have "journal_ok (log_event m e w) \<and> control_relies w (log_event m e w)"
    using holds_events [OF h _ _ _ w'(1) ev] by blast
  then show "holds b j m (log_event m e w)" "control_relies w (log_event m e w)"
    using h carries_later [of b j m w "log_event m e w"] by (simp_all add: holds_def w')
qed

lemma executes_noted:
  assumes "holds b j m s" "control_relies s0 s"
    and "\<And>u. holds b j m u \<Longrightarrow> control_relies s0 u \<Longrightarrow> uw_events u = (j, Done act) # uw_events s \<Longrightarrow>
      (fence_closed s \<Longrightarrow> fence_closed u) \<Longrightarrow> executes s0 p u"
  shows "executes s0 (noted act m p) s"
  unfolding noted_def
proof (rule obeys_Eff, simp)
  note l = holds_logged [OF assms(1), of "Done act"]
  show "executes s0 p (log_event m (Done act) s)"
    using l control_relies_trans [OF assms(2)] by (intro assms(3)) simp_all
qed

text \<open>The rule for an action: in success and in failure the record is still held.\<close>

lemma executes_await:
  assumes h: "holds b j m s" and a: "may_begin act b j m s" and s0: "control_relies s0 s"
    and k: "\<And>ans u. holds b j m u \<Longrightarrow> uw_events u = (j, Began act) # uw_events s \<Longrightarrow>
      (fence_closed s \<Longrightarrow> fence_closed u) \<Longrightarrow> executes u (k ans) u"
  shows "executes s0 (Eff (\<lambda>w. (log_event m (Began act) w, Await q k))) s"
proof (rule obeys_Eff, simp)
  note b = began_action [OF h a]
  have ev: "uw_events (begin_action m act s) = (j, Began act) # uw_events s"
    using holdsD(6) [OF h] by (simp add: begin_action_def log_event_def)
  have fc: "fence_closed (begin_action m act s) = fence_closed s"
    by (simp add: fence_closed_def begin_action_def log_event_def)
  have "executes s0 (Await q k) (begin_action m act s)"
    using b(1) control_relies_trans [OF s0 b(2)]
  proof (rule obeys_Await)
    fix ans u
    assume e: "executor_relies (begin_action m act s) u"
    show "executes u (k ans) u"
      using holds_env [OF b(3) e] ev fc by (intro k) auto
  qed
  then show "executes s0 (Await q k) (log_event m (Began act) s)" by (simp add: begin_action_def)
qed

lemma control_relies_refl: "control_relies w w"
  by (simp add: control_relies_def stages_advance_same)

lemma executes_deploy:
  assumes "holds b j m s" "may_begin act b j m s" "control_relies s0 s"
    and "\<And>u0 u. holds b j m u \<Longrightarrow> control_relies u0 u \<Longrightarrow> uw_events u = (j, Done act) # (j, Began act) # uw_events s \<Longrightarrow>
      (fence_closed s \<Longrightarrow> fence_closed u) \<Longrightarrow> executes u0 (k m) u"
    and "\<And>e u. holds b j m u \<Longrightarrow> executes u (fail e m) u"
  shows "executes s0 (deploy act m k fail) s"
  unfolding deploy_def
proof (rule executes_await [OF assms(1-3)])
  fix ans u
  assume u: "holds b j m u" "uw_events u = (j, Began act) # uw_events s" "fence_closed s \<Longrightarrow> fence_closed u"
  have "executes u (noted act m (k m)) u"
    by (rule executes_noted [OF u(1) control_relies_refl], rule assms(4)) (use u in simp_all)
  then show "executes u (case ans of Broke e \<Rightarrow> fail e m | _ \<Rightarrow> noted act m (k m)) u"
    using assms(5) [OF u(1)] by (cases ans) simp_all
qed

lemma executes_back_up:
  assumes "holds b j m s" "may_begin act b j m s" "control_relies s0 s"
    and "\<And>u0 u. holds b j m u \<Longrightarrow> control_relies u0 u \<Longrightarrow> uw_events u = (j, Done act) # (j, Began act) # uw_events s \<Longrightarrow>
      (fence_closed s \<Longrightarrow> fence_closed u) \<Longrightarrow> executes u0 (k m) u"
    and "\<And>e u. holds b j m u \<Longrightarrow> executes u (fail e m) u"
  shows "executes s0 (back_up act m k fail) s"
  unfolding back_up_def
proof (rule executes_await [OF assms(1-3)])
  fix ans u
  assume u: "holds b j m u" "uw_events u = (j, Began act) # uw_events s" "fence_closed s \<Longrightarrow> fence_closed u"
  have "executes u (noted act m (k m)) u"
    by (rule executes_noted [OF u(1) control_relies_refl], rule assms(4)) (use u in simp_all)
  then show "executes u (case ans of Broke e \<Rightarrow> fail e m | _ \<Rightarrow> noted act m (k m)) u"
    using assms(5) [OF u(1)] by (cases ans) simp_all
qed

text \<open>The fence: it may always be closed, and lifted when no job is at risk.\<close>

lemma executes_fence:
  assumes h: "holds b j m s" and a: "\<not> active \<Longrightarrow> no_risk s" and s0: "control_relies s0 s"
    and k: "\<And>u0 u. holds b j m u \<Longrightarrow> control_relies u0 u \<Longrightarrow>
      uw_events u = (j, Fenced active) # (j, Fencing active) # uw_events s \<Longrightarrow>
      (active \<Longrightarrow> fence_closed u) \<Longrightarrow> executes u0 (k m) u"
    and fail: "\<And>e u0 u. holds b j m u \<Longrightarrow> control_relies u0 u \<Longrightarrow> executes u0 (fail e m) u"
  shows "executes s0 (writeMaintenance active allowStart m k fail) s"
proof -
  let ?f = "\<lparr>fn_jobId = j, fn_active = active, fn_allowStart = allowStart\<rparr>"
  define v where "v = log_event m (Fencing active) (s\<lparr>uw_fence := begin_write Executor () ?f (uw_fence s)\<rparr>)"
  note ok = holdsD(1) [OF h] and id = holdsD(6) [OF h]
  have v: "uw_jobs v = uw_jobs s" "uw_events v = (j, Fencing active) # uw_events s"
    "uw_fence v = begin_write Executor () ?f (uw_fence s)"
    using id by (simp_all add: v_def log_event_def)
  have closed: "fence_closed v" if "active" "fence_closed s"
    using that by (auto simp: fence_closed_def v dest: may_hold_begin)
  have began: "began_ok k ((j, Fencing active) # uw_events s) r" if "job_copy s k r" for k r
    using copies_okD(4) [OF ok that] by (auto simp: began_ok_def)
  have risk: "fence_closed v \<and> \<not> exposed k ((j, Fencing active) # uw_events s)"
    if "job_copy s k r" "at_risk r" for k r
    using isolatedD [OF ok that] closed a that by (cases active) (auto simp: no_risk_def)
  have hist: "history_safe ((j, Fencing active) # uw_events s)"
    using ok by (auto simp: history_safe_def journal_ok_def times_restored_Cons)
  have "dr_writing (uw_fence v) Control = None" using fence_writer [OF ok] by (simp add: v)
  note b = holds_events [OF h began risk hist v(1,2) this]
  have c: "carries b j m v" using h b(1) v(1) carries_later [of b j m s v] by (simp add: holds_def)
  have after: "executes u (case ans of
          Broke e \<Rightarrow> Eff (\<lambda>w. (w\<lparr>uw_fence := end_write Executor (uw_fence w)\<rparr>, fail e m))
        | _ \<Rightarrow> Eff (\<lambda>w. (log_event m (Fenced active) (w\<lparr>uw_fence := complete_write Executor (uw_fence w)\<rparr>), k m))) u"
    if u: "journal_ok u" "executor_relies v u" for ans u
  proof -
    note e = executor_reliesD [OF u(2) b(1)]
    have cu: "carries b j m u" using carries_env [OF c u(2)] .
    have wr: "dr_writing (uw_fence u) Executor = Some ((), ?f)" "dr_writing (uw_fence u) Control = None"
      using e(2) fence_writer [OF u(1)] by (simp_all add: v(3))
    have f: "control_relies u (u\<lparr>uw_fence := d\<rparr>)" if "journal_ok (u\<lparr>uw_fence := d\<rparr>)" for d
      using that by (simp add: control_relies_def all_terminal_def unfinished_def stages_advance_same)
    let ?t = "u\<lparr>uw_fence := end_write Executor (uw_fence u)\<rparr>"
    let ?d = "u\<lparr>uw_fence := complete_write Executor (uw_fence u)\<rparr>"
    note t = journal_fence(3) [OF u(1), of Executor]
    note d = journal_fence(4) [OF u(1), of Executor]
    have "executes u (fail e m) ?t" for e
      using carries_later [OF cu t] f [OF t] by (intro fail) (simp_all add: holds_def)
    moreover have "executes u (k m) (log_event m (Fenced active) ?d)"
    proof (rule k)
      have hd: "holds b j m ?d" using carries_later [OF cu d] by (simp add: holds_def)
      have "(\<exists>a. Fenced active = Done a) \<or> (\<exists>x. Fenced active = Fenced x)" by blast
      note l = holds_logged [OF hd this]
      show "holds b j m (log_event m (Fenced active) ?d)" using l by simp
      show "control_relies u (log_event m (Fenced active) ?d)" using control_relies_trans [OF f [OF d]] l by simp
      show "uw_events (log_event m (Fenced active) ?d) = (j, Fenced active) # (j, Fencing active) # uw_events s"
        using l e(3) v(2) by simp
      have "fence_closed ?d" if active
        using that wr by (auto simp: fence_closed_def may_hold_def seen_rename) (metis writer.exhaust option.discI)
      then show "fence_closed (log_event m (Fenced active) ?d)" if active using l that by simp
    qed
    ultimately show ?thesis by (cases ans) (simp_all add: obeys_Eff)
  qed
  have "executes s0 (Await WriteFence (\<lambda>ans. case ans of
          Broke e \<Rightarrow> Eff (\<lambda>w. (w\<lparr>uw_fence := end_write Executor (uw_fence w)\<rparr>, fail e m))
        | _ \<Rightarrow> Eff (\<lambda>w. (log_event m (Fenced active) (w\<lparr>uw_fence := complete_write Executor (uw_fence w)\<rparr>), k m)))) v"
    using b(1) control_relies_trans [OF s0 b(2)] after by (rule obeys_Await)
  then show ?thesis
    unfolding writeMaintenance_def using id by (intro obeys_Eff) (simp add: v_def)
qed

subsection \<open>The writes of the worker\<close>

lemma running_simps:
  assumes "jv_status (jr_view m) = StatusRunning"
  shows "\<not> terminal m" "stage m = (case jr_decision m of Some d \<Rightarrow> Decided d | None \<Rightarrow>
      (case op_of m ''restore_data'' of Some Performed \<Rightarrow> DataRestored | Some Intent \<Rightarrow> RestoringData
       | None \<Rightarrow> if switched m then Exchanged else Underway))"
  using assms by (simp_all add: terminal_def stage_def)

lemma write_same:
  assumes "holds b j m s" "\<not> terminal m" "same_state m r" "jr_snapshot r = jr_snapshot m" "jv_jobId (jr_view r) = j"
  shows "write_ok b j m r s"
proof -
  have "marks_ok r"
    using holdsD(5) [OF assms(1)] assms(3,4)
    unfolding marks_ok_def same_stateD(1,2) [OF assms(3)] by (simp add: same_state_def)
  moreover have "done_ok j (uw_events s) r"
    using holds_began(3) [OF assms(1)] same_stateD(1,7) [OF assms(3)] by (simp add: done_ok_def)
  ultimately show ?thesis
    using assms(2,5) same_stateD [OF assms(3)] by (simp add: write_ok_def)
qed

lemma write_phase: "holds b j m s \<Longrightarrow> \<not> terminal m \<Longrightarrow> write_ok b j m (set_phase p m) s"
  by (rule write_same) (simp_all add: holdsD(6))

lemma stage_steps [simp]:
  "stage_le Underway Exchanged" "stage_le Exchanged RestoringData" "stage_le RestoringData DataRestored"
  "stage_le Exchanged (Decided CommitDecided)" "stage_le DataRestored (Decided RestoreDecided)"
  "stage_le Accepted Underway" "stage_le Underway (Ended StatusFailed)"
  "stage_le (Decided CommitDecided) (Ended StatusSucceeded)"
  "stage_le (Decided RestoreDecided) (Ended StatusRolledBack)"
  by (auto intro: stage_step.intros)

text \<open>When an operation may be marked.\<close>

definition mark_ok :: "bool \<Rightarrow> string \<Rightarrow> string \<Rightarrow> op_mark \<Rightarrow> job_record \<Rightarrow> update_world \<Rightarrow> bool" where
  "mark_ok b j key x m s \<longleftrightarrow>
     jv_status (jr_view m) = StatusRunning \<and> jr_decision m = None \<and>
     (x = Performed \<longrightarrow> performed j key (uw_events s)) \<and>
     (key = ''switch'' \<longrightarrow> \<not> switched m \<longrightarrow> b \<and> op_of m ''backup'' = Some Performed \<and>
        op_of m ''fence'' = Some Performed \<and> jr_snapshot m \<noteq> None \<and> fence_closed s \<and> \<not> exposed j (uw_events s)) \<and>
     (key = ''restore_data'' \<longrightarrow> switched m \<and> op_of m ''restore_data'' = (if x = Intent then None else Some Intent)) \<and>
     (key \<in> {''backup'', ''fence''} \<longrightarrow> \<not> switched m)"

lemma write_mark:
  assumes h: "holds b j m s" and k: "mark_ok b j key x m s"
  shows "write_ok b j m (set_operation key x m) s"
proof -
  let ?r = "set_operation key x m"
  note m = holdsD(5) [OF h]
  have run: "jv_status (jr_view m) = StatusRunning" "jr_decision m = None" using k by (simp_all add: mark_ok_def)
  have old: "switched m \<Longrightarrow> op_of m ''backup'' = Some Performed \<and> op_of m ''fence'' = Some Performed \<and> jr_snapshot m \<noteq> None"
    using m unfolding marks_ok_def by blast
  have A: "op_of ?r ''backup'' = Some Performed \<and> op_of ?r ''fence'' = Some Performed \<and> jr_snapshot ?r \<noteq> None"
    if "switched ?r"
  proof (cases "key = ''switch''")
    case True
    then show ?thesis using old k unfolding mark_ok_def by (cases "switched m") simp_all
  next
    case False
    then have "switched m" using that by simp
    then have "key \<noteq> ''backup''" "key \<noteq> ''fence''" using k unfolding mark_ok_def by blast+
    then show ?thesis using old [OF \<open>switched m\<close>] by simp
  qed
  have B: "switched ?r" if r: "op_of ?r ''restore_data'' \<noteq> None"
  proof (cases "key = ''restore_data''")
    case True
    then show ?thesis using k unfolding mark_ok_def by simp
  next
    case False
    then have "op_of m ''restore_data'' \<noteq> None" using r by simp
    then show ?thesis using m unfolding marks_ok_def by simp
  qed
  have "jv_status (jr_view ?r) = StatusRunning" "jr_decision ?r = None" using run by simp_all
  then have "marks_ok ?r" using A B unfolding marks_ok_def by simp
  moreover have "stage_le (stage m) (stage ?r)"
  proof -
    have r: "jv_status (jr_view ?r) = StatusRunning" "jr_decision ?r = None" using run by simp_all
    note st = running_simps(2) [OF run(1)] running_simps(2) [OF r(1)]
    consider "key = ''switch''" | "key = ''restore_data''" | "key \<noteq> ''switch''" "key \<noteq> ''restore_data''" by blast
    then show ?thesis
    proof cases
      case 1
      then show ?thesis unfolding st r(2) run(2) by (cases "op_of m ''restore_data''"; cases "switched m")
          (use m in \<open>auto simp: marks_ok_def\<close>)
    next
      case 2
      then have "switched m" "op_of m ''restore_data'' = (if x = Intent then None else Some Intent)"
        using k by (simp_all add: mark_ok_def)
      then show ?thesis unfolding st r(2) run(2) using 2 by (cases x) simp_all
    next
      case 3
      then show ?thesis unfolding st r(2) run(2) by simp
    qed
  qed
  moreover have "at_risk ?r \<longrightarrow> \<not> at_risk m \<longrightarrow> b \<and> fence_closed s \<and> \<not> exposed j (uw_events s)"
    using k run m by (auto simp: at_risk_def mark_ok_def)
  moreover have "done_ok j (uw_events s) ?r"
    using holds_began(3) [OF h] k run by (simp add: done_ok_def mark_ok_def)
  ultimately show ?thesis
    using holdsD(6) [OF h] run by (auto simp: write_ok_def terminal_def)
qed

lemma write_decision:
  assumes h: "holds b j m s" and run: "jv_status (jr_view m) = StatusRunning" "jr_decision m = None" "switched m"
    and d: "d = CommitDecided \<Longrightarrow> op_of m ''restore_data'' = None \<and> op_of m ''verify'' = Some Performed \<and>
        op_of m ''persist_installation'' = Some Performed"
      "d = RestoreDecided \<Longrightarrow> op_of m ''restore_data'' = Some Performed \<and>
        in_order j (Done RestoreData) (Done VerifyRestored) (uw_events s)"
  shows "write_ok b j m (set_decision d m) s"
proof -
  let ?r = "set_decision d m"
  have "marks_ok ?r"
    using holdsD(5) [OF h] run d by (cases d) (auto simp: marks_ok_def)
  moreover have "stage_le (stage m) (stage ?r)"
    using run d by (cases d) (auto simp: running_simps)
  moreover have "done_ok j (uw_events s) ?r"
    using holds_began(3) [OF h] d by (simp add: done_ok_def)
  ultimately show ?thesis
    using holdsD(6) [OF h] run by (simp add: write_ok_def at_risk_def terminal_def)
qed

text \<open>How a job may end.\<close>

definition may_finish :: "job_status \<Rightarrow> job_record \<Rightarrow> update_world \<Rightarrow> bool" where
  "may_finish status m s \<longleftrightarrow>
     status = StatusRecovery \<or>
     status = StatusFailed \<and> jr_decision m = None \<and> \<not> switched m \<or>
     status = StatusSucceeded \<and> jr_decision m = Some CommitDecided \<and> no_risk s \<or>
     status = StatusRolledBack \<and> jr_decision m = Some RestoreDecided \<and> no_risk s"

lemma executes_finish:
  assumes h: "holds b j m s" and run: "jv_status (jr_view m) = StatusRunning" and f: "may_finish status m s"
    and s0: "control_relies s0 s"
  shows "executes s0 (finish status code text m) s"
proof -
  define r where "r = finished_record status code text (uw_now s) m"
  have op: "op_of r k = op_of m k" for k by (simp add: op_of_def r_def)
  have sw: "switched r = switched m" by (simp add: switched_def op)
  note nt = running_simps(1) [OF run]
  have st: "jv_status (jr_view r) = status" "jr_decision r = jr_decision m" "jr_snapshot r = jr_snapshot m"
    "jr_operations r = jr_operations m" by (simp_all add: r_def)
  have mk: "marks_ok r"
    using holdsD(5) [OF h] f run unfolding marks_ok_def op sw st may_finish_def by auto
  have none: "op_of m ''restore_data'' = None" if "\<not> switched m"
    using holdsD(5) [OF h] that by (auto simp: marks_ok_def)
  have "stage_le (stage m) (stage r)"
    using f run none unfolding may_finish_def
    by (auto simp: running_simps stage_def terminal_def op sw st split: option.splits op_mark.splits)
  moreover have "no_risk s" if "terminal r"
    using f that no_risk_undecided [OF h nt] by (auto simp: may_finish_def terminal_def st)
  moreover have "done_ok j (uw_events s) r"
    using holds_began(3) [OF h] by (simp add: done_ok_def op st)
  ultimately have "write_ok b j m r s"
    using mk holdsD(6) [OF h] by (simp add: write_ok_def sw op st at_risk_def) (simp add: r_def)
  then have "executes s0 (save r (\<lambda>r. Finished (Inr ()))) s"
    by (rule executes_save [OF h nt _ s0])
      (auto intro!: obeys_Finished simp: executor_idle_def dest: holdsD)
  then show ?thesis unfolding finish_def r_def by (intro obeys_Eff) simp
qed

text \<open>A handler that may be entered at any later point of a running job.\<close>

definition handles :: "string \<Rightarrow> worker_fail \<Rightarrow> bool" where
  "handles j fail \<longleftrightarrow>
     (\<forall>b e m u0 u. holds b j m u \<longrightarrow> jv_status (jr_view m) = StatusRunning \<longrightarrow> control_relies u0 u \<longrightarrow>
        executes u0 (fail e m) u)"

lemma handlesD:
  "handles j fail \<Longrightarrow> holds b j m u \<Longrightarrow> jv_status (jr_view m) = StatusRunning \<Longrightarrow> control_relies u0 u \<Longrightarrow>
   executes u0 (fail e m) u"
  by (simp add: handles_def)

lemma handles_unless_journal: "handles j fail \<Longrightarrow> handles j (unless_journal fail)"
  unfolding handles_def unless_journal_def journal_failure_def
  by (auto intro!: obeys_Finished simp: executor_idle_def dest: holdsD)

lemma handles_finish: "handles j (unless_journal (\<lambda>e. finish StatusRecovery code text))"
  by (intro handles_unless_journal) (auto simp: handles_def may_finish_def intro: executes_finish)

lemma completeDecision_executes:
  assumes h: "holds b j m s" and run: "jv_status (jr_view m) = StatusRunning" and d: "jr_decision m \<noteq> None"
    and s0: "control_relies s0 s"
  shows "executes s0 (completeDecision m) s"
  unfolding completeDecision_def Let_def
proof (rule executes_save [OF h running_simps(1) [OF run] write_same [OF h running_simps(1) [OF run]] s0])
  fix t u0 u
  let ?m = "stamped t m"
  let ?fail = "unless_journal (\<lambda>e. finish StatusRecovery ''POST_DECISION_REPAIR_REQUIRED''
            ''The durable decision is preserved. Repair service availability without restoring an older database snapshot.'')"
  assume u: "holds True j ?m u" "control_relies u0 u"
  have r: "jv_status (jr_view ?m) = StatusRunning" using run by simp
  note nr = no_risk_decided [where m = ?m, simplified job_updates, OF _ d running_simps(1) [OF r]]
  let ?restored = "jr_decision m = Some RestoreDecided"
  show "executes u0 (deploy (if ?restored then VerifyRestored else VerifyInstalled) ?m (\<lambda>r.
         writeMaintenance False True r (\<lambda>r.
           finish (if ?restored then StatusRolledBack else StatusSucceeded)
             (if ?restored then ''RESTORED'' else ''UPDATED'')
             (if ?restored
              then ''The previous applications, database and business files were restored and verified.''
              else ''The system update was verified and committed.'') r) ?fail) ?fail) u"
  proof (rule executes_deploy [OF u(1) _ u(2)])
    show "may_begin (if ?restored then VerifyRestored else VerifyInstalled) True j ?m u" by (simp add: may_begin_def)
    fix v0 v
    assume v: "holds True j ?m v" "control_relies v0 v"
    show "executes v0 (writeMaintenance False True ?m (\<lambda>r.
           finish (if ?restored then StatusRolledBack else StatusSucceeded)
             (if ?restored then ''RESTORED'' else ''UPDATED'')
             (if ?restored
              then ''The previous applications, database and business files were restored and verified.''
              else ''The system update was verified and committed.'') r) ?fail) v"
    proof (rule executes_fence [OF v(1) nr [OF v(1)] v(2)])
      fix x0 x
      assume x: "holds True j ?m x" "control_relies x0 x"
      show "executes x0 (finish (if ?restored then StatusRolledBack else StatusSucceeded)
             (if ?restored then ''RESTORED'' else ''UPDATED'')
             (if ?restored
              then ''The previous applications, database and business files were restored and verified.''
              else ''The system update was verified and committed.'') ?m) x"
        using d nr [OF x(1)] by (intro executes_finish [OF x(1) r _ x(2)]) (auto simp: may_finish_def intro: job_decision.exhaust)
    qed (use r in \<open>auto intro: handlesD [OF handles_finish]\<close>)
  qed (use r in \<open>auto intro: handlesD [OF handles_finish] control_relies_refl\<close>)
qed (use holdsD(6) [OF h] in simp_all)

end
