(* ===== verification/Update_Recovery.thy ===== *)
theory Update_Recovery
  imports Update_Safety
begin

text \<open>
  The whole worker and the control process keep the invariant of the host in every interleaving,
  with failures of every action and write and crashes at every wait; what that means for the data, the
  fence and the state of the jobs.
\<close>

subsection \<open>Operations\<close>

text \<open>The record after an operation, and a fence and backup that are as good as before.\<close>

definition marked :: "string \<Rightarrow> op_mark \<Rightarrow> job_record \<Rightarrow> job_record \<Rightarrow> bool" where
  "marked key x m q \<longleftrightarrow>
     (\<forall>l. op_of q l = (if l = key then Some x else op_of m l)) \<and> jr_decision q = jr_decision m \<and>
     jv_status (jr_view q) = jv_status (jr_view m) \<and> jr_snapshot q = jr_snapshot m"

definition still :: "string \<Rightarrow> update_world \<Rightarrow> update_world \<Rightarrow> bool" where
  "still j s u \<longleftrightarrow>
     (fence_closed s \<longrightarrow> fence_closed u) \<and> (exposed j (uw_events u) \<longrightarrow> exposed j (uw_events s)) \<and>
     (sealed (uw_events s) \<longrightarrow> sealed (uw_events u)) \<and> (halted (uw_events s) \<longrightarrow> halted (uw_events u))"

lemma still_refl [simp]: "still j s s"
  by (simp add: still_def)

lemma still_trans: "still j s u \<Longrightarrow> still j u v \<Longrightarrow> still j s v"
  by (auto simp: still_def)

lemma markedD:
  assumes "marked key x m q"
  shows "op_of q l = (if l = key then Some x else op_of m l)" "jr_decision q = jr_decision m"
    "jv_status (jr_view q) = jv_status (jr_view m)" "jr_snapshot q = jr_snapshot m"
    "switched q \<longleftrightarrow> key = ''switch'' \<or> switched m" "fenced q \<longleftrightarrow> key = ''fence'' \<or> fenced m"
  using assms by (simp_all add: marked_def switched_def fenced_def)

text \<open>An action of an operation: it goes on with the record as it was, or fails.\<close>

definition acts ::
  "string \<Rightarrow> (update_world \<Rightarrow> update_world \<Rightarrow> bool) \<Rightarrow> string \<Rightarrow>
   (job_record \<Rightarrow> worker_cont \<Rightarrow> worker_fail \<Rightarrow> worker_proc) \<Rightarrow> bool" where
  "acts j after key action \<longleftrightarrow>
     (\<forall>q u0 u k fail. holds True j q u \<longrightarrow> jv_status (jr_view q) = StatusRunning \<longrightarrow> op_of q key = Some Intent \<longrightarrow>
        control_relies u0 u \<longrightarrow> handles j fail \<longrightarrow>
        (\<forall>v0 v. holds True j q v \<longrightarrow> control_relies v0 v \<longrightarrow> after u v \<longrightarrow> executes v0 (k q) v) \<longrightarrow>
        executes u0 (action q k fail) u)"

lemma actsD:
  assumes "acts j after key action" "holds True j q u" "jv_status (jr_view q) = StatusRunning"
    "op_of q key = Some Intent" "control_relies u0 u" "handles j fail"
    and "\<And>v0 v. holds True j q v \<Longrightarrow> control_relies v0 v \<Longrightarrow> after u v \<Longrightarrow> executes v0 (k q) v"
  shows "executes u0 (action q k fail) u"
  using assms(1) [unfolded acts_def, rule_format, OF assms(2-6)] assms(7) by blast

text \<open>What a successful action of the deployment leaves.\<close>

definition did :: "update_action \<Rightarrow> string \<Rightarrow> update_world \<Rightarrow> update_world \<Rightarrow> bool" where
  "did act j u v \<longleftrightarrow> uw_events v = (j, Done act) # (j, Began act) # uw_events u \<and> (fence_closed u \<longrightarrow> fence_closed v)"

lemma did_still: "did act j u v \<Longrightarrow> act \<notin> {TakeBackup, StartApplications} \<Longrightarrow> still j u v"
  by (simp add: did_def still_def)

lemma acts_deploy:
  assumes "act = SwitchApplications \<Longrightarrow> key = ''switch''" "act \<notin> {RestoreData, TakeBackup}"
  shows "acts j (did act j) key (deploy act)"
  unfolding acts_def
proof (intro allI impI)
  fix q u0 u k fail
  assume q: "holds True j q u" "jv_status (jr_view q) = StatusRunning" "op_of q key = Some Intent"
    "control_relies u0 u" "handles j fail"
    and k: "\<forall>v0 v. holds True j q v \<longrightarrow> control_relies v0 v \<longrightarrow> did act j u v \<longrightarrow> executes v0 (k q) v"
  show "executes u0 (deploy act q k fail) u"
  proof (rule executes_deploy [OF q(1) _ q(4)])
    show "may_begin act True j q u" using assms q(3) by (auto simp: may_begin_def switched_def)
    fix v0 v
    assume "holds True j q v" "control_relies v0 v" "uw_events v = (j, Done act) # (j, Began act) # uw_events u"
      "fence_closed u \<Longrightarrow> fence_closed v"
    then show "executes v0 (k q) v" using k by (simp add: did_def)
  qed (rule handlesD [OF q(5) _ q(2) control_relies_refl])
qed

definition closes :: "string \<Rightarrow> update_world \<Rightarrow> update_world \<Rightarrow> bool" where
  "closes j s u \<longleftrightarrow> still j s u \<and> fence_closed u \<and> sealed (uw_events u)"

lemma acts_fence: "acts j (closes j) key (writeMaintenance True allowStart)"
  unfolding acts_def
proof (intro allI impI)
  fix q u0 u k fail
  assume q: "holds True j q u" "jv_status (jr_view q) = StatusRunning" "control_relies u0 u" "handles j fail"
    and k: "\<forall>v0 v. holds True j q v \<longrightarrow> control_relies v0 v \<longrightarrow> closes j u v \<longrightarrow> executes v0 (k q) v"
  show "executes u0 (writeMaintenance True allowStart q k fail) u"
  proof (rule executes_fence [OF q(1) _ q(3)])
    fix v0 v
    assume "holds True j q v" "control_relies v0 v" "uw_events v = (j, Fenced True) # (j, Fencing True) # uw_events u"
      "True \<Longrightarrow> fence_closed v"
    then show "executes v0 (k q) v" using k by (auto simp: still_def closes_def)
  qed (use handlesD [OF q(4) _ q(2)] in simp_all)
qed

lemma executes_operation:
  assumes h: "holds b j m s" and run: "jv_status (jr_view m) = StatusRunning" "jr_decision m = None"
    and mk: "mark_ok b j key Intent m s" "key \<noteq> ''restore_data''" and s0: "control_relies s0 s"
    and act: "acts j after key action" and f: "handles j fail"
    and perf: "\<And>q u v. holds True j q u \<Longrightarrow> marked key Intent m q \<Longrightarrow> after u v \<Longrightarrow> performed j key (uw_events v)"
    and k: "\<And>q u0 t u v. holds True j q v \<Longrightarrow> marked key Performed m q \<Longrightarrow> control_relies u0 v \<Longrightarrow>
      still j s t \<Longrightarrow> after t u \<Longrightarrow> still j u v \<Longrightarrow> executes u0 (k q) v"
  shows "executes s0 (worker_operation key action m k fail) s"
  unfolding worker_operation_def
proof (rule executes_save [OF h running_simps(1) [OF run(1)] write_mark [OF h mk(1)] s0])
  fix t u0 u
  let ?m = "stamped t (set_operation key Intent m)"
  assume u: "holds True j ?m u" "control_relies u0 u" "uw_events u = uw_events s" "fence_closed s \<Longrightarrow> fence_closed u"
  have r: "jv_status (jr_view ?m) = StatusRunning" "op_of ?m key = Some Intent" using run by simp_all
  have su: "still j s u" using u(3,4) by (simp add: still_def)
  have go: "executes v0 (save (set_operation key Performed ?m) k) v"
    if v: "holds True j ?m v" "control_relies v0 v" "after u v" for v0 v
  proof -
    have "marked key Intent m ?m" by (simp add: marked_def)
    then have "mark_ok True j key Performed ?m v" using mk run perf [OF u(1) _ v(3)] by (auto simp: mark_ok_def)
    note w = write_mark [OF v(1) this]
    show ?thesis
    proof (rule executes_save [OF v(1) running_simps(1) [OF r(1)] w v(2)])
      fix t' x0 x
      let ?q = "stamped t' (set_operation key Performed ?m)"
      assume x: "holds True j ?q x" "control_relies x0 x" "uw_events x = uw_events v" "fence_closed v \<Longrightarrow> fence_closed x"
      have "marked key Performed m ?q" by (simp add: marked_def)
      then show "executes x0 (k ?q) x"
        by (rule k [OF x(1) _ x(2) su v(3)]) (use x(3,4) in \<open>simp add: still_def\<close>)
    qed
  qed
  show "executes u0 (action ?m (\<lambda>r. save (set_operation key Performed r) k) fail) u"
    by (rule actsD [OF act u(1) r u(2) f], rule go)
qed

subsection \<open>Recovery\<close>

lemma executes_restore_data:
  assumes h: "holds b j m s" and run: "jv_status (jr_view m) = StatusRunning" "jr_decision m = None" "switched m"
    and i: "op_of m ''restore_data'' \<noteq> Some Intent" and rd: "op_of m ''restore_deployment'' = Some Performed" and s0: "control_relies s0 s" and f: "handles j fail"
    and k: "\<And>c q u0 u. holds c j q u \<Longrightarrow> jv_status (jr_view q) = StatusRunning \<Longrightarrow> jr_decision q = None \<Longrightarrow>
      switched q \<Longrightarrow> op_of q ''restore_data'' = Some Performed \<Longrightarrow> control_relies u0 u \<Longrightarrow> executes u0 (k q) u"
  shows "executes s0 (restore_data m k fail) s"
proof (cases "op_of m ''restore_data'' = Some Performed")
  case True
  then show ?thesis unfolding restore_data_def using k [OF h run True s0] by simp
next
  case False
  then have none: "op_of m ''restore_data'' = None"
  proof (cases "op_of m ''restore_data''")
    case (Some x)
    with False i show ?thesis by (cases x) simp_all
  qed
  have never: "(j, Began RestoreData) \<notin> set (uw_events s)"
    using holds_began(2) [OF h] none by (auto simp: began_ok_def)
  have mk: "mark_ok b j ''restore_data'' Intent m s" using run none by (simp add: mark_ok_def)
  have "executes s0 (worker_operation ''restore_data'' (\<lambda>r k fail.
             back_up ValidateBackup r (\<lambda>r. back_up RestoreData r k fail) fail) m k fail) s"
    unfolding worker_operation_def
  proof (rule executes_save [OF h running_simps(1) [OF run(1)] write_mark [OF h mk] s0])
    fix t u0 u
    let ?m = "stamped t (set_operation ''restore_data'' Intent m)"
    assume u: "holds True j ?m u" "control_relies u0 u" "uw_events u = uw_events s"
    have r: "jv_status (jr_view ?m) = StatusRunning" using run by simp
    show "executes u0 (back_up ValidateBackup ?m (\<lambda>r. back_up RestoreData r
        (\<lambda>r. save (set_operation ''restore_data'' Performed r) k) fail) fail) u"
    proof (rule executes_back_up [OF u(1) _ u(2)])
      fix v0 v
      assume v: "holds True j ?m v" "control_relies v0 v"
        "uw_events v = (j, Done ValidateBackup) # (j, Began ValidateBackup) # uw_events u"
      have "performed j ''restore_deployment'' (uw_events v)"
        using holds_began(3) [OF v(1)] rd by (auto simp: done_ok_def)
      then have deployed: "(j, Done RestoreDeployment) \<in> set (uw_events v)" by (simp add: performed_def)
      show "executes v0 (back_up RestoreData ?m (\<lambda>r. save (set_operation ''restore_data'' Performed r) k) fail) v"
      proof (rule executes_back_up [OF v(1) _ v(2)])
        show "may_begin RestoreData True j ?m v"
          using run never v(3) u(3) by (simp add: may_begin_def at_risk_def)
        fix x0 x
        assume x: "holds True j ?m x" "control_relies x0 x"
          "uw_events x = (j, Done RestoreData) # (j, Began RestoreData) # uw_events v"
        have mk: "mark_ok True j ''restore_data'' Performed ?m x" using run x(3) deployed by (simp add: mark_ok_def performed_def)
        show "executes x0 (save (set_operation ''restore_data'' Performed ?m) k) x"
          by (rule executes_save [OF x(1) running_simps(1) [OF r] write_mark [OF x(1) mk] x(2)],
              rule k, assumption) (use run in simp_all)
      qed (rule handlesD [OF f _ r control_relies_refl])
    qed (simp add: may_begin_def, rule handlesD [OF f _ r control_relies_refl])
  qed
  with False show ?thesis unfolding restore_data_def by simp
qed

lemma executes_restore:
  assumes h: "holds b j m s" and run: "jv_status (jr_view m) = StatusRunning" "jr_decision m = None" "switched m"
    and s0: "control_relies s0 s" and f: "handles j fail"
    and k: "\<And>c q u0 u. holds c j q u \<Longrightarrow> jv_status (jr_view q) = StatusRunning \<Longrightarrow> jr_decision q = None \<Longrightarrow>
      switched q \<Longrightarrow> op_of q ''restore_data'' = Some Performed \<Longrightarrow> control_relies u0 u \<Longrightarrow> executes u0 (k q) u"
  shows "executes s0 (restore m k fail) s"
  unfolding restore_def phase_def
proof (rule executes_save [OF h running_simps(1) [OF run(1)] write_phase [OF h running_simps(1) [OF run(1)]] s0])
  fix t u0 u
  let ?m = "stamped t (set_phase Restoring m)"
  assume u: "holds True j ?m u" "control_relies u0 u"
  have r: "jv_status (jr_view ?m) = StatusRunning" "jr_decision ?m = None" using run by simp_all
  show "executes u0 (if jr_snapshot ?m = None \<or> op_of ?m ''restore_data'' = Some Intent
       then fail (UpdateError ''RESTORE_UNCERTAIN''
              ''Interrupted data restoration needs manual verification before retrying.'' 409) ?m
       else worker_operation ''restore_deployment'' (deploy RestoreDeployment) ?m (\<lambda>r. restore_data r k fail) fail) u"
  proof (cases "jr_snapshot ?m = None \<or> op_of ?m ''restore_data'' = Some Intent")
    case True
    then show ?thesis using handlesD [OF f u(1) r(1) u(2)] by simp
  next
    case False
    have a: "acts j (did RestoreDeployment j) ''restore_deployment'' (deploy RestoreDeployment)" by (rule acts_deploy) simp_all
    have "mark_ok True j ''restore_deployment'' Intent ?m u" using run by (simp add: mark_ok_def)
    then have "executes u0 (worker_operation ''restore_deployment'' (deploy RestoreDeployment) ?m
        (\<lambda>r. restore_data r k fail) fail) u"
    proof (rule executes_operation [OF u(1) r _ _ u(2) a f])
      fix q v0 v
      assume q: "holds True j q v" "marked ''restore_deployment'' Performed ?m q" "control_relies v0 v"
      show "executes v0 (restore_data q k fail) v"
        by (rule executes_restore_data [OF q(1) _ _ _ _ _ q(3) f k]) (use run False markedD [OF q(2)] in simp_all)
    qed (simp_all add: performed_def did_def)
    then show ?thesis unfolding if_not_P [OF False] .
  qed
qed

lemma holds_stamped: "holds b j (stamped t m) w = holds b j m w"
proof -
  have "same_state (stamped t m) = same_state m" by (simp add: fun_eq_iff)
  then show ?thesis by (simp add: holds_def carries_def)
qed

lemma executes_decide:
  assumes h: "holds b j m s" and run: "jv_status (jr_view m) = StatusRunning"
    and w: "write_ok b j m (set_decision d m) s" and s0: "control_relies s0 s"
  shows "executes s0 (decide d m completeDecision) s"
  unfolding decide_def
proof (rule executes_save [OF h running_simps(1) [OF run] w s0])
  fix t u0 u
  assume u: "holds True j (stamped t (set_decision d m)) u" "control_relies u0 u"
  show "executes u0 (completeDecision (set_decision d m)) u"
    by (rule completeDecision_executes [OF u(1) [unfolded holds_stamped] _ _ u(2)]) (use run in simp_all)
qed

lemma handles_recovery_failed: "handles j recovery_failed"
  unfolding recovery_failed_def by (rule handles_finish)

text \<open>The record during recovery: undecided, and restored if it has to be.\<close>

definition recovering :: "bool \<Rightarrow> job_record \<Rightarrow> bool" where
  "recovering sw m \<longleftrightarrow>
     jv_status (jr_view m) = StatusRunning \<and> jr_decision m = None \<and> (switched m \<longleftrightarrow> sw) \<and>
     (sw \<longrightarrow> op_of m ''restore_data'' = Some Performed)"

lemma executes_end_recovery:
  assumes h: "holds b j m s" and r: "recovering sw m" and s0: "control_relies s0 s"
    and v: "sw \<Longrightarrow> in_order j (Done RestoreData) (Done VerifyRestored) (uw_events s)"
  shows "executes s0 (end_recovery sw cause m) s"
proof (cases sw)
  case True
  then have "write_ok b j m (set_decision RestoreDecided m) s"
    using r v by (intro write_decision [OF h]) (simp_all add: recovering_def)
  then show ?thesis
    unfolding end_recovery_def using True r executes_decide [OF h _ _ s0] by (simp add: recovering_def)
next
  case False
  have run: "jv_status (jr_view m) = StatusRunning" using r by (simp add: recovering_def)
  have "executes s0 (writeMaintenance False True m (\<lambda>r.
             finish StatusFailed (error_code cause) (safe_message cause) r) recovery_failed) s"
  proof (rule executes_fence [OF h _ s0])
    show "no_risk s"
      using no_risk_undecided [OF h running_simps(1) [OF run]] r False by (simp add: recovering_def)
    fix u0 u
    assume u: "holds b j m u" "control_relies u0 u"
    show "executes u0 (finish StatusFailed (error_code cause) (safe_message cause) m) u"
      using r False by (intro executes_finish [OF u(1) run _ u(2)]) (simp add: may_finish_def recovering_def)
  qed (rule handlesD [OF handles_recovery_failed _ run])
  with False show ?thesis unfolding end_recovery_def by simp
qed

lemma executes_start_previous:
  assumes h: "holds b j m s" and r: "recovering sw m" and s0: "control_relies s0 s"
  shows "executes s0 (start_previous sw cause m) s"
proof -
  have run: "jv_status (jr_view m) = StatusRunning" using r by (simp add: recovering_def)
  note fail = handlesD [OF handles_recovery_failed _ run]
  have "executes s0 (writeMaintenance True True m (\<lambda>r.
             deploy StartApplications r (\<lambda>r.
             deploy VerifyRestored r (end_recovery sw cause) recovery_failed) recovery_failed) recovery_failed) s"
  proof (rule executes_fence [OF h _ s0])
    fix u0 u
    assume u: "holds b j m u" "control_relies u0 u"
    show "executes u0 (deploy StartApplications m (\<lambda>r.
             deploy VerifyRestored r (end_recovery sw cause) recovery_failed) recovery_failed) u"
    proof (rule executes_deploy [OF u(1) _ u(2)])
      fix v0 v
      assume v: "holds b j m v" "control_relies v0 v"
      show "executes v0 (deploy VerifyRestored m (end_recovery sw cause) recovery_failed) v"
      proof (rule executes_deploy [OF v(1) _ v(2)])
        fix x0 x
        assume x: "holds b j m x" "control_relies x0 x"
          "uw_events x = (j, Done VerifyRestored) # (j, Began VerifyRestored) # uw_events v"
        have "in_order j (Done RestoreData) (Done VerifyRestored) (uw_events x)" if sw
        proof -
          have "performed j ''restore_data'' (uw_events v)"
            using holds_began(3) [OF v(1)] r that by (simp add: done_ok_def recovering_def)
          then show ?thesis by (auto simp: performed_def x(3) dest: in_order_set)
        qed
        then show "executes x0 (end_recovery sw cause m) x" by (rule executes_end_recovery [OF x(1) r x(2)])
      qed (simp add: may_begin_def, rule fail, assumption, rule control_relies_refl)
    qed (simp add: may_begin_def, rule fail, assumption, rule control_relies_refl)
  qed (simp, rule fail)
  moreover have "fenced m" if sw
    using holdsD(5) [OF h] r that by (auto simp: marks_ok_def recovering_def fenced_def)
  ultimately show ?thesis
    unfolding start_previous_def using executes_end_recovery [OF h r s0] by auto
qed

lemma executes_restore_switched:
  assumes h: "holds b j m s" and run: "jv_status (jr_view m) = StatusRunning" "jr_decision m = None"
    and s0: "control_relies s0 s"
  shows "executes s0 (restore_switched (switched m) cause m) s"
proof (cases "switched m")
  case True
  have "executes s0 (restore m (start_previous True cause) recovery_failed) s"
    by (rule executes_restore [OF h run True s0 handles_recovery_failed], rule executes_start_previous)
      (simp_all add: recovering_def)
  with True show ?thesis unfolding restore_switched_def by simp
next
  case False
  have "executes s0 (start_previous False cause m) s"
    by (rule executes_start_previous [OF h _ s0]) (use run False in \<open>simp add: recovering_def\<close>)
  with False show ?thesis unfolding restore_switched_def by simp
qed

lemma recover_executes:
  assumes h: "holds b j m s" and run: "jv_status (jr_view m) = StatusRunning" and s0: "control_relies s0 s"
  shows "executes s0 (recover m cause) s"
proof (cases "jr_decision m = None")
  case True
  note fail = handlesD [OF handles_recovery_failed _ run]
  have "executes s0 (writeMaintenance True False m (\<lambda>r'.
             deploy StopApplications r' (restore_switched (switched m) cause) recovery_failed) recovery_failed) s"
  proof (rule executes_fence [OF h _ s0])
    fix u0 u
    assume u: "holds b j m u" "control_relies u0 u"
    show "executes u0 (deploy StopApplications m (restore_switched (switched m) cause) recovery_failed) u"
      by (rule executes_deploy [OF u(1) _ u(2)], simp add: may_begin_def,
          rule executes_restore_switched [OF _ run True], assumption+,
          rule fail, assumption, rule control_relies_refl)
  qed (simp, rule fail)
  then show ?thesis
    unfolding recover_def using True executes_restore_switched [OF h run True s0] by simp
next
  case False
  then show ?thesis
    unfolding recover_def using completeDecision_executes [OF h run _ s0] by simp
qed

lemma handles_recover: "handles j (unless_journal (\<lambda>e r. recover r e))"
  by (intro handles_unless_journal) (simp add: handles_def recover_executes)

subsection \<open>The update\<close>

text \<open>A running, undecided job whose applications are as they were, and the marks it has got so far.\<close>

definition underway :: "job_record \<Rightarrow> bool" where
  "underway m \<longleftrightarrow>
     jv_status (jr_view m) = StatusRunning \<and> jr_decision m = None \<and> op_of m ''restore_data'' = None"

lemma underwayD:
  assumes "underway m"
  shows "jv_status (jr_view m) = StatusRunning" "jr_decision m = None" "op_of m ''restore_data'' = None"
  using assms by (simp_all add: underway_def)

lemma underway_marked: "underway m \<Longrightarrow> marked key x m q \<Longrightarrow> key \<noteq> ''restore_data'' \<Longrightarrow> underway q"
  by (simp add: underway_def markedD)

lemma underway_stamped [simp]:
  "underway (stamped t m) = underway m" "underway (set_phase p m) = underway m"
  by (simp_all add: underway_def)

text \<open>Operations that are no part of the proof of safety, and the phases between them.\<close>

definition plain :: "string \<Rightarrow> bool" where
  "plain key \<longleftrightarrow> key \<notin> {''switch'', ''restore_data'', ''backup'', ''fence''}"

lemma executes_plain:
  assumes h: "holds b j m s" and m: "underway m" and key: "plain key" and s0: "control_relies s0 s"
    and act: "act \<notin> {SwitchApplications, RestoreData, TakeBackup, StartApplications}" and f: "handles j fail"
    and perf: "\<And>q u v. holds True j q u \<Longrightarrow> marked key Intent m q \<Longrightarrow> did act j u v \<Longrightarrow> performed j key (uw_events v)"
    and k: "\<And>q u0 v. holds True j q v \<Longrightarrow> underway q \<Longrightarrow> marked key Performed m q \<Longrightarrow> control_relies u0 v \<Longrightarrow>
      still j s v \<Longrightarrow> (act = StopApplications \<Longrightarrow> halted (uw_events v)) \<Longrightarrow> executes u0 (k q) v"
  shows "executes s0 (worker_operation key (deploy act) m k fail) s"
proof (rule executes_operation [OF h underwayD(1,2) [OF m] _ _ s0 _ f perf])
  show "mark_ok b j key Intent m s" using underwayD [OF m] key by (simp add: mark_ok_def plain_def)
  show "acts j (did act j) key (deploy act)" using act by (intro acts_deploy) auto
  fix q u0 t u v
  assume q: "holds True j q v" "marked key Performed m q" "control_relies u0 v" "still j s t" "did act j t u" "still j u v"
  show "executes u0 (k q) v"
  proof (rule k [OF q(1) underway_marked [OF m q(2)] q(2,3)])
    show "still j s v" using q(4,6) did_still [OF q(5)] act still_trans by blast
    show "halted (uw_events v)" if "act = StopApplications" using q(5,6) that by (simp add: did_def still_def)
  qed (use key in \<open>simp add: plain_def\<close>)
qed (use key in \<open>simp_all add: plain_def\<close>)

lemma executes_phase:
  assumes h: "holds b j m s" and m: "underway m" and s0: "control_relies s0 s"
    and k: "\<And>t u0 v. holds True j (stamped t (set_phase p m)) v \<Longrightarrow> control_relies u0 v \<Longrightarrow> still j s v \<Longrightarrow>
      executes u0 (k (stamped t (set_phase p m))) v"
  shows "executes s0 (phase p m k) s"
  unfolding phase_def
  by (rule executes_save [OF h _ write_phase [OF h] s0], rule running_simps, rule underwayD [OF m],
      rule running_simps, rule underwayD [OF m], rule k) (auto simp: still_def)

text \<open>Ready for the switch: the fence is closed, and the backup was made behind it.\<close>

definition ready :: "string \<Rightarrow> job_record \<Rightarrow> update_world \<Rightarrow> bool" where
  "ready j m w \<longleftrightarrow>
     underway m \<and> \<not> switched m \<and> op_of m ''fence'' = Some Performed \<and> op_of m ''backup'' = Some Performed \<and>
     jr_snapshot m \<noteq> None \<and> fence_closed w \<and> \<not> exposed j (uw_events w)"

lemma holds_snapshot: "holds b j m w \<Longrightarrow> holds b j (m\<lparr>jr_snapshot := Some x\<rparr>) w"
  by (simp add: holds_def carries_def marks_ok_def op_of_def switched_def same_state_def terminal_def)

lemma executes_backup:
  assumes h: "holds b j m s" and m: "underway m" "\<not> switched m" "op_of m ''fence'' = Some Performed"
    and closed: "fence_closed s" "sealed (uw_events s)" "halted (uw_events s)"
    and s0: "control_relies s0 s" and f: "handles j fail"
    and k: "\<And>q u0 v. holds True j q v \<Longrightarrow> ready j q v \<Longrightarrow> control_relies u0 v \<Longrightarrow> executes u0 (k q) v"
  shows "executes s0 (worker_operation ''backup''
      (\<lambda>r k fail. take_backup r (\<lambda>r. back_up ValidateBackup r k fail) fail) m k fail) s"
  unfolding worker_operation_def
proof (rule executes_save [OF h _ write_mark [OF h] s0])
  show "\<not> terminal m" using running_simps(1) underwayD(1) m(1) by blast
  show "mark_ok b j ''backup'' Intent m s" using underwayD [OF m(1)] m(2) by (simp add: mark_ok_def)
  fix t u0 u
  let ?m = "stamped t (set_operation ''backup'' Intent m)"
  assume u: "holds True j ?m u" "control_relies u0 u" "uw_events u = uw_events s" "fence_closed s \<Longrightarrow> fence_closed u"
  have r: "jv_status (jr_view ?m) = StatusRunning" using underwayD [OF m(1)] by simp
  note fail = handlesD [OF f _ _ control_relies_refl]
  show "executes u0 (take_backup ?m (\<lambda>r. back_up ValidateBackup r
      (\<lambda>r. save (set_operation ''backup'' Performed r) k) fail) fail) u"
    unfolding take_backup_def
  proof (rule executes_await [OF u(1) _ u(2)])
    show "may_begin TakeBackup True j ?m u" using closed u(3) by (simp add: may_begin_def)
    fix ans v
    assume v: "holds True j ?m v" "uw_events v = (j, Began TakeBackup) # uw_events u" "fence_closed u \<Longrightarrow> fence_closed v"
    have go: "executes v (noted TakeBackup ?m (back_up ValidateBackup (?m\<lparr>jr_snapshot := Some x\<rparr>)
        (\<lambda>r. save (set_operation ''backup'' Performed r) k) fail)) v" for x
    proof (rule executes_noted [OF v(1) control_relies_refl])
      let ?q = "?m\<lparr>jr_snapshot := Some x\<rparr>"
      fix w
      assume w: "holds True j ?m w" "control_relies v w" "uw_events w = (j, Done TakeBackup) # uw_events v"
        "fence_closed v \<Longrightarrow> fence_closed w"
      show "executes v (back_up ValidateBackup ?q (\<lambda>r. save (set_operation ''backup'' Performed r) k) fail) w"
      proof (rule executes_back_up [OF holds_snapshot [OF w(1)] _ w(2)])
        fix y0 y
        assume y: "holds True j ?q y" "control_relies y0 y"
          "uw_events y = (j, Done ValidateBackup) # (j, Began ValidateBackup) # uw_events w" "fence_closed w \<Longrightarrow> fence_closed y"
        have q: "jv_status (jr_view ?q) = StatusRunning" using r by simp
        have op: "op_of ?q l = op_of ?m l" for l by (simp add: op_of_def)
        have sw: "\<not> switched ?q" using m(2) by (simp add: switched_def op)
        have "mark_ok True j ''backup'' Performed ?q y"
          using underwayD [OF m(1)] sw by (simp add: mark_ok_def performed_def y(3) w(3))
        note wr = write_mark [OF y(1) this]
        show "executes y0 (save (set_operation ''backup'' Performed ?q) k) y"
        proof (rule executes_save [OF y(1) running_simps(1) [OF q] wr y(2)])
          fix t' z0 z
          assume z: "holds True j (stamped t' (set_operation ''backup'' Performed ?q)) z" "control_relies z0 z"
            "uw_events z = uw_events y" "fence_closed y \<Longrightarrow> fence_closed z"
          show "executes z0 (k (stamped t' (set_operation ''backup'' Performed ?q))) z"
          proof (rule k [OF z(1) _ z(2)])
            show "ready j (stamped t' (set_operation ''backup'' Performed ?q)) z"
              using u(3,4) v(2,3) w(3,4) y(3,4) z(3,4) closed m underwayD [OF m(1)] sw
              by (simp add: ready_def underway_def op switched_def)
          qed
        qed
      qed (simp add: may_begin_def, rule fail, assumption, use r in simp)
    qed
    show "executes v (case ans of
            Took x \<Rightarrow> noted TakeBackup ?m (back_up ValidateBackup (?m\<lparr>jr_snapshot := Some x\<rparr>) (\<lambda>r. save (set_operation ''backup'' Performed r) k) fail)
          | Broke e \<Rightarrow> fail e ?m
          | _ \<Rightarrow> fail OtherFailure ?m) v"
      using go fail [OF v(1) r] by (cases ans) simp_all
  qed
qed

lemma executes_isolate:
  assumes h: "holds True j m s" and m: "underway m" "\<not> switched m" and s0: "control_relies s0 s"
    and f: "handles j fail"
    and k: "\<And>q u0 v. holds True j q v \<Longrightarrow> ready j q v \<Longrightarrow> control_relies u0 v \<Longrightarrow> executes u0 (k q) v"
  shows "executes s0 (isolate m k fail) s"
proof -
  have backing: "executes u0 (phase BackingUp q (\<lambda>r. worker_operation ''backup''
      (\<lambda>r k fail. take_backup r (\<lambda>r. back_up ValidateBackup r k fail) fail) r k fail)) u"
    if u: "holds True j q u" "underway q" "\<not> switched q" "op_of q ''fence'' = Some Performed" "fence_closed u"
      "control_relies u0 u" "sealed (uw_events u)" "halted (uw_events u)" for q u0 u
  proof (rule executes_phase [OF u(1,2,6)])
    fix t v0 v
    assume v: "holds True j (stamped t (set_phase BackingUp q)) v" "control_relies v0 v" "still j u v"
    show "executes v0 (worker_operation ''backup''
      (\<lambda>r k fail. take_backup r (\<lambda>r. back_up ValidateBackup r k fail) fail) (stamped t (set_phase BackingUp q)) k fail) v"
      by (rule executes_backup [OF v(1) _ _ _ _ _ _ v(2) f k]) (use u v(3) in \<open>simp_all add: still_def\<close>)
  qed
  let ?stop = "\<lambda>r. worker_operation ''stop'' (deploy StopApplications) r (\<lambda>r. phase BackingUp r (\<lambda>r.
      worker_operation ''backup'' (\<lambda>r k fail. take_backup r (\<lambda>r. back_up ValidateBackup r k fail) fail) r k fail)) fail"
  have stopping: "executes u0 (?stop q) u"
    if u: "holds True j q u" "underway q" "\<not> switched q" "op_of q ''fence'' = Some Performed" "fence_closed u"
      "control_relies u0 u" "sealed (uw_events u)" for q u0 u
    by (rule executes_plain [OF u(1,2) _ u(6) _ f], simp add: plain_def, simp, simp add: performed_def, rule backing, assumption+)
      (use u in \<open>auto simp: markedD still_def\<close>)
  have fencing: "executes u0 (worker_operation ''fence'' (writeMaintenance True False) q ?stop fail) u"
    if u: "holds True j q u" "underway q" "\<not> switched q" "control_relies u0 u" for q u0 u
  proof (rule executes_operation [OF u(1) underwayD(1,2) [OF u(2)] _ _ u(4) acts_fence f])
    show "mark_ok True j ''fence'' Intent q u" using underwayD [OF u(2)] u(3) by (simp add: mark_ok_def)
    fix r v0 x y v
    assume r: "holds True j r v" "marked ''fence'' Performed q r" "control_relies v0 v" "still j u x" "closes j x y" "still j y v"
    show "executes v0 (?stop r) v"
      by (rule stopping [OF r(1) underway_marked [OF u(2) r(2)] _ _ _ r(3)])
        (use r(2,5,6) u(3) in \<open>auto simp: markedD closes_def still_def\<close>)
  qed (simp_all add: performed_def)
  have maintenance: "executes u0 (phase InMaintenance q (\<lambda>r.
      worker_operation ''fence'' (writeMaintenance True False) r ?stop fail)) u"
    if u: "holds True j q u" "underway q" "\<not> switched q" "control_relies u0 u" for q u0 u
    by (rule executes_phase [OF u(1,2,4)], rule fencing, assumption) (use u in simp_all)
  let ?prepare = "\<lambda>r. worker_operation ''prepare'' (deploy Prepare) r (\<lambda>r. phase InMaintenance r (\<lambda>r.
      worker_operation ''fence'' (writeMaintenance True False) r ?stop fail)) fail"
  have preparing: "executes u (?prepare m) u" if u: "holds True j m u" for u
    by (rule executes_plain [OF u m(1) _ control_relies_refl _ f], simp add: plain_def, simp, simp add: performed_def,
        rule maintenance, assumption+) (use m in \<open>auto simp: markedD\<close>)
  show ?thesis
    unfolding isolate_def recheck_plan_def
  proof (rule obeys_Await)
    fix a u
    assume e: "executor_relies s u"
    note u = holds_env(1) [OF h e]
    note fail = handlesD [OF f u underwayD(1) [OF m(1)] control_relies_refl]
    show "executes u (case a of
        Observed env \<Rightarrow> (case revalidate (jr_installation m) env (jr_plan m) True of Inl e \<Rightarrow> fail e m | Inr _ \<Rightarrow> ?prepare m)
      | Broke e \<Rightarrow> fail e m | _ \<Rightarrow> fail OtherFailure m) u"
      using preparing [OF u] fail by (cases a) (simp_all split: sum.splits)
  qed (use holdsD(1) [OF h] s0 in simp_all)
qed

text \<open>Exchanged, and not yet decided.\<close>

definition exchanged :: "job_record \<Rightarrow> bool" where
  "exchanged m \<longleftrightarrow> underway m \<and> op_of m ''switch'' = Some Performed"

lemma exchanged_switched: "exchanged m \<Longrightarrow> switched m"
  by (simp add: exchanged_def switched_def)

lemma exchanged_marked:
  "exchanged m \<Longrightarrow> marked key x m q \<Longrightarrow> key \<noteq> ''restore_data'' \<Longrightarrow> key \<noteq> ''switch'' \<Longrightarrow> exchanged q"
  using underway_marked [of m key x q] markedD(1) [of key x m q "''switch''"] by (simp add: exchanged_def)

lemma acts_start:
  "acts j (\<lambda>_ _. True) key (\<lambda>r k fail. writeMaintenance True True r (\<lambda>r. deploy StartApplications r k fail) fail)"
  unfolding acts_def
proof (intro allI impI)
  fix q u0 u k fail
  assume q: "holds True j q u" "jv_status (jr_view q) = StatusRunning" "op_of q key = Some Intent"
    "control_relies u0 u" "handles j fail"
    and k: "\<forall>v0 v. holds True j q v \<longrightarrow> control_relies v0 v \<longrightarrow> True \<longrightarrow> executes v0 (k q) v"
  have a: "acts j (did StartApplications j) key (deploy StartApplications)" by (rule acts_deploy) simp_all
  show "executes u0 (writeMaintenance True True q (\<lambda>r. deploy StartApplications r k fail) fail) u"
  proof (rule actsD [OF acts_fence q])
    fix v0 v
    assume v: "holds True j q v" "control_relies v0 v"
    show "executes v0 (deploy StartApplications q k fail) v"
      by (rule actsD [OF a v(1) q(2,3) v(2) q(5)]) (use k in blast)
  qed
qed

lemma executes_replace:
  assumes h: "holds True j m s" and m: "ready j m s" and s0: "control_relies s0 s" and f: "handles j fail"
    and k: "\<And>q u0 v. holds True j q v \<Longrightarrow> exchanged q \<Longrightarrow> control_relies u0 v \<Longrightarrow> executes u0 (k q) v"
  shows "executes s0 (replace_applications m k fail) s"
proof -
  let ?start = "\<lambda>r. worker_operation ''validation_start'' (\<lambda>r k fail.
       writeMaintenance True True r (\<lambda>r. deploy StartApplications r k fail) fail) r k fail"
  have starting: "executes u0 (?start q) u"
    if u: "holds True j q u" "exchanged q" "control_relies u0 u" for q u0 u
  proof (rule executes_operation [OF u(1) _ _ _ _ u(3) acts_start f])
    show "mark_ok True j ''validation_start'' Intent q u"
      "jv_status (jr_view q) = StatusRunning" "jr_decision q = None"
      using u(2) by (simp_all add: mark_ok_def exchanged_def underway_def)
    fix r v0 t x v
    assume "holds True j r v" "marked ''validation_start'' Performed q r" "control_relies v0 v"
    then show "executes v0 (k r) v" using exchanged_marked [OF u(2)] by (intro k) auto
  qed (simp_all add: performed_def)
  have u: "underway m" "\<not> switched m" using m by (simp_all add: ready_def)
  show ?thesis
    unfolding replace_applications_def
  proof (rule executes_phase [OF h u(1) s0])
    fix t u0 v
    let ?m = "stamped t (set_phase Switching m)"
    assume v: "holds True j ?m v" "control_relies u0 v" "still j s v"
    have r: "jv_status (jr_view ?m) = StatusRunning" "jr_decision ?m = None" using underwayD [OF u(1)] by simp_all
    have a: "acts j (did SwitchApplications j) ''switch'' (deploy SwitchApplications)" by (rule acts_deploy) simp_all
    show "executes u0 (worker_operation ''switch'' (deploy SwitchApplications) ?m ?start fail) v"
    proof (rule executes_operation [OF v(1) r _ _ v(2) a f])
      show "mark_ok True j ''switch'' Intent ?m v"
        using m v(3) r by (auto simp: mark_ok_def ready_def still_def)
      fix q w0 x y w
      assume q: "holds True j q w" "marked ''switch'' Performed ?m q" "control_relies w0 w"
      have "exchanged q" using underway_marked [OF _ q(2)] u(1) markedD(1) [OF q(2)] by (simp add: exchanged_def)
      then show "executes w0 (?start q) w" using starting [OF q(1) _ q(3)] by blast
    qed (simp_all add: performed_def did_def)
  qed
qed

text \<open>Confirmed: everything a commit decision has to rest on.\<close>

definition confirmed :: "job_record \<Rightarrow> bool" where
  "confirmed m \<longleftrightarrow>
     exchanged m \<and> op_of m ''verify'' = Some Performed \<and> op_of m ''persist_installation'' = Some Performed"

lemma executes_confirm:
  assumes h: "holds True j m s" and m: "exchanged m" and s0: "control_relies s0 s" and f: "handles j fail"
    and k: "\<And>q u0 v. holds True j q v \<Longrightarrow> confirmed q \<Longrightarrow> control_relies u0 v \<Longrightarrow> executes u0 (k q) v"
  shows "executes s0 (confirm m k fail) s"
proof -
  define verified where "verified = (\<lambda>q. exchanged q \<and> op_of q ''verify'' = Some Performed)"
  have v_mark: "verified q" if "verified p" "marked key Performed p q" "plain key" for p q key
    using that exchanged_marked markedD(1) by (auto simp: verified_def plain_def)
  have v_phase: "verified (stamped t (set_phase p q)) = verified q" for t p q
    by (simp add: verified_def exchanged_def)
  have ex: "underway q" if "verified q" for q using that by (simp add: verified_def exchanged_def)
  let ?persist = "\<lambda>r. worker_operation ''persist_installation'' (deploy CommitInstallation) r k fail"
  have persisting: "executes u0 (?persist q) u"
    if u: "holds True j q u" "verified q" "control_relies u0 u" for q u0 u
  proof (rule executes_plain [OF u(1) ex [OF u(2)] _ u(3) _ f])
    fix r w0 v
    assume r: "holds True j r v" "marked ''persist_installation'' Performed q r" "control_relies w0 v"
    have "confirmed r"
      using v_mark [OF u(2) r(2)] markedD(1) [OF r(2)] by (simp add: confirmed_def verified_def plain_def)
    then show "executes w0 (k r) v" by (rule k [OF r(1) _ r(3)])
  qed (simp_all add: plain_def performed_def did_def)
  let ?helper = "\<lambda>r. worker_operation ''helper'' (deploy UpdateHelper) r (\<lambda>r. phase Committing r ?persist) fail"
  have helping: "executes u0 (?helper q) u"
    if u: "holds True j q u" "verified q" "control_relies u0 u" for q u0 u
  proof (rule executes_plain [OF u(1) ex [OF u(2)] _ u(3) _ f])
    fix r w0 v
    assume r: "holds True j r v" "marked ''helper'' Performed q r" "control_relies w0 v"
    have vr: "verified r" using v_mark [OF u(2) r(2)] by (simp add: plain_def)
    show "executes w0 (phase Committing r ?persist) v"
      by (rule executes_phase [OF r(1) ex [OF vr] r(3)], rule persisting) (simp_all add: v_phase vr)
  qed (simp_all add: plain_def performed_def)
  let ?verify = "\<lambda>r. worker_operation ''verify'' (deploy VerifyInstalled) r (\<lambda>r. phase UpdatingHelper r ?helper) fail"
  have verifying: "executes u0 (?verify q) u"
    if u: "holds True j q u" "exchanged q" "control_relies u0 u" for q u0 u
  proof (rule executes_plain [OF u(1) _ _ u(3) _ f])
    fix r x v
    assume r: "holds True j r x" "marked ''verify'' Intent q r" "did VerifyInstalled j x v"
    have "performed j ''switch'' (uw_events x)"
      using holds_began(3) [OF r(1)] exchanged_marked [OF u(2) r(2)] by (simp add: done_ok_def exchanged_def)
    then show "performed j ''verify'' (uw_events v)" using r(3) by (simp add: performed_def did_def)
  next
    show "underway q" using u(2) by (simp add: exchanged_def)
    fix r w0 v
    assume r: "holds True j r v" "marked ''verify'' Performed q r" "control_relies w0 v"
    have vr: "verified r"
      using exchanged_marked [OF u(2) r(2)] markedD(1) [OF r(2)] by (simp add: verified_def)
    show "executes w0 (phase UpdatingHelper r ?helper) v"
      by (rule executes_phase [OF r(1) ex [OF vr] r(3)], rule helping) (simp_all add: v_phase vr)
  qed (simp_all add: plain_def)
  show ?thesis
    unfolding confirm_def
    by (rule executes_phase [OF h _ s0], use m in \<open>simp add: exchanged_def\<close>, rule verifying)
      (use m in \<open>simp_all add: exchanged_def\<close>)
qed

lemma update_body_executes:
  assumes h: "holds True j m s" and m: "underway m" "\<not> switched m" and s0: "control_relies s0 s"
  shows "executes s0 (update_body m) s"
  unfolding update_body_def Let_def
proof (rule executes_isolate [OF h m s0 handles_recover], rule executes_replace, assumption+, rule handles_recover,
    rule executes_confirm, assumption+, rule handles_recover)
  fix q u0 v
  assume q: "holds True j q v" "confirmed q" "control_relies u0 v"
  have r: "jv_status (jr_view q) = StatusRunning" "jr_decision q = None" "switched q" "op_of q ''restore_data'' = None"
    "op_of q ''verify'' = Some Performed" "op_of q ''persist_installation'' = Some Performed"
    using q(2) exchanged_switched by (simp_all add: confirmed_def exchanged_def underway_def)
  show "executes u0 (decide CommitDecided q completeDecision) v"
    by (rule executes_decide [OF q(1) r(1) write_decision [OF q(1) r(1-3)] q(3)]) (use r in simp_all)
qed

subsection \<open>The executor\<close>

text \<open>The first write of a queued job.\<close>

lemma write_running:
  assumes h: "holds b j m s" and st: "jv_status (jr_view m) \<in> {StatusQueued, StatusRecovery}"
  shows "write_ok b j m (set_status StatusRunning m) s"
proof -
  let ?r = "set_status StatusRunning m"
  note m = holdsD(5) [OF h]
  have "marks_ok ?r" using m by (simp add: marks_ok_def)
  moreover have "stage_le (stage m) (stage ?r)"
  proof (cases "jv_status (jr_view m) = StatusQueued")
    case True
    then have "jr_decision m = None" "op_of m k = None" for k using m by (simp_all add: marks_ok_def op_of_def)
    then show ?thesis using True by (simp add: stage_def terminal_def switched_def)
  next
    case False
    then have "jv_status (jr_view m) = StatusRecovery" using st by simp
    then have "stage m = stage ?r"
      unfolding stage_def op_of_updates switched_updates by (simp add: terminal_def)
    then show ?thesis by simp
  qed
  moreover have "done_ok j (uw_events s) ?r" using holds_began(3) [OF h] by (simp add: done_ok_def)
  ultimately show ?thesis
    using holdsD(6) [OF h] by (simp add: write_ok_def at_risk_def terminal_def)
qed

lemma run_record_executes:
  assumes h: "holds b j m s" and s0: "control_relies s0 s"
  shows "executes s0 (run_record m) s"
proof -
  have fin: "executes s0 (Finished r) s" for r
    using holdsD [OF h] s0 by (intro obeys_Finished) (simp_all add: executor_idle_def)
  consider "terminal m" | "jv_status (jr_view m) = StatusRecovery"
    | "jv_status (jr_view m) = StatusRunning" | "jv_status (jr_view m) = StatusQueued"
    by (cases "jv_status (jr_view m)") (auto simp: terminal_def)
  then show ?thesis
  proof cases
    case 3
    then show ?thesis
      using completeDecision_executes [OF h 3 _ s0] recover_executes [OF h 3 s0] fin
      by (simp add: run_record_def terminal_def)
  next
    case 4
    have q: "jr_decision m = None" "op_of m k = None" for k
      using holdsD(5) [OF h] 4 by (simp_all add: marks_ok_def op_of_def)
    have nt: "\<not> terminal m" using 4 by (simp add: terminal_def)
    have "executes s0 (save (set_status StatusRunning m) update_body) s"
      by (rule executes_save [OF h nt write_running [OF h] s0], use 4 in simp, rule update_body_executes)
        (use q in \<open>simp_all add: underway_def switched_def\<close>)
    then show ?thesis using 4 q(1) nt by (simp add: run_record_def)
  qed (simp_all add: run_record_def fin)
qed

lemma host_record_executes:
  assumes h: "holds b j m s" and s0: "control_relies s0 s"
  shows "executes s0 (host_record m) s"
proof -
  have fin: "executes u0 (Finished r) u" if "holds c j q u" "control_relies u0 u" for r c q u0 u
    using holdsD [OF that(1)] that(2) by (intro obeys_Finished) (simp_all add: executor_idle_def)
  have "executes s0 (save (set_status StatusRunning m) (\<lambda>r. Finished (Inr ()))) s"
    if st: "jv_status (jr_view m) = StatusRecovery"
    by (rule executes_save [OF h _ write_running [OF h] s0], use st in \<open>simp add: terminal_def\<close>, use st in simp,
        rule fin)
  then show ?thesis using fin [OF h s0] by (simp add: host_record_def)
qed

text \<open>Reading the record at the start.\<close>

lemma holds_read:
  assumes "executor_idle w" "not_being_accepted w j" "read_job w j = Inr r"
  shows "holds False j r w"
proof -
  have s: "seen (uw_jobs w) j = Some r"
    using assms(3) by (auto simp: read_job_def read_resource_def split: if_splits option.splits)
  then have "job_copy w j r" by (simp add: may_hold_def)
  then show ?thesis
    using assms(1,2) s copies_okD(2,3) [of w j r] by (auto simp: holds_def carries_def executor_idle_def guarded_def)
qed

lemma executor_executes:
  assumes i: "executor_idle w" and n: "not_being_accepted w j"
  shows "executes w (run_job j) w" "executes w (host_recover j) w"
proof -
  have fin: "executes w (Finished r) w" for r
    using i control_relies_refl by (intro obeys_Finished) (simp_all add: executor_idle_def)
  note h = holds_read [OF i n]
  show "executes w (run_job j) w"
    unfolding run_job_def using fin run_record_executes [OF h control_relies_refl]
    by (intro obeys_Eff) (simp split: sum.splits)
  show "executes w (host_recover j) w"
    unfolding host_recover_def using fin host_record_executes [OF h control_relies_refl]
    by (intro obeys_Eff) (simp split: sum.splits)
qed

end
