(* ===== verification/Update_Guarantees.thy ===== *)
theory Update_Guarantees
  imports Update_Recovery
begin

text \<open>
  The control process keeps the invariant too; the host keeps it in every interleaving; what the
  updater promises about data, fence and jobs follows.
\<close>

subsection \<open>The control process\<close>

abbreviation serves :: "update_world \<Rightarrow> control_proc \<Rightarrow> update_world \<Rightarrow> bool" where
  "serves \<equiv> obeys journal_ok executor_relies control_relies fair_answer control_idle"

lemma serves_done: "control_idle s \<Longrightarrow> executor_relies s0 s \<Longrightarrow> serves s0 (Finished r) s"
  by (intro obeys_Finished) (simp_all add: control_idle_def)

lemma serves_wait:
  assumes "control_idle s" "executor_relies s0 s"
    and "\<And>a u. control_idle u \<Longrightarrow> (all_terminal s \<Longrightarrow> all_terminal u) \<Longrightarrow> fair_answer q a u \<Longrightarrow> serves u (k a) u"
  shows "serves s0 (Await q k) s"
proof (rule obeys_Await)
  fix a u
  assume "control_relies s u" "fair_answer q a u"
  then show "serves u (k a) u"
    using assms(1) by (intro assms(3)) (auto simp: control_relies_def control_idle_def)
qed (use assms in \<open>simp_all add: control_idle_def\<close>)

text \<open>Ending a write of a new record leaves all other jobs alone.\<close>

lemma guarded_ends:
  assumes g: "guarded w l" and w': "dr_writing (uw_jobs w') Control = None"
    and s: "seen (uw_jobs w') l = seen (uw_jobs w) l"
    and c: "\<And>k r. job_copy w' k r \<Longrightarrow> job_copy w k r"
  shows "leaves_job w w' l"
  using assms by (simp add: leaves_job_def guarded_def not_being_accepted_def)

lemma control_completes:
  assumes ok: "journal_ok w" and wr: "dr_writing (uw_jobs w) Control = Some (j, x)"
    and w': "w' = w\<lparr>uw_jobs := complete_write Control (uw_jobs w)\<rparr>"
  shows "executor_relies w w'" "control_idle w'"
proof -
  have ok': "journal_ok w'" using journal_complete [OF ok] by (simp add: w')
  have s: "seen (uw_jobs w') = (seen (uw_jobs w))(j \<mapsto> x)" by (simp add: w' seen_rename wr)
  have c: "job_copy w k r" if "job_copy w' k r" for k r
    using may_hold_later(4) [of Control "uw_jobs w" k r] that by (simp add: w')
  have "leaves_job w w' l" if g: "guarded w l" for l
  proof (rule guarded_ends [OF g _ _ c])
    show "seen (uw_jobs w') l = seen (uw_jobs w) l"
      using g wr by (auto simp: s guarded_def not_being_accepted_def)
  qed (simp_all add: w')
  moreover have "stages_advance w w'" using orderedD(2) [OF ok wr] by (simp add: stages_advance_def s)
  ultimately show "executor_relies w w'" using ok' by (simp add: executor_relies_def w')
  show "control_idle w'" using ok' by (simp add: control_idle_def w')
qed

lemma control_ends:
  assumes ok: "journal_ok w" and w': "w' = w\<lparr>uw_jobs := end_write Control (uw_jobs w)\<rparr>"
  shows "executor_relies w w'" "control_idle w'"
proof -
  have ok': "journal_ok w'" using journal_end_write [OF ok] by (simp add: w')
  have c: "job_copy w k r" if "job_copy w' k r" for k r
    using may_hold_later(3) [of Control "uw_jobs w" k r] that by (simp add: w')
  have "leaves_job w w' l" if g: "guarded w l" for l
    by (rule guarded_ends [OF g _ _ c]) (simp_all add: w')
  then show "executor_relies w w'" using ok' by (simp add: executor_relies_def w' stages_advance_same)
  show "control_idle w'" using ok' by (simp add: control_idle_def w')
qed

text \<open>A queued record of an unused identifier may be written while no job is unfinished.\<close>

definition queued_record :: "job_record \<Rightarrow> bool" where
  "queued_record r \<longleftrightarrow>
     jv_status (jr_view r) = StatusQueued \<and> jr_operations r = [] \<and> jr_decision r = None"

lemma control_begins:
  assumes i: "control_idle w" and t: "all_terminal w" and u: "unused_id j w"
    and x: "queued_record x" "jv_jobId (jr_view x) = j"
    and w': "w' = w\<lparr>uw_jobs := begin_write Control j x (uw_jobs w)\<rparr>"
  shows "journal_ok w'" "executor_relies w w'"
proof -
  have ok: "journal_ok w" and wr: "dr_writing (uw_jobs w) Control = None" using i by (simp_all add: control_idle_def)
  have fresh: "\<not> job_copy w j r" for r using u by (simp add: unused_id_def)
  have new: "seen (uw_jobs w) j = None" "\<And>e r. dr_writing (uw_jobs w) e \<noteq> Some (j, r)"
    using fresh unfolding may_hold_def by ((cases "seen (uw_jobs w) j", blast, blast), blast)
  have op: "op_of x k = None" for k using x(1) by (simp add: queued_record_def op_of_def)
  have sx: "\<not> switched x" "\<not> at_risk x" "\<not> terminal x"
    using x(1) by (simp_all add: switched_def op at_risk_def terminal_def queued_record_def)
  have "marks_ok x" using x(1) sx op by (simp add: marks_ok_def queued_record_def)
  moreover have "began_ok j (uw_events w) x" using u by (force simp: began_ok_def unused_id_def)
  moreover have "done_ok j (uw_events w) x" using x(1) op by (simp add: done_ok_def queued_record_def)
  moreover have copy: "job_copy w k q \<or> k = j \<and> q = x" if "job_copy w' k q" for k q
    using may_hold_begin [of Control j x "uw_jobs w" k q] that by (simp add: w')
  moreover have "uw_events w' = uw_events w" by (simp add: w')
  ultimately have copies: "copies_ok w'"
    using copies_okD [OF ok] u x(2) unfolding copies_ok_def unused_id_def by metis
  have single: "single_job w'"
    using singleD [OF ok] t unfolding single_job_def all_terminal_def unfinished_def by (auto simp: w')
  have ordered: "ordered_job w'"
    using orderedD [OF ok] new unfolding ordered_job_def not_being_accepted_def by (auto simp: w')
  have "\<not> at_risk q" if q: "job_copy w k q" for k q
  proof
    assume r: "at_risk q"
    have "seen (uw_jobs w) k \<noteq> None"
    proof (cases "\<exists>e. dr_writing (uw_jobs w) e = Some (k, q)")
      case True
      then obtain e where e: "dr_writing (uw_jobs w) e = Some (k, q)" by blast
      then have "e = Executor" using wr by (cases e) auto
      then show ?thesis using orderedD(3) [OF ok] e by blast
    next
      case False
      then have "seen (uw_jobs w) k = Some q \<or> kept (uw_jobs w) k = Some q" using q by (simp add: may_hold_def)
      then show ?thesis using orderedD(1) [OF ok, of k q] by auto
    qed
    then obtain c where c: "seen (uw_jobs w) k = Some c" by blast
    then have "terminal c" using t by (auto simp: all_terminal_def unfinished_def)
    moreover have "job_copy w k c" using c by (simp add: may_hold_def)
    ultimately show False using isolatedD(3) [OF ok q r, of k c] by simp
  qed
  then have "isolated w'" using copy sx(2) unfolding isolated_def by blast
  then show ok': "journal_ok w'" using ok copies single ordered by (simp add: journal_ok_def w')
  have "leaves_job w w' l" if g: "guarded w l" for l
  proof -
    have l: "l \<noteq> j" using g new(1) by (auto simp: guarded_def)
    have "\<not> unfinished w' l" using t by (simp add: all_terminal_def unfinished_def w')
    then show ?thesis
      using g l copy unfolding leaves_job_def guarded_def not_being_accepted_def by (auto simp: w')
  qed
  then show "executor_relies w w'" using ok' by (simp add: executor_relies_def w' stages_advance_same)
qed

lemma serves_create_job:
  assumes i: "control_idle s" and t: "all_terminal s" and u: "unused_id j s"
  shows "serves s (create_job h i plan planId key actor j) s"
proof -
  let ?n = "new_job i plan planId key (h (request_text planId)) actor j (uw_now s)"
  let ?r = "stamped (uw_now s) ?n"
  define v where "v = s\<lparr>uw_jobs := begin_write Control j ?r (uw_jobs s)\<rparr>"
  have r: "queued_record ?r" "jv_jobId (jr_view ?r) = j" "jv_jobId (jr_view ?n) = j"
    by (simp_all add: queued_record_def new_job_def)
  note b = control_begins [OF i t u r(1,2) v_def]
  have "serves s (Await SaveJob (\<lambda>a. case a of
          Broke _ \<Rightarrow> Eff (\<lambda>w. (w\<lparr>uw_jobs := end_write Control (uw_jobs w)\<rparr>, failed JournalError))
        | _ \<Rightarrow> Eff (\<lambda>w. (w\<lparr>uw_jobs := complete_write Control (uw_jobs w)\<rparr>,
            start_worker j (Finished (Inr (JobAccepted (response ?r)))))))) v"
  proof (rule obeys_Await, rule b(1), rule b(2))
    fix a x
    assume e: "control_relies v x"
    have ok: "journal_ok x" and wr: "dr_writing (uw_jobs x) Control = Some (j, ?r)"
      using e b(1) by (simp_all add: control_relies_def v_def)
    note ends = control_ends [OF ok refl] and completes = control_completes [OF ok wr refl]
    have "serves x (failed JournalError) (x\<lparr>uw_jobs := end_write Control (uw_jobs x)\<rparr>)"
      unfolding failed_def using ends by (intro serves_done)
    moreover have "serves x (start_worker j (Finished (Inr (JobAccepted (response ?r)))))
        (x\<lparr>uw_jobs := complete_write Control (uw_jobs x)\<rparr>)"
      unfolding start_worker_def using completes executor_relies_refl
      by (intro serves_wait) (auto intro: serves_done)
    ultimately show "serves x (case a of
          Broke _ \<Rightarrow> Eff (\<lambda>w. (w\<lparr>uw_jobs := end_write Control (uw_jobs w)\<rparr>, failed JournalError))
        | _ \<Rightarrow> Eff (\<lambda>w. (w\<lparr>uw_jobs := complete_write Control (uw_jobs w)\<rparr>,
            start_worker j (Finished (Inr (JobAccepted (response ?r))))))) x"
      by (cases a) (simp_all add: obeys_Eff)
  qed
  moreover have "UUID j" using u by (simp add: unused_id_def)
  ultimately show ?thesis
    unfolding create_job_def saveJob_def using r by (intro obeys_Eff) (simp add: v_def Let_def obeys_Eff)
qed

lemma looked_up_terminal:
  assumes ok: "journal_ok w" and l: "look_up key dg (all_jobs w) = Inr None"
  shows "all_terminal w"
proof -
  have a: "list_all terminal (all_jobs w)"
    using l by (auto simp: look_up_def rbind_Inr_iff check_Inr_iff split: option.splits)
  have "terminal r" if "seen (uw_jobs w) j = Some r" for j r
  proof -
    have "UUID j" using copies_okD(1) [OF ok, of j r] that by (simp add: may_hold_def)
    then have "r \<in> set (all_jobs w)" unfolding set_all_jobs using that by blast
    then show ?thesis using a by (simp add: list_all_iff)
  qed
  then show ?thesis by (simp add: all_terminal_def unfinished_def)
qed

lemma serves_failed: "control_idle s \<Longrightarrow> serves s (failed e) s"
  unfolding failed_def by (rule serves_done) (simp_all add: executor_relies_refl)

lemma serves_or_fail:
  "control_idle s \<Longrightarrow> (\<And>v. x = Inr v \<Longrightarrow> serves s (k v) s) \<Longrightarrow> serves s (or_fail x k) s"
  by (cases x) (simp_all add: or_fail_def serves_failed)

lemma serves_read: "serves s (f s) s \<Longrightarrow> serves s (read_world f) s"
  unfolding read_world_def by (intro obeys_Eff) simp

lemma serves_load:
  assumes "control_idle s" "\<And>i u. control_idle u \<Longrightarrow> serves u (k i) u"
  shows "serves s (load_installation k) s"
  unfolding load_installation_def
  using assms executor_relies_refl by (intro serves_wait) (auto split: update_answer.split intro: serves_failed)

lemma serves_accept:
  assumes "control_idle s"
  shows "serves s (accept h body actor) s"
  unfolding accept_def Let_def
proof (rule serves_load [OF assms], rule serves_or_fail, assumption, rule serves_read, rule serves_or_fail, assumption)
  fix i u found
  assume u: "control_idle u" and found: "look_up (text_of (map_of body ''idempotencyKey''))
      (h (request_text (text_of (map_of body ''planId'')))) (all_jobs u) = Inr found"
  let ?planId = "text_of (map_of body ''planId'')" and ?key = "text_of (map_of body ''idempotencyKey'')"
  show "serves u (case found of
          Some answer \<Rightarrow> Finished (Inr (JobAccepted answer))
        | None \<Rightarrow> or_fail (read_plan u ?planId) (\<lambda>plan. ask_planner (\<lambda>env. or_fail (revalidate i env plan False) (\<lambda>_.
              Await NewId (\<lambda>a. case a of
                Named jobId \<Rightarrow> create_job h i plan ?planId ?key (text_of actor) jobId
              | Broke e \<Rightarrow> failed e
              | _ \<Rightarrow> failed OtherFailure))))) u"
  proof (cases found)
    case (Some answer)
    then show ?thesis using u by (simp add: serves_done executor_relies_refl)
  next
    case None
    have t: "all_terminal u" using looked_up_terminal found None u by (auto simp: control_idle_def)
    have naming: "serves v (Await NewId (\<lambda>a. case a of
                Named jobId \<Rightarrow> create_job h i plan ?planId ?key (text_of actor) jobId
              | Broke e \<Rightarrow> failed e
              | _ \<Rightarrow> failed OtherFailure)) v" if v: "control_idle v" "all_terminal v" for v plan
    proof (rule serves_wait [OF v(1) executor_relies_refl])
      fix a x
      assume "control_idle x" "all_terminal v \<Longrightarrow> all_terminal x" "fair_answer NewId a x"
      then show "serves x (case a of
                Named jobId \<Rightarrow> create_job h i plan ?planId ?key (text_of actor) jobId
              | Broke e \<Rightarrow> failed e
              | _ \<Rightarrow> failed OtherFailure) x"
        using v(2) by (cases a) (auto simp: fair_answer_def intro: serves_failed serves_create_job)
    qed
    have "serves u (or_fail (read_plan u ?planId) (\<lambda>plan. ask_planner (\<lambda>env. or_fail (revalidate i env plan False) (\<lambda>_.
              Await NewId (\<lambda>a. case a of
                Named jobId \<Rightarrow> create_job h i plan ?planId ?key (text_of actor) jobId
              | Broke e \<Rightarrow> failed e
              | _ \<Rightarrow> failed OtherFailure))))) u"
      unfolding ask_planner_def
    proof (rule serves_or_fail [OF u], rule serves_wait [OF u executor_relies_refl])
      fix plan a v
      assume v: "control_idle v" "all_terminal u \<Longrightarrow> all_terminal v"
      show "serves v (case a of
            Observed env \<Rightarrow> or_fail (revalidate i env plan False) (\<lambda>_. Await NewId (\<lambda>a. case a of
                Named jobId \<Rightarrow> create_job h i plan ?planId ?key (text_of actor) jobId
              | Broke e \<Rightarrow> failed e
              | _ \<Rightarrow> failed OtherFailure))
          | Broke e \<Rightarrow> failed e | _ \<Rightarrow> failed OtherFailure) v"
        using v naming t by (cases a) (auto intro: serves_failed serves_or_fail)
    qed
    with None show ?thesis by simp
  qed
qed

lemma serves_reconcile:
  assumes "control_idle s"
  shows "serves s reconcile s"
  unfolding reconcile_def
proof (rule serves_load [OF assms], rule serves_read, rule serves_or_fail, assumption)
  fix u found
  assume u: "control_idle u"
  have fin: "serves v (Finished r) v" if "control_idle v" for v r
    using that executor_relies_refl by (rule serves_done)
  show "serves u (case found of
         None \<Rightarrow> Finished (Inr NoReply)
       | Some r \<Rightarrow>
           if terminal r \<or> jv_status (jr_view r) = StatusRecovery then Finished (Inr NoReply)
           else Await (WorkerAlive (jv_jobId (jr_view r))) (\<lambda>a. case a of
                  Alive True \<Rightarrow> Finished (Inr NoReply)
                | Alive False \<Rightarrow> start_worker (jv_jobId (jr_view r)) (Finished (Inr NoReply))
                | Broke e \<Rightarrow> failed e
                | _ \<Rightarrow> failed OtherFailure)) u"
    unfolding start_worker_def
    using u fin executor_relies_refl
    by (auto split: option.split update_answer.split bool.split intro!: serves_wait intro: serves_failed fin)
qed

subsection \<open>Every interleaving\<close>

definition host_ok :: "host \<Rightarrow> bool" where
  "host_ok s \<longleftrightarrow>
     (case s of (w, x, c) \<Rightarrow>
        journal_ok w \<and>
        (case x of None \<Rightarrow> executor_idle w
         | Some p \<Rightarrow> in_role journal_ok control_relies executor_relies fair_answer executor_idle w p) \<and>
        (case c of None \<Rightarrow> control_idle w
         | Some p \<Rightarrow> in_role journal_ok executor_relies control_relies fair_answer control_idle w p))"

abbreviation executor_ok :: "update_world \<Rightarrow> worker_proc option \<Rightarrow> bool" where
  "executor_ok w x \<equiv> (case x of None \<Rightarrow> executor_idle w
     | Some p \<Rightarrow> in_role journal_ok control_relies executor_relies fair_answer executor_idle w p)"

abbreviation control_ok :: "update_world \<Rightarrow> control_proc option \<Rightarrow> bool" where
  "control_ok w c \<equiv> (case c of None \<Rightarrow> control_idle w
     | Some p \<Rightarrow> in_role journal_ok executor_relies control_relies fair_answer control_idle w p)"

lemma executor_stays: "executor_ok w x \<Longrightarrow> executor_relies w w' \<Longrightarrow> executor_ok w' x"
  by (cases x) (auto intro: executor.in_role_env executor.post_stable)

lemma control_stays: "control_ok w c \<Longrightarrow> control_relies w w' \<Longrightarrow> control_ok w' c"
  by (cases c) (auto intro: control.in_role_env control.post_stable)

lemma stop_executor:
  assumes "journal_ok w"
  shows "control_relies w (stop_writer Executor w)" "executor_idle (stop_writer Executor w)"
  using journal_stop [OF assms, of Executor]
  by (simp_all add: control_relies_def stages_advance_same all_terminal_def unfinished_def executor_idle_def
      stop_writer_def)

lemma stop_control:
  assumes "journal_ok w"
  shows "executor_relies w (stop_writer Control w)" "control_idle (stop_writer Control w)"
proof -
  let ?v = "w\<lparr>uw_jobs := end_write Control (uw_jobs w)\<rparr>"
  note e = control_ends [OF assms refl]
  have ok: "journal_ok (stop_writer Control w)" using journal_stop [OF assms] .
  show "control_idle (stop_writer Control w)" using ok by (simp add: control_idle_def stop_writer_def)
  have "executor_relies ?v (stop_writer Control w)"
    using ok fence_closed_files(3) [of ?v Control]
    by (auto simp: executor_relies_def stop_writer_def stages_advance_same leaves_job_def guarded_def
        not_being_accepted_def unfinished_def)
  with e(1) show "executor_relies w (stop_writer Control w)" by (rule executor_relies_trans)
qed

lemma same_jobs_leave:
  assumes "uw_jobs w' = uw_jobs w" "guarded w j"
  shows "leaves_job w w' j"
  using assms by (simp add: leaves_job_def guarded_def not_being_accepted_def unfinished_def)

lemma background_executor:
  assumes b: "background w w'" and ok: "journal_ok w"
  shows "executor_relies w w'"
proof -
  have ok': "journal_ok w'" using journal_background [OF b ok] .
  show ?thesis
    using b
  proof cases
    case (rename_job e)
    have c: "job_copy w k r" if "job_copy w' k r" for k r
      using may_hold_later(1) [of e "uw_jobs w" k r] that by (simp add: rename_job)
    have "leaves_job w w' l" if g: "guarded w l" for l
    proof -
      have "seen (uw_jobs w') l = seen (uw_jobs w) l \<or>
        (\<exists>x. dr_writing (uw_jobs w) Executor = Some (l, x) \<and> seen (uw_jobs w') l = Some x)"
        using g by (cases e) (auto simp: rename_job seen_rename guarded_def not_being_accepted_def split: option.split prod.split)
      moreover have "guarded w' l"
        using g by (auto simp: rename_job seen_rename guarded_def not_being_accepted_def split: option.split prod.split)
      ultimately show ?thesis using c unfolding leaves_job_def by blast
    qed
    moreover have "stages_advance w w'"
      using orderedD(2) [OF ok] by (auto simp: stages_advance_def rename_job seen_rename split: option.split prod.split)
    ultimately show ?thesis using ok' by (simp add: executor_relies_def rename_job)
  next
    case sync_jobs
    have c: "job_copy w k r" if "job_copy w' k r" for k r
      using may_hold_later(2) [of "uw_jobs w" k r] that by (simp add: sync_jobs)
    have "leaves_job w w' l" if g: "guarded w l" for l
      using g c unfolding leaves_job_def by (simp add: sync_jobs guarded_def not_being_accepted_def)
    then show ?thesis using ok' by (simp add: executor_relies_def sync_jobs stages_advance_same)
  next
    case (rename_fence e)
    then show ?thesis
      using ok' fence_closed_files(1) same_jobs_leave [of w' w] by (simp add: executor_relies_def stages_advance_same)
  next
    case sync_fence
    then show ?thesis
      using ok' fence_closed_files(2) same_jobs_leave [of w' w] by (simp add: executor_relies_def stages_advance_same)
  next
    case (other_changes ps t)
    then show ?thesis
      using ok' same_jobs_leave [of w' w] by (simp add: executor_relies_def stages_advance_same)
  qed
qed

lemma background_control:
  assumes b: "background w w'" and ok: "journal_ok w"
  shows "control_relies w w'"
proof -
  have e: "stages_advance w w'" "journal_ok w'"
    using background_executor [OF b ok] ok by (auto simp: executor_relies_def)
  have "dr_writing (uw_jobs w') Control = dr_writing (uw_jobs w) Control" using b by cases auto
  moreover have "all_terminal w'" if t: "dr_writing (uw_jobs w) Control = None" "all_terminal w"
    using b
  proof cases
    case (rename_job f)
    have "terminal x" if x: "dr_writing (uw_jobs w) f = Some (j, x)" for j x
    proof -
      have f: "f = Executor" using x t(1) by (cases f) auto
      then obtain c where c: "seen (uw_jobs w) j = Some c" using orderedD(3) [OF ok] x by blast
      then have "terminal c" using t(2) by (auto simp: all_terminal_def unfinished_def)
      then show ?thesis using stage_terminal [OF orderedD(2) [OF ok x c]] by blast
    qed
    then show ?thesis
      using t(2) by (auto simp: rename_job all_terminal_def unfinished_def seen_rename split: option.split prod.split if_splits)
  qed (use t(2) in \<open>auto simp: all_terminal_def unfinished_def\<close>)
  ultimately show ?thesis using e by (simp add: control_relies_def)
qed

lemma executor_started:
  assumes "executes w p w" "run p w = (w', p')" "control_ok w c"
  shows "host_ok (w', Some p', c)"
  using executor.in_role_run [OF assms(1,2)] control_stays [OF assms(3)] by (simp add: host_ok_def)

lemma control_started:
  assumes "serves w p w" "run p w = (w', p')" "executor_ok w x"
  shows "host_ok (w', x, Some p')"
  using control.in_role_run [OF assms(1,2)] executor_stays [OF assms(3)] by (simp add: host_ok_def)

lemma host_step_ok: "host_step h s s' \<Longrightarrow> host_ok s \<Longrightarrow> host_ok s'"
proof (induction rule: host_step.induct)
  case (start_worker_step w j w' p c)
  then show ?case by (intro executor_started [OF executor_executes(1)]) (auto simp: host_ok_def)
next
  case (start_recovery_step w j w' p c)
  then show ?case by (intro executor_started [OF executor_executes(2)]) (auto simp: host_ok_def)
next
  case (executor_step p a w w' p' c)
  have i: "in_role journal_ok control_relies executor_relies fair_answer executor_idle w p" "journal_ok w" "control_ok w c"
    using executor_step.prems by (simp_all add: host_ok_def)
  show ?case
    using executor.in_role_resume [OF i(1,2) executor_step.hyps] control_stays [OF i(3)] by (simp add: host_ok_def)
next
  case (executor_end p w c)
  then show ?case by (auto simp: host_ok_def in_role_def)
next
  case (executor_killed w p c)
  then show ?case
    using stop_executor [of w] journal_stop control_stays [of w c] by (simp add: host_ok_def)
next
  case (accept_step body actor w w' p x)
  then show ?case by (intro control_started [OF serves_accept]) (auto simp: host_ok_def)
next
  case (reconcile_step w w' p x)
  then show ?case by (intro control_started [OF serves_reconcile]) (auto simp: host_ok_def)
next
  case (control_step p a w w' p' x)
  have i: "in_role journal_ok executor_relies control_relies fair_answer control_idle w p" "journal_ok w" "executor_ok w x"
    using control_step.prems by (simp_all add: host_ok_def)
  show ?case
    using control.in_role_resume [OF i(1,2) control_step.hyps] executor_stays [OF i(3)] by (simp add: host_ok_def)
next
  case (control_end p w x)
  then show ?case by (auto simp: host_ok_def in_role_def)
next
  case (control_killed w x p)
  then show ?case
    using stop_control [of w] journal_stop executor_stays [of w x] by (simp add: host_ok_def)
next
  case (power_loss_step w x c)
  then have "journal_ok (power_loss w)" using journal_power_loss by (simp add: host_ok_def)
  then show ?case by (simp add: host_ok_def executor_idle_def control_idle_def) (simp add: power_loss_def)
next
  case (background_step w w' x c)
  then show ?case
    using background_executor [OF background_step.hyps] background_control [OF background_step.hyps]
      journal_background [OF background_step.hyps] executor_stays [of w x w'] control_stays [of w c w']
    by (simp add: host_ok_def)
qed

lemma fresh_host_ok: "host_ok (fresh_host now)"
  by (simp add: host_ok_def fresh_host_def executor_idle_def control_idle_def empty_dir_def journal_ok_def
      copies_ok_def single_job_def ordered_job_def isolated_def one_unfinished_def history_safe_def
      may_hold_def seen_def kept_def times_restored_def)

lemma host_reachable_ok: "host_reachable h s \<Longrightarrow> host_ok s"
  by (induction rule: host_reachable.induct) (auto intro: fresh_host_ok host_step_ok)

lemma reachable_journal: "host_reachable h (w, x, c) \<Longrightarrow> journal_ok w"
  using host_reachable_ok [of h "(w, x, c)"] by (simp add: host_ok_def)

end
