(* ===== verification/Update_Outcome.thy ===== *)
theory Update_Outcome
  imports Update_Guarantees
begin

text \<open>
  Whole runs of the worker without interference: every answer comes at once, and at most one kind of
  action is broken. What becomes of the job in each case.
\<close>

subsection \<open>Running the worker\<close>

text \<open>All actions work, except the one named.\<close>

fun answers :: "planner_env \<Rightarrow> (update_action \<times> update_error) option \<Rightarrow> update_query \<Rightarrow> update_answer" where
  "answers env broken AskPlanner = Observed env"
| "answers env broken (Deploy act r) =
     (case broken of Some (b, e) \<Rightarrow> if act = b then Broke e else Worked | None \<Rightarrow> Worked)"
| "answers env broken (BackUp act context snapshot) =
     (case broken of
        Some (b, e) \<Rightarrow> if act = b then Broke e
          else Took \<lparr>bs_jobId = bc_jobId context, bs_path = bc_backupDir context\<rparr>
      | None \<Rightarrow> Took \<lparr>bs_jobId = bc_jobId context, bs_path = bc_backupDir context\<rparr>)"
| "answers env broken q = Worked"

definition saved :: "string \<Rightarrow> job_record \<Rightarrow> update_world \<Rightarrow> update_world" where
  "saved j r w = w\<lparr>uw_jobs := complete_write Executor (begin_write Executor j r (uw_jobs w))\<rparr>"

definition fence_set :: "string \<Rightarrow> bool \<Rightarrow> bool \<Rightarrow> update_world \<Rightarrow> update_world" where
  "fence_set j active allowStart w =
     w\<lparr>uw_fence := complete_write Executor (begin_write Executor ()
         \<lparr>fn_jobId = j, fn_active = active, fn_allowStart = allowStart\<rparr> (uw_fence w)),
       uw_events := (j, Fenced active) # (j, Fencing active) # uw_events w\<rparr>"

definition begun :: "string \<Rightarrow> update_action \<Rightarrow> update_world \<Rightarrow> update_world" where
  "begun j act w = w\<lparr>uw_events := (j, Began act) # uw_events w\<rparr>"

definition ended :: "string \<Rightarrow> update_action \<Rightarrow> update_world \<Rightarrow> update_world" where
  "ended j act w = w\<lparr>uw_events := (j, Done act) # (j, Began act) # uw_events w\<rparr>"

lemma world_simps [simp]:
  "seen (uw_jobs (saved j r w)) = (seen (uw_jobs w))(j \<mapsto> r)"
  "uw_fence (saved j r w) = uw_fence w" "uw_events (saved j r w) = uw_events w" "uw_now (saved j r w) = uw_now w"
  "uw_jobs (fence_set j a b w) = uw_jobs w" "uw_now (fence_set j a b w) = uw_now w"
  "uw_events (fence_set j a b w) = (j, Fenced a) # (j, Fencing a) # uw_events w"
  "seen (uw_fence (fence_set j a b w)) () = Some \<lparr>fn_jobId = j, fn_active = a, fn_allowStart = b\<rparr>"
  "uw_jobs (begun j act w) = uw_jobs w" "uw_fence (begun j act w) = uw_fence w" "uw_now (begun j act w) = uw_now w"
  "uw_events (begun j act w) = (j, Began act) # uw_events w"
  "uw_jobs (ended j act w) = uw_jobs w" "uw_fence (ended j act w) = uw_fence w" "uw_now (ended j act w) = uw_now w"
  "uw_events (ended j act w) = (j, Done act) # (j, Began act) # uw_events w"
  by (simp_all add: saved_def fence_set_def begun_def ended_def seen_rename)

lemma serve_save:
  "UUID (jv_jobId (jr_view r)) \<Longrightarrow> f SaveJob = Worked \<Longrightarrow>
   serve f (save r k) w =
     serve f (k (stamped (uw_now w) r)) (saved (jv_jobId (jr_view r)) (stamped (uw_now w) r) w)"
  by (simp add: save_def saveJob_def saved_def Let_def)

lemma serve_fence:
  "f WriteFence = Worked \<Longrightarrow>
   serve f (writeMaintenance a b r k fail) w = serve f (k r) (fence_set (jv_jobId (jr_view r)) a b w)"
  by (simp add: writeMaintenance_def fence_set_def log_event_def)

lemma serve_deploy:
  "serve f (deploy act r k fail) w =
     (case f (Deploy act r) of Broke e \<Rightarrow> serve f (fail e r) (begun (jv_jobId (jr_view r)) act w)
      | _ \<Rightarrow> serve f (k r) (ended (jv_jobId (jr_view r)) act w))"
  by (simp add: deploy_def noted_def begun_def ended_def log_event_def split: update_answer.split)

lemma serve_back_up:
  "serve f (back_up act r k fail) w =
     (case f (BackUp act (backupContext (jr_installation r) (jv_jobId (jr_view r)) True) (jr_snapshot r)) of
        Broke e \<Rightarrow> serve f (fail e r) (begun (jv_jobId (jr_view r)) act w)
      | _ \<Rightarrow> serve f (k r) (ended (jv_jobId (jr_view r)) act w))"
  by (simp add: back_up_def noted_def begun_def ended_def log_event_def split: update_answer.split)

lemma serve_take_backup:
  "serve f (take_backup r k fail) w =
     (case f (BackUp TakeBackup (backupContext (jr_installation r) (jv_jobId (jr_view r)) True) None) of
        Took s \<Rightarrow> serve f (k (r\<lparr>jr_snapshot := Some s\<rparr>)) (ended (jv_jobId (jr_view r)) TakeBackup w)
      | Broke e \<Rightarrow> serve f (fail e r) (begun (jv_jobId (jr_view r)) TakeBackup w)
      | _ \<Rightarrow> serve f (fail OtherFailure r) (begun (jv_jobId (jr_view r)) TakeBackup w))"
  by (simp add: take_backup_def noted_def begun_def ended_def log_event_def split: update_answer.split)

lemma serve_finish:
  "UUID (jv_jobId (jr_view r)) \<Longrightarrow> f SaveJob = Worked \<Longrightarrow>
   serve f (finish status code text r) w =
     (saved (jv_jobId (jr_view r)) (stamped (uw_now w) (finished_record status code text (uw_now w) r)) w, Inr ())"
  by (simp add: finish_def serve_save)

lemma job_updates_fixed [simp]:
  "jr_plan (stamped t r) = jr_plan r" "jr_installation (stamped t r) = jr_installation r"
  "jr_plan (set_status s r) = jr_plan r" "jr_installation (set_status s r) = jr_installation r"
  by (simp_all add: stamped_def set_status_def)

lemma op_of_snapshot [simp]: "op_of (r\<lparr>jr_snapshot := s\<rparr>) k = op_of r k"
  by (simp add: op_of_def)

lemma switched_snapshot [simp]: "switched (r\<lparr>jr_snapshot := s\<rparr>) = switched r"
  by (simp add: switched_def)

lemmas serve_worker = serve_save serve_fence serve_deploy serve_back_up serve_take_backup serve_finish

text \<open>What becomes of a job when an action never works.\<close>

fun outcome :: "update_action option \<Rightarrow> job_status" where
  "outcome None = StatusSucceeded"
| "outcome (Some Prepare) = StatusFailed"
| "outcome (Some TakeBackup) = StatusFailed"
| "outcome (Some ValidateBackup) = StatusFailed"
| "outcome (Some StopApplications) = StatusRecovery"
| "outcome (Some StartApplications) = StatusRecovery"
| "outcome (Some SwitchApplications) = StatusRolledBack"
| "outcome (Some VerifyInstalled) = StatusRolledBack"
| "outcome (Some UpdateHelper) = StatusRolledBack"
| "outcome (Some CommitInstallation) = StatusRolledBack"
| "outcome (Some VerifyRestored) = StatusSucceeded"
| "outcome (Some RestoreDeployment) = StatusSucceeded"
| "outcome (Some RestoreData) = StatusSucceeded"

definition ends_as :: "string \<Rightarrow> job_status \<Rightarrow> update_world \<times> unit update_result \<Rightarrow> bool" where
  "ends_as j status = (\<lambda>(w, res).
     res = Inr () \<and> map_option (\<lambda>q. jv_status (jr_view q)) (seen (uw_jobs w) j) = Some status \<and>
     (businessWritesAllowed (current_fence w) \<longleftrightarrow> status \<noteq> StatusRecovery))"

lemma fenced_updates [simp]:
  "fenced (set_phase p r) = fenced r" "fenced (set_status s r) = fenced r"
  "fenced (set_operation k m r) \<longleftrightarrow> k = ''fence'' \<or> fenced r"
  "fenced (r\<lparr>jr_snapshot := x\<rparr>) = fenced r"
  by (simp_all add: fenced_def)

lemma fence_simps [simp]:
  "current_fence (saved j r w) = current_fence w" "current_fence (begun j act w) = current_fence w"
  "current_fence (ended j act w) = current_fence w"
  "businessWritesAllowed (current_fence (fence_set j a b w)) \<longleftrightarrow> \<not> a"
  by (simp_all add: current_fence_def businessWritesAllowed_def readMaintenance_def)

lemmas worker_steps =
  run_record_def terminal_def update_body_def isolate_def recheck_plan_def worker_operation_def phase_def
  replace_applications_def confirm_def decide_def completeDecision_def Let_def unless_journal_def
  recover_def restore_switched_def restore_def restore_data_def start_previous_def end_recovery_def
  recovery_failed_def queued_record_def

lemma run_outcome:
  assumes r: "queued_record r" "UUID (jv_jobId (jr_view r))"
    and v: "revalidate (jr_installation r) env (jr_plan r) True = Inr ()" and e: "e \<noteq> JournalError"
  shows "ends_as (jv_jobId (jr_view r)) (outcome broken)
    (serve (answers env (map_option (\<lambda>b. (b, e)) broken)) (run_record r) w)"
proof -
  have op: "op_of r k = None" for k using r(1) by (simp add: queued_record_def op_of_def)
  have sw: "\<not> switched r" "\<not> fenced r" by (simp_all add: switched_def fenced_def op)
  show ?thesis
  proof (cases broken)
    case None
    then show ?thesis using r v sw by (simp add: worker_steps serve_worker ends_as_def op)
  next
    case (Some act)
    then show ?thesis using r v e sw
      by (cases act) (simp_all add: worker_steps serve_worker ends_as_def op)
  qed
qed

text \<open>
  C12. A run of the worker on a queued job whose plan still holds always returns, and its end depends
  only on which action is broken: an update in which all actions work succeeds; a failure before the
  exchange of the applications ends it as failed with everything as it was, a failure after it as
  rolled back, and business is open again; only if the applications cannot be stopped or started
  does the job wait for the host, and then the fence stays closed.
\<close>

theorem broken_action_outcome:
  assumes "read_job w j = Inr r" "jv_jobId (jr_view r) = j" "queued_record r"
    and "revalidate (jr_installation r) env (jr_plan r) True = Inr ()" "e \<noteq> JournalError"
  shows "ends_as j (outcome broken) (serve (answers env (map_option (\<lambda>b. (b, e)) broken)) (run_job j) w)"
proof -
  have "UUID j" using assms(1) by (auto simp: read_job_def read_resource_def split: if_splits)
  then show ?thesis
    using run_outcome [OF assms(3) _ assms(4,5), of broken w] assms(1,2) by (simp add: run_job_def)
qed

end
