(* ===== verification/Update_Example.thy ===== *)
theory Update_Example
  imports Update_Outcome
begin

text \<open>
  An example host: a plan for two official releases is in the store, a job is accepted for it and a
  worker runs it, with one broken action or none. Its states are reachable.
\<close>

subsection \<open>Data\<close>

definition example_sha :: string where
  "example_sha = replicate 64 CHR ''a''"

definition example_commit :: string where
  "example_commit = replicate 40 CHR ''b''"

definition example_artifact :: "update_component \<Rightarrow> artifact" where
  "example_artifact c =
     \<lparr>af_kind = Oci, af_platform = \<lparr>pf_os = ''linux'', pf_arch = ''x64'', pf_libc = ''glibc''\<rparr>, af_name = ''image'',
      af_url = ''ghcr.io/'' @ OFFICIAL_REPOSITORIES c @ ''@sha256:'' @ example_sha, af_sha256 = example_sha,
      af_size = 1000\<rparr>"

definition example_manifest :: "update_component \<Rightarrow> manifest" where
  "example_manifest c =
     \<lparr>mf_schemaVersion = 1, mf_repository = OFFICIAL_REPOSITORIES c, mf_component = c, mf_version = ''1.2.0'',
      mf_releaseId = 7, mf_tag = ''v1.2.0'', mf_sourceCommit = example_commit, mf_publishedAt = ''2026'',
      mf_peerVersionRange = ''>=1.0.0'', mf_updaterProtocol = 1, mf_maintenanceProtocol = 1, mf_bundleFormat = 1,
      mf_artifacts = [example_artifact c]\<rparr>"

definition example_url :: "update_component \<Rightarrow> string" where
  "example_url c =
     ''https://github.com/'' @ OFFICIAL_REPOSITORIES c @ ''/releases/download/v1.2.0/update-manifest.json''"

definition example_release :: "update_component \<Rightarrow> official_release" where
  "example_release c =
     \<lparr>or_id = 7, or_tag = ''v1.2.0'', or_draft = False, or_prerelease = False, or_published = ''2026'',
      or_assets = [\<lparr>ra_name = ''update-manifest.json'', ra_url = example_url c, ra_size = 10\<rparr>]\<rparr>"

definition example_source :: catalog_source where
  "example_source =
     \<lparr>cs_page = (\<lambda>c n. Inr [example_release c]), cs_release = (\<lambda>c i. Inr (example_release c)),
      cs_manifest = (\<lambda>u. if u = example_url Backend then Inr (example_manifest Backend) else Inr (example_manifest WebApp)),
      cs_commit = (\<lambda>c t. Inr example_commit)\<rparr>"

definition example_env :: planner_env where
  "example_env =
     \<lparr>pe_deployment = Inr [], pe_backup = Inr [], pe_fingerprint = Inr ''fingerprint'', pe_source = example_source,
      pe_digest = mf_version, pe_now = 0, pe_uuid = ''00000000-0000-4000-8000-000000000001''\<rparr>"

definition example_component :: "update_component \<Rightarrow> installed_component" where
  "example_component c =
     \<lparr>ic_version = ''1.1.0'', ic_sourceCommit = example_commit, ic_artifact = example_artifact c,
      ic_manifest = (example_manifest c)\<lparr>mf_version := ''1.1.0''\<rparr>\<rparr>"

definition example_installation :: installation where
  "example_installation =
     \<lparr>in_id = ''here'', in_deployment = ManagedCompose,
      in_platform = \<lparr>pf_os = ''linux'', pf_arch = ''x64'', pf_libc = ''glibc''\<rparr>, in_stateDir = ''/state'',
      in_maintenanceFile = ''/fence'', in_dataDir = ''/data'', in_current = example_component, in_database = Sqlite\<rparr>"

definition example_view :: update_plan where
  "example_view =
     \<lparr>up_installationId = ''here'', up_planId = ''00000000-0000-4000-8000-000000000001'', up_createdAt = 0,
      up_expiresAt = 900000, up_components = map (plan_component example_installation (\<lambda>c.
          \<lparr>ic_version = ''1.2.0'', ic_sourceCommit = example_commit, ic_artifact = example_artifact c,
           ic_manifest = example_manifest c\<rparr>)) [Backend, WebApp],
      up_changes = True, up_downtime = True, up_database = Sqlite, up_method = ''consistent-sqlite-and-business-files'',
      up_blockers = [], up_executable = True\<rparr>"

definition example_plan :: persisted_plan where
  "example_plan =
     \<lparr>pp_view = example_view, pp_fingerprint = ''fingerprint'',
      pp_targets = (\<lambda>c. \<lparr>ic_version = ''1.2.0'', ic_sourceCommit = example_commit, ic_artifact = example_artifact c,
         ic_manifest = example_manifest c\<rparr>),
      pp_digests = (\<lambda>c. ''1.2.0'')\<rparr>"

text \<open>It is the plan the planner makes, and it may be executed.\<close>

lemma example_plan_view: "map_sum id pp_view (create_plan example_installation example_env) = Inr example_view"
  by code_simp

lemma example_revalidates: "revalidate example_installation example_env example_plan execution = Inr ()"
proof -
  have "revalidate example_installation example_env example_plan True = Inr ()" by code_simp
  moreover have "revalidate example_installation example_env example_plan False = Inr ()" by code_simp
  ultimately show ?thesis by (cases execution) simp_all
qed

definition example_planId :: string where
  "example_planId = ''00000000-0000-4000-8000-000000000001''"

definition example_jobId :: string where
  "example_jobId = ''00000000-0000-4000-8000-000000000002''"

definition example_body :: "(string \<times> request_json) list" where
  "example_body =
     [(''planId'', JString example_planId), (''idempotencyKey'', JString example_planId),
      (''acknowledgeDowntime'', JBool True)]"

lemma example_request: "valid_request example_body (Some (JString ''admin''))"
  by code_simp

lemma example_ids: "UUID example_planId" "UUID example_jobId"
  by code_simp+

subsection \<open>Reachable states\<close>

text \<open>A run of the executor without interference is a sequence of steps of the host.\<close>

lemma reachable_served:
  assumes "host_reachable h (fst (run p w), Some (snd (run p w)), c)" "\<And>q v. fair_answer q (f q) v"
  shows "host_reachable h (fst (serve f p w), Some (Finished (snd (serve f p w))), c)"
  using assms(1)
proof (induction p arbitrary: w)
  case (Eff g)
  have "snd (g w) \<in> Basic_BNFs.snds (g w)" by (cases "g w") simp
  from Eff.IH [OF rangeI this] show ?case using Eff.prems by simp
next
  case (Await q k)
  have "host_step h (w, Some (Await q k), c) (fst (run (k (f q)) w), Some (snd (run (k (f q)) w)), c)"
    using assms(2) [of q w] by (intro executor_step [of _ "f q"]) simp_all
  with Await.prems have "host_reachable h (fst (run (k (f q)) w), Some (snd (run (k (f q)) w)), c)"
    by (auto intro: host_next)
  from Await.IH [OF rangeI this] show ?case by simp
qed simp

lemma fair_answers: "fair_answer q (answers env broken q) w"
  by (cases q) (auto simp: fair_answer_def)

text \<open>The control process with one answer after the other.\<close>

lemma reachable_control:
  assumes "host_reachable h (w, x, Some (Await q k))" "fair_answer q a w" "run (k a) w = (w', p)"
  shows "host_reachable h (w', x, Some p)"
  using control_step [of "Await q k" a w w' p h x] assms by (auto intro: host_next)

lemma run_saveJob:
  "UUID (jv_jobId (jr_view r)) \<Longrightarrow>
   run (saveJob e r journal_failed k) w =
     (w\<lparr>uw_jobs := begin_write e (jv_jobId (jr_view r)) (stamped (uw_now w) r) (uw_jobs w)\<rparr>,
      Await SaveJob (\<lambda>a. case a of
        Broke _ \<Rightarrow> Eff (\<lambda>w. (w\<lparr>uw_jobs := end_write e (uw_jobs w)\<rparr>, journal_failed))
      | _ \<Rightarrow> Eff (\<lambda>w'. (w'\<lparr>uw_jobs := complete_write e (uw_jobs w')\<rparr>, k (stamped (uw_now w) r)))))"
  by (simp add: saveJob_def Let_def)

definition example_store :: update_world where
  "example_store =
     (fst (fresh_host 0))\<lparr>uw_plans := [(example_planId, example_plan)], uw_now := 0\<rparr>"

definition example_job :: job_record where
  "example_job = stamped 0 (new_job example_installation example_plan example_planId example_planId
     (request_text example_planId) ''admin'' example_jobId 0)"

definition example_world :: update_world where
  "example_world =
     example_store\<lparr>uw_jobs := complete_write Control (begin_write Control example_jobId example_job empty_dir)\<rparr>"

lemma example_store_reachable: "host_reachable h (example_store, None, None)"
proof -
  have "host_step h (fresh_host 0) (example_store, None, None)"
    unfolding example_store_def fresh_host_def fst_conv by (intro background_step other_changes)
  then show ?thesis using host_start host_next by blast
qed

lemma example_texts:
  "text_of (map_of example_body ''planId'') = example_planId"
  "text_of (map_of example_body ''idempotencyKey'') = example_planId"
  by (simp_all add: example_body_def text_of_def json_string_def)

lemma example_store_simps:
  "uw_jobs example_store = empty_dir" "uw_now example_store = 0" "uw_events example_store = []"
  "all_jobs example_store = []" "read_plan example_store example_planId = Inr example_plan"
  using example_ids
  by (simp_all add: example_store_def fresh_host_def all_jobs_def job_files_def empty_dir_def js_sort_def read_plan_def
      read_resource_def)

text \<open>The job is accepted; the digest of requests is the identity.\<close>

lemma example_world_reachable: "host_reachable (\<lambda>s. s) (example_world, None, None)"
proof -
  let ?p = "\<lambda>k. or_fail (check (valid_request example_body (Some (JString ''admin''))) ''INVALID_REQUEST'' ''The update request is invalid.'') k"
  define naming where "naming = Await NewId (\<lambda>a. case a of
      Named jobId \<Rightarrow> create_job (\<lambda>s. s) example_installation example_plan example_planId example_planId ''admin'' jobId
    | Broke e \<Rightarrow> failed e | _ \<Rightarrow> failed OtherFailure)"
  define asking where "asking = ask_planner (\<lambda>env. or_fail (revalidate example_installation env example_plan False) (\<lambda>_. naming))"
  have t: "text_of (Some (JString ''admin'')) = ''admin''" by (simp add: text_of_def json_string_def)
  have start: "run (accept (\<lambda>s. s) example_body (Some (JString ''admin''))) example_store =
      (example_store, accept (\<lambda>s. s) example_body (Some (JString ''admin'')))"
    by (simp add: accept_def load_installation_def)
  have r1: "host_reachable (\<lambda>s. s) (example_store, None, Some (accept (\<lambda>s. s) example_body (Some (JString ''admin''))))"
    using example_store_reachable accept_step [OF start] by (rule host_next)
  have r2: "host_reachable (\<lambda>s. s) (example_store, None, Some asking)"
    by (rule reachable_control [OF r1 [unfolded accept_def load_installation_def], where a = "Installed example_installation"])
      (simp_all add: fair_answer_def example_request or_fail_def example_texts read_world_def look_up_def
        example_store_simps asking_def naming_def ask_planner_def t)
  have r3: "host_reachable (\<lambda>s. s) (example_store, None, Some naming)"
    by (rule reachable_control [OF r2 [unfolded asking_def ask_planner_def], where a = "Observed example_env"])
      (simp_all add: fair_answer_def example_revalidates or_fail_def naming_def)
  define starting where "starting = start_worker example_jobId
      (Finished (Inr (JobAccepted (response example_job))) :: control_proc)"
  define saving where "saving = Await SaveJob (\<lambda>a. case a of
      Broke e \<Rightarrow> Eff (\<lambda>w. (w\<lparr>uw_jobs := end_write Control (uw_jobs w)\<rparr>, failed JournalError))
    | _ \<Rightarrow> Eff (\<lambda>w. (w\<lparr>uw_jobs := complete_write Control (uw_jobs w)\<rparr>, starting)))"
  have id: "jv_jobId (jr_view example_job) = example_jobId" by (simp add: example_job_def new_job_def)
  have r4: "host_reachable (\<lambda>s. s)
      (example_store\<lparr>uw_jobs := begin_write Control example_jobId example_job empty_dir\<rparr>, None, Some saving)"
  proof (rule reachable_control [OF r3 [unfolded naming_def], where a = "Named example_jobId"])
    let ?n = "new_job example_installation example_plan example_planId example_planId (request_text example_planId)
      ''admin'' example_jobId 0"
    let ?k = "\<lambda>r. start_worker example_jobId (Finished (Inr (JobAccepted (response r))))"
    have id0: "jv_jobId (jr_view ?n) = example_jobId" by (simp add: new_job_def)
    show "fair_answer NewId (Named example_jobId) example_store"
      by (simp add: fair_answer_def unused_id_def example_ids example_store_simps may_hold_def empty_dir_def seen_def kept_def)
    show "run (case Named example_jobId of
        Named jobId \<Rightarrow> create_job (\<lambda>s. s) example_installation example_plan example_planId example_planId ''admin'' jobId
      | Broke e \<Rightarrow> failed e | _ \<Rightarrow> failed OtherFailure) example_store =
      (example_store\<lparr>uw_jobs := begin_write Control example_jobId example_job empty_dir\<rparr>, saving)"
      using run_saveJob [of ?n Control "failed JournalError" ?k example_store] example_ids
      unfolding saving_def starting_def
      by (simp add: create_job_def example_store_simps id0 flip: example_job_def)
  qed
  have r5: "host_reachable (\<lambda>s. s) (example_world, None, Some starting)"
    by (rule reachable_control [OF r4 [unfolded saving_def], where a = Worked])
      (simp_all add: fair_answer_def example_world_def starting_def start_worker_def)
  have r6: "host_reachable (\<lambda>s. s) (example_world, None, Some (Finished (Inr (JobAccepted (response example_job)))))"
    by (rule reachable_control [OF r5 [unfolded starting_def start_worker_def], where a = Worked])
      (simp_all add: fair_answer_def)
  show ?thesis using r6 by (rule host_next) (intro control_end, simp)
qed

lemma example_world_simps:
  "seen (uw_jobs example_world) example_jobId = Some example_job" "uw_events example_world = []"
  "uw_now example_world = 0" "not_being_accepted example_world example_jobId"
  by (simp_all add: example_world_def seen_rename example_store_simps not_being_accepted_def empty_dir_def)

text \<open>The world after the worker has run the job, with one broken action or none.\<close>

definition example_end :: "update_action option \<Rightarrow> update_world" where
  "example_end broken = fst (serve (answers example_env (map_option (\<lambda>b. (b, OtherFailure)) broken))
     (run_job example_jobId) example_world)"

lemma example_end_reachable:
  obtains p where "host_reachable (\<lambda>s. s) (example_end broken, Some p, None)"
proof -
  let ?r = "run (run_job example_jobId) example_world"
  have "host_step (\<lambda>s. s) (example_world, None, None) (fst ?r, Some (snd ?r), None)"
    using example_world_simps(4) by (intro start_worker_step) auto
  with example_world_reachable have "host_reachable (\<lambda>s. s) (fst ?r, Some (snd ?r), None)" by (rule host_next)
  from reachable_served [where f = "answers example_env (map_option (\<lambda>b. (b, OtherFailure)) broken)", OF this fair_answers]
  show thesis using that unfolding example_end_def by blast
qed

lemma example_job_facts:
  "read_job example_world example_jobId = Inr example_job" "jv_jobId (jr_view example_job) = example_jobId"
  "queued_record example_job" "jr_installation example_job = example_installation" "jr_plan example_job = example_plan"
  by (simp_all add: read_job_def read_resource_def example_ids example_world_simps example_job_def new_job_def
      queued_record_def stamped_def)

text \<open>Two of the ends: data put back, and a job that waits for the host.\<close>

lemma example_rolled_back:
  "(example_jobId, Began RestoreData) \<in> set (uw_events (example_end (Some VerifyInstalled)))"
  "map_option (\<lambda>r. jv_status (jr_view r)) (seen (uw_jobs (example_end (Some VerifyInstalled))) example_jobId) = Some StatusRolledBack"
proof -
  note f = example_job_facts
  have op: "op_of example_job k = None" for k using f(3) by (simp add: queued_record_def op_of_def)
  have sw: "\<not> switched example_job" "\<not> fenced example_job" by (simp_all add: switched_def fenced_def op)
  show "(example_jobId, Began RestoreData) \<in> set (uw_events (example_end (Some VerifyInstalled)))"
    "map_option (\<lambda>r. jv_status (jr_view r)) (seen (uw_jobs (example_end (Some VerifyInstalled))) example_jobId) = Some StatusRolledBack"
    unfolding example_end_def run_job_def
    using f sw op example_ids by (simp_all add: worker_steps serve_worker example_revalidates)
qed

lemma example_waiting:
  "\<exists>r. seen (uw_jobs (example_end (Some StartApplications))) example_jobId = Some r \<and> at_risk r"
proof -
  note f = example_job_facts
  have op: "op_of example_job k = None" for k using f(3) by (simp add: queued_record_def op_of_def)
  have sw: "\<not> switched example_job" "\<not> fenced example_job" by (simp_all add: switched_def fenced_def op)
  show ?thesis
    unfolding example_end_def run_job_def
    using f sw op example_ids by (simp add: worker_steps serve_worker example_revalidates at_risk_def)
qed

theorem broken_action_outcome_witness:
  "ends_as example_jobId StatusRolledBack
     (serve (answers example_env (Some (VerifyInstalled, OtherFailure))) (run_job example_jobId) example_world)"
  using broken_action_outcome [OF example_job_facts(1,2,3), of example_env OtherFailure "Some VerifyInstalled"]
  by (simp add: example_job_facts example_revalidates)

end
