(* ===== verification/Update_Promises.thy ===== *)
theory Update_Promises
  imports Update_Example
begin

text \<open>
  What the updater promises in every interleaving, with failed and interrupted writes, failed
  actions, killed processes and losses of power; and an example of a host on which a job was accepted
  and run, at which the promises are tried.
\<close>

subsection \<open>Promises\<close>

text \<open>
  C10. A restoration of the data is begun only from a backup that was taken completely and then validated,
  that was begun behind a durably closed fence with the applications stopped, and since which the fence
  was never lifted, so that no data of business is lost; and at most once for each job. This holds
  however often workers are killed, the host loses power, or writes fail half-way.
\<close>

theorem restore_never_loses_data:
  assumes "host_reachable h (w, x, c)"
  shows "restores_safe (uw_events w) \<and> (\<forall>j. times_restored j (uw_events w) \<le> 1)"
  using reachable_journal [OF assms] by (simp add: journal_ok_def history_safe_def)

theorem restore_never_loses_data_witness:
  "(example_jobId, Began RestoreData) \<in> set (uw_events (example_end (Some VerifyInstalled))) \<and>
   restores_safe (uw_events (example_end (Some VerifyInstalled))) \<and>
   (\<forall>j. times_restored j (uw_events (example_end (Some VerifyInstalled))) \<le> 1)"
proof -
  obtain p where "host_reachable (\<lambda>s. s) (example_end (Some VerifyInstalled), Some p, None)"
    by (rule example_end_reachable)
  from restore_never_loses_data [OF this] example_rolled_back(1) show ?thesis by blast
qed

lemma seen_copy: "seen (uw_jobs w) j = Some r \<Longrightarrow> job_copy w j r"
  by (simp add: may_hold_def)

lemma closed_blocks: "fence_closed w \<Longrightarrow> \<not> businessWritesAllowed (current_fence w)"
  by (auto simp: fence_closed_def may_hold_def current_fence_def businessWritesAllowed_def readMaintenance_def)

lemma closed_survives: "fence_closed w \<Longrightarrow> fence_closed (power_loss w)"
  using fence_closed_files(5) [of "w\<lparr>uw_jobs := lose_power (uw_jobs w)\<rparr>"] by (simp add: power_loss_def)

text \<open>
  C11. While the applications of a job are exchanged and nothing is decided, business cannot write,
  neither now nor after a loss of power.
\<close>

theorem undecided_job_is_fenced:
  assumes "host_reachable h (w, x, c)" "seen (uw_jobs w) j = Some r" "at_risk r"
  shows "\<not> businessWritesAllowed (current_fence w) \<and> \<not> businessWritesAllowed (current_fence (power_loss w))"
  using isolatedD(1) [OF reachable_journal [OF assms(1)] seen_copy [OF assms(2)] assms(3)]
    closed_blocks closed_survives by blast

theorem undecided_job_is_fenced_witness:
  "\<not> businessWritesAllowed (current_fence (example_end (Some StartApplications))) \<and>
   \<not> businessWritesAllowed (current_fence (power_loss (example_end (Some StartApplications))))"
proof -
  obtain p where r: "host_reachable (\<lambda>s. s) (example_end (Some StartApplications), Some p, None)"
    by (rule example_end_reachable)
  from example_waiting obtain q where
    "seen (uw_jobs (example_end (Some StartApplications))) example_jobId = Some q" "at_risk q" by blast
  from undecided_job_is_fenced [OF r this] show ?thesis .
qed

text \<open>What a final status stands for, given the history.\<close>

definition status_true :: "string \<Rightarrow> job_record \<Rightarrow> (string \<times> update_event) list \<Rightarrow> bool" where
  "status_true j r es =
     (case jv_status (jr_view r) of
        StatusSucceeded \<Rightarrow>
          in_order j (Done SwitchApplications) (Done VerifyInstalled) es \<and> (j, Done CommitInstallation) \<in> set es \<and>
          (j, Began RestoreData) \<notin> set es
      | StatusRolledBack \<Rightarrow>
          in_order j (Done RestoreDeployment) (Done RestoreData) es \<and>
          in_order j (Done RestoreData) (Done VerifyRestored) es
      | StatusFailed \<Rightarrow> (j, Began SwitchApplications) \<notin> set es \<and> (j, Began RestoreData) \<notin> set es
      | _ \<Rightarrow> True)"

text \<open>
  C14. A job reported as succeeded had its applications exchanged and then verified, the installation
  committed, and its data never put back; one reported as rolled back had the previous applications, then
  its data put back completely, and the result verified; one reported as failed never had the exchange of
  its applications or the restoration of its data begun.
\<close>

theorem final_status_is_true:
  assumes "host_reachable h (w, x, c)" "seen (uw_jobs w) j = Some r"
  shows "status_true j r (uw_events w)"
proof -
  note c = copies_okD(3-5) [OF reachable_journal [OF assms(1)] seen_copy [OF assms(2)]]
  have p: "performed j key (uw_events w)" if "op_of r key = Some Performed" for key
    using c(3) that by (simp add: done_ok_def)
  show ?thesis
  proof (cases "jv_status (jr_view r)")
    case StatusSucceeded
    then have "op_of r ''verify'' = Some Performed" "op_of r ''persist_installation'' = Some Performed"
      "op_of r ''restore_data'' = None" using c(1) by (simp_all add: marks_ok_def)
    then show ?thesis
      using StatusSucceeded c(2) p [of "''verify''"] p [of "''persist_installation''"]
      by (auto simp: status_true_def performed_def began_ok_def)
  next
    case StatusRolledBack
    then have "jr_decision r = Some RestoreDecided" "op_of r ''restore_data'' = Some Performed"
      using c(1) by (simp_all add: marks_ok_def)
    then show ?thesis
      using StatusRolledBack c(3) p [of "''restore_data''"] by (simp add: status_true_def performed_def done_ok_def)
  next
    case StatusFailed
    then show ?thesis using c(1,2) by (auto simp: status_true_def marks_ok_def began_ok_def)
  qed (simp_all add: status_true_def)
qed

theorem final_status_is_true_witness:
  "\<exists>r. seen (uw_jobs (example_end (Some VerifyInstalled))) example_jobId = Some r \<and>
     jv_status (jr_view r) = StatusRolledBack \<and>
     status_true example_jobId r (uw_events (example_end (Some VerifyInstalled)))"
proof -
  obtain p where r: "host_reachable (\<lambda>s. s) (example_end (Some VerifyInstalled), Some p, None)"
    by (rule example_end_reachable)
  obtain q where q: "seen (uw_jobs (example_end (Some VerifyInstalled))) example_jobId = Some q"
    "jv_status (jr_view q) = StatusRolledBack" using example_rolled_back(2) by auto
  from final_status_is_true [OF r q(1)] q show ?thesis by blast
qed

lemma one_active:
  assumes "one_unfinished d" "distinct js" "\<And>j. j \<in> set js \<Longrightarrow> d j \<noteq> None"
  shows "length (filter (\<lambda>r. \<not> terminal r) (map (\<lambda>j. the (d j)) js)) \<le> 1"
  using assms(2,3)
proof (induction js)
  case (Cons j js)
  show ?case
  proof (cases "terminal (the (d j))")
    case False
    have "terminal (the (d k))" if "k \<in> set js" for k
      using Cons.prems that assms(1) False unfolding one_unfinished_def by (metis distinct.simps(2) list.set_intros
        option.exhaust_sel)
    then have "filter (\<lambda>r. \<not> terminal r) (map (\<lambda>j. the (d j)) js) = []" by (auto simp: filter_empty_conv)
    then show ?thesis using False by simp
  qed (use Cons in auto)
qed simp

lemma mset_insert_by: "mset (insert_by cmp x ys) = add_mset x (mset ys)"
  by (induction ys) auto

lemma mset_js_sort: "mset (js_sort cmp xs) = mset xs"
  unfolding js_sort_def by (induction xs) (auto simp: mset_insert_by)

lemma length_filter_mset: "mset xs = mset ys \<Longrightarrow> length (filter P xs) = length (filter P ys)"
  by (metis mset_filter size_mset)

lemma current_job_found:
  assumes "journal_ok w"
  shows "\<exists>found. current_job w = Inr found"
proof -
  have "length (filter (\<lambda>r. \<not> terminal r) (all_jobs w)) =
      length (filter (\<lambda>r. \<not> terminal r) (map (\<lambda>j. the (seen (uw_jobs w) j)) (job_files w)))"
    unfolding all_jobs_def by (intro length_filter_mset mset_js_sort)
  also have "\<dots> \<le> 1"
  proof (rule one_active [OF singleD(1) [OF assms]])
    show "distinct (job_files w)" by (simp add: job_files_def)
  qed (simp add: set_job_files)
  finally show ?thesis by (simp add: current_job_def check_def Let_def rbind_def)
qed

text \<open>
  C15. There is never more than one unfinished job, also after a loss of power: asking for the current
  job never finds the ownership uncertain.
\<close>

theorem one_job_at_a_time:
  assumes "host_reachable h (w, x, c)"
  shows "\<exists>found later. current_job w = Inr found \<and> current_job (power_loss w) = Inr later"
  using current_job_found reachable_journal [OF assms] journal_power_loss by blast

theorem one_job_at_a_time_witness:
  "\<exists>found later. current_job (example_end None) = Inr found \<and> current_job (power_loss (example_end None)) = Inr later"
proof -
  obtain p where "host_reachable (\<lambda>s. s) (example_end None, Some p, None)" by (rule example_end_reachable)
  then show ?thesis by (rule one_job_at_a_time)
qed

subsection \<open>The protocol of a job\<close>

text \<open>
  The abstract host: the stage of every job as it is visible, and as it is after a loss of power. A step
  lets visible jobs advance along the protocol, or goes back to what was durable.
\<close>

type_synonym stages = "string \<Rightarrow> job_stage option"

definition protocol_step :: "stages \<times> stages \<Rightarrow> stages \<times> stages \<Rightarrow> bool" where
  "protocol_step s t \<longleftrightarrow>
     (\<forall>j a. fst s j = Some a \<longrightarrow> (\<exists>b. fst t j = Some b \<and> stage_le a b)) \<or> t = (snd s, snd s)"

text \<open>What is durable is never ahead of what is visible.\<close>

definition durable_behind :: "stages \<times> stages \<Rightarrow> bool" where
  "durable_behind s \<longleftrightarrow> (\<forall>j a. snd s j = Some a \<longrightarrow> (\<exists>b. fst s j = Some b \<and> stage_le a b))"

definition stages_of :: "host \<Rightarrow> stages \<times> stages" where
  "stages_of s =
     (case s of (w, x, c) \<Rightarrow> (\<lambda>j. map_option stage (seen (uw_jobs w) j), \<lambda>j. map_option stage (kept (uw_jobs w) j)))"

lemma advance_protocol: "stages_advance w w' \<Longrightarrow> protocol_step (stages_of (w, x, c)) (stages_of (w', x', c'))"
  unfolding protocol_step_def stages_of_def stages_advance_def by force

lemma control_relies_advance: "journal_ok w \<Longrightarrow> control_relies w w' \<Longrightarrow> stages_advance w w'"
  by (simp add: control_relies_def)

lemma executor_relies_advance: "journal_ok w \<Longrightarrow> executor_relies w w' \<Longrightarrow> stages_advance w w'"
  by (simp add: executor_relies_def)

lemma host_step_protocol: "host_step h s s' \<Longrightarrow> host_ok s \<Longrightarrow> protocol_step (stages_of s) (stages_of s')"
proof (induction rule: host_step.induct)
  case (start_worker_step w j w' p c)
  then show ?case
    using executor.in_role_run [OF executor_executes(1)] by (intro advance_protocol) (auto simp: host_ok_def control_relies_advance)
next
  case (start_recovery_step w j w' p c)
  then show ?case
    using executor.in_role_run [OF executor_executes(2)] by (intro advance_protocol) (auto simp: host_ok_def control_relies_advance)
next
  case (executor_step p a w w' p' c)
  have i: "in_role journal_ok control_relies executor_relies fair_answer executor_idle w p" "journal_ok w"
    using executor_step.prems by (simp_all add: host_ok_def)
  show ?case
    using executor.in_role_resume [OF i executor_step.hyps] i(2) by (intro advance_protocol) (auto simp: control_relies_advance)
next
  case (executor_killed w p c)
  then show ?case using stop_executor(1) by (intro advance_protocol) (auto simp: host_ok_def control_relies_advance)
next
  case (accept_step body actor w w' p x)
  then show ?case
    using control.in_role_run [OF serves_accept] by (intro advance_protocol) (auto simp: host_ok_def executor_relies_advance)
next
  case (reconcile_step w w' p x)
  then show ?case
    using control.in_role_run [OF serves_reconcile] by (intro advance_protocol) (auto simp: host_ok_def executor_relies_advance)
next
  case (control_step p a w w' p' x)
  have i: "in_role journal_ok executor_relies control_relies fair_answer control_idle w p" "journal_ok w"
    using control_step.prems by (simp_all add: host_ok_def)
  show ?case
    using control.in_role_resume [OF i control_step.hyps] i(2) by (intro advance_protocol) (auto simp: executor_relies_advance)
next
  case (control_killed w x p)
  then show ?case using stop_control(1) by (intro advance_protocol) (auto simp: host_ok_def executor_relies_advance)
next
  case (power_loss_step w x c)
  then show ?case by (simp add: protocol_step_def stages_of_def power_loss_def)
next
  case (background_step w w' x c)
  then show ?case
    using background_executor by (intro advance_protocol) (auto simp: host_ok_def executor_relies_advance)
qed (auto intro: advance_protocol stages_advance_same)

text \<open>
  C13. The host implements the protocol of a job: in every step each visible job record moves forward
  along the stages, or power was lost and all records are the durable ones, which are never ahead.
\<close>

theorem host_refines_protocol:
  assumes "host_reachable h s" "host_step h s s'"
  shows "protocol_step (stages_of s) (stages_of s') \<and> durable_behind (stages_of s')"
proof
  show "protocol_step (stages_of s) (stages_of s')"
    using host_step_protocol [OF assms(2) host_reachable_ok [OF assms(1)]] .
  obtain w x c where s': "s' = (w, x, c)" by (cases s') auto
  have "journal_ok w" using host_step_ok [OF assms(2) host_reachable_ok [OF assms(1)]] by (simp add: host_ok_def s')
  from orderedD(1) [OF this] show "durable_behind (stages_of s')"
    unfolding durable_behind_def stages_of_def s' by force
qed

theorem host_refines_protocol_witness:
  "\<exists>s. protocol_step (stages_of s) (stages_of (power_loss (example_end None), None, None)) \<and>
     durable_behind (stages_of (power_loss (example_end None), None, None))"
proof -
  obtain p where r: "host_reachable (\<lambda>s. s) (example_end None, Some p, None)" by (rule example_end_reachable)
  from host_refines_protocol [OF r power_loss_step] show ?thesis by blast
qed

end
