(* ===== verification/Address_Book_Store.thy ===== *)
theory Address_Book_Store
  imports Rbac_Store "HOL-Library.Option_ord" "HOL-Library.Product_Lexorder"
begin

text \<open>
  The tables of the address book module (\<open>src/modules/address-book/entities\<close>) and what its
  services read of the user, user group, device and system information tables. A table is the
  list of its rows in creation order, as in the access control; a nullable column is an option,
  \<open>createdAt\<close> and \<open>updatedAt\<close> are left out. The column \<open>info\<close> holds the text of a JSON
  object, represented by the object. String columns compare exactly.

  A service operation is a function from the tables to its result and the tables it leaves:
  a handler that throws half way leaves what it had already written, unless it runs in a
  transaction.
\<close>

subsection \<open>Entities\<close>

datatype ShareRule = READ | READ_WRITE | FULL_CONTROL

fun level :: "ShareRule \<Rightarrow> int" where
  "level READ = 1"
| "level READ_WRITE = 2"
| "level FULL_CONTROL = 3"

lemma level_bounds [simp]: "0 < level r" "level r \<le> 3" "1 \<le> level r"
  by (cases r; simp)+

record ab_book =
  bk_guid :: string
  bk_owner :: string
  bk_personal :: bool
  bk_shared :: bool
  bk_name :: "string option"
  bk_note :: "string option"
  bk_info :: "json option"

record ab_rule =
  ru_guid :: string
  ru_book :: string
  ru_user :: "string option"
  ru_group :: "string option"
  ru_level :: int

definition ruleType :: "ab_rule \<Rightarrow> string" where
  "ruleType r = (if nonempty (ru_user r) \<noteq> None then ''user''
     else if nonempty (ru_group r) \<noteq> None then ''group'' else ''everyone'')"

record ab_tag =
  tg_guid :: string
  tg_book :: string
  tg_name :: string
  tg_color :: int

record ab_peer =
  pr_guid :: string
  pr_book :: string
  pr_device :: string
  pr_hash :: "string option"
  pr_password :: "string option"
  pr_alias :: "string option"
  pr_note :: "string option"

record ab_link =
  ln_peer :: string
  ln_tag :: string

text \<open>The columns the module reads of the tables it does not own.\<close>

record ab_user =
  us_guid :: string
  us_name :: string
  us_display :: "string option"
  us_group :: "string option"

record ab_group =
  gr_guid :: string
  gr_name :: string

record ab_device =
  dv_uuid :: string
  dv_id :: string
  dv_heartbeat :: "int option"

record ab_sysinfo =
  si_uuid :: string
  si_user :: "string option"
  si_host :: "string option"
  si_os :: "string option"

record ab_db =
  ab_books :: "ab_book list"
  ab_rules :: "ab_rule list"
  ab_tags :: "ab_tag list"
  ab_peers :: "ab_peer list"
  ab_links :: "ab_link list"
  ab_users :: "ab_user list"
  ab_groups :: "ab_group list"
  ab_devices :: "ab_device list"
  ab_sysinfos :: "ab_sysinfo list"

subsection \<open>Reading the tables\<close>

definition book_of :: "ab_db \<Rightarrow> string \<Rightarrow> ab_book option" where
  "book_of d g = find (\<lambda>b. bk_guid b = g) (ab_books d)"

definition user_of :: "ab_db \<Rightarrow> string \<Rightarrow> ab_user option" where
  "user_of d g = find (\<lambda>u. us_guid u = g) (ab_users d)"

definition tag_named :: "ab_db \<Rightarrow> string \<Rightarrow> string \<Rightarrow> ab_tag option" where
  "tag_named d b n = find (\<lambda>t. tg_name t = n \<and> tg_book t = b) (ab_tags d)"

definition peer_on :: "ab_db \<Rightarrow> string \<Rightarrow> string \<Rightarrow> ab_peer option" where
  "peer_on d b dev = find (\<lambda>p. pr_device p = dev \<and> pr_book p = b) (ab_peers d)"

type_synonym 'a ab_op = "(ab_db, 'a) state_op"

subsection \<open>Deleting\<close>

text \<open>
  \<open>delete\<close> of devices takes their links along (\<open>ON DELETE CASCADE\<close>); a tag that is still
  linked cannot be deleted (\<open>ON DELETE NO ACTION\<close> on \<open>address_book_peer_tags.tagGuid\<close>).
  Deleting an address book takes everything that belongs to it along.
\<close>

definition delete_links :: "(ab_link \<Rightarrow> bool) \<Rightarrow> ab_db \<Rightarrow> ab_db" where
  "delete_links P d = d\<lparr>ab_links := filter (\<lambda>l. \<not> P l) (ab_links d)\<rparr>"

definition delete_peers :: "(ab_peer \<Rightarrow> bool) \<Rightarrow> ab_db \<Rightarrow> ab_db" where
  "delete_peers P d = (let gone = map pr_guid (filter P (ab_peers d)) in
     d\<lparr>ab_peers := filter (\<lambda>p. \<not> P p) (ab_peers d),
       ab_links := filter (\<lambda>l. ln_peer l \<notin> set gone) (ab_links d)\<rparr>)"

definition delete_tags :: "(ab_tag \<Rightarrow> bool) \<Rightarrow> unit ab_op" where
  "delete_tags P d = (let gone = map tg_guid (filter P (ab_tags d)) in
     if list_ex (\<lambda>l. ln_tag l \<in> set gone) (ab_links d)
     then (Inl (OtherError ''FOREIGN KEY constraint failed''), d)
     else (Inr (), d\<lparr>ab_tags := filter (\<lambda>t. \<not> P t) (ab_tags d)\<rparr>))"

definition delete_books :: "(string \<Rightarrow> bool) \<Rightarrow> ab_db \<Rightarrow> ab_db" where
  "delete_books P d =
     (let peers' = filter (\<lambda>p. \<not> P (pr_book p)) (ab_peers d) in
      d\<lparr>ab_books := filter (\<lambda>b. \<not> P (bk_guid b)) (ab_books d),
        ab_rules := filter (\<lambda>r. \<not> P (ru_book r)) (ab_rules d),
        ab_tags := filter (\<lambda>t. \<not> P (tg_book t)) (ab_tags d),
        ab_peers := peers',
        ab_links := filter (\<lambda>l. ln_peer l \<in> set (map pr_guid peers')) (ab_links d)\<rparr>)"

subsection \<open>Devices reached by address, and platforms\<close>

definition is_digit :: "char \<Rightarrow> bool" where
  "is_digit ch = (let n = (of_char ch :: nat) in 48 \<le> n \<and> n \<le> 57)"

text \<open>
  The pattern for an IPv4 address with an optional port. The digits before a dot are all of
  them, since a dot is no digit.
\<close>

fun dotted :: "nat \<Rightarrow> string \<Rightarrow> bool" where
  "dotted n s =
     (let k = length (takeWhile is_digit s); rest = dropWhile is_digit s
      in 1 \<le> k \<and> k \<le> 3 \<and>
         (if n = 0
          then rest = [] \<or> (hd rest = CHR '':'' \<and> tl rest \<noteq> [] \<and> list_all is_digit (tl rest))
          else rest \<noteq> [] \<and> hd rest = CHR ''.'' \<and> dotted (n - 1) (tl rest)))"

declare dotted.simps [simp del]

definition isIpDevice :: "string \<Rightarrow> bool" where
  "isIpDevice s = (s \<noteq> [] \<and> (hd s = CHR ''['' \<or> dotted 3 s))"

text \<open>\<open>os.split(' / ')[0]\<close>\<close>

fun before_slash :: "string \<Rightarrow> string" where
  "before_slash [] = []"
| "before_slash (c # cs) = (if is_prefix '' / '' (c # cs) then [] else c # before_slash cs)"

definition mapOsToPlatform :: "string option \<Rightarrow> string" where
  "mapOsToPlatform v = (case nonempty v of None \<Rightarrow> [] | Some os \<Rightarrow>
     (let dist = js_trim (map ascii_lower (before_slash os)); low = map ascii_lower os
      in if is_substring ''windows'' dist \<or> dist = ''win'' then ''Windows''
         else if is_substring ''mac'' dist \<or> is_substring ''darwin'' dist \<or> dist = ''macos'' \<or> dist = ''osx''
         then ''Mac OS''
         else if is_substring ''android'' dist then ''Android''
         else if is_substring ''linux'' dist then ''Linux''
         else if is_substring ''windows'' low then ''Windows''
         else if is_substring ''mac'' low \<or> is_substring ''darwin'' low then ''Mac OS''
         else if is_substring ''android'' low then ''Android''
         else if is_substring ''linux'' low then ''Linux'' else []))"

subsection \<open>Pages\<close>

text \<open>Rows \<open>(current - 1) * pageSize\<close> on, at most \<open>pageSize\<close>; the query object holds 1 and 20
  where the request gives neither.\<close>

record ab_page =
  pg_current :: nat
  pg_size :: nat

definition page_rows :: "ab_page \<Rightarrow> 'r list \<Rightarrow> 'r list" where
  "page_rows q rows = take (pg_size q) (drop ((pg_current q - 1) * pg_size q) rows)"

lemma set_page_rows: "set (page_rows q rows) \<subseteq> set rows"
  unfolding page_rows_def by (meson set_drop_subset set_take_subset subset_trans)

lemma pages_cover:
  "concat (map (\<lambda>i. page_rows \<lparr>pg_current = i, pg_size = n\<rparr> rows) [1..<Suc k]) = take (k * n) rows"
proof (induction k)
  case 0
  then show ?case by simp
next
  case (Suc k)
  have "take (k * n) rows @ take n (drop (k * n) rows) = take (Suc k * n) rows"
    using take_add [of "k * n" n rows] by (simp add: add.commute)
  then show ?case using Suc by (simp add: page_rows_def)
qed

subsection \<open>Well-formed tables\<close>

definition targets_of :: "ab_rule \<Rightarrow> string \<times> string option \<times> string option" where
  "targets_of r = (ru_book r, ru_user r, ru_group r)"

text \<open>What the schema declares (primary and foreign keys)\<close>

definition ab_schema :: "ab_db \<Rightarrow> bool" where
  "ab_schema d \<longleftrightarrow>
     distinct (map bk_guid (ab_books d)) \<and>
     distinct (map (\<lambda>r. (ru_guid r, ru_book r)) (ab_rules d)) \<and>
     distinct (map tg_guid (ab_tags d)) \<and>
     distinct (map pr_guid (ab_peers d)) \<and>
     distinct (ab_links d) \<and>
     (\<forall>r \<in> set (ab_rules d). ru_book r \<in> bk_guid ` set (ab_books d)) \<and>
     (\<forall>t \<in> set (ab_tags d). tg_book t \<in> bk_guid ` set (ab_books d)) \<and>
     (\<forall>p \<in> set (ab_peers d). pr_book p \<in> bk_guid ` set (ab_books d))"

text \<open>
  and what only the services see to: a link stays within one address book, a rule names a user or
  a group or nobody, its level is one of the three, and no target has two rules on one book.
\<close>

definition links_local :: "ab_db \<Rightarrow> bool" where
  "links_local d \<longleftrightarrow> (\<forall>l \<in> set (ab_links d). \<exists>p \<in> set (ab_peers d). \<exists>t \<in> set (ab_tags d).
     pr_guid p = ln_peer l \<and> tg_guid t = ln_tag l \<and> pr_book p = tg_book t)"

definition rules_sound :: "ab_db \<Rightarrow> bool" where
  "rules_sound d \<longleftrightarrow>
     distinct (map targets_of (ab_rules d)) \<and>
     (\<forall>r \<in> set (ab_rules d). (ru_user r = None \<or> ru_group r = None) \<and> ru_level r \<in> {1, 2, 3})"

text \<open>Accounts and groups have an identifier that is not the empty string.\<close>

definition accounts_named :: "ab_db \<Rightarrow> bool" where
  "accounts_named d \<longleftrightarrow> (\<forall>u \<in> set (ab_users d). us_guid u \<noteq> []) \<and> (\<forall>g \<in> set (ab_groups d). gr_guid g \<noteq> [])"

definition ab_ok :: "ab_db \<Rightarrow> bool" where
  "ab_ok d \<longleftrightarrow> ab_schema d \<and> links_local d \<and> rules_sound d \<and> accounts_named d"

lemma book_of_Some: "book_of d g = Some b \<Longrightarrow> b \<in> set (ab_books d) \<and> bk_guid b = g"
  unfolding book_of_def by (drule find_SomeD) simp

lemma book_of_iff:
  "ab_schema d \<Longrightarrow> book_of d g = Some b \<longleftrightarrow> b \<in> set (ab_books d) \<and> bk_guid b = g"
  unfolding book_of_def ab_schema_def
  by (auto dest: find_SomeD intro!: find_unique simp: distinct_map inj_on_def)

lemma book_of_None: "book_of d g = None \<longleftrightarrow> g \<notin> bk_guid ` set (ab_books d)"
  by (auto simp: book_of_def find_None_iff_all)

lemma peer_on_Some: "peer_on d b dev = Some p \<Longrightarrow> p \<in> set (ab_peers d) \<and> pr_device p = dev \<and> pr_book p = b"
  unfolding peer_on_def by (drule find_SomeD) simp

lemma tag_named_Some: "tag_named d b n = Some t \<Longrightarrow> t \<in> set (ab_tags d) \<and> tg_name t = n \<and> tg_book t = b"
  unfolding tag_named_def by (drule find_SomeD) simp

text \<open>Identifiers drawn by \<open>uuidv4()\<close> are not in use.\<close>

definition used_ids :: "ab_db \<Rightarrow> string set" where
  "used_ids d = bk_guid ` set (ab_books d) \<union> ru_guid ` set (ab_rules d) \<union> tg_guid ` set (ab_tags d)
     \<union> pr_guid ` set (ab_peers d) \<union> dv_uuid ` set (ab_devices d) \<union> pr_device ` set (ab_peers d)"

definition fresh_ids :: "(nat \<Rightarrow> string) \<Rightarrow> ab_db \<Rightarrow> bool" where
  "fresh_ids gs d \<longleftrightarrow> inj gs \<and> range gs \<inter> used_ids d = {}"

end
