(* ===== verification/Address_Book_Access.thy ===== *)
theory Address_Book_Access
  imports Address_Book_Store
begin

text \<open>
  The permission check of the address books
  (\<open>src/modules/address-book/services/address-book-permission.service.ts\<close>), against the
  specification \<open>reaches\<close>: who holds which level on a book. The other services take the check
  as their only access control.
\<close>

subsection \<open>The check\<close>

text \<open>\<open>applicableTargets\<close>: rules for the user, for everyone, and for the user's group.\<close>

definition applicable :: "ab_user \<Rightarrow> string \<Rightarrow> ab_rule \<Rightarrow> bool" where
  "applicable us g r \<longleftrightarrow> ru_book r = g \<and>
     ((ru_user r = Some (us_guid us) \<and> ru_group r = None)
      \<or> (ru_user r = None \<and> ru_group r = None)
      \<or> (nonempty (us_group us) \<noteq> None \<and> ru_user r = None \<and> ru_group r = us_group us))"

definition effectiveRule :: "ab_rule list \<Rightarrow> int" where
  "effectiveRule rules = foldl (\<lambda>strongest r. max strongest (ru_level r)) 0 rules"

definition checkAddressBookAccess :: "ab_db \<Rightarrow> string \<Rightarrow> string \<Rightarrow> ShareRule \<Rightarrow> ab_book result" where
  "checkAddressBookAccess d g u required =
     (case book_of d g of
        None \<Rightarrow> Inl (NotFoundException ''Address book does not exist'')
      | Some b \<Rightarrow>
          if bk_owner b = u then Inr b
          else case user_of d u of
            None \<Rightarrow> Inl (ForbiddenException ''No permission to access this address book'')
          | Some us \<Rightarrow>
              (let effective = effectiveRule (filter (applicable us g) (ab_rules d))
               in if effective = 0
                  then Inl (ForbiddenException ''No permission to access this address book'')
                  else if effective < level required
                  then Inl (ForbiddenException
                    ((if required = READ_WRITE then ''Read-write'' else ''Full control'') @ '' permission required''))
                  else Inr b))"

subsection \<open>Who reaches which level\<close>

definition reaches :: "ab_db \<Rightarrow> string \<Rightarrow> string \<Rightarrow> int \<Rightarrow> bool" where
  "reaches d u g n \<longleftrightarrow> (\<exists>b. book_of d g = Some b \<and>
     (bk_owner b = u \<or>
      (\<exists>us r. user_of d u = Some us \<and> r \<in> set (ab_rules d) \<and> applicable us g r \<and> n \<le> ru_level r)))"

lemma reaches_mono: "reaches d u g n \<Longrightarrow> m \<le> n \<Longrightarrow> reaches d u g m"
  unfolding reaches_def by fastforce

lemma foldl_max_ge: "(n::int) \<le> foldl (\<lambda>s r. max s (f r)) a rs \<longleftrightarrow> n \<le> a \<or> (\<exists>r \<in> set rs. n \<le> f r)"
  by (induction rs arbitrary: a) (auto simp: le_max_iff_disj)

lemma effectiveRule_ge: "0 < n \<Longrightarrow> n \<le> effectiveRule rs \<longleftrightarrow> (\<exists>r \<in> set rs. n \<le> ru_level r)"
  by (simp add: effectiveRule_def foldl_max_ge)

lemma effectiveRule_nonneg [simp]: "0 \<le> effectiveRule rs"
  by (simp add: effectiveRule_def foldl_max_ge)

lemma effectiveRule_Nil [simp]: "effectiveRule [] = 0"
  by (simp add: effectiveRule_def)

lemma reaches_rules:
  "book_of d g = Some b \<Longrightarrow> bk_owner b \<noteq> u \<Longrightarrow> user_of d u = Some us \<Longrightarrow> 0 < n \<Longrightarrow>
     reaches d u g n \<longleftrightarrow> n \<le> effectiveRule (filter (applicable us g) (ab_rules d))"
  by (auto simp: reaches_def effectiveRule_ge)

lemma reaches_owner: "book_of d g = Some b \<Longrightarrow> bk_owner b = u \<Longrightarrow> reaches d u g n"
  by (auto simp: reaches_def)

lemma reaches_stranger:
  "book_of d g = Some b \<Longrightarrow> bk_owner b \<noteq> u \<Longrightarrow> user_of d u = None \<Longrightarrow> \<not> reaches d u g n"
  by (auto simp: reaches_def)

lemma reaches_no_book: "book_of d g = None \<Longrightarrow> \<not> reaches d u g n"
  by (auto simp: reaches_def)

lemma access_Inr_iff:
  "checkAddressBookAccess d g u required = Inr b \<longleftrightarrow>
     book_of d g = Some b \<and> reaches d u g (level required)"
proof (cases "book_of d g")
  case None
  then show ?thesis by (simp add: checkAddressBookAccess_def)
next
  case (Some b0)
  show ?thesis
  proof (cases "bk_owner b0 = u")
    case True
    then show ?thesis using Some by (auto simp: checkAddressBookAccess_def intro: reaches_owner)
  next
    case other: False
    show ?thesis
    proof (cases "user_of d u")
      case None
      then show ?thesis
        using Some other by (auto simp: checkAddressBookAccess_def dest: reaches_stranger)
    next
      case us: (Some us)
      have "reaches d u g (level required) \<longleftrightarrow>
          level required \<le> effectiveRule (filter (applicable us g) (ab_rules d))"
        by (rule reaches_rules [OF Some other us]) simp
      then show ?thesis
        using Some other us level_bounds(1) [of required]
        by (auto simp: checkAddressBookAccess_def Let_def)
    qed
  qed
qed

lemma access_InrD: "checkAddressBookAccess d g u required = Inr b \<Longrightarrow> reaches d u g (level required)"
  by (simp add: access_Inr_iff)

text \<open>Every refusal of the check is one of the four of the code, and says which condition failed.\<close>

definition refusal :: "ab_db \<Rightarrow> string \<Rightarrow> string \<Rightarrow> ShareRule \<Rightarrow> http_error" where
  "refusal d g u required =
     (if book_of d g = None then NotFoundException ''Address book does not exist''
      else if \<not> reaches d u g 1 then ForbiddenException ''No permission to access this address book''
      else ForbiddenException
        (if required = READ_WRITE then ''Read-write permission required'' else ''Full control permission required''))"

lemma access_check_refuses:
  assumes "checkAddressBookAccess d g u required = Inl e"
  shows "\<not> reaches d u g (level required)" and "e = refusal d g u required"
proof -
  show no: "\<not> reaches d u g (level required)"
  proof
    assume r: "reaches d u g (level required)"
    then obtain b where "book_of d g = Some b" by (auto simp: reaches_def)
    then have "checkAddressBookAccess d g u required = Inr b" using r by (simp add: access_Inr_iff)
    then show False using assms by simp
  qed
  note Inl = assms
  show "e = refusal d g u required"
  proof (cases "book_of d g")
    case None
    then show ?thesis using Inl by (simp add: checkAddressBookAccess_def refusal_def)
  next
    case (Some b)
    have other: "bk_owner b \<noteq> u" using no Some reaches_owner by blast
    show ?thesis
    proof (cases "user_of d u")
      case None
      then show ?thesis using Inl Some other reaches_stranger [OF Some other None]
        by (simp add: checkAddressBookAccess_def refusal_def)
    next
      case us: (Some us)
      let ?E = "effectiveRule (filter (applicable us g) (ab_rules d))"
      have low: "?E < level required" using no reaches_rules [OF Some other us, of "level required"] by simp
      have one: "reaches d u g 1 \<longleftrightarrow> ?E \<noteq> 0"
        using reaches_rules [OF Some other us, of 1] effectiveRule_nonneg [of "filter (applicable us g) (ab_rules d)"]
        by (simp del: effectiveRule_nonneg) arith
      have e: "Inl e = checkAddressBookAccess d g u required" using Inl by simp
      show ?thesis
      proof (cases "?E = 0")
        case True
        then show ?thesis using e Some other us one by (simp add: checkAddressBookAccess_def refusal_def)
      next
        case False
        then show ?thesis using e Some other us one low
          by (simp add: checkAddressBookAccess_def refusal_def)
      qed
    qed
  qed
qed

text \<open>C35. The check admits a user exactly when the book exists and the user owns it or is a known
  user whom a rule for the user, for everyone or for the user's group grants at least the
  required level; otherwise it refuses, with the error that names the reason.\<close>

theorem access_check_iff:
  "checkAddressBookAccess d g u required =
     (if reaches d u g (level required) then Inr (the (book_of d g)) else Inl (refusal d g u required))"
proof (cases "checkAddressBookAccess d g u required")
  case (Inr b)
  then show ?thesis by (simp add: access_Inr_iff)
next
  case (Inl e)
  then show ?thesis using access_check_refuses [OF Inl] by simp
qed

subsection \<open>What a change of the tables does to access\<close>

text \<open>Two states grant the same on a book: its owner, its rules and the users are the same.\<close>

definition same_grants :: "string \<Rightarrow> ab_db \<Rightarrow> ab_db \<Rightarrow> bool" where
  "same_grants g d d' \<longleftrightarrow> ab_users d' = ab_users d \<and>
     map_option bk_owner (book_of d' g) = map_option bk_owner (book_of d g) \<and>
     filter (\<lambda>r. ru_book r = g) (ab_rules d') = filter (\<lambda>r. ru_book r = g) (ab_rules d)"

lemma same_grants_refl: "reflp (same_grants g)"
  by (simp add: reflp_def same_grants_def)

lemma same_grants_trans: "transp (same_grants g)"
  by (simp add: transp_def same_grants_def)

lemma same_grants_self [simp]: "same_grants g d d"
  by (simp add: same_grants_def)

lemma same_grants_cong:
  "ab_users d' = ab_users d \<Longrightarrow> ab_books d' = ab_books d \<Longrightarrow> ab_rules d' = ab_rules d \<Longrightarrow>
     same_grants g d d'"
  by (simp add: same_grants_def book_of_def)

lemma applicable_book: "applicable us g r \<Longrightarrow> ru_book r = g"
  by (simp add: applicable_def)

lemma reaches_via:
  "reaches d u g n \<longleftrightarrow> (\<exists>w. map_option bk_owner (book_of d g) = Some w \<and>
     (w = u \<or> (\<exists>us r. user_of d u = Some us \<and> r \<in> set (filter (\<lambda>r. ru_book r = g) (ab_rules d)) \<and>
        applicable us g r \<and> n \<le> ru_level r)))"
  unfolding reaches_def by (auto dest: applicable_book)

lemma same_grants_reaches: "same_grants g d d' \<Longrightarrow> reaches d' u g n \<longleftrightarrow> reaches d u g n"
  unfolding reaches_via by (simp add: same_grants_def user_of_def)

lemmas same_grants_preorder = same_grants_refl same_grants_trans

end
