(* ===== verification/Address_Book_Rules.thy ===== *)
theory Address_Book_Rules
  imports Address_Book_Access
begin

text \<open>
  The rules and profiles of the address books
  (\<open>src/modules/address-book/services/address-book-rule.service.ts\<close>): listing, granting,
  changing and revoking rules, and the private and shared address books themselves. The identifier
  an operation draws is an argument. \<open>isUUID\<close> (class-validator) and \<open>like\<close>
  (\<open>text LIKE '%fragment%'\<close> of the database) are arguments too; text columns sort by character
  codes, a missing one first.
\<close>

subsection \<open>Requests\<close>

record create_rule =
  cu_book :: string
  cu_user :: "string option"
  cu_group :: "string option"
  cu_level :: "int option"

record list_query =
  lq_page :: ab_page
  lq_name :: "string option"
  lq_note :: "string option"

record profile_change =
  pc_name :: "string option"
  pc_note :: "string option"
  pc_owner :: "string option"
  pc_password :: "string option"

definition rule_key :: "ab_rule \<Rightarrow> string \<times> string" where
  "rule_key r = (ru_guid r, ru_book r)"

definition save_rule :: "ab_rule \<Rightarrow> ab_db \<Rightarrow> ab_db" where
  "save_rule r d = d\<lparr>ab_rules := save_row rule_key r (ab_rules d)\<rparr>"

definition save_book :: "ab_book \<Rightarrow> ab_db \<Rightarrow> ab_db" where
  "save_book b d = d\<lparr>ab_books := save_row bk_guid b (ab_books d)\<rparr>"

subsection \<open>Rules\<close>

definition requireGroup :: "ab_db \<Rightarrow> string \<Rightarrow> ab_group result" where
  "requireGroup d g = (case find (\<lambda>x. gr_guid x = g) (ab_groups d) of
     None \<Rightarrow> Inl (NotFoundException ''User group does not exist'') | Some x \<Rightarrow> Inr x)"

text \<open>The target user is given by identifier or by name.\<close>

definition target_user :: "(string \<Rightarrow> bool) \<Rightarrow> ab_db \<Rightarrow> string option \<Rightarrow> string option result" where
  "target_user isUUID d v = (case nonempty v of None \<Rightarrow> Inr None
     | Some s \<Rightarrow> (case find (\<lambda>u. if isUUID s then us_guid u = s else us_name u = s) (ab_users d) of
         None \<Rightarrow> Inl (NotFoundException ''User does not exist'') | Some u \<Rightarrow> Inr (Some (us_guid u))))"

definition target_group :: "ab_db \<Rightarrow> string option \<Rightarrow> string option result" where
  "target_group d v = (case nonempty v of None \<Rightarrow> Inr None
     | Some s \<Rightarrow> rbind (requireGroup d s) (\<lambda>g. Inr (Some (gr_guid g))))"

definition createRule_reads ::
  "(string \<Rightarrow> bool) \<Rightarrow> create_rule \<Rightarrow> string \<Rightarrow> ab_db \<Rightarrow> (string option \<times> string option) result" where
  "createRule_reads isUUID dto u d =
     rbind (checkAddressBookAccess d (cu_book dto) u FULL_CONTROL) (\<lambda>_.
     rbind (ensure (nonempty (cu_user dto) = None \<or> nonempty (cu_group dto) = None)
       (ConflictException ''User and group cannot both be specified'')) (\<lambda>_.
     rbind (target_user isUUID d (cu_user dto)) (\<lambda>tu.
     rbind (target_group d (cu_group dto)) (\<lambda>tg.
     rbind (ensure (\<not> list_ex (\<lambda>r. targets_of r = (cu_book dto, nonempty tu, nonempty tg)) (ab_rules d))
       (ConflictException ''This rule already exists'')) (\<lambda>_. Inr (tu, tg))))))"

definition createRule :: "(string \<Rightarrow> bool) \<Rightarrow> create_rule \<Rightarrow> string \<Rightarrow> string \<Rightarrow> string ab_op" where
  "createRule isUUID dto u guid =
     sbind (reading (createRule_reads isUUID dto u)) (\<lambda>(tu, tg).
     sbind (writing_db (save_rule
       \<lparr>ru_guid = guid, ru_book = cu_book dto, ru_user = tu, ru_group = tg,
        ru_level = (case cu_level dto of None \<Rightarrow> 1 | Some n \<Rightarrow> n)\<rparr>)) (\<lambda>_.
     reading (\<lambda>_. Inr guid)))"

definition updateRule_reads :: "string \<Rightarrow> string \<Rightarrow> ab_db \<Rightarrow> ab_rule result" where
  "updateRule_reads guid u d = (case find (\<lambda>r. ru_guid r = guid) (ab_rules d) of
       None \<Rightarrow> Inl (NotFoundException ''Rule does not exist'')
     | Some r \<Rightarrow> rbind (checkAddressBookAccess d (ru_book r) u FULL_CONTROL) (\<lambda>_. Inr r))"

definition updateRule :: "string \<Rightarrow> int \<Rightarrow> string \<Rightarrow> unit ab_op" where
  "updateRule guid lvl u =
     sbind (reading (updateRule_reads guid u)) (\<lambda>r. writing_db (save_rule (r\<lparr>ru_level := lvl\<rparr>)))"

text \<open>The rules to delete in the order of the request; an identifier may name several, one per book.\<close>

definition deleteRules_reads :: "string list \<Rightarrow> ab_db \<Rightarrow> ab_rule list result" where
  "deleteRules_reads guids d =
     (let unique = js_unique guids;
          byGuid = group_rows ru_guid id (filter (\<lambda>r. ru_guid r \<in> set unique) (ab_rules d))
      in if list_ex (\<lambda>g. map_of byGuid g = None) unique then Inl (NotFoundException ''No rules found'')
         else Inr (concat (map (\<lambda>g. js_get byGuid g []) unique)))"

definition delete_rule :: "ab_rule \<Rightarrow> unit ab_op" where
  "delete_rule r = (\<lambda>d.
     if length (filter (\<lambda>x. rule_key x = rule_key r) (ab_rules d)) \<noteq> 1
     then (Inl (NotFoundException ''No rules found''),
           d\<lparr>ab_rules := filter (\<lambda>x. rule_key x \<noteq> rule_key r) (ab_rules d)\<rparr>)
     else (Inr (), d\<lparr>ab_rules := filter (\<lambda>x. rule_key x \<noteq> rule_key r) (ab_rules d)\<rparr>))"

definition deleteRules_tx :: "string list \<Rightarrow> string \<Rightarrow> unit ab_op" where
  "deleteRules_tx guids u =
     sbind (reading (deleteRules_reads guids)) (\<lambda>rules.
     sbind (reading (\<lambda>d. each (\<lambda>r.
       rbind (checkAddressBookAccess d (ru_book r) u FULL_CONTROL) (\<lambda>_. Inr ())) rules)) (\<lambda>_.
     for_each delete_rule rules))"

definition deleteRules :: "(string \<Rightarrow> bool) \<Rightarrow> string list \<Rightarrow> string \<Rightarrow> unit ab_op" where
  "deleteRules isUUID guids u =
     sbind (reading (\<lambda>_. ensure (guids \<noteq> []) (BadRequestException ''At least one rule GUID is required''))) (\<lambda>_.
     sbind (reading (\<lambda>_. case find (\<lambda>g. \<not> isUUID g) (js_unique guids) of None \<Rightarrow> Inr ()
       | Some g \<Rightarrow> if g = [] then Inr ()
                   else Inl (BadRequestException (''Invalid rule GUID format: '' @ g)))) (\<lambda>_.
     in_transaction (deleteRules_tx guids u)))"

subsection \<open>Listing rules and candidates\<close>

datatype rule_target = UserTarget string string | GroupTarget string

record rule_response =
  rs_guid :: string
  rs_book :: string
  rs_book_name :: "string option"
  rs_user :: "string option"
  rs_group :: "string option"
  rs_level :: int
  rs_type :: string
  rs_target :: "rule_target option"

definition display_name :: "ab_user \<Rightarrow> string" where
  "display_name us = (case nonempty (us_display us) of None \<Rightarrow> us_name us | Some n \<Rightarrow> n)"

definition rule_target_of :: "ab_db \<Rightarrow> ab_rule \<Rightarrow> rule_target option" where
  "rule_target_of d r =
     (case Option.bind (nonempty (ru_user r)) (user_of d) of
        Some us \<Rightarrow> Some (UserTarget (us_name us) (display_name us))
      | None \<Rightarrow> map_option (\<lambda>g. GroupTarget (gr_name g))
          (Option.bind (nonempty (ru_group r)) (\<lambda>s. find (\<lambda>g. gr_guid g = s) (ab_groups d))))"

definition toResponseFormat :: "ab_db \<Rightarrow> ab_rule \<Rightarrow> rule_response" where
  "toResponseFormat d r =
     \<lparr>rs_guid = ru_guid r, rs_book = ru_book r,
      rs_book_name = Option.bind (book_of d (ru_book r)) bk_name,
      rs_user = ru_user r, rs_group = ru_group r, rs_level = ru_level r, rs_type = ruleType r,
      rs_target = rule_target_of d r\<rparr>"

definition getRules :: "string \<Rightarrow> ab_page \<Rightarrow> string \<Rightarrow> ab_db \<Rightarrow> (nat \<times> rule_response list) result" where
  "getRules g q u d =
     rbind (checkAddressBookAccess d g u READ) (\<lambda>_.
       let rules = filter (\<lambda>r. ru_book r = g) (ab_rules d)
       in Inr (length rules, map (toResponseFormat d) (page_rows q rules)))"

definition getShareCandidates ::
  "string \<Rightarrow> string \<Rightarrow> ab_db \<Rightarrow> ((string \<times> string \<times> string) list \<times> (string \<times> string) list) result" where
  "getShareCandidates g u d =
     rbind (checkAddressBookAccess d g u FULL_CONTROL) (\<lambda>_.
       Inr (map (\<lambda>x. (us_guid x, us_name x, display_name x)) (sort_key us_name (ab_users d)),
            map (\<lambda>x. (gr_guid x, gr_name x)) (sort_key gr_name (ab_groups d))))"

subsection \<open>Private and shared address books\<close>

definition external_grant :: "ab_db \<Rightarrow> ab_book \<Rightarrow> bool" where
  "external_grant d b = list_ex (\<lambda>r. ru_book r = bk_guid b \<and>
     (ru_group r \<noteq> None \<or> ru_user r = None \<or> ru_user r \<noteq> Some (bk_owner b))) (ab_rules d)"

definition private_custom :: "ab_db \<Rightarrow> string \<Rightarrow> ab_book \<Rightarrow> bool" where
  "private_custom d u b \<longleftrightarrow> bk_owner b = u \<and> \<not> bk_personal b \<and> \<not> bk_shared b \<and> \<not> external_grant d b"

definition shared_book :: "ab_db \<Rightarrow> ab_book \<Rightarrow> bool" where
  "shared_book d b \<longleftrightarrow> \<not> bk_personal b \<and> (bk_shared b \<or> external_grant d b)"

definition findPrivateCustomAddressBook :: "ab_db \<Rightarrow> string \<Rightarrow> string \<Rightarrow> ab_book option" where
  "findPrivateCustomAddressBook d g u = find (\<lambda>b. bk_guid b = g \<and> private_custom d u b) (ab_books d)"

definition findSharedAddressBook :: "ab_db \<Rightarrow> string \<Rightarrow> ab_book option" where
  "findSharedAddressBook d g = find (\<lambda>b. bk_guid b = g \<and> shared_book d b) (ab_books d)"

definition named_like :: "(string \<Rightarrow> string \<Rightarrow> bool) \<Rightarrow> string option \<Rightarrow> string option \<Rightarrow> bool" where
  "named_like like wanted text = (case nonempty (map_option js_trim wanted) of None \<Rightarrow> True
     | Some fragment \<Rightarrow> (case text of None \<Rightarrow> False | Some t \<Rightarrow> like t fragment))"

definition or_empty :: "string option \<Rightarrow> string" where
  "or_empty v = (case v of None \<Rightarrow> [] | Some s \<Rightarrow> s)"

definition book_order :: "ab_book \<Rightarrow> string option \<times> string" where
  "book_order b = (bk_name b, bk_guid b)"

definition getCustomAddressBooks ::
  "(string \<Rightarrow> string \<Rightarrow> bool) \<Rightarrow> string \<Rightarrow> list_query \<Rightarrow> ab_db \<Rightarrow> nat \<times> (string \<times> string \<times> string) list" where
  "getCustomAddressBooks like u q d =
     (let rows = filter (\<lambda>b. private_custom d u b \<and> named_like like (lq_name q) (bk_name b)) (ab_books d)
      in (length rows, map (\<lambda>b. (bk_guid b, or_empty (bk_name b), or_empty (bk_note b)))
            (page_rows (lq_page q) (sort_key book_order rows))))"

text \<open>The other address books of the owner that carry the name.\<close>

definition same_named :: "ab_db \<Rightarrow> string \<Rightarrow> string \<Rightarrow> ab_book option" where
  "same_named d owner name =
     find (\<lambda>b. bk_name b = Some name \<and> bk_owner b = owner \<and> \<not> bk_personal b) (ab_books d)"

definition stored_info :: "string option \<Rightarrow> json option" where
  "stored_info password = map_option (\<lambda>p. JObj [(''password'', JStr p)]) (nonempty password)"

definition createAddressBookProfile_reads :: "string \<Rightarrow> string \<Rightarrow> ab_db \<Rightarrow> string result" where
  "createAddressBookProfile_reads name owner d =
     (let trimmed = js_trim name
      in if trimmed = [] then Inl (BadRequestException ''Address book name cannot be empty'')
         else if same_named d owner trimmed \<noteq> None
         then Inl (ConflictException ''Address book name already exists'') else Inr trimmed)"

definition createAddressBookProfile ::
  "string \<Rightarrow> string \<Rightarrow> bool \<Rightarrow> string option \<Rightarrow> string option \<Rightarrow> string \<Rightarrow> string ab_op" where
  "createAddressBookProfile name owner isShared note password guid =
     sbind (reading (createAddressBookProfile_reads name owner)) (\<lambda>trimmed.
     sbind (writing_db (save_book
       \<lparr>bk_guid = guid, bk_owner = owner, bk_personal = False, bk_shared = isShared,
        bk_name = Some trimmed, bk_note = note, bk_info = stored_info password\<rparr>)) (\<lambda>_.
     reading (\<lambda>_. Inr guid)))"

definition addCustomAddressBook ::
  "string \<Rightarrow> string \<Rightarrow> string option \<Rightarrow> string option \<Rightarrow> string \<Rightarrow> string ab_op" where
  "addCustomAddressBook name owner note password = createAddressBookProfile name owner False note password"

definition addSharedAddressBook ::
  "string \<Rightarrow> string \<Rightarrow> string option \<Rightarrow> string option \<Rightarrow> string \<Rightarrow> string ab_op" where
  "addSharedAddressBook name owner note password = createAddressBookProfile name owner True note password"

text \<open>The new name of a book: trimmed, not empty, and not another book's of the owner.\<close>

definition renamed :: "string option \<Rightarrow> string \<Rightarrow> ab_book \<Rightarrow> ab_db \<Rightarrow> string option result" where
  "renamed name owner b d =
     (case name of None \<Rightarrow> Inr (bk_name b)
      | Some n \<Rightarrow> (let trimmed = js_trim n
          in if trimmed = [] then Inl (BadRequestException ''Address book name cannot be empty'')
             else case same_named d owner trimmed of
               None \<Rightarrow> Inr (Some trimmed)
             | Some other \<Rightarrow> if bk_guid other \<noteq> bk_guid b
                 then Inl (ConflictException ''Address book name already exists'') else Inr (Some trimmed)))"

definition updateCustomAddressBook :: "string \<Rightarrow> string \<Rightarrow> string option \<Rightarrow> string option \<Rightarrow> unit ab_op" where
  "updateCustomAddressBook g u name note =
     sbind (reading (\<lambda>d.
       rbind (ensure (name \<noteq> None \<or> note \<noteq> None) (BadRequestException ''At least one field must be updated'')) (\<lambda>_.
         case findPrivateCustomAddressBook d g u of
           None \<Rightarrow> Inl (NotFoundException ''Private custom address book does not exist'')
         | Some b \<Rightarrow> rbind (renamed name u b d) (\<lambda>n.
             Inr (b\<lparr>bk_name := n, bk_note := (if note = None then bk_note b else note)\<rparr>)))))
       (\<lambda>b. writing_db (save_book b))"

definition deleteCustomAddressBooks :: "string list \<Rightarrow> string \<Rightarrow> unit ab_op" where
  "deleteCustomAddressBooks guids u =
     sbind (reading (\<lambda>d.
       let unique = js_unique guids;
           found = filter (\<lambda>b. bk_guid b \<in> set unique \<and> private_custom d u b) (ab_books d)
       in ensure (length found = length unique)
            (NotFoundException ''One or more private custom address books do not exist'')))
       (\<lambda>_. writing_db (delete_books (\<lambda>g. g \<in> set guids)))"

definition direct_rule :: "ab_db \<Rightarrow> string \<Rightarrow> string \<Rightarrow> ab_rule option" where
  "direct_rule d g t = find (\<lambda>r. targets_of r = (g, Some t, None)) (ab_rules d)"

text \<open>
  \<open>updateSharedAddressBook\<close> in two steps: what it reads and checks before it changes anything,
  the rule it grants to a new owner, and then the name check and the profile. Saving leaves a
  column alone whose value is \<open>undefined\<close>, so an empty password changes nothing.
\<close>

definition changing_owner :: "profile_change \<Rightarrow> ab_book \<Rightarrow> bool" where
  "changing_owner c b \<longleftrightarrow> pc_owner c \<noteq> None \<and> pc_owner c \<noteq> Some (bk_owner b)"

definition updateShared_reads :: "string \<Rightarrow> profile_change \<Rightarrow> string option \<Rightarrow> ab_db \<Rightarrow> ab_book result" where
  "updateShared_reads g c u d =
     (case findSharedAddressBook d g of
        None \<Rightarrow> Inl (NotFoundException ''Address book does not exist'')
      | Some b \<Rightarrow>
          rbind (case nonempty u of None \<Rightarrow> Inr b | Some uid \<Rightarrow>
            checkAddressBookAccess d g uid (if changing_owner c b then FULL_CONTROL else READ_WRITE)) (\<lambda>_.
          rbind (ensure (changing_owner c b \<longrightarrow> user_of d (the (pc_owner c)) \<noteq> None)
            (NotFoundException ''New owner user does not exist'')) (\<lambda>_. Inr b)))"

definition grant_new_owner :: "string \<Rightarrow> profile_change \<Rightarrow> ab_book \<Rightarrow> string \<Rightarrow> ab_db \<Rightarrow> ab_db" where
  "grant_new_owner g c b guid d =
     (if changing_owner c b \<and> direct_rule d g (the (pc_owner c)) = None
      then save_rule \<lparr>ru_guid = guid, ru_book = g, ru_user = pc_owner c, ru_group = None, ru_level = level FULL_CONTROL\<rparr> d
      else d)"

definition new_profile :: "profile_change \<Rightarrow> ab_book \<Rightarrow> string option \<Rightarrow> ab_book" where
  "new_profile c b name = b\<lparr>bk_name := name,
     bk_note := (if pc_note c = None then bk_note b else pc_note c),
     bk_owner := (case pc_owner c of None \<Rightarrow> bk_owner b | Some x \<Rightarrow> x),
     bk_info := (if nonempty (pc_password c) = None then bk_info b else stored_info (pc_password c))\<rparr>"

definition updateSharedAddressBook :: "string \<Rightarrow> profile_change \<Rightarrow> string option \<Rightarrow> string \<Rightarrow> unit ab_op" where
  "updateSharedAddressBook g c u guid =
     sbind (reading (updateShared_reads g c u)) (\<lambda>b.
     sbind (writing_db (grant_new_owner g c b guid)) (\<lambda>_.
     sbind (reading (renamed (pc_name c)
       (case nonempty (pc_owner c) of None \<Rightarrow> bk_owner b | Some x \<Rightarrow> x) b)) (\<lambda>n.
     writing_db (save_book (new_profile c b n)))))"

definition deletable_shared :: "ab_db \<Rightarrow> string \<Rightarrow> string list \<Rightarrow> ab_book list result" where
  "deletable_shared d u guids =
     foldr (\<lambda>g rest. case findSharedAddressBook d g of None \<Rightarrow> rest
       | Some b \<Rightarrow> if bk_owner b \<noteq> u
           then Inl (ForbiddenException (''No permission to delete address book '' @ [CHR 0x27] @ or_empty (bk_name b) @ [CHR 0x27]))
           else rbind rest (\<lambda>bs. Inr (b # bs))) guids (Inr [])"

definition deleteSharedAddressBooks :: "string list \<Rightarrow> string \<Rightarrow> unit ab_op" where
  "deleteSharedAddressBooks guids u =
     sbind (reading (\<lambda>d. deletable_shared d u (js_unique guids))) (\<lambda>bs.
       writing_db (delete_books (\<lambda>g. g \<in> bk_guid ` set bs)))"

definition shareAddressBook :: "string \<Rightarrow> string \<Rightarrow> ShareRule \<Rightarrow> string \<Rightarrow> string \<Rightarrow> unit ab_op" where
  "shareAddressBook g t r u guid =
     sbind (reading (\<lambda>d. checkAddressBookAccess d g u FULL_CONTROL)) (\<lambda>_.
     writing_db (\<lambda>d. save_rule (case direct_rule d g t of
         Some x \<Rightarrow> x\<lparr>ru_level := level r\<rparr>
       | None \<Rightarrow> \<lparr>ru_guid = guid, ru_book = g, ru_user = Some t, ru_group = None, ru_level = level r\<rparr>) d))"

definition unshareAddressBook :: "string \<Rightarrow> string \<Rightarrow> string \<Rightarrow> unit ab_op" where
  "unshareAddressBook g t u =
     sbind (reading (\<lambda>d. checkAddressBookAccess d g u FULL_CONTROL)) (\<lambda>_.
     writing_db (\<lambda>d. d\<lparr>ab_rules := filter (\<lambda>r. targets_of r \<noteq> (g, Some t, None)) (ab_rules d)\<rparr>))"

end
