(* ===== verification/Address_Book_Listing.thy ===== *)
theory Address_Book_Listing
  imports Address_Book_Rules
begin

text \<open>
  The list of the address books a user can open (\<open>getAccessibleAddressBooks\<close> of
  \<open>src/modules/address-book/services/address-book-rule.service.ts\<close>): one SQL query that joins
  the books with the rules that apply to the user and takes the strongest level per book. It
  repeats, in SQL, what the permission check decides; the theory shows the two agree.
\<close>

subsection \<open>The query\<close>

text \<open>The left join: a book without an applicable rule has one row with no rule.\<close>

definition joined_rows :: "ab_db \<Rightarrow> ab_user \<Rightarrow> (ab_book \<times> ab_rule option) list" where
  "joined_rows d us = concat (map (\<lambda>b.
     case filter (applicable us (bk_guid b)) (ab_rules d) of
       [] \<Rightarrow> [(b, None)]
     | r # rs \<Rightarrow> map (\<lambda>x. (b, Some x)) (r # rs)) (ab_books d))"

definition accessible_rows ::
  "(string \<Rightarrow> string \<Rightarrow> bool) \<Rightarrow> ab_db \<Rightarrow> ab_user \<Rightarrow> bool \<Rightarrow> string option \<Rightarrow> list_query \<Rightarrow>
     (ab_book \<times> ab_rule option) list" where
  "accessible_rows like d us sharedOnly guid q = filter (\<lambda>(b, r).
     \<not> bk_personal b \<and> (bk_owner b = us_guid us \<or> r \<noteq> None)
     \<and> (sharedOnly \<longrightarrow> bk_shared b \<or> external_grant d b)
     \<and> (case nonempty guid of None \<Rightarrow> True | Some g \<Rightarrow> bk_guid b = g)
     \<and> named_like like (lq_name q) (bk_name b)
     \<and> named_like like (lq_note q) (bk_note b)) (joined_rows d us)"

text \<open>Grouped by book; \<open>MAX(CASE WHEN owner THEN FULL_CONTROL ELSE rule.rule END)\<close>\<close>

definition row_level :: "ab_user \<Rightarrow> ab_book \<times> ab_rule option \<Rightarrow> int" where
  "row_level us = (\<lambda>(b, r). if bk_owner b = us_guid us then level FULL_CONTROL
     else case r of None \<Rightarrow> 0 | Some x \<Rightarrow> ru_level x)"

definition grouped_rows :: "ab_user \<Rightarrow> (ab_book \<times> ab_rule option) list \<Rightarrow> (ab_book \<times> int) list" where
  "grouped_rows us rows =
     map (\<lambda>b. (b, Max (set (map (row_level us) (filter (\<lambda>row. fst row = b) rows))))) (js_unique (map fst rows))"

definition accessible_books ::
  "(string \<Rightarrow> string \<Rightarrow> bool) \<Rightarrow> ab_db \<Rightarrow> ab_user \<Rightarrow> bool \<Rightarrow> string option \<Rightarrow> list_query \<Rightarrow> (ab_book \<times> int) list" where
  "accessible_books like d us sharedOnly guid q = grouped_rows us (accessible_rows like d us sharedOnly guid q)"

record book_row =
  br_guid :: string
  br_name :: string
  br_owner :: string
  br_note :: string
  br_rule :: int
  br_info :: "json option"
  br_is_owner :: "bool option"

definition owner_name :: "ab_db \<Rightarrow> string \<Rightarrow> string" where
  "owner_name d w = (case user_of d w of None \<Rightarrow> w
     | Some us \<Rightarrow> if us_name us = [] \<or> w = [] then w else us_name us)"

definition to_book_row :: "ab_db \<Rightarrow> string \<Rightarrow> bool \<Rightarrow> ab_book \<times> int \<Rightarrow> book_row" where
  "to_book_row d u sharedOnly = (\<lambda>(b, l).
     \<lparr>br_guid = bk_guid b, br_name = or_empty (bk_name b), br_owner = owner_name d (bk_owner b),
      br_note = or_empty (bk_note b), br_rule = l,
      br_info = (if sharedOnly then None else Some (case bk_info b of None \<Rightarrow> JObj [] | Some i \<Rightarrow> i)),
      br_is_owner = (if sharedOnly then Some (bk_owner b = u) else None)\<rparr>)"

definition getAccessibleAddressBooks ::
  "(string \<Rightarrow> string \<Rightarrow> bool) \<Rightarrow> string \<Rightarrow> list_query \<Rightarrow> bool \<Rightarrow> string option \<Rightarrow> ab_db \<Rightarrow>
     (nat \<times> book_row list) result" where
  "getAccessibleAddressBooks like u q sharedOnly guid d =
     (case user_of d u of
        None \<Rightarrow> Inl (NotFoundException ''User does not exist'')
      | Some us \<Rightarrow>
          (let rows = accessible_rows like d us sharedOnly guid q;
               books = grouped_rows us rows
           in Inr (length (js_unique (map (bk_guid \<circ> fst) rows)),
                map (to_book_row d u sharedOnly)
                  (page_rows (lq_page q) (sort_key (book_order \<circ> fst) books)))))"

definition getSharedAddressBooks ::
  "(string \<Rightarrow> string \<Rightarrow> bool) \<Rightarrow> string \<Rightarrow> list_query \<Rightarrow> ab_db \<Rightarrow> (nat \<times> book_row list) result" where
  "getSharedAddressBooks like u q = getAccessibleAddressBooks like u q False None"

definition getWebSharedAddressBooks ::
  "(string \<Rightarrow> string \<Rightarrow> bool) \<Rightarrow> string \<Rightarrow> list_query \<Rightarrow> ab_db \<Rightarrow> (nat \<times> book_row list) result" where
  "getWebSharedAddressBooks like u q = getAccessibleAddressBooks like u q True None"

definition getWebSharedAddressBook ::
  "(string \<Rightarrow> string \<Rightarrow> bool) \<Rightarrow> string \<Rightarrow> string \<Rightarrow> ab_db \<Rightarrow> book_row result" where
  "getWebSharedAddressBook like g u d =
     rbind (getAccessibleAddressBooks like u
       \<lparr>lq_page = \<lparr>pg_current = 1, pg_size = 1\<rparr>, lq_name = None, lq_note = None\<rparr> True (Some g) d)
     (\<lambda>(_, rows). case rows of
        [] \<Rightarrow> Inl (NotFoundException ''Shared address book does not exist'') | r # _ \<Rightarrow> Inr r)"

subsection \<open>What it lists\<close>

lemma joined_row_iff:
  "(b, r) \<in> set (joined_rows d us) \<longleftrightarrow> b \<in> set (ab_books d) \<and>
     (case r of None \<Rightarrow> \<forall>x \<in> set (ab_rules d). \<not> applicable us (bk_guid b) x
      | Some x \<Rightarrow> x \<in> set (ab_rules d) \<and> applicable us (bk_guid b) x)"
proof -
  have "(b, r) \<in> set (case filter (applicable us (bk_guid c)) (ab_rules d) of
            [] \<Rightarrow> [(c, None)] | y # ys \<Rightarrow> map (\<lambda>x. (c, Some x)) (y # ys)) \<longleftrightarrow>
      c = b \<and> (case r of None \<Rightarrow> \<forall>x \<in> set (ab_rules d). \<not> applicable us (bk_guid b) x
         | Some x \<Rightarrow> x \<in> set (ab_rules d) \<and> applicable us (bk_guid b) x)" for c
  proof (cases "filter (applicable us (bk_guid c)) (ab_rules d)")
    case Nil
    then have "\<forall>x \<in> set (ab_rules d). \<not> applicable us (bk_guid c) x" by (simp add: filter_empty_conv)
    then show ?thesis using Nil by (auto split: option.splits)
  next
    case (Cons y ys)
    then have "set (y # ys) = {x \<in> set (ab_rules d). applicable us (bk_guid c) x}"
      by (metis set_filter)
    then show ?thesis unfolding Cons list.case set_map by (cases r) auto
  qed
  then show ?thesis unfolding joined_rows_def by auto
qed

definition listed :: "(string \<Rightarrow> string \<Rightarrow> bool) \<Rightarrow> ab_db \<Rightarrow> bool \<Rightarrow> string option \<Rightarrow> list_query \<Rightarrow> ab_book \<Rightarrow> bool" where
  "listed like d sharedOnly guid q b \<longleftrightarrow> \<not> bk_personal b
     \<and> (sharedOnly \<longrightarrow> bk_shared b \<or> external_grant d b)
     \<and> (case nonempty guid of None \<Rightarrow> True | Some g \<Rightarrow> bk_guid b = g)
     \<and> named_like like (lq_name q) (bk_name b) \<and> named_like like (lq_note q) (bk_note b)"

lemma accessible_row_iff:
  "(b, r) \<in> set (accessible_rows like d us sharedOnly guid q) \<longleftrightarrow>
     (b, r) \<in> set (joined_rows d us) \<and> listed like d sharedOnly guid q b \<and>
     (bk_owner b = us_guid us \<or> r \<noteq> None)"
  by (auto simp: accessible_rows_def listed_def)

text \<open>The levels the rows of a listed book carry.\<close>

definition book_levels :: "ab_db \<Rightarrow> ab_user \<Rightarrow> ab_book \<Rightarrow> int set" where
  "book_levels d us b = (if bk_owner b = us_guid us then {3}
     else ru_level ` {r \<in> set (ab_rules d). applicable us (bk_guid b) r})"

lemma row_levels:
  assumes "b \<in> set (ab_books d)" and l: "listed like d sharedOnly guid q b"
  shows "set (map (row_level us) (filter (\<lambda>row. fst row = b) (accessible_rows like d us sharedOnly guid q)))
       = book_levels d us b" (is "?L = _")
proof -
  have mem: "x \<in> ?L \<longleftrightarrow> (\<exists>r. (b, r) \<in> set (accessible_rows like d us sharedOnly guid q) \<and> x = row_level us (b, r))" for x
    by (auto simp: image_iff)
  show ?thesis
  proof (cases "bk_owner b = us_guid us")
    case True
    have "\<exists>r. (b, r) \<in> set (joined_rows d us)"
    proof (cases "\<exists>x \<in> set (ab_rules d). applicable us (bk_guid b) x")
      case True
      then obtain x where "x \<in> set (ab_rules d)" "applicable us (bk_guid b) x" by blast
      then show ?thesis using assms(1) by (intro exI [of _ "Some x"]) (simp add: joined_row_iff)
    next
      case False
      then show ?thesis using assms(1) by (intro exI [of _ None]) (simp add: joined_row_iff)
    qed
    then have "x \<in> ?L \<longleftrightarrow> x \<in> book_levels d us b" for x
      unfolding mem accessible_row_iff using True l by (auto simp: book_levels_def row_level_def)
    then show ?thesis by blast
  next
    case False
    have "x \<in> ?L \<longleftrightarrow> x \<in> book_levels d us b" for x
      unfolding mem accessible_row_iff using False l assms(1)
      by (auto simp: book_levels_def row_level_def joined_row_iff split_option_ex)
    then show ?thesis by blast
  qed
qed

lemma listed_book_iff:
  "b \<in> set (map fst (accessible_rows like d us sharedOnly guid q)) \<longleftrightarrow>
     b \<in> set (ab_books d) \<and> listed like d sharedOnly guid q b \<and> book_levels d us b \<noteq> {}"
proof -
  have "b \<in> set (map fst (accessible_rows like d us sharedOnly guid q)) \<longleftrightarrow>
      (\<exists>r. (b, r) \<in> set (accessible_rows like d us sharedOnly guid q))" by force
  also have "\<dots> \<longleftrightarrow> b \<in> set (ab_books d) \<and> listed like d sharedOnly guid q b \<and>
      set (map (row_level us) (filter (\<lambda>row. fst row = b) (accessible_rows like d us sharedOnly guid q))) \<noteq> {}"
    by (auto simp: accessible_row_iff joined_row_iff filter_empty_conv)
  also have "\<dots> \<longleftrightarrow> b \<in> set (ab_books d) \<and> listed like d sharedOnly guid q b \<and> book_levels d us b \<noteq> {}"
    using row_levels by metis
  finally show ?thesis .
qed

lemma accessible_books_iff:
  "(b, l) \<in> set (accessible_books like d us sharedOnly guid q) \<longleftrightarrow>
     b \<in> set (ab_books d) \<and> listed like d sharedOnly guid q b \<and> book_levels d us b \<noteq> {} \<and>
     l = Max (book_levels d us b)"
  unfolding accessible_books_def grouped_rows_def
  using listed_book_iff [of b like d us sharedOnly guid q] row_levels [of b d like sharedOnly guid q us]
  by auto

lemma finite_book_levels [simp]: "finite (book_levels d us b)"
  by (simp add: book_levels_def)

lemma reaches_book_levels:
  assumes "ab_schema d" "b \<in> set (ab_books d)" "user_of d u = Some us" "0 < n" "n \<le> 3"
  shows "reaches d u (bk_guid b) n \<longleftrightarrow> (\<exists>l \<in> book_levels d us b. n \<le> l)"
proof -
  have b: "book_of d (bk_guid b) = Some b" using assms by (simp add: book_of_iff)
  have u: "us_guid us = u" using assms(3) by (auto simp: user_of_def dest: find_SomeD)
  show ?thesis using assms(3-5) b by (auto simp: reaches_def book_levels_def u)
qed

lemma reaches_Max:
  assumes "ab_schema d" "b \<in> set (ab_books d)" "user_of d u = Some us" "0 < n" "n \<le> 3"
    and "book_levels d us b \<noteq> {}"
  shows "reaches d u (bk_guid b) n \<longleftrightarrow> n \<le> Max (book_levels d us b)"
  using reaches_book_levels [OF assms(1-5)] assms(6) by (simp add: Max_ge_iff)

lemma level_values: "ab_ok d \<Longrightarrow> l \<in> book_levels d us b \<Longrightarrow> l \<in> {1, 2, 3}"
  unfolding ab_ok_def rules_sound_def book_levels_def by (auto split: if_splits)

lemma accessible_books_check:
  assumes "ab_ok d" and "user_of d u = Some us"
  shows "(b, l) \<in> set (accessible_books like d us sharedOnly guid q) \<longleftrightarrow>
     b \<in> set (ab_books d) \<and> listed like d sharedOnly guid q b \<and> l \<in> {1, 2, 3} \<and>
     (\<forall>r. checkAddressBookAccess d (bk_guid b) u r = Inr b \<longleftrightarrow> level r \<le> l)"
    (is "_ \<longleftrightarrow> ?R")
proof
  have sc: "ab_schema d" using assms(1) by (simp add: ab_ok_def)
  assume "(b, l) \<in> set (accessible_books like d us sharedOnly guid q)"
  then have b: "b \<in> set (ab_books d)" "listed like d sharedOnly guid q b" "book_levels d us b \<noteq> {}"
    and l: "l = Max (book_levels d us b)" by (simp_all add: accessible_books_iff)
  have bo: "book_of d (bk_guid b) = Some b" using b(1) sc by (simp add: book_of_iff)
  have chk: "checkAddressBookAccess d (bk_guid b) u r = Inr b \<longleftrightarrow> level r \<le> l" for r
    using reaches_Max [OF sc b(1) assms(2) _ _ b(3), of "level r"] bo l by (simp add: access_Inr_iff)
  have "l \<in> book_levels d us b" using b(3) l by simp
  then have l3: "l \<in> {1, 2, 3}" by (rule level_values [OF assms(1)])
  show ?R using b chk l3 by blast
next
  have sc: "ab_schema d" using assms(1) by (simp add: ab_ok_def)
  assume R: ?R
  then have "checkAddressBookAccess d (bk_guid b) u READ = Inr b" by auto
  then have r1: "reaches d u (bk_guid b) 1" using access_InrD by fastforce
  have ne: "book_levels d us b \<noteq> {}"
    using reaches_book_levels [OF sc _ assms(2), of b 1] R r1 by auto
  have bo: "book_of d (bk_guid b) = Some b" using R sc by (simp add: book_of_iff)
  have chk: "level r \<le> l \<longleftrightarrow> level r \<le> Max (book_levels d us b)" for r
    using reaches_Max [OF sc _ assms(2) _ _ ne, of "level r"] bo R by (simp add: access_Inr_iff)
  have m3: "Max (book_levels d us b) \<in> {1, 2, 3}"
    by (rule level_values [OF assms(1) Max_in [OF finite_book_levels ne]])
  have "l = Max (book_levels d us b)"
    using m3 R chk [of READ] chk [of READ_WRITE] chk [of FULL_CONTROL] by auto
  then show "(b, l) \<in> set (accessible_books like d us sharedOnly guid q)"
    using R ne by (simp add: accessible_books_iff)
qed

text \<open>The identifier and level of every row on any page of a listing.\<close>

definition shown ::
  "(string \<Rightarrow> string \<Rightarrow> bool) \<Rightarrow> string \<Rightarrow> list_query \<Rightarrow> nat \<Rightarrow> bool \<Rightarrow> string option \<Rightarrow> ab_db \<Rightarrow> (string \<times> int) set" where
  "shown like u q n sharedOnly guid d = {(br_guid row, br_rule row) | row k t rows. 0 < k \<and> row \<in> set rows \<and>
     getAccessibleAddressBooks like u (q\<lparr>lq_page := \<lparr>pg_current = k, pg_size = n\<rparr>\<rparr>) sharedOnly guid d = Inr (t, rows)}"

lemma on_some_page:
  assumes "0 < n"
  shows "(\<exists>k>0. x \<in> set (page_rows \<lparr>pg_current = k, pg_size = n\<rparr> xs)) \<longleftrightarrow> x \<in> set xs"
proof
  assume "x \<in> set xs"
  then obtain i where i: "i < length xs" "xs ! i = x" by (auto simp: in_set_conv_nth)
  have "take (Suc (i div n) * n) xs ! i = x" "i < length (take (Suc (i div n) * n) xs)"
    using i assms dividend_less_div_times [of n i] by (simp_all add: algebra_simps)
  then have "x \<in> set (take (Suc (i div n) * n) xs)" by (metis nth_mem)
  then have "x \<in> set (concat (map (\<lambda>k. page_rows \<lparr>pg_current = k, pg_size = n\<rparr> xs) [1..<Suc (Suc (i div n))]))"
    by (simp only: pages_cover)
  then obtain k where "k \<in> set [1..<Suc (Suc (i div n))]" "x \<in> set (page_rows \<lparr>pg_current = k, pg_size = n\<rparr> xs)"
    by (auto simp del: upt_Suc)
  then show "\<exists>k>0. x \<in> set (page_rows \<lparr>pg_current = k, pg_size = n\<rparr> xs)"
    by (intro exI [of _ k]) (simp del: upt_Suc)
next
  assume "\<exists>k>0. x \<in> set (page_rows \<lparr>pg_current = k, pg_size = n\<rparr> xs)"
  then show "x \<in> set xs" by (auto dest: subsetD [OF set_page_rows])
qed

lemma shown_iff:
  assumes "user_of d u = Some us" and "0 < n"
  shows "(g, l) \<in> shown like u q n sharedOnly guid d \<longleftrightarrow>
     (\<exists>b. bk_guid b = g \<and> (b, l) \<in> set (accessible_books like d us sharedOnly guid q))"
proof -
  have q: "accessible_rows like d us sharedOnly guid (q\<lparr>lq_page := p\<rparr>) = accessible_rows like d us sharedOnly guid q" for p
    by (simp add: accessible_rows_def)
  define bs where "bs = sort_key (book_order \<circ> fst) (accessible_books like d us sharedOnly guid q)"
  have "(g, l) \<in> shown like u q n sharedOnly guid d \<longleftrightarrow>
      (\<exists>x. br_guid (to_book_row d u sharedOnly x) = g \<and> br_rule (to_book_row d u sharedOnly x) = l \<and>
         (\<exists>k>0. x \<in> set (page_rows \<lparr>pg_current = k, pg_size = n\<rparr> bs)))"
    by (auto simp: shown_def getAccessibleAddressBooks_def assms(1) Let_def q bs_def accessible_books_def)
  also have "\<dots> \<longleftrightarrow> (\<exists>b. bk_guid b = g \<and> (b, l) \<in> set bs)"
    unfolding on_some_page [OF assms(2)] by (auto simp: to_book_row_def)
  finally show ?thesis by (simp add: bs_def)
qed

text \<open>C36. The list and the check agree: going through the pages of a user's list one sees a book
  exactly when it is not personal, passes the filters of the query and the permission check admits
  the user to it; and the level shown is the strongest the check accepts.\<close>

theorem accessible_list_agrees:
  assumes "ab_ok d" and "user_of d u = Some us" and "0 < n"
  shows "(g, l) \<in> shown like u q n sharedOnly guid d \<longleftrightarrow>
     (\<exists>b. book_of d g = Some b \<and> listed like d sharedOnly guid q b \<and> l \<in> {1, 2, 3} \<and>
        (\<forall>r. checkAddressBookAccess d g u r = Inr b \<longleftrightarrow> level r \<le> l))"
proof -
  have sc: "ab_schema d" using assms(1) by (simp add: ab_ok_def)
  show ?thesis
    unfolding shown_iff [OF assms(2,3)] accessible_books_check [OF assms(1,2)] book_of_iff [OF sc]
    by blast
qed

definition example_books :: ab_db where
  "example_books =
     \<lparr>ab_books =
        [\<lparr>bk_guid = ''ab1'', bk_owner = ''ann'', bk_personal = False, bk_shared = True,
          bk_name = Some ''Servers'', bk_note = None, bk_info = None\<rparr>,
         \<lparr>bk_guid = ''ab2'', bk_owner = ''ann'', bk_personal = False, bk_shared = False,
          bk_name = Some ''Laptops'', bk_note = None, bk_info = None\<rparr>],
      ab_rules =
        [\<lparr>ru_guid = ''r1'', ru_book = ''ab1'', ru_user = Some ''bob'', ru_group = None, ru_level = 2\<rparr>,
         \<lparr>ru_guid = ''r2'', ru_book = ''ab1'', ru_user = None, ru_group = None, ru_level = 1\<rparr>,
         \<lparr>ru_guid = ''r3'', ru_book = ''ab1'', ru_user = Some ''cat'', ru_group = None, ru_level = 3\<rparr>],
      ab_tags = [\<lparr>tg_guid = ''t1'', tg_book = ''ab1'', tg_name = ''lab'', tg_color = 7\<rparr>],
      ab_peers = [\<lparr>pr_guid = ''p1'', pr_book = ''ab1'', pr_device = ''d1'', pr_hash = None,
        pr_password = None, pr_alias = None, pr_note = None\<rparr>],
      ab_links = [\<lparr>ln_peer = ''p1'', ln_tag = ''t1''\<rparr>],
      ab_users =
        [\<lparr>us_guid = ''ann'', us_name = ''Ann'', us_display = None, us_group = None\<rparr>,
         \<lparr>us_guid = ''bob'', us_name = ''Bob'', us_display = None, us_group = Some ''ops''\<rparr>,
         \<lparr>us_guid = ''cat'', us_name = ''Cat'', us_display = None, us_group = None\<rparr>,
         \<lparr>us_guid = ''dan'', us_name = ''Dan'', us_display = None, us_group = None\<rparr>],
      ab_groups = [\<lparr>gr_guid = ''ops'', gr_name = ''Operations''\<rparr>],
      ab_devices = [\<lparr>dv_uuid = ''d1'', dv_id = ''111'', dv_heartbeat = Some 5\<rparr>,
        \<lparr>dv_uuid = ''d2'', dv_id = ''222'', dv_heartbeat = None\<rparr>],
      ab_sysinfos = []\<rparr>"

lemma example_books_ok: "ab_ok example_books"
  by (simp add: ab_ok_def ab_schema_def links_local_def rules_sound_def accounts_named_def
      targets_of_def example_books_def)

lemma example_user: "user_of example_books ''bob'' = Some
    \<lparr>us_guid = ''bob'', us_name = ''Bob'', us_display = None, us_group = Some ''ops''\<rparr>"
  by (simp add: user_of_def example_books_def)

theorem accessible_list_agrees_witness:
  "(''ab1'', 2) \<in> shown (\<lambda>t f. is_substring f t) ''bob''
     \<lparr>lq_page = \<lparr>pg_current = 1, pg_size = 20\<rparr>, lq_name = Some '' Serv'', lq_note = None\<rparr> 20 False None example_books"
proof -
  let ?q = "\<lparr>lq_page = \<lparr>pg_current = 1, pg_size = 20\<rparr>, lq_name = Some '' Serv'', lq_note = None\<rparr>"
  let ?b = "hd (ab_books example_books)"
  have bo: "book_of example_books ''ab1'' = Some ?b" by (simp add: book_of_def example_books_def)
  have li: "listed (\<lambda>t f. is_substring f t) example_books False None ?q ?b" by code_simp
  have ch: "checkAddressBookAccess example_books ''ab1'' ''bob'' READ = Inr ?b"
    "checkAddressBookAccess example_books ''ab1'' ''bob'' READ_WRITE = Inr ?b"
    "\<not> isl (checkAddressBookAccess example_books ''ab1'' ''bob'' FULL_CONTROL) \<longleftrightarrow> False"
    by code_simp+
  have "checkAddressBookAccess example_books ''ab1'' ''bob'' r = Inr ?b \<longleftrightarrow> level r \<le> 2" for r
    using ch by (cases r) auto
  then show ?thesis
    unfolding accessible_list_agrees [OF example_books_ok example_user, of 20, simplified]
    using bo li by auto
qed

end
