(* ===== verification/Address_Book_Entries.thy ===== *)
theory Address_Book_Entries
  imports Address_Book_Access
begin

text \<open>
  The devices and tags of an address book
  (\<open>src/modules/address-book/services/address-book-tag.service.ts\<close> and
  \<open>address-book-peer.service.ts\<close>). As in the code, the services receive the permission check as
  a callback: \<open>gate\<close>. The callback \<open>getOrCreateTag\<close> of the peer service is always the tag
  service's. Identifiers drawn during an operation come from the supply \<open>gs\<close>: 0 for the entry,
  1 for a device record, the rest for tags.
\<close>

type_synonym gate = "ab_db \<Rightarrow> string \<Rightarrow> string \<Rightarrow> ShareRule \<Rightarrow> ab_book result"

text \<open>\<open>if (userId && checkAccess) await checkAccess(...)\<close>\<close>

definition permitted :: "gate \<Rightarrow> string \<Rightarrow> string option \<Rightarrow> ShareRule \<Rightarrow> ab_db \<Rightarrow> unit result" where
  "permitted gate g u r d = (case nonempty u of None \<Rightarrow> Inr ()
     | Some uid \<Rightarrow> rbind (gate d g uid r) (\<lambda>_. Inr ()))"

definition existing_book :: "string \<Rightarrow> ab_db \<Rightarrow> unit result" where
  "existing_book g d = ensure (book_of d g \<noteq> None) (NotFoundException ''Address book does not exist'')"

subsection \<open>Tags\<close>

definition getTags :: "gate \<Rightarrow> string \<Rightarrow> string option \<Rightarrow> ab_db \<Rightarrow> (string \<times> int) list result" where
  "getTags gate g u d = rbind (permitted gate g u READ d) (\<lambda>_.
     Inr (map (\<lambda>t. (tg_name t, tg_color t)) (filter (\<lambda>t. tg_book t = g) (ab_tags d))))"

definition add_tag_row :: "ab_tag \<Rightarrow> ab_db \<Rightarrow> ab_db" where
  "add_tag_row t d = d\<lparr>ab_tags := save_row tg_guid t (ab_tags d)\<rparr>"

definition getOrCreateTag :: "string \<Rightarrow> string \<Rightarrow> string \<Rightarrow> string ab_op" where
  "getOrCreateTag g name guid = (\<lambda>d. case tag_named d g name of
     Some t \<Rightarrow> (Inr (tg_guid t), d)
   | None \<Rightarrow> (Inr guid, add_tag_row \<lparr>tg_guid = guid, tg_book = g, tg_name = name, tg_color = 0\<rparr> d))"

definition addTag :: "gate \<Rightarrow> string \<Rightarrow> string \<Rightarrow> int option \<Rightarrow> string option \<Rightarrow> string \<Rightarrow> unit ab_op" where
  "addTag gate g name color u guid =
     sbind (reading (\<lambda>d.
       rbind (permitted gate g u READ_WRITE d) (\<lambda>_.
       rbind (existing_book g d) (\<lambda>_.
         ensure (tag_named d g name = None) (BadRequestException ''Tag already exists'')))))
     (\<lambda>_. writing_db (add_tag_row \<lparr>tg_guid = guid, tg_book = g, tg_name = name,
        tg_color = (case color of None \<Rightarrow> 0 | Some c \<Rightarrow> c)\<rparr>))"

definition change_tag :: "string \<Rightarrow> (ab_tag \<Rightarrow> ab_tag) \<Rightarrow> ab_db \<Rightarrow> ab_db" where
  "change_tag guid f d = d\<lparr>ab_tags := map (\<lambda>t. if tg_guid t = guid then f t else t) (ab_tags d)\<rparr>"

definition found_tag :: "string \<Rightarrow> string \<Rightarrow> ab_db \<Rightarrow> ab_tag result" where
  "found_tag g name d = (case tag_named d g name of
     None \<Rightarrow> Inl (NotFoundException ''Tag does not exist'') | Some t \<Rightarrow> Inr t)"

definition renameTag :: "gate \<Rightarrow> string \<Rightarrow> string \<Rightarrow> string \<Rightarrow> string option \<Rightarrow> unit ab_op" where
  "renameTag gate g old new u =
     sbind (reading (\<lambda>d.
       rbind (permitted gate g u READ_WRITE d) (\<lambda>_.
       rbind (found_tag g old d) (\<lambda>t.
       rbind (ensure (tag_named d g new = None) (BadRequestException ''New tag name already exists'')) (\<lambda>_.
         Inr t)))))
     (\<lambda>t. writing_db (change_tag (tg_guid t) (tg_name_update (\<lambda>_. new))))"

definition updateTag :: "gate \<Rightarrow> string \<Rightarrow> string \<Rightarrow> int \<Rightarrow> string option \<Rightarrow> unit ab_op" where
  "updateTag gate g name color u =
     sbind (reading (\<lambda>d.
       rbind (permitted gate g u READ_WRITE d) (\<lambda>_. found_tag g name d)))
     (\<lambda>t. writing_db (change_tag (tg_guid t) (tg_color_update (\<lambda>_. color))))"

text \<open>Links first, then the tags.\<close>

definition unlink_tags :: "string \<Rightarrow> string list \<Rightarrow> ab_db \<Rightarrow> ab_db" where
  "unlink_tags g names d =
     (let guids = map tg_guid (filter (\<lambda>t. tg_name t \<in> set names \<and> tg_book t = g) (ab_tags d))
      in if guids = [] then d else delete_links (\<lambda>l. ln_tag l \<in> set guids) d)"

definition deleteTags :: "gate \<Rightarrow> string \<Rightarrow> string list \<Rightarrow> string option \<Rightarrow> unit ab_op" where
  "deleteTags gate g names u =
     sbind (reading (\<lambda>d.
       rbind (permitted gate g u READ_WRITE d) (\<lambda>_.
         ensure (names \<noteq> []) (BadRequestException ''Please provide the tag names to delete''))))
     (\<lambda>_. sbind (writing_db (unlink_tags g names))
     (\<lambda>_. delete_tags (\<lambda>t. tg_name t \<in> set names \<and> tg_book t = g)))"

subsection \<open>Devices\<close>

record peer_dto =
  pd_id :: string
  pd_hash :: "string option"
  pd_password :: "string option"
  pd_alias :: "string option"
  pd_note :: "string option"
  pd_tags :: "string list option"

definition findOrCreatePeer :: "string \<Rightarrow> string \<Rightarrow> string ab_op" where
  "findOrCreatePeer i guid = (\<lambda>d. case find (\<lambda>v. dv_id v = i) (ab_devices d) of
     Some v \<Rightarrow> (Inr (dv_uuid v), d)
   | None \<Rightarrow> if isIpDevice i
       then (Inr guid, d\<lparr>ab_devices := save_row dv_uuid \<lparr>dv_uuid = guid, dv_id = i, dv_heartbeat = None\<rparr> (ab_devices d)\<rparr>)
       else (Inl (NotFoundException ''Device does not exist''), d))"

definition add_link :: "ab_link \<Rightarrow> ab_db \<Rightarrow> ab_db" where
  "add_link l d = d\<lparr>ab_links := save_row id l (ab_links d)\<rparr>"

definition tag_peer :: "string \<Rightarrow> string \<Rightarrow> string \<times> string \<Rightarrow> unit ab_op" where
  "tag_peer g peerGuid = (\<lambda>(guid, name).
     sbind (getOrCreateTag g name guid) (\<lambda>tagGuid. writing_db (add_link \<lparr>ln_peer = peerGuid, ln_tag = tagGuid\<rparr>)))"

definition tag_peers :: "string \<Rightarrow> string \<Rightarrow> (nat \<Rightarrow> string) \<Rightarrow> string list \<Rightarrow> unit ab_op" where
  "tag_peers g peerGuid gs names =
     for_each (tag_peer g peerGuid) (zip (map gs [2..<2 + length names]) names)"

definition new_peer :: "string \<Rightarrow> string \<Rightarrow> string \<Rightarrow> peer_dto \<Rightarrow> ab_peer" where
  "new_peer guid g dev dto = \<lparr>pr_guid = guid, pr_book = g, pr_device = dev, pr_hash = pd_hash dto,
     pr_password = pd_password dto, pr_alias = pd_alias dto, pr_note = pd_note dto\<rparr>"

definition save_peer :: "ab_peer \<Rightarrow> ab_db \<Rightarrow> ab_db" where
  "save_peer p d = d\<lparr>ab_peers := save_row pr_guid p (ab_peers d)\<rparr>"

definition addPeer :: "gate \<Rightarrow> string \<Rightarrow> peer_dto \<Rightarrow> string option \<Rightarrow> (nat \<Rightarrow> string) \<Rightarrow> unit ab_op" where
  "addPeer gate g dto u gs =
     sbind (reading (\<lambda>d. rbind (permitted gate g u READ_WRITE d) (\<lambda>_. existing_book g d)))
     (\<lambda>_. sbind (findOrCreatePeer (pd_id dto) (gs 1))
     (\<lambda>dev. sbind (reading (\<lambda>d. ensure (peer_on d g dev = None)
         (BadRequestException ''Device already exists in the address book'')))
     (\<lambda>_. sbind (writing_db (save_peer (new_peer (gs 0) g dev dto)))
     (\<lambda>_. tag_peers g (gs 0) gs (case pd_tags dto of None \<Rightarrow> [] | Some ts \<Rightarrow> ts)))))"

text \<open>In an update, a field that is absent (\<open>None\<close>) stays, and one that is null is cleared.\<close>

record update_peer_dto =
  ud_id :: string
  ud_hash :: "string option option"
  ud_password :: "string option option"
  ud_alias :: "string option option"
  ud_note :: "string option option"
  ud_tags :: "string list option option"

definition given :: "'a option \<Rightarrow> 'a \<Rightarrow> 'a" where
  "given new old = (case new of None \<Rightarrow> old | Some v \<Rightarrow> v)"

definition changed_peer :: "update_peer_dto \<Rightarrow> ab_peer \<Rightarrow> ab_peer" where
  "changed_peer dto p = p\<lparr>pr_hash := given (ud_hash dto) (pr_hash p),
     pr_password := given (ud_password dto) (pr_password p),
     pr_alias := given (ud_alias dto) (pr_alias p), pr_note := given (ud_note dto) (pr_note p)\<rparr>"

text \<open>With null for the tags the old ones are gone when \<open>dto.tags.length\<close> throws.\<close>

definition replace_tags :: "string \<Rightarrow> string \<Rightarrow> (nat \<Rightarrow> string) \<Rightarrow> string list option \<Rightarrow> unit ab_op" where
  "replace_tags g peerGuid gs tags =
     sbind (writing_db (delete_links (\<lambda>l. ln_peer l = peerGuid)))
     (\<lambda>_. case tags of None \<Rightarrow> reading (\<lambda>_. Inl (OtherError ''Cannot read properties of null (reading length)''))
        | Some ts \<Rightarrow> tag_peers g peerGuid gs ts)"

definition updatePeer :: "gate \<Rightarrow> string \<Rightarrow> update_peer_dto \<Rightarrow> string option \<Rightarrow> (nat \<Rightarrow> string) \<Rightarrow> unit ab_op" where
  "updatePeer gate g dto u gs =
     sbind (reading (permitted gate g u READ_WRITE))
     (\<lambda>_. sbind (findOrCreatePeer (ud_id dto) (gs 1))
     (\<lambda>dev. sbind (reading (\<lambda>d. case peer_on d g dev of
         None \<Rightarrow> Inl (NotFoundException ''Device does not exist in this address book'') | Some p \<Rightarrow> Inr p))
     (\<lambda>p. sbind (writing_db (\<lambda>d. d\<lparr>ab_peers :=
         map (\<lambda>x. if pr_guid x = pr_guid p then changed_peer dto x else x) (ab_peers d)\<rparr>))
     (\<lambda>_. case ud_tags dto of None \<Rightarrow> reading (\<lambda>_. Inr ()) | Some ts \<Rightarrow> replace_tags g (pr_guid p) gs ts))))"

definition deletePeers :: "gate \<Rightarrow> string \<Rightarrow> string list \<Rightarrow> string option \<Rightarrow> unit ab_op" where
  "deletePeers gate g ids u =
     sbind (reading (\<lambda>d. rbind (permitted gate g u READ_WRITE d) (\<lambda>_.
       ensure (ids \<noteq> []) (BadRequestException ''Please provide the device IDs to delete''))))
     (\<lambda>_. writing_db (\<lambda>d.
       let uuids = map dv_uuid (filter (\<lambda>v. dv_id v \<in> set ids) (ab_devices d))
       in if uuids = [] then d
          else delete_peers (\<lambda>p. pr_device p \<in> set uuids \<and> pr_book p = g) d))"

subsection \<open>The listing\<close>

datatype TagMatchMode = UNION | INTERSECTION

record peers_query =
  pq_page :: ab_page
  pq_book :: string
  pq_id :: "string option"
  pq_alias :: "string option"
  pq_tags :: "string list option"
  pq_mode :: TagMatchMode

record peer_row =
  pw_id :: string
  pw_hash :: "string option"
  pw_password :: "string option"
  pw_username :: string
  pw_hostname :: string
  pw_platform :: string
  pw_alias :: "string option"
  pw_tags :: "string list"
  pw_note :: "string option"

text \<open>The names of the tags a device carries, in the order of its links.\<close>

definition link_name :: "ab_db \<Rightarrow> ab_link \<Rightarrow> string" where
  "link_name d l = (case find (\<lambda>t. tg_guid t = ln_tag l) (ab_tags d) of None \<Rightarrow> [] | Some t \<Rightarrow> tg_name t)"

definition peer_tags :: "ab_db \<Rightarrow> string \<Rightarrow> string list" where
  "peer_tags d guid = map (link_name d) (filter (\<lambda>l. ln_peer l = guid) (ab_links d))"

text \<open>The join of the tag filter: the links of the device to tags of the book with a wanted name.\<close>

definition matching_tags :: "ab_db \<Rightarrow> string \<Rightarrow> string list \<Rightarrow> ab_peer \<Rightarrow> string list" where
  "matching_tags d g names p = map tg_name (filter
     (\<lambda>t. tg_book t = g \<and> tg_name t \<in> set names \<and>
        list_ex (\<lambda>l. ln_peer l = pr_guid p \<and> ln_tag l = tg_guid t) (ab_links d)) (ab_tags d))"

definition tags_match :: "ab_db \<Rightarrow> string \<Rightarrow> TagMatchMode \<Rightarrow> string list option \<Rightarrow> ab_peer \<Rightarrow> bool" where
  "tags_match d g mode tags p = (case tags of None \<Rightarrow> True | Some names \<Rightarrow>
     names = [] \<or>
     (case mode of
        INTERSECTION \<Rightarrow> matching_tags d g names p \<noteq> [] \<and>
          length (js_unique (matching_tags d g names p)) = length names
      | UNION \<Rightarrow> matching_tags d g names p \<noteq> []))"

definition peer_matches :: "(string \<Rightarrow> string \<Rightarrow> bool) \<Rightarrow> ab_db \<Rightarrow> peers_query \<Rightarrow> ab_peer \<Rightarrow> bool" where
  "peer_matches like d q p \<longleftrightarrow> pr_book p = pq_book q
     \<and> (case nonempty (pq_alias q) of None \<Rightarrow> True
        | Some a \<Rightarrow> (case pr_alias p of None \<Rightarrow> False | Some t \<Rightarrow> like t a))
     \<and> (case nonempty (pq_id q) of None \<Rightarrow> True
        | Some i \<Rightarrow> pr_device p \<in> set (map dv_uuid (filter (\<lambda>v. like (dv_id v) i) (ab_devices d))))
     \<and> tags_match d (pq_book q) (pq_mode q) (pq_tags q) p"

definition device_id :: "ab_db \<Rightarrow> string \<Rightarrow> string" where
  "device_id d dev = (case find (\<lambda>v. dv_uuid v = dev) (ab_devices d) of None \<Rightarrow> [] | Some v \<Rightarrow> dv_id v)"

definition sysinfo_of :: "ab_db \<Rightarrow> string \<Rightarrow> ab_sysinfo option" where
  "sysinfo_of d dev = find (\<lambda>s. si_uuid s = dev) (ab_sysinfos d)"

definition sys_text :: "(ab_sysinfo \<Rightarrow> string option) \<Rightarrow> ab_sysinfo option \<Rightarrow> string" where
  "sys_text f s = (case Option.bind s f of None \<Rightarrow> [] | Some t \<Rightarrow> t)"

text \<open>
  Neither the devices nor the tags of a device are read with an \<open>ORDER BY\<close>: \<open>ord\<close> and \<open>tord\<close> are
  the orders the database returns (and pages) them in.
\<close>

definition to_peer_row :: "(string list \<Rightarrow> string list) \<Rightarrow> ab_db \<Rightarrow> ab_peer \<Rightarrow> peer_row" where
  "to_peer_row tord d p = (let s = sysinfo_of d (pr_device p) in
     \<lparr>pw_id = device_id d (pr_device p), pw_hash = pr_hash p, pw_password = pr_password p,
      pw_username = sys_text si_user s, pw_hostname = sys_text si_host s,
      pw_platform = mapOsToPlatform (Option.bind s si_os), pw_alias = pr_alias p,
      pw_tags = tord (peer_tags d (pr_guid p)), pw_note = pr_note p\<rparr>)"

definition getPeers ::
  "(string \<Rightarrow> string \<Rightarrow> bool) \<Rightarrow> (ab_peer list \<Rightarrow> ab_peer list) \<Rightarrow> (string list \<Rightarrow> string list) \<Rightarrow> gate \<Rightarrow> peers_query \<Rightarrow>
   string option \<Rightarrow> ab_db \<Rightarrow> (nat \<times> peer_row list) result" where
  "getPeers like ord tord gate q u d =
     rbind (existing_book (pq_book q) d) (\<lambda>_.
     rbind (permitted gate (pq_book q) u READ d) (\<lambda>_.
       let found = filter (peer_matches like d q) (ab_peers d)
       in Inr (length found, map (to_peer_row tord d) (page_rows (pq_page q) (ord found)))))"

subsection \<open>Under any gate\<close>

text \<open>
  What the services owe to the check they are given, whatever it is: an operation that succeeds
  for a user passed it at the level of the operation, and a refused one changes nothing.
\<close>

locale checked_entries =
  fixes gate :: gate and holds :: "ab_db \<Rightarrow> string \<Rightarrow> string \<Rightarrow> ShareRule \<Rightarrow> bool"
  assumes admitted: "gate d g u r = Inr b \<Longrightarrow> holds d u g r"

context checked_entries begin

lemma permitted_holds: "u \<noteq> [] \<Longrightarrow> permitted gate g (Some u) r d = Inr x \<Longrightarrow> holds d u g r"
  by (auto simp: permitted_def nonempty_def rbind_Inr_iff dest: admitted)

lemma refused_unchanged:
  "u \<noteq> [] \<Longrightarrow> \<not> holds d u g r \<Longrightarrow> (\<And>x. f d = Inr x \<Longrightarrow> permitted gate g (Some u) r d = Inr ()) \<Longrightarrow>
     snd (sbind (reading f) k d) = d"
  by (cases "f d") (auto dest: permitted_holds)

lemma entry_op_refused:
  assumes "u \<noteq> []" "\<not> holds d u g READ_WRITE"
  shows "snd (addTag gate g name color (Some u) guid d) = d"
    and "snd (renameTag gate g old new (Some u) d) = d"
    and "snd (updateTag gate g name c (Some u) d) = d"
    and "snd (deleteTags gate g names (Some u) d) = d"
    and "snd (addPeer gate g dto (Some u) gs d) = d"
    and "snd (updatePeer gate g upd (Some u) gs d) = d"
    and "snd (deletePeers gate g ids (Some u) d) = d"
  unfolding addTag_def renameTag_def updateTag_def deleteTags_def addPeer_def updatePeer_def deletePeers_def
  by (rule refused_unchanged [OF assms], simp add: rbind_Inr_iff)+

lemma listing_admitted:
  "u \<noteq> [] \<Longrightarrow> getPeers like ord tord gate q (Some u) d = Inr x \<Longrightarrow> holds d u (pq_book q) READ"
  "u \<noteq> [] \<Longrightarrow> getTags gate g (Some u) d = Inr y \<Longrightarrow> holds d u g READ"
  by (auto simp: getPeers_def getTags_def rbind_Inr_iff dest: permitted_holds)

end

interpretation entries: checked_entries checkAddressBookAccess "\<lambda>d u g r. reaches d u g (level r)"
  by unfold_locales (rule access_InrD)

end
