(* ===== verification/Address_Book_Legacy.thy ===== *)
theory Address_Book_Legacy
  imports Address_Book_Entries
begin

text \<open>
  The personal address book of a user (\<open>getPersonalAddressBook\<close> of
  \<open>src/modules/address-book/services/address-book.service.ts\<close>) and the whole-book interface of
  older clients (\<open>address-book-legacy.service.ts\<close>): reading it, and replacing all of it. The
  request body arrives parsed: no text, text that is no JSON, or the object, with its
  \<open>tag_colors\<close> parsed as well (nothing where they do not parse). Tag names that are inherited
  properties of every JavaScript object and are not refused by the code (\<open>toString\<close> and the
  like) are not modelled. The device record of an address that is new is written outside the
  transaction; the only write of the model that may be refused, of the old tags, comes before it.
\<close>

subsection \<open>The personal book\<close>

definition personal_book :: "ab_db \<Rightarrow> string \<Rightarrow> ab_book option" where
  "personal_book d u = find (\<lambda>b. bk_owner b = u \<and> bk_personal b) (ab_books d)"

definition personal_or_new :: "string \<Rightarrow> string \<Rightarrow> string ab_op" where
  "personal_or_new u guid = (\<lambda>d. case personal_book d u of
     Some b \<Rightarrow> (Inr (bk_guid b), d)
   | None \<Rightarrow> (Inr guid, d\<lparr>ab_books := save_row bk_guid
       \<lparr>bk_guid = guid, bk_owner = u, bk_personal = True, bk_shared = False,
        bk_name = Some ''Personal'', bk_note = None, bk_info = None\<rparr> (ab_books d)\<rparr>))"

definition getPersonalAddressBook :: "string \<Rightarrow> string \<Rightarrow> string ab_op" where
  "getPersonalAddressBook = personal_or_new"

subsection \<open>Reading\<close>

record legacy_row =
  lr_id :: string
  lr_hash :: string
  lr_username :: string
  lr_hostname :: string
  lr_platform :: string
  lr_alias :: string
  lr_tags :: "string list"

record legacy_view =
  lv_tags :: "string list"
  lv_peers :: "legacy_row list"
  lv_colors :: "(string \<times> int) list"

definition filled :: "string option \<Rightarrow> string" where
  "filled v = (case v of None \<Rightarrow> [] | Some s \<Rightarrow> s)"

definition to_legacy_row :: "ab_db \<Rightarrow> ab_peer \<Rightarrow> legacy_row" where
  "to_legacy_row d p = (let s = sysinfo_of d (pr_device p) in
     \<lparr>lr_id = device_id d (pr_device p), lr_hash = filled (pr_hash p),
      lr_username = sys_text si_user s, lr_hostname = sys_text si_host s,
      lr_platform = mapOsToPlatform (Option.bind s si_os), lr_alias = filled (pr_alias p),
      lr_tags = peer_tags d (pr_guid p)\<rparr>)"

text \<open>The view of one book: \<open>None\<close> is the answer \<open>null\<close>.\<close>

definition legacy_view_of :: "ab_db \<Rightarrow> string \<Rightarrow> legacy_view option" where
  "legacy_view_of d g =
     (let ts = filter (\<lambda>t. tg_book t = g) (ab_tags d); ps = filter (\<lambda>p. pr_book p = g) (ab_peers d)
      in if ts = [] \<and> ps = [] then None
         else Some \<lparr>lv_tags = map tg_name ts, lv_peers = map (to_legacy_row d) ps,
           lv_colors = foldl (\<lambda>m t. AList.update (tg_name t) (tg_color t) m) [] ts\<rparr>)"

definition getLegacyAddressBook :: "string \<Rightarrow> string \<Rightarrow> legacy_view option ab_op" where
  "getLegacyAddressBook u guid =
     sbind (personal_or_new u guid) (\<lambda>g. reading (\<lambda>d. Inr (legacy_view_of d g)))"

subsection \<open>Replacing\<close>

record legacy_peer =
  lp_id :: string
  lp_hash :: "string option"
  lp_alias :: "string option"
  lp_tags :: "string list option"

record legacy_data =
  ld_tags :: "string list option"
  ld_peers :: "legacy_peer list option"
  ld_colors :: "(string \<times> int) list"

datatype legacy_body = NoBody | InvalidJson | Parsed legacy_data

definition dangerousProperties :: "string list" where
  "dangerousProperties = [''__proto__'', ''constructor'', ''prototype'']"

text \<open>The device record of an identifier: the one heard of last.\<close>

definition latest_device :: "ab_db \<Rightarrow> string \<Rightarrow> ab_device option" where
  "latest_device d i = (case filter (\<lambda>v. dv_id v = i) (ab_devices d) of
     [] \<Rightarrow> None
   | v # vs \<Rightarrow> Some (foldl (\<lambda>best x. if dv_heartbeat best < dv_heartbeat x then x else best) v vs))"

definition findOrCreatePeer_legacy :: "string \<Rightarrow> string \<Rightarrow> string option ab_op" where
  "findOrCreatePeer_legacy i guid = (\<lambda>d. case latest_device d i of
     Some v \<Rightarrow> (Inr (Some (dv_uuid v)), d)
   | None \<Rightarrow> if isIpDevice i
       then (Inr (Some guid), d\<lparr>ab_devices :=
              save_row dv_uuid \<lparr>dv_uuid = guid, dv_id = i, dv_heartbeat = None\<rparr> (ab_devices d)\<rparr>)
       else (Inr None, d))"

text \<open>Identifiers come in three supplies: for tags, for entries and for device records.\<close>

definition legacy_tags :: "string \<Rightarrow> (nat \<Rightarrow> string) \<Rightarrow> legacy_data \<Rightarrow> ab_tag list" where
  "legacy_tags g gs b =
     map (\<lambda>(guid, name). \<lparr>tg_guid = guid, tg_book = g, tg_name = name,
            tg_color = js_get (ld_colors b) name 0\<rparr>)
       (filter (\<lambda>(guid, name). name \<notin> set dangerousProperties)
         (let ts = (case ld_tags b of None \<Rightarrow> [] | Some ts \<Rightarrow> ts) in zip (map (\<lambda>i. gs (3 * i)) [0..<length ts]) ts))"

text \<open>\<open>tagNameToGuid\<close>: a repeated name stands for the last tag created for it.\<close>

definition tag_guids :: "ab_tag list \<Rightarrow> (string \<times> string) list" where
  "tag_guids ts = foldl (\<lambda>m t. AList.update (tg_name t) (tg_guid t) m) [] ts"

definition legacy_entry :: "string \<Rightarrow> string \<Rightarrow> string \<Rightarrow> legacy_peer \<Rightarrow> ab_peer" where
  "legacy_entry guid g dev x = \<lparr>pr_guid = guid, pr_book = g, pr_device = dev,
     pr_hash = Some (filled (lp_hash x)), pr_password = None, pr_alias = Some (filled (lp_alias x)), pr_note = None\<rparr>"

definition legacy_links :: "(string \<times> string) list \<Rightarrow> string \<Rightarrow> legacy_peer \<Rightarrow> ab_link list" where
  "legacy_links m guid x = List.map_filter (\<lambda>n. map_option (\<lambda>t. \<lparr>ln_peer = guid, ln_tag = t\<rparr>) (map_of m n))
     (case lp_tags x of None \<Rightarrow> [] | Some ts \<Rightarrow> ts)"

definition add_legacy_peer :: "string \<Rightarrow> (string \<times> string) list \<Rightarrow> string \<times> string \<times> legacy_peer \<Rightarrow> unit ab_op" where
  "add_legacy_peer g m = (\<lambda>(guid, devGuid, x).
     sbind (findOrCreatePeer_legacy (lp_id x) devGuid) (\<lambda>found.
     case found of None \<Rightarrow> reading (\<lambda>_. Inr ())
     | Some dev \<Rightarrow> sbind (writing_db (save_peer (legacy_entry guid g dev x)))
         (\<lambda>_. for_each (\<lambda>l. writing_db (add_link l)) (legacy_links m guid x))))"

definition numbered_peers :: "(nat \<Rightarrow> string) \<Rightarrow> legacy_data \<Rightarrow> (string \<times> string \<times> legacy_peer) list" where
  "numbered_peers gs b = (let ps = (case ld_peers b of None \<Rightarrow> [] | Some ps \<Rightarrow> ps)
     in map (\<lambda>(i, x). (gs (3 * i + 1), gs (3 * i + 2), x)) (zip [0..<length ps] ps))"

definition clear_links :: "string \<Rightarrow> ab_db \<Rightarrow> ab_db" where
  "clear_links g d = (let guids = map pr_guid (filter (\<lambda>p. pr_book p = g) (ab_peers d))
     in if guids = [] then d else delete_links (\<lambda>l. ln_peer l \<in> set guids) d)"

definition replace_book :: "string \<Rightarrow> (nat \<Rightarrow> string) \<Rightarrow> legacy_data \<Rightarrow> unit ab_op" where
  "replace_book g gs b =
     sbind (writing_db (clear_links g))
     (\<lambda>_. sbind (delete_tags (\<lambda>t. tg_book t = g))
     (\<lambda>_. sbind (writing_db (delete_peers (\<lambda>p. pr_book p = g)))
     (\<lambda>_. sbind (for_each (\<lambda>t. writing_db (add_tag_row t)) (legacy_tags g gs b))
     (\<lambda>_. for_each (add_legacy_peer g (tag_guids (legacy_tags g gs b))) (numbered_peers gs b)))))"

definition updateLegacyAddressBook :: "string \<Rightarrow> legacy_body \<Rightarrow> string \<Rightarrow> (nat \<Rightarrow> string) \<Rightarrow> unit ab_op" where
  "updateLegacyAddressBook u body guid gs =
     (case body of
        NoBody \<Rightarrow> reading (\<lambda>_. Inr ())
      | InvalidJson \<Rightarrow> reading (\<lambda>_. Inl (BadRequestException ''Invalid JSON data''))
      | Parsed b \<Rightarrow> sbind (personal_or_new u guid) (\<lambda>g. in_transaction (replace_book g gs b)))"

end
