(* ===== verification/Address_Book_Tables.thy ===== *)
theory Address_Book_Tables
  imports Address_Book_Listing Address_Book_Legacy
begin

text \<open>
  Every request of the module that changes the tables
  (\<open>src/modules/address-book/address-book.controller.ts\<close> and the services behind it) as one
  datatype, and what they keep: the keys of the schema, links that stay within a book, and at most
  one sound rule per target. The steps of the operations are treated one write at a time; a small
  Hoare logic puts them together.
\<close>

subsection \<open>Requests\<close>

datatype ab_request =
    OpenPersonal
  | ReadLegacy
  | ReplaceLegacy legacy_body
  | AddCustom string "string option" "string option"
  | UpdateCustom string "string option" "string option"
  | DeleteCustom "string list"
  | AddShared string "string option" "string option"
  | UpdateShared string profile_change
  | DeleteShared "string list"
  | AddPeer string peer_dto
  | UpdatePeer string update_peer_dto
  | DeletePeers string "string list"
  | AddTag string string "int option"
  | RenameTag string string string
  | UpdateTag string string int
  | DeleteTags string "string list"
  | AddRule create_rule
  | UpdateRule string int
  | DeleteRules "string list"
  | Share string string ShareRule
  | Unshare string string

definition forget :: "'a ab_op \<Rightarrow> unit ab_op" where
  "forget m = sbind m (\<lambda>_. reading (\<lambda>_. Inr ()))"

text \<open>The identifiers drawn: \<open>gs 0\<close> for the row a request creates, the supply \<open>gs (n + 1)\<close> for
  what a replacement of the whole book draws.\<close>

fun serve_ab :: "(string \<Rightarrow> bool) \<Rightarrow> string \<Rightarrow> ab_request \<Rightarrow> (nat \<Rightarrow> string) \<Rightarrow> unit ab_op" where
  "serve_ab isUUID u OpenPersonal gs = forget (getPersonalAddressBook u (gs 0))"
| "serve_ab isUUID u ReadLegacy gs = forget (getLegacyAddressBook u (gs 0))"
| "serve_ab isUUID u (ReplaceLegacy b) gs = updateLegacyAddressBook u b (gs 0) (\<lambda>n. gs (Suc n))"
| "serve_ab isUUID u (AddCustom name note password) gs = forget (addCustomAddressBook name u note password (gs 0))"
| "serve_ab isUUID u (UpdateCustom g name note) gs = updateCustomAddressBook g u name note"
| "serve_ab isUUID u (DeleteCustom gids) gs = deleteCustomAddressBooks gids u"
| "serve_ab isUUID u (AddShared name note password) gs = forget (addSharedAddressBook name u note password (gs 0))"
| "serve_ab isUUID u (UpdateShared g c) gs = updateSharedAddressBook g c (Some u) (gs 0)"
| "serve_ab isUUID u (DeleteShared gids) gs = deleteSharedAddressBooks gids u"
| "serve_ab isUUID u (AddPeer g dto) gs = addPeer checkAddressBookAccess g dto (Some u) gs"
| "serve_ab isUUID u (UpdatePeer g dto) gs = updatePeer checkAddressBookAccess g dto (Some u) gs"
| "serve_ab isUUID u (DeletePeers g ids) gs = deletePeers checkAddressBookAccess g ids (Some u)"
| "serve_ab isUUID u (AddTag g name color) gs = addTag checkAddressBookAccess g name color (Some u) (gs 0)"
| "serve_ab isUUID u (RenameTag g old new) gs = renameTag checkAddressBookAccess g old new (Some u)"
| "serve_ab isUUID u (UpdateTag g name color) gs = updateTag checkAddressBookAccess g name color (Some u)"
| "serve_ab isUUID u (DeleteTags g names) gs = deleteTags checkAddressBookAccess g names (Some u)"
| "serve_ab isUUID u (AddRule dto) gs = forget (createRule isUUID dto u (gs 0))"
| "serve_ab isUUID u (UpdateRule guid lvl) gs = updateRule guid lvl u"
| "serve_ab isUUID u (DeleteRules guids) gs = deleteRules isUUID guids u"
| "serve_ab isUUID u (Share g t r) gs = shareAddressBook g t r u (gs 0)"
| "serve_ab isUUID u (Unshare g t) gs = unshareAddressBook g t u"

text \<open>What the validation of the request objects lets through: levels 1 to 3.\<close>

fun valid_ab_request :: "ab_request \<Rightarrow> bool" where
  "valid_ab_request (AddRule dto) = (cu_level dto \<in> {None, Some 1, Some 2, Some 3})"
| "valid_ab_request (UpdateRule guid lvl) = (lvl \<in> {1, 2, 3})"
| "valid_ab_request r = True"

subsection \<open>Writes that keep the tables well formed\<close>

lemma ab_okE:
  assumes "ab_ok d"
  shows "ab_schema d" "links_local d" "rules_sound d" "accounts_named d"
  using assms by (simp_all add: ab_ok_def)

lemma distinct_map_filter': "distinct (map f xs) \<Longrightarrow> distinct (map f (filter P xs))"
  by (simp add: distinct_map_filter)

lemma distinct_save_row_other:
  assumes "distinct (map f rows)" and "\<And>x. x \<in> set rows \<Longrightarrow> f x = f r \<Longrightarrow> key x = key r"
    and "distinct (map key rows)"
  shows "distinct (map f (save_row key r rows))"
  using assms
proof (induction rows)
  case Nil
  then show ?case by (simp add: save_row_def)
next
  case (Cons x rows)
  show ?case
  proof (cases "key x = key r")
    case True
    then have nk: "key r \<notin> key ` set rows" using Cons.prems(3) by auto
    then have same: "map (\<lambda>y. if key y = key r then r else y) rows = rows"
    proof (intro map_idI)
      fix y assume "y \<in> set rows"
      then have "key y \<in> key ` set rows" by simp
      then show "(if key y = key r then r else y) = y" using nk by auto
    qed
    have "f r \<notin> f ` set rows"
    proof
      assume "f r \<in> f ` set rows"
      then obtain y where y: "y \<in> set rows" "f y = f r" by auto
      then have "key y = key r" by (intro Cons.prems(2)) simp_all
      then show False using nk imageI [OF y(1), of key] by simp
    qed
    then show ?thesis using True same Cons.prems(1) by (simp add: save_row_def)
  next
    case False
    have ih: "distinct (map f (save_row key r rows))"
      by (rule Cons.IH) (use Cons.prems in auto)
    have "save_row key r (x # rows) = x # save_row key r rows"
      using False by (simp add: save_row_def)
    moreover have "f x \<notin> f ` set (save_row key r rows)"
      using Cons.prems False by (auto simp: set_save_row)
    ultimately show ?thesis using ih by simp
  qed
qed

lemma map_same_keys:
  "(\<And>x. x \<in> set rows \<Longrightarrow> key (f x) = key x) \<Longrightarrow> map key (map f rows) = map key rows"
  by simp

lemma ok_save_rule:
  assumes "ab_ok d" "ru_book r \<in> bk_guid ` set (ab_books d)" "ru_user r = None \<or> ru_group r = None"
    "ru_level r \<in> {1, 2, 3}"
    "\<And>x. x \<in> set (ab_rules d) \<Longrightarrow> targets_of x = targets_of r \<Longrightarrow> rule_key x = rule_key r"
  shows "ab_ok (save_rule r d)"
proof -
  have k: "distinct (map rule_key (ab_rules d))" "distinct (map targets_of (ab_rules d))"
    using assms(1) by (simp_all add: ab_ok_def ab_schema_def rules_sound_def rule_key_def [abs_def])
  have "distinct (map rule_key (save_row rule_key r (ab_rules d)))"
    by (rule distinct_save_row [OF k(1)])
  moreover have "distinct (map targets_of (save_row rule_key r (ab_rules d)))"
    by (rule distinct_save_row_other [OF k(2) assms(5) k(1)])
  ultimately show ?thesis using assms(1-4)
    by (auto simp: save_rule_def ab_ok_def ab_schema_def rules_sound_def accounts_named_def links_local_def
        rule_key_def [abs_def] set_save_row)
qed

lemma ok_keep_rules:
  "ab_ok d \<Longrightarrow> ab_ok (d\<lparr>ab_rules := filter P (ab_rules d)\<rparr>)"
  by (auto simp: ab_ok_def ab_schema_def rules_sound_def accounts_named_def links_local_def distinct_map_filter')

lemma ok_books:
  assumes "ab_ok d" shows "ab_ok (d\<lparr>ab_books := save_row bk_guid b (ab_books d)\<rparr>)"
proof -
  let ?d = "d\<lparr>ab_books := save_row bk_guid b (ab_books d)\<rparr>"
  have "ab_schema ?d"
    using ab_okE(1) [OF assms] by (simp add: ab_schema_def distinct_save_row)
  moreover have "links_local ?d" "rules_sound ?d" "accounts_named ?d"
    using ab_okE(2-4) [OF assms] by (simp_all add: links_local_def rules_sound_def accounts_named_def)
  ultimately show ?thesis by (simp add: ab_ok_def)
qed

lemma ok_save_book: "ab_ok d \<Longrightarrow> ab_ok (save_book b d)"
  by (simp add: save_book_def ok_books)

lemma ok_add_tag:
  assumes "ab_ok d" "tg_book t \<in> bk_guid ` set (ab_books d)" "tg_guid t \<notin> tg_guid ` set (ab_tags d)"
  shows "ab_ok (add_tag_row t d)"
proof -
  have e: "add_tag_row t d = d\<lparr>ab_tags := ab_tags d @ [t]\<rparr>"
    by (simp add: add_tag_row_def save_row_new assms(3))
  have "ab_schema (add_tag_row t d)"
    using ab_okE(1) [OF assms(1)] assms(2,3) by (simp add: e ab_schema_def)
  moreover have "links_local (add_tag_row t d)"
    using ab_okE(2) [OF assms(1)] unfolding links_local_def e by simp blast
  ultimately show ?thesis using ab_okE(3,4) [OF assms(1)]
    by (simp add: ab_ok_def e rules_sound_def accounts_named_def)
qed

lemma ok_map_tags:
  assumes "ab_ok d" and f: "\<And>t. tg_guid (f t) = tg_guid t" "\<And>t. tg_book (f t) = tg_book t"
  shows "ab_ok (d\<lparr>ab_tags := map f (ab_tags d)\<rparr>)"
proof -
  have "map tg_guid (map f (ab_tags d)) = map tg_guid (ab_tags d)" by (simp add: f)
  then have "ab_schema (d\<lparr>ab_tags := map f (ab_tags d)\<rparr>)"
    using ab_okE(1) [OF assms(1)] by (simp add: ab_schema_def f comp_def)
  moreover have "links_local (d\<lparr>ab_tags := map f (ab_tags d)\<rparr>)"
    using ab_okE(2) [OF assms(1)] by (simp add: links_local_def f)
  ultimately show ?thesis using ab_okE(3,4) [OF assms(1)]
    by (simp add: ab_ok_def rules_sound_def accounts_named_def)
qed

lemma ok_change_tag:
  "ab_ok d \<Longrightarrow> (\<And>t. tg_guid (f t) = tg_guid t) \<Longrightarrow> (\<And>t. tg_book (f t) = tg_book t) \<Longrightarrow>
     ab_ok (change_tag guid f d)"
  unfolding change_tag_def by (rule ok_map_tags) auto

lemma ok_map_peers:
  assumes "ab_ok d" and f: "\<And>p. pr_guid (f p) = pr_guid p" "\<And>p. pr_book (f p) = pr_book p"
  shows "ab_ok (d\<lparr>ab_peers := map f (ab_peers d)\<rparr>)"
proof -
  have "map pr_guid (map f (ab_peers d)) = map pr_guid (ab_peers d)" by (simp add: f)
  then have "ab_schema (d\<lparr>ab_peers := map f (ab_peers d)\<rparr>)"
    using ab_okE(1) [OF assms(1)] by (simp add: ab_schema_def f comp_def)
  moreover have "links_local (d\<lparr>ab_peers := map f (ab_peers d)\<rparr>)"
    using ab_okE(2) [OF assms(1)] by (simp add: links_local_def f)
  ultimately show ?thesis using ab_okE(3,4) [OF assms(1)]
    by (simp add: ab_ok_def rules_sound_def accounts_named_def)
qed

lemma ok_save_peer:
  assumes "ab_ok d" "pr_book p \<in> bk_guid ` set (ab_books d)" "pr_guid p \<notin> pr_guid ` set (ab_peers d)"
  shows "ab_ok (save_peer p d)"
proof -
  have e: "save_peer p d = d\<lparr>ab_peers := ab_peers d @ [p]\<rparr>"
    by (simp add: save_peer_def save_row_new assms(3))
  have "ab_schema (save_peer p d)"
    using ab_okE(1) [OF assms(1)] assms(2,3) by (simp add: e ab_schema_def)
  moreover have "links_local (save_peer p d)"
    using ab_okE(2) [OF assms(1)] unfolding links_local_def e by simp
  ultimately show ?thesis using ab_okE(3,4) [OF assms(1)]
    by (simp add: ab_ok_def e rules_sound_def accounts_named_def)
qed

lemma ok_add_link:
  assumes "ab_ok d" "p \<in> set (ab_peers d)" "t \<in> set (ab_tags d)" "pr_book p = tg_book t"
  shows "ab_ok (add_link \<lparr>ln_peer = pr_guid p, ln_tag = tg_guid t\<rparr> d)"
proof -
  have "distinct (save_row id \<lparr>ln_peer = pr_guid p, ln_tag = tg_guid t\<rparr> (ab_links d))"
    using distinct_save_row [of id "ab_links d"] assms(1) by (simp add: ab_ok_def ab_schema_def)
  then show ?thesis using assms
    by (auto simp: add_link_def ab_ok_def ab_schema_def rules_sound_def accounts_named_def links_local_def set_save_row)
qed

lemma ok_delete_links: "ab_ok d \<Longrightarrow> ab_ok (delete_links P d)"
  by (auto simp: delete_links_def ab_ok_def ab_schema_def rules_sound_def accounts_named_def links_local_def)

lemma ok_delete_peers:
  assumes "ab_ok d" shows "ab_ok (delete_peers P d)"
proof -
  have "links_local (delete_peers P d)"
    unfolding links_local_def
  proof
    fix l assume "l \<in> set (ab_links (delete_peers P d))"
    then have l: "l \<in> set (ab_links d)" "ln_peer l \<notin> pr_guid ` {p \<in> set (ab_peers d). P p}"
      by (auto simp: delete_peers_def Let_def)
    then obtain p t where "p \<in> set (ab_peers d)" "t \<in> set (ab_tags d)" "pr_guid p = ln_peer l"
      "tg_guid t = ln_tag l" "pr_book p = tg_book t"
      using ab_okE(2) [OF assms] by (auto simp: links_local_def)
    moreover have "\<not> P p" using l(2) calculation(1,3) by (metis (mono_tags, lifting) imageI mem_Collect_eq)
    ultimately show "\<exists>p \<in> set (ab_peers (delete_peers P d)). \<exists>t \<in> set (ab_tags (delete_peers P d)).
        pr_guid p = ln_peer l \<and> tg_guid t = ln_tag l \<and> pr_book p = tg_book t"
      by (auto simp: delete_peers_def Let_def)
  qed
  then show ?thesis using assms
    by (auto simp: ab_ok_def ab_schema_def rules_sound_def accounts_named_def delete_peers_def Let_def
        distinct_map_filter')
qed

lemma ok_delete_tags:
  assumes "ab_ok d" shows "ab_ok (snd (delete_tags P d))"
proof (cases "list_ex (\<lambda>l. ln_tag l \<in> set (map tg_guid (filter P (ab_tags d)))) (ab_links d)")
  case True
  then show ?thesis using assms by (simp add: delete_tags_def)
next
  case False
  let ?d = "d\<lparr>ab_tags := filter (\<lambda>t. \<not> P t) (ab_tags d)\<rparr>"
  have used: "\<not> P t" if "t \<in> set (ab_tags d)" "l \<in> set (ab_links d)" "tg_guid t = ln_tag l" for t l
    using False that by (auto simp: list_ex_iff) (metis (mono_tags, lifting) imageI mem_Collect_eq)
  have "links_local ?d"
    using ab_okE(2) [OF assms] used by (fastforce simp: links_local_def)
  moreover have "ab_schema ?d"
    using ab_okE(1) [OF assms] by (simp add: ab_schema_def distinct_map_filter')
  ultimately have "ab_ok ?d"
    using ab_okE(3,4) [OF assms] by (simp add: ab_ok_def rules_sound_def accounts_named_def)
  then show ?thesis using False by (simp add: delete_tags_def)
qed

lemma ok_delete_books:
  assumes "ab_ok d" shows "ab_ok (delete_books P d)"
proof -
  have peer: "p = p'" if "p \<in> set (ab_peers d)" "p' \<in> set (ab_peers d)" "pr_guid p = pr_guid p'" for p p'
    using that ab_okE(1) [OF assms] by (auto simp: ab_schema_def distinct_map inj_on_def)
  have "links_local (delete_books P d)"
    unfolding links_local_def
  proof
    fix l assume "l \<in> set (ab_links (delete_books P d))"
    then obtain p where l: "l \<in> set (ab_links d)" "p \<in> set (ab_peers d)" "\<not> P (pr_book p)" "pr_guid p = ln_peer l"
      by (auto simp: delete_books_def Let_def)
    then obtain p' t where "p' \<in> set (ab_peers d)" "t \<in> set (ab_tags d)" "pr_guid p' = ln_peer l"
      "tg_guid t = ln_tag l" "pr_book p' = tg_book t"
      using ab_okE(2) [OF assms] by (auto simp: links_local_def)
    then show "\<exists>p \<in> set (ab_peers (delete_books P d)). \<exists>t \<in> set (ab_tags (delete_books P d)).
        pr_guid p = ln_peer l \<and> tg_guid t = ln_tag l \<and> pr_book p = tg_book t"
      using l peer [of p' p] by (auto simp: delete_books_def Let_def)
  qed
  moreover have "ab_schema (delete_books P d)"
    using ab_okE(1) [OF assms] by (auto simp: ab_schema_def delete_books_def Let_def distinct_map_filter')
  moreover have "rules_sound (delete_books P d)" "accounts_named (delete_books P d)"
    using ab_okE(3,4) [OF assms]
    by (auto simp: rules_sound_def accounts_named_def delete_books_def Let_def distinct_map_filter')
  ultimately show ?thesis by (simp add: ab_ok_def)
qed

lemma ok_devices: "ab_ok (d\<lparr>ab_devices := vs\<rparr>) \<longleftrightarrow> ab_ok d"
  by (simp add: ab_ok_def ab_schema_def rules_sound_def accounts_named_def links_local_def)

subsection \<open>A small Hoare logic\<close>

text \<open>From a state with \<open>P\<close> the operation ends with well-formed tables where it throws, and with
  \<open>Q\<close> where it returns.\<close>

definition valid :: "(ab_db \<Rightarrow> bool) \<Rightarrow> 'a ab_op \<Rightarrow> ('a \<Rightarrow> ab_db \<Rightarrow> bool) \<Rightarrow> bool" where
  "valid P m Q \<longleftrightarrow> (\<forall>d. P d \<longrightarrow> (case m d of (Inl e, d') \<Rightarrow> ab_ok d' | (Inr x, d') \<Rightarrow> Q x d'))"

lemma valid_sbind: "valid P m R \<Longrightarrow> (\<And>x. valid (R x) (f x) Q) \<Longrightarrow> valid P (sbind m f) Q"
  unfolding valid_def sbind_def by (fastforce split: prod.splits sum.splits)

lemma valid_reading:
  "(\<And>d. P d \<Longrightarrow> ab_ok d) \<Longrightarrow> (\<And>d x. P d \<Longrightarrow> f d = Inr x \<Longrightarrow> Q x d) \<Longrightarrow> valid P (reading f) Q"
  unfolding valid_def reading_def by (auto split: sum.splits)

lemma valid_writing: "(\<And>d. P d \<Longrightarrow> Q () (g d)) \<Longrightarrow> valid P (writing_db g) Q"
  unfolding valid_def writing_db_def by simp

lemma valid_read:
  assumes "\<And>d. P d \<Longrightarrow> ab_ok d" and "\<And>x. valid (\<lambda>d. P d \<and> f d = Inr x) (k x) Q"
  shows "valid P (sbind (reading f) k) Q"
  by (rule valid_sbind [OF valid_reading assms(2)]) (simp_all add: assms(1))

lemma valid_write:
  "(\<And>d. P d \<Longrightarrow> R (g d)) \<Longrightarrow> valid R (k ()) Q \<Longrightarrow> valid P (sbind (writing_db g) k) Q"
  unfolding valid_def by simp

lemma valid_pre: "valid P m Q \<Longrightarrow> (\<And>d. P' d \<Longrightarrow> P d) \<Longrightarrow> valid P' m Q"
  by (simp add: valid_def)

lemma valid_post: "valid P m Q \<Longrightarrow> (\<And>x d. Q x d \<Longrightarrow> Q' x d) \<Longrightarrow> valid P m Q'"
  unfolding valid_def by (fastforce split: prod.splits sum.splits)

lemma valid_transaction:
  "(\<And>d. P d \<Longrightarrow> ab_ok d) \<Longrightarrow> valid P m Q \<Longrightarrow> valid P (in_transaction m) Q"
  unfolding valid_def in_transaction_def by (fastforce split: prod.splits sum.splits)

lemma valid_forget: "valid P m (\<lambda>_. ab_ok) \<Longrightarrow> valid P (forget m) (\<lambda>_. ab_ok)"
  unfolding forget_def by (rule valid_sbind [where R = "\<lambda>_. ab_ok"], assumption, rule valid_reading) simp_all

lemma valid_ok: "valid P m (\<lambda>_. ab_ok) \<Longrightarrow> P d \<Longrightarrow> ab_ok (snd (m d))"
  unfolding valid_def by (fastforce split: prod.splits sum.splits)

text \<open>A loop whose \<open>i\<close>-th pass needs what the passes before it left.\<close>

lemma valid_for_each:
  assumes "\<And>x xs. valid (I (x # xs)) (f x) (\<lambda>_. I xs)" and "\<And>d. I [] d \<Longrightarrow> Q () d"
  shows "valid (I xs) (for_each f xs) Q"
proof (induction xs)
  case Nil
  then show ?case using assms(2) by (simp add: valid_def)
next
  case (Cons x xs)
  show ?case unfolding for_each.simps by (rule valid_sbind [OF assms(1) Cons.IH])
qed

subsection \<open>Rules and profiles keep the tables well formed\<close>

lemma book_in: "checkAddressBookAccess d g u r = Inr b \<Longrightarrow> g \<in> bk_guid ` set (ab_books d)"
  unfolding access_Inr_iff by (metis book_of_Some imageI)

lemma target_user_nonempty: "ab_ok d \<Longrightarrow> target_user isUUID d v = Inr tu \<Longrightarrow> nonempty tu = tu"
  using ab_okE(4) [of d]
  by (auto simp: target_user_def nonempty_def accounts_named_def split: option.splits if_splits dest!: find_SomeD)

lemma target_group_nonempty: "ab_ok d \<Longrightarrow> target_group d v = Inr tg \<Longrightarrow> nonempty tg = tg"
  using ab_okE(4) [of d]
  by (auto simp: target_group_def requireGroup_def nonempty_def accounts_named_def
      split: option.splits if_splits dest!: find_SomeD)

lemma target_given:
  "target_user isUUID d v = Inr tu \<Longrightarrow> nonempty v = None \<Longrightarrow> tu = None"
  "target_group d w = Inr tg \<Longrightarrow> nonempty w = None \<Longrightarrow> tg = None"
  by (simp_all add: target_user_def target_group_def)

lemma createRule_ok:
  assumes "cu_level dto \<in> {None, Some 1, Some 2, Some 3}"
  shows "valid ab_ok (createRule isUUID dto u guid) (\<lambda>_. ab_ok)"
  unfolding createRule_def
proof (rule valid_read, assumption, clarify)
  fix tu tg
  let ?r = "\<lparr>ru_guid = guid, ru_book = cu_book dto, ru_user = tu, ru_group = tg,
      ru_level = (case cu_level dto of None \<Rightarrow> 1 | Some n \<Rightarrow> n)\<rparr>"
  have "ab_ok (save_rule ?r d)" if ok: "ab_ok d" and rd: "createRule_reads isUUID dto u d = Inr (tu, tg)" for d
  proof (rule ok_save_rule [OF ok])
    obtain b where facts: "checkAddressBookAccess d (cu_book dto) u FULL_CONTROL = Inr b"
      "nonempty (cu_user dto) = None \<or> nonempty (cu_group dto) = None"
      "target_user isUUID d (cu_user dto) = Inr tu" "target_group d (cu_group dto) = Inr tg"
      "\<not> list_ex (\<lambda>r. targets_of r = (cu_book dto, nonempty tu, nonempty tg)) (ab_rules d)"
      using rd unfolding createRule_reads_def by (auto simp: result_simps)
    show "ru_book ?r \<in> bk_guid ` set (ab_books d)" using book_in [OF facts(1)] by simp
    show "ru_user ?r = None \<or> ru_group ?r = None"
      using facts(2) target_given(1) [OF facts(3)] target_given(2) [OF facts(4)] by auto
    show "ru_level ?r \<in> {1, 2, 3}" using assms by auto
    fix x assume "x \<in> set (ab_rules d)" "targets_of x = targets_of ?r"
    then show "rule_key x = rule_key ?r"
      using facts(5) target_user_nonempty [OF ok facts(3)] target_group_nonempty [OF ok facts(4)]
      by (auto simp: targets_of_def list_ex_iff)
  qed
  then show "valid (\<lambda>d. ab_ok d \<and> createRule_reads isUUID dto u d = Inr (tu, tg))
      (sbind (writing_db (save_rule ?r)) (\<lambda>_. reading (\<lambda>_. Inr guid))) (\<lambda>_. ab_ok)"
    by (intro valid_write valid_reading) auto
qed

text \<open>A rule saved with another level keeps its place, key and target.\<close>

lemma ok_set_level:
  assumes ok: "ab_ok d" and r: "r \<in> set (ab_rules d)" and l: "l \<in> {1, 2, 3}"
  shows "ab_ok (save_rule (r\<lparr>ru_level := l\<rparr>) d)"
proof (rule ok_save_rule [OF ok])
  have sound: "rules_sound d" "ab_schema d" using ok by (simp_all add: ab_ok_def)
  show "ru_book (r\<lparr>ru_level := l\<rparr>) \<in> bk_guid ` set (ab_books d)"
    using sound(2) r by (simp add: ab_schema_def)
  show "ru_user (r\<lparr>ru_level := l\<rparr>) = None \<or> ru_group (r\<lparr>ru_level := l\<rparr>) = None"
    using sound(1) r by (simp add: rules_sound_def)
  show "ru_level (r\<lparr>ru_level := l\<rparr>) \<in> {1, 2, 3}" using l by simp
  fix x assume x: "x \<in> set (ab_rules d)" "targets_of x = targets_of (r\<lparr>ru_level := l\<rparr>)"
  have "inj_on targets_of (set (ab_rules d))" using sound(1) by (simp add: rules_sound_def distinct_map)
  then have "x = r" using x r by (auto simp: targets_of_def inj_on_def)
  then show "rule_key x = rule_key (r\<lparr>ru_level := l\<rparr>)" by (simp add: rule_key_def)
qed

lemma updateRule_ok: "lvl \<in> {1, 2, 3} \<Longrightarrow> valid ab_ok (updateRule guid lvl u) (\<lambda>_. ab_ok)"
  unfolding updateRule_def
  by (rule valid_read, assumption, rule valid_writing)
    (auto simp: updateRule_reads_def rbind_Inr_iff split: option.splits intro!: ok_set_level dest: find_SomeD)

lemma delete_rule_ok: "valid ab_ok (delete_rule r) (\<lambda>_. ab_ok)"
  by (auto simp: valid_def delete_rule_def ok_keep_rules)

lemma deleteRules_ok: "valid ab_ok (deleteRules isUUID guids u) (\<lambda>_. ab_ok)"
  unfolding deleteRules_def deleteRules_tx_def
  by (intro valid_read valid_transaction; (assumption | clarify | simp)?)
    (rule valid_pre [OF valid_for_each [where I = "\<lambda>_. ab_ok"]], auto intro: delete_rule_ok)

lemma createAddressBookProfile_ok:
  "valid ab_ok (createAddressBookProfile name owner sh note password guid) (\<lambda>_. ab_ok)"
  unfolding createAddressBookProfile_def
  by (rule valid_read, assumption, rule valid_write [where R = ab_ok]) (auto simp: ok_save_book valid_reading)

lemma updateCustomAddressBook_ok: "valid ab_ok (updateCustomAddressBook g u name note) (\<lambda>_. ab_ok)"
  unfolding updateCustomAddressBook_def
  by (rule valid_read, assumption, rule valid_writing) (simp add: ok_save_book)

lemma deleteCustomAddressBooks_ok: "valid ab_ok (deleteCustomAddressBooks gs u) (\<lambda>_. ab_ok)"
  unfolding deleteCustomAddressBooks_def
  by (rule valid_read, assumption, rule valid_writing) (simp add: ok_delete_books)

lemma deleteSharedAddressBooks_ok: "valid ab_ok (deleteSharedAddressBooks gs u) (\<lambda>_. ab_ok)"
  unfolding deleteSharedAddressBooks_def
  by (rule valid_read, assumption, rule valid_writing) (simp add: ok_delete_books)

lemma direct_rule_Some: "direct_rule d g t = Some r \<Longrightarrow> r \<in> set (ab_rules d) \<and> targets_of r = (g, Some t, None)"
  unfolding direct_rule_def by (drule find_SomeD) simp

lemma ok_new_direct_rule:
  assumes "ab_ok d" "direct_rule d g t = None" "g \<in> bk_guid ` set (ab_books d)" "l \<in> {1, 2, 3}"
  shows "ab_ok (save_rule \<lparr>ru_guid = guid, ru_book = g, ru_user = Some t, ru_group = None, ru_level = l\<rparr> d)"
  using assms(2-4) by (intro ok_save_rule [OF assms(1)])
    (auto simp: direct_rule_def find_None_iff_all targets_of_def)

lemma shareAddressBook_ok: "valid ab_ok (shareAddressBook g t r u guid) (\<lambda>_. ab_ok)"
  unfolding shareAddressBook_def
proof (rule valid_read, assumption, rule valid_writing, clarify)
  fix d b assume ok: "ab_ok d" and "checkAddressBookAccess d g u FULL_CONTROL = Inr b"
  then have g: "g \<in> bk_guid ` set (ab_books d)" by (simp add: book_in)
  have l: "level r \<in> {1, 2, 3}" by (cases r) auto
  show "ab_ok (save_rule (case direct_rule d g t of
        None \<Rightarrow> \<lparr>ru_guid = guid, ru_book = g, ru_user = Some t, ru_group = None, ru_level = level r\<rparr>
      | Some x \<Rightarrow> x\<lparr>ru_level := level r\<rparr>) d)"
    by (cases "direct_rule d g t")
      (simp_all add: ok_new_direct_rule [OF ok _ g l] ok_set_level [OF ok _ l] direct_rule_Some)
qed

lemma unshareAddressBook_ok: "valid ab_ok (unshareAddressBook g t u) (\<lambda>_. ab_ok)"
  unfolding unshareAddressBook_def
  by (rule valid_read, assumption, rule valid_writing) (simp add: ok_keep_rules)

lemma findShared_Some: "findSharedAddressBook d g = Some b \<Longrightarrow> b \<in> set (ab_books d) \<and> bk_guid b = g \<and> shared_book d b"
  unfolding findSharedAddressBook_def by (drule find_SomeD) simp

lemma updateSharedAddressBook_ok: "valid ab_ok (updateSharedAddressBook g c u guid) (\<lambda>_. ab_ok)"
  unfolding updateSharedAddressBook_def
proof (rule valid_read, assumption)
  fix b
  have "ab_ok (grant_new_owner g c b guid d)" if ok: "ab_ok d" and rd: "updateShared_reads g c u d = Inr b" for d
  proof -
    have "findSharedAddressBook d g = Some b"
      using rd by (auto simp: updateShared_reads_def result_simps split: option.splits)
    then have g: "g \<in> bk_guid ` set (ab_books d)" by (metis findShared_Some imageI)
    show ?thesis
    proof (cases "pc_owner c")
      case None
      then show ?thesis using ok by (simp add: grant_new_owner_def changing_owner_def)
    next
      case (Some w)
      then show ?thesis using ok ok_new_direct_rule [OF ok _ g, of w 3 guid] by (simp add: grant_new_owner_def)
    qed
  qed
  then show "valid (\<lambda>d. ab_ok d \<and> updateShared_reads g c u d = Inr b)
      (sbind (writing_db (grant_new_owner g c b guid)) (\<lambda>_. sbind (reading (renamed (pc_name c)
         (case nonempty (pc_owner c) of None \<Rightarrow> bk_owner b | Some x \<Rightarrow> x) b)) (\<lambda>n.
         writing_db (save_book (new_profile c b n))))) (\<lambda>_. ab_ok)"
    by (intro valid_write [where R = ab_ok] valid_read valid_writing) (auto simp: ok_save_book)
qed

end
