(* ===== verification/Address_Book_Invariant.thy ===== *)
theory Address_Book_Invariant
  imports Address_Book_Tables
begin

text \<open>
  The devices, tags and whole-book replacements keep the tables well formed, and so does every
  request of the module (\<open>serve_ab\<close>), whatever its outcome.
\<close>

subsection \<open>Tags\<close>

lemma addTag_ok:
  assumes "\<And>d. P d \<Longrightarrow> ab_ok d \<and> guid \<notin> tg_guid ` set (ab_tags d)"
  shows "valid P (addTag gate g name color u guid) (\<lambda>_. ab_ok)"
  unfolding addTag_def
proof (rule valid_read)
  fix d assume "P d" then show "ab_ok d" using assms by blast
next
  fix x
  show "valid (\<lambda>d. P d \<and> rbind (permitted gate g u READ_WRITE d) (\<lambda>_. rbind (existing_book g d) (\<lambda>_.
      ensure (tag_named d g name = None) (BadRequestException ''Tag already exists''))) = Inr x)
      (writing_db (add_tag_row \<lparr>tg_guid = guid, tg_book = g, tg_name = name,
        tg_color = (case color of None \<Rightarrow> 0 | Some c \<Rightarrow> c)\<rparr>)) (\<lambda>_. ab_ok)"
    by (rule valid_writing, rule ok_add_tag)
      (use assms in \<open>auto simp: rbind_Inr_iff existing_book_def ensure_Inr_iff dest!: book_of_Some\<close>)
qed

lemma renameTag_ok: "valid ab_ok (renameTag gate g old new u) (\<lambda>_. ab_ok)"
  unfolding renameTag_def by (rule valid_read, assumption, rule valid_writing) (auto intro: ok_change_tag)

lemma updateTag_ok: "valid ab_ok (updateTag gate g name color u) (\<lambda>_. ab_ok)"
  unfolding updateTag_def by (rule valid_read, assumption, rule valid_writing) (auto intro: ok_change_tag)

lemma delete_tags_ok: "valid ab_ok (delete_tags P) (\<lambda>_. ab_ok)"
  using ok_delete_tags [of _ P] by (fastforce simp: valid_def split: prod.splits sum.splits)

lemma deleteTags_ok: "valid ab_ok (deleteTags gate g names u) (\<lambda>_. ab_ok)"
  unfolding deleteTags_def
  by (rule valid_read, assumption, rule valid_write [where R = ab_ok])
    (auto simp: unlink_tags_def Let_def ok_delete_links delete_tags_ok)

subsection \<open>Devices\<close>

text \<open>What a pass of the tagging loop needs: the device is in the book, and the identifiers for the
  tags still to come are unused.\<close>

definition tagging :: "string \<Rightarrow> string \<Rightarrow> (string \<times> string) list \<Rightarrow> ab_db \<Rightarrow> bool" where
  "tagging g pg xs d \<longleftrightarrow> ab_ok d \<and> g \<in> bk_guid ` set (ab_books d) \<and>
     (\<exists>p \<in> set (ab_peers d). pr_guid p = pg \<and> pr_book p = g) \<and>
     distinct (map fst xs) \<and> fst ` set xs \<inter> tg_guid ` set (ab_tags d) = {}"

lemma getOrCreateTag_tagging:
  "valid (tagging g pg ((guid, name) # xs)) (getOrCreateTag g name guid)
     (\<lambda>t d. tagging g pg xs d \<and> (\<exists>tag \<in> set (ab_tags d). tg_guid tag = t \<and> tg_book tag = g))"
  unfolding valid_def
proof (intro allI impI)
  fix d assume t: "tagging g pg ((guid, name) # xs) d"
  show "case getOrCreateTag g name guid d of (Inl e, d') \<Rightarrow> ab_ok d'
      | (Inr t, d') \<Rightarrow> tagging g pg xs d' \<and> (\<exists>tag \<in> set (ab_tags d'). tg_guid tag = t \<and> tg_book tag = g)"
  proof (cases "tag_named d g name")
    case None
    let ?t = "\<lparr>tg_guid = guid, tg_book = g, tg_name = name, tg_color = 0\<rparr>"
    have n: "guid \<notin> tg_guid ` set (ab_tags d)" using t by (auto simp: tagging_def)
    have e: "add_tag_row ?t d = d\<lparr>ab_tags := ab_tags d @ [?t]\<rparr>"
      using n by (simp add: add_tag_row_def save_row_new)
    have "ab_ok (add_tag_row ?t d)" using t n by (intro ok_add_tag) (simp_all add: tagging_def)
    then show ?thesis using t None by (simp add: getOrCreateTag_def tagging_def e)
  next
    case (Some x)
    then show ?thesis using t tag_named_Some [OF Some] by (auto simp: getOrCreateTag_def tagging_def)
  qed
qed

lemma tag_peer_tagging: "valid (tagging g pg (x # xs)) (tag_peer g pg x) (\<lambda>_. tagging g pg xs)"
proof (cases x)
  case (Pair guid name)
  show ?thesis unfolding Pair tag_peer_def prod.case
  proof (rule valid_sbind [OF getOrCreateTag_tagging], rule valid_writing)
    fix tg d
    assume "tagging g pg xs d \<and> (\<exists>tag \<in> set (ab_tags d). tg_guid tag = tg \<and> tg_book tag = g)"
    then obtain tag where t: "tagging g pg xs d" and tag: "tag \<in> set (ab_tags d)" "g = tg_book tag" "tg_guid tag = tg"
      by auto
    then obtain p where p: "p \<in> set (ab_peers d)" "pr_guid p = pg" "pr_book p = tg_book tag"
      by (auto simp: tagging_def)
    have "ab_ok (add_link \<lparr>ln_peer = pg, ln_tag = tg_guid tag\<rparr> d)"
      using ok_add_link [of d p tag] t tag(1) p by (simp add: tagging_def)
    then show "tagging g pg xs (add_link \<lparr>ln_peer = pg, ln_tag = tg\<rparr> d)"
      using t tag(2,3) by (simp add: tagging_def add_link_def)
  qed
qed

lemma tag_peers_ok:
  "valid (tagging g pg (zip (map gs [2..<2 + length names]) names)) (tag_peers g pg gs names) (\<lambda>_. ab_ok)"
  unfolding tag_peers_def
  by (rule valid_for_each [where I = "tagging g pg"], rule tag_peer_tagging) (simp add: tagging_def)

lemma fst_zip_ids: "map fst (zip (map gs [2..<2 + length names]) names) = map gs [2..<2 + length names]"
  by (rule map_fst_zip) (simp only: length_map length_upt add_diff_cancel_left')

lemma tagging_start:
  assumes "ab_ok d" "p \<in> set (ab_peers d)" "inj gs" "range gs \<inter> tg_guid ` set (ab_tags d) = {}"
  shows "tagging (pr_book p) (pr_guid p) (zip (map gs [2..<2 + length names]) names) d"
proof -
  let ?xs = "zip (map gs [2..<2 + length names]) names"
  have "distinct (map fst ?xs)"
    unfolding fst_zip_ids using assms(3) by (simp add: distinct_map inj_on_subset [OF _ subset_UNIV])
  moreover have "fst ` set ?xs \<subseteq> range gs"
    unfolding set_map [symmetric] fst_zip_ids by auto
  moreover have "pr_book p \<in> bk_guid ` set (ab_books d)"
    using ab_okE(1) [OF assms(1)] assms(2) by (simp add: ab_schema_def)
  ultimately show ?thesis using assms unfolding tagging_def by blast
qed

definition unused :: "(nat \<Rightarrow> string) \<Rightarrow> ab_db \<Rightarrow> bool" where
  "unused gs d \<longleftrightarrow> inj gs \<and> range gs \<inter> tg_guid ` set (ab_tags d) = {} \<and> range gs \<inter> pr_guid ` set (ab_peers d) = {}"

lemma unused_peer: "unused gs d \<Longrightarrow> gs i \<notin> pr_guid ` set (ab_peers d)"
  unfolding unused_def by blast

lemma unused_fresh: "fresh_ids gs d \<Longrightarrow> unused gs d"
  by (auto simp: fresh_ids_def unused_def used_ids_def)

lemma findOrCreatePeer_ok:
  assumes "\<And>d vs. P d \<Longrightarrow> P (d\<lparr>ab_devices := vs\<rparr>)" and "\<And>d. P d \<Longrightarrow> ab_ok d"
  shows "valid P (findOrCreatePeer i guid) (\<lambda>_. P)"
  using assms by (auto simp: valid_def findOrCreatePeer_def split: option.splits)

lemma addPeer_ok:
  "valid (\<lambda>d. ab_ok d \<and> unused gs d) (addPeer gate g dto u gs) (\<lambda>_. ab_ok)"
  unfolding addPeer_def
proof (rule valid_read)
  fix x
  let ?P = "\<lambda>d. ab_ok d \<and> unused gs d \<and> g \<in> bk_guid ` set (ab_books d)"
  let ?xs = "\<lambda>dev d. ab_ok d \<and> unused gs d \<and> g \<in> bk_guid ` set (ab_books d) \<and> peer_on d g dev = None"
  let ?names = "case pd_tags dto of None \<Rightarrow> [] | Some ts \<Rightarrow> ts"
  have find: "valid ?P (findOrCreatePeer (pd_id dto) (gs 1)) (\<lambda>_. ?P)"
    by (rule findOrCreatePeer_ok) (auto simp: ok_devices unused_def)
  have save: "tagging g (gs 0) (zip (map gs [2..<2 + length ?names]) ?names) (save_peer (new_peer (gs 0) g dev dto) d)"
    if "?P d" for d dev
  proof -
    let ?p = "new_peer (gs 0) g dev dto"
    have n: "pr_guid ?p \<notin> pr_guid ` set (ab_peers d)" using that unused_peer [of gs d 0] by (simp add: new_peer_def)
    have ok: "ab_ok (save_peer ?p d)" using that n by (intro ok_save_peer) (simp_all add: new_peer_def)
    have "?p \<in> set (ab_peers (save_peer ?p d))" by (simp add: save_peer_def set_save_row)
    from tagging_start [OF ok this] show ?thesis
      using that by (simp add: unused_def new_peer_def save_peer_def)
  qed
  show "valid (\<lambda>d. (ab_ok d \<and> unused gs d) \<and> rbind (permitted gate g u READ_WRITE d) (\<lambda>_. existing_book g d) = Inr x)
      (sbind (findOrCreatePeer (pd_id dto) (gs 1)) (\<lambda>dev.
        sbind (reading (\<lambda>d. ensure (peer_on d g dev = None) (BadRequestException ''Device already exists in the address book'')))
        (\<lambda>_. sbind (writing_db (save_peer (new_peer (gs 0) g dev dto))) (\<lambda>_. tag_peers g (gs 0) gs ?names)))) (\<lambda>_. ab_ok)"
  proof (rule valid_sbind)
    show "valid (\<lambda>d. (ab_ok d \<and> unused gs d) \<and> rbind (permitted gate g u READ_WRITE d) (\<lambda>_. existing_book g d) = Inr x)
        (findOrCreatePeer (pd_id dto) (gs 1)) (\<lambda>_. ?P)"
      by (rule valid_pre [OF find]) (auto simp: rbind_Inr_iff existing_book_def ensure_Inr_iff dest!: book_of_Some)
    fix dev
    show "valid ?P (sbind (reading (\<lambda>d. ensure (peer_on d g dev = None)
          (BadRequestException ''Device already exists in the address book'')))
        (\<lambda>_. sbind (writing_db (save_peer (new_peer (gs 0) g dev dto))) (\<lambda>_. tag_peers g (gs 0) gs ?names))) (\<lambda>_. ab_ok)"
      by (rule valid_read, blast, rule valid_write [OF save tag_peers_ok], blast)
  qed
qed blast

lemma updatePeer_ok:
  "valid (\<lambda>d. ab_ok d \<and> unused gs d) (updatePeer gate g dto u gs) (\<lambda>_. ab_ok)"
  unfolding updatePeer_def
proof (rule valid_read, blast, rule valid_sbind)
  let ?P = "\<lambda>d. ab_ok d \<and> unused gs d"
  fix x
  show "valid (\<lambda>d. ?P d \<and> permitted gate g u READ_WRITE d = Inr x) (findOrCreatePeer (ud_id dto) (gs 1)) (\<lambda>_. ?P)"
    by (rule valid_pre [OF findOrCreatePeer_ok]) (auto simp: ok_devices unused_def)
  fix dev
  let ?set = "\<lambda>p d. d\<lparr>ab_peers := map (\<lambda>x. if pr_guid x = pr_guid p then changed_peer dto x else x) (ab_peers d)\<rparr>"
  have upd: "ab_ok (?set p d) \<and> unused gs (?set p d) \<and>
      (\<exists>q \<in> set (ab_peers (?set p d)). pr_guid q = pr_guid p \<and> pr_book q = g)"
    if ok: "?P d" and p: "peer_on d g dev = Some p" for d p
  proof -
    have k: "pr_guid (changed_peer dto y) = pr_guid y" "pr_book (changed_peer dto y) = pr_book y" for y
      by (simp_all add: changed_peer_def)
    have "ab_ok (?set p d)" using ok by (intro ok_map_peers) (simp_all add: k)
    moreover have "pr_guid ` set (ab_peers (?set p d)) = pr_guid ` set (ab_peers d)"
      proof -
      have "map pr_guid (ab_peers (?set p d)) = map pr_guid (ab_peers d)" by (simp add: k)
      then show ?thesis by (metis set_map)
    qed
    then have "unused gs (?set p d)" using ok by (simp add: unused_def)
    moreover have "\<exists>q \<in> set (ab_peers (?set p d)). pr_guid q = pr_guid p \<and> pr_book q = g"
      using peer_on_Some [OF p] by (intro bexI [of _ "changed_peer dto p"]) (auto simp: k image_iff)
    ultimately show ?thesis by blast
  qed
  show "valid ?P (sbind (reading (\<lambda>d. case peer_on d g dev of
         None \<Rightarrow> Inl (NotFoundException ''Device does not exist in this address book'') | Some p \<Rightarrow> Inr p))
     (\<lambda>p. sbind (writing_db (?set p))
     (\<lambda>_. case ud_tags dto of None \<Rightarrow> reading (\<lambda>_. Inr ()) | Some ts \<Rightarrow> replace_tags g (pr_guid p) gs ts))) (\<lambda>_. ab_ok)"
  proof (rule valid_read, blast, rule valid_write [where R = "\<lambda>d. ab_ok d \<and> unused gs d \<and>
        (\<exists>q \<in> set (ab_peers d). pr_guid q = pr_guid p \<and> pr_book q = g)" for p])
    fix p d assume "?P d \<and> (case peer_on d g dev of
         None \<Rightarrow> Inl (NotFoundException ''Device does not exist in this address book'') | Some p \<Rightarrow> Inr p) = Inr p"
    then show "ab_ok (?set p d) \<and> unused gs (?set p d) \<and>
        (\<exists>q \<in> set (ab_peers (?set p d)). pr_guid q = pr_guid p \<and> pr_book q = g)"
      by (intro upd) (auto split: option.splits)
  next
    fix p
    let ?R = "\<lambda>d. ab_ok d \<and> unused gs d \<and> (\<exists>q \<in> set (ab_peers d). pr_guid q = pr_guid p \<and> pr_book q = g)"
    have start: "tagging g (pr_guid p) (zip (map gs [2..<2 + length ts]) ts) (delete_links (\<lambda>l. ln_peer l = pr_guid p) d)"
      if R: "?R d" for d ts
    proof -
      let ?d = "delete_links (\<lambda>l. ln_peer l = pr_guid p) d"
      obtain q where q: "q \<in> set (ab_peers ?d)" "pr_guid q = pr_guid p" "pr_book q = g"
        using R by (auto simp: delete_links_def)
      have "ab_ok ?d" using R by (simp add: ok_delete_links)
      from tagging_start [OF this q(1)] show ?thesis using R q by (simp add: unused_def delete_links_def)
    qed
    show "valid ?R (case ud_tags dto of None \<Rightarrow> reading (\<lambda>_. Inr ()) | Some ts \<Rightarrow> replace_tags g (pr_guid p) gs ts) (\<lambda>_. ab_ok)"
    proof (cases "ud_tags dto")
      case None
      then show ?thesis by simp (rule valid_reading, auto)
    next
      case (Some ts)
      show ?thesis
      proof (cases ts)
        case None
        have "valid ?R (sbind (writing_db (delete_links (\<lambda>l. ln_peer l = pr_guid p)))
            (\<lambda>_. reading (\<lambda>_. Inl e))) (\<lambda>_. ab_ok)" for e :: http_error
          by (rule valid_write [where R = ab_ok], simp add: ok_delete_links, rule valid_reading, auto)
        then show ?thesis by (simp add: Some None replace_tags_def)
      next
        case names: (Some ns)
        show ?thesis unfolding Some option.case replace_tags_def names by (rule valid_write [OF start tag_peers_ok])
      qed
    qed
  qed
qed

lemma deletePeers_ok: "valid ab_ok (deletePeers gate g ids u) (\<lambda>_. ab_ok)"
  unfolding deletePeers_def
  by (rule valid_read, assumption, rule valid_writing) (simp add: ok_delete_peers Let_def)

subsection \<open>Replacing a whole book\<close>

lemma personal_or_new_ok:
  "valid (\<lambda>d. ab_ok d \<and> unused gs d) (personal_or_new u guid)
     (\<lambda>g d. ab_ok d \<and> unused gs d \<and> g \<in> bk_guid ` set (ab_books d))"
  unfolding valid_def
proof (intro allI impI)
  fix d assume d: "ab_ok d \<and> unused gs d"
  show "case personal_or_new u guid d of (Inl e, d') \<Rightarrow> ab_ok d'
      | (Inr g, d') \<Rightarrow> ab_ok d' \<and> unused gs d' \<and> g \<in> bk_guid ` set (ab_books d')"
  proof (cases "personal_book d u")
    case None
    then show ?thesis using d by (simp add: personal_or_new_def ok_books unused_def)
  next
    case (Some b)
    then have "b \<in> set (ab_books d)" by (auto simp: personal_book_def dest: find_SomeD)
    then show ?thesis using d Some by (simp add: personal_or_new_def)
  qed
qed

text \<open>The tags of the new content can be added one after the other, and the entries then link to
  them.\<close>

definition adding :: "string \<Rightarrow> ab_tag list \<Rightarrow> ab_tag list \<Rightarrow> (ab_db \<Rightarrow> bool) \<Rightarrow> ab_db \<Rightarrow> bool" where
  "adding g all todo K d \<longleftrightarrow> ab_ok d \<and> g \<in> bk_guid ` set (ab_books d) \<and> K d \<and>
     (\<forall>t \<in> set all. tg_book t = g) \<and> set todo \<subseteq> set all \<and> set all - set todo \<subseteq> set (ab_tags d) \<and>
     distinct (map tg_guid todo) \<and> tg_guid ` set todo \<inter> tg_guid ` set (ab_tags d) = {}"

lemma add_tags_ok:
  assumes "\<And>d ts. K d \<Longrightarrow> K (d\<lparr>ab_tags := ts\<rparr>)"
  shows "valid (adding g all todo K) (for_each (\<lambda>t. writing_db (add_tag_row t)) todo)
     (\<lambda>_ d. ab_ok d \<and> g \<in> bk_guid ` set (ab_books d) \<and> K d \<and> set all \<subseteq> set (ab_tags d) \<and> (\<forall>t \<in> set all. tg_book t = g))"
proof (rule valid_for_each [where I = "\<lambda>todo. adding g all todo K"])
  fix t todo
  show "valid (adding g all (t # todo) K) (writing_db (add_tag_row t)) (\<lambda>_. adding g all todo K)"
  proof (rule valid_writing)
    fix d assume a: "adding g all (t # todo) K d"
    have n: "tg_guid t \<notin> tg_guid ` set (ab_tags d)" "tg_book t = g" using a by (auto simp: adding_def)
    have e: "add_tag_row t d = d\<lparr>ab_tags := ab_tags d @ [t]\<rparr>" by (simp add: add_tag_row_def save_row_new n(1))
    have "ab_ok (add_tag_row t d)" using a n by (intro ok_add_tag) (simp_all add: adding_def)
    then show "adding g all todo K (add_tag_row t d)" using a assms by (auto simp: adding_def e)
  qed
qed (auto simp: adding_def)

lemma tag_guids_sound: "map_of (tag_guids ts) n = Some t \<Longrightarrow> \<exists>tag \<in> set ts. tg_guid tag = t \<and> tg_name tag = n"
proof -
  have "map_of (foldl (\<lambda>m t. AList.update (tg_name t) (tg_guid t) m) m ts) n = Some t \<Longrightarrow>
      map_of m n = Some t \<or> (\<exists>tag \<in> set ts. tg_guid tag = t \<and> tg_name tag = n)" for m
  proof (induction ts arbitrary: m)
    case Nil
    then show ?case by simp
  next
    case (Cons a ts)
    then have "map_of (AList.update (tg_name a) (tg_guid a) m) n = Some t \<or>
        (\<exists>tag \<in> set ts. tg_guid tag = t \<and> tg_name tag = n)" by simp
    then show ?case by (auto simp: update_conv' split: if_splits)
  qed
  then show "map_of (tag_guids ts) n = Some t \<Longrightarrow> \<exists>tag \<in> set ts. tg_guid tag = t \<and> tg_name tag = n"
    by (fastforce simp: tag_guids_def)
qed

lemma add_links_ok:
  "valid (\<lambda>d. ab_ok d \<and> K d \<and> (\<forall>l \<in> set ls. \<exists>p \<in> set (ab_peers d). \<exists>t \<in> set (ab_tags d).
       pr_guid p = ln_peer l \<and> tg_guid t = ln_tag l \<and> pr_book p = tg_book t))
     (for_each (\<lambda>l. writing_db (add_link l)) ls) (\<lambda>_ d. ab_ok d \<and> K d)"
  if K: "\<And>d ls. K d \<Longrightarrow> K (d\<lparr>ab_links := ls\<rparr>)" for K
proof (rule valid_for_each [where I = "\<lambda>ls d. ab_ok d \<and> K d \<and> (\<forall>l \<in> set ls. \<exists>p \<in> set (ab_peers d). \<exists>t \<in> set (ab_tags d).
       pr_guid p = ln_peer l \<and> tg_guid t = ln_tag l \<and> pr_book p = tg_book t)"])
  fix l ls
  show "valid (\<lambda>d. ab_ok d \<and> K d \<and> (\<forall>l \<in> set (l # ls). \<exists>p \<in> set (ab_peers d). \<exists>t \<in> set (ab_tags d).
        pr_guid p = ln_peer l \<and> tg_guid t = ln_tag l \<and> pr_book p = tg_book t)) (writing_db (add_link l))
      (\<lambda>_ d. ab_ok d \<and> K d \<and> (\<forall>l \<in> set ls. \<exists>p \<in> set (ab_peers d). \<exists>t \<in> set (ab_tags d).
        pr_guid p = ln_peer l \<and> tg_guid t = ln_tag l \<and> pr_book p = tg_book t))"
  proof (rule valid_writing)
    fix d assume a: "ab_ok d \<and> K d \<and> (\<forall>l \<in> set (l # ls). \<exists>p \<in> set (ab_peers d). \<exists>t \<in> set (ab_tags d).
        pr_guid p = ln_peer l \<and> tg_guid t = ln_tag l \<and> pr_book p = tg_book t)"
    then obtain p t where pt: "p \<in> set (ab_peers d)" "t \<in> set (ab_tags d)" "pr_guid p = ln_peer l"
      "tg_guid t = ln_tag l" "pr_book p = tg_book t" by auto
    have e: "\<lparr>ln_peer = pr_guid p, ln_tag = tg_guid t\<rparr> = l" using pt by (cases l) simp
    have "ab_ok (add_link l d)" using ok_add_link [of d p t] a pt(1,2,5) unfolding e by blast
    then show "ab_ok (add_link l d) \<and> K (add_link l d) \<and> (\<forall>l' \<in> set ls. \<exists>p \<in> set (ab_peers (add_link l d)).
        \<exists>t \<in> set (ab_tags (add_link l d)). pr_guid p = ln_peer l' \<and> tg_guid t = ln_tag l' \<and> pr_book p = tg_book t)"
      using a K by (simp add: add_link_def)
  qed
qed simp

definition room_for :: "string \<Rightarrow> ab_tag list \<Rightarrow> (string \<times> string \<times> legacy_peer) list \<Rightarrow> ab_db \<Rightarrow> bool" where
  "room_for g ts xs d \<longleftrightarrow> g \<in> bk_guid ` set (ab_books d) \<and> set ts \<subseteq> set (ab_tags d) \<and>
     (\<forall>t \<in> set ts. tg_book t = g) \<and> distinct (map fst xs) \<and> fst ` set xs \<inter> pr_guid ` set (ab_peers d) = {}"

definition entering :: "string \<Rightarrow> ab_tag list \<Rightarrow> (string \<times> string \<times> legacy_peer) list \<Rightarrow> ab_db \<Rightarrow> bool" where
  "entering g ts xs d \<longleftrightarrow> ab_ok d \<and> room_for g ts xs d"

lemma in_map_filter: "y \<in> set (List.map_filter f xs) \<longleftrightarrow> (\<exists>x \<in> set xs. f x = Some y)"
  by (induction xs) (auto simp: List.map_filter_def)

lemma legacy_links_tags:
  "l \<in> set (legacy_links (tag_guids ts) guid x) \<Longrightarrow> ln_peer l = guid \<and> (\<exists>t \<in> set ts. tg_guid t = ln_tag l)"
  by (auto simp: legacy_links_def in_map_filter dest!: tag_guids_sound)

lemma add_legacy_peer_ok:
  "valid (entering g ts (x # xs)) (add_legacy_peer g (tag_guids ts) x) (\<lambda>_. entering g ts xs)"
proof (cases x)
  case (fields guid devGuid lp)
  have find: "valid (entering g ts (x # xs)) (findOrCreatePeer_legacy (lp_id lp) devGuid) (\<lambda>_. entering g ts (x # xs))"
    by (auto simp: valid_def findOrCreatePeer_legacy_def entering_def room_for_def ok_devices split: option.splits)
  show ?thesis unfolding add_legacy_peer_def fields prod.case
  proof (rule valid_sbind [OF find [unfolded fields]])
    fix found
    show "valid (entering g ts ((guid, devGuid, lp) # xs))
        (case found of None \<Rightarrow> reading (\<lambda>_. Inr ())
         | Some dev \<Rightarrow> sbind (writing_db (save_peer (legacy_entry guid g dev lp)))
             (\<lambda>_. for_each (\<lambda>l. writing_db (add_link l)) (legacy_links (tag_guids ts) guid lp)))
        (\<lambda>_. entering g ts xs)"
    proof (cases found)
      case None
      then show ?thesis by simp (rule valid_reading, auto simp: entering_def room_for_def)
    next
      case (Some dev)
      let ?p = "legacy_entry guid g dev lp"
      let ?K = "room_for g ts xs"
      show ?thesis unfolding Some option.case
      proof (rule valid_write [OF _ valid_post [OF add_links_ok [where K = ?K]]])
        fix d assume a: "entering g ts ((guid, devGuid, lp) # xs) d"
        have n: "pr_guid ?p \<notin> pr_guid ` set (ab_peers d)" using a by (auto simp: entering_def room_for_def legacy_entry_def)
        have e: "save_peer ?p d = d\<lparr>ab_peers := ab_peers d @ [?p]\<rparr>" by (simp add: save_peer_def save_row_new n)
        have ok: "ab_ok (save_peer ?p d)" using a n by (intro ok_save_peer) (simp_all add: entering_def room_for_def legacy_entry_def)
        have K: "?K (save_peer ?p d)"
          using a unfolding entering_def room_for_def e by (auto simp: legacy_entry_def)
        have "\<exists>p \<in> set (ab_peers (save_peer ?p d)). \<exists>t \<in> set (ab_tags (save_peer ?p d)).
            pr_guid p = ln_peer l \<and> tg_guid t = ln_tag l \<and> pr_book p = tg_book t"
          if l: "l \<in> set (legacy_links (tag_guids ts) guid lp)" for l
        proof -
          obtain t where t: "t \<in> set ts" "tg_guid t = ln_tag l" "ln_peer l = guid"
            using legacy_links_tags [OF l] by blast
          have "tg_book t = g" "t \<in> set (ab_tags d)" using a t(1) by (auto simp: entering_def room_for_def)
          then show ?thesis using t unfolding e
            by (intro bexI [of _ ?p] bexI [of _ t]) (simp_all add: legacy_entry_def)
        qed
        then show "ab_ok (save_peer ?p d) \<and> ?K (save_peer ?p d) \<and> (\<forall>l \<in> set (legacy_links (tag_guids ts) guid lp).
            \<exists>p \<in> set (ab_peers (save_peer ?p d)). \<exists>t \<in> set (ab_tags (save_peer ?p d)).
            pr_guid p = ln_peer l \<and> tg_guid t = ln_tag l \<and> pr_book p = tg_book t)"
          using ok K by blast
      next
        fix d ls assume a: "?K d"
        then show "?K (d\<lparr>ab_links := ls\<rparr>)" by (simp add: room_for_def)
      qed (simp add: entering_def)
    qed
  qed
qed

text \<open>Once the links of a book are gone, nothing stands in the way of deleting its tags.\<close>

lemma clear_links_ok: "ab_ok d \<Longrightarrow> ab_ok (clear_links g d)"
  by (simp add: clear_links_def Let_def ok_delete_links)

lemma cleared_tags:
  assumes "links_local d" and "l \<in> set (ab_links (clear_links g d))"
    and "t \<in> set (ab_tags d)" and "tg_book t = g" and "distinct (map tg_guid (ab_tags d))"
  shows "ln_tag l \<noteq> tg_guid t"
proof
  assume e: "ln_tag l = tg_guid t"
  have l: "l \<in> set (ab_links d)" "ln_peer l \<notin> pr_guid ` {p \<in> set (ab_peers d). pr_book p = g}"
    using assms(2) by (auto simp: clear_links_def delete_links_def Let_def filter_empty_conv split: if_splits)
  obtain p t' where "p \<in> set (ab_peers d)" "t' \<in> set (ab_tags d)" "pr_guid p = ln_peer l" "tg_guid t' = ln_tag l"
    "pr_book p = tg_book t'" using assms(1) l(1) by (auto simp: links_local_def)
  moreover have "t' = t" using calculation assms(3,5) e by (auto simp: distinct_map inj_on_def)
  ultimately show False using l(2) assms(4) by force
qed

lemma delete_book_tags:
  assumes "ab_ok d"
  shows "delete_tags (\<lambda>t. tg_book t = g) (clear_links g d) =
    (Inr (), (clear_links g d)\<lparr>ab_tags := filter (\<lambda>t. tg_book t \<noteq> g) (ab_tags d)\<rparr>)"
proof -
  have t: "ab_tags (clear_links g d) = ab_tags d" by (simp add: clear_links_def delete_links_def Let_def)
  have "distinct (map tg_guid (ab_tags d))" "links_local d" using assms by (simp_all add: ab_ok_def ab_schema_def)
  then have "\<not> list_ex (\<lambda>l. ln_tag l \<in> set (map tg_guid (filter (\<lambda>t. tg_book t = g) (ab_tags d)))) (ab_links (clear_links g d))"
    using cleared_tags by (fastforce simp: list_ex_iff)
  then show ?thesis by (simp add: delete_tags_def t)
qed

lemma legacy_tags_book: "t \<in> set (legacy_tags g gs b) \<Longrightarrow> tg_book t = g"
  by (auto simp: legacy_tags_def)

lemma legacy_tags_guids:
  assumes "inj gs"
  shows "distinct (map tg_guid (legacy_tags g gs b))" and "tg_guid ` set (legacy_tags g gs b) \<subseteq> range gs"
proof -
  define ts where "ts = (case ld_tags b of None \<Rightarrow> [] | Some ts \<Rightarrow> ts)"
  define zs where "zs = zip (map (\<lambda>i. gs (3 * i)) [0..<length ts]) ts"
  have m: "map tg_guid (legacy_tags g gs b) = map fst (filter (\<lambda>(guid, name). name \<notin> set dangerousProperties) zs)"
    by (simp add: legacy_tags_def ts_def [symmetric] zs_def Let_def comp_def case_prod_unfold)
  have fz: "map fst zs = map (\<lambda>i. gs (3 * i)) [0..<length ts]" by (simp add: zs_def)
  have "distinct (map fst zs)"
    unfolding fz by (auto simp: distinct_map inj_on_def dest: injD [OF assms])
  then show "distinct (map tg_guid (legacy_tags g gs b))" unfolding m by (rule distinct_map_filter')
  have "fst ` set zs \<subseteq> range gs" unfolding set_map [symmetric] fz by auto
  then have "fst ` set (filter (\<lambda>(guid, name). name \<notin> set dangerousProperties) zs) \<subseteq> range gs" by auto
  then show "tg_guid ` set (legacy_tags g gs b) \<subseteq> range gs"
    unfolding set_map [symmetric] m by (simp only: set_map)
qed

lemma numbered_peers_guids:
  assumes "inj gs"
  shows "distinct (map fst (numbered_peers gs b))" and "fst ` set (numbered_peers gs b) \<subseteq> range gs"
proof -
  define ps where "ps = (case ld_peers b of None \<Rightarrow> [] | Some ps \<Rightarrow> ps)"
  have m: "map fst (numbered_peers gs b) = map (\<lambda>i. gs (3 * i + 1)) [0..<length ps]"
    by (rule nth_equalityI) (simp_all add: numbered_peers_def ps_def [symmetric] Let_def)
  show "distinct (map fst (numbered_peers gs b))" unfolding m by (auto simp: distinct_map inj_on_def dest: injD [OF assms])
  show "fst ` set (numbered_peers gs b) \<subseteq> range gs" unfolding set_map [symmetric] m by auto
qed

lemma replace_book_ok:
  "valid (\<lambda>d. ab_ok d \<and> unused gs d \<and> g \<in> bk_guid ` set (ab_books d)) (replace_book g gs b) (\<lambda>_. ab_ok)"
  unfolding replace_book_def
proof (rule valid_write)
  let ?ts = "legacy_tags g gs b" and ?ps = "numbered_peers gs b"
  let ?Q = "\<lambda>d. ab_ok d \<and> unused gs d \<and> g \<in> bk_guid ` set (ab_books d)"
  fix d assume a: "?Q d"
  show "?Q (clear_links g d)"
    using a by (simp add: clear_links_ok) (simp add: clear_links_def delete_links_def unused_def Let_def)
next
  let ?ts = "legacy_tags g gs b" and ?ps = "numbered_peers gs b"
  let ?Q = "\<lambda>d. ab_ok d \<and> unused gs d \<and> g \<in> bk_guid ` set (ab_books d)"
  let ?K = "\<lambda>d. distinct (map fst ?ps) \<and> fst ` set ?ps \<inter> pr_guid ` set (ab_peers d) = {}"
  have dt: "valid ?Q (delete_tags (\<lambda>t. tg_book t = g)) (\<lambda>_. ?Q)"
    unfolding valid_def
  proof (intro allI impI)
    fix d assume a: "?Q d"
    then have ok: "ab_ok (snd (delete_tags (\<lambda>t. tg_book t = g) d))" by (simp add: ok_delete_tags)
    show "case delete_tags (\<lambda>t. tg_book t = g) d of (Inl e, d') \<Rightarrow> ab_ok d' | (Inr x, d') \<Rightarrow> ?Q d'"
      using a ok by (auto simp: delete_tags_def Let_def unused_def split: if_splits)
  qed
  have start: "adding g ?ts ?ts ?K (delete_peers (\<lambda>p. pr_book p = g) d)" if a: "?Q d" for d
  proof -
    have inj: "inj gs" and free: "range gs \<inter> tg_guid ` set (ab_tags d) = {}" "range gs \<inter> pr_guid ` set (ab_peers d) = {}"
      using a by (simp_all add: unused_def)
    let ?d = "delete_peers (\<lambda>p. pr_book p = g) d"
    have d: "ab_tags ?d = ab_tags d" "ab_books ?d = ab_books d" "set (ab_peers ?d) \<subseteq> set (ab_peers d)"
      by (auto simp: delete_peers_def Let_def)
    have "tg_guid ` set ?ts \<inter> tg_guid ` set (ab_tags d) = {}"
      using free(1) legacy_tags_guids(2) [OF inj, of g b] by blast
    moreover have "fst ` set ?ps \<inter> pr_guid ` set (ab_peers ?d) = {}"
      using free(2) d(3) numbered_peers_guids(2) [OF inj, of b] by blast
    ultimately show ?thesis
      using a ok_delete_peers [of d "\<lambda>p. pr_book p = g"] legacy_tags_book [of _ g gs b]
      by (simp add: adding_def d legacy_tags_guids(1) [OF inj] numbered_peers_guids(1) [OF inj])
  qed
  show "valid ?Q (sbind (delete_tags (\<lambda>t. tg_book t = g)) (\<lambda>_.
      sbind (writing_db (delete_peers (\<lambda>p. pr_book p = g))) (\<lambda>_.
      sbind (for_each (\<lambda>t. writing_db (add_tag_row t)) ?ts) (\<lambda>_. for_each (add_legacy_peer g (tag_guids ?ts)) ?ps)))) (\<lambda>_. ab_ok)"
  proof (rule valid_sbind [OF dt], rule valid_write [where R = "adding g ?ts ?ts ?K"], erule start, rule valid_sbind [OF add_tags_ok])
    show "valid (\<lambda>d. ab_ok d \<and> g \<in> bk_guid ` set (ab_books d) \<and> ?K d \<and> set ?ts \<subseteq> set (ab_tags d) \<and> (\<forall>t \<in> set ?ts. tg_book t = g))
        (for_each (add_legacy_peer g (tag_guids ?ts)) ?ps) (\<lambda>_. ab_ok)" for x :: unit
      by (rule valid_pre [OF valid_for_each [where I = "entering g ?ts"]], rule add_legacy_peer_ok)
        (auto simp: entering_def room_for_def)
  qed simp
qed

lemma updateLegacy_ok:
  "valid (\<lambda>d. ab_ok d \<and> unused gs d) (updateLegacyAddressBook u body guid gs) (\<lambda>_. ab_ok)"
proof (cases body)
  case (Parsed b)
  show ?thesis unfolding updateLegacyAddressBook_def Parsed legacy_body.case
    by (rule valid_sbind [OF personal_or_new_ok], rule valid_transaction [OF _ replace_book_ok]) simp
qed (simp_all add: updateLegacyAddressBook_def, (rule valid_reading, auto)+)

subsection \<open>Every request\<close>

lemma valid_from_ok: "valid ab_ok m (\<lambda>_. ab_ok) \<Longrightarrow> valid (\<lambda>d. ab_ok d \<and> fresh_ids gs d) m (\<lambda>_. ab_ok)"
  by (erule valid_pre) simp

lemma valid_from_unused:
  "valid (\<lambda>d. ab_ok d \<and> unused gs d) m (\<lambda>_. ab_ok) \<Longrightarrow> valid (\<lambda>d. ab_ok d \<and> fresh_ids gs d) m (\<lambda>_. ab_ok)"
  by (erule valid_pre) (simp add: unused_fresh)

lemma unused_Suc: "unused gs d \<Longrightarrow> unused (\<lambda>n. gs (Suc n)) d"
proof -
  assume u: "unused gs d"
  have "range (\<lambda>n. gs (Suc n)) \<subseteq> range gs" by auto
  moreover have "inj (\<lambda>n. gs (Suc n))" using u by (auto simp: unused_def inj_def)
  ultimately show "unused (\<lambda>n. gs (Suc n)) d" using u unfolding unused_def by blast
qed

lemma personal_ok: "valid (\<lambda>d. ab_ok d \<and> unused gs d) (personal_or_new u guid) (\<lambda>_. ab_ok)"
  by (rule valid_post [OF personal_or_new_ok]) simp

lemma serve_valid:
  assumes "valid_ab_request req"
  shows "valid (\<lambda>d. ab_ok d \<and> fresh_ids gs d) (serve_ab isUUID u req gs) (\<lambda>_. ab_ok)"
proof (cases req)
  case OpenPersonal
  have "valid (\<lambda>d. ab_ok d \<and> unused gs d) (forget (personal_or_new u (gs 0))) (\<lambda>_. ab_ok)"
    by (rule valid_forget [OF personal_ok])
  then show ?thesis using OpenPersonal by (simp add: getPersonalAddressBook_def valid_from_unused)
next
  case ReadLegacy
  have "valid (\<lambda>d. ab_ok d \<and> unused gs d) (getLegacyAddressBook u (gs 0)) (\<lambda>_. ab_ok)"
    unfolding getLegacyAddressBook_def by (rule valid_sbind [OF personal_ok], rule valid_reading) simp_all
  then show ?thesis using ReadLegacy by (simp add: valid_from_unused valid_forget)
next
  case (ReplaceLegacy b)
  have "valid (\<lambda>d. ab_ok d \<and> unused gs d) (updateLegacyAddressBook u b (gs 0) (\<lambda>n. gs (Suc n))) (\<lambda>_. ab_ok)"
    by (rule valid_pre [OF updateLegacy_ok]) (simp add: unused_Suc)
  then show ?thesis using ReplaceLegacy by (simp add: valid_from_unused)
next
  case (AddTag g name color)
  have "valid (\<lambda>d. ab_ok d \<and> fresh_ids gs d) (addTag checkAddressBookAccess g name color (Some u) (gs 0)) (\<lambda>_. ab_ok)"
    by (rule addTag_ok) (auto simp: fresh_ids_def used_ids_def)
  then show ?thesis using AddTag by simp
next
  case (AddRule dto)
  then show ?thesis using assms by (simp add: valid_from_ok valid_forget createRule_ok)
qed (use assms in \<open>simp_all add: valid_from_ok valid_from_unused valid_forget addCustomAddressBook_def addSharedAddressBook_def
  createAddressBookProfile_ok updateCustomAddressBook_ok deleteCustomAddressBooks_ok updateSharedAddressBook_ok
  deleteSharedAddressBooks_ok addPeer_ok updatePeer_ok deletePeers_ok renameTag_ok updateTag_ok deleteTags_ok
  updateRule_ok deleteRules_ok shareAddressBook_ok unshareAddressBook_ok\<close>)

text \<open>C34. Whatever a request of the address book module does, served or refused, it leaves the tables
  well formed: keys unique, no row of a missing book, every tag link within one book, at most one
  rule per target and book, with a level from 1 to 3.\<close>

theorem requests_keep_tables:
  assumes "ab_ok d" and "fresh_ids gs d" and "valid_ab_request req"
  shows "ab_ok (snd (serve_ab isUUID u req gs d))"
  by (rule valid_ok [OF serve_valid [OF assms(3)]]) (use assms in simp)

definition example_ids :: "nat \<Rightarrow> string" where
  "example_ids n = ''new-'' @ replicate n CHR ''x''"

lemma example_fresh: "fresh_ids example_ids example_books"
proof -
  have "inj example_ids" by (rule injI) (simp add: example_ids_def)
  moreover have "example_ids n \<notin> used_ids example_books" for n
    by (simp add: example_ids_def used_ids_def example_books_def)
  ultimately show ?thesis by (auto simp: fresh_ids_def)
qed

theorem requests_keep_tables_witness:
  "ab_ok (snd (serve_ab (\<lambda>_. False) ''ann'' (UpdateShared ''ab1''
     \<lparr>pc_name = Some ''Laptops'', pc_note = None, pc_owner = Some ''dan'', pc_password = None\<rparr>) example_ids example_books))"
  by (rule requests_keep_tables [OF example_books_ok example_fresh]) simp

end
