(* ===== verification/Address_Book_Safety.thy ===== *)
theory Address_Book_Safety
  imports Address_Book_Invariant
begin

text \<open>
  What requests cannot do to an address book: without full control they change nobody's access to
  it, and without write access they change nothing of it at all. Both hold for every request, for
  every outcome, and for whole runs of requests by any number of users.
\<close>

subsection \<open>Access\<close>

lemma same_grants_save_book: "bk_guid b \<noteq> g \<Longrightarrow> same_grants g d (save_book b d)"
  by (simp add: same_grants_def save_book_def book_of_def find_save_row)

lemma same_grants_profile:
  "book_of d g = Some b \<Longrightarrow> bk_guid b' = g \<Longrightarrow> bk_owner b' = bk_owner b \<Longrightarrow> same_grants g d (save_book b' d)"
  by (simp add: same_grants_def save_book_def book_of_def find_save_row)

lemma same_grants_save_rule: "ru_book r \<noteq> g \<Longrightarrow> same_grants g d (save_rule r d)"
  by (auto simp: same_grants_def save_rule_def book_of_def rule_key_def intro!: filter_save_row)

lemma same_grants_drop_rules:
  "(\<And>r. ru_book r = g \<Longrightarrow> P r) \<Longrightarrow> same_grants g d (d\<lparr>ab_rules := filter P (ab_rules d)\<rparr>)"
  by (auto simp: same_grants_def book_of_def intro: filter_cong)

lemma find_filter: "(\<And>x. P x \<Longrightarrow> Q x) \<Longrightarrow> find P (filter Q xs) = find P xs"
  by (induction xs) auto

lemma same_grants_delete_books: "\<not> P g \<Longrightarrow> same_grants g d (delete_books P d)"
proof -
  assume "\<not> P g"
  then have "find (\<lambda>b. bk_guid b = g) (filter (\<lambda>b. \<not> P (bk_guid b)) (ab_books d)) =
      find (\<lambda>b. bk_guid b = g) (ab_books d)" by (intro find_filter) auto
  then show ?thesis using \<open>\<not> P g\<close>
    by (auto simp: same_grants_def delete_books_def book_of_def Let_def intro: filter_cong)
qed

lemma snd_effects [simp]: "snd (reading f d) = d" "snd (writing_db h d) = h d"
  by (simp_all add: reading_def writing_db_def)

text \<open>The rows that decide on access are left alone by everything that concerns devices and tags.\<close>

definition same_core :: "ab_db \<Rightarrow> ab_db \<Rightarrow> bool" where
  "same_core d d' \<longleftrightarrow> ab_books d' = ab_books d \<and> ab_rules d' = ab_rules d \<and> ab_users d' = ab_users d"

lemma same_core_preorder: "reflp same_core" "transp same_core"
  by (simp_all add: reflp_def transp_def same_core_def)

lemma same_core_grants: "same_core d d' \<Longrightarrow> same_grants g d d'"
  by (rule same_grants_cong) (simp_all add: same_core_def)

lemmas core_steps = abides_sbind [OF same_core_preorder(2)] abides_reading [OF same_core_preorder(1)]
  abides_writing abides_for_each [OF same_core_preorder]

lemma core_effects:
  "abides same_core (getOrCreateTag g name guid)"
  "abides same_core (findOrCreatePeer i guid)"
  "abides same_core (findOrCreatePeer_legacy i guid)"
  "abides same_core (delete_tags P)"
  by (auto simp: abides_def same_core_def getOrCreateTag_def findOrCreatePeer_def findOrCreatePeer_legacy_def
      add_tag_row_def delete_tags_def Let_def split: option.splits)

lemma core_writes:
  "same_core d (add_tag_row t d)" "same_core d (change_tag guid f d)" "same_core d (unlink_tags g names d)"
  "same_core d (add_link l d)" "same_core d (save_peer p d)" "same_core d (delete_links Q d)"
  "same_core d (delete_peers S d)" "same_core d (clear_links g d)" "same_core d (d\<lparr>ab_peers := ps\<rparr>)"
  "same_core d (d\<lparr>ab_devices := vs\<rparr>)" "same_core d d"
  by (simp_all add: same_core_def add_tag_row_def change_tag_def unlink_tags_def add_link_def save_peer_def
      delete_links_def delete_peers_def clear_links_def Let_def)

lemma core_tag_peers: "abides same_core (tag_peers g pg gs names)"
  unfolding tag_peers_def tag_peer_def case_prod_unfold
  by (intro core_steps core_effects core_writes)

lemma core_entries:
  "abides same_core (addTag gate g name color u guid)"
  "abides same_core (renameTag gate g old new u)"
  "abides same_core (updateTag gate g name c u)"
  "abides same_core (deleteTags gate g names u)"
  "abides same_core (addPeer gate g dto u gs)"
  unfolding addTag_def renameTag_def updateTag_def deleteTags_def addPeer_def
  by - (intro core_steps core_effects core_writes core_tag_peers)+

lemma core_deletePeers: "abides same_core (deletePeers gate g ids u)"
  unfolding deletePeers_def by (intro core_steps) (simp add: core_writes Let_def)

lemma core_updatePeer: "abides same_core (updatePeer gate g dto u gs)"
proof (cases "ud_tags dto")
  case None
  show ?thesis unfolding updatePeer_def None option.case by (intro core_steps core_effects core_writes)
next
  case (Some ts)
  show ?thesis
  proof (cases ts)
    case None
    show ?thesis unfolding updatePeer_def Some replace_tags_def None option.case
      by (intro core_steps core_effects core_writes)
  next
    case names: (Some ns)
    show ?thesis unfolding updatePeer_def Some replace_tags_def names option.case
      by (intro core_steps core_effects core_writes core_tag_peers)
  qed
qed

lemma core_add_legacy_peer: "abides same_core (add_legacy_peer g m x)"
proof (cases x)
  case (fields guid devGuid lp)
  have "abides same_core (case found of None \<Rightarrow> reading (\<lambda>_. Inr ())
      | Some dev \<Rightarrow> sbind (writing_db (save_peer (legacy_entry guid g dev lp)))
         (\<lambda>_. for_each (\<lambda>l. writing_db (add_link l)) (legacy_links m guid lp)))" for found
    by (cases found) (simp_all, (intro core_steps core_writes)+)
  then show ?thesis unfolding add_legacy_peer_def fields prod.case by (intro core_steps core_effects)
qed

lemma core_replace_book: "abides same_core (replace_book g gs b)"
  unfolding replace_book_def by (intro core_steps core_effects core_writes core_add_legacy_peer)

lemma core_unchanged: "abides same_core m \<Longrightarrow> same_grants g d (snd (m d))"
  by (simp add: abides_def same_core_grants)

subsection \<open>One request\<close>

text \<open>Identifiers drawn for new rows are not that of the book.\<close>

lemma personal_grants: "guid \<noteq> g \<Longrightarrow> abides (same_grants g) (personal_or_new u guid)"
  unfolding abides_def personal_or_new_def
  using same_grants_save_book [of _ g] by (auto simp: save_book_def split: option.splits)

lemma createProfile_grants: "guid \<noteq> g \<Longrightarrow> same_grants g d (snd (createAddressBookProfile name u sh note pw guid d))"
  by (auto simp: createAddressBookProfile_def same_grants_save_book split: sum.splits)

lemma forget_snd [simp]: "snd (forget m d) = snd (m d)"
  by (simp add: forget_def sbind_def split: prod.splits sum.splits)

lemma full_control: "checkAddressBookAccess d g u FULL_CONTROL = Inr b \<Longrightarrow> reaches d u g 3"
  by (drule access_InrD) simp

lemma createRule_grants: "same_grants g d (snd (createRule isUUID dto u guid d)) \<or> reaches d u g 3"
proof (cases "createRule_reads isUUID dto u d")
  case (Inl e)
  then show ?thesis by (simp add: createRule_def)
next
  case (Inr t)
  then have "reaches d u (cu_book dto) 3"
    by (auto simp: createRule_reads_def result_simps dest: full_control)
  then show ?thesis using Inr
    by (cases "cu_book dto = g") (auto simp: createRule_def same_grants_save_rule split: prod.splits)
qed

lemma updateRule_grants: "same_grants g d (snd (updateRule guid lvl u d)) \<or> reaches d u g 3"
proof (cases "updateRule_reads guid u d")
  case (Inl e)
  then show ?thesis by (simp add: updateRule_def)
next
  case (Inr r)
  then have "reaches d u (ru_book r) 3"
    by (auto simp: updateRule_reads_def result_simps split: option.splits dest: full_control)
  then show ?thesis using Inr
    by (cases "ru_book r = g") (auto simp: updateRule_def same_grants_save_rule)
qed

lemma delete_rule_grants: "ru_book r \<noteq> g \<Longrightarrow> abides (same_grants g) (delete_rule r)"
  by (auto simp: abides_def delete_rule_def rule_key_def intro!: same_grants_drop_rules)

lemma deleteRules_tx_grants: "same_grants g d (snd (deleteRules_tx guids u d)) \<or> reaches d u g 3"
proof (cases "deleteRules_reads guids d")
  case (Inl e)
  then show ?thesis by (simp add: deleteRules_tx_def)
next
  case rules: (Inr rules)
  let ?checks = "each (\<lambda>r. rbind (checkAddressBookAccess d (ru_book r) u FULL_CONTROL) (\<lambda>_. Inr ())) rules"
  show ?thesis
  proof (cases ?checks)
    case (Inl e)
    then show ?thesis using rules by (simp add: deleteRules_tx_def)
  next
    case (Inr x)
    then have all: "reaches d u (ru_book r) 3" if "r \<in> set rules" for r
      using that full_control by (fastforce simp: result_simps)
    show ?thesis
    proof (cases "\<exists>r \<in> set rules. ru_book r = g")
      case True
      then show ?thesis using all by blast
    next
      case False
      have "abides (same_grants g) (for_each delete_rule rules)"
        by (rule abides_for_each [OF same_grants_preorder], rule delete_rule_grants) (use False in blast)
      then show ?thesis using rules Inr by (simp add: deleteRules_tx_def abides_def)
    qed
  qed
qed

lemma transaction_grants:
  "same_grants g d (snd (m d)) \<or> A \<Longrightarrow> same_grants g d (snd (in_transaction m d)) \<or> A"
  by (auto simp: in_transaction_def split: prod.splits sum.splits)

lemma deleteRules_grants: "same_grants g d (snd (deleteRules isUUID guids u d)) \<or> reaches d u g 3"
proof -
  have "same_grants g d (snd (in_transaction (deleteRules_tx guids u) d)) \<or> reaches d u g 3"
    by (rule transaction_grants [OF deleteRules_tx_grants])
  then show ?thesis by (auto simp: deleteRules_def split: sum.splits)
qed

lemma updateCustom_grants:
  assumes "ab_schema d"
  shows "same_grants g d (snd (updateCustomAddressBook g' u name note d))"
proof -
  have "same_grants g d (save_book b' d)"
    if "findPrivateCustomAddressBook d g' u = Some b" and b': "bk_guid b' = bk_guid b" "bk_owner b' = bk_owner b" for b b'
  proof -
    have b: "b \<in> set (ab_books d)" using that(1) by (auto simp: findPrivateCustomAddressBook_def dest: find_SomeD)
    then have "book_of d (bk_guid b) = Some b" using assms by (simp add: book_of_iff)
    then show ?thesis
      using b' by (cases "bk_guid b = g") (auto intro: same_grants_profile same_grants_save_book)
  qed
  then show ?thesis
    by (auto simp: updateCustomAddressBook_def result_simps split: sum.splits option.splits)
qed

lemma deleteCustom_grants:
  assumes "ab_schema d" and "book_of d g \<noteq> None"
  shows "same_grants g d (snd (deleteCustomAddressBooks guids u d)) \<or> reaches d u g 3"
proof (cases "g \<in> set guids \<and> \<not> reaches d u g 3")
  case False
  then show ?thesis
    by (auto simp: deleteCustomAddressBooks_def same_grants_delete_books split: sum.splits)
next
  case True
  let ?found = "filter (\<lambda>b. bk_guid b \<in> set (js_unique guids) \<and> private_custom d u b) (ab_books d)"
  have dist: "distinct (map bk_guid ?found)"
    using assms(1) by (simp add: ab_schema_def distinct_map_filter)
  have "g \<notin> bk_guid ` set ?found"
  proof
    assume "g \<in> bk_guid ` set ?found"
    then obtain b where "b \<in> set (ab_books d)" "bk_guid b = g" "private_custom d u b" by auto
    then show False using True assms(1) by (auto simp: private_custom_def book_of_iff intro: reaches_owner)
  qed
  moreover have "bk_guid ` set ?found \<subseteq> set guids" by auto
  ultimately have "bk_guid ` set ?found \<subset> set guids" using True by blast
  then have "card (bk_guid ` set ?found) < card (set guids)" by (rule psubset_card_mono [OF finite_set])
  then have "length ?found < length (js_unique guids)"
    using distinct_card [OF dist] by (simp add: length_js_unique)
  then show ?thesis by (simp add: deleteCustomAddressBooks_def Let_def ensure_def)
qed

lemma deletable_owned:
  "deletable_shared d u guids = Inr bs \<Longrightarrow> b \<in> set bs \<Longrightarrow> bk_owner b = u \<and> b \<in> set (ab_books d)"
  unfolding deletable_shared_def
  by (induction guids arbitrary: bs)
    (auto simp: result_simps split: option.splits if_splits dest: findShared_Some)

lemma deleteShared_grants:
  assumes "ab_schema d"
  shows "same_grants g d (snd (deleteSharedAddressBooks guids u d)) \<or> reaches d u g 3"
proof (cases "deletable_shared d u (js_unique guids)")
  case (Inl e)
  then show ?thesis by (simp add: deleteSharedAddressBooks_def)
next
  case (Inr bs)
  show ?thesis
  proof (cases "g \<in> bk_guid ` set bs")
    case True
    then obtain b where b: "b \<in> set bs" "bk_guid b = g" by auto
    then have "bk_owner b = u" "book_of d g = Some b"
      using deletable_owned [OF Inr b(1)] assms by (simp_all add: book_of_iff)
    then show ?thesis by (blast intro: reaches_owner)
  next
    case False
    then show ?thesis using Inr
      by (simp add: deleteSharedAddressBooks_def same_grants_delete_books)
  qed
qed

lemma share_grants: "same_grants g d (snd (shareAddressBook g' t r u guid d)) \<or> reaches d u g 3"
proof (cases "checkAddressBookAccess d g' u FULL_CONTROL")
  case (Inl e)
  then show ?thesis by (simp add: shareAddressBook_def)
next
  case (Inr b)
  then have f: "reaches d u g' 3" by (rule full_control)
  have "ru_book x = g'" if "direct_rule d g' t = Some x" for x
    using direct_rule_Some [OF that] by (simp add: targets_of_def)
  then show ?thesis using Inr f
    by (cases "g' = g") (auto simp: shareAddressBook_def intro!: same_grants_save_rule split: option.splits)
qed

lemma unshare_grants: "same_grants g d (snd (unshareAddressBook g' t u d)) \<or> reaches d u g 3"
proof (cases "checkAddressBookAccess d g' u FULL_CONTROL")
  case (Inl e)
  then show ?thesis by (simp add: unshareAddressBook_def)
next
  case (Inr b)
  then have "reaches d u g' 3" by (rule full_control)
  then show ?thesis using Inr
    by (cases "g' = g") (auto simp: unshareAddressBook_def targets_of_def intro!: same_grants_drop_rules)
qed

lemma updateShared_grants:
  assumes "ab_schema d" and "u \<noteq> []"
  shows "same_grants g d (snd (updateSharedAddressBook g' c (Some u) guid d)) \<or> reaches d u g 3"
proof (cases "updateShared_reads g' c (Some u) d")
  case (Inl e)
  then show ?thesis by (simp add: updateSharedAddressBook_def)
next
  case (Inr b)
  have found: "findSharedAddressBook d g' = Some b"
    and chk: "\<exists>x. checkAddressBookAccess d g' u (if changing_owner c b then FULL_CONTROL else READ_WRITE) = Inr x"
    using Inr assms(2) by (auto simp: updateShared_reads_def result_simps nonempty_def split: option.splits)
  have b: "b \<in> set (ab_books d)" "bk_guid b = g'" using findShared_Some [OF found] by simp_all
  let ?d1 = "grant_new_owner g' c b guid d"
  have np: "bk_guid (new_profile c b n) = g'" for n using b by (simp add: new_profile_def)
  show ?thesis
  proof (cases "g' = g \<and> changing_owner c b")
    case True
    then show ?thesis using chk full_control by auto
  next
    case False
    have g1: "same_grants g d ?d1"
      using False by (auto simp: grant_new_owner_def intro!: same_grants_save_rule)
    have "same_grants g ?d1 (save_book (new_profile c b n) ?d1)" for n
    proof (cases "g' = g")
      case True
      then have ow: "bk_owner (new_profile c b n) = bk_owner b"
        using False by (auto simp: new_profile_def changing_owner_def split: option.splits)
      have "?d1 = d" using True False by (simp add: grant_new_owner_def)
      moreover have "book_of d g = Some b" using b True assms(1) by (simp add: book_of_iff)
      ultimately show ?thesis using np True ow by (metis same_grants_profile)
    next
      case False
      then show ?thesis using np by (simp add: same_grants_save_book)
    qed
    then have "same_grants g d (save_book (new_profile c b n) ?d1)" for n
      using g1 same_grants_trans by (blast dest: transpD)
    then show ?thesis using Inr g1
      by (auto simp: updateSharedAddressBook_def split: sum.splits)
  qed
qed

lemma legacy_grants:
  assumes "guid \<noteq> g" shows "abides (same_grants g) (updateLegacyAddressBook u body guid gs)"
proof (cases body)
  case (Parsed b)
  have "abides (same_grants g) (replace_book h gs b)" for h
    using core_replace_book [of h gs b] by (simp add: abides_def same_core_grants)
  then show ?thesis unfolding updateLegacyAddressBook_def Parsed legacy_body.case
    by (intro abides_sbind [OF same_grants_trans] abides_transaction [OF same_grants_refl] personal_grants [OF assms])
qed (simp_all add: updateLegacyAddressBook_def abides_reading [OF same_grants_refl])

lemma request_grants:
  assumes "ab_ok d" "fresh_ids gs d" "u \<noteq> []" "book_of d g \<noteq> None"
  shows "same_grants g d (snd (serve_ab isUUID u req gs d)) \<or> reaches d u g 3"
proof -
  have sc: "ab_schema d" using assms(1) by (simp add: ab_ok_def)
  have "g \<in> used_ids d" using assms(4) by (auto simp: book_of_None used_ids_def)
  then have "g \<notin> range gs" using assms(2) by (auto simp: fresh_ids_def)
  then have new: "gs i \<noteq> g" for i by auto
  show ?thesis
  proof (cases req)
    case OpenPersonal
    then show ?thesis using personal_grants [OF new] by (simp add: getPersonalAddressBook_def abides_def)
  next
    case ReadLegacy
    have "abides (same_grants g) (getLegacyAddressBook u (gs 0))"
      unfolding getLegacyAddressBook_def
      by (intro abides_sbind [OF same_grants_trans] personal_grants [OF new] abides_reading [OF same_grants_refl])
    then show ?thesis using ReadLegacy by (simp add: abides_def)
  next
    case (ReplaceLegacy b)
    then show ?thesis using legacy_grants [OF new] by (simp add: abides_def)
  qed (simp_all add: addCustomAddressBook_def addSharedAddressBook_def createProfile_grants new
      updateCustom_grants sc deleteCustom_grants assms(3,4) updateShared_grants deleteShared_grants
      core_unchanged core_entries core_deletePeers core_updatePeer createRule_grants updateRule_grants deleteRules_grants
      share_grants unshare_grants)
qed

subsection \<open>Runs of requests\<close>

type_synonym ab_call = "string \<times> ab_request \<times> (nat \<Rightarrow> string)"

fun serve_all :: "(string \<Rightarrow> bool) \<Rightarrow> ab_call list \<Rightarrow> ab_db \<Rightarrow> ab_db" where
  "serve_all isUUID [] d = d"
| "serve_all isUUID ((u, req, gs) # rs) d = serve_all isUUID rs (snd (serve_ab isUUID u req gs d))"

text \<open>Every request is valid, comes from a named user and draws fresh identifiers.\<close>

fun proper_run :: "(string \<Rightarrow> bool) \<Rightarrow> ab_call list \<Rightarrow> ab_db \<Rightarrow> bool" where
  "proper_run isUUID [] d = True"
| "proper_run isUUID ((u, req, gs) # rs) d \<longleftrightarrow>
     u \<noteq> [] \<and> valid_ab_request req \<and> fresh_ids gs d \<and> proper_run isUUID rs (snd (serve_ab isUUID u req gs d))"

definition callers :: "ab_call list \<Rightarrow> string set" where
  "callers rs = fst ` set rs"

lemma run_grants:
  assumes "ab_ok d" "proper_run isUUID rs d" "book_of d g \<noteq> None" "\<forall>u \<in> callers rs. \<not> reaches d u g 3"
  shows "same_grants g d (serve_all isUUID rs d)"
  using assms
proof (induction rs arbitrary: d)
  case Nil
  then show ?case by simp
next
  case (Cons c rs)
  obtain u req gs where c: "c = (u, req, gs)" by (cases c)
  let ?d = "snd (serve_ab isUUID u req gs d)"
  have p: "u \<noteq> []" "valid_ab_request req" "fresh_ids gs d" "proper_run isUUID rs ?d" using Cons.prems(2) c by simp_all
  have no: "\<not> reaches d v g 3" if "v = u \<or> v \<in> callers rs" for v
    using that Cons.prems(4) c by (auto simp: callers_def)
  have sg: "same_grants g d ?d"
    using request_grants [OF Cons.prems(1) p(3) p(1) Cons.prems(3), of isUUID req] no by blast
  have ok: "ab_ok ?d" by (rule valid_ok [OF serve_valid [OF p(2)]]) (use Cons.prems(1) p(3) in simp)
  have ex: "book_of ?d g \<noteq> None" using sg Cons.prems(3) by (auto simp: same_grants_def)
  have no': "\<forall>v \<in> callers rs. \<not> reaches ?d v g 3" using no by (simp add: same_grants_reaches [OF sg])
  have "same_grants g ?d (serve_all isUUID rs ?d)" by (rule Cons.IH [OF ok p(4) ex no'])
  then show ?case using sg same_grants_trans unfolding c by (simp, blast dest: transpD)
qed

definition admits :: "ab_db \<Rightarrow> string \<Rightarrow> string \<Rightarrow> ShareRule \<Rightarrow> bool" where
  "admits d g u r \<longleftrightarrow> \<not> isl (checkAddressBookAccess d g u r)"

lemma admits_iff: "admits d g u r \<longleftrightarrow> reaches d u g (level r)"
  using access_Inr_iff [of d g u r] unfolding admits_def
  by (cases "checkAddressBookAccess d g u r") (auto simp: reaches_def)

text \<open>C32. Nobody gives away access they do not hold: however many requests users without full control
  over an address book make, together and in any order, failed ones included, at the end the check
  admits every user to that book at exactly the levels it did at the start.\<close>

theorem access_needs_full_control:
  assumes "ab_ok d" and "proper_run isUUID rs d" and "book_of d g \<noteq> None"
    and "\<forall>u \<in> callers rs. \<not> admits d g u FULL_CONTROL"
  shows "admits (serve_all isUUID rs d) g v r \<longleftrightarrow> admits d g v r"
proof -
  have "\<forall>u \<in> callers rs. \<not> reaches d u g 3" using assms(4) by (simp add: admits_iff)
  from run_grants [OF assms(1-3) this] show ?thesis by (simp add: admits_iff same_grants_reaches)
qed

end
