(* ===== verification/Address_Book_Contents.thy ===== *)
theory Address_Book_Contents
  imports Address_Book_Safety
begin

text \<open>
  The contents of an address book: its profile, tags, devices and the links between them. A
  request changes them only for a user who may write to the book.
\<close>

subsection \<open>Equal contents\<close>

definition peer_ids :: "string \<Rightarrow> ab_db \<Rightarrow> string set" where
  "peer_ids g d = pr_guid ` {p \<in> set (ab_peers d). pr_book p = g}"

definition tag_ids :: "string \<Rightarrow> ab_db \<Rightarrow> string set" where
  "tag_ids g d = tg_guid ` {t \<in> set (ab_tags d). tg_book t = g}"

lemma in_ids:
  "t \<in> set (ab_tags d) \<Longrightarrow> tg_book t = g \<Longrightarrow> tg_guid t \<in> tag_ids g d"
  "p \<in> set (ab_peers d) \<Longrightarrow> pr_book p = g \<Longrightarrow> pr_guid p \<in> peer_ids g d"
  by (simp_all add: tag_ids_def peer_ids_def)

definition same_contents :: "string \<Rightarrow> ab_db \<Rightarrow> ab_db \<Rightarrow> bool" where
  "same_contents g d d' \<longleftrightarrow> book_of d' g = book_of d g \<and>
     filter (\<lambda>t. tg_book t = g) (ab_tags d') = filter (\<lambda>t. tg_book t = g) (ab_tags d) \<and>
     filter (\<lambda>p. pr_book p = g) (ab_peers d') = filter (\<lambda>p. pr_book p = g) (ab_peers d) \<and>
     filter (\<lambda>l. ln_peer l \<in> peer_ids g d) (ab_links d') = filter (\<lambda>l. ln_peer l \<in> peer_ids g d) (ab_links d)"

lemma same_contents_ids:
  assumes "same_contents g d d'" shows "peer_ids g d' = peer_ids g d" "tag_ids g d' = tag_ids g d"
proof -
  have "{p \<in> set (ab_peers d'). pr_book p = g} = {p \<in> set (ab_peers d). pr_book p = g}"
    "{t \<in> set (ab_tags d'). tg_book t = g} = {t \<in> set (ab_tags d). tg_book t = g}"
    using assms unfolding same_contents_def set_filter [symmetric] by simp_all
  then show "peer_ids g d' = peer_ids g d" "tag_ids g d' = tag_ids g d"
    by (simp_all add: peer_ids_def tag_ids_def)
qed

lemma same_contents_refl [simp]: "same_contents g d d"
  by (simp add: same_contents_def)

lemma same_contents_trans: "same_contents g d d' \<Longrightarrow> same_contents g d' d'' \<Longrightarrow> same_contents g d d''"
  using same_contents_ids [of g d d'] by (simp add: same_contents_def)

lemma contents_cong:
  "ab_books d' = ab_books d \<Longrightarrow> ab_tags d' = ab_tags d \<Longrightarrow> ab_peers d' = ab_peers d \<Longrightarrow>
     ab_links d' = ab_links d \<Longrightarrow> same_contents g d d'"
  by (simp add: same_contents_def book_of_def)

text \<open>
  The steps of a longer operation on another book leave the contents alone as long as the rows they
  touch are known not to be of this one: tags with identifiers in \<open>T\<close>, devices with identifiers in
  \<open>P\<close>.
\<close>

definition apart :: "string \<Rightarrow> string set \<Rightarrow> string set \<Rightarrow> ab_db \<Rightarrow> ab_db \<Rightarrow> bool" where
  "apart g T P d d' \<longleftrightarrow> (T \<inter> tag_ids g d = {} \<and> P \<inter> peer_ids g d = {} \<longrightarrow> same_contents g d d')"

lemma apart_refl: "reflp (apart g T P)"
  by (simp add: reflp_def apart_def)

lemma apart_trans: "transp (apart g T P)"
proof (rule transpI)
  fix d d' d'' assume a: "apart g T P d d'" "apart g T P d' d''"
  show "apart g T P d d''"
    unfolding apart_def
  proof
    assume x: "T \<inter> tag_ids g d = {} \<and> P \<inter> peer_ids g d = {}"
    have s: "same_contents g d d'" using a(1) x by (simp add: apart_def)
    then have "T \<inter> tag_ids g d' = {} \<and> P \<inter> peer_ids g d' = {}" using x by (simp add: same_contents_ids)
    then have "same_contents g d' d''" using a(2) by (simp add: apart_def)
    then show "same_contents g d d''" by (rule same_contents_trans [OF s])
  qed
qed

lemma apartD: "abides (apart g T P) m \<Longrightarrow> T \<inter> tag_ids g d = {} \<and> P \<inter> peer_ids g d = {} \<Longrightarrow> same_contents g d (snd (m d))"
  by (simp add: abides_def apart_def)

lemmas apart_steps = abides_sbind [OF apart_trans] abides_reading [OF apart_refl]
  abides_writing abides_for_each [OF apart_refl apart_trans] abides_transaction [OF apart_refl]

lemma filter_map_other:
  "(\<And>x. x \<in> set xs \<Longrightarrow> c x \<Longrightarrow> \<not> P x \<and> \<not> P (f x)) \<Longrightarrow>
     filter P (map (\<lambda>x. if c x then f x else x) xs) = filter P xs"
  by (induction xs) auto

lemma apart_add_tag:
  assumes "tg_guid t \<in> T" "tg_book t \<noteq> g" shows "apart g T P d (add_tag_row t d)"
  unfolding apart_def
proof
  assume "T \<inter> tag_ids g d = {} \<and> P \<inter> peer_ids g d = {}"
  then have "tg_book x \<noteq> g" if "x \<in> set (ab_tags d)" "tg_guid x = tg_guid t" for x
    using that assms(1) in_ids(1) by (metis IntI empty_iff)
  then have "filter (\<lambda>t. tg_book t = g) (save_row tg_guid t (ab_tags d)) = filter (\<lambda>t. tg_book t = g) (ab_tags d)"
    using assms(2) by (intro filter_save_row) auto
  then show "same_contents g d (add_tag_row t d)" by (simp add: same_contents_def add_tag_row_def book_of_def)
qed

lemma apart_save_peer:
  assumes "pr_guid p \<in> P" "pr_book p \<noteq> g" shows "apart g T P d (save_peer p d)"
  unfolding apart_def
proof
  assume "T \<inter> tag_ids g d = {} \<and> P \<inter> peer_ids g d = {}"
  then have "pr_book x \<noteq> g" if "x \<in> set (ab_peers d)" "pr_guid x = pr_guid p" for x
    using that assms(1) in_ids(2) by (metis IntI empty_iff)
  then have "filter (\<lambda>p. pr_book p = g) (save_row pr_guid p (ab_peers d)) = filter (\<lambda>p. pr_book p = g) (ab_peers d)"
    using assms(2) by (intro filter_save_row) auto
  then show "same_contents g d (save_peer p d)" by (simp add: same_contents_def save_peer_def book_of_def)
qed

lemma apart_add_link:
  assumes "ln_peer l \<in> P" shows "apart g T P d (add_link l d)"
  unfolding apart_def
proof
  assume "T \<inter> tag_ids g d = {} \<and> P \<inter> peer_ids g d = {}"
  then have "ln_peer l \<notin> peer_ids g d" using assms by auto
  then have "filter (\<lambda>l. ln_peer l \<in> peer_ids g d) (save_row id l (ab_links d)) =
      filter (\<lambda>l. ln_peer l \<in> peer_ids g d) (ab_links d)" by (intro filter_save_row) auto
  then show "same_contents g d (add_link l d)" by (simp add: same_contents_def add_link_def book_of_def)
qed

lemma apart_map_peers:
  assumes "guid \<in> P" "\<And>p. pr_book (f p) = pr_book p"
  shows "apart g T P d (d\<lparr>ab_peers := map (\<lambda>x. if pr_guid x = guid then f x else x) (ab_peers d)\<rparr>)"
  unfolding apart_def
proof
  assume x: "T \<inter> tag_ids g d = {} \<and> P \<inter> peer_ids g d = {}"
  have "filter (\<lambda>p. pr_book p = g) (map (\<lambda>x. if pr_guid x = guid then f x else x) (ab_peers d)) =
      filter (\<lambda>p. pr_book p = g) (ab_peers d)"
    by (rule filter_map_other) (use x assms in \<open>auto simp: peer_ids_def\<close>)
  then show "same_contents g d (d\<lparr>ab_peers := map (\<lambda>x. if pr_guid x = guid then f x else x) (ab_peers d)\<rparr>)"
    by (simp add: same_contents_def book_of_def)
qed

lemma contents_delete_links:
  "(\<And>l. l \<in> set (ab_links d) \<Longrightarrow> P l \<Longrightarrow> ln_peer l \<notin> peer_ids g d) \<Longrightarrow> same_contents g d (delete_links P d)"
  by (auto simp: same_contents_def delete_links_def book_of_def intro!: filter_cong)

lemma apart_delete_links: "guid \<in> P \<Longrightarrow> apart g T P d (delete_links (\<lambda>l. ln_peer l = guid) d)"
  unfolding apart_def by (auto intro!: contents_delete_links)

lemma apart_getOrCreateTag: "h \<noteq> g \<Longrightarrow> guid \<in> T \<Longrightarrow> abides (apart g T P) (getOrCreateTag h name guid)"
  using apart_add_tag [of "\<lparr>tg_guid = guid, tg_book = h, tg_name = name, tg_color = 0\<rparr>" T g]
  by (auto simp: abides_def getOrCreateTag_def reflpD [OF apart_refl] split: option.splits)

lemma apart_devices: "apart g T P d (d\<lparr>ab_devices := vs\<rparr>)"
  by (simp add: apart_def contents_cong)

lemma apart_findOrCreatePeer:
  "abides (apart g T P) (findOrCreatePeer i guid)" "abides (apart g T P) (findOrCreatePeer_legacy i guid)"
  by (auto simp: abides_def findOrCreatePeer_def findOrCreatePeer_legacy_def reflpD [OF apart_refl] apart_devices
      split: option.splits)

lemma apart_tag_peers: "h \<noteq> g \<Longrightarrow> range gs \<subseteq> T \<Longrightarrow> pg \<in> P \<Longrightarrow> abides (apart g T P) (tag_peers h pg gs names)"
  unfolding tag_peers_def tag_peer_def case_prod_unfold
  by (intro apart_steps apart_getOrCreateTag apart_add_link) (auto dest!: set_zip_leftD simp: image_subset_iff subset_iff)

lemma fresh_apart: "fresh_ids gs d \<Longrightarrow> range gs \<inter> tag_ids g d = {} \<and> range gs \<inter> peer_ids g d = {}"
  by (fastforce simp: fresh_ids_def used_ids_def tag_ids_def peer_ids_def)

subsection \<open>Requests on devices and tags\<close>

lemma distinct_rows:
  assumes "ab_schema d"
  shows "p \<in> set (ab_peers d) \<Longrightarrow> p' \<in> set (ab_peers d) \<Longrightarrow> pr_guid p = pr_guid p' \<Longrightarrow> p = p'"
    and "t \<in> set (ab_tags d) \<Longrightarrow> t' \<in> set (ab_tags d) \<Longrightarrow> tg_guid t = tg_guid t' \<Longrightarrow> t = t'"
  using assms by (auto simp: ab_schema_def distinct_map inj_on_def)

lemma addTag_contents:
  "h \<noteq> g \<Longrightarrow> fresh_ids gs d \<Longrightarrow> same_contents g d (snd (addTag gate h name color u (gs i) d))"
  by (rule apartD [OF _ fresh_apart], unfold addTag_def, intro apart_steps apart_add_tag) auto

lemma change_tag_contents:
  assumes "ab_schema d" "t \<in> set (ab_tags d)" "tg_book t \<noteq> g" "\<And>x. tg_book (f x) = tg_book x"
  shows "same_contents g d (change_tag (tg_guid t) f d)"
proof -
  have "filter (\<lambda>t. tg_book t = g) (map (\<lambda>x. if tg_guid x = tg_guid t then f x else x) (ab_tags d)) =
      filter (\<lambda>t. tg_book t = g) (ab_tags d)"
    by (rule filter_map_other) (use assms distinct_rows(2) [OF assms(1)] in \<open>metis\<close>)
  then show ?thesis by (simp add: same_contents_def change_tag_def book_of_def)
qed

lemma renameTag_contents:
  "ab_schema d \<Longrightarrow> h \<noteq> g \<Longrightarrow> same_contents g d (snd (renameTag gate h old new u d))"
  by (auto simp: renameTag_def found_tag_def result_simps dest: tag_named_Some
      intro!: change_tag_contents split: sum.splits option.splits)

lemma updateTag_contents:
  "ab_schema d \<Longrightarrow> h \<noteq> g \<Longrightarrow> same_contents g d (snd (updateTag gate h name c u d))"
  by (auto simp: updateTag_def found_tag_def result_simps dest: tag_named_Some
      intro!: change_tag_contents split: sum.splits option.splits)

lemma link_book:
  assumes "ab_ok d" "l \<in> set (ab_links d)" "t \<in> set (ab_tags d)" "ln_tag l = tg_guid t" "tg_book t \<noteq> g"
  shows "ln_peer l \<notin> peer_ids g d"
proof
  assume "ln_peer l \<in> peer_ids g d"
  then obtain q where q: "q \<in> set (ab_peers d)" "pr_book q = g" "pr_guid q = ln_peer l" by (auto simp: peer_ids_def)
  obtain p t' where p: "p \<in> set (ab_peers d)" "t' \<in> set (ab_tags d)" "pr_guid p = ln_peer l" "tg_guid t' = ln_tag l"
    "pr_book p = tg_book t'" using ab_okE(2) [OF assms(1)] assms(2) by (auto simp: links_local_def)
  have "p = q" "t' = t" using distinct_rows [OF ab_okE(1) [OF assms(1)]] p q assms(3,4) by metis+
  then show False using p q assms(5) by simp
qed

lemma unlink_tags_contents:
  assumes "ab_ok d" "h \<noteq> g" shows "same_contents g d (unlink_tags h names d)"
  using assms unfolding unlink_tags_def Let_def
  by (auto intro!: contents_delete_links dest: link_book)

lemma delete_tags_contents:
  "(\<And>t. P t \<Longrightarrow> tg_book t \<noteq> g) \<Longrightarrow> same_contents g d (snd (delete_tags P d))"
  by (auto simp: same_contents_def delete_tags_def Let_def book_of_def intro!: filter_cong)

lemma deleteTags_contents:
  assumes "ab_ok d" "h \<noteq> g" shows "same_contents g d (snd (deleteTags gate h names u d))"
proof -
  have "same_contents g d (snd (delete_tags (\<lambda>t. tg_name t \<in> set names \<and> tg_book t = h) (unlink_tags h names d)))"
    by (rule same_contents_trans [OF unlink_tags_contents [OF assms] delete_tags_contents]) (use assms(2) in auto)
  then show ?thesis by (auto simp: deleteTags_def split: sum.splits)
qed

lemma addPeer_contents:
  "h \<noteq> g \<Longrightarrow> fresh_ids gs d \<Longrightarrow> same_contents g d (snd (addPeer gate h dto u gs d))"
  by (rule apartD [OF _ fresh_apart], unfold addPeer_def,
      intro apart_steps apart_findOrCreatePeer apart_save_peer apart_tag_peers) (auto simp: new_peer_def)

lemma updatePeer_contents:
  assumes "ab_ok d" "h \<noteq> g" "fresh_ids gs d" shows "same_contents g d (snd (updatePeer gate h dto u gs d))"
proof -
  let ?rest = "\<lambda>p. sbind (writing_db (\<lambda>d. d\<lparr>ab_peers :=
         map (\<lambda>x. if pr_guid x = pr_guid p then changed_peer dto x else x) (ab_peers d)\<rparr>))
     (\<lambda>_. case ud_tags dto of None \<Rightarrow> reading (\<lambda>_. Inr ()) | Some ts \<Rightarrow> replace_tags h (pr_guid p) gs ts)"
  have rest: "abides (apart g (range gs) (insert (pr_guid p) (range gs))) (?rest p)" for p
    by (cases "ud_tags dto"; cases "the (ud_tags dto)")
      (simp_all add: replace_tags_def, (intro apart_steps apart_map_peers apart_delete_links apart_tag_peers,
        auto simp: changed_peer_def assms(2))+)
  have found: "same_contents g d1 (snd (?rest p d1))"
    if d1: "ab_peers d1 = ab_peers d" "ab_tags d1 = ab_tags d" and p: "peer_on d1 h dev = Some p" for d1 p dev
  proof (rule apartD [OF rest])
    have "pr_guid p \<notin> peer_ids g d"
      using peer_on_Some [OF p] distinct_rows(1) [OF ab_okE(1) [OF assms(1)], of p] assms(2) d1
      by (auto simp: peer_ids_def)
    then show "range gs \<inter> tag_ids g d1 = {} \<and> insert (pr_guid p) (range gs) \<inter> peer_ids g d1 = {}"
      using fresh_apart [OF assms(3), of g] d1 by (simp add: tag_ids_def peer_ids_def)
  qed
  obtain r d1 where fd: "findOrCreatePeer (ud_id dto) (gs 1) d = (r, d1)" by fastforce
  then have d1: "ab_peers d1 = ab_peers d" "ab_tags d1 = ab_tags d" "same_contents g d d1"
    by (auto simp: findOrCreatePeer_def contents_cong split: option.splits if_splits)
  have "same_contents g d (snd (?rest p d1))" if "peer_on d1 h dev = Some p" for p dev
    by (rule same_contents_trans [OF d1(3) found [OF d1(1,2) that]])
  then show ?thesis using d1(3) unfolding updatePeer_def
    by (auto simp: sbind_def [of "findOrCreatePeer _ _"] fd [unfolded One_nat_def] simp del: sbind_simps(2) split: sum.splits option.splits)
qed

lemma delete_peers_contents:
  assumes "ab_schema d" "\<And>p. P p \<Longrightarrow> pr_book p \<noteq> g"
  shows "same_contents g d (delete_peers P d)"
proof -
  have "filter (\<lambda>p. pr_book p = g) (filter (\<lambda>p. \<not> P p) (ab_peers d)) = filter (\<lambda>p. pr_book p = g) (ab_peers d)"
    using assms(2) by (auto intro: filter_cong)
  moreover have "ln_peer l \<notin> pr_guid ` {p \<in> set (ab_peers d). P p}" if l: "ln_peer l \<in> peer_ids g d" for l
  proof
    assume "ln_peer l \<in> pr_guid ` {p \<in> set (ab_peers d). P p}"
    then obtain p q where "p \<in> set (ab_peers d)" "P p" "pr_guid p = ln_peer l"
      "q \<in> set (ab_peers d)" "pr_book q = g" "pr_guid q = ln_peer l" using l by (auto simp: peer_ids_def)
    then show False using distinct_rows(1) [OF assms(1), of p q] assms(2) by simp
  qed
  then have "filter (\<lambda>l. ln_peer l \<in> peer_ids g d) (filter (\<lambda>l. ln_peer l \<notin> pr_guid ` {p \<in> set (ab_peers d). P p}) (ab_links d))
      = filter (\<lambda>l. ln_peer l \<in> peer_ids g d) (ab_links d)" by (auto intro: filter_cong)
  ultimately show ?thesis by (simp add: same_contents_def delete_peers_def Let_def book_of_def)
qed

lemma deletePeers_contents:
  assumes "ab_schema d" "h \<noteq> g" shows "same_contents g d (snd (deletePeers gate h ids u d))"
proof -
  have "same_contents g d (delete_peers (\<lambda>p. pr_device p \<in> D \<and> pr_book p = h) d)" for D
    by (rule delete_peers_contents [OF assms(1)]) (use assms(2) in simp)
  then show ?thesis by (auto simp: deletePeers_def Let_def split: sum.splits)
qed

subsection \<open>Replacing another book\<close>

lemma legacy_tag_ids: "t \<in> set (legacy_tags h gs b) \<Longrightarrow> tg_guid t \<in> range gs \<and> tg_book t = h"
  by (auto simp: legacy_tags_def Let_def dest!: set_zip_leftD)

lemma numbered_peer_ids: "x \<in> set (numbered_peers gs b) \<Longrightarrow> fst x \<in> range gs"
  by (auto simp: numbered_peers_def Let_def)

lemma add_legacy_peer_apart:
  assumes "h \<noteq> g" "fst x \<in> P" shows "abides (apart g T P) (add_legacy_peer h m x)"
proof (cases x)
  case (fields guid devGuid lp)
  have links: "ln_peer l = guid" if "l \<in> set (legacy_links m guid lp)" for l
    using that by (auto simp: legacy_links_def in_map_filter)
  have "abides (apart g T P) (case found of None \<Rightarrow> reading (\<lambda>_. Inr ())
      | Some dev \<Rightarrow> sbind (writing_db (save_peer (legacy_entry guid h dev lp)))
         (\<lambda>_. for_each (\<lambda>l. writing_db (add_link l)) (legacy_links m guid lp)))" for found
  proof (cases found)
    case None
    then show ?thesis by (simp add: abides_reading [OF apart_refl])
  next
    case (Some dev)
    show ?thesis unfolding Some option.case
      by (intro apart_steps apart_save_peer apart_add_link) (use assms fields links in \<open>auto simp: legacy_entry_def\<close>)
  qed
  then show ?thesis unfolding add_legacy_peer_def fields prod.case by (intro apart_steps apart_findOrCreatePeer)
qed

lemma replace_book_contents:
  assumes ok: "ab_ok d" and h: "h \<noteq> g" and new: "range gs \<inter> tag_ids g d = {} \<and> range gs \<inter> peer_ids g d = {}"
  shows "same_contents g d (snd (replace_book h gs b d))"
proof -
  have sc: "ab_schema d" using ok by (simp add: ab_ok_def)
  let ?d1 = "clear_links h d" and ?d2 = "(clear_links h d)\<lparr>ab_tags := filter (\<lambda>t. tg_book t \<noteq> h) (ab_tags d)\<rparr>"
  let ?d3 = "delete_peers (\<lambda>p. pr_book p = h) ?d2"
  have c1: "same_contents g d ?d1"
    unfolding clear_links_def Let_def using h distinct_rows(1) [OF sc]
    by (auto intro!: contents_delete_links simp: peer_ids_def) (metis)
  have "filter (\<lambda>t. tg_book t = g) (filter (\<lambda>t. tg_book t \<noteq> h) (ab_tags d)) = filter (\<lambda>t. tg_book t = g) (ab_tags d)"
    using h by (auto intro: filter_cong)
  moreover have k: "ab_tags ?d1 = ab_tags d" "ab_peers ?d1 = ab_peers d" by (simp_all add: clear_links_def delete_links_def Let_def)
  ultimately have c2: "same_contents g ?d1 ?d2" by (simp add: same_contents_def book_of_def)
  have "ab_ok (snd (delete_tags (\<lambda>t. tg_book t = h) ?d1))" by (rule ok_delete_tags [OF clear_links_ok [OF ok]])
  then have sc2: "ab_schema ?d2" by (simp add: delete_book_tags [OF ok] ab_ok_def)
  have c3: "same_contents g ?d2 ?d3" by (rule delete_peers_contents [OF sc2]) (use h in simp)
  have c: "same_contents g d ?d3" using c1 c2 c3 by (blast intro: same_contents_trans)
  have "same_contents g ?d3 (snd (sbind (for_each (\<lambda>t. writing_db (add_tag_row t)) (legacy_tags h gs b))
      (\<lambda>_. for_each (add_legacy_peer h (tag_guids (legacy_tags h gs b))) (numbered_peers gs b)) ?d3))"
  proof (rule apartD)
    show "range gs \<inter> tag_ids g ?d3 = {} \<and> range gs \<inter> peer_ids g ?d3 = {}"
      using new by (simp add: same_contents_ids [OF c])
    show "abides (apart g (range gs) (range gs)) (sbind (for_each (\<lambda>t. writing_db (add_tag_row t)) (legacy_tags h gs b))
        (\<lambda>_. for_each (add_legacy_peer h (tag_guids (legacy_tags h gs b))) (numbered_peers gs b)))"
      by (intro apart_steps apart_add_tag add_legacy_peer_apart)
        (use h legacy_tag_ids [of _ h gs b] numbered_peer_ids [of _ gs b] in auto)
  qed
  from same_contents_trans [OF c this] show ?thesis
    by (simp add: replace_book_def sbind_def [of "delete_tags _"] delete_book_tags [OF ok])
qed

text \<open>The personal book of a user is only ever that user's.\<close>

lemma personal_contents:
  assumes "ab_schema d" "guid \<noteq> g"
  shows "same_contents g d (snd (personal_or_new u guid d)) \<and>
     (case fst (personal_or_new u guid d) of Inl e \<Rightarrow> True | Inr h \<Rightarrow> h \<noteq> g \<or> reaches d u g 2)"
proof (cases "personal_book d u")
  case None
  then show ?thesis using assms(2)
    by (simp add: personal_or_new_def same_contents_def book_of_def find_save_row)
next
  case (Some b)
  then have b: "b \<in> set (ab_books d)" "bk_owner b = u" by (auto simp: personal_book_def dest: find_SomeD)
  then have "book_of d (bk_guid b) = Some b" using assms(1) by (simp add: book_of_iff)
  then have "reaches d u (bk_guid b) 2" using b by (simp add: reaches_owner)
  then show ?thesis using Some by (auto simp: personal_or_new_def)
qed

lemma legacy_contents:
  assumes ok: "ab_ok d" and guid: "guid \<noteq> g" and un: "unused gs d"
    and new: "range gs \<inter> tag_ids g d = {} \<and> range gs \<inter> peer_ids g d = {}"
  shows "same_contents g d (snd (updateLegacyAddressBook u body guid gs d)) \<or> reaches d u g 2"
proof (cases body)
  case (Parsed b)
  obtain r d1 where pn: "personal_or_new u guid d = (r, d1)" by fastforce
  have "ab_schema d" using ok by (simp add: ab_ok_def)
  from personal_contents [OF this guid, of u] have c: "same_contents g d d1"
    and r: "case r of Inl e \<Rightarrow> True | Inr h \<Rightarrow> h \<noteq> g \<or> reaches d u g 2" by (simp_all add: pn)
  have ok1: "ab_ok d1"
    using personal_ok [of gs u guid] ok un valid_ok [of _ "personal_or_new u guid" d] pn by fastforce
  show ?thesis
  proof (cases r)
    case (Inl e)
    then show ?thesis using Parsed c pn by (simp add: updateLegacyAddressBook_def sbind_def)
  next
    case (Inr h)
    show ?thesis
    proof (cases "h = g")
      case True
      then show ?thesis using r Inr by simp
    next
      case False
      have "same_contents g d1 (snd (replace_book h gs b d1))"
        by (rule replace_book_contents [OF ok1 False]) (use new in \<open>simp add: same_contents_ids [OF c]\<close>)
      then have "same_contents g d (snd (replace_book h gs b d1))" by (rule same_contents_trans [OF c])
      then show ?thesis using Parsed c pn Inr
        by (auto simp: updateLegacyAddressBook_def sbind_def in_transaction_def split: prod.splits sum.splits)
    qed
  qed
qed (simp_all add: updateLegacyAddressBook_def)

subsection \<open>Requests on rules and profiles\<close>

lemma rule_contents:
  "same_contents g d (save_rule r d)" "same_contents g d (d\<lparr>ab_rules := rs\<rparr>)"
  by (simp_all add: contents_cong save_rule_def)

lemma contents_save_book: "bk_guid b \<noteq> g \<Longrightarrow> same_contents g d (save_book b d)"
  by (simp add: same_contents_def save_book_def book_of_def find_save_row)

lemma contents_preorder: "reflp (same_contents g)" "transp (same_contents g)"
  using same_contents_trans by (auto simp: reflp_def transp_def)

lemma rule_requests_contents:
  "same_contents g d (snd (createRule isUUID dto u guid d))"
  "same_contents g d (snd (updateRule rg lvl u d))"
  "same_contents g d (snd (shareAddressBook h t r u guid d))"
  "same_contents g d (snd (unshareAddressBook h t u d))"
  by (auto simp: createRule_def updateRule_def shareAddressBook_def unshareAddressBook_def rule_contents
      split: sum.splits prod.splits)

lemma deleteRules_contents: "same_contents g d (snd (deleteRules isUUID guids u d))"
proof -
  have "abides (same_contents g) (delete_rule r)" for r
    by (simp add: abides_def delete_rule_def rule_contents)
  then have "abides (same_contents g) (deleteRules isUUID guids u)"
    unfolding deleteRules_def deleteRules_tx_def
    by (intro abides_sbind [OF contents_preorder(2)] abides_reading [OF contents_preorder(1)]
        abides_transaction [OF contents_preorder(1)] abides_for_each [OF contents_preorder])
  then show ?thesis by (simp add: abides_def)
qed

lemma createProfile_contents:
  "guid \<noteq> g \<Longrightarrow> same_contents g d (snd (createAddressBookProfile name u sh note pw guid d))"
  by (auto simp: createAddressBookProfile_def contents_save_book split: sum.splits)

lemma contents_delete_books:
  assumes "\<not> P g" shows "same_contents g d (delete_books P d)"
proof -
  have "find (\<lambda>b. bk_guid b = g) (filter (\<lambda>b. \<not> P (bk_guid b)) (ab_books d)) =
      find (\<lambda>b. bk_guid b = g) (ab_books d)" using assms by (intro find_filter) auto
  then show ?thesis using assms
    by (auto simp: same_contents_def delete_books_def Let_def book_of_def peer_ids_def intro!: filter_cong)
qed

lemma updateCustom_contents:
  assumes "ab_schema d"
  shows "same_contents g d (snd (updateCustomAddressBook h u name note d)) \<or> reaches d u g 2"
proof (cases "findPrivateCustomAddressBook d h u")
  case None
  then show ?thesis by (auto simp: updateCustomAddressBook_def result_simps split: sum.splits)
next
  case (Some b)
  then have b: "b \<in> set (ab_books d)" "bk_owner b = u"
    by (auto simp: findPrivateCustomAddressBook_def private_custom_def dest: find_SomeD)
  then have "reaches d u (bk_guid b) 2" using assms by (simp add: book_of_iff reaches_owner)
  then show ?thesis using Some
    by (cases "bk_guid b = g")
      (auto simp: updateCustomAddressBook_def result_simps contents_save_book split: sum.splits)
qed

lemma deletes_contents:
  assumes "ab_schema d" and "book_of d g \<noteq> None"
  shows "same_contents g d (snd (deleteCustomAddressBooks guids u d)) \<or> reaches d u g 2"
    and "same_contents g d (snd (deleteSharedAddressBooks guids u d)) \<or> reaches d u g 2"
proof -
  have gone: "\<not> P g" if "same_grants g d (delete_books P d)" for P
  proof
    assume "P g"
    then have "book_of (delete_books P d) g = None"
      by (auto simp: book_of_None delete_books_def Let_def)
    then show False using that assms(2) by (auto simp: same_grants_def)
  qed
  then have kept: "same_contents g d (delete_books P d)" if "same_grants g d (delete_books P d)" for P
    using that contents_delete_books by blast
  show "same_contents g d (snd (deleteCustomAddressBooks guids u d)) \<or> reaches d u g 2"
    using deleteCustom_grants [OF assms, of guids u] reaches_mono [of d u g 3 2] kept
    by (auto simp: deleteCustomAddressBooks_def split: sum.splits)
  show "same_contents g d (snd (deleteSharedAddressBooks guids u d)) \<or> reaches d u g 2"
    using deleteShared_grants [OF assms(1), of g guids u] reaches_mono [of d u g 3 2] kept
    by (auto simp: deleteSharedAddressBooks_def split: sum.splits)
qed

lemma updateShared_contents:
  assumes "u \<noteq> []"
  shows "same_contents g d (snd (updateSharedAddressBook h c (Some u) guid d)) \<or> reaches d u g 2"
proof (cases "updateShared_reads h c (Some u) d")
  case (Inl e)
  then show ?thesis by (simp add: updateSharedAddressBook_def)
next
  case (Inr b)
  have found: "findSharedAddressBook d h = Some b"
    and chk: "\<exists>x. checkAddressBookAccess d h u (if changing_owner c b then FULL_CONTROL else READ_WRITE) = Inr x"
    using Inr assms by (auto simp: updateShared_reads_def result_simps nonempty_def split: option.splits)
  have w: "reaches d u h 2"
    using chk reaches_mono [of d u h 3 2] by (auto simp: access_Inr_iff split: if_splits)
  show ?thesis
  proof (cases "h = g")
    case True
    then show ?thesis using w by simp
  next
    case False
    have 1: "same_contents g d (grant_new_owner h c b guid d)" by (simp add: grant_new_owner_def rule_contents)
    have "bk_guid (new_profile c b n) \<noteq> g" for n using findShared_Some [OF found] False by (simp add: new_profile_def)
    then have "same_contents g d (save_book (new_profile c b n) (grant_new_owner h c b guid d))" for n
      using same_contents_trans [OF 1 contents_save_book] by blast
    then show ?thesis using Inr 1 by (auto simp: updateSharedAddressBook_def split: sum.splits)
  qed
qed

subsection \<open>Every request\<close>

lemma entry_contents:
  assumes "u \<noteq> []" "\<And>h. h \<noteq> g \<Longrightarrow> same_contents g d (snd (m h d))"
    and "\<not> reaches d u g (level READ_WRITE) \<Longrightarrow> snd (m g d) = d"
  shows "same_contents g d (snd (m h d)) \<or> reaches d u g 2"
  using assms(2) [of h] assms(3) by (cases "h = g") auto

lemma request_contents:
  assumes "ab_ok d" "fresh_ids gs d" "u \<noteq> []" "book_of d g \<noteq> None"
  shows "same_contents g d (snd (serve_ab isUUID u req gs d)) \<or> reaches d u g 2"
proof -
  have sc: "ab_schema d" using assms(1) by (simp add: ab_ok_def)
  have "g \<in> used_ids d" using assms(4) by (auto simp: book_of_None used_ids_def)
  then have "g \<notin> range gs" using assms(2) by (auto simp: fresh_ids_def)
  then have new: "gs i \<noteq> g" for i by auto
  note refused = entries.entry_op_refused [OF assms(3), of d]
  show ?thesis
  proof (cases req)
    case OpenPersonal
    then show ?thesis using personal_contents [OF sc new] by (simp add: getPersonalAddressBook_def)
  next
    case ReadLegacy
    have "snd (getLegacyAddressBook u (gs 0) d) = snd (personal_or_new u (gs 0) d)"
      by (auto simp: getLegacyAddressBook_def sbind_def reading_def split: prod.splits sum.splits)
    then show ?thesis using ReadLegacy personal_contents [OF sc new] by simp
  next
    case (ReplaceLegacy b)
    have "range (\<lambda>n. gs (Suc n)) \<inter> tag_ids g d = {} \<and> range (\<lambda>n. gs (Suc n)) \<inter> peer_ids g d = {}"
      using fresh_apart [OF assms(2), of g] by blast
    then show ?thesis using ReplaceLegacy legacy_contents [OF assms(1) new unused_Suc [OF unused_fresh [OF assms(2)]]]
      by simp
  next
    case (AddPeer h dto)
    show ?thesis unfolding AddPeer serve_ab.simps
      by (rule entry_contents [OF assms(3)]) (simp_all add: addPeer_contents assms refused)
  next
    case (UpdatePeer h dto)
    show ?thesis unfolding UpdatePeer serve_ab.simps
      by (rule entry_contents [OF assms(3)]) (simp_all add: updatePeer_contents assms refused)
  next
    case (DeletePeers h ids)
    show ?thesis unfolding DeletePeers serve_ab.simps
      by (rule entry_contents [OF assms(3)]) (simp_all add: deletePeers_contents sc refused)
  next
    case (AddTag h name color)
    show ?thesis unfolding AddTag serve_ab.simps
      by (rule entry_contents [OF assms(3)]) (simp_all add: addTag_contents assms refused)
  next
    case (RenameTag h old new)
    show ?thesis unfolding RenameTag serve_ab.simps
      by (rule entry_contents [OF assms(3)]) (simp_all add: renameTag_contents sc refused)
  next
    case (UpdateTag h name color)
    show ?thesis unfolding UpdateTag serve_ab.simps
      by (rule entry_contents [OF assms(3)]) (simp_all add: updateTag_contents sc refused)
  next
    case (DeleteTags h names)
    show ?thesis unfolding DeleteTags serve_ab.simps
      by (rule entry_contents [OF assms(3)]) (simp_all add: deleteTags_contents assms refused)
  qed (simp_all add: addCustomAddressBook_def addSharedAddressBook_def createProfile_contents new
      updateCustom_contents sc deletes_contents assms(3,4) updateShared_contents rule_requests_contents deleteRules_contents)
qed

lemma run_contents:
  assumes "ab_ok d" "proper_run isUUID rs d" "book_of d g \<noteq> None" "\<forall>u \<in> callers rs. \<not> reaches d u g 2"
  shows "same_contents g d (serve_all isUUID rs d)"
  using assms
proof (induction rs arbitrary: d)
  case Nil
  then show ?case by simp
next
  case (Cons c rs)
  obtain u req gs where c: "c = (u, req, gs)" by (cases c)
  let ?d = "snd (serve_ab isUUID u req gs d)"
  have p: "u \<noteq> []" "valid_ab_request req" "fresh_ids gs d" "proper_run isUUID rs ?d" using Cons.prems(2) c by simp_all
  have no: "\<not> reaches d v g 2" if "v = u \<or> v \<in> callers rs" for v
    using that Cons.prems(4) c by (auto simp: callers_def)
  have same: "same_contents g d ?d"
    using request_contents [OF Cons.prems(1) p(3) p(1) Cons.prems(3), of isUUID req] no by blast
  have sg: "same_grants g d ?d"
    using request_grants [OF Cons.prems(1) p(3) p(1) Cons.prems(3), of isUUID req] no reaches_mono [of d u g 3 2] by auto
  have ok: "ab_ok ?d" by (rule valid_ok [OF serve_valid [OF p(2)]]) (use Cons.prems(1) p(3) in simp)
  have ex: "book_of ?d g \<noteq> None" using sg Cons.prems(3) by (auto simp: same_grants_def)
  have "same_contents g ?d (serve_all isUUID rs ?d)"
    by (rule Cons.IH [OF ok p(4) ex]) (use no in \<open>simp add: same_grants_reaches [OF sg]\<close>)
  then show ?case using same_contents_trans [OF same] c by simp
qed

text \<open>C33. Reading is all a reader can do: however many requests users without write access to an
  address book make, together and in any order, failed ones included, its profile, tags, devices
  and links stay as they were.\<close>

theorem contents_need_write_access:
  assumes "ab_ok d" and "proper_run isUUID rs d" and "book_of d g \<noteq> None"
    and "\<forall>u \<in> callers rs. \<not> admits d g u READ_WRITE"
  shows "same_contents g d (serve_all isUUID rs d)"
proof -
  have "\<forall>u \<in> callers rs. \<not> reaches d u g 2" using assms(4) by (simp add: admits_iff)
  then show ?thesis by (rule run_contents [OF assms(1-3)])
qed

end
