(* ===== verification/Address_Book_Effects.thy ===== *)
theory Address_Book_Effects
  imports Address_Book_Contents
begin

text \<open>
  What the requests on rules, profiles and tags do when they are served: the exact effect of
  granting and revoking, the uniqueness of the names of an owner's books, and the cases where a
  request does less, or more, than its caller asked for.
\<close>

lemma effect_simps [simp]: "reading f d = (f d, d)" "writing_db h d = (Inr (), h d)"
  by (simp_all add: reading_def writing_db_def)

subsection \<open>Granting\<close>

definition requested_level :: "create_rule \<Rightarrow> int" where
  "requested_level dto = (case cu_level dto of None \<Rightarrow> 1 | Some n \<Rightarrow> n)"

text \<open>Whom a request for a rule means, as the tables stand.\<close>

definition meant :: "(string \<Rightarrow> bool) \<Rightarrow> ab_db \<Rightarrow> create_rule \<Rightarrow> string \<Rightarrow> bool" where
  "meant isUUID d dto v \<longleftrightarrow> (\<exists>us. user_of d v = Some us \<and>
     (case target_user isUUID d (cu_user dto) of Inl e \<Rightarrow> False | Inr tu \<Rightarrow>
      case target_group d (cu_group dto) of Inl e \<Rightarrow> False | Inr tg \<Rightarrow>
        (tu = Some v \<and> tg = None) \<or> (tu = None \<and> tg = None) \<or>
        (tu = None \<and> tg \<noteq> None \<and> us_group us = tg)))"

lemma user_of_guid: "user_of d u = Some us \<Longrightarrow> us_guid us = u"
  unfolding user_of_def by (drule find_SomeD) simp

lemma reaches_save_new_rule:
  assumes "rule_key r \<notin> rule_key ` set (ab_rules d)"
  shows "reaches (save_rule r d) v g n \<longleftrightarrow> reaches d v g n \<or>
     (\<exists>b us. book_of d g = Some b \<and> user_of d v = Some us \<and> applicable us g r \<and> n \<le> ru_level r)"
proof -
  have "save_row rule_key r (ab_rules d) = ab_rules d @ [r]" by (rule save_row_new [OF assms])
  then show ?thesis by (auto simp: reaches_def save_rule_def book_of_def user_of_def)
qed

text \<open>Creating a rule grants what was asked and nothing else: on success exactly the users the
  rule names (the user, everyone, or the members of the group) reach the requested level on exactly
  that book, everyone else and every other book stay as they were; a refusal changes nothing.\<close>

theorem createRule_exact:
  assumes "ab_ok d" and "guid \<notin> used_ids d" and "createRule isUUID dto u guid d = (r, d')"
  shows "case r of
      Inl e \<Rightarrow> d' = d
    | Inr _ \<Rightarrow> (\<forall>v g n. reaches d' v g n \<longleftrightarrow> reaches d v g n \<or>
        (g = cu_book dto \<and> meant isUUID d dto v \<and> n \<le> requested_level dto))"
proof (cases "createRule_reads isUUID dto u d")
  case (Inl e)
  then show ?thesis using assms(3) by (auto simp: createRule_def)
next
  case (Inr t)
  obtain tu tg where t: "t = (tu, tg)" by (cases t)
  let ?r = "\<lparr>ru_guid = guid, ru_book = cu_book dto, ru_user = tu, ru_group = tg, ru_level = requested_level dto\<rparr>"
  have d': "d' = save_rule ?r d" and r: "r = Inr guid"
    using Inr t assms(3) by (simp_all add: createRule_def requested_level_def)
  have facts: "checkAddressBookAccess d (cu_book dto) u FULL_CONTROL \<in> range Inr"
    "target_user isUUID d (cu_user dto) = Inr tu" "target_group d (cu_group dto) = Inr tg"
    "nonempty (cu_user dto) = None \<or> nonempty (cu_group dto) = None"
    using Inr t by (auto simp: createRule_reads_def result_simps)
  have tg: "nonempty tg = tg" by (rule target_group_nonempty [OF assms(1) facts(3)])
  have one: "tu = None \<or> tg = None"
    using facts(4) target_given(1) [OF facts(2)] target_given(2) [OF facts(3)] by auto
  obtain b where b: "book_of d (cu_book dto) = Some b" using facts(1) by (auto simp: access_Inr_iff)
  have new: "rule_key ?r \<notin> rule_key ` set (ab_rules d)"
    using assms(2) by (auto simp: rule_key_def used_ids_def)
  have hit: "(\<exists>b us. book_of d g = Some b \<and> user_of d v = Some us \<and> applicable us g ?r) \<longleftrightarrow>
      g = cu_book dto \<and> meant isUUID d dto v" for v g
    using b tg one
    by (auto simp: applicable_def meant_def facts(2,3) nonempty_def dest: user_of_guid split: option.splits if_splits)
  have "reaches d' v g n \<longleftrightarrow> reaches d v g n \<or>
      (g = cu_book dto \<and> meant isUUID d dto v \<and> n \<le> requested_level dto)" for v g n
    unfolding d' reaches_save_new_rule [OF new] using hit [of g v] by auto
  then show ?thesis using r by simp
qed

subsection \<open>Revoking\<close>

lemma deleteRules_reads_rows:
  assumes "deleteRules_reads guids d = Inr rs"
  shows "set rs = {r \<in> set (ab_rules d). ru_guid r \<in> set guids}"
    and "distinct (map rule_key (ab_rules d)) \<Longrightarrow> distinct (map rule_key rs)"
proof -
  let ?rows = "\<lambda>g. filter (\<lambda>r. ru_guid r = g) (filter (\<lambda>r. ru_guid r \<in> set guids) (ab_rules d))"
  have rs: "rs = concat (map ?rows (js_unique guids))"
    using assms by (simp add: deleteRules_reads_def Let_def js_simps del: filter_filter split: if_splits)
  then show "set rs = {r \<in> set (ab_rules d). ru_guid r \<in> set guids}" by auto
  assume dk: "distinct (map rule_key (ab_rules d))"
  have "distinct (map rule_key (concat (map ?rows gs)))" if "distinct gs" for gs
    using that
  proof (induction gs)
    case Nil
    then show ?case by simp
  next
    case (Cons g gs)
    have "distinct (map rule_key (?rows g))" using dk by (simp add: distinct_map_filter)
    moreover have "rule_key ` set (?rows g) \<inter> rule_key ` set (concat (map ?rows gs)) = {}"
      using Cons.prems by (auto simp: rule_key_def)
    ultimately show ?case using Cons by simp
  qed
  then show "distinct (map rule_key rs)" unfolding rs by simp
qed

lemma delete_rules_loop:
  assumes "distinct (map rule_key (ab_rules d))" "distinct (map rule_key rs)" "set rs \<subseteq> set (ab_rules d)"
  shows "for_each delete_rule rs d =
     (Inr (), d\<lparr>ab_rules := filter (\<lambda>x. rule_key x \<notin> rule_key ` set rs) (ab_rules d)\<rparr>)"
  using assms
proof (induction rs arbitrary: d)
  case Nil
  then show ?case by simp
next
  case (Cons r rs)
  have "length (filter (\<lambda>x. rule_key x = rule_key r) (ab_rules d)) = 1"
  proof -
    have "distinct (ab_rules d)" using Cons.prems(1) by (simp add: distinct_map)
    then have "length (filter (\<lambda>x. rule_key x = rule_key r) (ab_rules d)) =
        card (set (filter (\<lambda>x. rule_key x = rule_key r) (ab_rules d)))" by (simp add: distinct_card [symmetric])
    moreover have "set (filter (\<lambda>x. rule_key x = rule_key r) (ab_rules d)) = {r}"
      using Cons.prems(1,3) by (auto simp: distinct_map inj_on_def)
    ultimately show ?thesis by simp
  qed
  moreover let ?d = "d\<lparr>ab_rules := filter (\<lambda>x. rule_key x \<noteq> rule_key r) (ab_rules d)\<rparr>"
  have "for_each delete_rule rs ?d =
      (Inr (), ?d\<lparr>ab_rules := filter (\<lambda>x. rule_key x \<notin> rule_key ` set rs) (ab_rules ?d)\<rparr>)"
  proof (rule Cons.IH)
    have "rule_key x \<noteq> rule_key r" if "x \<in> set rs" for x
      using Cons.prems(2) imageI [OF that, of rule_key] by auto
    then show "set rs \<subseteq> set (ab_rules ?d)" using Cons.prems(3) by auto
  qed (use Cons.prems in \<open>simp_all add: distinct_map_filter\<close>)
  ultimately show ?case by (simp add: sbind_def delete_rule_def [of r])
qed

text \<open>The condition under which the code deletes: a rule for every identifier, each of a book the
  caller fully controls; the first identifier that is no UUID must be the empty string, which the
  code lets through.\<close>

definition may_delete :: "(string \<Rightarrow> bool) \<Rightarrow> string list \<Rightarrow> string \<Rightarrow> ab_db \<Rightarrow> bool" where
  "may_delete isUUID guids u d \<longleftrightarrow> guids \<noteq> [] \<and>
     find (\<lambda>g. \<not> isUUID g) (js_unique guids) \<in> {None, Some []} \<and>
     list_all (\<lambda>g. list_ex (\<lambda>r. ru_guid r = g) (ab_rules d)) guids \<and>
     list_all (\<lambda>r. ru_guid r \<notin> set guids \<or> admits d (ru_book r) u FULL_CONTROL) (ab_rules d)"

lemma deleteRules_tx_Inr:
  assumes "ab_ok d" "deleteRules_reads guids d = Inr rs"
    and "\<forall>r \<in> set rs. admits d (ru_book r) u FULL_CONTROL"
  shows "deleteRules_tx guids u d = (Inr (), d\<lparr>ab_rules := filter (\<lambda>r. ru_guid r \<notin> set guids) (ab_rules d)\<rparr>)"
proof -
  have dk: "distinct (map rule_key (ab_rules d))"
    using assms(1) by (simp add: ab_ok_def ab_schema_def rule_key_def [abs_def])
  note rows = deleteRules_reads_rows [OF assms(2)]
  have chk: "each (\<lambda>r. rbind (checkAddressBookAccess d (ru_book r) u FULL_CONTROL) (\<lambda>_. Inr ())) rs = Inr ()"
    unfolding each_Inr_iff
  proof
    fix r assume "r \<in> set rs"
    then have "\<not> isl (checkAddressBookAccess d (ru_book r) u FULL_CONTROL)" using assms(3) by (simp add: admits_def)
    then show "rbind (checkAddressBookAccess d (ru_book r) u FULL_CONTROL) (\<lambda>_. Inr ()) = Inr ()"
      by (cases "checkAddressBookAccess d (ru_book r) u FULL_CONTROL") simp_all
  qed
  have "filter (\<lambda>x. rule_key x \<notin> rule_key ` set rs) (ab_rules d) = filter (\<lambda>r. ru_guid r \<notin> set guids) (ab_rules d)"
  proof (rule filter_cong [OF refl])
    fix x assume x: "x \<in> set (ab_rules d)"
    have "rule_key x \<in> rule_key ` set rs \<longleftrightarrow> x \<in> set rs"
      using dk x rows(1) by (auto simp: distinct_map inj_on_def)
    then show "(rule_key x \<notin> rule_key ` set rs) = (ru_guid x \<notin> set guids)" using x rows(1) by auto
  qed
  moreover have "for_each delete_rule rs d =
      (Inr (), d\<lparr>ab_rules := filter (\<lambda>x. rule_key x \<notin> rule_key ` set rs) (ab_rules d)\<rparr>)"
    by (rule delete_rules_loop [OF dk rows(2) [OF dk]]) (use rows(1) in auto)
  ultimately show ?thesis using assms(2) chk by (simp add: deleteRules_tx_def)
qed

lemma deleteRules_tx_Inl:
  "deleteRules_reads guids d = Inl e \<Longrightarrow> deleteRules_tx guids u d = (Inl e, d)"
  "deleteRules_reads guids d = Inr rs \<Longrightarrow> r \<in> set rs \<Longrightarrow> \<not> admits d (ru_book r) u FULL_CONTROL \<Longrightarrow>
     isl (fst (deleteRules_tx guids u d))"
proof -
  assume "deleteRules_reads guids d = Inr rs" and r: "r \<in> set rs" "\<not> admits d (ru_book r) u FULL_CONTROL"
  moreover have "each (\<lambda>r. rbind (checkAddressBookAccess d (ru_book r) u FULL_CONTROL) (\<lambda>_. Inr ())) rs \<noteq> Inr ()"
    unfolding each_Inr_iff using r
    by (intro notI) (auto simp: admits_def rbind_Inr_iff dest!: bspec)
  ultimately show "isl (fst (deleteRules_tx guids u d))"
    by (auto simp: deleteRules_tx_def split: sum.splits)
qed (simp add: deleteRules_tx_def)

lemma deleteRules_reads_Inr:
  "(\<exists>rs. deleteRules_reads guids d = Inr rs) \<longleftrightarrow> list_all (\<lambda>g. list_ex (\<lambda>r. ru_guid r = g) (ab_rules d)) guids"
proof -
  have "(\<exists>rs. deleteRules_reads guids d = Inr rs) \<longleftrightarrow>
      (\<forall>g \<in> set guids. \<exists>r \<in> set (filter (\<lambda>r. ru_guid r \<in> set guids) (ab_rules d)). ru_guid r = g)"
    by (auto simp: deleteRules_reads_def Let_def js_simps list_ex_iff)
  then show ?thesis by (auto simp: list_all_iff list_ex_iff)
qed

text \<open>C38. Deleting rules is all or nothing: either every rule with one of the identifiers is gone and
  no other, or, when one of them is unknown, malformed or of a book the caller does not fully
  control, the request fails and no row of any table has changed.\<close>

theorem deleteRules_all_or_nothing:
  assumes "ab_ok d"
  shows "(isl (fst (deleteRules isUUID guids u d)) \<longleftrightarrow> \<not> may_delete isUUID guids u d) \<and>
    snd (deleteRules isUUID guids u d) =
      (if may_delete isUUID guids u d then d\<lparr>ab_rules := filter (\<lambda>r. ru_guid r \<notin> set guids) (ab_rules d)\<rparr> else d)"
proof -
  let ?pre = "guids \<noteq> [] \<and> find (\<lambda>g. \<not> isUUID g) (js_unique guids) \<in> {None, Some []}"
  let ?R = "deleteRules isUUID guids u d"
  show ?thesis
  proof (cases ?pre)
    case False
    then show ?thesis
      by (auto simp: deleteRules_def may_delete_def ensure_def split: option.splits)
  next
    case True
    then have R: "?R = in_transaction (deleteRules_tx guids u) d"
      by (auto simp: deleteRules_def ensure_def)
    show ?thesis
    proof (cases "deleteRules_reads guids d")
      case (Inl e)
      then have "\<not> may_delete isUUID guids u d" using deleteRules_reads_Inr [of guids d] by (auto simp: may_delete_def)
      then show ?thesis by (simp add: R in_transaction_def deleteRules_tx_Inl(1) [OF Inl])
    next
      case (Inr rs)
      have all: "may_delete isUUID guids u d \<longleftrightarrow> (\<forall>r \<in> set rs. admits d (ru_book r) u FULL_CONTROL)"
        using True Inr deleteRules_reads_Inr [of guids d] deleteRules_reads_rows(1) [OF Inr]
        by (auto simp: may_delete_def list_all_iff)
      show ?thesis
      proof (cases "may_delete isUUID guids u d")
        case True
        then show ?thesis using deleteRules_tx_Inr [OF assms Inr] all by (simp add: R in_transaction_def)
      next
        case False
        then obtain r where "r \<in> set rs" "\<not> admits d (ru_book r) u FULL_CONTROL" using all by blast
        from deleteRules_tx_Inl(2) [OF Inr this] show ?thesis using False
          by (cases "deleteRules_tx guids u d") (auto simp: R in_transaction_def isl_def)
      qed
    qed
  qed
qed

subsection \<open>Names\<close>

text \<open>No owner has two address books of the same name, personal ones aside.\<close>

definition clash :: "ab_book \<Rightarrow> ab_book \<Rightarrow> bool" where
  "clash b c \<longleftrightarrow> \<not> bk_personal b \<and> \<not> bk_personal c \<and> bk_owner b = bk_owner c \<and>
     bk_name b = bk_name c \<and> bk_name b \<noteq> None"

definition names_unique :: "ab_db \<Rightarrow> bool" where
  "names_unique d \<longleftrightarrow> (\<forall>b \<in> set (ab_books d). \<forall>c \<in> set (ab_books d). clash b c \<longrightarrow> bk_guid b = bk_guid c)"

lemma names_uniqueD:
  "names_unique d \<Longrightarrow> b \<in> set (ab_books d) \<Longrightarrow> c \<in> set (ab_books d) \<Longrightarrow> clash b c \<Longrightarrow> bk_guid b = bk_guid c"
  by (auto simp: names_unique_def)

text \<open>A book can be saved when no other book of its owner has its name.\<close>

lemma names_save_book:
  assumes "names_unique d"
    and new: "\<And>c. c \<in> set (ab_books d) \<Longrightarrow> bk_guid c \<noteq> bk_guid b \<Longrightarrow> \<not> clash b c"
  shows "names_unique (save_book b d)"
  unfolding names_unique_def
proof (intro ballI impI)
  fix x y assume xy: "x \<in> set (ab_books (save_book b d))" "y \<in> set (ab_books (save_book b d))" "clash x y"
  have sym: "clash y x" using xy(3) unfolding clash_def by metis
  consider "x = b" | "y = b" | "x \<in> set (ab_books d)" "y \<in> set (ab_books d)"
    using xy(1,2) by (auto simp: save_book_def set_save_row)
  then show "bk_guid x = bk_guid y"
  proof cases
    case 1
    then show ?thesis using xy new [of y] by (auto simp: save_book_def set_save_row)
  next
    case 2
    then show ?thesis using xy sym new [of x] by (auto simp: save_book_def set_save_row)
  next
    case 3
    then show ?thesis using names_uniqueD [OF assms(1)] xy(3) by blast
  qed
qed

lemma names_other: "ab_books d' = ab_books d \<Longrightarrow> names_unique d' = names_unique d"
  by (simp add: names_unique_def)

lemma names_delete_books: "names_unique d \<Longrightarrow> names_unique (delete_books P d)"
  by (simp add: names_unique_def delete_books_def Let_def)

lemma same_named_None:
  "same_named d w n = None \<longleftrightarrow> (\<forall>c \<in> set (ab_books d). bk_name c = Some n \<and> bk_owner c = w \<longrightarrow> bk_personal c)"
  by (auto simp: same_named_def find_None_iff_all)

text \<open>The name check of an update: the name is the old one, or no other book of the owner has it.\<close>

lemma renamed_free:
  assumes "names_unique d" "renamed name w b d = Inr n" "name \<noteq> None"
    and "c \<in> set (ab_books d)" "bk_guid c \<noteq> bk_guid b" "\<not> bk_personal c" "bk_owner c = w"
  shows "bk_name c \<noteq> n"
proof
  assume cn: "bk_name c = n"
  obtain s where s: "n = Some s" using assms(2,3) by (auto simp: renamed_def Let_def split: if_splits option.splits)
  have "same_named d w s \<noteq> None"
    using same_named_None [of d w s] assms(4,6,7) cn s by blast
  then obtain o' where o': "same_named d w s = Some o'" by auto
  have "bk_guid o' = bk_guid b"
    using assms(2,3) o' s by (auto simp: renamed_def Let_def split: if_splits option.splits)
  moreover have "o' \<in> set (ab_books d)" "bk_name o' = Some s" "bk_owner o' = w" "\<not> bk_personal o'"
    using o' by (auto simp: same_named_def dest: find_SomeD)
  moreover have "clash o' c" using calculation assms(6,7) cn s by (simp add: clash_def)
  ultimately show False using names_uniqueD [OF assms(1) _ assms(4)] assms(5) by metis
qed

lemma names_createProfile:
  assumes "names_unique d"
  shows "names_unique (snd (createAddressBookProfile name w sh note pw guid d))"
proof (cases "createAddressBookProfile_reads name w d")
  case (Inl e)
  then show ?thesis using assms by (simp add: createAddressBookProfile_def)
next
  case (Inr t)
  then have "same_named d w t = None"
    by (auto simp: createAddressBookProfile_reads_def Let_def split: if_splits)
  then have "names_unique (save_book \<lparr>bk_guid = guid, bk_owner = w, bk_personal = False, bk_shared = sh,
      bk_name = Some t, bk_note = note, bk_info = stored_info pw\<rparr> d)"
    using assms by (intro names_save_book) (auto simp: same_named_None clash_def)
  then show ?thesis using Inr by (simp add: createAddressBookProfile_def)
qed

lemma names_updateCustom:
  assumes "names_unique d" "ab_schema d"
  shows "names_unique (snd (updateCustomAddressBook g u name note d))"
proof -
  have "names_unique (save_book (b\<lparr>bk_name := n, bk_note := m\<rparr>) d)"
    if b: "findPrivateCustomAddressBook d g u = Some b" and n: "renamed name u b d = Inr n" for b n m
  proof (rule names_save_book [OF assms(1)])
    have own: "b \<in> set (ab_books d)" "bk_owner b = u" "\<not> bk_personal b"
      using b by (auto simp: findPrivateCustomAddressBook_def private_custom_def dest: find_SomeD)
    fix c assume c: "c \<in> set (ab_books d)" "bk_guid c \<noteq> bk_guid (b\<lparr>bk_name := n, bk_note := m\<rparr>)"
    show "\<not> clash (b\<lparr>bk_name := n, bk_note := m\<rparr>) c"
    proof (cases "name = None")
      case True
      then have "n = bk_name b" using n by (simp add: renamed_def)
      then have "clash (b\<lparr>bk_name := n, bk_note := m\<rparr>) c = clash b c" by (simp add: clash_def)
      then show ?thesis using names_uniqueD [OF assms(1) own(1) c(1)] c(2) by auto
    next
      case False
      show ?thesis
      proof
        assume cl: "clash (b\<lparr>bk_name := n, bk_note := m\<rparr>) c"
        then have "\<not> bk_personal c" "bk_owner c = u" using own(2) by (simp_all add: clash_def)
        then have "bk_name c \<noteq> n" using renamed_free [OF assms(1) n False c(1)] c(2) by simp
        then show False using cl by (simp add: clash_def)
      qed
    qed
  qed
  note saved = this
  have "b\<lparr>bk_name := n, bk_note := bk_note b\<rparr> = b\<lparr>bk_name := n\<rparr>" for b :: ab_book and n by simp
  then have "names_unique (save_book (b\<lparr>bk_name := n\<rparr>) d)"
    if "findPrivateCustomAddressBook d g u = Some b" and "renamed name u b d = Inr n" for b n
    using saved [OF that, of "bk_note b"] by simp
  with saved show ?thesis using assms(1)
    by (auto simp: updateCustomAddressBook_def result_simps split: sum.splits option.splits)
qed

text \<open>A change of owner is checked against the new owner's books only when it carries the name.\<close>

definition carries_name :: "ab_request \<Rightarrow> bool" where
  "carries_name req \<longleftrightarrow> (case req of UpdateShared g c \<Rightarrow> pc_owner c = None \<or> pc_name c \<noteq> None | _ \<Rightarrow> True)"

lemma names_updateShared:
  assumes "names_unique d" "ab_ok d" "pc_owner c = None \<or> pc_name c \<noteq> None"
  shows "names_unique (snd (updateSharedAddressBook g c u guid d))"
proof (cases "updateShared_reads g c u d")
  case (Inl e)
  then show ?thesis using assms(1) by (simp add: updateSharedAddressBook_def)
next
  case (Inr b)
  have found: "findSharedAddressBook d g = Some b"
    using Inr by (auto simp: updateShared_reads_def result_simps split: option.splits)
  then have own: "b \<in> set (ab_books d)" "\<not> bk_personal b" using findShared_Some [OF found] by (auto simp: shared_book_def)
  let ?d1 = "grant_new_owner g c b guid d"
  let ?w = "case nonempty (pc_owner c) of None \<Rightarrow> bk_owner b | Some x \<Rightarrow> x"
  have k: "ab_books ?d1 = ab_books d" by (simp add: grant_new_owner_def save_rule_def)
  have nu: "names_unique ?d1" using assms(1) by (simp add: names_other [OF k])
  have "names_unique (save_book (new_profile c b n) ?d1)" if n: "renamed (pc_name c) ?w b ?d1 = Inr n" for n
  proof -
    have "pc_owner c = Some [] \<Longrightarrow> bk_owner b = []"
    proof -
      assume e: "pc_owner c = Some []"
      have "user_of d [] = None"
        using assms(2) by (auto simp: user_of_def find_None_iff_all ab_ok_def accounts_named_def)
      then have "\<not> changing_owner c b"
        using Inr e found by (auto simp: updateShared_reads_def result_simps)
      then show "bk_owner b = []" using e by (simp add: changing_owner_def)
    qed
    then have w: "bk_owner (new_profile c b n) = ?w" "bk_guid (new_profile c b n) = bk_guid b"
      "bk_name (new_profile c b n) = n" "bk_personal (new_profile c b n) = bk_personal b"
      by (auto simp: new_profile_def nonempty_def split: option.splits)
    show ?thesis
    proof (rule names_save_book [OF nu])
      fix x assume x: "x \<in> set (ab_books ?d1)" "bk_guid x \<noteq> bk_guid (new_profile c b n)"
      show "\<not> clash (new_profile c b n) x"
      proof (cases "pc_name c = None")
        case True
        then have "n = bk_name b" "?w = bk_owner b" using n assms(3) by (simp_all add: renamed_def nonempty_def)
        then have "clash (new_profile c b n) x = clash b x" using w by (simp add: clash_def)
        then show ?thesis using names_uniqueD [OF assms(1) own(1), of x] x k w(2) by auto
      next
        case False
        show ?thesis
        proof
          assume cl: "clash (new_profile c b n) x"
          then have "\<not> bk_personal x" "bk_owner x = ?w" using w(1) by (simp_all add: clash_def)
          then have "bk_name x \<noteq> n" using renamed_free [OF nu n False x(1)] x(2) w(2) by simp
          then show False using cl w(3) by (simp add: clash_def)
        qed
      qed
    qed
  qed
  then show ?thesis using Inr nu by (auto simp: updateSharedAddressBook_def split: sum.splits)
qed

lemma core_names: "abides same_core m \<Longrightarrow> names_unique d \<Longrightarrow> names_unique (snd (m d))"
  by (simp add: abides_def same_core_def names_unique_def)

lemma names_personal: "names_unique d \<Longrightarrow> names_unique (snd (personal_or_new u guid d))"
proof (cases "personal_book d u")
  case None
  assume "names_unique d"
  then have "names_unique (save_book \<lparr>bk_guid = guid, bk_owner = u, bk_personal = True, bk_shared = False,
        bk_name = Some ''Personal'', bk_note = None, bk_info = None\<rparr> d)"
    by (rule names_save_book) (simp add: clash_def)
  then show ?thesis using None by (simp add: personal_or_new_def save_book_def)
qed (simp add: personal_or_new_def)

lemma names_rules:
  "names_unique d \<Longrightarrow> names_unique (save_rule r d)"
  "names_unique d \<Longrightarrow> names_unique (d\<lparr>ab_rules := rs\<rparr>)"
  by (simp_all add: names_unique_def save_rule_def)

lemma names_legacy:
  assumes "names_unique d" shows "names_unique (snd (updateLegacyAddressBook u body guid gs d))"
proof (cases body)
  case (Parsed b)
  have "names_unique (snd (in_transaction (replace_book h gs b) x))" if "names_unique x" for h x
    using core_names [OF abides_transaction [OF same_core_preorder(1) core_replace_book] that] .
  then show ?thesis using Parsed names_personal [OF assms, of u guid]
    by (auto simp: updateLegacyAddressBook_def sbind_def split: prod.splits sum.splits)
qed (simp_all add: updateLegacyAddressBook_def assms)

lemma names_rule_requests:
  assumes "names_unique d"
  shows "names_unique (snd (createRule isUUID dto u guid d))"
    and "names_unique (snd (updateRule rg lvl u d))"
    and "names_unique (snd (shareAddressBook h t r u guid d))"
    and "names_unique (snd (unshareAddressBook h t u d))"
    and "names_unique (snd (deleteRules isUUID guids u d))"
proof -
  show "names_unique (snd (createRule isUUID dto u guid d))" "names_unique (snd (updateRule rg lvl u d))"
    "names_unique (snd (shareAddressBook h t r u guid d))" "names_unique (snd (unshareAddressBook h t u d))"
    using assms by (auto simp: createRule_def updateRule_def shareAddressBook_def unshareAddressBook_def names_rules
        split: sum.splits prod.splits)
  let ?R = "\<lambda>d d'. names_unique d \<longrightarrow> names_unique d'"
  have R: "reflp ?R" "transp ?R" by (auto simp: reflp_def transp_def)
  have "abides ?R (delete_rule r)" for r by (simp add: abides_def delete_rule_def names_rules)
  then have "abides ?R (deleteRules isUUID guids u)"
    unfolding deleteRules_def deleteRules_tx_def
    by (intro abides_sbind [OF R(2)] abides_reading [OF R(1)] abides_transaction [OF R(1)] abides_for_each [OF R])
  then show "names_unique (snd (deleteRules isUUID guids u d))" using assms by (simp add: abides_def)
qed

text \<open>No owner ends up with two address books of the same name: every request keeps the names
  unique, provided that a change of owner carries the name.\<close>

theorem names_stay_unique:
  assumes "ab_ok d" and "names_unique d" and "carries_name req"
  shows "names_unique (snd (serve_ab isUUID u req gs d))"
proof (cases req)
  case OpenPersonal
  then show ?thesis using names_personal [OF assms(2)] by (simp add: getPersonalAddressBook_def)
next
  case ReadLegacy
  have "snd (getLegacyAddressBook u (gs 0) d) = snd (personal_or_new u (gs 0) d)"
    by (auto simp: getLegacyAddressBook_def sbind_def split: prod.splits sum.splits)
  then show ?thesis using ReadLegacy names_personal [OF assms(2)] by simp
next
  case (UpdateShared g c)
  then show ?thesis using assms names_updateShared [OF assms(2,1)] by (simp add: carries_name_def)
next
  case (DeleteCustom guids)
  then show ?thesis using names_delete_books [OF assms(2)] assms(2)
    by (auto simp: deleteCustomAddressBooks_def split: sum.splits)
next
  case (DeleteShared guids)
  then show ?thesis using names_delete_books [OF assms(2)] assms(2)
    by (auto simp: deleteSharedAddressBooks_def split: sum.splits)
qed (use assms in \<open>simp_all add: addCustomAddressBook_def addSharedAddressBook_def names_createProfile names_updateCustom
  ab_okE(1) names_legacy names_rule_requests core_names core_entries core_deletePeers core_updatePeer\<close>)

subsection \<open>Deleting tags\<close>

definition named_tag :: "string \<Rightarrow> string list \<Rightarrow> ab_tag \<Rightarrow> bool" where
  "named_tag g names t \<longleftrightarrow> tg_name t \<in> set names \<and> tg_book t = g"

text \<open>Deleting tags of a book deletes exactly the tags of the given names and their links to
  devices; the order of the two deletions keeps the foreign key of the links, so no request for
  which the caller may write fails half way.\<close>

theorem deleteTags_exact:
  assumes "ab_ok d" and "u \<noteq> []"
  shows "deleteTags checkAddressBookAccess g names (Some u) d =
     (if \<not> admits d g u READ_WRITE then (Inl (refusal d g u READ_WRITE), d)
      else if names = [] then (Inl (BadRequestException ''Please provide the tag names to delete''), d)
      else (Inr (), d\<lparr>ab_tags := filter (\<lambda>t. \<not> named_tag g names t) (ab_tags d),
             ab_links := filter (\<lambda>l. ln_tag l \<notin> tg_guid ` {t \<in> set (ab_tags d). named_tag g names t}) (ab_links d)\<rparr>))"
proof -
  let ?d1 = "unlink_tags g names d"
  have links: "ab_links ?d1 = filter (\<lambda>l. ln_tag l \<notin> tg_guid ` {t \<in> set (ab_tags d). named_tag g names t}) (ab_links d)"
    by (auto simp: unlink_tags_def delete_links_def Let_def named_tag_def filter_empty_conv intro!: filter_True [symmetric] filter_cong)
  have d1: "?d1 = d\<lparr>ab_links := ab_links ?d1\<rparr>"
    by (simp add: unlink_tags_def delete_links_def Let_def)
  have free: "\<not> list_ex (\<lambda>l. ln_tag l \<in> set (map tg_guid (filter (\<lambda>t. tg_name t \<in> set names \<and> tg_book t = g) (ab_tags ?d1)))) (ab_links ?d1)"
    unfolding links by (subst d1) (auto simp: list_ex_iff named_tag_def)
  have del: "delete_tags (\<lambda>t. tg_name t \<in> set names \<and> tg_book t = g) ?d1 =
      (Inr (), d\<lparr>ab_tags := filter (\<lambda>t. \<not> named_tag g names t) (ab_tags d), ab_links := ab_links ?d1\<rparr>)"
    using free by (subst (2) d1) (simp add: delete_tags_def Let_def named_tag_def unlink_tags_def delete_links_def)
  have perm: "permitted checkAddressBookAccess g (Some u) READ_WRITE d =
      (if admits d g u READ_WRITE then Inr () else Inl (refusal d g u READ_WRITE))"
    using assms(2) access_check_refuses(2) [of d g u READ_WRITE]
    by (cases "checkAddressBookAccess d g u READ_WRITE") (simp_all add: permitted_def nonempty_def admits_def)
  show ?thesis using del links by (simp add: deleteTags_def perm ensure_def)
qed

subsection \<open>Requests that do less, or more, than was asked\<close>

text \<open>C39. A transfer of ownership is not atomic: when it fails on the new name and the new owner had
  no rule of their own on the book, the rule it made for them stays, and that user has full control
  over the book of an owner who was told that nothing happened. A new owner who had a rule of their
  own keeps just that one: then nothing changes. The owner and name of the book stay either way.\<close>

theorem failed_transfer_grants:
  assumes "ab_ok d" and "guid \<notin> used_ids d"
    and "updateShared_reads g c u d = Inr b" and "pc_owner c = Some w" and "w \<noteq> bk_owner b"
    and "renamed (pc_name c) w b d = Inl e"
  shows "\<exists>d'. updateSharedAddressBook g c u guid d = (Inl e, d') \<and> book_of d' g = Some b \<and>
     (if direct_rule d g w = None
      then d' = save_rule \<lparr>ru_guid = guid, ru_book = g, ru_user = Some w, ru_group = None, ru_level = level FULL_CONTROL\<rparr> d \<and>
        admits d' g w FULL_CONTROL
      else d' = d)"
proof (cases "direct_rule d g w = None")
  case False
  have "bk_guid b = g" and sh: "findSharedAddressBook d g = Some b"
    using assms(3) by (auto simp: updateShared_reads_def result_simps dest: findShared_Some split: option.splits)
  then have bo: "book_of d g = Some b" using findShared_Some [OF sh] ab_okE(1) [OF assms(1)] by (simp add: book_of_iff)
  have "w \<noteq> []"
    using assms(3-5) ab_okE(4) [OF assms(1)]
    by (auto simp: updateShared_reads_def result_simps changing_owner_def user_of_def accounts_named_def dest!: find_SomeD split: option.splits)
  moreover have "grant_new_owner g c b guid d = d" using False assms(4) by (auto simp: grant_new_owner_def)
  ultimately show ?thesis using assms(3,4,6) bo False by (auto simp: updateSharedAddressBook_def nonempty_def)
next
  case none: True
  let ?r = "\<lparr>ru_guid = guid, ru_book = g, ru_user = Some w, ru_group = None, ru_level = 3\<rparr>"
  have ch: "changing_owner c b" using assms(4,5) by (simp add: changing_owner_def)
  have found: "findSharedAddressBook d g = Some b" and us: "user_of d w \<noteq> None"
    using assms(3,4) ch by (auto simp: updateShared_reads_def result_simps split: option.splits)
  then obtain uw where uw: "user_of d w = Some uw" by auto
  have w: "w \<noteq> []"
    using uw ab_okE(4) [OF assms(1)] by (auto simp: user_of_def accounts_named_def dest!: find_SomeD)
  have bo: "book_of d g = Some b"
    using findShared_Some [OF found] ab_okE(1) [OF assms(1)] by (simp add: book_of_iff)
  let ?d1 = "save_rule ?r d"
  have g1: "grant_new_owner g c b guid d = ?d1" using ch assms(4) none by (simp add: grant_new_owner_def)
  have sn: "same_named ?d1 = same_named d" by (intro ext) (simp add: same_named_def save_rule_def)
  have "renamed (pc_name c) w b ?d1 = Inl e" using assms(6) unfolding renamed_def sn .
  then have run: "updateSharedAddressBook g c u guid d = (Inl e, ?d1)"
    using assms(3,4) w by (simp add: updateSharedAddressBook_def g1 nonempty_def)
  have new: "rule_key ?r \<notin> rule_key ` set (ab_rules d)"
    using assms(2) by (auto simp: rule_key_def used_ids_def)
  have "reaches ?d1 w g 3"
    using bo uw user_of_guid [OF uw] by (simp add: reaches_save_new_rule [OF new] applicable_def)
  then show ?thesis using run bo none by (simp add: admits_iff save_rule_def book_of_def)
qed

text \<open>Without the name in the request, a transfer can give its new owner two books of one name.\<close>

definition crowded_books :: ab_db where
  "crowded_books = example_books\<lparr>ab_books := ab_books example_books @
     [\<lparr>bk_guid = ''ab3'', bk_owner = ''dan'', bk_personal = False, bk_shared = False,
       bk_name = Some ''Servers'', bk_note = None, bk_info = None\<rparr>]\<rparr>"

lemma transfer_skips_name_check:
  "names_unique crowded_books \<and>
   \<not> names_unique (snd (serve_ab (\<lambda>_. False) ''ann''
      (UpdateShared ''ab1'' \<lparr>pc_name = None, pc_note = None, pc_owner = Some ''dan'', pc_password = None\<rparr>)
      example_ids crowded_books))"
  by code_simp

text \<open>An empty password is meant to remove the stored one, and keeps it.\<close>

lemma empty_password_kept: "pc_password c = Some [] \<Longrightarrow> bk_info (new_profile c b n) = bk_info b"
  by (simp add: new_profile_def nonempty_def)

text \<open>A tag given twice in a query for devices with all of the tags matches no device.\<close>

lemma repeated_tag_matches_nothing:
  assumes "\<not> distinct names" shows "\<not> tags_match d g INTERSECTION (Some names) p"
proof -
  have "set (matching_tags d g names p) \<subseteq> set names" by (auto simp: matching_tags_def)
  then have "length (js_unique (matching_tags d g names p)) \<le> card (set names)"
    by (simp add: length_js_unique card_mono)
  also have "\<dots> < length names" using assms card_length [of names] card_distinct [of names] by linarith
  finally show ?thesis using assms by (auto simp: tags_match_def)
qed

end
