(* ===== verification/Address_Book_Examples.thy ===== *)
theory Address_Book_Examples
  imports Address_Book_Effects
begin

text \<open>
  Concrete requests on a small set of tables: two address books of one owner, rules for a writer,
  for everyone and for a user with full control. They show the theorems on the module at work.
\<close>

subsection \<open>Runs of requests\<close>

definition rename_call :: ab_call where
  "rename_call = (''bob'', UpdateShared ''ab1''
     \<lparr>pc_name = Some ''Lab'', pc_note = None, pc_owner = None, pc_password = None\<rparr>, example_ids)"

definition grab_call :: ab_call where
  "grab_call = (''dan'', AddRule \<lparr>cu_book = ''ab1'', cu_user = None, cu_group = None, cu_level = Some 3\<rparr>, example_ids)"

definition renamed_books :: ab_db where
  "renamed_books = example_books\<lparr>ab_books :=
     [(hd (ab_books example_books))\<lparr>bk_name := Some ''Lab''\<rparr>, ab_books example_books ! 1]\<rparr>"

lemma rename_run: "snd (serve_ab (\<lambda>_. False) ''bob'' (UpdateShared ''ab1''
     \<lparr>pc_name = Some ''Lab'', pc_note = None, pc_owner = None, pc_password = None\<rparr>) example_ids example_books) = renamed_books"
  by code_simp

lemma renamed_ids: "used_ids renamed_books = used_ids example_books"
  by (simp add: used_ids_def renamed_books_def example_books_def)

lemma calls_proper: "proper_run (\<lambda>_. False) [rename_call, grab_call] example_books"
  using example_fresh by (simp add: rename_call_def grab_call_def rename_run fresh_ids_def renamed_ids del: serve_ab.simps)

theorem access_needs_full_control_witness:
  "admits (serve_all (\<lambda>_. False) [rename_call, grab_call] example_books) ''ab1'' ''bob'' READ_WRITE \<and>
   \<not> admits (serve_all (\<lambda>_. False) [rename_call, grab_call] example_books) ''ab1'' ''dan'' READ_WRITE"
proof -
  have low: "\<not> admits example_books ''ab1'' ''bob'' FULL_CONTROL" "\<not> admits example_books ''ab1'' ''dan'' FULL_CONTROL"
    and start: "admits example_books ''ab1'' ''bob'' READ_WRITE" "\<not> admits example_books ''ab1'' ''dan'' READ_WRITE"
    and book: "book_of example_books ''ab1'' \<noteq> None"
    by code_simp+
  have "\<forall>u \<in> callers [rename_call, grab_call]. \<not> admits example_books ''ab1'' u FULL_CONTROL"
    using low by (simp add: callers_def rename_call_def grab_call_def)
  note access_needs_full_control [OF example_books_ok calls_proper book this]
  then show ?thesis using start by simp
qed

definition erase_call :: ab_call where
  "erase_call = (''dan'', DeleteTags ''ab1'' [''lab''], example_ids)"

definition own_call :: ab_call where
  "own_call = (''dan'', AddCustom ''Mine'' None None, example_ids)"

lemma erase_refused: "snd (serve_ab (\<lambda>_. False) ''dan'' (DeleteTags ''ab1'' [''lab'']) example_ids example_books) = example_books"
  by code_simp

lemma erase_proper: "proper_run (\<lambda>_. False) [erase_call, own_call] example_books"
  using example_fresh by (simp add: erase_call_def own_call_def erase_refused del: serve_ab.simps)

theorem contents_need_write_access_witness:
  "same_contents ''ab1'' example_books (serve_all (\<lambda>_. False) [erase_call, own_call] example_books)"
proof -
  have low: "\<not> admits example_books ''ab1'' ''dan'' READ_WRITE" and book: "book_of example_books ''ab1'' \<noteq> None"
    by code_simp+
  have "\<forall>u \<in> callers [erase_call, own_call]. \<not> admits example_books ''ab1'' u READ_WRITE"
    using low by (simp add: callers_def erase_call_def own_call_def)
  then show ?thesis by (rule contents_need_write_access [OF example_books_ok erase_proper book])
qed

subsection \<open>Rules\<close>

definition dan_rule :: create_rule where
  "dan_rule = \<lparr>cu_book = ''ab2'', cu_user = Some ''Dan'', cu_group = None, cu_level = Some 2\<rparr>"

theorem createRule_exact_witness:
  "reaches (snd (createRule (\<lambda>_. False) dan_rule ''ann'' ''r9'' example_books)) ''dan'' ''ab2'' 2 \<and>
   \<not> reaches (snd (createRule (\<lambda>_. False) dan_rule ''ann'' ''r9'' example_books)) ''cat'' ''ab2'' 1"
proof -
  let ?d' = "snd (createRule (\<lambda>_. False) dan_rule ''ann'' ''r9'' example_books)"
  have run: "createRule (\<lambda>_. False) dan_rule ''ann'' ''r9'' example_books = (Inr ''r9'', ?d')"
    by (rule prod_eqI, code_simp, simp)
  have new: "''r9'' \<notin> used_ids example_books" by (simp add: used_ids_def example_books_def)
  have dan: "meant (\<lambda>_. False) example_books dan_rule ''dan''" and cat: "\<not> meant (\<lambda>_. False) example_books dan_rule ''cat''"
    by (simp_all add: meant_def target_user_def target_group_def nonempty_def user_of_def dan_rule_def example_books_def)
  have "\<not> admits example_books ''ab2'' ''cat'' READ" by code_simp
  then have none: "\<not> reaches example_books ''cat'' ''ab2'' 1" by (simp add: admits_iff)
  from createRule_exact [OF example_books_ok new run]
  have "reaches ?d' v g n \<longleftrightarrow> reaches example_books v g n \<or>
      (g = cu_book dan_rule \<and> meant (\<lambda>_. False) example_books dan_rule v \<and> n \<le> requested_level dan_rule)" for v g n
    by simp
  then show ?thesis using dan cat none by (simp add: dan_rule_def requested_level_def)
qed

theorem deleteRules_all_or_nothing_witness:
  "\<not> isl (fst (deleteRules (\<lambda>_. True) [''r2'', ''r1''] ''cat'' example_books)) \<and>
   map ru_guid (ab_rules (snd (deleteRules (\<lambda>_. True) [''r2'', ''r1''] ''cat'' example_books))) = [''r3''] \<and>
   snd (deleteRules (\<lambda>_. True) [''r2''] ''bob'' example_books) = example_books"
proof -
  have "may_delete (\<lambda>_. True) [''r2'', ''r1''] ''cat'' example_books" by code_simp
  moreover have "\<not> may_delete (\<lambda>_. True) [''r2''] ''bob'' example_books" by code_simp
  ultimately show ?thesis
    using deleteRules_all_or_nothing [OF example_books_ok, of "\<lambda>_. True" "[''r2'', ''r1'']" "''cat''"]
      deleteRules_all_or_nothing [OF example_books_ok, of "\<lambda>_. True" "[''r2'']" "''bob''"]
    by (simp add: example_books_def)
qed

subsection \<open>Names, tags and transfers\<close>

theorem names_stay_unique_witness:
  "names_unique (snd (serve_ab (\<lambda>_. False) ''ann'' (AddCustom '' Laptops '' None None) example_ids example_books))"
proof -
  have "names_unique example_books" by code_simp
  then show ?thesis by (rule names_stay_unique [OF example_books_ok]) (simp add: carries_name_def)
qed

theorem deleteTags_exact_witness:
  "ab_tags (snd (deleteTags checkAddressBookAccess ''ab1'' [''lab''] (Some ''bob'') example_books)) = [] \<and>
   ab_links (snd (deleteTags checkAddressBookAccess ''ab1'' [''lab''] (Some ''bob'') example_books)) = []"
proof -
  have "admits example_books ''ab1'' ''bob'' READ_WRITE" by code_simp
  then have "snd (deleteTags checkAddressBookAccess ''ab1'' [''lab''] (Some ''bob'') example_books) =
      example_books\<lparr>ab_tags := filter (\<lambda>t. \<not> named_tag ''ab1'' [''lab''] t) (ab_tags example_books),
        ab_links := filter (\<lambda>l. ln_tag l \<notin> tg_guid ` {t \<in> set (ab_tags example_books). named_tag ''ab1'' [''lab''] t})
          (ab_links example_books)\<rparr>"
    by (simp add: deleteTags_exact [OF example_books_ok])
  note left = this
  show ?thesis unfolding left by (auto simp: named_tag_def example_books_def image_iff)
qed

definition blank_transfer :: profile_change where
  "blank_transfer = \<lparr>pc_name = Some '' '', pc_note = None, pc_owner = Some ''dan'', pc_password = None\<rparr>"

theorem failed_transfer_grants_witness:
  "\<not> admits example_books ''ab1'' ''dan'' READ_WRITE \<and>
   (\<exists>d'. updateSharedAddressBook ''ab1'' blank_transfer (Some ''ann'') ''r9'' example_books =
      (Inl (BadRequestException ''Address book name cannot be empty''), d') \<and>
    book_of d' ''ab1'' = Some (hd (ab_books example_books)) \<and> admits d' ''ab1'' ''dan'' FULL_CONTROL)"
proof (intro conjI)
  show "\<not> admits example_books ''ab1'' ''dan'' READ_WRITE" by code_simp
  have 1: "''r9'' \<notin> used_ids example_books" by (simp add: used_ids_def example_books_def)
  have 2: "updateShared_reads ''ab1'' blank_transfer (Some ''ann'') example_books = Inr (hd (ab_books example_books))"
    and 3: "''dan'' \<noteq> bk_owner (hd (ab_books example_books))"
    and 4: "direct_rule example_books ''ab1'' ''dan'' = None"
    and 5: "renamed (pc_name blank_transfer) ''dan'' (hd (ab_books example_books)) example_books =
      Inl (BadRequestException ''Address book name cannot be empty'')"
    by code_simp+
  have 6: "pc_owner blank_transfer = Some ''dan''" by (simp add: blank_transfer_def)
  show "\<exists>d'. updateSharedAddressBook ''ab1'' blank_transfer (Some ''ann'') ''r9'' example_books =
      (Inl (BadRequestException ''Address book name cannot be empty''), d') \<and>
    book_of d' ''ab1'' = Some (hd (ab_books example_books)) \<and> admits d' ''ab1'' ''dan'' FULL_CONTROL"
    using failed_transfer_grants [OF example_books_ok 1 2 6 3 5] 4 by auto
qed

end
