(* ===== verification/Address_Book_Roundtrip.thy ===== *)
theory Address_Book_Roundtrip
  imports Address_Book_Effects "HOL-Library.Multiset"
begin

text \<open>
  Writing and reading back: a device added to a book is listed with the fields and tags it was given,
  beside the devices that were there.
\<close>

subsection \<open>Rows saved one after the other\<close>

lemma js_unique_snoc: "js_unique (xs @ [x]) = (if x \<in> set xs then js_unique xs else js_unique xs @ [x])"
  by (simp add: js_unique_def)

lemma save_row_id: "save_row id x xs = (if x \<in> set xs then xs else xs @ [x])"
  by (auto simp: save_row_def list_ex_iff intro: map_idI)

lemma js_unique_map_inj: "inj_on f (set xs) \<Longrightarrow> js_unique (map f xs) = map f (js_unique xs)"
proof (induction xs rule: rev_induct)
  case Nil
  then show ?case by simp
next
  case (snoc x xs)
  have "f x \<in> f ` set xs \<longleftrightarrow> x \<in> set xs" using snoc.prems by (auto simp: inj_on_def)
  then show ?case using snoc by (simp add: js_unique_snoc inj_on_def)
qed

subsection \<open>Tagging a device\<close>

definition guid_named :: "ab_db \<Rightarrow> string \<Rightarrow> string \<Rightarrow> string" where
  "guid_named d g n = (case tag_named d g n of None \<Rightarrow> [] | Some t \<Rightarrow> tg_guid t)"

text \<open>What tagging the device \<open>pg\<close> of book \<open>g\<close> may do to the tables.\<close>

definition extends :: "string \<Rightarrow> string \<Rightarrow> ab_db \<Rightarrow> ab_db \<Rightarrow> bool" where
  "extends g pg d d' \<longleftrightarrow> d' = d\<lparr>ab_tags := ab_tags d', ab_links := ab_links d'\<rparr> \<and>
     (\<exists>new. ab_tags d' = ab_tags d @ new) \<and>
     filter (\<lambda>l. ln_peer l \<noteq> pg) (ab_links d') = filter (\<lambda>l. ln_peer l \<noteq> pg) (ab_links d)"

lemma extends_refl [simp]: "extends g pg d d"
  by (simp add: extends_def)

lemma extends_tables:
  assumes "extends g pg d d'"
  shows "ab_peers d' = ab_peers d" "ab_devices d' = ab_devices d" "ab_sysinfos d' = ab_sysinfos d"
    "ab_users d' = ab_users d" "ab_books d' = ab_books d" "ab_rules d' = ab_rules d"
  using assms by (cases d, cases d', simp add: extends_def)+

lemma extends_trans: "extends g pg d d' \<Longrightarrow> extends g pg d' d'' \<Longrightarrow> extends g pg d d''"
  by (cases d, cases d', cases d'') (auto simp: extends_def)

lemma find_append: "find P (xs @ ys) = (case find P xs of None \<Rightarrow> find P ys | Some x \<Rightarrow> Some x)"
  by (induction xs) auto

lemma tag_named_append:
  "tag_named d g n = Some t \<Longrightarrow> ab_tags d' = ab_tags d @ new \<Longrightarrow> tag_named d' g n = Some t"
  by (simp add: tag_named_def find_append)

definition tagged :: "string \<Rightarrow> string \<Rightarrow> string list \<Rightarrow> ab_db \<Rightarrow> bool" where
  "tagged g pg names d \<longleftrightarrow> distinct (map tg_guid (ab_tags d)) \<and>
     filter (\<lambda>l. ln_peer l = pg) (ab_links d) = map (\<lambda>n. \<lparr>ln_peer = pg, ln_tag = guid_named d g n\<rparr>) (js_unique names) \<and>
     (\<forall>n \<in> set names. tag_named d g n \<noteq> None)"

lemma guid_named_inj:
  assumes "distinct (map tg_guid (ab_tags d))" "tag_named d g n = Some t" "tag_named d g m = Some t'"
  shows "guid_named d g n = guid_named d g m \<longleftrightarrow> n = m"
proof
  note t = tag_named_Some [OF assms(2)] tag_named_Some [OF assms(3)]
  assume "guid_named d g n = guid_named d g m"
  then have "tg_guid t = tg_guid t'" by (simp add: guid_named_def assms(2,3))
  moreover have "inj_on tg_guid (set (ab_tags d))" using assms(1) by (simp add: distinct_map)
  ultimately have "t = t'" using t by (auto dest: inj_onD)
  then show "n = m" using t by simp
qed simp

lemma tag_peer_step:
  assumes "tagged g pg names d" "guid \<notin> tg_guid ` set (ab_tags d)"
  shows "\<exists>d'. tag_peer g pg (guid, n) d = (Inr (), d') \<and> extends g pg d d' \<and> tagged g pg (names @ [n]) d' \<and>
     tg_guid ` set (ab_tags d') \<subseteq> insert guid (tg_guid ` set (ab_tags d))"
proof -
  let ?t = "\<lparr>tg_guid = guid, tg_book = g, tg_name = n, tg_color = 0\<rparr>"
  define d1 where "d1 = (if tag_named d g n = None then add_tag_row ?t d else d)"
  have e1: "add_tag_row ?t d = d\<lparr>ab_tags := ab_tags d @ [?t]\<rparr>"
    using assms(2) by (simp add: add_tag_row_def save_row_new)
  define new where "new = (if tag_named d g n = None then [?t] else [])"
  have d1: "d1 = d\<lparr>ab_tags := ab_tags d @ new\<rparr>" by (simp add: d1_def e1 new_def)
  have new: "ab_tags d1 = ab_tags d @ new" and links: "ab_links d1 = ab_links d"
    and rest: "d1 = d\<lparr>ab_tags := ab_tags d1\<rparr>" by (simp_all add: d1)
  have ids: "tg_guid ` set (ab_tags d1) \<subseteq> insert guid (tg_guid ` set (ab_tags d))"
    by (auto simp: new new_def)
  have dist: "distinct (map tg_guid (ab_tags d1))"
    using assms by (cases "tag_named d g n") (simp_all add: new new_def tagged_def)
  obtain t where t: "tag_named d1 g n = Some t"
  proof (cases "tag_named d g n")
    case None
    have "tag_named (add_tag_row ?t d) g n \<noteq> None"
      by (simp add: e1 tag_named_def find_None_iff_all)
    then show ?thesis using that None by (auto simp: d1_def)
  qed (auto simp: d1_def intro: that)
  have get: "getOrCreateTag g n guid d = (Inr (guid_named d1 g n), d1)"
  proof (cases "tag_named d g n")
    case None
    have "find (\<lambda>t. tg_name t = n \<and> tg_book t = g) (ab_tags d @ [?t]) = Some ?t"
      using None by (simp add: tag_named_def find_append)
    then show ?thesis using None
      by (simp add: getOrCreateTag_def d1_def guid_named_def tag_named_def e1)
  qed (simp add: getOrCreateTag_def d1_def guid_named_def)
  let ?l = "\<lparr>ln_peer = pg, ln_tag = guid_named d1 g n\<rparr>"
  let ?d2 = "add_link ?l d1"
  have run: "tag_peer g pg (guid, n) d = (Inr (), ?d2)"
    by (simp add: tag_peer_def sbind_def get)
  have same: "guid_named d1 g m = guid_named d g m" "tag_named d1 g m \<noteq> None" if m: "m \<in> set names" for m
  proof -
    obtain tm where "tag_named d g m = Some tm" using assms(1) m by (auto simp: tagged_def)
    then show "guid_named d1 g m = guid_named d g m" "tag_named d1 g m \<noteq> None"
      using tag_named_append [OF _ new] by (simp_all add: guid_named_def)
  qed
  have own: "filter (\<lambda>l. ln_peer l = pg) (ab_links d1) = map (\<lambda>n. \<lparr>ln_peer = pg, ln_tag = guid_named d1 g n\<rparr>) (js_unique names)"
    using assms(1) same by (simp add: links tagged_def)
  have mem: "?l \<in> set (ab_links d1) \<longleftrightarrow> n \<in> set names"
  proof -
    have "?l \<in> set (ab_links d1) \<longleftrightarrow> ?l \<in> set (filter (\<lambda>l. ln_peer l = pg) (ab_links d1))" by simp
    also have "\<dots> \<longleftrightarrow> (\<exists>m \<in> set names. guid_named d1 g n = guid_named d1 g m)" unfolding own by auto
    also have "\<dots> \<longleftrightarrow> n \<in> set names"
    proof
      assume "\<exists>m \<in> set names. guid_named d1 g n = guid_named d1 g m"
      then obtain m where m: "m \<in> set names" "guid_named d1 g n = guid_named d1 g m" by blast
      then obtain s where s: "tag_named d1 g m = Some s" using same(2) by blast
      show "n \<in> set names" using guid_named_inj [OF dist t s] m by blast
    qed blast
    finally show ?thesis .
  qed
  have l2: "ab_links ?d2 = (if n \<in> set names then ab_links d1 else ab_links d1 @ [?l])"
    by (simp add: add_link_def save_row_id mem)
  have names2: "guid_named ?d2 = guid_named d1" "tag_named ?d2 = tag_named d1" "ab_tags ?d2 = ab_tags d1"
    by (simp_all add: add_link_def guid_named_def tag_named_def fun_eq_iff)
  have "filter (\<lambda>l. ln_peer l = pg) (ab_links ?d2) =
      map (\<lambda>n. \<lparr>ln_peer = pg, ln_tag = guid_named d1 g n\<rparr>) (js_unique (names @ [n]))"
    using own by (simp add: l2 js_unique_snoc)
  then have "tagged g pg (names @ [n]) ?d2"
    using dist same(2) t by (auto simp: tagged_def names2)
  moreover have "extends g pg d ?d2"
  proof -
    have "?d2 = d\<lparr>ab_tags := ab_tags ?d2, ab_links := ab_links ?d2\<rparr>"
      by (simp add: d1 add_link_def)
    then show ?thesis using new links unfolding extends_def names2 by (simp add: l2)
  qed
  ultimately show ?thesis using run ids by (auto simp: names2)
qed

lemma tag_peer_loop:
  assumes "tagged g pg done d" "distinct (map fst xs)" "fst ` set xs \<inter> tg_guid ` set (ab_tags d) = {}"
  shows "\<exists>d'. for_each (tag_peer g pg) xs d = (Inr (), d') \<and> extends g pg d d' \<and> tagged g pg (done @ map snd xs) d'"
  using assms
proof (induction xs arbitrary: "done" d)
  case Nil
  then show ?case by simp
next
  case (Cons x xs)
  obtain guid n where x: "x = (guid, n)" by (cases x)
  obtain d1 where d1: "tag_peer g pg x d = (Inr (), d1)" "extends g pg d d1" "tagged g pg (done @ [n]) d1"
    "tg_guid ` set (ab_tags d1) \<subseteq> insert guid (tg_guid ` set (ab_tags d))"
    using tag_peer_step [OF Cons.prems(1), of guid n] Cons.prems(3) x by auto
  have "fst ` set xs \<inter> tg_guid ` set (ab_tags d1) = {}"
  proof -
    have "guid \<notin> fst ` set xs" using Cons.prems(2) x by simp
    moreover have "fst ` set xs \<inter> tg_guid ` set (ab_tags d) = {}" using Cons.prems(3) by auto
    ultimately show ?thesis using d1(4) by blast
  qed
  then obtain d2 where "for_each (tag_peer g pg) xs d1 = (Inr (), d2)" "extends g pg d1 d2"
    "tagged g pg ((done @ [n]) @ map snd xs) d2"
    using Cons.IH [OF d1(3)] Cons.prems(2) by auto
  then show ?case using d1 x extends_trans [OF d1(2)] by (auto simp: sbind_def)
qed

lemma link_name_named:
  assumes "distinct (map tg_guid (ab_tags d))" "tag_named d g n = Some t" "ln_tag l = tg_guid t"
  shows "link_name d l = n"
proof -
  have t: "t \<in> set (ab_tags d)" "tg_name t = n" using tag_named_Some [OF assms(2)] by simp_all
  have "find (\<lambda>x. tg_guid x = ln_tag l) (ab_tags d) = Some t"
    using t(1) assms(1,3) by (intro find_unique) (auto simp: distinct_map inj_on_def)
  then show ?thesis by (simp add: link_name_def t(2))
qed

lemma tagged_peer_tags:
  assumes "tagged g pg names d" shows "peer_tags d pg = js_unique names"
proof -
  have "link_name d \<lparr>ln_peer = pg, ln_tag = guid_named d g n\<rparr> = n" if n: "n \<in> set names" for n
  proof -
    obtain t where t: "tag_named d g n = Some t" using assms n by (auto simp: tagged_def)
    show ?thesis
      by (rule link_name_named [OF _ t]) (use assms in \<open>simp_all add: tagged_def guid_named_def t\<close>)
  qed
  then have "map (\<lambda>n. link_name d \<lparr>ln_peer = pg, ln_tag = guid_named d g n\<rparr>) (js_unique names) = js_unique names"
    by (intro map_idI) simp
  then show ?thesis using assms by (simp add: peer_tags_def tagged_def comp_def)
qed

lemma extends_peer_tags:
  assumes "extends g pg d d'" "links_local d" "p \<noteq> pg"
  shows "peer_tags d' p = peer_tags d p"
proof -
  obtain new where new: "ab_tags d' = ab_tags d @ new" using assms(1) by (auto simp: extends_def)
  have "filter (\<lambda>l. ln_peer l = p) (ab_links d') = filter (\<lambda>l. ln_peer l = p) (filter (\<lambda>l. ln_peer l \<noteq> pg) (ab_links d'))"
    using assms(3) by (auto intro: filter_cong)
  also have "\<dots> = filter (\<lambda>l. ln_peer l = p) (ab_links d)"
    using assms(1,3) by (auto simp: extends_def intro: filter_cong)
  finally have f: "filter (\<lambda>l. ln_peer l = p) (ab_links d') = filter (\<lambda>l. ln_peer l = p) (ab_links d)" .
  have "link_name d' l = link_name d l" if l: "l \<in> set (ab_links d)" for l
  proof -
    obtain t where "t \<in> set (ab_tags d)" "tg_guid t = ln_tag l" using assms(2) l by (auto simp: links_local_def)
    then obtain s where "find (\<lambda>t. tg_guid t = ln_tag l) (ab_tags d) = Some s"
      using find_Some_ex [of t "ab_tags d"] by metis
    then show ?thesis by (simp add: link_name_def new find_append)
  qed
  then show ?thesis unfolding peer_tags_def f by simp
qed

subsection \<open>Adding a device\<close>

text \<open>What a listed row says, whatever the order of its tags.\<close>

definition row_content :: "peer_row \<Rightarrow> peer_row \<times> string multiset" where
  "row_content r = (r\<lparr>pw_tags := []\<rparr>, mset (pw_tags r))"

lemma row_content_order: "mset (tord (peer_tags d (pr_guid p))) = mset (peer_tags d (pr_guid p)) \<Longrightarrow>
   row_content (to_peer_row tord d p) = row_content (to_peer_row id d p)"
  by (simp add: row_content_def to_peer_row_def Let_def)

definition unfiltered :: "string \<Rightarrow> nat \<Rightarrow> peers_query" where
  "unfiltered g n = \<lparr>pq_page = \<lparr>pg_current = 1, pg_size = n\<rparr>, pq_book = g, pq_id = None, pq_alias = None,
     pq_tags = None, pq_mode = UNION\<rparr>"

lemma getPeers_unfiltered:
  assumes "permitted gate g u READ d = Inr ()" "book_of d g \<noteq> None"
  shows "getPeers like ord tord gate (unfiltered g n) u d = (let ps = filter (\<lambda>p. pr_book p = g) (ab_peers d)
     in Inr (length ps, map (to_peer_row tord d) (take n (ord ps))))"
proof -
  have "peer_matches like d (unfiltered g n) = (\<lambda>p. pr_book p = g)"
    by (simp add: fun_eq_iff peer_matches_def unfiltered_def nonempty_def tags_match_def)
  then show ?thesis using assms
    by (simp add: getPeers_def existing_book_def unfiltered_def page_rows_def Let_def)
qed

text \<open>The row a device is listed with when it was added as \<open>dto\<close>: what the tables say of the device itself, and what was given.\<close>

definition added_row :: "ab_db \<Rightarrow> string \<Rightarrow> peer_dto \<Rightarrow> peer_row" where
  "added_row d dev dto = (let s = sysinfo_of d dev in
     \<lparr>pw_id = pd_id dto, pw_hash = pd_hash dto, pw_password = pd_password dto,
      pw_username = sys_text si_user s, pw_hostname = sys_text si_host s,
      pw_platform = mapOsToPlatform (Option.bind s si_os), pw_alias = pd_alias dto,
      pw_tags = js_unique (case pd_tags dto of None \<Rightarrow> [] | Some ts \<Rightarrow> ts), pw_note = pd_note dto\<rparr>)"

text \<open>The device record an identifier stands for after the request, with the table that holds it.\<close>

definition device_for :: "string \<Rightarrow> string \<Rightarrow> ab_db \<Rightarrow> string \<times> ab_device list" where
  "device_for i guid d = (case find (\<lambda>v. dv_id v = i) (ab_devices d) of
     Some v \<Rightarrow> (dv_uuid v, ab_devices d)
   | None \<Rightarrow> (guid, ab_devices d @ [\<lparr>dv_uuid = guid, dv_id = i, dv_heartbeat = None\<rparr>]))"

lemma findOrCreatePeer_Inr:
  "findOrCreatePeer i guid d = (Inr dev, d') \<Longrightarrow> guid \<notin> dv_uuid ` set (ab_devices d) \<Longrightarrow>
     d' = d\<lparr>ab_devices := snd (device_for i guid d)\<rparr> \<and> dev = fst (device_for i guid d)"
  by (auto simp: findOrCreatePeer_def device_for_def save_row_new split: option.splits if_splits)

lemma device_for_id:
  assumes "distinct (map dv_uuid (ab_devices d))" "guid \<notin> dv_uuid ` set (ab_devices d)"
  shows "find (\<lambda>v. dv_uuid v = fst (device_for i guid d)) (snd (device_for i guid d)) \<noteq> None" "device_id (d\<lparr>ab_devices := snd (device_for i guid d)\<rparr>) (fst (device_for i guid d)) = i"
proof -
  have "\<exists>v. find (\<lambda>v. dv_uuid v = fst (device_for i guid d)) (snd (device_for i guid d)) = Some v \<and> dv_id v = i"
  proof (cases "find (\<lambda>v. dv_id v = i) (ab_devices d)")
    case None
    have "find (\<lambda>v. dv_uuid v = guid) (ab_devices d) = None" using assms(2) by (auto simp: find_None_iff_all)
    then show ?thesis using None by (simp add: device_for_def find_append)
  next
    case (Some v)
    then have v: "v \<in> set (ab_devices d)" "dv_id v = i" by (auto dest: find_SomeD)
    then have "find (\<lambda>x. dv_uuid x = dv_uuid v) (ab_devices d) = Some v"
      using assms(1) by (intro find_unique) (auto simp: distinct_map inj_on_def)
    then show ?thesis using Some v by (simp add: device_for_def)
  qed
  then show "find (\<lambda>v. dv_uuid v = fst (device_for i guid d)) (snd (device_for i guid d)) \<noteq> None"
    "device_id (d\<lparr>ab_devices := snd (device_for i guid d)\<rparr>) (fst (device_for i guid d)) = i"
    by (auto simp: device_id_def)
qed

text \<open>The tables when the entry is saved and its tags are not.\<close>

definition entered :: "string \<Rightarrow> peer_dto \<Rightarrow> (nat \<Rightarrow> string) \<Rightarrow> ab_db \<Rightarrow> ab_db" where
  "entered g dto gs d = (let dev = device_for (pd_id dto) (gs 1) d
     in d\<lparr>ab_devices := snd dev, ab_peers := ab_peers d @ [new_peer (gs 0) g (fst dev) dto]\<rparr>)"

lemma fresh_id: "fresh_ids gs d \<Longrightarrow> gs i \<notin> used_ids d"
  by (auto simp: fresh_ids_def)

lemma addPeer_entered:
  assumes "fresh_ids gs d" "addPeer gate g dto u gs d = (Inr (), d')"
  shows "permitted gate g u READ_WRITE d = Inr ()" "book_of d g \<noteq> None"
    and "tag_peers g (gs 0) gs (case pd_tags dto of None \<Rightarrow> [] | Some ts \<Rightarrow> ts) (entered g dto gs d) = (Inr (), d')"
proof -
  have free: "gs 1 \<notin> dv_uuid ` set (ab_devices d)" "gs 0 \<notin> pr_guid ` set (ab_peers d)"
    using fresh_id [OF assms(1), of 1] fresh_id [OF assms(1), of 0] by (auto simp: used_ids_def)
  show p: "permitted gate g u READ_WRITE d = Inr ()" and b: "book_of d g \<noteq> None"
    using assms(2)
    by (cases "permitted gate g u READ_WRITE d"; auto simp: addPeer_def existing_book_def rbind_def ensure_def split: sum.splits if_splits)+
  obtain dev d1 where dev: "findOrCreatePeer (pd_id dto) (gs 1) d = (Inr dev, d1)"
    using assms(2) p b by (auto simp: addPeer_def existing_book_def sbind_def split: prod.splits sum.splits)
  note made = findOrCreatePeer_Inr [OF dev free(1)]
  have "save_peer (new_peer (gs 0) g dev dto) d1 = entered g dto gs d"
    using made free(2) by (simp add: save_peer_def entered_def Let_def save_row_new new_peer_def)
  then show "tag_peers g (gs 0) gs (case pd_tags dto of None \<Rightarrow> [] | Some ts \<Rightarrow> ts) (entered g dto gs d) = (Inr (), d')"
    using assms(2) p b dev
    by (auto simp: addPeer_def existing_book_def sbind_def [of "findOrCreatePeer _ _"] split: sum.splits)
qed

definition numbered :: "(nat \<Rightarrow> string) \<Rightarrow> string list \<Rightarrow> (string \<times> string) list" where
  "numbered gs ns = zip (map gs [2..<2 + length ns]) ns"

lemma numbered_names:
  assumes "inj gs"
  shows "distinct (map fst (numbered gs ns))" "map snd (numbered gs ns) = ns"
    "fst ` set (numbered gs ns) \<subseteq> range gs"
proof -
  have l: "length (map gs [2..<2 + length ns]) = length ns" unfolding length_map length_upt by simp
  show "distinct (map fst (numbered gs ns))"
    unfolding numbered_def map_fst_zip [OF l] using assms by (simp add: distinct_map inj_on_def inj_def del: upt_Suc)
  show "map snd (numbered gs ns) = ns" unfolding numbered_def by (rule map_snd_zip [OF l])
  show "fst ` set (numbered gs ns) \<subseteq> range gs"
  proof
    fix a assume "a \<in> fst ` set (numbered gs ns)"
    then obtain b where "(a, b) \<in> set (zip (map gs [2..<2 + length ns]) ns)" by (auto simp: numbered_def simp del: upt_Suc)
    then have "a \<in> set (map gs [2..<2 + length ns])" by (rule set_zip_leftD)
    then show "a \<in> range gs" by (auto simp del: upt_Suc)
  qed
qed

lemma tag_peers_numbered: "tag_peers g pg gs ns = for_each (tag_peer g pg) (numbered gs ns)"
  by (simp add: tag_peers_def numbered_def)

lemma permitted_later:
  assumes "permitted checkAddressBookAccess g u READ_WRITE d = Inr ()" "same_grants g d d'"
  shows "permitted checkAddressBookAccess g u READ d' = Inr ()"
proof (cases "nonempty u")
  case (Some v)
  have "reaches d v g 2" using assms(1) Some
    by (auto simp: permitted_def rbind_Inr_iff dest: access_InrD)
  then have "reaches d' v g 1"
    using same_grants_reaches [OF assms(2)] reaches_mono [of d v g 2 1] by simp
  moreover then have "book_of d' g \<noteq> None" by (auto simp: reaches_def)
  ultimately obtain b where "checkAddressBookAccess d' g v READ = Inr b"
    using access_Inr_iff [of d' g v READ] by auto
  then show ?thesis using Some by (simp add: permitted_def)
qed (simp add: permitted_def)

text \<open>
  C37. A device that was added to a book is listed in it afterwards, to the one who added it, with the
  identifier, fields and (each once) tags that were given, whether the device and the tags were known
  before or were created by the request, and the rows of the other devices of the book are what they
  were: on a page that takes them all, the rows are those from before and the new one, once each. The
  order of the rows and of the tags in a row is the database's: any order gives the theorem.
\<close>
theorem addPeer_then_listed:
  assumes "ab_ok d" "distinct (map dv_uuid (ab_devices d))" "fresh_ids gs d"
    "addPeer checkAddressBookAccess g dto (Some u) gs d = (Inr (), d')"
    "rows = map (to_peer_row id d) (filter (\<lambda>p. pr_book p = g) (ab_peers d))"
    "\<And>ps. mset (ord ps) = mset ps" "\<And>ts. mset (tord ts) = mset ts"
  shows "\<exists>listed. getPeers like ord tord checkAddressBookAccess (unfiltered g (Suc (length rows))) (Some u) d' =
       Inr (Suc (length rows), listed) \<and>
     image_mset row_content (mset listed) =
       add_mset (row_content (added_row d (fst (device_for (pd_id dto) (gs 1) d)) dto)) (image_mset row_content (mset rows))"
proof -
  let ?names = "case pd_tags dto of None \<Rightarrow> [] | Some ts \<Rightarrow> ts" and ?e = "entered g dto gs d"
  let ?dev = "fst (device_for (pd_id dto) (gs 1) d)"
  note run = addPeer_entered [OF assms(3,4)]
  have local: "links_local d" and schema: "ab_schema d" using assms(1) by (simp_all add: ab_ok_def)
  have id0: "gs 0 \<notin> pr_guid ` set (ab_peers d)" and id1: "gs 1 \<notin> dv_uuid ` set (ab_devices d)" "gs 1 \<notin> pr_device ` set (ab_peers d)"
    using fresh_id [OF assms(3), of 0] fresh_id [OF assms(3), of 1] by (auto simp: used_ids_def)
  have unlinked: "filter (\<lambda>l. ln_peer l = gs 0) (ab_links d) = []"
  proof -
    have "ln_peer l \<in> pr_guid ` set (ab_peers d)" if "l \<in> set (ab_links d)" for l
      using local that by (force simp: links_local_def)
    then show ?thesis using id0 by (metis (mono_tags, lifting) filter_False)
  qed
  have start: "tagged g (gs 0) [] ?e"
    using schema unlinked by (simp add: tagged_def entered_def Let_def ab_schema_def)
  have ids: "inj gs" "range gs \<inter> tg_guid ` set (ab_tags d) = {}"
    using assms(3) by (auto simp: fresh_ids_def used_ids_def)
  have tags_e: "ab_tags ?e = ab_tags d" by (simp add: entered_def Let_def)
  note zs = numbered_names [of gs ?names, OF ids(1)]
  have "fst ` set (numbered gs ?names) \<inter> tg_guid ` set (ab_tags ?e) = {}"
    using ids(2) zs(3) unfolding tags_e by blast
  from tag_peer_loop [OF start zs(1) this]
  have ext: "extends g (gs 0) ?e d'" and tagged: "tagged g (gs 0) ?names d'"
    using run(3) zs(2) by (auto simp: tag_peers_numbered)
  have kept: "ab_peers d' = ab_peers ?e" "ab_devices d' = ab_devices ?e" "ab_sysinfos d' = ab_sysinfos ?e"
      "ab_users d' = ab_users ?e" "ab_books d' = ab_books ?e" "ab_rules d' = ab_rules ?e"
    by (rule extends_tables [OF ext])+
  have old: "to_peer_row id d' p = to_peer_row id d p" if p: "p \<in> set (ab_peers d)" for p
  proof -
    have other: "pr_guid p \<noteq> gs 0" "pr_device p \<noteq> gs 1"
    proof -
      show "pr_guid p \<noteq> gs 0" using imageI [OF p, of pr_guid] id0 by metis
      show "pr_device p \<noteq> gs 1" using imageI [OF p, of pr_device] id1(2) by metis
    qed
    have "links_local ?e" using local unfolding links_local_def by (simp add: entered_def Let_def)
    then have "peer_tags d' (pr_guid p) = peer_tags d (pr_guid p)"
      using extends_peer_tags [OF ext _ other(1)] by (simp add: peer_tags_def link_name_def entered_def Let_def)
    moreover have "device_id d' (pr_device p) = device_id d (pr_device p)"
      using other(2)
      by (simp add: device_id_def kept entered_def Let_def device_for_def find_append split: option.splits)
    ultimately show ?thesis by (simp add: to_peer_row_def sysinfo_of_def kept entered_def Let_def)
  qed
  have new: "to_peer_row id d' (new_peer (gs 0) g ?dev dto) = added_row d ?dev dto"
  proof -
    have "device_id d' ?dev = pd_id dto"
      using device_for_id(2) [OF assms(2) id1(1)] by (simp add: device_id_def kept entered_def Let_def)
    then show ?thesis using tagged_peer_tags [OF tagged]
      by (simp add: to_peer_row_def added_row_def new_peer_def sysinfo_of_def kept entered_def Let_def)
  qed
  have "same_grants g d d'" by (rule same_grants_cong) (simp_all add: kept entered_def Let_def)
  then have "permitted checkAddressBookAccess g (Some u) READ d' = Inr ()"
    by (rule permitted_later [OF run(1)])
  moreover have "book_of d' g \<noteq> None" using run(2) kept by (simp add: book_of_def entered_def Let_def)
  moreover have ps: "filter (\<lambda>p. pr_book p = g) (ab_peers d') =
      filter (\<lambda>p. pr_book p = g) (ab_peers d) @ [new_peer (gs 0) g ?dev dto]" (is "?ps = ?old @ [?new]")
    by (simp add: kept entered_def Let_def new_peer_def)
  moreover have len: "length (ord ?ps) = Suc (length rows)"
    using assms(6) [of ?ps] ps assms(5) by (metis length_append_singleton length_map mset_eq_length)
  ultimately have "getPeers like ord tord checkAddressBookAccess (unfiltered g (Suc (length rows))) (Some u) d' =
      Inr (Suc (length rows), map (to_peer_row tord d') (ord ?ps))"
    by (simp add: getPeers_unfiltered Let_def assms(5))
  moreover have "image_mset row_content (mset (map (to_peer_row tord d') (ord ?ps))) =
      image_mset (\<lambda>p. row_content (to_peer_row id d' p)) (mset (ord ?ps))"
    unfolding mset_map multiset.map_comp o_def by (rule image_mset_cong) (intro row_content_order assms(7))
  moreover have "mset (ord ?ps) = add_mset ?new (mset ?old)" unfolding assms(6) ps by simp
  moreover have "image_mset (\<lambda>p. row_content (to_peer_row id d' p)) (mset ?old) = image_mset row_content (mset rows)"
    unfolding assms(5) mset_map multiset.map_comp o_def by (rule image_mset_cong) (simp only: set_mset_mset set_filter mem_Collect_eq old)
  ultimately show ?thesis by (simp only: image_mset_add_mset new) blast
qed

definition bob_device :: peer_dto where
  "bob_device = \<lparr>pd_id = ''10.0.0.7'', pd_hash = None, pd_password = Some ''pw'', pd_alias = Some ''Rack'',
     pd_note = None, pd_tags = Some [''new'', ''lab'', ''new'']\<rparr>"

theorem addPeer_then_listed_witness:
  "\<exists>rows. getPeers (\<lambda>_ _. False) rev rev checkAddressBookAccess (unfiltered ''ab1'' 2) (Some ''bob'')
     (snd (addPeer checkAddressBookAccess ''ab1'' bob_device (Some ''bob'') example_ids example_books)) = Inr (2, rows) \<and>
     mset (map (pw_id \<circ> fst \<circ> row_content) rows) = {#''10.0.0.7'', ''111''#} \<and>
     image_mset (snd \<circ> row_content) (mset rows) = {#{#''new'', ''lab''#}, {#''lab''#}#}"
proof -
  let ?d' = "snd (addPeer checkAddressBookAccess ''ab1'' bob_device (Some ''bob'') example_ids example_books)"
  let ?rows = "map (to_peer_row id example_books) (filter (\<lambda>p. pr_book p = ''ab1'') (ab_peers example_books))"
  have run: "addPeer checkAddressBookAccess ''ab1'' bob_device (Some ''bob'') example_ids example_books = (Inr (), ?d')"
    by (rule prod_eqI, code_simp, simp)
  have "distinct (map dv_uuid (ab_devices example_books))" by code_simp
  note listed = addPeer_then_listed [OF example_books_ok this example_fresh run refl mset_rev mset_rev, of "\<lambda>_ _. False"]
  let ?new = "added_row example_books (fst (device_for (pd_id bob_device) (example_ids 1) example_books)) bob_device"
  have rows: "length ?rows = 1" "map (pw_id \<circ> fst \<circ> row_content) ?rows = [''111'']" "map pw_tags ?rows = [[''lab'']]" by code_simp+
  have new: "pw_id ?new = ''10.0.0.7''" "pw_tags ?new = [''new'', ''lab'']"
    by (simp_all add: added_row_def bob_device_def js_unique_def Let_def)
  obtain listed where l: "getPeers (\<lambda>_ _. False) rev rev checkAddressBookAccess (unfiltered ''ab1'' 2) (Some ''bob'') ?d' = Inr (2, listed)"
    and c: "image_mset row_content (mset listed) = add_mset (row_content ?new) (image_mset row_content (mset ?rows))"
    using listed unfolding rows(1) by (auto simp: numeral_2_eq_2)
  obtain r where r: "?rows = [r]" using rows(1) by (auto simp: length_Suc_conv)
  have "image_mset (pw_id \<circ> fst) (image_mset row_content (mset listed)) = {#''10.0.0.7'', ''111''#}"
    unfolding c r using rows(2) r new by (simp add: row_content_def)
  moreover have "image_mset snd (image_mset row_content (mset listed)) = {#{#''new'', ''lab''#}, {#''lab''#}#}"
    unfolding c r using rows(3) r new by (simp add: row_content_def)
  ultimately show ?thesis using l by (auto simp: multiset.map_comp o_def)
qed

end
