(* ===== verification/Service_Steps.thy ===== *)
theory Service_Steps
  imports Rbac_Store Async
begin

text \<open>
  The way a service works on its tables: a request is a process that makes one database call after
  the other, and between two of them any other request may run; a transaction is one step. The
  service is the interleaving of all requests under way with what happens outside. Rules say what
  every interleaving keeps.
\<close>

subsection \<open>Steps of a request\<close>

type_synonym ('s, 'r) steps = "('s, unit, unit, 'r result) proc"

definition throw :: "http_error \<Rightarrow> ('s, 'r) steps" where
  "throw e = Finished (Inl e)"

definition return :: "'r \<Rightarrow> ('s, 'r) steps" where
  "return r = Finished (Inr r)"

definition unless_error :: "unit result \<Rightarrow> ('s, 'r) steps \<Rightarrow> ('s, 'r) steps" where
  "unless_error c k = (case c of Inl e \<Rightarrow> throw e | Inr _ \<Rightarrow> k)"

text \<open>A query, a write, and a write that reports (the number of rows, a drawn identifier).\<close>

definition db_read :: "('s \<Rightarrow> 'x) \<Rightarrow> ('x \<Rightarrow> ('s, 'r) steps) \<Rightarrow> ('s, 'r) steps" where
  "db_read f k = Eff (\<lambda>d. (d, Await () (\<lambda>_. k (f d))))"

definition db_write :: "('s \<Rightarrow> 's) \<Rightarrow> ('s, 'r) steps \<Rightarrow> ('s, 'r) steps" where
  "db_write g k = Eff (\<lambda>d. (g d, Await () (\<lambda>_. k)))"

definition db_update :: "('s \<Rightarrow> 'x \<times> 's) \<Rightarrow> ('x \<Rightarrow> ('s, 'r) steps) \<Rightarrow> ('s, 'r) steps" where
  "db_update g k = Eff (\<lambda>d. (snd (g d), Await () (\<lambda>_. k (fst (g d)))))"

text \<open>Work in memory: nothing runs in between.\<close>

definition at_once :: "('s \<Rightarrow> 'x \<times> 's) \<Rightarrow> ('x \<Rightarrow> ('s, 'r) steps) \<Rightarrow> ('s, 'r) steps" where
  "at_once g k = Eff (\<lambda>d. (snd (g d), k (fst (g d))))"

text \<open>
  \<open>dataSource.transaction\<close>: one step that leaves nothing behind when it throws, but what \<open>keep\<close>
  keeps: the audit records the authorization service wrote on its own connection.
\<close>

definition transact_keeping ::
  "('s \<Rightarrow> 's \<Rightarrow> 's) \<Rightarrow> ('s \<Rightarrow> 'x result \<times> 's) \<Rightarrow> ('x \<Rightarrow> ('s, 'r) steps) \<Rightarrow> ('s, 'r) steps" where
  "transact_keeping keep body k = Eff (\<lambda>d. case body d of
     (Inl e, d') \<Rightarrow> (keep d d', Await () (\<lambda>_. throw e))
   | (Inr x, d') \<Rightarrow> (d', Await () (\<lambda>_. k x)))"

text \<open>A write that a unique index or a foreign key may refuse.\<close>

definition db_save :: "('s \<Rightarrow> bool) \<Rightarrow> ('s \<Rightarrow> 's) \<Rightarrow> ('s, 'r) steps \<Rightarrow> ('s, 'r) steps \<Rightarrow> ('s, 'r) steps" where
  "db_save ok g refused k = Eff (\<lambda>d. if ok d then (g d, Await () (\<lambda>_. k)) else (d, Await () (\<lambda>_. refused)))"

definition constraint_error :: http_error where
  "constraint_error = OtherError ''constraint failed''"

lemmas step_defs = throw_def return_def unless_error_def db_read_def db_write_def db_update_def at_once_def
  transact_keeping_def db_save_def

lemma unless_error_simps [simp]:
  "unless_error (Inl e) k = throw e" "unless_error (Inr u) k = k"
  by (simp_all add: unless_error_def)

text \<open>A request that nothing interrupts.\<close>

definition alone :: "('s, 'r) steps \<Rightarrow> 's \<Rightarrow> 'r result \<times> 's" where
  "alone p d = prod.swap (serve (\<lambda>_. ()) p d)"

lemma alone_end [simp]: "alone (throw e) d = (Inl e, d)" "alone (return r) d = (Inr r, d)"
  by (simp_all add: alone_def step_defs)

lemma alone_read [simp]: "alone (db_read f k) d = alone (k (f d)) d"
  and alone_write [simp]: "alone (db_write g p) d = alone p (g d)"
  by (simp_all add: alone_def step_defs)

lemma alone_update [simp]: "alone (db_update u k) d = alone (k (fst (u d))) (snd (u d))"
  and alone_at_once [simp]: "alone (at_once u k) d = alone (k (fst (u d))) (snd (u d))"
  by (simp_all add: alone_def step_defs)

lemma alone_save [simp]: "alone (db_save c g p p') d = (if c d then alone p' (g d) else alone p d)"
  by (simp add: alone_def step_defs)

lemma alone_transact_keeping [simp]: "alone (transact_keeping keep b k) d = (case b d of
     (Inl e, d') \<Rightarrow> (Inl e, keep d d') | (Inr x, d') \<Rightarrow> alone (k x) d')"
  by (simp add: alone_def step_defs split: prod.splits sum.splits)

subsection \<open>All requests at once\<close>

text \<open>
  A request of the class \<open>A\<close> arrives and runs to its first call; one that waits goes on; something
  outside happens.
\<close>

inductive service_step ::
  "('q \<Rightarrow> ('s, 'r) steps) \<Rightarrow> ('q \<Rightarrow> bool) \<Rightarrow> ('s \<Rightarrow> 's \<Rightarrow> bool) \<Rightarrow>
   's \<times> ('s, 'r) steps list \<Rightarrow> 's \<times> ('s, 'r) steps list \<Rightarrow> bool"
  for srv A out where
  Arrive: "A r \<Longrightarrow> run (srv r) d = (d', p) \<Longrightarrow> service_step srv A out (d, ps) (d', ps @ [p])"
| Resume: "run (continue () p) d = (d', p') \<Longrightarrow> service_step srv A out (d, ps @ p # qs) (d', ps @ p' # qs)"
| Outside: "out d d' \<Longrightarrow> service_step srv A out (d, ps) (d', ps)"

inductive_cases service_stepE: "service_step srv A out (d, ps) (d', ps')"

text \<open>The tables and requests under way that the service can come to from the tables \<open>d\<close>.\<close>

definition reaches_from ::
  "('q \<Rightarrow> ('s, 'r) steps) \<Rightarrow> ('q \<Rightarrow> bool) \<Rightarrow> ('s \<Rightarrow> 's \<Rightarrow> bool) \<Rightarrow> 's \<Rightarrow> 's \<times> ('s, 'r) steps list \<Rightarrow> bool" where
  "reaches_from srv A out d s \<longleftrightarrow> (service_step srv A out)\<^sup>*\<^sup>* (d, []) s"

lemma reaches_preserves:
  assumes "reaches_from srv A out d (d', ps)" "I d" "\<And>r. A r \<Longrightarrow> preserves I (srv r)"
    and "\<And>d d'. I d \<Longrightarrow> out d d' \<Longrightarrow> I d'"
  shows "I d'"
proof -
  have "(service_step srv A out)\<^sup>*\<^sup>* x s \<Longrightarrow> I (fst x) \<and> list_all (preserves I) (snd x) \<Longrightarrow>
      I (fst s) \<and> list_all (preserves I) (snd s)" for x s
  proof (induction rule: rtranclp_induct)
    case (step s t)
    from step.hyps(2) step.IH [OF step.prems] show ?case
    proof cases
      case (Arrive r d d1 p ps)
      then show ?thesis using preserves_run [OF assms(3), of r d] step.IH [OF step.prems] by simp
    next
      case (Resume p d d1 p1 ps qs)
      then show ?thesis using preserves_run [OF preserves_continue, of I p d "()"] step.IH [OF step.prems] by simp
    next
      case (Outside d d1 ps)
      then show ?thesis using assms(4) [of d d1] step.IH [OF step.prems] by simp
    qed
  qed simp
  from this [of "(d, [])" "(d', ps)"] show ?thesis
    using assms(1,2) by (simp add: reaches_from_def)
qed

lemma preserves_alone: "preserves I p \<Longrightarrow> I d \<Longrightarrow> I (snd (alone p d))"
  unfolding alone_def using preserves_serve [of I p d] by simp

text \<open>Serving one request after the other is one of the executions.\<close>

lemma finishes_alone:
  "(service_step srv A out)\<^sup>*\<^sup>* (fst (run p d), ps @ [snd (run p d)]) (snd (alone p d), ps @ [Finished (fst (alone p d))])"
proof (induction p arbitrary: d)
  case (Finished r)
  then show ?case by (simp add: alone_def)
next
  case (Eff f)
  have "snd (f d) \<in> Basic_BNFs.snds (f d)" by (cases "f d") simp
  from Eff [OF rangeI this, of "fst (f d)"] show ?case by (simp add: alone_def)
next
  case (Await q k)
  obtain d1 p1 where r: "run (k ()) d = (d1, p1)" by (cases "run (k ()) d")
  have "service_step srv A out (d, ps @ [Await q k]) (d1, ps @ [p1])"
    using service_step.Resume [of "Await q k" d d1 p1 srv A out ps "[]"] r by simp
  then show ?case using Await [OF rangeI, of "()" d] r by (simp add: alone_def converse_rtranclp_into_rtranclp)
qed

lemma reaches_from_start: "reaches_from srv A out d (d, [])"
  by (simp add: reaches_from_def)

lemma reaches_from_served:
  assumes "reaches_from srv A out d (d1, ps)" "A r"
  shows "reaches_from srv A out d (snd (alone (srv r) d1), ps @ [Finished (fst (alone (srv r) d1))])"
proof -
  have "service_step srv A out (d1, ps) (fst (run (srv r) d1), ps @ [snd (run (srv r) d1)])"
    using service_step.Arrive [of A r srv d1 "fst (run (srv r) d1)" "snd (run (srv r) d1)"] assms(2) by simp
  then have "(service_step srv A out)\<^sup>*\<^sup>* (d1, ps) (snd (alone (srv r) d1), ps @ [Finished (fst (alone (srv r) d1))])"
    using finishes_alone by (rule converse_rtranclp_into_rtranclp)
  with assms(1) show ?thesis by (simp add: reaches_from_def)
qed

definition serve_all_from :: "('q \<Rightarrow> ('s, 'r) steps) \<Rightarrow> 'q list \<Rightarrow> 's \<Rightarrow> 's" where
  "serve_all_from srv rs d = fold (\<lambda>r d. snd (alone (srv r) d)) rs d"

lemma reaches_served_all:
  "reaches_from srv A out d (d1, ps) \<Longrightarrow> list_all A rs \<Longrightarrow> \<exists>ps. reaches_from srv A out d (serve_all_from srv rs d1, ps)"
proof (induction rs arbitrary: d1 ps)
  case Nil
  then show ?case by (auto simp: serve_all_from_def)
next
  case (Cons r rs)
  then have "A r" "list_all A rs" by simp_all
  from Cons.IH [OF reaches_from_served [where r = r] this(2)] Cons.prems(1) this(1) show ?case
    by (fastforce simp: serve_all_from_def)
qed

subsection \<open>Rules for the steps\<close>

named_theorems preserves_intros "introduction rules for requests that keep an invariant"

lemma preserves_throw [preserves_intros]: "preserves I (throw e)"
  and preserves_return [preserves_intros]: "preserves I (return r)"
  by (simp_all add: throw_def return_def preserves_Finished)

lemma preserves_unless_error [preserves_intros]: "(c = Inr () \<Longrightarrow> preserves I k) \<Longrightarrow> preserves I (unless_error c k)"
  by (cases c) (auto intro: preserves_intros)

lemma preserves_read [preserves_intros]: "(\<And>d. I d \<Longrightarrow> preserves I (k (f d))) \<Longrightarrow> preserves I (db_read f k)"
  unfolding db_read_def by (auto intro!: preserves_Eff preserves_Await)

lemma preserves_write [preserves_intros]: "(\<And>d. I d \<Longrightarrow> I (g d)) \<Longrightarrow> preserves I k \<Longrightarrow> preserves I (db_write g k)"
  unfolding db_write_def by (auto intro!: preserves_Eff preserves_Await)

lemma preserves_update [preserves_intros]:
  "(\<And>d. I d \<Longrightarrow> I (snd (g d))) \<Longrightarrow> (\<And>d. I d \<Longrightarrow> preserves I (k (fst (g d)))) \<Longrightarrow> preserves I (db_update g k)"
  unfolding db_update_def by (auto intro!: preserves_Eff preserves_Await)

lemma preserves_save [preserves_intros]:
  "(\<And>d. I d \<Longrightarrow> c d \<Longrightarrow> I (g d)) \<Longrightarrow> preserves I refused \<Longrightarrow> preserves I k \<Longrightarrow> preserves I (db_save c g refused k)"
  unfolding db_save_def by (auto intro!: preserves_Eff preserves_Await)

lemma preserves_at_once [preserves_intros]:
  "(\<And>d. I d \<Longrightarrow> I (snd (g d))) \<Longrightarrow> (\<And>d. I d \<Longrightarrow> preserves I (k (fst (g d)))) \<Longrightarrow> preserves I (at_once g k)"
  unfolding at_once_def by (auto intro!: preserves_Eff)

lemma preserves_transact_keeping [preserves_intros]:
  assumes "\<And>d e d'. I d \<Longrightarrow> body d = (Inl e, d') \<Longrightarrow> I (keep d d')"
    and "\<And>d x d'. I d \<Longrightarrow> body d = (Inr x, d') \<Longrightarrow> I d'"
    and "\<And>x. preserves I (k x)"
  shows "preserves I (transact_keeping keep body k)"
  unfolding transact_keeping_def
proof (rule preserves_Eff)
  fix d assume "I d"
  with assms show "I (fst (case body d of (Inl e, d') \<Rightarrow> (keep d d', Await () (\<lambda>_. throw e))
        | (Inr x, d') \<Rightarrow> (d', Await () (\<lambda>_. k x)))) \<and>
      preserves I (snd (case body d of (Inl e, d') \<Rightarrow> (keep d d', Await () (\<lambda>_. throw e))
        | (Inr x, d') \<Rightarrow> (d', Await () (\<lambda>_. k x))))"
    by (cases "body d"; cases "fst (body d)") (auto intro!: preserves_Await preserves_throw)
qed

lemma preserves_option [preserves_intros]:
  "(x = None \<Longrightarrow> preserves I n) \<Longrightarrow> (\<And>y. x = Some y \<Longrightarrow> preserves I (s y)) \<Longrightarrow> preserves I (case x of None \<Rightarrow> n | Some y \<Rightarrow> s y)"
  by (cases x) auto

lemma preserves_sum [preserves_intros]:
  "(\<And>y. x = Inl y \<Longrightarrow> preserves I (l y)) \<Longrightarrow> (\<And>y. x = Inr y \<Longrightarrow> preserves I (r y)) \<Longrightarrow> preserves I (case x of Inl y \<Rightarrow> l y | Inr y \<Rightarrow> r y)"
  by (cases x) auto

lemma preserves_if [preserves_intros]:
  "(c \<Longrightarrow> preserves I p) \<Longrightarrow> (\<not> c \<Longrightarrow> preserves I q) \<Longrightarrow> preserves I (if c then p else q)"
  by simp

lemma preserves_pair [preserves_intros]: "preserves I (f (fst x) (snd x)) \<Longrightarrow> preserves I (case x of (a, b) \<Rightarrow> f a b)"
  by (simp add: case_prod_beta)

lemma preserves_let [preserves_intros]: "preserves I (f x) \<Longrightarrow> preserves I (let y = x in f y)"
  by simp

subsection \<open>Answers\<close>

text \<open>The service with each answer under the request it answers.\<close>

definition answering :: "('q \<Rightarrow> ('s, 'r) steps) \<Rightarrow> 'q \<Rightarrow> ('s, 'q \<times> 'r) steps" where
  "answering srv r = map_proc id (map_sum id (Pair r)) (srv r)"

lemma preserves_map_proc: "preserves I p \<Longrightarrow> preserves I (map_proc f g p)"
  by (induction rule: preserves.induct) (auto intro!: preserves.intros)

lemma preserves_answering: "preserves I (srv r) \<Longrightarrow> preserves I (answering srv r)"
  by (simp add: answering_def preserves_map_proc)

lemma serve_map_proc: "serve f (map_proc id g p) d = map_prod id g (serve f p d)"
  by (induction p arbitrary: d) (auto simp: snds.simps)

lemma alone_answering: "alone (answering srv r) d = map_prod (map_sum id (Pair r)) id (alone (srv r) d)"
  by (simp add: alone_def answering_def serve_map_proc prod_eq_iff)

text \<open>A request that was answered, with an answer of the kind \<open>w\<close>.\<close>

definition answered :: "('r \<Rightarrow> bool) \<Rightarrow> ('s, 'r) steps \<Rightarrow> bool" where
  "answered w p = (case p of Finished (Inr x) \<Rightarrow> w x | _ \<Rightarrow> False)"

lemma answered_simps [simp]:
  "answered w (Finished (Inr x)) = w x" "\<not> answered w (Finished (Inl e))" "\<not> answered w (Eff f)" "\<not> answered w (Await q k)"
  by (simp_all add: answered_def)

text \<open>Requests that run one after the other, with their answers.\<close>

primrec answers_from :: "('q \<Rightarrow> ('s, 'r) steps) \<Rightarrow> 'q list \<Rightarrow> 's \<Rightarrow> 'r result list" where
  "answers_from srv [] d = []"
| "answers_from srv (r # rs) d = (case alone (srv r) d of (a, d') \<Rightarrow> a # answers_from srv rs d')"

lemma reaches_answers:
  "reaches_from srv A out d (d1, ps) \<Longrightarrow> list_all A rs \<Longrightarrow>
   reaches_from srv A out d (serve_all_from srv rs d1, ps @ map Finished (answers_from srv rs d1))"
proof (induction rs arbitrary: d1 ps)
  case (Cons r rs)
  then have "A r" "list_all A rs" by simp_all
  from Cons.IH [OF reaches_from_served [OF Cons.prems(1) this(1)] this(2)] show ?case
    by (simp add: serve_all_from_def case_prod_beta)
qed (simp add: serve_all_from_def)

subsection \<open>Answers that are paid for\<close>

text \<open>
  \<open>covers c w n p\<close>: the process \<open>p\<close> holds \<open>n\<close> units of what \<open>c\<close> counts in the state, takes none that it
  did not add itself, whatever the state it finds, and gives an answer of the kind \<open>w\<close> only when it
  holds one. Then there are at most as many such answers as \<open>c\<close> counts.
\<close>

inductive covers :: "('s \<Rightarrow> nat) \<Rightarrow> ('r \<Rightarrow> bool) \<Rightarrow> nat \<Rightarrow> ('s, 'r) steps \<Rightarrow> bool" for c w where
  covers_Finished: "(\<And>x. r = Inr x \<Longrightarrow> w x \<Longrightarrow> 0 < n) \<Longrightarrow> covers c w n (Finished r)"
| covers_Eff: "(\<And>d. c d + m d \<le> c (fst (f d)) + n \<and> covers c w (m d) (snd (f d))) \<Longrightarrow> covers c w n (Eff f)"
| covers_Await: "(\<And>a. covers c w n (k a)) \<Longrightarrow> covers c w n (Await q k)"

inductive_cases covers_FinishedE: "covers c w n (Finished r)"
inductive_cases covers_EffE: "covers c w n (Eff f)"
inductive_cases covers_AwaitE: "covers c w n (Await q k)"

lemma covers_run: "covers c w n p \<Longrightarrow> \<exists>m. c d + m \<le> c (fst (run p d)) + n \<and> covers c w m (snd (run p d))"
proof (induction p arbitrary: n d)
  case (Eff f)
  from Eff.prems obtain m where m: "c d + m \<le> c (fst (f d)) + n" "covers c w m (snd (f d))"
    by (rule covers_EffE) blast
  have "snd (f d) \<in> Basic_BNFs.snds (f d)" by (cases "f d") simp
  from Eff.IH [OF rangeI this m(2), of "fst (f d)"] obtain l
    where l: "c (fst (f d)) + l \<le> c (fst (run (Eff f) d)) + m" "covers c w l (snd (run (Eff f) d))" by auto
  moreover have "c d + l \<le> c (fst (run (Eff f) d)) + n" using m(1) l(1) by linarith
  ultimately show ?case by blast
next
  case (Finished r)
  then show ?case by (intro exI [of _ n]) simp
next
  case (Await q k)
  then show ?case by (intro exI [of _ n]) simp
qed

lemma covers_continue: "covers c w n p \<Longrightarrow> covers c w n (continue a p)"
  by (cases p) (auto elim: covers_AwaitE)

lemma covers_map_proc: "covers c (\<lambda>x. w (g x)) n p \<Longrightarrow> covers c w n (map_proc id (map_sum id g) p)"
proof (induction rule: covers.induct)
  case (covers_Finished r n)
  then show ?case by (cases r) (auto intro!: covers.covers_Finished)
next
  case (covers_Eff m f n)
  then show ?case by (auto intro!: covers.covers_Eff [where m = m])
qed (auto intro!: covers.covers_Await)

definition pool_covers :: "('s \<Rightarrow> nat) \<Rightarrow> ('r \<Rightarrow> bool) \<Rightarrow> nat \<Rightarrow> 's \<times> ('s, 'r) steps list \<Rightarrow> bool" where
  "pool_covers c w b s \<longleftrightarrow> (\<exists>ns. list_all2 (covers c w) ns (snd s) \<and> sum_list ns + b \<le> c (fst s))"

lemma pool_covers_step:
  assumes "service_step srv A out s t" "pool_covers c w b s"
    and "\<And>r. A r \<Longrightarrow> covers c w 0 (srv r)" "\<And>d d'. out d d' \<Longrightarrow> c d \<le> c d'"
  shows "pool_covers c w b t"
  using assms(1)
proof cases
  case (Arrive r d d' p ps)
  from assms(2) Arrive(1) obtain ns where ns: "list_all2 (covers c w) ns ps" "sum_list ns + b \<le> c d"
    by (auto simp: pool_covers_def)
  obtain m where "c d + m \<le> c d'" "covers c w m p"
    using covers_run [OF assms(3) [OF Arrive(3)], of d] Arrive(4) by auto
  then have "list_all2 (covers c w) (ns @ [m]) (ps @ [p]) \<and> sum_list (ns @ [m]) + b \<le> c d'"
    using ns by (simp add: list_all2_appendI)
  then show ?thesis unfolding pool_covers_def Arrive(2) fst_conv snd_conv by blast
next
  case (Resume p d d' p' ps qs)
  from assms(2) Resume(1) obtain ns where "list_all2 (covers c w) ns (ps @ p # qs)" and b: "sum_list ns + b \<le> c d"
    by (auto simp: pool_covers_def)
  then obtain us n vs where ns: "ns = us @ n # vs" and u: "list_all2 (covers c w) us ps" "covers c w n p" "list_all2 (covers c w) vs qs"
    by (auto simp: list_all2_append2 list_all2_Cons2)
  obtain m where "c d + m \<le> c d' + n" "covers c w m p'"
    using covers_run [OF covers_continue [OF u(2)], of d "()"] Resume(3) by auto
  then have "list_all2 (covers c w) (us @ m # vs) (ps @ p' # qs) \<and> sum_list (us @ m # vs) + b \<le> c d'"
    using u b ns by (simp add: list_all2_appendI)
  then show ?thesis unfolding pool_covers_def Resume(2) fst_conv snd_conv by blast
next
  case (Outside d d' ps)
  then show ?thesis using assms(2) assms(4) [of d d'] by (fastforce simp: pool_covers_def)
qed

lemma answered_le: "list_all2 (covers c w) ns ps \<Longrightarrow> length (filter (answered w) ps) \<le> sum_list ns"
proof (induction rule: list_all2_induct)
  case (Cons n ns p ps)
  have "answered w p \<Longrightarrow> 0 < n"
    using Cons(1) by (auto simp: answered_def elim!: covers_FinishedE split: proc.splits sum.splits)
  with Cons(3) show ?case by (cases "answered w p") auto
qed simp

lemma answered_bound:
  assumes "reaches_from srv A out d (d', ps)"
    and "\<And>r. A r \<Longrightarrow> covers c w 0 (srv r)" "\<And>d d'. out d d' \<Longrightarrow> c d \<le> c d'"
  shows "length (filter (answered w) ps) + c d \<le> c d'"
proof -
  have "(service_step srv A out)\<^sup>*\<^sup>* s t \<Longrightarrow> pool_covers c w b s \<Longrightarrow> pool_covers c w b t" for s t b
    by (induction rule: rtranclp_induct) (blast intro: pool_covers_step assms(2,3))+
  moreover have "pool_covers c w (c d) (d, [])" by (simp add: pool_covers_def)
  ultimately have "pool_covers c w (c d) (d', ps)" using assms(1) by (simp add: reaches_from_def)
  then obtain ns where "list_all2 (covers c w) ns ps" "sum_list ns + c d \<le> c d'" by (auto simp: pool_covers_def)
  then show ?thesis using answered_le by fastforce
qed

subsection \<open>Rules for paid answers\<close>

named_theorems covers_intros "introduction rules for requests whose answers are paid for"

lemma covers_throw [covers_intros]: "covers c w n (throw e)"
  and covers_return [covers_intros]: "(w x \<Longrightarrow> 0 < n) \<Longrightarrow> covers c w n (return x)"
  by (auto simp: throw_def return_def intro!: covers_Finished)

lemma covers_unless_error [covers_intros]: "covers c w n k \<Longrightarrow> covers c w n (unless_error e k)"
  by (cases e) (simp_all add: covers_throw)

lemma covers_step: "(\<And>d. c d \<le> c (fst (f d)) \<and> covers c w n (snd (f d))) \<Longrightarrow> covers c w n (Eff f)"
  by (rule covers_Eff [where m = "\<lambda>_. n"]) simp

lemma covers_read [covers_intros]: "(\<And>d. covers c w n (k (f d))) \<Longrightarrow> covers c w n (db_read f k)"
  unfolding db_read_def by (auto intro!: covers_step covers_Await)

lemma covers_write [covers_intros]: "(\<And>d. c d \<le> c (g d)) \<Longrightarrow> covers c w n k \<Longrightarrow> covers c w n (db_write g k)"
  unfolding db_write_def by (auto intro!: covers_step covers_Await)

lemma covers_update [covers_intros]:
  "(\<And>d. c d \<le> c (snd (g d))) \<Longrightarrow> (\<And>d. covers c w n (k (fst (g d)))) \<Longrightarrow> covers c w n (db_update g k)"
  unfolding db_update_def by (auto intro!: covers_step covers_Await)

lemma covers_save [covers_intros]:
  "(\<And>d. c d \<le> c (g d)) \<Longrightarrow> covers c w n refused \<Longrightarrow> covers c w n k \<Longrightarrow> covers c w n (db_save ok g refused k)"
  unfolding db_save_def by (auto intro!: covers_step covers_Await)

lemma covers_at_once [covers_intros]:
  "(\<And>d. c d \<le> c (snd (g d))) \<Longrightarrow> (\<And>d. covers c w n (k (fst (g d)))) \<Longrightarrow> covers c w n (at_once g k)"
  unfolding at_once_def by (auto intro!: covers_step)

lemma covers_transact_keeping [covers_intros]:
  "(\<And>d d'. c d \<le> c (keep d d')) \<Longrightarrow> (\<And>d. c d \<le> c (snd (body d))) \<Longrightarrow> (\<And>x. covers c w n (k x)) \<Longrightarrow>
   covers c w n (transact_keeping keep body k)"
  unfolding transact_keeping_def
  by (rule covers_step) (auto split: prod.splits sum.splits intro!: covers_Await covers_throw simp: prod_eq_iff)

text \<open>An update that adds a unit when it succeeds, which the request then holds.\<close>

lemma covers_earn:
  assumes "\<And>d. c d + (if P (fst (g d)) then 1 else 0) \<le> c (snd (g d))"
    and "\<And>d. P (fst (g d)) \<Longrightarrow> covers c w 1 (k (fst (g d)))" "\<And>d. \<not> P (fst (g d)) \<Longrightarrow> covers c w 0 (k (fst (g d)))"
  shows "covers c w 0 (db_update g k)"
  unfolding db_update_def
  by (rule covers_Eff [where m = "\<lambda>d. if P (fst (g d)) then 1 else 0"]) (use assms in \<open>auto intro!: covers_Await\<close>)

lemma covers_option [covers_intros]:
  "(x = None \<Longrightarrow> covers c w n p) \<Longrightarrow> (\<And>y. x = Some y \<Longrightarrow> covers c w n (q y)) \<Longrightarrow> covers c w n (case x of None \<Rightarrow> p | Some y \<Rightarrow> q y)"
  by (cases x) auto

lemma covers_sum [covers_intros]:
  "(\<And>y. x = Inl y \<Longrightarrow> covers c w n (l y)) \<Longrightarrow> (\<And>y. x = Inr y \<Longrightarrow> covers c w n (r y)) \<Longrightarrow>
   covers c w n (case x of Inl y \<Rightarrow> l y | Inr y \<Rightarrow> r y)"
  by (cases x) auto

lemma covers_if [covers_intros]:
  "(b \<Longrightarrow> covers c w n p) \<Longrightarrow> (\<not> b \<Longrightarrow> covers c w n q) \<Longrightarrow> covers c w n (if b then p else q)"
  by simp

lemma covers_pair [covers_intros]: "covers c w n (f (fst x) (snd x)) \<Longrightarrow> covers c w n (case x of (a, b) \<Rightarrow> f a b)"
  by (simp add: case_prod_beta)

lemma covers_let [covers_intros]: "covers c w n (f x) \<Longrightarrow> covers c w n (let y = x in f y)"
  by simp

end
