(* ===== verification/Auth_Store.thy ===== *)
theory Auth_Store
  imports Rbac_Access Service_Steps
begin

text \<open>
  What the authentication services keep (the entities of \<open>src/modules/user\<close> and
  \<open>src/modules/auth\<close>): accounts with their secrets, login tokens, the sessions of a second login
  step, passkeys, password resets and invitations; and the services' way of working. A request is a
  process of the theory \<open>Async\<close>: one database call after the other, and between two of them any
  other request may run. A transaction is one step. Clock and random identifiers belong to the
  shared state: every \<open>uuidv4()\<close> takes the next of an endless list of distinct ones.
\<close>

subsection \<open>Rows\<close>

text \<open>The JSON column \<open>info\<close> of an account: the entries the services read and write.\<close>

record user_info =
  ui_email_verification :: bool
  ui_tfa_enforce :: bool
  ui_tfa_pending_secret :: "string option"
  ui_passkey_tfa_enabled :: bool

record account =
  ac_guid :: string
  ac_name :: string
  ac_display :: "string option"
  ac_email :: "string option"
  ac_password :: "string option"
  ac_note :: "string option"
  ac_status :: UserStatus
  ac_admin :: bool
  ac_tfa :: "string option"
  ac_info :: user_info
  ac_third :: "string option"
  ac_subject :: "string option"
  ac_group :: "string option"

record device_info =
  di_os :: "string option"
  di_type :: "string option"
  di_name :: "string option"

record auth_token =
  tk_user :: string
  tk_jti :: string
  tk_device :: "string option"
  tk_uuid :: "string option"
  tk_info :: "device_info option"
  tk_expires :: int
  tk_revoked :: bool

datatype session_method = ByEmail | ByTfa | PasskeyReg | Passkey | PasskeyTfa

record login_session =
  ls_guid :: string
  ls_user :: string
  ls_method :: session_method
  ls_email :: "string option"
  ls_code :: "string option"
  ls_expires :: int
  ls_used :: bool

record passkey =
  pk_guid :: string
  pk_user :: string
  pk_credential :: string
  pk_key :: string
  pk_counter :: int
  pk_name :: "string option"

record reset_token =
  rt_guid :: string
  rt_token :: string
  rt_user :: string
  rt_expires :: int
  rt_used :: "int option"

record invitation =
  iv_guid :: string
  iv_token :: string
  iv_email :: string
  iv_name :: string
  iv_display :: "string option"
  iv_user :: "string option"
  iv_expires :: int
  iv_used :: "int option"

record bound_device =
  bp_uuid :: string
  bp_id :: string
  bp_user :: "string option"

text \<open>
  The roles and assignments that decide on administration stay in the tables of the authorization
  services (\<open>au_rbac\<close>), which see the accounts as their users. \<open>au_completed\<close> is a history
  variable: the second login steps that went through.
\<close>

record auth_db =
  au_users :: "account list"
  au_tokens :: "auth_token list"
  au_sessions :: "login_session list"
  au_passkeys :: "passkey list"
  au_resets :: "reset_token list"
  au_invitations :: "invitation list"
  au_devices :: "bound_device list"
  au_rbac :: db
  au_now :: int
  au_ids :: "nat \<Rightarrow> string"
  au_drawn :: nat
  au_completed :: "string list"

text \<open>
  What is not code of the repository: password hashing, one-time codes, token signatures and
  WebAuthn, the directory server, the mail server, and the settings read from the database.
\<close>

record jwt_payload =
  jw_sub :: string
  jw_name :: string
  jw_email :: "string option"
  jw_admin :: bool
  jw_device :: "string option"
  jw_jti :: string

record ldap_user_info =
  li_name :: string
  li_email :: "string option"
  li_display :: "string option"

record auth_env =
  en_hash :: "string \<Rightarrow> string"
  en_compare :: "string \<Rightarrow> string \<Rightarrow> bool"
  en_email_code :: "string \<Rightarrow> string"
  en_totp :: "string \<Rightarrow> string \<Rightarrow> int \<Rightarrow> bool"
  en_sign :: "jwt_payload \<Rightarrow> int \<Rightarrow> int \<Rightarrow> string"
  en_verify :: "string \<Rightarrow> int \<Rightarrow> jwt_payload option"
  en_sha256 :: "string \<Rightarrow> string"
  en_assertion :: "string \<Rightarrow> string \<Rightarrow> passkey \<Rightarrow> int option"
  en_credential_id :: "string \<Rightarrow> string"
  en_attestation :: "string \<Rightarrow> string \<Rightarrow> (string \<times> string \<times> int) option"
  en_ldap :: "string \<Rightarrow> string \<Rightarrow> ldap_user_info result"
  en_ldap_enabled :: bool
  en_passkeys_enabled :: bool
  en_smtp_enabled :: bool
  en_mail_sent :: "string \<Rightarrow> bool"
  en_expiry_days :: int
  en_clone_isolation :: bool
  en_isolated_uuid :: "string \<Rightarrow> string \<Rightarrow> string"
  en_default_group :: string
  en_groups :: "string list"

subsection \<open>Reading and saving accounts\<close>

definition account_of :: "auth_db \<Rightarrow> string \<Rightarrow> account option" where
  "account_of d g = find (\<lambda>a. ac_guid a = g) (au_users d)"

text \<open>\<open>findByUsernameOrEmail\<close>: the first account with this name or address.\<close>

definition account_named :: "auth_db \<Rightarrow> string \<Rightarrow> account option" where
  "account_named d n = find (\<lambda>a. ac_name a = n \<or> ac_email a = Some n) (au_users d)"

text \<open>A column that was not selected when the entity was loaded is not written by \<open>save\<close>.\<close>

definition merged :: "bool \<Rightarrow> bool \<Rightarrow> account \<Rightarrow> auth_db \<Rightarrow> account" where
  "merged pw tfa a d = (let old = account_of d (ac_guid a) in
     a\<lparr>ac_password := if pw then ac_password a else Option.bind old ac_password,
       ac_tfa := if tfa then ac_tfa a else Option.bind old ac_tfa\<rparr>)"

text \<open>The unique indexes on name, address and external subject.\<close>

definition taken_by_other :: "auth_db \<Rightarrow> account \<Rightarrow> bool" where
  "taken_by_other d a = list_ex (\<lambda>b. ac_guid b \<noteq> ac_guid a \<and>
     (ac_name b = ac_name a \<or> (ac_email a \<noteq> None \<and> ac_email b = ac_email a) \<or>
      (ac_subject a \<noteq> None \<and> ac_subject b = ac_subject a))) (au_users d)"

definition save_account :: "bool \<Rightarrow> bool \<Rightarrow> account \<Rightarrow> auth_db \<Rightarrow> auth_db" where
  "save_account pw tfa a d = d\<lparr>au_users := save_row ac_guid (merged pw tfa a d) (au_users d)\<rparr>"

definition next_id :: "auth_db \<Rightarrow> string" where
  "next_id d = au_ids d (au_drawn d)"

definition drawn :: "auth_db \<Rightarrow> auth_db" where
  "drawn d = d\<lparr>au_drawn := Suc (au_drawn d)\<rparr>"

subsection \<open>Steps of a request\<close>

type_synonym 'r auth = "(auth_db, 'r) steps"

definition transact :: "(auth_db \<Rightarrow> 'x result \<times> auth_db) \<Rightarrow> ('x \<Rightarrow> 'r auth) \<Rightarrow> 'r auth" where
  "transact = transact_keeping (\<lambda>d d'. d\<lparr>au_rbac := au_rbac d'\<rparr>)"

text \<open>Drawing an identifier is no call.\<close>

definition draw_id :: "(string \<Rightarrow> 'r auth) \<Rightarrow> 'r auth" where
  "draw_id = at_once (\<lambda>d. (next_id d, drawn d))"

definition save_user :: "bool \<Rightarrow> bool \<Rightarrow> account \<Rightarrow> 'r auth \<Rightarrow> 'r auth" where
  "save_user pw tfa a k = db_save (\<lambda>d. \<not> taken_by_other d a) (save_account pw tfa a) (throw constraint_error) k"

lemma alone_draw [simp]: "alone (draw_id k) d = alone (k (next_id d)) (drawn d)"
  by (simp add: draw_id_def)

lemma alone_transact [simp]: "alone (transact b k) d = (case b d of
     (Inl e, d') \<Rightarrow> (Inl e, d\<lparr>au_rbac := au_rbac d'\<rparr>) | (Inr x, d') \<Rightarrow> alone (k x) d')"
  by (simp add: transact_def)

lemma preserves_draw [preserves_intros]:
  "(\<And>d. I d \<Longrightarrow> I (drawn d)) \<Longrightarrow> (\<And>d. I d \<Longrightarrow> preserves I (k (next_id d))) \<Longrightarrow> preserves I (draw_id k)"
  unfolding draw_id_def by (rule preserves_at_once) simp_all

lemma preserves_save_user [preserves_intros]:
  "(\<And>d. I d \<Longrightarrow> \<not> taken_by_other d a \<Longrightarrow> I (save_account pw tfa a d)) \<Longrightarrow> preserves I k \<Longrightarrow> preserves I (save_user pw tfa a k)"
  unfolding save_user_def by (intro preserves_intros)

lemma preserves_transact [preserves_intros]:
  assumes "\<And>d e d'. I d \<Longrightarrow> body d = (Inl e, d') \<Longrightarrow> I (d\<lparr>au_rbac := au_rbac d'\<rparr>)"
    and "\<And>d x d'. I d \<Longrightarrow> body d = (Inr x, d') \<Longrightarrow> I d'"
    and "\<And>x. preserves I (k x)"
  shows "preserves I (transact body k)"
  unfolding transact_def by (rule preserves_transact_keeping) (use assms in auto)

subsection \<open>Login sessions\<close>

text \<open>\<open>src/modules/auth/services/login-session.service.ts\<close>\<close>

definition minutes :: "int \<Rightarrow> int" where
  "minutes n = n * 60000"

definition delete_unused :: "string \<Rightarrow> auth_db \<Rightarrow> auth_db" where
  "delete_unused u d = d\<lparr>au_sessions := filter (\<lambda>s. \<not> (ls_user s = u \<and> \<not> ls_used s)) (au_sessions d)\<rparr>"

definition fresh_session :: "string \<Rightarrow> session_method \<Rightarrow> string option \<Rightarrow> string option \<Rightarrow> auth_db \<Rightarrow> login_session" where
  "fresh_session u m email code d = \<lparr>ls_guid = next_id d, ls_user = u, ls_method = m, ls_email = email,
     ls_code = code, ls_expires = au_now d + minutes 5, ls_used = False\<rparr>"

definition add_session ::
  "string \<Rightarrow> session_method \<Rightarrow> string option \<Rightarrow> string option \<Rightarrow> auth_db \<Rightarrow> login_session \<times> auth_db" where
  "add_session u m email code d = (let s = fresh_session u m email code d in
     (s, (drawn d)\<lparr>au_sessions := save_row ls_guid s (au_sessions d)\<rparr>))"

text \<open>All callers ask for five minutes.\<close>

definition createSession ::
  "string \<Rightarrow> session_method \<Rightarrow> string option \<Rightarrow> string option \<Rightarrow> bool \<Rightarrow> (login_session \<Rightarrow> 'r auth) \<Rightarrow> 'r auth" where
  "createSession u m email code deleteExisting k =
     (let create = db_update (add_session u m email code) k
      in if deleteExisting then db_write (delete_unused u) create else create)"

text \<open>The latest of the sessions.\<close>

definition findValidSession :: "string \<Rightarrow> session_method \<Rightarrow> auth_db \<Rightarrow> login_session option" where
  "findValidSession u m d = find (\<lambda>s. ls_user s = u \<and> ls_method s = m \<and> \<not> ls_used s \<and> au_now d < ls_expires s)
     (rev (au_sessions d))"

definition findByGuid :: "string \<Rightarrow> session_method option \<Rightarrow> bool \<Rightarrow> auth_db \<Rightarrow> login_session option" where
  "findByGuid g m checkExpiry d = find (\<lambda>s. ls_guid s = g \<and> (case m of None \<Rightarrow> True | Some x \<Rightarrow> ls_method s = x) \<and>
     \<not> ls_used s \<and> (checkExpiry \<longrightarrow> au_now d < ls_expires s)) (au_sessions d)"

definition open_session :: "string \<Rightarrow> auth_db \<Rightarrow> login_session \<Rightarrow> bool" where
  "open_session g d s \<longleftrightarrow> ls_guid s = g \<and> \<not> ls_used s \<and> au_now d < ls_expires s"

definition use_session :: "string \<Rightarrow> auth_db \<Rightarrow> nat \<times> auth_db" where
  "use_session g d = (let n = length (filter (open_session g d) (au_sessions d)) in
     (n, d\<lparr>au_sessions := map (\<lambda>s. if open_session g d s then s\<lparr>ls_used := True\<rparr> else s) (au_sessions d),
           au_completed := au_completed d @ (if n = 1 then [g] else [])\<rparr>))"

definition markSessionUsed :: "login_session \<Rightarrow> 'r auth \<Rightarrow> 'r auth" where
  "markSessionUsed s k = db_update (use_session (ls_guid s)) (\<lambda>n.
     if n = 1 then k else throw (UnauthorizedException ''Login session already used or revoked''))"

end
