(* ===== verification/Auth_Tokens.thy ===== *)
theory Auth_Tokens
  imports Auth_Store
begin

text \<open>
  Login tokens (\<open>auth-token.service.ts\<close>), the check every protected route makes
  (\<open>validateToken\<close> of \<open>auth.service.ts\<close>, \<open>jwt.strategy.ts\<close>), and binding the device a user logs
  in from (\<open>auth-device.service.ts\<close>, \<open>device-identity.util.ts\<close>).
\<close>

subsection \<open>Issuing\<close>

definition payload_of :: "account \<Rightarrow> string option \<Rightarrow> string \<Rightarrow> jwt_payload" where
  "payload_of u dev jti = \<lparr>jw_sub = ac_guid u, jw_name = ac_name u, jw_email = ac_email u,
     jw_admin = ac_admin u, jw_device = dev, jw_jti = jti\<rparr>"

definition days :: "int \<Rightarrow> int" where
  "days n = n * 86400000"

definition token_row ::
  "auth_env \<Rightarrow> string \<Rightarrow> string option \<Rightarrow> string option \<Rightarrow> device_info option \<Rightarrow> string \<Rightarrow> auth_db \<Rightarrow> auth_token" where
  "token_row E u dev uuid info jti d = \<lparr>tk_user = u, tk_jti = jti, tk_device = dev, tk_uuid = uuid,
     tk_info = info, tk_expires = au_now d + days (en_expiry_days E), tk_revoked = False\<rparr>"

definition save_token :: "auth_token \<Rightarrow> auth_db \<Rightarrow> auth_db" where
  "save_token t d = d\<lparr>au_tokens := save_row tk_jti t (au_tokens d)\<rparr>"

text \<open>The identifier is drawn, the setting read, then the token signed and its row saved.\<close>

definition generateToken ::
  "auth_env \<Rightarrow> account \<Rightarrow> string option \<Rightarrow> string option \<Rightarrow> device_info option \<Rightarrow> (string \<Rightarrow> 'r auth) \<Rightarrow> 'r auth" where
  "generateToken E u dev uuid info k =
     draw_id (\<lambda>jti. db_read (\<lambda>_. en_expiry_days E) (\<lambda>n.
     db_update (\<lambda>d. if account_of d (ac_guid u) = None then (None, d)
         else (Some (en_sign E (payload_of u dev jti) (au_now d) n),
               save_token (token_row E (ac_guid u) dev uuid info jti d) d))
       (\<lambda>token. case token of None \<Rightarrow> throw constraint_error | Some t \<Rightarrow> k t)))"

subsection \<open>Checking\<close>

definition live_row :: "string \<Rightarrow> string \<Rightarrow> auth_token \<Rightarrow> bool" where
  "live_row u jti t \<longleftrightarrow> tk_user t = u \<and> tk_jti t = jti \<and> \<not> tk_revoked t"

text \<open>The signature and expiry of the token are checked before the row is looked up.\<close>

definition checkToken :: "auth_env \<Rightarrow> string \<Rightarrow> (jwt_payload option \<Rightarrow> 'r auth) \<Rightarrow> 'r auth" where
  "checkToken E token k = db_read (\<lambda>d. case en_verify E token (au_now d) of
       None \<Rightarrow> None
     | Some p \<Rightarrow> if jw_sub p = [] \<or> jw_jti p = [] then None
         else if list_ex (live_row (jw_sub p) (jw_jti p)) (au_tokens d) then Some p else None) k"

text \<open>\<open>AuthService.validateToken\<close>: the account is looked at as well, and decides on \<open>isAdmin\<close>.\<close>

definition validateToken :: "auth_env \<Rightarrow> string \<Rightarrow> (jwt_payload option \<Rightarrow> 'r auth) \<Rightarrow> 'r auth" where
  "validateToken E token k = checkToken E token (\<lambda>p. case p of
       None \<Rightarrow> k None
     | Some p \<Rightarrow> db_read (\<lambda>d. account_of d (jw_sub p)) (\<lambda>u. case u of
           None \<Rightarrow> k None
         | Some u \<Rightarrow> if ac_status u \<noteq> ACTIVE then k None else k (Some (p\<lparr>jw_admin := ac_admin u\<rparr>))))"

text \<open>\<open>JwtStrategy.validate\<close>, in front of every route that is not public.\<close>

definition authenticated :: "auth_env \<Rightarrow> string option \<Rightarrow> (jwt_payload \<Rightarrow> 'r auth) \<Rightarrow> 'r auth" where
  "authenticated E token k = (case nonempty token of
       None \<Rightarrow> throw (UnauthorizedException ''Invalid token'')
     | Some t \<Rightarrow> validateToken E t (\<lambda>p. case p of
           None \<Rightarrow> throw (UnauthorizedException ''Token expired or revoked'') | Some p \<Rightarrow> k p))"

subsection \<open>Revoking\<close>

definition revoke :: "(auth_token \<Rightarrow> bool) \<Rightarrow> auth_db \<Rightarrow> auth_db" where
  "revoke P d = d\<lparr>au_tokens := map (\<lambda>t. if P t then t\<lparr>tk_revoked := True\<rparr> else t) (au_tokens d)\<rparr>"

definition revokeToken :: "auth_env \<Rightarrow> string \<Rightarrow> string \<Rightarrow> 'r auth \<Rightarrow> 'r auth" where
  "revokeToken E u token k = db_write (\<lambda>d. case en_verify E token (au_now d) of
     None \<Rightarrow> d | Some p \<Rightarrow> revoke (live_row u (jw_jti p)) d) k"

text \<open>A condition with an undefined value is left out of the query.\<close>

definition agrees :: "'v option \<Rightarrow> 'v option \<Rightarrow> bool" where
  "agrees given stored \<longleftrightarrow> given = None \<or> stored = given"

definition revokeDeviceTokens :: "string \<Rightarrow> string option \<Rightarrow> string option \<Rightarrow> 'r auth \<Rightarrow> 'r auth" where
  "revokeDeviceTokens u dev uuid k =
     (if nonempty dev = None \<and> nonempty uuid = None then k
      else db_write (revoke (\<lambda>t. tk_user t = u \<and> agrees dev (tk_device t) \<and> agrees uuid (tk_uuid t) \<and> \<not> tk_revoked t)) k)"

definition active_tokens :: "string \<Rightarrow> auth_db \<Rightarrow> auth_token list" where
  "active_tokens u d = rev (filter (\<lambda>t. tk_user t = u \<and> \<not> tk_revoked t \<and> au_now d < tk_expires t) (au_tokens d))"

definition listSessions :: "string \<Rightarrow> (auth_token list \<Rightarrow> 'r auth) \<Rightarrow> 'r auth" where
  "listSessions u k = db_read (active_tokens u) k"

definition revokeSession :: "string \<Rightarrow> string \<Rightarrow> 'r auth \<Rightarrow> 'r auth" where
  "revokeSession u jti k = db_read (\<lambda>d. find (\<lambda>t. tk_user t = u \<and> tk_jti t = jti) (au_tokens d)) (\<lambda>t. case t of
       None \<Rightarrow> throw (NotFoundException ''Session does not exist'')
     | Some t \<Rightarrow> db_save (\<lambda>d. account_of d (tk_user t) \<noteq> None) (save_token (t\<lparr>tk_revoked := True\<rparr>))
         (throw constraint_error) k)"

subsection \<open>Devices\<close>

definition device_row :: "string \<Rightarrow> auth_db \<Rightarrow> bound_device option" where
  "device_row uuid d = find (\<lambda>b. bp_uuid b = uuid) (au_devices d)"

definition resolveDeviceUuid :: "auth_env \<Rightarrow> string \<Rightarrow> string \<Rightarrow> (string \<Rightarrow> 'r auth) \<Rightarrow> 'r auth" where
  "resolveDeviceUuid E uuid i k =
     (if \<not> en_clone_isolation E then k uuid
      else let isolated = en_isolated_uuid E uuid i in
        db_read (device_row isolated) (\<lambda>existing. if existing \<noteq> None then k isolated
        else db_read (device_row uuid) (\<lambda>legacy.
          k (if map_option bp_id legacy = Some i then uuid else isolated))))"

definition bind_device :: "string \<Rightarrow> string option \<Rightarrow> auth_db \<Rightarrow> auth_db" where
  "bind_device uuid u d = d\<lparr>au_devices :=
     map (\<lambda>b. if bp_uuid b = uuid then b\<lparr>bp_user := u\<rparr> else b) (au_devices d)\<rparr>"

definition resolved :: "auth_env \<Rightarrow> string \<Rightarrow> string option \<Rightarrow> (string \<Rightarrow> 'r auth) \<Rightarrow> 'r auth" where
  "resolved E uuid dev k = (case nonempty dev of None \<Rightarrow> k uuid | Some i \<Rightarrow> resolveDeviceUuid E uuid i k)"

definition createOrUpdateDevice ::
  "auth_env \<Rightarrow> string \<Rightarrow> string option \<Rightarrow> string option \<Rightarrow> 'r auth \<Rightarrow> 'r auth" where
  "createOrUpdateDevice E u dev uuid k = (case nonempty uuid of None \<Rightarrow> k | Some uuid \<Rightarrow>
     if en_clone_isolation E \<and> nonempty dev = None then k
     else resolved E uuid dev (\<lambda>uuid. db_read (device_row uuid) (\<lambda>peer.
       if peer = None then k else db_write (bind_device uuid (Some u)) k)))"

definition unbindDevice :: "auth_env \<Rightarrow> string \<Rightarrow> string \<Rightarrow> string option \<Rightarrow> 'r auth \<Rightarrow> 'r auth" where
  "unbindDevice E u uuid dev k =
     (if en_clone_isolation E \<and> nonempty dev = None then k
      else resolved E uuid dev (\<lambda>uuid.
        db_read (\<lambda>d. find (\<lambda>b. bp_uuid b = uuid \<and> bp_user b = Some u) (au_devices d)) (\<lambda>peer.
          if peer = None then k else db_write (bind_device uuid None) k)))"

text \<open>\<open>AuthService.logout\<close>\<close>

definition logout :: "auth_env \<Rightarrow> string \<Rightarrow> string option \<Rightarrow> string option \<Rightarrow> string option \<Rightarrow> 'r auth \<Rightarrow> 'r auth" where
  "logout E u dev uuid token k =
     (let finish = (if nonempty dev = None \<and> nonempty uuid = None then k
        else revokeDeviceTokens u dev uuid (case nonempty uuid of None \<Rightarrow> k | Some x \<Rightarrow> unbindDevice E u x dev k))
      in case nonempty token of None \<Rightarrow> finish | Some t \<Rightarrow> revokeToken E u t finish)"

end
