(* ===== verification/Auth_Login.thy ===== *)
theory Auth_Login
  imports Auth_Tokens
begin

text \<open>
  Logging in: passwords, one-time codes, codes by mail, passkeys and the directory server
  (\<open>auth.service.ts\<close>, \<open>auth-tfa.service.ts\<close>, \<open>auth-email.service.ts\<close>,
  \<open>auth-passkey.service.ts\<close>, \<open>auth-login.helper.ts\<close>, \<open>auth-response.helper.ts\<close> of
  \<open>src/modules/auth/services\<close>, and the authentication of \<open>src/modules/ldap/ldap.service.ts\<close>).
\<close>

subsection \<open>Answers\<close>

record user_payload =
  up_guid :: string
  up_name :: string
  up_display :: "string option"
  up_email :: "string option"
  up_status :: UserStatus
  up_info :: user_info
  up_admin :: bool
  up_third :: "string option"
  up_tfa_enabled :: "bool option"
  up_has_password :: "bool option"

definition is_set :: "string option \<Rightarrow> bool" where
  "is_set v \<longleftrightarrow> nonempty v \<noteq> None"

text \<open>What is said of the secrets is left out when they were not loaded.\<close>

definition buildUserPayload :: "bool \<Rightarrow> account \<Rightarrow> user_payload" where
  "buildUserPayload secrets u = \<lparr>up_guid = ac_guid u, up_name = ac_name u, up_display = nonempty (ac_display u),
     up_email = nonempty (ac_email u), up_status = ac_status u, up_info = ac_info u, up_admin = ac_admin u,
     up_third = nonempty (ac_third u),
     up_tfa_enabled = (if secrets then Some (is_set (ac_tfa u)) else None),
     up_has_password = (if secrets then Some (is_set (ac_password u)) else None)\<rparr>"

datatype check_kind = EmailCheck | TfaCheck | PasskeyCheck

datatype auth_reply =
    AccessToken string user_payload
  | SecondStep check_kind string user_payload
  | EnforceTfa user_payload
  | TfaSecret string
  | PasskeyOptions "string option" string
  | Sessions "auth_token list"
  | Account user_payload
  | Message

record login_dto =
  lg_type :: string
  lg_username :: "string option"
  lg_password :: "string option"
  lg_id :: "string option"
  lg_uuid :: "string option"
  lg_code :: "string option"
  lg_tfa :: "string option"
  lg_secret :: "string option"
  lg_info :: "device_info option"

type_synonym handler = "auth_reply auth"

subsection \<open>Completing a login\<close>

definition bind_if_given ::
  "auth_env \<Rightarrow> string \<Rightarrow> string option \<Rightarrow> string option \<Rightarrow> handler \<Rightarrow> handler" where
  "bind_if_given E u dev uuid k =
     (if nonempty dev = None \<and> nonempty uuid = None then k else createOrUpdateDevice E u dev uuid k)"

definition issue ::
  "auth_env \<Rightarrow> bool \<Rightarrow> account \<Rightarrow> string option \<Rightarrow> string option \<Rightarrow> device_info option \<Rightarrow> handler" where
  "issue E secrets u dev uuid info = bind_if_given E (ac_guid u) dev uuid
     (generateToken E u dev uuid info (\<lambda>token. return (AccessToken token (buildUserPayload secrets u))))"

definition buildLoginResponse ::
  "auth_env \<Rightarrow> bool \<Rightarrow> account \<Rightarrow> string option \<Rightarrow> string option \<Rightarrow> device_info option \<Rightarrow> handler" where
  "buildLoginResponse = issue"

definition completeLogin ::
  "auth_env \<Rightarrow> account \<Rightarrow> login_session \<Rightarrow> string option \<Rightarrow> string option \<Rightarrow> device_info option \<Rightarrow> handler" where
  "completeLogin E u s dev uuid info = markSessionUsed s (issue E True u dev uuid info)"

subsection \<open>One-time codes\<close>

definition initiateTfaLogin :: "account \<Rightarrow> handler" where
  "initiateTfaLogin u = createSession (ac_guid u) ByTfa None None True
     (\<lambda>s. return (SecondStep TfaCheck (ls_guid s) (buildUserPayload True u)))"

definition expired_session :: http_error where
  "expired_session = UnauthorizedException ''Login session expired or invalid, please log in again''"

definition handleTfaLogin :: "auth_env \<Rightarrow> login_dto \<Rightarrow> handler" where
  "handleTfaLogin E dto = (case (nonempty (lg_tfa dto), nonempty (lg_secret dto)) of
       (Some code, Some secret) \<Rightarrow>
         db_read (findByGuid secret (Some ByTfa) True) (\<lambda>session. case session of
           None \<Rightarrow> throw expired_session
         | Some s \<Rightarrow> db_read (\<lambda>d. (account_of d (ls_user s), au_now d)) (\<lambda>(user, now). case user of
             None \<Rightarrow> throw (UnauthorizedException ''User does not exist'')
           | Some u \<Rightarrow>
               if (case nonempty (lg_username dto) of None \<Rightarrow> False
                   | Some n \<Rightarrow> ac_name u \<noteq> n \<and> ac_email u \<noteq> Some n)
               then throw (UnauthorizedException ''User info mismatch'')
               else (case nonempty (ac_tfa u) of
                 None \<Rightarrow> throw (UnauthorizedException ''Two-factor authentication parameters are invalid'')
               | Some key \<Rightarrow>
                   if \<not> en_totp E key code now
                   then throw (UnauthorizedException ''Incorrect two-factor authentication code'')
                   else if ac_status u = DISABLED then throw (UnauthorizedException ''Account has been disabled'')
                   else completeLogin E u s (lg_id dto) (lg_uuid dto) (lg_info dto))))
     | _ \<Rightarrow> throw (BadRequestException ''Two-factor authentication parameters are incomplete''))"

subsection \<open>Codes by mail\<close>

definition initiateEmailVerification :: "auth_env \<Rightarrow> account \<Rightarrow> handler" where
  "initiateEmailVerification E u = (case nonempty (ac_email u) of
       None \<Rightarrow> throw (BadRequestException ''User has no email set, cannot perform email verification'')
     | Some email \<Rightarrow> draw_id (\<lambda>r. let code = en_email_code E r in
         createSession (ac_guid u) ByEmail (Some email) (Some code) True (\<lambda>s.
         db_read (\<lambda>_. en_mail_sent E email) (\<lambda>sent.
           if \<not> sent
           then throw (BadRequestException ''Failed to send the verification code email, please try again later'')
           else return (SecondStep EmailCheck (ls_guid s) (buildUserPayload True u))))))"

definition handleEmailCodeLogin :: "auth_env \<Rightarrow> login_dto \<Rightarrow> handler" where
  "handleEmailCodeLogin E dto =
     (case (nonempty (lg_username dto), nonempty (lg_code dto), nonempty (lg_secret dto)) of
       (Some name, Some code, Some secret) \<Rightarrow>
         db_read (findByGuid secret (Some ByEmail) True) (\<lambda>session. case session of
           None \<Rightarrow> throw (UnauthorizedException ''Verification code expired or invalid, please log in again'')
         | Some s \<Rightarrow>
             if ls_code s \<noteq> Some code then throw (UnauthorizedException ''Incorrect verification code'')
             else db_read (\<lambda>d. account_named d name) (\<lambda>user. case user of
                 None \<Rightarrow> throw (UnauthorizedException ''User info mismatch'')
               | Some u \<Rightarrow>
                   if ac_guid u \<noteq> ls_user s then throw (UnauthorizedException ''User info mismatch'')
                   else if ac_status u = DISABLED then throw (UnauthorizedException ''Account has been disabled'')
                   else completeLogin E u s (lg_id dto) (lg_uuid dto) (lg_info dto)))
     | _ \<Rightarrow> throw (BadRequestException ''Verification parameters are incomplete''))"

subsection \<open>Passkeys\<close>

definition passkeys_of :: "string \<Rightarrow> auth_db \<Rightarrow> passkey list" where
  "passkeys_of u d = filter (\<lambda>p. pk_user p = u) (au_passkeys d)"

definition when_passkeys_enabled :: "auth_env \<Rightarrow> handler \<Rightarrow> handler" where
  "when_passkeys_enabled E k = db_read (\<lambda>_. en_passkeys_enabled E) (\<lambda>on.
     if on then k else throw (BadRequestException ''Passkey feature is not enabled''))"

text \<open>The challenge of the options is a fresh random value.\<close>

definition beginRegistration :: "auth_env \<Rightarrow> string \<Rightarrow> handler" where
  "beginRegistration E u = when_passkeys_enabled E (db_read (\<lambda>d. account_of d u) (\<lambda>user.
     if user = None then throw (NotFoundException ''User does not exist'')
     else db_read (passkeys_of u) (\<lambda>_. draw_id (\<lambda>challenge.
       createSession u PasskeyReg None (Some challenge) False (\<lambda>_. return (PasskeyOptions None challenge))))))"

definition failed_registration :: http_error where
  "failed_registration = BadRequestException ''Passkey registration verification failed''"

text \<open>The unique index on the credential.\<close>

definition credential_taken :: "auth_db \<Rightarrow> string \<Rightarrow> string \<Rightarrow> bool" where
  "credential_taken d g cid \<longleftrightarrow> list_ex (\<lambda>p. pk_guid p \<noteq> g \<and> pk_credential p = cid) (au_passkeys d)"

definition add_passkey :: "string \<Rightarrow> string \<Rightarrow> string \<Rightarrow> int \<Rightarrow> string option \<Rightarrow> auth_db \<Rightarrow> auth_db" where
  "add_passkey u cid key n name d = (drawn d)\<lparr>au_passkeys := save_row pk_guid
     \<lparr>pk_guid = next_id d, pk_user = u, pk_credential = cid, pk_key = key, pk_counter = n, pk_name = nonempty name\<rparr>
     (au_passkeys d)\<rparr>"

definition verifyRegistration :: "auth_env \<Rightarrow> string \<Rightarrow> string \<Rightarrow> string option \<Rightarrow> handler" where
  "verifyRegistration E u response name = when_passkeys_enabled E
     (db_read (findValidSession u PasskeyReg) (\<lambda>session. case session of
       None \<Rightarrow> throw (BadRequestException ''Registration session expired, please start registration again'')
     | Some s \<Rightarrow> (case Option.bind (ls_code s) (en_attestation E response) of
         None \<Rightarrow> throw failed_registration
       | Some (cid, key, n) \<Rightarrow>
           db_read (\<lambda>d. find (\<lambda>p. pk_credential p = cid) (au_passkeys d)) (\<lambda>existing.
             if existing \<noteq> None then throw (BadRequestException ''This credential already exists'')
             else db_save (\<lambda>d. \<not> credential_taken d (next_id d) cid) (add_passkey u cid key n name)
               (throw constraint_error) (markSessionUsed s (return Message))))))"

definition beginAuthLogin :: "auth_env \<Rightarrow> handler" where
  "beginAuthLogin E = when_passkeys_enabled E (draw_id (\<lambda>challenge.
     createSession ''pending'' Passkey None (Some challenge) False
       (\<lambda>s. return (PasskeyOptions (Some (ls_guid s)) challenge))))"

definition save_passkey :: "passkey \<Rightarrow> auth_db \<Rightarrow> auth_db" where
  "save_passkey p d = d\<lparr>au_passkeys := save_row pk_guid p (au_passkeys d)\<rparr>"

definition failed_passkey :: http_error where
  "failed_passkey = UnauthorizedException ''Passkey authentication failed''"

definition verifyAuthLogin ::
  "auth_env \<Rightarrow> string \<Rightarrow> string \<Rightarrow> string option \<Rightarrow> string option \<Rightarrow> device_info option \<Rightarrow> handler" where
  "verifyAuthLogin E secret response dev uuid info = when_passkeys_enabled E
     (db_read (findByGuid secret None True) (\<lambda>session. case session of
       None \<Rightarrow> throw expired_session
     | Some s \<Rightarrow>
         if ls_method s \<noteq> Passkey \<and> ls_method s \<noteq> PasskeyTfa
         then throw (UnauthorizedException ''Session type mismatch'')
         else db_read (\<lambda>d. find (\<lambda>p. pk_credential p = en_credential_id E response) (au_passkeys d)) (\<lambda>credential.
           case credential of
             None \<Rightarrow> throw (UnauthorizedException ''No matching credential found'')
           | Some p \<Rightarrow>
               if ls_method s = PasskeyTfa \<and> ls_user s \<noteq> pk_user p
               then throw (UnauthorizedException ''Credential does not match the user'')
               else db_read (\<lambda>d. account_of d (pk_user p)) (\<lambda>user. case user of
                 None \<Rightarrow> throw (UnauthorizedException ''User does not exist'')
               | Some u \<Rightarrow>
                   if ac_status u = DISABLED then throw (UnauthorizedException ''Account has been disabled'')
                   else (case Option.bind (ls_code s) (\<lambda>challenge. en_assertion E response challenge p) of
                     None \<Rightarrow> throw failed_passkey
                   | Some n \<Rightarrow> db_save (\<lambda>d. \<not> credential_taken d (pk_guid p) (pk_credential p))
                       (save_passkey (p\<lparr>pk_counter := n\<rparr>)) (throw constraint_error)
                       (completeLogin E u s dev uuid info))))))"

definition initiatePasskeyTfa :: "auth_env \<Rightarrow> account \<Rightarrow> handler" where
  "initiatePasskeyTfa E u = when_passkeys_enabled E (db_read (passkeys_of (ac_guid u)) (\<lambda>credentials.
     if credentials = []
     then throw (BadRequestException ''No Passkey credential bound, cannot perform two-factor authentication'')
     else draw_id (\<lambda>challenge. createSession (ac_guid u) PasskeyTfa None (Some challenge) True
       (\<lambda>s. return (SecondStep PasskeyCheck (ls_guid s) (buildUserPayload True u))))))"

subsection \<open>The directory server\<close>

text \<open>
  \<open>findOrCreateUser\<close>: the first free of the names \<open>base\<close>, \<open>base_1\<close>, \<open>base_2\<close> and so on; the
  lookups of the loop are one step here. \<open>fuel\<close> is the number of names tried.
\<close>

fun free_name :: "string set \<Rightarrow> string \<Rightarrow> nat \<Rightarrow> nat \<Rightarrow> string \<Rightarrow> (string \<times> nat) option" where
  "free_name used base 0 n name = None"
| "free_name used base (Suc fuel) n name =
     (if name \<in> used then free_name used base fuel (Suc n) (base @ ''_'' @ nat_str n) else Some (name, n))"

definition pick_name :: "string \<Rightarrow> nat \<Rightarrow> string \<Rightarrow> auth_db \<Rightarrow> (string \<times> nat) option" where
  "pick_name base n name d = free_name (ac_name ` set (au_users d)) base (length (au_users d) + 2) n name"

text \<open>The part of an address before its \<open>@\<close>; the last resort is \<open>ldap_\<close> and random digits.\<close>

definition ldap_name :: "ldap_user_info \<Rightarrow> string \<Rightarrow> string" where
  "ldap_name i r = (if li_name i \<noteq> [] then li_name i
     else case nonempty (li_display i) of Some n \<Rightarrow> n
     | None \<Rightarrow> (case nonempty (map_option (takeWhile (\<lambda>ch. ch \<noteq> CHR ''@'')) (li_email i)) of Some n \<Rightarrow> n
       | None \<Rightarrow> ''ldap_'' @ take 8 r))"

definition no_info :: user_info where
  "no_info = \<lparr>ui_email_verification = False, ui_tfa_enforce = False, ui_tfa_pending_secret = None,
     ui_passkey_tfa_enabled = False\<rparr>"

definition ldap_account :: "string \<Rightarrow> string \<Rightarrow> ldap_user_info \<Rightarrow> string \<Rightarrow> account" where
  "ldap_account guid name i grp = \<lparr>ac_guid = guid, ac_name = name, ac_display = None, ac_email = nonempty (li_email i),
     ac_password = None,
     ac_note = Some (case nonempty (li_display i) of None \<Rightarrow> ''LDAPUser'' | Some n \<Rightarrow> ''LDAPUser ('' @ n @ '')''),
     ac_status = ACTIVE, ac_admin = False, ac_tfa = None, ac_info = no_info, ac_third = Some ''ldap'',
     ac_subject = Some (''ldap:'' @ li_name i), ac_group = Some grp\<rparr>"

fun create_ldap_user ::
  "nat \<Rightarrow> ldap_user_info \<Rightarrow> string \<Rightarrow> string \<Rightarrow> nat \<Rightarrow> string \<Rightarrow> (account \<Rightarrow> handler) \<Rightarrow> (http_error \<Rightarrow> handler) \<Rightarrow> handler" where
  "create_ldap_user 0 i grp base n name k err =
     err (OtherError ''Failed to create LDAP user, username conflict retried 3 times'')"
| "create_ldap_user (Suc tries) i grp base n name k err =
     db_read (pick_name base n name) (\<lambda>r. case r of
       None \<Rightarrow> err (OtherError ''no free name'')
     | Some (free, m) \<Rightarrow> draw_id (\<lambda>guid. let u = ldap_account guid free i grp in
         db_save (\<lambda>d. \<not> taken_by_other d u) (save_account True True u)
           (create_ldap_user tries i grp base (Suc m) (base @ ''_'' @ nat_str (Suc m)) k err)
           (k u)))"

definition findOrCreateUser ::
  "auth_env \<Rightarrow> ldap_user_info \<Rightarrow> (account \<Rightarrow> handler) \<Rightarrow> (http_error \<Rightarrow> handler) \<Rightarrow> handler" where
  "findOrCreateUser E i k err =
     db_read (\<lambda>d. find (\<lambda>a. ac_subject a = Some (''ldap:'' @ li_name i)) (au_users d)) (\<lambda>existing. case existing of
       Some u \<Rightarrow> (case nonempty (li_email i) of
           None \<Rightarrow> k u
         | Some email \<Rightarrow> if ac_email u = Some email then k u
             else let u' = u\<lparr>ac_email := Some email\<rparr>
               in db_save (\<lambda>d. \<not> taken_by_other d u') (save_account False False u') (err constraint_error) (k u'))
     | None \<Rightarrow> draw_id (\<lambda>r. db_read (\<lambda>_. en_default_group E) (\<lambda>grp.
         create_ldap_user 3 i grp (ldap_name i r) 1 (ldap_name i r) k err)))"

definition ldap_authenticate ::
  "auth_env \<Rightarrow> string \<Rightarrow> string \<Rightarrow> (account \<Rightarrow> handler) \<Rightarrow> (http_error \<Rightarrow> handler) \<Rightarrow> handler" where
  "ldap_authenticate E name password k err =
     db_read (\<lambda>_. en_ldap_enabled E) (\<lambda>on.
       if \<not> on then err (BadRequestException ''LDAP authentication is not enabled'')
       else db_read (\<lambda>_. en_ldap E name password) (\<lambda>r. case r of
         Inl e \<Rightarrow> err e
       | Inr i \<Rightarrow> findOrCreateUser E i (\<lambda>u.
           if ac_status u = DISABLED then err (UnauthorizedException ''Account has been disabled'') else k u) err))"

text \<open>A name that is linked to the directory is decided there; else a failure falls back to the password.\<close>

definition tryLdapAuthentication ::
  "auth_env \<Rightarrow> string \<Rightarrow> string \<Rightarrow> (account option \<Rightarrow> handler) \<Rightarrow> handler" where
  "tryLdapAuthentication E name password k =
     db_read (\<lambda>d. find (\<lambda>a. ac_subject a = Some (''ldap:'' @ name)) (au_users d)) (\<lambda>linked.
       if linked \<noteq> None then ldap_authenticate E name password (\<lambda>u. k (Some u)) throw
       else db_read (\<lambda>_. en_ldap_enabled E) (\<lambda>on.
         if \<not> on then k None
         else ldap_authenticate E name password (\<lambda>u. k (Some u)) (\<lambda>_. k None)))"

subsection \<open>Names and passwords\<close>

definition wrong_password :: http_error where
  "wrong_password = UnauthorizedException ''Incorrect username or password''"

text \<open>What follows a correct password: the second step the account asks for, or the login.\<close>

definition after_password :: "auth_env \<Rightarrow> account \<Rightarrow> login_dto \<Rightarrow> handler" where
  "after_password E u dto =
     (let otherwise = (if is_set (ac_tfa u) then initiateTfaLogin u
          else if ui_tfa_enforce (ac_info u) then return (EnforceTfa (buildUserPayload True u))
          else buildLoginResponse E True u (lg_id dto) (lg_uuid dto) (lg_info dto))
      in if ui_email_verification (ac_info u) \<and> is_set (ac_email u) then initiateEmailVerification E u
         else if ui_passkey_tfa_enabled (ac_info u)
         then db_read (passkeys_of (ac_guid u)) (\<lambda>ps. if ps \<noteq> [] then initiatePasskeyTfa E u else otherwise)
         else otherwise)"

text \<open>An account without a password makes the comparison throw.\<close>

definition localLogin :: "auth_env \<Rightarrow> string \<Rightarrow> string \<Rightarrow> login_dto \<Rightarrow> handler" where
  "localLogin E name password dto =
     db_read (\<lambda>d. account_named d name) (\<lambda>user. case user of
       None \<Rightarrow> throw wrong_password
     | Some u \<Rightarrow> (case ac_password u of
         None \<Rightarrow> throw (OtherError ''Illegal arguments: string, object'')
       | Some h \<Rightarrow>
           if \<not> en_compare E password h then throw wrong_password
           else if ac_status u = DISABLED then throw (UnauthorizedException ''Account has been disabled'')
           else if ac_status u = UNVERIFIED then throw (UnauthorizedException ''Please verify your email first'')
           else after_password E u dto))"

definition handleStandardLogin :: "auth_env \<Rightarrow> login_dto \<Rightarrow> handler" where
  "handleStandardLogin E dto = (case (nonempty (lg_username dto), nonempty (lg_password dto)) of
       (Some name, Some password) \<Rightarrow> tryLdapAuthentication E name password (\<lambda>ldapUser. case ldapUser of
           Some u \<Rightarrow> buildLoginResponse E False u (lg_id dto) (lg_uuid dto) (lg_info dto)
         | None \<Rightarrow> localLogin E name password dto)
     | _ \<Rightarrow> throw (BadRequestException ''Username and password are required''))"

text \<open>The kind of session, not the request, decides which code the second step asks for.\<close>

definition handleEmailCodeStep :: "auth_env \<Rightarrow> login_dto \<Rightarrow> handler" where
  "handleEmailCodeStep E dto = (case nonempty (lg_secret dto) of
       None \<Rightarrow> throw (BadRequestException ''Missing session identifier'')
     | Some secret \<Rightarrow> db_read (findByGuid secret None False) (\<lambda>session. case session of
           None \<Rightarrow> throw expired_session
         | Some s \<Rightarrow> if ls_method s = ByTfa then handleTfaLogin E dto else handleEmailCodeLogin E dto))"

definition login :: "auth_env \<Rightarrow> login_dto \<Rightarrow> handler" where
  "login E dto =
     (if lg_type dto = ''email_code'' then handleEmailCodeStep E dto
      else if lg_type dto = ''sms_code''
      then throw (BadRequestException ''SMS code login is under development and currently unavailable'')
      else if lg_type dto = ''tfa_code'' then handleTfaLogin E dto
      else handleStandardLogin E dto)"

definition getCurrentUserInfo :: "string \<Rightarrow> handler" where
  "getCurrentUserInfo u = db_read (\<lambda>d. account_of d u) (\<lambda>user. case user of
     None \<Rightarrow> throw (UnauthorizedException ''User does not exist'')
   | Some a \<Rightarrow> return (Account (buildUserPayload True a)))"

end
