(* ===== verification/Auth_Accounts.thy ===== *)
theory Auth_Accounts
  imports Auth_Login
begin

text \<open>
  Accounts and their secrets: binding and dropping one-time codes and passkeys
  (\<open>auth-tfa.service.ts\<close>, \<open>auth-passkey.service.ts\<close>), registration (\<open>auth.service.ts\<close>), password
  resets (\<open>password-reset.service.ts\<close>), and what users and administrators change
  (\<open>src/modules/user/user.service.ts\<close>). Administration asks the authorization services, which see
  the accounts as their users.
\<close>

subsection \<open>One-time codes of an account\<close>

definition set_info :: "(user_info \<Rightarrow> user_info) \<Rightarrow> account \<Rightarrow> account" where
  "set_info f a = a\<lparr>ac_info := f (ac_info a)\<rparr>"

definition with_account :: "string \<Rightarrow> (account \<times> int \<Rightarrow> handler) \<Rightarrow> handler" where
  "with_account u k = db_read (\<lambda>d. (account_of d u, au_now d)) (\<lambda>(user, now). case user of
     None \<Rightarrow> throw (NotFoundException ''User does not exist'') | Some a \<Rightarrow> k (a, now))"

definition setupTfa_checks :: "auth_env \<Rightarrow> account \<Rightarrow> int \<Rightarrow> string option \<Rightarrow> unit result" where
  "setupTfa_checks E a now code = (case nonempty (ac_tfa a) of
       None \<Rightarrow> Inr ()
     | Some key \<Rightarrow>
         if \<not> ui_tfa_enforce (ac_info a)
         then Inl (BadRequestException ''2FA is already enabled; disable it first to set it up again'')
         else (case nonempty code of
             None \<Rightarrow> Inl (BadRequestException
               ''2FA is enabled and enforced; the current verification code is required to reset it'')
           | Some c \<Rightarrow> ensure (en_totp E key c now) (UnauthorizedException ''Current verification code is incorrect'')))"

definition setupTfa :: "auth_env \<Rightarrow> string \<Rightarrow> string option \<Rightarrow> handler" where
  "setupTfa E u code = with_account u (\<lambda>(a, now). unless_error (setupTfa_checks E a now code)
     (draw_id (\<lambda>secret. save_user False True (set_info (ui_tfa_pending_secret_update (\<lambda>_. Some secret)) a)
       (return (TfaSecret secret)))))"

definition verifyAndBindTfa :: "auth_env \<Rightarrow> string \<Rightarrow> string \<Rightarrow> handler" where
  "verifyAndBindTfa E u code = with_account u (\<lambda>(a, now).
     if is_set (ac_tfa a) \<and> \<not> ui_tfa_enforce (ac_info a) then throw (BadRequestException ''2FA already enabled'')
     else (case nonempty (ui_tfa_pending_secret (ac_info a)) of
         None \<Rightarrow> throw (BadRequestException ''Please call the setup endpoint to generate a 2FA secret first'')
       | Some key \<Rightarrow>
           if \<not> en_totp E key code now
           then throw (UnauthorizedException ''Incorrect verification code, please try again'')
           else save_user False True
             (set_info (ui_tfa_pending_secret_update (\<lambda>_. None)) (a\<lparr>ac_tfa := Some key\<rparr>)) (return Message)))"

definition disableTfa :: "auth_env \<Rightarrow> string \<Rightarrow> string \<Rightarrow> handler" where
  "disableTfa E u code = with_account u (\<lambda>(a, now). case nonempty (ac_tfa a) of
       None \<Rightarrow> throw (BadRequestException ''2FA is not enabled'')
     | Some key \<Rightarrow>
         if ui_tfa_enforce (ac_info a)
         then throw (BadRequestException ''The administrator requires 2FA to be enabled; it cannot be disabled'')
         else if \<not> en_totp E key code now then throw (UnauthorizedException ''Incorrect verification code'')
         else save_user False True (a\<lparr>ac_tfa := Some []\<rparr>) (return Message))"

subsection \<open>Passkeys of an account\<close>

definition setPasskeyTfaEnabled :: "string \<Rightarrow> bool \<Rightarrow> handler \<Rightarrow> handler" where
  "setPasskeyTfaEnabled u on k = with_account u (\<lambda>(a, now).
     let save = save_user False False (set_info (ui_passkey_tfa_enabled_update (\<lambda>_. on)) a) k
     in if \<not> on then save
        else db_read (passkeys_of u) (\<lambda>ps.
          if ps = [] then throw (BadRequestException
            ''Please bind a Passkey credential before enabling two-factor authentication'') else save))"

definition deleteCredential :: "string \<Rightarrow> string \<Rightarrow> handler" where
  "deleteCredential u g = db_read (\<lambda>d. find (\<lambda>p. pk_guid p = g \<and> pk_user p = u) (au_passkeys d)) (\<lambda>credential.
     if credential = None then throw (NotFoundException ''Credential does not exist'')
     else db_write (\<lambda>d. d\<lparr>au_passkeys := filter (\<lambda>p. pk_guid p \<noteq> g) (au_passkeys d)\<rparr>)
       (db_read (passkeys_of u) (\<lambda>remaining.
         if remaining = [] then setPasskeyTfaEnabled u False (return Message) else return Message)))"

subsection \<open>Registration\<close>

text \<open>\<open>UserGroupService.resolveUserGroupGuid\<close>, with the default group in place.\<close>

definition resolveUserGroupGuid :: "auth_env \<Rightarrow> string option \<Rightarrow> string result" where
  "resolveUserGroupGuid E g = (case nonempty g of
       None \<Rightarrow> Inr (en_default_group E)
     | Some x \<Rightarrow> if x \<in> set (en_groups E) then Inr x else Inl (NotFoundException ''User group does not exist''))"

definition new_account ::
  "string \<Rightarrow> string \<Rightarrow> string option \<Rightarrow> string option \<Rightarrow> string \<Rightarrow> string option \<Rightarrow> UserStatus \<Rightarrow> string \<Rightarrow> account" where
  "new_account guid name disp email hash note st grp = \<lparr>ac_guid = guid, ac_name = name, ac_display = nonempty disp,
     ac_email = nonempty email, ac_password = Some hash, ac_note = Some (case note of None \<Rightarrow> [] | Some n \<Rightarrow> n),
     ac_status = st, ac_admin = False, ac_tfa = None, ac_info = no_info, ac_third = None, ac_subject = None,
     ac_group = Some grp\<rparr>"

definition register :: "auth_env \<Rightarrow> string \<Rightarrow> string \<Rightarrow> string \<Rightarrow> string option \<Rightarrow> handler" where
  "register E name email password note =
     db_read (\<lambda>d. find (\<lambda>a. ac_name a = name \<or> ac_email a = Some email) (au_users d)) (\<lambda>existing. case existing of
       Some a \<Rightarrow> throw (ConflictException (if ac_name a = name then ''Username already exists'' else ''Email already registered''))
     | None \<Rightarrow> db_read (\<lambda>_. en_default_group E) (\<lambda>grp. draw_id (\<lambda>guid.
         save_user True True (new_account guid name None (Some email) (en_hash E password) note ACTIVE grp)
           (return Message))))"

definition createUser ::
  "auth_env \<Rightarrow> string \<Rightarrow> string \<Rightarrow> string option \<Rightarrow> string option \<Rightarrow> string option \<Rightarrow> string option \<Rightarrow> handler" where
  "createUser E name password email note disp gid =
     db_read (\<lambda>_. resolveUserGroupGuid E gid) (\<lambda>grp. case grp of Inl e \<Rightarrow> throw e | Inr grp \<Rightarrow>
     db_read (\<lambda>d. list_ex (\<lambda>a. ac_name a = name) (au_users d)) (\<lambda>taken.
       if taken then throw (BadRequestException ''Username already exists'')
       else let save = draw_id (\<lambda>guid. save_user True True
                  (new_account guid name disp email (en_hash E password) note ACTIVE grp) (return Message))
         in (case nonempty email of None \<Rightarrow> save
           | Some m \<Rightarrow> db_read (\<lambda>d. list_ex (\<lambda>a. ac_email a = Some m) (au_users d)) (\<lambda>taken.
               if taken then throw (BadRequestException ''Email already exists'') else save))))"

subsection \<open>Invitations\<close>

definition add_invitation :: "invitation \<Rightarrow> auth_db \<Rightarrow> auth_db" where
  "add_invitation i d = d\<lparr>au_invitations := save_row iv_guid i (au_invitations d)\<rparr>"

definition new_invitation ::
  "string \<Rightarrow> string \<Rightarrow> string \<Rightarrow> string \<Rightarrow> string option \<Rightarrow> string \<Rightarrow> int \<Rightarrow> invitation" where
  "new_invitation guid token email name disp u now = \<lparr>iv_guid = guid, iv_token = token, iv_email = email,
     iv_name = name, iv_display = nonempty disp, iv_user = Some u, iv_expires = now + days 7, iv_used = None\<rparr>"

definition inviteUser ::
  "auth_env \<Rightarrow> string \<Rightarrow> string \<Rightarrow> string option \<Rightarrow> string option \<Rightarrow> string option \<Rightarrow> handler" where
  "inviteUser E email name note disp gid =
     db_read (\<lambda>_. resolveUserGroupGuid E gid) (\<lambda>grp. case grp of Inl e \<Rightarrow> throw e | Inr grp \<Rightarrow>
     db_read (\<lambda>d. list_ex (\<lambda>a. ac_email a = Some email) (au_users d)) (\<lambda>taken.
       if taken then throw (BadRequestException ''Email already exists'')
       else db_read (\<lambda>d. list_ex (\<lambda>a. ac_name a = name) (au_users d)) (\<lambda>taken.
       if taken then throw (BadRequestException ''Username already exists'')
       else draw_id (\<lambda>guid. save_user True True (new_account guid name disp (Some email) [] note UNVERIFIED grp)
         (draw_id (\<lambda>token. draw_id (\<lambda>ig. db_write
           (\<lambda>d. add_invitation (new_invitation ig token email name disp guid (au_now d)) d)
           (return Message))))))))"

definition usable_invitation :: "string \<Rightarrow> auth_db \<Rightarrow> invitation result" where
  "usable_invitation token d = (case find (\<lambda>i. iv_token i = token) (au_invitations d) of
       None \<Rightarrow> Inl (BadRequestException ''Invalid invitation token'')
     | Some i \<Rightarrow> if iv_used i \<noteq> None then Inl (BadRequestException ''Invitation has already been used'')
         else if iv_expires i < au_now d then Inl (BadRequestException ''Invitation has expired'')
         else Inr i)"

definition acceptInvitation :: "auth_env \<Rightarrow> string \<Rightarrow> string \<Rightarrow> handler" where
  "acceptInvitation E token password = db_read (usable_invitation token) (\<lambda>r. case r of
       Inl e \<Rightarrow> throw e
     | Inr i \<Rightarrow> (case nonempty (iv_user i) of
         None \<Rightarrow> throw (NotFoundException ''Invitation is not linked to a user'')
       | Some g \<Rightarrow> db_read (\<lambda>d. account_of d g) (\<lambda>user. case user of
           None \<Rightarrow> throw (NotFoundException ''Associated user does not exist'')
         | Some a \<Rightarrow> save_user True False (a\<lparr>ac_password := Some (en_hash E password), ac_status := ACTIVE\<rparr>)
             (db_write (\<lambda>d. add_invitation (i\<lparr>iv_used := Some (au_now d)\<rparr>) d) (return Message)))))"

subsection \<open>Ending logins\<close>

text \<open>\<open>revokeActiveTokens\<close>, and what a password reset does instead of it.\<close>

definition end_logins :: "(string \<Rightarrow> bool) \<Rightarrow> auth_db \<Rightarrow> auth_db" where
  "end_logins P d = (revoke (\<lambda>t. P (tk_user t) \<and> \<not> tk_revoked t) d)
     \<lparr>au_sessions := filter (\<lambda>s. \<not> (P (ls_user s) \<and> \<not> ls_used s)) (au_sessions d)\<rparr>"

definition revokeActiveTokens :: "string list \<Rightarrow> auth_db \<Rightarrow> auth_db" where
  "revokeActiveTokens gs d = (if gs = [] then d else end_logins (\<lambda>u. u \<in> set gs) d)"

subsection \<open>Password resets\<close>

definition reset_eligible :: "account \<Rightarrow> bool" where
  "reset_eligible a \<longleftrightarrow> is_set (ac_email a) \<and> \<not> is_set (ac_third a) \<and> ac_status a = ACTIVE"

definition new_reset :: "auth_env \<Rightarrow> string \<Rightarrow> string \<Rightarrow> string \<Rightarrow> int \<Rightarrow> reset_token" where
  "new_reset E guid token u expires = \<lparr>rt_guid = guid, rt_token = en_sha256 E token, rt_user = u,
     rt_expires = expires, rt_used = None\<rparr>"

text \<open>Only the digest is stored; the token goes into the mail, which is sent in the background.\<close>

definition requestReset :: "auth_env \<Rightarrow> string \<Rightarrow> handler" where
  "requestReset E who = db_read (\<lambda>_. en_smtp_enabled E) (\<lambda>on.
     if \<not> on then throw (BadRequestException
       ''Email service is not enabled, please contact the administrator to reset the password'')
     else db_read (\<lambda>d. (account_named d who, au_now d)) (\<lambda>(user, now). case user of
         None \<Rightarrow> return Message
       | Some a \<Rightarrow> if \<not> reset_eligible a then return Message
           else draw_id (\<lambda>token.
             db_write (\<lambda>d. d\<lparr>au_resets := filter (\<lambda>r. rt_user r \<noteq> ac_guid a) (au_resets d)\<rparr>)
             (draw_id (\<lambda>guid. db_write (\<lambda>d. d\<lparr>au_resets :=
                 save_row rt_guid (new_reset E guid token (ac_guid a) (now + minutes 30)) (au_resets d)\<rparr>)
               (return Message))))))"

definition getTokenWithUser :: "auth_env \<Rightarrow> string \<Rightarrow> auth_db \<Rightarrow> (account \<times> reset_token) result" where
  "getTokenWithUser E token d = (case find (\<lambda>r. rt_token r = en_sha256 E token) (au_resets d) of
       None \<Rightarrow> Inl (UnauthorizedException ''Invalid or expired reset token'')
     | Some r \<Rightarrow> if rt_used r \<noteq> None then Inl (UnauthorizedException ''Reset token has already been used or revoked'')
         else if rt_expires r < au_now d then Inl (UnauthorizedException ''Reset token has expired'')
         else (case account_of d (rt_user r) of
             None \<Rightarrow> Inl (UnauthorizedException ''Invalid or expired reset token'')
           | Some a \<Rightarrow> if ac_status a \<noteq> ACTIVE then Inl (UnauthorizedException ''Account is not active'')
               else Inr (a, r)))"

definition confirm_body :: "auth_env \<Rightarrow> string \<Rightarrow> string \<Rightarrow> (auth_db, unit) state_op" where
  "confirm_body E token password =
     sbind (reading (getTokenWithUser E token)) (\<lambda>(a, r).
     sbind (reading (\<lambda>_. ensure (\<not> is_set (ac_third a))
       (BadRequestException ''Third-party login users cannot change the password''))) (\<lambda>_.
     sbind (reading (\<lambda>d. ensure (length (filter (\<lambda>x. rt_guid x = rt_guid r \<and> rt_used x = None) (au_resets d)) = 1)
       (UnauthorizedException ''Reset token has already been used or revoked''))) (\<lambda>_.
     sbind (writing_db (\<lambda>d. d\<lparr>au_resets := map (\<lambda>x.
       if rt_guid x = rt_guid r \<and> rt_used x = None then x\<lparr>rt_used := Some (au_now d)\<rparr> else x) (au_resets d)\<rparr>)) (\<lambda>_.
     sbind (writing_db (save_account True False (a\<lparr>ac_password := Some (en_hash E password)\<rparr>))) (\<lambda>_.
     writing_db (end_logins (\<lambda>u. u = ac_guid a)))))))"

definition confirmReset :: "auth_env \<Rightarrow> string \<Rightarrow> string \<Rightarrow> handler" where
  "confirmReset E token password = transact (confirm_body E token password) (\<lambda>_. return Message)"

subsection \<open>The user's own account\<close>

definition change_body :: "auth_env \<Rightarrow> string \<Rightarrow> string \<Rightarrow> string \<Rightarrow> (auth_db, unit) state_op" where
  "change_body E u old new =
     sbind (reading (\<lambda>d. case account_of d u of
         None \<Rightarrow> Inl (NotFoundException ''User does not exist'')
       | Some a \<Rightarrow> if is_set (ac_third a) then Inl (BadRequestException ''Third-party login users cannot change the password'')
           else (case nonempty (ac_password a) of
               None \<Rightarrow> Inl (BadRequestException
                 ''No password is set for the current account, please contact an administrator'')
             | Some h \<Rightarrow> if \<not> en_compare E old h then Inl (BadRequestException ''Current password is incorrect'')
                 else Inr a))) (\<lambda>a.
     sbind (writing_db (save_account True False (a\<lparr>ac_password := Some (en_hash E new)\<rparr>))) (\<lambda>_.
     writing_db (revokeActiveTokens [u])))"

definition changePassword :: "auth_env \<Rightarrow> string \<Rightarrow> string \<Rightarrow> string \<Rightarrow> handler" where
  "changePassword E u old new = transact (change_body E u old new) (\<lambda>_. return Message)"

definition updateCurrentUser :: "string \<Rightarrow> string option \<Rightarrow> string option \<Rightarrow> string option \<Rightarrow> handler" where
  "updateCurrentUser u disp email note = with_account u (\<lambda>(a, now).
     let a1 = (case disp of None \<Rightarrow> a | Some _ \<Rightarrow> a\<lparr>ac_display := nonempty disp\<rparr>);
         a2 = (case email of None \<Rightarrow> a1 | Some _ \<Rightarrow> a1\<lparr>ac_email := nonempty email\<rparr>);
         a3 = (case note of None \<Rightarrow> a2 | Some _ \<Rightarrow> a2\<lparr>ac_note := note\<rparr>)
     in case nonempty email of None \<Rightarrow> save_user False False a3 (return Message)
       | Some m \<Rightarrow> db_read (\<lambda>d. find (\<lambda>x. ac_email x = Some m) (au_users d)) (\<lambda>existing. case existing of
           Some x \<Rightarrow> if ac_guid x \<noteq> u then throw (BadRequestException ''Email already exists'')
             else save_user False False a3 (return Message)
         | None \<Rightarrow> save_user False False a3 (return Message)))"

subsection \<open>Administration\<close>

definition rbac_user :: "account \<Rightarrow> user" where
  "rbac_user a = \<lparr>u_guid = ac_guid a, u_status = ac_status a, u_isAdmin = ac_admin a\<rparr>"

definition rbac_view :: "auth_db \<Rightarrow> db" where
  "rbac_view d = (au_rbac d)\<lparr>users := map rbac_user (au_users d)\<rparr>"

text \<open>A check of the authorization services, which may write an audit record.\<close>

definition asking :: "(db \<Rightarrow> 'x result \<times> db) \<Rightarrow> (auth_db, 'x) state_op" where
  "asking f d = (case f (rbac_view d) of (r, rb) \<Rightarrow> (r, d\<lparr>au_rbac := rb\<rparr>))"

definition asking_if :: "bool \<Rightarrow> (db \<Rightarrow> unit result \<times> db) \<Rightarrow> (auth_db, unit) state_op" where
  "asking_if c f = (if c then asking f else reading (\<lambda>_. Inr ()))"

definition found_account :: "string \<Rightarrow> (auth_db, account) state_op" where
  "found_account g = reading (\<lambda>d. case account_of d g of
     None \<Rightarrow> Inl (NotFoundException ''User does not exist'') | Some a \<Rightarrow> Inr a)"

record user_change =
  ch_name :: "string option"
  ch_display :: "string option"
  ch_email :: "string option"
  ch_note :: "string option"
  ch_status :: "UserStatus option"
  ch_admin :: "bool option"
  ch_group :: "string option"

definition free_for :: "(account \<Rightarrow> bool) \<Rightarrow> string \<Rightarrow> string \<Rightarrow> auth_db \<Rightarrow> unit result" where
  "free_for P g m d = (case find P (au_users d) of
     None \<Rightarrow> Inr () | Some x \<Rightarrow> ensure (ac_guid x = g) (BadRequestException m))"

definition named_as :: "user_change \<Rightarrow> account \<Rightarrow> auth_db \<Rightarrow> account result" where
  "named_as c a d = (case ch_name c of
       None \<Rightarrow> Inr a
     | Some n \<Rightarrow> rbind (free_for (\<lambda>x. ac_name x = n) (ac_guid a) ''Username already exists'' d)
         (\<lambda>_. Inr (a\<lparr>ac_name := n\<rparr>)))"

definition addressed_as :: "user_change \<Rightarrow> account \<Rightarrow> auth_db \<Rightarrow> account result" where
  "addressed_as c a d = (case ch_email c of
       None \<Rightarrow> Inr a
     | Some _ \<Rightarrow> rbind (case nonempty (ch_email c) of None \<Rightarrow> Inr () | Some m \<Rightarrow>
           free_for (\<lambda>x. ac_email x = Some m) (ac_guid a) ''Email already exists'' d)
         (\<lambda>_. Inr (a\<lparr>ac_email := nonempty (ch_email c)\<rparr>)))"

definition described_as :: "user_change \<Rightarrow> account \<Rightarrow> account" where
  "described_as c a =
     (let a = (case ch_display c of None \<Rightarrow> a | Some _ \<Rightarrow> a\<lparr>ac_display := nonempty (ch_display c)\<rparr>);
          a = (case ch_note c of None \<Rightarrow> a | Some _ \<Rightarrow> a\<lparr>ac_note := ch_note c\<rparr>)
      in case ch_status c of None \<Rightarrow> a | Some s \<Rightarrow> a\<lparr>ac_status := s\<rparr>)"

definition grouped_as :: "auth_env \<Rightarrow> user_change \<Rightarrow> account \<Rightarrow> account result" where
  "grouped_as E c a = (case ch_group c of
       None \<Rightarrow> Inr a
     | Some _ \<Rightarrow> rbind (resolveUserGroupGuid E (ch_group c)) (\<lambda>g. Inr (a\<lparr>ac_group := Some g\<rparr>)))"

definition changed_account :: "auth_env \<Rightarrow> user_change \<Rightarrow> account \<Rightarrow> auth_db \<Rightarrow> account result" where
  "changed_account E c a d = rbind (named_as c a d) (\<lambda>a. rbind (addressed_as c a d) (\<lambda>a. grouped_as E c (described_as c a)))"

definition user_update_body :: "auth_env \<Rightarrow> string \<Rightarrow> user_change \<Rightarrow> string \<Rightarrow> (auth_db, unit) state_op" where
  "user_update_body E g c actor =
     sbind (found_account g) (\<lambda>a.
     sbind (reading (\<lambda>_. ensure (ch_admin c = None)
       (BadRequestException ''The system owner identity cannot be modified''))) (\<lambda>_.
     sbind (asking_if (ch_name c \<noteq> None \<or> ch_display c \<noteq> None \<or> ch_email c \<noteq> None \<or> ch_note c \<noteq> None)
       (\<lambda>rb. assertUserMutation rb actor g ''users.edit'' True)) (\<lambda>_.
     sbind (asking_if (ch_status c \<noteq> None) (\<lambda>rb. assertUserMutation rb actor g ''users.status'' True)) (\<lambda>_.
     sbind (asking_if (ch_group c \<noteq> None) (\<lambda>rb. assertUserMutation rb actor g ''user_groups.membership'' True)) (\<lambda>_.
     sbind (reading (changed_account E c a)) (\<lambda>a'.
     sbind (writing_db (save_account False False a')) (\<lambda>_.
     writing_db (\<lambda>d. if ch_status c \<noteq> None \<and> ac_status a' \<noteq> ac_status a then revokeActiveTokens [g] d else d))))))))"

definition updateUser :: "auth_env \<Rightarrow> string \<Rightarrow> user_change \<Rightarrow> string \<Rightarrow> handler" where
  "updateUser E g c actor = transact (user_update_body E g c actor) (\<lambda>_. return Message)"

definition with_security :: "bool option \<Rightarrow> bool option \<Rightarrow> account \<Rightarrow> account" where
  "with_security enforce verify = set_info (\<lambda>i.
     i\<lparr>ui_tfa_enforce := (case enforce of None \<Rightarrow> ui_tfa_enforce i | Some b \<Rightarrow> b),
       ui_email_verification := (case verify of None \<Rightarrow> ui_email_verification i | Some b \<Rightarrow> b)\<rparr>)"

definition security_body ::
  "auth_env \<Rightarrow> string \<Rightarrow> bool option \<Rightarrow> bool option \<Rightarrow> string option \<Rightarrow> string \<Rightarrow> (auth_db, unit) state_op" where
  "security_body E g enforce verify password actor =
     sbind (found_account g) (\<lambda>a.
     sbind (asking (\<lambda>rb. assertUserMutation rb actor g ''users.security'' True)) (\<lambda>_.
     sbind (reading (\<lambda>_. ensure (password = None \<or> \<not> is_set (ac_third a))
       (BadRequestException ''Third-party login users cannot change the password''))) (\<lambda>_.
     sbind (writing_db (case password of
         None \<Rightarrow> save_account False False (with_security enforce verify a)
       | Some p \<Rightarrow> save_account True False (with_security enforce verify (a\<lparr>ac_password := Some (en_hash E p)\<rparr>)))) (\<lambda>_.
     writing_db (revokeActiveTokens [g])))))"

definition updateUserSecurity ::
  "auth_env \<Rightarrow> string \<Rightarrow> bool option \<Rightarrow> bool option \<Rightarrow> string option \<Rightarrow> string \<Rightarrow> handler" where
  "updateUserSecurity E g enforce verify password actor =
     transact (security_body E g enforce verify password actor) (\<lambda>_. return Message)"

text \<open>The tokens of the account go with it (\<open>ON DELETE CASCADE\<close>).\<close>

definition remove_account :: "string \<Rightarrow> auth_db \<Rightarrow> auth_db" where
  "remove_account g d = d\<lparr>au_users := filter (\<lambda>a. ac_guid a \<noteq> g) (au_users d),
     au_tokens := filter (\<lambda>t. tk_user t \<noteq> g) (au_tokens d)\<rparr>"

definition delete_body :: "string \<Rightarrow> string \<Rightarrow> (auth_db, unit) state_op" where
  "delete_body g actor =
     sbind (found_account g) (\<lambda>_.
     sbind (asking (\<lambda>rb. assertUserMutation rb actor g ''users.delete'' True)) (\<lambda>_.
     sbind (writing_db (revokeActiveTokens [g])) (\<lambda>_.
     writing_db (remove_account g))))"

definition deleteUser :: "string \<Rightarrow> string \<Rightarrow> handler" where
  "deleteUser g actor = transact (delete_body g actor) (\<lambda>_. return Message)"

definition accounts_in :: "string list \<Rightarrow> auth_db \<Rightarrow> account list" where
  "accounts_in gs d = filter (\<lambda>a. ac_guid a \<in> set gs) (au_users d)"

definition logout_body :: "string list \<Rightarrow> string \<Rightarrow> (auth_db, unit) state_op" where
  "logout_body gs actor =
     sbind (reading (\<lambda>d. let found = accounts_in gs d in
       if length found \<noteq> length (js_unique gs) then Inl (NotFoundException ''One or more users do not exist'')
       else Inr found)) (\<lambda>found.
     sbind (for_each (\<lambda>a. asking (\<lambda>rb. assertUserMutation rb actor (ac_guid a) ''users.force_logout'' True)) found) (\<lambda>_.
     writing_db (revokeActiveTokens gs)))"

definition forceLogout :: "string list \<Rightarrow> string \<Rightarrow> handler" where
  "forceLogout gs actor = transact (logout_body gs actor) (\<lambda>_. return Message)"

definition status_body :: "string list \<Rightarrow> UserStatus \<Rightarrow> string \<Rightarrow> (auth_db, string list \<times> string list) state_op" where
  "status_body gs st actor =
     sbind (reading (\<lambda>d. let found = accounts_in gs d in
       if found = [] then Inl (NotFoundException ''User does not exist'') else Inr (map ac_guid found))) (\<lambda>found.
     let known = filter (\<lambda>g. g \<in> set found) gs; failed = filter (\<lambda>g. g \<notin> set found) gs in
     sbind (asking (\<lambda>rb. assertUsersMutation rb actor known ''users.status'')) (\<lambda>_.
     sbind (writing_db (\<lambda>d. d\<lparr>au_users := map (\<lambda>a. if ac_guid a \<in> set known then a\<lparr>ac_status := st\<rparr> else a) (au_users d)\<rparr>)) (\<lambda>_.
     sbind (writing_db (\<lambda>d. if st \<noteq> ACTIVE then revokeActiveTokens known d else d)) (\<lambda>_.
     reading (\<lambda>_. Inr (known, failed))))))"

definition batchUpdateStatus :: "string list \<Rightarrow> UserStatus \<Rightarrow> string \<Rightarrow> handler" where
  "batchUpdateStatus gs st actor = transact (status_body gs st actor) (\<lambda>_. return Message)"

definition batch_security_body ::
  "string list \<Rightarrow> bool option \<Rightarrow> bool option \<Rightarrow> string \<Rightarrow> (auth_db, unit) state_op" where
  "batch_security_body gs enforce verify actor =
     sbind (reading (\<lambda>d. let found = accounts_in gs d in
       if found = [] \<or> length found \<noteq> length (js_unique gs) then Inl (NotFoundException ''User does not exist'')
       else Inr ())) (\<lambda>_.
     sbind (asking (\<lambda>rb. assertUsersMutation rb actor (js_unique gs) ''users.security'')) (\<lambda>_.
     sbind (writing_db (\<lambda>d. d\<lparr>au_users :=
       map (\<lambda>a. if ac_guid a \<in> set gs then with_security enforce verify a else a) (au_users d)\<rparr>)) (\<lambda>_.
     writing_db (revokeActiveTokens (js_unique gs)))))"

definition batchUpdateSecurity :: "string list \<Rightarrow> bool option \<Rightarrow> bool option \<Rightarrow> string \<Rightarrow> handler" where
  "batchUpdateSecurity gs enforce verify actor =
     transact (batch_security_body gs enforce verify actor) (\<lambda>_. return Message)"

end
