(* ===== verification/Auth_Requests.thy ===== *)
theory Auth_Requests
  imports Auth_Accounts
begin

text \<open>
  The requests of the controllers (\<open>src/modules/auth/auth.controller.ts\<close>,
  \<open>password-reset.controller.ts\<close>, \<open>src/modules/user/user.controller.ts\<close>) with the checks in front of
  them, the service as the interleaving of all requests under way, and the rules for what every
  interleaving preserves. \<open>AuthService.register\<close> is reached by no route.
\<close>

subsection \<open>Requests\<close>

datatype user_request =
    Logout "string option" "string option"
  | CurrentUser
  | SetupTfa "string option"
  | VerifyTfa string
  | DisableTfa string
  | BeginPasskey
  | VerifyPasskey string "string option"
  | DeletePasskey string
  | TogglePasskeyTfa bool
  | ListSessions
  | RevokeSession string
  | UpdateMe "string option" "string option" "string option"
  | ChangePassword string string
  | CreateUser string string "string option" "string option" "string option" "string option"
  | InviteUser string string "string option" "string option" "string option"
  | UpdateUser string user_change
  | UpdateSecurity string "bool option" "bool option" "string option"
  | DeleteUser string
  | ForceLogout string
  | ForceLogoutAll "string list"
  | BatchStatus "string list" UserStatus
  | BatchSecurity "string list" "bool option" "bool option"

datatype auth_request =
    Login login_dto
  | BeginPasskeyLogin
  | VerifyPasskeyLogin string string "string option" "string option" "device_info option"
  | RequestReset string
  | ValidateReset string
  | ConfirmReset string string
  | VerifyInvitation string
  | AcceptInvitation string string
  | As "string option" user_request

text \<open>A check of the authorization services in front of a handler, and the guard of a route.\<close>

definition checked :: "(db \<Rightarrow> 'x result \<times> db) \<Rightarrow> handler \<Rightarrow> handler" where
  "checked f k = db_update (asking f) (\<lambda>r. case r of Inl e \<Rightarrow> throw e | Inr _ \<Rightarrow> k)"

definition route :: "string \<Rightarrow> string \<Rightarrow> handler \<Rightarrow> handler" where
  "route code actor k = checked (\<lambda>rb. canActivate rb (Some [code]) False (Some actor)) k"

definition checked_if :: "bool \<Rightarrow> (db \<Rightarrow> 'x result \<times> db) \<Rightarrow> handler \<Rightarrow> handler" where
  "checked_if c f k = (if c then checked f k else k)"

definition membership :: "string option \<Rightarrow> string \<Rightarrow> handler \<Rightarrow> handler" where
  "membership g actor k = checked_if (g \<noteq> None)
     (\<lambda>rb. (requirePermission rb actor ''user_groups.membership'', rb)) k"

definition mutation :: "string \<Rightarrow> string \<Rightarrow> string \<Rightarrow> db \<Rightarrow> unit result \<times> db" where
  "mutation actor g code rb = assertUserMutation rb actor g code False"

definition mutations :: "string \<Rightarrow> string list \<Rightarrow> string \<Rightarrow> db \<Rightarrow> unit result \<times> db" where
  "mutations actor gs code rb = assertUsersMutation rb actor gs code"

definition edits :: "user_change \<Rightarrow> bool" where
  "edits c \<longleftrightarrow> ch_name c \<noteq> None \<or> ch_display c \<noteq> None \<or> ch_email c \<noteq> None \<or> ch_note c \<noteq> None"

definition update_route :: "auth_env \<Rightarrow> string \<Rightarrow> user_change \<Rightarrow> string \<Rightarrow> handler" where
  "update_route E g c actor =
     checked_if (edits c) (mutation actor g ''users.edit'')
     (checked_if (ch_status c \<noteq> None) (mutation actor g ''users.status'')
     (checked_if (ch_group c \<noteq> None) (mutation actor g ''user_groups.membership'')
     (if ch_admin c \<noteq> None
      then throw (BadRequestException ''The system owner identity cannot be changed through user editing'')
      else if \<not> edits c \<and> ch_status c = None \<and> ch_group c = None
      then throw (BadRequestException ''No fields to update'')
      else updateUser E g c actor)))"

fun serve_user :: "auth_env \<Rightarrow> string option \<Rightarrow> string \<Rightarrow> user_request \<Rightarrow> handler" where
  "serve_user E token u (Logout dev uuid) = logout E u dev uuid token (return Message)"
| "serve_user E token u CurrentUser = getCurrentUserInfo u"
| "serve_user E token u (SetupTfa code) = setupTfa E u code"
| "serve_user E token u (VerifyTfa code) = verifyAndBindTfa E u code"
| "serve_user E token u (DisableTfa code) = disableTfa E u code"
| "serve_user E token u BeginPasskey = beginRegistration E u"
| "serve_user E token u (VerifyPasskey response name) = verifyRegistration E u response name"
| "serve_user E token u (DeletePasskey g) = deleteCredential u g"
| "serve_user E token u (TogglePasskeyTfa on) = setPasskeyTfaEnabled u on (return Message)"
| "serve_user E token u ListSessions = listSessions u (\<lambda>ts. return (Sessions ts))"
| "serve_user E token u (RevokeSession jti) = revokeSession u jti (return Message)"
| "serve_user E token u (UpdateMe disp email note) = updateCurrentUser u disp email note"
| "serve_user E token u (ChangePassword old new) = changePassword E u old new"
| "serve_user E token u (CreateUser name password email note disp g) =
     route ''users.create'' u (membership g u (createUser E name password email note disp g))"
| "serve_user E token u (InviteUser email name note disp g) =
     route ''users.create'' u (membership g u (inviteUser E email name note disp g))"
| "serve_user E token u (UpdateUser g c) = update_route E g c u"
| "serve_user E token u (UpdateSecurity g enforce verify password) = route ''users.security'' u
     (checked (mutation u g ''users.security'') (updateUserSecurity E g enforce verify password u))"
| "serve_user E token u (DeleteUser g) = route ''users.delete'' u
     (checked (mutation u g ''users.delete'') (deleteUser g u))"
| "serve_user E token u (ForceLogout g) = route ''users.force_logout'' u
     (checked (mutation u g ''users.force_logout'') (forceLogout [g] u))"
| "serve_user E token u (ForceLogoutAll gs) = route ''users.force_logout'' u
     (checked (mutations u gs ''users.force_logout'') (forceLogout gs u))"
| "serve_user E token u (BatchStatus gs st) = route ''users.status'' u
     (checked (mutations u gs ''users.status'') (batchUpdateStatus gs st u))"
| "serve_user E token u (BatchSecurity gs enforce verify) = route ''users.security'' u
     (checked (mutations u gs ''users.security'') (batchUpdateSecurity gs enforce verify u))"

fun serve_auth :: "auth_env \<Rightarrow> auth_request \<Rightarrow> handler" where
  "serve_auth E (Login dto) = login E dto"
| "serve_auth E BeginPasskeyLogin = beginAuthLogin E"
| "serve_auth E (VerifyPasskeyLogin secret response dev uuid info) = verifyAuthLogin E secret response dev uuid info"
| "serve_auth E (RequestReset who) = requestReset E who"
| "serve_auth E (ValidateReset token) = db_read (getTokenWithUser E token) (\<lambda>r. case r of
     Inl e \<Rightarrow> throw e | Inr (a, _) \<Rightarrow> return (Account (buildUserPayload False a)))"
| "serve_auth E (ConfirmReset token password) = confirmReset E token password"
| "serve_auth E (VerifyInvitation token) = db_read (usable_invitation token) (\<lambda>r. case r of
     Inl e \<Rightarrow> throw e | Inr i \<Rightarrow> return Message)"
| "serve_auth E (AcceptInvitation token password) = acceptInvitation E token password"
| "serve_auth E (As token r) = authenticated E token (\<lambda>p. serve_user E token (jw_sub p) r)"

subsection \<open>All requests at once\<close>

text \<open>
  Requests of the class \<open>A\<close> arrive, time passes, and the clock only shows times of the class \<open>ok\<close>.
\<close>

definition time_passes :: "(int \<Rightarrow> bool) \<Rightarrow> auth_db \<Rightarrow> auth_db \<Rightarrow> bool" where
  "time_passes ok d d' \<longleftrightarrow> au_now d \<le> au_now d' \<and> ok (au_now d') \<and> d' = d\<lparr>au_now := au_now d'\<rparr>"

definition reaches_service ::
  "auth_env \<Rightarrow> (auth_request \<Rightarrow> bool) \<Rightarrow> (int \<Rightarrow> bool) \<Rightarrow> auth_db \<Rightarrow> auth_db \<times> handler list \<Rightarrow> bool" where
  "reaches_service E A ok = reaches_from (serve_auth E) A (time_passes ok)"

lemma service_keeps:
  assumes "reaches_service E A ok d (d', ps)" "I d" "\<And>r. A r \<Longrightarrow> preserves I (serve_auth E r)"
    and "\<And>d n. I d \<Longrightarrow> au_now d \<le> n \<Longrightarrow> ok n \<Longrightarrow> I (d\<lparr>au_now := n\<rparr>)"
  shows "I d'"
proof (rule reaches_preserves [OF assms(1) [unfolded reaches_service_def] assms(2,3)])
  fix d d' assume "I d" "time_passes ok d d'"
  then show "I d'" using assms(4) [of d "au_now d'"] unfolding time_passes_def by metis
qed

lemma reaches_start: "reaches_service E A ok d (d, [])"
  by (simp add: reaches_service_def reaches_from_start)

end
