(* ===== verification/Auth_Invariant.thy ===== *)
theory Auth_Invariant
  imports Auth_Requests
begin

text \<open>
  What every interleaving of requests keeps. A locale names the changes of the tables that occur in
  the services; an invariant that survives each of them survives every request. It is interpreted
  for the second steps of logins, each of which completes at most one, and for the tables: keys,
  unique columns and references.
\<close>

subsection \<open>Changes of the tables\<close>

text \<open>Two states of an account that agree in the columns with an index.\<close>

definition same_identity :: "account \<Rightarrow> account \<Rightarrow> bool" where
  "same_identity a b \<longleftrightarrow> ac_guid b = ac_guid a \<and> ac_name b = ac_name a \<and> ac_email b = ac_email a \<and>
     ac_subject b = ac_subject a"

text \<open>A change of name and address that collides with nobody.\<close>

definition moved_freely :: "auth_db \<Rightarrow> account \<Rightarrow> account \<Rightarrow> bool" where
  "moved_freely d a b \<longleftrightarrow> ac_guid b = ac_guid a \<and> ac_subject b = ac_subject a \<and>
     (ac_name b \<noteq> ac_name a \<longrightarrow> ac_name b \<notin> ac_name ` set (au_users d)) \<and>
     (ac_email b \<noteq> ac_email a \<longrightarrow> ac_email b = None \<or> ac_email b \<notin> ac_email ` set (au_users d))"

lemma moved_same: "same_identity a b \<Longrightarrow> moved_freely d a b"
  by (simp add: same_identity_def moved_freely_def)

text \<open>The code or challenge of a session belongs to its method.\<close>

definition fitting :: "session_method \<Rightarrow> string option \<Rightarrow> string option \<Rightarrow> bool" where
  "fitting m email code \<longleftrightarrow> (code = None \<longleftrightarrow> m = ByTfa) \<and> (email \<noteq> None \<longleftrightarrow> m = ByEmail)"

subsection \<open>Transactions that succeed\<close>

lemma asking_success: "asking f d = (Inr x, d1) \<Longrightarrow> \<exists>rb. d1 = d\<lparr>au_rbac := rb\<rparr>"
  by (auto simp: asking_def split: prod.splits)

lemma asking_if_success: "asking_if c f d = (Inr x, d1) \<Longrightarrow> \<exists>rb. d1 = d\<lparr>au_rbac := rb\<rparr>"
  by (cases c) (auto simp: asking_if_def reading_def dest: asking_success intro: exI [of _ "au_rbac d"])

lemma found_success: "found_account g d = (Inr a, d1) \<longleftrightarrow> account_of d g = Some a \<and> d1 = d"
  by (auto simp: found_account_def reading_def split: option.splits)

lemma for_each_asking:
  "for_each (\<lambda>a. asking (f a)) xs d = (Inr x, d1) \<Longrightarrow> \<exists>rb. d1 = d\<lparr>au_rbac := rb\<rparr>"
proof (induction xs arbitrary: d)
  case Nil
  then show ?case by (auto intro: exI [of _ "au_rbac d"])
next
  case (Cons y ys)
  then obtain d2 where "\<exists>rb. d2 = d\<lparr>au_rbac := rb\<rparr>" "for_each (\<lambda>a. asking (f a)) ys d2 = (Inr x, d1)"
    by (auto simp: sbind_Inr_iff dest!: asking_success)
  then show ?case using Cons.IH by fastforce
qed

lemma confirm_success:
  assumes "confirm_body E token password d = (Inr x, d')"
  obtains a rs and r :: reset_token where "account_of d (rt_user r) = Some a" and "rt_user r = ac_guid a"
    and "d' = end_logins (\<lambda>u. u = ac_guid a) (save_account True False (a\<lparr>ac_password := Some (en_hash E password)\<rparr>)
      (d\<lparr>au_resets := rs\<rparr>))"
proof -
  from assms obtain a r rs where "getTokenWithUser E token d = Inr (a, r)" and
    d': "d' = end_logins (\<lambda>u. u = ac_guid a) (save_account True False (a\<lparr>ac_password := Some (en_hash E password)\<rparr>)
      (d\<lparr>au_resets := rs\<rparr>))"
    by (auto simp: confirm_body_def op_success simp del: sbind_simps)
  then have a: "account_of d (rt_user r) = Some a"
    by (auto simp: getTokenWithUser_def split: option.splits if_splits)
  then have "rt_user r = ac_guid a" by (auto simp: account_of_def dest: find_SomeD)
  from that [OF a this d'] show thesis .
qed

lemma change_success:
  assumes "change_body E u old new d = (Inr x, d')"
  obtains a where "account_of d u = Some a"
    and "d' = revokeActiveTokens [u] (save_account True False (a\<lparr>ac_password := Some (en_hash E new)\<rparr>) d)"
  using assms by (auto simp: change_body_def op_success simp del: sbind_simps split: option.splits if_splits)

lemma update_success:
  assumes "user_update_body E g c actor d = (Inr x, d')"
  obtains a a' rb where "account_of d g = Some a" and "changed_account E c a (d\<lparr>au_rbac := rb\<rparr>) = Inr a'"
    and "d' = (let d4 = save_account False False a' (d\<lparr>au_rbac := rb\<rparr>)
         in if ch_status c \<noteq> None \<and> ac_status a' \<noteq> ac_status a then revokeActiveTokens [g] d4 else d4)"
proof -
  from assms obtain a a' d1 d2 d3 where a: "account_of d g = Some a"
    and q: "asking_if (edits c) (\<lambda>rb. assertUserMutation rb actor g ''users.edit'' True) d = (Inr (), d1)"
      "asking_if (ch_status c \<noteq> None) (\<lambda>rb. assertUserMutation rb actor g ''users.status'' True) d1 = (Inr (), d2)"
      "asking_if (ch_group c \<noteq> None) (\<lambda>rb. assertUserMutation rb actor g ''user_groups.membership'' True) d2 = (Inr (), d3)"
    and a': "changed_account E c a d3 = Inr a'"
    and d': "d' = (let d4 = save_account False False a' d3
       in if ch_status c \<noteq> None \<and> ac_status a' \<noteq> ac_status a then revokeActiveTokens [g] d4 else d4)"
    by (auto simp: user_update_body_def edits_def found_account_def op_success Let_def simp del: sbind_simps split: option.splits)
  obtain rb where "d3 = d\<lparr>au_rbac := rb\<rparr>"
    using asking_if_success [OF q(1)] asking_if_success [OF q(2)] asking_if_success [OF q(3)] by auto
  with a a' d' show thesis using that by blast
qed

lemma security_success:
  assumes "security_body E g e v p actor d = (Inr x, d')"
  obtains a rb where "account_of d g = Some a"
    and "d' = revokeActiveTokens [g] (case p of
         None \<Rightarrow> save_account False False (with_security e v a) (d\<lparr>au_rbac := rb\<rparr>)
       | Some w \<Rightarrow> save_account True False (with_security e v (a\<lparr>ac_password := Some (en_hash E w)\<rparr>)) (d\<lparr>au_rbac := rb\<rparr>))"
proof -
  from assms obtain a d1 where a: "account_of d g = Some a"
    and q: "asking (\<lambda>rb. assertUserMutation rb actor g ''users.security'' True) d = (Inr (), d1)"
    and d': "d' = revokeActiveTokens [g] (case p of
         None \<Rightarrow> save_account False False (with_security e v a) d1
       | Some w \<Rightarrow> save_account True False (with_security e v (a\<lparr>ac_password := Some (en_hash E w)\<rparr>)) d1)"
    by (auto simp: security_body_def found_success op_success simp del: sbind_simps split: option.splits)
  from a d' asking_success [OF q] show thesis using that by blast
qed

lemma status_success:
  assumes "status_body gs st actor d = (Inr x, d')"
  obtains ks rb where "d' = (let d2 = d\<lparr>au_rbac := rb,
      au_users := map (\<lambda>a. if ac_guid a \<in> set ks then a\<lparr>ac_status := st\<rparr> else a) (au_users d)\<rparr>
    in if st \<noteq> ACTIVE then revokeActiveTokens ks d2 else d2)"
proof -
  from assms obtain d1 ks where d1: "\<exists>rb. d1 = d\<lparr>au_rbac := rb\<rparr>" and
    d': "d' = (let d2 = d1\<lparr>au_users := map (\<lambda>a. if ac_guid a \<in> set ks then a\<lparr>ac_status := st\<rparr> else a) (au_users d1)\<rparr>
      in if st \<noteq> ACTIVE then revokeActiveTokens ks d2 else d2)"
    by (auto simp: status_body_def op_success Let_def simp del: sbind_simps set_filter dest!: asking_success)
  from d1 obtain rb where "d1 = d\<lparr>au_rbac := rb\<rparr>" by blast
  with d' show thesis using that [of ks rb] by simp
qed

lemma batch_security_success:
  assumes "batch_security_body gs e v actor d = (Inr x, d')"
  obtains rb where "d' = revokeActiveTokens (js_unique gs) (d\<lparr>au_rbac := rb,
      au_users := map (\<lambda>a. if ac_guid a \<in> set gs then with_security e v a else a) (au_users d)\<rparr>)"
  using assms
  by (auto simp: batch_security_body_def op_success Let_def simp del: sbind_simps dest!: asking_success split: if_splits)

subsection \<open>Changes of accounts\<close>

lemma free_for_Inr:
  "free_for P g m d = Inr u \<longleftrightarrow> (\<forall>x. find P (au_users d) = Some x \<longrightarrow> ac_guid x = g)"
  by (auto simp: free_for_def ensure_Inr_iff split: option.splits)

lemma described_moved: "moved_freely d a (described_as c b) = moved_freely d a b"
  by (cases "ch_display c"; cases "ch_note c"; cases "ch_status c") (simp_all add: described_as_def moved_freely_def)

lemma grouped_moved: "grouped_as E c a' = Inr b \<Longrightarrow> moved_freely d a b = moved_freely d a a'"
  by (auto simp: grouped_as_def rbind_Inr_iff moved_freely_def split: option.splits)

lemma changed_moved:
  assumes "changed_account E c a d = Inr b" "account_of d g = Some a" "distinct (map ac_guid (au_users d))"
  shows "moved_freely d a b"
proof -
  have own: "x = a" if "x \<in> set (au_users d)" "ac_guid x = ac_guid a" for x
    using assms(2,3) that find_SomeD [of "\<lambda>a. ac_guid a = g" "au_users d" a]
    by (auto simp: account_of_def distinct_map inj_on_def)
  have free: "x = a" if "free_for P (ac_guid a) m d = Inr u" "find P (au_users d) = Some x" for P m u x
    using that own find_SomeD [OF that(2)] by (simp add: free_for_Inr)
  have name: "n \<notin> ac_name ` set (au_users d)"
    if f: "free_for (\<lambda>x. ac_name x = n) (ac_guid a) m d = Inr u" and n: "n \<noteq> ac_name a" for n m u
  proof
    assume "n \<in> ac_name ` set (au_users d)"
    then obtain y where "find (\<lambda>x. ac_name x = n) (au_users d) = Some y"
      using find_Some_ex [of _ "au_users d" "\<lambda>x. ac_name x = n"] by blast
    then show False using free [OF f] find_SomeD n by fastforce
  qed
  have email: "Some n \<notin> ac_email ` set (au_users d)"
    if f: "free_for (\<lambda>x. ac_email x = Some n) (ac_guid a) m d = Inr u" and n: "Some n \<noteq> ac_email a" for n m u
  proof
    assume "Some n \<in> ac_email ` set (au_users d)"
    then obtain z where "z \<in> set (au_users d)" "ac_email z = Some n" by auto
    then obtain y where "find (\<lambda>x. ac_email x = Some n) (au_users d) = Some y"
      using find_Some_ex [of z "au_users d" "\<lambda>x. ac_email x = Some n"] by blast
    then show False using free [OF f] find_SomeD n by fastforce
  qed
  from assms(1) obtain a1 a2 where 1: "named_as c a d = Inr a1" and 2: "addressed_as c a1 d = Inr a2"
    and 3: "grouped_as E c (described_as c a2) = Inr b" by (auto simp: changed_account_def rbind_Inr_iff)
  have m1: "moved_freely d a a1" "ac_guid a1 = ac_guid a" "ac_email a1 = ac_email a"
    using 1 by (auto simp: named_as_def rbind_Inr_iff moved_freely_def dest: name split: option.splits)
  have "moved_freely d a a2"
  proof (cases "nonempty (ch_email c)")
    case None
    then show ?thesis using 2 m1 by (auto simp: addressed_as_def rbind_Inr_iff moved_freely_def split: option.splits)
  next
    case (Some m)
    then show ?thesis using 2 m1 email [of m]
      by (auto simp: addressed_as_def rbind_Inr_iff moved_freely_def nonempty_def split: option.splits if_splits)
  qed
  then show ?thesis using grouped_moved [OF 3] described_moved by simp
qed

lemma same_security: "same_identity a (with_security e v a)"
  by (simp add: same_identity_def with_security_def set_info_def)

lemma same_identity_password: "same_identity a b \<Longrightarrow> same_identity a (b\<lparr>ac_password := p\<rparr>)"
  and same_identity_security: "same_identity a b \<Longrightarrow> same_identity a (with_security e v b)"
  by (simp_all add: same_identity_def with_security_def set_info_def)

locale auth_frames =
  fixes I :: "auth_db \<Rightarrow> bool"
  assumes frame_resets: "I d \<Longrightarrow> I (d\<lparr>au_resets := rs\<rparr>)"
    and frame_invitations: "I d \<Longrightarrow> I (d\<lparr>au_invitations := is\<rparr>)"
    and frame_devices: "I d \<Longrightarrow> I (d\<lparr>au_devices := bs\<rparr>)"
    and frame_rbac: "I d \<Longrightarrow> I (d\<lparr>au_rbac := rb\<rparr>)"
    and draws: "I d \<Longrightarrow> I (drawn d)"
    and one_row: "I d \<Longrightarrow> distinct (map ac_guid (au_users d))"
    and revokes: "I d \<Longrightarrow> I (revoke P d)"
    and uses_session: "I d \<Longrightarrow> I (snd (use_session g d))"
    and drops_sessions: "I d \<Longrightarrow> (\<And>s. ls_used s \<Longrightarrow> Q s) \<Longrightarrow> I (d\<lparr>au_sessions := filter Q (au_sessions d)\<rparr>)"
    and drops_passkeys: "I d \<Longrightarrow> I (d\<lparr>au_passkeys := filter C (au_passkeys d)\<rparr>)"
begin

lemma preserves_markSessionUsed: "preserves I k \<Longrightarrow> preserves I (markSessionUsed s k)"
  unfolding markSessionUsed_def by (intro preserves_intros uses_session)

lemma preserves_resolved: "(\<And>x. preserves I (k x)) \<Longrightarrow> preserves I (resolved E uuid dev k)"
  unfolding resolved_def resolveDeviceUuid_def Let_def by (intro preserves_intros)

lemma preserves_createOrUpdateDevice: "preserves I k \<Longrightarrow> preserves I (createOrUpdateDevice E u dev uuid k)"
  unfolding createOrUpdateDevice_def bind_device_def by (intro preserves_intros preserves_resolved frame_devices)

lemma preserves_unbindDevice: "preserves I k \<Longrightarrow> preserves I (unbindDevice E u uuid dev k)"
  unfolding unbindDevice_def bind_device_def by (intro preserves_intros preserves_resolved frame_devices)

lemma preserves_checkToken: "(\<And>p. preserves I (k p)) \<Longrightarrow> preserves I (authenticated E token k)"
  unfolding authenticated_def validateToken_def checkToken_def by (intro preserves_intros) auto

lemma preserves_logout: "preserves I k \<Longrightarrow> preserves I (logout E u dev uuid token k)"
  unfolding logout_def revokeToken_def revokeDeviceTokens_def
  by (intro preserves_intros preserves_unbindDevice revokes) (auto split: option.splits intro: revokes)

lemma preserves_when_passkeys: "preserves I k \<Longrightarrow> preserves I (when_passkeys_enabled E k)"
  unfolding when_passkeys_enabled_def by (intro preserves_intros)

lemma preserves_with_account: "(\<And>a now. preserves I (k (a, now))) \<Longrightarrow> preserves I (with_account u k)"
  unfolding with_account_def by (intro preserves_intros)

lemma preserves_requestReset: "preserves I (requestReset E who)"
  unfolding requestReset_def by (intro preserves_intros draws frame_resets)

subsection \<open>Transactions\<close>

lemma ends_logins: "I d \<Longrightarrow> I (end_logins P d)"
  unfolding end_logins_def using drops_sessions [OF revokes [of d "\<lambda>t. P (tk_user t) \<and> \<not> tk_revoked t"], of "\<lambda>s. \<not> (P (ls_user s) \<and> \<not> ls_used s)"]
  by (simp add: revoke_def)

lemma revokes_active: "I d \<Longrightarrow> I (revokeActiveTokens gs d)"
  by (simp add: revokeActiveTokens_def ends_logins)

lemma preserves_transaction:
  assumes "\<And>d x d'. I d \<Longrightarrow> body d = (Inr x, d') \<Longrightarrow> I d'" "\<And>x. preserves I (k x)"
  shows "preserves I (transact body k)"
  by (rule preserves_transact) (use assms in \<open>auto intro: frame_rbac\<close>)

lemma preserves_deleteUser: "(\<And>d. I d \<Longrightarrow> I (remove_account g d)) \<Longrightarrow> preserves I (deleteUser g actor)"
proof -
  assume removes: "\<And>d. I d \<Longrightarrow> I (remove_account g d)"
  have "I d'" if "I d" and "delete_body g actor d = (Inr x, d')" for d x d'
    using that
    by (auto simp: delete_body_def found_success op_success simp del: sbind_simps
        dest!: asking_success intro!: removes revokes_active frame_rbac)
  then show ?thesis unfolding deleteUser_def by (intro preserves_transaction preserves_intros)
qed

lemma preserves_forceLogout: "preserves I (forceLogout gs actor)"
proof -
  have "I d'" if "I d" and "logout_body gs actor d = (Inr x, d')" for d x d'
    using that
    by (auto simp: logout_body_def op_success Let_def simp del: sbind_simps
        dest!: for_each_asking intro!: revokes_active frame_rbac)
  then show ?thesis unfolding forceLogout_def by (intro preserves_transaction preserves_intros)
qed

lemma preserves_checked: "preserves I k \<Longrightarrow> preserves I (checked f k)"
proof -
  have "I (snd (asking f d))" if "I d" for d
    using that by (auto simp: asking_def frame_rbac split: prod.splits)
  then show "preserves I k \<Longrightarrow> preserves I (checked f k)" unfolding checked_def by (intro preserves_intros)
qed

lemma preserves_checked_if: "preserves I k \<Longrightarrow> preserves I (checked_if c f k)"
  by (simp add: checked_if_def preserves_checked)

lemma preserves_routes: "preserves I k \<Longrightarrow> preserves I (route c actor k)" "preserves I k \<Longrightarrow> preserves I (membership g actor k)"
  by (simp_all add: route_def membership_def preserves_checked preserves_checked_if)

end

text \<open>
  With the changes of accounts, tokens and sessions as well. \<open>fresh\<close> is what the invariant knows of
  an identifier when it is drawn, and a token is saved with such a one, or revoked.
\<close>

locale auth_invariant = auth_frames +
  fixes fresh :: "string \<Rightarrow> bool"
  assumes fresh_drawn: "I d \<Longrightarrow> fresh (next_id d)"
    and frame_now: "I d \<Longrightarrow> I (d\<lparr>au_now := n\<rparr>)"
    and removes: "I d \<Longrightarrow> I (remove_account g d)"
    and saves_new: "I d \<Longrightarrow> \<not> taken_by_other d a \<Longrightarrow> I (save_account pw tfa a d)"
    and saves_moved: "I d \<Longrightarrow> account_of d g = Some a \<Longrightarrow> moved_freely d a b \<Longrightarrow> I (save_account pw tfa b d)"
    and maps_users: "I d \<Longrightarrow> (\<And>a. same_identity a (f a)) \<Longrightarrow> I (d\<lparr>au_users := map f (au_users d)\<rparr>)"
    and saves_token: "I d \<Longrightarrow> account_of d (tk_user t) \<noteq> None \<Longrightarrow> fresh (tk_jti t) \<or> tk_revoked t \<Longrightarrow> I (save_token t d)"
    and adds_session: "I d \<Longrightarrow> fitting m email code \<Longrightarrow> I (snd (add_session u m email code d))"
    and saves_passkey: "I d \<Longrightarrow> \<not> credential_taken d (pk_guid p) (pk_credential p) \<Longrightarrow> I (save_passkey p d)"
begin

lemma saves_new_passkey:
  assumes "I d" "\<not> credential_taken d (next_id d) cid"
  shows "I (add_passkey u cid key n name d)"
proof -
  let ?p = "\<lparr>pk_guid = next_id d, pk_user = u, pk_credential = cid, pk_key = key, pk_counter = n, pk_name = nonempty name\<rparr>"
  have "add_passkey u cid key n name d = save_passkey ?p (drawn d)"
    by (simp add: add_passkey_def save_passkey_def drawn_def)
  moreover have "\<not> credential_taken (drawn d) (pk_guid ?p) (pk_credential ?p)"
    using assms(2) by (simp add: credential_taken_def drawn_def)
  ultimately show ?thesis using saves_passkey [OF draws [OF assms(1)]] by simp
qed

lemma preserves_createSession:
  "fitting m email code \<Longrightarrow> (\<And>s. preserves I (k s)) \<Longrightarrow> preserves I (createSession u m email code del k)"
  unfolding createSession_def delete_unused_def
  by (intro preserves_intros adds_session drops_sessions) auto

lemma preserves_generateToken: "(\<And>t. preserves I (k t)) \<Longrightarrow> preserves I (generateToken E u dev uuid info k)"
  unfolding generateToken_def
  by (intro preserves_intros draws) (auto simp: token_row_def intro!: saves_token fresh_drawn)

lemma preserves_issue: "preserves I (issue E secrets u dev uuid info)"
  unfolding issue_def bind_if_given_def
  by (intro preserves_intros preserves_createOrUpdateDevice preserves_generateToken)

lemma preserves_completeLogin: "preserves I (completeLogin E u s dev uuid info)"
  unfolding completeLogin_def by (intro preserves_markSessionUsed preserves_issue)

lemma preserves_revokeSession: "preserves I k \<Longrightarrow> preserves I (revokeSession u jti k)"
  unfolding revokeSession_def by (intro preserves_intros) (auto intro!: saves_token)

subsection \<open>Logging in\<close>

lemma preserves_handleTfaLogin: "preserves I (handleTfaLogin E dto)"
  unfolding handleTfaLogin_def by (intro preserves_intros preserves_completeLogin)

lemma preserves_handleEmailCodeLogin: "preserves I (handleEmailCodeLogin E dto)"
  unfolding handleEmailCodeLogin_def by (intro preserves_intros preserves_completeLogin)

lemma preserves_initiate:
  "preserves I (initiateTfaLogin u)" "preserves I (initiateEmailVerification E u)" "preserves I (initiatePasskeyTfa E u)"
  unfolding initiateTfaLogin_def initiateEmailVerification_def initiatePasskeyTfa_def
  by (intro preserves_intros preserves_when_passkeys preserves_createSession draws; simp add: fitting_def)+

lemma preserves_passkeys:
  "preserves I (beginRegistration E u)" "preserves I (verifyRegistration E u response name)"
  "preserves I (beginAuthLogin E)" "preserves I (verifyAuthLogin E secret response dev uuid info)"
  unfolding beginRegistration_def verifyRegistration_def beginAuthLogin_def verifyAuthLogin_def
  by (intro preserves_intros preserves_when_passkeys preserves_createSession draws preserves_markSessionUsed preserves_completeLogin;
      simp add: fitting_def saves_passkey saves_new_passkey)+

lemma preserves_create_ldap_user:
  "(\<And>u. preserves I (k u)) \<Longrightarrow> (\<And>e. preserves I (err e)) \<Longrightarrow> preserves I (create_ldap_user tries i grp base n name k err)"
proof (induction tries i grp base n name k err rule: create_ldap_user.induct)
  case (1 i grp base n name k err)
  then show ?case by simp
next
  case (2 tries i grp base n name k err)
  show ?case unfolding create_ldap_user.simps Let_def
    by (intro preserves_intros draws 2 saves_new) simp_all
qed

lemma preserves_ldap_authenticate:
  "(\<And>u. preserves I (k u)) \<Longrightarrow> (\<And>e. preserves I (err e)) \<Longrightarrow> preserves I (ldap_authenticate E name password k err)"
  unfolding ldap_authenticate_def findOrCreateUser_def Let_def
  by (intro preserves_intros preserves_create_ldap_user draws saves_new) simp_all

lemma preserves_login: "preserves I (login E dto)"
  unfolding login_def handleEmailCodeStep_def handleStandardLogin_def tryLdapAuthentication_def localLogin_def
    after_password_def buildLoginResponse_def Let_def
  by (intro preserves_intros preserves_handleTfaLogin preserves_handleEmailCodeLogin preserves_ldap_authenticate preserves_issue preserves_initiate)

subsection \<open>Accounts\<close>

lemma preserves_own_account:
  "preserves I (setupTfa E u code)" "preserves I (verifyAndBindTfa E u c)" "preserves I (disableTfa E u c)"
  "preserves I k \<Longrightarrow> preserves I (setPasskeyTfaEnabled u on k)" "preserves I (updateCurrentUser u disp email note)"
  unfolding setupTfa_def verifyAndBindTfa_def disableTfa_def setPasskeyTfaEnabled_def updateCurrentUser_def Let_def prod.case
  by (rule preserves_with_account, unfold prod.case, intro preserves_intros draws saves_new; assumption?)+

lemma preserves_deleteCredential: "preserves I (deleteCredential u g)"
  unfolding deleteCredential_def by (intro preserves_intros preserves_own_account drops_passkeys)

lemma preserves_new_accounts:
  "preserves I (createUser E name password email' note disp g)" "preserves I (inviteUser E email name note disp g)"
  "preserves I (acceptInvitation E token password)"
  unfolding createUser_def inviteUser_def acceptInvitation_def add_invitation_def Let_def
  by (intro preserves_intros draws saves_new frame_invitations; assumption?)+

lemma saves_same: "I d \<Longrightarrow> account_of d g = Some a \<Longrightarrow> same_identity a b \<Longrightarrow> I (save_account pw tfa b d)"
  by (rule saves_moved [OF _ _ moved_same])

lemma preserves_passwords:
  "preserves I (confirmReset E token password)" "preserves I (changePassword E u old new)"
proof -
  have "I d'" if I: "I d" and c: "confirm_body E token password d = (Inr x, d')" for d x d'
    using c by (rule confirm_success)
      (auto simp: account_of_def same_identity_def intro!: ends_logins saves_same [OF frame_resets [OF I]])
  then show "preserves I (confirmReset E token password)"
    unfolding confirmReset_def by (intro preserves_transaction preserves_intros)
  have "I d'" if I: "I d" and c: "change_body E u old new d = (Inr x, d')" for d x d'
    using c by (rule change_success) (auto simp: same_identity_def intro!: revokes_active saves_same [OF I])
  then show "preserves I (changePassword E u old new)"
    unfolding changePassword_def by (intro preserves_transaction preserves_intros)
qed

lemma preserves_updateUser: "preserves I (updateUser E g c actor)"
proof -
  have "I d'" if I: "I d" and u: "user_update_body E g c actor d = (Inr x, d')" for d x d'
    using u
  proof (rule update_success)
    fix a a' rb
    let ?d = "d\<lparr>au_rbac := rb\<rparr>"
    assume "account_of d g = Some a" and a': "changed_account E c a ?d = Inr a'"
      and d': "d' = (let d4 = save_account False False a' ?d
         in if ch_status c \<noteq> None \<and> ac_status a' \<noteq> ac_status a then revokeActiveTokens [g] d4 else d4)"
    then have a: "account_of ?d g = Some a" by (simp add: account_of_def)
    have i: "I ?d" using I by (rule frame_rbac)
    have "I (save_account False False a' ?d)"
      by (rule saves_moved [OF i a changed_moved [OF a' a one_row [OF i]]])
    then show "I d'" using d' by (auto simp: Let_def revokes_active)
  qed
  then show ?thesis unfolding updateUser_def by (intro preserves_transaction preserves_intros)
qed

lemma preserves_security: "preserves I (updateUserSecurity E g e v p actor)"
proof -
  have "I d'" if I: "I d" and s: "security_body E g e v p actor d = (Inr x, d')" for d x d'
    using s
  proof (rule security_success)
    fix a rb
    assume "account_of d g = Some a" and d': "d' = revokeActiveTokens [g] (case p of
         None \<Rightarrow> save_account False False (with_security e v a) (d\<lparr>au_rbac := rb\<rparr>)
       | Some w \<Rightarrow> save_account True False (with_security e v (a\<lparr>ac_password := Some (en_hash E w)\<rparr>)) (d\<lparr>au_rbac := rb\<rparr>))"
    then have a: "account_of (d\<lparr>au_rbac := rb\<rparr>) g = Some a" by (simp add: account_of_def)
    show "I d'" unfolding d'
      by (cases p) (auto simp: same_identity_def with_security_def set_info_def
        intro!: revokes_active saves_same [OF frame_rbac [OF I] a])
  qed
  then show ?thesis unfolding updateUserSecurity_def by (intro preserves_transaction preserves_intros)
qed

lemma preserves_batches:
  "preserves I (batchUpdateStatus gs st actor)" "preserves I (batchUpdateSecurity gs e v actor)"
proof -
  have m: "I (d\<lparr>au_rbac := rb, au_users := map f (au_users d)\<rparr>)" if "I d" "\<And>a. same_identity a (f a)" for d rb f
    using maps_users [OF frame_rbac [OF that(1)] that(2)] by simp
  have "I d'" if I: "I d" and c: "status_body gs st actor d = (Inr x, d')" for d x d'
    using c by (rule status_success) (simp add: Let_def same_identity_def m [OF I] revokes_active)
  then show "preserves I (batchUpdateStatus gs st actor)"
    unfolding batchUpdateStatus_def by (intro preserves_transaction preserves_intros)
  have "I d'" if I: "I d" and c: "batch_security_body gs e v actor d = (Inr x, d')" for d x d'
    using c by (rule batch_security_success)
      (simp add: m [OF I] same_identity_def with_security_def set_info_def revokes_active)
  then show "preserves I (batchUpdateSecurity gs e v actor)"
    unfolding batchUpdateSecurity_def by (intro preserves_transaction preserves_intros)
qed

subsection \<open>All requests\<close>

lemma preserves_serve_user: "preserves I (serve_user E token u r)"
  unfolding update_route_def
  by (cases r) (simp_all only: serve_user.simps update_route_def getCurrentUserInfo_def listSessions_def,
      (intro preserves_intros preserves_logout preserves_own_account preserves_passkeys preserves_deleteCredential preserves_revokeSession
        preserves_passwords preserves_new_accounts preserves_updateUser preserves_security preserves_deleteUser [OF removes] preserves_forceLogout
        preserves_batches preserves_routes preserves_checked preserves_checked_if; assumption?)+)

lemma preserves_serve_auth: "preserves I (serve_auth E r)"
  by (cases r) (simp_all only: serve_auth.simps,
      (intro preserves_intros preserves_login preserves_passkeys preserves_requestReset preserves_passwords preserves_new_accounts
        preserves_checkToken preserves_serve_user; assumption?)+)

lemma service_invariant: "reaches_service E A ok d (d', ps) \<Longrightarrow> I d \<Longrightarrow> I d'"
  by (rule service_keeps [OF _ _ preserves_serve_auth frame_now])

end

end
