(* ===== verification/Auth_Answers.thy ===== *)
theory Auth_Answers
  imports Auth_Requests
begin

text \<open>
  Which login session a request completes, and that each login answered for a session used that
  session up: a request that answers with a token for a session has made the update that marks the
  session used, and that update found it unused.
\<close>

subsection \<open>Logins of a session\<close>

text \<open>The login session a request presents as its second step.\<close>

fun presents :: "auth_request \<Rightarrow> string option" where
  "presents (Login dto) =
     (if lg_type dto = ''email_code'' \<or> lg_type dto = ''tfa_code'' then nonempty (lg_secret dto) else None)"
| "presents (VerifyPasskeyLogin secret response dev uuid info) = Some secret"
| "presents r = None"

fun logs_in :: "string \<Rightarrow> auth_request \<times> auth_reply \<Rightarrow> bool" where
  "logs_in g (r, AccessToken token u) = (presents r = Some g)"
| "logs_in g (r, a) = False"

text \<open>How often a session was marked used by an update that found it unused.\<close>

definition completions :: "string \<Rightarrow> auth_db \<Rightarrow> nat" where
  "completions g d = count_list (au_completed d) g"

abbreviation pays :: "string \<Rightarrow> (auth_reply \<Rightarrow> bool) \<Rightarrow> nat \<Rightarrow> handler \<Rightarrow> bool" where
  "pays g w n p \<equiv> covers (completions g) w n p"

text \<open>A request that gives no such answer, or that has paid for it.\<close>

definition settled :: "(auth_reply \<Rightarrow> bool) \<Rightarrow> nat \<Rightarrow> bool" where
  "settled w n \<longleftrightarrow> (\<forall>token u. w (AccessToken token u) \<longrightarrow> 0 < n)"

definition quiet :: "(auth_reply \<Rightarrow> bool) \<Rightarrow> bool" where
  "quiet w \<longleftrightarrow> (\<forall>a. w a \<longrightarrow> (\<exists>token u. a = AccessToken token u))"

lemma quiet_simps [simp]:
  "quiet w \<Longrightarrow> \<not> w (SecondStep m s u)" "quiet w \<Longrightarrow> \<not> w (EnforceTfa u)" "quiet w \<Longrightarrow> \<not> w (TfaSecret s)"
  "quiet w \<Longrightarrow> \<not> w (PasskeyOptions g c)" "quiet w \<Longrightarrow> \<not> w (Sessions ts)" "quiet w \<Longrightarrow> \<not> w (Account u)" "quiet w \<Longrightarrow> \<not> w Message"
  by (auto simp: quiet_def)

subsection \<open>What does not touch the history\<close>

lemma completions_same: "au_completed d' = au_completed d \<Longrightarrow> completions g d \<le> completions g d'"
  by (simp add: completions_def)

lemma completions_simps [simp]:
  "completions g (drawn d) = completions g d" "completions g (save_account pw tfa a d) = completions g d"
  "completions g (save_token t d) = completions g d" "completions g (save_passkey p d) = completions g d"
  "completions g (revoke P d) = completions g d" "completions g (delete_unused u d) = completions g d"
  "completions g (snd (add_session u m email code d)) = completions g d"
  "completions g (add_passkey u cid key i name d) = completions g d"
  "completions g (bind_device uuid v d) = completions g d" "completions g (add_invitation iv d) = completions g d"
  "completions g (d\<lparr>au_resets := rs\<rparr>) = completions g d" "completions g (d\<lparr>au_passkeys := ps\<rparr>) = completions g d"
  "completions g (d\<lparr>au_rbac := rb\<rparr>) = completions g d"
  by (simp_all add: completions_def drawn_def save_account_def save_token_def save_passkey_def revoke_def delete_unused_def
      add_session_def Let_def add_passkey_def bind_device_def add_invitation_def)

lemma completions_use: "completions g d \<le> completions g (snd (use_session h d))"
  by (simp add: completions_def use_session_def Let_def)

text \<open>Transactions.\<close>

definition same_history :: "auth_db \<Rightarrow> auth_db \<Rightarrow> bool" where
  "same_history d d' \<longleftrightarrow> au_completed d' = au_completed d"

lemma same_history_rel: "reflp same_history" "transp same_history"
  by (auto simp: same_history_def reflp_def transp_def)

lemma history_asking: "abides same_history (asking q)" "abides same_history (asking_if c p)"
  by (auto simp: abides_def same_history_def asking_def asking_if_def reading_def split: prod.splits)

lemma history_writing: "(\<And>d. au_completed (h d) = au_completed d) \<Longrightarrow> abides same_history (writing_db h)"
  by (simp add: abides_writing same_history_def)

lemma history_pair: "abides same_history (f (fst x) (snd x)) \<Longrightarrow> abides same_history (case x of (a, b) \<Rightarrow> f a b)"
  by (simp add: case_prod_beta)

lemmas history_intros = abides_sbind [OF same_history_rel(2)] abides_for_each [OF same_history_rel]
  abides_reading [OF same_history_rel(1)] history_asking history_writing

lemma history_ended [simp]:
  "au_completed (end_logins P d) = au_completed d" "au_completed (revokeActiveTokens gs d) = au_completed d"
  "au_completed (save_account pw tfa a d) = au_completed d" "au_completed (remove_account u d) = au_completed d"
  by (simp_all add: end_logins_def revokeActiveTokens_def revoke_def save_account_def remove_account_def)

lemma history_bodies:
  "abides same_history (confirm_body E token password)" "abides same_history (change_body E u old new)"
  "abides same_history (user_update_body E u c actor)" "abides same_history (security_body E u en ve pw actor)"
  "abides same_history (delete_body u actor)" "abides same_history (logout_body us actor)"
  "abides same_history (status_body us st actor)" "abides same_history (batch_security_body us en ve actor)"
  unfolding confirm_body_def change_body_def user_update_body_def security_body_def delete_body_def logout_body_def
    status_body_def batch_security_body_def Let_def found_account_def prod.case
  by (intro history_intros history_pair; simp split: option.split)+

lemma pays_transact: "abides same_history b \<Longrightarrow> (\<And>x. pays g w n (k x)) \<Longrightarrow> pays g w n (transact b k)"
  unfolding transact_def by (intro covers_intros completions_same) (simp_all add: abides_def same_history_def)

lemma pays_draw: "(\<And>x. pays g w n (k x)) \<Longrightarrow> pays g w n (draw_id k)"
  unfolding draw_id_def by (intro covers_intros) simp_all

lemma pays_save_user: "pays g w n k \<Longrightarrow> pays g w n (save_user pw tfa a k)"
  unfolding save_user_def by (intro covers_intros) simp_all

lemma pays_createSession: "(\<And>s. pays g w n (k s)) \<Longrightarrow> pays g w n (createSession u m email code del k)"
  unfolding createSession_def by (intro covers_intros) simp_all

lemma pays_check: "pays g w n k \<Longrightarrow> pays g w n (checked f k)"
  unfolding checked_def by (intro covers_intros completions_same) (auto simp: asking_def split: prod.splits)

lemma pays_checks: "pays g w n k \<Longrightarrow> pays g w n (checked_if c f k)"
  "pays g w n k \<Longrightarrow> pays g w n (route code actor k)" "pays g w n k \<Longrightarrow> pays g w n (membership v actor k)"
  by (simp_all add: route_def membership_def checked_if_def pays_check)

lemmas pays_intros = covers_intros pays_transact history_bodies pays_draw pays_save_user pays_createSession pays_check pays_checks

subsection \<open>Requests\<close>

text \<open>Issuing a token needs a completed session in hand, unless the answer does not count.\<close>

lemma pays_issue: "settled w n \<Longrightarrow> pays g w n (issue E secrets u dev uuid info)"
  unfolding issue_def bind_if_given_def createOrUpdateDevice_def resolved_def resolveDeviceUuid_def Let_def generateToken_def
  by (intro pays_intros) (auto simp: settled_def)

lemma pays_completeLogin:
  assumes "ls_guid s = g"
  shows "pays g w 0 (completeLogin E u s dev uuid info)"
proof -
  have "pays g w 1 (issue E True u dev uuid info)" by (rule pays_issue) (simp add: settled_def)
  then show ?thesis unfolding completeLogin_def markSessionUsed_def
    by (intro covers_earn [where P = "\<lambda>n. n = 1"])
      (auto simp: completions_def use_session_def Let_def assms intro: covers_throw)
qed

lemma pays_markSessionUsed: "pays g w n k \<Longrightarrow> pays g w n (markSessionUsed s k)"
  unfolding markSessionUsed_def by (intro covers_intros completions_use)

lemma pays_completeLogin_settled: "settled w n \<Longrightarrow> pays g w n (completeLogin E u s dev uuid info)"
  unfolding completeLogin_def by (intro pays_markSessionUsed pays_issue)

lemma found_guid: "findByGuid h m c d = Some s \<Longrightarrow> ls_guid s = h"
  by (auto simp: findByGuid_def dest: find_SomeD)

text \<open>The handlers of second steps, for the session the request presents.\<close>

lemma pays_second_steps:
  "nonempty (lg_secret dto) = Some g \<Longrightarrow> pays g w 0 (handleTfaLogin E dto)"
  "nonempty (lg_secret dto) = Some g \<Longrightarrow> pays g w 0 (handleEmailCodeLogin E dto)"
  "pays g w 0 (verifyAuthLogin E g response dev uuid info)"
  unfolding handleTfaLogin_def handleEmailCodeLogin_def verifyAuthLogin_def when_passkeys_enabled_def prod.case
  by (intro pays_intros pays_completeLogin; auto dest: found_guid)+

lemma settled_second_steps:
  assumes "settled w n"
  shows "pays g w n (handleTfaLogin E dto)" "pays g w n (handleEmailCodeLogin E dto)"
    "pays g w n (verifyAuthLogin E h response dev uuid info)"
  unfolding handleTfaLogin_def handleEmailCodeLogin_def verifyAuthLogin_def when_passkeys_enabled_def prod.case
  by (intro pays_intros pays_completeLogin_settled assms; simp)+

lemma pays_steps_begun:
  assumes "quiet w"
  shows "pays g w n (initiateTfaLogin u)" "pays g w n (initiateEmailVerification E u)" "pays g w n (initiatePasskeyTfa E u)"
    "pays g w n (beginRegistration E v)" "pays g w n (beginAuthLogin E)" "pays g w n (verifyRegistration E v response name)"
  unfolding initiateTfaLogin_def initiateEmailVerification_def initiatePasskeyTfa_def beginRegistration_def beginAuthLogin_def
    verifyRegistration_def when_passkeys_enabled_def prod.case Let_def
  by (intro pays_intros pays_markSessionUsed; simp add: assms)+

lemma pays_create_ldap_user:
  "(\<And>a. pays g w n (k a)) \<Longrightarrow> (\<And>e. pays g w n (err e)) \<Longrightarrow> pays g w n (create_ldap_user tries i grp base m name k err)"
proof (induction tries i grp base m name k err rule: create_ldap_user.induct)
  case (2 tries i grp base m name k err)
  show ?case unfolding create_ldap_user.simps Let_def by (intro pays_intros 2; simp)
qed simp

lemma pays_ldap_authenticate:
  "(\<And>a. pays g w n (k a)) \<Longrightarrow> (\<And>e. pays g w n (err e)) \<Longrightarrow> pays g w n (ldap_authenticate E name password k err)"
  unfolding ldap_authenticate_def findOrCreateUser_def Let_def
  by (intro pays_intros pays_create_ldap_user; simp)

lemma pays_handleStandardLogin:
  assumes "settled w n" "quiet w"
  shows "pays g w n (handleStandardLogin E dto)"
  unfolding handleStandardLogin_def tryLdapAuthentication_def localLogin_def after_password_def buildLoginResponse_def Let_def prod.case
  by (intro pays_intros pays_ldap_authenticate pays_issue pays_steps_begun assms; simp add: assms)

lemma pays_login:
  assumes "quiet w" "\<And>token u. w (AccessToken token u) \<longleftrightarrow> presents (Login dto) = Some g"
  shows "pays g w 0 (login E dto)"
proof (cases "presents (Login dto) = Some g")
  case True
  then have "nonempty (lg_secret dto) = Some g" "lg_type dto = ''email_code'' \<or> lg_type dto = ''tfa_code''"
    by (simp_all split: if_splits)
  then show ?thesis unfolding login_def handleEmailCodeStep_def by (auto intro!: pays_intros pays_second_steps)
next
  case False
  then have s: "settled w 0" using assms(2) by (simp add: settled_def)
  show ?thesis unfolding login_def handleEmailCodeStep_def
    by (intro pays_intros settled_second_steps pays_handleStandardLogin s assms(1))
qed

lemma pays_authenticated: "(\<And>p. pays g w n (k p)) \<Longrightarrow> pays g w n (authenticated E token k)"
  unfolding authenticated_def validateToken_def checkToken_def by (intro pays_intros; simp)

lemma pays_logout: "pays g w n k \<Longrightarrow> pays g w n (logout E u dev uuid token k)"
  unfolding logout_def revokeToken_def revokeDeviceTokens_def unbindDevice_def resolved_def resolveDeviceUuid_def Let_def
  by (intro pays_intros; simp split: option.splits)

lemma pays_serve_user:
  assumes "settled w n" "quiet w"
  shows "pays g w n (serve_user E token u r)"
proof (cases r)
  case (Logout dev uuid)
  show ?thesis unfolding Logout serve_user.simps by (intro pays_logout covers_return) (simp add: assms)
qed (simp_all only: serve_user.simps getCurrentUserInfo_def setupTfa_def verifyAndBindTfa_def disableTfa_def deleteCredential_def
    setPasskeyTfaEnabled_def listSessions_def revokeSession_def updateCurrentUser_def changePassword_def createUser_def
    inviteUser_def update_route_def updateUser_def updateUserSecurity_def deleteUser_def forceLogout_def batchUpdateStatus_def
    batchUpdateSecurity_def with_account_def Let_def prod.case,
    (intro pays_intros pays_steps_begun assms; simp add: assms)+)

lemma pays_serve_auth: "pays g (\<lambda>a. logs_in g (r, a)) 0 (serve_auth E r)"
proof -
  let ?w = "\<lambda>a. logs_in g (r, a)"
  have q: "quiet ?w" unfolding quiet_def
  proof (intro allI impI)
    fix a assume "logs_in g (r, a)"
    then show "\<exists>token u. a = AccessToken token u" by (cases a) simp_all
  qed
  have s: "presents r \<noteq> Some g \<Longrightarrow> settled ?w 0" by (simp add: settled_def)
  show ?thesis
  proof (cases r)
    case (Login dto)
    then show ?thesis using pays_login [OF q, of dto] by simp
  next
    case BeginPasskeyLogin
    then show ?thesis using pays_steps_begun(5) [OF q] by simp
  next
    case (VerifyPasskeyLogin h response dev uuid info)
    then show ?thesis using pays_second_steps(3) settled_second_steps(3) [OF s] by (cases "h = g") auto
  next
    case (RequestReset who)
    show ?thesis unfolding RequestReset serve_auth.simps requestReset_def prod.case by (intro pays_intros; simp)
  next
    case (ConfirmReset token password)
    show ?thesis unfolding ConfirmReset serve_auth.simps confirmReset_def by (intro pays_intros; simp)
  next
    case (AcceptInvitation token password)
    show ?thesis unfolding AcceptInvitation serve_auth.simps acceptInvitation_def by (intro pays_intros; simp)
  next
    case (As token x)
    then show ?thesis using s q by (auto intro!: pays_authenticated pays_serve_user)
  qed (simp_all, (intro pays_intros; simp)+)
qed

subsection \<open>The service with its answers\<close>

definition reaches_answers_of ::
  "auth_env \<Rightarrow> (auth_request \<Rightarrow> bool) \<Rightarrow> (int \<Rightarrow> bool) \<Rightarrow> auth_db \<Rightarrow>
   auth_db \<times> (auth_db, auth_request \<times> auth_reply) steps list \<Rightarrow> bool" where
  "reaches_answers_of E A ok = reaches_from (answering (serve_auth E)) A (time_passes ok)"

lemma logins_paid:
  assumes "reaches_answers_of E A ok d (d', ps)"
  shows "length (filter (answered (logs_in g)) ps) + completions g d \<le> completions g d'"
proof (rule answered_bound [OF assms [unfolded reaches_answers_of_def]])
  show "covers (completions g) (logs_in g) 0 (answering (serve_auth E) r)" for r
    unfolding answering_def by (rule covers_map_proc) (rule pays_serve_auth)
  show "completions g d \<le> completions g d'" if "time_passes ok d d'" for d d'
  proof -
    from that obtain n where "d' = d\<lparr>au_now := n\<rparr>" unfolding time_passes_def by blast
    then show ?thesis by (simp add: completions_def)
  qed
qed

lemma answers_invariant:
  assumes "reaches_answers_of E A ok d (d', ps)" "I d" "\<And>r. preserves I (serve_auth E r)" "\<And>d n. I d \<Longrightarrow> I (d\<lparr>au_now := n\<rparr>)"
  shows "I d'"
proof (rule reaches_preserves [OF assms(1) [unfolded reaches_answers_of_def], of I, OF assms(2)])
  show "preserves I (answering (serve_auth E) r)" for r by (intro preserves_answering assms(3))
  show "I d'" if "I d" "time_passes ok d d'" for d d'
    using that assms(4) unfolding time_passes_def by metis
qed

lemma completions_distinct: "distinct (au_completed d) \<Longrightarrow> completions g d \<le> 1"
proof -
  have "distinct xs \<Longrightarrow> count_list xs g \<le> 1" for xs
    by (induction xs) auto
  then show "distinct (au_completed d) \<Longrightarrow> completions g d \<le> 1" by (simp add: completions_def)
qed

end
