(* ===== verification/Auth_Safety.thy ===== *)
theory Auth_Safety
  imports Auth_Invariant Auth_Answers
begin

text \<open>
  The invariant of \<open>Auth_Invariant\<close> at work: no login session completes two logins, and the tables
  keep their keys, unique columns and references, whatever requests run at the same time. Tokens that
  were ended stay dead. The search for a free name of a directory account always finds one.
\<close>

subsection \<open>Login sessions\<close>

definition drawn_ids :: "auth_db \<Rightarrow> string set" where
  "drawn_ids d = au_ids d ` {..<au_drawn d}"

text \<open>
  Identifiers do not repeat and sessions carry drawn ones; a session that completed a login is
  never open again, and none completed two.
\<close>

definition single_use :: "auth_db \<Rightarrow> bool" where
  "single_use d \<longleftrightarrow> inj (au_ids d) \<and> distinct (map ac_guid (au_users d)) \<and>
     distinct (map ls_guid (au_sessions d)) \<and> ls_guid ` set (au_sessions d) \<subseteq> drawn_ids d \<and>
     set (au_completed d) \<subseteq> drawn_ids d \<and> distinct (au_completed d) \<and>
     (\<forall>s\<in>set (au_sessions d). ls_guid s \<in> set (au_completed d) \<longrightarrow> ls_used s)"

lemma drawn_ids_drawn: "drawn_ids (drawn d) = insert (next_id d) (drawn_ids d)"
  by (simp add: drawn_ids_def drawn_def next_id_def lessThan_Suc)

lemma next_id_fresh: "inj (au_ids d) \<Longrightarrow> next_id d \<notin> drawn_ids d"
  by (auto simp: drawn_ids_def next_id_def inj_def)

lemma drawn_fields [simp]:
  "au_users (drawn d) = au_users d" "au_tokens (drawn d) = au_tokens d" "au_sessions (drawn d) = au_sessions d"
  "au_passkeys (drawn d) = au_passkeys d" "au_ids (drawn d) = au_ids d" "au_completed (drawn d) = au_completed d"
  "au_now (drawn d) = au_now d"
  by (simp_all add: drawn_def)

lemma drawn_ids_cong: "au_ids d' = au_ids d \<Longrightarrow> au_drawn d' = au_drawn d \<Longrightarrow> drawn_ids d' = drawn_ids d"
  by (simp add: drawn_ids_def)

lemma guids_mapped: "(\<And>a. ac_guid (f a) = ac_guid a) \<Longrightarrow> map ac_guid (map f as) = map ac_guid as"
  by simp

lemma distinct_filtered: "distinct (map f xs) \<Longrightarrow> distinct (map f (filter P xs))"
  by (induction xs) auto

lemma merged_guid [simp]: "ac_guid (merged pw tfa a d) = ac_guid a"
  by (simp add: merged_def Let_def)

lemma single_use_add:
  assumes "single_use d"
  shows "single_use (snd (add_session u m email code d))"
proof -
  let ?s = "fresh_session u m email code d"
  have g: "ls_guid ?s = next_id d" by (simp add: fresh_session_def)
  have n: "next_id d \<notin> drawn_ids d" using assms by (simp add: single_use_def next_id_fresh)
  with assms have "ls_guid ?s \<notin> ls_guid ` set (au_sessions d)" "next_id d \<notin> set (au_completed d)"
    unfolding g by (auto simp: single_use_def)
  moreover have "drawn_ids (snd (add_session u m email code d)) = insert (next_id d) (drawn_ids d)"
    using drawn_ids_cong [of "snd (add_session u m email code d)" "drawn d"]
    by (simp add: add_session_def Let_def drawn_ids_drawn)
  ultimately show ?thesis using assms g
    by (auto simp: single_use_def add_session_def Let_def save_row_new)
qed

lemma single_use_use:
  assumes "single_use d"
  shows "single_use (snd (use_session g d))"
proof -
  let ?d = "snd (use_session g d)" and ?n = "length (filter (open_session g d) (au_sessions d))"
  have new: "g \<notin> set (au_completed d) \<and> g \<in> drawn_ids d" if n: "?n = 1"
  proof -
    from n have "filter (open_session g d) (au_sessions d) \<noteq> []" by auto
    then obtain s where "s \<in> set (au_sessions d)" "open_session g d s" by (auto simp: filter_empty_conv)
    then show ?thesis using assms by (auto simp: single_use_def open_session_def)
  qed
  have used: "open_session g d s"
    if n: "?n = 1" and s: "s \<in> set (au_sessions d)" "ls_guid s = g" for s
  proof -
    from n have "filter (open_session g d) (au_sessions d) \<noteq> []" by auto
    then obtain x where "x \<in> set (au_sessions d)" "open_session g d x" by (auto simp: filter_empty_conv)
    with s assms show ?thesis
      by (auto simp: single_use_def open_session_def distinct_map dest: inj_onD)
  qed
  have "drawn_ids ?d = drawn_ids d" by (simp add: use_session_def Let_def drawn_ids_def)
  moreover have "map ls_guid (au_sessions ?d) = map ls_guid (au_sessions d)"
    by (simp add: use_session_def Let_def)
  then have "distinct (map ls_guid (au_sessions ?d))" "ls_guid ` set (au_sessions ?d) \<subseteq> drawn_ids d"
    using assms by (simp_all add: single_use_def flip: set_map)
  moreover have "distinct (au_completed ?d)" "set (au_completed ?d) \<subseteq> drawn_ids d"
    using assms new by (auto simp: use_session_def Let_def single_use_def)
  moreover have "\<forall>s\<in>set (au_sessions ?d). ls_guid s \<in> set (au_completed ?d) \<longrightarrow> ls_used s"
  proof (intro ballI impI)
    fix s' assume "s' \<in> set (au_sessions ?d)" and c: "ls_guid s' \<in> set (au_completed ?d)"
    then obtain s where s: "s \<in> set (au_sessions d)" and
      s': "s' = (if open_session g d s then s\<lparr>ls_used := True\<rparr> else s)"
      by (auto simp: use_session_def Let_def)
    have "ls_guid s = ls_guid s'" by (simp add: s')
    with c have "ls_guid s \<in> set (au_completed d) \<or> ls_guid s = g \<and> ?n = 1"
      by (simp add: use_session_def Let_def split: if_splits)
    then show "ls_used s'"
    proof
      assume "ls_guid s \<in> set (au_completed d)"
      then show ?thesis using assms s by (simp add: s' single_use_def)
    qed (use used s s' in simp)
  qed
  moreover have "inj (au_ids ?d)" "distinct (map ac_guid (au_users ?d))"
    using assms by (simp_all add: use_session_def Let_def single_use_def)
  ultimately show ?thesis by (simp add: single_use_def)
qed

lemma single_use_frame:
  "single_use d \<Longrightarrow> au_ids d' = au_ids d \<Longrightarrow> au_drawn d' = au_drawn d \<Longrightarrow> au_completed d' = au_completed d \<Longrightarrow>
   au_sessions d' = filter Q (au_sessions d) \<Longrightarrow> distinct (map ac_guid (au_users d')) \<Longrightarrow> single_use d'"
  by (auto simp: single_use_def drawn_ids_cong [of d' d] distinct_filtered)

lemmas single_use_same = single_use_frame [where Q = "\<lambda>_. True"]

lemma single_use_drawn: "single_use d \<Longrightarrow> single_use (drawn d)"
  by (auto simp: single_use_def drawn_ids_drawn)

lemma single_use_guids: "single_use d \<Longrightarrow> distinct (map ac_guid (au_users d))"
  by (simp add: single_use_def)

interpretation single: auth_invariant single_use "\<lambda>_. True"
proof
  show "single_use (save_account pw tfa a d)" if "single_use d" for d a pw tfa
    using that by (rule single_use_same) (simp_all add: save_account_def distinct_save_row single_use_guids [OF that])
  show "single_use (save_account pw tfa b d)" if "single_use d" for d b pw tfa
    using that by (rule single_use_same) (simp_all add: save_account_def distinct_save_row single_use_guids [OF that])
  show "single_use (d\<lparr>au_users := map f (au_users d)\<rparr>)"
    if d: "single_use d" and f: "\<And>a. same_identity a (f a)" for d f
    using d by (rule single_use_same) (use f single_use_guids [OF d] in \<open>simp_all add: same_identity_def o_def\<close>)
  show "single_use (remove_account g d)" if "single_use d" for d g
    using that by (rule single_use_same) (simp_all add: remove_account_def distinct_filtered single_use_guids [OF that])
  show "single_use (d\<lparr>au_sessions := filter Q (au_sessions d)\<rparr>)" if "single_use d" for d Q
    using that by (rule single_use_frame) (simp_all add: single_use_guids [OF that])
qed (auto simp: single_use_guids save_token_def revoke_def save_passkey_def
  intro: single_use_same single_use_drawn single_use_add single_use_use)

text \<open>
  C6. Whatever requests run at the same time, in any interleaving of their database calls: among all
  requests that present a login session as their second step (a one-time code, a mailed code or a
  passkey assertion), at most one is answered with a token, and once one was, the session is used.
\<close>

theorem login_steps_single_use:
  assumes "single_use d" "reaches_answers_of E A ok d (d', ps)"
  shows "length (filter (answered (logs_in g)) ps) \<le> 1 \<and>
     (list_ex (answered (logs_in g)) ps \<longrightarrow> (\<forall>s\<in>set (au_sessions d'). ls_guid s = g \<longrightarrow> ls_used s))"
proof -
  have d': "single_use d'"
    by (rule answers_invariant [OF assms(2), of single_use, OF assms(1) single.preserves_serve_auth single.frame_now])
  have n: "length (filter (answered (logs_in g)) ps) \<le> completions g d'" using logins_paid [OF assms(2), of g] by simp
  have "g \<in> set (au_completed d')" if "list_ex (answered (logs_in g)) ps"
  proof (rule ccontr)
    assume "g \<notin> set (au_completed d')"
    then have "filter (answered (logs_in g)) ps = []" using n by (simp add: completions_def count_list_0_iff)
    with that show False by (simp add: filter_empty_conv list_ex_iff)
  qed
  with n d' completions_distinct [of d' g] show ?thesis by (auto simp: single_use_def)
qed

subsection \<open>The tables\<close>

definition references_account :: "auth_db \<Rightarrow> auth_token \<Rightarrow> bool" where
  "references_account d t \<longleftrightarrow> tk_user t \<in> ac_guid ` set (au_users d)"

definition fits :: "login_session \<Rightarrow> bool" where
  "fits s \<longleftrightarrow> fitting (ls_method s) (ls_email s) (ls_code s)"

definition auth_tables_ok :: "auth_db \<Rightarrow> bool" where
  "auth_tables_ok d \<longleftrightarrow> distinct (map ac_guid (au_users d)) \<and> list_all (\<lambda>a. \<not> taken_by_other d a) (au_users d) \<and>
     distinct (map tk_jti (au_tokens d)) \<and> list_all (references_account d) (au_tokens d) \<and>
     distinct (map pk_guid (au_passkeys d)) \<and> distinct (map pk_credential (au_passkeys d)) \<and>
     list_all fits (au_sessions d)"

lemma account_of_None: "account_of d g = None \<longleftrightarrow> g \<notin> ac_guid ` set (au_users d)"
  by (auto simp: account_of_def find_None_iff)

text \<open>Two accounts share an indexed value.\<close>

definition accounts_clash :: "account \<Rightarrow> account \<Rightarrow> bool" where
  "accounts_clash a b \<longleftrightarrow> ac_guid b \<noteq> ac_guid a \<and> (ac_name b = ac_name a \<or> (ac_email a \<noteq> None \<and> ac_email b = ac_email a) \<or>
     (ac_subject a \<noteq> None \<and> ac_subject b = ac_subject a))"

lemma taken_iff: "taken_by_other d a \<longleftrightarrow> (\<exists>b\<in>set (au_users d). accounts_clash a b)"
  by (simp add: taken_by_other_def list_ex_iff accounts_clash_def)

lemma clash_sym: "accounts_clash a b \<longleftrightarrow> accounts_clash b a"
  by (auto simp: accounts_clash_def)

lemma clash_merged [simp]: "accounts_clash (merged pw tfa a d) b = accounts_clash a b" "accounts_clash a (merged pw tfa b d) = accounts_clash a b"
  by (auto simp: accounts_clash_def merged_def Let_def)

definition accounts_ok :: "account list \<Rightarrow> bool" where
  "accounts_ok as \<longleftrightarrow> distinct (map ac_guid as) \<and> (\<forall>a\<in>set as. \<forall>b\<in>set as. \<not> accounts_clash a b)"

lemma accounts_ok_save:
  assumes "accounts_ok as" "\<And>b. b \<in> set as \<Longrightarrow> \<not> accounts_clash a b"
  shows "accounts_ok (save_row ac_guid a as)"
  using assms clash_sym by (fastforce simp: accounts_ok_def set_save_row distinct_save_row accounts_clash_def)

lemma accounts_ok_filter: "accounts_ok as \<Longrightarrow> accounts_ok (filter P as)"
  by (auto simp: accounts_ok_def distinct_filtered)

lemma same_clash: "same_identity a a' \<Longrightarrow> same_identity b b' \<Longrightarrow> accounts_clash a' b' = accounts_clash a b"
  by (simp add: same_identity_def accounts_clash_def)

lemma accounts_ok_map:
  assumes "accounts_ok as" "\<And>a. same_identity a (f a)"
  shows "accounts_ok (map f as)"
  using assms same_clash [OF assms(2) assms(2)]
  by (auto simp: accounts_ok_def same_identity_def o_def)

lemma moved_no_clash:
  assumes "accounts_ok (au_users d)" "account_of d g = Some a" "moved_freely d a b" "x \<in> set (au_users d)"
  shows "\<not> accounts_clash b x"
proof
  assume c: "accounts_clash b x"
  have a: "a \<in> set (au_users d)" using assms(2) by (auto simp: account_of_def dest: find_SomeD)
  then have "\<not> accounts_clash a x" using assms(1,4) by (simp add: accounts_ok_def)
  then show False using c assms(3,4) by (auto simp: accounts_clash_def moved_freely_def image_iff)
qed

lemma auth_tables_iff:
  "auth_tables_ok d \<longleftrightarrow> accounts_ok (au_users d) \<and>
     (distinct (map tk_jti (au_tokens d)) \<and> tk_user ` set (au_tokens d) \<subseteq> ac_guid ` set (au_users d)) \<and>
     (distinct (map pk_guid (au_passkeys d)) \<and> distinct (map pk_credential (au_passkeys d))) \<and>
     list_all fits (au_sessions d)"
  by (auto simp: auth_tables_ok_def accounts_ok_def list_all_iff taken_iff references_account_def)

lemma tables_save:
  assumes "auth_tables_ok d" "\<And>b. b \<in> set (au_users d) \<Longrightarrow> \<not> accounts_clash a b"
  shows "auth_tables_ok (save_account pw tfa a d)"
  using assms accounts_ok_save [of "au_users d" "merged pw tfa a d"]
  by (auto simp: auth_tables_iff save_account_def)

lemma tables_save_token:
  assumes "auth_tables_ok d" "account_of d (tk_user t) \<noteq> None"
  shows "auth_tables_ok (save_token t d)"
proof -
  have "tk_user t \<in> ac_guid ` set (au_users d)" using assms(2) account_of_None [of d "tk_user t"] by simp
  moreover have "tk_user ` set (save_row tk_jti t (au_tokens d)) \<subseteq> insert (tk_user t) (tk_user ` set (au_tokens d))"
    by (auto simp: set_save_row)
  moreover have "tk_user ` set (au_tokens d) \<subseteq> ac_guid ` set (au_users d)"
    using assms(1) by (simp add: auth_tables_iff)
  ultimately have "tk_user ` set (save_row tk_jti t (au_tokens d)) \<subseteq> ac_guid ` set (au_users d)"
    by (meson insert_subset subset_trans)
  then show ?thesis using assms(1) by (simp add: auth_tables_iff save_token_def distinct_save_row)
qed

lemma distinct_replaced:
  assumes "distinct (map f xs)" "distinct (map g xs)" "\<forall>x\<in>set xs. f x \<noteq> f r \<longrightarrow> g r \<noteq> g x"
  shows "distinct (map g (map (\<lambda>x. if f x = f r then r else x) xs))"
  using assms by (induction xs) (auto simp: image_iff)

lemma tables_save_passkey:
  assumes "auth_tables_ok d" "\<not> credential_taken d (pk_guid p) (pk_credential p)"
  shows "auth_tables_ok (save_passkey p d)"
proof -
  have c: "\<forall>x\<in>set (au_passkeys d). pk_guid x \<noteq> pk_guid p \<longrightarrow> pk_credential p \<noteq> pk_credential x"
    using assms(2) by (force simp: credential_taken_def list_ex_iff)
  have "distinct (map pk_credential (save_row pk_guid p (au_passkeys d)))"
  proof (cases "pk_guid p \<in> pk_guid ` set (au_passkeys d)")
    case True
    then have "list_ex (\<lambda>x. pk_guid x = pk_guid p) (au_passkeys d)" by (auto simp: list_ex_iff image_iff)
    then show ?thesis
      using assms(1) c distinct_replaced [of pk_guid "au_passkeys d" pk_credential p]
      by (simp add: save_row_def auth_tables_iff)
  next
    case False
    then have "\<forall>x\<in>set (au_passkeys d). pk_guid x \<noteq> pk_guid p" by (metis image_eqI)
    with c have "\<forall>x\<in>set (au_passkeys d). pk_credential p \<noteq> pk_credential x" by simp
    then have "pk_credential p \<notin> pk_credential ` set (au_passkeys d)" by auto
    with False show ?thesis using assms(1) by (simp add: save_row_new auth_tables_iff)
  qed
  with assms(1) show ?thesis by (simp add: auth_tables_iff save_passkey_def distinct_save_row)
qed

lemma tables_add_session:
  assumes "auth_tables_ok d" "fitting m email code"
  shows "auth_tables_ok (snd (add_session u m email code d))"
proof -
  have "fits (fresh_session u m email code d)" using assms(2) by (simp add: fits_def fresh_session_def)
  with assms(1) show ?thesis by (auto simp: auth_tables_iff add_session_def Let_def list_all_iff set_save_row)
qed

lemma tables_use_session: "auth_tables_ok d \<Longrightarrow> auth_tables_ok (snd (use_session g d))"
  by (auto simp: auth_tables_iff use_session_def Let_def list_all_iff fits_def)

lemma tables_revoke: "auth_tables_ok d \<Longrightarrow> auth_tables_ok (revoke P d)"
proof -
  have 1: "map tk_jti (au_tokens (revoke P d)) = map tk_jti (au_tokens d)"
    and "map tk_user (au_tokens (revoke P d)) = map tk_user (au_tokens d)"
    by (simp_all add: revoke_def)
  then have 2: "tk_user ` set (au_tokens (revoke P d)) = tk_user ` set (au_tokens d)" by (metis set_map)
  then show "auth_tables_ok d \<Longrightarrow> auth_tables_ok (revoke P d)"
    unfolding auth_tables_iff 1 2 by (simp add: revoke_def)
qed

lemma tables_map:
  assumes "auth_tables_ok d" "\<And>a. same_identity a (f a)"
  shows "auth_tables_ok (d\<lparr>au_users := map f (au_users d)\<rparr>)"
proof -
  have "ac_guid ` set (map f (au_users d)) = ac_guid ` set (au_users d)"
    using assms(2) by (auto simp: same_identity_def image_image)
  with assms show ?thesis by (simp add: auth_tables_iff accounts_ok_map)
qed

lemma tables_remove: "auth_tables_ok d \<Longrightarrow> auth_tables_ok (remove_account g d)"
  by (auto simp: auth_tables_iff remove_account_def accounts_ok_filter distinct_filtered)

interpretation tables: auth_invariant auth_tables_ok "\<lambda>_. True"
proof
  show "auth_tables_ok (save_account pw tfa a d)" if "auth_tables_ok d" "\<not> taken_by_other d a" for d a pw tfa
    using that by (intro tables_save) (auto simp: taken_iff)
  show "auth_tables_ok (save_account pw tfa b d)"
    if "auth_tables_ok d" "account_of d g = Some a" "moved_freely d a b" for d g a b pw tfa
    using that moved_no_clash [of d g a b] by (intro tables_save) (auto simp: auth_tables_iff)
  show "auth_tables_ok (d\<lparr>au_sessions := filter Q (au_sessions d)\<rparr>)" if "auth_tables_ok d" for d Q
    using that by (auto simp: auth_tables_iff list_all_iff)
  show "auth_tables_ok (d\<lparr>au_passkeys := filter C (au_passkeys d)\<rparr>)" if "auth_tables_ok d" for d C
    using that by (auto simp: auth_tables_iff distinct_filtered)
  show "distinct (map ac_guid (au_users d))" if "auth_tables_ok d" for d
    using that by (simp add: auth_tables_ok_def)
qed (simp_all add: tables_save_token tables_save_passkey tables_add_session tables_use_session tables_revoke tables_map
    tables_remove, simp_all add: auth_tables_iff)

text \<open>
  C8. Whatever requests run at the same time, the tables stay well-formed: guids, names, addresses,
  external subjects, token ids and credentials are unique, tokens belong to accounts, and a login
  session carries a code or challenge exactly when its method has one.
\<close>

theorem auth_tables_typed:
  assumes "auth_tables_ok d" "reaches_service E A ok d (d', ps)"
  shows "auth_tables_ok d'"
  by (rule tables.service_invariant [OF assms(2,1)])

subsection \<open>Revoked tokens\<close>

text \<open>The token ids \<open>J\<close> have been given out, and no row with one of them is live.\<close>

definition dead_tokens :: "string set \<Rightarrow> auth_db \<Rightarrow> bool" where
  "dead_tokens J d \<longleftrightarrow> inj (au_ids d) \<and> distinct (map ac_guid (au_users d)) \<and> J \<subseteq> drawn_ids d \<and>
     (\<forall>t\<in>set (au_tokens d). tk_jti t \<in> J \<longrightarrow> tk_revoked t)"

lemma dead_frame:
  "dead_tokens J d \<Longrightarrow> au_ids d' = au_ids d \<Longrightarrow> au_drawn d' = au_drawn d \<Longrightarrow> distinct (map ac_guid (au_users d')) \<Longrightarrow>
   (\<And>t. t \<in> set (au_tokens d') \<Longrightarrow> t \<in> set (au_tokens d) \<or> tk_revoked t \<or> tk_jti t \<notin> J) \<Longrightarrow> dead_tokens J d'"
  unfolding dead_tokens_def drawn_ids_cong [of d' d] by auto

lemma dead_guids: "dead_tokens J d \<Longrightarrow> distinct (map ac_guid (au_users d))"
  by (simp add: dead_tokens_def)

lemma dead_drawn: "dead_tokens J d \<Longrightarrow> dead_tokens J (drawn d)"
  by (auto simp: dead_tokens_def drawn_ids_drawn)

lemma dead_fresh: "dead_tokens J d \<Longrightarrow> next_id d \<notin> J"
  using next_id_fresh by (auto simp: dead_tokens_def)

lemma dead_add: "dead_tokens J d \<Longrightarrow> dead_tokens J (snd (add_session u m email code d))"
  by (rule dead_frame [OF dead_drawn]) (auto simp: add_session_def Let_def dead_guids)

interpretation dead: auth_invariant "dead_tokens J" "\<lambda>j. j \<notin> J" for J
proof
  show "dead_tokens J (save_account pw tfa a d)" if "dead_tokens J d" for d a pw tfa
    using that by (rule dead_frame) (simp_all add: save_account_def distinct_save_row dead_guids [OF that])
  show "dead_tokens J (save_account pw tfa b d)" if "dead_tokens J d" for d b pw tfa
    using that by (rule dead_frame) (simp_all add: save_account_def distinct_save_row dead_guids [OF that])
  show "dead_tokens J (d\<lparr>au_users := map f (au_users d)\<rparr>)"
    if d: "dead_tokens J d" and f: "\<And>a. same_identity a (f a)" for d f
    using d by (rule dead_frame) (use f dead_guids [OF d] in \<open>simp_all add: same_identity_def o_def\<close>)
  show "dead_tokens J (remove_account g d)" if "dead_tokens J d" for d g
    using that by (rule dead_frame) (auto simp: remove_account_def distinct_filtered dead_guids [OF that])
  show "dead_tokens J (save_token t d)" if "dead_tokens J d" "tk_jti t \<notin> J \<or> tk_revoked t" for d t
    using that(1) by (rule dead_frame) (use that(2) in \<open>auto simp: save_token_def set_save_row dead_guids [OF that(1)]\<close>)
  show "dead_tokens J (revoke P d)" if "dead_tokens J d" for d P
    using that by (rule dead_frame) (auto simp: revoke_def dead_guids [OF that])
  show "dead_tokens J (snd (use_session g d))" if "dead_tokens J d" for d g
    using that by (rule dead_frame) (simp_all add: use_session_def Let_def dead_guids [OF that])
qed (auto simp: dead_fresh dead_guids save_passkey_def intro: dead_frame dead_drawn dead_add)

text \<open>The requests that end the logins of a user.\<close>

fun ends_logins_of :: "string \<Rightarrow> string \<Rightarrow> user_request \<Rightarrow> bool" where
  "ends_logins_of actor u (ChangePassword old new) = (u = actor)"
| "ends_logins_of actor u (UpdateSecurity g enforce verify password) = (u = g)"
| "ends_logins_of actor u (DeleteUser g) = (u = g)"
| "ends_logins_of actor u (ForceLogout g) = (u = g)"
| "ends_logins_of actor u (ForceLogoutAll gs) = (u \<in> set gs)"
| "ends_logins_of actor u (BatchSecurity gs enforce verify) = (u \<in> set gs)"
| "ends_logins_of actor u r = False"

definition tokens_ended :: "string \<Rightarrow> auth_db \<Rightarrow> auth_db \<Rightarrow> bool" where
  "tokens_ended u d d' \<longleftrightarrow> au_ids d' = au_ids d \<and> au_drawn d' = au_drawn d \<and>
     (\<forall>t\<in>set (au_tokens d'). \<exists>t0\<in>set (au_tokens d). tk_user t = tk_user t0 \<and> tk_jti t = tk_jti t0 \<and>
        (tk_user t0 = u \<longrightarrow> tk_revoked t))"

lemma ended_revoke: "u \<in> set gs \<Longrightarrow> au_ids d' = au_ids d \<Longrightarrow> au_drawn d' = au_drawn d \<Longrightarrow> au_tokens d' = au_tokens d \<Longrightarrow>
    tokens_ended u d (revokeActiveTokens gs d')"
  by (auto simp: tokens_ended_def revokeActiveTokens_def end_logins_def revoke_def)

lemma alone_checked:
  assumes "alone (checked f k) d = (Inr x, d')"
  obtains rb where "alone k (d\<lparr>au_rbac := rb\<rparr>) = (Inr x, d')"
  using assms by (auto simp: checked_def asking_def split: prod.splits sum.splits)

lemma save_account_fields [simp]:
  "au_tokens (save_account pw tfa a d) = au_tokens d" "au_ids (save_account pw tfa a d) = au_ids d"
  "au_drawn (save_account pw tfa a d) = au_drawn d"
  by (simp_all add: save_account_def)

lemma logout_success:
  assumes "logout_body gs actor d = (Inr x, d')"
  obtains rb where "d' = revokeActiveTokens gs (d\<lparr>au_rbac := rb\<rparr>)"
  using assms by (auto simp: logout_body_def op_success Let_def simp del: sbind_simps dest!: for_each_asking)

lemma delete_success:
  assumes "delete_body g actor d = (Inr x, d')"
  obtains rb where "d' = remove_account g (revokeActiveTokens [g] (d\<lparr>au_rbac := rb\<rparr>))"
  using assms by (auto simp: delete_body_def found_success op_success simp del: sbind_simps dest!: asking_success)

lemma logins_ended:
  assumes "ends_logins_of actor u r" "alone (serve_user E token actor r) d = (Inr x, d')"
  shows "tokens_ended u d d'"
proof (cases r)
  case (ChangePassword old new)
  then obtain y where "change_body E actor old new d = (Inr y, d')"
    using assms(2) by (auto simp: changePassword_def split: prod.splits sum.splits)
  then show ?thesis using assms(1) ChangePassword by (auto elim!: change_success intro!: ended_revoke)
next
  case (UpdateSecurity g e v p)
  then obtain rb where "alone (updateUserSecurity E g e v p actor) (d\<lparr>au_rbac := rb\<rparr>) = (Inr x, d')"
    using assms(2) by (auto simp: route_def elim!: alone_checked)
  then obtain y where "security_body E g e v p actor (d\<lparr>au_rbac := rb\<rparr>) = (Inr y, d')"
    by (auto simp: updateUserSecurity_def split: prod.splits sum.splits)
  then show ?thesis using assms(1) UpdateSecurity
    by (auto elim!: security_success intro!: ended_revoke split: option.splits)
next
  case (DeleteUser g)
  then obtain rb where "alone (deleteUser g actor) (d\<lparr>au_rbac := rb\<rparr>) = (Inr x, d')"
    using assms(2) by (auto simp: route_def elim!: alone_checked)
  then obtain rb' where "d' = remove_account g (revokeActiveTokens [g] (d\<lparr>au_rbac := rb'\<rparr>))"
    unfolding deleteUser_def by (auto elim!: delete_success split: prod.splits sum.splits)
  moreover have "tokens_ended u d (revokeActiveTokens [g] (d\<lparr>au_rbac := rb'\<rparr>))"
    using assms(1) DeleteUser by (intro ended_revoke) simp_all
  ultimately show ?thesis by (simp add: tokens_ended_def remove_account_def)
next
  case (ForceLogout g)
  then obtain rb where "alone (forceLogout [g] actor) (d\<lparr>au_rbac := rb\<rparr>) = (Inr x, d')"
    using assms(2) by (auto simp: route_def elim!: alone_checked)
  then show ?thesis using assms(1) ForceLogout unfolding forceLogout_def
    by (auto elim!: logout_success intro!: ended_revoke split: prod.splits sum.splits)
next
  case (ForceLogoutAll gs)
  then obtain rb where "alone (forceLogout gs actor) (d\<lparr>au_rbac := rb\<rparr>) = (Inr x, d')"
    using assms(2) by (auto simp: route_def elim!: alone_checked)
  then show ?thesis using assms(1) ForceLogoutAll unfolding forceLogout_def
    by (auto elim!: logout_success intro!: ended_revoke split: prod.splits sum.splits)
next
  case (BatchSecurity gs e v)
  then obtain rb where "alone (batchUpdateSecurity gs e v actor) (d\<lparr>au_rbac := rb\<rparr>) = (Inr x, d')"
    using assms(2) by (auto simp: route_def elim!: alone_checked)
  then show ?thesis using assms(1) BatchSecurity unfolding batchUpdateSecurity_def
    by (auto elim!: batch_security_success intro!: ended_revoke split: prod.splits sum.splits)
qed (use assms in simp_all)

definition own_ids :: "auth_db \<Rightarrow> bool" where
  "own_ids d \<longleftrightarrow> inj (au_ids d) \<and> tk_jti ` set (au_tokens d) \<subseteq> drawn_ids d"

lemma ended_dead:
  assumes "tokens_ended u d d'" "auth_tables_ok d" "own_ids d" "distinct (map ac_guid (au_users d'))"
  shows "dead_tokens (tk_jti ` {t \<in> set (au_tokens d). tk_user t = u}) d'"
proof -
  have "tk_revoked t" if "t \<in> set (au_tokens d')" "t1 \<in> set (au_tokens d)" "tk_user t1 = u" "tk_jti t = tk_jti t1" for t t1
  proof -
    from assms(1) that(1) obtain t0 where t0: "t0 \<in> set (au_tokens d)" "tk_jti t = tk_jti t0" "tk_user t0 = u \<longrightarrow> tk_revoked t"
      by (auto simp: tokens_ended_def)
    have "t0 = t1" using assms(2) t0(1,2) that(2,4) by (auto simp: auth_tables_ok_def distinct_map dest: inj_onD)
    with t0(3) that(3) show ?thesis by simp
  qed
  then show ?thesis
    using assms(1,3,4) by (auto simp: dead_tokens_def tokens_ended_def own_ids_def drawn_ids_def)
qed

text \<open>A token with a dead identifier opens no route.\<close>

lemma dead_rejected:
  assumes "dead_tokens J d" "en_verify E t (au_now d) = Some p" "jw_jti p \<in> J"
  shows "\<exists>m. fst (alone (authenticated E (Some t) k) d) = Inl (UnauthorizedException m)"
proof (cases "t = []")
  case True
  then show ?thesis by (simp add: authenticated_def nonempty_def)
next
  case False
  have "\<not> list_ex (live_row (jw_sub p) (jw_jti p)) (au_tokens d)"
    using assms(1,3) by (auto simp: dead_tokens_def list_ex_iff live_row_def)
  then show ?thesis using assms(2) False
    by (simp add: authenticated_def validateToken_def checkToken_def nonempty_def)
qed

text \<open>
  C5. A request that ends the logins of a user is final: after the user changed the password, or an
  administrator logged the user out, changed the security settings or deleted the account, no token
  the user had is accepted by any route, whatever requests arrive afterwards.
\<close>

theorem ended_logins_stay_ended:
  assumes "auth_tables_ok d" "own_ids d"
    and "alone (serve_user E token actor r) d = (Inr x, d1)" "ends_logins_of actor u r"
    and "t \<in> set (au_tokens d)" "tk_user t = u"
    and "reaches_service E A ok d1 (d2, ps)" "en_verify E jwt (au_now d2) = Some p" "jw_jti p = tk_jti t"
  shows "\<exists>m. fst (alone (authenticated E (Some jwt) k) d2) = Inl (UnauthorizedException m)"
proof -
  have "distinct (map ac_guid (au_users d1))"
    using preserves_alone [OF tables.preserves_serve_user [of E token actor r] assms(1)] assms(3)
    by (simp add: auth_tables_ok_def)
  with assms(1,2,3,4) have "dead_tokens (tk_jti ` {t \<in> set (au_tokens d). tk_user t = u}) d1"
    by (intro ended_dead logins_ended)
  then have "dead_tokens (tk_jti ` {t \<in> set (au_tokens d). tk_user t = u}) d2"
    by (rule dead.service_invariant [OF assms(7)])
  then show ?thesis using assms(5,6,8,9) by (intro dead_rejected) auto
qed

subsection \<open>Names for directory accounts\<close>

text \<open>The value of a decimal numeral, which \<open>nat_str\<close> writes.\<close>

definition numeral_value :: "string \<Rightarrow> nat" where
  "numeral_value s = foldl (\<lambda>v ch. 10 * v + (of_char ch - 48)) 0 s"

lemma numeral_value_nat_str: "numeral_value (nat_str n) = n"
proof (induction n rule: nat_str.induct)
  case (1 n)
  have d: "of_char (char_of (48 + m) :: char) - 48 = m" if "m < 10" for m :: nat
    using that by (simp add: of_char_of)
  show ?case
  proof (cases "n < 10")
    case True
    then show ?thesis by (simp add: nat_str.simps [of n] numeral_value_def d)
  next
    case False
    then have "nat_str n = nat_str (n div 10) @ [char_of (48 + n mod 10)]" by (simp add: nat_str.simps [of n])
    then have "numeral_value (nat_str n) = 10 * numeral_value (nat_str (n div 10)) + n mod 10"
      by (simp add: numeral_value_def d)
    with 1 [OF False] show ?thesis by simp
  qed
qed

lemma nat_str_inj: "nat_str m = nat_str n \<longleftrightarrow> m = n"
  by (metis numeral_value_nat_str)

lemma free_name_None:
  "free_name used base fuel n name = None \<Longrightarrow> i + 1 < fuel \<Longrightarrow> base @ ''_'' @ nat_str (n + i) \<in> used"
proof (induction used base fuel n name arbitrary: i rule: free_name.induct)
  case (2 used base fuel n name)
  then have rest: "free_name used base fuel (Suc n) (base @ ''_'' @ nat_str n) = None" and used: "name \<in> used"
    by (simp_all split: if_splits)
  show ?case
  proof (cases i)
    case 0
    with 2(3) obtain f where "fuel = Suc f" by (cases fuel) auto
    with rest 0 show ?thesis by (simp split: if_splits)
  next
    case (Suc j)
    with 2(1) [OF used rest, of j] 2(3) show ?thesis by simp
  qed
qed simp

lemma free_name_Some: "free_name used base fuel n name = Some (free, m) \<Longrightarrow> free \<notin> used"
  by (induction used base fuel n name rule: free_name.induct) (auto split: if_splits)

text \<open>One more candidate than there are names always leaves a free one.\<close>

lemma pick_name_free:
  "\<exists>free m. pick_name base n name d = Some (free, m) \<and> free \<notin> ac_name ` set (au_users d)"
proof (cases "pick_name base n name d")
  case None
  let ?c = "\<lambda>i. base @ ''_'' @ nat_str (n + i)" and ?k = "length (au_users d) + 1"
  have "?c ` {..<?k} \<subseteq> ac_name ` set (au_users d)"
    using free_name_None [OF None [unfolded pick_name_def]] by auto
  then have "card (?c ` {..<?k}) \<le> card (ac_name ` set (au_users d))" by (rule card_mono [rotated]) simp
  also have "\<dots> \<le> length (au_users d)" by (metis card_length length_map set_map)
  finally have "card (?c ` {..<?k}) \<le> length (au_users d)" .
  moreover have "inj_on ?c {..<?k}" by (auto simp: inj_on_def nat_str_inj)
  then have "card (?c ` {..<?k}) = ?k" by (simp add: card_image)
  ultimately show ?thesis by simp
next
  case (Some r)
  obtain free m where r: "r = (free, m)" by (cases r)
  have "free \<notin> ac_name ` set (au_users d)"
    by (rule free_name_Some [OF Some [unfolded pick_name_def r]])
  with Some r show ?thesis by simp
qed

end
