(* ===== verification/Auth_Second_Factor.thy ===== *)
theory Auth_Second_Factor
  imports Auth_Safety
begin

text \<open>
  What the one-time code protects. Without a right code nobody gets a new token of an account that
  has a secret, whatever else is known: the password, a reset token, the mailbox, a live token of
  the account, or the rights of an administrator over other accounts.
\<close>

subsection \<open>A protected account\<close>

text \<open>The account has no other second step and does not come from the directory server.\<close>

definition code_only :: "account \<Rightarrow> bool" where
  "code_only a \<longleftrightarrow> \<not> ui_email_verification (ac_info a) \<and> ui_tfa_pending_secret (ac_info a) = None \<and>
     (\<forall>n. ac_subject a \<noteq> Some (''ldap:'' @ n))"

definition protected_by :: "string \<Rightarrow> account \<Rightarrow> bool" where
  "protected_by key a \<longleftrightarrow> key \<noteq> [] \<and> ac_tfa a = Some key \<and> code_only a"

text \<open>
  The tokens \<open>J\<close> are those the account \<open>u\<close> has, it has no passkey and no mailed code is under way;
  \<open>ok\<close> holds of the time.
\<close>

definition code_guarded :: "string \<Rightarrow> string \<Rightarrow> string set \<Rightarrow> (int \<Rightarrow> bool) \<Rightarrow> auth_db \<Rightarrow> bool" where
  "code_guarded u key J ok d \<longleftrightarrow> distinct (map ac_guid (au_users d)) \<and> u \<in> ac_guid ` set (au_users d) \<and>
     (\<forall>a\<in>set (au_users d). ac_guid a = u \<longrightarrow> protected_by key a) \<and>
     (\<forall>s\<in>set (au_sessions d). ls_user s = u \<longrightarrow> ls_method s \<noteq> ByEmail) \<and>
     (\<forall>t\<in>set (au_tokens d). tk_user t = u \<longrightarrow> tk_jti t \<in> J) \<and>
     (\<forall>p\<in>set (au_passkeys d). pk_user p \<noteq> u) \<and> (\<forall>n\<ge>au_drawn d. au_ids d n \<noteq> u) \<and> ok (au_now d)"

definition wrong_code :: "auth_env \<Rightarrow> string \<Rightarrow> (int \<Rightarrow> bool) \<Rightarrow> string \<Rightarrow> bool" where
  "wrong_code E key ok c \<longleftrightarrow> (\<forall>n. ok n \<longrightarrow> \<not> en_totp E key c n)"

text \<open>The token is one the service takes for the account \<open>u\<close>.\<close>

definition speaks_for :: "auth_env \<Rightarrow> string \<Rightarrow> (int \<Rightarrow> bool) \<Rightarrow> string option \<Rightarrow> bool" where
  "speaks_for E u ok token \<longleftrightarrow> (\<exists>t n p. token = Some t \<and> ok n \<and> en_verify E t n = Some p \<and> jw_sub p = u)"

text \<open>
  Requests that carry no right code, do not switch the second step of the account and register no
  passkey with a token of it (which needs no code, and then logs in).
\<close>

fun without_code_user :: "auth_env \<Rightarrow> string \<Rightarrow> string \<Rightarrow> (int \<Rightarrow> bool) \<Rightarrow> user_request \<Rightarrow> bool" where
  "without_code_user E u key ok (SetupTfa code) = (case code of None \<Rightarrow> True | Some c \<Rightarrow> wrong_code E key ok c)"
| "without_code_user E u key ok (DisableTfa c) = wrong_code E key ok c"
| "without_code_user E u key ok (UpdateSecurity g enforce verify password) = (g \<noteq> u \<or> verify \<noteq> Some True)"
| "without_code_user E u key ok (BatchSecurity gs enforce verify) = (u \<notin> set gs \<or> verify \<noteq> Some True)"
| "without_code_user E u key ok (DeleteUser g) = (g \<noteq> u)"
| "without_code_user E u key ok r = True"

fun without_code :: "auth_env \<Rightarrow> string \<Rightarrow> string \<Rightarrow> (int \<Rightarrow> bool) \<Rightarrow> auth_request \<Rightarrow> bool" where
  "without_code E u key ok (Login dto) = (case lg_tfa dto of None \<Rightarrow> True | Some c \<Rightarrow> wrong_code E key ok c)"
| "without_code E u key ok (As token r) = (without_code_user E u key ok r \<and>
     (case r of VerifyPasskey response name \<Rightarrow> \<not> en_passkeys_enabled E \<or> \<not> speaks_for E u ok token | _ \<Rightarrow> True))"
| "without_code E u key ok r = True"

subsection \<open>Changes that keep the protection\<close>

lemma guarded_found: "code_guarded u key J ok d \<Longrightarrow> find C (au_users d) = Some a \<Longrightarrow> ac_guid a = u \<Longrightarrow> protected_by key a"
  by (auto simp: code_guarded_def dest!: find_SomeD)

lemmas guarded_account = guarded_found [where C = "\<lambda>x. ac_guid x = g" for g, folded account_of_def]
lemmas guarded_named = guarded_found [where C = "\<lambda>x. ac_name x = n \<or> ac_email x = Some n" for n, folded account_named_def]

lemma guarded_session: "code_guarded u key J ok d \<Longrightarrow> findByGuid g (Some ByEmail) c d = Some s \<Longrightarrow> ls_user s \<noteq> u"
  by (auto simp: code_guarded_def findByGuid_def dest!: find_SomeD)

lemma guarded_fresh: "code_guarded u key J ok d \<Longrightarrow> next_id d \<noteq> u"
  by (simp add: code_guarded_def next_id_def)

lemma guarded_ok: "code_guarded u key J ok d \<Longrightarrow> ok (au_now d)"
  by (simp add: code_guarded_def)

lemma guarded_draws: "code_guarded u key J ok d \<Longrightarrow> code_guarded u key J ok (drawn d)"
  by (simp add: code_guarded_def drawn_def)

lemma guarded_save:
  assumes "code_guarded u key J ok d" "ac_guid b = u \<Longrightarrow> code_only b" "ac_guid b = u \<Longrightarrow> tfa \<Longrightarrow> protected_by key b"
  shows "code_guarded u key J ok (save_account pw tfa b d)"
proof -
  have "protected_by key (merged pw tfa b d)" if b: "ac_guid b = u"
  proof -
    from assms(1) have "u \<in> ac_guid ` set (au_users d)" by (simp add: code_guarded_def)
    then obtain a where a: "account_of d u = Some a" using account_of_None [of d u] by auto
    then have "ac_guid a = u" by (auto simp: account_of_def dest: find_SomeD)
    with a have "protected_by key a" using guarded_account [OF assms(1)] by blast
    with assms(2,3) [OF b] a b show ?thesis
      by (auto simp: protected_by_def merged_def Let_def code_only_def)
  qed
  then show ?thesis using assms(1)
    by (auto simp: code_guarded_def save_account_def distinct_save_row set_save_row)
qed

lemma guarded_map:
  assumes "code_guarded u key J ok d" "\<And>a. ac_guid (f a) = ac_guid a" "\<And>a. ac_guid a = u \<Longrightarrow> protected_by key a \<Longrightarrow> protected_by key (f a)"
  shows "code_guarded u key J ok (d\<lparr>au_rbac := rb, au_users := map f (au_users d)\<rparr>)"
  using assms by (auto simp: code_guarded_def o_def image_image)

lemma guarded_save_token:
  "code_guarded u key J ok d \<Longrightarrow> (tk_user t = u \<Longrightarrow> tk_jti t \<in> J) \<Longrightarrow> code_guarded u key J ok (save_token t d)"
  by (auto simp: code_guarded_def save_token_def set_save_row)

lemma guarded_add_session:
  "code_guarded u key J ok d \<Longrightarrow> (m = ByEmail \<Longrightarrow> v \<noteq> u) \<Longrightarrow> code_guarded u key J ok (snd (add_session v m email code d))"
  by (auto simp: code_guarded_def add_session_def Let_def drawn_def set_save_row fresh_session_def)

lemma guarded_passkeys: "code_guarded u key J ok d \<Longrightarrow> code_guarded u key J ok (d\<lparr>au_passkeys := filter C (au_passkeys d)\<rparr>)"
  by (simp add: code_guarded_def)

lemma guarded_add_passkey: "code_guarded u key J ok d \<Longrightarrow> v \<noteq> u \<Longrightarrow> code_guarded u key J ok (add_passkey v cid pk n name d)"
  by (auto simp: code_guarded_def add_passkey_def drawn_def set_save_row)

lemma guarded_save_passkey: "code_guarded u key J ok d \<Longrightarrow> pk_user p \<noteq> u \<Longrightarrow> code_guarded u key J ok (save_passkey p d)"
  by (auto simp: code_guarded_def save_passkey_def set_save_row)

lemma guarded_passkey_user: "code_guarded u key J ok d \<Longrightarrow> find C (au_passkeys d) = Some p \<Longrightarrow> pk_user p \<noteq> u"
  by (auto simp: code_guarded_def dest!: find_SomeD)

lemma guarded_remove: "code_guarded u key J ok d \<Longrightarrow> g \<noteq> u \<Longrightarrow> code_guarded u key J ok (remove_account g d)"
  by (auto simp: code_guarded_def remove_account_def distinct_filtered)

interpretation guard: auth_frames "code_guarded u key J ok" for u key J ok
  by unfold_locales
    (auto simp: guarded_draws guarded_passkeys, auto simp: code_guarded_def revoke_def use_session_def Let_def)

abbreviation preserves_guard :: "string \<Rightarrow> string \<Rightarrow> string set \<Rightarrow> (int \<Rightarrow> bool) \<Rightarrow> handler \<Rightarrow> bool" where
  "preserves_guard u key J ok p \<equiv> preserves (code_guarded u key J ok) p"

subsection \<open>Logging in\<close>

lemma guard_createSession:
  "(m = ByEmail \<Longrightarrow> v \<noteq> u) \<Longrightarrow> (\<And>s. preserves_guard u key J ok (k s)) \<Longrightarrow>
   preserves_guard u key J ok (createSession v m email code del k)"
  unfolding createSession_def delete_unused_def
  by (intro preserves_intros guarded_add_session guard.drops_sessions) auto

lemma guard_issue: "ac_guid a \<noteq> u \<Longrightarrow> preserves_guard u key J ok (issue E secrets a dev uuid info)"
  unfolding issue_def bind_if_given_def generateToken_def
  by (intro preserves_intros guard.preserves_createOrUpdateDevice guarded_draws)
    (auto simp: token_row_def intro!: guarded_save_token)

lemma guard_completeLogin: "ac_guid a \<noteq> u \<Longrightarrow> preserves_guard u key J ok (completeLogin E a s dev uuid info)"
  unfolding completeLogin_def by (intro guard.preserves_markSessionUsed guard_issue)

lemma nonempty_Some: "nonempty v = Some x \<longleftrightarrow> v = Some x \<and> x \<noteq> []"
  by (auto simp: nonempty_def split: option.splits if_splits)

lemma right_code:
  assumes "code_guarded u key J ok d" "account_of d g = Some a" "ac_tfa a = Some k" "en_totp E k c (au_now d)" "wrong_code E key ok c"
  shows "ac_guid a \<noteq> u"
proof
  assume "ac_guid a = u"
  then have "k = key" using guarded_account [OF assms(1,2)] assms(3) by (simp add: protected_by_def)
  then show False using assms(4,5) guarded_ok [OF assms(1)] by (simp add: wrong_code_def)
qed

lemma guard_handleTfaLogin:
  "case lg_tfa dto of None \<Rightarrow> True | Some c \<Rightarrow> wrong_code E key ok c \<Longrightarrow> preserves_guard u key J ok (handleTfaLogin E dto)"
  unfolding handleTfaLogin_def prod.case
  by (intro preserves_intros guard_completeLogin) (auto simp: nonempty_Some dest: right_code)

lemma guard_handleEmailCodeLogin: "preserves_guard u key J ok (handleEmailCodeLogin E dto)"
  unfolding handleEmailCodeLogin_def prod.case
  by (intro preserves_intros guard_completeLogin) (auto dest: guarded_session)

text \<open>Only the owner of a passkey logs in with it, and only the user of the token registers one.\<close>

lemma guard_begin_passkeys:
  "preserves_guard u key J ok (beginRegistration E v)" "preserves_guard u key J ok (beginAuthLogin E)"
  "preserves_guard u key J ok (initiatePasskeyTfa E a)"
  unfolding beginRegistration_def beginAuthLogin_def initiatePasskeyTfa_def when_passkeys_enabled_def
  by (intro preserves_intros guard_createSession guarded_draws; simp)+

lemma guard_verifyRegistration:
  "\<not> en_passkeys_enabled E \<or> v \<noteq> u \<Longrightarrow> preserves_guard u key J ok (verifyRegistration E v response name)"
  unfolding verifyRegistration_def when_passkeys_enabled_def
  by (intro preserves_intros guard.preserves_markSessionUsed guarded_add_passkey) auto

lemma guard_verifyAuthLogin: "preserves_guard u key J ok (verifyAuthLogin E secret response dev uuid info)"
  unfolding verifyAuthLogin_def when_passkeys_enabled_def
  by (intro preserves_intros guard_completeLogin guarded_save_passkey)
    (auto simp: account_of_def code_guarded_def dest!: find_SomeD)

lemma guard_initiateTfaLogin: "preserves_guard u key J ok (initiateTfaLogin a)"
  unfolding initiateTfaLogin_def by (intro preserves_intros guard_createSession) simp_all

lemma guard_initiateEmailVerification:
  "ac_guid a \<noteq> u \<Longrightarrow> preserves_guard u key J ok (initiateEmailVerification E a)"
  unfolding initiateEmailVerification_def Let_def
  by (intro preserves_intros guard_createSession guarded_draws)

text \<open>After the password, the account is asked for its code.\<close>

lemma guard_after_password:
  "(ac_guid a = u \<Longrightarrow> protected_by key a) \<Longrightarrow>
   preserves_guard u key J ok (after_password E a dto)"
  unfolding after_password_def buildLoginResponse_def Let_def
  by (intro preserves_intros guard_initiateTfaLogin guard_initiateEmailVerification guard_begin_passkeys guard_issue)
    (auto simp: protected_by_def code_only_def is_set_def nonempty_def)

lemma guard_create_ldap_user:
  "(\<And>a. ac_guid a \<noteq> u \<Longrightarrow> preserves_guard u key J ok (k a)) \<Longrightarrow> (\<And>e. preserves_guard u key J ok (err e)) \<Longrightarrow>
   preserves_guard u key J ok (create_ldap_user tries i grp base n name k err)"
proof (induction tries i grp base n name k err rule: create_ldap_user.induct)
  case (1 i grp base n name k err)
  then show ?case by simp
next
  case (2 tries i grp base n name k err)
  show ?case unfolding create_ldap_user.simps Let_def
    by (intro preserves_intros guarded_draws 2 guarded_save) (auto simp: ldap_account_def dest: guarded_fresh)
qed

lemma guard_ldap_authenticate:
  "(\<And>a. ac_guid a \<noteq> u \<Longrightarrow> preserves_guard u key J ok (k a)) \<Longrightarrow> (\<And>e. preserves_guard u key J ok (err e)) \<Longrightarrow>
   preserves_guard u key J ok (ldap_authenticate E name password k err)"
  unfolding ldap_authenticate_def findOrCreateUser_def Let_def
  by (intro preserves_intros guard_create_ldap_user guarded_draws guarded_save; assumption?)
    (auto dest!: find_SomeD simp: code_guarded_def protected_by_def code_only_def)

lemma guard_login:
  assumes "case lg_tfa dto of None \<Rightarrow> True | Some c \<Rightarrow> wrong_code E key ok c"
  shows "preserves_guard u key J ok (login E dto)"
  unfolding login_def handleEmailCodeStep_def handleStandardLogin_def tryLdapAuthentication_def localLogin_def
    buildLoginResponse_def prod.case
  by (intro preserves_intros guard_handleTfaLogin guard_handleEmailCodeLogin guard_ldap_authenticate guard_issue
      guard_after_password; (assumption | rule assms)?)
    (auto dest: guarded_named)

subsection \<open>Accounts\<close>

lemma guard_with_account:
  "(\<And>a now. (ac_guid a = u \<Longrightarrow> protected_by key a) \<Longrightarrow> (ac_guid a = v) \<Longrightarrow> ok now \<Longrightarrow> preserves_guard u key J ok (k (a, now))) \<Longrightarrow>
   preserves_guard u key J ok (with_account v k)"
  unfolding with_account_def prod.case
proof (intro preserves_intros, goal_cases)
  case (1 d a)
  then have "ac_guid a = v" by (auto simp: account_of_def dest: find_SomeD)
  with 1 show ?case using guarded_account [of u key J ok d v a] guarded_ok [of u key J ok d] by simp
qed

lemma protected_info:
  "protected_by key a \<Longrightarrow> ui_email_verification (f (ac_info a)) = ui_email_verification (ac_info a) \<Longrightarrow>
   ui_tfa_pending_secret (f (ac_info a)) = ui_tfa_pending_secret (ac_info a) \<Longrightarrow> protected_by key (set_info f a)"
  by (simp add: protected_by_def code_only_def set_info_def)

lemma protected_code_only: "protected_by key a \<Longrightarrow> code_only a"
  by (simp add: protected_by_def)

text \<open>Saving what became of the protected account.\<close>

lemma guarded_saves:
  "code_guarded u key J ok d \<Longrightarrow> (ac_guid b = u \<Longrightarrow> protected_by key b) \<Longrightarrow> code_guarded u key J ok (save_account pw tfa b d)"
  by (auto intro: guarded_save protected_code_only)

lemma setup_refused:
  "protected_by key a \<Longrightarrow> ok now \<Longrightarrow> case code of None \<Rightarrow> True | Some c \<Rightarrow> wrong_code E key ok c \<Longrightarrow>
   setupTfa_checks E a now code \<noteq> Inr ()"
  by (auto simp: setupTfa_checks_def protected_by_def nonempty_def wrong_code_def ensure_Inr_iff split: option.splits)

lemma guard_setupTfa:
  "case code of None \<Rightarrow> True | Some c \<Rightarrow> wrong_code E key ok c \<Longrightarrow> preserves_guard u key J ok (setupTfa E v code)"
  unfolding setupTfa_def prod.case
  by (intro guard_with_account, unfold prod.case, intro preserves_intros guarded_draws guarded_saves; assumption?)
    (use setup_refused in \<open>auto simp: set_info_def\<close>)

lemma guard_verifyAndBindTfa: "preserves_guard u key J ok (verifyAndBindTfa E v c)"
  unfolding verifyAndBindTfa_def prod.case
  by (intro guard_with_account, unfold prod.case, intro preserves_intros guarded_saves; assumption?)
    (auto simp: set_info_def protected_by_def code_only_def nonempty_Some)

lemma guard_disableTfa: "wrong_code E key ok c \<Longrightarrow> preserves_guard u key J ok (disableTfa E v c)"
  unfolding disableTfa_def prod.case
  by (intro guard_with_account, unfold prod.case, intro preserves_intros guarded_saves; assumption?)
    (auto simp: protected_by_def nonempty_Some wrong_code_def)

lemma guard_setPasskeyTfaEnabled: "preserves_guard u key J ok k \<Longrightarrow> preserves_guard u key J ok (setPasskeyTfaEnabled v on k)"
  unfolding setPasskeyTfaEnabled_def prod.case Let_def
  by (intro guard_with_account, unfold prod.case, intro preserves_intros guarded_saves; assumption?)
    (auto simp: set_info_def protected_by_def code_only_def)

lemma guard_updateCurrentUser: "preserves_guard u key J ok (updateCurrentUser v disp email note)"
  unfolding updateCurrentUser_def prod.case Let_def
  by (intro guard_with_account, unfold prod.case, intro preserves_intros guarded_saves; assumption?)
    (auto simp: protected_by_def code_only_def split: option.splits)

lemma guard_deleteCredential: "preserves_guard u key J ok (deleteCredential v g)"
  unfolding deleteCredential_def by (intro preserves_intros guard_setPasskeyTfaEnabled guarded_passkeys)

lemma guard_createUser: "preserves_guard u key J ok (createUser E name password email note disp g)"
  unfolding createUser_def Let_def
  by (intro preserves_intros guarded_draws guarded_saves; assumption?) (auto simp: new_account_def dest: guarded_fresh)

lemma guard_inviteUser: "preserves_guard u key J ok (inviteUser E mail name note disp g)"
  unfolding inviteUser_def add_invitation_def Let_def
  by (intro preserves_intros guarded_draws guarded_saves guard.frame_invitations; assumption?)
    (auto simp: new_account_def dest: guarded_fresh)

lemma guard_acceptInvitation: "preserves_guard u key J ok (acceptInvitation E token password)"
  unfolding acceptInvitation_def add_invitation_def
  by (intro preserves_intros guarded_saves guard.frame_invitations; assumption?)
    (auto simp: protected_by_def code_only_def dest: guarded_account)

lemma guard_revokeSession: "preserves_guard u key J ok k \<Longrightarrow> preserves_guard u key J ok (revokeSession v jti k)"
  unfolding revokeSession_def
  by (intro preserves_intros guarded_save_token; assumption?) (auto simp: code_guarded_def dest!: find_SomeD)

subsection \<open>Transactions\<close>

lemma guarded_resets: "code_guarded u key J ok d \<Longrightarrow> code_guarded u key J ok (d\<lparr>au_resets := rs\<rparr>)"
  and guarded_rbac: "code_guarded u key J ok d \<Longrightarrow> code_guarded u key J ok (d\<lparr>au_rbac := rb\<rparr>)"
  by (simp_all add: code_guarded_def)

lemma protected_password: "protected_by key (a\<lparr>ac_password := w\<rparr>) = protected_by key a"
  by (simp add: protected_by_def code_only_def)

lemma guard_confirmReset: "preserves_guard u key J ok (confirmReset E token password)"
proof -
  have "code_guarded u key J ok d'" if I: "code_guarded u key J ok d" and c: "confirm_body E token password d = (Inr x, d')" for d x d'
    using c by (rule confirm_success)
      (auto simp: protected_password dest: guarded_account [OF I] intro!: guard.ends_logins guarded_saves guarded_resets I)
  then show ?thesis unfolding confirmReset_def by (intro guard.preserves_transaction preserves_intros)
qed

lemma guard_changePassword: "preserves_guard u key J ok (changePassword E v old new)"
proof -
  have "code_guarded u key J ok d'" if I: "code_guarded u key J ok d" and c: "change_body E v old new d = (Inr x, d')" for d x d'
    using c by (rule change_success)
      (auto simp: protected_password dest: guarded_account [OF I] intro!: guard.revokes_active guarded_saves I)
  then show ?thesis unfolding changePassword_def by (intro guard.preserves_transaction preserves_intros)
qed

text \<open>The edited fields do not include the secrets.\<close>

definition same_secrets :: "account \<Rightarrow> account \<Rightarrow> bool" where
  "same_secrets a b \<longleftrightarrow> ac_guid b = ac_guid a \<and> ac_tfa b = ac_tfa a \<and> ac_info b = ac_info a \<and> ac_subject b = ac_subject a"

lemma named_secrets: "named_as c a d = Inr b \<Longrightarrow> same_secrets a b"
  and addressed_secrets: "addressed_as c a d = Inr b \<Longrightarrow> same_secrets a b"
  and grouped_secrets: "grouped_as E c a = Inr b \<Longrightarrow> same_secrets a b"
  and described_secrets: "same_secrets a (described_as c a)"
  by (auto simp: named_as_def addressed_as_def grouped_as_def described_as_def same_secrets_def rbind_Inr_iff Let_def
      split: option.splits)

lemma changed_secrets: "changed_account E c a d = Inr b \<Longrightarrow> same_secrets a b"
  using described_secrets
  by (auto simp: changed_account_def rbind_Inr_iff same_secrets_def
      dest!: named_secrets addressed_secrets grouped_secrets)

lemma changed_protected:
  assumes "changed_account E c a d = Inr b"
  shows "ac_guid b = ac_guid a" "protected_by key b = protected_by key a"
  using changed_secrets [OF assms] by (simp_all add: same_secrets_def protected_by_def code_only_def)

lemma guard_updateUser: "preserves_guard u key J ok (updateUser E g c actor)"
proof -
  have "code_guarded u key J ok d'" if I: "code_guarded u key J ok d" and c: "user_update_body E g c actor d = (Inr x, d')" for d x d'
    using c by (rule update_success)
      (auto simp: Let_def changed_protected dest: guarded_account [OF I]
        intro!: guard.revokes_active guarded_saves guarded_rbac I)
  then show ?thesis unfolding updateUser_def by (intro guard.preserves_transaction preserves_intros)
qed

lemma security_protected:
  "verify \<noteq> Some True \<Longrightarrow> protected_by key a \<Longrightarrow> protected_by key (with_security enforce verify a)"
  by (auto simp: with_security_def set_info_def protected_by_def code_only_def split: option.splits)

lemma with_security_guid [simp]: "ac_guid (with_security enforce verify a) = ac_guid a"
  by (simp add: with_security_def set_info_def)

lemma guard_updateUserSecurity:
  assumes "g \<noteq> u \<or> verify \<noteq> Some True"
  shows "preserves_guard u key J ok (updateUserSecurity E g enforce verify p actor)"
proof -
  have "code_guarded u key J ok d'" if I: "code_guarded u key J ok d"
    and c: "security_body E g enforce verify p actor d = (Inr x, d')" for d x d'
    using c
  proof (rule security_success)
    fix a rb
    assume a: "account_of d g = Some a" and d': "d' = revokeActiveTokens [g] (case p of
         None \<Rightarrow> save_account False False (with_security enforce verify a) (d\<lparr>au_rbac := rb\<rparr>)
       | Some w \<Rightarrow> save_account True False (with_security enforce verify (a\<lparr>ac_password := Some (en_hash E w)\<rparr>)) (d\<lparr>au_rbac := rb\<rparr>))"
    have "ac_guid a = g" using a by (auto simp: account_of_def dest: find_SomeD)
    then have "protected_by key (with_security enforce verify (a\<lparr>ac_password := w\<rparr>))"
      "protected_by key (with_security enforce verify a)" if "ac_guid a = u" for w
      using guarded_account [OF I a that] assms that by (auto simp: protected_password intro!: security_protected)
    then show "code_guarded u key J ok d'" unfolding d'
      by (cases p) (auto intro!: guard.revokes_active guarded_saves guarded_rbac I)
  qed
  then show ?thesis unfolding updateUserSecurity_def by (intro guard.preserves_transaction preserves_intros)
qed

lemma guard_batchUpdateStatus: "preserves_guard u key J ok (batchUpdateStatus gs st actor)"
proof -
  have "code_guarded u key J ok d'" if I: "code_guarded u key J ok d" and c: "status_body gs st actor d = (Inr x, d')" for d x d'
    using c by (rule status_success)
      (auto simp: Let_def protected_by_def code_only_def intro!: guard.revokes_active guarded_map [OF I])
  then show ?thesis unfolding batchUpdateStatus_def by (intro guard.preserves_transaction preserves_intros)
qed

lemma guard_batchUpdateSecurity:
  assumes "u \<notin> set gs \<or> verify \<noteq> Some True"
  shows "preserves_guard u key J ok (batchUpdateSecurity gs enforce verify actor)"
proof -
  have "code_guarded u key J ok d'" if I: "code_guarded u key J ok d"
    and c: "batch_security_body gs enforce verify actor d = (Inr x, d')" for d x d'
    using c by (rule batch_security_success)
      (use assms in \<open>auto intro!: guard.revokes_active guarded_map [OF I] security_protected\<close>)
  then show ?thesis unfolding batchUpdateSecurity_def by (intro guard.preserves_transaction preserves_intros)
qed

subsection \<open>All requests\<close>

lemma guard_serve_user:
  assumes "without_code_user E u key ok r" "\<And>response name. r = VerifyPasskey response name \<Longrightarrow> \<not> en_passkeys_enabled E \<or> v \<noteq> u"
  shows "preserves_guard u key J ok (serve_user E token v r)"
  using assms unfolding update_route_def
  by (cases r) (simp_all only: serve_user.simps without_code_user.simps update_route_def getCurrentUserInfo_def listSessions_def,
      (intro preserves_intros guard.preserves_logout guard_setupTfa guard_verifyAndBindTfa guard_disableTfa guard_setPasskeyTfaEnabled
        guard_begin_passkeys guard_verifyRegistration guard_deleteCredential guard_revokeSession guard_updateCurrentUser guard_changePassword
        guard_createUser guard_inviteUser guard_updateUser guard_updateUserSecurity guard.preserves_deleteUser guarded_remove
        guard.preserves_forceLogout guard_batchUpdateStatus guard_batchUpdateSecurity guard.preserves_routes guard.preserves_checked
        guard.preserves_checked_if; (assumption | blast)?)+)

text \<open>A route behind the guard runs for the user its token names.\<close>

lemma guard_authenticated:
  assumes "\<And>p. speaks_for E (jw_sub p) ok token \<Longrightarrow> preserves_guard u key J ok (k p)"
  shows "preserves_guard u key J ok (authenticated E token k)"
proof -
  have "speaks_for E (jw_sub p) ok token" if "nonempty token = Some t" "code_guarded u key J ok d"
    "(case en_verify E t (au_now d) of None \<Rightarrow> None | Some p \<Rightarrow> if jw_sub p = [] \<or> jw_jti p = [] then None
       else if list_ex (live_row (jw_sub p) (jw_jti p)) (au_tokens d) then Some p else None) = Some p" for t d p
    using that by (auto simp: speaks_for_def nonempty_Some dest: guarded_ok split: option.splits if_splits)
  note known = this
  then show ?thesis unfolding authenticated_def validateToken_def checkToken_def
    by (intro preserves_intros assms) (auto dest: known)
qed

lemma guard_serve_auth:
  assumes "without_code E u key ok r"
  shows "preserves_guard u key J ok (serve_auth E r)"
proof (cases r)
  case (As token x)
  have "preserves_guard u key J ok (serve_user E token (jw_sub p) x)" if "speaks_for E (jw_sub p) ok token" for p
    using assms that unfolding As without_code.simps by (intro guard_serve_user) (auto split: user_request.splits)
  then show ?thesis unfolding As serve_auth.simps by (rule guard_authenticated)
qed (use assms in \<open>simp_all only: serve_auth.simps without_code.simps\<close>,
      (intro preserves_intros guard_login guard_begin_passkeys guard_verifyAuthLogin guard.preserves_requestReset guard_confirmReset
        guard_acceptInvitation; assumption?)+)

text \<open>
  C4. An account that has a one-time-code secret, no passkey, no mailed codes, no new secret waiting
  to be confirmed and no link to the directory gets no token it did not have, in any interleaving of
  the requests modelled (logins through an OIDC provider are not) that carry no right code: not by its
  password, a reset, the mailbox, other accounts' passkeys, or an administrator who neither deletes
  it nor switches on mailed codes for it; nor by a stolen token of it, unless that token registers a
  passkey while passkeys are switched on.
\<close>

theorem second_factor_needed:
  assumes "code_guarded u key J ok d" "reaches_service E (without_code E u key ok) ok d (d', ps)"
    and "t \<in> set (au_tokens d')" "tk_user t = u"
  shows "tk_jti t \<in> J"
proof -
  have "code_guarded u key J ok d'"
    by (rule service_keeps [OF assms(2,1) guard_serve_auth]) (simp_all add: code_guarded_def)
  then show ?thesis using assms(3,4) by (simp add: code_guarded_def)
qed

subsection \<open>With the code\<close>

lemma find_last: "find P xs = None \<Longrightarrow> find P (xs @ ys) = find P ys"
  by (induction xs) (auto split: if_splits)

text \<open>The first step: the password opens a session for the code.\<close>

lemma password_step:
  assumes "account_named d n = Some a" "nonempty (lg_username dto) = Some n" "nonempty (lg_password dto) = Some pw"
    and "lg_type dto = ''account''" "\<forall>x\<in>set (au_users d). ac_subject x \<noteq> Some (''ldap:'' @ n)" "\<not> en_ldap_enabled E"
    and "ac_password a = Some h" "en_compare E pw h" "ac_status a = ACTIVE" "protected_by key a"
    and "\<not> ui_passkey_tfa_enabled (ac_info a)"
  shows "alone (login E dto) d = (Inr (SecondStep TfaCheck (next_id d) (buildUserPayload True a)),
     snd (add_session (ac_guid a) ByTfa None None (delete_unused (ac_guid a) d)))"
proof -
  have l: "find (\<lambda>a. ac_subject a = Some (''ldap:'' @ n)) (au_users d) = None"
    using assms(5) by (simp add: find_None_iff)
  show ?thesis using assms(1-4,6-) l
    by (simp add: login_def handleStandardLogin_def tryLdapAuthentication_def localLogin_def after_password_def
      protected_by_def code_only_def is_set_def nonempty_def initiateTfaLogin_def createSession_def add_session_def
      Let_def fresh_session_def delete_unused_def next_id_def)
qed

lemma code_step:
  assumes "findByGuid secret (Some ByTfa) True d = Some s" "open_session secret d s"
    and "length (filter (open_session secret d) (au_sessions d)) = 1"
    and "account_of d (ls_user s) = Some a" "protected_by key a" "ac_status a = ACTIVE" "en_totp E key c (au_now d)"
    and "lg_type dto = ''tfa_code''" "nonempty (lg_tfa dto) = Some c" "nonempty (lg_secret dto) = Some secret"
    and "lg_username dto = None" "lg_id dto = None" "lg_uuid dto = None"
  shows "\<exists>d'. alone (login E dto) d = (Inr (AccessToken (en_sign E (payload_of a None (next_id d)) (au_now d) (en_expiry_days E))
     (buildUserPayload True a)), d') \<and> au_now d' = au_now d \<and> au_users d' = au_users d \<and>
     token_row E (ac_guid a) None None (lg_info dto) (next_id d) d \<in> set (au_tokens d')"
proof -
  have g: "ls_user s = ac_guid a" using assms(4) by (auto simp: account_of_def dest: find_SomeD)
  have s: "ls_guid s = secret" using assms(2) by (simp add: open_session_def)
  show ?thesis using assms(1,3-) g s
    by (simp add: login_def handleTfaLogin_def nonempty_def protected_by_def completeLogin_def markSessionUsed_def
      use_session_def Let_def issue_def bind_if_given_def generateToken_def account_of_def save_token_def set_save_row
      next_id_def drawn_def token_row_def)
qed

definition password_dto :: "string \<Rightarrow> string \<Rightarrow> login_dto" where
  "password_dto n pw = \<lparr>lg_type = ''account'', lg_username = Some n, lg_password = Some pw, lg_id = None, lg_uuid = None,
     lg_code = None, lg_tfa = None, lg_secret = None, lg_info = None\<rparr>"

definition code_dto :: "string \<Rightarrow> string \<Rightarrow> login_dto" where
  "code_dto session c = \<lparr>lg_type = ''tfa_code'', lg_username = None, lg_password = None, lg_id = None, lg_uuid = None,
     lg_code = None, lg_tfa = Some c, lg_secret = Some session, lg_info = None\<rparr>"

text \<open>The session the first step leaves is the only open one with its identifier.\<close>

lemma opened_session:
  assumes "single_use d" "s = fresh_session u ByTfa None None d" "d1 = snd (add_session u ByTfa None None (delete_unused u d))"
  shows "findByGuid (next_id d) (Some ByTfa) True d1 = Some s" "open_session (next_id d) d1 s"
    "length (filter (open_session (next_id d) d1) (au_sessions d1)) = 1" "au_users d1 = au_users d" "au_now d1 = au_now d"
proof -
  let ?old = "au_sessions (delete_unused u d)"
  have "next_id d \<notin> ls_guid ` set ?old"
    using assms(1) next_id_fresh [of d] by (auto simp: single_use_def delete_unused_def)
  moreover have n: "next_id (delete_unused u d) = next_id d" "fresh_session u ByTfa None None (delete_unused u d) = s"
    by (simp_all add: assms(2) fresh_session_def next_id_def delete_unused_def)
  moreover have g: "ls_guid s = next_id d" by (simp add: assms(2) fresh_session_def)
  ultimately have d1: "au_sessions d1 = ?old @ [s]"
    by (simp add: assms(3) add_session_def Let_def save_row_new)
  have old: "\<forall>x\<in>set ?old. ls_guid x \<noteq> next_id d"
    using assms(1) next_id_fresh [of d] by (auto simp: single_use_def delete_unused_def)
  have none: "filter (open_session (next_id d) d1) ?old = []"
    "find (\<lambda>x. ls_guid x = next_id d \<and> P x) ?old = None" for P
    using old by (auto simp: filter_empty_conv find_None_iff open_session_def)
  show "au_users d1 = au_users d" and now: "au_now d1 = au_now d"
    by (simp_all add: assms(3) add_session_def Let_def delete_unused_def)
  show o: "open_session (next_id d) d1 s" using now by (simp add: open_session_def assms(2) fresh_session_def minutes_def)
  then show "length (filter (open_session (next_id d) d1) (au_sessions d1)) = 1" by (simp add: d1 none)
  show "findByGuid (next_id d) (Some ByTfa) True d1 = Some s"
    using o by (simp add: findByGuid_def d1 find_last none open_session_def) (simp add: assms(2) fresh_session_def)
qed


end
