(* ===== verification/Auth_Examples.thy ===== *)
theory Auth_Examples
  imports Auth_Second_Factor
begin

text \<open>
  Concrete logins: an account with a one-time-code secret and one with a password only. They show
  the theorems on authentication at work.
\<close>

subsection \<open>An environment and tables\<close>

text \<open>A token is the user and the token id; the right code is the secret itself.\<close>

definition example_verify :: "string \<Rightarrow> int \<Rightarrow> jwt_payload option" where
  "example_verify t now = Some \<lparr>jw_sub = takeWhile (\<lambda>ch. ch \<noteq> CHR ''.'') t, jw_name = ''ann'', jw_email = None,
     jw_admin = False, jw_device = None, jw_jti = tl (dropWhile (\<lambda>ch. ch \<noteq> CHR ''.'') t)\<rparr>"

definition example_auth_env :: auth_env where
  "example_auth_env = \<lparr>en_hash = (\<lambda>p. CHR ''h'' # p), en_compare = (\<lambda>p h. h = CHR ''h'' # p), en_email_code = (\<lambda>r. ''123456''),
     en_totp = (\<lambda>key code now. code = key), en_sign = (\<lambda>p now n. jw_sub p @ ''.'' @ jw_jti p),
     en_verify = example_verify, en_sha256 = (\<lambda>t. CHR ''d'' # t), en_assertion = (\<lambda>r c p. None),
     en_credential_id = (\<lambda>r. r), en_attestation = (\<lambda>r c. None),
     en_ldap = (\<lambda>n p. Inl (UnauthorizedException ''no directory'')), en_ldap_enabled = False,
     en_passkeys_enabled = True, en_smtp_enabled = True, en_mail_sent = (\<lambda>m. True), en_expiry_days = 30,
     en_clone_isolation = False, en_isolated_uuid = (\<lambda>u i. u), en_default_group = ''g'', en_groups = [''g'']\<rparr>"

definition example_account :: "string \<Rightarrow> string \<Rightarrow> string option \<Rightarrow> account" where
  "example_account g n key = \<lparr>ac_guid = g, ac_name = n, ac_display = None, ac_email = None, ac_password = Some ''hpw'',
     ac_note = None, ac_status = ACTIVE, ac_admin = False, ac_tfa = key, ac_info = no_info, ac_third = None,
     ac_subject = None, ac_group = Some ''g''\<rparr>"

definition example_token :: "string \<Rightarrow> string \<Rightarrow> auth_token" where
  "example_token u j = \<lparr>tk_user = u, tk_jti = j, tk_device = None, tk_uuid = None, tk_info = None,
     tk_expires = 1000, tk_revoked = False\<rparr>"

definition example_auth :: auth_db where
  "example_auth = \<lparr>au_users = [example_account ''A'' ''ann'' (Some ''KEY''), example_account ''B'' ''bob'' None],
     au_tokens = [example_token ''A'' ''i''], au_sessions = [], au_passkeys = [], au_resets = [], au_invitations = [],
     au_devices = [], au_rbac = \<lparr>users = [], roles = [], role_permissions = [], assignments = [],
       assignment_groups = [], device_groups = [], peers = [], user_tokens = [], console_audits = []\<rparr>,
     au_now = 0, au_ids = (\<lambda>n. replicate n CHR ''i''), au_drawn = 2, au_completed = []\<rparr>"
subsection \<open>Runs of requests\<close>

definition serve_requests :: "auth_env \<Rightarrow> auth_request list \<Rightarrow> auth_db \<Rightarrow> auth_db" where
  "serve_requests E = serve_all_from (serve_auth E)"

lemma reaches_requests:
  "reaches_service E A ok d (d1, ps) \<Longrightarrow> list_all A rs \<Longrightarrow> \<exists>ps. reaches_service E A ok d (serve_requests E rs d1, ps)"
  by (simp add: reaches_service_def serve_requests_def reaches_served_all)

definition two_steps :: "auth_request list" where
  "two_steps = [Login (password_dto ''ann'' ''pw''), Login (code_dto ''ii'' ''KEY''), Login (code_dto ''ii'' ''KEY'')]"

lemma two_steps_run:
  "au_completed (serve_requests example_auth_env two_steps example_auth) = [''ii''] \<and>
   length (au_tokens (serve_requests example_auth_env two_steps example_auth)) = 2"
  by code_simp

lemma example_auth_ids: "inj (au_ids example_auth)"
  by (rule injI) (simp add: example_auth_def)

lemma example_drawn: "drawn_ids example_auth = {[], ''i''}"
  by (auto simp: drawn_ids_def example_auth_def numeral_2_eq_2 lessThan_Suc)

lemma example_single_use: "single_use example_auth"
  using example_auth_ids by (simp add: single_use_def) (simp add: example_auth_def example_account_def)

lemma example_tables: "auth_tables_ok example_auth"
  by code_simp

lemma example_own_ids: "own_ids example_auth"
  unfolding own_ids_def using example_auth_ids example_drawn by (simp add: example_auth_def example_token_def)

lemma two_steps_reached:
  "\<exists>ps. reaches_service example_auth_env (\<lambda>_. True) (\<lambda>_. True) d (serve_requests example_auth_env two_steps d, ps)"
  by (rule reaches_requests [OF reaches_start]) (simp add: list_all_iff)

definition two_steps_answers :: "(auth_db, auth_request \<times> auth_reply) steps list" where
  "two_steps_answers = map Finished (answers_from (answering (serve_auth example_auth_env)) two_steps example_auth)"

lemma two_steps_answered: "map (answered (logs_in ''ii'')) two_steps_answers = [False, True, False]"
  by code_simp

theorem login_steps_single_use_witness:
  "\<exists>d' ps. reaches_answers_of example_auth_env (\<lambda>_. True) (\<lambda>_. True) example_auth (d', ps) \<and>
     list_ex (answered (logs_in ''ii'')) ps \<and> length (filter (answered (logs_in ''ii'')) ps) \<le> 1 \<and>
     (\<forall>s\<in>set (au_sessions d'). ls_guid s = ''ii'' \<longrightarrow> ls_used s)"
proof -
  have r: "reaches_answers_of example_auth_env (\<lambda>_. True) (\<lambda>_. True) example_auth
      (serve_all_from (answering (serve_auth example_auth_env)) two_steps example_auth, two_steps_answers)"
    using reaches_answers [OF reaches_from_start, of "\<lambda>_. True" two_steps]
    by (simp add: reaches_answers_of_def two_steps_answers_def list_all_iff)
  have "True \<in> set (map (answered (logs_in ''ii'')) two_steps_answers)" by (simp only: two_steps_answered) simp
  then have "list_ex (answered (logs_in ''ii'')) two_steps_answers" by (auto simp: list_ex_iff)
  with login_steps_single_use [OF example_single_use r, of "''ii''"] r show ?thesis by blast
qed

theorem auth_tables_typed_witness:
  "\<exists>d' ps. reaches_service example_auth_env (\<lambda>_. True) (\<lambda>_. True) example_auth (d', ps) \<and> length (au_tokens d') = 2 \<and>
     auth_tables_ok d'"
proof -
  obtain ps where "reaches_service example_auth_env (\<lambda>_. True) (\<lambda>_. True) example_auth
      (serve_requests example_auth_env two_steps example_auth, ps)"
    using two_steps_reached by blast
  with auth_tables_typed [OF example_tables this] two_steps_run show ?thesis by blast
qed

subsection \<open>A changed password\<close>

definition changed_auth :: auth_db where
  "changed_auth = snd (alone (serve_user example_auth_env (Some ''A.i'') ''A'' (ChangePassword ''pw'' ''new'')) example_auth)"

lemma change_run:
  "fst (alone (serve_user example_auth_env (Some ''A.i'') ''A'' (ChangePassword ''pw'' ''new'')) example_auth) = Inr Message"
  by (simp add: changePassword_def change_body_def reading_def writing_db_def account_of_def example_auth_def
      example_account_def nonempty_def is_set_def example_auth_env_def sbind_def)

theorem ended_logins_stay_ended_witness:
  "(\<exists>ps. reaches_service example_auth_env (\<lambda>_. True) (\<lambda>_. True) changed_auth
       (serve_requests example_auth_env two_steps changed_auth, ps)) \<and>
   (\<exists>m. fst (alone (authenticated example_auth_env (Some ''A.i'') (\<lambda>p. serve_user example_auth_env (Some ''A.i'') ''A'' CurrentUser))
     (serve_requests example_auth_env two_steps changed_auth)) = Inl (UnauthorizedException m))"
proof -
  let ?d2 = "serve_requests example_auth_env two_steps changed_auth"
  have run: "alone (serve_user example_auth_env (Some ''A.i'') ''A'' (ChangePassword ''pw'' ''new'')) example_auth = (Inr Message, changed_auth)"
    by (rule prod_eqI) (simp_all only: change_run changed_auth_def fst_conv snd_conv)
  have t: "example_token ''A'' ''i'' \<in> set (au_tokens example_auth)" by (simp add: example_auth_def)
  have u: "tk_user (example_token ''A'' ''i'') = ''A''" by (simp add: example_token_def)
  obtain ps where r: "reaches_service example_auth_env (\<lambda>_. True) (\<lambda>_. True) changed_auth (?d2, ps)"
    using two_steps_reached by blast
  have v: "en_verify example_auth_env ''A.i'' (au_now ?d2) = Some (the (example_verify ''A.i'' 0))"
    by (simp add: example_auth_env_def example_verify_def)
  have j: "jw_jti (the (example_verify ''A.i'' 0)) = tk_jti (example_token ''A'' ''i'')"
    by (simp add: example_verify_def example_token_def)
  have e: "ends_logins_of ''A'' ''A'' (ChangePassword ''pw'' ''new'')" by simp
  from ended_logins_stay_ended [OF example_tables example_own_ids run e t u r v j] r show ?thesis by blast
qed

subsection \<open>Without the code\<close>

definition attempts :: "auth_request list" where
  "attempts = [Login (password_dto ''ann'' ''pw''), Login (code_dto ''ii'' ''BAD''), As (Some ''A.i'') (SetupTfa None),
     As (Some ''A.i'') (ChangePassword ''pw'' ''new''), Login (password_dto ''bob'' ''pw''), BeginPasskeyLogin]"

lemma example_guarded: "code_guarded ''A'' ''KEY'' {''i''} (\<lambda>_. True) example_auth"
proof -
  have "replicate n CHR ''i'' \<noteq> ''A''" for n by (cases n) simp_all
  then show ?thesis
    by (simp add: code_guarded_def example_auth_def example_account_def example_token_def protected_by_def code_only_def no_info_def)
qed

lemma attempts_run: "map tk_user (au_tokens (serve_requests example_auth_env attempts example_auth)) = [''A'', ''B'']"
  by code_simp

theorem second_factor_needed_witness:
  "\<exists>t\<in>set (au_tokens (serve_requests example_auth_env attempts example_auth)). tk_user t = ''A'' \<and> tk_jti t \<in> {''i''}"
proof -
  let ?d = "serve_requests example_auth_env attempts example_auth"
  have "list_all (without_code example_auth_env ''A'' ''KEY'' (\<lambda>_. True)) attempts"
    by (simp add: attempts_def password_dto_def code_dto_def wrong_code_def example_auth_env_def)
  then obtain ps where r: "reaches_service example_auth_env (without_code example_auth_env ''A'' ''KEY'' (\<lambda>_. True)) (\<lambda>_. True) example_auth (?d, ps)"
    using reaches_requests [OF reaches_start] by blast
  have "''A'' \<in> set (map tk_user (au_tokens ?d))" by (simp only: attempts_run) simp
  then obtain t where "t \<in> set (au_tokens ?d)" "tk_user t = ''A''" by auto
  with second_factor_needed [OF example_guarded r this] show ?thesis by blast
qed


end
