(* ===== verification/Device_Store.thy ===== *)
theory Device_Store
  imports Rbac_Access Service_Steps Address_Book_Store
begin

text \<open>
  What the services for devices keep (\<open>src/common/entities/peer.entity.ts\<close>, \<open>sysinfo.entity.ts\<close>,
  the entities of \<open>src/modules/device-group\<close>, \<open>src/modules/strategy\<close> and \<open>src/modules/heartbeat\<close>):
  devices, their groups, the strategies (client settings) assigned to devices, users and groups,
  tombstones of deleted devices, and connections; the memory of the server process (caches and
  buffers of heartbeats); and the rendezvous server \<open>hbbs\<close> as far as the services see it. A request
  is a process that makes one database call after the other.
\<close>

subsection \<open>Rows\<close>

text \<open>A device is keyed by \<open>dp_uuid\<close>; its RustDesk id \<open>dp_id\<close> may occur twice.\<close>

record device =
  dp_uuid :: string
  dp_id :: string
  dp_user :: "string option"
  dp_group :: "string option"
  dp_strategy :: "string option"
  dp_note :: "string option"
  dp_status :: PeerStatus
  dp_ver :: int
  dp_modified :: int
  dp_heartbeat :: "int option"

record group_row =
  gp_guid :: string
  gp_name :: string
  gp_note :: "string option"
  gp_strategy :: "string option"

text \<open>
  The text column \<open>configOptions\<close> holds the empty string (\<open>None\<close>) or the JSON text of an object of
  strings, represented by the object.
\<close>

record strategy =
  sg_guid :: string
  sg_name :: string
  sg_note :: "string option"
  sg_config :: "(string \<times> string) list option"
  sg_updated :: int

record device_user =
  du_guid :: string
  du_name :: string
  du_display :: "string option"
  du_status :: UserStatus
  du_admin :: bool
  du_strategy :: "string option"

record tombstone =
  tb_uuid :: string
  tb_device :: string
  tb_banned :: bool
  tb_requested :: bool
  tb_released :: bool
  tb_by :: "string option"

record sysinfo =
  sy_uuid :: string
  sy_host :: "string option"
  sy_user :: "string option"
  sy_os :: "string option"
  sy_cpu :: "string option"
  sy_memory :: "string option"
  sy_preset_user :: "string option"
  sy_preset_strategy :: "string option"
  sy_preset_group :: "string option"

text \<open>
  A connection list arrives unchecked: \<open>None\<close> stands for an element the integer column refuses
  (\<open>null\<close>).
\<close>

type_synonym reported = "int option"

record active_connection =
  cn_device :: string
  cn_id :: int

record peer_update =
  pu_id :: string
  pu_ver :: int
  pu_modified :: int
  pu_heartbeat :: int

text \<open>
  What becomes of a call to \<open>hbbs\<close> that changes something: no server is configured; the settings or
  the query in front of the change fail; the change is refused; it is made, but its answer is lost;
  it is answered.
\<close>

datatype upstream = NotConfigured | Unreachable | Refused | AnswerLost | Answered

text \<open>
  Tables first, then the memory of the process: the two caches of \<open>StrategyService\<close> (a device's
  entry is the strategy's identifier or \<open>null\<close>), the disconnect commands to deliver, and the buffers
  of \<open>HeartbeatCacheService\<close>. The policy of \<open>hbbs\<close> is what its answers show; the fate of its calls is
  an arbitrary sequence.
\<close>

record device_db =
  dx_devices :: "device list"
  dx_groups :: "group_row list"
  dx_strategies :: "strategy list"
  dx_users :: "device_user list"
  dx_tombstones :: "tombstone list"
  dx_sysinfos :: "sysinfo list"
  dx_conns :: "active_connection list"
  dx_books :: ab_db
  dx_rbac :: db
  dx_objects :: "(string \<times> strategy) list"
  dx_resolved :: "(string \<times> string option) list"
  dx_pending :: "(string \<times> int list) list"
  dx_peer_buffer :: "(string \<times> peer_update) list"
  dx_conns_buffer :: "(string \<times> reported list) list"
  dx_flushing_conns :: "(string \<times> reported list) list"
  dx_flushing :: bool
  dx_bans :: "string list"
  dx_registry :: "string list"
  dx_fate :: "nat \<Rightarrow> upstream"
  dx_asked :: nat
  dx_now :: int
  dx_ids :: "nat \<Rightarrow> string"
  dx_drawn :: nat

text \<open>Settings and hashing, which are not code of the repository.\<close>

record device_env =
  ve_clone_isolation :: bool
  ve_isolated :: "string \<Rightarrow> string \<Rightarrow> string"
  ve_node :: string
  ve_error_text :: "http_error \<Rightarrow> string"

subsection \<open>Reading rows\<close>

definition device_at :: "device_db \<Rightarrow> string \<Rightarrow> device option" where
  "device_at d uuid = find (\<lambda>p. dp_uuid p = uuid) (dx_devices d)"

definition group_at :: "device_db \<Rightarrow> string \<Rightarrow> group_row option" where
  "group_at d g = find (\<lambda>x. gp_guid x = g) (dx_groups d)"

definition group_with_name :: "device_db \<Rightarrow> string \<Rightarrow> group_row option" where
  "group_with_name d n = find (\<lambda>x. gp_name x = n) (dx_groups d)"

definition strategy_at :: "device_db \<Rightarrow> string \<Rightarrow> strategy option" where
  "strategy_at d g = find (\<lambda>s. sg_guid s = g) (dx_strategies d)"

definition strategy_with_name :: "device_db \<Rightarrow> string \<Rightarrow> strategy option" where
  "strategy_with_name d n = find (\<lambda>s. sg_name s = n) (dx_strategies d)"

definition user_at :: "device_db \<Rightarrow> string \<Rightarrow> device_user option" where
  "user_at d g = find (\<lambda>u. du_guid u = g) (dx_users d)"

definition tombstone_at :: "device_db \<Rightarrow> string \<Rightarrow> tombstone option" where
  "tombstone_at d uuid = find (\<lambda>t. tb_uuid t = uuid) (dx_tombstones d)"

subsection \<open>Authorization\<close>

text \<open>The authorization services see the devices, groups and users of these tables.\<close>

definition rbac_peer :: "device \<Rightarrow> peer" where
  "rbac_peer p = \<lparr>peer_uuid = dp_uuid p, peer_id = dp_id p, peer_group = dp_group p, peer_status = dp_status p\<rparr>"

definition rbac_group :: "group_row \<Rightarrow> device_group" where
  "rbac_group g = \<lparr>dg_guid = gp_guid g, dg_name = gp_name g\<rparr>"

definition rbac_device_user :: "device_user \<Rightarrow> user" where
  "rbac_device_user u = \<lparr>u_guid = du_guid u, u_status = du_status u, u_isAdmin = du_admin u\<rparr>"

definition access_view :: "device_db \<Rightarrow> db" where
  "access_view d = (dx_rbac d)\<lparr>users := map rbac_device_user (dx_users d),
     device_groups := map rbac_group (dx_groups d), peers := map rbac_peer (dx_devices d)\<rparr>"

text \<open>A check in a service, which may leave a record in the audit log.\<close>

definition consulting :: "(db \<Rightarrow> 'x result \<times> db) \<Rightarrow> (device_db, 'x) state_op" where
  "consulting f d = (case f (access_view d) of
     (r, rb) \<Rightarrow> (r, d\<lparr>dx_rbac := (dx_rbac d)\<lparr>console_audits := console_audits rb\<rparr>\<rparr>))"

definition asks :: "(db \<Rightarrow> 'x result) \<Rightarrow> (device_db, 'x) state_op" where
  "asks f = reading (\<lambda>d. f (access_view d))"

subsection \<open>Steps of a request\<close>

type_synonym 'r dev = "(device_db, 'r) steps"

text \<open>The queries of a check are one step.\<close>

definition checked_by :: "(device_db, 'x) state_op \<Rightarrow> ('x \<Rightarrow> 'r dev) \<Rightarrow> 'r dev" where
  "checked_by op k = db_update op (\<lambda>r. case r of Inl e \<Rightarrow> throw e | Inr x \<Rightarrow> k x)"

definition transacted :: "(device_db, 'x) state_op \<Rightarrow> ('x \<Rightarrow> 'r dev) \<Rightarrow> 'r dev" where
  "transacted = transact_keeping (\<lambda>d d'. d\<lparr>dx_rbac := dx_rbac d'\<rparr>)"

text \<open>A transaction whose failure the caller handles.\<close>

definition rolled_back :: "(device_db, 'x) state_op \<Rightarrow> (device_db, 'x) state_op" where
  "rolled_back op d = (case op d of
     (Inl e, d') \<Rightarrow> (Inl e, d\<lparr>dx_rbac := dx_rbac d'\<rparr>) | (Inr x, d') \<Rightarrow> (Inr x, d'))"

definition attempted :: "(device_db, 'x) state_op \<Rightarrow> ('x result \<Rightarrow> 'r dev) \<Rightarrow> 'r dev" where
  "attempted op k = db_update (rolled_back op) k"

text \<open>A change in memory, between two calls or at the end.\<close>

definition in_memory :: "(device_db \<Rightarrow> device_db) \<Rightarrow> 'r dev \<Rightarrow> 'r dev" where
  "in_memory g k = at_once (\<lambda>d. ((), g d)) (\<lambda>_. k)"

text \<open>A call that is under way and changes nothing yet (the begin of a transaction).\<close>

definition pause :: "'r dev \<Rightarrow> 'r dev" where
  "pause k = db_read (\<lambda>_. ()) (\<lambda>_. k)"

definition fresh_id :: "(string \<Rightarrow> 'r dev) \<Rightarrow> 'r dev" where
  "fresh_id = at_once (\<lambda>d. (dx_ids d (dx_drawn d), d\<lparr>dx_drawn := Suc (dx_drawn d)\<rparr>))"

subsection \<open>The device table\<close>

definition change_devices :: "(device \<Rightarrow> bool) \<Rightarrow> (device \<Rightarrow> device) \<Rightarrow> device_db \<Rightarrow> device_db" where
  "change_devices P f d = d\<lparr>dx_devices := map (\<lambda>p. if P p then f p else p) (dx_devices d)\<rparr>"

definition count_devices :: "(device \<Rightarrow> bool) \<Rightarrow> device_db \<Rightarrow> nat" where
  "count_devices P d = length (filter P (dx_devices d))"

text \<open>The condition \<open>deviceGroupGuid: In([...scope.deviceGroupGuids])\<close>, left out for a global scope.\<close>

definition in_reach :: "permission_scope \<Rightarrow> device \<Rightarrow> bool" where
  "in_reach s p \<longleftrightarrow> ps_global s \<or> (case dp_group p of None \<Rightarrow> False | Some g \<Rightarrow> g \<in> ps_groups s)"

text \<open>A device's connections go with it (\<open>ON DELETE CASCADE\<close>).\<close>

definition remove_devices :: "(device \<Rightarrow> bool) \<Rightarrow> device_db \<Rightarrow> device_db" where
  "remove_devices P d = d\<lparr>dx_devices := filter (\<lambda>p. \<not> P p) (dx_devices d),
     dx_conns := filter (\<lambda>c. cn_device c \<notin> set (map dp_uuid (filter P (dx_devices d)))) (dx_conns d)\<rparr>"

text \<open>\<open>save\<close> of a new device: the row with this key is replaced in the columns it gives.\<close>

definition save_device :: "device \<Rightarrow> device_db \<Rightarrow> device_db" where
  "save_device p d = d\<lparr>dx_devices := (case device_at d (dp_uuid p) of
       None \<Rightarrow> dx_devices d @ [p]
     | Some _ \<Rightarrow> map (\<lambda>q. if dp_uuid q = dp_uuid p then q\<lparr>dp_id := dp_id p, dp_ver := dp_ver p,
         dp_modified := dp_modified p, dp_heartbeat := dp_heartbeat p\<rparr> else q) (dx_devices d))\<rparr>"

definition new_device :: "string \<Rightarrow> string \<Rightarrow> int \<Rightarrow> int \<Rightarrow> int \<Rightarrow> device" where
  "new_device uuid i ver modified now = \<lparr>dp_uuid = uuid, dp_id = i, dp_user = None, dp_group = None,
     dp_strategy = None, dp_note = None, dp_status = PeerActive, dp_ver = ver, dp_modified = modified,
     dp_heartbeat = Some now\<rparr>"

end
