(* ===== verification/Strategy_Service.thy ===== *)
theory Strategy_Service
  imports Device_Store
begin

text \<open>
  Strategies: client settings that an administrator assigns to devices, users and device groups
  (\<open>src/modules/strategy/strategy.service.ts\<close>). A device gets the strategy of its own, else that of
  its user, else that of its group. Two caches in memory remember the outcome until an assignment
  changes.
\<close>

subsection \<open>The strategy of a device\<close>

text \<open>The entry of the first cache counts only while the second holds its strategy.\<close>

definition cached_strategy :: "device_db \<Rightarrow> string \<Rightarrow> strategy option option" where
  "cached_strategy d uuid = (case map_of (dx_resolved d) uuid of
       None \<Rightarrow> None
     | Some None \<Rightarrow> Some None
     | Some (Some g) \<Rightarrow> (case map_of (dx_objects d) g of None \<Rightarrow> None | Some s \<Rightarrow> Some (Some s)))"

definition remember_strategy :: "string \<Rightarrow> strategy option \<Rightarrow> device_db \<Rightarrow> device_db" where
  "remember_strategy uuid r d = (case r of
       None \<Rightarrow> d\<lparr>dx_resolved := AList.update uuid None (dx_resolved d)\<rparr>
     | Some s \<Rightarrow> d\<lparr>dx_objects := AList.update (sg_guid s) s (dx_objects d),
         dx_resolved := AList.update uuid (Some (sg_guid s)) (dx_resolved d)\<rparr>)"

definition look_up_strategy :: "string option \<Rightarrow> 'r dev \<Rightarrow> (strategy \<Rightarrow> 'r dev) \<Rightarrow> 'r dev" where
  "look_up_strategy g miss hit = (case nonempty g of
       None \<Rightarrow> miss
     | Some g \<Rightarrow> db_read (\<lambda>d. strategy_at d g) (\<lambda>s. case s of None \<Rightarrow> miss | Some s \<Rightarrow> hit s))"

definition group_strategy :: "device \<Rightarrow> (strategy option \<Rightarrow> 'r dev) \<Rightarrow> 'r dev" where
  "group_strategy p k = (case nonempty (dp_group p) of
       None \<Rightarrow> k None
     | Some g \<Rightarrow> db_read (\<lambda>d. group_at d g) (\<lambda>x.
         look_up_strategy (Option.bind x gp_strategy) (k None) (\<lambda>s. k (Some s))))"

definition user_strategy :: "device \<Rightarrow> (strategy option \<Rightarrow> 'r dev) \<Rightarrow> 'r dev" where
  "user_strategy p k = (case nonempty (dp_user p) of
       None \<Rightarrow> group_strategy p k
     | Some u \<Rightarrow> db_read (\<lambda>d. user_at d u) (\<lambda>x.
         look_up_strategy (Option.bind x du_strategy) (group_strategy p k) (\<lambda>s. k (Some s))))"

definition resolveStrategyForPeer :: "device \<Rightarrow> (strategy option \<Rightarrow> 'r dev) \<Rightarrow> 'r dev" where
  "resolveStrategyForPeer p k = look_up_strategy (dp_strategy p) (user_strategy p k) (\<lambda>s. k (Some s))"

definition findStrategyForPeer :: "device \<Rightarrow> (strategy option \<Rightarrow> 'r dev) \<Rightarrow> 'r dev" where
  "findStrategyForPeer p k = at_once (\<lambda>d. (cached_strategy d (dp_uuid p), d)) (\<lambda>c. case c of
       Some r \<Rightarrow> k r
     | None \<Rightarrow> resolveStrategyForPeer p (\<lambda>r. in_memory (remember_strategy (dp_uuid p) r) (k r)))"

definition findStrategyForDevice :: "string \<Rightarrow> (strategy option \<Rightarrow> 'r dev) \<Rightarrow> 'r dev" where
  "findStrategyForDevice uuid k = db_read (\<lambda>d. device_at d uuid) (\<lambda>p. case p of
     None \<Rightarrow> k None | Some p \<Rightarrow> findStrategyForPeer p k)"

definition forget_device :: "string \<Rightarrow> device_db \<Rightarrow> device_db" where
  "forget_device uuid d = d\<lparr>dx_resolved := AList.delete uuid (dx_resolved d)\<rparr>"

definition forget_all :: "device_db \<Rightarrow> device_db" where
  "forget_all d = d\<lparr>dx_resolved := []\<rparr>"

definition invalidateDeviceStrategyCache :: "string option \<Rightarrow> device_db \<Rightarrow> device_db" where
  "invalidateDeviceStrategyCache uuid = (case nonempty uuid of None \<Rightarrow> forget_all | Some u \<Rightarrow> forget_device u)"

subsection \<open>Keeping strategies\<close>

definition name_in_use :: "device_db \<Rightarrow> strategy \<Rightarrow> bool" where
  "name_in_use d s = list_ex (\<lambda>x. sg_name x = sg_name s \<and> sg_guid x \<noteq> sg_guid s) (dx_strategies d)"

text \<open>
  \<open>save\<close> compares with the row of this key: an equal row is left alone, a changed one gets a new
  time, a missing one is inserted. The name is unique.
\<close>

definition stamped_strategy :: "device_db \<Rightarrow> strategy \<Rightarrow> strategy" where
  "stamped_strategy d s = (case strategy_at d (sg_guid s) of
       None \<Rightarrow> s\<lparr>sg_updated := dx_now d\<rparr>
     | Some old \<Rightarrow> if old\<lparr>sg_updated := sg_updated s\<rparr> = s then s else s\<lparr>sg_updated := dx_now d\<rparr>)"

definition save_strategy :: "strategy \<Rightarrow> device_db \<Rightarrow> strategy option \<times> device_db" where
  "save_strategy s d = (if name_in_use d s then (None, d)
     else let s' = stamped_strategy d s in
       (Some s', case strategy_at d (sg_guid s) of
          Some old \<Rightarrow> if old\<lparr>sg_updated := sg_updated s\<rparr> = s then d
            else d\<lparr>dx_strategies := save_row sg_guid s' (dx_strategies d)\<rparr>
        | None \<Rightarrow> d\<lparr>dx_strategies := save_row sg_guid s' (dx_strategies d)\<rparr>))"

definition saving_strategy :: "strategy \<Rightarrow> (strategy \<Rightarrow> 'r dev) \<Rightarrow> 'r dev" where
  "saving_strategy s k = db_update (save_strategy s) (\<lambda>r. case r of None \<Rightarrow> throw constraint_error | Some s' \<Rightarrow> k s')"

record strategy_dto =
  sd_name :: "string option"
  sd_note :: "string option"
  sd_config :: "(string \<times> string) list option"

definition or_blank :: "string option \<Rightarrow> string" where
  "or_blank v = (case v of None \<Rightarrow> [] | Some s \<Rightarrow> s)"

definition createStrategy :: "string \<Rightarrow> strategy_dto \<Rightarrow> (strategy \<Rightarrow> 'r dev) \<Rightarrow> 'r dev" where
  "createStrategy name dto k = db_read (\<lambda>d. strategy_with_name d name) (\<lambda>existing.
     if existing \<noteq> None then throw (BadRequestException ''Strategy name already exists'')
     else fresh_id (\<lambda>g. saving_strategy \<lparr>sg_guid = g, sg_name = name, sg_note = Some (or_blank (sd_note dto)),
       sg_config = sd_config dto, sg_updated = 0\<rparr> k))"

definition described :: "strategy_dto \<Rightarrow> strategy \<Rightarrow> strategy" where
  "described dto s =
     (let s = (case sd_note dto of None \<Rightarrow> s | Some n \<Rightarrow> s\<lparr>sg_note := Some n\<rparr>)
      in case sd_config dto of None \<Rightarrow> s | Some c \<Rightarrow> s\<lparr>sg_config := Some c\<rparr>)"

definition store_strategy :: "strategy \<Rightarrow> (strategy \<Rightarrow> 'r dev) \<Rightarrow> 'r dev" where
  "store_strategy s k = saving_strategy s (\<lambda>s'.
     in_memory (\<lambda>d. d\<lparr>dx_objects := AList.update (sg_guid s') s' (dx_objects d)\<rparr>) (k s'))"

definition updateStrategy :: "string \<Rightarrow> strategy_dto \<Rightarrow> (strategy \<Rightarrow> 'r dev) \<Rightarrow> 'r dev" where
  "updateStrategy g dto k = db_read (\<lambda>d. strategy_at d g) (\<lambda>s. case s of
       None \<Rightarrow> throw (NotFoundException ''Strategy not found'')
     | Some s \<Rightarrow> (case sd_name dto of
         None \<Rightarrow> store_strategy (described dto s) k
       | Some n \<Rightarrow> db_read (\<lambda>d. strategy_with_name d n) (\<lambda>existing.
           if (case existing of None \<Rightarrow> False | Some x \<Rightarrow> sg_guid x \<noteq> g)
           then throw (BadRequestException ''Strategy name already exists'')
           else store_strategy (described dto (s\<lparr>sg_name := n\<rparr>)) k)))"

text \<open>Assignments of a deleted strategy become null (\<open>ON DELETE SET NULL\<close>).\<close>

definition without :: "string \<Rightarrow> string option \<Rightarrow> string option" where
  "without g v = (if v = Some g then None else v)"

definition remove_strategy :: "string \<Rightarrow> device_db \<Rightarrow> device_db" where
  "remove_strategy g d = d\<lparr>dx_strategies := filter (\<lambda>s. sg_guid s \<noteq> g) (dx_strategies d),
     dx_devices := map (\<lambda>p. p\<lparr>dp_strategy := without g (dp_strategy p)\<rparr>) (dx_devices d),
     dx_users := map (\<lambda>u. u\<lparr>du_strategy := without g (du_strategy u)\<rparr>) (dx_users d),
     dx_groups := map (\<lambda>x. x\<lparr>gp_strategy := without g (gp_strategy x)\<rparr>) (dx_groups d)\<rparr>"

definition forget_strategy :: "string \<Rightarrow> device_db \<Rightarrow> device_db" where
  "forget_strategy g d = d\<lparr>dx_objects := AList.delete g (dx_objects d),
     dx_resolved := filter (\<lambda>(_, v). v \<noteq> Some g) (dx_resolved d)\<rparr>"

definition deleteStrategy :: "string \<Rightarrow> 'r dev \<Rightarrow> 'r dev" where
  "deleteStrategy g k = db_read (\<lambda>d. strategy_at d g) (\<lambda>s.
     if s = None then throw (NotFoundException ''Strategy not found'')
     else db_write (remove_strategy g) (in_memory (forget_strategy g) k))"

subsection \<open>Assigning\<close>

type_synonym assignment_result = "string list \<times> (string \<times> string) list"

definition found_strategy :: "string \<Rightarrow> (device_db, strategy) state_op" where
  "found_strategy g = reading (\<lambda>d. case strategy_at d g of
     None \<Rightarrow> Inl (NotFoundException ''Strategy not found'') | Some s \<Rightarrow> Inr s)"

definition may_target :: "string \<Rightarrow> strategy_target \<Rightarrow> string list \<Rightarrow> (device_db, permission_scope) state_op" where
  "may_target actor t targets = consulting (\<lambda>rb. assertStrategyTargets rb actor t targets)"

definition devices_in :: "string list \<Rightarrow> device_db \<Rightarrow> device list" where
  "devices_in ts d = filter (\<lambda>p. dp_uuid p \<in> set ts) (dx_devices d)"

definition users_in :: "string list \<Rightarrow> device_db \<Rightarrow> device_user list" where
  "users_in ts d = filter (\<lambda>u. du_guid u \<in> set ts) (dx_users d)"

definition groups_in :: "string list \<Rightarrow> device_db \<Rightarrow> group_row list" where
  "groups_in ts d = filter (\<lambda>x. gp_guid x \<in> set ts) (dx_groups d)"

text \<open>The reasons for the targets left out, in the order of the request.\<close>

definition missing_targets :: "string \<Rightarrow> string list \<Rightarrow> string list \<Rightarrow> (string \<times> string) list" where
  "missing_targets reason found ts = map (\<lambda>t. (t, reason)) (filter (\<lambda>t. t \<notin> set found) ts)"

definition unbound_targets :: "string \<Rightarrow> string \<Rightarrow> string list \<Rightarrow> string list \<Rightarrow> string list \<Rightarrow> (string \<times> string) list" where
  "unbound_targets missing unbound found bound ts =
     map (\<lambda>t. (t, if t \<notin> set found then missing else unbound)) (filter (\<lambda>t. t \<notin> set found \<or> t \<notin> set bound) ts)"

text \<open>An update that must reach \<open>n\<close> rows.\<close>

definition update_exactly ::
  "(device \<Rightarrow> bool) \<Rightarrow> (device \<Rightarrow> device) \<Rightarrow> nat \<Rightarrow> (device_db, unit) state_op \<Rightarrow> (device_db, unit) state_op" where
  "update_exactly P f n recheck = (\<lambda>d.
     if count_devices P d = n then (Inr (), change_devices P f d)
     else sbind recheck (\<lambda>_. reading (\<lambda>_. Inl (ConflictException ''Device information has changed, please retry'')))
       (change_devices P f d))"

definition assign_devices :: "string \<Rightarrow> string list \<Rightarrow> string \<Rightarrow> (device_db, assignment_result) state_op" where
  "assign_devices g ts actor =
     sbind (may_target actor TargetDevice ts) (\<lambda>scope.
     sbind (found_strategy g) (\<lambda>_.
     sbind (reading (\<lambda>d. Inr (map dp_uuid (devices_in ts d)))) (\<lambda>found.
     sbind (if found = [] then reading (\<lambda>_. Inr ())
       else update_exactly (\<lambda>p. dp_uuid p \<in> set found \<and> in_reach scope p) (\<lambda>p. p\<lparr>dp_strategy := Some g\<rparr>)
         (length found) (sbind (may_target actor TargetDevice ts) (\<lambda>_. reading (\<lambda>_. Inr ())))) (\<lambda>_.
     reading (\<lambda>_. Inr (found, missing_targets ''Device not found'' found ts))))))"

definition assign_users :: "string \<Rightarrow> string list \<Rightarrow> string \<Rightarrow> (device_db, assignment_result) state_op" where
  "assign_users g ts actor =
     sbind (reading (\<lambda>d. Inr (map du_guid (users_in ts d)))) (\<lambda>found.
     sbind (may_target actor TargetUser found) (\<lambda>_.
     sbind (found_strategy g) (\<lambda>_.
     sbind (writing_db (\<lambda>d. d\<lparr>dx_users :=
       map (\<lambda>u. if du_guid u \<in> set found then u\<lparr>du_strategy := Some g\<rparr> else u) (dx_users d)\<rparr>)) (\<lambda>_.
     reading (\<lambda>_. Inr (found, missing_targets ''User does not exist'' found ts))))))"

definition assign_groups :: "string \<Rightarrow> string list \<Rightarrow> string \<Rightarrow> (device_db, assignment_result) state_op" where
  "assign_groups g ts actor =
     sbind (may_target actor TargetDeviceGroup ts) (\<lambda>_.
     sbind (found_strategy g) (\<lambda>_.
     sbind (reading (\<lambda>d. Inr (map gp_guid (groups_in ts d)))) (\<lambda>found.
     sbind (writing_db (\<lambda>d. d\<lparr>dx_groups :=
       map (\<lambda>x. if gp_guid x \<in> set found then x\<lparr>gp_strategy := Some g\<rparr> else x) (dx_groups d)\<rparr>)) (\<lambda>_.
     reading (\<lambda>_. Inr (found, missing_targets ''Device group not found'' found ts))))))"

fun assign_body :: "string \<Rightarrow> strategy_target \<Rightarrow> string list \<Rightarrow> string \<Rightarrow> (device_db, assignment_result) state_op" where
  "assign_body g TargetDevice ts actor = assign_devices g ts actor"
| "assign_body g TargetUser ts actor = assign_users g ts actor"
| "assign_body g TargetDeviceGroup ts actor = assign_groups g ts actor"

definition assignStrategy ::
  "string \<Rightarrow> strategy_target \<Rightarrow> string list \<Rightarrow> string \<Rightarrow> (assignment_result \<Rightarrow> 'r dev) \<Rightarrow> 'r dev" where
  "assignStrategy g t targets actor k = transacted (assign_body g t (js_unique targets) actor)
     (\<lambda>r. in_memory (invalidateDeviceStrategyCache None) (k r))"

definition unassign_devices :: "string \<Rightarrow> string list \<Rightarrow> string \<Rightarrow> (device_db, assignment_result) state_op" where
  "unassign_devices g ts actor =
     sbind (may_target actor TargetDevice ts) (\<lambda>scope.
     sbind (found_strategy g) (\<lambda>_.
     sbind (reading (\<lambda>d. Inr (devices_in ts d))) (\<lambda>found.
     let bound = map dp_uuid (filter (\<lambda>p. dp_strategy p = Some g) found) in
     sbind (if bound = [] then reading (\<lambda>_. Inr ())
       else update_exactly (\<lambda>p. dp_uuid p \<in> set bound \<and> dp_strategy p = Some g \<and> in_reach scope p)
         (\<lambda>p. p\<lparr>dp_strategy := None\<rparr>) (length bound) (reading (\<lambda>_. Inr ()))) (\<lambda>_.
     reading (\<lambda>_. Inr (bound,
       unbound_targets ''Device not found'' ''Device is not bound to this strategy'' (map dp_uuid found) bound ts))))))"

definition unassign_users :: "string \<Rightarrow> string list \<Rightarrow> string \<Rightarrow> (device_db, assignment_result) state_op" where
  "unassign_users g ts actor =
     sbind (reading (\<lambda>d. Inr (users_in ts d))) (\<lambda>found.
     sbind (may_target actor TargetUser (map du_guid found)) (\<lambda>_.
     sbind (found_strategy g) (\<lambda>_.
     let bound = map du_guid (filter (\<lambda>u. du_strategy u = Some g) found) in
     sbind (writing_db (\<lambda>d. d\<lparr>dx_users := map (\<lambda>u. if du_guid u \<in> set bound \<and> du_strategy u = Some g
       then u\<lparr>du_strategy := None\<rparr> else u) (dx_users d)\<rparr>)) (\<lambda>_.
     reading (\<lambda>_. Inr (bound,
       unbound_targets ''User does not exist'' ''User is not bound to this strategy'' (map du_guid found) bound ts))))))"

definition unassign_groups :: "string \<Rightarrow> string list \<Rightarrow> string \<Rightarrow> (device_db, assignment_result) state_op" where
  "unassign_groups g ts actor =
     sbind (may_target actor TargetDeviceGroup ts) (\<lambda>_.
     sbind (found_strategy g) (\<lambda>_.
     sbind (reading (\<lambda>d. Inr (groups_in ts d))) (\<lambda>found.
     let bound = map gp_guid (filter (\<lambda>x. gp_strategy x = Some g) found) in
     sbind (writing_db (\<lambda>d. d\<lparr>dx_groups := map (\<lambda>x. if gp_guid x \<in> set bound \<and> gp_strategy x = Some g
       then x\<lparr>gp_strategy := None\<rparr> else x) (dx_groups d)\<rparr>)) (\<lambda>_.
     reading (\<lambda>_. Inr (bound, unbound_targets ''Device group not found'' ''Device group is not bound to this strategy''
       (map gp_guid found) bound ts))))))"

fun unassign_body :: "string \<Rightarrow> strategy_target \<Rightarrow> string list \<Rightarrow> string \<Rightarrow> (device_db, assignment_result) state_op" where
  "unassign_body g TargetDevice ts actor = unassign_devices g ts actor"
| "unassign_body g TargetUser ts actor = unassign_users g ts actor"
| "unassign_body g TargetDeviceGroup ts actor = unassign_groups g ts actor"

definition unassignStrategy ::
  "string \<Rightarrow> strategy_target \<Rightarrow> string list \<Rightarrow> string \<Rightarrow> (assignment_result \<Rightarrow> 'r dev) \<Rightarrow> 'r dev" where
  "unassignStrategy g t targets actor k = transacted (unassign_body g t (js_unique targets) actor)
     (\<lambda>r. in_memory (invalidateDeviceStrategyCache None) (k r))"

subsection \<open>Listing\<close>

definition getStrategy :: "string \<Rightarrow> (device_db, strategy) state_op" where
  "getStrategy g = found_strategy g"

definition listed_strategies :: "(string \<Rightarrow> string \<Rightarrow> bool) \<Rightarrow> string option \<Rightarrow> device_db \<Rightarrow> strategy list" where
  "listed_strategies like name d = sort_key sg_name
     (filter (\<lambda>s. case nonempty name of None \<Rightarrow> True | Some n \<Rightarrow> like n (sg_name s)) (dx_strategies d))"

definition getStrategies ::
  "(string \<Rightarrow> string \<Rightarrow> bool) \<Rightarrow> ab_page \<Rightarrow> string option \<Rightarrow> device_db \<Rightarrow> nat \<times> (string \<times> string \<times> string \<times> int) list" where
  "getStrategies like pg name d = (let found = listed_strategies like name d in
     (length found, map (\<lambda>s. (sg_guid s, sg_name s, or_blank (sg_note s), sg_updated s)) (page_rows pg found)))"

text \<open>The users a candidate list shows, with the protection the authorization service sees.\<close>

definition user_rows :: "string \<Rightarrow> (device_user \<Rightarrow> bool) \<Rightarrow> ab_page \<Rightarrow> device_db \<Rightarrow> (nat \<times> (string \<times> string \<times> bool) list) result" where
  "user_rows actor P pg d = rbind (getCurrentUser (access_view d) actor) (\<lambda>a.
     let found = sort_key du_name (filter (\<lambda>u. P u \<and> (u_isAdmin a \<or> \<not> du_admin u)) (dx_users d));
         shown = page_rows pg found;
         prot = getEffectiveProtectionMap (access_view d) (map du_guid shown)
     in Inr (length found, map (\<lambda>u. (du_guid u,
          (case nonempty (du_display u) of None \<Rightarrow> du_name u | Some n \<Rightarrow> n),
          map_of prot (du_guid u) = Some True)) shown))"

definition device_rows :: "permission_scope \<Rightarrow> (device \<Rightarrow> bool) \<Rightarrow> ab_page \<Rightarrow> device_db \<Rightarrow> nat \<times> (string \<times> string) list" where
  "device_rows scope P pg d = (let found = sort_key dp_id (filter (\<lambda>p. P p \<and> in_reach scope p) (dx_devices d)) in
     (length found, map (\<lambda>p. (dp_uuid p, dp_id p)) (page_rows pg found)))"

definition group_rows_in :: "permission_scope \<Rightarrow> (group_row \<Rightarrow> bool) \<Rightarrow> ab_page \<Rightarrow> device_db \<Rightarrow> nat \<times> (string \<times> string) list" where
  "group_rows_in scope P pg d =
     (let found = sort_key gp_name (filter (\<lambda>x. P x \<and> (ps_global scope \<or> gp_guid x \<in> ps_groups scope)) (dx_groups d))
      in (length found, map (\<lambda>x. (gp_guid x, gp_name x)) (page_rows pg found)))"

datatype target_rows = DeviceRows nat "(string \<times> string) list" | UserRows nat "(string \<times> string \<times> bool) list"
  | GroupRows nat "(string \<times> string) list"

text \<open>\<open>byDevice\<close> is \<open>target_type === 'device'\<close>; anything else lists users.\<close>

definition getStrategyTargetCandidates :: "bool \<Rightarrow> ab_page \<Rightarrow> string \<Rightarrow> (target_rows \<Rightarrow> 'r dev) \<Rightarrow> 'r dev" where
  "getStrategyTargetCandidates byDevice pg actor k =
     (if byDevice
      then checked_by (asks (\<lambda>rb. requirePermission rb actor ''strategies.assign'')) (\<lambda>scope.
        db_read (device_rows scope (\<lambda>_. True) pg) (\<lambda>(n, rows). k (DeviceRows n rows)))
      else checked_by (may_target actor TargetUser []) (\<lambda>_.
        checked_by (reading (user_rows actor (\<lambda>_. True) pg)) (\<lambda>(n, rows). k (UserRows n rows))))"

definition getStrategyAssignments ::
  "string \<Rightarrow> strategy_target \<Rightarrow> ab_page \<Rightarrow> string \<Rightarrow> (target_rows \<Rightarrow> 'r dev) \<Rightarrow> 'r dev" where
  "getStrategyAssignments g t pg actor k =
     checked_by (asks (\<lambda>rb. requirePermission rb actor ''strategies.assign'')) (\<lambda>scope.
     checked_by (if t = TargetUser then sbind (may_target actor TargetUser []) (\<lambda>_. reading (\<lambda>_. Inr ()))
       else reading (\<lambda>_. Inr ())) (\<lambda>_.
     checked_by (found_strategy g) (\<lambda>_. case t of
         TargetDevice \<Rightarrow> db_read (device_rows scope (\<lambda>p. dp_strategy p = Some g) pg) (\<lambda>(n, rows). k (DeviceRows n rows))
       | TargetUser \<Rightarrow> checked_by (reading (user_rows actor (\<lambda>u. du_strategy u = Some g) pg)) (\<lambda>(n, rows). k (UserRows n rows))
       | TargetDeviceGroup \<Rightarrow> db_read (group_rows_in scope (\<lambda>x. gp_strategy x = Some g) pg)
           (\<lambda>(n, rows). k (GroupRows n rows)))))"

end
