(* ===== verification/Device_Admin.thy ===== *)
theory Device_Admin
  imports Strategy_Service
begin

text \<open>
  What administrators do with devices and device groups
  (\<open>src/modules/device-group/device-group.service.ts\<close>), and the two calls to the rendezvous server
  that go with it (\<open>syncDeviceBans\<close>, \<open>releaseDeviceId\<close> of
  \<open>src/modules/server-management/server-management.service.ts\<close>). Ban lists are replaced as a whole;
  the queue in front of them makes a cycle of reading and writing the list one step.
\<close>

subsection \<open>The rendezvous server\<close>

datatype sync_reason = NotConfiguredReason | ForbiddenReason | UpstreamError

record enforcement =
  ef_enforced :: bool
  ef_reason :: "sync_reason option"
  ef_detail :: "string option"

definition enforced :: enforcement where
  "enforced = \<lparr>ef_enforced = True, ef_reason = None, ef_detail = None\<rparr>"

definition not_enforced :: "sync_reason \<Rightarrow> string option \<Rightarrow> enforcement" where
  "not_enforced r m = \<lparr>ef_enforced = False, ef_reason = Some r, ef_detail = m\<rparr>"

definition server_audit :: "device_env \<Rightarrow> string \<Rightarrow> string \<Rightarrow> json option \<Rightarrow> device_db \<Rightarrow> device_db" where
  "server_audit E actor act details d = d\<lparr>dx_rbac := (case details of
       None \<Rightarrow> recordDenied (Some actor) ''server'' (Some (ve_node E)) act
         (Some ''Server management operation failed'') (dx_rbac d)
     | Some j \<Rightarrow> audit_record \<lparr>ev_actor = Some actor, ev_target_type = ''server'', ev_target = Some (ve_node E),
         ev_action = act, ev_result = Allowed, ev_reason = None, ev_before = None, ev_after = Some j\<rparr> (dx_rbac d))\<rparr>"

text \<open>A change at the server, with what the services see of it.\<close>

definition upstream_change ::
  "device_env \<Rightarrow> string \<Rightarrow> string \<Rightarrow> (device_db \<Rightarrow> json) \<Rightarrow> (device_db \<Rightarrow> device_db) \<Rightarrow> device_db \<Rightarrow> enforcement \<times> device_db" where
  "upstream_change E actor act details change d0 =
     (let d = d0\<lparr>dx_asked := Suc (dx_asked d0)\<rparr>;
          lost = not_enforced UpstreamError (Some (ve_error_text E (ServiceUnavailableException ''Server management unavailable'')))
      in case dx_fate d0 (dx_asked d0) of
           NotConfigured \<Rightarrow> (not_enforced NotConfiguredReason None, d)
         | Unreachable \<Rightarrow> (lost, d)
         | Refused \<Rightarrow> (not_enforced UpstreamError (Some (ve_error_text E (OtherError ''Server management operation failed''))),
             server_audit E actor act None d)
         | AnswerLost \<Rightarrow> (lost, server_audit E actor act None (change d))
         | Answered \<Rightarrow> (enforced, server_audit E actor act (Some (details d)) (change d)))"

definition merged_bans :: "string list \<Rightarrow> string list \<Rightarrow> string list \<Rightarrow> string list" where
  "merged_bans add remove bans = filter (\<lambda>i. i \<notin> set remove) (js_unique (bans @ add))"

definition json_ids :: "string list \<Rightarrow> json" where
  "json_ids is = JArr (map JStr is)"

definition sync_bans ::
  "device_env \<Rightarrow> string \<Rightarrow> string list \<Rightarrow> string list \<Rightarrow> device_db \<Rightarrow> enforcement \<times> device_db" where
  "sync_bans E actor add remove d =
     (let add = js_unique add; remove = js_unique remove
      in if add = [] \<and> remove = [] then (enforced, d)
         else upstream_change E actor ''PUT /v1/bans''
           (\<lambda>d. JObj [(''device_ids'', json_ids (merged_bans add remove (dx_bans d))),
              (''added'', json_ids add), (''removed'', json_ids remove)])
           (\<lambda>d. d\<lparr>dx_bans := merged_bans add remove (dx_bans d)\<rparr>) d)"

definition release_id :: "device_env \<Rightarrow> string \<Rightarrow> string \<Rightarrow> device_db \<Rightarrow> enforcement \<times> device_db" where
  "release_id E actor i d =
     (if i = [] then (enforced, d)
      else upstream_change E actor ''DELETE /v1/peers/:id'' (\<lambda>_. JObj [(''device_id'', JStr i)])
        (\<lambda>d. d\<lparr>dx_registry := filter (\<lambda>x. x \<noteq> i) (dx_registry d)\<rparr>) d)"

text \<open>
  Only with the permission on the server: a refusal is reported, and so is any other error of the
  check.
\<close>

definition canEnforceProtocolBans :: "string \<Rightarrow> device_db \<Rightarrow> bool result" where
  "canEnforceProtocolBans actor d = (case requirePermission (access_view d) actor ''servers.ban'' of
     Inr _ \<Rightarrow> Inr True
   | Inl (ForbiddenException _) \<Rightarrow> Inr False
   | Inl e \<Rightarrow> Inl e)"

definition enforcing ::
  "device_env \<Rightarrow> string \<Rightarrow> (device_db \<Rightarrow> enforcement \<times> device_db) \<Rightarrow> (enforcement \<Rightarrow> 'r dev) \<Rightarrow> 'r dev" where
  "enforcing E actor change k = db_read (canEnforceProtocolBans actor) (\<lambda>r. case r of
       Inr may \<Rightarrow> if may then db_update change k else k (not_enforced ForbiddenReason None)
     | Inl e \<Rightarrow> k (not_enforced UpstreamError
         (Some (''Failed to verify the servers.ban permission: '' @ ve_error_text E e))))"

definition syncDeviceBans ::
  "device_env \<Rightarrow> string \<Rightarrow> string list \<Rightarrow> string list \<Rightarrow> (enforcement \<Rightarrow> 'r dev) \<Rightarrow> 'r dev" where
  "syncDeviceBans E actor add remove k = enforcing E actor (sync_bans E actor add remove) k"

definition releaseDeviceId :: "device_env \<Rightarrow> string \<Rightarrow> string \<Rightarrow> (enforcement \<Rightarrow> 'r dev) \<Rightarrow> 'r dev" where
  "releaseDeviceId E actor i k = enforcing E actor (release_id E actor i) k"

subsection \<open>Device groups\<close>

definition as_super_admin :: "string \<Rightarrow> 'r dev \<Rightarrow> 'r dev" where
  "as_super_admin actor k = checked_by (asks (\<lambda>rb. requireSuperAdmin rb actor)) (\<lambda>_. k)"

definition group_name_taken :: "device_db \<Rightarrow> group_row \<Rightarrow> bool" where
  "group_name_taken d g = list_ex (\<lambda>x. gp_name x = gp_name g \<and> gp_guid x \<noteq> gp_guid g) (dx_groups d)"

definition strategy_exists :: "device_db \<Rightarrow> string option \<Rightarrow> bool" where
  "strategy_exists d v = (case v of None \<Rightarrow> True | Some g \<Rightarrow> strategy_at d g \<noteq> None)"

definition save_group :: "group_row \<Rightarrow> 'r dev \<Rightarrow> 'r dev" where
  "save_group g k = db_save (\<lambda>d. \<not> group_name_taken d g \<and> strategy_exists d (gp_strategy g))
     (\<lambda>d. d\<lparr>dx_groups := save_row gp_guid g (dx_groups d)\<rparr>) (throw constraint_error) k"

definition createDeviceGroup :: "string \<Rightarrow> string option \<Rightarrow> string \<Rightarrow> 'r dev \<Rightarrow> 'r dev" where
  "createDeviceGroup name note actor k = as_super_admin actor (db_read (\<lambda>d. group_with_name d name) (\<lambda>existing.
     if existing \<noteq> None then throw (BadRequestException ''Device group name already exists'')
     else fresh_id (\<lambda>g. save_group \<lparr>gp_guid = g, gp_name = name, gp_note = Some (or_blank note), gp_strategy = None\<rparr> k)))"

definition with_group :: "string \<Rightarrow> (group_row \<Rightarrow> 'r dev) \<Rightarrow> 'r dev" where
  "with_group g k = db_read (\<lambda>d. group_at d g) (\<lambda>x. case x of
     None \<Rightarrow> throw (NotFoundException ''Device group does not exist'') | Some x \<Rightarrow> k x)"

definition updateDeviceGroup :: "string \<Rightarrow> string option \<Rightarrow> string option \<Rightarrow> string \<Rightarrow> 'r dev \<Rightarrow> 'r dev" where
  "updateDeviceGroup g name note actor k = as_super_admin actor (with_group g (\<lambda>x.
     let noted = (\<lambda>x. case note of None \<Rightarrow> x | Some m \<Rightarrow> x\<lparr>gp_note := Some m\<rparr>)
     in case name of
          None \<Rightarrow> save_group (noted x) k
        | Some n \<Rightarrow> db_read (\<lambda>d. group_with_name d n) (\<lambda>existing.
            if (case existing of None \<Rightarrow> False | Some y \<Rightarrow> gp_guid y \<noteq> g)
            then throw (BadRequestException ''Device group name already exists'')
            else save_group (noted (x\<lparr>gp_name := n\<rparr>)) k)))"

text \<open>Its devices lose their group (\<open>ON DELETE SET NULL\<close>).\<close>

definition remove_group :: "string \<Rightarrow> device_db \<Rightarrow> device_db" where
  "remove_group g d = d\<lparr>dx_groups := filter (\<lambda>x. gp_guid x \<noteq> g) (dx_groups d),
     dx_devices := map (\<lambda>p. p\<lparr>dp_group := without g (dp_group p)\<rparr>) (dx_devices d)\<rparr>"

definition delete_group_body :: "string \<Rightarrow> (device_db, string list) state_op" where
  "delete_group_body g =
     sbind (reading (\<lambda>d. ensure (group_at d g \<noteq> None) (NotFoundException ''Device group does not exist''))) (\<lambda>_.
     sbind (reading (\<lambda>d. ensure (filter (\<lambda>r. ag_group r = g) (assignment_groups (dx_rbac d)) = [])
       (BadRequestException ''The device group is still referenced by role authorizations and cannot be deleted; please remove the related authorizations first''))) (\<lambda>_.
     sbind (reading (\<lambda>d. Inr (map dp_uuid (filter (\<lambda>p. dp_group p = Some g) (dx_devices d))))) (\<lambda>affected.
     sbind (writing_db (remove_group g)) (\<lambda>_. reading (\<lambda>_. Inr affected)))))"

definition deleteDeviceGroup :: "string \<Rightarrow> string \<Rightarrow> 'r dev \<Rightarrow> 'r dev" where
  "deleteDeviceGroup g actor k = as_super_admin actor (transacted (delete_group_body g) (\<lambda>affected.
     in_memory (fold (\<lambda>u. invalidateDeviceStrategyCache (Some u)) affected) k))"

text \<open>A group that is gone by now is refused by its foreign key.\<close>

definition group_exists :: "device_db \<Rightarrow> string option \<Rightarrow> bool" where
  "group_exists d v = (case v of None \<Rightarrow> True | Some g \<Rightarrow> group_at d g \<noteq> None)"

fun move_devices :: "string option \<Rightarrow> string list \<Rightarrow> 'r dev \<Rightarrow> 'r dev" where
  "move_devices g [] k = k"
| "move_devices g (u # us) k = db_save (\<lambda>d. group_exists d g \<or> device_at d u = None)
     (change_devices (\<lambda>p. dp_uuid p = u) (\<lambda>p. p\<lparr>dp_group := g\<rparr>)) (throw constraint_error)
     (in_memory (invalidateDeviceStrategyCache (Some u)) (move_devices g us k))"

definition addDevicesToGroup :: "string \<Rightarrow> string list \<Rightarrow> string \<Rightarrow> 'r dev \<Rightarrow> 'r dev" where
  "addDevicesToGroup g is actor k = as_super_admin actor (with_group g (\<lambda>_.
     db_read (\<lambda>d. map dp_uuid (filter (\<lambda>p. dp_id p \<in> set is) (dx_devices d))) (\<lambda>found.
       if found = [] then throw (NotFoundException ''Device does not exist'')
       else move_devices (Some g) found k)))"

definition removeDevicesFromGroup :: "string \<Rightarrow> string list \<Rightarrow> string \<Rightarrow> 'r dev \<Rightarrow> 'r dev" where
  "removeDevicesFromGroup g is actor k = as_super_admin actor (with_group g (\<lambda>_.
     db_read (\<lambda>d. map dp_uuid (filter (\<lambda>p. dp_id p \<in> set is \<and> dp_group p = Some g) (dx_devices d))) (\<lambda>found.
       if found = [] then throw (NotFoundException ''Device does not exist or is not in this device group'')
       else move_devices None found k)))"

subsection \<open>Changing a device\<close>

text \<open>A field is absent, null, or a value.\<close>

record device_dto =
  dd_user :: "string option option"
  dd_group :: "string option option"
  dd_strategy :: "string option option"
  dd_note :: "string option option"

definition device_access :: "string \<Rightarrow> string \<Rightarrow> string \<Rightarrow> (device_db, peer \<times> permission_scope) state_op" where
  "device_access actor code uuid = consulting (\<lambda>rb. assertDeviceAccess rb actor code uuid)"

definition devices_access :: "string \<Rightarrow> string \<Rightarrow> string list \<Rightarrow> (device_db, peer list \<times> permission_scope) state_op" where
  "devices_access actor code uuids = consulting (\<lambda>rb. assertDevicesAccess rb actor code uuids)"

text \<open>The identifier behind a name, and null for null.\<close>

definition named_ref ::
  "string option option \<Rightarrow> (string \<Rightarrow> device_db \<Rightarrow> string option) \<Rightarrow> string \<Rightarrow> (string option option \<Rightarrow> 'r dev) \<Rightarrow> 'r dev" where
  "named_ref v get m k = (case v of
       None \<Rightarrow> k None
     | Some None \<Rightarrow> k (Some None)
     | Some (Some n) \<Rightarrow> db_read (get n) (\<lambda>g. case g of
         None \<Rightarrow> throw (NotFoundException m) | Some g \<Rightarrow> k (Some (Some g))))"

definition apply_update :: "device_dto \<Rightarrow> device \<Rightarrow> device" where
  "apply_update c p =
     (let p = (case dd_user c of None \<Rightarrow> p | Some v \<Rightarrow> p\<lparr>dp_user := v\<rparr>);
          p = (case dd_group c of None \<Rightarrow> p | Some v \<Rightarrow> p\<lparr>dp_group := v\<rparr>);
          p = (case dd_strategy c of None \<Rightarrow> p | Some v \<Rightarrow> p\<lparr>dp_strategy := v\<rparr>)
      in case dd_note c of None \<Rightarrow> p | Some v \<Rightarrow> p\<lparr>dp_note := v\<rparr>)"

definition refs_exist :: "device_dto \<Rightarrow> device_db \<Rightarrow> bool" where
  "refs_exist c d = (group_exists d (case dd_group c of None \<Rightarrow> None | Some v \<Rightarrow> v) \<and>
     strategy_exists d (case dd_strategy c of None \<Rightarrow> None | Some v \<Rightarrow> v))"

definition write_device :: "string \<Rightarrow> device_dto \<Rightarrow> permission_scope \<Rightarrow> device_db \<Rightarrow> nat result \<times> device_db" where
  "write_device uuid c scope d = (let hit = (\<lambda>p. dp_uuid p = uuid \<and> in_reach scope p); n = count_devices hit d in
     if n \<noteq> 0 \<and> \<not> refs_exist c d then (Inl constraint_error, d) else (Inr n, change_devices hit (apply_update c) d))"

definition updateDevice :: "string \<Rightarrow> device_dto \<Rightarrow> string \<Rightarrow> 'r dev \<Rightarrow> 'r dev" where
  "updateDevice uuid dto actor k =
     checked_by (device_access actor ''devices.edit'' uuid) (\<lambda>(_, scope).
     let go = named_ref (dd_user dto) (\<lambda>n d. map_option du_guid (find (\<lambda>u. du_name u = n) (dx_users d)))
         ''User does not exist'' (\<lambda>u.
       named_ref (dd_group dto) (\<lambda>n d. map_option gp_guid (group_with_name d n)) ''Device group does not exist'' (\<lambda>g.
       named_ref (dd_strategy dto) (\<lambda>n d. map_option sg_guid (strategy_with_name d n)) ''Strategy does not exist'' (\<lambda>s.
         let c = \<lparr>dd_user = u, dd_group = g, dd_strategy = s, dd_note = dd_note dto\<rparr>
         in if u = None \<and> g = None \<and> s = None \<and> dd_note dto = None then k
            else checked_by (write_device uuid c scope) (\<lambda>n.
              if n \<noteq> 1
              then checked_by (device_access actor ''devices.edit'' uuid)
                (\<lambda>_. throw (ConflictException ''Device information has changed, please retry''))
              else in_memory (invalidateDeviceStrategyCache (Some uuid)) k))))
     in if dd_user dto \<noteq> None \<or> dd_group dto \<noteq> None \<or> dd_strategy dto \<noteq> None then as_super_admin actor go else go)"

record status_result =
  sr_succeeded :: "string list"
  sr_failed :: "(string \<times> string) list"
  sr_enforcement :: "enforcement option"

definition status_write :: "string list \<Rightarrow> PeerStatus \<Rightarrow> permission_scope \<Rightarrow> (device_db, unit) state_op" where
  "status_write us st scope = (\<lambda>d. let hit = (\<lambda>p. dp_uuid p \<in> set us \<and> in_reach scope p) in
     if count_devices hit d \<noteq> length us
     then (Inl (ConflictException ''Device information has changed, please retry''), d)
     else (Inr (), change_devices hit (\<lambda>p. p\<lparr>dp_status := st\<rparr>) d))"

definition updateDeviceStatus ::
  "device_env \<Rightarrow> string list \<Rightarrow> bool \<Rightarrow> string \<Rightarrow> (status_result \<Rightarrow> 'r dev) \<Rightarrow> 'r dev" where
  "updateDeviceStatus E uuids enable actor k =
     checked_by (devices_access actor ''devices.status'' uuids) (\<lambda>(found, scope).
     let known = map peer_uuid found;
         failed = map (\<lambda>u. (u, ''Device not found'')) (filter (\<lambda>u. u \<notin> set known) (js_unique uuids));
         us = filter (\<lambda>u. u \<in> set known) (js_unique uuids);
         ids = js_unique (map peer_id (filter (\<lambda>p. peer_uuid p \<in> set us \<and> peer_id p \<noteq> []) found))
     in if us = [] then k \<lparr>sr_succeeded = [], sr_failed = failed, sr_enforcement = None\<rparr>
        else attempted (status_write us (if enable then PeerActive else PeerDisabled) scope) (\<lambda>r. case r of
            Inl e \<Rightarrow> checked_by (devices_access actor ''devices.status'' us) (\<lambda>_. throw e)
          | Inr _ \<Rightarrow> if ids = [] then k \<lparr>sr_succeeded = us, sr_failed = failed, sr_enforcement = None\<rparr>
              else syncDeviceBans E actor (if enable then [] else ids) (if enable then ids else []) (\<lambda>x.
                k \<lparr>sr_succeeded = us, sr_failed = failed, sr_enforcement = Some x\<rparr>)))"

subsection \<open>Deleting and restoring\<close>

text \<open>\<open>upsert\<close>: an existing tombstone keeps its other columns.\<close>

definition put_tombstone :: "string \<Rightarrow> string \<Rightarrow> string \<Rightarrow> device_db \<Rightarrow> device_db" where
  "put_tombstone uuid i actor d = d\<lparr>dx_tombstones := (case tombstone_at d uuid of
       None \<Rightarrow> dx_tombstones d @ [\<lparr>tb_uuid = uuid, tb_device = i, tb_banned = False, tb_requested = False,
         tb_released = False, tb_by = Some actor\<rparr>]
     | Some _ \<Rightarrow> map (\<lambda>t. if tb_uuid t = uuid then t\<lparr>tb_device := i, tb_by := Some actor\<rparr> else t)
         (dx_tombstones d))\<rparr>"

definition delete_body_device :: "string \<Rightarrow> string \<Rightarrow> string \<Rightarrow> permission_scope \<Rightarrow> (device_db, unit) state_op" where
  "delete_body_device uuid i actor scope =
     sbind (writing_db (put_tombstone uuid i actor)) (\<lambda>_. (\<lambda>d.
       let hit = (\<lambda>p. dp_uuid p = uuid \<and> in_reach scope p) in
       if count_devices hit d \<noteq> 1
       then (Inl (ConflictException ''Device information has changed, please retry''), d)
       else (Inr (), remove_devices hit d)))"

definition patch_tombstone :: "string \<Rightarrow> bool \<Rightarrow> bool \<Rightarrow> bool \<Rightarrow> device_db \<Rightarrow> device_db" where
  "patch_tombstone uuid banned requested released d = d\<lparr>dx_tombstones := map (\<lambda>t.
     if tb_uuid t = uuid then t\<lparr>tb_banned := tb_banned t \<or> banned, tb_requested := tb_requested t \<or> requested,
       tb_released := tb_released t \<or> released\<rparr> else t) (dx_tombstones d)\<rparr>"

definition enforced_in :: "enforcement option \<Rightarrow> bool" where
  "enforced_in x = (case x of None \<Rightarrow> False | Some e \<Rightarrow> ef_enforced e)"

definition if_asked :: "bool \<Rightarrow> ((enforcement \<Rightarrow> 'r dev) \<Rightarrow> 'r dev) \<Rightarrow> (enforcement option \<Rightarrow> 'r dev) \<Rightarrow> 'r dev" where
  "if_asked c act k = (if c then act (\<lambda>x. k (Some x)) else k None)"

record deletion_report =
  dr_message :: string
  dr_enforcement :: "enforcement option"
  dr_release :: "enforcement option"

definition unless_enforced :: "string \<Rightarrow> enforcement option \<Rightarrow> enforcement option" where
  "unless_enforced m x = map_option (\<lambda>e. if ef_enforced e then e else e\<lparr>ef_detail := Some m\<rparr>) x"

definition deletion_reply :: "enforcement option \<Rightarrow> enforcement option \<Rightarrow> deletion_report" where
  "deletion_reply ban rel = \<lparr>dr_message = ''Device deleted'',
     dr_enforcement = unless_enforced
       ''The device stays deleted, but it can still register with the servers until the ban is applied.'' ban,
     dr_release = map_option (\<lambda>e. if ef_enforced e
       then if enforced_in ban then e\<lparr>ef_detail := Some
           ''The id is freed from the peer registry, but the protocol ban still blocks it until the device is restored.''\<rparr>
         else e
       else e\<lparr>ef_detail := Some
         ''The device stays deleted, but its id remains bound to the old machine at the servers until it is released.''\<rparr>) rel\<rparr>"

definition deleteDevice ::
  "device_env \<Rightarrow> string \<Rightarrow> string \<Rightarrow> bool \<Rightarrow> bool \<Rightarrow> (deletion_report \<Rightarrow> 'r dev) \<Rightarrow> 'r dev" where
  "deleteDevice E uuid actor protocolBan releaseId k =
     checked_by (device_access actor ''devices.delete'' uuid) (\<lambda>(peer, scope). let i = peer_id peer in
     attempted (delete_body_device uuid i actor scope) (\<lambda>r. case r of
         Inl e \<Rightarrow> checked_by (device_access actor ''devices.delete'' uuid) (\<lambda>_. throw e)
       | Inr _ \<Rightarrow> if_asked (protocolBan \<and> i \<noteq> []) (syncDeviceBans E actor [i] []) (\<lambda>ban.
           if_asked (releaseId \<and> i \<noteq> []) (releaseDeviceId E actor i) (\<lambda>rel.
           let requested = (releaseId \<and> i \<noteq> []); finish = k (deletion_reply ban rel)
           in if enforced_in ban \<or> requested
              then db_write (patch_tombstone uuid (enforced_in ban) requested (enforced_in rel)) finish
              else finish))))"

definition global_delete :: "string \<Rightarrow> (device_db, unit) state_op" where
  "global_delete actor = asks (\<lambda>rb. rbind (requirePermission rb actor ''devices.delete'') (\<lambda>s.
     ensure (ps_global s) (ForbiddenException ''Deleted devices can only be managed with a global permission'')))"

definition listTombstones :: "string \<Rightarrow> (tombstone list \<Rightarrow> 'r dev) \<Rightarrow> 'r dev" where
  "listTombstones actor k = checked_by (global_delete actor) (\<lambda>_. db_read (\<lambda>d. rev (dx_tombstones d)) k)"

definition drop_tombstone :: "string \<Rightarrow> device_db \<Rightarrow> device_db" where
  "drop_tombstone uuid d = d\<lparr>dx_tombstones := filter (\<lambda>t. tb_uuid t \<noteq> uuid) (dx_tombstones d)\<rparr>"

definition restoreTombstone ::
  "device_env \<Rightarrow> string \<Rightarrow> string \<Rightarrow> (deletion_report \<Rightarrow> 'r dev) \<Rightarrow> 'r dev" where
  "restoreTombstone E uuid actor k =
     checked_by (global_delete actor) (\<lambda>_. db_read (\<lambda>d. tombstone_at d uuid) (\<lambda>t. case t of
         None \<Rightarrow> throw (NotFoundException ''Deleted device not found'')
       | Some t \<Rightarrow> if_asked (tb_banned t \<and> tb_device t \<noteq> []) (syncDeviceBans E actor [] [tb_device t]) (\<lambda>ban.
           if ban \<noteq> None \<and> \<not> enforced_in ban
           then k \<lparr>dr_message = ''Device not restored; the protocol ban could not be lifted'',
             dr_enforcement = ban, dr_release = None\<rparr>
           else if_asked (tb_device t \<noteq> [] \<and> tb_requested t \<and> \<not> tb_released t)
             (releaseDeviceId E actor (tb_device t)) (\<lambda>rel.
             db_write (drop_tombstone uuid) (k \<lparr>dr_message = ''Device restored; it can register again'',
               dr_enforcement = ban, dr_release = unless_enforced
                 ''The device is restored, but its id may still be bound to the old machine at the servers.'' rel\<rparr>)))))"

end
