(* ===== verification/Device_Reports.thy ===== *)
theory Device_Reports
  imports Device_Admin
begin

text \<open>
  What devices report: heartbeats (\<open>src/modules/heartbeat\<close>: the service, the buffer that is flushed to
  the database every 15 seconds, the store of disconnect commands) and system information with its
  presets (\<open>src/modules/sysinfo/sysinfo.service.ts\<close>). Neither needs a login.
\<close>

subsection \<open>Which row a device is\<close>

text \<open>\<open>resolveDeviceUuid\<close> of \<open>src/common/utils/device-identity.util.ts\<close>\<close>

definition device_key :: "device_env \<Rightarrow> string \<Rightarrow> string \<Rightarrow> (string \<Rightarrow> 'r dev) \<Rightarrow> 'r dev" where
  "device_key E uuid i k =
     (if \<not> ve_clone_isolation E then k uuid
      else let isolated = ve_isolated E uuid i in
        db_read (\<lambda>d. device_at d isolated) (\<lambda>existing. if existing \<noteq> None then k isolated
        else db_read (\<lambda>d. device_at d uuid) (\<lambda>legacy.
          k (if map_option dp_id legacy = Some i then uuid else isolated))))"

subsection \<open>Disconnect commands\<close>

definition addPendingDisconnects :: "string \<Rightarrow> int list \<Rightarrow> device_db \<Rightarrow> device_db" where
  "addPendingDisconnects uuid ids d = (if ids = [] then d
     else d\<lparr>dx_pending := AList.update uuid (js_unique (js_get (dx_pending d) uuid [] @ ids)) (dx_pending d)\<rparr>)"

definition getPendingDisconnects :: "device_db \<Rightarrow> string \<Rightarrow> int list" where
  "getPendingDisconnects d uuid = js_get (dx_pending d) uuid []"

text \<open>A command is dropped when the device no longer reports the connection.\<close>

definition removeDisconnected :: "string \<Rightarrow> reported list \<Rightarrow> device_db \<Rightarrow> device_db" where
  "removeDisconnected uuid conns d =
     (let rest = filter (\<lambda>c. Some c \<in> set conns) (getPendingDisconnects d uuid)
      in if getPendingDisconnects d uuid = [] then d
         else if rest = [] then d\<lparr>dx_pending := AList.delete uuid (dx_pending d)\<rparr>
         else d\<lparr>dx_pending := AList.update uuid rest (dx_pending d)\<rparr>)"

subsection \<open>Buffered heartbeats\<close>

definition bufferPeerUpdate :: "string \<Rightarrow> peer_update \<Rightarrow> device_db \<Rightarrow> device_db" where
  "bufferPeerUpdate uuid u d = d\<lparr>dx_peer_buffer := AList.update uuid u (dx_peer_buffer d)\<rparr>"

definition bufferConns :: "string \<Rightarrow> reported list \<Rightarrow> device_db \<Rightarrow> device_db" where
  "bufferConns uuid cs d = d\<lparr>dx_conns_buffer := AList.update uuid cs (dx_conns_buffer d)\<rparr>"

definition getBufferedConns :: "device_db \<Rightarrow> string \<Rightarrow> reported list option" where
  "getBufferedConns d uuid = (case map_of (dx_conns_buffer d) uuid of
     Some cs \<Rightarrow> Some cs | None \<Rightarrow> map_of (dx_flushing_conns d) uuid)"

definition stored_conns :: "device_db \<Rightarrow> string \<Rightarrow> int list" where
  "stored_conns d uuid = map cn_id (filter (\<lambda>c. cn_device c = uuid) (dx_conns d))"

definition getActiveConnectionIds :: "string \<Rightarrow> (reported list \<Rightarrow> 'r dev) \<Rightarrow> 'r dev" where
  "getActiveConnectionIds uuid k = at_once (\<lambda>d. (getBufferedConns d uuid, d)) (\<lambda>b. case b of
     Some cs \<Rightarrow> k cs | None \<Rightarrow> db_read (\<lambda>d. map Some (stored_conns d uuid)) k)"

definition apply_report :: "peer_update \<Rightarrow> device \<Rightarrow> device" where
  "apply_report u p = p\<lparr>dp_id := pu_id u, dp_ver := pu_ver u, dp_modified := pu_modified u,
     dp_heartbeat := Some (pu_heartbeat u)\<rparr>"

definition flush_peer :: "string \<times> peer_update \<Rightarrow> device_db \<Rightarrow> device_db" where
  "flush_peer = (\<lambda>(uuid, u). change_devices (\<lambda>p. dp_uuid p = uuid) (apply_report u))"

text \<open>
  The connections the device no longer reports go, the new ones come; the column refuses what is no
  number.
\<close>

definition syncConnectionsWithManager :: "string \<Rightarrow> reported list \<Rightarrow> (device_db, unit) state_op" where
  "syncConnectionsWithManager uuid cs d =
     (let old = stored_conns d uuid;
          kept = filter (\<lambda>c. cn_device c \<noteq> uuid \<or> Some (cn_id c) \<in> set cs) (dx_conns d);
          added = filter (\<lambda>c. c \<notin> Some ` set old) cs
      in if None \<in> set added then (Inl constraint_error, d\<lparr>dx_conns := kept\<rparr>)
         else (Inr (), d\<lparr>dx_conns := kept @ map (\<lambda>c. \<lparr>cn_device = uuid, cn_id = the c\<rparr>) added\<rparr>))"

definition flush_conns :: "string \<times> reported list \<Rightarrow> (device_db, unit) state_op" where
  "flush_conns = (\<lambda>(uuid, cs) d. if device_at d uuid = None then (Inr (), d) else syncConnectionsWithManager uuid cs d)"

text \<open>\<open>ok\<close> tells whether the database takes the transaction at all.\<close>

definition flush_body ::
  "bool \<Rightarrow> (string \<times> peer_update) list \<Rightarrow> (string \<times> reported list) list \<Rightarrow> (device_db, unit) state_op" where
  "flush_body ok ps cs =
     sbind (writing_db (fold flush_peer ps)) (\<lambda>_.
     sbind (for_each flush_conns cs) (\<lambda>_.
     reading (\<lambda>_. ensure ok (OtherError ''database is locked''))))"

definition begin_flush ::
  "device_db \<Rightarrow> ((string \<times> peer_update) list \<times> (string \<times> reported list) list) option \<times> device_db" where
  "begin_flush d =
     (if dx_flushing d \<or> (dx_peer_buffer d = [] \<and> dx_conns_buffer d = []) then (None, d)
      else (Some (dx_peer_buffer d, dx_conns_buffer d), d\<lparr>dx_flushing := True,
        dx_flushing_conns := dx_conns_buffer d, dx_peer_buffer := [], dx_conns_buffer := []\<rparr>))"

text \<open>What could not be written goes back, unless something newer has arrived.\<close>

definition put_back :: "(string \<times> 'v) list \<Rightarrow> (string \<times> 'v) list \<Rightarrow> (string \<times> 'v) list" where
  "put_back old b = fold (\<lambda>(u, x) b. if map_of b u = None then AList.update u x b else b) old b"

definition end_flush ::
  "unit result \<Rightarrow> (string \<times> peer_update) list \<Rightarrow> (string \<times> reported list) list \<Rightarrow> device_db \<Rightarrow> device_db" where
  "end_flush r ps cs d =
     (let d = (case r of Inr _ \<Rightarrow> d | Inl _ \<Rightarrow> d\<lparr>dx_peer_buffer := put_back ps (dx_peer_buffer d),
        dx_conns_buffer := put_back cs (dx_conns_buffer d)\<rparr>)
      in d\<lparr>dx_flushing := False, dx_flushing_conns := []\<rparr>)"

text \<open>A call that finds a flush under way only waits for it.\<close>

definition flush :: "bool \<Rightarrow> 'r dev \<Rightarrow> 'r dev" where
  "flush ok k = at_once begin_flush (\<lambda>s. case s of
       None \<Rightarrow> k
     | Some (ps, cs) \<Rightarrow> pause (attempted (flush_body ok ps cs) (\<lambda>r. in_memory (end_flush r ps cs) k)))"

text \<open>No writes while the maintenance fence is up.\<close>

definition handleScheduledFlush :: "bool \<Rightarrow> bool \<Rightarrow> 'r dev \<Rightarrow> 'r dev" where
  "handleScheduledFlush writesAllowed ok k = (if writesAllowed then flush ok k else k)"

text \<open>
  At shutdown three attempts are made to write what is left, each after the flush that may be under way.
  The wait for it is a call, as in \<open>flush\<close>: others run meanwhile.
\<close>

fun last_flushes :: "bool list \<Rightarrow> 'r dev \<Rightarrow> 'r dev" where
  "last_flushes [] k = k"
| "last_flushes (ok # oks) k =
     (let attempt = at_once (\<lambda>d. (dx_peer_buffer d = [] \<and> dx_conns_buffer d = [], d)) (\<lambda>none.
        if none then k else flush ok (last_flushes oks k))
      in at_once (\<lambda>d. (dx_flushing d, d)) (\<lambda>active. if active then pause attempt else attempt))"

definition onModuleDestroy_cache :: "bool \<Rightarrow> bool \<Rightarrow> bool \<Rightarrow> 'r dev \<Rightarrow> 'r dev" where
  "onModuleDestroy_cache ok1 ok2 ok3 k = last_flushes [ok1, ok2, ok3] k"

subsection \<open>Heartbeats\<close>

record heartbeat =
  hb_id :: string
  hb_uuid :: string
  hb_ver :: int
  hb_modified :: int
  hb_conns :: "reported list option"

record heartbeat_reply =
  hr_disconnect :: "int list"
  hr_strategy :: "((string \<times> string) list \<times> int) option"

text \<open>A strategy is handed out while it is newer than what the device has.\<close>

definition handed_out :: "int \<Rightarrow> strategy option \<Rightarrow> ((string \<times> string) list \<times> int) option" where
  "handed_out modified s = (case s of
       None \<Rightarrow> None
     | Some s \<Rightarrow> if modified < sg_updated s
         then Some (case sg_config s of None \<Rightarrow> [] | Some c \<Rightarrow> c, sg_updated s) else None)"

definition resolveStrategy ::
  "device \<Rightarrow> int \<Rightarrow> (((string \<times> string) list \<times> int) option \<Rightarrow> 'r dev) \<Rightarrow> 'r dev" where
  "resolveStrategy p modified k = findStrategyForPeer p (\<lambda>s. k (handed_out modified s))"

definition take_conns :: "string \<Rightarrow> reported list option \<Rightarrow> device_db \<Rightarrow> device_db" where
  "take_conns uuid cs d = (case cs of None \<Rightarrow> d | Some c \<Rightarrow> removeDisconnected uuid c (bufferConns uuid c d))"

definition answer_heartbeat ::
  "string \<Rightarrow> reported list option \<Rightarrow> device option \<Rightarrow> int \<Rightarrow> (heartbeat_reply \<Rightarrow> 'r dev) \<Rightarrow> 'r dev" where
  "answer_heartbeat uuid conns peer modified k =
     at_once (\<lambda>d. let d = take_conns uuid conns d in (getPendingDisconnects d uuid, d)) (\<lambda>disconnect.
     let reply = (\<lambda>s. k \<lparr>hr_disconnect = disconnect, hr_strategy = s\<rparr>)
     in case peer of None \<Rightarrow> reply None | Some p \<Rightarrow> resolveStrategy p modified reply)"

definition received :: "heartbeat \<Rightarrow> device_db \<Rightarrow> peer_update" where
  "received hb d = \<lparr>pu_id = hb_id hb, pu_ver = hb_ver hb, pu_modified = hb_modified hb, pu_heartbeat = dx_now d\<rparr>"

definition admit_heartbeat :: "heartbeat \<Rightarrow> string \<Rightarrow> (heartbeat_reply option \<Rightarrow> 'r dev) \<Rightarrow> 'r dev" where
  "admit_heartbeat hb uuid k = db_read (\<lambda>d. device_at d uuid) (\<lambda>existing. case existing of
       Some p \<Rightarrow> in_memory (\<lambda>d. bufferPeerUpdate uuid (received hb d) d)
         (answer_heartbeat uuid (hb_conns hb) (Some p) (hb_modified hb) (\<lambda>r. k (Some r)))
     | None \<Rightarrow> db_read (\<lambda>d. tombstone_at d uuid) (\<lambda>t.
         if t \<noteq> None then k None
         else db_write (\<lambda>d. save_device (new_device uuid (hb_id hb) (hb_ver hb) (hb_modified hb) (dx_now d)) d)
           (answer_heartbeat uuid (hb_conns hb) None (hb_modified hb) (\<lambda>r. k (Some r)))))"

text \<open>\<open>None\<close> is the empty answer to a deleted device.\<close>

definition handleHeartbeat :: "device_env \<Rightarrow> heartbeat \<Rightarrow> (heartbeat_reply option \<Rightarrow> 'r dev) \<Rightarrow> 'r dev" where
  "handleHeartbeat E hb k =
     (let proceed = device_key E (hb_uuid hb) (hb_id hb) (\<lambda>uuid. admit_heartbeat hb uuid k)
      in if \<not> ve_clone_isolation E then proceed
         else db_read (\<lambda>d. tombstone_at d (hb_uuid hb)) (\<lambda>t.
           if map_option tb_device t = Some (hb_id hb) then k None else proceed))"

subsection \<open>Forced disconnection\<close>

definition disconnectDevice :: "string \<Rightarrow> int list \<Rightarrow> string \<Rightarrow> 'r dev \<Rightarrow> 'r dev" where
  "disconnectDevice uuid ids actor k =
     checked_by (device_access actor ''devices.disconnect'' uuid) (\<lambda>_.
     getActiveConnectionIds uuid (\<lambda>active.
       if list_ex (\<lambda>i. Some i \<notin> set active) ids
       then throw (BadRequestException ''The following connection IDs do not exist or do not belong to this device'')
       else checked_by (device_access actor ''devices.disconnect'' uuid) (\<lambda>_.
         in_memory (addPendingDisconnects uuid ids) k)))"

subsection \<open>System information\<close>

record sysinfo_dto =
  sn_uuid :: string
  sn_id :: "string option"
  sn_host :: "string option"
  sn_user :: "string option"
  sn_os :: "string option"
  sn_cpu :: "string option"
  sn_memory :: "string option"
  sn_book :: "string option"
  sn_tag :: "string option"
  sn_alias :: "string option"
  sn_password :: "string option"
  sn_book_note :: "string option"
  sn_preset_user :: "string option"
  sn_preset_strategy :: "string option"
  sn_preset_group :: "string option"
  sn_preset_note :: "string option"

definition new_sysinfo :: "sysinfo_dto \<Rightarrow> string \<Rightarrow> sysinfo" where
  "new_sysinfo dto uuid = \<lparr>sy_uuid = uuid, sy_host = sn_host dto, sy_user = sn_user dto, sy_os = sn_os dto,
     sy_cpu = sn_cpu dto, sy_memory = sn_memory dto, sy_preset_user = sn_preset_user dto,
     sy_preset_strategy = sn_preset_strategy dto, sy_preset_group = sn_preset_group dto\<rparr>"

definition newer :: "'a option \<Rightarrow> 'a option \<Rightarrow> 'a option" where
  "newer new old = (case new of None \<Rightarrow> old | Some x \<Rightarrow> Some x)"

definition updated_sysinfo :: "sysinfo_dto \<Rightarrow> sysinfo \<Rightarrow> sysinfo" where
  "updated_sysinfo dto s = s\<lparr>sy_host := newer (sn_host dto) (sy_host s), sy_user := newer (sn_user dto) (sy_user s),
     sy_os := newer (sn_os dto) (sy_os s), sy_cpu := newer (sn_cpu dto) (sy_cpu s),
     sy_memory := newer (sn_memory dto) (sy_memory s),
     sy_preset_user := newer (nonempty (sn_preset_user dto)) (sy_preset_user s),
     sy_preset_strategy := newer (nonempty (sn_preset_strategy dto)) (sy_preset_strategy s),
     sy_preset_group := newer (nonempty (sn_preset_group dto)) (sy_preset_group s)\<rparr>"

text \<open>\<open>split(',')\<close>, trimmed, without the empty ones\<close>

fun split_at :: "char \<Rightarrow> string \<Rightarrow> string list" where
  "split_at c [] = [[]]"
| "split_at c (x # xs) = (if x = c then [] # split_at c xs
     else (case split_at c xs of [] \<Rightarrow> [[x]] | w # ws \<Rightarrow> (x # w) # ws))"

definition tag_names :: "string option \<Rightarrow> string list" where
  "tag_names v = (case nonempty v of None \<Rightarrow> [] | Some s \<Rightarrow> filter (\<lambda>t. t \<noteq> []) (map js_trim (split_at CHR '','' s)))"

fun existing_tags :: "string \<Rightarrow> string list \<Rightarrow> string list \<Rightarrow> (string list \<Rightarrow> 'r dev) \<Rightarrow> 'r dev" where
  "existing_tags b [] acc k = k (rev acc)"
| "existing_tags b (n # ns) acc k = db_read (\<lambda>d. tag_named (dx_books d) b n) (\<lambda>t.
     existing_tags b ns (case t of None \<Rightarrow> acc | Some t \<Rightarrow> tg_guid t # acc) k)"

definition insert_book_peer :: "ab_peer \<Rightarrow> string list \<Rightarrow> (device_db, unit) state_op" where
  "insert_book_peer p tags d = (let b = dx_books d in
     if book_of b (pr_book p) = None \<or> list_ex (\<lambda>t. t \<notin> tg_guid ` set (ab_tags b)) tags \<or> \<not> distinct tags
     then (Inl constraint_error, d)
     else (Inr (), d\<lparr>dx_books := b\<lparr>ab_peers := save_row pr_guid p (ab_peers b),
       ab_links := ab_links b @ map (\<lambda>t. \<lparr>ln_peer = pr_guid p, ln_tag = t\<rparr>) tags\<rparr>\<rparr>))"

text \<open>
  \<open>addToAddressBook\<close>. The caller passes the device's UUID where an address book entry has the RustDesk
  id. The continuation learns of an error.
\<close>

definition addToAddressBook :: "sysinfo \<Rightarrow> sysinfo_dto \<Rightarrow> string \<Rightarrow> (unit result \<Rightarrow> 'r dev) \<Rightarrow> 'r dev" where
  "addToAddressBook s dto name k =
     db_read (\<lambda>d. find (\<lambda>b. bk_name b = Some name) (ab_books (dx_books d))) (\<lambda>b. case b of
       None \<Rightarrow> k (Inr ())
     | Some b \<Rightarrow> db_read (\<lambda>d. peer_on (dx_books d) (bk_guid b) (sy_uuid s)) (\<lambda>p.
         if p \<noteq> None then k (Inr ())
         else existing_tags (bk_guid b) (tag_names (sn_tag dto)) [] (\<lambda>tags. fresh_id (\<lambda>g.
           attempted (insert_book_peer \<lparr>pr_guid = g, pr_book = bk_guid b, pr_device = sy_uuid s, pr_hash = None,
             pr_password = sn_password dto, pr_alias = (case nonempty (sn_alias dto) of None \<Rightarrow> sy_host s | Some a \<Rightarrow> Some a),
             pr_note = sn_book_note dto\<rparr> tags) k))))"

definition addToDeviceGroup :: "sysinfo \<Rightarrow> string \<Rightarrow> (unit result \<Rightarrow> 'r dev) \<Rightarrow> 'r dev" where
  "addToDeviceGroup s name k = db_read (\<lambda>d. group_with_name d name) (\<lambda>g. case g of
       None \<Rightarrow> k (Inr ())
     | Some g \<Rightarrow> db_read (\<lambda>d. device_at d (sy_uuid s)) (\<lambda>p.
         if p = None then k (Inr ())
         else attempted (\<lambda>d. if group_at d (gp_guid g) = None \<and> device_at d (sy_uuid s) \<noteq> None
           then (Inl constraint_error, d)
           else (Inr (), change_devices (\<lambda>p. dp_uuid p = sy_uuid s) (\<lambda>p. p\<lparr>dp_group := Some (gp_guid g)\<rparr>) d)) k))"

definition setPresetNote :: "string \<Rightarrow> string \<Rightarrow> 'r dev \<Rightarrow> 'r dev" where
  "setPresetNote uuid note k = db_read (\<lambda>d. device_at d uuid) (\<lambda>p. case p of
       None \<Rightarrow> k
     | Some p \<Rightarrow> if nonempty (dp_note p) \<noteq> None then k
         else db_write (change_devices (\<lambda>p. dp_uuid p = uuid) (\<lambda>p. p\<lparr>dp_note := Some note\<rparr>)) k)"

definition preset :: "string option \<Rightarrow> (string \<Rightarrow> (unit result \<Rightarrow> 'r dev) \<Rightarrow> 'r dev) \<Rightarrow> 'r dev \<Rightarrow> 'r dev \<Rightarrow> 'r dev" where
  "preset v act failed k = (case nonempty v of None \<Rightarrow> k | Some x \<Rightarrow> act x (\<lambda>r. case r of Inl _ \<Rightarrow> failed | Inr _ \<Rightarrow> k))"

text \<open>An error ends the presets and is only logged.\<close>

definition processPresetSettings :: "sysinfo \<Rightarrow> sysinfo_dto \<Rightarrow> 'r dev \<Rightarrow> 'r dev" where
  "processPresetSettings s dto k =
     preset (sn_book dto) (addToAddressBook s dto) k
     (preset (sy_preset_group s) (addToDeviceGroup s) k
     (case nonempty (sn_preset_note dto) of None \<Rightarrow> k | Some n \<Rightarrow> setPresetNote (sy_uuid s) n k))"

definition save_sysinfo :: "sysinfo \<Rightarrow> device_db \<Rightarrow> device_db" where
  "save_sysinfo s d = d\<lparr>dx_sysinfos := save_row sy_uuid s (dx_sysinfos d)\<rparr>"

definition store_sysinfo :: "sysinfo_dto \<Rightarrow> string \<Rightarrow> (bool \<Rightarrow> 'r dev) \<Rightarrow> 'r dev" where
  "store_sysinfo dto uuid k = db_read (\<lambda>d. device_at d uuid) (\<lambda>p.
     if p = None then k False
     else db_read (\<lambda>d. find (\<lambda>s. sy_uuid s = uuid) (dx_sysinfos d)) (\<lambda>s.
       let s' = (case s of None \<Rightarrow> new_sysinfo dto uuid | Some s \<Rightarrow> updated_sysinfo dto s)
       in db_write (save_sysinfo s') (processPresetSettings s' dto (k True))))"

definition createSysinfo :: "device_env \<Rightarrow> sysinfo_dto \<Rightarrow> (bool \<Rightarrow> 'r dev) \<Rightarrow> 'r dev" where
  "createSysinfo E dto k =
     (if ve_clone_isolation E \<and> nonempty (sn_id dto) = None then k False
      else case nonempty (sn_id dto) of
          None \<Rightarrow> store_sysinfo dto (sn_uuid dto) k
        | Some i \<Rightarrow> device_key E (sn_uuid dto) i (\<lambda>uuid. store_sysinfo dto uuid k))"

end
