(* ===== verification/Device_Requests.thy ===== *)
theory Device_Requests
  imports Device_Reports
begin

text \<open>
  The requests of the controllers (\<open>device-group.controller.ts\<close>, \<open>strategy.controller.ts\<close>,
  \<open>heartbeat.controller.ts\<close>, \<open>sysinfo.controller.ts\<close>) with the guards in front of them, the timer that
  flushes the buffer, and the service as the interleaving of all requests under way.
\<close>

subsection \<open>Requests\<close>

datatype admin_request =
    CreateGroup string "string option"
  | UpdateGroup string "string option" "string option"
  | DeleteGroup string
  | AddDevices string "string list"
  | RemoveDevices string "string list"
  | UpdateDevice string device_dto
  | DeviceStatus "string list" bool
  | DeleteDevice string bool bool
  | ListTombstones
  | RestoreDevice string
  | Disconnect string "int list"
  | CreateStrategy string strategy_dto
  | UpdateStrategy string strategy_dto
  | DeleteStrategy string
  | GetStrategy string
  | AssignStrategy string strategy_target "string list"
  | UnassignStrategy string strategy_target "string list"
  | TargetCandidates bool ab_page
  | Assignments string strategy_target ab_page

datatype device_request =
    Heartbeat heartbeat
  | Sysinfo sysinfo_dto
  | ScheduledFlush bool bool
  | ShutDown bool bool bool
  | By string admin_request

datatype device_reply =
    Done string
  | Beat "heartbeat_reply option"
  | Statuses status_result
  | Report deletion_report
  | Tombstones "tombstone list"
  | StrategyReply strategy
  | AssignmentReply "string list" "(string \<times> string) list"
  | TargetReply target_rows

type_synonym device_handler = "device_reply dev"

text \<open>\<open>AdminGuard\<close> looks at the account the token check has just loaded.\<close>

definition admin_guard :: "string \<Rightarrow> device_handler \<Rightarrow> device_handler" where
  "admin_guard actor k = db_read (\<lambda>d. user_at d actor) (\<lambda>u.
     if (case u of None \<Rightarrow> False | Some u \<Rightarrow> du_admin u) then k
     else throw (ForbiddenException ''Access denied: administrator privileges required''))"

definition permission_guard :: "string \<Rightarrow> string \<Rightarrow> device_handler \<Rightarrow> device_handler" where
  "permission_guard code actor k =
     checked_by (consulting (\<lambda>rb. canActivate rb (Some [code]) False (Some actor))) (\<lambda>_. k)"

fun serve_admin :: "device_env \<Rightarrow> string \<Rightarrow> admin_request \<Rightarrow> device_handler" where
  "serve_admin E a (CreateGroup n note) = admin_guard a
     (createDeviceGroup n note a (return (Done ''Device group created successfully'')))"
| "serve_admin E a (UpdateGroup g n note) = admin_guard a
     (updateDeviceGroup g n note a (return (Done ''Device group updated successfully'')))"
| "serve_admin E a (DeleteGroup g) = admin_guard a
     (deleteDeviceGroup g a (return (Done ''Device group deleted successfully'')))"
| "serve_admin E a (AddDevices g is) = admin_guard a
     (addDevicesToGroup g is a (return (Done ''Devices added successfully'')))"
| "serve_admin E a (RemoveDevices g is) = admin_guard a
     (removeDevicesFromGroup g is a (return (Done ''Devices removed successfully'')))"
| "serve_admin E a (UpdateDevice u c) = permission_guard ''devices.edit'' a
     (updateDevice u c a (return (Done ''Device updated successfully'')))"
| "serve_admin E a (DeviceStatus us on) = permission_guard ''devices.status'' a
     (updateDeviceStatus E us on a (\<lambda>r. return (Statuses r)))"
| "serve_admin E a (DeleteDevice u ban rel) = permission_guard ''devices.delete'' a
     (deleteDevice E u a ban rel (\<lambda>r. return (Report r)))"
| "serve_admin E a ListTombstones = permission_guard ''devices.delete'' a
     (listTombstones a (\<lambda>ts. return (Tombstones ts)))"
| "serve_admin E a (RestoreDevice u) = permission_guard ''devices.delete'' a
     (restoreTombstone E u a (\<lambda>r. return (Report r)))"
| "serve_admin E a (Disconnect u is) = permission_guard ''devices.disconnect'' a
     (disconnectDevice u is a (return (Done ''Disconnect command submitted; it will be delivered at the next device heartbeat'')))"
| "serve_admin E a (CreateStrategy n c) = permission_guard ''strategies.create'' a
     (createStrategy n c (\<lambda>s. return (StrategyReply s)))"
| "serve_admin E a (UpdateStrategy g c) = permission_guard ''strategies.edit'' a
     (updateStrategy g c (\<lambda>s. return (StrategyReply s)))"
| "serve_admin E a (DeleteStrategy g) = permission_guard ''strategies.delete'' a
     (deleteStrategy g (return (Done ''Strategy deleted successfully'')))"
| "serve_admin E a (GetStrategy g) = permission_guard ''strategies.view'' a
     (checked_by (getStrategy g) (\<lambda>s. return (StrategyReply s)))"
| "serve_admin E a (AssignStrategy g t ts) = permission_guard ''strategies.assign'' a
     (assignStrategy g t ts a (\<lambda>(ok, bad). return (AssignmentReply ok bad)))"
| "serve_admin E a (UnassignStrategy g t ts) = permission_guard ''strategies.assign'' a
     (unassignStrategy g t ts a (\<lambda>(ok, bad). return (AssignmentReply ok bad)))"
| "serve_admin E a (TargetCandidates byDevice pg) = permission_guard ''strategies.assign'' a
     (getStrategyTargetCandidates byDevice pg a (\<lambda>r. return (TargetReply r)))"
| "serve_admin E a (Assignments g t pg) = permission_guard ''strategies.assign'' a
     (getStrategyAssignments g t pg a (\<lambda>r. return (TargetReply r)))"

fun serve_device :: "device_env \<Rightarrow> device_request \<Rightarrow> device_handler" where
  "serve_device E (Heartbeat hb) = handleHeartbeat E hb (\<lambda>r. return (Beat r))"
| "serve_device E (Sysinfo dto) = createSysinfo E dto (\<lambda>found.
     return (Done (if found then ''SYSINFO_UPDATED'' else ''ID_NOT_FOUND'')))"
| "serve_device E (ScheduledFlush allowed ok) = handleScheduledFlush allowed ok (return (Done []))"
| "serve_device E (ShutDown ok1 ok2 ok3) = onModuleDestroy_cache ok1 ok2 ok3 (return (Done []))"
| "serve_device E (By actor r) = serve_admin E actor r"

subsection \<open>All requests at once\<close>

text \<open>
  Meanwhile the rest of the program works on the same tables: time passes, accounts, roles and address
  books change, a login binds a device to its user or a logout frees it, and bans are edited at the
  server.
\<close>

definition elsewhere :: "device_db \<Rightarrow> device_db \<Rightarrow> bool" where
  "elsewhere d d' \<longleftrightarrow> (\<exists>bound. d' = d\<lparr>dx_users := dx_users d', dx_rbac := dx_rbac d', dx_books := dx_books d',
     dx_bans := dx_bans d', dx_registry := dx_registry d', dx_now := dx_now d',
     dx_devices := map (\<lambda>p. p\<lparr>dp_user := bound (dp_uuid p)\<rparr>) (dx_devices d)\<rparr>)"

text \<open>Requests of the class \<open>A\<close> arrive, and what happens elsewhere leaves a state of the class \<open>ok\<close>.\<close>

definition reaches_devices ::
  "device_env \<Rightarrow> (device_request \<Rightarrow> bool) \<Rightarrow> (device_db \<Rightarrow> bool) \<Rightarrow> device_db \<Rightarrow> device_db \<times> device_handler list \<Rightarrow> bool" where
  "reaches_devices E A ok = reaches_from (serve_device E) A (\<lambda>d d'. elsewhere d d' \<and> ok d')"

definition serve_devices :: "device_env \<Rightarrow> device_request list \<Rightarrow> device_db \<Rightarrow> device_db" where
  "serve_devices E = serve_all_from (serve_device E)"

subsection \<open>Rules for the steps\<close>

lemma alone_check [simp]: "alone (checked_by op k) d = (case op d of
     (Inl e, d') \<Rightarrow> (Inl e, d') | (Inr x, d') \<Rightarrow> alone (k x) d')"
  by (simp add: checked_by_def split: prod.splits sum.splits)

lemma alone_transacted [simp]: "alone (transacted op k) d = (case op d of
     (Inl e, d') \<Rightarrow> (Inl e, d\<lparr>dx_rbac := dx_rbac d'\<rparr>) | (Inr x, d') \<Rightarrow> alone (k x) d')"
  by (simp add: transacted_def)

lemma alone_attempted [simp]: "alone (attempted op k) d = alone (k (fst (rolled_back op d))) (snd (rolled_back op d))"
  by (simp add: attempted_def)

lemma alone_in_memory [simp]: "alone (in_memory g k) d = alone k (g d)"
  and alone_pause [simp]: "alone (pause k) d = alone k d"
  and alone_fresh_id [simp]: "alone (fresh_id kk) d = alone (kk (dx_ids d (dx_drawn d))) (d\<lparr>dx_drawn := Suc (dx_drawn d)\<rparr>)"
  by (simp_all add: in_memory_def pause_def fresh_id_def)

lemma preserves_check [preserves_intros]:
  assumes "\<And>d r d'. I d \<Longrightarrow> op d = (r, d') \<Longrightarrow> I d'"
    and "\<And>d x d'. I d \<Longrightarrow> op d = (Inr x, d') \<Longrightarrow> preserves I (k x)"
  shows "preserves I (checked_by op k)"
  unfolding checked_by_def
proof (rule preserves_update)
  fix d assume I: "I d"
  obtain r d' where op: "op d = (r, d')" by (cases "op d")
  then show "I (snd (op d))" using assms(1) [OF I op] by simp
  show "preserves I (case fst (op d) of Inl e \<Rightarrow> throw e | Inr x \<Rightarrow> k x)"
    using assms(2) [OF I, of _ d'] op by (auto split: sum.split intro: preserves_intros)
qed

lemma preserves_transacted [preserves_intros]:
  assumes "\<And>d e d'. I d \<Longrightarrow> op d = (Inl e, d') \<Longrightarrow> I (d\<lparr>dx_rbac := dx_rbac d'\<rparr>)"
    and "\<And>d x d'. I d \<Longrightarrow> op d = (Inr x, d') \<Longrightarrow> I d'"
    and "\<And>x. preserves I (k x)"
  shows "preserves I (transacted op k)"
  unfolding transacted_def by (rule preserves_transact_keeping) (use assms in auto)

lemma preserves_attempted [preserves_intros]:
  assumes "\<And>d e d'. I d \<Longrightarrow> op d = (Inl e, d') \<Longrightarrow> I (d\<lparr>dx_rbac := dx_rbac d'\<rparr>)"
    and "\<And>d x d'. I d \<Longrightarrow> op d = (Inr x, d') \<Longrightarrow> I d'"
    and "\<And>r. preserves I (k r)"
  shows "preserves I (attempted op k)"
  unfolding attempted_def
proof (rule preserves_update)
  fix d assume "I d"
  then show "I (snd (rolled_back op d))"
    using assms(1,2) [of d] by (auto simp: rolled_back_def split: prod.split sum.split)
qed (rule assms(3))

lemma preserves_in_memory [preserves_intros]:
  "(\<And>d. I d \<Longrightarrow> I (g d)) \<Longrightarrow> preserves I k \<Longrightarrow> preserves I (in_memory g k)"
  unfolding in_memory_def by (intro preserves_at_once) simp_all

lemma preserves_pause [preserves_intros]: "preserves I k \<Longrightarrow> preserves I (pause k)"
  unfolding pause_def by (intro preserves_read)

lemma preserves_fresh_id [preserves_intros]:
  "(\<And>d. I d \<Longrightarrow> I (d\<lparr>dx_drawn := Suc (dx_drawn d)\<rparr>)) \<Longrightarrow> (\<And>g. preserves I (k g)) \<Longrightarrow> preserves I (fresh_id k)"
  unfolding fresh_id_def by (rule preserves_at_once) simp_all

end
