(* ===== verification/Device_Invariant.thy ===== *)
theory Device_Invariant
  imports Device_Requests
begin

text \<open>
  What every interleaving of requests for devices keeps. A locale names the changes of devices and
  tombstones that occur in the services, and who can bring them about; what survives each of them
  survives every request.
\<close>

subsection \<open>What the checks tell\<close>

definition same_accounts :: "device_db \<Rightarrow> device_db \<Rightarrow> bool" where
  "same_accounts d d' \<longleftrightarrow> map rbac_device_user (dx_users d') = map rbac_device_user (dx_users d) \<and>
     (\<exists>as. dx_rbac d' = (dx_rbac d)\<lparr>console_audits := as\<rparr>)"

text \<open>The two states differ neither in devices nor in tombstones nor in the rights of anybody.\<close>

definition same_registry :: "device_db \<Rightarrow> device_db \<Rightarrow> bool" where
  "same_registry d d' \<longleftrightarrow> dx_devices d' = dx_devices d \<and> dx_tombstones d' = dx_tombstones d \<and> same_accounts d d'"

lemma same_accounts_refl: "reflp same_accounts"
  unfolding reflp_def same_accounts_def
proof (intro allI conjI refl)
  fix d
  show "\<exists>as. dx_rbac d = (dx_rbac d)\<lparr>console_audits := as\<rparr>"
    by (rule exI [of _ "console_audits (dx_rbac d)"]) simp
qed

lemma same_accounts_trans: "transp same_accounts"
  by (fastforce simp: transp_def same_accounts_def)

lemma same_core_refl [simp]: "same_registry d d"
  using same_accounts_refl by (simp add: same_registry_def reflp_def)

lemma same_core_trans: "same_registry d d1 \<Longrightarrow> same_registry d1 d2 \<Longrightarrow> same_registry d d2"
  using same_accounts_trans unfolding same_registry_def transp_def by metis

lemma same_accountsI:
  "map rbac_device_user (dx_users d') = map rbac_device_user (dx_users d) \<Longrightarrow> dx_rbac d' = dx_rbac d \<Longrightarrow> same_accounts d d'"
  by (auto simp: same_accounts_def intro: exI [of _ "console_audits (dx_rbac d)"])

lemma same_core_other:
  "dx_devices d' = dx_devices d \<Longrightarrow> dx_tombstones d' = dx_tombstones d \<Longrightarrow>
   map rbac_device_user (dx_users d') = map rbac_device_user (dx_users d) \<Longrightarrow> dx_rbac d' = dx_rbac d \<Longrightarrow> same_registry d d'"
  by (simp add: same_registry_def same_accountsI)

lemma consulting_core: "consulting f d = (r, d') \<Longrightarrow> same_registry d d'"
  by (auto simp: consulting_def same_registry_def same_accounts_def split: prod.splits)

lemma consulting_Inr:
  "consulting f d = (Inr x, d') \<Longrightarrow> \<exists>rb. f (access_view d) = (Inr x, rb)"
  by (auto simp: consulting_def split: prod.splits)

lemma asks_iff: "asks f d = (r, d') \<longleftrightarrow> f (access_view d) = r \<and> d' = d"
  by (auto simp: asks_def reading_def)

lemma device_access_scope:
  "device_access a c u d = (Inr (p, s), d') \<Longrightarrow> requirePermission (access_view d) a c = Inr s"
  unfolding device_access_def by (auto dest!: consulting_Inr simp: assertDeviceAccess_iff)

lemma assertDevicesAccess_scope:
  "assertDevicesAccess d a c us = (Inr (ps, s), d') \<Longrightarrow> requirePermission d a c = Inr s"
  by (auto simp: assertDevicesAccess_def Let_def split: sum.splits if_splits option.splits)

lemma devices_access_scope:
  "devices_access a c us d = (Inr (ps, s), d') \<Longrightarrow> requirePermission (access_view d) a c = Inr s"
  unfolding devices_access_def by (auto dest!: consulting_Inr assertDevicesAccess_scope)

lemma assertStrategyTargets_scope:
  "assertStrategyTargets d a t ts = (Inr s, d') \<Longrightarrow> requirePermission d a ''strategies.assign'' = Inr s"
  by (cases t) (auto simp: assertStrategyTargets_def Let_def split: sum.splits if_splits option.splits)

lemma may_target_scope:
  "may_target a t ts d = (Inr s, d') \<Longrightarrow> requirePermission (access_view d) a ''strategies.assign'' = Inr s"
  unfolding may_target_def by (auto dest!: consulting_Inr assertStrategyTargets_scope)

lemmas check_cores =
  consulting_core [of "\<lambda>rb. assertDeviceAccess rb a c u" for a c u, folded device_access_def]
  consulting_core [of "\<lambda>rb. assertDevicesAccess rb a c us" for a c us, folded devices_access_def]
  consulting_core [of "\<lambda>rb. assertStrategyTargets rb a t ts" for a t ts, folded may_target_def]

subsection \<open>Transactions\<close>

lemma transp_same_core: "transp same_registry"
  by (rule transpI) (rule same_core_trans)

lemma reflp_same_core: "reflp same_registry"
  by (rule reflpI) simp

lemma abides_core_reading: "abides same_registry (reading f)"
  by (rule abides_reading [OF reflp_same_core])

lemma abides_core_sbind: "abides same_registry m \<Longrightarrow> (\<And>x. abides same_registry (f x)) \<Longrightarrow> abides same_registry (sbind m f)"
  by (rule abides_sbind [OF transp_same_core])

lemma abides_core_target: "abides same_registry (may_target a t ts)"
  unfolding abides_def by (metis check_cores(3) prod.collapse)

lemma abides_core_writing: "(\<And>d. same_registry d (g d)) \<Longrightarrow> abides same_registry (writing_db g)"
  by (rule abides_writing)

lemmas abides_core = abides_core_reading abides_core_sbind abides_core_target abides_core_writing

lemma users_assigned_core: "same_registry d (d\<lparr>dx_users := map (\<lambda>u. if P u then u\<lparr>du_strategy := v\<rparr> else u) (dx_users d)\<rparr>)"
  by (auto intro!: same_core_other simp: rbac_device_user_def)

lemma groups_core: "same_registry d (d\<lparr>dx_groups := gs\<rparr>)"
  by (auto intro!: same_core_other)

lemma assign_core:
  "abides same_registry (assign_users g ts a)" "abides same_registry (assign_groups g ts a)"
  "abides same_registry (unassign_users g ts a)" "abides same_registry (unassign_groups g ts a)"
  unfolding assign_users_def assign_groups_def unassign_users_def unassign_groups_def found_strategy_def Let_def
  by (intro abides_core users_assigned_core groups_core)+

lemma update_exactly_success:
  "update_exactly P f n recheck d = (Inr x, d') \<Longrightarrow> d' = change_devices P f d"
  by (auto simp: update_exactly_def op_success split: if_splits)

lemma assign_devices_success:
  assumes "assign_devices g ts a d = (Inr x, d')"
  obtains s d1 found where "requirePermission (access_view d) a ''strategies.assign'' = Inr s" and "same_registry d d1"
    and "d' = d1 \<or> d' = change_devices (\<lambda>p. dp_uuid p \<in> set found \<and> in_reach s p) (\<lambda>p. p\<lparr>dp_strategy := Some g\<rparr>) d1"
proof -
  from assms obtain s d1 where t: "may_target a TargetDevice ts d = (Inr s, d1)"
    and d': "d' = d1 \<or> d' = change_devices (\<lambda>p. dp_uuid p \<in> set (map dp_uuid (devices_in ts d1)) \<and> in_reach s p)
        (\<lambda>p. p\<lparr>dp_strategy := Some g\<rparr>) d1"
    by (auto simp: assign_devices_def op_success found_strategy_def simp del: sbind_simps
        split: option.splits if_splits dest: update_exactly_success)
  show thesis by (rule that [OF may_target_scope [OF t] check_cores(3) [OF t] d'])
qed

lemma unassign_devices_success:
  assumes "unassign_devices g ts a d = (Inr x, d')"
  obtains s d1 bound where "requirePermission (access_view d) a ''strategies.assign'' = Inr s" and "same_registry d d1"
    and "d' = d1 \<or> d' = change_devices (\<lambda>p. (dp_uuid p \<in> set bound \<and> dp_strategy p = Some g) \<and> in_reach s p)
      (\<lambda>p. p\<lparr>dp_strategy := None\<rparr>) d1"
proof -
  from assms obtain s d1 where t: "may_target a TargetDevice ts d = (Inr s, d1)"
    and d': "d' = d1 \<or> d' = change_devices (\<lambda>p. dp_uuid p \<in> set (map dp_uuid (filter (\<lambda>p. dp_strategy p = Some g) (devices_in ts d1)))
        \<and> dp_strategy p = Some g \<and> in_reach s p) (\<lambda>p. p\<lparr>dp_strategy := None\<rparr>) d1"
    by (auto simp: unassign_devices_def op_success found_strategy_def Let_def simp del: sbind_simps set_map set_filter
        split: option.splits if_splits dest: update_exactly_success)
  show thesis by (rule that [OF may_target_scope [OF t] check_cores(3) [OF t]]) (use d' in \<open>simp only: conj_assoc\<close>)
qed

lemma delete_device_success:
  assumes "delete_body_device u i a s d = (Inr x, d')"
  shows "d' = remove_devices (\<lambda>p. dp_uuid p = u \<and> in_reach s p) (put_tombstone u i a d)"
  using assms by (auto simp: delete_body_device_def op_success Let_def simp del: sbind_simps split: if_splits)

lemma status_success_device:
  "status_write us st s d = (Inr x, d') \<Longrightarrow>
   d' = change_devices (\<lambda>p. dp_uuid p \<in> set us \<and> in_reach s p) (\<lambda>p. p\<lparr>dp_status := st\<rparr>) d"
  by (auto simp: status_write_def Let_def split: if_splits)

lemma delete_group_success: "delete_group_body g d = (Inr x, d') \<Longrightarrow> d' = remove_group g d"
  by (auto simp: delete_group_body_def op_success simp del: sbind_simps)


text \<open>A transaction that throws leaves no more than audit records.\<close>

definition logged :: "device_db \<Rightarrow> device_db \<Rightarrow> bool" where
  "logged d d' \<longleftrightarrow> (\<exists>as. dx_rbac d' = (dx_rbac d)\<lparr>console_audits := as\<rparr>)"

lemma logged_same: "dx_rbac d' = dx_rbac d \<Longrightarrow> logged d d'"
  by (auto simp: logged_def intro: exI [of _ "console_audits (dx_rbac d)"])

lemma core_logged: "same_registry d d' \<Longrightarrow> logged d d'"
  by (simp add: same_registry_def same_accounts_def logged_def)

lemma logged_core: "logged d d' \<Longrightarrow> same_registry d (d\<lparr>dx_rbac := dx_rbac d'\<rparr>)"
  by (auto simp: same_registry_def same_accounts_def logged_def)

lemma transp_logged: "transp logged"
  by (fastforce simp: transp_def logged_def)

lemma reflp_logged: "reflp logged"
  by (auto intro!: reflpI logged_same)

lemma abides_logged_core: "abides same_registry m \<Longrightarrow> abides logged m"
  by (simp add: abides_def core_logged)

lemma abides_logged_writing: "(\<And>d. dx_rbac (g d) = dx_rbac d) \<Longrightarrow> abides logged (writing_db g)"
  by (rule abides_writing) (rule logged_same)

lemma abides_logged_sbind: "abides logged m \<Longrightarrow> (\<And>x. abides logged (f x)) \<Longrightarrow> abides logged (sbind m f)"
  by (rule abides_sbind [OF transp_logged])

lemma abides_update_exactly:
  assumes "abides logged recheck"
  shows "abides logged (update_exactly P f n recheck)"
proof -
  have r: "abides logged (sbind recheck (\<lambda>_. reading h))" for h :: "device_db \<Rightarrow> unit result"
    by (rule abides_logged_sbind [OF assms]) (rule abides_reading [OF reflp_logged])
  have c: "logged d (change_devices P f d)" for d by (rule logged_same) (simp add: change_devices_def)
  show ?thesis
    unfolding abides_def
  proof
    fix d
    show "logged d (snd (update_exactly P f n recheck d))"
      using c [of d] transpD [OF transp_logged c] r unfolding abides_def update_exactly_def by auto
  qed
qed

lemma abides_logged_if: "abides logged m \<Longrightarrow> abides logged m' \<Longrightarrow> abides logged (if c then m else m')"
  by simp

lemmas abides_logged = abides_logged_sbind abides_logged_if abides_update_exactly abides_reading [OF reflp_logged]
  abides_logged_core [OF abides_core_target]

lemma bodies_logged:
  "abides logged (assign_body g t ts a)" "abides logged (unassign_body g t ts a)"
  "abides logged (delete_body_device u i a s)" "abides logged (status_write us st s)"
  "abides logged (delete_group_body g)" "abides logged (flush_body ok ps cs)" "abides logged (insert_book_peer bp tags)"
proof -
  have "abides logged (assign_devices g ts a)" "abides logged (unassign_devices g ts a)"
    unfolding assign_devices_def unassign_devices_def found_strategy_def Let_def by (intro abides_logged)+
  then show "abides logged (assign_body g t ts a)" "abides logged (unassign_body g t ts a)"
    by (cases t; simp add: abides_logged_core assign_core)+
  show "abides logged (delete_body_device u i a s)" "abides logged (status_write us st s)"
    "abides logged (delete_group_body g)" "abides logged (insert_book_peer bp tags)"
    unfolding abides_def
    by (auto intro!: logged_same simp: delete_body_device_def status_write_def delete_group_body_def insert_book_peer_def
        sbind_def writing_db_def reading_def put_tombstone_def remove_devices_def change_devices_def remove_group_def
        ensure_def Let_def)
  have "abides logged (flush_conns c)" for c
    unfolding abides_def by (auto intro!: logged_same simp: flush_conns_def syncConnectionsWithManager_def Let_def case_prod_beta)
  then have "abides logged (for_each flush_conns cs)"
    by (intro abides_for_each reflp_logged transp_logged)
  moreover have "dx_rbac (fold flush_peer ps d) = dx_rbac d" for d
    by (induction ps arbitrary: d) (auto simp: flush_peer_def change_devices_def)
  ultimately show "abides logged (flush_body ok ps cs)"
    unfolding flush_body_def by (intro abides_logged abides_logged_writing)
qed


subsection \<open>Changes of devices and tombstones\<close>

definition device_codes :: "string set" where
  "device_codes = {''devices.edit'', ''devices.status'', ''devices.delete'', ''strategies.assign''}"

text \<open>
  \<open>harmless\<close> scopes and the existence of a super administrator among the callers (\<open>supers\<close>) follow from
  the invariant; \<open>admits\<close> names the rows a heartbeat may create, \<open>presets\<close> those whose presets apply,
  \<open>drops\<close> the tombstones that may be restored, \<open>strips\<close> the strategies that may be deleted, and \<open>acts\<close>
  the callers.
\<close>

locale device_frames =
  fixes I :: "device_db \<Rightarrow> bool" and harmless :: "permission_scope \<Rightarrow> bool" and supers :: bool
    and admits presets drops strips acts :: "string \<Rightarrow> bool"
  assumes frame: "I d \<Longrightarrow> same_registry d d' \<Longrightarrow> I d'"
    and report: "I d \<Longrightarrow> I (change_devices P (apply_report up) d)"
    and admit: "I d \<Longrightarrow> device_at d u = None \<Longrightarrow> I d' \<Longrightarrow> tombstone_at d' u = None \<Longrightarrow> admits u"
    and join: "I d \<Longrightarrow> admits (dp_uuid p) \<Longrightarrow> I (save_device p d)"
    and scope: "I d \<Longrightarrow> acts a \<Longrightarrow> c \<in> device_codes \<Longrightarrow> requirePermission (access_view d) a c = Inr s \<Longrightarrow> harmless s"
    and super: "I d \<Longrightarrow> acts a \<Longrightarrow> requireSuperAdmin (access_view d) a = Inr x \<Longrightarrow> supers"
    and touch: "I d \<Longrightarrow> harmless s \<Longrightarrow> (\<And>p. dp_uuid (f p) = dp_uuid p) \<Longrightarrow> I (change_devices (\<lambda>p. Q p \<and> in_reach s p) f d)"
    and remove: "I d \<Longrightarrow> harmless s \<Longrightarrow> I (remove_devices (\<lambda>p. Q p \<and> in_reach s p) d)"
    and bury: "I d \<Longrightarrow> I (put_tombstone u i a d)"
    and patch: "I d \<Longrightarrow> I (patch_tombstone u b q r d)"
    and drop: "I d \<Longrightarrow> drops u \<Longrightarrow> I (drop_tombstone u d)"
    and move: "I d \<Longrightarrow> supers \<Longrightarrow> I (change_devices P (\<lambda>p. p\<lparr>dp_group := v\<rparr>) d)"
    and dissolve: "I d \<Longrightarrow> supers \<Longrightarrow> I (remove_group g d)"
    and pre: "I d \<Longrightarrow> presets u \<Longrightarrow> (\<And>p. dp_uuid (f p) = dp_uuid p) \<Longrightarrow> I (change_devices (\<lambda>p. dp_uuid p = u) f d)"
    and strip: "I d \<Longrightarrow> strips g \<Longrightarrow> I (remove_strategy g d)"
begin

lemma core: "I d \<Longrightarrow> dx_devices d' = dx_devices d \<Longrightarrow> dx_tombstones d' = dx_tombstones d \<Longrightarrow>
    dx_users d' = dx_users d \<Longrightarrow> dx_rbac d' = dx_rbac d \<Longrightarrow> I d'"
  using frame same_core_other by simp

lemma guard: "preserves I k \<Longrightarrow> preserves I (permission_guard c a k)"
  unfolding permission_guard_def by (rule preserves_check) (auto dest: consulting_core frame)

lemma guard_admin: "preserves I k \<Longrightarrow> preserves I (admin_guard a k)"
  unfolding admin_guard_def by (intro preserves_intros)

lemma asks_keep: "(\<And>d x. I d \<Longrightarrow> f (access_view d) = Inr x \<Longrightarrow> preserves I (k x)) \<Longrightarrow> preserves I (checked_by (asks f) k)"
  by (rule preserves_check) (auto simp: asks_iff)

lemma reading_keep: "(\<And>x. preserves I (k x)) \<Longrightarrow> preserves I (checked_by (reading f) k)"
  by (rule preserves_check) (auto simp: reading_def)

lemma super_keep: "acts a \<Longrightarrow> (supers \<Longrightarrow> preserves I k) \<Longrightarrow> preserves I (as_super_admin a k)"
  unfolding as_super_admin_def by (rule asks_keep) (auto dest: super)

lemma device_access_keep:
  "acts a \<Longrightarrow> c \<in> device_codes \<Longrightarrow> (\<And>p s. harmless s \<Longrightarrow> preserves I (k (p, s))) \<Longrightarrow>
   preserves I (checked_by (device_access a c u) k)"
  by (rule preserves_check) (auto dest: check_cores(1) frame device_access_scope scope)

lemma device_access_any: "(\<And>x. preserves I (k x)) \<Longrightarrow> preserves I (checked_by (device_access a c u) k)"
  by (rule preserves_check) (auto dest: check_cores(1) frame)

lemma devices_access_keep:
  "acts a \<Longrightarrow> c \<in> device_codes \<Longrightarrow> (\<And>ps s. harmless s \<Longrightarrow> preserves I (k (ps, s))) \<Longrightarrow>
   preserves I (checked_by (devices_access a c us) k)"
  by (rule preserves_check) (auto dest: check_cores(2) frame devices_access_scope scope)

lemma may_target_keep: "(\<And>s. preserves I (k s)) \<Longrightarrow> preserves I (checked_by (may_target a t ts) k)"
  by (rule preserves_check) (auto dest: check_cores(3) frame)

lemma logged_keep: "I d \<Longrightarrow> abides logged op \<Longrightarrow> op d = (r, d') \<Longrightarrow> I (d\<lparr>dx_rbac := dx_rbac d'\<rparr>)"
  by (blast intro: frame logged_core dest: abidesD)

lemma fresh_keep: "(\<And>g. preserves I (k g)) \<Longrightarrow> preserves I (fresh_id k)"
  by (rule preserves_fresh_id) (auto intro: core)

lemma memory_keep:
  "(\<And>d. dx_devices (g d) = dx_devices d \<and> dx_tombstones (g d) = dx_tombstones d \<and> dx_users (g d) = dx_users d \<and>
     dx_rbac (g d) = dx_rbac d) \<Longrightarrow> preserves I k \<Longrightarrow> preserves I (in_memory g k)"
  by (rule preserves_in_memory) (auto intro: core)

end

subsection \<open>The server and the buffer\<close>

lemma server_audit_core: "same_registry d (server_audit E a act j d)"
  by (auto simp: server_audit_def same_registry_def same_accounts_def recordDenied_def audit_record_def split: option.split)

lemma upstream_core:
  assumes "\<And>d. dx_devices (change d) = dx_devices d \<and> dx_tombstones (change d) = dx_tombstones d \<and>
    dx_users (change d) = dx_users d \<and> dx_rbac (change d) = dx_rbac d"
  shows "same_registry d (snd (upstream_change E a act details change d))"
proof -
  let ?d = "d\<lparr>dx_asked := Suc (dx_asked d)\<rparr>"
  have 1: "same_registry d ?d" by (rule same_core_other) simp_all
  have "same_registry ?d (change ?d)" by (rule same_core_other) (simp_all add: assms)
  then have 2: "same_registry d (change ?d)" by (rule same_core_trans [OF 1])
  have "same_registry d (server_audit E a act j ?d)" "same_registry d (server_audit E a act j (change ?d))" for j
    using same_core_trans [OF 1 server_audit_core] same_core_trans [OF 2 server_audit_core] by auto
  then show ?thesis using 1 by (auto simp: upstream_change_def Let_def split: upstream.split)
qed

lemma sync_core: "same_registry d (snd (sync_bans E a add rem d))"
  and release_core: "same_registry d (snd (release_id E a i d))"
  by (auto simp: sync_bans_def release_id_def Let_def intro!: upstream_core)

lemma flush_conns_core: "abides same_registry (for_each flush_conns cs)"
proof (rule abides_for_each [OF reflp_same_core transp_same_core])
  fix x
  show "abides same_registry (flush_conns x)"
    unfolding abides_def
    by (auto intro!: same_core_other simp: flush_conns_def syncConnectionsWithManager_def Let_def case_prod_beta)
qed

context device_frames begin

lemma enforcing_keep:
  "(\<And>d. same_registry d (snd (change d))) \<Longrightarrow> (\<And>x. preserves I (k x)) \<Longrightarrow> preserves I (enforcing E a change k)"
  unfolding enforcing_def by (intro preserves_intros) (auto intro: frame)

lemma syncDeviceBans_keep: "(\<And>x. preserves I (k x)) \<Longrightarrow> preserves I (syncDeviceBans E a add rem k)"
  and releaseDeviceId_keep: "(\<And>x. preserves I (k x)) \<Longrightarrow> preserves I (releaseDeviceId E a i k)"
  unfolding syncDeviceBans_def releaseDeviceId_def by (intro enforcing_keep sync_core release_core; simp)+

lemma if_asked_keep:
  "(\<And>h. (\<And>x. preserves I (h x)) \<Longrightarrow> preserves I (act h)) \<Longrightarrow> (\<And>x. preserves I (k x)) \<Longrightarrow> preserves I (if_asked c act k)"
  by (simp add: if_asked_def)

lemma flush_peers_keep: "I d \<Longrightarrow> I (fold flush_peer ps d)"
  by (induction ps arbitrary: d) (auto simp: flush_peer_def intro: report)

lemma flush_success: "I d \<Longrightarrow> flush_body ok ps cs d = (Inr x, d') \<Longrightarrow> I d'"
  by (auto simp: flush_body_def op_success simp del: sbind_simps
      intro: frame [OF flush_peers_keep] dest: abidesD [OF flush_conns_core])

lemma flush_now_keep: "preserves I k \<Longrightarrow> preserves I (flush ok k)"
proof -
  assume k: "preserves I k"
  have "preserves I (attempted (flush_body ok ps cs) (\<lambda>r. in_memory (end_flush r ps cs) k))" for ps cs
  proof (intro preserves_attempted memory_keep k)
    show "I (d\<lparr>dx_rbac := dx_rbac d'\<rparr>)" if "I d" "flush_body ok ps cs d = (Inl e, d')" for d e d'
      by (rule logged_keep [OF that(1) bodies_logged(6) that(2)])
    show "I d'" if "I d" "flush_body ok ps cs d = (Inr x, d')" for d x d'
      by (rule flush_success [OF that])
  qed (simp add: end_flush_def Let_def split: sum.split)
  then show "preserves I (flush ok k)"
    unfolding flush_def by (intro preserves_at_once preserves_option preserves_pair preserves_pause k)
      (auto simp: begin_flush_def intro: core)
qed

lemma flush_keep: "preserves I k \<Longrightarrow> preserves I (handleScheduledFlush w ok k)"
  by (simp add: handleScheduledFlush_def flush_now_keep)

lemma shut_down_keep: "preserves I k \<Longrightarrow> preserves I (onModuleDestroy_cache ok1 ok2 ok3 k)"
proof -
  assume k: "preserves I k"
  have "preserves I (last_flushes oks k)" for oks
    by (induction oks) (auto simp: Let_def k intro!: preserves_at_once preserves_pause flush_now_keep)
  then show ?thesis by (simp add: onModuleDestroy_cache_def del: last_flushes.simps)
qed

subsection \<open>Reports of devices\<close>

lemma look_up_keep: "preserves I miss \<Longrightarrow> (\<And>s. preserves I (hit s)) \<Longrightarrow> preserves I (look_up_strategy g miss hit)"
  unfolding look_up_strategy_def by (intro preserves_option preserves_read)

lemma group_strategy_keep: "(\<And>s. preserves I (k s)) \<Longrightarrow> preserves I (group_strategy p k)"
  unfolding group_strategy_def by (intro preserves_option preserves_read look_up_keep)

lemma user_strategy_keep: "(\<And>s. preserves I (k s)) \<Longrightarrow> preserves I (user_strategy p k)"
  unfolding user_strategy_def by (intro preserves_option preserves_read look_up_keep group_strategy_keep)

lemma findStrategy_keep:
  assumes "\<And>s. preserves I (k s)"
  shows "preserves I (findStrategyForPeer p k)"
proof -
  have "preserves I (in_memory (remember_strategy (dp_uuid p) r) (k r))" for r
    by (rule memory_keep) (simp_all add: assms remember_strategy_def split: option.split)
  then have "preserves I (resolveStrategyForPeer p (\<lambda>r. in_memory (remember_strategy (dp_uuid p) r) (k r)))"
    unfolding resolveStrategyForPeer_def by (intro look_up_keep user_strategy_keep)
  then show ?thesis
    unfolding findStrategyForPeer_def by (intro preserves_at_once preserves_option) (simp_all add: assms)
qed

lemma take_conns_fields: "dx_devices (take_conns u cs d) = dx_devices d" "dx_tombstones (take_conns u cs d) = dx_tombstones d"
  "dx_users (take_conns u cs d) = dx_users d" "dx_rbac (take_conns u cs d) = dx_rbac d"
  by (simp_all add: take_conns_def removeDisconnected_def bufferConns_def Let_def split: option.split)

lemma answer_keep: "(\<And>r. preserves I (k r)) \<Longrightarrow> preserves I (answer_heartbeat u cs p m k)"
  unfolding answer_heartbeat_def resolveStrategy_def Let_def
  by (intro preserves_at_once preserves_option findStrategy_keep) (auto intro: core simp: take_conns_fields)

lemma heartbeat_keep:
  assumes k: "\<And>r. preserves I (k r)"
  shows "preserves I (handleHeartbeat E hb k)"
proof -
  have "preserves I (admit_heartbeat hb u k)" for u
    unfolding admit_heartbeat_def
  proof (rule preserves_read, rule preserves_option)
    fix d p
    assume "I d" "device_at d u = Some p"
    show "preserves I (in_memory (\<lambda>d. bufferPeerUpdate u (received hb d) d)
        (answer_heartbeat u (hb_conns hb) (Some p) (hb_modified hb) (\<lambda>r. k (Some r))))"
      by (intro memory_keep answer_keep k) (simp add: bufferPeerUpdate_def)
  next
    fix d
    assume "I d" "device_at d u = None"
    show "preserves I (db_read (\<lambda>d. tombstone_at d u) (\<lambda>t. if t \<noteq> None then k None
        else db_write (\<lambda>d. save_device (new_device u (hb_id hb) (hb_ver hb) (hb_modified hb) (dx_now d)) d)
          (answer_heartbeat u (hb_conns hb) None (hb_modified hb) (\<lambda>r. k (Some r)))))"
    proof (rule preserves_read, rule preserves_if)
      fix d' assume I: "I d'" "\<not> tombstone_at d' u \<noteq> None"
      then have u: "admits u" using admit [OF \<open>I d\<close> \<open>device_at d u = None\<close>] by simp
      show "preserves I (db_write (\<lambda>d. save_device (new_device u (hb_id hb) (hb_ver hb) (hb_modified hb) (dx_now d)) d)
          (answer_heartbeat u (hb_conns hb) None (hb_modified hb) (\<lambda>r. k (Some r))))"
        by (intro preserves_write answer_keep k join) (simp_all add: new_device_def u)
    qed (rule k)
  qed
  then show ?thesis
    unfolding handleHeartbeat_def device_key_def Let_def by (intro preserves_intros k)
qed

end

end
