(* ===== verification/Device_Frames.thy ===== *)
theory Device_Frames
  imports Device_Invariant
begin

text \<open>
  Every request for devices keeps what survives the changes of the locale \<open>device_frames\<close>: reports of
  devices, administration of devices and groups, and strategies, one lemma per operation.
\<close>

text \<open>The rows whose presets a report may apply, and the requests the locale's parameters allow.\<close>

fun admissible_admin :: "(string \<Rightarrow> bool) \<Rightarrow> (string \<Rightarrow> bool) \<Rightarrow> admin_request \<Rightarrow> bool" where
  "admissible_admin drops strips (RestoreDevice u) = drops u"
| "admissible_admin drops strips (DeleteStrategy g) = strips g"
| "admissible_admin drops strips _ = True"

fun admissible ::
  "device_env \<Rightarrow> (string \<Rightarrow> bool) \<Rightarrow> (string \<Rightarrow> bool) \<Rightarrow> (string \<Rightarrow> bool) \<Rightarrow> (string \<Rightarrow> bool) \<Rightarrow> device_request \<Rightarrow> bool" where
  "admissible E presets drops strips acts (Sysinfo dto) \<longleftrightarrow>
     presets (sn_uuid dto) \<and> (\<forall>i. presets (ve_isolated E (sn_uuid dto) i))"
| "admissible E presets drops strips acts (By a r) \<longleftrightarrow> acts a \<and> admissible_admin drops strips r"
| "admissible E presets drops strips acts _ \<longleftrightarrow> True"

lemma insert_book_success: "insert_book_peer bp tags d = (Inr x, d') \<Longrightarrow> \<exists>b. d' = d\<lparr>dx_books := b\<rparr>"
  by (auto simp: insert_book_peer_def Let_def split: if_splits)

context device_frames begin

subsection \<open>System information\<close>

lemma device_key_keep:
  "k u = p \<Longrightarrow> preserves I (k u) \<Longrightarrow> (\<And>i. preserves I (k (ve_isolated E u i))) \<Longrightarrow> preserves I (device_key E u i k)"
  unfolding device_key_def Let_def by (intro preserves_if preserves_read) simp_all

lemma existing_tags_keep: "(\<And>ts. preserves I (k ts)) \<Longrightarrow> preserves I (existing_tags b ns acc k)"
  by (induction ns arbitrary: acc) (auto intro!: preserves_read)

lemma preset_keep:
  "(\<And>x h. (\<And>r. preserves I (h r)) \<Longrightarrow> preserves I (act x h)) \<Longrightarrow> preserves I failed \<Longrightarrow> preserves I k \<Longrightarrow>
   preserves I (preset v act failed k)"
  unfolding preset_def by (intro preserves_option) (auto split: sum.split)

lemma addToAddressBook_keep: "(\<And>r. preserves I (k r)) \<Longrightarrow> preserves I (addToAddressBook s dto n k)"
  unfolding addToAddressBook_def
  by (intro preserves_read preserves_option preserves_if existing_tags_keep fresh_keep preserves_attempted)
    (auto intro: logged_keep [OF _ bodies_logged(7)] core dest!: insert_book_success)

lemma addToDeviceGroup_keep:
  assumes "presets (sy_uuid s)" and k: "\<And>r. preserves I (k r)"
  shows "preserves I (addToDeviceGroup s n k)"
proof -
  have "preserves I (attempted (\<lambda>d. if group_at d g = None \<and> device_at d (sy_uuid s) \<noteq> None
      then (Inl constraint_error, d)
      else (Inr (), change_devices (\<lambda>p. dp_uuid p = sy_uuid s) (\<lambda>p. p\<lparr>dp_group := Some g\<rparr>) d)) k)" for g
    by (rule preserves_attempted [OF _ _ k]) (auto split: if_splits intro: pre [OF _ assms(1)])
  then show ?thesis
    unfolding addToDeviceGroup_def by (intro preserves_read preserves_option preserves_if k)
qed

lemma setPresetNote_keep: "presets u \<Longrightarrow> preserves I k \<Longrightarrow> preserves I (setPresetNote u n k)"
  unfolding setPresetNote_def by (intro preserves_read preserves_option preserves_if preserves_write) (auto intro: pre)

lemma sysinfo_keep:
  assumes u: "presets (sn_uuid dto)" "\<And>i. presets (ve_isolated E (sn_uuid dto) i)" and k: "\<And>b. preserves I (k b)"
  shows "preserves I (createSysinfo E dto k)"
proof -
  have p: "preserves I (processPresetSettings s dto (k b))" if "presets (sy_uuid s)" for s b
    unfolding processPresetSettings_def
    by (intro preset_keep preserves_option addToAddressBook_keep addToDeviceGroup_keep setPresetNote_keep that k)
  have "sy_uuid (new_sysinfo dto u) = u" "sy_uuid (updated_sysinfo dto s) = sy_uuid s" for u s
    by (simp_all add: new_sysinfo_def updated_sysinfo_def)
  then have "preserves I (store_sysinfo dto u k)" if "presets u" for u
    unfolding store_sysinfo_def Let_def
    by (intro preserves_read preserves_if preserves_write k)
      (use that in \<open>auto simp: save_sysinfo_def intro!: p intro: core split: option.split dest!: find_SomeD\<close>)
  with u show ?thesis
    unfolding createSysinfo_def device_key_def Let_def by (intro preserves_if preserves_option preserves_read k) simp_all
qed

subsection \<open>Administration of devices and groups\<close>

lemma save_group_keep: "preserves I k \<Longrightarrow> preserves I (save_group g k)"
  unfolding save_group_def by (intro preserves_save preserves_throw) (auto intro: core)

lemma with_group_keep: "(\<And>x. preserves I (k x)) \<Longrightarrow> preserves I (with_group g k)"
  unfolding with_group_def by (intro preserves_read preserves_option preserves_throw)

lemma group_service_keep:
  assumes "acts a" and k: "preserves I k"
  shows "preserves I (createDeviceGroup n note a k)" "preserves I (updateDeviceGroup g m note a k)"
  unfolding createDeviceGroup_def updateDeviceGroup_def Let_def
  by (intro super_keep assms preserves_read preserves_if preserves_option preserves_throw fresh_keep save_group_keep with_group_keep k)+

lemma forget_fields:
  "dx_devices (fold (\<lambda>u. invalidateDeviceStrategyCache (Some u)) us d) = dx_devices d \<and>
   dx_tombstones (fold (\<lambda>u. invalidateDeviceStrategyCache (Some u)) us d) = dx_tombstones d \<and>
   dx_users (fold (\<lambda>u. invalidateDeviceStrategyCache (Some u)) us d) = dx_users d \<and>
   dx_rbac (fold (\<lambda>u. invalidateDeviceStrategyCache (Some u)) us d) = dx_rbac d"
  by (induction us arbitrary: d)
    (auto simp: invalidateDeviceStrategyCache_def forget_device_def forget_all_def split: option.split)

lemma forget_keep: "preserves I k \<Longrightarrow> preserves I (in_memory (invalidateDeviceStrategyCache v) k)"
  by (rule memory_keep) (auto simp: invalidateDeviceStrategyCache_def forget_device_def forget_all_def split: option.split)

lemma deleteDeviceGroup_keep: "acts a \<Longrightarrow> preserves I k \<Longrightarrow> preserves I (deleteDeviceGroup g a k)"
  unfolding deleteDeviceGroup_def
  by (intro super_keep preserves_transacted memory_keep forget_fields)
    (auto intro: logged_keep [OF _ bodies_logged(5)] dissolve dest: delete_group_success)

lemma move_devices_keep: "supers \<Longrightarrow> preserves I k \<Longrightarrow> preserves I (move_devices g us k)"
  by (induction us) (auto intro!: preserves_save preserves_throw forget_keep intro: move)

lemma member_service_keep:
  assumes "acts a" and k: "preserves I k"
  shows "preserves I (addDevicesToGroup g is a k)" "preserves I (removeDevicesFromGroup g is a k)"
  unfolding addDevicesToGroup_def removeDevicesFromGroup_def
  by (intro super_keep assms with_group_keep preserves_read preserves_if preserves_throw move_devices_keep; assumption)+

lemma named_ref_keep: "(\<And>v. preserves I (k v)) \<Longrightarrow> preserves I (named_ref v get m k)"
  unfolding named_ref_def by (intro preserves_option preserves_read preserves_throw)

lemma apply_update_uuid: "dp_uuid (apply_update c p) = dp_uuid p"
  by (simp add: apply_update_def Let_def split: option.split)

lemma updateDevice_keep:
  assumes a: "acts a" and k: "preserves I k"
  shows "preserves I (updateDevice u dto a k)"
proof -
  have w: "preserves I (checked_by (write_device u c s) h)" if "harmless s" "\<And>n. preserves I (h n)" for c s h
    by (rule preserves_check) (auto simp: write_device_def Let_def apply_update_uuid that split: if_splits
        intro!: touch [OF _ that(1)])
  show ?thesis
    unfolding updateDevice_def Let_def
    by (intro device_access_keep [OF a] preserves_pair preserves_if super_keep a named_ref_keep w k
        device_access_any preserves_throw forget_keep) (simp_all add: device_codes_def)
qed

lemma updateDeviceStatus_keep:
  assumes a: "acts a" and k: "\<And>r. preserves I (k r)"
  shows "preserves I (updateDeviceStatus E us on a k)"
proof -
  have w: "preserves I (attempted (status_write vs st s) h)" if "harmless s" "\<And>r. preserves I (h r)" for vs st s h
    by (rule preserves_attempted [OF logged_keep [OF _ bodies_logged(4)] _ that(2)])
      (auto dest!: status_success_device intro!: touch [OF _ that(1)])
  show ?thesis
    unfolding updateDeviceStatus_def Let_def
    by (intro devices_access_keep [OF a] preserves_pair preserves_if preserves_sum w k syncDeviceBans_keep preserves_throw)
      (auto simp: device_codes_def)
qed

lemma deleteDevice_keep:
  assumes a: "acts a" and k: "\<And>r. preserves I (k r)"
  shows "preserves I (deleteDevice E u a ban rel k)"
proof -
  have w: "preserves I (attempted (delete_body_device u i a s) h)" if "harmless s" "\<And>r. preserves I (h r)" for i s h
    by (rule preserves_attempted [OF logged_keep [OF _ bodies_logged(3)] _ that(2)])
      (auto dest!: delete_device_success intro!: remove [OF _ that(1)] bury)
  show ?thesis
    unfolding deleteDevice_def Let_def
    by (intro device_access_keep [OF a] preserves_pair preserves_if preserves_sum w k if_asked_keep syncDeviceBans_keep
        releaseDeviceId_keep preserves_throw preserves_write patch device_access_any) (simp_all add: device_codes_def)
qed

lemma tombstone_service_keep:
  assumes k: "\<And>r. preserves I (k r)" "\<And>ts. preserves I (kt ts)"
  shows "preserves I (listTombstones a kt)" "drops u \<Longrightarrow> preserves I (restoreTombstone E u a k)"
  unfolding listTombstones_def restoreTombstone_def global_delete_def
  by (intro asks_keep preserves_read preserves_option preserves_if if_asked_keep syncDeviceBans_keep releaseDeviceId_keep
      preserves_throw preserves_write drop k; assumption)+

lemma disconnect_keep: "preserves I k \<Longrightarrow> preserves I (disconnectDevice u is a k)"
  unfolding disconnectDevice_def getActiveConnectionIds_def
  by (intro device_access_any preserves_at_once preserves_option preserves_read preserves_if preserves_throw memory_keep)
    (simp_all add: addPendingDisconnects_def)

subsection \<open>Strategies\<close>

lemma saving_keep: "(\<And>s. preserves I (k s)) \<Longrightarrow> preserves I (saving_strategy s k)"
  unfolding saving_strategy_def
  by (intro preserves_update preserves_option preserves_throw)
    (auto intro: core simp: save_strategy_def Let_def split: option.split)

lemma store_keep: "(\<And>s. preserves I (k s)) \<Longrightarrow> preserves I (store_strategy s k)"
  unfolding store_strategy_def by (intro saving_keep memory_keep) simp_all

lemma strategy_service_keep:
  assumes k: "\<And>s. preserves I (k s)"
  shows "preserves I (createStrategy n c k)" "preserves I (updateStrategy g c k)"
  unfolding createStrategy_def updateStrategy_def
  by (intro preserves_read preserves_if preserves_option preserves_throw fresh_keep saving_keep store_keep k)+

lemma deleteStrategy_keep: "strips g \<Longrightarrow> preserves I k \<Longrightarrow> preserves I (deleteStrategy g k)"
  unfolding deleteStrategy_def
  by (intro preserves_read preserves_if preserves_throw preserves_write memory_keep) (auto intro: strip simp: forget_strategy_def)

lemma assign_success_keep:
  assumes a: "acts a" and I: "I d" and op: "assign_body g t ts a d = (Inr x, d')"
  shows "I d'"
proof (cases t)
  case TargetDevice
  with op obtain s d1 found where r: "requirePermission (access_view d) a ''strategies.assign'' = Inr s" and c: "same_registry d d1"
    and d': "d' = d1 \<or> d' = change_devices (\<lambda>p. dp_uuid p \<in> set found \<and> in_reach s p) (\<lambda>p. p\<lparr>dp_strategy := Some g\<rparr>) d1"
    by (auto elim!: assign_devices_success [of g ts a d x d'] simp del: conj_assoc)
  have "harmless s" by (rule scope [OF I a _ r]) (simp add: device_codes_def)
  with d' frame [OF I c] show ?thesis by (auto intro!: touch)
qed (use op frame [OF I] in \<open>auto dest: abidesD [OF assign_core(1)] abidesD [OF assign_core(2)]\<close>)

lemma unassign_success_keep:
  assumes a: "acts a" and I: "I d" and op: "unassign_body g t ts a d = (Inr x, d')"
  shows "I d'"
proof (cases t)
  case TargetDevice
  with op obtain s d1 bound where r: "requirePermission (access_view d) a ''strategies.assign'' = Inr s" and c: "same_registry d d1"
    and d': "d' = d1 \<or> d' = change_devices (\<lambda>p. (dp_uuid p \<in> set bound \<and> dp_strategy p = Some g) \<and> in_reach s p)
      (\<lambda>p. p\<lparr>dp_strategy := None\<rparr>) d1"
    by (auto elim!: unassign_devices_success [of g ts a d x d'] simp del: conj_assoc)
  have h: "harmless s" by (rule scope [OF I a _ r]) (simp add: device_codes_def)
  have "I (change_devices (\<lambda>p. (dp_uuid p \<in> set bound \<and> dp_strategy p = Some g) \<and> in_reach s p) (\<lambda>p. p\<lparr>dp_strategy := None\<rparr>) d1)"
    by (rule touch [OF frame [OF I c] h]) simp
  with d' frame [OF I c] show ?thesis by auto
qed (use op frame [OF I] in \<open>auto dest: abidesD [OF assign_core(3)] abidesD [OF assign_core(4)]\<close>)

lemma assignment_keep:
  assumes a: "acts a" and k: "\<And>r. preserves I (k r)"
  shows "preserves I (assignStrategy g t ts a k)" "preserves I (unassignStrategy g t ts a k)"
proof -
  show "preserves I (assignStrategy g t ts a k)"
    unfolding assignStrategy_def
    by (rule preserves_transacted [OF logged_keep [OF _ bodies_logged(1)] assign_success_keep [OF a] forget_keep [OF k]])
  show "preserves I (unassignStrategy g t ts a k)"
    unfolding unassignStrategy_def
    by (rule preserves_transacted [OF logged_keep [OF _ bodies_logged(2)] unassign_success_keep [OF a] forget_keep [OF k]])
qed

lemma consulting_keep: "(\<And>x. preserves I (k x)) \<Longrightarrow> (\<And>d r d'. op d = (r, d') \<Longrightarrow> same_registry d d') \<Longrightarrow> preserves I (checked_by op k)"
  by (rule preserves_check) (auto intro: frame)

lemma listing_keep:
  assumes k: "\<And>r. preserves I (k r)"
  shows "preserves I (getStrategyTargetCandidates byDevice pg a k)" "preserves I (getStrategyAssignments g t pg a k)"
proof -
  have pairs: "preserves I (case r of (n, rows) \<Rightarrow> k (f n rows))" for r :: "'m \<times> 'n" and f
    by (cases r) (simp add: k)
  show "preserves I (getStrategyTargetCandidates byDevice pg a k)"
    unfolding getStrategyTargetCandidates_def
    by (intro preserves_if asks_keep may_target_keep preserves_read reading_keep pairs)
  have c: "abides same_registry (if t = TargetUser then sbind (may_target a TargetUser []) (\<lambda>_. reading (\<lambda>_. Inr ()))
      else reading (\<lambda>_. Inr ()))"
    by (simp add: abides_core)
  have rows: "preserves I (case t of
         TargetDevice \<Rightarrow> db_read (device_rows s (\<lambda>p. dp_strategy p = Some g) pg) (\<lambda>(n, rows). k (DeviceRows n rows))
       | TargetUser \<Rightarrow> checked_by (reading (user_rows a (\<lambda>u. du_strategy u = Some g) pg)) (\<lambda>(n, rows). k (UserRows n rows))
       | TargetDeviceGroup \<Rightarrow> db_read (group_rows_in s (\<lambda>x. gp_strategy x = Some g) pg)
           (\<lambda>(n, rows). k (GroupRows n rows)))" for s
    by (cases t) (auto intro!: preserves_read preserves_pair reading_keep k)
  show "preserves I (getStrategyAssignments g t pg a k)"
    unfolding getStrategyAssignments_def found_strategy_def
  proof (rule asks_keep, rule consulting_keep)
    fix s and x :: unit
    show "preserves I (checked_by (reading (\<lambda>d. case strategy_at d g of None \<Rightarrow> Inl (NotFoundException ''Strategy not found'')
        | Some s \<Rightarrow> Inr s)) (\<lambda>_. case t of
         TargetDevice \<Rightarrow> db_read (device_rows s (\<lambda>p. dp_strategy p = Some g) pg) (\<lambda>(n, rows). k (DeviceRows n rows))
       | TargetUser \<Rightarrow> checked_by (reading (user_rows a (\<lambda>u. du_strategy u = Some g) pg)) (\<lambda>(n, rows). k (UserRows n rows))
       | TargetDeviceGroup \<Rightarrow> db_read (group_rows_in s (\<lambda>x. gp_strategy x = Some g) pg)
           (\<lambda>(n, rows). k (GroupRows n rows))))"
      by (rule reading_keep) (rule rows)
  qed (rule abidesD [OF c])
qed

subsection \<open>All requests\<close>

lemma served_admin: "acts a \<Longrightarrow> admissible_admin drops strips r \<Longrightarrow> preserves I (serve_admin E a r)"
  by (cases r)
    (auto intro!: guard guard_admin group_service_keep deleteDeviceGroup_keep member_service_keep updateDevice_keep
      updateDeviceStatus_keep deleteDevice_keep tombstone_service_keep disconnect_keep strategy_service_keep
      deleteStrategy_keep assignment_keep listing_keep reading_keep preserves_return preserves_pair simp: getStrategy_def found_strategy_def)

lemma served: "admissible E presets drops strips acts r \<Longrightarrow> preserves I (serve_device E r)"
  by (cases r) (auto intro!: heartbeat_keep sysinfo_keep flush_keep shut_down_keep served_admin preserves_return)

lemma always:
  assumes "reaches_devices E (admissible E presets drops strips acts) ok d (d', ps)" "I d"
    and "\<And>d d'. I d \<Longrightarrow> elsewhere d d' \<Longrightarrow> ok d' \<Longrightarrow> I d'"
  shows "I d'"
  using assms by (auto simp: reaches_devices_def intro: reaches_preserves [OF _ _ served])

end

end
