(* ===== verification/Device_Safety.thy ===== *)
theory Device_Safety
  imports Device_Frames
begin

text \<open>
  What no interleaving of requests can do: bring a deleted device back, or change a device that lies
  outside the groups of every caller.
\<close>

subsection \<open>Rows after a change\<close>

lemma device_at_None: "device_at d u = None \<longleftrightarrow> u \<notin> dp_uuid ` set (dx_devices d)"
  by (auto simp: device_at_def find_None_iff_all)

lemma device_at_Some: "device_at d u = Some p \<Longrightarrow> p \<in> set (dx_devices d) \<and> dp_uuid p = u"
  unfolding device_at_def by (drule find_SomeD) simp

lemma tombstone_at_None: "tombstone_at d u = None \<longleftrightarrow> u \<notin> tb_uuid ` set (dx_tombstones d)"
  by (auto simp: tombstone_at_def find_None_iff_all)

lemma keys_map_if:
  assumes "\<And>x. key (f x) = key x"
  shows "key ` set (map (\<lambda>x. if P x then f x else x) xs) = key ` set xs"
proof -
  have "map key (map (\<lambda>x. if P x then f x else x) xs) = map key xs" using assms by simp
  then show ?thesis by (metis list.set_map)
qed

lemma change_devices_uuids:
  "(\<And>p. dp_uuid (f p) = dp_uuid p) \<Longrightarrow> dp_uuid ` set (dx_devices (change_devices P f d)) = dp_uuid ` set (dx_devices d)"
  by (simp add: change_devices_def keys_map_if del: set_map)

lemma save_device_rows:
  fixes p :: device
  shows "dp_uuid p \<noteq> u \<Longrightarrow> filter (\<lambda>q. dp_uuid q = u) (dx_devices (save_device p d)) = filter (\<lambda>q. dp_uuid q = u) (dx_devices d)"
proof -
  have "filter (\<lambda>q. dp_uuid q = u) (map (\<lambda>q. if dp_uuid q = dp_uuid p then f q else q) qs) = filter (\<lambda>q. dp_uuid q = u) qs"
    if "dp_uuid p \<noteq> u" "\<And>q. dp_uuid (f q) = dp_uuid q" for f and qs :: "device list"
    by (induction qs) (use that in auto)
  then show "dp_uuid p \<noteq> u \<Longrightarrow> filter (\<lambda>q. dp_uuid q = u) (dx_devices (save_device p d)) = filter (\<lambda>q. dp_uuid q = u) (dx_devices d)"
    by (auto simp: save_device_def split: option.split)
qed

lemma rows_None: "device_at d u = None \<longleftrightarrow> filter (\<lambda>q. dp_uuid q = u) (dx_devices d) = []"
  by (auto simp: device_at_None filter_empty_conv)

lemma tombstones_put: "tb_uuid ` set (dx_tombstones (put_tombstone v i a d)) = insert v (tb_uuid ` set (dx_tombstones d))"
proof (cases "tombstone_at d v")
  case None
  then show ?thesis by (auto simp: put_tombstone_def)
next
  case (Some t)
  then have "v \<in> tb_uuid ` set (dx_tombstones d)" unfolding tombstone_at_def by (auto dest: find_SomeD)
  with Some show ?thesis by (simp add: put_tombstone_def keys_map_if insert_absorb del: set_map)
qed

lemma tombstones_patch: "tb_uuid ` set (dx_tombstones (patch_tombstone v b q r d)) = tb_uuid ` set (dx_tombstones d)"
  by (simp add: patch_tombstone_def keys_map_if del: set_map)

subsection \<open>Deleted devices\<close>

definition buried :: "string \<Rightarrow> device_db \<Rightarrow> bool" where
  "buried u d \<longleftrightarrow> device_at d u = None \<and> tombstone_at d u \<noteq> None"

lemma buried_same: "dp_uuid ` set (dx_devices d') = dp_uuid ` set (dx_devices d) \<Longrightarrow>
    tb_uuid ` set (dx_tombstones d') = tb_uuid ` set (dx_tombstones d) \<Longrightarrow> buried u d' = buried u d"
  by (simp add: buried_def device_at_None tombstone_at_None)

interpretation graves: device_frames "buried u" "\<lambda>_. True" True "\<lambda>v. v \<noteq> u" "\<lambda>_. True" "\<lambda>v. v \<noteq> u" "\<lambda>_. True" "\<lambda>_. True"
  for u
proof unfold_locales
  fix d d' :: device_db and v
  assume "buried u d" "device_at d v = None" "buried u d'" "tombstone_at d' v = None"
  then show "v \<noteq> u" by (auto simp: buried_def)
next
  fix d and p :: device assume "buried u d" "dp_uuid p \<noteq> u"
  then show "buried u (save_device p d)"
    using save_device_rows [of p u d] by (simp add: buried_def rows_None) (simp add: tombstone_at_def save_device_def)
next
  fix d Q s assume "buried u d"
  then show "buried u (remove_devices (\<lambda>p. Q p \<and> in_reach s p) d)"
    by (auto simp: buried_def device_at_None tombstone_at_None remove_devices_def)
next
  fix d v i a assume "buried u d"
  then show "buried u (put_tombstone v i a d)"
    by (auto simp: buried_def device_at_None tombstone_at_None tombstones_put) (simp add: put_tombstone_def)
next
  fix d v assume "buried u d" "v \<noteq> u"
  then show "buried u (drop_tombstone v d)"
    by (auto simp: buried_def device_at_None tombstone_at_None drop_tombstone_def)
next
  fix d v b q r assume "buried u d"
  then show "buried u (patch_tombstone v b q r d)"
    by (simp add: buried_def device_at_None tombstone_at_None tombstones_patch) (simp add: patch_tombstone_def)
next
  fix d P up assume "buried u d"
  then show "buried u (change_devices P (apply_report up) d)"
    by (simp add: buried_def device_at_None tombstone_at_None change_devices_uuids apply_report_def) (simp add: change_devices_def)
next
  fix d P v assume "buried u d"
  then show "buried u (change_devices P (\<lambda>p. p\<lparr>dp_group := v\<rparr>) d)"
    by (simp add: buried_def device_at_None tombstone_at_None change_devices_uuids) (simp add: change_devices_def)
next
  fix d Q s and f :: "device \<Rightarrow> device" assume "buried u d" "\<And>p. dp_uuid (f p) = dp_uuid p"
  then show "buried u (change_devices (\<lambda>p. Q p \<and> in_reach s p) f d)"
    by (simp add: buried_def device_at_None tombstone_at_None change_devices_uuids) (simp add: change_devices_def)
next
  fix d v and f :: "device \<Rightarrow> device" assume "buried u d" "\<And>p. dp_uuid (f p) = dp_uuid p"
  then show "buried u (change_devices (\<lambda>p. dp_uuid p = v) f d)"
    by (simp add: buried_def device_at_None tombstone_at_None change_devices_uuids) (simp add: change_devices_def)
qed (auto simp: buried_def device_at_None tombstone_at_None same_registry_def remove_group_def remove_strategy_def image_image)


lemma count_one_rows:
  "distinct (map dp_uuid xs) \<Longrightarrow> length (filter (\<lambda>p. dp_uuid p = u \<and> P p) xs) = 1 \<Longrightarrow>
   filter (\<lambda>p. \<not> (dp_uuid p = u \<and> P p)) xs = filter (\<lambda>p. dp_uuid p \<noteq> u) xs"
proof (rule filter_cong [OF refl])
  fix p assume d: "distinct (map dp_uuid xs)" and n: "length (filter (\<lambda>p. dp_uuid p = u \<and> P p) xs) = 1" and p: "p \<in> set xs"
  from n obtain q where "filter (\<lambda>p. dp_uuid p = u \<and> P p) xs = [q]" by (auto simp: length_Suc_conv)
  then have "q \<in> set (filter (\<lambda>p. dp_uuid p = u \<and> P p) xs)" by simp
  then have q: "q \<in> set xs" "dp_uuid q = u" "P q" by auto
  have "p = q" if "dp_uuid p = u" using d p q that by (auto simp: distinct_map inj_on_def)
  with q show "(\<not> (dp_uuid p = u \<and> P p)) = (dp_uuid p \<noteq> u)" by auto
qed

lemma delete_body_buries:
  assumes "delete_body_device u i a s d = (Inr x, d')" "distinct (map dp_uuid (dx_devices d))"
  shows "buried u d'"
proof -
  have n: "count_devices (\<lambda>p. dp_uuid p = u \<and> in_reach s p) d = 1"
    using assms(1) by (auto simp: delete_body_device_def op_success Let_def count_devices_def put_tombstone_def
        simp del: sbind_simps split: if_splits)
  have "dx_devices d' = filter (\<lambda>p. dp_uuid p \<noteq> u) (dx_devices d)"
    using delete_device_success [OF assms(1)] count_one_rows [OF assms(2)] n
    by (simp add: remove_devices_def count_devices_def put_tombstone_def)
  moreover have "dx_tombstones d' = dx_tombstones (put_tombstone u i a d)"
    using delete_device_success [OF assms(1)] by (simp add: remove_devices_def)
  ultimately show ?thesis by (auto simp: buried_def device_at_None tombstone_at_None tombstones_put)
qed

lemma buried_core: "same_registry d d' \<Longrightarrow> buried u d' = buried u d"
  by (rule buried_same) (simp_all add: same_registry_def)

lemma deletion_buries:
  assumes run: "alone (deleteDevice E u a ban rel (\<lambda>r. return (Report r))) d0 = (Inr reply, d)"
    and dist: "distinct (map dp_uuid (dx_devices d0))"
  shows "buried u d"
proof -
  from run obtain p s d1 where acc: "device_access a ''devices.delete'' u d0 = (Inr (p, s), d1)"
    by (auto simp: deleteDevice_def split: prod.splits sum.splits)
  have dist1: "distinct (map dp_uuid (dx_devices d1))"
    using check_cores(1) [OF acc] dist by (simp add: same_registry_def)
  obtain x d2 where body: "delete_body_device u (peer_id p) a s d1 = (Inr x, d2)"
  proof (cases "delete_body_device u (peer_id p) a s d1")
    case (Pair r d2)
    then show thesis using run acc that
      by (cases r) (auto simp: deleteDevice_def rolled_back_def Let_def split: prod.splits sum.splits)
  qed
  have 2: "buried u d2" by (rule delete_body_buries [OF body dist1])
  let ?rest = "if_asked (ban \<and> peer_id p \<noteq> []) (syncDeviceBans E a [peer_id p] []) (\<lambda>bn.
           if_asked (rel \<and> peer_id p \<noteq> []) (releaseDeviceId E a (peer_id p)) (\<lambda>rl.
           if enforced_in bn \<or> (rel \<and> peer_id p \<noteq> [])
           then db_write (patch_tombstone u (enforced_in bn) (rel \<and> peer_id p \<noteq> []) (enforced_in rl))
             (return (Report (deletion_reply bn rl)))
           else return (Report (deletion_reply bn rl))))"
  have "d = snd (alone ?rest d2)"
    using run acc body by (simp add: deleteDevice_def rolled_back_def Let_def)
  moreover have "preserves (buried u) ?rest"
    by (intro graves.if_asked_keep graves.syncDeviceBans_keep graves.releaseDeviceId_keep preserves_if preserves_write
        graves.patch preserves_return)
  ultimately show ?thesis using preserves_alone [of "buried u", OF _ 2] by simp
qed

lemma buried_elsewhere: "elsewhere d d' \<Longrightarrow> buried u d' = buried u d"
proof (rule buried_same)
  assume "elsewhere d d'"
  then obtain b where e: "d' = d\<lparr>dx_users := dx_users d', dx_rbac := dx_rbac d', dx_books := dx_books d',
     dx_bans := dx_bans d', dx_registry := dx_registry d', dx_now := dx_now d',
     dx_devices := map (\<lambda>p. p\<lparr>dp_user := b (dp_uuid p)\<rparr>) (dx_devices d)\<rparr>"
    unfolding elsewhere_def by blast
  have "dx_devices d' = map (\<lambda>p. p\<lparr>dp_user := b (dp_uuid p)\<rparr>) (dx_devices d)" "dx_tombstones d' = dx_tombstones d"
    using arg_cong [OF e, of dx_devices] arg_cong [OF e, of dx_tombstones] by simp_all
  then show "dp_uuid ` set (dx_devices d') = dp_uuid ` set (dx_devices d)"
    "tb_uuid ` set (dx_tombstones d') = tb_uuid ` set (dx_tombstones d)"
    by (simp_all add: image_image)
qed

text \<open>
  C9. After a deletion that ran while nothing else was under way, no request that arrives later brings
  the device back: whatever heartbeats, reports and administrators do from then on, in any
  interleaving and together with logins and account changes, its row stays away and its tombstone
  stays, until the tombstone is restored; and (where devices are known by their own key) its
  heartbeats get the empty answer. A heartbeat admitted before the deletion is another matter: it can
  bring the row back (\<open>late_heartbeat_revives\<close> of \<open>Device_Examples\<close>).
\<close>

theorem deleted_device_stays_deleted:
  assumes "alone (serve_device E (By a (DeleteDevice u ban rel))) d0 = (Inr (Report reply), d)"
    and "distinct (map dp_uuid (dx_devices d0))"
    and "reaches_devices E (\<lambda>r. \<forall>b. r \<noteq> By b (RestoreDevice u)) (\<lambda>_. True) d (d', ps)"
  shows "device_at d' u = None \<and> tombstone_at d' u \<noteq> None \<and>
    (\<forall>hb. \<not> ve_clone_isolation E \<and> hb_uuid hb = u \<longrightarrow> fst (alone (serve_device E (Heartbeat hb)) d') = Inr (Beat None))"
proof -
  obtain r1 d1 where g: "consulting (\<lambda>rb. canActivate rb (Some [''devices.delete'']) False (Some a)) d0 = (r1, d1)"
    by fastforce
  have dist1: "distinct (map dp_uuid (dx_devices d1))"
    using consulting_core [OF g] assms(2) by (simp add: same_registry_def)
  have "alone (deleteDevice E u a ban rel (\<lambda>r. return (Report r))) d1 = (Inr (Report reply), d)"
    using assms(1) g by (auto simp: permission_guard_def split: sum.splits)
  then have b: "buried u d" by (rule deletion_buries [OF _ dist1])
  have A: "(\<lambda>r. \<forall>b. r \<noteq> By b (RestoreDevice u)) = admissible E (\<lambda>_. True) (\<lambda>v. v \<noteq> u) (\<lambda>_. True) (\<lambda>_. True)"
  proof
    fix r
    show "(\<forall>b. r \<noteq> By b (RestoreDevice u)) = admissible E (\<lambda>_. True) (\<lambda>v. v \<noteq> u) (\<lambda>_. True) (\<lambda>_. True) r"
    proof (cases r)
      case (By a q)
      then show ?thesis by (cases q) auto
    qed auto
  qed
  have "buried u d'"
    using graves.always [OF assms(3) [unfolded A] b] buried_elsewhere by blast
  then show ?thesis by (auto simp: buried_def handleHeartbeat_def device_key_def admit_heartbeat_def)
qed


subsection \<open>Devices outside every caller's groups\<close>

text \<open>
  A caller without a right over the group \<open>g\<close>: no super administrator, and no permission on devices or
  assignments that is global or includes \<open>g\<close>.
\<close>

definition outsider :: "string option \<Rightarrow> device_db \<Rightarrow> string \<Rightarrow> bool" where
  "outsider g d a \<longleftrightarrow> (\<forall>x. requireSuperAdmin (access_view d) a \<noteq> Inr x) \<and>
     (\<forall>c \<in> device_codes. \<forall>s. requirePermission (access_view d) a c = Inr s \<longrightarrow>
        \<not> ps_global s \<and> (\<forall>x. g = Some x \<longrightarrow> x \<notin> ps_groups s))"

text \<open>What administrators set of a device.\<close>

definition settings :: "device \<Rightarrow> string option \<times> string option \<times> string option \<times> PeerStatus" where
  "settings p = (dp_group p, dp_strategy p, dp_note p, dp_status p)"

definition untouched :: "device \<Rightarrow> (string \<Rightarrow> bool) \<Rightarrow> device_db \<Rightarrow> bool" where
  "untouched p acts d \<longleftrightarrow> dp_uuid p \<in> dp_uuid ` set (dx_devices d) \<and>
     (\<forall>q \<in> set (dx_devices d). dp_uuid q = dp_uuid p \<longrightarrow> settings q = settings p) \<and>
     (\<forall>a. acts a \<longrightarrow> outsider (dp_group p) d a)"

text \<open>Rights depend on accounts, roles and assignments only.\<close>

lemma rights_cong:
  "requirePermission (d\<lparr>device_groups := gs, peers := ps, console_audits := as\<rparr>) a c = requirePermission d a c"
  "requireSuperAdmin (d\<lparr>device_groups := gs, peers := ps, console_audits := as\<rparr>) a = requireSuperAdmin d a"
  by (simp_all add: requirePermission_def requireSuperAdmin_def computePermissionScope_def getCurrentUser_def
      loadUserStatus_def scope_from_grants_def loadEffectiveRoleGrants_def cong: if_cong)

lemma access_view_core:
  assumes "same_accounts d d'"
  shows "\<exists>gs ps as. access_view d' = (access_view d)\<lparr>device_groups := gs, peers := ps, console_audits := as\<rparr>"
proof -
  from assms obtain as where "map rbac_device_user (dx_users d') = map rbac_device_user (dx_users d)"
    "dx_rbac d' = (dx_rbac d)\<lparr>console_audits := as\<rparr>"
    unfolding same_accounts_def by blast
  then have "access_view d' = (access_view d)\<lparr>device_groups := map rbac_group (dx_groups d'),
      peers := map rbac_peer (dx_devices d'), console_audits := as\<rparr>"
    by (simp add: access_view_def)
  then show ?thesis by blast
qed

lemma outsider_core: "same_accounts d d' \<Longrightarrow> outsider g d' a = outsider g d a"
  using access_view_core [of d d'] by (auto simp: outsider_def rights_cong)

lemma outsider_same: "dx_users d' = dx_users d \<Longrightarrow> dx_rbac d' = dx_rbac d \<Longrightarrow> outsider g d' a = outsider g d a"
  by (rule outsider_core) (simp add: same_accountsI)

lemma untouched_change:
  assumes "untouched p acts d" "\<And>q. dp_uuid (f q) = dp_uuid q" "\<And>q. dp_uuid q = dp_uuid p \<Longrightarrow> settings q = settings p \<Longrightarrow> P q \<Longrightarrow> settings (f q) = settings p"
  shows "untouched p acts (change_devices P f d)"
proof -
  have "outsider g (change_devices P f d) a = outsider g d a" for g a
    by (rule outsider_same) (simp_all add: change_devices_def)
  moreover have "settings q = settings p" if "q \<in> set (dx_devices (change_devices P f d))" "dp_uuid q = dp_uuid p" for q
    using that assms by (auto simp: change_devices_def untouched_def split: if_splits)
  ultimately show ?thesis using assms(1) by (simp add: untouched_def change_devices_uuids [OF assms(2)])
qed

lemma reach_settings: "in_reach s q \<longleftrightarrow> ps_global s \<or> (case fst (settings q) of None \<Rightarrow> False | Some g \<Rightarrow> g \<in> ps_groups s)"
  by (simp add: in_reach_def settings_def)

interpretation bystanders: device_frames "untouched p acts" "\<lambda>s. \<not> in_reach s p" False "\<lambda>v. v \<noteq> dp_uuid p" "\<lambda>v. v \<noteq> dp_uuid p"
    "\<lambda>_. True" "\<lambda>g. dp_strategy p \<noteq> Some g" acts
  for p acts
proof unfold_locales
  fix d d' assume u: "untouched p acts d" and c: "same_registry d d'"
  then have "outsider g d' a = outsider g d a" for g a by (intro outsider_core) (simp add: same_registry_def)
  with u c show "untouched p acts d'" by (simp add: untouched_def same_registry_def)
next
  fix d P up assume "untouched p acts d"
  then show "untouched p acts (change_devices P (apply_report up) d)"
    by (rule untouched_change) (simp_all add: apply_report_def settings_def)
next
  fix d d' v assume "untouched p acts d" "device_at d v = None"
  then show "v \<noteq> dp_uuid p" by (auto simp: untouched_def device_at_None)
next
  fix d and q :: device assume u: "untouched p acts d" and n: "dp_uuid q \<noteq> dp_uuid p"
  have "outsider g (save_device q d) a = outsider g d a" for g a
    by (rule outsider_same) (simp_all add: save_device_def)
  moreover have "{r \<in> set (dx_devices (save_device q d)). dp_uuid r = dp_uuid p} = {r \<in> set (dx_devices d). dp_uuid r = dp_uuid p}"
    using save_device_rows [OF n, of d] by (metis set_filter)
  ultimately show "untouched p acts (save_device q d)"
    using u unfolding untouched_def by (auto simp: set_eq_iff image_iff)
next
  fix d a c s assume "untouched p acts d" "acts a" "c \<in> device_codes" "requirePermission (access_view d) a c = Inr s"
  then show "\<not> in_reach s p" by (auto simp: untouched_def outsider_def in_reach_def split: option.splits)
next
  fix d a x assume "untouched p acts d" "acts a" "requireSuperAdmin (access_view d) a = Inr x"
  then show False by (auto simp: untouched_def outsider_def)
next
  fix d Q s and f :: "device \<Rightarrow> device"
  assume u: "untouched p acts d" and n: "\<not> in_reach s p" and f: "\<And>q. dp_uuid (f q) = dp_uuid q"
  show "untouched p acts (change_devices (\<lambda>q. Q q \<and> in_reach s q) f d)"
    by (rule untouched_change [OF u f]) (use n in \<open>simp add: reach_settings\<close>)
next
  fix d Q s assume u: "untouched p acts d" and n: "\<not> in_reach s p"
  have o: "outsider g (remove_devices (\<lambda>q. Q q \<and> in_reach s q) d) a = outsider g d a" for g a
    by (rule outsider_same) (simp_all add: remove_devices_def)
  have "\<not> in_reach s q" if "q \<in> set (dx_devices d)" "dp_uuid q = dp_uuid p" for q
    using u n that by (auto simp: untouched_def reach_settings)
  then have "{r \<in> set (dx_devices (remove_devices (\<lambda>q. Q q \<and> in_reach s q) d)). dp_uuid r = dp_uuid p} =
      {r \<in> set (dx_devices d). dp_uuid r = dp_uuid p}"
    by (auto simp: remove_devices_def)
  with u o show "untouched p acts (remove_devices (\<lambda>q. Q q \<and> in_reach s q) d)"
    unfolding untouched_def by (auto simp: set_eq_iff image_iff)
next
  fix d v and f :: "device \<Rightarrow> device"
  assume "untouched p acts d" "v \<noteq> dp_uuid p" "\<And>q. dp_uuid (f q) = dp_uuid q"
  then show "untouched p acts (change_devices (\<lambda>q. dp_uuid q = v) f d)" by (intro untouched_change) simp_all
next
  fix d g assume u: "untouched p acts d" and g: "dp_strategy p \<noteq> Some g"
  have "outsider h (remove_strategy g d) a = outsider h d a" for h a
    by (rule outsider_core, rule same_accountsI) (simp_all add: remove_strategy_def rbac_device_user_def)
  with u g show "untouched p acts (remove_strategy g d)"
    unfolding untouched_def by (auto simp: remove_strategy_def image_image settings_def without_def)
qed (auto simp: untouched_def put_tombstone_def patch_tombstone_def drop_tombstone_def
    outsider_same [of "d\<lparr>dx_tombstones := ts\<rparr>" d for d ts])

text \<open>
  C40. Callers without a right over the group of a device leave it alone: in every interleaving of their
  requests with the reports of other devices and with whatever else happens (as long as nobody gives
  one of them such a right), the device stays registered, in its group, with its strategy, note and
  status. Deleting its very strategy is a right of its own and left out.
\<close>

theorem outsiders_leave_devices_alone:
  assumes "device_at d u = Some p" and "distinct (map dp_uuid (dx_devices d))"
    and "\<forall>a. acts a \<longrightarrow> outsider (dp_group p) d a"
    and "reaches_devices E (admissible E (\<lambda>v. v \<noteq> u) (\<lambda>_. True) (\<lambda>g. dp_strategy p \<noteq> Some g) acts)
      (\<lambda>d'. \<forall>a. acts a \<longrightarrow> outsider (dp_group p) d' a) d (d', ps)"
  shows "\<exists>q. device_at d' u = Some q \<and> settings q = settings p"
proof -
  from device_at_Some [OF assms(1)] have p: "p \<in> set (dx_devices d)" "dp_uuid p = u" by auto
  have "untouched p acts d"
    using p assms(2,3) by (auto simp: untouched_def distinct_map dest: inj_onD)
  moreover have "untouched p acts d2"
    if "untouched p acts d1" "elsewhere d1 d2" "\<forall>a. acts a \<longrightarrow> outsider (dp_group p) d2 a" for d1 d2
  proof -
    from that(2) obtain b where "d2 = d1\<lparr>dx_users := dx_users d2, dx_rbac := dx_rbac d2, dx_books := dx_books d2,
        dx_bans := dx_bans d2, dx_registry := dx_registry d2, dx_now := dx_now d2,
        dx_devices := map (\<lambda>p. p\<lparr>dp_user := b (dp_uuid p)\<rparr>) (dx_devices d1)\<rparr>"
      unfolding elsewhere_def by blast
    from arg_cong [OF this, of dx_devices] have "dx_devices d2 = map (\<lambda>p. p\<lparr>dp_user := b (dp_uuid p)\<rparr>) (dx_devices d1)" by simp
    with that(1,3) show ?thesis by (auto simp: untouched_def image_image settings_def)
  qed
  ultimately have u: "untouched p acts d'"
    using bystanders.always [OF assms(4) [folded p(2)]] by blast
  then obtain q where "device_at d' u = Some q" using p(2) device_at_None [of d' u] by (auto simp: untouched_def)
  with u device_at_Some [of d' u q] p(2) show ?thesis by (auto simp: untouched_def)
qed

end
