(* ===== verification/Device_Buffer.thy ===== *)
theory Device_Buffer
  imports Device_Requests
begin

text \<open>
  The buffer in front of the database (\<open>heartbeat-cache.service.ts\<close>): a flush writes what has been
  heard, or puts it back; whatever is heard meanwhile counts. And what one bad report does to it.
\<close>

subsection \<open>What is heard and what is seen\<close>

text \<open>What a heartbeat of a known device leaves in memory.\<close>

definition heard :: "string \<times> peer_update \<times> reported list option \<Rightarrow> device_db \<Rightarrow> device_db" where
  "heard = (\<lambda>(u, b, cs) d. take_conns u cs (bufferPeerUpdate u b d))"

text \<open>The connections and the columns of a device that the buffer and the tables show together.\<close>

definition seen_conns :: "device_db \<Rightarrow> string \<Rightarrow> reported set" where
  "seen_conns d u = (case getBufferedConns d u of Some cs \<Rightarrow> set cs | None \<Rightarrow> Some ` set (stored_conns d u))"

definition columns :: "device \<Rightarrow> string \<times> int \<times> int \<times> int option" where
  "columns p = (dp_id p, dp_ver p, dp_modified p, dp_heartbeat p)"

definition reported_columns :: "peer_update \<Rightarrow> string \<times> int \<times> int \<times> int option" where
  "reported_columns b = (pu_id b, pu_ver b, pu_modified b, Some (pu_heartbeat b))"

definition seen_columns :: "device_db \<Rightarrow> string \<Rightarrow> (string \<times> int \<times> int \<times> int option) option" where
  "seen_columns d u = (case map_of (dx_peer_buffer d) u of
     Some b \<Rightarrow> Some (reported_columns b) | None \<Rightarrow> map_option columns (device_at d u))"

definition latest_conns :: "string \<Rightarrow> (string \<times> peer_update \<times> reported list option) list \<Rightarrow> reported set \<Rightarrow> reported set" where
  "latest_conns u rs s = fold (\<lambda>(v, b, c) s. if v = u then (case c of None \<Rightarrow> s | Some c \<Rightarrow> set c) else s) rs s"

definition latest_columns ::
  "string \<Rightarrow> (string \<times> peer_update \<times> reported list option) list \<Rightarrow>
   (string \<times> int \<times> int \<times> int option) option \<Rightarrow> (string \<times> int \<times> int \<times> int option) option" where
  "latest_columns u rs s = fold (\<lambda>(v, b, c) s. if v = u then Some (reported_columns b) else s) rs s"

text \<open>Each device has one entry in a buffer.\<close>

definition buffers_ok :: "device_db \<Rightarrow> bool" where
  "buffers_ok d \<longleftrightarrow> distinct (map fst (dx_peer_buffer d)) \<and> distinct (map fst (dx_conns_buffer d)) \<and>
     \<not> dx_flushing d \<and> dx_flushing_conns d = []"

subsection \<open>Hearing\<close>

text \<open>What is heard changes the buffers and the disconnect commands, and nothing else.\<close>

lemma take_conns_rest:
  "dx_peer_buffer (take_conns u cs d) = dx_peer_buffer d" "dx_devices (take_conns u cs d) = dx_devices d"
  "dx_conns (take_conns u cs d) = dx_conns d" "dx_flushing_conns (take_conns u cs d) = dx_flushing_conns d"
  "dx_conns_buffer (take_conns u cs d) = (case cs of None \<Rightarrow> dx_conns_buffer d | Some c \<Rightarrow> AList.update u c (dx_conns_buffer d))"
  by (simp_all add: take_conns_def removeDisconnected_def bufferConns_def Let_def split: option.split)

lemma heard_rest:
  "dx_devices (fold heard rs d) = dx_devices d \<and> dx_conns (fold heard rs d) = dx_conns d \<and>
   dx_flushing_conns (fold heard rs d) = dx_flushing_conns d"
  by (induction rs arbitrary: d) (auto simp: heard_def take_conns_rest bufferPeerUpdate_def)

definition heard_conns :: "string \<Rightarrow> (string \<times> peer_update \<times> reported list option) list \<Rightarrow> reported list option \<Rightarrow> reported list option" where
  "heard_conns u rs s = fold (\<lambda>(v, b, c) s. if v = u \<and> c \<noteq> None then c else s) rs s"

definition heard_update :: "string \<Rightarrow> (string \<times> peer_update \<times> reported list option) list \<Rightarrow> peer_update option \<Rightarrow> peer_update option" where
  "heard_update u rs s = fold (\<lambda>(v, b, c) s. if v = u then Some b else s) rs s"

lemma heard_buffers:
  "map_of (dx_conns_buffer (fold heard rs d)) u = heard_conns u rs (map_of (dx_conns_buffer d) u)"
  "map_of (dx_peer_buffer (fold heard rs d)) u = heard_update u rs (map_of (dx_peer_buffer d) u)"
  by (induction rs arbitrary: d)
    (auto simp: heard_def take_conns_rest bufferPeerUpdate_def heard_conns_def heard_update_def update_conv'
      split: option.splits)

lemma heard_none: "heard_conns u rs (Some c) = Some (case heard_conns u rs None of None \<Rightarrow> c | Some c' \<Rightarrow> c')"
  "heard_update u rs (Some b) = Some (case heard_update u rs None of None \<Rightarrow> b | Some b' \<Rightarrow> b')"
proof -
  have "heard_conns u rs (Some c) = Some (case heard_conns u rs None of None \<Rightarrow> c | Some c' \<Rightarrow> c') \<and>
      (\<forall>c'. heard_conns u rs (Some c') \<noteq> None)" for c
    by (induction rs rule: rev_induct) (auto simp: heard_conns_def split: option.splits)
  then show "heard_conns u rs (Some c) = Some (case heard_conns u rs None of None \<Rightarrow> c | Some c' \<Rightarrow> c')" by blast
  show "heard_update u rs (Some b) = Some (case heard_update u rs None of None \<Rightarrow> b | Some b' \<Rightarrow> b')"
    by (induction rs rule: rev_induct) (auto simp: heard_update_def split: option.splits)
qed

lemma heard_append: "heard_conns u (xs @ ys) s = heard_conns u ys (heard_conns u xs s)"
  "heard_update u (xs @ ys) t = heard_update u ys (heard_update u xs t)"
  by (simp_all add: heard_conns_def heard_update_def)

lemma latest_heard_conns: "latest_conns u rs s = (case heard_conns u rs None of None \<Rightarrow> s | Some c \<Rightarrow> set c)"
proof (induction rs rule: rev_induct)
  case (snoc x rs)
  obtain v b c where "x = (v, b, c)" by (cases x)
  with snoc show ?case by (cases c) (simp_all add: latest_conns_def heard_conns_def)
qed (simp add: latest_conns_def heard_conns_def)

lemma latest_heard_columns:
  "latest_columns u rs t = (case heard_update u rs None of None \<Rightarrow> t | Some b \<Rightarrow> Some (reported_columns b))"
proof (induction rs rule: rev_induct)
  case (snoc x rs)
  obtain v b c where "x = (v, b, c)" by (cases x)
  with snoc show ?case by (simp add: latest_columns_def heard_update_def)
qed (simp add: latest_columns_def heard_update_def)

subsection \<open>The transaction\<close>

lemma stored_set: "x \<in> set (stored_conns d u) \<longleftrightarrow> \<lparr>cn_device = u, cn_id = x\<rparr> \<in> set (dx_conns d)"
proof
  assume "x \<in> set (stored_conns d u)"
  then obtain c where c: "c \<in> set (dx_conns d)" "cn_device c = u" "cn_id c = x" by (auto simp: stored_conns_def)
  from c(2,3) have "c = \<lparr>cn_device = u, cn_id = x\<rparr>" by (cases c) simp
  then show "\<lparr>cn_device = u, cn_id = x\<rparr> \<in> set (dx_conns d)" using c(1) by (rule subst)
qed (force simp: stored_conns_def)

lemma sync_success:
  assumes "syncConnectionsWithManager v cs d = (Inr x, d')"
  shows "Some ` set (stored_conns d' u) = (if u = v then set cs else Some ` set (stored_conns d u))"
    and "dx_devices d' = dx_devices d" and "None \<notin> set cs"
proof -
  let ?old = "stored_conns d v"
  have none: "None \<notin> set (filter (\<lambda>c. c \<notin> Some ` set ?old) cs)"
    and d': "d' = d\<lparr>dx_conns := filter (\<lambda>c. cn_device c \<noteq> v \<or> Some (cn_id c) \<in> set cs) (dx_conns d) @
       map (\<lambda>c. \<lparr>cn_device = v, cn_id = the c\<rparr>) (filter (\<lambda>c. c \<notin> Some ` set ?old) cs)\<rparr>"
    using assms by (auto simp: syncConnectionsWithManager_def Let_def split: if_splits)
  then show cs: "None \<notin> set cs" and "dx_devices d' = dx_devices d" by auto
  have "x \<in> set (stored_conns d' u) \<longleftrightarrow> (if u = v then Some x \<in> set cs else x \<in> set (stored_conns d u))" for x
    using cs by (auto simp: stored_set d' image_iff) (metis option.collapse)+
  then show "Some ` set (stored_conns d' u) = (if u = v then set cs else Some ` set (stored_conns d u))"
    using cs by (auto simp: image_iff) (metis option.exhaust)
qed

lemma flush_conns_success:
  assumes "for_each flush_conns cs d = (Inr x, d')" "distinct (map fst cs)"
  shows "Some ` set (stored_conns d' u) = (case map_of cs u of
       Some c \<Rightarrow> if device_at d u = None then Some ` set (stored_conns d u) else set c
     | None \<Rightarrow> Some ` set (stored_conns d u)) \<and> dx_devices d' = dx_devices d"
  using assms
proof (induction cs arbitrary: d)
  case (Cons c cs)
  obtain v l where c: "c = (v, l)" by (cases c)
  from Cons.prems obtain y d1 where 1: "flush_conns (v, l) d = (Inr y, d1)" and 2: "for_each flush_conns cs d1 = (Inr x, d')"
    by (auto simp: sbind_Inr_iff c simp del: sbind_simps)
  have v: "map_of cs v = None" using Cons.prems(2) by (simp add: c map_of_eq_None_iff)
  have d1: "dx_devices d1 = dx_devices d" "Some ` set (stored_conns d1 u) =
      (if u = v \<and> device_at d v \<noteq> None then set l else Some ` set (stored_conns d u))"
    using 1 by (auto simp: flush_conns_def sync_success split: if_splits)
  have dev: "device_at d1 u = device_at d u" using d1 by (simp add: device_at_def)
  have IH: "Some ` set (stored_conns d' u) = (case map_of cs u of
       Some c \<Rightarrow> if device_at d1 u = None then Some ` set (stored_conns d1 u) else set c
     | None \<Rightarrow> Some ` set (stored_conns d1 u)) \<and> dx_devices d' = dx_devices d1"
    using Cons.IH [OF 2] Cons.prems(2) by simp
  show ?case
  proof (cases "u = v")
    case True
    then show ?thesis using IH d1 v by (simp add: c)
  next
    case False
    then show ?thesis using IH d1 dev by (cases "map_of cs u") (simp_all add: c)
  qed
qed simp


lemma flush_peers_rest:
  "dx_conns (fold flush_peer ps d) = dx_conns d" "dx_peer_buffer (fold flush_peer ps d) = dx_peer_buffer d"
  "dx_conns_buffer (fold flush_peer ps d) = dx_conns_buffer d" "dx_flushing_conns (fold flush_peer ps d) = dx_flushing_conns d"
  by (induction ps arbitrary: d) (auto simp: flush_peer_def change_devices_def)

lemma find_map_if:
  "(\<And>p. dp_uuid (f p) = dp_uuid p) \<Longrightarrow>
   find (\<lambda>p. dp_uuid p = u) (map (\<lambda>p. if dp_uuid p = v then f p else p) xs) =
     map_option (if u = v then f else id) (find (\<lambda>p. dp_uuid p = u) xs)"
  by (induction xs) auto

lemma flush_peer_at: "device_at (flush_peer (v, b) d) u = map_option (if u = v then apply_report b else id) (device_at d u)"
  by (simp add: flush_peer_def device_at_def change_devices_def find_map_if apply_report_def)

lemma flush_peers_at:
  "distinct (map fst ps) \<Longrightarrow> map_option columns (device_at (fold flush_peer ps d) u) =
     (case map_of ps u of None \<Rightarrow> map_option columns (device_at d u)
      | Some b \<Rightarrow> map_option (\<lambda>_. reported_columns b) (device_at d u))"
proof (induction ps arbitrary: d)
  case (Cons x ps)
  obtain v b where x: "x = (v, b)" by (cases x)
  have c: "columns (apply_report b p) = reported_columns b" for p
    by (simp add: columns_def apply_report_def reported_columns_def)
  have v: "map_of ps v = None" using Cons.prems by (simp add: x map_of_eq_None_iff)
  show ?case
    using Cons.IH [of "flush_peer x d"] Cons.prems v
    by (cases "u = v"; cases "map_of ps u") (simp_all add: x flush_peer_at option.map_comp o_def c)
qed simp

lemma flush_peers_known: "device_at (fold flush_peer ps d) u = None \<longleftrightarrow> device_at d u = None"
  by (induction ps arbitrary: d) (auto simp: flush_peer_at)

lemma flush_conns_buffers:
  assumes "for_each flush_conns cs d = (r, d')"
  shows "dx_peer_buffer d' = dx_peer_buffer d \<and> dx_conns_buffer d' = dx_conns_buffer d \<and> dx_flushing_conns d' = dx_flushing_conns d"
proof -
  let ?R = "\<lambda>d d'. dx_peer_buffer d' = dx_peer_buffer d \<and> dx_conns_buffer d' = dx_conns_buffer d \<and> dx_flushing_conns d' = dx_flushing_conns d"
  have "abides ?R (for_each flush_conns cs)"
  proof (rule abides_for_each)
    show "abides ?R (flush_conns x)" for x
      by (auto simp: abides_def flush_conns_def syncConnectionsWithManager_def Let_def case_prod_beta)
  qed (auto intro: reflpI transpI)
  from abidesD [OF this assms] show ?thesis .
qed

lemma flush_body_success:
  assumes "flush_body ok ps cs d = (Inr x, d')" "distinct (map fst ps)" "distinct (map fst cs)"
  shows "Some ` set (stored_conns d' u) = (case map_of cs u of
       Some c \<Rightarrow> if device_at d u = None then Some ` set (stored_conns d u) else set c
     | None \<Rightarrow> Some ` set (stored_conns d u))"
    and "map_option columns (device_at d' u) = (case map_of ps u of None \<Rightarrow> map_option columns (device_at d u)
      | Some b \<Rightarrow> map_option (\<lambda>_. reported_columns b) (device_at d u))"
    and "dx_peer_buffer d' = dx_peer_buffer d" "dx_conns_buffer d' = dx_conns_buffer d" "dx_flushing_conns d' = dx_flushing_conns d"
proof -
  from assms(1) obtain y where y: "for_each flush_conns cs (fold flush_peer ps d) = (Inr y, d')"
    by (auto simp: flush_body_def op_success simp del: sbind_simps)
  from flush_conns_success [OF y assms(3), of u] flush_peers_known [of ps d u]
  show "Some ` set (stored_conns d' u) = (case map_of cs u of
       Some c \<Rightarrow> if device_at d u = None then Some ` set (stored_conns d u) else set c
     | None \<Rightarrow> Some ` set (stored_conns d u))"
    by (simp add: stored_conns_def flush_peers_rest cong: option.case_cong if_cong)
  from flush_conns_success [OF y assms(3)] have "dx_devices d' = dx_devices (fold flush_peer ps d)" by blast
  then have "device_at d' u = device_at (fold flush_peer ps d) u" by (simp add: device_at_def)
  with flush_peers_at [OF assms(2)]
  show "map_option columns (device_at d' u) = (case map_of ps u of None \<Rightarrow> map_option columns (device_at d u)
      | Some b \<Rightarrow> map_option (\<lambda>_. reported_columns b) (device_at d u))" by simp
  show "dx_peer_buffer d' = dx_peer_buffer d" "dx_conns_buffer d' = dx_conns_buffer d" "dx_flushing_conns d' = dx_flushing_conns d"
    using flush_conns_buffers [OF y] by (simp_all add: flush_peers_rest)
qed

subsection \<open>A flush\<close>

lemma map_of_put_back:
  "distinct (map fst old) \<Longrightarrow> map_of (put_back old b) u = (case map_of b u of Some x \<Rightarrow> Some x | None \<Rightarrow> map_of old u)"
proof (induction old arbitrary: b)
  case (Cons x old)
  obtain v y where x: "x = (v, y)" by (cases x)
  have "map_of old v = None" using Cons.prems by (simp add: x map_of_eq_None_iff)
  then show ?case
    using Cons.IH [of "if map_of b v = None then AList.update v y b else b"] Cons.prems
    by (auto simp: put_back_def x update_conv' split: option.splits)
qed (simp add: put_back_def split: option.split)

text \<open>What the flush took, and what came after it, one entry on top of the other.\<close>

lemma begin_flush_took:
  assumes "begin_flush d = (Some (ps, cs), d')"
  shows "ps = dx_peer_buffer d" "cs = dx_conns_buffer d"
    "d' = d\<lparr>dx_flushing := True, dx_flushing_conns := cs, dx_peer_buffer := [], dx_conns_buffer := []\<rparr>"
  using assms by (auto simp: begin_flush_def split: if_splits)

definition on_top :: "'x option \<Rightarrow> 'x option \<Rightarrow> 'x option" where
  "on_top new old = (case new of None \<Rightarrow> old | Some x \<Rightarrow> Some x)"

lemma heard_on_top:
  "heard_conns u rs s = on_top (heard_conns u rs None) s" "heard_update u rs t = on_top (heard_update u rs None) t"
  by (cases s; simp add: on_top_def heard_none split: option.split)
    (cases t; simp add: on_top_def heard_none split: option.split)

lemma end_flush_buffers:
  assumes "distinct (map fst ps)" "distinct (map fst cs)"
  shows "map_of (dx_peer_buffer (end_flush r ps cs d)) u =
      on_top (map_of (dx_peer_buffer d) u) (case r of Inl _ \<Rightarrow> map_of ps u | Inr _ \<Rightarrow> None)"
    and "getBufferedConns (end_flush r ps cs d) u =
      on_top (map_of (dx_conns_buffer d) u) (case r of Inl _ \<Rightarrow> map_of cs u | Inr _ \<Rightarrow> None)"
    and "dx_devices (end_flush r ps cs d) = dx_devices d" "dx_conns (end_flush r ps cs d) = dx_conns d"
  using assms
  by (auto simp: end_flush_def Let_def map_of_put_back on_top_def getBufferedConns_def split: sum.split option.split)

text \<open>The state after the transaction, whether it was taken or not.\<close>

lemma transaction_outcome:
  assumes r: "rolled_back (flush_body ok ps cs) d = (r, d')"
    and d: "distinct (map fst ps)" "distinct (map fst cs)" and known: "device_at d u \<noteq> None"
  shows "dx_peer_buffer d' = dx_peer_buffer d" "dx_conns_buffer d' = dx_conns_buffer d"
    and "Some ` set (stored_conns d' u) = (case (r, map_of cs u) of
      (Inr _, Some c) \<Rightarrow> set c | _ \<Rightarrow> Some ` set (stored_conns d u))"
    and "map_option columns (device_at d' u) = (case (r, map_of ps u) of
      (Inr _, Some b) \<Rightarrow> Some (reported_columns b) | _ \<Rightarrow> map_option columns (device_at d u))"
proof -
  obtain p where p: "device_at d u = Some p" using known by blast
  have "dx_peer_buffer d' = dx_peer_buffer d \<and> dx_conns_buffer d' = dx_conns_buffer d \<and>
      Some ` set (stored_conns d' u) = (case (r, map_of cs u) of
        (Inr _, Some c) \<Rightarrow> set c | _ \<Rightarrow> Some ` set (stored_conns d u)) \<and>
      map_option columns (device_at d' u) = (case (r, map_of ps u) of
        (Inr _, Some b) \<Rightarrow> Some (reported_columns b) | _ \<Rightarrow> map_option columns (device_at d u))"
  proof (cases r)
    case (Inl e)
    then have "d' = d\<lparr>dx_rbac := dx_rbac (snd (flush_body ok ps cs d))\<rparr>"
      using r by (auto simp: rolled_back_def split: prod.splits sum.splits)
    then show ?thesis by (simp add: Inl stored_conns_def device_at_def)
  next
    case (Inr x)
    then have "flush_body ok ps cs d = (Inr x, d')"
      using r by (auto simp: rolled_back_def split: prod.splits sum.splits)
    from flush_body_success(1,2) [OF this d, of u] flush_body_success(3,4) [OF this d] show ?thesis
      by (simp add: Inr p split: option.split)
  qed
  then show "dx_peer_buffer d' = dx_peer_buffer d" "dx_conns_buffer d' = dx_conns_buffer d"
    "Some ` set (stored_conns d' u) = (case (r, map_of cs u) of
      (Inr _, Some c) \<Rightarrow> set c | _ \<Rightarrow> Some ` set (stored_conns d u))"
    "map_option columns (device_at d' u) = (case (r, map_of ps u) of
      (Inr _, Some b) \<Rightarrow> Some (reported_columns b) | _ \<Rightarrow> map_option columns (device_at d u))"
    by blast+
qed

text \<open>
  A flush loses nothing: it takes the buffers, reports of known devices come in before its transaction
  (\<open>before\<close>) and between the transaction and its end (\<open>after\<close>), and at its end every known device shows, in the
  buffer and the tables together, the connections and the columns of its last report, or what it showed
  before the flush if it reported nothing, whether the transaction was taken or refused.
\<close>

theorem flush_loses_nothing:
  assumes "buffers_ok d" "device_at d u \<noteq> None" "begin_flush d = (Some (ps, cs), d1)"
    "rolled_back (flush_body ok ps cs) (fold heard before d1) = (r, d2)"
  shows "seen_conns (end_flush r ps cs (fold heard after d2)) u = latest_conns u (before @ after) (seen_conns d u) \<and>
    seen_columns (end_flush r ps cs (fold heard after d2)) u = latest_columns u (before @ after) (seen_columns d u)"
proof -
  note took = begin_flush_took [OF assms(3)]
  have dist: "distinct (map fst ps)" "distinct (map fst cs)" and none: "dx_flushing_conns d = []"
    using assms(1) by (simp_all add: buffers_ok_def took)
  let ?h = "fold heard before d1"
  have h: "dx_devices ?h = dx_devices d" "dx_conns ?h = dx_conns d" using heard_rest [of before d1] by (simp_all add: took(3))
  have known: "device_at ?h u \<noteq> None" using assms(2) h by (simp add: device_at_def)
  note out = transaction_outcome [OF assms(4) dist known]
  have rows: "dx_devices (fold heard after d2) = dx_devices d2" "dx_conns (fold heard after d2) = dx_conns d2"
    using heard_rest [of after d2] by simp_all
  have buffers: "map_of (dx_conns_buffer d2) u = heard_conns u before None" "map_of (dx_peer_buffer d2) u = heard_update u before None"
    by (simp_all add: out heard_buffers took(3))
  let ?e = "end_flush r ps cs (fold heard after d2)"
  have conns: "getBufferedConns ?e u = on_top (heard_conns u (before @ after) None) (case r of Inl _ \<Rightarrow> map_of cs u | Inr _ \<Rightarrow> None)"
    by (simp add: end_flush_buffers [OF dist] heard_buffers buffers heard_append)
  have updates: "map_of (dx_peer_buffer ?e) u = on_top (heard_update u (before @ after) None) (case r of Inl _ \<Rightarrow> map_of ps u | Inr _ \<Rightarrow> None)"
    by (simp add: end_flush_buffers [OF dist] heard_buffers buffers heard_append)
  have stored: "stored_conns ?e u = stored_conns d2 u" "stored_conns ?h u = stored_conns d u" "device_at ?e u = device_at d2 u" "device_at ?h u = device_at d u"
    by (simp_all add: stored_conns_def device_at_def end_flush_buffers [OF dist] rows h)
  have was: "getBufferedConns d u = map_of cs u" by (simp add: getBufferedConns_def none took split: option.split)
  have "seen_conns ?e u = latest_conns u (before @ after) (seen_conns d u)"
    by (simp add: seen_conns_def latest_heard_conns conns was stored out on_top_def split: option.split sum.split)
  moreover have "seen_columns ?e u = latest_columns u (before @ after) (seen_columns d u)"
    by (simp add: seen_columns_def latest_heard_columns updates stored out on_top_def took(1)[symmetric] split: option.split sum.split)
  ultimately show ?thesis by blast
qed

subsection \<open>A report that cannot be stored\<close>

text \<open>The rows are those of \<open>d0\<close>, and the entry of \<open>u\<close> holds something that is no number.\<close>

definition jammed :: "string \<Rightarrow> reported list \<Rightarrow> device_db \<Rightarrow> device_db \<Rightarrow> bool" where
  "jammed u c d0 d \<longleftrightarrow> buffers_ok d \<and> dx_devices d = dx_devices d0 \<and> dx_conns d = dx_conns d0 \<and>
     map_of (dx_conns_buffer d) u = Some c"

lemma put_back_empty: "distinct (map fst old) \<Longrightarrow> put_back old [] = old"
proof -
  have "distinct (map fst (b @ old)) \<Longrightarrow> put_back old b = b @ old" for b
  proof (induction old arbitrary: b)
    case (Cons x old)
    have "AList.update (fst x) (snd x) b = b @ [x]" if "fst x \<notin> fst ` set b"
      using that by (induction b) auto
    with Cons show ?case
      using Cons.IH [of "b @ [x]"] by (cases x) (auto simp: put_back_def map_of_eq_None_iff)
  qed (simp add: put_back_def)
  from this [of "[]"] show "distinct (map fst old) \<Longrightarrow> put_back old [] = old" by simp
qed

lemma bad_entry_refused:
  assumes "map_of cs u = Some c" "None \<in> set c" "device_at d u \<noteq> None"
    and "distinct (map fst ps)" "distinct (map fst cs)"
  shows "\<exists>e d'. flush_body ok ps cs d = (Inl e, d')"
proof (rule ccontr)
  assume "\<not> (\<exists>e d'. flush_body ok ps cs d = (Inl e, d'))"
  then obtain x d' where "flush_body ok ps cs d = (Inr x, d')" by (metis prod.exhaust sum.exhaust)
  from flush_body_success(1) [OF this assms(4,5), of u] assms(1,3) have "Some ` set (stored_conns d' u) = set c" by auto
  with assms(2) show False by auto
qed

lemma flush_jammed:
  assumes J: "jammed u c d0 d" and c: "None \<in> set c" and u: "device_at d0 u \<noteq> None"
  shows "jammed u c d0 (snd (alone (flush ok (return r)) d))"
proof -
  obtain d1 where b: "begin_flush d = (Some (dx_peer_buffer d, dx_conns_buffer d), d1)"
      and d1: "d1 = d\<lparr>dx_flushing := True, dx_flushing_conns := dx_conns_buffer d, dx_peer_buffer := [], dx_conns_buffer := []\<rparr>"
    using J by (cases "dx_conns_buffer d") (auto simp: begin_flush_def jammed_def buffers_ok_def)
  have dist: "distinct (map fst (dx_peer_buffer d))" "distinct (map fst (dx_conns_buffer d))" using J by (simp_all add: jammed_def buffers_ok_def)
  have "device_at d1 u \<noteq> None" using u J by (simp add: d1 jammed_def device_at_def)
  then obtain e d2 where "flush_body ok (dx_peer_buffer d) (dx_conns_buffer d) d1 = (Inl e, d2)"
    using bad_entry_refused [OF _ c _ dist, of u d1 ok] J by (auto simp: jammed_def)
  then have "snd (alone (flush ok (return r)) d) = end_flush (Inl e) (dx_peer_buffer d) (dx_conns_buffer d) (d1\<lparr>dx_rbac := dx_rbac d2\<rparr>)"
    by (simp add: flush_def b rolled_back_def)
  then show ?thesis
    using J dist by (simp add: end_flush_def d1 put_back_empty jammed_def buffers_ok_def)
qed

lemma preserves_findStrategy:
  assumes "\<And>d f g. I d \<Longrightarrow> I (d\<lparr>dx_objects := f, dx_resolved := g\<rparr>)" "\<And>s. preserves I (k s)"
  shows "preserves I (findStrategyForPeer p k)"
proof -
  have "remember_strategy x r d = d\<lparr>dx_objects := dx_objects (remember_strategy x r d), dx_resolved := dx_resolved (remember_strategy x r d)\<rparr>" for x r d
    by (cases r) (simp_all add: remember_strategy_def)
  then have remember: "I (remember_strategy x r d)" if "I d" for x r d
    using assms(1) [OF that] by metis
  then show ?thesis
    unfolding findStrategyForPeer_def resolveStrategyForPeer_def user_strategy_def group_strategy_def look_up_strategy_def
    by (intro preserves_intros assms(2)) (simp_all add: assms(2) remember)
qed

lemma heartbeat_jammed:
  assumes "\<not> ve_clone_isolation E" "hb_uuid hb \<noteq> u" "device_at d0 (hb_uuid hb) \<noteq> None"
  shows "preserves (jammed u c d0) (handleHeartbeat E hb (\<lambda>r. return (Beat r)))"
proof -
  let ?J = "jammed u c d0" and ?v = "hb_uuid hb"
  have find: "preserves ?J (findStrategyForPeer p k)" if "\<And>s. preserves ?J (k s)" for p and k :: "strategy option \<Rightarrow> device_reply dev"
    by (rule preserves_findStrategy) (simp_all add: jammed_def buffers_ok_def that)
  have known: "\<exists>p. device_at d ?v = Some p" if "?J d" for d
    using that assms(3) by (simp add: jammed_def device_at_def)
  have flushing: "dx_flushing (take_conns v cs d) = dx_flushing d" for v cs d
    by (simp add: take_conns_def removeDisconnected_def bufferConns_def Let_def split: option.split)
  have take: "?J (take_conns ?v cs d)" if "?J d" for cs d
    using that assms(2) by (cases cs)
      (simp_all add: jammed_def buffers_ok_def take_conns_rest flushing distinct_update update_conv' del: map_of_eq_Some_iff)
  have buffer: "?J (bufferPeerUpdate ?v b d)" if "?J d" for b d
    using that by (simp add: jammed_def buffers_ok_def bufferPeerUpdate_def distinct_update)
  have "preserves ?J (answer_heartbeat ?v (hb_conns hb) (Some p) (hb_modified hb) (\<lambda>r. return (Beat (Some r))))" for p
    unfolding answer_heartbeat_def resolveStrategy_def Let_def
    by (intro preserves_at_once) (simp_all add: take find preserves_return)
  then have "preserves ?J (in_memory (\<lambda>d. bufferPeerUpdate ?v (received hb d) d)
      (answer_heartbeat ?v (hb_conns hb) (Some p) (hb_modified hb) (\<lambda>r. return (Beat (Some r)))))" for p
    by (intro preserves_in_memory buffer)
  then have "preserves ?J (admit_heartbeat hb ?v (\<lambda>r. return (Beat r)))"
    unfolding admit_heartbeat_def by (intro preserves_read) (auto dest: known)
  then show ?thesis using assms(1) by (simp add: handleHeartbeat_def device_key_def)
qed

text \<open>The background work: scheduled flushes, and heartbeats of devices of the table other than \<open>u\<close>.\<close>

fun background :: "device_db \<Rightarrow> string \<Rightarrow> device_request \<Rightarrow> bool" where
  "background d u (ScheduledFlush allowed ok) = True"
| "background d u (Heartbeat hb) = (hb_uuid hb \<noteq> u \<and> device_at d (hb_uuid hb) \<noteq> None)"
| "background d u _ = False"

lemma background_jammed:
  assumes "\<not> ve_clone_isolation E" "None \<in> set c" "device_at d0 u \<noteq> None" "background d0 u r" "jammed u c d0 d"
  shows "jammed u c d0 (snd (alone (serve_device E r) d))"
proof (cases r)
  case (ScheduledFlush allowed ok)
  then show ?thesis
    using assms(5) by (simp add: handleScheduledFlush_def flush_jammed [OF assms(5,2,3)])
next
  case (Heartbeat hb)
  then have "preserves (jammed u c d0) (serve_device E r)"
    using heartbeat_jammed [OF assms(1)] assms(4) by simp
  then show ?thesis using assms(5) by (rule preserves_alone)
qed (use assms(4) in simp_all)

text \<open>
  One report that cannot be stored blocks the buffer of all devices: once the connections buffered for
  a device of the table hold something that is no number (which the heartbeat endpoint does not check),
  no number of scheduled flushes and of further heartbeats of other devices stores anything, neither
  connections nor the columns of a device, until that device itself reports again.
\<close>

theorem refused_report_blocks_flushes:
  assumes "\<not> ve_clone_isolation E" "buffers_ok d" "device_at d u \<noteq> None" "getBufferedConns d u = Some c" "None \<in> set c"
    and "list_all (background d u) rs"
  shows "dx_devices (serve_devices E rs d) = dx_devices d \<and> dx_conns (serve_devices E rs d) = dx_conns d \<and>
    getBufferedConns (serve_devices E rs d) u = Some c"
proof -
  have "jammed u c d d" using assms(2,4) by (auto simp: jammed_def buffers_ok_def getBufferedConns_def split: option.splits)
  moreover have "jammed u c d (serve_devices E rs d1)" if "jammed u c d d1" for d1
    using assms(6) that
  proof (induction rs arbitrary: d1)
    case (Cons r rs)
    then have "jammed u c d (snd (alone (serve_device E r) d1))"
      using background_jammed [OF assms(1,5,3)] by simp
    with Cons show ?case by (simp add: serve_devices_def serve_all_from_def)
  qed (simp add: serve_devices_def serve_all_from_def)
  ultimately have "jammed u c d (serve_devices E rs d)" by blast
  then show ?thesis
    by (simp add: jammed_def getBufferedConns_def del: map_of_eq_Some_iff)
qed

subsection \<open>Shutdown\<close>

definition storable :: "device_db \<Rightarrow> bool" where
  "storable d \<longleftrightarrow> (\<forall>(u, c) \<in> set (dx_conns_buffer d). device_at d u \<noteq> None \<longrightarrow> None \<notin> set c)"

definition idle :: "device_db \<Rightarrow> bool" where
  "idle d \<longleftrightarrow> dx_peer_buffer d = [] \<and> dx_conns_buffer d = [] \<and> \<not> dx_flushing d \<and> dx_flushing_conns d = []"

lemma flush_conns_devices: "flush_conns x d = (r, d') \<Longrightarrow> dx_devices d' = dx_devices d"
  by (auto simp: flush_conns_def syncConnectionsWithManager_def Let_def case_prod_beta split: if_splits)

lemma flush_conns_ok:
  "\<forall>(u, c) \<in> set cs. device_at d u \<noteq> None \<longrightarrow> None \<notin> set c \<Longrightarrow> \<exists>d'. for_each flush_conns cs d = (Inr (), d')"
proof (induction cs arbitrary: d)
  case (Cons x cs)
  obtain v c where x: "x = (v, c)" by (cases x)
  have "\<exists>d1. flush_conns x d = (Inr (), d1)"
    using Cons.prems by (auto simp: x flush_conns_def syncConnectionsWithManager_def Let_def)
  then obtain d1 where 1: "flush_conns x d = (Inr (), d1)" by blast
  have "\<forall>(u, c) \<in> set cs. device_at d1 u \<noteq> None \<longrightarrow> None \<notin> set c"
    using Cons.prems flush_conns_devices [OF 1] by (simp add: device_at_def)
  from Cons.IH [OF this] 1 show ?case by (auto simp: sbind_Inr_iff)
qed simp

lemma flush_body_ok:
  assumes "\<forall>(u, c) \<in> set cs. device_at d u \<noteq> None \<longrightarrow> None \<notin> set c"
  shows "\<exists>d'. flush_body True ps cs d = (Inr (), d')"
proof -
  have "\<forall>(u, c) \<in> set cs. device_at (fold flush_peer ps d) u \<noteq> None \<longrightarrow> None \<notin> set c"
    using assms by (simp add: flush_peers_known)
  from flush_conns_ok [OF this] obtain d' where "for_each flush_conns cs (fold flush_peer ps d) = (Inr (), d')" ..
  then show ?thesis by (auto simp: flush_body_def sbind_def writing_db_def reading_def)
qed

lemma flush_alone:
  assumes "buffers_ok d" "dx_peer_buffer d \<noteq> [] \<or> dx_conns_buffer d \<noteq> []"
    and "rolled_back (flush_body ok (dx_peer_buffer d) (dx_conns_buffer d)) (snd (begin_flush d)) = (r, d')"
  shows "alone (flush ok k) d = alone k (end_flush r (dx_peer_buffer d) (dx_conns_buffer d) d')"
  using assms by (auto simp: flush_def begin_flush_def buffers_ok_def)

lemma flush_taken:
  assumes "buffers_ok d" "storable d" "dx_peer_buffer d \<noteq> [] \<or> dx_conns_buffer d \<noteq> []"
  shows "\<exists>d'. (\<forall>k :: 'r dev. alone (flush True k) d = alone k d') \<and> idle d' \<and> (\<forall>u. device_at d u \<noteq> None \<longrightarrow>
    Some ` set (stored_conns d' u) = seen_conns d u \<and> map_option columns (device_at d' u) = seen_columns d u)"
proof -
  let ?b = "snd (begin_flush d)" and ?ps = "dx_peer_buffer d" and ?cs = "dx_conns_buffer d"
  have b: "begin_flush d = (Some (?ps, ?cs), ?b)"
    using assms(1,3) by (auto simp: begin_flush_def buffers_ok_def)
  note took = begin_flush_took [OF b]
  have dist: "distinct (map fst ?ps)" "distinct (map fst ?cs)" using assms(1) by (simp_all add: buffers_ok_def)
  have rows: "device_at ?b u = device_at d u" "stored_conns ?b u = stored_conns d u" for u
    by (simp_all add: took(3) device_at_def stored_conns_def)
  from assms(2) obtain d1 where d1: "flush_body True ?ps ?cs ?b = (Inr (), d1)"
    using flush_body_ok [of ?cs ?b ?ps] by (auto simp: storable_def rows)
  let ?d = "end_flush (Inr ()) ?ps ?cs d1"
  note out = flush_body_success [OF d1 dist]
  have "dx_peer_buffer d1 = []" "dx_conns_buffer d1 = []" using out(3,4) by (simp_all add: took(3))
  then have "idle ?d" by (simp add: idle_def end_flush_def)
  moreover have "Some ` set (stored_conns ?d u) = seen_conns d u \<and> map_option columns (device_at ?d u) = seen_columns d u"
    if "device_at d u \<noteq> None" for u
    using out(1,2) [of u] assms(1) that rows [of u]
    by (auto simp: end_flush_def seen_conns_def seen_columns_def getBufferedConns_def buffers_ok_def stored_conns_def
      device_at_def split: option.splits)
  ultimately show ?thesis
    using flush_alone [OF assms(1,3), of True "Inr ()" d1] d1 by (auto simp: rolled_back_def)
qed

lemma flush_refused:
  assumes "buffers_ok d" "dx_peer_buffer d \<noteq> [] \<or> dx_conns_buffer d \<noteq> []"
  shows "\<exists>d'. (\<forall>k :: 'r dev. alone (flush False k) d = alone k d') \<and> buffers_ok d' \<and> dx_devices d' = dx_devices d \<and>
    dx_conns d' = dx_conns d \<and> dx_peer_buffer d' = dx_peer_buffer d \<and> dx_conns_buffer d' = dx_conns_buffer d"
proof -
  let ?b = "snd (begin_flush d)" and ?ps = "dx_peer_buffer d" and ?cs = "dx_conns_buffer d"
  have b: "begin_flush d = (Some (?ps, ?cs), ?b)"
    using assms by (auto simp: begin_flush_def buffers_ok_def)
  note took = begin_flush_took [OF b]
  have "fst (flush_body False ?ps ?cs ?b) \<noteq> Inr x" for x
    by (cases "flush_body False ?ps ?cs ?b") (auto simp: flush_body_def op_success simp del: sbind_simps)
  then obtain e d1 where "flush_body False ?ps ?cs ?b = (Inl e, d1)" by (metis prod.collapse sum.exhaust)
  then have refused: "rolled_back (flush_body False ?ps ?cs) ?b = (Inl e, ?b\<lparr>dx_rbac := dx_rbac d1\<rparr>)" by (simp add: rolled_back_def)
  let ?d = "end_flush (Inl e) ?ps ?cs (?b\<lparr>dx_rbac := dx_rbac d1\<rparr>)"
  have "buffers_ok ?d \<and> dx_devices ?d = dx_devices d \<and> dx_conns ?d = dx_conns d \<and>
      dx_peer_buffer ?d = ?ps \<and> dx_conns_buffer ?d = ?cs"
    using assms(1) by (simp add: took(3) end_flush_def buffers_ok_def put_back_empty)
  with flush_alone [OF assms refused] show ?thesis by blast
qed

lemma last_flushes_idle: "idle d \<Longrightarrow> snd (alone (last_flushes oks (return r)) d) = d"
  by (cases oks) (simp_all add: idle_def Let_def)

lemma last_flushes_store:
  assumes "buffers_ok d" "storable d" "True \<in> set oks" "device_at d u \<noteq> None"
  shows "let d' = snd (alone (last_flushes oks (return r)) d) in idle d' \<and>
    Some ` set (stored_conns d' u) = seen_conns d u \<and> map_option columns (device_at d' u) = seen_columns d u"
  using assms
proof (induction oks arbitrary: d)
  case (Cons ok oks)
  let ?run = "snd (alone (last_flushes (ok # oks) (return r)) d)"
  show ?case
  proof (cases "dx_peer_buffer d = [] \<and> dx_conns_buffer d = []")
    case True
    with Cons.prems(1) have "idle d" by (simp add: idle_def buffers_ok_def)
    then show ?thesis using last_flushes_idle [of d "ok # oks"]
      by (simp add: Let_def idle_def seen_conns_def seen_columns_def getBufferedConns_def)
  next
    case False
    then have some: "dx_peer_buffer d \<noteq> [] \<or> dx_conns_buffer d \<noteq> []" by blast
    have run: "?run = snd (alone (flush ok (last_flushes oks (return r))) d)"
      using False Cons.prems(1) by (auto simp: Let_def buffers_ok_def)
    show ?thesis
    proof (cases ok)
      case True
      from flush_taken [OF Cons.prems(1,2) some] obtain d' where
        "alone (flush True (last_flushes oks (return r))) d = alone (last_flushes oks (return r)) d'" "idle d'"
        "Some ` set (stored_conns d' u) = seen_conns d u \<and> map_option columns (device_at d' u) = seen_columns d u"
        using Cons.prems(4) by blast
      then show ?thesis using run last_flushes_idle [of d' oks r] True by (simp add: Let_def del: last_flushes.simps)
    next
      case False
      from flush_refused [OF Cons.prems(1) some] obtain d' where
        d': "alone (flush False (last_flushes oks (return r))) d = alone (last_flushes oks (return r)) d'" "buffers_ok d'"
        "dx_devices d' = dx_devices d" "dx_conns d' = dx_conns d" "dx_peer_buffer d' = dx_peer_buffer d"
        "dx_conns_buffer d' = dx_conns_buffer d" by blast
      have rows: "device_at d' v = device_at d v" "stored_conns d' v = stored_conns d v" for v
        by (simp_all add: device_at_def stored_conns_def d')
      have none: "dx_flushing_conns d' = []" "dx_flushing_conns d = []" using Cons.prems(1) d'(2) by (simp_all add: buffers_ok_def)
      have same: "storable d'" "device_at d' u = device_at d u" "seen_conns d' u = seen_conns d u" "seen_columns d' u = seen_columns d u"
        using Cons.prems(2)
        by (simp_all add: storable_def seen_conns_def seen_columns_def getBufferedConns_def rows none d' split: option.split)
      from Cons.IH [OF d'(2) same(1)] Cons.prems(3,4) show ?thesis
        using run d'(1) False by (simp add: same del: last_flushes.simps)
    qed
  qed
qed simp

text \<open>
  A shutdown writes the buffers: if one of its three transactions is taken, and no device of the table
  has reported something that is no number, then afterwards nothing is buffered, and the tables show
  for every device the connections and the columns that the buffers and the tables showed before.
\<close>

theorem shutdown_stores_buffers:
  assumes "buffers_ok d" "storable d" "ok1 \<or> ok2 \<or> ok3" "device_at d u \<noteq> None"
    "alone (serve_device E (ShutDown ok1 ok2 ok3)) d = (r, d')"
  shows "dx_peer_buffer d' = [] \<and> dx_conns_buffer d' = [] \<and> Some ` set (stored_conns d' u) = seen_conns d u \<and>
    map_option columns (device_at d' u) = seen_columns d u"
proof -
  have "d' = snd (alone (last_flushes [ok1, ok2, ok3] (return (Done []))) d)"
    using assms(5) by (simp add: onModuleDestroy_cache_def del: last_flushes.simps)
  with last_flushes_store [of d "[ok1, ok2, ok3]" u "Done []"] assms show ?thesis
    by (simp add: Let_def idle_def del: last_flushes.simps)
qed

end
