(* ===== verification/Device_Examples.thy ===== *)
theory Device_Examples
  imports Device_Safety Device_Buffer
begin

text \<open>
  Concrete runs of the services for devices: an administrator, one device, and a server that answers.
  They show the theorems on devices at work, and a run that brings a deleted device back.
\<close>

subsection \<open>Tables\<close>

definition example_device :: "string \<Rightarrow> string \<Rightarrow> device" where
  "example_device u i = \<lparr>dp_uuid = u, dp_id = i, dp_user = None, dp_group = Some ''G'', dp_strategy = None, dp_note = None,
     dp_status = PeerActive, dp_ver = 0, dp_modified = 0, dp_heartbeat = None\<rparr>"

definition example_operator :: "string \<Rightarrow> bool \<Rightarrow> device_user" where
  "example_operator g admin = \<lparr>du_guid = g, du_name = g, du_display = None, du_status = ACTIVE, du_admin = admin,
     du_strategy = None\<rparr>"

definition empty_rbac :: db where
  "empty_rbac = \<lparr>users = [], roles = [], role_permissions = [], assignments = [], assignment_groups = [],
     device_groups = [], peers = [], user_tokens = [], console_audits = []\<rparr>"

definition empty_books :: ab_db where
  "empty_books = \<lparr>ab_books = [], ab_rules = [], ab_tags = [], ab_peers = [], ab_links = [], ab_users = [],
     ab_groups = [], ab_devices = [], ab_sysinfos = []\<rparr>"

definition example_devices :: device_db where
  "example_devices = \<lparr>dx_devices = [example_device ''u'' ''100''],
     dx_groups = [\<lparr>gp_guid = ''G'', gp_name = ''office'', gp_note = None, gp_strategy = None\<rparr>], dx_strategies = [],
     dx_users = [example_operator ''A'' True, example_operator ''B'' False], dx_tombstones = [], dx_sysinfos = [], dx_conns = [],
     dx_books = empty_books, dx_rbac = empty_rbac, dx_objects = [], dx_resolved = [], dx_pending = [],
     dx_peer_buffer = [], dx_conns_buffer = [], dx_flushing_conns = [], dx_flushing = False, dx_bans = [],
     dx_registry = [''100''], dx_fate = (\<lambda>_. Answered), dx_asked = 0, dx_now = 0,
     dx_ids = (\<lambda>n. replicate n CHR ''i''), dx_drawn = 2\<rparr>"

definition example_device_env :: device_env where
  "example_device_env = \<lparr>ve_clone_isolation = False, ve_isolated = (\<lambda>u i. u @ ''/'' @ i), ve_node = ''node'',
     ve_error_text = error_message\<rparr>"

definition beat :: "string \<Rightarrow> reported list option \<Rightarrow> device_request" where
  "beat u cs = Heartbeat \<lparr>hb_id = ''100'', hb_uuid = u, hb_ver = 1, hb_modified = 0, hb_conns = cs\<rparr>"

lemma reaches_device_requests:
  "reaches_devices E A ok d (d1, ps) \<Longrightarrow> list_all A rs \<Longrightarrow> \<exists>ps. reaches_devices E A ok d (serve_devices E rs d1, ps)"
  by (simp add: reaches_devices_def serve_devices_def reaches_served_all)

lemma reaches_devices_start: "reaches_devices E A ok d (d, [])"
  by (simp add: reaches_devices_def reaches_from_start)

subsection \<open>A deleted device\<close>

definition deletion :: "device_reply result \<times> device_db" where
  "deletion = alone (serve_device example_device_env (By ''A'' (DeleteDevice ''u'' True True))) example_devices"

lemma deletion_reply_example: "fst deletion = Inr (Report \<lparr>dr_message = ''Device deleted'', dr_enforcement = Some enforced,
    dr_release = Some (enforced\<lparr>ef_detail := Some
      ''The id is freed from the peer registry, but the protocol ban still blocks it until the device is restored.''\<rparr>)\<rparr>)"
  by code_simp

theorem deleted_device_stays_deleted_witness:
  "\<exists>ps. reaches_devices example_device_env (\<lambda>r. \<forall>b. r \<noteq> By b (RestoreDevice ''u'')) (\<lambda>_. True) (snd deletion)
       (serve_devices example_device_env [beat ''u'' None, beat ''v'' None, beat ''u'' None] (snd deletion), ps) \<and>
     device_at (serve_devices example_device_env [beat ''u'' None, beat ''v'' None, beat ''u'' None] (snd deletion)) ''u'' = None"
proof -
  let ?rs = "[beat ''u'' None, beat ''v'' None, beat ''u'' None]"
  have run: "alone (serve_device example_device_env (By ''A'' (DeleteDevice ''u'' True True))) example_devices =
      (Inr (Report \<lparr>dr_message = ''Device deleted'', dr_enforcement = Some enforced,
        dr_release = Some (enforced\<lparr>ef_detail := Some
          ''The id is freed from the peer registry, but the protocol ban still blocks it until the device is restored.''\<rparr>)\<rparr>), snd deletion)"
    using deletion_reply_example unfolding deletion_def by (metis prod.collapse)
  have all: "list_all (\<lambda>r. \<forall>b. r \<noteq> By b (RestoreDevice ''u'')) ?rs" by (simp add: beat_def)
  obtain ps where r: "reaches_devices example_device_env (\<lambda>r. \<forall>b. r \<noteq> By b (RestoreDevice ''u'')) (\<lambda>_. True) (snd deletion)
      (serve_devices example_device_env ?rs (snd deletion), ps)"
    using reaches_device_requests [OF reaches_devices_start all] by blast
  have "distinct (map dp_uuid (dx_devices example_devices))" by (simp add: example_devices_def)
  with deleted_device_stays_deleted [OF run _ r] r show ?thesis by blast
qed


subsection \<open>An operator of another group\<close>

text \<open>Operator \<open>B\<close> may edit and delete devices in the group \<open>H\<close>; the device \<open>u\<close> is in \<open>G\<close>, the device \<open>w\<close> in \<open>H\<close>.\<close>

definition scoped_devices :: device_db where
  "scoped_devices = example_devices\<lparr>
     dx_devices := [example_device ''u'' ''100'', (example_device ''w'' ''200'')\<lparr>dp_group := Some ''H''\<rparr>],
     dx_rbac := empty_rbac\<lparr>
       roles := [\<lparr>role_guid = ''r'', role_name = ''ops'', role_note = None, role_protected = False\<rparr>],
       role_permissions := map (\<lambda>c. \<lparr>rp_role = ''r'', rp_code = c\<rparr>) [''devices.view'', ''devices.edit'', ''devices.delete''],
       assignments := [\<lparr>as_guid = ''s'', as_user = ''B'', as_role = ''r'', as_scope = ''device_group''\<rparr>],
       assignment_groups := [\<lparr>ag_assignment = ''s'', ag_group = ''H''\<rparr>]\<rparr>\<rparr>"

definition note_dto :: device_dto where
  "note_dto = \<lparr>dd_user = None, dd_group = None, dd_strategy = None, dd_note = Some (Some ''mine'')\<rparr>"

definition operator_run :: "device_request list" where
  "operator_run = [By ''B'' (UpdateDevice ''u'' note_dto), By ''B'' (UpdateDevice ''w'' note_dto),
     By ''B'' (DeleteDevice ''u'' True True), By ''B'' (DeviceStatus [''u''] False)]"

lemma outsider_code [code]:
  "outsider g d a = ((case requireSuperAdmin (access_view d) a of Inl _ \<Rightarrow> True | Inr _ \<Rightarrow> False) \<and>
     (\<forall>c \<in> device_codes. case requirePermission (access_view d) a c of Inl _ \<Rightarrow> True
        | Inr s \<Rightarrow> \<not> ps_global s \<and> (case g of None \<Rightarrow> True | Some x \<Rightarrow> x \<notin> ps_groups s)))"
  unfolding outsider_def by (auto split: sum.splits option.splits)

lemma scoped_outsider: "outsider (Some ''G'') scoped_devices ''B''"
  by code_simp

lemma operator_edits:
  "settings (dx_devices (snd (alone (serve_device example_device_env (By ''B'' (UpdateDevice ''w'' note_dto))) scoped_devices)) ! 1) =
     (Some ''H'', None, Some ''mine'', PeerActive)"
  by code_simp

theorem outsiders_leave_devices_alone_witness:
  "\<exists>ps. reaches_devices example_device_env (admissible example_device_env (\<lambda>v. v \<noteq> ''u'') (\<lambda>_. True) (\<lambda>g. None \<noteq> Some g) (\<lambda>a. a = ''B''))
       (\<lambda>d'. \<forall>a. a = ''B'' \<longrightarrow> outsider (Some ''G'') d' a) scoped_devices
       (serve_devices example_device_env operator_run scoped_devices, ps) \<and>
     (\<exists>q. device_at (serve_devices example_device_env operator_run scoped_devices) ''u'' = Some q \<and>
        settings q = settings (example_device ''u'' ''100''))"
proof -
  let ?A = "admissible example_device_env (\<lambda>v. v \<noteq> ''u'') (\<lambda>_. True) (\<lambda>g. None \<noteq> Some g) (\<lambda>a. a = ''B'')"
  have all: "list_all ?A operator_run" by (simp add: operator_run_def)
  obtain ps where r: "reaches_devices example_device_env ?A (\<lambda>d'. \<forall>a. a = ''B'' \<longrightarrow> outsider (Some ''G'') d' a) scoped_devices
      (serve_devices example_device_env operator_run scoped_devices, ps)"
    using reaches_device_requests [OF reaches_devices_start all] by blast
  let ?p = "example_device ''u'' ''100''"
  have p: "device_at scoped_devices ''u'' = Some ?p" "distinct (map dp_uuid (dx_devices scoped_devices))"
    "dp_strategy ?p = None" "dp_group ?p = Some ''G''"
    by (simp_all add: device_at_def scoped_devices_def example_device_def)
  have "\<forall>a. a = ''B'' \<longrightarrow> outsider (dp_group ?p) scoped_devices a" using scoped_outsider p(4) by simp
  from outsiders_leave_devices_alone [OF p(1,2) this, unfolded p(3,4), OF r] r show ?thesis by blast
qed

subsection \<open>The buffer\<close>

definition told :: "int \<Rightarrow> peer_update" where
  "told t = \<lparr>pu_id = ''100'', pu_ver = 1, pu_modified = 0, pu_heartbeat = t\<rparr>"

definition buffered_devices :: device_db where
  "buffered_devices = example_devices\<lparr>dx_peer_buffer := [(''u'', told 1)], dx_conns_buffer := [(''u'', [Some 7])]\<rparr>"

definition flushed :: "bool \<Rightarrow> unit result \<times> device_db" where
  "flushed ok = rolled_back (flush_body ok (dx_peer_buffer buffered_devices) (dx_conns_buffer buffered_devices))
     (fold heard [(''u'', told 2, None)] (snd (begin_flush buffered_devices)))"

text \<open>The transaction fails, and the report of time 2 is kept together with the connections of the first.\<close>

theorem flush_loses_nothing_witness:
  "fst (flushed False) = Inl (OtherError ''database is locked'') \<and>
   seen_conns (end_flush (fst (flushed False)) [(''u'', told 1)] [(''u'', [Some 7])] (snd (flushed False))) ''u'' = {Some 7} \<and>
   seen_columns (end_flush (fst (flushed False)) [(''u'', told 1)] [(''u'', [Some 7])] (snd (flushed False))) ''u'' =
     Some (''100'', 1, 0, Some 2)"
proof -
  let ?ps = "[(''u'', told 1)]" and ?cs = "[(''u'', [Some 7])]"
  have ok: "buffers_ok buffered_devices" and u: "device_at buffered_devices ''u'' \<noteq> None"
    by (simp_all add: buffers_ok_def buffered_devices_def example_devices_def device_at_def example_device_def)
  have b: "begin_flush buffered_devices = (Some (?ps, ?cs), snd (begin_flush buffered_devices))"
    by (simp add: begin_flush_def buffered_devices_def example_devices_def)
  have r: "rolled_back (flush_body False ?ps ?cs) (fold heard [(''u'', told 2, None)] (snd (begin_flush buffered_devices))) =
      (fst (flushed False), snd (flushed False))"
    by (simp add: flushed_def buffered_devices_def)
  have "fst (flushed False) = Inl (OtherError ''database is locked'')" by code_simp
  moreover have "seen_conns buffered_devices ''u'' = {Some 7}"
    by (simp add: seen_conns_def getBufferedConns_def buffered_devices_def)
  ultimately show ?thesis
    using flush_loses_nothing [OF ok u b r, of "[]"]
    by (simp add: latest_conns_def latest_columns_def reported_columns_def told_def)
qed

text \<open>At shutdown the first transaction is refused and the second one taken.\<close>

definition shut_down :: "device_reply result \<times> device_db" where
  "shut_down = alone (serve_device example_device_env (ShutDown False True False)) buffered_devices"

theorem shutdown_stores_buffers_witness:
  "dx_conns_buffer (snd shut_down) = [] \<and> Some ` set (stored_conns (snd shut_down) ''u'') = {Some 7} \<and>
   map_option columns (device_at (snd shut_down) ''u'') = Some (''100'', 1, 0, Some 1)"
proof -
  have ok: "buffers_ok buffered_devices" "storable buffered_devices" and u: "device_at buffered_devices ''u'' \<noteq> None"
    by (simp_all add: buffers_ok_def storable_def buffered_devices_def example_devices_def device_at_def example_device_def)
  have run: "alone (serve_device example_device_env (ShutDown False True False)) buffered_devices = (fst shut_down, snd shut_down)"
    by (simp add: shut_down_def)
  have "seen_conns buffered_devices ''u'' = {Some 7}" "seen_columns buffered_devices ''u'' = Some (''100'', 1, 0, Some 1)"
    by (simp_all add: seen_conns_def seen_columns_def getBufferedConns_def buffered_devices_def reported_columns_def told_def)
  with shutdown_stores_buffers [OF ok _ u run] show ?thesis by simp
qed

text \<open>Device \<open>u\<close> reports a \<open>null\<close>; the reports of device \<open>w\<close> are not stored any more.\<close>

definition jam :: device_db where
  "jam = serve_devices example_device_env [beat ''u'' (Some [None])] scoped_devices"

theorem refused_report_blocks_flushes_witness:
  "dx_devices (serve_devices example_device_env
      [ScheduledFlush True True, beat ''w'' (Some [Some 1]), ScheduledFlush True True] jam) = dx_devices scoped_devices \<and>
   dx_conns (serve_devices example_device_env
      [ScheduledFlush True True, beat ''w'' (Some [Some 1]), ScheduledFlush True True] jam) = []"
proof -
  let ?rs = "[ScheduledFlush True True, beat ''w'' (Some [Some 1]), ScheduledFlush True True]"
  have jam: "dx_devices jam = dx_devices scoped_devices" "dx_conns jam = []" "dx_conns_buffer jam = [(''u'', [None])]"
    "map fst (dx_peer_buffer jam) = [''u'']" "\<not> dx_flushing jam" "dx_flushing_conns jam = []"
    by code_simp+
  have ok: "buffers_ok jam" by (simp add: buffers_ok_def jam)
  have u: "device_at jam ''u'' \<noteq> None" and w: "device_at jam ''w'' \<noteq> None"
    by (simp_all add: device_at_def jam scoped_devices_def example_device_def)
  have rs: "list_all (background jam ''u'') ?rs" using w by (simp add: beat_def)
  have E: "\<not> ve_clone_isolation example_device_env" by (simp add: example_device_env_def)
  have c: "getBufferedConns jam ''u'' = Some [None]" by (simp add: getBufferedConns_def jam)
  from refused_report_blocks_flushes [OF E ok u c _ rs] show ?thesis by (simp add: jam)
qed

subsection \<open>A late heartbeat\<close>

text \<open>
  Two first heartbeats of a device are under way. One has looked for a tombstone and found none, and waits;
  the other registers the device, an administrator deletes it, and then the first writes its row: the
  device is back, next to its tombstone.
\<close>

definition nobody_yet :: device_db where
  "nobody_yet = example_devices\<lparr>dx_devices := []\<rparr>"

definition waiting :: device_handler where
  "waiting = snd (run (continue () (snd (run (serve_device example_device_env (beat ''u'' None)) nobody_yet))) nobody_yet)"

definition buried :: device_db where
  "buried = serve_devices example_device_env [beat ''u'' None, By ''A'' (DeleteDevice ''u'' True True)] nobody_yet"

definition revived :: device_db where
  "revived = fst (run (continue () waiting) buried)"

lemma revived_row: "device_at buried ''u'' = None \<and> tombstone_at buried ''u'' \<noteq> None \<and>
    device_at revived ''u'' \<noteq> None \<and> tombstone_at revived ''u'' \<noteq> None"
  by code_simp

lemma reaches_resumed:
  assumes "reaches_devices E A ok d (d1, p # qs)"
  shows "reaches_devices E A ok d (fst (run (continue () p) d1), snd (run (continue () p) d1) # qs)"
proof -
  have "run (continue () p) d1 = (fst (run (continue () p) d1), snd (run (continue () p) d1))" by simp
  from service_step.Resume [OF this, of _ _ _ "[]" qs] assms show ?thesis
    unfolding reaches_devices_def reaches_from_def by (auto intro: rtranclp.rtrancl_into_rtrancl)
qed

lemma reaches_arrived:
  assumes "A r"
  shows "reaches_devices E A ok d (fst (run (serve_device E r) d), [snd (run (serve_device E r) d)])"
proof -
  have "run (serve_device E r) d = (fst (run (serve_device E r) d), snd (run (serve_device E r) d))" by simp
  from service_step.Arrive [of A r "serve_device E", OF assms this, of _ "[]"] show ?thesis
    unfolding reaches_devices_def reaches_from_def by (simp add: r_into_rtranclp)
qed

lemma reaches_devices_later:
  "reaches_devices E A ok d (d1, p # qs) \<Longrightarrow> list_all A rs \<Longrightarrow> \<exists>qs'. reaches_devices E A ok d (serve_devices E rs d1, p # qs')"
proof (induction rs arbitrary: d1 qs)
  case Nil
  then show ?case by (auto simp: serve_devices_def serve_all_from_def)
next
  case (Cons r rs)
  then have "reaches_devices E A ok d (snd (alone (serve_device E r) d1), p # qs @ [Finished (fst (alone (serve_device E r) d1))])"
    using reaches_from_served [of "serve_device E" A _ d d1 "p # qs" r] by (simp add: reaches_devices_def)
  from Cons.IH [OF this] Cons.prems(2) show ?case by (simp add: serve_devices_def serve_all_from_def)
qed

lemma reads_leave_nobody:
  "fst (run (serve_device example_device_env (beat ''u'' None)) nobody_yet) = nobody_yet"
  "fst (run (continue () (snd (run (serve_device example_device_env (beat ''u'' None)) nobody_yet))) nobody_yet) = nobody_yet"
  by (simp_all add: beat_def handleHeartbeat_def device_key_def example_device_env_def admit_heartbeat_def db_read_def
    device_at_def nobody_yet_def)

lemma late_heartbeat_revives:
  "\<exists>qs. reaches_devices example_device_env (\<lambda>_. True) (\<lambda>_. True) nobody_yet (revived, qs)"
proof -
  let ?E = example_device_env
  have "reaches_devices ?E (\<lambda>_. True) (\<lambda>_. True) nobody_yet (nobody_yet, [waiting])"
    using reaches_resumed [OF reaches_arrived [of "\<lambda>_. True" "beat ''u'' None" ?E _ nobody_yet]]
    by (simp only: reads_leave_nobody waiting_def)
  from reaches_devices_later [OF this, of "[beat ''u'' None, By ''A'' (DeleteDevice ''u'' True True)]"]
  obtain qs where "reaches_devices ?E (\<lambda>_. True) (\<lambda>_. True) nobody_yet (buried, waiting # qs)"
    by (auto simp: buried_def)
  from reaches_resumed [OF this] show ?thesis by (auto simp: revived_def)
qed

end
