(* ===== verification/Spec2Isabelle.thy ===== *)
theory Spec2Isabelle
  imports Rbac_Cache User_Role_Service Web_Session_Safety Update_Promises
    Address_Book_Examples Address_Book_Roundtrip Auth_Examples Device_Examples
begin

text \<open>
  A verification development for the RustDesk Console backend (\<open>src/\<close>, TypeScript on NestJS and
  TypeORM). It holds executable definitions of the parts of the program that decide who may do what,
  what is handed out to whom and what is never lost, in the order of the code and under its names,
  with the theorems that make them correct.

  \<^bold>\<open>The program and its parts.\<close> The console is a web backend over one SQL database. Users hold roles,
  roles hold permissions, assignments give a role a scope (everywhere, or some device groups); every
  administrative module asks the authorization service. Users log in with a password, a directory
  account or a passkey, in one step or with a second factor; a login is a token row that later
  requests must still find active. Devices report themselves with heartbeats, get client settings
  (strategies) in return, and stay away once deleted. Address books have their own sharing rules.
  The web client gateway opens remote sessions for browsers: it authorizes a login for a device,
  issues a single-use ticket, checks the handshake messages byte by byte, and keeps asking whether
  the session is still allowed. The updater is a separate pair of processes that replaces the
  application and, when that fails, puts database and application back; it shares with the
  application only files: the journal of jobs and the maintenance fence.

  \<^bold>\<open>Theories and sources.\<close>
  \<^item> \<open>Prelude\<close>: results as sums with \<open>rbind\<close> and \<open>ensure\<close>, JavaScript helpers on lists and strings
    (\<open>js_unique\<close>, \<open>js_trim\<close>, \<open>js_get\<close>), list searches, the collections used by the proofs.
  \<^item> \<open>Permission_Catalog\<close> (\<open>modules/rbac/constants/permission-catalog.ts\<close>): the catalog literally,
    requirements, and the effective codes as the greatest closed part of the stored ones.
  \<^item> \<open>Rbac_Store\<close> (the entities of \<open>modules/rbac\<close>, \<open>rbac-audit.service.ts\<close>): tables as lists, the
    audit log with redaction. \<open>Rbac_Authorization\<close>, \<open>Rbac_Access\<close>, \<open>Rbac_Cache\<close>
    (\<open>rbac-authorization.service.ts\<close>, \<open>rbac-request-scope.ts\<close>, \<open>rbac.guard.ts\<close>): permission scopes,
    protection of accounts, batch checks, strategies' targets, the request cache.
  \<^item> \<open>Role_Service\<close>, \<open>User_Role_Service\<close> (\<open>role.service.ts\<close>, \<open>user-role.service.ts\<close>): creating,
    changing, deleting roles and replacing the roles of a user, as transactions.
  \<^item> \<open>Web_Protocol\<close> (\<open>web-client-protocol.ts\<close>): protobuf fields, varints, UTF-8, the requests and
    replies the gateway lets through. \<open>Web_Authorization\<close> (\<open>web-client-authorization.service.ts\<close>,
    \<open>web-client.service.ts\<close>). \<open>Web_Session\<close>, \<open>Web_Session_Safety\<close> (\<open>web-client-session.service.ts\<close>):
    sessions, tickets and limits as processes interleaved at every \<open>await\<close>.
  \<^item> \<open>Async\<close>: processes as resumable programs over a shared world, their runs, and reachability.
    \<open>Update_Store\<close>, \<open>Update_Journal\<close> (\<open>updater/store.ts\<close>, \<open>maintenance.ts\<close>, \<open>io.ts\<close>): what is
    visible and what is durable, power loss. \<open>Update_Manifest\<close>, \<open>Update_Planner\<close> (\<open>manifest.ts\<close>,
    \<open>catalog.ts\<close>, \<open>planner.ts\<close>): versions, releases, plans. \<open>Update_Worker\<close>, \<open>Update_Control\<close>,
    \<open>Update_Host\<close> (\<open>worker.ts\<close>, \<open>control.ts\<close>, \<open>entrypoint.ts\<close>): the job, its recovery, the control
    process and the host that restarts it. A history, which the code does not see, records for each job
    the actions begun and carried out and the fences written; safety is stated of it, not of the marks
    in the record. \<open>Update_Safety\<close>, \<open>Update_Recovery\<close>, \<open>Update_Guarantees\<close>,
    \<open>Update_Outcome\<close>, \<open>Update_Promises\<close>, \<open>Update_Example\<close>: what holds of all runs.
  \<^item> \<open>Address_Book_Store\<close> to \<open>Address_Book_Roundtrip\<close> (\<open>modules/address-book\<close>): tables and invariants
    (\<open>Store\<close>), the access check (\<open>Access\<close>), rules and profiles (\<open>Rules\<close>), the shared listing
    (\<open>Listing\<close>), devices and tags (\<open>Entries\<close>), the interface of older clients (\<open>Legacy\<close>), all
    requests as one datatype (\<open>Tables\<close>), and what no run of requests can do (\<open>Invariant\<close>,
    \<open>Safety\<close>, \<open>Contents\<close>, \<open>Effects\<close>).

  \<^item> \<open>Service_Steps\<close>: requests as processes that make one database call after the other, all
    interleavings of a service, its answers under their requests, and the rules for what they keep.
  \<^item> \<open>Auth_Store\<close> (entities of \<open>modules/auth\<close> and \<open>modules/user\<close>, \<open>login-session.service.ts\<close>),
    \<open>Auth_Tokens\<close> (\<open>auth-token.service.ts\<close>, \<open>jwt.strategy.ts\<close>, \<open>auth-device.service.ts\<close>,
    \<open>device-identity.util.ts\<close>), \<open>Auth_Login\<close> (\<open>auth.service.ts\<close>, \<open>ldap.service.ts\<close>,
    \<open>auth-email.service.ts\<close>, \<open>auth-tfa.service.ts\<close>, \<open>auth-passkey.service.ts\<close>), \<open>Auth_Accounts\<close>
    (\<open>user.service.ts\<close>, \<open>password-reset.service.ts\<close>). \<open>Auth_Requests\<close>: all
    requests of the controllers as one datatype. \<open>Auth_Invariant\<close>: what each request keeps of any
    property of the tables that a \<open>locale\<close> describes; \<open>Auth_Answers\<close>: each token answered for a login
    session paid with the update that used the session up; \<open>Auth_Safety\<close>, \<open>Auth_Second_Factor\<close>: single
    use of login steps, types of the tables, logins that ended, the second factor.
    \<open>Auth_Examples\<close>: concrete runs.
  \<^item> \<open>Device_Store\<close> (\<open>peer.entity.ts\<close>, \<open>sysinfo.entity.ts\<close>, entities of \<open>modules/device-group\<close>,
    \<open>modules/strategy\<close>, \<open>modules/heartbeat\<close>), \<open>Strategy_Service\<close> (\<open>strategy.service.ts\<close>), \<open>Device_Admin\<close>
    (\<open>device-group.service.ts\<close>, the ban and release calls of \<open>server-management.service.ts\<close>),
    \<open>Device_Reports\<close> (\<open>heartbeat.service.ts\<close>, \<open>heartbeat-cache.service.ts\<close>,
    \<open>disconnect-store.service.ts\<close>, \<open>sysinfo.service.ts\<close>), \<open>Device_Requests\<close>: the requests of the
    controllers. \<open>Device_Invariant\<close>, \<open>Device_Frames\<close>: a \<open>locale\<close> of the changes that occur, and that every
    request keeps what survives them. \<open>Device_Buffer\<close>: the buffer of reports, its flush (also at shutdown),
    and what one bad report does to it. \<open>Device_Safety\<close>, \<open>Device_Examples\<close>: what no interleaving does,
    and concrete runs.

  \<^bold>\<open>How the code is modelled.\<close> A table is a list of records in insertion order, \<open>save\<close> replaces the
  row with the same key or appends, foreign keys that cascade are written out. A service call is a
  function of the tables to a result (\<open>Inl\<close> the HTTP error, \<open>Inr\<close> the value) and the tables after
  it; a transaction puts the tables back on an error, a call outside one keeps what it had written.
  Concurrency is modelled where the code waits in the middle of its own state: the web client
  sessions, the updater, the authentication and the device requests are processes, and the theorems quantify over
  all interleavings and over all answers of what they wait for. A request of the authentication is
  interrupted between any two database calls, a transaction is one step; the clock and the supply of
  identifiers are in the shared state. What it asks of hashing, one-time passwords, signed tokens,
  passkeys, the directory, mail and the settings are the fields of \<open>auth_env\<close>; a token row is found
  by the identifier its token carries. For devices the caches and buffers of the server process are
  part of the state, what becomes of a call to the rendezvous server is an arbitrary sequence, and the
  rest of the program (logins, accounts, roles, address books) may act between any two steps. The
  checks of a request that uses the request cache find a new state of the database each. Elsewhere a
  request is one step, and theorems are about runs of requests. Where the code reads rows without an
  order and shows them in pages, the order is a parameter. Text comparison is exact (binary collation); \<open>LIKE\<close>, \<open>isUUID\<close>, hashing, signatures and
  transports are parameters. New identifiers come from a supply that is fresh for the tables.

  \<^bold>\<open>Bounds and fuel.\<close> Nothing runs out of fuel: recursions are structural or have a measure, waiting
  loops are processes, which have finitely many steps by construction, and that a run of the update
  worker ends, and how, is a theorem (\<open>broken_action_outcome\<close>).
  The search for a free account name (\<open>free_name\<close>) has the number of accounts as fuel, and
  \<open>pick_name_free\<close> shows that this is enough; creating a directory account is tried as often as in the
  code, three times.
  Numbers of the handshake protocol keep their bounds (below 2 to the 32), session limits are those of
  the code (256 and 8).

  \<^bold>\<open>Not modelled.\<close> HTTP routing, validation decorators and serialization, the pool and the SQL
  engine, cryptography, sockets and processes, and the modules listed as not modelled in the
  manifest, each with the reason.
\<close>

end
